(* ===== verification/Prelude.thy ===== *)
theory Prelude
  imports Complex_Main "HOL-Library.AList"
begin

text \<open>
  Shared vocabulary of the development. Money (Python \<open>Decimal\<close>) and server timestamps
  (Python \<open>float\<close> seconds) are rationals; a Python \<open>dict\<close> is an association list in
  insertion order, read with \<open>map_of\<close> and written with \<open>AList.update\<close> (which replaces a
  key in place or appends it, as a \<open>dict\<close> does) and \<open>AList.delete\<close>; JSON payloads are
  values of \<open>json\<close>. The theory also holds the rounding modes of \<open>Decimal.quantize\<close> and
  \<open>round\<close>, decimal literals as \<open>Decimal(str)\<close>/\<open>float(str)\<close> read them, integer printing,
  and the generic lemmas the components share.
\<close>

named_theorems frame_simps
  \<open>what an operation leaves unchanged: the frame lemmas of the components\<close>
named_theorems inv_intros
  \<open>preservation of a component's invariant by its operations\<close>

section \<open>Types\<close>

type_synonym money = rat
type_synonym lots = rat
type_synonym time = rat
type_synonym ticker = string
type_synonym ('k, 'v) dict = "('k \<times> 'v) list"

datatype json =
    JNull
  | JBool bool
  | JInt int
  | JFloat rat
  | JNonFinite
  | JStr string
  | JList "json list"
  | JObj "(string \<times> json) list"

section \<open>Rounding\<close>

text \<open>Python's \<open>round\<close> and the default rounding of \<open>Decimal.quantize\<close>: half to even.\<close>

definition round_half_even :: "rat \<Rightarrow> int" where
  "round_half_even x =
     (let f = \<lfloor>x\<rfloor>; d = x - of_int f in
      if d < 1/2 then f
      else if d > 1/2 then f + 1
      else if even f then f else f + 1)"

definition quantize_he :: "rat \<Rightarrow> rat \<Rightarrow> rat" where
  "quantize_he q x = of_int (round_half_even (x / q)) * q"

definition quantize_ceil :: "rat \<Rightarrow> rat \<Rightarrow> rat" where
  "quantize_ceil q x = of_int \<lceil>x / q\<rceil> * q"

text \<open>\<open>int(x)\<close> on a number: truncation towards zero.\<close>

definition py_trunc :: "rat \<Rightarrow> int" where
  "py_trunc x = (if 0 \<le> x then \<lfloor>x\<rfloor> else \<lceil>x\<rceil>)"

definition cent :: rat where
  "cent = 1/100"

text \<open>Whole multiples of one cent: the tick of a resting price and of a fractional lot count.\<close>

definition whole_cent :: "rat \<Rightarrow> bool" where
  "whole_cent x \<longleftrightarrow> of_int \<lfloor>x * 100\<rfloor> = x * 100"

lemma whole_cent_iff: "whole_cent x \<longleftrightarrow> (\<exists>k. x = of_int k / 100)"
proof
  assume "whole_cent x"
  then have "x * 100 = of_int \<lfloor>x * 100\<rfloor>" unfolding whole_cent_def by (rule sym)
  then have "x = of_int \<lfloor>x * 100\<rfloor> / 100" by linarith
  then show "\<exists>k. x = of_int k / 100" ..
next
  assume "\<exists>k. x = of_int k / 100"
  then obtain k where "x = of_int k / 100" ..
  then have "x * 100 = of_int k" by simp
  then have "of_int \<lfloor>x * 100\<rfloor> = x * 100" by (metis floor_of_int)
  then show "whole_cent x" by (simp only: whole_cent_def)
qed

lemma whole_cent_0 [simp]: "whole_cent 0"
  by (simp add: whole_cent_def)

lemma whole_cent_of_int [simp]: "whole_cent (of_int k)"
proof -
  have "of_int k * 100 = (of_int (k * 100) :: rat)" by simp
  then show ?thesis unfolding whole_cent_def by (metis floor_of_int)
qed

lemma whole_cent_add [intro]: "whole_cent x \<Longrightarrow> whole_cent y \<Longrightarrow> whole_cent (x + y)"
  unfolding whole_cent_iff by (metis add_divide_distrib of_int_add)

lemma whole_cent_diff [intro]: "whole_cent x \<Longrightarrow> whole_cent y \<Longrightarrow> whole_cent (x - y)"
  unfolding whole_cent_iff by (metis diff_divide_distrib of_int_diff)

lemma whole_cent_max [intro]: "whole_cent x \<Longrightarrow> whole_cent y \<Longrightarrow> whole_cent (max x y)"
  by (simp add: max_def)

lemma whole_cent_min [intro]: "whole_cent x \<Longrightarrow> whole_cent y \<Longrightarrow> whole_cent (min x y)"
  by (simp add: min_def)

lemma whole_cent_sum_list: "\<forall>x \<in> set xs. whole_cent x \<Longrightarrow> whole_cent (sum_list xs)"
  by (induction xs) auto

lemma whole_cent_step:
  assumes "whole_cent x" "whole_cent y" "x < y"
  shows "x + 1/100 \<le> y"
proof -
  from assms obtain i j where ij: "x = of_int i / 100" "y = of_int j / 100"
    by (auto simp: whole_cent_iff)
  with assms(3) have "i + 1 \<le> j" by (simp add: divide_less_cancel)
  then have "(of_int (i + 1) :: rat) \<le> of_int j" by (simp only: of_int_le_iff)
  with ij show ?thesis by (simp add: field_simps)
qed

lemma round_half_even_of_int [simp]: "round_half_even (of_int k) = k"
  by (simp add: round_half_even_def Let_def)

lemma round_half_even_error: "\<bar>of_int (round_half_even x) - x\<bar> \<le> 1/2"
proof -
  define f where "f = (of_int \<lfloor>x\<rfloor> :: rat)"
  have "f \<le> x" "x < f + 1" unfolding f_def by linarith+
  then show ?thesis
    unfolding round_half_even_def Let_def of_int_add of_int_1 if_distrib [of of_int] f_def [symmetric]
    by (auto simp: abs_if)
qed

lemma round_half_even_0 [simp]: "round_half_even 0 = 0"
  using round_half_even_of_int [of 0] by simp

lemma quantize_he_whole: "whole_cent x \<Longrightarrow> quantize_he (1/100) x = x"
  by (auto simp: whole_cent_iff quantize_he_def)

lemma whole_cent_quantize_he [simp]: "whole_cent (quantize_he (1/100) x)"
  by (auto simp: whole_cent_iff quantize_he_def)

lemma whole_cent_quantize_ceil [simp]: "whole_cent (quantize_ceil (1/100) x)"
  by (auto simp: whole_cent_iff quantize_ceil_def)

lemma quantize_he_error: "\<bar>quantize_he (1/100) x - x\<bar> \<le> 1/200"
proof -
  have "\<bar>of_int (round_half_even (x * 100)) - x * 100\<bar> \<le> 1/2" by (rule round_half_even_error)
  then show ?thesis by (simp add: quantize_he_def abs_if split: if_splits)
qed

lemma quantize_ceil_ge: "x \<le> quantize_ceil (1/100) x"
proof -
  have "x * 100 \<le> of_int \<lceil>x * 100\<rceil>" by simp
  then show ?thesis by (simp add: quantize_ceil_def)
qed

lemma quantize_ceil_less: "quantize_ceil (1/100) x < x + 1/100"
proof -
  have "of_int \<lceil>x * 100\<rceil> < x * 100 + 1" by linarith
  then show ?thesis by (simp add: quantize_ceil_def)
qed

lemma quantize_ceil_least: "whole_cent y \<Longrightarrow> x \<le> y \<Longrightarrow> quantize_ceil (1/100) x \<le> y"
  using whole_cent_step [of y "quantize_ceil (1/100) x"] quantize_ceil_less [of x] by force

section \<open>Dictionaries\<close>

definition or_else :: "'a option \<Rightarrow> 'a option \<Rightarrow> 'a option" where
  "or_else a b = (case a of None \<Rightarrow> b | Some _ \<Rightarrow> a)"

definition dict_get_default :: "('k, 'v) dict \<Rightarrow> 'k \<Rightarrow> 'v \<Rightarrow> 'v" where
  "dict_get_default d k v = (case map_of d k of None \<Rightarrow> v | Some x \<Rightarrow> x)"

definition dict_keys :: "('k, 'v) dict \<Rightarrow> 'k list" where
  "dict_keys d = map fst d"

definition dict_total :: "('k, rat) dict \<Rightarrow> rat" where
  "dict_total d = sum_list (map snd d)"

lemma map_of_update [simp]: "map_of (AList.update k v d) = (map_of d)(k \<mapsto> v)"
  by (simp add: update_conv')

lemma map_of_delete [simp]: "map_of (AList.delete k d) = (map_of d)(k := None)"
  by (simp add: delete_conv')

lemma distinct_update [intro]:
  "distinct (map fst d) \<Longrightarrow> distinct (map fst (AList.update k v d))"
  by (rule distinct_update)

lemma distinct_delete [intro]:
  "distinct (map fst d) \<Longrightarrow> distinct (map fst (AList.delete k d))"
  by (rule distinct_delete)

lemma set_map_fst_update: "set (map fst (AList.update k v d)) = insert k (set (map fst d))"
  by (induction d) auto

lemma ran_dict_update: "(k', x) \<in> set (AList.update k v d) \<Longrightarrow> x = v \<or> (k', x) \<in> set d"
  by (induction d) (auto split: if_splits)

lemma dict_total_update:
  "distinct (map fst d) \<Longrightarrow>
    dict_total (AList.update k v d) = dict_total d - dict_get_default d k 0 + v"
  by (induction d) (auto simp: dict_total_def dict_get_default_def map_of_eq_None_iff [symmetric]
      split: option.splits)

lemma delete_absent: "k \<notin> fst ` set d \<Longrightarrow> AList.delete k d = d"
  by (induction d) (auto simp: AList.delete_eq)

lemma dict_total_delete:
  "distinct (map fst d) \<Longrightarrow>
    dict_total (AList.delete k d) = dict_total d - dict_get_default d k 0"
proof (induction d)
  case (Cons p d)
  show ?case
  proof (cases "fst p = k")
    case True
    with Cons.prems have "AList.delete k d = d" by (intro delete_absent) auto
    with True show ?thesis
      by (cases p) (simp add: dict_total_def dict_get_default_def AList.delete_eq)
  next
    case False
    with Cons show ?thesis
      by (cases p) (simp add: dict_total_def dict_get_default_def AList.delete_eq)
  qed
qed (simp add: dict_total_def dict_get_default_def)

section \<open>Strings: prefixes, decimal literals, printed integers\<close>

definition starts_with :: "string \<Rightarrow> string \<Rightarrow> bool" where
  "starts_with p s \<longleftrightarrow> take (length p) s = p"

text \<open>The text after, and the text before, the first occurrence of a separator.\<close>

fun after_sub :: "string \<Rightarrow> string \<Rightarrow> string option" where
  "after_sub sep [] = (if sep = [] then Some [] else None)"
| "after_sub sep (c # cs) =
     (if starts_with sep (c # cs) then Some (drop (length sep) (c # cs)) else after_sub sep cs)"

fun before_sub :: "string \<Rightarrow> string \<Rightarrow> string" where
  "before_sub sep [] = []"
| "before_sub sep (c # cs) =
     (if starts_with sep (c # cs) then [] else c # before_sub sep cs)"

definition char_code :: "char \<Rightarrow> int" where
  "char_code c = int (of_char c)"

definition is_digit :: "char \<Rightarrow> bool" where
  "is_digit c \<longleftrightarrow> 48 \<le> char_code c \<and> char_code c \<le> 57"

definition is_space :: "char \<Rightarrow> bool" where
  "is_space c \<longleftrightarrow> c = CHR '' '' \<or> 9 \<le> char_code c \<and> char_code c \<le> 13"

definition strip :: "string \<Rightarrow> string" where
  "strip s = rev (dropWhile is_space (rev (dropWhile is_space s)))"

fun digits_value :: "int \<Rightarrow> string \<Rightarrow> int" where
  "digits_value acc [] = acc"
| "digits_value acc (c # cs) = digits_value (acc * 10 + (char_code c - 48)) cs"

definition take_sign :: "string \<Rightarrow> rat \<times> string" where
  "take_sign s =
     (case s of
        [] \<Rightarrow> (1, [])
      | c # cs \<Rightarrow> if c = CHR ''-'' then (-1, cs) else if c = CHR ''+'' then (1, cs) else (1, s))"

text \<open>
  A finite decimal literal, as \<open>Decimal(s)\<close> and \<open>float(s)\<close> accept it: surrounding blanks, a
  sign, digits with at most one point and at least one digit, an exponent. The spellings of
  infinities and NaN, and digit-group underscores, are read as not parseable.
\<close>

definition parse_exponent :: "string \<Rightarrow> int option" where
  "parse_exponent s =
     (case s of
        [] \<Rightarrow> Some 0
      | c # cs \<Rightarrow>
          if c = CHR ''e'' \<or> c = CHR ''E'' then
            (let (sg, ds) = take_sign cs in
             if ds \<noteq> [] \<and> list_all is_digit ds
             then Some (if sg = 1 then digits_value 0 ds else - digits_value 0 ds) else None)
          else None)"

definition parse_decimal :: "string \<Rightarrow> rat option" where
  "parse_decimal raw =
     (let (sg, s) = take_sign (strip raw);
          ip = takeWhile is_digit s;
          r1 = dropWhile is_digit s;
          (fp, r2) = (if r1 \<noteq> [] \<and> hd r1 = CHR ''.''
                      then (takeWhile is_digit (tl r1), dropWhile is_digit (tl r1))
                      else ([], r1)) in
      if ip = [] \<and> fp = [] then None
      else (case parse_exponent r2 of
              None \<Rightarrow> None
            | Some e \<Rightarrow>
                Some (sg * of_int (digits_value 0 (ip @ fp)) * (10 powi (e - int (length fp))))))"

text \<open>\<open>str(n)\<close> of a non-negative integer: its decimal digits.\<close>

definition digit_char :: "nat \<Rightarrow> char" where
  "digit_char d = char_of (48 + d)"

fun show_nat :: "nat \<Rightarrow> string" where
  "show_nat n = (if n < 10 then [digit_char n] else show_nat (n div 10) @ [digit_char (n mod 10)])"

declare show_nat.simps [simp del]

lemma char_code_digit_char: "d < 10 \<Longrightarrow> char_code (digit_char d) = 48 + int d"
  by (simp add: char_code_def digit_char_def of_char_of)

lemma digits_value_append: "digits_value a (xs @ [c]) = digits_value a xs * 10 + (char_code c - 48)"
  by (induction xs arbitrary: a) auto

lemma digits_value_show_nat: "digits_value 0 (show_nat n) = int n"
proof (induction n rule: show_nat.induct)
  case (1 n)
  show ?case
  proof (cases "n < 10")
    case True
    then show ?thesis by (simp add: show_nat.simps [of n] char_code_digit_char)
  next
    case False
    with 1 have "digits_value 0 (show_nat (n div 10)) = int (n div 10)" by simp
    with False show ?thesis
      by (simp add: show_nat.simps [of n] digits_value_append char_code_digit_char zdiv_int zmod_int)
  qed
qed

lemma show_nat_inj: "show_nat m = show_nat n \<longleftrightarrow> m = n"
  by (metis digits_value_show_nat of_nat_eq_iff)

end
