(* ===== verification/Book.thy ===== *)
theory Book
  imports Prelude
begin

text \<open>
  The order-book mirror of one market (\<open>pilot/service/book.py\<close>): the two bid ladders as
  dictionaries from price to size, the fail-closed suspect flag and the malformed-delta
  counter; \<open>apply_snapshot\<close>, \<open>apply_delta\<close>, \<open>mark_suspect\<close> and the reads
  \<open>best_bid\<close>, the derived asks and \<open>top_of_book\<close>. The book invariant is that both ladders
  have distinct prices and strictly positive sizes. The lemmas show that every operation keeps
  it, that a delta is an exact level update, that a malformed delta changes nothing but the
  flag and the counter, and that the top of book obeys the binary identity.
\<close>

section \<open>Wire numerics\<close>

text \<open>
  \<open>_to_decimal\<close>: \<open>Decimal(str(value))\<close> when it is a finite decimal, else \<open>None\<close>. A
  Boolean, list or object has no decimal spelling.
\<close>

definition to_decimal :: "json \<Rightarrow> rat option" where
  "to_decimal v =
     (case v of
        JInt n \<Rightarrow> Some (of_int n)
      | JFloat x \<Rightarrow> Some x
      | JStr s \<Rightarrow> parse_decimal s
      | _ \<Rightarrow> None)"

section \<open>Data\<close>

record level =
  lv_price :: money
  lv_size :: lots

record top_of_book =
  yes_bid :: "money option"
  yes_bid_size :: "lots option"
  yes_ask :: "money option"
  yes_ask_size :: "lots option"
  no_bid :: "money option"
  no_bid_size :: "lots option"
  no_ask :: "money option"
  no_ask_size :: "lots option"
  suspect :: bool

record book_mirror =
  bm_yes_bids :: "(money, lots) dict"
  bm_no_bids :: "(money, lots) dict"
  bm_suspect :: bool
  bm_malformed :: nat

definition new_book :: book_mirror where
  "new_book = \<lparr>bm_yes_bids = [], bm_no_bids = [], bm_suspect = True, bm_malformed = 0\<rparr>"

section \<open>Mutation\<close>

text \<open>
  \<open>_parse_levels\<close>: a payload that is not iterable gives no levels; a pair that does not
  unpack to two values, or whose price or size does not parse, is skipped; only positive sizes
  are kept. A string or an object is iterable too: its elements are one-character strings, and
  a key that is a string of exactly two characters unpacks to its characters.
\<close>

definition json_pair :: "json \<Rightarrow> (json \<times> json) option" where
  "json_pair v =
     (case v of
        JList [a, b] \<Rightarrow> Some (a, b)
      | JStr [c, d] \<Rightarrow> Some (JStr [c], JStr [d])
      | JObj [(k1, _), (k2, _)] \<Rightarrow> Some (JStr k1, JStr k2)
      | _ \<Rightarrow> None)"

definition json_iter :: "json \<Rightarrow> json list" where
  "json_iter v =
     (case v of
        JList xs \<Rightarrow> xs
      | JStr s \<Rightarrow> map (\<lambda>c. JStr [c]) s
      | JObj kvs \<Rightarrow> map (\<lambda>kv. JStr (fst kv)) kvs
      | _ \<Rightarrow> [])"

fun parse_levels_from :: "(money, lots) dict \<Rightarrow> json list \<Rightarrow> (money, lots) dict" where
  "parse_levels_from book [] = book"
| "parse_levels_from book (pair # rest) =
     parse_levels_from
       (case json_pair pair of
          None \<Rightarrow> book
        | Some (price_raw, size_raw) \<Rightarrow>
            (case (to_decimal price_raw, to_decimal size_raw) of
               (Some price, Some sz) \<Rightarrow> if 0 < sz then AList.update price sz book else book
             | _ \<Rightarrow> book)) rest"

definition parse_levels :: "json \<Rightarrow> (money, lots) dict" where
  "parse_levels raw = parse_levels_from [] (json_iter raw)"

definition json_field :: "(string \<times> json) list \<Rightarrow> string \<Rightarrow> json" where
  "json_field msg k = (case map_of msg k of None \<Rightarrow> JNull | Some v \<Rightarrow> v)"

definition apply_snapshot :: "book_mirror \<Rightarrow> (string \<times> json) list \<Rightarrow> book_mirror" where
  "apply_snapshot b msg =
     b\<lparr>bm_yes_bids := parse_levels (json_field msg ''yes_dollars_fp''),
       bm_no_bids := parse_levels (json_field msg ''no_dollars_fp''),
       bm_suspect := False\<rparr>"

definition mark_malformed :: "book_mirror \<Rightarrow> book_mirror" where
  "mark_malformed b = b\<lparr>bm_malformed := bm_malformed b + 1, bm_suspect := True\<rparr>"

definition mark_suspect :: "book_mirror \<Rightarrow> book_mirror" where
  "mark_suspect b = b\<lparr>bm_suspect := True\<rparr>"

definition delta_level :: "(money, lots) dict \<Rightarrow> money \<Rightarrow> lots \<Rightarrow> (money, lots) dict" where
  "delta_level book price delta =
     (let new_size = dict_get_default book price 0 + delta in
      if new_size \<le> 0 then AList.delete price book else AList.update price new_size book)"

definition apply_delta :: "book_mirror \<Rightarrow> (string \<times> json) list \<Rightarrow> book_mirror" where
  "apply_delta b msg =
     (let side = json_field msg ''side'';
          price = to_decimal (json_field msg ''price_dollars'');
          delta = to_decimal (json_field msg ''delta_fp'') in
      if side = JStr ''yes'' then
        (case (price, delta) of
           (Some p, Some d) \<Rightarrow> b\<lparr>bm_yes_bids := delta_level (bm_yes_bids b) p d\<rparr>
         | _ \<Rightarrow> mark_malformed b)
      else if side = JStr ''no'' then
        (case (price, delta) of
           (Some p, Some d) \<Rightarrow> b\<lparr>bm_no_bids := delta_level (bm_no_bids b) p d\<rparr>
         | _ \<Rightarrow> mark_malformed b)
      else mark_malformed b)"

section \<open>Reads\<close>

definition side_book :: "book_mirror \<Rightarrow> string \<Rightarrow> (money, lots) dict option" where
  "side_book b side =
     (if side = ''yes'' then Some (bm_yes_bids b)
      else if side = ''no'' then Some (bm_no_bids b) else None)"

text \<open>Python's \<open>max\<close> over a non-empty list of levels, keyed by price: the first maximum.\<close>

fun max_level :: "money \<times> lots \<Rightarrow> (money \<times> lots) list \<Rightarrow> money \<times> lots" where
  "max_level best [] = best"
| "max_level best (x # xs) = max_level (if fst best < fst x then x else best) xs"

definition best_bid :: "book_mirror \<Rightarrow> string \<Rightarrow> level option" where
  "best_bid b side =
     (case side_book b side of
        None \<Rightarrow> None
      | Some book \<Rightarrow>
          (case filter (\<lambda>ps. 0 < snd ps) book of
             [] \<Rightarrow> None
           | x # xs \<Rightarrow> (let (p, s) = max_level x xs in Some \<lparr>lv_price = p, lv_size = s\<rparr>)))"

definition derived_ask :: "book_mirror \<Rightarrow> string \<Rightarrow> level option" where
  "derived_ask b opposite =
     (case best_bid b opposite of
        None \<Rightarrow> None
      | Some opp \<Rightarrow> Some \<lparr>lv_price = 1 - lv_price opp, lv_size = lv_size opp\<rparr>)"

definition best_yes_ask :: "book_mirror \<Rightarrow> level option" where
  "best_yes_ask b = derived_ask b ''no''"

definition best_no_ask :: "book_mirror \<Rightarrow> level option" where
  "best_no_ask b = derived_ask b ''yes''"

definition depth_at :: "book_mirror \<Rightarrow> string \<Rightarrow> json \<Rightarrow> lots option" where
  "depth_at b side price =
     (case side_book b side of
        None \<Rightarrow> None
      | Some book \<Rightarrow> (case to_decimal price of None \<Rightarrow> None | Some p \<Rightarrow> map_of book p))"

definition book_top :: "book_mirror \<Rightarrow> top_of_book" where
  "book_top b =
     (let yb = best_bid b ''yes''; nb = best_bid b ''no'';
          ya = best_yes_ask b; na = best_no_ask b in
      \<lparr>yes_bid = map_option lv_price yb, yes_bid_size = map_option lv_size yb,
       yes_ask = map_option lv_price ya, yes_ask_size = map_option lv_size ya,
       no_bid = map_option lv_price nb, no_bid_size = map_option lv_size nb,
       no_ask = map_option lv_price na, no_ask_size = map_option lv_size na,
       suspect = bm_suspect b\<rparr>)"

section \<open>The event stream of one market\<close>

datatype book_event =
    Snapshot "(string \<times> json) list"
  | Delta "(string \<times> json) list"
  | Gap

fun book_step :: "book_mirror \<Rightarrow> book_event \<Rightarrow> book_mirror" where
  "book_step b (Snapshot msg) = apply_snapshot b msg"
| "book_step b (Delta msg) = apply_delta b msg"
| "book_step b Gap = mark_suspect b"

definition book_run :: "book_mirror \<Rightarrow> book_event list \<Rightarrow> book_mirror" where
  "book_run = foldl book_step"

section \<open>Invariant and lemmas\<close>

definition ladder_ok :: "(money, lots) dict \<Rightarrow> bool" where
  "ladder_ok d \<longleftrightarrow> distinct (map fst d) \<and> (\<forall>ps \<in> set d. 0 < snd ps)"

definition book_ok :: "book_mirror \<Rightarrow> bool" where
  "book_ok b \<longleftrightarrow> ladder_ok (bm_yes_bids b) \<and> ladder_ok (bm_no_bids b)"

lemma ladder_ok_Nil [simp]: "ladder_ok []"
  by (simp add: ladder_ok_def)

lemma ladder_ok_update: "ladder_ok d \<Longrightarrow> 0 < v \<Longrightarrow> ladder_ok (AList.update k v d)"
  unfolding ladder_ok_def using ran_dict_update [of _ _ k v d] by fastforce

lemma ladder_ok_delete: "ladder_ok d \<Longrightarrow> ladder_ok (AList.delete k d)"
  unfolding ladder_ok_def using distinct_delete [of d k] by (auto simp: AList.delete_eq)

lemma ladder_ok_delta: "ladder_ok d \<Longrightarrow> ladder_ok (delta_level d p x)"
  by (simp add: delta_level_def Let_def ladder_ok_update ladder_ok_delete)

lemma ladder_ok_parse_from: "ladder_ok d \<Longrightarrow> ladder_ok (parse_levels_from d xs)"
  by (induction xs arbitrary: d) (auto simp: ladder_ok_update split: option.splits prod.splits)

lemma book_ok_new: "book_ok new_book"
  by (simp add: book_ok_def new_book_def)

lemma book_ok_step [inv_intros]: "book_ok b \<Longrightarrow> book_ok (book_step b e)"
  by (cases e) (auto simp: book_ok_def apply_snapshot_def apply_delta_def mark_malformed_def
      mark_suspect_def parse_levels_def Let_def ladder_ok_delta ladder_ok_parse_from
      split: option.splits)

lemma book_ok_run: "book_ok b \<Longrightarrow> book_ok (book_run b es)"
  unfolding book_run_def by (induction es arbitrary: b) (auto intro: book_ok_step)

text \<open>A delta updates exactly its own level, by exactly its amount, and removes a spent level.\<close>

lemma map_of_delta_level:
  "map_of (delta_level d p x) =
    (map_of d)(p := (let n = dict_get_default d p 0 + x in if n \<le> 0 then None else Some n))"
  by (simp add: delta_level_def Let_def)

lemma max_level_mem: "max_level x xs \<in> insert x (set xs)"
  by (induction xs arbitrary: x) auto

lemma max_level_ge: "y \<in> insert x (set xs) \<Longrightarrow> fst y \<le> fst (max_level x xs)"
proof (induction xs arbitrary: x y)
  case (Cons z zs)
  have up: "fst (if fst x < fst z then z else x) \<le> fst (max_level (if fst x < fst z then z else x) zs)"
    by (rule Cons.IH) simp
  show ?case
  proof (cases "y \<in> set zs")
    case True
    then show ?thesis using Cons.IH by simp
  next
    case False
    with Cons.prems up show ?thesis by (auto split: if_splits)
  qed
qed simp

lemma best_bid_Some_iff:
  assumes "book_ok b" and "side_book b side = Some d"
  shows "best_bid b side = Some l \<longleftrightarrow>
    (map_of d (lv_price l) = Some (lv_size l) \<and> (\<forall>p \<in> dom (map_of d). p \<le> lv_price l))"
proof -
  have ok: "ladder_ok d"
    using assms by (auto simp: book_ok_def side_book_def split: if_splits)
  then have all: "filter (\<lambda>ps. 0 < snd ps) d = d" by (auto simp: ladder_ok_def)
  have dist: "distinct (map fst d)" using ok by (simp add: ladder_ok_def)
  show ?thesis
  proof (cases d)
    case Nil
    with assms all show ?thesis by (simp add: best_bid_def)
  next
    case (Cons x xs)
    let ?m = "max_level x xs"
    have mem: "?m \<in> set d" using max_level_mem [of x xs] Cons by simp
    have top: "\<forall>p \<in> dom (map_of d). p \<le> fst ?m"
      using max_level_ge [of _ x xs] Cons by (auto simp: dom_map_of_conv_image_fst)
    have val: "map_of d (fst ?m) = Some (snd ?m)"
      using mem dist by (simp add: map_of_eq_Some_iff)
    have "best_bid b side = Some \<lparr>lv_price = fst ?m, lv_size = snd ?m\<rparr>"
      using assms all Cons by (simp add: best_bid_def case_prod_beta)
    moreover have "fst ?m = lv_price l"
      if "map_of d (lv_price l) = Some (lv_size l)" "\<forall>p \<in> dom (map_of d). p \<le> lv_price l"
      using that top val by (metis domI order_antisym)
    ultimately show ?thesis using val top by (cases l) auto
  qed
qed

lemma best_bid_None_iff:
  assumes "book_ok b" and "side_book b side = Some d"
  shows "best_bid b side = None \<longleftrightarrow> d = []"
proof -
  have "ladder_ok d"
    using assms by (auto simp: book_ok_def side_book_def split: if_splits)
  then have "filter (\<lambda>ps. 0 < snd ps) d = d" by (auto simp: ladder_ok_def)
  with assms show ?thesis by (auto simp: best_bid_def case_prod_beta split: list.splits)
qed

text \<open>The binary identity: an ask is one minus the other side's best bid, at its size.\<close>

lemma top_binary_identity:
  "yes_ask (book_top b) = map_option (\<lambda>p. 1 - p) (no_bid (book_top b))"
  "no_ask (book_top b) = map_option (\<lambda>p. 1 - p) (yes_bid (book_top b))"
  "yes_ask_size (book_top b) = no_bid_size (book_top b)"
  "no_ask_size (book_top b) = yes_bid_size (book_top b)"
  by (simp_all add: book_top_def Let_def best_yes_ask_def best_no_ask_def derived_ask_def
      option.map_comp comp_def split: option.splits)

section \<open>The abstract book\<close>

text \<open>
  What the mirror stands for: a partial map from prices to sizes for each side. A snapshot sets
  each map to the positive levels of its payload, the last entry of a price winning; a
  well-formed delta adds to one level and drops it when nothing is left; anything else only
  counts as malformed and makes the book suspect.
\<close>

record abs_book =
  ab_yes :: "money \<rightharpoonup> lots"
  ab_no :: "money \<rightharpoonup> lots"
  ab_suspect :: bool
  ab_malformed :: nat

definition book_abs :: "book_mirror \<Rightarrow> abs_book" where
  "book_abs b =
     \<lparr>ab_yes = map_of (bm_yes_bids b), ab_no = map_of (bm_no_bids b), ab_suspect = bm_suspect b,
      ab_malformed = bm_malformed b\<rparr>"

definition good_level :: "json \<Rightarrow> (money \<times> lots) option" where
  "good_level pair =
     (case json_pair pair of
        None \<Rightarrow> None
      | Some (price_raw, size_raw) \<Rightarrow>
          (case (to_decimal price_raw, to_decimal size_raw) of
             (Some price, Some sz) \<Rightarrow> if 0 < sz then Some (price, sz) else None
           | _ \<Rightarrow> None))"

definition abs_levels :: "json \<Rightarrow> money \<rightharpoonup> lots" where
  "abs_levels raw = map_of (rev (List.map_filter good_level (json_iter raw)))"

definition abs_add :: "(money \<rightharpoonup> lots) \<Rightarrow> money \<Rightarrow> lots \<Rightarrow> money \<rightharpoonup> lots" where
  "abs_add m p d =
     (let n = (case m p of None \<Rightarrow> 0 | Some s \<Rightarrow> s) + d in m(p := (if n \<le> 0 then None else Some n)))"

datatype delta_view = On_Yes money lots | On_No money lots | Malformed

definition view_delta :: "(string \<times> json) list \<Rightarrow> delta_view" where
  "view_delta msg =
     (case (to_decimal (json_field msg ''price_dollars''), to_decimal (json_field msg ''delta_fp'')) of
        (Some p, Some d) \<Rightarrow>
          if json_field msg ''side'' = JStr ''yes'' then On_Yes p d
          else if json_field msg ''side'' = JStr ''no'' then On_No p d else Malformed
      | _ \<Rightarrow> Malformed)"

fun abs_step :: "abs_book \<Rightarrow> book_event \<Rightarrow> abs_book" where
  "abs_step a (Snapshot msg) =
     a\<lparr>ab_yes := abs_levels (json_field msg ''yes_dollars_fp''),
       ab_no := abs_levels (json_field msg ''no_dollars_fp''), ab_suspect := False\<rparr>"
| "abs_step a (Delta msg) =
     (case view_delta msg of
        On_Yes p d \<Rightarrow> a\<lparr>ab_yes := abs_add (ab_yes a) p d\<rparr>
      | On_No p d \<Rightarrow> a\<lparr>ab_no := abs_add (ab_no a) p d\<rparr>
      | Malformed \<Rightarrow> a\<lparr>ab_suspect := True, ab_malformed := ab_malformed a + 1\<rparr>)"
| "abs_step a Gap = a\<lparr>ab_suspect := True\<rparr>"

lemma map_of_parse_from:
  "map_of (parse_levels_from d xs) = map_of d ++ map_of (rev (List.map_filter good_level xs))"
proof (induction xs arbitrary: d)
  case (Cons x xs)
  show ?case
  proof (cases "good_level x")
    case None
    then have "parse_levels_from d (x # xs) = parse_levels_from d xs"
      by (auto simp: good_level_def split: option.splits prod.splits if_splits)
    with Cons None show ?thesis by (simp add: List.map_filter_simps)
  next
    case (Some ps)
    then have "parse_levels_from d (x # xs) = parse_levels_from (AList.update (fst ps) (snd ps) d) xs"
      by (auto simp: good_level_def split: option.splits prod.splits if_splits)
    with Cons Some show ?thesis
      by (cases ps) (auto simp: List.map_filter_simps map_add_def fun_eq_iff split: option.splits)
  qed
qed (simp add: List.map_filter_simps)

lemma map_of_parse_levels: "map_of (parse_levels raw) = abs_levels raw"
  by (simp add: parse_levels_def abs_levels_def map_of_parse_from)

lemma map_of_delta_abs: "map_of (delta_level d p x) = abs_add (map_of d) p x"
  by (simp add: map_of_delta_level abs_add_def dict_get_default_def Let_def)

lemma book_abs_step: "book_abs (book_step b e) = abs_step (book_abs b) e"
proof (cases e)
  case (Snapshot msg)
  then show ?thesis by (simp add: book_abs_def apply_snapshot_def map_of_parse_levels)
next
  case (Delta msg)
  then show ?thesis
    by (auto simp: book_abs_def apply_delta_def view_delta_def mark_malformed_def Let_def
        map_of_delta_abs split: option.splits)
next
  case Gap
  then show ?thesis by (simp add: book_abs_def mark_suspect_def)
qed

lemma book_abs_run: "book_abs (book_run b es) = foldl abs_step (book_abs b) es"
  unfolding book_run_def by (induction es arbitrary: b) (simp_all add: book_abs_step)

text \<open>The best price of a side of the abstract book.\<close>

definition best_price :: "(money, lots) dict \<Rightarrow> money option" where
  "best_price d = (if d = [] then None else Some (Max (fst ` set d)))"

lemma best_bid_price:
  assumes "book_ok b" and "side_book b side = Some d"
  shows "map_option lv_price (best_bid b side) = best_price d"
    and "map_option lv_size (best_bid b side) = Option.bind (best_price d) (map_of d)"
proof -
  have "map_option lv_price (best_bid b side) = best_price d \<and>
    map_option lv_size (best_bid b side) = Option.bind (best_price d) (map_of d)"
  proof (cases "best_bid b side")
    case None
    with best_bid_None_iff [OF assms] show ?thesis by (simp add: best_price_def)
  next
    case (Some l)
    with best_bid_Some_iff [OF assms] have l: "map_of d (lv_price l) = Some (lv_size l)"
      "\<forall>p \<in> fst ` set d. p \<le> lv_price l"
      by (auto simp: dom_map_of_conv_image_fst)
    from l(1) have mem: "lv_price l \<in> fst ` set d" by (force dest: map_of_SomeD)
    with l(2) have "Max (fst ` set d) = lv_price l" by (intro Max_eqI) auto
    moreover have "d \<noteq> []" using mem by auto
    ultimately show ?thesis using l(1) Some by (simp add: best_price_def)
  qed
  then show "map_option lv_price (best_bid b side) = best_price d"
    "map_option lv_size (best_bid b side) = Option.bind (best_price d) (map_of d)" by blast+
qed

lemma book_top_best:
  assumes "book_ok b"
  shows "yes_bid (book_top b) = best_price (bm_yes_bids b)"
    "no_bid (book_top b) = best_price (bm_no_bids b)"
    "yes_bid_size (book_top b) = Option.bind (best_price (bm_yes_bids b)) (map_of (bm_yes_bids b))"
    "no_bid_size (book_top b) = Option.bind (best_price (bm_no_bids b)) (map_of (bm_no_bids b))"
  using best_bid_price [OF assms, of "''yes''"] best_bid_price [OF assms, of "''no''"]
  by (simp_all add: book_top_def Let_def side_book_def)

end
