(* ===== verification/Policy_Read.thy ===== *)
theory Policy_Read
  imports Book
begin

text \<open>
  Reading the frozen policy files. The three loaders (\<open>policy.load_policy\<close>,
  \<open>box.load_box_policy\<close>, \<open>v32.params.load_v32_params\<close>) check the canonical SHA-256 of the
  parsed object first and then read their keys one by one; this theory holds the error values,
  the conversions \<open>int\<close>, \<open>float\<close> and \<open>Decimal(str(_))\<close> of a JSON value, and the sequencing of
  fallible reads. \<open>hashlib\<close> is not modelled: the digest is an argument of each loader.
\<close>

datatype params_error =
    ShaMismatch string
  | ParamsInvalid
  | KeyMissing string
  | BadValue string

text \<open>
  Reading one required key of the policy JSON. A missing key is a \<open>KeyError\<close>, a value of the
  wrong shape a \<open>BadValue\<close> (\<open>InvalidOperation\<close>, \<open>ValueError\<close>, \<open>TypeError\<close>).
\<close>

definition json_int :: "json \<Rightarrow> int option" where
  "json_int v =
     (case v of
        JInt n \<Rightarrow> Some n
      | JBool b \<Rightarrow> Some (if b then 1 else 0)
      | JFloat x \<Rightarrow> Some (py_trunc x)
      | JStr s \<Rightarrow>
          (let (sg, ds) = take_sign (strip s) in
           if ds \<noteq> [] \<and> list_all is_digit ds
           then Some (if sg = 1 then digits_value 0 ds else - digits_value 0 ds) else None)
      | _ \<Rightarrow> None)"

definition json_float :: "json \<Rightarrow> rat option" where
  "json_float v = (case v of JBool b \<Rightarrow> Some (if b then 1 else 0) | _ \<Rightarrow> to_decimal v)"

definition need :: "(json \<Rightarrow> 'a option) \<Rightarrow> (string \<times> json) list \<Rightarrow> string \<Rightarrow> params_error + 'a" where
  "need rd raw k =
     (case map_of raw k of
        None \<Rightarrow> Inl (KeyMissing k)
      | Some v \<Rightarrow> (case rd v of None \<Rightarrow> Inl (BadValue k) | Some x \<Rightarrow> Inr x))"

definition bind_r :: "'e + 'a \<Rightarrow> ('a \<Rightarrow> 'e + 'b) \<Rightarrow> 'e + 'b" where
  "bind_r r f = (case r of Inl e \<Rightarrow> Inl e | Inr x \<Rightarrow> f x)"

lemma bind_r_simps [simp]: "bind_r (Inl e) f = Inl e" "bind_r (Inr x) f = f x"
  by (simp_all add: bind_r_def)

lemma bind_r_Inr_iff: "bind_r r f = Inr y \<longleftrightarrow> (\<exists>x. r = Inr x \<and> f x = Inr y)"
  by (cases r) auto

definition json_decimals :: "json \<Rightarrow> rat list option" where
  "json_decimals v =
     (case v of JList xs \<Rightarrow> those (map to_decimal xs) | _ \<Rightarrow> None)"

definition sha_refused :: "string \<Rightarrow> string option \<Rightarrow> bool" where
  "sha_refused sha expected \<longleftrightarrow> expected \<noteq> None \<and> expected \<noteq> Some sha"

end
