(* ===== verification/V32_Types.thy ===== *)
theory V32_Types
  imports Policy_Read
begin

text \<open>
  The vocabulary of the V3.2 core: the frozen policy (\<open>v32/params.py\<close>), the actions with
  their shakedown twins (\<open>v32/actions.py\<close>), the events and the ticker classifiers
  (\<open>v32/events.py\<close>), and the records of the window state (\<open>v32/core.py\<close>). Optional
  fields are \<open>option\<close>; the Python strings \<open>"yes"\<close>/\<open>"no"\<close> stay strings, the leg status
  is a datatype.
\<close>

section \<open>The policy\<close>

record v32_params =
  p_E :: money
  p_tol :: money
  p_deb_ms :: int
  p_quote_start_s :: int
  p_quote_end_s :: int
  p_contracts :: int
  p_wing_margin :: money
  p_lock_floor :: money
  p_no_orders_after_s :: int
  p_freshness_max_age_s :: time
  p_bucket_freshness_max_age_s :: time
  p_max_sets_per_hour :: int
  p_n_min :: money
  p_replace_rate_alarm :: int
  p_bucket_width :: int
  p_shadow_Es :: "money list"
  p_sha256 :: string

text \<open>
  \<open>load_v32_params\<close> on the parsed JSON object, with the canonical SHA-256 of that object an
  argument (\<open>hashlib\<close> is not modelled). The sha is checked first, then \<open>E\<close> and the shadow
  ladder, then the remaining keys in the order of the constructor call.
\<close>

definition load_v32_params ::
  "string \<Rightarrow> (string \<times> json) list \<Rightarrow> string option \<Rightarrow> params_error + v32_params" where
  "load_v32_params sha raw expected =
     (if expected \<noteq> None \<and> expected \<noteq> Some sha then Inl (ShaMismatch sha) else
      bind_r (need to_decimal raw ''E'') (\<lambda>E.
      bind_r (need json_decimals raw ''shadow_Es'') (\<lambda>Es.
      if E \<notin> set Es then Inl ParamsInvalid else
      bind_r (need to_decimal raw ''tol'') (\<lambda>tol.
      bind_r (need json_int raw ''deb_ms'') (\<lambda>deb.
      bind_r (need json_int raw ''quote_start_s'') (\<lambda>qs.
      bind_r (need json_int raw ''quote_end_s'') (\<lambda>qe.
      bind_r (need json_int raw ''contracts'') (\<lambda>con.
      bind_r (need to_decimal raw ''wing_margin'') (\<lambda>wm.
      bind_r (need to_decimal raw ''lock_floor'') (\<lambda>lf.
      bind_r (need json_int raw ''no_orders_after_s_to_settle'') (\<lambda>noa.
      bind_r (need json_float raw ''freshness_max_age_s'') (\<lambda>fr.
      bind_r (need json_float raw ''bucket_freshness_max_age_s'') (\<lambda>bf.
      bind_r (need json_int raw ''max_sets_per_hour'') (\<lambda>ms.
      bind_r (need to_decimal raw ''n_min'') (\<lambda>nm.
      bind_r (need json_int raw ''replace_rate_alarm_per_min'') (\<lambda>rr.
      bind_r (need json_int raw ''bucket_width'') (\<lambda>bw.
      Inr \<lparr>p_E = E, p_tol = tol, p_deb_ms = deb, p_quote_start_s = qs, p_quote_end_s = qe,
           p_contracts = con, p_wing_margin = wm, p_lock_floor = lf, p_no_orders_after_s = noa,
           p_freshness_max_age_s = fr, p_bucket_freshness_max_age_s = bf,
           p_max_sets_per_hour = ms, p_n_min = nm, p_replace_rate_alarm = rr,
           p_bucket_width = bw, p_shadow_Es = Es, p_sha256 = sha\<rparr>)))))))))))))))))"

section \<open>Actions\<close>

datatype action_kind =
    PLACE_REST | CANCEL_REST | AMEND_REST | TAKE_WINGS | RETRY_WING | STAND_DOWN
  | SHADOW_FILL_OUTSIDE_WINDOW | SHADOW_FILL_BELOW_MIN
  | WOULD_PLACE_REST | WOULD_CANCEL_REST | WOULD_AMEND_REST | WOULD_TAKE_WINGS

fun would_twin :: "action_kind \<Rightarrow> action_kind option" where
  "would_twin PLACE_REST = Some WOULD_PLACE_REST"
| "would_twin CANCEL_REST = Some WOULD_CANCEL_REST"
| "would_twin AMEND_REST = Some WOULD_AMEND_REST"
| "would_twin TAKE_WINGS = Some WOULD_TAKE_WINGS"
| "would_twin RETRY_WING = Some WOULD_TAKE_WINGS"
| "would_twin _ = None"

definition twin_kind :: "action_kind \<Rightarrow> bool \<Rightarrow> action_kind" where
  "twin_kind kind shakedown =
     (if \<not> shakedown then kind else case would_twin kind of Some k \<Rightarrow> k | None \<Rightarrow> kind)"

record leg_order =
  lo_ticker :: ticker
  lo_side :: string
  lo_action :: string
  lo_count :: lots
  lo_limit :: money

record v32_action =
  a_kind :: action_kind
  a_ticker :: "ticker option"
  a_side :: "string option"
  a_action :: "string option"
  a_count :: lots
  a_price :: "money option"
  a_expiration_epoch :: "int option"
  a_coid :: "string option"
  a_order_id :: "string option"
  a_updated_coid :: "string option"
  a_legs :: "leg_order list"
  a_reason :: "string option"
  a_lock :: "money option"
  a_shadow_E :: "money option"
  a_offer :: "money option"
  a_print_price :: "money option"
  a_t_to_close :: "time option"

text \<open>The dataclass defaults: every field but the kind.\<close>

definition blank_action :: "action_kind \<Rightarrow> v32_action" where
  "blank_action kind =
     \<lparr>a_kind = kind, a_ticker = None, a_side = None, a_action = None, a_count = 0,
      a_price = None, a_expiration_epoch = None, a_coid = None, a_order_id = None,
      a_updated_coid = None, a_legs = [], a_reason = None, a_lock = None, a_shadow_E = None,
      a_offer = None, a_print_price = None, a_t_to_close = None\<rparr>"

definition BUY_YES :: string where "BUY_YES = ''yes''"
definition BUY_NO :: string where "BUY_NO = ''no''"

section \<open>Events\<close>

record book_update =
  bu_market :: ticker
  bu_top :: top_of_book
  bu_server_ts :: time
  bu_book_ts :: "time option"

record trade =
  tr_market :: ticker
  tr_yes_price :: money
  tr_taker_side :: string
  tr_count :: lots
  tr_server_ts :: time

record fill =
  fi_order_id :: "string option"
  fi_coid :: string
  fi_count :: lots
  fi_price :: money
  fi_side :: string
  fi_server_ts :: time

record order_ack =
  oa_coid :: string
  oa_order_id :: string
  oa_server_ts :: time

record order_cancelled =
  oc_order_id :: "string option"
  oc_server_ts :: time
  oc_filled_before :: lots

record order_amended =
  om_order_id :: "string option"
  om_coid :: string
  om_price :: "money option"
  om_server_ts :: time
  om_remaining_count :: lots
  om_fill_count :: lots
  om_average_fill_price :: "money option"

datatype v32_event =
    EBook book_update
  | ETrade trade
  | EFill fill
  | EAck order_ack
  | ECancelled order_cancelled
  | EAmended order_amended
  | EClock time

fun event_ts :: "v32_event \<Rightarrow> time" where
  "event_ts (EBook e) = bu_server_ts e"
| "event_ts (ETrade e) = tr_server_ts e"
| "event_ts (EFill e) = fi_server_ts e"
| "event_ts (EAck e) = oa_server_ts e"
| "event_ts (ECancelled e) = oc_server_ts e"
| "event_ts (EAmended e) = om_server_ts e"
| "event_ts (EClock t) = t"

subsection \<open>Ticker classifiers\<close>

definition STRIKE_SERIES_PREFIX :: string where
  "STRIKE_SERIES_PREFIX = ''KXBTCD''"

definition parse_strike_ticker :: "ticker \<Rightarrow> string \<Rightarrow> int option" where
  "parse_strike_ticker tk pre =
     (if \<not> starts_with (pre @ ''-'') tk then None
      else (case after_sub ''-T'' tk of
              None \<Rightarrow> None
            | Some rest \<Rightarrow>
                map_option (\<lambda>x. round_half_even (x + 1/100)) (parse_decimal (before_sub ''-T'' rest))))"

type_synonym bucket_map = "(ticker, time \<times> time) dict"

definition parse_bucket_ticker :: "ticker \<Rightarrow> bucket_map \<Rightarrow> int option" where
  "parse_bucket_ticker tk bmap = map_option (\<lambda>fc. round_half_even (fst fc)) (map_of bmap tk)"

datatype market_class = StrikeMarket int | BucketMarket int

definition classify_ticker ::
  "ticker \<Rightarrow> bucket_map \<Rightarrow> (ticker, int) dict \<Rightarrow> market_class option" where
  "classify_ticker tk bmap strike_floor_map =
     (case map_of bmap tk of
        Some fc \<Rightarrow> Some (BucketMarket (round_half_even (fst fc)))
      | None \<Rightarrow>
          (case map_of strike_floor_map tk of
             Some k \<Rightarrow> Some (StrikeMarket k)
           | None \<Rightarrow>
               (case parse_strike_ticker tk STRIKE_SERIES_PREFIX of
                  Some k \<Rightarrow> Some (StrikeMarket k)
                | None \<Rightarrow> None)))"

section \<open>Records carried in the state\<close>

record rest_order =
  ro_coid :: string
  ro_order_id :: "string option"
  ro_price :: money
  ro_count :: lots
  ro_placed_ts :: time
  ro_live :: bool
  ro_pending :: bool
  ro_bucket_Sd :: "int option"

record rest_fill =
  rf_price :: money
  rf_count :: lots
  rf_server_ts :: time

datatype leg_status = Pending | Filled | Unfilled

record wing_leg =
  wl_ticker :: ticker
  wl_side :: string
  wl_count :: lots
  wl_limit :: money
  wl_coid :: string
  wl_status :: leg_status
  wl_fill_price :: "money option"
  wl_fill_fee :: "money option"
  wl_batch :: nat

record wing_batch =
  wb_index :: nat
  wb_fill_price :: money
  wb_fill_count :: lots
  wb_server_ts :: time
  wb_taken :: bool
  wb_completed :: bool
  wb_one_legged :: bool

record shadow_fill =
  sf_E :: money
  sf_n :: money
  sf_offer :: money
  sf_print_price :: money
  sf_count :: lots
  sf_server_ts :: time
  sf_W_at_completion :: "money option"
  sf_lock :: "money option"

record shadow_sub =
  ss_E :: money
  ss_n :: "money option"
  ss_filled :: bool
  ss_fill :: "shadow_fill option"
  ss_awaiting :: bool

text \<open>
  \<open>V32State\<close>. The shadow dictionary is keyed by the edge \<open>E\<close> itself where the source uses
  \<open>str(E)\<close>; the key is never read back.
\<close>

record v32_state =
  v_close_time :: string
  v_close_epoch :: int
  v_bucket_map :: bucket_map
  v_shakedown :: bool
  v_strike_tops :: "(int, top_of_book) dict"
  v_strike_ts :: "(int, time) dict"
  v_strike_tickers :: "(int, ticker) dict"
  v_strike_floor_map :: "(ticker, int) dict"
  v_bucket_tops :: "(int, top_of_book) dict"
  v_bucket_ts :: "(int, time) dict"
  v_bucket_tickers :: "(int, ticker) dict"
  v_spot_Sd :: "int option"
  v_spot_Su :: "int option"
  v_W :: "money option"
  v_cap :: "money option"
  v_desired_n :: "money option"
  v_spot_bucket_stale :: bool
  v_rest_live :: "rest_order option"
  v_rest_pending :: "rest_order option"
  v_cancel_in_flight :: bool
  v_amend_in_flight :: bool
  v_awaiting_replace :: bool
  v_rest_bucket_Sd :: "int option"
  v_last_replace_ts :: "time option"
  v_replace_count :: nat
  v_replace_times :: "time list"
  v_coid_seq :: nat
  v_rest_fill :: "rest_fill option"
  v_wings_needed :: bool
  v_wing_taken :: bool
  v_wing_legs :: "wing_leg list"
  v_sets_done :: nat
  v_one_legged :: bool
  v_wing_batches :: "wing_batch list"
  v_rest_fills :: "rest_fill list"
  v_rest_remaining :: "lots option"
  v_rest_allotment_done :: bool
  v_rest_booked :: "(string, lots) dict"
  v_next_batch_index :: nat
  v_partial_fills :: nat
  v_cancel_ctx :: "(string, string \<times> money) dict"
  v_amend_cross_pending :: "(string, lots) dict"
  v_shadows :: "(money, shadow_sub) dict"
  v_stood_down :: bool
  v_stand_down_reason :: "string option"
  v_last_standdown_reason :: "string option"

definition fresh_shadow :: "money \<Rightarrow> shadow_sub" where
  "fresh_shadow E = \<lparr>ss_E = E, ss_n = None, ss_filled = False, ss_fill = None, ss_awaiting = False\<rparr>"

definition new_v32_state ::
  "string \<Rightarrow> int \<Rightarrow> bucket_map \<Rightarrow> v32_params \<Rightarrow> bool \<Rightarrow> v32_state" where
  "new_v32_state close_time close_epoch bmap params shakedown =
     \<lparr>v_close_time = close_time, v_close_epoch = close_epoch, v_bucket_map = bmap,
      v_shakedown = shakedown,
      v_strike_tops = [], v_strike_ts = [], v_strike_tickers = [], v_strike_floor_map = [],
      v_bucket_tops = [], v_bucket_ts = [], v_bucket_tickers = [],
      v_spot_Sd = None, v_spot_Su = None, v_W = None, v_cap = None, v_desired_n = None,
      v_spot_bucket_stale = False,
      v_rest_live = None, v_rest_pending = None, v_cancel_in_flight = False,
      v_amend_in_flight = False, v_awaiting_replace = False, v_rest_bucket_Sd = None,
      v_last_replace_ts = None, v_replace_count = 0, v_replace_times = [], v_coid_seq = 0,
      v_rest_fill = None, v_wings_needed = False, v_wing_taken = False, v_wing_legs = [],
      v_sets_done = 0, v_one_legged = False,
      v_wing_batches = [], v_rest_fills = [], v_rest_remaining = None,
      v_rest_allotment_done = False, v_rest_booked = [], v_next_batch_index = 0,
      v_partial_fills = 0, v_cancel_ctx = [], v_amend_cross_pending = [],
      v_shadows = foldl (\<lambda>d E. AList.update E (fresh_shadow E) d) [] (p_shadow_Es params),
      v_stood_down = False, v_stand_down_reason = None, v_last_standdown_reason = None\<rparr>"

section \<open>Lemmas on the vocabulary\<close>

text \<open>Kinds that create or reprice an order, and kinds that touch the venue at all.\<close>

definition order_kinds :: "action_kind list" where
  "order_kinds = [PLACE_REST, AMEND_REST, TAKE_WINGS, RETRY_WING]"

definition venue_kinds :: "action_kind list" where
  "venue_kinds = CANCEL_REST # order_kinds"

lemma twin_kind_not_venue: "twin_kind k True \<notin> set venue_kinds"
  by (cases k) (simp_all add: twin_kind_def venue_kinds_def order_kinds_def)

lemma twin_kind_live [simp]: "twin_kind k False = k"
  by (simp add: twin_kind_def)

lemma blank_action_simps [simp]:
  "a_kind (blank_action k) = k" "a_legs (blank_action k) = []" "a_price (blank_action k) = None"
  "a_reason (blank_action k) = None" "a_coid (blank_action k) = None"
  by (simp_all add: blank_action_def)

lemma load_v32_params_edge_on_ladder:
  "load_v32_params sha raw expected = Inr p \<Longrightarrow>
    p_E p \<in> set (p_shadow_Es p) \<and> p_sha256 p = sha \<and> (expected = None \<or> expected = Some sha)"
  by (auto simp: load_v32_params_def bind_r_Inr_iff split: if_splits)

end
