(* ===== verification/Money.thy ===== *)
theory Money
  imports Prelude
begin

text \<open>
  The money primitives of the pilot: the audited census taker fee (\<open>sim/census.py fee\<close>,
  re-exported by \<open>_simlaw.py\<close>), the rest-price solver \<open>solve_n\<close>, the wing cost \<open>W\<close> and
  the lock value (\<open>pilot/service/v32/core.py\<close>). The lemmas show that the fee is a
  non-negative, side-symmetric rounding-up of \<open>0.07 p (1 - p)\<close>, that the fee-inclusive cost
  is strictly increasing over whole cents, and that \<open>solve_n\<close> finds the largest whole-cent
  price within budget and cap.
\<close>

section \<open>The taker fee\<close>

definition fee_rate :: rat where
  "fee_rate = 7/100"

definition fee :: "money \<Rightarrow> money" where
  "fee p = of_int \<lceil>fee_rate * p * (1 - p) * 10000\<rceil> / 10000"

lemma fee_golden:
  "fee (57/100) = 172/10000" "fee (46/100) = 174/10000"
  "fee (24/100) = 128/10000" "fee (11/100) = 69/10000"
  by (simp_all add: fee_def fee_rate_def ceiling_eq_iff)

lemma fee_ge_raw: "fee_rate * p * (1 - p) \<le> fee p"
  unfolding fee_def by (simp add: pos_le_divide_eq) 

lemma fee_less_raw: "fee p < fee_rate * p * (1 - p) + 1/10000"
proof -
  have "of_int \<lceil>fee_rate * p * (1 - p) * 10000\<rceil> < fee_rate * p * (1 - p) * 10000 + 1"
    by linarith
  then show ?thesis by (simp add: fee_def field_simps)
qed

lemma fee_sym: "fee (1 - p) = fee p"
  by (simp add: fee_def mult.commute mult.left_commute)

lemma fee_nonneg: "0 \<le> p \<Longrightarrow> p \<le> 1 \<Longrightarrow> 0 \<le> fee p"
  by (rule order_trans [OF _ fee_ge_raw]) (simp add: fee_rate_def)

lemma quarter_bound: "p * (1 - p) \<le> (1/4 :: rat)"
proof -
  have "0 \<le> (p - 1/2)\<^sup>2" by simp
  then show ?thesis by (simp add: power2_eq_square algebra_simps)
qed

lemma fee_le_max: "fee p \<le> 175/10000"
proof -
  have "fee_rate * p * (1 - p) * 10000 \<le> 175"
    using quarter_bound [of p] by (simp add: fee_rate_def algebra_simps)
  then have "\<lceil>fee_rate * p * (1 - p) * 10000\<rceil> \<le> 175" by linarith
  then have "(of_int \<lceil>fee_rate * p * (1 - p) * 10000\<rceil> :: rat) \<le> 175"
    by (metis of_int_le_iff of_int_numeral)
  then show ?thesis by (simp add: fee_def)
qed

text \<open>
  What a client of the fee may rely on. The solver's search and the completion arithmetic use
  only these laws; the census fee is the model's instance.
\<close>

locale fee_law =
  fixes f :: "money \<Rightarrow> money"
  assumes nonneg: "0 \<le> p \<Longrightarrow> p \<le> 1 \<Longrightarrow> 0 \<le> f p"
    and le_max: "f p \<le> 175/10000"
    and cent_step: "0 \<le> p \<Longrightarrow> p + 1/100 \<le> q \<Longrightarrow> q \<le> 1 \<Longrightarrow> p + f p < q + f q"
begin

lemma cost_ge_price: "0 \<le> p \<Longrightarrow> p \<le> 1 \<Longrightarrow> p \<le> p + f p"
  using nonneg by simp

lemma cost_strict_mono:
  "whole_cent p \<Longrightarrow> whole_cent q \<Longrightarrow> 0 \<le> p \<Longrightarrow> q \<le> 1 \<Longrightarrow> p < q \<Longrightarrow> p + f p < q + f q"
  using whole_cent_step cent_step by blast

lemma cost_mono:
  "whole_cent p \<Longrightarrow> whole_cent q \<Longrightarrow> 0 \<le> p \<Longrightarrow> q \<le> 1 \<Longrightarrow> p \<le> q \<Longrightarrow> p + f p \<le> q + f q"
  using cost_strict_mono by (cases "p = q") (auto intro: less_imp_le)

lemma cost_le_iff:
  assumes "whole_cent p" "whole_cent q" "0 \<le> p" "p \<le> 1" "0 \<le> q" "q \<le> 1"
  shows "p + f p \<le> q + f q \<longleftrightarrow> p \<le> q"
  using cost_mono [OF assms(1,2,3,6)] cost_strict_mono [OF assms(2,1,5,4)] by force

end

lemma fee_cent_step:
  assumes "0 \<le> p" "p + 1/100 \<le> q" "q \<le> 1"
  shows "p + fee p < q + fee q"
proof -
  define rp rq where "rp = fee_rate * p * (1 - p)" and "rq = fee_rate * q * (1 - q)"
  have "rp - rq = fee_rate * ((q - p) * (p + q - 1))"
    by (simp add: rp_def rq_def algebra_simps)
  also have "\<dots> \<le> fee_rate * ((q - p) * 1)"
    using assms by (intro mult_left_mono) (auto simp: fee_rate_def)
  finally have "rp - rq \<le> 7/100 * (q - p)" by (simp add: fee_rate_def)
  moreover have "fee p < rp + 1/10000" "rq \<le> fee q"
    unfolding rp_def rq_def by (rule fee_less_raw, rule fee_ge_raw)
  ultimately show ?thesis using assms(2) by (simp add: algebra_simps)
qed

interpretation census: fee_law fee
  by unfold_locales (fact fee_nonneg fee_le_max fee_cent_step)+

section \<open>The rest-price solver\<close>

text \<open>
  The loop of \<open>solve_n\<close>: one cent down while the fee-inclusive cost exceeds the budget.
\<close>

function solve_down :: "money \<Rightarrow> money \<Rightarrow> money" where
  "solve_down budget n =
     (if cent \<le> n \<and> budget < n + fee n then solve_down budget (n - cent) else n)"
  by pat_completeness auto
termination
proof (relation "measure (\<lambda>(budget, n). nat \<lfloor>n * 100\<rfloor>)")
  fix budget n :: money
  assume "cent \<le> n \<and> budget < n + fee n"
  then have "1 \<le> n * 100" by (simp add: cent_def)
  then have "1 \<le> \<lfloor>n * 100\<rfloor>" by simp
  moreover have "\<lfloor>(n - cent) * 100\<rfloor> = \<lfloor>n * 100\<rfloor> - 1"
    by (simp add: cent_def left_diff_distrib)
  ultimately show "((budget, n - cent), (budget, n)) \<in> measure (\<lambda>(budget, n). nat \<lfloor>n * 100\<rfloor>)"
    by simp
qed simp

declare solve_down.simps [simp del]

definition solve_n :: "money option \<Rightarrow> money option \<Rightarrow> money option" where
  "solve_n budget cap =
     (case (budget, cap) of
        (Some b, Some c) \<Rightarrow>
          if b < cent \<or> c < cent then None
          else (let n = solve_down b (min (quantize_ceil cent b) (quantize_ceil cent c)) in
                if cent \<le> n then Some n else None)
      | _ \<Rightarrow> None)"

definition wing_cost :: "money \<Rightarrow> money \<Rightarrow> money" where
  "wing_cost yes_ask_sd no_ask_su = yes_ask_sd + fee yes_ask_sd + no_ask_su + fee no_ask_su"

definition lock_value :: "money \<Rightarrow> money \<Rightarrow> money" where
  "lock_value n w_paid = 2 - (n + fee n) - w_paid"

lemma solve_down_le: "solve_down b n \<le> n"
proof (induction b n rule: solve_down.induct)
  case (1 b n)
  then show ?case by (subst solve_down.simps) (force simp: cent_def)
qed

lemma solve_down_whole: "whole_cent n \<Longrightarrow> whole_cent (solve_down b n)"
proof (induction b n rule: solve_down.induct)
  case (1 b n)
  have "whole_cent (n - cent)"
    using 1(2) unfolding cent_def by (rule whole_cent_diff) (use whole_cent_iff [of "1/100"] in \<open>auto intro: exI [of _ 1]\<close>)
  with 1 show ?case by (subst solve_down.simps) simp
qed

lemma solve_down_fits: "cent \<le> solve_down b n \<Longrightarrow> solve_down b n + fee (solve_down b n) \<le> b"
proof (induction b n rule: solve_down.induct)
  case (1 b n)
  then show ?case
    by (cases "cent \<le> n \<and> b < n + fee n") (auto simp: solve_down.simps [of b n])
qed

lemma solve_down_skips:
  assumes "whole_cent n" "whole_cent m" "cent \<le> m" "m \<le> n" "solve_down b n < m"
  shows "b < m + fee m"
  using assms
proof (induction b n rule: solve_down.induct)
  case (1 b n)
  have step: "cent \<le> n \<and> b < n + fee n"
    using "1.prems" by (auto simp: solve_down.simps [of b n] split: if_splits)
  show ?case
  proof (cases "m = n")
    case True
    with step show ?thesis by simp
  next
    case False
    with "1.prems" have "m + 1/100 \<le> n" by (intro whole_cent_step) auto
    moreover have "whole_cent (n - cent)"
      using "1.prems"(1) unfolding cent_def
      by (rule whole_cent_diff) (use whole_cent_iff [of "1/100"] in \<open>auto intro: exI [of _ 1]\<close>)
    ultimately show ?thesis
      using "1.IH" [OF step] "1.prems" step
      by (simp add: solve_down.simps [of b n] cent_def)
  qed
qed

lemma whole_cent_cent [simp]: "whole_cent cent"
  unfolding whole_cent_iff cent_def by (rule exI [of _ 1]) simp

lemma solve_n_SomeD:
  assumes "solve_n budget cap = Some n"
  obtains b c where "budget = Some b" "cap = Some c" "cent \<le> n" "whole_cent n"
    "n + fee n \<le> b" "n \<le> quantize_ceil cent c" "cent \<le> b" "cent \<le> c"
proof -
  from assms obtain b c where bc: "budget = Some b" "cap = Some c" "cent \<le> b" "cent \<le> c"
    and n: "cent \<le> n" "n = solve_down b (min (quantize_ceil cent b) (quantize_ceil cent c))"
    by (auto simp: solve_n_def Let_def not_less split: option.splits if_splits)
  have "whole_cent n" unfolding n(2) by (rule solve_down_whole) (auto simp: cent_def)
  moreover have "n \<le> quantize_ceil cent c"
    using n(2) solve_down_le [of b "min (quantize_ceil cent b) (quantize_ceil cent c)"] by simp
  moreover have "n + fee n \<le> b" using n solve_down_fits by blast
  ultimately show thesis using that bc n(1) by blast
qed

lemma solve_n_whole_cap:
  assumes "solve_n budget (Some c) = Some n" "whole_cent c"
  shows "n \<le> c"
  using assms(1)
proof (rule solve_n_SomeD)
  fix b c'
  assume "Some c = Some c'" "n \<le> quantize_ceil cent c'"
  moreover have "quantize_ceil cent c \<le> c"
    using assms(2) unfolding cent_def by (rule quantize_ceil_least) simp
  ultimately show ?thesis by simp
qed

lemma solve_n_max:
  assumes m: "whole_cent m" "cent \<le> m" "m \<le> 1" "m \<le> c" "m + fee m \<le> b"
  shows "\<exists>n. solve_n (Some b) (Some c) = Some n \<and> m \<le> n"
proof -
  let ?s = "min (quantize_ceil cent b) (quantize_ceil cent c)"
  have "m \<le> b" using census.cost_ge_price [of m] m by (simp add: cent_def)
  have "m \<le> ?s"
    using \<open>m \<le> b\<close> m(4) quantize_ceil_ge [of b] quantize_ceil_ge [of c] by (simp add: cent_def)
  moreover have "whole_cent ?s" by (auto simp: cent_def)
  ultimately have "\<not> solve_down b ?s < m"
    using solve_down_skips [of ?s m b] m by force
  then show ?thesis using m \<open>m \<le> b\<close>
    by (auto simp: solve_n_def Let_def)
qed

end
