(* ===== verification/Decision_Core.thy ===== *)
theory Decision_Core
  imports Prelude
begin

text \<open>
  The contract the pure decision cores share. Each of them (\<open>signal.decide\<close>,
  \<open>box.decide_box\<close>, \<open>v32.core.decide_v32\<close>) is a function from a frozen state and one
  event to the next state and the actions it emits; a driver folds it over the event stream.
  The locales state what a core promises for one step, and prove once what then holds of every
  run. Each core's theory interprets them on its own \<open>decide\<close>.
\<close>

primrec run_core :: "('s \<Rightarrow> 'e \<Rightarrow> 's \<times> 'a list) \<Rightarrow> 's \<Rightarrow> 'e list \<Rightarrow> 's \<times> 'a list" where
  "run_core step s [] = (s, [])"
| "run_core step s (e # es) =
     (let (s1, as1) = step s e; (s2, as2) = run_core step s1 es in (s2, as1 @ as2))"

lemma run_core_Cons:
  "run_core step s (e # es) =
    (fst (run_core step (fst (step s e)) es),
     snd (step s e) @ snd (run_core step (fst (step s e)) es))"
  by (simp add: case_prod_beta Let_def)

lemma run_core_append:
  "fst (run_core step s (es @ fs)) = fst (run_core step (fst (run_core step s es)) fs)"
  by (induction es arbitrary: s) (simp_all add: run_core_Cons del: run_core.simps(2))

section \<open>A core with an invariant\<close>

locale decision_core =
  fixes step :: "'s \<Rightarrow> 'e \<Rightarrow> 's \<times> 'a list"
    and inv :: "'s \<Rightarrow> bool"
  assumes step_inv: "inv s \<Longrightarrow> inv (fst (step s e))"
begin

lemma run_inv: "inv s \<Longrightarrow> inv (fst (run_core step s es))"
  by (induction es arbitrary: s) (simp_all add: run_core_Cons step_inv del: run_core.simps(2))

end

section \<open>A core whose actions are guarded by the state they leave\<close>

text \<open>
  \<open>guard s e s' a\<close>: what the core promises of an action \<open>a\<close> emitted on event \<open>e\<close> in
  state \<open>s\<close>, with \<open>s'\<close> the state after the step. In a run, every action was emitted by
  some step from a state that satisfies the invariant.
\<close>

locale guarded_core = decision_core +
  fixes guard :: "'s \<Rightarrow> 'e \<Rightarrow> 's \<Rightarrow> 'a \<Rightarrow> bool"
  assumes step_guard:
    "inv s \<Longrightarrow> a \<in> set (snd (step s e)) \<Longrightarrow> guard s e (fst (step s e)) a"
begin

lemma run_guard:
  assumes "inv s" and "a \<in> set (snd (run_core step s es))"
  shows "\<exists>pre e post. es = pre @ e # post \<and>
    a \<in> set (snd (step (fst (run_core step s pre)) e)) \<and>
    guard (fst (run_core step s pre)) e (fst (step (fst (run_core step s pre)) e)) a"
  using assms
proof (induction es arbitrary: s)
  case (Cons e es)
  then consider "a \<in> set (snd (step s e))"
    | "a \<in> set (snd (run_core step (fst (step s e)) es))"
    by (auto simp: run_core_Cons simp del: run_core.simps(2))
  then show ?case
  proof cases
    case 1
    with Cons.prems(1) have "guard s e (fst (step s e)) a" by (rule step_guard)
    with 1 show ?thesis by (intro exI [of _ "[]"] exI [of _ e] exI [of _ es]) simp
  next
    case 2
    from Cons.IH [OF step_inv [OF Cons.prems(1)] 2] obtain pre f post where
      "es = pre @ f # post"
      "a \<in> set (snd (step (fst (run_core step (fst (step s e)) pre)) f))"
      "guard (fst (run_core step (fst (step s e)) pre)) f
        (fst (step (fst (run_core step (fst (step s e)) pre)) f)) a" by blast
    then show ?thesis
      by (intro exI [of _ "e # pre"] exI [of _ f] exI [of _ post])
        (simp add: run_core_Cons del: run_core.simps(2))
  qed
qed simp

end

section \<open>A core with a latch\<close>

text \<open>
  A latch is a condition that stays once it holds and that silences the actions \<open>fires\<close>
  selects.
\<close>

locale latching_core = decision_core +
  fixes fires :: "'a \<Rightarrow> bool"
    and latched :: "'s \<Rightarrow> bool"
  assumes latched_stays: "inv s \<Longrightarrow> latched s \<Longrightarrow> latched (fst (step s e))"
    and latched_silent: "inv s \<Longrightarrow> latched s \<Longrightarrow> \<forall>a \<in> set (snd (step s e)). \<not> fires a"
begin

lemma latched_run_stays: "inv s \<Longrightarrow> latched s \<Longrightarrow> latched (fst (run_core step s es))"
  by (induction es arbitrary: s)
    (simp_all add: run_core_Cons step_inv latched_stays del: run_core.simps(2))

lemma latched_run_silent:
  "inv s \<Longrightarrow> latched s \<Longrightarrow> filter fires (snd (run_core step s es)) = []"
proof (induction es arbitrary: s)
  case (Cons e es)
  from latched_silent [OF Cons.prems] have "filter fires (snd (step s e)) = []"
    by (simp add: filter_empty_conv)
  moreover have "filter fires (snd (run_core step (fst (step s e)) es)) = []"
    using Cons.IH [OF step_inv [OF Cons.prems(1)] latched_stays [OF Cons.prems]] .
  ultimately show ?case by (simp add: run_core_Cons del: run_core.simps(2))
qed simp

end

section \<open>A core that fires at most once\<close>

locale one_shot_core = latching_core +
  assumes fire_latches:
      "inv s \<Longrightarrow> \<exists>a \<in> set (snd (step s e)). fires a \<Longrightarrow> latched (fst (step s e))"
    and one_per_step: "inv s \<Longrightarrow> length (filter fires (snd (step s e))) \<le> 1"
begin

lemma run_fires_at_most_once:
  "inv s \<Longrightarrow> length (filter fires (snd (run_core step s es))) \<le> 1"
proof (induction es arbitrary: s)
  case (Cons e es)
  let ?s' = "fst (step s e)"
  show ?case
  proof (cases "\<exists>a \<in> set (snd (step s e)). fires a")
    case True
    from fire_latches [OF Cons.prems True] have "latched ?s'" .
    with step_inv [OF Cons.prems] have "filter fires (snd (run_core step ?s' es)) = []"
      by (rule latched_run_silent)
    with one_per_step [OF Cons.prems] show ?thesis
      by (simp add: run_core_Cons del: run_core.simps(2))
  next
    case False
    then have "filter fires (snd (step s e)) = []" by (auto simp: filter_empty_conv)
    with Cons.IH [OF step_inv [OF Cons.prems]] show ?thesis
      by (simp add: run_core_Cons del: run_core.simps(2))
  qed
qed simp

end

end
