(* ===== verification/V32_Core.thy ===== *)
theory V32_Core
  imports V32_Types Money Decision_Core
begin

text \<open>
  The pure V3.2 decision core, \<open>pilot/service/v32/core.py\<close>: spot selection and the quote
  context, the resting-order lifecycle (ack, fill, cancel, amend), the per-fill wing batches
  with the unconditional take and the lock-floor-gated retry, the requote gate, the in-process
  shadow, and the dispatcher \<open>decide_v32\<close>. One definition per Python function, in the
  source's order; a function that returns a state and actions returns a pair.
\<close>

section \<open>Money and count primitives\<close>

definition q_count :: "lots \<Rightarrow> lots" where
  "q_count c = quantize_he (1/100) c"

definition LIMIT_CEILING :: money where
  "LIMIT_CEILING = 99/100"

section \<open>Small pure helpers\<close>

definition valid_two_sided :: "top_of_book option \<Rightarrow> bool" where
  "valid_two_sided tb =
     (case tb of
        None \<Rightarrow> False
      | Some t \<Rightarrow>
          \<not> suspect t \<and>
          (case (yes_ask t, yes_bid t) of
             (Some ya, Some yb) \<Rightarrow> 0 < ya \<and> ya \<le> 1 \<and> 0 \<le> yb \<and> yb \<le> ya
           | _ \<Rightarrow> False))"

definition fresh :: "time \<Rightarrow> time option \<Rightarrow> time \<Rightarrow> bool" where
  "fresh now last_ts bound =
     (case last_ts of None \<Rightarrow> False | Some t \<Rightarrow> - bound \<le> now - t \<and> now - t \<le> bound)"

fun spot_scan ::
  "(int, top_of_book) dict \<Rightarrow> int list \<Rightarrow> (int \<times> money) option \<Rightarrow> (int \<times> money) option" where
  "spot_scan tops [] best = best"
| "spot_scan tops (fl # fls) best =
     spot_scan tops fls
       (case map_of tops fl of
          None \<Rightarrow> best
        | Some tb \<Rightarrow>
            if \<not> valid_two_sided (Some tb) then best
            else (case (yes_bid tb, yes_ask tb) of
                    (Some yb, Some ya) \<Rightarrow>
                      (let mid = (yb + ya) / 2 in
                       case best of
                         None \<Rightarrow> Some (fl, mid)
                       | Some (_, best_mid) \<Rightarrow> if best_mid < mid then Some (fl, mid) else best)
                  | _ \<Rightarrow> best))"

definition select_spot :: "v32_state \<Rightarrow> int option" where
  "select_spot st =
     map_option fst (spot_scan (v_bucket_tops st) (sort (dict_keys (v_bucket_tops st))) None)"

definition compute_W ::
  "v32_state \<Rightarrow> int \<Rightarrow> int \<Rightarrow> time \<Rightarrow> v32_params \<Rightarrow> money option" where
  "compute_W st Sd Su now params =
     (case (map_of (v_strike_tops st) Sd, map_of (v_strike_tops st) Su) of
        (Some sd_top, Some su_top) \<Rightarrow>
          if suspect sd_top \<or> suspect su_top then None
          else if \<not> fresh now (map_of (v_strike_ts st) Sd) (p_freshness_max_age_s params) then None
          else if \<not> fresh now (map_of (v_strike_ts st) Su) (p_freshness_max_age_s params) then None
          else (case (yes_ask sd_top, no_ask su_top) of
                  (Some ya, Some na) \<Rightarrow>
                    if \<not> (0 < ya \<and> ya < 1) \<or> \<not> (0 < na \<and> na < 1) then None
                    else Some (wing_cost ya na)
                | _ \<Rightarrow> None)
      | _ \<Rightarrow> None)"

definition bucket_cap :: "v32_state \<Rightarrow> int \<Rightarrow> money option" where
  "bucket_cap st Sd =
     (case map_of (v_bucket_tops st) Sd of
        None \<Rightarrow> None
      | Some tb \<Rightarrow>
          if \<not> valid_two_sided (Some tb) then None
          else map_option (\<lambda>yb. quantize_he (1/100) ((1 - yb) - cent)) (yes_bid tb))"

definition mk_action :: "v32_state \<Rightarrow> action_kind \<Rightarrow> v32_action" where
  "mk_action st kind = blank_action (twin_kind kind (v_shakedown st))"

definition coid_of :: "string \<Rightarrow> nat \<Rightarrow> string" where
  "coid_of close_time k = ''v32-'' @ close_time @ ''-'' @ show_nat k"

definition mint_coid :: "v32_state \<Rightarrow> string \<times> v32_state" where
  "mint_coid st =
     (let k = v_coid_seq st + 1 in (coid_of (v_close_time st) k, st\<lparr>v_coid_seq := k\<rparr>))"

section \<open>Partial-fill wing helpers\<close>

definition rest_size :: "v32_params \<Rightarrow> v32_state \<Rightarrow> lots" where
  "rest_size params st =
     q_count (case v_rest_remaining st of None \<Rightarrow> of_int (p_contracts params) | Some r \<Rightarrow> r)"

definition rest_place_count :: "v32_params \<Rightarrow> v32_state \<Rightarrow> int" where
  "rest_place_count params st = py_trunc (rest_size params st)"

fun replace_batch ::
  "wing_batch list \<Rightarrow> nat \<Rightarrow> (wing_batch \<Rightarrow> wing_batch) \<Rightarrow> wing_batch list" where
  "replace_batch [] i f = []"
| "replace_batch (b # bs) i f =
     (if wb_index b = i then f b # bs else b # replace_batch bs i f)"

definition sync_wing_mirrors :: "v32_state \<Rightarrow> v32_state" where
  "sync_wing_mirrors st =
     st\<lparr>v_rest_fill := (if v_rest_fills st = [] then None else Some (last (v_rest_fills st))),
        v_wings_needed := list_ex (\<lambda>b. \<not> wb_completed b) (v_wing_batches st),
        v_wing_taken := (if v_wing_batches st = [] then False else wb_taken (last (v_wing_batches st))),
        v_one_legged := list_ex wb_one_legged (v_wing_batches st)\<rparr>"

section \<open>Wings: take, retry, close\<close>

definition wing_prices :: "v32_state \<Rightarrow> time \<Rightarrow> v32_params \<Rightarrow> (money \<times> money) option" where
  "wing_prices st now params =
     (case (v_spot_Sd st, v_spot_Su st) of
        (Some Sd, Some Su) \<Rightarrow>
          (case (map_of (v_strike_tops st) Sd, map_of (v_strike_tops st) Su) of
             (Some sd, Some su) \<Rightarrow>
               if suspect sd \<or> suspect su then None
               else if \<not> fresh now (map_of (v_strike_ts st) Sd) (p_freshness_max_age_s params) then None
               else if \<not> fresh now (map_of (v_strike_ts st) Su) (p_freshness_max_age_s params) then None
               else (case (yes_ask sd, no_ask su) of
                       (Some ya, Some na) \<Rightarrow>
                         if \<not> (0 < ya \<and> ya \<le> 1) \<or> \<not> (0 < na \<and> na \<le> 1) then None
                         else Some (ya, na)
                     | _ \<Rightarrow> None)
           | _ \<Rightarrow> None)
      | _ \<Rightarrow> None)"

definition batch_legs :: "v32_state \<Rightarrow> nat \<Rightarrow> wing_leg list" where
  "batch_legs st index = filter (\<lambda>l. wl_batch l = index) (v_wing_legs st)"

text \<open>\<open>st.strike_tickers.get(k, "")\<close>; a missing spot looks up nothing.\<close>

definition ticker_at :: "(int, ticker) dict \<Rightarrow> int option \<Rightarrow> ticker" where
  "ticker_at d k = (case k of None \<Rightarrow> '''' | Some i \<Rightarrow> dict_get_default d i '''')"

definition take_batch ::
  "v32_params \<Rightarrow> v32_state \<Rightarrow> wing_batch \<Rightarrow> money \<Rightarrow> money \<Rightarrow> v32_state \<times> v32_action list" where
  "take_batch params st b ya na =
     (let n = wb_fill_price b;
          w_paid = ya + fee ya + na + fee na;
          lock = lock_value n w_paid;
          count = wb_fill_count b;
          (coid_y, st1) = mint_coid st;
          (coid_n, st2) = mint_coid st1;
          yes_limit = min (ya + p_wing_margin params) LIMIT_CEILING;
          no_limit = min (na + p_wing_margin params) LIMIT_CEILING;
          tk_y = ticker_at (v_strike_tickers st2) (v_spot_Sd st2);
          tk_n = ticker_at (v_strike_tickers st2) (v_spot_Su st2);
          legs = [\<lparr>lo_ticker = tk_y, lo_side = BUY_YES, lo_action = ''buy'', lo_count = count,
                   lo_limit = yes_limit\<rparr>,
                  \<lparr>lo_ticker = tk_n, lo_side = BUY_NO, lo_action = ''buy'', lo_count = count,
                   lo_limit = no_limit\<rparr>];
          new_legs =
            [\<lparr>wl_ticker = tk_y, wl_side = BUY_YES, wl_count = count, wl_limit = yes_limit,
              wl_coid = coid_y, wl_status = Pending, wl_fill_price = None, wl_fill_fee = None,
              wl_batch = wb_index b\<rparr>,
             \<lparr>wl_ticker = tk_n, wl_side = BUY_NO, wl_count = count, wl_limit = no_limit,
              wl_coid = coid_n, wl_status = Pending, wl_fill_price = None, wl_fill_fee = None,
              wl_batch = wb_index b\<rparr>];
          st3 = st2\<lparr>v_wing_legs := v_wing_legs st2 @ new_legs,
                    v_wing_batches :=
                      replace_batch (v_wing_batches st2) (wb_index b) (\<lambda>x. x\<lparr>wb_taken := True\<rparr>)\<rparr>
      in (st3, [(mk_action st3 TAKE_WINGS)\<lparr>a_legs := legs, a_count := count, a_lock := Some lock\<rparr>]))"

text \<open>The projected cost of a batch's wings: filled legs at their fill, the others at the ask.\<close>

fun projected_cost :: "money \<Rightarrow> money \<Rightarrow> wing_leg list \<Rightarrow> money" where
  "projected_cost ya na [] = 0"
| "projected_cost ya na (l # ls) =
     (case (wl_status l, wl_fill_price l) of
        (Filled, Some p) \<Rightarrow> p + fee p
      | _ \<Rightarrow> (let ask = (if wl_side l = BUY_YES then ya else na) in ask + fee ask))
     + projected_cost ya na ls"

definition projected_lock :: "v32_state \<Rightarrow> wing_batch \<Rightarrow> money \<Rightarrow> money \<Rightarrow> money" where
  "projected_lock st b ya na =
     2 - (wb_fill_price b + fee (wb_fill_price b))
       - projected_cost ya na (batch_legs st (wb_index b))"

fun retry_legs ::
  "v32_params \<Rightarrow> nat \<Rightarrow> money \<Rightarrow> money \<Rightarrow> v32_state \<Rightarrow> wing_leg list \<Rightarrow>
     v32_state \<times> wing_leg list \<times> v32_action list" where
  "retry_legs params index ya na st [] = (st, [], [])"
| "retry_legs params index ya na st (leg # rest) =
     (if wl_batch leg \<noteq> index \<or> wl_status leg \<noteq> Unfilled then
        (let (st1, legs1, acts1) = retry_legs params index ya na st rest in (st1, leg # legs1, acts1))
      else
        (let ask = (if wl_side leg = BUY_YES then ya else na);
             limit = min (ask + p_wing_margin params) LIMIT_CEILING;
             (coid_r, st0) = mint_coid st;
             retry = \<lparr>lo_ticker = wl_ticker leg, lo_side = wl_side leg, lo_action = ''buy'',
                      lo_count = wl_count leg, lo_limit = limit\<rparr>;
             act = (mk_action st0 RETRY_WING)\<lparr>a_legs := [retry], a_count := wl_count leg\<rparr>;
             leg' = leg\<lparr>wl_status := Pending, wl_limit := limit, wl_coid := coid_r\<rparr>;
             (st1, legs1, acts1) = retry_legs params index ya na st0 rest
         in (st1, leg' # legs1, act # acts1)))"

definition retry_batch ::
  "v32_params \<Rightarrow> v32_state \<Rightarrow> wing_batch \<Rightarrow> money \<Rightarrow> money \<Rightarrow> v32_state \<times> v32_action list" where
  "retry_batch params st b ya na =
     (if projected_lock st b ya na < p_lock_floor params then (st, [])
      else (let (st1, legs1, acts) = retry_legs params (wb_index b) ya na st (v_wing_legs st) in
            (st1\<lparr>v_wing_legs := legs1\<rparr>, acts)))"

definition flag_one_legged :: "v32_state \<Rightarrow> wing_batch \<Rightarrow> v32_state" where
  "flag_one_legged st b =
     (if wb_completed b \<or> wb_one_legged b then st
      else (let legs = batch_legs st (wb_index b) in
            if legs = [] \<or> list_ex (\<lambda>l. wl_status l \<noteq> Filled) legs
            then st\<lparr>v_wing_batches :=
                   replace_batch (v_wing_batches st) (wb_index b) (\<lambda>x. x\<lparr>wb_one_legged := True\<rparr>)\<rparr>
            else st))"

fun step_batches ::
  "v32_params \<Rightarrow> money \<Rightarrow> money \<Rightarrow> v32_state \<Rightarrow> nat list \<Rightarrow> v32_state \<times> v32_action list" where
  "step_batches params ya na st [] = (st, [])"
| "step_batches params ya na st (i # is) =
     (let (st1, a1) =
        (case find (\<lambda>b. wb_index b = i) (v_wing_batches st) of
           None \<Rightarrow> (st, [])
         | Some b \<Rightarrow>
             if wb_completed b then (st, [])
             else if \<not> wb_taken b then take_batch params st b ya na
             else retry_batch params st b ya na);
        (st2, a2) = step_batches params ya na st1 is
      in (st2, a1 @ a2))"

definition wing_step :: "v32_params \<Rightarrow> v32_state \<Rightarrow> time \<Rightarrow> v32_state \<times> v32_action list" where
  "wing_step params st now =
     (if v_wing_batches st = [] then (st, [])
      else if of_int (v_close_epoch st) - now < of_int (p_no_orders_after_s params) then
        (sync_wing_mirrors (foldl flag_one_legged st (v_wing_batches st)), [])
      else (case wing_prices st now params of
              None \<Rightarrow> (st, [])
            | Some (ya, na) \<Rightarrow>
                (let (st1, acts) =
                   step_batches params ya na st (map wb_index (v_wing_batches st))
                 in (sync_wing_mirrors st1, acts))))"

definition maybe_close_set :: "v32_state \<Rightarrow> nat \<Rightarrow> v32_state" where
  "maybe_close_set st index =
     (case find (\<lambda>b. wb_index b = index) (v_wing_batches st) of
        None \<Rightarrow> sync_wing_mirrors st
      | Some b \<Rightarrow>
          if wb_completed b then sync_wing_mirrors st
          else (let legs = batch_legs st index in
                if legs \<noteq> [] \<and> list_all (\<lambda>l. wl_status l = Filled) legs
                then sync_wing_mirrors
                       (st\<lparr>v_sets_done := v_sets_done st + 1,
                           v_wing_batches := replace_batch (v_wing_batches st) index
                             (\<lambda>x. x\<lparr>wb_completed := True, wb_one_legged := False\<rparr>)\<rparr>)
                else sync_wing_mirrors st))"

section \<open>Booking a rest fill\<close>

definition book_rest_delta ::
  "v32_params \<Rightarrow> v32_state \<Rightarrow> string \<Rightarrow> money \<Rightarrow> lots \<Rightarrow> time \<Rightarrow> v32_state \<times> v32_action list" where
  "book_rest_delta params st coid price raw_delta now =
     (let delta = q_count raw_delta;
          size_before = rest_size params st;
          new_remaining = max 0 (q_count (size_before - delta));
          rf = \<lparr>rf_price = price, rf_count = delta, rf_server_ts = now\<rparr>;
          idx = v_next_batch_index st;
          batch = \<lparr>wb_index = idx, wb_fill_price = price, wb_fill_count = delta,
                   wb_server_ts = now, wb_taken = False, wb_completed = False,
                   wb_one_legged = False\<rparr>;
          booked = AList.update coid
                     (q_count (dict_get_default (v_rest_booked st) coid 0 + delta)) (v_rest_booked st);
          live = (case v_rest_live st of
                    Some l \<Rightarrow> if ro_coid l = coid then Some (l\<lparr>ro_count := new_remaining\<rparr>) else Some l
                  | None \<Rightarrow> None);
          st1 = st\<lparr>v_rest_fills := v_rest_fills st @ [rf],
                   v_wing_batches := v_wing_batches st @ [batch],
                   v_next_batch_index := idx + 1,
                   v_rest_booked := booked,
                   v_rest_remaining := Some new_remaining,
                   v_partial_fills := v_partial_fills st + (if 0 < new_remaining then 1 else 0)\<rparr>;
          st2 = (if new_remaining \<le> 0
                 then st1\<lparr>v_rest_allotment_done := True, v_rest_live := None,
                          v_rest_pending := None, v_cancel_in_flight := False,
                          v_amend_in_flight := False\<rparr>
                 else st1\<lparr>v_rest_live := live\<rparr>);
          (st3, wa) = wing_step params st2 now
      in (sync_wing_mirrors st3, wa))"

section \<open>Book fold and quote context\<close>

definition fold_book :: "v32_state \<Rightarrow> book_update \<Rightarrow> v32_state" where
  "fold_book st event =
     (let book_ts = (case bu_book_ts event of Some t \<Rightarrow> t | None \<Rightarrow> bu_server_ts event) in
      case classify_ticker (bu_market event) (v_bucket_map st) (v_strike_floor_map st) of
        None \<Rightarrow> st
      | Some (StrikeMarket fl) \<Rightarrow>
          st\<lparr>v_strike_tops := AList.update fl (bu_top event) (v_strike_tops st),
             v_strike_ts := AList.update fl book_ts (v_strike_ts st),
             v_strike_tickers := AList.update fl (bu_market event) (v_strike_tickers st)\<rparr>
      | Some (BucketMarket fl) \<Rightarrow>
          st\<lparr>v_bucket_tops := AList.update fl (bu_top event) (v_bucket_tops st),
             v_bucket_ts := AList.update fl book_ts (v_bucket_ts st),
             v_bucket_tickers := AList.update fl (bu_market event) (v_bucket_tickers st)\<rparr>)"

definition recompute_context :: "v32_params \<Rightarrow> v32_state \<Rightarrow> time \<Rightarrow> v32_state" where
  "recompute_context params st now =
     (let spot_Sd = select_spot st;
          spot_Su = map_option (\<lambda>s. s + p_bucket_width params) spot_Sd;
          stale = (case spot_Sd of
                     None \<Rightarrow> False
                   | Some s \<Rightarrow> \<not> fresh now (map_of (v_bucket_ts st) s)
                                 (p_bucket_freshness_max_age_s params));
          W = (case (spot_Sd, spot_Su) of
                 (Some sd, Some su) \<Rightarrow> if stale then None else compute_W st sd su now params
               | _ \<Rightarrow> None);
          cap = (case spot_Sd of
                   Some sd \<Rightarrow> if stale then None else bucket_cap st sd
                 | None \<Rightarrow> None);
          budget = map_option (\<lambda>w. 2 - p_E params - w) W;
          desired = (if spot_Sd \<noteq> None \<and> \<not> stale then solve_n budget cap else None);
          shadow_n = (\<lambda>sub. if W \<noteq> None \<and> cap \<noteq> None
                            then solve_n (map_option (\<lambda>w. 2 - ss_E sub - w) W) cap else None)
      in st\<lparr>v_spot_Sd := spot_Sd, v_spot_Su := spot_Su, v_W := W, v_cap := cap,
            v_desired_n := desired, v_spot_bucket_stale := stale,
            v_shadows := map (\<lambda>(k, sub). (k, sub\<lparr>ss_n := shadow_n sub\<rparr>)) (v_shadows st)\<rparr>)"

section \<open>Order lifecycle events\<close>

definition apply_ack :: "v32_state \<Rightarrow> order_ack \<Rightarrow> v32_state" where
  "apply_ack st event =
     (case v_rest_pending st of
        None \<Rightarrow> st
      | Some p \<Rightarrow>
          if ro_coid p \<noteq> oa_coid event then st
          else st\<lparr>v_rest_live := Some (p\<lparr>ro_order_id := Some (oa_order_id event),
                                        ro_live := True, ro_pending := False\<rparr>),
                  v_rest_pending := None, v_cancel_in_flight := False\<rparr>)"

text \<open>The order slot an \<open>OrderCancelled\<close> clears: the live one first, then the pending one.\<close>

definition cancel_slot :: "v32_state \<Rightarrow> string option \<Rightarrow> v32_state \<times> rest_order option" where
  "cancel_slot st oid =
     (case v_rest_live st of
        Some l \<Rightarrow>
          if ro_order_id l = oid then (st\<lparr>v_rest_live := None\<rparr>, Some l)
          else (case v_rest_pending st of
                  Some p \<Rightarrow> if ro_order_id p = oid then (st\<lparr>v_rest_pending := None\<rparr>, Some p)
                            else (st, None)
                | None \<Rightarrow> (st, None))
      | None \<Rightarrow>
          (case v_rest_pending st of
             Some p \<Rightarrow> if ro_order_id p = oid then (st\<lparr>v_rest_pending := None\<rparr>, Some p)
                       else (st, None)
           | None \<Rightarrow> (st, None)))"

definition cancel_attribution ::
  "v32_state \<Rightarrow> rest_order option \<Rightarrow> string option \<Rightarrow> (string \<times> money) option" where
  "cancel_attribution st matched oid =
     (case matched of
        Some ord \<Rightarrow> Some (ro_coid ord, ro_price ord)
      | None \<Rightarrow> (case oid of None \<Rightarrow> None | Some i \<Rightarrow> map_of (v_cancel_ctx st) i))"

definition apply_cancelled ::
  "v32_params \<Rightarrow> v32_state \<Rightarrow> order_cancelled \<Rightarrow> time \<Rightarrow> v32_state \<times> v32_action list" where
  "apply_cancelled params st event now =
     (let oid = oc_order_id event;
          (st1, matched) = cancel_slot st oid;
          st2 = (if matched \<noteq> None \<or> v_cancel_in_flight st1 \<or> v_amend_in_flight st1
                 then st1\<lparr>v_cancel_in_flight := False, v_amend_in_flight := False\<rparr> else st1);
          filled = q_count (oc_filled_before event)
      in if \<not> 0 < filled then (st2, [])
         else (case cancel_attribution st2 matched oid of
                 Some (coid, price) \<Rightarrow>
                   (let already = q_count (dict_get_default (v_rest_booked st2) coid 0);
                        delta = q_count (filled - already)
                    in if 0 < delta then book_rest_delta params st2 coid price delta now
                       else (st2, []))
               | None \<Rightarrow>
                   if v_rest_fills st2 = [] then
                     (let n = (case v_desired_n st2 of Some d \<Rightarrow> d | None \<Rightarrow> 0);
                          fallback = ''__cxl__'' @ (case oid of Some i \<Rightarrow> i | None \<Rightarrow> ''None'')
                      in book_rest_delta params st2 fallback n filled now)
                   else (st2, [])))"

text \<open>
  The wing-leg branch of \<open>_apply_fill\<close>: the first leg with the fill's coid is filled (a
  positive count) or marked unfilled; the result carries its batch.
\<close>

fun fill_leg :: "fill \<Rightarrow> wing_leg list \<Rightarrow> (wing_leg list \<times> nat) option" where
  "fill_leg event [] = None"
| "fill_leg event (leg # legs) =
     (if wl_coid leg = fi_coid event then
        Some ((if 0 < fi_count event
               then leg\<lparr>wl_status := Filled, wl_fill_price := Some (fi_price event),
                        wl_fill_fee := Some (fee (fi_price event))\<rparr>
               else leg\<lparr>wl_status := Unfilled\<rparr>) # legs, wl_batch leg)
      else map_option (\<lambda>(ls, b). (leg # ls, b)) (fill_leg event legs))"

definition rest_slot :: "v32_state \<Rightarrow> string \<Rightarrow> rest_order option" where
  "rest_slot st coid =
     (case v_rest_live st of
        Some l \<Rightarrow> if ro_coid l = coid then Some l
                  else (case v_rest_pending st of
                          Some p \<Rightarrow> if ro_coid p = coid then Some p else None
                        | None \<Rightarrow> None)
      | None \<Rightarrow> (case v_rest_pending st of
                   Some p \<Rightarrow> if ro_coid p = coid then Some p else None
                 | None \<Rightarrow> None))"

text \<open>
  The echo guard: lots an amend cross already booked for the order are skipped once when the
  venue reports them again on the fill channel.
\<close>

definition skip_echo :: "v32_state \<Rightarrow> string option \<Rightarrow> lots \<Rightarrow> v32_state \<times> lots" where
  "skip_echo st oid delta =
     (case oid of
        None \<Rightarrow> (st, delta)
      | Some i \<Rightarrow>
          (let pending = q_count (dict_get_default (v_amend_cross_pending st) i 0) in
           if 0 < delta \<and> 0 < pending then
             (let skip = min pending delta;
                  left = q_count (pending - skip);
                  acp = (if 0 < left then AList.update i left (v_amend_cross_pending st)
                         else AList.delete i (v_amend_cross_pending st))
              in (st\<lparr>v_amend_cross_pending := acp\<rparr>, q_count (delta - skip)))
           else (st, delta)))"

definition apply_fill ::
  "v32_params \<Rightarrow> v32_state \<Rightarrow> fill \<Rightarrow> time \<Rightarrow> v32_state \<times> v32_action list" where
  "apply_fill params st event now =
     (case fill_leg event (v_wing_legs st) of
        Some (legs, batch) \<Rightarrow> (maybe_close_set (st\<lparr>v_wing_legs := legs\<rparr>) batch, [])
      | None \<Rightarrow>
          (case rest_slot st (fi_coid event) of
             None \<Rightarrow> (st, [])
           | Some m \<Rightarrow>
               (let oid = (case ro_order_id m of Some i \<Rightarrow> Some i | None \<Rightarrow> fi_order_id event);
                    (st1, delta) = skip_echo st oid (q_count (fi_count event))
                in if 0 < delta
                   then book_rest_delta params st1 (ro_coid m) (fi_price event) delta now
                   else (st1, []))))"

definition recent_times :: "time list \<Rightarrow> time \<Rightarrow> time list" where
  "recent_times ts now = filter (\<lambda>t. now - t \<le> 60) ts"

definition amend_matches :: "rest_order \<Rightarrow> order_amended \<Rightarrow> bool" where
  "amend_matches live event \<longleftrightarrow>
     (om_order_id event \<noteq> None \<and> ro_order_id live = om_order_id event) \<or>
     ro_coid live = om_coid event"

text \<open>The live rest after the confirm, and the booked lots carried to its current id.\<close>

definition amended_rest :: "rest_order \<Rightarrow> order_amended \<Rightarrow> rest_order" where
  "amended_rest live event =
     live\<lparr>ro_price := (case om_price event of Some p \<Rightarrow> p | None \<Rightarrow> ro_price live),
          ro_coid := (if om_coid event \<noteq> '''' then om_coid event else ro_coid live)\<rparr>"

definition carry_booked :: "(string, lots) dict \<Rightarrow> string \<Rightarrow> string \<Rightarrow> (string, lots) dict" where
  "carry_booked booked old_coid new_coid =
     (case map_of booked old_coid of
        Some old \<Rightarrow>
          if new_coid \<noteq> old_coid
          then AList.update new_coid (q_count (dict_get_default booked new_coid 0 + old))
                 (AList.delete old_coid booked)
          else booked
      | None \<Rightarrow> booked)"

text \<open>The echo guard: lots of a partial cross, remembered per order id.\<close>

definition note_cross :: "v32_state \<Rightarrow> string option \<Rightarrow> lots \<Rightarrow> v32_state" where
  "note_cross st oid delta =
     (case oid of
        Some i \<Rightarrow>
          if v_rest_live st \<noteq> None then
            st\<lparr>v_amend_cross_pending :=
               AList.update i (q_count (dict_get_default (v_amend_cross_pending st) i 0 + delta))
                 (v_amend_cross_pending st)\<rparr>
          else st
      | None \<Rightarrow> st)"

definition amend_pre :: "v32_state \<Rightarrow> rest_order \<Rightarrow> order_amended \<Rightarrow> time \<Rightarrow> v32_state" where
  "amend_pre st live event now =
     (let updated = amended_rest live event in
      st\<lparr>v_rest_live := Some updated, v_amend_in_flight := False,
         v_rest_booked := carry_booked (v_rest_booked st) (ro_coid live) (ro_coid updated),
         v_last_replace_ts := Some now, v_replace_count := v_replace_count st + 1,
         v_replace_times := recent_times (v_replace_times st) now @ [now]\<rparr>)"

definition apply_amended ::
  "v32_params \<Rightarrow> v32_state \<Rightarrow> order_amended \<Rightarrow> time \<Rightarrow> v32_state \<times> v32_action list" where
  "apply_amended params st event now =
     (case v_rest_live st of
        None \<Rightarrow> (st\<lparr>v_amend_in_flight := False\<rparr>, [])
      | Some live \<Rightarrow>
          if \<not> amend_matches live event then (st\<lparr>v_amend_in_flight := False\<rparr>, [])
          else
            (let updated = amended_rest live event;
                 st1 = amend_pre st live event now;
                 delta = q_count (om_fill_count event)
             in if \<not> 0 < delta then (st1, [])
                else
                  (let n = (case om_average_fill_price event of Some p \<Rightarrow> p | None \<Rightarrow> ro_price updated);
                       (st2, wa) = book_rest_delta params st1 (ro_coid updated) n delta now
                   in (note_cross st2 (om_order_id event) delta, wa))))"

section \<open>The requote gate\<close>

definition cancel_action :: "v32_state \<Rightarrow> rest_order \<Rightarrow> v32_action" where
  "cancel_action st ord =
     (mk_action st CANCEL_REST)\<lparr>a_order_id := ro_order_id ord, a_coid := Some (ro_coid ord)\<rparr>"

definition place_action :: "v32_state \<Rightarrow> v32_params \<Rightarrow> string \<Rightarrow> money \<Rightarrow> v32_action" where
  "place_action st params coid n =
     (mk_action st PLACE_REST)
       \<lparr>a_ticker := Some (ticker_at (v_bucket_tickers st) (v_spot_Sd st)),
        a_side := Some BUY_NO, a_action := Some ''buy'',
        a_count := q_count (of_int (rest_place_count params st)), a_price := Some n,
        a_expiration_epoch := Some (v_close_epoch st - p_quote_end_s params),
        a_coid := Some coid\<rparr>"

definition emit_place ::
  "v32_state \<Rightarrow> v32_params \<Rightarrow> money \<Rightarrow> time \<Rightarrow> v32_state \<times> v32_action list" where
  "emit_place st params n now =
     (let (coid, st1) = mint_coid st;
          ord = \<lparr>ro_coid = coid, ro_order_id = None, ro_price = n,
                 ro_count = q_count (of_int (rest_place_count params st1)), ro_placed_ts = now,
                 ro_live = False, ro_pending = True, ro_bucket_Sd = v_spot_Sd st1\<rparr>;
          st2 = st1\<lparr>v_rest_pending := Some ord, v_rest_bucket_Sd := v_spot_Sd st1,
                    v_last_replace_ts := Some now, v_replace_count := v_replace_count st1 + 1,
                    v_replace_times := recent_times (v_replace_times st1) now @ [now]\<rparr>
      in (st2, [place_action st2 params coid n]))"

definition amend_action ::
  "v32_state \<Rightarrow> v32_params \<Rightarrow> string \<Rightarrow> string \<Rightarrow> string option \<Rightarrow> money \<Rightarrow> v32_action" where
  "amend_action st params old_coid new_coid oid n =
     (mk_action st AMEND_REST)
       \<lparr>a_order_id := oid, a_ticker := Some (ticker_at (v_bucket_tickers st) (v_spot_Sd st)),
        a_side := Some BUY_NO, a_action := Some ''buy'',
        a_count := q_count (of_int (rest_place_count params st)), a_price := Some n,
        a_expiration_epoch := Some (v_close_epoch st - p_quote_end_s params),
        a_coid := Some old_coid, a_updated_coid := Some new_coid\<rparr>"

definition emit_amend ::
  "v32_state \<Rightarrow> v32_params \<Rightarrow> rest_order \<Rightarrow> money \<Rightarrow> v32_state \<times> v32_action list" where
  "emit_amend st params live n =
     (let (new_coid, st1) = mint_coid st;
          st2 = st1\<lparr>v_amend_in_flight := True\<rparr>
      in (st2, [amend_action st2 params (ro_coid live) new_coid (ro_order_id live) n]))"

definition standdown :: "v32_state \<Rightarrow> string \<Rightarrow> v32_state \<times> v32_action list" where
  "standdown st reason =
     (if v_last_standdown_reason st = Some reason
      then (st\<lparr>v_stand_down_reason := Some reason\<rparr>, [])
      else (st\<lparr>v_last_standdown_reason := Some reason, v_stand_down_reason := Some reason\<rparr>,
            [(blank_action STAND_DOWN)\<lparr>a_reason := Some reason\<rparr>]))"

definition remember_cancel_ctx :: "v32_state \<Rightarrow> rest_order option \<Rightarrow> v32_state" where
  "remember_cancel_ctx st ord =
     (case ord of
        None \<Rightarrow> st
      | Some r \<Rightarrow>
          (case ro_order_id r of
             None \<Rightarrow> st
           | Some i \<Rightarrow> st\<lparr>v_cancel_ctx := AList.update i (ro_coid r, ro_price r) (v_cancel_ctx st)\<rparr>))"

definition cancel_live_if_any :: "v32_state \<Rightarrow> v32_state \<times> v32_action list" where
  "cancel_live_if_any st =
     (let (st1, a1) =
        (case v_rest_live st of
           Some l \<Rightarrow>
             if \<not> v_cancel_in_flight st
             then ((remember_cancel_ctx st (Some l))\<lparr>v_rest_live := None, v_cancel_in_flight := True\<rparr>,
                   [cancel_action st l])
             else (st, [])
         | None \<Rightarrow> (st, []))
      in case v_rest_pending st1 of
           Some p \<Rightarrow> (st1\<lparr>v_rest_pending := None\<rparr>, a1 @ [cancel_action st1 p])
         | None \<Rightarrow> (st1, a1))"

text \<open>
  The gates of \<open>_requote\<close> between the replace-rate alarm and the healthy path:
  \<open>Warmup\<close> is the early return before the window opens.
\<close>

datatype quote_gate = Warmup | NoQuote string | MayQuote

definition quote_gate_of :: "v32_params \<Rightarrow> v32_state \<Rightarrow> time \<Rightarrow> quote_gate" where
  "quote_gate_of params st now =
     (let t_to_close = of_int (v_close_epoch st) - now in
      if v_stood_down st then NoQuote ''stood_down''
      else if t_to_close < of_int (p_quote_end_s params) then NoQuote ''past_quote_end''
      else if of_int (p_quote_start_s params) < t_to_close then Warmup
      else if v_spot_Sd st = None then NoQuote ''no_spot_bucket''
      else if v_spot_bucket_stale st then NoQuote ''stale_bucket''
      else if v_W st = None then NoQuote ''stale_or_missing_wing''
      else (case v_desired_n st of
              None \<Rightarrow> NoQuote ''n_below_min''
            | Some n \<Rightarrow> if n < p_n_min params then NoQuote ''n_below_min'' else MayQuote))"

definition bucket_change :: "v32_state \<Rightarrow> v32_state \<times> v32_action list" where
  "bucket_change st =
     (let (st1, a1) =
        (case v_rest_live st of
           Some l \<Rightarrow>
             if \<not> v_cancel_in_flight st
             then (remember_cancel_ctx st (Some l), [cancel_action st l]) else (st, [])
         | None \<Rightarrow> (st, []));
          a2 = (case v_rest_pending st1 of Some p \<Rightarrow> [cancel_action st1 p] | None \<Rightarrow> [])
      in (st1\<lparr>v_rest_live := None, v_rest_pending := None,
             v_cancel_in_flight := (v_cancel_in_flight st1 \<or> a1 @ a2 \<noteq> []),
             v_awaiting_replace := True, v_rest_bucket_Sd := None\<rparr>, a1 @ a2))"

definition replace_due :: "v32_params \<Rightarrow> v32_state \<Rightarrow> rest_order \<Rightarrow> money \<Rightarrow> time \<Rightarrow> bool" where
  "replace_due params st live n now \<longleftrightarrow>
     (let dn = \<bar>n - ro_price live\<bar>;
          since_ms = (now - (case v_last_replace_ts st of Some t \<Rightarrow> t | None \<Rightarrow> - (10 ^ 18))) * 1000
      in p_tol params \<le> dn \<and> of_int (p_deb_ms params) \<le> since_ms \<and> n \<noteq> ro_price live)"

text \<open>The healthy path: \<open>n\<close> is the desired price the gate let through.\<close>

definition requote_quote ::
  "v32_params \<Rightarrow> v32_state \<Rightarrow> money \<Rightarrow> time \<Rightarrow> v32_state \<times> v32_action list" where
  "requote_quote params st0 n now =
     (let st = (if v_last_standdown_reason st0 \<noteq> None
                then st0\<lparr>v_last_standdown_reason := None, v_stand_down_reason := None\<rparr> else st0) in
      if v_rest_bucket_Sd st \<noteq> None \<and> v_rest_bucket_Sd st \<noteq> v_spot_Sd st \<and> \<not> v_amend_in_flight st
      then bucket_change st
      else if v_rest_pending st \<noteq> None then (st, [])
      else if v_awaiting_replace st \<and> v_cancel_in_flight st then (st, [])
      else if v_amend_in_flight st then (st, [])
      else if rest_place_count params st < 1 then (st, [])
      else (case v_rest_live st of
              None \<Rightarrow> emit_place (st\<lparr>v_awaiting_replace := False\<rparr>) params n now
            | Some live \<Rightarrow>
                if replace_due params st live n now then
                  (if ro_order_id live = None
                   then (st\<lparr>v_cancel_in_flight := True, v_awaiting_replace := True\<rparr>,
                         [cancel_action st live])
                   else emit_amend st params live n)
                else (st, [])))"

definition requote :: "v32_params \<Rightarrow> v32_state \<Rightarrow> time \<Rightarrow> v32_state \<times> v32_action list" where
  "requote params st now =
     (if v_rest_allotment_done st then cancel_live_if_any st
      else if p_replace_rate_alarm params < int (length (recent_times (v_replace_times st) now))
              \<and> \<not> v_stood_down st then
        (let (st1, ca) = cancel_live_if_any st;
             (st2, sa) = standdown (st1\<lparr>v_stood_down := True\<rparr>) ''replace_rate''
         in (st2, ca @ sa))
      else (case quote_gate_of params st now of
              Warmup \<Rightarrow> (st, [])
            | NoQuote reason \<Rightarrow>
                (let (st1, ca) = cancel_live_if_any st;
                     (st2, sa) = standdown st1 reason
                 in (st2, ca @ sa))
            | MayQuote \<Rightarrow>
                (case v_desired_n st of
                   Some n \<Rightarrow> requote_quote params st n now
                 | None \<Rightarrow> (st, []))))"

section \<open>The shadow\<close>

definition in_window :: "v32_params \<Rightarrow> v32_state \<Rightarrow> time \<Rightarrow> bool" where
  "in_window params st now \<longleftrightarrow>
     of_int (v_close_epoch st) - now \<le> of_int (p_quote_start_s params) \<and>
     of_int (p_quote_end_s params) \<le> of_int (v_close_epoch st) - now"

definition shadow_note :: "action_kind \<Rightarrow> shadow_sub \<Rightarrow> money \<Rightarrow> trade \<Rightarrow> time \<Rightarrow> v32_action" where
  "shadow_note kind sub offer event t_to_close =
     (blank_action kind)
       \<lparr>a_shadow_E := Some (ss_E sub), a_offer := Some offer,
        a_print_price := Some (tr_yes_price event), a_count := of_int (py_trunc (tr_count event)),
        a_t_to_close := Some (quantize_he (1/1000) t_to_close)\<rparr>"

definition shadow_trade_one ::
  "v32_params \<Rightarrow> bool \<Rightarrow> time \<Rightarrow> trade \<Rightarrow> shadow_sub \<Rightarrow> shadow_sub \<times> v32_action list" where
  "shadow_trade_one params win t_to_close event sub =
     (case ss_n sub of
        None \<Rightarrow> (sub, [])
      | Some n \<Rightarrow>
          if ss_filled sub then (sub, [])
          else (let offer = 1 - n in
                if \<not> offer < tr_yes_price event then (sub, [])
                else if n < p_n_min params
                then (sub, [shadow_note SHADOW_FILL_BELOW_MIN sub offer event t_to_close])
                else if \<not> win
                then (sub, [shadow_note SHADOW_FILL_OUTSIDE_WINDOW sub offer event t_to_close])
                else (sub\<lparr>ss_filled := True, ss_awaiting := True,
                          ss_fill := Some \<lparr>sf_E = ss_E sub, sf_n = n, sf_offer = offer,
                            sf_print_price = tr_yes_price event, sf_count = tr_count event,
                            sf_server_ts = tr_server_ts event, sf_W_at_completion = None,
                            sf_lock = None\<rparr>\<rparr>, [])))"

definition shadow_on_trade ::
  "v32_params \<Rightarrow> v32_state \<Rightarrow> trade \<Rightarrow> v32_state \<times> v32_action list" where
  "shadow_on_trade params st event =
     (case (classify_ticker (tr_market event) (v_bucket_map st) [], v_spot_Sd st) of
        (Some (BucketMarket fl), Some sd) \<Rightarrow>
          if fl \<noteq> sd then (st, [])
          else if tr_taker_side event \<noteq> ''yes'' then (st, [])
          else if \<not> fresh (tr_server_ts event) (map_of (v_bucket_ts st) sd)
                    (p_bucket_freshness_max_age_s params) then (st, [])
          else
            (let t_to_close = of_int (v_close_epoch st) - tr_server_ts event;
                 win = in_window params st (tr_server_ts event);
                 res = map (\<lambda>(k, sub). (k, shadow_trade_one params win t_to_close event sub))
                         (v_shadows st)
             in (st\<lparr>v_shadows := map (\<lambda>(k, r). (k, fst r)) res\<rparr>,
                 concat (map (\<lambda>(k, r). snd r) res)))
      | _ \<Rightarrow> (st, []))"

definition shadow_complete_one :: "money \<Rightarrow> shadow_sub \<Rightarrow> shadow_sub" where
  "shadow_complete_one w sub =
     (case ss_fill sub of
        None \<Rightarrow> sub
      | Some f \<Rightarrow>
          if \<not> ss_awaiting sub then sub
          else sub\<lparr>ss_awaiting := False,
                   ss_fill := Some (f\<lparr>sf_W_at_completion := Some w,
                                      sf_lock := Some (lock_value (sf_n f) w)\<rparr>)\<rparr>)"

definition shadow_complete :: "v32_params \<Rightarrow> v32_state \<Rightarrow> time \<Rightarrow> v32_state" where
  "shadow_complete params st now =
     (case wing_prices st now params of
        None \<Rightarrow> st
      | Some (ya, na) \<Rightarrow>
          st\<lparr>v_shadows := map (\<lambda>(k, sub). (k, shadow_complete_one (wing_cost ya na) sub))
                            (v_shadows st)\<rparr>)"

section \<open>The decision\<close>

definition eval_tick :: "v32_params \<Rightarrow> v32_state \<Rightarrow> time \<Rightarrow> v32_state \<times> v32_action list" where
  "eval_tick params st now =
     (let st1 = recompute_context params st now;
          st2 = shadow_complete params st1 now;
          (st3, wa) = wing_step params st2 now;
          (st4, qa) = requote params st3 now
      in (st4, wa @ qa))"

definition decide_v32 ::
  "v32_params \<Rightarrow> v32_state \<Rightarrow> v32_event \<Rightarrow> v32_state \<times> v32_action list" where
  "decide_v32 params st event =
     (let now = event_ts event in
      case event of
        EBook e \<Rightarrow> eval_tick params (fold_book st e) now
      | ETrade e \<Rightarrow>
          (let (st1, ta) = shadow_on_trade params st e in (shadow_complete params st1 now, ta))
      | EAck e \<Rightarrow> (apply_ack st e, [])
      | EAmended e \<Rightarrow> apply_amended params st e now
      | ECancelled e \<Rightarrow> apply_cancelled params st e now
      | EFill e \<Rightarrow> apply_fill params st e now
      | EClock _ \<Rightarrow> eval_tick params st now)"

section \<open>The late-fill hook\<close>

definition book_late_rest_fill ::
  "v32_params \<Rightarrow> v32_state \<Rightarrow> money \<Rightarrow> lots \<Rightarrow> time \<Rightarrow> int option \<Rightarrow>
     v32_state \<times> v32_action list" where
  "book_late_rest_fill params st price count server_ts bucket_Sd =
     (if v_rest_fill st \<noteq> None then (st, [])
      else
        (let spot_Sd = (case bucket_Sd of Some b \<Rightarrow> Some b | None \<Rightarrow> v_spot_Sd st);
             spot_Su = (case spot_Sd of Some s \<Rightarrow> Some (s + p_bucket_width params)
                        | None \<Rightarrow> v_spot_Su st);
             idx = v_next_batch_index st;
             rf = \<lparr>rf_price = price, rf_count = q_count count, rf_server_ts = server_ts\<rparr>;
             batch = \<lparr>wb_index = idx, wb_fill_price = price, wb_fill_count = q_count count,
                      wb_server_ts = server_ts, wb_taken = False, wb_completed = False,
                      wb_one_legged = False\<rparr>;
             st1 = st\<lparr>v_rest_fills := v_rest_fills st @ [rf],
                      v_wing_batches := v_wing_batches st @ [batch],
                      v_next_batch_index := idx + 1, v_rest_allotment_done := True,
                      v_rest_live := None, v_rest_pending := None, v_cancel_in_flight := False,
                      v_spot_Sd := spot_Sd, v_spot_Su := spot_Su\<rparr>;
             (st2, wa) = wing_step params st1 server_ts
         in (sync_wing_mirrors st2, wa)))"

end
