(* ===== verification/V32_Hedge.thy ===== *)
theory V32_Hedge
  imports V32_Core
begin

text \<open>
  The hedge invariant of the V3.2 core: every rest fill has exactly one wing batch of its size
  and price, a batch that was taken has exactly its two legs (YES on the low strike, NO on the
  high one) and a batch that was not has none, the completed batches are the counted sets, and
  the legs' client order ids are distinct minted ids. Every operation that touches wings keeps
  it; what those operations leave alone is a frame lemma.
\<close>

section \<open>The frame of the wing operations\<close>

text \<open>Only the wing records, the id counter and the four mirrors may differ.\<close>

definition wing_core :: "v32_state \<Rightarrow> v32_state" where
  "wing_core st = st\<lparr>v_wing_legs := [], v_wing_batches := [], v_coid_seq := 0,
     v_rest_fill := None, v_wings_needed := False, v_wing_taken := False, v_one_legged := False\<rparr>"

definition wing_frame :: "v32_state \<Rightarrow> v32_state \<Rightarrow> bool" where
  "wing_frame st st' \<longleftrightarrow> wing_core st' = wing_core st"

lemma wing_frame_refl [simp]: "wing_frame st st"
  by (simp add: wing_frame_def)

lemma wing_frame_trans: "wing_frame a b \<Longrightarrow> wing_frame b c \<Longrightarrow> wing_frame a c"
  by (simp add: wing_frame_def)

lemma wing_core_sel:
  "v_close_time (wing_core st) = v_close_time st"
    "v_close_epoch (wing_core st) = v_close_epoch st"
    "v_shakedown (wing_core st) = v_shakedown st"
    "v_strike_tops (wing_core st) = v_strike_tops st"
    "v_strike_ts (wing_core st) = v_strike_ts st"
    "v_strike_tickers (wing_core st) = v_strike_tickers st"
    "v_bucket_map (wing_core st) = v_bucket_map st"
    "v_strike_floor_map (wing_core st) = v_strike_floor_map st"
    "v_bucket_tops (wing_core st) = v_bucket_tops st"
    "v_bucket_ts (wing_core st) = v_bucket_ts st"
    "v_bucket_tickers (wing_core st) = v_bucket_tickers st"
    "v_spot_Sd (wing_core st) = v_spot_Sd st"
    "v_spot_Su (wing_core st) = v_spot_Su st"
    "v_W (wing_core st) = v_W st"
    "v_cap (wing_core st) = v_cap st"
    "v_desired_n (wing_core st) = v_desired_n st"
    "v_spot_bucket_stale (wing_core st) = v_spot_bucket_stale st"
    "v_rest_live (wing_core st) = v_rest_live st"
    "v_rest_pending (wing_core st) = v_rest_pending st"
    "v_cancel_in_flight (wing_core st) = v_cancel_in_flight st"
    "v_amend_in_flight (wing_core st) = v_amend_in_flight st"
    "v_awaiting_replace (wing_core st) = v_awaiting_replace st"
    "v_rest_bucket_Sd (wing_core st) = v_rest_bucket_Sd st"
    "v_last_replace_ts (wing_core st) = v_last_replace_ts st"
    "v_replace_count (wing_core st) = v_replace_count st"
    "v_replace_times (wing_core st) = v_replace_times st"
    "v_sets_done (wing_core st) = v_sets_done st"
    "v_rest_fills (wing_core st) = v_rest_fills st"
    "v_rest_remaining (wing_core st) = v_rest_remaining st"
    "v_rest_allotment_done (wing_core st) = v_rest_allotment_done st"
    "v_rest_booked (wing_core st) = v_rest_booked st"
    "v_next_batch_index (wing_core st) = v_next_batch_index st"
    "v_partial_fills (wing_core st) = v_partial_fills st"
    "v_cancel_ctx (wing_core st) = v_cancel_ctx st"
    "v_amend_cross_pending (wing_core st) = v_amend_cross_pending st"
    "v_shadows (wing_core st) = v_shadows st"
    "v_stood_down (wing_core st) = v_stood_down st"
    "v_stand_down_reason (wing_core st) = v_stand_down_reason st"
    "v_last_standdown_reason (wing_core st) = v_last_standdown_reason st"
  by (simp_all add: wing_core_def)

lemma wing_frameD:
  assumes "wing_frame st st'"
  shows
    "v_close_time st' = v_close_time st"
    "v_close_epoch st' = v_close_epoch st"
    "v_shakedown st' = v_shakedown st"
    "v_strike_tops st' = v_strike_tops st"
    "v_strike_ts st' = v_strike_ts st"
    "v_strike_tickers st' = v_strike_tickers st"
    "v_bucket_map st' = v_bucket_map st"
    "v_strike_floor_map st' = v_strike_floor_map st"
    "v_bucket_tops st' = v_bucket_tops st"
    "v_bucket_ts st' = v_bucket_ts st"
    "v_bucket_tickers st' = v_bucket_tickers st"
    "v_spot_Sd st' = v_spot_Sd st"
    "v_spot_Su st' = v_spot_Su st"
    "v_W st' = v_W st"
    "v_cap st' = v_cap st"
    "v_desired_n st' = v_desired_n st"
    "v_spot_bucket_stale st' = v_spot_bucket_stale st"
    "v_rest_live st' = v_rest_live st"
    "v_rest_pending st' = v_rest_pending st"
    "v_cancel_in_flight st' = v_cancel_in_flight st"
    "v_amend_in_flight st' = v_amend_in_flight st"
    "v_awaiting_replace st' = v_awaiting_replace st"
    "v_rest_bucket_Sd st' = v_rest_bucket_Sd st"
    "v_last_replace_ts st' = v_last_replace_ts st"
    "v_replace_count st' = v_replace_count st"
    "v_replace_times st' = v_replace_times st"
    "v_sets_done st' = v_sets_done st"
    "v_rest_fills st' = v_rest_fills st"
    "v_rest_remaining st' = v_rest_remaining st"
    "v_rest_allotment_done st' = v_rest_allotment_done st"
    "v_rest_booked st' = v_rest_booked st"
    "v_next_batch_index st' = v_next_batch_index st"
    "v_partial_fills st' = v_partial_fills st"
    "v_cancel_ctx st' = v_cancel_ctx st"
    "v_amend_cross_pending st' = v_amend_cross_pending st"
    "v_shadows st' = v_shadows st"
    "v_stood_down st' = v_stood_down st"
    "v_stand_down_reason st' = v_stand_down_reason st"
    "v_last_standdown_reason st' = v_last_standdown_reason st"
  by (metis assms wing_frame_def wing_core_sel)+

lemma wing_frameI_legs [simp]:
  "wing_frame st (st\<lparr>v_wing_legs := ls\<rparr>)" "wing_frame st (st\<lparr>v_wing_batches := bs\<rparr>)"
  "wing_frame st (st\<lparr>v_coid_seq := sq\<rparr>)"
  "wing_frame st (st\<lparr>v_coid_seq := sq, v_wing_legs := ls\<rparr>)"
  by (simp_all add: wing_frame_def wing_core_def)

lemma wing_frame_sync [simp]: "wing_frame st (sync_wing_mirrors st)"
  by (simp add: wing_frame_def wing_core_def sync_wing_mirrors_def)

lemma wing_frame_sync_iff [simp]: "wing_frame st (sync_wing_mirrors st') = wing_frame st st'"
  by (simp add: wing_frame_def wing_core_def sync_wing_mirrors_def)

lemma mint_coid_eq:
  "mint_coid st = (coid_of (v_close_time st) (v_coid_seq st + 1), st\<lparr>v_coid_seq := v_coid_seq st + 1\<rparr>)"
  by (simp add: mint_coid_def Let_def)

lemma wing_frame_take: "wing_frame st (fst (take_batch params st b ya na))"
  by (simp add: wing_frame_def wing_core_def take_batch_def Let_def mint_coid_eq)

lemma retry_legs_state:
  "\<exists>sq. v_coid_seq st \<le> sq \<and> fst (retry_legs params i ya na st ls) = st\<lparr>v_coid_seq := sq\<rparr>"
proof (induction ls arbitrary: st)
  case Nil
  then show ?case by (auto intro: exI [of _ "v_coid_seq st"])
next
  case (Cons l ls)
  show ?case
  proof (cases "wl_batch l \<noteq> i \<or> wl_status l \<noteq> Unfilled")
    case True
    with Cons show ?thesis by (auto simp: case_prod_beta Let_def)
  next
    case False
    obtain sq where "v_coid_seq (snd (mint_coid st)) \<le> sq"
      "fst (retry_legs params i ya na (snd (mint_coid st)) ls) = (snd (mint_coid st))\<lparr>v_coid_seq := sq\<rparr>"
      using Cons.IH by blast
    with False show ?thesis
      by (intro exI [of _ sq]) (auto simp: case_prod_beta Let_def mint_coid_eq)
  qed
qed

lemma wing_frame_retry: "wing_frame st (fst (retry_batch params st b ya na))"
proof -
  obtain sq where "fst (retry_legs params (wb_index b) ya na st (v_wing_legs st)) = st\<lparr>v_coid_seq := sq\<rparr>"
    using retry_legs_state by blast
  then show ?thesis
    by (simp add: retry_batch_def Let_def case_prod_beta)
qed

lemma wing_frame_step_batches: "wing_frame st (fst (step_batches params ya na st is))"
proof (induction "is" arbitrary: st)
  case (Cons i "is")
  show ?case
    by (auto simp: case_prod_beta Let_def split: option.splits
        intro: Cons.IH wing_frame_trans [OF wing_frame_take Cons.IH]
          wing_frame_trans [OF wing_frame_retry Cons.IH])
qed simp

lemma wing_frame_flag: "wing_frame st (flag_one_legged st b)"
  by (auto simp: flag_one_legged_def Let_def wing_frameI_legs)

lemma wing_frame_flags: "wing_frame st (foldl flag_one_legged st bs)"
  by (induction bs arbitrary: st) (auto intro: wing_frame_trans wing_frame_flag)

lemma wing_frame_wing_step: "wing_frame st (fst (wing_step params st now))"
  by (auto simp: wing_step_def Let_def case_prod_beta wing_frame_flags wing_frame_step_batches
      split: option.splits)

lemmas wing_step_frame [frame_simps] = wing_frameD [OF wing_frame_wing_step]
lemmas sync_frame [frame_simps] = wing_frameD [OF wing_frame_sync]

lemma sync_wing_parts [frame_simps]:
  "v_wing_legs (sync_wing_mirrors st) = v_wing_legs st"
  "v_wing_batches (sync_wing_mirrors st) = v_wing_batches st"
  "v_coid_seq (sync_wing_mirrors st) = v_coid_seq st"
  "batch_legs (sync_wing_mirrors st) i = batch_legs st i"
  by (simp_all add: sync_wing_mirrors_def batch_legs_def)

section \<open>The invariant\<close>

definition batch_hedged :: "v32_state \<Rightarrow> wing_batch \<Rightarrow> bool" where
  "batch_hedged st b \<longleftrightarrow>
     map (\<lambda>l. (wl_side l, wl_count l)) (batch_legs st (wb_index b)) =
       (if wb_taken b then [(BUY_YES, wb_fill_count b), (BUY_NO, wb_fill_count b)] else [])"

text \<open>Distinct client order ids, each minted with a counter value up to \<open>n\<close>.\<close>

definition minted :: "string \<Rightarrow> nat \<Rightarrow> string list \<Rightarrow> bool" where
  "minted ct n cs \<longleftrightarrow> distinct cs \<and> (\<forall>c \<in> set cs. \<exists>k \<in> {1..n}. c = coid_of ct k)"

definition coids_ok :: "v32_state \<Rightarrow> bool" where
  "coids_ok st \<longleftrightarrow> minted (v_close_time st) (v_coid_seq st) (map wl_coid (v_wing_legs st))"

lemma coid_of_inj [simp]: "coid_of ct j = coid_of ct k \<longleftrightarrow> j = k"
  by (simp add: coid_of_def show_nat_inj)

lemma minted_mono: "minted ct m cs \<Longrightarrow> m \<le> n \<Longrightarrow> minted ct n cs"
  unfolding minted_def by fastforce

lemma minted_fresh: "minted ct n cs \<Longrightarrow> n < k \<Longrightarrow> coid_of ct k \<notin> set cs"
  unfolding minted_def by fastforce

lemma minted_replace:
  assumes "minted ct n (xs @ cs @ ys)"
  shows "minted ct (Suc n) (xs @ coid_of ct (Suc n) # ys)"
proof -
  have m: "minted ct n (xs @ ys)" using assms by (auto simp: minted_def)
  with minted_fresh [OF m, of "Suc n"] show ?thesis
    unfolding minted_def by (auto intro: bexI [of _ "Suc n"]) (fastforce)+
qed

lemma minted_snoc: "minted ct n cs \<Longrightarrow> minted ct (Suc n) (cs @ [coid_of ct (Suc n)])"
  using minted_replace [of ct n cs "[]" "[]"] by simp

lemma minted_snoc2:
  "minted ct n cs \<Longrightarrow> minted ct (n + 2) (cs @ [coid_of ct (n + 1), coid_of ct (n + 2)])"
  using minted_snoc [OF minted_snoc, of ct n cs] by simp

definition hedge_inv :: "v32_state \<Rightarrow> bool" where
  "hedge_inv st \<longleftrightarrow>
     map wb_index (v_wing_batches st) = [0..<v_next_batch_index st] \<and>
     map (\<lambda>b. (wb_fill_price b, wb_fill_count b, wb_server_ts b)) (v_wing_batches st) =
       map (\<lambda>f. (rf_price f, rf_count f, rf_server_ts f)) (v_rest_fills st) \<and>
     (\<forall>b \<in> set (v_wing_batches st). batch_hedged st b \<and> (wb_completed b \<longrightarrow> wb_taken b)) \<and>
     (\<forall>l \<in> set (v_wing_legs st). wl_batch l < v_next_batch_index st) \<and>
     v_sets_done st = length (filter wb_completed (v_wing_batches st)) \<and>
     coids_ok st"

lemma hedge_invD:
  assumes "hedge_inv st"
  shows "map wb_index (v_wing_batches st) = [0..<v_next_batch_index st]"
    "map (\<lambda>b. (wb_fill_price b, wb_fill_count b, wb_server_ts b)) (v_wing_batches st) =
       map (\<lambda>f. (rf_price f, rf_count f, rf_server_ts f)) (v_rest_fills st)"
    "b \<in> set (v_wing_batches st) \<Longrightarrow> batch_hedged st b"
    "b \<in> set (v_wing_batches st) \<Longrightarrow> wb_completed b \<Longrightarrow> wb_taken b"
    "l \<in> set (v_wing_legs st) \<Longrightarrow> wl_batch l < v_next_batch_index st"
    "v_sets_done st = length (filter wb_completed (v_wing_batches st))"
    "coids_ok st"
    "distinct (map wb_index (v_wing_batches st))"
  using assms by (auto simp: hedge_inv_def)

text \<open>The invariant reads six fields only.\<close>

lemma hedge_inv_cong:
  assumes "v_wing_batches st' = v_wing_batches st" "v_wing_legs st' = v_wing_legs st"
    "v_rest_fills st' = v_rest_fills st" "v_next_batch_index st' = v_next_batch_index st"
    "v_sets_done st' = v_sets_done st" "v_close_time st' = v_close_time st"
    "v_coid_seq st \<le> v_coid_seq st'"
  shows "hedge_inv st \<Longrightarrow> hedge_inv st'"
  using assms unfolding hedge_inv_def coids_ok_def batch_hedged_def batch_legs_def
  by (auto intro: minted_mono)

lemma hedge_inv_sync [inv_intros]: "hedge_inv st \<Longrightarrow> hedge_inv (sync_wing_mirrors st)"
  by (rule hedge_inv_cong) (simp_all add: frame_simps)

lemma hedge_inv_new: "hedge_inv (new_v32_state ct ce bm p sh)"
  by (simp add: hedge_inv_def coids_ok_def minted_def new_v32_state_def)

lemma map_if_absent:
  "i \<notin> wb_index ` set bs \<Longrightarrow> map (\<lambda>x. if wb_index x = i then f x else x) bs = bs"
  by (induction bs) auto

lemma replace_batch_map:
  "distinct (map wb_index bs) \<Longrightarrow>
    replace_batch bs i f = map (\<lambda>b. if wb_index b = i then f b else b) bs"
  by (induction bs) (auto simp: map_if_absent)

lemma filter_replace_one:
  assumes "distinct (map wb_index bs)" "b \<in> set bs" "wb_index b = i" "\<not> P b" "P (f b)"
  shows "length (filter P (map (\<lambda>x. if wb_index x = i then f x else x) bs)) =
         Suc (length (filter P bs))"
  using assms
proof (induction bs)
  case (Cons x bs)
  show ?case
  proof (cases "x = b")
    case True
    with Cons.prems have "map (\<lambda>x. if wb_index x = i then f x else x) bs = bs"
      by (intro map_if_absent) auto
    with True Cons.prems show ?thesis by simp
  next
    case False
    with Cons.prems have "wb_index x \<noteq> i" by auto
    with False Cons show ?thesis by auto
  qed
qed simp

text \<open>
  Rewriting batches in place: what a function must leave alone so that the invariant survives.
\<close>

lemma hedge_inv_map_batches:
  assumes inv: "hedge_inv st"
    and keep: "\<And>b. wb_index (f b) = wb_index b" "\<And>b. wb_fill_price (f b) = wb_fill_price b"
      "\<And>b. wb_fill_count (f b) = wb_fill_count b" "\<And>b. wb_server_ts (f b) = wb_server_ts b"
      "\<And>b. wb_taken (f b) = wb_taken b"
    and compl: "\<And>b. b \<in> set (v_wing_batches st) \<Longrightarrow> wb_completed (f b) \<Longrightarrow> wb_taken b"
    and dn: "n = length (filter wb_completed (map f (v_wing_batches st)))"
  shows "hedge_inv (st\<lparr>v_sets_done := n, v_wing_batches := map f (v_wing_batches st)\<rparr>)"
  using inv compl unfolding hedge_inv_def batch_hedged_def batch_legs_def coids_ok_def
  by (simp add: keep comp_def dn)

section \<open>Taking a batch\<close>

lemma take_batch_parts:
  "v_wing_legs (fst (take_batch params st b ya na)) =
     v_wing_legs st @
     [\<lparr>wl_ticker = ticker_at (v_strike_tickers st) (v_spot_Sd st), wl_side = BUY_YES,
       wl_count = wb_fill_count b, wl_limit = min (ya + p_wing_margin params) LIMIT_CEILING,
       wl_coid = coid_of (v_close_time st) (v_coid_seq st + 1), wl_status = Pending,
       wl_fill_price = None, wl_fill_fee = None, wl_batch = wb_index b\<rparr>,
      \<lparr>wl_ticker = ticker_at (v_strike_tickers st) (v_spot_Su st), wl_side = BUY_NO,
       wl_count = wb_fill_count b, wl_limit = min (na + p_wing_margin params) LIMIT_CEILING,
       wl_coid = coid_of (v_close_time st) (v_coid_seq st + 2), wl_status = Pending,
       wl_fill_price = None, wl_fill_fee = None, wl_batch = wb_index b\<rparr>]"
  "v_wing_batches (fst (take_batch params st b ya na)) =
     replace_batch (v_wing_batches st) (wb_index b) (\<lambda>x. x\<lparr>wb_taken := True\<rparr>)"
  "v_coid_seq (fst (take_batch params st b ya na)) = v_coid_seq st + 2"
  by (simp_all add: take_batch_def Let_def mint_coid_eq)

lemma take_batch_actions:
  "\<exists>a. snd (take_batch params st b ya na) = [a] \<and>
     a_kind a = twin_kind TAKE_WINGS (v_shakedown st) \<and> a_count a = wb_fill_count b \<and>
     a_lock a = Some (lock_value (wb_fill_price b) (wing_cost ya na)) \<and>
     map (\<lambda>l. (lo_side l, lo_count l, lo_limit l)) (a_legs a) =
       [(BUY_YES, wb_fill_count b, min (ya + p_wing_margin params) LIMIT_CEILING),
        (BUY_NO, wb_fill_count b, min (na + p_wing_margin params) LIMIT_CEILING)]"
  by (simp add: take_batch_def Let_def mint_coid_eq mk_action_def blank_action_def wing_cost_def)

lemma take_batch_legs:
  "map (\<lambda>l. (wl_side l, wl_count l)) (batch_legs (fst (take_batch params st b ya na)) i) =
     map (\<lambda>l. (wl_side l, wl_count l)) (batch_legs st i) @
     (if i = wb_index b then [(BUY_YES, wb_fill_count b), (BUY_NO, wb_fill_count b)] else [])"
  by (simp add: batch_legs_def take_batch_parts)

lemma hedge_inv_take [inv_intros]:
  assumes inv: "hedge_inv st" and b: "b \<in> set (v_wing_batches st)" "\<not> wb_taken b"
  shows "hedge_inv (fst (take_batch params st b ya na))" (is "hedge_inv ?st'")
proof -
  define f :: "wing_batch \<Rightarrow> wing_batch"
    where "f x = (if wb_index x = wb_index b then x\<lparr>wb_taken := True\<rparr> else x)" for x
  have f: "wb_index (f x) = wb_index x" "wb_fill_price (f x) = wb_fill_price x"
    "wb_fill_count (f x) = wb_fill_count x" "wb_server_ts (f x) = wb_server_ts x"
    "wb_completed (f x) = wb_completed x" for x
    by (simp_all add: f_def)
  note D = hedge_invD [OF inv]
  note frame = wing_frameD [OF wing_frame_take, of params st b ya na]
  have batches: "v_wing_batches ?st' = map f (v_wing_batches st)"
    by (simp add: take_batch_parts replace_batch_map [OF D(8)] f_def)
  have "wb_index b < v_next_batch_index st"
    using b(1) D(1) by (metis atLeastLessThan_iff image_eqI list.set_map set_upt)
  then have legs: "\<forall>l \<in> set (v_wing_legs ?st'). wl_batch l < v_next_batch_index st"
    using D(5) by (auto simp: take_batch_parts)
  have uniq: "x = b" if "x \<in> set (v_wing_batches st)" "wb_index x = wb_index b" for x
    using that b(1) D(8) by (simp add: distinct_map inj_on_def)
  have hedged: "batch_hedged ?st' (f x) \<and> (wb_completed (f x) \<longrightarrow> wb_taken (f x))"
    if x: "x \<in> set (v_wing_batches st)" for x
  proof (cases "wb_index x = wb_index b")
    case True
    with uniq [OF x] D(3) [OF b(1)] b(2) show ?thesis
      by (simp add: batch_hedged_def take_batch_legs f_def)
  next
    case False
    with D(3,4) [OF x] show ?thesis by (simp add: batch_hedged_def take_batch_legs f_def)
  qed
  have "coids_ok ?st'"
    using minted_snoc2 D(7) unfolding coids_ok_def take_batch_parts frame by simp
  then show ?thesis
    unfolding hedge_inv_def batches frame using D(1,2,6) legs hedged
    by (simp add: comp_def f filter_map)
qed

section \<open>Retrying legs\<close>

lemma retry_legs_parts:
  assumes "retry_legs params i ya na st ls = (st', ls', acts)"
  shows "map (\<lambda>l. (wl_batch l, wl_side l, wl_count l)) ls' =
           map (\<lambda>l. (wl_batch l, wl_side l, wl_count l)) ls"
    and "minted (v_close_time st) (v_coid_seq st) (pre @ map wl_coid ls) \<Longrightarrow>
           minted (v_close_time st) (v_coid_seq st') (pre @ map wl_coid ls')"
    and "a \<in> set acts \<Longrightarrow> a_kind a = twin_kind RETRY_WING (v_shakedown st)"
    and "a \<in> set acts \<Longrightarrow> \<exists>l \<in> set ls. wl_batch l = i \<and> wl_status l = Unfilled"
  using assms
proof (induction ls arbitrary: st st' ls' acts pre)
  case (Cons l ls)
  {
    case 1
    with Cons show ?case by (auto simp: Let_def mint_coid_eq split: if_splits prod.splits)
  next
    case 2
    show ?case
    proof (cases "wl_batch l \<noteq> i \<or> wl_status l \<noteq> Unfilled")
      case True
      with 2 obtain ls1 where r: "retry_legs params i ya na st ls = (st', ls1, acts)" "ls' = l # ls1"
        by (auto split: prod.splits)
      show ?thesis using Cons.IH(2) [OF _ r(1), of "pre @ [wl_coid l]"] 2 r(2) by simp
    next
      case False
      let ?st0 = "st\<lparr>v_coid_seq := Suc (v_coid_seq st)\<rparr>"
      from False 2 obtain ls1 a1 l' where r: "retry_legs params i ya na ?st0 ls = (st', ls1, a1)"
        "ls' = l' # ls1" "wl_coid l' = coid_of (v_close_time st) (Suc (v_coid_seq st))"
        by (auto simp: Let_def mint_coid_eq split: prod.splits)
      have "minted (v_close_time st) (Suc (v_coid_seq st)) (pre @ wl_coid l' # map wl_coid ls)"
        using minted_replace [of _ _ pre "[wl_coid l]" "map wl_coid ls"] 2 r(3) by simp
      then show ?thesis
        using Cons.IH(2) [OF _ r(1), of "pre @ [wl_coid l']"] r(2) by simp
    qed
  next
    case 3
    with Cons.IH(3) show ?case
      by (fastforce simp: Let_def mint_coid_eq mk_action_def split: if_splits prod.splits)
  next
    case 4
    with Cons.IH(4) show ?case
      by (fastforce simp: Let_def mint_coid_eq split: if_splits prod.splits)
  }
qed auto

lemma hedge_inv_relabel:
  assumes inv: "hedge_inv st"
    and shape: "map (\<lambda>l. (wl_batch l, wl_side l, wl_count l)) ls =
      map (\<lambda>l. (wl_batch l, wl_side l, wl_count l)) (v_wing_legs st)"
    and coids: "minted (v_close_time st) sq (map wl_coid ls)"
  shows "hedge_inv (st\<lparr>v_coid_seq := sq, v_wing_legs := ls\<rparr>)" (is "hedge_inv ?st'")
proof -
  note D = hedge_invD [OF inv]
  have flt: "map (\<lambda>l. (wl_side l, wl_count l)) (filter (\<lambda>l. wl_batch l = i) xs) =
      map snd (filter (\<lambda>p. fst p = i) (map (\<lambda>l. (wl_batch l, wl_side l, wl_count l)) xs))"
    for i and xs :: "wing_leg list"
    by (induction xs) auto
  have "map (\<lambda>l. (wl_side l, wl_count l)) (batch_legs ?st' i) =
      map (\<lambda>l. (wl_side l, wl_count l)) (batch_legs st i)" for i
    unfolding batch_legs_def by (simp add: flt shape)
  then have "batch_hedged ?st' b \<longleftrightarrow> batch_hedged st b" for b
    by (simp add: batch_hedged_def)
  moreover have "wl_batch ` set ls = wl_batch ` set (v_wing_legs st)"
    using arg_cong [OF shape, of "\<lambda>xs. fst ` set xs"] by (simp add: image_image)
  then have "\<forall>l \<in> set ls. wl_batch l < v_next_batch_index st"
    using D(5) by (metis imageE imageI)
  ultimately show ?thesis
    using D coids by (simp add: hedge_inv_def coids_ok_def)
qed

lemma hedge_inv_retry [inv_intros]:
  assumes inv: "hedge_inv st"
  shows "hedge_inv (fst (retry_batch params st b ya na))"
proof -
  obtain st' ls' acts where r:
    "retry_legs params (wb_index b) ya na st (v_wing_legs st) = (st', ls', acts)"
    by (cases "retry_legs params (wb_index b) ya na st (v_wing_legs st)") auto
  moreover obtain sq where "st' = st\<lparr>v_coid_seq := sq\<rparr>"
    using retry_legs_state [of st params "wb_index b" ya na "v_wing_legs st"] r by auto
  ultimately show ?thesis
    using inv hedge_inv_relabel [OF inv retry_legs_parts(1) [OF r], of sq]
      retry_legs_parts(2) [OF r, of "[]"] hedge_invD(7) [OF inv]
    by (simp add: retry_batch_def coids_ok_def)
qed

section \<open>Flags, closing, the wing step\<close>

lemma hedge_inv_flag [inv_intros]:
  assumes inv: "hedge_inv st"
  shows "hedge_inv (flag_one_legged st b)"
proof -
  define f :: "wing_batch \<Rightarrow> wing_batch"
    where "f x = (if wb_index x = wb_index b then x\<lparr>wb_one_legged := True\<rparr> else x)" for x
  have f: "wb_index (f x) = wb_index x" "wb_fill_price (f x) = wb_fill_price x"
    "wb_fill_count (f x) = wb_fill_count x" "wb_server_ts (f x) = wb_server_ts x"
    "wb_taken (f x) = wb_taken x" "wb_completed (f x) = wb_completed x" for x
    by (simp_all add: f_def)
  have "hedge_inv (st\<lparr>v_sets_done := v_sets_done st, v_wing_batches := map f (v_wing_batches st)\<rparr>)"
    using hedge_invD [OF inv]
    by (intro hedge_inv_map_batches [OF inv]) (simp_all add: f filter_map comp_def)
  moreover have "replace_batch (v_wing_batches st) (wb_index b) (\<lambda>x. x\<lparr>wb_one_legged := True\<rparr>) =
      map f (v_wing_batches st)"
    by (simp add: replace_batch_map [OF hedge_invD(8) [OF inv]] f_def)
  ultimately show ?thesis
    using inv by (simp add: flag_one_legged_def Let_def)
qed

lemma hedge_inv_flags: "hedge_inv st \<Longrightarrow> hedge_inv (foldl flag_one_legged st bs)"
  by (induction bs arbitrary: st) (auto intro: hedge_inv_flag)

lemma find_SomeD: "find P xs = Some x \<Longrightarrow> x \<in> set xs \<and> P x"
  by (induction xs) (auto split: if_splits)

lemma hedge_inv_step_batches:
  "hedge_inv st \<Longrightarrow> hedge_inv (fst (step_batches params ya na st is))"
proof (induction "is" arbitrary: st)
  case (Cons i "is")
  then show ?case
    by (auto simp: case_prod_beta Let_def split: option.splits dest!: find_SomeD
        intro!: Cons.IH hedge_inv_take hedge_inv_retry)
qed simp

lemma hedge_inv_wing_step [inv_intros]:
  "hedge_inv st \<Longrightarrow> hedge_inv (fst (wing_step params st now))"
  by (auto simp: wing_step_def Let_def case_prod_beta
      intro: hedge_inv_sync hedge_inv_flags hedge_inv_step_batches split: option.splits)

lemma maybe_close_set_eq:
  assumes inv: "hedge_inv st"
  shows "maybe_close_set st i = sync_wing_mirrors
    (case find (\<lambda>b. wb_index b = i) (v_wing_batches st) of
       None \<Rightarrow> st
     | Some b \<Rightarrow>
         if \<not> wb_completed b \<and> batch_legs st i \<noteq> [] \<and>
            list_all (\<lambda>l. wl_status l = Filled) (batch_legs st i)
         then st\<lparr>v_sets_done := Suc (v_sets_done st),
                 v_wing_batches := map (\<lambda>x. if wb_index x = i
                   then x\<lparr>wb_completed := True, wb_one_legged := False\<rparr> else x) (v_wing_batches st)\<rparr>
         else st)"
  by (auto simp: maybe_close_set_def Let_def replace_batch_map [OF hedge_invD(8) [OF inv]]
      split: option.splits)

lemma hedge_inv_close [inv_intros]:
  assumes inv: "hedge_inv st"
  shows "hedge_inv (maybe_close_set st i)"
proof -
  note D = hedge_invD [OF inv]
  have "hedge_inv (st\<lparr>v_sets_done := Suc (v_sets_done st),
          v_wing_batches := map (\<lambda>x. if wb_index x = i
            then x\<lparr>wb_completed := True, wb_one_legged := False\<rparr> else x) (v_wing_batches st)\<rparr>)"
    if b: "b \<in> set (v_wing_batches st)" "wb_index b = i" "\<not> wb_completed b"
      and legs: "batch_legs st i \<noteq> []" for b
  proof (intro hedge_inv_map_batches [OF inv])
    have tk: "wb_taken b"
      using D(3) [OF b(1)] legs b(2) by (auto simp: batch_hedged_def split: if_splits)
    have uniq: "x = b" if "x \<in> set (v_wing_batches st)" "wb_index x = i" for x
      using that b D(8) by (simp add: distinct_map inj_on_def)
    show "wb_taken x" if "x \<in> set (v_wing_batches st)"
      "wb_completed (if wb_index x = i then x\<lparr>wb_completed := True, wb_one_legged := False\<rparr> else x)"
      for x using that tk uniq D(4) by (auto split: if_splits)
    show "Suc (v_sets_done st) = length (filter wb_completed (map (\<lambda>x. if wb_index x = i
        then x\<lparr>wb_completed := True, wb_one_legged := False\<rparr> else x) (v_wing_batches st)))"
      using filter_replace_one [OF D(8) b(1,2), of wb_completed
          "\<lambda>x. x\<lparr>wb_completed := True, wb_one_legged := False\<rparr>"] b(3) D(6) by simp
  qed simp_all
  with inv show ?thesis
    unfolding maybe_close_set_eq [OF inv]
    by (auto intro!: hedge_inv_sync dest!: find_SomeD split: option.splits)
qed

lemma fill_leg_shape:
  assumes "fill_leg ev ls = Some (ls', b)"
  shows "map (\<lambda>l. (wl_batch l, wl_side l, wl_count l)) ls' =
           map (\<lambda>l. (wl_batch l, wl_side l, wl_count l)) ls"
    and "map wl_coid ls' = map wl_coid ls"
    and "\<exists>l \<in> set ls. wl_coid l = fi_coid ev \<and> b = wl_batch l"
  using assms by (induction ls arbitrary: ls') (auto split: if_splits)

lemma hedge_inv_fill_leg:
  assumes inv: "hedge_inv st" and "fill_leg ev (v_wing_legs st) = Some (ls', b)"
  shows "hedge_inv (st\<lparr>v_wing_legs := ls'\<rparr>)"
  using hedge_inv_relabel [OF inv fill_leg_shape(1) [OF assms(2)], of "v_coid_seq st"]
    fill_leg_shape(2) [OF assms(2)] hedge_invD(7) [OF inv]
  by (simp add: coids_ok_def)

section \<open>Booking and the events\<close>

text \<open>A new fill and its batch, appended together.\<close>

definition add_batch :: "v32_state \<Rightarrow> money \<Rightarrow> lots \<Rightarrow> time \<Rightarrow> v32_state" where
  "add_batch st price delta now =
     st\<lparr>v_rest_fills := v_rest_fills st @ [\<lparr>rf_price = price, rf_count = delta, rf_server_ts = now\<rparr>],
        v_wing_batches := v_wing_batches st @
          [\<lparr>wb_index = v_next_batch_index st, wb_fill_price = price, wb_fill_count = delta,
            wb_server_ts = now, wb_taken = False, wb_completed = False, wb_one_legged = False\<rparr>],
        v_next_batch_index := v_next_batch_index st + 1\<rparr>"

lemma hedge_inv_add_batch:
  assumes inv: "hedge_inv st"
  shows "hedge_inv (add_batch st price delta now)"
proof -
  note D = hedge_invD [OF inv]
  have "filter (\<lambda>l. wl_batch l = v_next_batch_index st) (v_wing_legs st) = []"
    using D(5) by (fastforce simp: filter_empty_conv)
  with D show ?thesis
    by (auto simp: hedge_inv_def add_batch_def batch_hedged_def batch_legs_def coids_ok_def
        less_Suc_eq)
qed

text \<open>The state \<open>book_rest_delta\<close> hands to the wing step.\<close>

definition remaining_after :: "v32_params \<Rightarrow> v32_state \<Rightarrow> lots \<Rightarrow> lots" where
  "remaining_after params st d = max 0 (q_count (rest_size params st - q_count d))"

definition book_pre ::
  "v32_params \<Rightarrow> v32_state \<Rightarrow> string \<Rightarrow> money \<Rightarrow> lots \<Rightarrow> time \<Rightarrow> v32_state" where
  "book_pre params st coid price d now =
     (let rem = remaining_after params st d;
          st1 = (add_batch st price (q_count d) now)
            \<lparr>v_rest_booked := AList.update coid
               (q_count (dict_get_default (v_rest_booked st) coid 0 + q_count d)) (v_rest_booked st),
             v_rest_remaining := Some rem,
             v_partial_fills := v_partial_fills st + (if 0 < rem then 1 else 0)\<rparr>
      in if rem \<le> 0
         then st1\<lparr>v_rest_allotment_done := True, v_rest_live := None, v_rest_pending := None,
                  v_cancel_in_flight := False, v_amend_in_flight := False\<rparr>
         else st1\<lparr>v_rest_live :=
                (case v_rest_live st of
                   Some l \<Rightarrow> if ro_coid l = coid then Some (l\<lparr>ro_count := rem\<rparr>) else Some l
                 | None \<Rightarrow> None)\<rparr>)"

lemma book_rest_delta_eq:
  "book_rest_delta params st coid price d now =
    (sync_wing_mirrors (fst (wing_step params (book_pre params st coid price d now) now)),
     snd (wing_step params (book_pre params st coid price d now) now))"
  by (simp add: book_rest_delta_def book_pre_def remaining_after_def add_batch_def Let_def
      case_prod_beta)

lemma book_pre_sel:
  "v_wing_batches (book_pre params st coid price d now) =
     v_wing_batches (add_batch st price (q_count d) now)"
  "v_rest_fills (book_pre params st coid price d now) =
     v_rest_fills (add_batch st price (q_count d) now)"
  "v_wing_legs (book_pre params st coid price d now) = v_wing_legs st"
  "v_next_batch_index (book_pre params st coid price d now) = Suc (v_next_batch_index st)"
  "v_sets_done (book_pre params st coid price d now) = v_sets_done st"
  "v_close_time (book_pre params st coid price d now) = v_close_time st"
  "v_close_epoch (book_pre params st coid price d now) = v_close_epoch st"
  "v_coid_seq (book_pre params st coid price d now) = v_coid_seq st"
  "v_shakedown (book_pre params st coid price d now) = v_shakedown st"
  "v_spot_Sd (book_pre params st coid price d now) = v_spot_Sd st"
  "v_spot_Su (book_pre params st coid price d now) = v_spot_Su st"
  "v_strike_tops (book_pre params st coid price d now) = v_strike_tops st"
  "v_strike_ts (book_pre params st coid price d now) = v_strike_ts st"
  "v_rest_remaining (book_pre params st coid price d now) = Some (remaining_after params st d)"
  "v_rest_allotment_done (book_pre params st coid price d now) =
     (v_rest_allotment_done st \<or> remaining_after params st d \<le> 0)"
  "v_rest_booked (book_pre params st coid price d now) =
     AList.update coid (q_count (dict_get_default (v_rest_booked st) coid 0 + q_count d))
       (v_rest_booked st)"
  by (simp_all add: book_pre_def Let_def add_batch_def)

lemma hedge_inv_book_pre:
  "hedge_inv st \<Longrightarrow> hedge_inv (book_pre params st coid price d now)"
  by (rule hedge_inv_cong [OF _ _ _ _ _ _ _ hedge_inv_add_batch [of st price "q_count d" now]])
    (simp_all add: book_pre_sel add_batch_def)

lemma hedge_inv_book [inv_intros]:
  "hedge_inv st \<Longrightarrow> hedge_inv (fst (book_rest_delta params st coid price d now))"
  by (simp add: book_rest_delta_eq hedge_inv_sync hedge_inv_wing_step hedge_inv_book_pre)

end
