(* ===== verification/V32_Decide.thy ===== *)
theory V32_Decide
  imports V32_Hedge
begin

text \<open>
  What one step of \<open>decide_v32\<close> may do. The quote operations leave the wing records alone
  (\<open>quote_frame\<close>), so the hedge invariant holds of every state of a run; every action is
  guarded: a rest is placed or amended only inside the window, on a fresh spot bucket, at a
  price that locks the edge and cannot cross; wings are bought only before the settle cutoff;
  in shakedown nothing reaches the venue. \<open>decide_v32\<close> is an instance of \<open>decision_core\<close>
  and \<open>guarded_core\<close>, which lifts both to runs.
\<close>

section \<open>The frame of the quote operations\<close>

definition quote_frame :: "v32_state \<Rightarrow> v32_state \<Rightarrow> bool" where
  "quote_frame st st' \<longleftrightarrow>
     v_wing_batches st' = v_wing_batches st \<and> v_wing_legs st' = v_wing_legs st \<and>
     v_rest_fills st' = v_rest_fills st \<and> v_next_batch_index st' = v_next_batch_index st \<and>
     v_sets_done st' = v_sets_done st \<and> v_close_time st' = v_close_time st \<and>
     v_coid_seq st \<le> v_coid_seq st' \<and>
     v_close_epoch st' = v_close_epoch st \<and> v_shakedown st' = v_shakedown st \<and>
     v_rest_remaining st' = v_rest_remaining st \<and>
     v_rest_allotment_done st' = v_rest_allotment_done st \<and>
     v_rest_booked st' = v_rest_booked st"

lemma quote_frame_refl [simp]: "quote_frame st st"
  by (simp add: quote_frame_def)

lemma quote_frame_trans: "quote_frame a b \<Longrightarrow> quote_frame b c \<Longrightarrow> quote_frame a c"
  by (simp add: quote_frame_def)

lemma hedge_inv_quote_frame: "quote_frame st st' \<Longrightarrow> hedge_inv st \<Longrightarrow> hedge_inv st'"
  unfolding quote_frame_def by (rule hedge_inv_cong) simp_all

lemma qf_fold_book: "quote_frame st (fold_book st e)"
  by (simp add: fold_book_def Let_def quote_frame_def split: option.splits market_class.splits)

lemma qf_recompute: "quote_frame st (recompute_context params st now)"
  by (simp add: recompute_context_def Let_def quote_frame_def)

lemma qf_shadow_complete: "quote_frame st (shadow_complete params st now)"
  by (simp add: shadow_complete_def quote_frame_def split: option.splits prod.splits)

lemma qf_shadow_on_trade: "quote_frame st (fst (shadow_on_trade params st e))"
  by (simp add: shadow_on_trade_def Let_def quote_frame_def
      split: option.splits market_class.splits)

lemma qf_ack: "quote_frame st (apply_ack st e)"
  by (simp add: apply_ack_def quote_frame_def split: option.splits)

lemma qf_cancel_slot: "quote_frame st (fst (cancel_slot st oid))"
  by (simp add: cancel_slot_def quote_frame_def split: option.splits)

lemma qf_skip_echo: "quote_frame st (fst (skip_echo st oid d))"
  by (simp add: skip_echo_def Let_def quote_frame_def split: option.splits)

lemma qf_remember: "quote_frame st (remember_cancel_ctx st ord)"
  by (simp add: remember_cancel_ctx_def quote_frame_def split: option.splits)

lemma qf_cancel_live: "quote_frame st (fst (cancel_live_if_any st))"
  using qf_remember
  by (auto simp: cancel_live_if_any_def Let_def quote_frame_def case_prod_beta split: option.splits)

lemma qf_standdown: "quote_frame st (fst (standdown st r))"
  by (simp add: standdown_def quote_frame_def)

lemma qf_bucket_change: "quote_frame st (fst (bucket_change st))"
  using qf_remember
  by (auto simp: bucket_change_def Let_def quote_frame_def case_prod_beta split: option.splits)

lemma qf_emit_place: "quote_frame st (fst (emit_place st params n now))"
  by (simp add: emit_place_def Let_def quote_frame_def mint_coid_eq)

lemma qf_emit_amend: "quote_frame st (fst (emit_amend st params l n))"
  by (simp add: emit_amend_def Let_def quote_frame_def mint_coid_eq)

lemma qf_requote_quote: "quote_frame st (fst (requote_quote params st n now))"
proof -
  define st1 where "st1 = (if v_last_standdown_reason st \<noteq> None
    then st\<lparr>v_last_standdown_reason := None, v_stand_down_reason := None\<rparr> else st)"
  have st1: "quote_frame st st1" by (simp add: st1_def quote_frame_def)
  have "quote_frame (st1\<lparr>v_awaiting_replace := False\<rparr>) s \<Longrightarrow> quote_frame st1 s" for s
    by (simp add: quote_frame_def)
  moreover have "quote_frame st1 (st1\<lparr>v_cancel_in_flight := True, v_awaiting_replace := True\<rparr>)"
    by (simp add: quote_frame_def)
  ultimately have "quote_frame st1 (fst (requote_quote params st n now))"
    unfolding requote_quote_def Let_def st1_def [symmetric]
    using qf_bucket_change qf_emit_place qf_emit_amend by (auto split: option.splits)
  with st1 show ?thesis by (rule quote_frame_trans)
qed

lemma qf_requote: "quote_frame st (fst (requote params st now))"
proof -
  have upd: "quote_frame st s \<Longrightarrow> quote_frame st (s\<lparr>v_stood_down := True\<rparr>)" for s
    by (simp add: quote_frame_def)
  have alarm: "quote_frame st (fst (standdown ((fst (cancel_live_if_any st))\<lparr>v_stood_down := True\<rparr>) r))"
    for r
    by (rule quote_frame_trans [OF upd [OF qf_cancel_live] qf_standdown])
  have gate: "quote_frame st (fst (standdown (fst (cancel_live_if_any st)) r))" for r
    by (rule quote_frame_trans [OF qf_cancel_live qf_standdown])
  show ?thesis
    unfolding requote_def
    by (auto simp: case_prod_beta Let_def qf_cancel_live qf_requote_quote alarm gate
        split: option.splits quote_gate.splits)
qed

section \<open>The invariant over every event\<close>

lemma hedge_inv_eval_tick: "hedge_inv st \<Longrightarrow> hedge_inv (fst (eval_tick params st now))"
  unfolding eval_tick_def Let_def case_prod_beta
  by (simp, intro hedge_inv_quote_frame [OF qf_requote] hedge_inv_wing_step
      hedge_inv_quote_frame [OF qf_shadow_complete] hedge_inv_quote_frame [OF qf_recompute])

lemma hedge_inv_cancelled:
  assumes inv: "hedge_inv st"
  shows "hedge_inv (fst (apply_cancelled params st e now))"
proof -
  obtain st1 m where slot: "cancel_slot st (oc_order_id e) = (st1, m)" by fastforce
  have 1: "hedge_inv st1"
    using hedge_inv_quote_frame [OF qf_cancel_slot inv, of "oc_order_id e"] slot by simp
  then have "hedge_inv (st1\<lparr>v_cancel_in_flight := False, v_amend_in_flight := False\<rparr>)"
    by (rule hedge_inv_quote_frame [rotated]) (simp add: quote_frame_def)
  with 1 show ?thesis
    unfolding apply_cancelled_def Let_def
    by (auto simp: slot hedge_inv_book split: option.splits)
qed

lemma hedge_inv_fill:
  assumes inv: "hedge_inv st"
  shows "hedge_inv (fst (apply_fill params st e now))"
  using inv hedge_inv_quote_frame [OF qf_skip_echo inv]
  unfolding apply_fill_def Let_def
  by (auto simp: case_prod_beta hedge_inv_book hedge_inv_close hedge_inv_fill_leg
      split: option.splits)

lemma qf_note_cross: "quote_frame st (note_cross st oid d)"
  by (simp add: note_cross_def quote_frame_def split: option.splits)

lemma hedge_inv_amend_pre: "hedge_inv st \<Longrightarrow> hedge_inv (amend_pre st live e now)"
  by (rule hedge_inv_cong [of _ st]) (simp_all add: amend_pre_def Let_def)

lemma hedge_inv_amended:
  assumes inv: "hedge_inv st"
  shows "hedge_inv (fst (apply_amended params st e now))"
proof -
  have "hedge_inv (st\<lparr>v_amend_in_flight := False\<rparr>)"
    using inv by (rule hedge_inv_quote_frame [rotated]) (simp add: quote_frame_def)
  with inv show ?thesis
    unfolding apply_amended_def Let_def
    by (auto simp: case_prod_beta intro: hedge_inv_quote_frame [OF qf_note_cross] hedge_inv_book hedge_inv_amend_pre
        split: option.split)
qed

lemma hedge_inv_decide:
  assumes "hedge_inv st"
  shows "hedge_inv (fst (decide_v32 params st ev))"
proof (cases ev)
  case (EBook e)
  with assms show ?thesis
    by (simp add: decide_v32_def hedge_inv_eval_tick hedge_inv_quote_frame [OF qf_fold_book])
next
  case (ETrade e)
  with assms show ?thesis
    by (simp add: decide_v32_def Let_def case_prod_beta hedge_inv_quote_frame [OF qf_shadow_complete]
        hedge_inv_quote_frame [OF qf_shadow_on_trade])
qed (use assms in \<open>simp_all add: decide_v32_def hedge_inv_fill hedge_inv_cancelled
    hedge_inv_amended hedge_inv_eval_tick hedge_inv_quote_frame [OF qf_ack]\<close>)

lemma hedge_inv_late_fill:
  assumes "hedge_inv st"
  shows "hedge_inv (fst (book_late_rest_fill params st price d ts bk))"
proof -
  have "hedge_inv st'"
    if "v_wing_batches st' = v_wing_batches (add_batch st price (q_count d) ts)"
      "v_wing_legs st' = v_wing_legs st"
      "v_rest_fills st' = v_rest_fills (add_batch st price (q_count d) ts)"
      "v_next_batch_index st' = Suc (v_next_batch_index st)" "v_sets_done st' = v_sets_done st"
      "v_close_time st' = v_close_time st" "v_coid_seq st' = v_coid_seq st" for st'
    using hedge_inv_cong [OF _ _ _ _ _ _ _ hedge_inv_add_batch [OF assms, of price "q_count d" ts],
        of st'] that
    by (simp add: add_batch_def)
  note pre = this
  show ?thesis
    unfolding book_late_rest_fill_def Let_def case_prod_beta
    using assms by (simp, intro impI hedge_inv_sync hedge_inv_wing_step pre)
      (simp_all add: add_batch_def)
qed

section \<open>What each piece may emit\<close>

lemma retry_batch_kinds:
  "a \<in> set (snd (retry_batch params st b ya na)) \<Longrightarrow> a_kind a = twin_kind RETRY_WING (v_shakedown st)"
  using retry_legs_parts(3) [of params "wb_index b" ya na st "v_wing_legs st"]
  by (auto simp: retry_batch_def Let_def case_prod_beta split: if_splits)
    (metis prod.collapse)

lemma take_batch_kinds:
  "a \<in> set (snd (take_batch params st b ya na)) \<Longrightarrow> a_kind a = twin_kind TAKE_WINGS (v_shakedown st)"
  using take_batch_actions [of params st b ya na] by auto

lemma step_batches_kinds:
  "a \<in> set (snd (step_batches params ya na st is)) \<Longrightarrow>
    a_kind a \<in> {twin_kind TAKE_WINGS (v_shakedown st), twin_kind RETRY_WING (v_shakedown st)}"
proof (induction "is" arbitrary: st)
  case (Cons i "is")
  have sh: "v_shakedown (fst (take_batch params st b ya na)) = v_shakedown st"
    "v_shakedown (fst (retry_batch params st b ya na)) = v_shakedown st" for b
    by (rule wing_frameD(3) [OF wing_frame_take], rule wing_frameD(3) [OF wing_frame_retry])
  from Cons.prems show ?case
    using Cons.IH [of "fst (take_batch params st _ ya na)"]
      Cons.IH [of "fst (retry_batch params st _ ya na)"] Cons.IH [of st]
      take_batch_kinds retry_batch_kinds
    by (auto simp: case_prod_beta Let_def sh split: option.splits if_splits)
qed simp

lemma wing_step_kinds:
  assumes "a \<in> set (snd (wing_step params st now))"
  shows "a_kind a \<in> {twin_kind TAKE_WINGS (v_shakedown st), twin_kind RETRY_WING (v_shakedown st)}"
    and "of_int (p_no_orders_after_s params) \<le> of_int (v_close_epoch st) - now"
    and "v_wing_batches st \<noteq> []"
  using assms step_batches_kinds
  by (auto simp: wing_step_def Let_def case_prod_beta not_less split: if_splits option.splits)

lemma cancel_live_kinds:
  "a \<in> set (snd (cancel_live_if_any st)) \<Longrightarrow> a_kind a = twin_kind CANCEL_REST (v_shakedown st)"
  using qf_remember
  by (auto simp: cancel_live_if_any_def Let_def case_prod_beta cancel_action_def mk_action_def
      quote_frame_def split: option.splits if_splits)

lemma standdown_kinds: "a \<in> set (snd (standdown st r)) \<Longrightarrow> a_kind a = STAND_DOWN"
  by (auto simp: standdown_def split: if_splits)

lemma bucket_change_kinds:
  "a \<in> set (snd (bucket_change st)) \<Longrightarrow> a_kind a = twin_kind CANCEL_REST (v_shakedown st)"
  using qf_remember
  by (auto simp: bucket_change_def Let_def case_prod_beta cancel_action_def mk_action_def
      quote_frame_def split: option.splits if_splits)

lemma requote_quote_kinds:
  assumes "a \<in> set (snd (requote_quote params st n now))"
  shows "a_kind a = twin_kind CANCEL_REST (v_shakedown st) \<or>
    (a_kind a \<in> {twin_kind PLACE_REST (v_shakedown st), twin_kind AMEND_REST (v_shakedown st)} \<and>
     a_price a = Some n)"
proof -
  define st1 where "st1 = (if v_last_standdown_reason st \<noteq> None
    then st\<lparr>v_last_standdown_reason := None, v_stand_down_reason := None\<rparr> else st)"
  have "v_shakedown st1 = v_shakedown st" by (simp add: st1_def)
  with assms show ?thesis
    unfolding requote_quote_def Let_def st1_def [symmetric]
    by (auto simp: emit_place_def emit_amend_def place_action_def amend_action_def cancel_action_def
        mint_coid_eq mk_action_def Let_def dest!: bucket_change_kinds
        split: if_splits option.splits)
qed

lemma requote_kinds:
  assumes "a \<in> set (snd (requote params st now))"
  shows "a_kind a \<in> {twin_kind CANCEL_REST (v_shakedown st), STAND_DOWN} \<or>
    (\<exists>n. a_kind a \<in> {twin_kind PLACE_REST (v_shakedown st), twin_kind AMEND_REST (v_shakedown st)} \<and>
       a_price a = Some n \<and> v_desired_n st = Some n \<and> quote_gate_of params st now = MayQuote \<and>
       \<not> v_rest_allotment_done st \<and> \<not> v_stood_down st)"
  using assms
  by (auto simp: requote_def Let_def case_prod_beta quote_gate_of_def
      dest!: cancel_live_kinds standdown_kinds requote_quote_kinds
      split: if_splits option.splits quote_gate.splits)

lemma shadow_trade_kinds:
  "a \<in> set (snd (shadow_on_trade params st e)) \<Longrightarrow>
    a_kind a \<in> {SHADOW_FILL_OUTSIDE_WINDOW, SHADOW_FILL_BELOW_MIN}"
  by (auto simp: shadow_on_trade_def Let_def shadow_trade_one_def shadow_note_def
      split: option.splits market_class.splits if_splits)

section \<open>The quote price\<close>

lemma valid_two_sided_SomeD:
  assumes "valid_two_sided (Some tb)"
  obtains ya yb where "yes_ask tb = Some ya" "yes_bid tb = Some yb" "0 < ya" "ya \<le> 1"
    "0 \<le> yb" "yb \<le> ya" "\<not> suspect tb"
  using assms by (auto simp: valid_two_sided_def split: option.splits)

lemma bucket_cap_SomeD:
  assumes "bucket_cap st Sd = Some c"
  obtains tb yb where "map_of (v_bucket_tops st) Sd = Some tb" "valid_two_sided (Some tb)"
    "yes_bid tb = Some yb" "whole_cent c" "c < 1 - yb" "c \<le> 1"
proof -
  from assms obtain tb yb where tb: "map_of (v_bucket_tops st) Sd = Some tb"
    "valid_two_sided (Some tb)" "yes_bid tb = Some yb"
    and c: "c = quantize_he (1/100) ((1 - yb) - cent)"
    by (auto simp: bucket_cap_def split: option.splits if_splits)
  have "0 \<le> yb" using tb by (auto elim: valid_two_sided_SomeD)
  moreover have "c \<le> (1 - yb) - cent + 1/200"
    using abs_le_D1 [OF quantize_he_error [of "(1 - yb) - cent"]] c by simp
  ultimately have "c < 1 - yb" "c \<le> 1" by (simp_all add: cent_def)
  with tb c that show thesis by simp
qed

lemma recompute_desiredD:
  assumes "v_desired_n (recompute_context params st now) = Some n"
  obtains Sd W c tb yb where
    "v_spot_Sd (recompute_context params st now) = Some Sd"
    "v_W (recompute_context params st now) = Some W"
    "map_of (v_bucket_tops st) Sd = Some tb" "valid_two_sided (Some tb)" "yes_bid tb = Some yb"
    "compute_W st Sd (Sd + p_bucket_width params) now params = Some W"
    "fresh now (map_of (v_bucket_ts st) Sd) (p_bucket_freshness_max_age_s params)"
    "whole_cent n" "cent \<le> n" "n + fee n \<le> 2 - p_E params - W" "n < 1 - yb"
proof -
  let ?st' = "recompute_context params st now"
  from assms obtain Sd where Sd: "select_spot st = Some Sd"
    and fr: "fresh now (map_of (v_bucket_ts st) Sd) (p_bucket_freshness_max_age_s params)"
    and sol: "solve_n (map_option (\<lambda>w. 2 - p_E params - w)
        (compute_W st Sd (Sd + p_bucket_width params) now params)) (bucket_cap st Sd) = Some n"
    by (auto simp: recompute_context_def Let_def split: option.splits if_splits)
  from sol obtain W c where W: "compute_W st Sd (Sd + p_bucket_width params) now params = Some W"
    and c: "bucket_cap st Sd = Some c" and n: "whole_cent n" "cent \<le> n" "n + fee n \<le> 2 - p_E params - W"
    by (auto elim!: solve_n_SomeD)
  from c obtain tb yb where tb: "map_of (v_bucket_tops st) Sd = Some tb" "valid_two_sided (Some tb)"
    "yes_bid tb = Some yb" "whole_cent c" "c < 1 - yb" by (rule bucket_cap_SomeD)
  have "n \<le> c" using sol tb(4) unfolding c by (rule solve_n_whole_cap)
  with tb(5) have "n < 1 - yb" by simp
  with Sd fr W tb n show thesis
    by (intro that) (auto simp: recompute_context_def Let_def)
qed

section \<open>The guard of an action\<close>

text \<open>
  A rest (new or amended) on event \<open>ev\<close>, with \<open>s'\<close> the state after the step: its price is a
  whole cent, at least \<open>n_min\<close>, locks at least the edge against the wing cost of the current
  books, and stays below the spot bucket's NO ask; the window is open, the spot book is fresh,
  nothing stood down and the allotment is not filled.
\<close>

definition rest_price_ok :: "v32_params \<Rightarrow> v32_state \<Rightarrow> time \<Rightarrow> v32_action \<Rightarrow> bool" where
  "rest_price_ok params s' now a \<longleftrightarrow>
     (case (a_price a, v_W s', v_spot_Sd s') of
        (Some n, Some W, Some Sd) \<Rightarrow>
          whole_cent n \<and> p_n_min params \<le> n \<and> p_E params \<le> lock_value n W \<and>
          compute_W s' Sd (Sd + p_bucket_width params) now params = Some W \<and>
          fresh now (map_of (v_bucket_ts s') Sd) (p_bucket_freshness_max_age_s params) \<and>
          (case map_of (v_bucket_tops s') Sd of
             Some tb \<Rightarrow> \<not> suspect tb \<and>
               (case yes_bid tb of Some yb \<Rightarrow> n < 1 - yb | None \<Rightarrow> False)
           | None \<Rightarrow> False)
      | _ \<Rightarrow> False)"

definition order_guard ::
  "v32_params \<Rightarrow> v32_state \<Rightarrow> v32_event \<Rightarrow> v32_state \<Rightarrow> v32_action \<Rightarrow> bool" where
  "order_guard params s ev s' a \<longleftrightarrow>
     (v_shakedown s \<longrightarrow> a_kind a \<notin> set venue_kinds) \<and>
     (a_kind a \<in> {PLACE_REST, AMEND_REST} \<longrightarrow>
        in_window params s (event_ts ev) \<and> \<not> v_stood_down s' \<and> \<not> v_rest_allotment_done s' \<and>
        rest_price_ok params s' (event_ts ev) a) \<and>
     (a_kind a \<in> {TAKE_WINGS, RETRY_WING} \<longrightarrow>
        of_int (p_no_orders_after_s params) \<le> of_int (v_close_epoch s) - event_ts ev)"

lemma twin_kind_cases:
  "twin_kind TAKE_WINGS sh = (if sh then WOULD_TAKE_WINGS else TAKE_WINGS)"
  "twin_kind RETRY_WING sh = (if sh then WOULD_TAKE_WINGS else RETRY_WING)"
  "twin_kind CANCEL_REST sh = (if sh then WOULD_CANCEL_REST else CANCEL_REST)"
  "twin_kind PLACE_REST sh = (if sh then WOULD_PLACE_REST else PLACE_REST)"
  "twin_kind AMEND_REST sh = (if sh then WOULD_AMEND_REST else AMEND_REST)"
  by (simp_all add: twin_kind_def)

lemma order_guard_wings:
  assumes "a_kind a \<in> {twin_kind TAKE_WINGS (v_shakedown s), twin_kind RETRY_WING (v_shakedown s)}"
    and "of_int (p_no_orders_after_s params) \<le> of_int (v_close_epoch s) - event_ts ev"
  shows "order_guard params s ev s' a"
  using assms by (auto simp: order_guard_def twin_kind_cases venue_kinds_def order_kinds_def
      split: if_splits)

lemma order_guard_passive:
  assumes "a_kind a \<in> {twin_kind CANCEL_REST (v_shakedown s), STAND_DOWN,
      SHADOW_FILL_OUTSIDE_WINDOW, SHADOW_FILL_BELOW_MIN}"
  shows "order_guard params s ev s' a"
  using assms by (auto simp: order_guard_def twin_kind_cases venue_kinds_def order_kinds_def
      split: if_splits)

section \<open>The guard holds of every action\<close>

text \<open>The books and the quote context, which the requote path reads and does not write.\<close>

definition ctx_frame :: "v32_state \<Rightarrow> v32_state \<Rightarrow> bool" where
  "ctx_frame st st' \<longleftrightarrow>
     v_strike_tops st' = v_strike_tops st \<and> v_strike_ts st' = v_strike_ts st \<and>
     v_bucket_tops st' = v_bucket_tops st \<and> v_bucket_ts st' = v_bucket_ts st \<and>
     v_spot_Sd st' = v_spot_Sd st \<and> v_W st' = v_W st \<and> v_stood_down st' = v_stood_down st \<and>
     v_rest_allotment_done st' = v_rest_allotment_done st"

lemma ctx_frame_requote_quote: "ctx_frame st (fst (requote_quote params st n now))"
proof -
  define st1 where "st1 = (if v_last_standdown_reason st \<noteq> None
    then st\<lparr>v_last_standdown_reason := None, v_stand_down_reason := None\<rparr> else st)"
  have st1: "ctx_frame st1 s \<Longrightarrow> ctx_frame st s" for s by (simp add: st1_def ctx_frame_def)
  have "ctx_frame st1 (fst (bucket_change st1))"
    by (simp add: bucket_change_def ctx_frame_def remember_cancel_ctx_def Let_def case_prod_beta
        split: option.split)
  then show ?thesis
    unfolding requote_quote_def Let_def st1_def [symmetric]
    by (intro st1) (simp add: ctx_frame_def emit_place_def emit_amend_def mint_coid_eq Let_def
        split: option.split)
qed

lemma compute_W_cong:
  assumes "v_strike_tops st' = v_strike_tops st" and "v_strike_ts st' = v_strike_ts st"
  shows "compute_W st' Sd Su now params = compute_W st Sd Su now params"
  unfolding compute_W_def assms by (rule refl)

lemma shadow_complete_sel [simp]:
  "v_strike_tops (shadow_complete params st now) = v_strike_tops st"
  "v_strike_ts (shadow_complete params st now) = v_strike_ts st"
  "v_bucket_tops (shadow_complete params st now) = v_bucket_tops st"
  "v_bucket_ts (shadow_complete params st now) = v_bucket_ts st"
  "v_spot_Sd (shadow_complete params st now) = v_spot_Sd st"
  "v_W (shadow_complete params st now) = v_W st"
  "v_desired_n (shadow_complete params st now) = v_desired_n st"
  "v_shakedown (shadow_complete params st now) = v_shakedown st"
  "v_close_epoch (shadow_complete params st now) = v_close_epoch st"
  by (simp_all add: shadow_complete_def split: option.split)

lemma recompute_sel [simp]:
  "v_strike_tops (recompute_context params st now) = v_strike_tops st"
  "v_strike_ts (recompute_context params st now) = v_strike_ts st"
  "v_bucket_tops (recompute_context params st now) = v_bucket_tops st"
  "v_bucket_ts (recompute_context params st now) = v_bucket_ts st"
  "v_shakedown (recompute_context params st now) = v_shakedown st"
  "v_close_epoch (recompute_context params st now) = v_close_epoch st"
  by (simp_all add: recompute_context_def Let_def)

lemma requote_placesD:
  assumes "a \<in> set (snd (requote params st now))"
    and "a_kind a \<notin> {twin_kind CANCEL_REST (v_shakedown st), STAND_DOWN}"
  obtains n where "a_price a = Some n" "v_desired_n st = Some n"
    "a_kind a \<in> {twin_kind PLACE_REST (v_shakedown st), twin_kind AMEND_REST (v_shakedown st)}"
    "in_window params st now" "p_n_min params \<le> n" "\<not> v_stood_down st"
    "\<not> v_rest_allotment_done st" "ctx_frame st (fst (requote params st now))"
  using assms ctx_frame_requote_quote [of st params _ now]
  by (auto simp: requote_def Let_def case_prod_beta quote_gate_of_def in_window_def not_less
      dest!: cancel_live_kinds standdown_kinds requote_quote_kinds
      split: if_splits option.splits quote_gate.splits)

lemma order_guard_eval_tick:
  assumes ts: "event_ts ev = now" and sh: "v_shakedown st = v_shakedown s"
    and ce: "v_close_epoch st = v_close_epoch s"
    and a: "a \<in> set (snd (eval_tick params st now))"
  shows "order_guard params s ev (fst (eval_tick params st now)) a"
proof -
  let ?s1 = "recompute_context params st now"
  let ?s2 = "shadow_complete params ?s1 now"
  let ?s3 = "fst (wing_step params ?s2 now)"
  let ?s4 = "fst (requote params ?s3 now)"
  note fr = wing_step_frame [of params ?s2 now]
  have res: "fst (eval_tick params st now) = ?s4"
    by (simp add: eval_tick_def Let_def case_prod_beta)
  from a consider "a \<in> set (snd (wing_step params ?s2 now))" | "a \<in> set (snd (requote params ?s3 now))"
    by (auto simp: eval_tick_def Let_def case_prod_beta)
  then show ?thesis
  proof cases
    case 1
    from wing_step_kinds(1,2) [OF 1] show ?thesis
      by (intro order_guard_wings) (simp_all add: sh ce ts)
  next
    case 2
    show ?thesis
    proof (cases "a_kind a \<in> {twin_kind CANCEL_REST (v_shakedown ?s3), STAND_DOWN}")
      case True
      then show ?thesis by (intro order_guard_passive) (auto simp: fr sh)
    next
      case False
      with 2 obtain n where n: "a_price a = Some n" "v_desired_n ?s3 = Some n"
        "a_kind a \<in> {twin_kind PLACE_REST (v_shakedown ?s3), twin_kind AMEND_REST (v_shakedown ?s3)}"
        "in_window params ?s3 now" "p_n_min params \<le> n" "\<not> v_stood_down ?s3"
        "\<not> v_rest_allotment_done ?s3" "ctx_frame ?s3 ?s4"
        by (rule requote_placesD)
      from n(2) have "v_desired_n ?s1 = Some n" by (simp add: fr)
      then obtain Sd W c tb yb where ctx: "v_spot_Sd ?s1 = Some Sd" "v_W ?s1 = Some W"
        "map_of (v_bucket_tops st) Sd = Some tb" "valid_two_sided (Some tb)" "yes_bid tb = Some yb"
        "compute_W st Sd (Sd + p_bucket_width params) now params = Some W"
        "fresh now (map_of (v_bucket_ts st) Sd) (p_bucket_freshness_max_age_s params)"
        "whole_cent n" "n + fee n \<le> 2 - p_E params - W" "n < 1 - yb"
        by (rule recompute_desiredD)
      have same: "v_W ?s4 = Some W" "v_spot_Sd ?s4 = Some Sd" "v_bucket_tops ?s4 = v_bucket_tops st"
        "v_bucket_ts ?s4 = v_bucket_ts st" "v_strike_tops ?s4 = v_strike_tops st"
        "v_strike_ts ?s4 = v_strike_ts st" "\<not> v_stood_down ?s4" "\<not> v_rest_allotment_done ?s4"
        using n(6-8) ctx(1,2) by (simp_all add: ctx_frame_def fr)
      have "\<not> suspect tb" using ctx(4) by (simp add: valid_two_sided_def)
      with ctx n(1,5) have "rest_price_ok params ?s4 now a"
        by (simp add: rest_price_ok_def same lock_value_def compute_W_cong [OF same(5,6)])
      moreover have "in_window params s now"
        using n(4) by (simp add: in_window_def fr ce)
      ultimately show ?thesis
        using n(3) same(7,8) unfolding res
        by (auto simp: order_guard_def twin_kind_cases venue_kinds_def order_kinds_def fr sh ts
            split: if_splits)
    qed
  qed
qed

lemma order_guard_book:
  assumes "a \<in> set (snd (book_rest_delta params st coid p d (event_ts ev)))"
    and "v_shakedown st = v_shakedown s" "v_close_epoch st = v_close_epoch s"
  shows "order_guard params s ev s' a"
  using assms wing_step_kinds(1,2) [of a params "book_pre params st coid p d (event_ts ev)" "event_ts ev"]
  by (intro order_guard_wings) (simp_all add: book_rest_delta_eq book_pre_sel)

section \<open>The guard over every event, and runs\<close>

lemma order_guard_decide:
  assumes "a \<in> set (snd (decide_v32 params s ev))"
  shows "order_guard params s ev (fst (decide_v32 params s ev)) a"
proof (cases ev)
  case (EBook e)
  have "event_ts ev = bu_server_ts e" by (simp add: EBook)
  moreover have "v_shakedown (fold_book s e) = v_shakedown s" "v_close_epoch (fold_book s e) = v_close_epoch s"
    using qf_fold_book [of s e] by (simp_all add: quote_frame_def)
  ultimately show ?thesis
    using assms order_guard_eval_tick [of ev "bu_server_ts e" "fold_book s e" s a params]
    by (simp add: decide_v32_def EBook)
next
  case (EClock t)
  then show ?thesis
    using assms order_guard_eval_tick [of ev t s s a params] by (simp add: decide_v32_def)
next
  case (ETrade e)
  with assms have "a \<in> set (snd (shadow_on_trade params s e))"
    by (auto simp: decide_v32_def Let_def case_prod_beta)
  from shadow_trade_kinds [OF this] show ?thesis by (intro order_guard_passive) auto
next
  case (EFill e)
  have "v_shakedown (fst (skip_echo s oid d)) = v_shakedown s"
    "v_close_epoch (fst (skip_echo s oid d)) = v_close_epoch s" for oid d
    using qf_skip_echo [of s oid d] by (simp_all add: quote_frame_def)
  moreover from assms EFill have "\<exists>oid d0 coid p d.
      a \<in> set (snd (book_rest_delta params (fst (skip_echo s oid d0)) coid p d (event_ts ev)))"
    by (auto simp: decide_v32_def apply_fill_def Let_def case_prod_beta
        split: option.splits if_splits) blast+
  ultimately show ?thesis using order_guard_book by blast
next
  case (EAck e)
  with assms show ?thesis by (simp add: decide_v32_def)
next
  case (ECancelled e)
  define st1 where "st1 = fst (cancel_slot s (oc_order_id e))"
  define st2 where "st2 = st1\<lparr>v_cancel_in_flight := False, v_amend_in_flight := False\<rparr>"
  have "v_shakedown st1 = v_shakedown s" "v_close_epoch st1 = v_close_epoch s"
    "v_shakedown st2 = v_shakedown s" "v_close_epoch st2 = v_close_epoch s"
    using qf_cancel_slot [of s "oc_order_id e"] by (simp_all add: quote_frame_def st1_def st2_def)
  moreover from assms ECancelled have "\<exists>coid p d st. st \<in> {st1, st2} \<and>
      a \<in> set (snd (book_rest_delta params st coid p d (event_ts ev)))"
    by (auto simp: decide_v32_def apply_cancelled_def Let_def case_prod_beta st1_def st2_def
        split: option.splits if_splits)
  ultimately show ?thesis using order_guard_book by blast
next
  case (EAmended e)
  from assms EAmended have "\<exists>live coid p d.
      a \<in> set (snd (book_rest_delta params (amend_pre s live e (event_ts ev)) coid p d (event_ts ev)))"
    by (auto simp: decide_v32_def apply_amended_def Let_def case_prod_beta
        split: option.splits if_splits)
  then show ?thesis using order_guard_book by (fastforce simp: amend_pre_def Let_def)
qed

text \<open>\<open>decide_v32\<close> is a core with an invariant whose actions are guarded.\<close>

interpretation v32: guarded_core "decide_v32 params" hedge_inv "order_guard params" for params
  by unfold_locales (rule hedge_inv_decide, assumption, rule order_guard_decide)

end
