(* ===== verification/V32_Allot.thy ===== *)
theory V32_Allot
  imports V32_Decide
begin

text \<open>
  The allotment of the hour. The lots booked per order, the rest fills and the resting
  remainder stay consistent through acks, fills, amends (which rotate the client id) and
  cumulative cancel reports; at most one order slot is populated; once the allotment is filled,
  or the replace-rate alarm stood the hour down, no rest is placed or amended again.
\<close>

definition filled_total :: "v32_state \<Rightarrow> lots" where
  "filled_total st = sum_list (map rf_count (v_rest_fills st))"

definition alloc_inv :: "v32_params \<Rightarrow> v32_state \<Rightarrow> bool" where
  "alloc_inv params st \<longleftrightarrow>
     (\<forall>f \<in> set (v_rest_fills st). whole_cent (rf_count f) \<and> 0 < rf_count f) \<and>
     v_rest_remaining st =
       (if v_rest_fills st = [] then None
        else Some (max 0 (of_int (p_contracts params) - filled_total st))) \<and>
     (v_rest_allotment_done st \<longleftrightarrow>
        v_rest_fills st \<noteq> [] \<and> of_int (p_contracts params) \<le> filled_total st) \<and>
     distinct (map fst (v_rest_booked st)) \<and>
     (\<forall>kv \<in> set (v_rest_booked st). whole_cent (snd kv)) \<and>
     dict_total (v_rest_booked st) = filled_total st \<and>
     (v_rest_live st = None \<or> v_rest_pending st = None) \<and>
     (v_rest_allotment_done st \<longrightarrow> v_rest_live st = None \<and> v_rest_pending st = None)"

lemma alloc_invD:
  assumes "alloc_inv params st"
  shows "f \<in> set (v_rest_fills st) \<Longrightarrow> whole_cent (rf_count f)"
    "f \<in> set (v_rest_fills st) \<Longrightarrow> 0 < rf_count f"
    "v_rest_remaining st = (if v_rest_fills st = [] then None
       else Some (max 0 (of_int (p_contracts params) - filled_total st)))"
    "v_rest_allotment_done st \<longleftrightarrow>
       v_rest_fills st \<noteq> [] \<and> of_int (p_contracts params) \<le> filled_total st"
    "distinct (map fst (v_rest_booked st))"
    "kv \<in> set (v_rest_booked st) \<Longrightarrow> whole_cent (snd kv)"
    "dict_total (v_rest_booked st) = filled_total st"
    "v_rest_live st = None \<or> v_rest_pending st = None"
    "v_rest_allotment_done st \<Longrightarrow> v_rest_live st = None"
    "v_rest_allotment_done st \<Longrightarrow> v_rest_pending st = None"
  using assms by (auto simp: alloc_inv_def)

lemma alloc_inv_new: "alloc_inv params (new_v32_state ct ce bm params sh)"
  by (simp add: alloc_inv_def new_v32_state_def filled_total_def dict_total_def)

text \<open>The invariant reads the booking fields and the two slots.\<close>

lemma alloc_inv_cong:
  assumes "v_rest_fills st' = v_rest_fills st" "v_rest_remaining st' = v_rest_remaining st"
    "v_rest_allotment_done st' = v_rest_allotment_done st" "v_rest_booked st' = v_rest_booked st"
    and "v_rest_live st' = None \<or> v_rest_pending st' = None"
    and "v_rest_allotment_done st \<Longrightarrow> v_rest_live st' = None \<and> v_rest_pending st' = None"
  shows "alloc_inv params st \<Longrightarrow> alloc_inv params st'"
  using assms by (simp add: alloc_inv_def filled_total_def)

lemma q_count_whole [simp]: "whole_cent x \<Longrightarrow> q_count x = x"
  by (simp add: q_count_def quantize_he_whole)

lemma whole_cent_q_count [simp]: "whole_cent (q_count x)"
  by (simp add: q_count_def)

lemma filled_total_whole: "alloc_inv params st \<Longrightarrow> whole_cent (filled_total st)"
  unfolding filled_total_def by (rule whole_cent_sum_list) (auto dest: alloc_invD(1))

lemma whole_cent_get: "(\<forall>kv \<in> set d. whole_cent (snd kv)) \<Longrightarrow> whole_cent (dict_get_default d k 0)"
  by (auto simp: dict_get_default_def split: option.splits dest!: map_of_SomeD)

section \<open>Booking\<close>

lemma rest_size_eq:
  assumes "alloc_inv params st"
  shows "rest_size params st =
    (if v_rest_fills st = [] then of_int (p_contracts params)
     else max 0 (of_int (p_contracts params) - filled_total st))"
  using filled_total_whole [OF assms] alloc_invD(3) [OF assms]
    whole_cent_diff [OF whole_cent_of_int filled_total_whole [OF assms], of "p_contracts params"]
  by (auto simp: rest_size_def max_def)

lemma filled_total_book_pre:
  "filled_total (book_pre params st coid p d now) = filled_total st + q_count d"
  by (simp add: filled_total_def book_pre_sel add_batch_def)

lemma remaining_after_eq:
  assumes inv: "alloc_inv params st" and d: "0 < q_count d"
  shows "remaining_after params st d =
    max 0 (of_int (p_contracts params) - (filled_total st + q_count d))"
proof -
  have "whole_cent (rest_size params st - q_count d)"
    unfolding rest_size_def by (intro whole_cent_diff) simp_all
  moreover have "filled_total st = 0" if "v_rest_fills st = []"
    using that by (simp add: filled_total_def)
  ultimately show ?thesis
    using d by (auto simp: remaining_after_def rest_size_eq [OF inv] max_def)
qed

lemma book_pre_slots:
  "v_rest_live (book_pre params st coid p d now) =
     (if remaining_after params st d \<le> 0 then None
      else map_option (\<lambda>l. if ro_coid l = coid then l\<lparr>ro_count := remaining_after params st d\<rparr> else l)
             (v_rest_live st))"
  "v_rest_pending (book_pre params st coid p d now) =
     (if remaining_after params st d \<le> 0 then None else v_rest_pending st)"
  by (simp_all add: book_pre_def Let_def add_batch_def split: option.split)

lemma alloc_inv_book_pre:
  assumes inv: "alloc_inv params st" and d: "0 < q_count d"
  shows "alloc_inv params (book_pre params st coid p d now)"
proof -
  let ?st' = "book_pre params st coid p d now"
  let ?b = "q_count (dict_get_default (v_rest_booked st) coid 0 + q_count d)"
  note D = alloc_invD [OF inv]
  note rem = remaining_after_eq [OF inv d]
  have whole: "whole_cent (dict_get_default (v_rest_booked st) coid 0 + q_count d)"
    using D(6) by (intro whole_cent_add whole_cent_get) auto
  then have tot: "dict_total (v_rest_booked ?st') = filled_total ?st'"
    using D(5,7) by (simp add: book_pre_sel dict_total_update filled_total_book_pre)
  have vals: "\<forall>kv \<in> set (v_rest_booked ?st'). whole_cent (snd kv)"
  proof
    fix kv assume "kv \<in> set (v_rest_booked ?st')"
    then have "(fst kv, snd kv) \<in> set (AList.update coid ?b (v_rest_booked st))"
      by (simp add: book_pre_sel)
    from ran_dict_update [OF this] have "snd kv = ?b \<or> kv \<in> set (v_rest_booked st)" by simp
    then show "whole_cent (snd kv)"
    proof
      assume "snd kv = ?b"
      then show ?thesis by simp
    next
      assume "kv \<in> set (v_rest_booked st)"
      then show ?thesis by (rule D(6))
    qed
  qed
  have keys: "distinct (map fst (v_rest_booked ?st'))"
    using D(5) by (simp add: book_pre_sel distinct_update)
  have dn: "v_rest_allotment_done ?st' \<longleftrightarrow>
      of_int (p_contracts params) \<le> filled_total st + q_count d"
    using D(4) d by (auto simp: book_pre_sel rem)
  have slots: "v_rest_live ?st' = None \<or> v_rest_pending ?st' = None"
    "v_rest_allotment_done ?st' \<Longrightarrow> v_rest_live ?st' = None \<and> v_rest_pending ?st' = None"
    using D(8,9,10) by (auto simp: book_pre_slots book_pre_sel split: option.splits if_splits)
  show ?thesis
    unfolding alloc_inv_def
    using D(1,2) d keys vals tot slots dn
    by (auto simp: filled_total_book_pre book_pre_sel add_batch_def rem)
qed

lemma alloc_inv_wing_step: "alloc_inv params st \<Longrightarrow> alloc_inv params (fst (wing_step params st now))"
  by (rule alloc_inv_cong) (auto simp: wing_step_frame dest: alloc_invD(8-10))

lemma alloc_inv_sync: "alloc_inv params st \<Longrightarrow> alloc_inv params (sync_wing_mirrors st)"
  by (rule alloc_inv_cong) (auto simp: sync_frame dest: alloc_invD(8-10))

lemma alloc_inv_book:
  "alloc_inv params st \<Longrightarrow> 0 < q_count d \<Longrightarrow>
    alloc_inv params (fst (book_rest_delta params st coid p d now))"
  by (simp add: book_rest_delta_eq alloc_inv_sync alloc_inv_wing_step alloc_inv_book_pre)

lemma filled_total_book:
  "filled_total (fst (book_rest_delta params st coid p d now)) = filled_total st + q_count d"
  using filled_total_book_pre
  by (simp add: book_rest_delta_eq filled_total_def sync_frame wing_step_frame)

section \<open>The quote operations\<close>

definition slots_ok :: "v32_state \<Rightarrow> bool" where
  "slots_ok st \<longleftrightarrow> (v_rest_live st = None \<or> v_rest_pending st = None) \<and>
     (v_rest_allotment_done st \<longrightarrow> v_rest_live st = None \<and> v_rest_pending st = None)"

lemma alloc_inv_slots: "alloc_inv params st \<Longrightarrow> slots_ok st"
  by (simp add: alloc_inv_def slots_ok_def)

lemma alloc_inv_quote_frame:
  "quote_frame st st' \<Longrightarrow> slots_ok st' \<Longrightarrow> alloc_inv params st \<Longrightarrow> alloc_inv params st'"
  unfolding quote_frame_def slots_ok_def by (rule alloc_inv_cong) simp_all

lemma slots_ok_cong:
  "v_rest_live st' = v_rest_live st \<Longrightarrow> v_rest_pending st' = v_rest_pending st \<Longrightarrow>
   v_rest_allotment_done st' = v_rest_allotment_done st \<Longrightarrow> slots_ok st' = slots_ok st"
  by (simp add: slots_ok_def)

lemma slots_ok_fold_book: "slots_ok (fold_book st e) = slots_ok st"
  by (rule slots_ok_cong)
    (simp_all add: fold_book_def Let_def split: option.split market_class.split)

lemma slots_ok_recompute: "slots_ok (recompute_context params st now) = slots_ok st"
  by (rule slots_ok_cong) (simp_all add: recompute_context_def Let_def)

lemma slots_ok_shadow_complete: "slots_ok (shadow_complete params st now) = slots_ok st"
  by (rule slots_ok_cong) (simp_all add: shadow_complete_def split: option.split)

lemma slots_ok_shadow_on_trade: "slots_ok (fst (shadow_on_trade params st e)) = slots_ok st"
  by (rule slots_ok_cong)
    (simp_all add: shadow_on_trade_def Let_def split: option.split market_class.split)

lemma slots_ok_ack: "slots_ok st \<Longrightarrow> slots_ok (apply_ack st e)"
  by (auto simp: apply_ack_def slots_ok_def split: option.splits)

lemma slots_ok_cancel_slot: "slots_ok st \<Longrightarrow> slots_ok (fst (cancel_slot st oid))"
  by (auto simp: cancel_slot_def slots_ok_def split: option.splits)

lemma slots_ok_skip_echo: "slots_ok (fst (skip_echo st oid d)) = slots_ok st"
  by (rule slots_ok_cong) (simp_all add: skip_echo_def Let_def split: option.split)

lemma slots_ok_note_cross: "slots_ok (note_cross st oid d) = slots_ok st"
  by (rule slots_ok_cong) (simp_all add: note_cross_def split: option.split)

lemma cancel_live_slots:
  "v_rest_pending (fst (cancel_live_if_any st)) = None"
  "v_rest_live (fst (cancel_live_if_any st)) =
     (if v_cancel_in_flight st then v_rest_live st else None)"
  "v_rest_allotment_done (fst (cancel_live_if_any st)) = v_rest_allotment_done st"
  by (simp_all add: cancel_live_if_any_def Let_def case_prod_beta remember_cancel_ctx_def
      split: option.split)

lemma slots_ok_cancel_live: "slots_ok st \<Longrightarrow> slots_ok (fst (cancel_live_if_any st))"
  by (auto simp: slots_ok_def cancel_live_slots)

lemma slots_ok_standdown [simp]: "slots_ok (fst (standdown st r)) = slots_ok st"
  by (rule slots_ok_cong) (simp_all add: standdown_def)

lemma slots_ok_requote_quote:
  assumes ok: "slots_ok st" and nd: "\<not> v_rest_allotment_done st"
  shows "slots_ok (fst (requote_quote params st n now))"
proof -
  define st1 where "st1 = (if v_last_standdown_reason st \<noteq> None
    then st\<lparr>v_last_standdown_reason := None, v_stand_down_reason := None\<rparr> else st)"
  have st1: "slots_ok st1" "\<not> v_rest_allotment_done st1"
    using ok nd by (simp_all add: st1_def slots_ok_def)
  have change: "slots_ok (fst (bucket_change st1))"
    by (simp add: slots_ok_def bucket_change_def Let_def case_prod_beta)
  show ?thesis
    unfolding requote_quote_def Let_def st1_def [symmetric] using st1 change
    by (auto simp: slots_ok_def emit_place_def emit_amend_def mint_coid_eq Let_def split: option.split)
qed

lemma slots_ok_requote: "slots_ok st \<Longrightarrow> slots_ok (fst (requote params st now))"
  using slots_ok_cong [of "(fst (cancel_live_if_any st))\<lparr>v_stood_down := True\<rparr>"
      "fst (cancel_live_if_any st)"]
  by (auto simp: requote_def Let_def case_prod_beta slots_ok_cancel_live slots_ok_requote_quote
      split: option.split quote_gate.split)

section \<open>The invariant over every event\<close>

lemma alloc_inv_eval_tick:
  assumes "alloc_inv params st"
  shows "alloc_inv params (fst (eval_tick params st now))"
proof -
  let ?s2 = "shadow_complete params (recompute_context params st now) now"
  let ?s3 = "fst (wing_step params ?s2 now)"
  have "alloc_inv params ?s2"
    using assms alloc_inv_slots [OF assms] quote_frame_trans [OF qf_recompute qf_shadow_complete]
    by (blast intro: alloc_inv_quote_frame slots_ok_shadow_complete [THEN iffD2]
        slots_ok_recompute [THEN iffD2])
  then have 3: "alloc_inv params ?s3" by (rule alloc_inv_wing_step)
  then have "alloc_inv params (fst (requote params ?s3 now))"
    by (intro alloc_inv_quote_frame [OF qf_requote] slots_ok_requote alloc_inv_slots)
  then show ?thesis by (simp add: eval_tick_def Let_def case_prod_beta)
qed

lemma alloc_inv_cancel_slot:
  "alloc_inv params st \<Longrightarrow> alloc_inv params (fst (cancel_slot st oid))"
  by (intro alloc_inv_quote_frame [OF qf_cancel_slot] slots_ok_cancel_slot alloc_inv_slots)

lemma alloc_inv_flags:
  "alloc_inv params st \<Longrightarrow>
    alloc_inv params (st\<lparr>v_cancel_in_flight := b, v_amend_in_flight := b'\<rparr>)"
  by (rule alloc_inv_cong) (auto dest: alloc_invD(8-10))

lemma alloc_inv_cancelled:
  assumes inv: "alloc_inv params st"
  shows "alloc_inv params (fst (apply_cancelled params st e now))"
  using alloc_inv_cancel_slot [OF inv, of "oc_order_id e"]
    alloc_inv_flags [OF alloc_inv_cancel_slot [OF inv, of "oc_order_id e"], of False False]
  unfolding apply_cancelled_def Let_def case_prod_beta
  by (auto simp: alloc_inv_book quantize_he_whole q_count_def split: option.split)

lemma maybe_close_frame: "wing_frame (st\<lparr>v_sets_done := 0\<rparr>) ((maybe_close_set st i)\<lparr>v_sets_done := 0\<rparr>)"
  by (simp add: maybe_close_set_def Let_def wing_frame_def wing_core_def sync_wing_mirrors_def
      split: option.split)

lemma alloc_inv_fill:
  assumes inv: "alloc_inv params st"
  shows "alloc_inv params (fst (apply_fill params st e now))"
proof -
  have close: "alloc_inv params (maybe_close_set (st\<lparr>v_wing_legs := ls\<rparr>) b)" for ls b
    using wing_frameD [OF maybe_close_frame [of "st\<lparr>v_wing_legs := ls\<rparr>" b]] inv
    by (intro alloc_inv_cong [OF _ _ _ _ _ _ inv]) (auto dest: alloc_invD(8-10))
  have echo: "alloc_inv params (fst (skip_echo st oid d))" for oid d
    using inv alloc_inv_slots [OF inv]
    by (intro alloc_inv_quote_frame [OF qf_skip_echo]) (simp_all add: slots_ok_skip_echo)
  have q: "0 < q_count (snd (skip_echo st oid (q_count d)))"
    if "0 < snd (skip_echo st oid (q_count d))" for oid d
    using that by (auto simp: skip_echo_def Let_def q_count_def quantize_he_whole split: option.splits)
  show ?thesis
    unfolding apply_fill_def Let_def case_prod_beta
    by (auto simp: close echo inv intro!: alloc_inv_book q split: option.split)
qed

lemma dict_total_carry:
  assumes "distinct (map fst d)" and w: "\<forall>kv \<in> set d. whole_cent (snd kv)"
  shows "distinct (map fst (carry_booked d a b))"
    "\<forall>kv \<in> set (carry_booked d a b). whole_cent (snd kv)"
    "dict_total (carry_booked d a b) = dict_total d"
proof -
  have dist: "distinct (map fst (AList.delete a d))" using assms(1) by (rule distinct_delete)
  show "distinct (map fst (carry_booked d a b))"
    using assms(1) dist by (auto simp: carry_booked_def distinct_update split: option.split)
  have "whole_cent (snd kv)" if "kv \<in> set (AList.update b (q_count x) (AList.delete a d))" for kv x
    using ran_dict_update [of "fst kv" "snd kv" b "q_count x" "AList.delete a d"] that w
    by (auto simp: AList.delete_eq)
  then show "\<forall>kv \<in> set (carry_booked d a b). whole_cent (snd kv)"
    using w by (auto simp: carry_booked_def split: option.split)
  show "dict_total (carry_booked d a b) = dict_total d"
  proof (cases "map_of d a")
    case (Some old)
    have "whole_cent (dict_get_default d b 0)" "whole_cent old"
      using whole_cent_get [OF w] w map_of_SomeD [OF Some] by auto
    then have "q_count (dict_get_default d b 0 + old) = dict_get_default d b 0 + old"
      by (intro q_count_whole whole_cent_add)
    moreover have "a \<noteq> b \<Longrightarrow> dict_get_default (AList.delete a d) b 0 = dict_get_default d b 0"
      by (simp add: dict_get_default_def delete_conv')
    ultimately show ?thesis
      using Some assms(1) dist
      by (simp add: carry_booked_def dict_total_update dict_total_delete dict_get_default_def)
  qed (simp add: carry_booked_def)
qed

lemma alloc_inv_amend_pre:
  assumes inv: "alloc_inv params st" and live: "v_rest_live st = Some live"
  shows "alloc_inv params (amend_pre st live e now)"
proof -
  note D = alloc_invD [OF inv]
  have "v_rest_pending st = None" "\<not> v_rest_allotment_done st" using D(8,9) live by auto
  moreover have "\<forall>kv \<in> set (v_rest_booked st). whole_cent (snd kv)" using D(6) by blast
  ultimately show ?thesis
    using inv dict_total_carry [OF D(5), of "ro_coid live" "ro_coid (amended_rest live e)"]
    unfolding alloc_inv_def filled_total_def by (simp add: amend_pre_def Let_def)
qed

lemma alloc_inv_amended:
  assumes inv: "alloc_inv params st"
  shows "alloc_inv params (fst (apply_amended params st e now))"
proof -
  have "alloc_inv params (st\<lparr>v_amend_in_flight := False\<rparr>)"
    by (rule alloc_inv_cong [OF _ _ _ _ _ _ inv]) (use alloc_invD(8-10) [OF inv] in auto)
  moreover have "alloc_inv params (note_cross s oid d)" if "alloc_inv params s" for s oid d
    using that alloc_inv_slots [OF that]
    by (intro alloc_inv_quote_frame [OF qf_note_cross]) (simp_all add: slots_ok_note_cross)
  ultimately show ?thesis
    using inv unfolding apply_amended_def Let_def case_prod_beta
    by (auto simp: alloc_inv_book alloc_inv_amend_pre split: option.split)
qed

lemma alloc_inv_decide:
  assumes inv: "alloc_inv params st"
  shows "alloc_inv params (fst (decide_v32 params st ev))"
proof (cases ev)
  case (EBook e)
  have "alloc_inv params (fold_book st e)"
    using inv alloc_inv_slots [OF inv]
    by (intro alloc_inv_quote_frame [OF qf_fold_book]) (simp_all add: slots_ok_fold_book)
  then show ?thesis by (simp add: decide_v32_def EBook alloc_inv_eval_tick)
next
  case (ETrade e)
  define st1 where "st1 = fst (shadow_on_trade params st e)"
  define st2 where "st2 = shadow_complete params st1 (tr_server_ts e)"
  have "quote_frame st st2"
    using quote_frame_trans [OF qf_shadow_on_trade qf_shadow_complete]
    by (simp add: st1_def st2_def)
  moreover have "slots_ok st2"
    using alloc_inv_slots [OF inv]
    by (simp add: st1_def st2_def slots_ok_shadow_complete slots_ok_shadow_on_trade)
  ultimately have "alloc_inv params st2" using inv by (rule alloc_inv_quote_frame)
  moreover have "fst (decide_v32 params st ev) = st2"
    by (simp add: decide_v32_def ETrade Let_def case_prod_beta st1_def st2_def)
  ultimately show ?thesis by simp
next
  case (EAck e)
  have "alloc_inv params (apply_ack st e)"
    by (rule alloc_inv_quote_frame [OF qf_ack slots_ok_ack [OF alloc_inv_slots [OF inv]] inv])
  then show ?thesis by (simp add: decide_v32_def EAck)
next
  case (EFill e)
  then show ?thesis using alloc_inv_fill [OF inv, of e "fi_server_ts e"]
    by (simp only: decide_v32_def Let_def v32_event.case event_ts.simps)
next
  case (ECancelled e)
  then show ?thesis using alloc_inv_cancelled [OF inv, of e "oc_server_ts e"]
    by (simp only: decide_v32_def Let_def v32_event.case event_ts.simps)
next
  case (EAmended e)
  then show ?thesis using alloc_inv_amended [OF inv, of e "om_server_ts e"]
    by (simp only: decide_v32_def Let_def v32_event.case event_ts.simps)
next
  case (EClock t)
  then show ?thesis using alloc_inv_eval_tick [OF inv, of t]
    by (simp only: decide_v32_def Let_def v32_event.case event_ts.simps)
qed

section \<open>The late-fill hook\<close>

text \<open>
  The hook books outside the event loop: the fill is appended, the allotment is latched whatever
  its size and both slots are freed, while the per-order book and the remainder stay as they
  were. What the invariant says of \<open>v_rest_allotment_done\<close> and of the booked sum therefore stops
  at the hook, and the lemma says by how much.
\<close>

definition late_fill_booked :: "v32_state \<Rightarrow> v32_state \<Rightarrow> money \<Rightarrow> lots \<Rightarrow> time \<Rightarrow> bool" where
  "late_fill_booked st st' price d ts \<longleftrightarrow>
     v_rest_fills st' =
       v_rest_fills st @ [\<lparr>rf_price = price, rf_count = q_count d, rf_server_ts = ts\<rparr>] \<and>
     filled_total st' = dict_total (v_rest_booked st') + q_count d \<and>
     v_rest_booked st' = v_rest_booked st \<and> v_rest_remaining st' = v_rest_remaining st \<and>
     v_rest_allotment_done st' \<and> v_rest_live st' = None \<and> v_rest_pending st' = None \<and>
     v_rest_fill st' \<noteq> None"

lemma late_fill_outcome:
  assumes "alloc_inv params st"
  shows "if v_rest_fill st \<noteq> None then book_late_rest_fill params st price d ts bk = (st, [])
    else late_fill_booked st (fst (book_late_rest_fill params st price d ts bk)) price d ts"
  using alloc_invD(7) [OF assms]
  by (simp add: book_late_rest_fill_def late_fill_booked_def Let_def case_prod_beta sync_frame
      wing_step_frame filled_total_def sync_wing_mirrors_def)

end
