(* ===== verification/V32_Latch.thy ===== *)
theory V32_Latch
  imports V32_Allot
begin

text \<open>
  The two latches of an hour. Once the allotment is filled, or the replace-rate alarm stood the
  hour down, no event makes \<open>decide_v32\<close> place or amend a rest again. Both are instances
  of \<open>latching_core\<close>, which lifts them to whole runs.
\<close>

definition v32_inv :: "v32_params \<Rightarrow> v32_state \<Rightarrow> bool" where
  "v32_inv params st \<longleftrightarrow> hedge_inv st \<and> alloc_inv params st"

lemma v32_inv_decide: "v32_inv params st \<Longrightarrow> v32_inv params (fst (decide_v32 params st ev))"
  by (simp add: v32_inv_def hedge_inv_decide alloc_inv_decide)

lemma v32_inv_new: "v32_inv params (new_v32_state ct ce bm params sh)"
  by (simp add: v32_inv_def hedge_inv_new alloc_inv_new)

definition is_rest_order :: "v32_action \<Rightarrow> bool" where
  "is_rest_order a \<longleftrightarrow> a_kind a = PLACE_REST \<or> a_kind a = AMEND_REST"

section \<open>The fields no operation resets, and the constants of the hour\<close>

definition latch_le :: "v32_state \<Rightarrow> v32_state \<Rightarrow> bool" where
  "latch_le st st' \<longleftrightarrow>
     (v_stood_down st \<longrightarrow> v_stood_down st') \<and>
     (v_rest_allotment_done st \<longrightarrow> v_rest_allotment_done st') \<and>
     v_shakedown st' = v_shakedown st \<and> v_close_epoch st' = v_close_epoch st \<and>
     v_close_time st' = v_close_time st"

lemma latch_le_refl [simp]: "latch_le st st"
  by (simp add: latch_le_def)

lemma latch_le_trans: "latch_le a b \<Longrightarrow> latch_le b c \<Longrightarrow> latch_le a c"
  by (simp add: latch_le_def)

lemma latch_le_same:
  "v_stood_down st' = v_stood_down st \<Longrightarrow> v_rest_allotment_done st' = v_rest_allotment_done st \<Longrightarrow>
    v_shakedown st' = v_shakedown st \<Longrightarrow> v_close_epoch st' = v_close_epoch st \<Longrightarrow>
    v_close_time st' = v_close_time st \<Longrightarrow> latch_le st st'"
  by (simp add: latch_le_def)

lemma latch_le_wing_step: "latch_le st (fst (wing_step params st now))"
  by (rule latch_le_same) (simp_all add: wing_step_frame)

lemma latch_le_book: "latch_le st (fst (book_rest_delta params st coid p d now))"
  by (simp add: latch_le_def book_rest_delta_eq sync_frame wing_step_frame book_pre_sel)
    (simp add: book_pre_def Let_def add_batch_def)

lemma latch_le_close: "latch_le st (maybe_close_set st i)"
  using wing_frameD [OF maybe_close_frame [of st i]] by (intro latch_le_same) simp_all

lemma latch_le_cancel_slot: "latch_le st (fst (cancel_slot st oid))"
  by (rule latch_le_same) (simp_all add: cancel_slot_def split: option.split)

lemma latch_le_skip_echo: "latch_le st (fst (skip_echo st oid d))"
  by (rule latch_le_same) (simp_all add: skip_echo_def Let_def split: option.split)

lemma latch_le_note_cross: "latch_le st (note_cross st oid d)"
  by (rule latch_le_same) (simp_all add: note_cross_def split: option.split)

lemma latch_le_cancel_live: "latch_le st (fst (cancel_live_if_any st))"
  by (rule latch_le_same)
    (simp_all add: cancel_live_if_any_def Let_def case_prod_beta remember_cancel_ctx_def
      split: option.split)

lemma latch_le_standdown: "latch_le st (fst (standdown st r))"
  by (rule latch_le_same) (simp_all add: standdown_def)

lemma latch_le_bucket_change: "latch_le st (fst (bucket_change st))"
  by (rule latch_le_same)
    (simp_all add: bucket_change_def Let_def case_prod_beta remember_cancel_ctx_def
      split: option.split)

lemma latch_le_requote_quote: "latch_le st (fst (requote_quote params st n now))"
proof -
  define st1 where "st1 = (if v_last_standdown_reason st \<noteq> None
    then st\<lparr>v_last_standdown_reason := None, v_stand_down_reason := None\<rparr> else st)"
  have st1: "latch_le st1 s \<Longrightarrow> latch_le st s" for s by (simp add: st1_def latch_le_def)
  show ?thesis
    unfolding requote_quote_def Let_def st1_def [symmetric] using latch_le_bucket_change [of st1]
    by (intro st1) (simp add: latch_le_def emit_place_def emit_amend_def mint_coid_eq Let_def
        split: option.split)
qed

lemma latch_le_requote: "latch_le st (fst (requote params st now))"
proof -
  have stood: "latch_le st s \<Longrightarrow> latch_le st (s\<lparr>v_stood_down := True\<rparr>)" for s
    by (simp add: latch_le_def)
  have gate: "latch_le st s \<Longrightarrow> latch_le st (fst (standdown s r))" for s r
    using latch_le_standdown by (rule latch_le_trans [rotated])
  show ?thesis
    unfolding requote_def Let_def case_prod_beta
    by (auto simp: stood gate latch_le_cancel_live latch_le_requote_quote
        split: option.split quote_gate.split)
qed

lemma latch_le_eval_tick: "latch_le st (fst (eval_tick params st now))"
proof -
  let ?s2 = "shadow_complete params (recompute_context params st now) now"
  have "latch_le st ?s2"
    by (rule latch_le_same)
      (simp_all add: shadow_complete_def recompute_context_def Let_def split: option.split)
  from latch_le_trans [OF latch_le_trans [OF this latch_le_wing_step] latch_le_requote]
  show ?thesis by (simp add: eval_tick_def Let_def case_prod_beta)
qed

lemma latch_le_cancelled: "latch_le st (fst (apply_cancelled params st e now))"
proof -
  define st1 where "st1 = fst (cancel_slot st (oc_order_id e))"
  define st2 where "st2 = st1\<lparr>v_cancel_in_flight := False, v_amend_in_flight := False\<rparr>"
  have 1: "latch_le st st1" by (simp add: st1_def latch_le_cancel_slot)
  moreover have 2: "latch_le st st2" using 1 by (simp add: st2_def latch_le_def)
  ultimately show ?thesis
    using latch_le_trans [OF 1 latch_le_book] latch_le_trans [OF 2 latch_le_book]
    unfolding apply_cancelled_def Let_def case_prod_beta st1_def [symmetric]
    by (auto simp: st2_def [symmetric] split: option.split)
qed

lemma latch_le_fill: "latch_le st (fst (apply_fill params st e now))"
proof -
  have "latch_le st (maybe_close_set (st\<lparr>v_wing_legs := ls\<rparr>) b)" for ls b
    using latch_le_close [of "st\<lparr>v_wing_legs := ls\<rparr>" b] by (simp add: latch_le_def)
  then show ?thesis
    using latch_le_skip_echo latch_le_trans [OF latch_le_skip_echo latch_le_book]
    unfolding apply_fill_def Let_def case_prod_beta
    by (auto split: option.split)
qed

lemma latch_le_amended: "latch_le st (fst (apply_amended params st e now))"
proof -
  have pre: "latch_le st (amend_pre st live e now)" for live
    by (rule latch_le_same) (simp_all add: amend_pre_def Let_def)
  have off: "latch_le st (st\<lparr>v_amend_in_flight := False\<rparr>)" by (simp add: latch_le_def)
  show ?thesis
    using pre off latch_le_trans [OF latch_le_trans [OF pre latch_le_book] latch_le_note_cross]
    unfolding apply_amended_def Let_def case_prod_beta
    by (auto split: option.split)
qed

lemma latch_le_decide: "latch_le st (fst (decide_v32 params st ev))"
proof (cases ev)
  case (EBook e)
  have "latch_le st (fold_book st e)"
    by (rule latch_le_same)
      (simp_all add: fold_book_def Let_def split: option.split market_class.split)
  from latch_le_trans [OF this latch_le_eval_tick] show ?thesis
    by (simp add: decide_v32_def EBook)
next
  case (ETrade e)
  then show ?thesis
    by (intro latch_le_same)
      (simp_all add: decide_v32_def Let_def case_prod_beta shadow_complete_def shadow_on_trade_def
        split: option.split market_class.split)
next
  case (EAck e)
  then show ?thesis
    by (intro latch_le_same) (simp_all add: decide_v32_def apply_ack_def split: option.split)
qed (simp_all add: decide_v32_def latch_le_fill latch_le_cancelled latch_le_amended
    latch_le_eval_tick)

section \<open>The latches\<close>

lemma latched_no_rest_order:
  assumes "v_stood_down st \<or> v_rest_allotment_done st"
    and "a \<in> set (snd (decide_v32 params st ev))"
  shows "\<not> is_rest_order a"
  using order_guard_decide [OF assms(2)] latch_le_decide [of st params ev] assms(1)
  by (auto simp: order_guard_def latch_le_def is_rest_order_def)

interpretation allotment: latching_core "decide_v32 params" "v32_inv params" is_rest_order
  v_rest_allotment_done for params
  by unfold_locales
    (simp_all add: v32_inv_decide latch_le_decide [unfolded latch_le_def],
     blast intro: latched_no_rest_order [THEN notE])

interpretation alarm: latching_core "decide_v32 params" "v32_inv params" is_rest_order
  v_stood_down for params
  by unfold_locales
    (simp_all add: v32_inv_decide latch_le_decide [unfolded latch_le_def],
     blast intro: latched_no_rest_order [THEN notE])

text \<open>In shakedown nothing reaches the venue: the flag never changes, and it guards every kind.\<close>

definition to_venue :: "v32_action \<Rightarrow> bool" where
  "to_venue a \<longleftrightarrow> a_kind a \<in> set venue_kinds"

lemma shakedown_silent:
  assumes "v_shakedown st" and "a \<in> set (snd (decide_v32 params st ev))"
  shows "\<not> to_venue a"
  using order_guard_decide [OF assms(2)] assms(1) by (simp add: order_guard_def to_venue_def)

interpretation shakedown: latching_core "decide_v32 params" "v32_inv params" to_venue v_shakedown
  for params
  by unfold_locales
    (simp_all add: v32_inv_decide latch_le_decide [unfolded latch_le_def],
     blast intro: shakedown_silent [THEN notE])

text \<open>The constants of the hour over a run.\<close>

lemma latch_le_run: "latch_le st (fst (run_core (decide_v32 params) st evs))"
proof (induction evs arbitrary: st)
  case (Cons e es)
  from latch_le_trans [OF latch_le_decide Cons.IH] show ?case
    by (simp add: run_core_Cons del: run_core.simps(2))
qed simp

end
