(* ===== verification/V32_Wings.thy ===== *)
theory V32_Wings
  imports V32_Latch
begin

text \<open>
  The functional behaviour of the wing leg of the strategy: with fresh wing prices before the
  settle cutoff, one wing step takes the wings of exactly the batches not yet taken, each for
  its own fill count; a retry is sent only for unfilled legs of a batch whose projected lock
  still clears the floor; a rest fill hedges itself in the same step.
\<close>

section \<open>One batch of a wing step\<close>

definition batch_step ::
  "v32_params \<Rightarrow> money \<Rightarrow> money \<Rightarrow> v32_state \<Rightarrow> nat \<Rightarrow> v32_state \<times> v32_action list" where
  "batch_step params ya na st i =
     (case find (\<lambda>b. wb_index b = i) (v_wing_batches st) of
        None \<Rightarrow> (st, [])
      | Some b \<Rightarrow>
          if wb_completed b then (st, [])
          else if \<not> wb_taken b then take_batch params st b ya na
          else retry_batch params st b ya na)"

lemma step_batches_Cons:
  "step_batches params ya na st (i # is) =
     (fst (step_batches params ya na (fst (batch_step params ya na st i)) is),
      snd (batch_step params ya na st i) @
        snd (step_batches params ya na (fst (batch_step params ya na st i)) is))"
  by (simp add: batch_step_def case_prod_beta Let_def split: option.split)

definition settle_batch :: "nat \<Rightarrow> wing_batch \<Rightarrow> wing_batch" where
  "settle_batch i b =
     (if wb_index b = i then b\<lparr>wb_taken := wb_taken b \<or> \<not> wb_completed b\<rparr> else b)"

lemma retry_batch_batches:
  "v_wing_batches (fst (retry_batch params st b ya na)) = v_wing_batches st"
proof -
  obtain sq where "fst (retry_legs params (wb_index b) ya na st (v_wing_legs st)) = st\<lparr>v_coid_seq := sq\<rparr>"
    using retry_legs_state by blast
  then show ?thesis by (simp add: retry_batch_def case_prod_beta Let_def)
qed

lemma hedge_inv_batch_step: "hedge_inv st \<Longrightarrow> hedge_inv (fst (batch_step params ya na st i))"
  by (auto simp: batch_step_def dest!: find_SomeD intro: hedge_inv_take hedge_inv_retry
      split: option.split)

lemma hedge_inv_distinct: "hedge_inv st \<Longrightarrow> distinct (map wb_index (v_wing_batches st))"
  using hedge_invD(1) by (metis distinct_upt)

lemma distinct_index_eq:
  "distinct (map wb_index bs) \<Longrightarrow> b \<in> set bs \<Longrightarrow> x \<in> set bs \<Longrightarrow> wb_index x = wb_index b \<Longrightarrow> x = b"
  by (metis (no_types, lifting) distinct_map inj_onD)

lemma batch_step_batches:
  assumes inv: "hedge_inv st"
  shows "v_wing_batches (fst (batch_step params ya na st i)) = map (settle_batch i) (v_wing_batches st)"
proof (cases "find (\<lambda>b. wb_index b = i) (v_wing_batches st)")
  case None
  then have "map (settle_batch i) (v_wing_batches st) = v_wing_batches st"
    by (intro map_idI) (auto simp: find_None_iff settle_batch_def)
  with None show ?thesis by (simp add: batch_step_def)
next
  case (Some b)
  then have b: "b \<in> set (v_wing_batches st)" "wb_index b = i" by (auto dest: find_SomeD)
  note dist = hedge_inv_distinct [OF inv]
  have same: "x = b" if "x \<in> set (v_wing_batches st)" "wb_index x = i" for x
    using distinct_index_eq [OF dist b(1) that(1)] that(2) b(2) by simp
  show ?thesis
  proof (cases "wb_completed b \<or> wb_taken b")
    case True
    then have "settle_batch i x = x" if "x \<in> set (v_wing_batches st)" for x
      using same [OF that] hedge_invD(4) [OF inv that] by (auto simp: settle_batch_def)
    then have "map (settle_batch i) (v_wing_batches st) = v_wing_batches st" by (simp add: map_idI)
    with True Some show ?thesis by (auto simp: batch_step_def retry_batch_batches)
  next
    case False
    then have "x\<lparr>wb_taken := True\<rparr> = settle_batch i x" if "x \<in> set (v_wing_batches st)" "wb_index x = i" for x
      using same [OF that] that(2) by (simp add: settle_batch_def)
    with False Some b dist show ?thesis
      by (auto simp: batch_step_def take_batch_parts replace_batch_map settle_batch_def)
  qed
qed

lemma step_batches_batches:
  "hedge_inv st \<Longrightarrow>
    v_wing_batches (fst (step_batches params ya na st is)) =
      map (\<lambda>b. if wb_index b \<in> set is then b\<lparr>wb_taken := wb_taken b \<or> \<not> wb_completed b\<rparr> else b)
        (v_wing_batches st)"
proof (induction "is" arbitrary: st)
  case (Cons i "is")
  then show ?case
    by (simp add: step_batches_Cons hedge_inv_batch_step batch_step_batches settle_batch_def
        del: step_batches.simps)
qed simp

section \<open>The takes of a wing step\<close>

text \<open>What the take action of a batch says: its count, its lock, and both legs.\<close>

definition take_summary ::
  "v32_action \<Rightarrow> lots \<times> money option \<times> (string \<times> lots \<times> money) list" where
  "take_summary a = (a_count a, a_lock a, map (\<lambda>l. (lo_side l, lo_count l, lo_limit l)) (a_legs a))"

definition batch_take ::
  "v32_params \<Rightarrow> money \<Rightarrow> money \<Rightarrow> wing_batch \<Rightarrow>
     lots \<times> money option \<times> (string \<times> lots \<times> money) list" where
  "batch_take params ya na b =
     (wb_fill_count b, Some (lock_value (wb_fill_price b) (wing_cost ya na)),
      [(BUY_YES, wb_fill_count b, min (ya + p_wing_margin params) LIMIT_CEILING),
       (BUY_NO, wb_fill_count b, min (na + p_wing_margin params) LIMIT_CEILING)])"

definition is_take :: "v32_action \<Rightarrow> bool" where
  "is_take a \<longleftrightarrow> a_kind a = TAKE_WINGS"

lemma batch_step_takes:
  assumes "\<not> v_shakedown st" and "hedge_inv st"
  shows "map take_summary (filter is_take (snd (batch_step params ya na st i))) =
    (case find (\<lambda>b. wb_index b = i) (v_wing_batches st) of
       None \<Rightarrow> []
     | Some b \<Rightarrow> if wb_taken b then [] else [batch_take params ya na b])"
proof (cases "find (\<lambda>b. wb_index b = i) (v_wing_batches st)")
  case (Some b)
  have "filter is_take (snd (retry_batch params st b ya na)) = []"
    using retry_batch_kinds [of _ params st b ya na] assms(1)
    by (auto simp: filter_empty_conv is_take_def)
  moreover have "wb_completed b \<Longrightarrow> wb_taken b"
    using Some hedge_invD(4) [OF assms(2)] by (auto dest: find_SomeD)
  moreover obtain a where "snd (take_batch params st b ya na) = [a]" "a_kind a = TAKE_WINGS"
    "take_summary a = batch_take params ya na b"
    using take_batch_actions [of params st b ya na] assms(1)
    by (auto simp: take_summary_def batch_take_def)
  ultimately show ?thesis
    using Some by (auto simp: batch_step_def is_take_def)
qed (simp add: batch_step_def)

lemma find_settle:
  "i \<noteq> j \<Longrightarrow> find (\<lambda>b. wb_index b = j) (map (settle_batch i) bs) = find (\<lambda>b. wb_index b = j) bs"
  by (induction bs) (auto simp: settle_batch_def)

lemma step_batches_takes:
  assumes "\<not> v_shakedown st" and "hedge_inv st" and "distinct is"
  shows "map take_summary (filter is_take (snd (step_batches params ya na st is))) =
    concat (map (\<lambda>i. case find (\<lambda>b. wb_index b = i) (v_wing_batches st) of
                       None \<Rightarrow> []
                     | Some b \<Rightarrow> if wb_taken b then [] else [batch_take params ya na b]) is)"
  using assms
proof (induction "is" arbitrary: st)
  case (Cons i "is")
  let ?s' = "fst (batch_step params ya na st i)"
  have "v_shakedown ?s' = v_shakedown st"
    by (auto simp: batch_step_def wing_frameD(3) [OF wing_frame_take]
        wing_frameD(3) [OF wing_frame_retry] split: option.split)
  moreover have "find (\<lambda>b. wb_index b = j) (v_wing_batches ?s') =
      find (\<lambda>b. wb_index b = j) (v_wing_batches st)" if "j \<in> set is" for j
    using that Cons.prems by (auto simp: batch_step_batches intro: find_settle)
  ultimately show ?case
    using Cons
    by (simp add: step_batches_Cons batch_step_takes hedge_inv_batch_step
        del: step_batches.simps cong: map_cong)
qed simp

lemma find_self:
  assumes "distinct (map wb_index bs)" and "b \<in> set bs"
  shows "find (\<lambda>x. wb_index x = wb_index b) bs = Some b"
  using assms by (induction bs) (auto simp: image_iff)

lemma wing_step_takes_untaken:
  assumes inv: "hedge_inv st" and sh: "\<not> v_shakedown st"
    and time: "of_int (p_no_orders_after_s params) \<le> of_int (v_close_epoch st) - now"
    and px: "wing_prices st now params = Some (ya, na)"
  shows "map take_summary (filter is_take (snd (wing_step params st now))) =
      map (batch_take params ya na) (filter (\<lambda>b. \<not> wb_taken b) (v_wing_batches st))"
    and "v_wing_batches (fst (wing_step params st now)) =
      map (\<lambda>b. b\<lparr>wb_taken := True\<rparr>) (v_wing_batches st)"
proof -
  let ?is = "map wb_index (v_wing_batches st)"
  have step: "v_wing_batches st \<noteq> [] \<Longrightarrow> wing_step params st now =
      (sync_wing_mirrors (fst (step_batches params ya na st ?is)), snd (step_batches params ya na st ?is))"
    using time px by (simp add: wing_step_def not_less case_prod_beta Let_def)
  have conc: "concat (map (\<lambda>b. case find (\<lambda>x. wb_index x = wb_index b) (v_wing_batches st) of
        None \<Rightarrow> [] | Some b \<Rightarrow> if wb_taken b then [] else [batch_take params ya na b]) bs) =
      map (batch_take params ya na) (filter (\<lambda>b. \<not> wb_taken b) bs)"
    if "set bs \<subseteq> set (v_wing_batches st)" for bs
    using that by (induction bs) (auto simp: find_self [OF hedge_inv_distinct [OF inv]])
  show "map take_summary (filter is_take (snd (wing_step params st now))) =
      map (batch_take params ya na) (filter (\<lambda>b. \<not> wb_taken b) (v_wing_batches st))"
  proof (cases "v_wing_batches st = []")
    case False
    then show ?thesis
      using step_batches_takes [OF sh inv, of ?is params ya na] hedge_inv_distinct [OF inv]
        conc [OF subset_refl]
      by (simp add: step o_def)
  qed (simp add: wing_step_def)
  have "x\<lparr>wb_taken := wb_taken x \<or> \<not> wb_completed x\<rparr> = x\<lparr>wb_taken := True\<rparr>"
    if "x \<in> set (v_wing_batches st)" for x
    using hedge_invD(4) [OF inv that] by (cases "wb_taken x"; cases "wb_completed x") simp_all
  then show "v_wing_batches (fst (wing_step params st now)) =
      map (\<lambda>b. b\<lparr>wb_taken := True\<rparr>) (v_wing_batches st)"
    by (cases "v_wing_batches st = []")
      (simp add: wing_step_def, simp add: step step_batches_batches [OF inv] sync_wing_parts
        cong: map_cong)
qed

section \<open>A fill hedges itself\<close>

lemma wing_prices_cong:
  assumes "v_spot_Sd st' = v_spot_Sd st" "v_spot_Su st' = v_spot_Su st"
    "v_strike_tops st' = v_strike_tops st" "v_strike_ts st' = v_strike_ts st"
  shows "wing_prices st' now params = wing_prices st now params"
  unfolding wing_prices_def assms by (rule refl)

lemma book_rest_delta_takes:
  assumes inv: "hedge_inv st" and sh: "\<not> v_shakedown st"
    and time: "of_int (p_no_orders_after_s params) \<le> of_int (v_close_epoch st) - now"
    and px: "wing_prices st now params = Some (ya, na)"
  shows "map take_summary (filter is_take (snd (book_rest_delta params st coid price d now))) =
      map (batch_take params ya na)
        (filter (\<lambda>b. \<not> wb_taken b) (v_wing_batches (add_batch st price (q_count d) now)))"
    and "\<forall>b \<in> set (v_wing_batches (fst (book_rest_delta params st coid price d now))). wb_taken b"
proof -
  let ?p = "book_pre params st coid price d now"
  have px': "wing_prices ?p now params = Some (ya, na)"
    using px by (subst wing_prices_cong [of _ st]) (simp_all add: book_pre_sel)
  note T = wing_step_takes_untaken [OF hedge_inv_book_pre [OF inv, of params coid price d now] _ _ px']
  show "map take_summary (filter is_take (snd (book_rest_delta params st coid price d now))) =
      map (batch_take params ya na)
        (filter (\<lambda>b. \<not> wb_taken b) (v_wing_batches (add_batch st price (q_count d) now)))"
    using T(1) sh time by (simp add: book_rest_delta_eq book_pre_sel)
  show "\<forall>b \<in> set (v_wing_batches (fst (book_rest_delta params st coid price d now))). wb_taken b"
    using T(2) sh time by (simp add: book_rest_delta_eq book_pre_sel sync_wing_parts)
qed

text \<open>A fill of the live rest, for a fresh pair of wing prices before the cutoff.\<close>

lemma fill_takes_wings:
  assumes inv: "hedge_inv st" and sh: "\<not> v_shakedown st"
    and live: "v_rest_live st = Some l" "ro_coid l = fi_coid e"
    and rest: "fi_coid e \<notin> wl_coid ` set (v_wing_legs st)" and echo: "v_amend_cross_pending st = []"
    and count: "0 < q_count (fi_count e)"
    and time: "of_int (p_no_orders_after_s params) \<le> of_int (v_close_epoch st) - fi_server_ts e"
    and px: "wing_prices st (fi_server_ts e) params = Some (ya, na)"
  shows "map take_summary (filter is_take (snd (decide_v32 params st (EFill e)))) =
      map (batch_take params ya na) (filter (\<lambda>b. \<not> wb_taken b) (v_wing_batches st)) @
      [(q_count (fi_count e), Some (lock_value (fi_price e) (wing_cost ya na)),
        [(BUY_YES, q_count (fi_count e), min (ya + p_wing_margin params) LIMIT_CEILING),
         (BUY_NO, q_count (fi_count e), min (na + p_wing_margin params) LIMIT_CEILING)])] \<and>
    (\<forall>b \<in> set (v_wing_batches (fst (decide_v32 params st (EFill e)))). wb_taken b)"
proof -
  have "fill_leg e ls = None" if "fi_coid e \<notin> wl_coid ` set ls" for ls
    using that by (induction ls) auto
  then have "fill_leg e (v_wing_legs st) = None" using rest by blast
  moreover have "skip_echo st oid d = (st, d)" for oid d
    using echo by (simp add: skip_echo_def dict_get_default_def q_count_def quantize_he_def
        round_half_even_def split: option.split)
  ultimately have eq: "decide_v32 params st (EFill e) =
      book_rest_delta params st (fi_coid e) (fi_price e) (q_count (fi_count e)) (fi_server_ts e)"
    using live count by (simp add: decide_v32_def apply_fill_def rest_slot_def Let_def)
  have qq: "q_count (q_count (fi_count e)) = q_count (fi_count e)" by simp
  show ?thesis
    unfolding eq using book_rest_delta_takes [OF inv sh time px]
    by (simp add: add_batch_def batch_take_def qq)
qed

section \<open>Retries\<close>

text \<open>
  A retry repeats an unfilled leg of its batch (ticker, side, count) at the current ask plus the
  margin, capped at the limit ceiling.
\<close>

definition retries_leg ::
  "v32_params \<Rightarrow> money \<Rightarrow> money \<Rightarrow> v32_action \<Rightarrow> wing_leg \<Rightarrow> bool" where
  "retries_leg params ya na a l \<longleftrightarrow>
     wl_status l = Unfilled \<and> a_count a = wl_count l \<and>
     a_legs a = [\<lparr>lo_ticker = wl_ticker l, lo_side = wl_side l, lo_action = ''buy'',
       lo_count = wl_count l,
       lo_limit = min ((if wl_side l = BUY_YES then ya else na) + p_wing_margin params) LIMIT_CEILING\<rparr>]"

lemma retries_leg_mk:
  "wl_status l = Unfilled \<Longrightarrow> retries_leg params ya na
     ((mk_action st k)\<lparr>a_legs :=
        [\<lparr>lo_ticker = wl_ticker l, lo_side = wl_side l, lo_action = ''buy'', lo_count = wl_count l,
          lo_limit = min ((if wl_side l = BUY_YES then ya else na) + p_wing_margin params)
            LIMIT_CEILING\<rparr>], a_count := wl_count l\<rparr>) l"
  by (simp add: retries_leg_def)

lemma retry_legs_actions:
  assumes "retry_legs params i ya na st ls = (st', ls', acts)"
  shows "list_all2 (retries_leg params ya na) acts
    (filter (\<lambda>l. wl_batch l = i \<and> wl_status l = Unfilled) ls)"
  using assms
proof (induction ls arbitrary: st st' ls' acts)
  case (Cons l ls)
  obtain sa la aa where a: "retry_legs params i ya na st ls = (sa, la, aa)" by (metis prod_cases3)
  obtain sb lb ab where b: "retry_legs params i ya na (snd (mint_coid st)) ls = (sb, lb, ab)"
    by (metis prod_cases3)
  show ?case
    using Cons.prems Cons.IH [OF a] Cons.IH [OF b] a b
    by (cases "wl_batch l = i \<and> wl_status l = Unfilled")
      (auto simp: retries_leg_mk mint_coid_eq Let_def simp del: if_split)
qed simp

lemma retry_batch_actions:
  "list_all2 (retries_leg params ya na) (snd (retry_batch params st b ya na))
     (if p_lock_floor params \<le> projected_lock st b ya na
      then filter (\<lambda>l. wl_status l = Unfilled) (batch_legs st (wb_index b)) else [])"
proof -
  obtain s1 l1 a1 where r:
    "retry_legs params (wb_index b) ya na st (v_wing_legs st) = (s1, l1, a1)" by (metis prod_cases3)
  have "filter (\<lambda>l. wl_batch l = i \<and> wl_status l = Unfilled) ls =
      filter (\<lambda>l. wl_status l = Unfilled) (filter (\<lambda>l. wl_batch l = i) ls)" for i ls
    by (induction ls) auto
  with retry_legs_actions [OF r] r show ?thesis
    by (simp add: retry_batch_def batch_legs_def not_less [symmetric])
qed

text \<open>After a retry no leg of the batch is unfilled: every one is pending again or filled.\<close>

lemma retry_legs_no_unfilled:
  assumes "retry_legs params i ya na st ls = (st', ls', acts)"
  shows "map wl_status ls' =
    map (\<lambda>l. if wl_batch l = i \<and> wl_status l = Unfilled then Pending else wl_status l) ls"
  using assms
proof (induction ls arbitrary: st st' ls' acts)
  case (Cons l ls)
  obtain sa la aa where a: "retry_legs params i ya na st ls = (sa, la, aa)" by (metis prod_cases3)
  obtain sb lb ab where b: "retry_legs params i ya na (snd (mint_coid st)) ls = (sb, lb, ab)"
    by (metis prod_cases3)
  show ?case
    using Cons.prems Cons.IH [OF a] Cons.IH [OF b] a b
    by (auto simp: mint_coid_eq Let_def split: if_splits)
qed simp

end
