(* ===== verification/V32_Quote.thy ===== *)
theory V32_Quote
  imports V32_Wings
begin

text \<open>
  The quote context and the in-process shadow. The spot bucket is the one with the highest YES
  mid among the valid two-sided books, the lowest floor on a tie; the shadow of an edge records
  one fill per hour, inside the window and above \<open>n_min\<close>, and its lock is the formula of the
  live strategy at the completion's wing cost.
\<close>

section \<open>Spot selection\<close>

definition yes_mid :: "top_of_book option \<Rightarrow> money option" where
  "yes_mid tb =
     (if valid_two_sided tb then
        (case tb of
           Some t \<Rightarrow> (case (yes_bid t, yes_ask t) of (Some b, Some a) \<Rightarrow> Some ((b + a) / 2) | _ \<Rightarrow> None)
         | None \<Rightarrow> None)
      else None)"

lemma spot_scan_Cons:
  "spot_scan tops (fl # fls) best =
     spot_scan tops fls
       (case yes_mid (map_of tops fl) of
          None \<Rightarrow> best
        | Some mid \<Rightarrow> (case best of
            None \<Rightarrow> Some (fl, mid)
          | Some (_, best_mid) \<Rightarrow> if best_mid < mid then Some (fl, mid) else best))"
  by (auto simp: yes_mid_def valid_two_sided_def Let_def split: option.splits)

text \<open>\<open>best\<close> holds the best floor of those seen, \<open>seen\<close>.\<close>

definition spot_best ::
  "(int, top_of_book) dict \<Rightarrow> int set \<Rightarrow> (int \<times> money) option \<Rightarrow> bool" where
  "spot_best tops seen best \<longleftrightarrow>
     (case best of
        None \<Rightarrow> \<forall>f \<in> seen. yes_mid (map_of tops f) = None
      | Some (s, m) \<Rightarrow>
          s \<in> seen \<and> yes_mid (map_of tops s) = Some m \<and>
          (\<forall>f \<in> seen. \<forall>m'. yes_mid (map_of tops f) = Some m' \<longrightarrow> m' < m \<or> (m' = m \<and> s \<le> f)))"

lemma spot_scan_best:
  "sorted fls \<Longrightarrow> (\<And>f g. f \<in> seen \<Longrightarrow> g \<in> set fls \<Longrightarrow> f \<le> g) \<Longrightarrow> spot_best tops seen best \<Longrightarrow>
    spot_best tops (seen \<union> set fls) (spot_scan tops fls best)"
proof (induction fls arbitrary: seen best)
  case (Cons fl fls)
  let ?best = "case yes_mid (map_of tops fl) of
          None \<Rightarrow> best
        | Some mid \<Rightarrow> (case best of
            None \<Rightarrow> Some (fl, mid)
          | Some (_, best_mid) \<Rightarrow> if best_mid < mid then Some (fl, mid) else best)"
  have low: "f \<in> seen \<Longrightarrow> f \<le> fl" for f using Cons.prems(2) by simp
  have "spot_best tops (insert fl seen) ?best"
    using Cons.prems(3) low
    by (fastforce simp: spot_best_def split: option.splits prod.splits)
  with Cons.IH [of "insert fl seen" ?best] Cons.prems(1,2) show ?case
    by (simp add: spot_scan_Cons del: spot_scan.simps) (metis insert_iff)
qed simp

lemma select_spot_best:
  "(case select_spot st of
      None \<Rightarrow> \<forall>f \<in> dom (map_of (v_bucket_tops st)). yes_mid (map_of (v_bucket_tops st) f) = None
    | Some s \<Rightarrow>
        (\<exists>m. yes_mid (map_of (v_bucket_tops st) s) = Some m \<and>
          (\<forall>f m'. yes_mid (map_of (v_bucket_tops st) f) = Some m' \<longrightarrow>
             m' < m \<or> (m' = m \<and> s \<le> f))))"
proof -
  let ?tops = "v_bucket_tops st"
  have "spot_best ?tops (set (dict_keys ?tops))
      (spot_scan ?tops (sort (dict_keys ?tops)) None)"
    using spot_scan_best [of "sort (dict_keys ?tops)" "{}" ?tops None]
    by (simp add: spot_best_def)
  moreover have "set (dict_keys ?tops) = dom (map_of ?tops)"
    by (simp add: dict_keys_def dom_map_of_conv_image_fst)
  moreover have "yes_mid None = None" by (simp add: yes_mid_def)
  ultimately show ?thesis
    by (auto simp: spot_best_def select_spot_def dom_def split: option.splits prod.splits)
      (metis option.distinct(1) option.exhaust)+
qed

section \<open>The shadow\<close>

definition shadow_ok :: "v32_params \<Rightarrow> shadow_sub \<Rightarrow> bool" where
  "shadow_ok params sub \<longleftrightarrow>
     (case ss_fill sub of
        None \<Rightarrow> \<not> ss_filled sub \<and> \<not> ss_awaiting sub
      | Some f \<Rightarrow>
          ss_filled sub \<and> sf_E f = ss_E sub \<and> sf_offer f = 1 - sf_n f \<and>
          sf_offer f < sf_print_price f \<and> p_n_min params \<le> sf_n f \<and>
          (if ss_awaiting sub then sf_lock f = None \<and> sf_W_at_completion f = None
           else (\<exists>w. sf_W_at_completion f = Some w \<and> sf_lock f = Some (lock_value (sf_n f) w))))"

definition shadows_ok :: "v32_params \<Rightarrow> v32_state \<Rightarrow> bool" where
  "shadows_ok params st \<longleftrightarrow> (\<forall>kv \<in> set (v_shadows st). shadow_ok params (snd kv))"

lemma shadow_ok_trade_one:
  "shadow_ok params sub \<Longrightarrow> shadow_ok params (fst (shadow_trade_one params win t e sub))"
  by (auto simp: shadow_trade_one_def shadow_ok_def Let_def not_less split: option.splits)

lemma shadow_ok_complete_one: "shadow_ok params sub \<Longrightarrow> shadow_ok params (shadow_complete_one w sub)"
  by (auto simp: shadow_complete_one_def shadow_ok_def split: option.splits if_splits)

lemma shadow_ok_n: "shadow_ok params (sub\<lparr>ss_n := n\<rparr>) = shadow_ok params sub"
  by (simp add: shadow_ok_def split: option.split)

text \<open>One fill per hour and edge: a filled shadow keeps its fill, whatever trades follow.\<close>

lemma shadow_trade_one_once:
  "ss_filled sub \<Longrightarrow> shadow_trade_one params win t e sub = (sub, [])"
  by (simp add: shadow_trade_one_def split: option.split)

lemma shadow_trade_one_fills_iff:
  assumes "shadow_ok params sub" and "\<not> ss_filled sub"
  shows "ss_filled (fst (shadow_trade_one params win t e sub)) \<longleftrightarrow>
    win \<and> (\<exists>n. ss_n sub = Some n \<and> p_n_min params \<le> n \<and> 1 - n < tr_yes_price e)"
  using assms by (auto simp: shadow_trade_one_def Let_def not_less split: option.split)

lemma v_shadows_frames:
  "v_shadows (fold_book st e) = v_shadows st"
  "v_shadows (apply_ack st a) = v_shadows st"
  "v_shadows (fst (cancel_slot st oid)) = v_shadows st"
  "v_shadows (fst (skip_echo st oid d)) = v_shadows st"
  "v_shadows (note_cross st oid d) = v_shadows st"
  "v_shadows (amend_pre st live oe now) = v_shadows st"
  "v_shadows (fst (cancel_live_if_any st)) = v_shadows st"
  "v_shadows (fst (standdown st r)) = v_shadows st"
  "v_shadows (fst (bucket_change st)) = v_shadows st"
  "v_shadows (fst (emit_place st params n now)) = v_shadows st"
  "v_shadows (fst (emit_amend st params l n)) = v_shadows st"
  "v_shadows (book_pre params st coid p d now) = v_shadows st"
  by (simp_all add: fold_book_def apply_ack_def cancel_slot_def skip_echo_def note_cross_def
      amend_pre_def cancel_live_if_any_def remember_cancel_ctx_def standdown_def bucket_change_def
      emit_place_def emit_amend_def mint_coid_eq book_pre_def add_batch_def Let_def case_prod_beta
      split: option.split market_class.split)

lemma v_shadows_book:
  "v_shadows (fst (book_rest_delta params st coid p d now)) = v_shadows st"
  by (simp add: book_rest_delta_eq sync_frame wing_step_frame v_shadows_frames)

lemma v_shadows_close: "v_shadows (maybe_close_set st i) = v_shadows st"
  using wing_frameD [OF maybe_close_frame [of st i]] by simp

lemma v_shadows_requote: "v_shadows (fst (requote params st now)) = v_shadows st"
proof -
  have "v_shadows (fst (requote_quote params st n now)) = v_shadows st" for n
    by (simp add: requote_quote_def Let_def v_shadows_frames split: option.split)
  then show ?thesis
    by (simp add: requote_def Let_def case_prod_beta v_shadows_frames
        split: option.split quote_gate.split)
qed

lemma shadows_ok_cong: "v_shadows st' = v_shadows st \<Longrightarrow> shadows_ok params st' = shadows_ok params st"
  by (simp add: shadows_ok_def)

lemma shadows_ok_complete: "shadows_ok params st \<Longrightarrow> shadows_ok params (shadow_complete params st now)"
  by (auto simp: shadow_complete_def shadows_ok_def shadow_ok_complete_one split: option.split)

lemma shadows_ok_trade: "shadows_ok params st \<Longrightarrow> shadows_ok params (fst (shadow_on_trade params st e))"
  by (auto simp: shadow_on_trade_def shadows_ok_def Let_def
      intro!: shadow_ok_trade_one split: option.split market_class.split)

lemma shadows_ok_eval_tick:
  assumes "shadows_ok params st"
  shows "shadows_ok params (fst (eval_tick params st now))"
proof -
  have "shadows_ok params (recompute_context params st now)"
    using assms by (auto simp: recompute_context_def shadows_ok_def Let_def shadow_ok_n)
  then have "shadows_ok params (shadow_complete params (recompute_context params st now) now)"
    by (rule shadows_ok_complete)
  then show ?thesis
    by (simp add: eval_tick_def Let_def case_prod_beta shadows_ok_def v_shadows_requote
        wing_step_frame)
qed

lemma shadows_ok_decide:
  assumes ok: "shadows_ok params st"
  shows "shadows_ok params (fst (decide_v32 params st ev))"
proof (cases ev)
  case (EBook e)
  have "shadows_ok params (fold_book st e)"
    using ok by (simp add: shadows_ok_def v_shadows_frames)
  then show ?thesis by (simp add: decide_v32_def EBook shadows_ok_eval_tick)
next
  case (ETrade e)
  with shadows_ok_complete [OF shadows_ok_trade [OF ok]] show ?thesis
    by (simp add: decide_v32_def Let_def case_prod_beta)
next
  case (EClock t)
  with ok show ?thesis by (simp add: decide_v32_def shadows_ok_eval_tick)
next
  case (EAck e)
  with ok show ?thesis by (simp add: decide_v32_def shadows_ok_def v_shadows_frames)
next
  case (EFill e)
  have "v_shadows (fst (apply_fill params st e t)) = v_shadows st" for t
    by (simp add: apply_fill_def Let_def case_prod_beta v_shadows_frames v_shadows_book
        v_shadows_close split: option.split)
  with ok EFill show ?thesis by (simp add: decide_v32_def shadows_ok_def)
next
  case (ECancelled e)
  have "v_shadows (fst (apply_cancelled params st e t)) = v_shadows st" for t
    by (simp add: apply_cancelled_def Let_def case_prod_beta v_shadows_frames v_shadows_book
        split: option.split)
  with ok ECancelled show ?thesis by (simp add: decide_v32_def shadows_ok_def)
next
  case (EAmended e)
  have "v_shadows (fst (apply_amended params st e t)) = v_shadows st" for t
    by (simp add: apply_amended_def Let_def case_prod_beta v_shadows_frames v_shadows_book
        split: option.split)
  with ok EAmended show ?thesis by (simp add: decide_v32_def shadows_ok_def)
qed

lemma shadow_ok_fresh: "shadow_ok params (fresh_shadow E)"
  by (simp add: shadow_ok_def fresh_shadow_def)

lemma shadows_ok_new: "shadows_ok params (new_v32_state ct ce bm params sh)"
proof -
  have "\<forall>kv \<in> set (foldl (\<lambda>d E. AList.update E (fresh_shadow E) d) d0 Es). shadow_ok params (snd kv)"
    if "\<forall>kv \<in> set d0. shadow_ok params (snd kv)" for d0 Es
    using that
  proof (induction Es arbitrary: d0)
    case (Cons E Es)
    have "shadow_ok params (snd kv)" if "kv \<in> set (AList.update E (fresh_shadow E) d0)" for kv
      using ran_dict_update [of "fst kv" "snd kv" E "fresh_shadow E" d0] that Cons.prems
        shadow_ok_fresh by fastforce
    then have "\<forall>kv \<in> set (AList.update E (fresh_shadow E) d0). shadow_ok params (snd kv)" by blast
    from Cons.IH [OF this] show ?case by simp
  qed simp
  from this [of "[]" "p_shadow_Es params"] show ?thesis
    by (simp add: shadows_ok_def new_v32_state_def)
qed

interpretation shadows: decision_core "decide_v32 params" "shadows_ok params" for params
  by unfold_locales (rule shadows_ok_decide)

section \<open>Cumulative cancel reports\<close>

lemma filled_total_cancel_flags [simp]:
  "filled_total (st\<lparr>v_cancel_in_flight := b, v_amend_in_flight := b'\<rparr>) = filled_total st"
  "filled_total (st\<lparr>v_rest_live := l\<rparr>) = filled_total st"
  by (simp_all add: filled_total_def)

lemma v_rest_booked_book:
  "v_rest_booked (fst (book_rest_delta params st coid p d now)) =
     AList.update coid (q_count (dict_get_default (v_rest_booked st) coid 0 + q_count d)) (v_rest_booked st)"
  by (simp add: book_rest_delta_eq sync_frame wing_step_frame book_pre_sel)

text \<open>
  The cancel report of the live rest counts every lot filled before it: only the lots not yet
  booked for the order are added, and the order's booked lots become the larger of the two.
\<close>

lemma apply_cancelled_live:
  assumes inv: "alloc_inv params st" and live: "v_rest_live st = Some l"
    and oid: "ro_order_id l = oc_order_id e"
  defines "b \<equiv> dict_get_default (v_rest_booked st) (ro_coid l) 0"
    and "f \<equiv> q_count (oc_filled_before e)"
  shows "filled_total (fst (apply_cancelled params st e now)) =
      filled_total st + (if 0 < f then max 0 (f - b) else 0)"
    and "dict_get_default (v_rest_booked (fst (apply_cancelled params st e now))) (ro_coid l) 0 =
      (if 0 < f then max f b else b)"
    and "v_rest_live (fst (apply_cancelled params st e now)) = None"
proof -
  define st2 where "st2 = st\<lparr>v_rest_live := None, v_cancel_in_flight := False, v_amend_in_flight := False\<rparr>"
  have whole: "whole_cent b" "whole_cent f"
    using alloc_invD(6) [OF inv] by (auto simp: b_def f_def intro: whole_cent_get)
  then have q: "q_count b = b" "q_count (f - b) = f - b" "q_count (b + (f - b)) = f"
    using whole_cent_diff [OF whole(2) whole(1)] by simp_all
  have eq: "apply_cancelled params st e now =
      (if 0 < f \<and> b < f then book_rest_delta params st2 (ro_coid l) (ro_price l) (f - b) now
       else (st2, []))"
    using q by (simp add: apply_cancelled_def cancel_slot_def live oid cancel_attribution_def Let_def
        st2_def f_def [symmetric] b_def [symmetric])
  have st2: "filled_total st2 = filled_total st" "v_rest_booked st2 = v_rest_booked st"
    "v_rest_live st2 = None"
    by (simp_all add: st2_def filled_total_def)
  show "filled_total (fst (apply_cancelled params st e now)) =
      filled_total st + (if 0 < f then max 0 (f - b) else 0)"
    by (simp add: eq filled_total_book st2 q max_def)
  show "dict_get_default (v_rest_booked (fst (apply_cancelled params st e now))) (ro_coid l) 0 =
      (if 0 < f then max f b else b)"
    using q by (simp add: eq v_rest_booked_book st2 b_def [symmetric] max_def)
      (simp add: dict_get_default_def update_conv' b_def)
  show "v_rest_live (fst (apply_cancelled params st e now)) = None"
    by (simp add: eq st2 book_rest_delta_eq sync_frame wing_step_frame book_pre_slots)
qed

end
