(* ===== verification/V32_Example.thy ===== *)
theory V32_Example
  imports V32_Quote
begin

text \<open>
  A worked hour: a small policy, the books of two strikes and one bucket, and the states the
  concrete instances of the V3.2 properties start from (about to quote, resting, filled). The
  lemmas evaluate the core's helpers on them once.
\<close>

definition wit_params :: v32_params where
  "wit_params = \<lparr>p_E = 5/100, p_tol = 1/100, p_deb_ms = 1000, p_quote_start_s = 900, p_quote_end_s = 300,
     p_contracts = 2, p_wing_margin = 3/100, p_lock_floor = 1/100, p_no_orders_after_s = 1,
     p_freshness_max_age_s = 1, p_bucket_freshness_max_age_s = 30, p_max_sets_per_hour = 1,
     p_n_min = 20/100, p_replace_rate_alarm = 30, p_bucket_width = 100, p_shadow_Es = [5/100],
     p_sha256 = []\<rparr>"

definition wit_top :: "rat \<Rightarrow> rat \<Rightarrow> top_of_book" where
  "wit_top bid ask = \<lparr>yes_bid = Some bid, yes_bid_size = Some 10, yes_ask = Some ask, yes_ask_size = Some 10,
     no_bid = Some (1 - ask), no_bid_size = Some 10, no_ask = Some (1 - bid), no_ask_size = Some 10,
     suspect = False\<rparr>"

definition wit_hour :: v32_state where
  "wit_hour = (new_v32_state ''T'' 10000 [] wit_params False)
     \<lparr>v_strike_tops := [(100, wit_top (58/100) (60/100)), (200, wit_top (40/100) (42/100))],
      v_strike_ts := [(100, 9400), (200, 9400)],
      v_strike_tickers := [(100, ''S1''), (200, ''S2'')],
      v_bucket_tops := [(100, wit_top (40/100) (44/100))],
      v_bucket_ts := [(100, 9399)], v_bucket_tickers := [(100, ''B1'')]\<rparr>"

lemma wit_fee: "fee (3/5) = 168/10000" "fee (59/100) = 170/10000"
  by (simp_all add: fee_def fee_rate_def ceiling_eq_iff)

lemma wit_params_sel: "p_E wit_params = 5/100" "p_tol wit_params = 1/100" "p_deb_ms wit_params = 1000"
  "p_quote_start_s wit_params = 900" "p_quote_end_s wit_params = 300" "p_contracts wit_params = 2"
  "p_wing_margin wit_params = 3/100" "p_lock_floor wit_params = 1/100" "p_no_orders_after_s wit_params = 1"
  "p_freshness_max_age_s wit_params = 1" "p_bucket_freshness_max_age_s wit_params = 30"
  "p_n_min wit_params = 20/100" "p_replace_rate_alarm wit_params = 30" "p_bucket_width wit_params = 100"
  "p_shadow_Es wit_params = [5/100]"
  by (simp_all add: wit_params_def)

lemma wit_select: "select_spot wit_hour = Some 100"
  by (simp add: select_spot_def wit_hour_def new_v32_state_def dict_keys_def wit_top_def valid_two_sided_def)

lemma wit_W: "compute_W wit_hour 100 200 9400 wit_params = Some (12336/10000)"
  by (simp add: compute_W_def wit_hour_def new_v32_state_def wit_top_def fresh_def wit_params_sel wing_cost_def wit_fee)

lemma wit_cap: "bucket_cap wit_hour 100 = Some (59/100)"
  by (simp add: bucket_cap_def wit_hour_def new_v32_state_def wit_top_def valid_two_sided_def cent_def quantize_he_def round_half_even_def)

lemma wit_solve: "solve_n (Some (7164/10000)) (Some (59/100)) = Some (59/100)"
  by (simp add: solve_n_def cent_def quantize_ceil_def ceiling_eq_iff solve_down.simps [of _ "59/100"] wit_fee Let_def)

lemma wit_hour_sel: "v_bucket_ts wit_hour = [(100, 9399)]" "v_close_epoch wit_hour = 10000" "v_wing_batches wit_hour = []"
  "v_shadows wit_hour = [(5/100, fresh_shadow (5/100))]" "v_strike_tops wit_hour = [(100, wit_top (58/100) (60/100)), (200, wit_top (40/100) (42/100))]"
  "v_strike_ts wit_hour = [(100, 9400), (200, 9400)]" "v_rest_allotment_done wit_hour = False"
  "v_replace_times wit_hour = []" "v_stood_down wit_hour = False" "v_rest_bucket_Sd wit_hour = None" "v_rest_pending wit_hour = None"
   "v_rest_live wit_hour = None" "v_awaiting_replace wit_hour = False" "v_cancel_in_flight wit_hour = False" "v_amend_in_flight wit_hour = False"
   "v_rest_remaining wit_hour = None"
  "v_bucket_tickers wit_hour = [(100, ''B1'')]" "v_close_time wit_hour = ''T''" "v_coid_seq wit_hour = 0" "v_last_standdown_reason wit_hour = None" "v_shakedown wit_hour = False"
  by (simp_all add: wit_hour_def new_v32_state_def wit_params_sel)

lemma wit_recompute: "recompute_context wit_params wit_hour 9400 =
  wit_hour\<lparr>v_spot_Sd := Some 100, v_spot_Su := Some 200, v_W := Some (12336/10000), v_cap := Some (59/100),
    v_desired_n := Some (59/100), v_spot_bucket_stale := False, v_shadows := [(5/100, (fresh_shadow (5/100))\<lparr>ss_n := Some (59/100)\<rparr>)]\<rparr>"
  using wit_W wit_solve
  by (simp add: recompute_context_def wit_select wit_cap wit_params_sel fresh_def wit_hour_sel fresh_shadow_def Let_def
      del: not_None_eq)
lemma wit_hour_inv: "v32_inv wit_params wit_hour"
proof -
  have "hedge_inv wit_hour" unfolding wit_hour_def
    by (rule hedge_inv_cong [OF _ _ _ _ _ _ _ hedge_inv_new [of "''T''" 10000 "[]" wit_params False]]) simp_all
  moreover have "alloc_inv wit_params wit_hour" unfolding wit_hour_def
    by (rule alloc_inv_cong [OF _ _ _ _ _ _ alloc_inv_new [of wit_params "''T''" 10000 "[]" False]])
      (simp_all add: new_v32_state_def)
  ultimately show ?thesis by (simp add: v32_inv_def)
qed

lemma wit_hour_quotes:
  "snd (decide_v32 wit_params wit_hour (EClock 9400)) =
    [(blank_action PLACE_REST)\<lparr>a_ticker := Some ''B1'', a_side := Some BUY_NO, a_action := Some ''buy'',
       a_count := 2, a_price := Some (59/100), a_expiration_epoch := Some 9700,
       a_coid := Some (coid_of ''T'' 1)\<rparr>]"
  by (simp add: decide_v32_def eval_tick_def wit_recompute shadow_complete_def wing_prices_def
      wing_step_def wit_hour_sel wit_top_def fresh_def wit_params_sel shadow_complete_one_def
      fresh_shadow_def requote_def recent_times_def quote_gate_of_def requote_quote_def
      rest_place_count_def rest_size_def q_count_def quantize_he_def round_half_even_def
      py_trunc_def emit_place_def mint_coid_def place_action_def mk_action_def
      blank_action_def Let_def ticker_at_def dict_get_default_def)

text \<open>The rest is live on the venue, nothing filled.\<close>

definition wit_rest :: rest_order where
  "wit_rest = \<lparr>ro_coid = ''v32-T-1'', ro_order_id = Some ''o1'', ro_price = 59/100, ro_count = 2,
     ro_placed_ts = 9400, ro_live = True, ro_pending = False, ro_bucket_Sd = Some 100\<rparr>"

definition wit_resting :: v32_state where
  "wit_resting = wit_hour\<lparr>v_spot_Sd := Some 100, v_spot_Su := Some 200, v_coid_seq := 1,
     v_rest_live := Some wit_rest, v_rest_bucket_Sd := Some 100\<rparr>"

lemma wit_resting_inv: "v32_inv wit_params wit_resting"
proof -
  have h: "hedge_inv wit_hour" "alloc_inv wit_params wit_hour"
    using wit_hour_inv by (simp_all add: v32_inv_def)
  have "hedge_inv wit_resting"
    by (rule hedge_inv_cong [OF _ _ _ _ _ _ _ h(1)])
      (simp_all add: wit_resting_def wit_hour_def new_v32_state_def)
  moreover have "alloc_inv wit_params wit_resting"
    by (rule alloc_inv_cong [OF _ _ _ _ _ _ h(2)]) (simp_all add: wit_resting_def wit_hour_sel)
  ultimately show ?thesis by (simp add: v32_inv_def)
qed

lemma wit_resting_prices: "wing_prices wit_resting 9400 wit_params = Some (3/5, 3/5)"
  by (simp add: wing_prices_def wit_resting_def wit_hour_sel wit_top_def fresh_def wit_params_sel)

definition wit_fill :: fill where
  "wit_fill = \<lparr>fi_order_id = Some ''o1'', fi_coid = ''v32-T-1'', fi_count = 1, fi_price = 59/100,
     fi_side = ''no'', fi_server_ts = 9400\<rparr>"

lemma wit_fill_hyps:
  "hedge_inv wit_resting" "\<not> v_shakedown wit_resting" "v_rest_live wit_resting = Some wit_rest"
  "ro_coid wit_rest = fi_coid wit_fill" "fi_coid wit_fill \<notin> wl_coid ` set (v_wing_legs wit_resting)"
  "v_amend_cross_pending wit_resting = []" "0 < q_count (fi_count wit_fill)"
  "of_int (p_no_orders_after_s wit_params) \<le> of_int (v_close_epoch wit_resting) - fi_server_ts wit_fill"
  "wing_prices wit_resting (fi_server_ts wit_fill) wit_params = Some (3/5, 3/5)"
  using wit_resting_inv wit_resting_prices
  by (simp_all add: v32_inv_def wit_fill_def wit_rest_def wit_params_sel q_count_def
      quantize_he_def round_half_even_def)
    (simp_all add: wit_resting_def wit_hour_def new_v32_state_def wit_rest_def)

lemma wit_no_batches: "v_wing_batches wit_resting = []"
  by (simp add: wit_resting_def wit_hour_sel)

lemma wit_fill_takes_one:
  "length (filter is_take (snd (decide_v32 wit_params wit_resting (EFill wit_fill)))) = 1"
  using arg_cong [OF conjunct1 [OF fill_takes_wings [OF wit_fill_hyps]], of length]
  by (simp add: wit_no_batches)

text \<open>The allotment of two lots is filled.\<close>

definition wit_filled :: v32_state where
  "wit_filled = wit_hour\<lparr>v_coid_seq := 1,
     v_rest_fills := [\<lparr>rf_price = 59/100, rf_count = 2, rf_server_ts = 9400\<rparr>],
     v_wing_batches := [\<lparr>wb_index = 0, wb_fill_price = 59/100, wb_fill_count = 2,
       wb_server_ts = 9400, wb_taken = False, wb_completed = False, wb_one_legged = False\<rparr>],
     v_next_batch_index := 1, v_rest_booked := [(''v32-T-1'', 2)], v_rest_remaining := Some 0,
     v_rest_allotment_done := True\<rparr>"

lemma wit_filled_inv: "v32_inv wit_params wit_filled"
  by (simp add: v32_inv_def hedge_inv_def alloc_inv_def wit_filled_def wit_hour_def
      new_v32_state_def batch_hedged_def batch_legs_def coids_ok_def minted_def filled_total_def
      dict_total_def wit_params_sel whole_cent_def)

text \<open>The replace-rate alarm stood the hour down.\<close>

definition wit_alarmed :: v32_state where
  "wit_alarmed = wit_hour\<lparr>v_stood_down := True\<rparr>"

lemma wit_alarmed_inv: "v32_inv wit_params wit_alarmed"
proof -
  have h: "hedge_inv wit_hour" "alloc_inv wit_params wit_hour"
    using wit_hour_inv by (simp_all add: v32_inv_def)
  have "hedge_inv wit_alarmed"
    by (rule hedge_inv_cong [OF _ _ _ _ _ _ _ h(1)]) (simp_all add: wit_alarmed_def)
  moreover have "alloc_inv wit_params wit_alarmed"
    by (rule alloc_inv_cong [OF _ _ _ _ _ _ h(2)]) (simp_all add: wit_alarmed_def wit_hour_sel)
  ultimately show ?thesis by (simp add: v32_inv_def)
qed

end
