(* ===== verification/V32_Properties.thy ===== *)
theory V32_Properties
  imports V32_Example
begin

text \<open>
  The properties of the V3.2 core, over whole runs of \<open>decide_v32\<close> where the code promises
  them of a run, each with a concrete instance on the worked hour where it has a hypothesis.
\<close>

text \<open>
  C1. Order safety. Whatever the event stream, every rest the core places or amends is emitted by
  one step of the run at which: the quoting window is open, the hour is not stood down, the
  allotment is not filled, and the price is a whole cent of at least \<open>n_min\<close>, locks at least the
  edge \<open>E\<close> at the wing cost of the current fresh strike books, and is below the fresh spot
  bucket's NO ask (it cannot cross).
\<close>

theorem v32_rest_orders_safe:
  assumes "v32_inv params st" and "a \<in> set (snd (run_core (decide_v32 params) st evs))"
    and "is_rest_order a"
  shows "\<exists>pre ev post. evs = pre @ ev # post \<and>
    (let s = fst (run_core (decide_v32 params) st pre);
         s' = fst (decide_v32 params s ev) in
     a \<in> set (snd (decide_v32 params s ev)) \<and> in_window params s (event_ts ev) \<and>
     v_close_epoch s = v_close_epoch st \<and> \<not> v_stood_down s' \<and> \<not> v_rest_allotment_done s' \<and>
     rest_price_ok params s' (event_ts ev) a)"
proof -
  from assms(1) have "hedge_inv st" by (simp add: v32_inv_def)
  from v32.run_guard [OF this assms(2)] obtain pre ev post where
    run: "evs = pre @ ev # post"
      "a \<in> set (snd (decide_v32 params (fst (run_core (decide_v32 params) st pre)) ev))"
    and g: "order_guard params (fst (run_core (decide_v32 params) st pre)) ev
      (fst (decide_v32 params (fst (run_core (decide_v32 params) st pre)) ev)) a" by blast
  have "v_close_epoch (fst (run_core (decide_v32 params) st pre)) = v_close_epoch st"
    using latch_le_run [of st params pre] by (simp add: latch_le_def)
  with g assms(3) run show ?thesis
    by (intro exI [of _ pre] exI [of _ ev] exI [of _ post])
      (auto simp: order_guard_def is_rest_order_def Let_def)
qed

lemma v32_rest_orders_safe_witness:
  "\<exists>a \<in> set (snd (run_core (decide_v32 wit_params) wit_hour [EClock 9400])).
     is_rest_order a \<and> (\<exists>pre ev post. [EClock 9400] = pre @ ev # post \<and>
    (let s = fst (run_core (decide_v32 wit_params) wit_hour pre);
         s' = fst (decide_v32 wit_params s ev) in
     a \<in> set (snd (decide_v32 wit_params s ev)) \<and> in_window wit_params s (event_ts ev) \<and>
     v_close_epoch s = v_close_epoch wit_hour \<and> \<not> v_stood_down s' \<and> \<not> v_rest_allotment_done s' \<and>
     rest_price_ok wit_params s' (event_ts ev) a))"
proof -
  have "snd (run_core (decide_v32 wit_params) wit_hour [EClock 9400]) =
      snd (decide_v32 wit_params wit_hour (EClock 9400))"
    by (simp add: case_prod_beta)
  then obtain a where a: "a \<in> set (snd (run_core (decide_v32 wit_params) wit_hour [EClock 9400]))"
    and r: "is_rest_order a"
    by (simp add: wit_hour_quotes is_rest_order_def blank_action_def)
  from v32_rest_orders_safe [OF wit_hour_inv a r] a r show ?thesis by blast
qed

text \<open>
  C2. Hedging. In every state a fresh hour can reach, the wing batches are exactly the rest fills
  in order (same price, count and time), a batch has its two wing legs (one YES, one NO, each of
  the batch's count) if it was taken and none otherwise, every leg belongs to a batch, only taken
  batches complete, the number of sets is the number of completed batches, and the client order
  ids of the legs are pairwise distinct.
\<close>

theorem v32_every_fill_hedged:
  "hedge_inv (fst (run_core (decide_v32 params) (new_v32_state ct ce bm params sh) evs))"
  by (rule v32.run_inv [OF hedge_inv_new])

text \<open>
  C3. Allotment accounting. In every state that any stream of events handled by \<open>decide_v32\<close>
  alone reaches from a fresh hour, the lots booked per order id sum to the rest fills, the
  remainder is the policy's contracts less the fills (never below zero), the allotment is done
  exactly when the fills reach it, at most one order slot is occupied, and none once it is done:
  acks, fills, amends that rotate the client id and cumulative cancel reports book every lot
  once. The driver may also call the hook \<open>book_late_rest_fill\<close>, which is outside these runs: called
  in such a state it changes nothing when the hour has a fill; otherwise it appends the late fill,
  latches the allotment whatever the fill's size, frees both slots and leaves the booked lots and
  the remainder alone, so the fills exceed the booked lots by exactly the late fill.
\<close>

theorem v32_allotment_accounting:
  "let st = fst (run_core (decide_v32 params) (new_v32_state ct ce bm params sh) evs)
   in alloc_inv params st \<and>
     (if v_rest_fill st \<noteq> None then book_late_rest_fill params st price d ts bk = (st, [])
      else late_fill_booked st (fst (book_late_rest_fill params st price d ts bk)) price d ts)"
  unfolding Let_def
  by (intro conjI late_fill_outcome)
    (rule conjunct2 [OF allotment.run_inv [OF v32_inv_new, unfolded v32_inv_def]])+

text \<open>
  A fill hedges itself. A fill of the live rest before the settle cutoff, with both wing
  books fresh, emits in the same step one take for every batch not yet taken, the new one of the
  fill's count included, each buying both wings for its own count at ask plus margin capped at
  0.99; afterwards no batch is left untaken.
\<close>

theorem v32_fill_takes_wings:
  assumes inv: "hedge_inv st" and sh: "\<not> v_shakedown st"
    and live: "v_rest_live st = Some l" "ro_coid l = fi_coid e"
    and rest: "fi_coid e \<notin> wl_coid ` set (v_wing_legs st)" and echo: "v_amend_cross_pending st = []"
    and count: "0 < q_count (fi_count e)"
    and time: "of_int (p_no_orders_after_s params) \<le> of_int (v_close_epoch st) - fi_server_ts e"
    and px: "wing_prices st (fi_server_ts e) params = Some (ya, na)"
  shows "map take_summary (filter is_take (snd (decide_v32 params st (EFill e)))) =
      map (batch_take params ya na) (filter (\<lambda>b. \<not> wb_taken b) (v_wing_batches st)) @
      [(q_count (fi_count e), Some (lock_value (fi_price e) (wing_cost ya na)),
        [(BUY_YES, q_count (fi_count e), min (ya + p_wing_margin params) LIMIT_CEILING),
         (BUY_NO, q_count (fi_count e), min (na + p_wing_margin params) LIMIT_CEILING)])] \<and>
    (\<forall>b \<in> set (v_wing_batches (fst (decide_v32 params st (EFill e)))). wb_taken b)"
  by (rule fill_takes_wings [OF assms])

lemma v32_fill_takes_wings_witness:
  "list_all wb_taken (v_wing_batches (fst (decide_v32 wit_params wit_resting (EFill wit_fill)))) \<and>
   length (filter is_take (snd (decide_v32 wit_params wit_resting (EFill wit_fill)))) = 1"
  using arg_cong [OF conjunct1 [OF v32_fill_takes_wings [OF wit_fill_hyps]], of length]
    conjunct2 [OF v32_fill_takes_wings [OF wit_fill_hyps]]
  by (simp add: wit_no_batches list_all_iff)

text \<open>
  A closed hour stays closed. Once the allotment is filled or the replace-rate alarm stood the
  hour down, no event stream makes the core place or amend a rest again, and the hour stays so.
\<close>

theorem v32_closed_hour_places_nothing:
  assumes "v32_inv params st" and "v_rest_allotment_done st \<or> v_stood_down st"
  shows "filter is_rest_order (snd (run_core (decide_v32 params) st evs)) = [] \<and>
    (v_rest_allotment_done (fst (run_core (decide_v32 params) st evs)) \<or>
     v_stood_down (fst (run_core (decide_v32 params) st evs)))"
  using assms(2) allotment.latched_run_silent [OF assms(1)] allotment.latched_run_stays [OF assms(1)]
    alarm.latched_run_silent [OF assms(1)] alarm.latched_run_stays [OF assms(1)] by blast

lemma v32_closed_hour_places_nothing_witness:
  "filter is_rest_order (snd (run_core (decide_v32 wit_params) wit_filled [EClock 9400, EClock 9401])) = [] \<and>
   filter is_rest_order (snd (run_core (decide_v32 wit_params) wit_alarmed [EClock 9400])) = []"
  using v32_closed_hour_places_nothing [OF wit_filled_inv, of "[EClock 9400, EClock 9401]"]
    v32_closed_hour_places_nothing [OF wit_alarmed_inv, of "[EClock 9400]"]
  by (simp add: wit_filled_def wit_alarmed_def del: run_core.simps)

text \<open>
  Shakedown. A core started in shakedown mode never emits an action that reaches the venue
  (place, amend, cancel, take or retry), on any event stream: only the would-be twins.
\<close>

theorem v32_shakedown_silent:
  "filter to_venue (snd (run_core (decide_v32 params) (new_v32_state ct ce bm params True) evs)) = []"
  by (rule shakedown.latched_run_silent [OF v32_inv_new]) (simp add: new_v32_state_def)

text \<open>
  Settle cutoff. Every wing order of a run (take or retry) is emitted on an event at least
  \<open>no_orders_after_s_to_settle\<close> seconds before the close.
\<close>

theorem v32_wings_before_cutoff:
  assumes "v32_inv params st" and "a \<in> set (snd (run_core (decide_v32 params) st evs))"
    and "a_kind a = TAKE_WINGS \<or> a_kind a = RETRY_WING"
  shows "\<exists>pre ev post. evs = pre @ ev # post \<and>
    a \<in> set (snd (decide_v32 params (fst (run_core (decide_v32 params) st pre)) ev)) \<and>
    of_int (p_no_orders_after_s params) \<le> of_int (v_close_epoch st) - event_ts ev"
proof -
  from assms(1) have "hedge_inv st" by (simp add: v32_inv_def)
  from v32.run_guard [OF this assms(2)] obtain pre ev post where
    run: "evs = pre @ ev # post"
      "a \<in> set (snd (decide_v32 params (fst (run_core (decide_v32 params) st pre)) ev))"
    and g: "order_guard params (fst (run_core (decide_v32 params) st pre)) ev
      (fst (decide_v32 params (fst (run_core (decide_v32 params) st pre)) ev)) a" by blast
  have "v_close_epoch (fst (run_core (decide_v32 params) st pre)) = v_close_epoch st"
    using latch_le_run [of st params pre] by (simp add: latch_le_def)
  with g assms(3) run show ?thesis
    by (intro exI [of _ pre] exI [of _ ev] exI [of _ post]) (auto simp: order_guard_def)
qed

lemma v32_wings_before_cutoff_witness:
  "\<exists>a \<in> set (snd (run_core (decide_v32 wit_params) wit_resting [EFill wit_fill])).
     is_take a \<and> (\<exists>pre ev post. [EFill wit_fill] = pre @ ev # post \<and>
       a \<in> set (snd (decide_v32 wit_params (fst (run_core (decide_v32 wit_params) wit_resting pre)) ev)) \<and>
       of_int (p_no_orders_after_s wit_params) \<le> of_int (v_close_epoch wit_resting) - event_ts ev)"
proof -
  have run: "snd (run_core (decide_v32 wit_params) wit_resting [EFill wit_fill]) =
      snd (decide_v32 wit_params wit_resting (EFill wit_fill))"
    by (simp add: case_prod_beta)
  have "length (filter is_take (snd (decide_v32 wit_params wit_resting (EFill wit_fill)))) = 1"
    by (rule wit_fill_takes_one)
  then obtain a where "a \<in> set (filter is_take (snd (decide_v32 wit_params wit_resting (EFill wit_fill))))"
    by (metis length_0_conv list.set_intros(1) neq_Nil_conv zero_neq_one)
  then have a: "a \<in> set (snd (run_core (decide_v32 wit_params) wit_resting [EFill wit_fill]))" "is_take a"
    by (simp_all add: run)
  then have k: "a_kind a = TAKE_WINGS \<or> a_kind a = RETRY_WING" by (simp add: is_take_def)
  from v32_wings_before_cutoff [OF wit_resting_inv a(1) k] a show ?thesis by blast
qed

text \<open>
  The lock-floor gate. The retry of a batch re-sends exactly its unfilled legs, in order (same
  ticker, side and count, at the current ask plus margin capped at 0.99), when the projected lock
  of the set is at least the lock floor, and nothing otherwise.
\<close>

theorem v32_retry_gated_by_lock_floor:
  "list_all2 (retries_leg params ya na) (snd (retry_batch params st b ya na))
     (if p_lock_floor params \<le>
           2 - (wb_fill_price b + fee (wb_fill_price b))
             - projected_cost ya na (batch_legs st (wb_index b))
      then filter (\<lambda>l. wl_status l = Unfilled) (batch_legs st (wb_index b)) else [])"
  using retry_batch_actions [of params ya na st b] by (simp only: projected_lock_def)

text \<open>
  Cancel reports are cumulative. When the venue reports the live rest cancelled with \<open>f\<close>
  lots filled over its life, exactly the lots beyond those already booked for that order are
  added to the fills, the order's booked lots become the larger of the two, and the slot is free.
\<close>

theorem v32_cancel_books_difference:
  assumes inv: "alloc_inv params st" and live: "v_rest_live st = Some l"
    and oid: "ro_order_id l = oc_order_id e" and f: "0 < q_count (oc_filled_before e)"
  shows "let b = dict_get_default (v_rest_booked st) (ro_coid l) 0; f = q_count (oc_filled_before e);
             st' = fst (decide_v32 params st (ECancelled e))
         in filled_total st' = filled_total st + max 0 (f - b) \<and>
            dict_get_default (v_rest_booked st') (ro_coid l) 0 = max f b \<and> v_rest_live st' = None"
  using apply_cancelled_live [OF inv live oid] f by (simp add: decide_v32_def Let_def)

definition wit_cancel :: order_cancelled where
  "wit_cancel = \<lparr>oc_order_id = Some ''o1'', oc_server_ts = 9400, oc_filled_before = 1\<rparr>"

lemma v32_cancel_books_difference_witness:
  "filled_total (fst (decide_v32 wit_params wit_resting (ECancelled wit_cancel))) = 1 \<and>
   v_rest_live (fst (decide_v32 wit_params wit_resting (ECancelled wit_cancel))) = None"
proof -
  have sel: "v_rest_live wit_resting = Some wit_rest" "v_rest_booked wit_resting = []"
    "filled_total wit_resting = 0"
    by (simp_all add: wit_resting_def wit_hour_def new_v32_state_def filled_total_def)
  have q: "q_count (oc_filled_before wit_cancel) = 1"
    by (simp add: wit_cancel_def q_count_def quantize_he_def round_half_even_def)
  have "alloc_inv wit_params wit_resting" using wit_resting_inv by (simp add: v32_inv_def)
  moreover have "ro_order_id wit_rest = oc_order_id wit_cancel"
    by (simp add: wit_rest_def wit_cancel_def)
  moreover have "0 < q_count (oc_filled_before wit_cancel)" by (simp add: q)
  ultimately show ?thesis
    using v32_cancel_books_difference [OF _ sel(1)]
    by (simp add: Let_def q sel dict_get_default_def)
qed

text \<open>
  Spot selection. The spot bucket is the one with the highest YES mid among those with a
  valid two-sided book, the lowest floor among equals; there is none only when no book is valid.
\<close>

theorem v32_spot_is_highest_mid:
  "case select_spot st of
     None \<Rightarrow> \<forall>f \<in> dom (map_of (v_bucket_tops st)). yes_mid (map_of (v_bucket_tops st) f) = None
   | Some s \<Rightarrow>
       (\<exists>m. yes_mid (map_of (v_bucket_tops st) s) = Some m \<and>
         (\<forall>f m'. yes_mid (map_of (v_bucket_tops st) f) = Some m' \<longrightarrow> m' < m \<or> (m' = m \<and> s \<le> f)))"
  by (rule select_spot_best)

lemma v32_spot_is_highest_mid_witness:
  "\<exists>m. yes_mid (map_of (v_bucket_tops wit_hour) 100) = Some m"
  using v32_spot_is_highest_mid [of wit_hour] by (auto simp: wit_select)

text \<open>
  The shadow. In every state a fresh hour can reach, every filled shadow of an edge records
  one fill at a price of at least \<open>n_min\<close> whose print was strictly above the offer \<open>1 - n\<close>, and
  once completed its lock is the live strategy's formula at the completion's wing cost; an
  unfilled shadow records nothing.
\<close>

theorem v32_shadow_fills_sound:
  "shadows_ok params (fst (run_core (decide_v32 params) (new_v32_state ct ce bm params sh) evs))"
  by (rule shadows.run_inv [OF shadows_ok_new])

text \<open>
  C13. The rest price. For a whole-cent cap of at most a dollar, the solver returns the largest
  whole-cent price of at least one cent, at most the cap, whose price plus fee fits the budget;
  it returns nothing exactly when no such price exists.
\<close>

theorem v32_solve_n_optimal:
  assumes "whole_cent c" and "c \<le> 1"
  shows "case solve_n (Some b) (Some c) of
      None \<Rightarrow> \<not> (\<exists>m. whole_cent m \<and> cent \<le> m \<and> m \<le> c \<and> m + fee m \<le> b)
    | Some n \<Rightarrow> whole_cent n \<and> cent \<le> n \<and> n \<le> c \<and> n + fee n \<le> b \<and>
        \<not> (\<exists>m. whole_cent m \<and> n < m \<and> m \<le> c \<and> m + fee m \<le> b)"
proof (cases "solve_n (Some b) (Some c)")
  case None
  then show ?thesis using solve_n_max [of _ c b] assms by force
next
  case (Some n)
  from Some have n: "whole_cent n" "cent \<le> n" "n + fee n \<le> b" by (auto elim: solve_n_SomeD)
  moreover have "n \<le> c" using Some assms(1) by (rule solve_n_whole_cap)
  moreover have "\<not> (\<exists>m. whole_cent m \<and> n < m \<and> m \<le> c \<and> m + fee m \<le> b)"
    using solve_n_max [of _ c b] assms Some n(2) by force
  ultimately show ?thesis using Some by simp
qed

lemma v32_solve_n_optimal_witness:
  "\<not> (\<exists>m. whole_cent m \<and> 59/100 < m \<and> m \<le> 59/100 \<and> m + fee m \<le> 7164/10000) \<and>
   59/100 + fee (59/100) \<le> 7164/10000"
  using v32_solve_n_optimal [of "59/100" "7164/10000"] wit_solve by (simp add: whole_cent_def)

section \<open>Where the code departs from its description\<close>

text \<open>
  A completed set is meant to be three legs of equal count, which pay two dollars at every
  settlement. A wing order that fills only in part still marks its leg filled: with the NO leg
  held in full, one lot of a two-lot YES order completes the set, and the missing lot is neither
  retried nor flagged.
\<close>

definition wit_leg :: "string \<Rightarrow> string \<Rightarrow> leg_status \<Rightarrow> wing_leg" where
  "wit_leg side coid status =
     \<lparr>wl_ticker = ''S'', wl_side = side, wl_count = 2, wl_limit = 63/100, wl_coid = coid,
      wl_status = status, wl_fill_price = None, wl_fill_fee = None, wl_batch = 0\<rparr>"

definition wit_taken :: v32_state where
  "wit_taken = wit_filled\<lparr>v_coid_seq := 3,
     v_wing_batches := [\<lparr>wb_index = 0, wb_fill_price = 59/100, wb_fill_count = 2,
       wb_server_ts = 9400, wb_taken = True, wb_completed = False, wb_one_legged = False\<rparr>],
     v_wing_legs := [wit_leg BUY_YES ''v32-T-2'' Pending, wit_leg BUY_NO ''v32-T-3'' Filled]\<rparr>"

definition wit_part_fill :: fill where
  "wit_part_fill = \<lparr>fi_order_id = Some ''w1'', fi_coid = ''v32-T-2'', fi_count = 1,
     fi_price = 3/5, fi_side = ''yes'', fi_server_ts = 9401\<rparr>"

theorem v32_partial_wing_fill_completes_set:
  "v_sets_done (fst (decide_v32 wit_params wit_taken (EFill wit_part_fill))) = 1 \<and>
   map wb_completed (v_wing_batches (fst (decide_v32 wit_params wit_taken (EFill wit_part_fill)))) = [True] \<and>
   map wl_count (v_wing_legs wit_taken) = [2, 2] \<and> fi_count wit_part_fill = 1"
  by (simp add: decide_v32_def apply_fill_def wit_taken_def wit_part_fill_def wit_leg_def
      maybe_close_set_def batch_legs_def sync_wing_mirrors_def wit_filled_def wit_hour_def
      new_v32_state_def Let_def)

end
