(* ===== verification/Decimal_Text.thy ===== *)
theory Decimal_Text
  imports Prelude
begin

text \<open>
  Decimal numbers as text: \<open>str\<close> of an \<open>int\<close>, the fixed-point form \<open>str(x.quantize(q))\<close> and
  \<open>f"{x:.4f}"\<close> of a number of ten-thousandths, and \<open>str\<close> of a finite \<open>Decimal\<close> in plain
  notation (with no trailing zeros, which a rational does not carry). \<open>parse_decimal\<close> reads all
  of them back.
\<close>

fun pad :: "nat \<Rightarrow> nat \<Rightarrow> string" where
  "pad 0 m = []"
| "pad (Suc k) m = pad k (m div 10) @ [digit_char (m mod 10)]"

text \<open>The text of \<open>m / 10^k\<close>, with \<open>k\<close> digits after the point.\<close>

definition point_text :: "nat \<Rightarrow> nat \<Rightarrow> string" where
  "point_text k m =
     show_nat (m div 10 ^ k) @ (if k = 0 then [] else CHR ''.'' # pad k (m mod 10 ^ k))"

definition fixed_text :: "nat \<Rightarrow> int \<Rightarrow> string" where
  "fixed_text k n = (if n < 0 then ''-'' else []) @ point_text k (nat \<bar>n\<bar>)"

definition int_text :: "int \<Rightarrow> string" where
  "int_text n = fixed_text 0 n"

text \<open>The digits after the point a decimal needs, up to the 28 digits of the default context.\<close>

definition decimal_places :: "rat \<Rightarrow> nat option" where
  "decimal_places x = find (\<lambda>k. of_int \<lfloor>x * 10 ^ k\<rfloor> = x * 10 ^ k) [0..<29]"

definition is_decimal :: "rat \<Rightarrow> bool" where
  "is_decimal x \<longleftrightarrow> decimal_places x \<noteq> None"

definition dec_text :: "rat \<Rightarrow> string" where
  "dec_text x =
     (case decimal_places x of
        Some k \<Rightarrow> fixed_text k \<lfloor>x * 10 ^ k\<rfloor>
      | None \<Rightarrow> fixed_text 28 (round_half_even (x * 10 ^ 28)))"

section \<open>Reading back\<close>

lemma is_digit_digit_char: "d < 10 \<Longrightarrow> is_digit (digit_char d)"
  by (simp add: is_digit_def char_code_digit_char)

lemma pad_digits: "list_all is_digit (pad k m)"
  by (induction k m rule: pad.induct) (simp_all add: is_digit_digit_char)

lemma length_pad [simp]: "length (pad k m) = k"
  by (induction k m rule: pad.induct) simp_all

lemma digits_value_pad: "digits_value a (pad k m) = a * 10 ^ k + int (m mod 10 ^ k)"
proof (induction k m rule: pad.induct)
  case (2 k m)
  have "m mod (10 * 10 ^ k) = 10 * (m div 10 mod 10 ^ k) + m mod 10"
    by (simp add: mod_mult2_eq)
  with 2 show ?case by (simp add: digits_value_append char_code_digit_char zmod_int algebra_simps)
qed simp

lemma digits_value_app: "digits_value a (xs @ ys) = digits_value (digits_value a xs) ys"
  by (induction xs arbitrary: a) simp_all

lemma show_nat_digits: "show_nat n \<noteq> [] \<and> list_all is_digit (show_nat n)"
proof (induction n rule: show_nat.induct)
  case (1 n)
  then show ?case
    by (cases "n < 10") (simp_all add: show_nat.simps [of n] is_digit_digit_char)
qed

lemma dropWhile_id: "\<forall>c \<in> set s. \<not> P c \<Longrightarrow> dropWhile P s = s"
  by (cases s) simp_all

lemma strip_id: "\<forall>c \<in> set s. \<not> is_space c \<Longrightarrow> strip s = s"
  by (simp add: strip_def dropWhile_id)

lemma digit_not_space: "is_digit c \<Longrightarrow> \<not> is_space c"
  by (auto simp: is_digit_def is_space_def char_code_def)

lemma digit_not_sign: "is_digit c \<Longrightarrow> c \<noteq> CHR ''-'' \<and> c \<noteq> CHR ''+'' \<and> c \<noteq> CHR ''.''"
  by (auto simp: is_digit_def char_code_def)

lemma takeWhile_digits: "list_all is_digit xs \<Longrightarrow> takeWhile is_digit (xs @ ys) = xs @ takeWhile is_digit ys"
  by (induction xs) simp_all

lemma dropWhile_digits: "list_all is_digit xs \<Longrightarrow> dropWhile is_digit (xs @ ys) = dropWhile is_digit ys"
  by (induction xs) simp_all

lemma dot_not_space: "\<not> is_space (CHR ''.'')" "\<not> is_space (CHR ''-'')"
  by (simp_all add: is_space_def char_code_def)

lemma point_text_spaceless: "\<forall>c \<in> set (point_text k m). \<not> is_space c"
proof
  fix c assume "c \<in> set (point_text k m)"
  then have "is_digit c \<or> c = CHR ''.''"
    using show_nat_digits [of "m div 10 ^ k"] pad_digits [of k "m mod 10 ^ k"]
    by (auto simp: point_text_def list_all_iff split: if_splits)
  then show "\<not> is_space c" using digit_not_space dot_not_space by blast
qed

lemma take_sign_point_text: "take_sign (point_text k m) = (1, point_text k m)"
proof -
  obtain c cs where "show_nat (m div 10 ^ k) = c # cs" "is_digit c"
    using show_nat_digits [of "m div 10 ^ k"] by (cases "show_nat (m div 10 ^ k)") auto
  then show ?thesis using digit_not_sign [of c] by (simp add: take_sign_def point_text_def)
qed

lemma point_digit [simp]: "\<not> is_digit (CHR ''.'')"
  by (simp add: is_digit_def char_code_def)

lemma parse_fixed_text: "parse_decimal (fixed_text k n) = Some (of_int n / 10 ^ k)"
proof -
  define m where "m = nat \<bar>n\<bar>"
  define sg :: rat where "sg = (if n < 0 then -1 else 1)"
  have n: "of_int n = sg * of_nat m" by (simp add: m_def sg_def)
  have strip: "strip (fixed_text k n) = fixed_text k n"
    using point_text_spaceless [of k m]
    by (intro strip_id) (auto simp: fixed_text_def m_def dot_not_space)
  have sign: "take_sign (fixed_text k n) = (sg, point_text k m)"
  proof (cases "n < 0")
    case True
    then show ?thesis by (simp add: fixed_text_def m_def sg_def take_sign_def)
  next
    case False
    then show ?thesis using take_sign_point_text [of k m] by (simp add: fixed_text_def m_def sg_def)
  qed
  let ?ip = "show_nat (m div 10 ^ k)"
  have ip: "takeWhile is_digit (point_text k m) = ?ip"
    "dropWhile is_digit (point_text k m) = (if k = 0 then [] else CHR ''.'' # pad k (m mod 10 ^ k))"
    using show_nat_digits [of "m div 10 ^ k"]
    by (simp_all add: point_text_def takeWhile_digits dropWhile_digits)
  have fp: "takeWhile is_digit (pad k j) = pad k j" "dropWhile is_digit (pad k j) = []" for j
    using pad_digits [of k j] takeWhile_digits [of "pad k j" "[]"] dropWhile_digits [of "pad k j" "[]"]
    by simp_all
  have val: "digits_value 0 (?ip @ pad k (m mod 10 ^ k)) = int m"
    by (simp add: digits_value_app digits_value_show_nat digits_value_pad zdiv_int zmod_int
        of_nat_power div_mult_mod_eq)
  have "parse_decimal (fixed_text k n) = Some (sg * of_int (int m) * 10 powi (0 - int k))"
    unfolding parse_decimal_def strip sign prod.case Let_def ip
    using show_nat_digits [of "m div 10 ^ k"] val
    by (cases "k = 0") (simp_all add: parse_exponent_def fp)
  then show ?thesis by (simp add: n power_int_minus divide_inverse)
qed

lemma parse_int_text: "parse_decimal (int_text n) = Some (of_int n)"
  using parse_fixed_text [of 0 n] by (simp add: int_text_def)

lemma decimal_placesD: "decimal_places x = Some k \<Longrightarrow> of_int \<lfloor>x * 10 ^ k\<rfloor> = x * 10 ^ k"
  unfolding decimal_places_def find_Some_iff by auto

lemma parse_dec_text:
  assumes "is_decimal x"
  shows "parse_decimal (dec_text x) = Some x"
proof -
  from assms obtain k where k: "decimal_places x = Some k" by (auto simp: is_decimal_def)
  then have "of_int \<lfloor>x * 10 ^ k\<rfloor> / 10 ^ k = x" by (simp only: decimal_placesD) simp
  then show ?thesis by (simp add: dec_text_def k parse_fixed_text)
qed

lemma is_decimalI: "of_int \<lfloor>x * 10 ^ k\<rfloor> = x * 10 ^ k \<Longrightarrow> k < 29 \<Longrightarrow> is_decimal x"
  by (force simp: is_decimal_def decimal_places_def find_None_iff)

lemma is_decimal_whole_cent: "whole_cent x \<Longrightarrow> is_decimal x"
  by (rule is_decimalI [of _ 2]) (simp_all add: whole_cent_def)

lemma is_decimal_of_int: "is_decimal (of_int n)"
  by (rule is_decimalI [of _ 0]) simp_all

end
