(* ===== verification/Policy.thy ===== *)
theory Policy
  imports Policy_Read Decimal_Text
begin

text \<open>
  The frozen pilot roster, \<open>pilot/service/policy.py\<close>: the parameters the window signal reads,
  the quintile routing table and its key syntax, and the loader that refuses a policy whose
  canonical digest is not the expected one. \<open>roster_name\<close>, which is only printed, keeps the
  JSON value.
\<close>

definition SUB_DOLLAR_FLIP :: string where
  "SUB_DOLLAR_FLIP = ''sub$1-flip''"

definition Q1_STRANGLE :: string where
  "Q1_STRANGLE = ''Q1-strangle''"

record imbalance_bounds =
  ib_pair_cost_ceiling_sub1 :: money
  ib_max_retries_per_side :: int
  ib_no_rebalance_after_s :: int
  ib_no_orders_after_s :: int

record policy_params =
  pp_roster_name :: json
  pp_sub_dollar_C_max :: money
  pp_q1_strangle_ev_min :: money
  pp_freshness_max_leg_age_s :: time
  pp_staleness_s :: int
  pp_quintile_routing :: "(int, json list) dict"
  pp_imbalance :: imbalance_bounds
  pp_sha256 :: string

definition pp_no_orders_after_s :: "policy_params \<Rightarrow> int" where
  "pp_no_orders_after_s p = ib_no_orders_after_s (pp_imbalance p)"

definition sources_for_quintile :: "policy_params \<Rightarrow> int \<Rightarrow> json list" where
  "sources_for_quintile p q = dict_get_default (pp_quintile_routing p) q []"

text \<open>A routing key is \<open>q\<close> followed by digits; \<open>tuple(sources)\<close> needs an iterable.\<close>

definition routing_key :: "string \<Rightarrow> int option" where
  "routing_key k =
     (case k of
        c # ds \<Rightarrow> if c = CHR ''q'' \<and> ds \<noteq> [] \<and> list_all is_digit ds then Some (digits_value 0 ds) else None
      | [] \<Rightarrow> None)"

definition json_tuple :: "json \<Rightarrow> json list option" where
  "json_tuple v =
     (case v of
        JList _ \<Rightarrow> Some (json_iter v) | JStr _ \<Rightarrow> Some (json_iter v) | JObj _ \<Rightarrow> Some (json_iter v)
      | _ \<Rightarrow> None)"

fun parse_routing_from ::
  "(int, json list) dict \<Rightarrow> (string \<times> json) list \<Rightarrow> params_error + (int, json list) dict" where
  "parse_routing_from out [] = Inr out"
| "parse_routing_from out ((key, sources) # rest) =
     (case routing_key key of
        None \<Rightarrow> Inl (BadValue key)
      | Some q \<Rightarrow>
          (case json_tuple sources of
             None \<Rightarrow> Inl (BadValue key)
           | Some xs \<Rightarrow> parse_routing_from (AList.update q xs out) rest))"

definition parse_routing :: "(string \<times> json) list \<Rightarrow> params_error + (int, json list) dict" where
  "parse_routing raw = parse_routing_from [] raw"

definition json_object :: "json \<Rightarrow> (string \<times> json) list option" where
  "json_object v = (case v of JObj kvs \<Rightarrow> Some kvs | _ \<Rightarrow> None)"

definition load_policy ::
  "string \<Rightarrow> (string \<times> json) list \<Rightarrow> string option \<Rightarrow> params_error + policy_params" where
  "load_policy sha raw expected =
     (if sha_refused sha expected then Inl (ShaMismatch sha) else
      bind_r (need json_object raw ''imbalance'') (\<lambda>imb.
      bind_r (need to_decimal imb ''pair_cost_ceiling_sub1'') (\<lambda>pcc.
      bind_r (need json_int imb ''max_retries_per_side'') (\<lambda>mr.
      bind_r (need json_int imb ''no_rebalance_after_s_to_settle'') (\<lambda>nr.
      bind_r (need json_int imb ''no_orders_after_s_to_settle'') (\<lambda>no.
      bind_r (need to_decimal raw ''sub_dollar_C_max'') (\<lambda>sd.
      bind_r (need to_decimal raw ''q1_strangle_ev_min'') (\<lambda>qe.
      bind_r (need json_float raw ''freshness_max_leg_age_s'') (\<lambda>fr.
      bind_r (need json_int raw ''staleness_s'') (\<lambda>stl.
      bind_r (need json_object raw ''quintile_routing'') (\<lambda>rt0.
      bind_r (parse_routing rt0) (\<lambda>rt.
      Inr \<lparr>pp_roster_name = (case map_of raw ''roster_name'' of Some v \<Rightarrow> v | None \<Rightarrow> JStr []),
           pp_sub_dollar_C_max = sd, pp_q1_strangle_ev_min = qe,
           pp_freshness_max_leg_age_s = fr, pp_staleness_s = stl, pp_quintile_routing = rt,
           pp_imbalance = \<lparr>ib_pair_cost_ceiling_sub1 = pcc, ib_max_retries_per_side = mr,
             ib_no_rebalance_after_s = nr, ib_no_orders_after_s = no\<rparr>,
           pp_sha256 = sha\<rparr>))))))))))))"

section \<open>Lemmas\<close>

lemma routing_key_show_nat: "routing_key (CHR ''q'' # show_nat n) = Some (int n)"
  using show_nat_digits [of n] by (simp add: routing_key_def digits_value_show_nat)

text \<open>A key that is not \<open>qN\<close> anywhere in the table makes the loader fail.\<close>

lemma parse_routing_from_Inr:
  "parse_routing_from out raw = Inr d \<Longrightarrow>
    (\<forall>kv \<in> set raw. routing_key (fst kv) \<noteq> None \<and> json_tuple (snd kv) \<noteq> None)"
  by (induction out raw rule: parse_routing_from.induct) (auto split: option.splits)

lemma load_policy_sha:
  "load_policy sha raw (Some expected) = Inr p \<Longrightarrow> sha = expected \<and> pp_sha256 p = expected"
  by (auto simp: load_policy_def sha_refused_def bind_r_Inr_iff split: if_splits)

end
