(* ===== verification/Signal.thy ===== *)
theory Signal
  imports Policy Money Decision_Core
begin

text \<open>
  The window signal, \<open>pilot/service/signal.py\<close>: the pure \<open>decide\<close> over the pair of legs of
  one window, with its two sources (the sub-dollar flip in every quintile, the strangle in
  quintile 0). A text \<open>reason\<close> is kept as the numbers it prints. The lemmas show what a fire
  guarantees, that a window fires at most once and stands down at most once.
\<close>

section \<open>Events, actions, state\<close>

datatype sig_kind = Would_Fire | Fire | Stand_Down | Box_Skip | Box_Rescan_Would_Fire

datatype sig_event = SBook ticker top_of_book time | STick time

fun sig_ts :: "sig_event \<Rightarrow> time" where
  "sig_ts (SBook _ _ t) = t"
| "sig_ts (STick t) = t"

datatype sig_reason =
    No_Orders_Cutoff time int
  | Rescan_Requalified money money
  | Implied_Pin_Floor money money

record pair_leg =
  pl_ticker :: ticker
  pl_side :: string
  pl_count :: int
  pl_limit :: money

record sig_action =
  sa_kind :: sig_kind
  sa_source :: "string option"
  sa_legs :: "pair_leg list"
  sa_count :: int
  sa_C :: "money option"
  sa_ev :: "money option"
  sa_t_minus :: "time option"
  sa_reason :: "sig_reason option"

record window_state =
  w_close_time :: string
  w_T :: int
  w_high_ticker :: ticker
  w_low_ticker :: ticker
  w_quintile :: int
  w_fair_strangle_q :: money
  w_strangle_disabled :: bool
  w_shakedown :: bool
  w_high_top :: "top_of_book option"
  w_low_top :: "top_of_book option"
  w_high_ts :: "time option"
  w_low_ts :: "time option"
  w_entered :: bool
  w_fired_source :: "string option"
  w_standdown_emitted :: bool

definition new_window ::
  "string \<Rightarrow> int \<Rightarrow> ticker \<Rightarrow> ticker \<Rightarrow> int \<Rightarrow> money \<Rightarrow> bool \<Rightarrow> bool \<Rightarrow> window_state" where
  "new_window close_time T high low q fair strangle_disabled shakedown =
     \<lparr>w_close_time = close_time, w_T = T, w_high_ticker = high, w_low_ticker = low,
      w_quintile = q, w_fair_strangle_q = fair, w_strangle_disabled = strangle_disabled,
      w_shakedown = shakedown, w_high_top = None, w_low_top = None, w_high_ts = None,
      w_low_ts = None, w_entered = False, w_fired_source = None, w_standdown_emitted = False\<rparr>"

definition SIDE_YES :: string where "SIDE_YES = ''yes''"

definition SIDE_NO :: string where "SIDE_NO = ''no''"

definition WINDOW_S :: int where "WINDOW_S = 900"

section \<open>Costs and freshness\<close>

definition leg_cost :: "money option \<Rightarrow> money option" where
  "leg_cost price = map_option (\<lambda>p. p + fee p) price"

definition flip_cost :: "top_of_book \<Rightarrow> top_of_book \<Rightarrow> money option" where
  "flip_cost high low =
     (case (leg_cost (no_ask high), leg_cost (yes_ask low)) of
        (Some hi, Some lo) \<Rightarrow> Some (hi + lo) | _ \<Rightarrow> None)"

definition strangle_cost :: "top_of_book \<Rightarrow> top_of_book \<Rightarrow> money option" where
  "strangle_cost high low =
     (case (leg_cost (yes_ask high), leg_cost (no_ask low)) of
        (Some hi, Some lo) \<Rightarrow> Some (hi + lo) | _ \<Rightarrow> None)"

definition leg_age :: "time \<Rightarrow> time option \<Rightarrow> time option" where
  "leg_age now last_ts =
     (case last_ts of None \<Rightarrow> None | Some t \<Rightarrow> if now - t < 0 then None else Some (now - t))"

definition both_fresh :: "window_state \<Rightarrow> time \<Rightarrow> policy_params \<Rightarrow> bool" where
  "both_fresh st now params =
     (case (w_high_top st, w_low_top st) of
        (Some ht, Some lt) \<Rightarrow>
          if suspect ht \<or> suspect lt then False
          else (case (leg_age now (w_high_ts st), leg_age now (w_low_ts st)) of
                  (Some ha, Some la) \<Rightarrow>
                    ha \<le> pp_freshness_max_leg_age_s params \<and> la \<le> pp_freshness_max_leg_age_s params
                | _ \<Rightarrow> False)
      | _ \<Rightarrow> False)"

section \<open>The decision\<close>

text \<open>The fold of a book update; \<open>None\<close> is the early return on an unrelated market.\<close>

definition fold_leg :: "window_state \<Rightarrow> sig_event \<Rightarrow> window_state option" where
  "fold_leg st event =
     (case event of
        SBook market tb now \<Rightarrow>
          if market = w_high_ticker st then Some (st\<lparr>w_high_top := Some tb, w_high_ts := Some now\<rparr>)
          else if market = w_low_ticker st then Some (st\<lparr>w_low_top := Some tb, w_low_ts := Some now\<rparr>)
          else None
      | STick _ \<Rightarrow> Some st)"

type_synonym qualifier = "string \<times> money \<times> money option \<times> pair_leg list"

definition qualify_flip ::
  "policy_params \<Rightarrow> window_state \<Rightarrow> top_of_book \<Rightarrow> top_of_book \<Rightarrow> qualifier list" where
  "qualify_flip params st ht lt =
     (if JStr SUB_DOLLAR_FLIP \<notin> set (sources_for_quintile params (w_quintile st)) then []
      else (case (flip_cost ht lt, no_ask ht, yes_ask lt) of
              (Some c, Some hn, Some ly) \<Rightarrow>
                if c < pp_sub_dollar_C_max params
                then [(SUB_DOLLAR_FLIP, c, None,
                       [\<lparr>pl_ticker = w_high_ticker st, pl_side = SIDE_NO, pl_count = 1, pl_limit = hn\<rparr>,
                        \<lparr>pl_ticker = w_low_ticker st, pl_side = SIDE_YES, pl_count = 1, pl_limit = ly\<rparr>])]
                else []
            | _ \<Rightarrow> []))"

definition strangle_active :: "policy_params \<Rightarrow> window_state \<Rightarrow> bool" where
  "strangle_active params st \<longleftrightarrow>
     JStr Q1_STRANGLE \<in> set (sources_for_quintile params (w_quintile st)) \<and>
     w_quintile st = 0 \<and> \<not> w_strangle_disabled st"

definition qualify_strangle ::
  "policy_params \<Rightarrow> window_state \<Rightarrow> top_of_book \<Rightarrow> top_of_book \<Rightarrow> qualifier list" where
  "qualify_strangle params st ht lt =
     (if \<not> strangle_active params st then []
      else (case (strangle_cost ht lt, yes_ask ht, no_ask lt) of
              (Some c, Some hy, Some na) \<Rightarrow>
                if pp_q1_strangle_ev_min params \<le> w_fair_strangle_q st - c
                then [(Q1_STRANGLE, c, Some (w_fair_strangle_q st - c),
                       [\<lparr>pl_ticker = w_high_ticker st, pl_side = SIDE_YES, pl_count = 1, pl_limit = hy\<rparr>,
                        \<lparr>pl_ticker = w_low_ticker st, pl_side = SIDE_NO, pl_count = 1, pl_limit = na\<rparr>])]
                else []
            | _ \<Rightarrow> []))"

definition stand_down_action :: "time \<Rightarrow> int \<Rightarrow> sig_action" where
  "stand_down_action t_minus bound =
     \<lparr>sa_kind = Stand_Down, sa_source = None, sa_legs = [], sa_count = 0, sa_C = None, sa_ev = None,
      sa_t_minus = Some t_minus, sa_reason = Some (No_Orders_Cutoff t_minus bound)\<rparr>"

definition fire_step ::
  "policy_params \<Rightarrow> window_state \<Rightarrow> time \<Rightarrow> window_state \<times> sig_action list" where
  "fire_step params st t_minus =
     (case (w_high_top st, w_low_top st) of
        (Some ht, Some lt) \<Rightarrow>
          (case qualify_flip params st ht lt @ qualify_strangle params st ht lt of
             [] \<Rightarrow> (st, [])
           | (source, C, ev, legs) # _ \<Rightarrow>
               (st\<lparr>w_entered := True, w_fired_source := Some source\<rparr>,
                [\<lparr>sa_kind = (if w_shakedown st then Would_Fire else Fire), sa_source = Some source,
                  sa_legs = legs, sa_count = 1, sa_C = Some C, sa_ev = ev,
                  sa_t_minus = Some t_minus, sa_reason = None\<rparr>]))
      | _ \<Rightarrow> (st, []))"

definition decide ::
  "policy_params \<Rightarrow> window_state \<Rightarrow> sig_event \<Rightarrow> window_state \<times> sig_action list" where
  "decide params state event =
     (let now = sig_ts event in
      case fold_leg state event of
        None \<Rightarrow> (state, [])
      | Some st \<Rightarrow>
          if w_entered st then (st, [])
          else
            (let t_minus = of_int (w_T st) - now in
             if t_minus < of_int (pp_no_orders_after_s params) then
               (if \<not> w_standdown_emitted st
                then (st\<lparr>w_standdown_emitted := True\<rparr>,
                      [stand_down_action t_minus (pp_no_orders_after_s params)])
                else (st, []))
             else if of_int WINDOW_S < t_minus then (st, [])
             else if \<not> both_fresh st now params then (st, [])
             else fire_step params st t_minus))"

section \<open>What a decision guarantees\<close>

definition is_fire :: "sig_action \<Rightarrow> bool" where
  "is_fire a \<longleftrightarrow> sa_kind a = Fire \<or> sa_kind a = Would_Fire"

definition is_stand_down :: "sig_action \<Rightarrow> bool" where
  "is_stand_down a \<longleftrightarrow> sa_kind a = Stand_Down"

text \<open>The cost of a pair: every leg at its limit, fee included.\<close>

fun pair_cost :: "pair_leg list \<Rightarrow> money" where
  "pair_cost [] = 0"
| "pair_cost (l # ls) = pl_limit l + fee (pl_limit l) + pair_cost ls"

text \<open>
  A fire in state \<open>st\<close> (after the fold): each leg buys one contract at the current ask of its
  book, both books are fresh and not suspect, the time is inside the window and outside the
  settle cutoff, and the source's own condition holds of the pair cost.
\<close>

definition leg_matches :: "ticker \<Rightarrow> top_of_book \<Rightarrow> string \<Rightarrow> pair_leg \<Rightarrow> bool" where
  "leg_matches tk tb side l \<longleftrightarrow>
     pl_ticker l = tk \<and> pl_side l = side \<and> pl_count l = 1 \<and>
     (if side = SIDE_YES then yes_ask tb else no_ask tb) = Some (pl_limit l)"

definition fire_ok :: "policy_params \<Rightarrow> window_state \<Rightarrow> time \<Rightarrow> sig_action \<Rightarrow> bool" where
  "fire_ok params st now a \<longleftrightarrow>
     both_fresh st now params \<and>
     of_int (pp_no_orders_after_s params) \<le> of_int (w_T st) - now \<and>
     of_int (w_T st) - now \<le> of_int WINDOW_S \<and>
     sa_C a = Some (pair_cost (sa_legs a)) \<and>
     (case (w_high_top st, w_low_top st, sa_legs a) of
        (Some ht, Some lt, [h, l]) \<Rightarrow>
          (sa_source a = Some SUB_DOLLAR_FLIP \<and>
             leg_matches (w_high_ticker st) ht SIDE_NO h \<and>
             leg_matches (w_low_ticker st) lt SIDE_YES l \<and>
             pair_cost (sa_legs a) < pp_sub_dollar_C_max params) \<or>
          (sa_source a = Some Q1_STRANGLE \<and> strangle_active params st \<and>
             leg_matches (w_high_ticker st) ht SIDE_YES h \<and>
             leg_matches (w_low_ticker st) lt SIDE_NO l \<and>
             pp_q1_strangle_ev_min params \<le> w_fair_strangle_q st - pair_cost (sa_legs a))
      | _ \<Rightarrow> False)"

lemma sides_differ [simp]: "SIDE_NO \<noteq> SIDE_YES" "SIDE_YES \<noteq> SIDE_NO"
  by (simp_all add: SIDE_NO_def SIDE_YES_def)

lemma leg_cost_Some: "leg_cost p = Some c \<longleftrightarrow> (\<exists>x. p = Some x \<and> c = x + fee x)"
  by (auto simp: leg_cost_def)

lemma qualify_flipD:
  assumes "(src, C, ev, legs) \<in> set (qualify_flip params st ht lt)"
  shows "src = SUB_DOLLAR_FLIP" "C = pair_cost legs" "C < pp_sub_dollar_C_max params"
    "\<exists>h l. legs = [h, l] \<and> leg_matches (w_high_ticker st) ht SIDE_NO h \<and>
       leg_matches (w_low_ticker st) lt SIDE_YES l"
  using assms
  by (auto simp: qualify_flip_def flip_cost_def leg_cost_Some leg_matches_def
      split: option.splits if_splits)

lemma qualify_strangleD:
  assumes "(src, C, ev, legs) \<in> set (qualify_strangle params st ht lt)"
  shows "src = Q1_STRANGLE" "C = pair_cost legs" "strangle_active params st"
    "pp_q1_strangle_ev_min params \<le> w_fair_strangle_q st - C"
    "\<exists>h l. legs = [h, l] \<and> leg_matches (w_high_ticker st) ht SIDE_YES h \<and>
       leg_matches (w_low_ticker st) lt SIDE_NO l"
  using assms
  by (auto simp: qualify_strangle_def strangle_cost_def leg_cost_Some leg_matches_def Let_def
      split: option.splits if_splits)

text \<open>The ways a step can go.\<close>

lemma decide_elim:
  obtains (other) "fold_leg state event = None" "decide params state event = (state, [])"
  | (quiet) st where "fold_leg state event = Some st" "decide params state event = (st, [])"
  | (stand) st where "fold_leg state event = Some st" "\<not> w_entered st" "\<not> w_standdown_emitted st"
      "of_int (w_T st) - sig_ts event < of_int (pp_no_orders_after_s params)"
      "decide params state event = (st\<lparr>w_standdown_emitted := True\<rparr>,
         [stand_down_action (of_int (w_T st) - sig_ts event) (pp_no_orders_after_s params)])"
  | (fire) st ht lt source C ev legs where "fold_leg state event = Some st" "\<not> w_entered st"
      "of_int (pp_no_orders_after_s params) \<le> of_int (w_T st) - sig_ts event"
      "of_int (w_T st) - sig_ts event \<le> of_int WINDOW_S"
      "both_fresh st (sig_ts event) params" "w_high_top st = Some ht" "w_low_top st = Some lt"
      "(source, C, ev, legs) \<in> set (qualify_flip params st ht lt) \<union> set (qualify_strangle params st ht lt)"
      "decide params state event =
         (st\<lparr>w_entered := True, w_fired_source := Some source\<rparr>,
          [\<lparr>sa_kind = (if w_shakedown st then Would_Fire else Fire), sa_source = Some source,
            sa_legs = legs, sa_count = 1, sa_C = Some C, sa_ev = ev,
            sa_t_minus = Some (of_int (w_T st) - sig_ts event), sa_reason = None\<rparr>])"
proof (cases "fold_leg state event")
  case None
  then show thesis by (intro other) (simp_all add: decide_def)
next
  case (Some st)
  let ?t = "of_int (w_T st) - sig_ts event"
  note fold = Some
  consider "w_entered st" | "\<not> w_entered st" "?t < of_int (pp_no_orders_after_s params)"
    | "\<not> w_entered st" "\<not> ?t < of_int (pp_no_orders_after_s params)" by blast
  then show thesis
  proof cases
    case 1
    with fold show thesis by (intro quiet) (simp_all add: decide_def)
  next
    case 2
    show thesis
    proof (cases "w_standdown_emitted st")
      case True
      with fold 2 show thesis by (intro quiet) (simp_all add: decide_def)
    next
      case False
      with fold 2 show thesis by (intro stand) (simp_all add: decide_def)
    qed
  next
    case 3
    show thesis
    proof (cases "of_int WINDOW_S < ?t \<or> \<not> both_fresh st (sig_ts event) params")
      case True
      with fold 3 show thesis by (intro quiet) (auto simp: decide_def Let_def)
    next
      case False
      then obtain ht lt where tops: "w_high_top st = Some ht" "w_low_top st = Some lt"
        by (auto simp: both_fresh_def split: option.splits)
      have dec: "decide params state event = fire_step params st ?t"
        using fold 3 False by (simp add: decide_def)
      show thesis
      proof (cases "qualify_flip params st ht lt @ qualify_strangle params st ht lt")
        case Nil
        then show thesis
          by (intro quiet [OF fold]) (simp add: dec fire_step_def tops)
      next
        case (Cons q qs)
        obtain source C ev legs where q: "q = (source, C, ev, legs)" by (rule prod_cases4)
        have "q \<in> set (qualify_flip params st ht lt @ qualify_strangle params st ht lt)"
          by (simp add: Cons)
        then have "(source, C, ev, legs) \<in>
            set (qualify_flip params st ht lt) \<union> set (qualify_strangle params st ht lt)"
          by (simp only: q set_append)
        then show thesis
          using False 3
          by (intro fire [OF fold _ _ _ _ tops, of source C ev legs])
            (simp_all add: q dec fire_step_def tops Cons del: append_eq_Cons_conv)
      qed
    qed
  qed
qed

lemma fold_leg_frame:
  assumes "fold_leg state event = Some st"
  shows "w_entered st = w_entered state" "w_fired_source st = w_fired_source state"
    "w_standdown_emitted st = w_standdown_emitted state" "w_shakedown st = w_shakedown state"
    "w_T st = w_T state"
  using assms by (auto simp: fold_leg_def split: sig_event.splits if_splits)

lemma decide_fireD:
  assumes "a \<in> set (snd (decide params state event))" and "is_fire a"
  obtains st where "fold_leg state event = Some st" "\<not> w_entered state"
    "fire_ok params st (sig_ts event) a"
    "sa_kind a = (if w_shakedown state then Would_Fire else Fire)"
    "fst (decide params state event) = st\<lparr>w_entered := True, w_fired_source := sa_source a\<rparr>"
proof (cases rule: decide_elim [where state = state and event = event and params = params])
  case (fire st ht lt source C ev legs)
  note fr = fold_leg_frame [OF fire(1)]
  have a: "a = \<lparr>sa_kind = (if w_shakedown st then Would_Fire else Fire), sa_source = Some source,
      sa_legs = legs, sa_count = 1, sa_C = Some C, sa_ev = ev,
      sa_t_minus = Some (of_int (w_T st) - sig_ts event), sa_reason = None\<rparr>"
    using assms(1) by (simp add: fire(9))
  from fire(8) have "fire_ok params st (sig_ts event) a"
  proof
    assume q: "(source, C, ev, legs) \<in> set (qualify_flip params st ht lt)"
    from qualify_flipD [OF q] fire(3-7) show ?thesis by (auto simp: fire_ok_def a)
  next
    assume q: "(source, C, ev, legs) \<in> set (qualify_strangle params st ht lt)"
    from qualify_strangleD [OF q] fire(3-7) show ?thesis by (auto simp: fire_ok_def a)
  qed
  with fire(1,2,9) fr show thesis by (intro that) (simp_all add: a)
qed (use assms in \<open>auto simp: is_fire_def stand_down_action_def\<close>)

definition entered_ok :: "window_state \<Rightarrow> bool" where
  "entered_ok st \<longleftrightarrow> (w_entered st \<longleftrightarrow> w_fired_source st \<noteq> None)"

lemma decide_facts:
  assumes "entered_ok st"
  shows "entered_ok (fst (decide params st e))"
    and "w_entered st \<Longrightarrow> w_entered (fst (decide params st e)) \<and> snd (decide params st e) = []"
    and "w_standdown_emitted st \<Longrightarrow> w_standdown_emitted (fst (decide params st e)) \<and>
      (\<forall>a \<in> set (snd (decide params st e)). \<not> is_stand_down a)"
    and "\<exists>a \<in> set (snd (decide params st e)). is_stand_down a \<Longrightarrow>
      w_standdown_emitted (fst (decide params st e))"
    and "\<exists>a \<in> set (snd (decide params st e)). is_fire a \<Longrightarrow> w_entered (fst (decide params st e))"
    and "length (snd (decide params st e)) \<le> Suc 0"
  using assms
  by (cases rule: decide_elim [where state = st and event = e and params = params];
      auto dest: fold_leg_frame simp: entered_ok_def is_stand_down_def is_fire_def stand_down_action_def;
      fail)+

lemma length_filter_le1: "length xs \<le> Suc 0 \<Longrightarrow> length (filter P xs) \<le> Suc 0"
  using length_filter_le [of P xs] by linarith

interpretation window_fires: one_shot_core "decide params" entered_ok is_fire w_entered for params
  by unfold_locales (simp_all add: decide_facts length_filter_le1)

interpretation window_stand_down: one_shot_core "decide params" entered_ok is_stand_down
  w_standdown_emitted for params
  by unfold_locales (simp_all add: decide_facts length_filter_le1)

text \<open>A fire of a run: the step that emitted it, and what that step guarantees of it.\<close>

definition fire_guard ::
  "policy_params \<Rightarrow> window_state \<Rightarrow> sig_event \<Rightarrow> window_state \<Rightarrow> sig_action \<Rightarrow> bool" where
  "fire_guard params s e s' a \<longleftrightarrow>
     \<not> is_fire a \<or>
     (\<not> w_entered s \<and> w_entered s' \<and> w_fired_source s' = sa_source a \<and>
      sa_kind a = (if w_shakedown s then Would_Fire else Fire) \<and>
      (case fold_leg s e of None \<Rightarrow> False | Some st \<Rightarrow> fire_ok params st (sig_ts e) a))"

lemma decide_fire_guard:
  assumes "a \<in> set (snd (decide params s e))"
  shows "fire_guard params s e (fst (decide params s e)) a"
proof (cases "is_fire a")
  case True
  from decide_fireD [OF assms True] show ?thesis by cases (simp add: fire_guard_def)
qed (simp add: fire_guard_def)

interpretation window_guard: guarded_core "decide params" entered_ok "fire_guard params" for params
  by unfold_locales (rule decide_fire_guard)

end
