(* ===== verification/Box.thy ===== *)
theory Box
  imports Signal
begin

text \<open>
  The wide box, \<open>pilot/service/box.py\<close>: the pure selection of the pair of deep in-the-money
  legs, the window state with its cached selection view, the decision \<open>decide_box\<close> with its
  implied-pin floor (skip, then one paper rescan), and the roster loader. Events and actions are
  those of the window signal.
\<close>

section \<open>The roster\<close>

record box_params =
  bp_roster_name :: json
  bp_target_mid :: money
  bp_hourly_ask_min :: money
  bp_hourly_ask_max :: money
  bp_min15_ask :: money
  bp_max_spread :: money
  bp_limit_margin :: money
  bp_entry_start_s :: int
  bp_entry_end_s :: int
  bp_freshness_max_leg_age_s :: time
  bp_no_orders_after_s :: int
  bp_contracts :: int
  bp_pair_cost_max :: money
  bp_min_implied_pin :: money
  bp_sha256 :: string

definition load_box_policy ::
  "string \<Rightarrow> (string \<times> json) list \<Rightarrow> string option \<Rightarrow> params_error + box_params" where
  "load_box_policy sha raw expected =
     (if sha_refused sha expected then Inl (ShaMismatch sha) else
      bind_r (need to_decimal raw ''target_mid'') (\<lambda>tm.
      bind_r (need to_decimal raw ''hourly_ask_min'') (\<lambda>hmin.
      bind_r (need to_decimal raw ''hourly_ask_max'') (\<lambda>hmax.
      bind_r (need to_decimal raw ''min15_ask'') (\<lambda>m15.
      bind_r (need to_decimal raw ''max_spread'') (\<lambda>spr.
      bind_r (need to_decimal raw ''limit_margin'') (\<lambda>mrg.
      bind_r (need json_int raw ''entry_start_s'') (\<lambda>es.
      bind_r (need json_int raw ''entry_end_s'') (\<lambda>ee.
      bind_r (need json_float raw ''freshness_max_leg_age_s'') (\<lambda>fr.
      bind_r (need json_int raw ''no_orders_after_s_to_settle'') (\<lambda>no.
      bind_r (need json_int raw ''contracts'') (\<lambda>con.
      bind_r (need to_decimal raw ''pair_cost_max'') (\<lambda>pcm.
      bind_r (need to_decimal raw ''min_implied_pin'') (\<lambda>mip.
      Inr \<lparr>bp_roster_name = (case map_of raw ''roster_name'' of Some v \<Rightarrow> v | None \<Rightarrow> JStr []),
           bp_target_mid = tm, bp_hourly_ask_min = hmin, bp_hourly_ask_max = hmax,
           bp_min15_ask = m15, bp_max_spread = spr, bp_limit_margin = mrg,
           bp_entry_start_s = es, bp_entry_end_s = ee, bp_freshness_max_leg_age_s = fr,
           bp_no_orders_after_s = no, bp_contracts = con, bp_pair_cost_max = pcm,
           bp_min_implied_pin = mip, bp_sha256 = sha\<rparr>))))))))))))))"

section \<open>Selection\<close>

definition WIDE_BOX :: string where
  "WIDE_BOX = ''wide-box''"

definition box_limit_ceiling :: money where
  "box_limit_ceiling = 99/100"

record box_selection =
  bs_hourly_ticker :: ticker
  bs_hourly_side :: string
  bs_hourly_ask :: money
  bs_hourly_bid :: money
  bs_hourly_mid :: money
  bs_hourly_limit :: money
  bs_m15_ticker :: ticker
  bs_m15_side :: string
  bs_m15_ask :: money
  bs_m15_bid :: money
  bs_m15_limit :: money
  bs_strike_K :: money
  bs_anchor_A :: money
  bs_C :: money
  bs_C_mid :: money
  bs_implied_pin :: money

record box_cand =
  bc_ticker :: ticker
  bc_K :: money
  bc_ask :: money
  bc_bid :: money
  bc_mid :: money

definition mid_of :: "money \<Rightarrow> money \<Rightarrow> money" where
  "mid_of ask bid = (ask + bid) / 2"

definition box_leg_cost :: "money \<Rightarrow> money" where
  "box_leg_cost price = price + fee price"

text \<open>One ladder entry as a candidate: both quotes, the spread, and the right side of the anchor.\<close>

definition box_candidate ::
  "box_params \<Rightarrow> bool \<Rightarrow> money \<Rightarrow> ticker \<times> money \<times> top_of_book \<Rightarrow> box_cand option" where
  "box_candidate params below A entry =
     (case entry of (tk, K, tb) \<Rightarrow>
        (case (yes_ask tb, yes_bid tb) of
           (Some hya, Some hyb) \<Rightarrow>
             if bp_max_spread params < hya - hyb then None
             else if below then
               (if A \<le> K then None
                else Some \<lparr>bc_ticker = tk, bc_K = K, bc_ask = hya, bc_bid = hyb, bc_mid = mid_of hya hyb\<rparr>)
             else
               (if K \<le> A then None
                else Some \<lparr>bc_ticker = tk, bc_K = K, bc_ask = 1 - hyb, bc_bid = 1 - hya,
                           bc_mid = 1 - mid_of hya hyb\<rparr>)
         | _ \<Rightarrow> None))"

text \<open>The selection key, and Python's \<open>min\<close>: the first candidate with the least key.\<close>

definition key_less :: "box_params \<Rightarrow> money \<Rightarrow> box_cand \<Rightarrow> box_cand \<Rightarrow> bool" where
  "key_less params A c d \<longleftrightarrow>
     (let kc = \<bar>bc_mid c - bp_target_mid params\<bar>; kd = \<bar>bc_mid d - bp_target_mid params\<bar> in
      kc < kd \<or> (kc = kd \<and> - \<bar>bc_K c - A\<bar> < - \<bar>bc_K d - A\<bar>))"

fun min_cand :: "box_params \<Rightarrow> money \<Rightarrow> box_cand \<Rightarrow> box_cand list \<Rightarrow> box_cand" where
  "min_cand params A best [] = best"
| "min_cand params A best (c # cs) =
     min_cand params A (if key_less params A c best then c else best) cs"

text \<open>The hourly ask filter and the selection built from the chosen candidate.\<close>

definition make_selection ::
  "box_params \<Rightarrow> money \<Rightarrow> ticker \<Rightarrow> bool \<Rightarrow> money \<Rightarrow> money \<Rightarrow> box_cand \<Rightarrow> string + box_selection" where
  "make_selection params A m15_ticker below m15_ask m15_bid c =
     (if \<not> (bp_hourly_ask_min params \<le> bc_ask c \<and> bc_ask c \<le> bp_hourly_ask_max params)
      then Inl ''hourly ask outside [hourly_ask_min, hourly_ask_max]''
      else
        (let C = box_leg_cost (bc_ask c) + box_leg_cost m15_ask;
             C_mid = bc_mid c + mid_of m15_ask m15_bid in
         Inr \<lparr>bs_hourly_ticker = bc_ticker c,
              bs_hourly_side = (if below then SIDE_YES else SIDE_NO),
              bs_hourly_ask = bc_ask c, bs_hourly_bid = bc_bid c, bs_hourly_mid = bc_mid c,
              bs_hourly_limit = min (bc_ask c + bp_limit_margin params) box_limit_ceiling,
              bs_m15_ticker = m15_ticker, bs_m15_side = (if below then SIDE_NO else SIDE_YES),
              bs_m15_ask = m15_ask, bs_m15_bid = m15_bid,
              bs_m15_limit = min (m15_ask + bp_limit_margin params) box_limit_ceiling,
              bs_strike_K = bc_K c, bs_anchor_A = A, bs_C = C, bs_C_mid = C_mid,
              bs_implied_pin = C_mid - 1\<rparr>))"

definition select_box ::
  "money \<Rightarrow> ticker \<Rightarrow> top_of_book \<Rightarrow> (ticker, money \<times> top_of_book) dict \<Rightarrow> box_params \<Rightarrow>
     string + box_selection" where
  "select_box A m15_ticker m15_top ladder params =
     (case (yes_ask m15_top, yes_bid m15_top) of
        (Some ya, Some yb) \<Rightarrow>
          if bp_max_spread params < ya - yb then Inl ''15M spread > max_spread''
          else
            (let below = (mid_of ya yb < 1/2);
                 m15_ask = (if below then 1 - yb else ya);
                 m15_bid = (if below then 1 - ya else yb) in
             if m15_ask < bp_min15_ask params then Inl ''15M ask < min15_ask''
             else (case List.map_filter (box_candidate params below A) ladder of
                     [] \<Rightarrow> Inl ''no qualifying hourly candidate''
                   | c0 # cs \<Rightarrow>
                       make_selection params A m15_ticker below m15_ask m15_bid
                         (min_cand params A c0 cs)))
      | _ \<Rightarrow> Inl ''15M missing bid/ask'')"

section \<open>Window state\<close>

record box_state =
  x_close_time :: string
  x_T :: int
  x_anchor_A :: money
  x_m15_ticker :: ticker
  x_strikes :: "(ticker, money) dict"
  x_tops :: "(ticker, top_of_book) dict"
  x_ts :: "(ticker, time) dict"
  x_shakedown :: bool
  x_entered :: bool
  x_fired_selection :: "box_selection option"
  x_standdown_emitted :: bool
  x_skipped :: bool
  x_skipped_selection :: "box_selection option"
  x_rescan_emitted :: bool
  x_rescan_selection :: "box_selection option"
  x_view :: "(string + box_selection) option"

definition new_box_state ::
  "string \<Rightarrow> int \<Rightarrow> money \<Rightarrow> ticker \<Rightarrow> (ticker, money) dict \<Rightarrow> bool \<Rightarrow> box_state" where
  "new_box_state close_time T A m15_ticker strikes shakedown =
     \<lparr>x_close_time = close_time, x_T = T, x_anchor_A = A, x_m15_ticker = m15_ticker,
      x_strikes = strikes, x_tops = [], x_ts = [], x_shakedown = shakedown, x_entered = False,
      x_fired_selection = None, x_standdown_emitted = False, x_skipped = False,
      x_skipped_selection = None, x_rescan_emitted = False, x_rescan_selection = None,
      x_view = None\<rparr>"

definition box_leg_fresh :: "box_state \<Rightarrow> ticker \<Rightarrow> time \<Rightarrow> box_params \<Rightarrow> bool" where
  "box_leg_fresh st tk now params =
     (case map_of (x_tops st) tk of
        None \<Rightarrow> False
      | Some tb \<Rightarrow>
          if suspect tb then False
          else (case map_of (x_ts st) tk of
                  None \<Rightarrow> False
                | Some last_ts \<Rightarrow>
                    if now - last_ts < 0 then False
                    else now - last_ts \<le> bp_freshness_max_leg_age_s params))"

definition box_ladder :: "box_state \<Rightarrow> (ticker, money \<times> top_of_book) dict" where
  "box_ladder st =
     List.map_filter (\<lambda>(tk, K). map_option (\<lambda>tb. (tk, K, tb)) (map_of (x_tops st) tk)) (x_strikes st)"

definition view_of :: "box_params \<Rightarrow> box_state \<Rightarrow> (string + box_selection) option" where
  "view_of params st =
     (case map_of (x_tops st) (x_m15_ticker st) of
        None \<Rightarrow> None
      | Some m15_top \<Rightarrow>
          Some (select_box (x_anchor_A st) (x_m15_ticker st) m15_top (box_ladder st) params))"

section \<open>The decision\<close>

definition fold_box :: "box_params \<Rightarrow> box_state \<Rightarrow> sig_event \<Rightarrow> box_state option" where
  "fold_box params st event =
     (case event of
        SBook market tb now \<Rightarrow>
          if market = x_m15_ticker st \<or> market \<in> set (dict_keys (x_strikes st)) then
            (let st1 = st\<lparr>x_tops := AList.update market tb (x_tops st),
                          x_ts := AList.update market now (x_ts st)\<rparr>
             in Some (st1\<lparr>x_view := view_of params st1\<rparr>))
          else None
      | STick _ \<Rightarrow> Some st)"

definition box_legs :: "box_params \<Rightarrow> box_selection \<Rightarrow> pair_leg list" where
  "box_legs params sel =
     [\<lparr>pl_ticker = bs_hourly_ticker sel, pl_side = bs_hourly_side sel,
       pl_count = bp_contracts params, pl_limit = bs_hourly_limit sel\<rparr>,
      \<lparr>pl_ticker = bs_m15_ticker sel, pl_side = bs_m15_side sel,
       pl_count = bp_contracts params, pl_limit = bs_m15_limit sel\<rparr>]"

definition box_action ::
  "box_params \<Rightarrow> sig_kind \<Rightarrow> box_selection \<Rightarrow> time \<Rightarrow> sig_reason option \<Rightarrow> sig_action" where
  "box_action params kind sel t_minus reason =
     \<lparr>sa_kind = kind, sa_source = Some WIDE_BOX, sa_legs = box_legs params sel,
      sa_count = bp_contracts params, sa_C = Some (bs_C sel), sa_ev = None,
      sa_t_minus = Some t_minus, sa_reason = reason\<rparr>"

definition in_entry :: "box_params \<Rightarrow> time \<Rightarrow> bool" where
  "in_entry params t_minus \<longleftrightarrow>
     of_int (bp_entry_end_s params) \<le> t_minus \<and> t_minus \<le> of_int (bp_entry_start_s params)"

definition sel_fresh :: "box_params \<Rightarrow> box_state \<Rightarrow> box_selection \<Rightarrow> time \<Rightarrow> bool" where
  "sel_fresh params st sel now \<longleftrightarrow>
     box_leg_fresh st (bs_m15_ticker sel) now params \<and>
     box_leg_fresh st (bs_hourly_ticker sel) now params"

definition box_rescan ::
  "box_params \<Rightarrow> box_state \<Rightarrow> time \<Rightarrow> time \<Rightarrow> box_state \<times> sig_action list" where
  "box_rescan params st now t_minus =
     (if \<not> in_entry params t_minus then (st, [])
      else (case x_view st of
              Some (Inr rsel) \<Rightarrow>
                if bs_implied_pin rsel < bp_min_implied_pin params then (st, [])
                else if \<not> sel_fresh params st rsel now then (st, [])
                else (st\<lparr>x_rescan_emitted := True, x_rescan_selection := Some rsel\<rparr>,
                      [box_action params Box_Rescan_Would_Fire rsel t_minus
                         (Some (Rescan_Requalified (bs_implied_pin rsel) (bp_min_implied_pin params)))])
            | _ \<Rightarrow> (st, [])))"

definition box_enter ::
  "box_params \<Rightarrow> box_state \<Rightarrow> time \<Rightarrow> time \<Rightarrow> box_state \<times> sig_action list" where
  "box_enter params st now t_minus =
     (case x_view st of
        Some (Inr sel) \<Rightarrow>
          if \<not> sel_fresh params st sel now then (st, [])
          else if bs_implied_pin sel < bp_min_implied_pin params then
            (st\<lparr>x_entered := True, x_skipped := True, x_skipped_selection := Some sel\<rparr>,
             [box_action params Box_Skip sel t_minus
                (Some (Implied_Pin_Floor (bs_implied_pin sel) (bp_min_implied_pin params)))])
          else
            (st\<lparr>x_entered := True, x_fired_selection := Some sel\<rparr>,
             [box_action params (if x_shakedown st then Would_Fire else Fire) sel t_minus None])
      | _ \<Rightarrow> (st, []))"

definition decide_box ::
  "box_params \<Rightarrow> box_state \<Rightarrow> sig_event \<Rightarrow> box_state \<times> sig_action list" where
  "decide_box params state event =
     (let now = sig_ts event in
      case fold_box params state event of
        None \<Rightarrow> (state, [])
      | Some st \<Rightarrow>
          (let t_minus = of_int (x_T st) - now in
           if x_skipped st \<and> \<not> x_rescan_emitted st then box_rescan params st now t_minus
           else if x_entered st then (st, [])
           else if t_minus < of_int (bp_no_orders_after_s params) then
             (if \<not> x_standdown_emitted st
              then (st\<lparr>x_standdown_emitted := True\<rparr>,
                    [stand_down_action t_minus (bp_no_orders_after_s params)])
              else (st, []))
           else if \<not> in_entry params t_minus then (st, [])
           else box_enter params st now t_minus))"

section \<open>What the selection guarantees\<close>

lemma set_map_filter_iff: "y \<in> set (List.map_filter f xs) \<longleftrightarrow> (\<exists>x \<in> set xs. f x = Some y)"
  by (induction xs) (auto simp: List.map_filter_simps split: option.splits)

lemma key_less_irrefl: "\<not> key_less params A c c"
  by (simp add: key_less_def)

lemma lex_ge_trans:
  fixes a b c :: rat
  shows "\<not> (a < b \<or> a = b \<and> a' < b') \<Longrightarrow> \<not> (b < c \<or> b = c \<and> b' < c') \<Longrightarrow>
    \<not> (a < c \<or> a = c \<and> a' < (c' :: rat))"
  by auto

lemma key_ge_trans:
  "\<not> key_less params A c d \<Longrightarrow> \<not> key_less params A d e \<Longrightarrow> \<not> key_less params A c e"
  unfolding key_less_def Let_def by (rule lex_ge_trans)

lemma key_less_asym: "key_less params A c d \<Longrightarrow> \<not> key_less params A d c"
  by (auto simp: key_less_def Let_def)

lemma min_cand_mem: "min_cand params A c cs \<in> insert c (set cs)"
proof (induction cs arbitrary: c)
  case (Cons x xs)
  from Cons.IH [of x] Cons.IH [of c] show ?case by (simp del: insert_iff) blast
qed simp

lemma min_cand_least: "d \<in> insert c (set cs) \<Longrightarrow> \<not> key_less params A d (min_cand params A c cs)"
proof (induction cs arbitrary: c d)
  case (Cons x xs)
  define b where "b = (if key_less params A x c then x else c)"
  have le: "\<not> key_less params A e b" if "e = x \<or> e = c" for e
    using that key_less_irrefl key_less_asym by (auto simp: b_def)
  have "\<not> key_less params A b (min_cand params A b xs)" by (rule Cons.IH) simp
  with le key_ge_trans have "\<not> key_less params A e (min_cand params A b xs)" if "e = x \<or> e = c" for e
    using that by blast
  moreover have "\<not> key_less params A e (min_cand params A b xs)" if "e \<in> set xs" for e
    by (rule Cons.IH) (simp add: that)
  moreover have "min_cand params A c (x # xs) = min_cand params A b xs" by (simp add: b_def)
  ultimately show ?case using Cons.prems by auto
qed (simp add: key_less_irrefl)

text \<open>
  A selection picks a ladder entry on the in-the-money side of the anchor whose key is least
  among the candidates, with both asks inside their bounds and the cost of the observed asks.
\<close>

definition box_candidates ::
  "box_params \<Rightarrow> money \<Rightarrow> top_of_book \<Rightarrow> (ticker, money \<times> top_of_book) dict \<Rightarrow> box_cand list" where
  "box_candidates params A m15_top ladder =
     (case (yes_ask m15_top, yes_bid m15_top) of
        (Some ya, Some yb) \<Rightarrow> List.map_filter (box_candidate params (mid_of ya yb < 1/2) A) ladder
      | _ \<Rightarrow> [])"

definition selection_ok ::
  "box_params \<Rightarrow> money \<Rightarrow> top_of_book \<Rightarrow> (ticker, money \<times> top_of_book) dict \<Rightarrow> box_selection \<Rightarrow> bool" where
  "selection_ok params A m15_top ladder sel \<longleftrightarrow>
     (\<exists>c \<in> set (box_candidates params A m15_top ladder).
        bc_ticker c = bs_hourly_ticker sel \<and> bc_K c = bs_strike_K sel \<and>
        bc_ask c = bs_hourly_ask sel \<and> bc_bid c = bs_hourly_bid sel \<and> bc_mid c = bs_hourly_mid sel \<and>
        (\<forall>d \<in> set (box_candidates params A m15_top ladder). \<not> key_less params A d c)) \<and>
     (bs_hourly_side sel = SIDE_YES \<and> bs_m15_side sel = SIDE_NO \<and> bs_strike_K sel < A \<or>
      bs_hourly_side sel = SIDE_NO \<and> bs_m15_side sel = SIDE_YES \<and> A < bs_strike_K sel) \<and>
     bp_hourly_ask_min params \<le> bs_hourly_ask sel \<and> bs_hourly_ask sel \<le> bp_hourly_ask_max params \<and>
     bp_min15_ask params \<le> bs_m15_ask sel \<and>
     bs_hourly_ask sel - bs_hourly_bid sel \<le> bp_max_spread params \<and>
     bs_m15_ask sel - bs_m15_bid sel \<le> bp_max_spread params \<and>
     bs_C sel = bs_hourly_ask sel + fee (bs_hourly_ask sel) + (bs_m15_ask sel + fee (bs_m15_ask sel)) \<and>
     bs_hourly_limit sel \<le> 99/100 \<and> bs_m15_limit sel \<le> 99/100 \<and>
     bs_implied_pin sel = bs_hourly_mid sel + (bs_m15_ask sel + bs_m15_bid sel) / 2 - 1"

lemma box_candidate_SomeD:
  assumes "box_candidate params below A e = Some c"
  shows "bc_ask c - bc_bid c \<le> bp_max_spread params" "if below then bc_K c < A else A < bc_K c"
    "bc_mid c = (bc_ask c + bc_bid c) / 2"
  using assms
  by (auto simp: box_candidate_def mid_of_def field_simps split: prod.splits option.splits if_splits)

lemma select_box_InrD:
  assumes "select_box A m15_ticker m15_top ladder params = Inr sel"
  obtains ya yb below m15_ask m15_bid c0 cs where
    "yes_ask m15_top = Some ya" "yes_bid m15_top = Some yb" "ya - yb \<le> bp_max_spread params"
    "below \<longleftrightarrow> mid_of ya yb < 1/2" "m15_ask = (if below then 1 - yb else ya)"
    "m15_bid = (if below then 1 - ya else yb)" "bp_min15_ask params \<le> m15_ask"
    "List.map_filter (box_candidate params below A) ladder = c0 # cs"
    "make_selection params A m15_ticker below m15_ask m15_bid (min_cand params A c0 cs) = Inr sel"
proof -
  from assms obtain ya yb where q: "yes_ask m15_top = Some ya" "yes_bid m15_top = Some yb"
    by (simp add: select_box_def split: option.splits)
  define below where "below \<longleftrightarrow> mid_of ya yb < 1/2"
  define m15_ask where "m15_ask = (if below then 1 - yb else ya)"
  define m15_bid where "m15_bid = (if below then 1 - ya else yb)"
  have eq: "select_box A m15_ticker m15_top ladder params =
      (if bp_max_spread params < ya - yb then Inl ''15M spread > max_spread''
       else if m15_ask < bp_min15_ask params then Inl ''15M ask < min15_ask''
       else (case List.map_filter (box_candidate params below A) ladder of
               [] \<Rightarrow> Inl ''no qualifying hourly candidate''
             | c0 # cs \<Rightarrow>
                 make_selection params A m15_ticker below m15_ask m15_bid (min_cand params A c0 cs)))"
    unfolding select_box_def q Let_def m15_ask_def m15_bid_def below_def option.case prod.case
    by (rule refl)
  from assms have "ya - yb \<le> bp_max_spread params" "bp_min15_ask params \<le> m15_ask"
    by (simp_all add: eq not_less split: if_splits)
  moreover from assms obtain c0 cs where
    "List.map_filter (box_candidate params below A) ladder = c0 # cs"
    "make_selection params A m15_ticker below m15_ask m15_bid (min_cand params A c0 cs) = Inr sel"
    by (auto simp: eq split: if_splits list.splits)
  ultimately show thesis
    using q below_def m15_ask_def m15_bid_def by (intro that) auto
qed

lemma select_box_ok:
  assumes "select_box A m15_ticker m15_top ladder params = Inr sel"
  shows "selection_ok params A m15_top ladder sel"
proof -
  from assms obtain ya yb below m15_ask m15_bid c0 cs where
    q: "yes_ask m15_top = Some ya" "yes_bid m15_top = Some yb" "ya - yb \<le> bp_max_spread params"
    and below: "below \<longleftrightarrow> mid_of ya yb < 1/2"
    and m15: "m15_ask = (if below then 1 - yb else ya)" "m15_bid = (if below then 1 - ya else yb)"
      "bp_min15_ask params \<le> m15_ask"
    and c0: "List.map_filter (box_candidate params below A) ladder = c0 # cs"
    and made: "make_selection params A m15_ticker below m15_ask m15_bid (min_cand params A c0 cs) = Inr sel"
    by (rule select_box_InrD)
  define c where "c = min_cand params A c0 cs"
  have cands: "box_candidates params A m15_top ladder = c0 # cs"
    using c0 below by (simp add: box_candidates_def q)
  have cin: "c \<in> set (box_candidates params A m15_top ladder)"
    using min_cand_mem [of params A c0 cs] by (simp add: cands c_def)
  have least: "\<forall>d \<in> set (box_candidates params A m15_top ladder). \<not> key_less params A d c"
    using min_cand_least by (auto simp: cands c_def)
  have "c \<in> set (List.map_filter (box_candidate params below A) ladder)" using cin cands c0 by simp
  then obtain e where "box_candidate params below A e = Some c" by (auto simp: set_map_filter_iff)
  note cand = box_candidate_SomeD [OF this]
  have spread: "m15_ask - m15_bid \<le> bp_max_spread params" using q(3) m15 by simp
  from made have range: "bp_hourly_ask_min params \<le> bc_ask c" "bc_ask c \<le> bp_hourly_ask_max params"
    by (simp_all add: make_selection_def c_def split: if_splits)
  have sel: "sel = \<lparr>bs_hourly_ticker = bc_ticker c,
        bs_hourly_side = (if below then SIDE_YES else SIDE_NO),
        bs_hourly_ask = bc_ask c, bs_hourly_bid = bc_bid c, bs_hourly_mid = bc_mid c,
        bs_hourly_limit = min (bc_ask c + bp_limit_margin params) box_limit_ceiling,
        bs_m15_ticker = m15_ticker, bs_m15_side = (if below then SIDE_NO else SIDE_YES),
        bs_m15_ask = m15_ask, bs_m15_bid = m15_bid,
        bs_m15_limit = min (m15_ask + bp_limit_margin params) box_limit_ceiling,
        bs_strike_K = bc_K c, bs_anchor_A = A,
        bs_C = box_leg_cost (bc_ask c) + box_leg_cost m15_ask,
        bs_C_mid = bc_mid c + mid_of m15_ask m15_bid,
        bs_implied_pin = bc_mid c + mid_of m15_ask m15_bid - 1\<rparr>"
    using made range by (simp add: make_selection_def c_def [symmetric] Let_def)
  show ?thesis
    unfolding selection_ok_def
    using least range m15(3) spread cand
    by (intro conjI bexI [OF _ cin])
      (simp_all add: sel box_leg_cost_def min.coboundedI2 box_limit_ceiling_def [symmetric] mid_of_def
        split: if_splits)
qed

section \<open>What a step guarantees\<close>

definition box_inv :: "box_params \<Rightarrow> box_state \<Rightarrow> bool" where
  "box_inv params st \<longleftrightarrow>
     x_view st = view_of params st \<and>
     (x_entered st \<longleftrightarrow> x_fired_selection st \<noteq> None \<or> x_skipped st) \<and>
     (x_skipped st \<longleftrightarrow> x_skipped_selection st \<noteq> None) \<and>
     (x_rescan_emitted st \<longleftrightarrow> x_rescan_selection st \<noteq> None) \<and>
     (x_rescan_emitted st \<longrightarrow> x_skipped st) \<and>
     (x_skipped st \<longrightarrow> x_fired_selection st = None) \<and>
     (\<forall>sel. x_fired_selection st = Some sel \<longrightarrow> bp_min_implied_pin params \<le> bs_implied_pin sel) \<and>
     (\<forall>sel. x_skipped_selection st = Some sel \<longrightarrow> bs_implied_pin sel < bp_min_implied_pin params)"

lemma view_of_cong:
  assumes "x_tops st' = x_tops st" "x_m15_ticker st' = x_m15_ticker st"
    "x_strikes st' = x_strikes st" "x_anchor_A st' = x_anchor_A st"
  shows "view_of params st' = view_of params st"
  unfolding view_of_def box_ladder_def assms by (rule refl)

lemma box_inv_new: "box_inv params (new_box_state ct T A m15 strikes sh)"
  by (simp add: box_inv_def new_box_state_def view_of_def)

lemma fold_box_frame:
  assumes "fold_box params state event = Some st"
  shows "x_entered st = x_entered state" "x_fired_selection st = x_fired_selection state"
    "x_standdown_emitted st = x_standdown_emitted state" "x_shakedown st = x_shakedown state"
    "x_T st = x_T state" "x_skipped st = x_skipped state"
    "x_skipped_selection st = x_skipped_selection state"
    "x_rescan_emitted st = x_rescan_emitted state"
    "x_rescan_selection st = x_rescan_selection state"
  using assms by (auto simp: fold_box_def Let_def split: sig_event.splits if_splits)

lemma box_inv_fold:
  assumes "box_inv params state" and "fold_box params state event = Some st"
  shows "box_inv params st"
proof -
  have "x_view st = view_of params st"
  proof (cases event)
    case (SBook market tb t)
    define st1 where "st1 = state\<lparr>x_tops := AList.update market tb (x_tops state),
      x_ts := AList.update market t (x_ts state)\<rparr>"
    have "st = st1\<lparr>x_view := view_of params st1\<rparr>"
      using assms(2) by (simp add: fold_box_def SBook Let_def st1_def split: if_splits)
    then show ?thesis by (simp add: view_of_cong [of "st1\<lparr>x_view := v\<rparr>" st1 for v])
  next
    case (STick t)
    with assms show ?thesis by (simp add: fold_box_def box_inv_def)
  qed
  with assms(1) fold_box_frame [OF assms(2)] show ?thesis unfolding box_inv_def by metis
qed

text \<open>The ways a step can go: nothing, one stand-down, one skip, one fire, one paper rescan.\<close>

definition opens_box :: "sig_action \<Rightarrow> bool" where
  "opens_box a \<longleftrightarrow> is_fire a \<or> sa_kind a = Box_Skip"

definition is_rescan :: "sig_action \<Rightarrow> bool" where
  "is_rescan a \<longleftrightarrow> sa_kind a = Box_Rescan_Would_Fire"

lemma decide_box_elim:
  obtains (other) "decide_box params state event = (state, [])"
  | (quiet) st where "fold_box params state event = Some st"
      "decide_box params state event = (st, [])"
  | (stand) st where "fold_box params state event = Some st" "\<not> x_entered st"
      "\<not> x_standdown_emitted st"
      "decide_box params state event = (st\<lparr>x_standdown_emitted := True\<rparr>,
         [stand_down_action (of_int (x_T st) - sig_ts event) (bp_no_orders_after_s params)])"
  | (rescan) st sel where "fold_box params state event = Some st" "x_skipped st"
      "\<not> x_rescan_emitted st" "x_view st = Some (Inr sel)"
      "in_entry params (of_int (x_T st) - sig_ts event)" "sel_fresh params st sel (sig_ts event)"
      "bp_min_implied_pin params \<le> bs_implied_pin sel"
      "decide_box params state event =
         (st\<lparr>x_rescan_emitted := True, x_rescan_selection := Some sel\<rparr>,
          [box_action params Box_Rescan_Would_Fire sel (of_int (x_T st) - sig_ts event)
             (Some (Rescan_Requalified (bs_implied_pin sel) (bp_min_implied_pin params)))])"
  | (skip) st sel where "fold_box params state event = Some st" "\<not> x_entered st"
      "x_view st = Some (Inr sel)" "bs_implied_pin sel < bp_min_implied_pin params"
      "decide_box params state event =
         (st\<lparr>x_entered := True, x_skipped := True, x_skipped_selection := Some sel\<rparr>,
          [box_action params Box_Skip sel (of_int (x_T st) - sig_ts event)
             (Some (Implied_Pin_Floor (bs_implied_pin sel) (bp_min_implied_pin params)))])"
  | (fire) st sel where "fold_box params state event = Some st" "\<not> x_entered st"
      "of_int (bp_no_orders_after_s params) \<le> of_int (x_T st) - sig_ts event"
      "in_entry params (of_int (x_T st) - sig_ts event)" "x_view st = Some (Inr sel)"
      "sel_fresh params st sel (sig_ts event)" "bp_min_implied_pin params \<le> bs_implied_pin sel"
      "decide_box params state event =
         (st\<lparr>x_entered := True, x_fired_selection := Some sel\<rparr>,
          [box_action params (if x_shakedown st then Would_Fire else Fire) sel
             (of_int (x_T st) - sig_ts event) None])"
proof (cases "fold_box params state event")
  case None
  then show thesis by (intro other) (simp add: decide_box_def)
next
  case (Some st)
  note fold = Some
  let ?t = "of_int (x_T st) - sig_ts event"
  consider (r) "x_skipped st" "\<not> x_rescan_emitted st"
    | (e) "\<not> (x_skipped st \<and> \<not> x_rescan_emitted st)" "x_entered st"
    | (c) "\<not> (x_skipped st \<and> \<not> x_rescan_emitted st)" "\<not> x_entered st"
        "?t < of_int (bp_no_orders_after_s params)"
    | (n) "\<not> (x_skipped st \<and> \<not> x_rescan_emitted st)" "\<not> x_entered st"
        "\<not> ?t < of_int (bp_no_orders_after_s params)" by blast
  then show thesis
  proof cases
    case r
    then have dec: "decide_box params state event = box_rescan params st (sig_ts event) ?t"
      using fold by (simp add: decide_box_def Let_def)
    show thesis
    proof (cases "\<exists>sel. x_view st = Some (Inr sel) \<and> in_entry params ?t \<and>
        sel_fresh params st sel (sig_ts event) \<and> bp_min_implied_pin params \<le> bs_implied_pin sel")
      case True
      then obtain sel where "x_view st = Some (Inr sel)" "in_entry params ?t"
        "sel_fresh params st sel (sig_ts event)" "bp_min_implied_pin params \<le> bs_implied_pin sel"
        by blast
      then show thesis
        using r by (intro rescan [OF fold]) (simp_all add: dec box_rescan_def)
    next
      case False
      then have "box_rescan params st (sig_ts event) ?t = (st, [])"
        by (auto simp: box_rescan_def not_less split: option.split sum.split)
      then show thesis by (intro quiet [OF fold]) (simp add: dec)
    qed
  next
    case e
    then show thesis by (intro quiet [OF fold]) (auto simp: decide_box_def fold Let_def)
  next
    case c
    then show thesis
      by (cases "x_standdown_emitted st")
        (auto simp: decide_box_def fold Let_def intro: quiet [OF fold] stand [OF fold])
  next
    case n
    show thesis
    proof (cases "in_entry params ?t")
      case False
      with n show thesis by (intro quiet [OF fold]) (auto simp: decide_box_def fold Let_def)
    next
      case True
      then have dec: "decide_box params state event = box_enter params st (sig_ts event) ?t"
        using n by (auto simp: decide_box_def fold Let_def)
      show thesis
      proof (cases "\<exists>sel. x_view st = Some (Inr sel) \<and> sel_fresh params st sel (sig_ts event)")
        case False
        then have "box_enter params st (sig_ts event) ?t = (st, [])"
          by (auto simp: box_enter_def split: option.split sum.split)
        then show thesis by (intro quiet [OF fold]) (simp add: dec)
      next
        case True
        then obtain sel where v: "x_view st = Some (Inr sel)" "sel_fresh params st sel (sig_ts event)"
          by blast
        show thesis
        proof (cases "bs_implied_pin sel < bp_min_implied_pin params")
          case True
          with v n show thesis by (intro skip [OF fold]) (simp_all add: dec box_enter_def)
        next
          case False
          with v n \<open>in_entry params ?t\<close> show thesis
            by (intro fire [OF fold]) (simp_all add: dec box_enter_def)
        qed
      qed
    qed
  qed
qed

lemma box_inv_decide:
  assumes inv: "box_inv params st"
  shows "box_inv params (fst (decide_box params st e))"
proof (cases rule: decide_box_elim [where params = params and state = st and event = e])
  case other
  with inv show ?thesis by simp
next
  case (quiet s)
  with box_inv_fold [OF inv] show ?thesis by simp
next
  case (stand s)
  with box_inv_fold [OF inv stand(1)] show ?thesis
    by (auto simp: box_inv_def view_of_cong [of "s\<lparr>x_standdown_emitted := True\<rparr>" s])
next
  case (rescan s sel)
  with box_inv_fold [OF inv rescan(1)] show ?thesis
    by (auto simp: box_inv_def
        view_of_cong [of "s\<lparr>x_rescan_emitted := True, x_rescan_selection := Some sel\<rparr>" s])
next
  case (skip s sel)
  with box_inv_fold [OF inv skip(1)] show ?thesis
    by (auto simp: box_inv_def
        view_of_cong [of "s\<lparr>x_entered := True, x_skipped := True, x_skipped_selection := Some sel\<rparr>" s])
next
  case (fire s sel)
  with box_inv_fold [OF inv fire(1)] show ?thesis
    by (auto simp: box_inv_def
        view_of_cong [of "s\<lparr>x_entered := True, x_fired_selection := Some sel\<rparr>" s])
qed

lemma decide_box_facts:
  assumes inv: "box_inv params st"
  shows "x_entered st \<Longrightarrow> x_entered (fst (decide_box params st e)) \<and>
      (\<forall>a \<in> set (snd (decide_box params st e)). \<not> opens_box a)"
    and "x_standdown_emitted st \<Longrightarrow> x_standdown_emitted (fst (decide_box params st e)) \<and>
      (\<forall>a \<in> set (snd (decide_box params st e)). \<not> is_stand_down a)"
    and "x_rescan_emitted st \<Longrightarrow> x_rescan_emitted (fst (decide_box params st e)) \<and>
      (\<forall>a \<in> set (snd (decide_box params st e)). \<not> is_rescan a)"
    and "\<exists>a \<in> set (snd (decide_box params st e)). opens_box a \<Longrightarrow>
      x_entered (fst (decide_box params st e))"
    and "\<exists>a \<in> set (snd (decide_box params st e)). is_stand_down a \<Longrightarrow>
      x_standdown_emitted (fst (decide_box params st e))"
    and "\<exists>a \<in> set (snd (decide_box params st e)). is_rescan a \<Longrightarrow>
      x_rescan_emitted (fst (decide_box params st e))"
    and "length (snd (decide_box params st e)) \<le> Suc 0"
  using inv
  by (cases rule: decide_box_elim [where params = params and state = st and event = e];
      auto dest: fold_box_frame
        simp: box_inv_def opens_box_def is_rescan_def is_stand_down_def is_fire_def
          stand_down_action_def box_action_def; fail)+

interpretation box_entry: one_shot_core "decide_box params" "box_inv params" opens_box x_entered
  for params
  by unfold_locales (simp_all add: box_inv_decide decide_box_facts length_filter_le1)

interpretation box_stand_down: one_shot_core "decide_box params" "box_inv params" is_stand_down
  x_standdown_emitted for params
  by unfold_locales (simp_all add: box_inv_decide decide_box_facts length_filter_le1)

interpretation paper_rescan: one_shot_core "decide_box params" "box_inv params" is_rescan
  x_rescan_emitted for params
  by unfold_locales (simp_all add: box_inv_decide decide_box_facts length_filter_le1)

text \<open>
  A fire: its selection is the one the current books give, it clears the implied-pin floor, both
  legs are fresh, and the time is inside the entry window.
\<close>

lemma decide_box_fireD:
  assumes inv: "box_inv params state"
    and a: "a \<in> set (snd (decide_box params state event))" "is_fire a"
  obtains st m15_top sel where "fold_box params state event = Some st" "\<not> x_entered state"
    "map_of (x_tops st) (x_m15_ticker st) = Some m15_top"
    "selection_ok params (x_anchor_A st) m15_top (box_ladder st) sel"
    "bp_min_implied_pin params \<le> bs_implied_pin sel"
    "in_entry params (of_int (x_T st) - sig_ts event)" "sel_fresh params st sel (sig_ts event)"
    "a = box_action params (if x_shakedown state then Would_Fire else Fire) sel
       (of_int (x_T st) - sig_ts event) None"
proof (cases rule: decide_box_elim [where params = params and state = state and event = event])
  case (fire st sel)
  from box_inv_fold [OF inv fire(1)] fire(5) have "view_of params st = Some (Inr sel)"
    by (simp add: box_inv_def)
  then obtain m15_top where m: "map_of (x_tops st) (x_m15_ticker st) = Some m15_top"
    and sel: "select_box (x_anchor_A st) (x_m15_ticker st) m15_top (box_ladder st) params = Inr sel"
    by (auto simp: view_of_def split: option.splits)
  from a(1) fire(2-8) fold_box_frame [OF fire(1)] show thesis
    by (intro that [OF fire(1) _ m select_box_ok [OF sel]]) simp_all
qed (use a in \<open>auto simp: is_fire_def stand_down_action_def box_action_def\<close>)

text \<open>A fire of a run: the step that emitted it, and what that step guarantees of it.\<close>

definition box_fire_guard ::
  "box_params \<Rightarrow> box_state \<Rightarrow> sig_event \<Rightarrow> box_state \<Rightarrow> sig_action \<Rightarrow> bool" where
  "box_fire_guard params s e s' a \<longleftrightarrow>
     \<not> is_fire a \<or>
     (\<exists>st m15_top sel. fold_box params s e = Some st \<and> \<not> x_entered s \<and>
        map_of (x_tops st) (x_m15_ticker st) = Some m15_top \<and>
        selection_ok params (x_anchor_A st) m15_top (box_ladder st) sel \<and>
        bp_min_implied_pin params \<le> bs_implied_pin sel \<and>
        in_entry params (of_int (x_T st) - sig_ts e) \<and> sel_fresh params st sel (sig_ts e) \<and>
        a = box_action params (if x_shakedown s then Would_Fire else Fire) sel
          (of_int (x_T st) - sig_ts e) None)"

lemma decide_box_fire_guard:
  assumes "box_inv params s" and "a \<in> set (snd (decide_box params s e))"
  shows "box_fire_guard params s e (fst (decide_box params s e)) a"
proof (cases "is_fire a")
  case True
  from decide_box_fireD [OF assms True] show ?thesis by cases (auto simp: box_fire_guard_def)
qed (simp add: box_fire_guard_def)

interpretation box_guard: guarded_core "decide_box params" "box_inv params" "box_fire_guard params"
  for params
  by unfold_locales (rule decide_box_fire_guard)

end
