(* ===== verification/Orders.thy ===== *)
theory Orders
  imports Policy_Read Decimal_Text
begin

text \<open>
  The order wire, \<open>pilot/service/orders/translate.py\<close> and \<open>envelope.py\<close>: the direction-critical
  translation of a (side, action, price) order to the V2 book side and YES price, the envelope
  builder with the full-precision price, and the parsing of the synchronous responses with the
  one units conversion (a NO order's fill is reported in YES space). A \<open>ValueError\<close> or
  \<open>KeyError\<close> is an \<open>Inl\<close>. Client and exchange order ids are strings or absent;
  the error text of a malformed slot is kept without the type name it ends with.
\<close>

section \<open>Translation\<close>

datatype wire_error = Bad_Action string | Bad_Side string | Key_Missing string

record legacy_order =
  lg_ticker :: ticker
  lg_side :: string
  lg_action :: "string option"
  lg_yes_price :: "int option"
  lg_no_price :: "int option"
  lg_count :: int
  lg_tif :: "string option"
  lg_stp :: "string option"
  lg_post_only :: "bool option"
  lg_client_order_id :: string
  lg_pass :: "(string \<times> json) list"

record v2_order =
  v2_ticker :: ticker
  v2_side :: string
  v2_count :: string
  v2_price :: string
  v2_tif :: string
  v2_stp :: string
  v2_post_only :: "bool option"
  v2_client_order_id :: "string option"
  v2_pass :: "(string \<times> json) list"

definition passthrough_keys :: "string list" where
  "passthrough_keys =
     [''reduce_only'', ''cancel_order_on_pause'', ''expiration_time'', ''subaccount'',
      ''order_group_id'', ''exchange_index'']"

definition or_default :: "'a \<Rightarrow> 'a option \<Rightarrow> 'a" where
  "or_default d x = (case x of None \<Rightarrow> d | Some v \<Rightarrow> v)"

text \<open>The buy-side book side and the YES-cents level.\<close>

definition yes_level :: "legacy_order \<Rightarrow> wire_error + string \<times> int" where
  "yes_level legacy =
     (if lg_side legacy = ''yes'' then
        (case lg_yes_price legacy of
           None \<Rightarrow> Inl (Key_Missing ''yes_price'') | Some c \<Rightarrow> Inr (''bid'', c))
      else if lg_side legacy = ''no'' then
        (case lg_no_price legacy of
           None \<Rightarrow> Inl (Key_Missing ''no_price'') | Some c \<Rightarrow> Inr (''ask'', 100 - c))
      else Inl (Bad_Side (lg_side legacy)))"

definition to_v2_order :: "legacy_order \<Rightarrow> wire_error + v2_order" where
  "to_v2_order legacy =
     (let action = or_default ''buy'' (lg_action legacy) in
      if action \<noteq> ''buy'' \<and> action \<noteq> ''sell'' then Inl (Bad_Action action)
      else
        (case yes_level legacy of
           Inl e \<Rightarrow> Inl e
         | Inr (buy_side, cents) \<Rightarrow>
             Inr \<lparr>v2_ticker = lg_ticker legacy,
                  v2_side = (if action = ''sell''
                             then (if buy_side = ''bid'' then ''ask'' else ''bid'') else buy_side),
                  v2_count = fixed_text 2 (lg_count legacy * 100),
                  v2_price = fixed_text 4 (cents * 100),
                  v2_tif = or_default ''good_till_canceled'' (lg_tif legacy),
                  v2_stp = or_default ''taker_at_cross'' (lg_stp legacy),
                  v2_post_only = lg_post_only legacy,
                  v2_client_order_id =
                    (if lg_client_order_id legacy \<noteq> [] then Some (lg_client_order_id legacy) else None),
                  v2_pass = List.map_filter
                    (\<lambda>k. map_option (\<lambda>v. (k, v)) (map_of (lg_pass legacy) k)) passthrough_keys\<rparr>))"

section \<open>The envelope\<close>

record intent_leg =
  il_ticker :: ticker
  il_side :: string
  il_action :: string
  il_count :: int
  il_limit_price :: money
  il_client_order_id :: string
  il_reduce_only :: "bool option"
  il_exchange_index :: "int option"

text \<open>\<open>to_integral_value(ROUND_HALF_UP)\<close>: half away from zero.\<close>

definition round_half_up :: "rat \<Rightarrow> int" where
  "round_half_up x = (if 0 \<le> x then \<lfloor>x + 1/2\<rfloor> else \<lceil>x - 1/2\<rceil>)"

definition cents_of :: "money \<Rightarrow> int" where
  "cents_of price = round_half_up (price * 100)"

definition wire_price :: "string \<Rightarrow> money \<Rightarrow> wire_error + string" where
  "wire_price side limit_price =
     (if side = ''no'' then Inr (fixed_text 4 (round_half_even ((1 - limit_price) * 10000)))
      else if side = ''yes'' then Inr (fixed_text 4 (round_half_even (limit_price * 10000)))
      else Inl (Bad_Side side))"

definition build_entry :: "intent_leg \<Rightarrow> wire_error + v2_order" where
  "build_entry leg =
     (let cents = cents_of (il_limit_price leg);
          legacy =
            \<lparr>lg_ticker = il_ticker leg, lg_side = il_side leg, lg_action = Some (il_action leg),
             lg_yes_price = (if il_side leg = ''yes'' then Some cents else None),
             lg_no_price = (if il_side leg = ''yes'' then None else Some cents),
             lg_count = il_count leg, lg_tif = Some ''immediate_or_cancel'',
             lg_stp = Some ''taker_at_cross'', lg_post_only = None,
             lg_client_order_id = il_client_order_id leg,
             lg_pass =
               (case il_reduce_only leg of None \<Rightarrow> [] | Some b \<Rightarrow> [(''reduce_only'', JBool b)]) @
               (case il_exchange_index leg of None \<Rightarrow> [] | Some i \<Rightarrow> [(''exchange_index'', JInt i)])\<rparr>
      in bind_r (to_v2_order legacy) (\<lambda>entry.
         bind_r (wire_price (il_side leg) (il_limit_price leg)) (\<lambda>p.
         Inr (entry\<lparr>v2_price := p\<rparr>))))"

section \<open>Responses\<close>

record order_response =
  or_client_order_id :: "string option"
  or_order_id :: "string option"
  or_fill_count :: lots
  or_remaining_count :: lots
  or_average_fill_price :: "money option"
  or_average_fee_paid :: "money option"
  or_ts_ms :: "int option"
  or_raw_reported_price :: "money option"
  or_error :: "json option"
  or_no_fill :: bool

definition dec0 :: "json \<Rightarrow> rat" where
  "dec0 v = or_default 0 (to_decimal v)"

definition json_text :: "json \<Rightarrow> string option" where
  "json_text v = (case v of JStr s \<Rightarrow> Some s | _ \<Rightarrow> None)"

definition json_truthy :: "json \<Rightarrow> bool" where
  "json_truthy v =
     (case v of
        JNull \<Rightarrow> False | JBool b \<Rightarrow> b | JInt n \<Rightarrow> n \<noteq> 0 | JFloat x \<Rightarrow> x \<noteq> 0 | JNonFinite \<Rightarrow> True
      | JStr s \<Rightarrow> s \<noteq> [] | JList xs \<Rightarrow> xs \<noteq> [] | JObj kvs \<Rightarrow> kvs \<noteq> [])"

definition normalize_fill_to_side :: "order_response \<Rightarrow> string \<Rightarrow> wire_error + order_response" where
  "normalize_fill_to_side resp side =
     (let raw = (case or_raw_reported_price resp of
                   Some r \<Rightarrow> Some r | None \<Rightarrow> or_average_fill_price resp) in
      case raw of
        None \<Rightarrow> Inr resp
      | Some r \<Rightarrow>
          if side = ''no'' then
            Inr (resp\<lparr>or_average_fill_price := Some (1 - r), or_raw_reported_price := Some r\<rparr>)
          else if side = ''yes'' then
            Inr (resp\<lparr>or_average_fill_price := Some r, or_raw_reported_price := Some r\<rparr>)
          else Inl (Bad_Side side))"

definition no_fill_response :: "string option \<Rightarrow> string \<Rightarrow> order_response" where
  "no_fill_response cid err =
     \<lparr>or_client_order_id = cid, or_order_id = None, or_fill_count = 0, or_remaining_count = 0,
      or_average_fill_price = None, or_average_fee_paid = None, or_ts_ms = None,
      or_raw_reported_price = None, or_error = Some (JStr err), or_no_fill = True\<rparr>"

definition parse_entry_response :: "json \<Rightarrow> order_response" where
  "parse_entry_response slot =
     (case slot of
        JObj kvs \<Rightarrow>
          (let raw_price = to_decimal (json_field kvs ''average_fill_price'');
               err = json_field kvs ''error'' in
           \<lparr>or_client_order_id = json_text (json_field kvs ''client_order_id''),
            or_order_id = json_text (json_field kvs ''order_id''),
            or_fill_count = dec0 (json_field kvs ''fill_count''),
            or_remaining_count = dec0 (json_field kvs ''remaining_count''),
            or_average_fill_price = raw_price,
            or_average_fee_paid = to_decimal (json_field kvs ''average_fee_paid''),
            or_ts_ms = json_int (json_field kvs ''ts_ms''),
            or_raw_reported_price = raw_price,
            or_error = (if json_truthy err then Some err else None),
            or_no_fill = json_truthy err\<rparr>)
      | _ \<Rightarrow> no_fill_response None ''malformed_response_slot'')"

definition parse_single_response :: "json \<Rightarrow> string option \<Rightarrow> wire_error + order_response" where
  "parse_single_response body side =
     (let resp =
        (case body of
           JObj kvs \<Rightarrow>
             (case map_of kvs ''order'' of
                Some (JObj inner) \<Rightarrow> parse_entry_response (JObj inner)
              | _ \<Rightarrow> parse_entry_response body)
         | _ \<Rightarrow> parse_entry_response body)
      in case side of None \<Rightarrow> Inr resp | Some s \<Rightarrow> normalize_fill_to_side resp s)"

definition parse_batch_response :: "json \<Rightarrow> order_response list" where
  "parse_batch_response body =
     (case body of
        JObj kvs \<Rightarrow>
          (case map_of kvs ''orders'' of
             Some (JList slots) \<Rightarrow> map parse_entry_response slots
           | _ \<Rightarrow> [no_fill_response None ''batch_response_missing_orders_list''])
      | _ \<Rightarrow> [no_fill_response None ''malformed_batch_body''])"

section \<open>Direction and price\<close>

text \<open>
  What an order does to the holder's YES exposure: buying YES or selling NO raises it, and the
  price of a NO contract is one minus that of the YES contract. A bid on the YES book raises it.
\<close>

definition order_raises_yes :: "string \<Rightarrow> string \<Rightarrow> bool" where
  "order_raises_yes side action \<longleftrightarrow> (side = ''yes'') = (action = ''buy'')"

definition yes_price_of :: "string \<Rightarrow> money \<Rightarrow> money" where
  "yes_price_of side p = (if side = ''no'' then 1 - p else p)"

lemma to_v2_order_direction:
  assumes "to_v2_order legacy = Inr v"
  shows "v2_side v = (if order_raises_yes (lg_side legacy) (or_default ''buy'' (lg_action legacy))
           then ''bid'' else ''ask'')"
    and "lg_side legacy = ''yes'' \<or> lg_side legacy = ''no''"
    and "v2_ticker v = lg_ticker legacy" "v2_count v = fixed_text 2 (lg_count legacy * 100)"
  using assms
  by (auto simp: to_v2_order_def yes_level_def order_raises_yes_def Let_def
      split: if_splits option.splits sum.splits)

lemma build_entry_Inr:
  assumes "build_entry leg = Inr v"
  shows "v2_side v = (if order_raises_yes (il_side leg) (il_action leg) then ''bid'' else ''ask'')"
    and "v2_price v = fixed_text 4 (round_half_even (yes_price_of (il_side leg) (il_limit_price leg) * 10000))"
    and "v2_tif v = ''immediate_or_cancel''" "v2_ticker v = il_ticker leg"
    and "v2_count v = fixed_text 2 (il_count leg * 100)"
    and "il_side leg = ''yes'' \<or> il_side leg = ''no''"
proof -
  from assms obtain legacy e where e: "to_v2_order legacy = Inr e" "lg_side legacy = il_side leg"
    "lg_action legacy = Some (il_action leg)" "lg_ticker legacy = il_ticker leg"
    "lg_count legacy = il_count leg" "lg_tif legacy = Some ''immediate_or_cancel''"
    and p: "wire_price (il_side leg) (il_limit_price leg) = Inr (v2_price v)"
    and v: "v = e\<lparr>v2_price := v2_price v\<rparr>"
    by (auto simp: build_entry_def Let_def bind_r_Inr_iff)
  have tif: "v2_tif e = ''immediate_or_cancel''"
    using e(1,6) by (auto simp: to_v2_order_def or_default_def Let_def split: if_splits sum.splits)
  have v': "v2_side v = v2_side e" "v2_tif v = v2_tif e" "v2_ticker v = v2_ticker e"
    "v2_count v = v2_count e"
    by (subst v, simp)+
  show "v2_side v = (if order_raises_yes (il_side leg) (il_action leg) then ''bid'' else ''ask'')"
    using to_v2_order_direction(1) [OF e(1)] e(2,3) by (simp add: v' or_default_def)
  show "v2_price v = fixed_text 4 (round_half_even (yes_price_of (il_side leg) (il_limit_price leg) * 10000))"
    using p by (auto simp: wire_price_def yes_price_of_def split: if_splits)
  show "v2_tif v = ''immediate_or_cancel''" "v2_ticker v = il_ticker leg"
    "v2_count v = fixed_text 2 (il_count leg * 100)" "il_side leg = ''yes'' \<or> il_side leg = ''no''"
    using to_v2_order_direction(2-4) [OF e(1)] e tif by (simp_all add: v')
qed

text \<open>A price of whole ten-thousandths: the tick the wire keeps.\<close>

definition wire_tick :: "money \<Rightarrow> bool" where
  "wire_tick p \<longleftrightarrow> of_int \<lfloor>p * 10000\<rfloor> = p * 10000"

lemma wire_price_exact:
  assumes "wire_tick p"
  shows "of_int (round_half_even (yes_price_of side p * 10000)) / 10 ^ 4 = yes_price_of side p"
proof -
  define k where "k = \<lfloor>p * 10000\<rfloor>"
  have k: "p * 10000 = of_int k"
    using assms [unfolded wire_tick_def, symmetric] by (simp only: k_def)
  have eq: "yes_price_of side p * 10000 = of_int (if side = ''no'' then 10000 - k else k)"
    using k by (simp add: yes_price_of_def left_diff_distrib)
  have "of_int (round_half_even (yes_price_of side p * 10000)) = yes_price_of side p * 10000"
    unfolding eq round_half_even_of_int ..
  then show ?thesis by simp
qed

lemma normalize_fill_price:
  assumes "normalize_fill_to_side resp side = Inr r"
    and "or_raw_reported_price resp = Some raw"
  shows "or_average_fill_price r = Some (yes_price_of side raw)" "or_raw_reported_price r = Some raw"
  using assms by (auto simp: normalize_fill_to_side_def yes_price_of_def split: if_splits)

lemma normalize_accepts_side:
  "side = ''yes'' \<or> side = ''no'' \<Longrightarrow> \<exists>r. normalize_fill_to_side resp side = Inr r"
  by (auto simp: normalize_fill_to_side_def Let_def split: option.splits)

lemma yes_price_of_involution [simp]: "yes_price_of side (yes_price_of side p) = p"
  by (simp add: yes_price_of_def)

lemma normalize_idem:
  assumes "normalize_fill_to_side resp side = Inr r"
  shows "normalize_fill_to_side r side = Inr r"
  using assms by (auto simp: normalize_fill_to_side_def Let_def split: option.splits if_splits)

end
