(* ===== verification/Ledger.thy ===== *)
theory Ledger
  imports Orders Policy "HOL-Library.Monad_Syntax"
begin

text \<open>
  The position ledger of one window, \<open>pilot/service/ledger.py\<close>, with the settlement backfill of
  \<open>pilot_ledger.py\<close> that completes its books: intents and responses, the per-leg positions from
  actual fills, the amounts booked at close and the legs left for settlement, and the rebuild
  from the journal after a crash. A read that raises is \<open>None\<close>.
\<close>

section \<open>Data\<close>

definition PURPOSE_ENTRY :: string where "PURPOSE_ENTRY = ''entry''"

definition PURPOSE_REBALANCE_BUY :: string where "PURPOSE_REBALANCE_BUY = ''rebalance-buy''"

definition PURPOSE_REBALANCE_SELL :: string where "PURPOSE_REBALANCE_SELL = ''rebalance-sell''"

definition PURPOSE_FLATTEN :: string where "PURPOSE_FLATTEN = ''flatten''"

definition FEE_IS_TOTAL :: bool where "FEE_IS_TOTAL = False"

definition MIN_PAIR_PAYOUT :: money where "MIN_PAIR_PAYOUT = 1"

definition LEDGER_WIDE_BOX :: string where "LEDGER_WIDE_BOX = ''wide-box''"

definition FLOOR_SOURCES :: "string list" where
  "FLOOR_SOURCES = [SUB_DOLLAR_FLIP, LEDGER_WIDE_BOX]"

record intent =
  in_window :: string
  in_source :: string
  in_purpose :: string
  in_legs :: "intent_leg list"
  in_t_minus :: "time option"

record leg_position =
  lp_ticker :: ticker
  lp_side :: string
  lp_bought :: lots
  lp_bought_notional :: money
  lp_buy_fees :: money
  lp_sold :: lots
  lp_sold_notional :: money
  lp_sell_fees :: money

definition new_position :: "ticker \<Rightarrow> string \<Rightarrow> leg_position" where
  "new_position tk side =
     \<lparr>lp_ticker = tk, lp_side = side, lp_bought = 0, lp_bought_notional = 0, lp_buy_fees = 0,
      lp_sold = 0, lp_sold_notional = 0, lp_sell_fees = 0\<rparr>"

definition lp_net :: "leg_position \<Rightarrow> lots" where
  "lp_net p = lp_bought p - lp_sold p"

definition lp_bought_cost :: "leg_position \<Rightarrow> money" where
  "lp_bought_cost p = lp_bought_notional p + lp_buy_fees p"

definition lp_sold_proceeds :: "leg_position \<Rightarrow> money" where
  "lp_sold_proceeds p = lp_sold_notional p - lp_sell_fees p"

definition lp_net_cash_out :: "leg_position \<Rightarrow> money" where
  "lp_net_cash_out p = lp_bought_cost p - lp_sold_proceeds p"

definition lp_avg_buy_price :: "leg_position \<Rightarrow> money option" where
  "lp_avg_buy_price p = (if 0 < lp_bought p then Some (lp_bought_notional p / lp_bought p) else None)"

record ledger_state =
  ls_window :: string
  ls_source :: string
  ls_high_ticker :: ticker
  ls_low_ticker :: ticker
  ls_high_side :: "string option"
  ls_low_side :: "string option"
  ls_positions :: "(ticker \<times> string, leg_position) dict"
  ls_intents :: "intent list"
  ls_responses :: "order_response list"
  ls_cid_to_leg :: "(string, intent_leg) dict"
  ls_responded_cids :: "string set"

definition new_ledger :: "string \<Rightarrow> string \<Rightarrow> ticker \<Rightarrow> ticker \<Rightarrow> ledger_state" where
  "new_ledger window source high low =
     \<lparr>ls_window = window, ls_source = source, ls_high_ticker = high, ls_low_ticker = low,
      ls_high_side = None, ls_low_side = None, ls_positions = [], ls_intents = [],
      ls_responses = [], ls_cid_to_leg = [], ls_responded_cids = {}\<rparr>"

section \<open>Reads\<close>

datatype which_leg = High | Low

fun leg_key :: "ledger_state \<Rightarrow> which_leg \<Rightarrow> (ticker \<times> string) option" where
  "leg_key st High = map_option (\<lambda>s. (ls_high_ticker st, s)) (ls_high_side st)"
| "leg_key st Low = map_option (\<lambda>s. (ls_low_ticker st, s)) (ls_low_side st)"

definition position :: "ledger_state \<Rightarrow> which_leg \<Rightarrow> leg_position option" where
  "position st w = (case leg_key st w of None \<Rightarrow> None | Some k \<Rightarrow> map_of (ls_positions st) k)"

definition net :: "ledger_state \<Rightarrow> which_leg \<Rightarrow> lots" where
  "net st w = (case position st w of None \<Rightarrow> 0 | Some p \<Rightarrow> lp_net p)"

definition matched_pairs :: "ledger_state \<Rightarrow> lots" where
  "matched_pairs st = min (net st High) (net st Low)"

definition is_balanced :: "ledger_state \<Rightarrow> bool" where
  "is_balanced st \<longleftrightarrow> net st High = net st Low"

definition leg_cash_out :: "ledger_state \<Rightarrow> which_leg \<Rightarrow> money" where
  "leg_cash_out st w = (case position st w of None \<Rightarrow> 0 | Some p \<Rightarrow> lp_net_cash_out p)"

definition pair_net_cash_out :: "ledger_state \<Rightarrow> money" where
  "pair_net_cash_out st = leg_cash_out st High + leg_cash_out st Low"

definition realized_min :: "ledger_state \<Rightarrow> money" where
  "realized_min st = matched_pairs st * MIN_PAIR_PAYOUT - pair_net_cash_out st"

definition realized_cashflow :: "ledger_state \<Rightarrow> money" where
  "realized_cashflow st = - pair_net_cash_out st"

definition realized_at_close :: "ledger_state \<Rightarrow> money" where
  "realized_at_close st =
     (if ls_source st \<in> set FLOOR_SOURCES
      then realized_cashflow st + matched_pairs st * MIN_PAIR_PAYOUT else realized_cashflow st)"

definition unsettled_leg :: "ledger_state \<Rightarrow> which_leg \<Rightarrow> (ticker \<times> string \<times> lots) list" where
  "unsettled_leg st w =
     (case position st w of
        None \<Rightarrow> []
      | Some p \<Rightarrow>
          if lp_net p \<le> 0 then []
          else
            (let held = (if ls_source st = SUB_DOLLAR_FLIP
                         then lp_net p - min (lp_net p) (matched_pairs st) else lp_net p)
             in if 0 < held then [(lp_ticker p, lp_side p, of_int (py_trunc held))] else []))"

definition unsettled_legs :: "ledger_state \<Rightarrow> (ticker \<times> string \<times> lots) list" where
  "unsettled_legs st = unsettled_leg st High @ unsettled_leg st Low"

definition has_any_fill :: "ledger_state \<Rightarrow> bool" where
  "has_any_fill st \<longleftrightarrow> list_ex (\<lambda>kp. 0 < lp_bought (snd kp) \<or> 0 < lp_sold (snd kp)) (ls_positions st)"

definition inflight_cids :: "ledger_state \<Rightarrow> string list" where
  "inflight_cids st = filter (\<lambda>cid. cid \<notin> ls_responded_cids st) (dict_keys (ls_cid_to_leg st))"

section \<open>Transitions\<close>

text \<open>The held sides an entry intent fixes: a leg on the high ticker, else one on the low.\<close>

fun held_sides ::
  "ledger_state \<Rightarrow> string option \<times> string option \<Rightarrow> intent_leg list \<Rightarrow>
     string option \<times> string option" where
  "held_sides st hl [] = hl"
| "held_sides st (h, l) (leg # legs) =
     held_sides st
       (if il_ticker leg = ls_high_ticker st then (Some (il_side leg), l)
        else if il_ticker leg = ls_low_ticker st then (h, Some (il_side leg)) else (h, l)) legs"

definition record_intent :: "ledger_state \<Rightarrow> intent \<Rightarrow> ledger_state" where
  "record_intent st i =
     (let (h, l) = (if in_purpose i = PURPOSE_ENTRY
                    then held_sides st (ls_high_side st, ls_low_side st) (in_legs i)
                    else (ls_high_side st, ls_low_side st));
          cids = foldl (\<lambda>d leg. AList.update (il_client_order_id leg) leg d) (ls_cid_to_leg st) (in_legs i)
      in st\<lparr>ls_high_side := h, ls_low_side := l, ls_intents := ls_intents st @ [i],
            ls_cid_to_leg := cids\<rparr>)"

definition fee_of :: "order_response \<Rightarrow> money" where
  "fee_of r =
     (case or_average_fee_paid r of
        None \<Rightarrow> 0
      | Some f \<Rightarrow> if FEE_IS_TOTAL then f else f * or_fill_count r)"

definition real_cid :: "order_response \<Rightarrow> string option" where
  "real_cid r = (case or_client_order_id r of Some c \<Rightarrow> if c = [] then None else Some c | None \<Rightarrow> None)"

text \<open>The position of a leg after a fill; \<open>None\<close> when the action is neither buy nor sell.\<close>

definition fold_fill ::
  "leg_position \<Rightarrow> intent_leg \<Rightarrow> lots \<Rightarrow> money \<Rightarrow> money \<Rightarrow> leg_position option" where
  "fold_fill p leg fill price fee_paid =
     (if il_action leg = ''buy'' then
        Some (p\<lparr>lp_bought := lp_bought p + fill,
                lp_bought_notional := lp_bought_notional p + fill * price,
                lp_buy_fees := lp_buy_fees p + fee_paid\<rparr>)
      else if il_action leg = ''sell'' then
        Some (p\<lparr>lp_sold := lp_sold p + fill,
                lp_sold_notional := lp_sold_notional p + fill * price,
                lp_sell_fees := lp_sell_fees p + fee_paid\<rparr>)
      else None)"

definition record_response :: "ledger_state \<Rightarrow> order_response \<Rightarrow> ledger_state" where
  "record_response st r =
     (let st1 = st\<lparr>ls_responses := ls_responses st @ [r],
                   ls_responded_cids :=
                     (case real_cid r of None \<Rightarrow> ls_responded_cids st
                      | Some c \<Rightarrow> insert c (ls_responded_cids st))\<rparr>;
          leg = (case real_cid r of None \<Rightarrow> None | Some c \<Rightarrow> map_of (ls_cid_to_leg st) c)
      in case (leg, or_average_fill_price r) of
           (Some l, Some price) \<Rightarrow>
             if or_fill_count r \<le> 0 then st1
             else
               (let key = (il_ticker l, il_side l);
                    p = dict_get_default (ls_positions st1) key (new_position (il_ticker l) (il_side l))
                in case fold_fill p l (or_fill_count r) price (fee_of r) of
                     None \<Rightarrow> st1
                   | Some p' \<Rightarrow> st1\<lparr>ls_positions := AList.update key p' (ls_positions st1)\<rparr>)
         | _ \<Rightarrow> st1)"

definition retries_for_side :: "ledger_state \<Rightarrow> ticker \<Rightarrow> string \<Rightarrow> nat" where
  "retries_for_side st tk purpose =
     length (filter (\<lambda>i. in_purpose i = purpose \<and> list_ex (\<lambda>l. il_ticker l = tk) (in_legs i))
       (ls_intents st))"

section \<open>Settlement\<close>

datatype settle_error = No_Result ticker | Bad_Result ticker

fun settlement_payoff ::
  "(ticker \<times> string \<times> lots) list \<Rightarrow> (ticker, string) dict \<Rightarrow> settle_error + money" where
  "settlement_payoff [] results = Inr 0"
| "settlement_payoff ((tk, side, count) # legs) results =
     (case map_of results tk of
        None \<Rightarrow> Inl (No_Result tk)
      | Some res \<Rightarrow>
          if res \<noteq> ''yes'' \<and> res \<noteq> ''no'' then Inl (Bad_Result tk)
          else bind_r (settlement_payoff legs results)
                 (\<lambda>total. Inr ((if res = side then count * MIN_PAIR_PAYOUT else 0) + total)))"

text \<open>
  The books of a window: what is booked at close with the floor already counted for a box
  (\<open>run_window._build_box_ledger_entry\<close>), and what the backfill adds
  (\<open>pilot_ledger.build_backfill_entry\<close>).
\<close>

definition box_floor_booked :: "ledger_state \<Rightarrow> money" where
  "box_floor_booked st = (if has_any_fill st then matched_pairs st * 1 else 0)"

definition backfill_realized :: "money \<Rightarrow> money \<Rightarrow> money" where
  "backfill_realized payoff floor_booked = payoff - floor_booked"

section \<open>The fills record\<close>

record fills_leg =
  fl_ticker :: ticker
  fl_side :: string
  fl_count :: lots
  fl_avg_price :: "money option"
  fl_avg_fee :: money

record fills_rec =
  fr_filled :: bool
  fr_imbalance :: bool
  fr_realized_payoff :: "money option"
  fr_matched_pairs :: lots
  fr_legs :: "fills_leg list"
  fr_any_fill :: bool
  fr_realized_cashflow :: money
  fr_realized_at_close :: money
  fr_unsettled_legs :: "(ticker \<times> string \<times> lots) list"

definition fills_leg_of :: "ledger_state \<Rightarrow> which_leg \<Rightarrow> fills_leg list" where
  "fills_leg_of st w =
     (case position st w of
        None \<Rightarrow> []
      | Some p \<Rightarrow>
          if lp_bought p \<le> 0 then []
          else [\<lparr>fl_ticker = lp_ticker p, fl_side = lp_side p, fl_count = lp_net p,
                 fl_avg_price = lp_avg_buy_price p, fl_avg_fee = lp_buy_fees p\<rparr>])"

definition fills_record :: "ledger_state \<Rightarrow> fills_rec" where
  "fills_record st =
     \<lparr>fr_filled = (0 < net st High \<and> 0 < net st Low), fr_imbalance = (\<not> is_balanced st),
      fr_realized_payoff = (if 0 < matched_pairs st then Some (realized_min st) else None),
      fr_matched_pairs = matched_pairs st,
      fr_legs = fills_leg_of st High @ fills_leg_of st Low,
      fr_any_fill = has_any_fill st, fr_realized_cashflow = realized_cashflow st,
      fr_realized_at_close = realized_at_close st, fr_unsettled_legs = unsettled_legs st\<rparr>"

section \<open>The journal\<close>

text \<open>Reads of a journal record: \<open>d[k]\<close> raises on a missing key, \<open>d.get(k)\<close> gives null.\<close>

definition get_text :: "(string \<times> json) list \<Rightarrow> string \<Rightarrow> string option" where
  "get_text d k = Option.bind (map_of d k) json_text"

definition opt_json :: "('a \<Rightarrow> json) \<Rightarrow> 'a option \<Rightarrow> json" where
  "opt_json f x = (case x of None \<Rightarrow> JNull | Some v \<Rightarrow> f v)"

definition read_opt :: "(json \<Rightarrow> 'a option) \<Rightarrow> json \<Rightarrow> 'a option option" where
  "read_opt rd v = (if v = JNull then Some None else map_option Some (rd v))"

definition json_bool :: "json \<Rightarrow> bool option" where
  "json_bool v = (case v of JBool b \<Rightarrow> Some b | _ \<Rightarrow> None)"

definition leg_to_record :: "intent_leg \<Rightarrow> json" where
  "leg_to_record l =
     JObj [(''ticker'', JStr (il_ticker l)), (''side'', JStr (il_side l)),
           (''action'', JStr (il_action l)), (''count'', JInt (il_count l)),
           (''limit_price'', JStr (dec_text (il_limit_price l))),
           (''client_order_id'', JStr (il_client_order_id l)),
           (''reduce_only'', opt_json JBool (il_reduce_only l)),
           (''exchange_index'', opt_json JInt (il_exchange_index l))]"

definition leg_from_record :: "json \<Rightarrow> intent_leg option" where
  "leg_from_record v = do {
     d \<leftarrow> json_object v;
     tk \<leftarrow> get_text d ''ticker'';
     side \<leftarrow> get_text d ''side'';
     action \<leftarrow> get_text d ''action'';
     count \<leftarrow> Option.bind (map_of d ''count'') json_int;
     price \<leftarrow> Option.bind (map_of d ''limit_price'') to_decimal;
     cid \<leftarrow> get_text d ''client_order_id'';
     ro \<leftarrow> read_opt json_bool (json_field d ''reduce_only'');
     ei \<leftarrow> read_opt json_int (json_field d ''exchange_index'');
     Some \<lparr>il_ticker = tk, il_side = side, il_action = action, il_count = count,
           il_limit_price = price, il_client_order_id = cid, il_reduce_only = ro,
           il_exchange_index = ei\<rparr>
   }"

definition intent_to_record :: "intent \<Rightarrow> json" where
  "intent_to_record i =
     JObj [(''window'', JStr (in_window i)), (''source'', JStr (in_source i)),
           (''purpose'', JStr (in_purpose i)), (''t_minus_s'', opt_json JFloat (in_t_minus i)),
           (''legs'', JList (map leg_to_record (in_legs i)))]"

definition intent_from_record :: "json \<Rightarrow> intent option" where
  "intent_from_record v = do {
     d \<leftarrow> json_object v;
     window \<leftarrow> get_text d ''window'';
     source \<leftarrow> get_text d ''source'';
     purpose \<leftarrow> get_text d ''purpose'';
     ls \<leftarrow> map_of d ''legs'';
     legs \<leftarrow> (case ls of JList xs \<Rightarrow> those (map leg_from_record xs) | _ \<Rightarrow> None);
     t \<leftarrow> read_opt to_decimal (json_field d ''t_minus_s'');
     Some \<lparr>in_window = window, in_source = source, in_purpose = purpose, in_legs = legs,
           in_t_minus = t\<rparr>
   }"

definition dec_json :: "rat \<Rightarrow> json" where
  "dec_json x = JStr (dec_text x)"

definition response_to_record :: "order_response \<Rightarrow> json" where
  "response_to_record r =
     JObj [(''client_order_id'', opt_json JStr (or_client_order_id r)),
           (''order_id'', opt_json JStr (or_order_id r)),
           (''fill_count'', dec_json (or_fill_count r)),
           (''remaining_count'', dec_json (or_remaining_count r)),
           (''average_fill_price'', opt_json dec_json (or_average_fill_price r)),
           (''average_fee_paid'', opt_json dec_json (or_average_fee_paid r)),
           (''raw_reported_price'', opt_json dec_json (or_raw_reported_price r)),
           (''ts_ms'', opt_json JInt (or_ts_ms r)),
           (''error'', opt_json id (or_error r)),
           (''no_fill'', JBool (or_no_fill r))]"

text \<open>\<open>_d(x) or Decimal(0)\<close> for the two counts; the other reads keep an absent value absent.\<close>

definition response_from_record :: "json \<Rightarrow> order_response option" where
  "response_from_record v = do {
     d \<leftarrow> json_object v;
     cid \<leftarrow> read_opt json_text (json_field d ''client_order_id'');
     oid \<leftarrow> read_opt json_text (json_field d ''order_id'');
     fc \<leftarrow> read_opt to_decimal (json_field d ''fill_count'');
     rc \<leftarrow> read_opt to_decimal (json_field d ''remaining_count'');
     price \<leftarrow> read_opt to_decimal (json_field d ''average_fill_price'');
     fee_paid \<leftarrow> read_opt to_decimal (json_field d ''average_fee_paid'');
     raw \<leftarrow> read_opt to_decimal (json_field d ''raw_reported_price'');
     ts \<leftarrow> read_opt json_int (json_field d ''ts_ms'');
     err \<leftarrow> read_opt Some (json_field d ''error'');
     Some \<lparr>or_client_order_id = cid, or_order_id = oid, or_fill_count = or_default 0 fc,
           or_remaining_count = or_default 0 rc, or_average_fill_price = price,
           or_average_fee_paid = fee_paid, or_ts_ms = ts, or_raw_reported_price = raw,
           or_error = err, or_no_fill = json_truthy (json_field d ''no_fill'')\<rparr>
   }"

text \<open>
  A response record of before the units repair has no raw price key; its stored price is the
  venue's, and is normalized to the side of the leg it answers.
\<close>

definition migrate_legacy :: "ledger_state \<Rightarrow> json \<Rightarrow> order_response \<Rightarrow> order_response option" where
  "migrate_legacy st v r =
     (let has_raw = (case v of JObj d \<Rightarrow> map_of d ''raw_reported_price'' \<noteq> None | _ \<Rightarrow> False) in
      if has_raw \<or> or_average_fill_price r = None then Some r
      else (case Option.bind (real_cid r) (map_of (ls_cid_to_leg st)) of
              None \<Rightarrow> Some r
            | Some leg \<Rightarrow>
                (case normalize_fill_to_side
                        (r\<lparr>or_raw_reported_price := or_average_fill_price r\<rparr>) (il_side leg) of
                   Inl _ \<Rightarrow> None | Inr r' \<Rightarrow> Some r')))"

definition rebuild_step :: "ledger_state \<Rightarrow> string \<times> json \<Rightarrow> ledger_state option" where
  "rebuild_step st record =
     (case record of (kind, obj) \<Rightarrow>
        if kind = ''order_intent'' then map_option (record_intent st) (intent_from_record obj)
        else if kind = ''order_response'' then do {
          r \<leftarrow> response_from_record obj;
          r' \<leftarrow> migrate_legacy st obj r;
          Some (record_response st r')
        }
        else Some st)"

fun rebuild_from :: "ledger_state \<Rightarrow> (string \<times> json) list \<Rightarrow> ledger_state option" where
  "rebuild_from st [] = Some st"
| "rebuild_from st (x # xs) = do { st' \<leftarrow> rebuild_step st x; rebuild_from st' xs }"

definition rebuild_from_journal ::
  "(string \<times> json) list \<Rightarrow> string \<Rightarrow> string \<Rightarrow> ticker \<Rightarrow> ticker \<Rightarrow> ledger_state option" where
  "rebuild_from_journal records window source high low =
     rebuild_from (new_ledger window source high low) records"

section \<open>Rebuild\<close>

text \<open>The live session: the intents and responses it recorded, each journaled as it happened.\<close>

datatype ledger_op = Op_Intent intent | Op_Response order_response

fun apply_op :: "ledger_state \<Rightarrow> ledger_op \<Rightarrow> ledger_state" where
  "apply_op st (Op_Intent i) = record_intent st i"
| "apply_op st (Op_Response r) = record_response st r"

fun journal_of :: "ledger_op \<Rightarrow> string \<times> json" where
  "journal_of (Op_Intent i) = (''order_intent'', intent_to_record i)"
| "journal_of (Op_Response r) = (''order_response'', response_to_record r)"

text \<open>Decimals that the \<open>Decimal\<close> context can print; an error value is not null.\<close>

definition opt_decimal :: "rat option \<Rightarrow> bool" where
  "opt_decimal x = (case x of None \<Rightarrow> True | Some v \<Rightarrow> is_decimal v)"

fun op_printable :: "ledger_op \<Rightarrow> bool" where
  "op_printable (Op_Intent i) \<longleftrightarrow> list_all (\<lambda>l. is_decimal (il_limit_price l)) (in_legs i)"
| "op_printable (Op_Response r) \<longleftrightarrow>
     is_decimal (or_fill_count r) \<and> is_decimal (or_remaining_count r) \<and>
     opt_decimal (or_average_fill_price r) \<and> opt_decimal (or_average_fee_paid r) \<and>
     opt_decimal (or_raw_reported_price r) \<and> or_error r \<noteq> Some JNull"

lemma to_decimal_dec_text: "is_decimal x \<Longrightarrow> to_decimal (JStr (dec_text x)) = Some x"
  by (simp add: to_decimal_def parse_dec_text)

lemma read_opt_json:
  "(\<And>v. x = Some v \<Longrightarrow> f v \<noteq> JNull \<and> rd (f v) = Some v) \<Longrightarrow> read_opt rd (opt_json f x) = Some x"
  by (cases x) (simp_all add: read_opt_def opt_json_def)

lemma read_opt_dec: "opt_decimal x \<Longrightarrow> read_opt to_decimal (opt_json dec_json x) = Some x"
  by (rule read_opt_json) (auto simp: dec_json_def opt_decimal_def to_decimal_dec_text)

lemma leg_record_roundtrip:
  "is_decimal (il_limit_price l) \<Longrightarrow> leg_from_record (leg_to_record l) = Some l"
proof -
  assume "is_decimal (il_limit_price l)"
  moreover have "read_opt json_bool (opt_json JBool b) = Some b"
    "read_opt json_int (opt_json JInt n) = Some n" for b n
    by (rule read_opt_json; simp add: json_bool_def json_int_def)+
  ultimately show ?thesis
    by (simp add: leg_from_record_def leg_to_record_def json_object_def get_text_def json_text_def
        json_int_def to_decimal_dec_text json_field_def)
qed

lemma those_map_roundtrip: "list_all (\<lambda>x. f (g x) = Some x) xs \<Longrightarrow> those (map (f \<circ> g) xs) = Some xs"
  by (induction xs) simp_all

lemma intent_record_roundtrip:
  assumes "list_all (\<lambda>l. is_decimal (il_limit_price l)) (in_legs i)"
  shows "intent_from_record (intent_to_record i) = Some i"
proof -
  have "those (map (leg_from_record \<circ> leg_to_record) (in_legs i)) = Some (in_legs i)"
    using assms by (intro those_map_roundtrip) (auto simp: list_all_iff leg_record_roundtrip)
  moreover have "read_opt to_decimal (opt_json JFloat t) = Some t" for t
    by (rule read_opt_json) (simp add: to_decimal_def)
  ultimately show ?thesis
    by (simp add: intent_from_record_def intent_to_record_def json_object_def get_text_def
        json_text_def json_field_def)
qed

lemma response_record_roundtrip:
  assumes "op_printable (Op_Response r)"
  shows "response_from_record (response_to_record r) = Some r"
proof -
  have dj: "read_opt to_decimal (dec_json x) = Some (Some x)" if "is_decimal x" for x
    using that by (simp add: read_opt_def dec_json_def to_decimal_dec_text)
  have simple: "read_opt json_text (opt_json JStr s) = Some s"
    "read_opt json_int (opt_json JInt n) = Some n" for s n
    by (rule read_opt_json; simp add: json_text_def json_int_def)+
  have err: "read_opt Some (opt_json id (or_error r)) = Some (or_error r)"
    using assms by (intro read_opt_json) auto
  show ?thesis
    using assms
    by (simp add: response_from_record_def response_to_record_def json_object_def json_field_def
        dj simple err read_opt_dec or_default_def json_truthy_def)
qed

lemma rebuild_step_journal:
  assumes "op_printable op"
  shows "rebuild_step st (journal_of op) = Some (apply_op st op)"
proof (cases op)
  case (Op_Intent i)
  with assms show ?thesis by (simp add: rebuild_step_def intent_record_roundtrip)
next
  case (Op_Response r)
  have "migrate_legacy st (response_to_record r) r = Some r"
    by (simp add: migrate_legacy_def response_to_record_def)
  with assms response_record_roundtrip [of r] Op_Response show ?thesis
    by (simp add: rebuild_step_def)
qed

lemma rebuild_from_ops:
  "list_all op_printable ops \<Longrightarrow> rebuild_from st (map journal_of ops) = Some (foldl apply_op st ops)"
  by (induction ops arbitrary: st) (simp_all add: rebuild_step_journal)

section \<open>Positions stay well formed\<close>

definition ledger_ok :: "ledger_state \<Rightarrow> bool" where
  "ledger_ok st \<longleftrightarrow>
     distinct (dict_keys (ls_positions st)) \<and>
     (\<forall>kp \<in> set (ls_positions st).
        fst kp = (lp_ticker (snd kp), lp_side (snd kp)) \<and>
        0 \<le> lp_bought (snd kp) \<and> 0 \<le> lp_sold (snd kp))"

lemma mem_dict_update:
  assumes "distinct (dict_keys d)" and "(k', x) \<in> set (AList.update k v d)"
  shows "(k', x) = (k, v) \<or> (k', x) \<in> set d"
proof -
  have "distinct (map fst (AList.update k v d))"
    using assms(1) by (simp add: dict_keys_def distinct_update)
  then have "map_of (AList.update k v d) k' = Some x" using assms(2) by (rule map_of_is_SomeI)
  then show ?thesis by (auto simp: update_conv' dest: map_of_SomeD split: if_splits)
qed

lemma ledger_ok_new: "ledger_ok (new_ledger window source high low)"
  by (simp add: ledger_ok_def new_ledger_def dict_keys_def)

lemma ledger_ok_intent [inv_intros]: "ledger_ok st \<Longrightarrow> ledger_ok (record_intent st i)"
  by (simp add: ledger_ok_def record_intent_def Let_def case_prod_beta)

lemma ledger_ok_response [inv_intros]:
  assumes ok: "ledger_ok st"
  shows "ledger_ok (record_response st r)"
proof -
  define st1 where "st1 = st\<lparr>ls_responses := ls_responses st @ [r],
    ls_responded_cids := (case real_cid r of None \<Rightarrow> ls_responded_cids st
      | Some c \<Rightarrow> insert c (ls_responded_cids st))\<rparr>"
  have ok1: "ledger_ok st1" using ok by (simp add: ledger_ok_def st1_def)
  have fold: "ledger_ok (st1\<lparr>ls_positions := AList.update (il_ticker l, il_side l) p' (ls_positions st1)\<rparr>)"
    if "fold_fill (dict_get_default (ls_positions st1) (il_ticker l, il_side l)
          (new_position (il_ticker l) (il_side l))) l (or_fill_count r) price f = Some p'"
      "0 < or_fill_count r" for l price f p'
  proof -
    let ?k = "(il_ticker l, il_side l)"
    define p where "p = dict_get_default (ls_positions st1) ?k (new_position (il_ticker l) (il_side l))"
    have p: "?k = (lp_ticker p, lp_side p)" "0 \<le> lp_bought p" "0 \<le> lp_sold p"
    proof -
      have "p = new_position (il_ticker l) (il_side l) \<or> (?k, p) \<in> set (ls_positions st1)"
        by (auto simp: p_def dict_get_default_def dest: map_of_SomeD split: option.split)
      then show "?k = (lp_ticker p, lp_side p)" "0 \<le> lp_bought p" "0 \<le> lp_sold p"
        using ok1 by (force simp: new_position_def ledger_ok_def)+
    qed
    have p': "?k = (lp_ticker p', lp_side p')" "0 \<le> lp_bought p'" "0 \<le> lp_sold p'"
    proof -
      from that(1) have "fold_fill p l (or_fill_count r) price f = Some p'" by (simp only: p_def)
      then show "?k = (lp_ticker p', lp_side p')" "0 \<le> lp_bought p'" "0 \<le> lp_sold p'"
        using p that(2) by (auto simp: fold_fill_def split: if_splits)
    qed
    show ?thesis
      unfolding ledger_ok_def
    proof (intro conjI ballI)
      show "distinct (dict_keys (ls_positions (st1\<lparr>ls_positions :=
          AList.update ?k p' (ls_positions st1)\<rparr>)))"
        using ok1 by (simp add: ledger_ok_def dict_keys_def distinct_update)
      fix kp assume "kp \<in> set (ls_positions (st1\<lparr>ls_positions := AList.update ?k p' (ls_positions st1)\<rparr>))"
      then have "kp = (?k, p') \<or> kp \<in> set (ls_positions st1)"
        using ok1 mem_dict_update [of "ls_positions st1" "fst kp" "snd kp" ?k p']
        by (auto simp: ledger_ok_def)
      then show "fst kp = (lp_ticker (snd kp), lp_side (snd kp))" "0 \<le> lp_bought (snd kp)"
        "0 \<le> lp_sold (snd kp)"
        using p' ok1 by (auto simp: ledger_ok_def)
    qed
  qed
  show ?thesis
    unfolding record_response_def Let_def st1_def [symmetric]
    using ok1 fold by (auto split: option.split)
qed

lemma ledger_ok_op: "ledger_ok st \<Longrightarrow> ledger_ok (apply_op st op)"
  by (cases op) (simp_all add: ledger_ok_intent ledger_ok_response)

lemma ledger_ok_run: "ledger_ok st \<Longrightarrow> ledger_ok (foldl apply_op st ops)"
  by (induction ops arbitrary: st) (simp_all add: ledger_ok_op)

lemma positionD:
  assumes "ledger_ok st" and "position st w = Some p"
  shows "p \<in> snd ` set (ls_positions st)" "0 \<le> lp_bought p" "0 \<le> lp_sold p"
proof -
  from assms(2) obtain k where "map_of (ls_positions st) k = Some p"
    by (auto simp: position_def split: option.splits)
  then have "(k, p) \<in> set (ls_positions st)" by (rule map_of_SomeD)
  with assms(1) show "p \<in> snd ` set (ls_positions st)" "0 \<le> lp_bought p" "0 \<le> lp_sold p"
    by (force simp: ledger_ok_def)+
qed

lemma no_fill_no_match:
  assumes "ledger_ok st" and "\<not> has_any_fill st"
  shows "matched_pairs st = 0"
proof -
  have "net st w = 0" for w
  proof (cases "position st w")
    case (Some p)
    then have "lp_bought p = 0 \<and> lp_sold p = 0"
      using positionD [OF assms(1) Some] assms(2)
      by (fastforce simp: has_any_fill_def list_ex_iff)
    then show ?thesis by (simp add: net_def Some lp_net_def)
  qed (simp add: net_def)
  then show ?thesis by (simp add: matched_pairs_def)
qed

section \<open>The books after settlement\<close>

definition leg_wins :: "ledger_state \<Rightarrow> (ticker, string) dict \<Rightarrow> which_leg \<Rightarrow> bool" where
  "leg_wins st results w =
     (case position st w of
        None \<Rightarrow> False
      | Some p \<Rightarrow> 0 < lp_net p \<and> map_of results (lp_ticker p) = Some (lp_side p))"

text \<open>The profit of the window: what its held legs are paid at settlement, less the cash out.\<close>

definition true_pnl :: "ledger_state \<Rightarrow> (ticker, string) dict \<Rightarrow> money" where
  "true_pnl st results =
     (if leg_wins st results High then net st High else 0) +
     (if leg_wins st results Low then net st Low else 0) - pair_net_cash_out st"

definition results_known :: "ledger_state \<Rightarrow> (ticker, string) dict \<Rightarrow> bool" where
  "results_known st results \<longleftrightarrow>
     (\<forall>w. case position st w of
            None \<Rightarrow> True
          | Some p \<Rightarrow> map_of results (lp_ticker p) \<in> {Some ''yes'', Some ''no''})"

definition whole_net :: "ledger_state \<Rightarrow> which_leg \<Rightarrow> bool" where
  "whole_net st w \<longleftrightarrow> of_int \<lfloor>net st w\<rfloor> = net st w"

lemma settlement_payoff_append:
  "settlement_payoff (xs @ ys) results =
    bind_r (settlement_payoff xs results) (\<lambda>a. bind_r (settlement_payoff ys results) (\<lambda>b. Inr (a + b)))"
proof (induction xs results rule: settlement_payoff.induct)
  case (1 results)
  then show ?case by (cases "settlement_payoff ys results") simp_all
next
  case (2 tk side count legs results)
  show ?case
  proof (cases "map_of results tk")
    case (Some res)
    with 2 show ?thesis
      by (cases "settlement_payoff legs results"; cases "settlement_payoff ys results"; cases "res = ''yes'' \<or> res = ''no''")
        (auto simp: algebra_simps)
  qed simp
qed

lemma py_trunc_whole: "of_int \<lfloor>x\<rfloor> = x \<Longrightarrow> of_int (py_trunc x) = x"
proof -
  assume "of_int \<lfloor>x\<rfloor> = x"
  then obtain n where "x = of_int n" by metis
  then show ?thesis by (simp add: py_trunc_def)
qed

lemma unsettled_leg_payoff:
  assumes known: "results_known st results" and whole: "\<And>w. whole_net st w"
    and m: "ls_source st = SUB_DOLLAR_FLIP \<Longrightarrow> 0 \<le> matched_pairs st"
  defines "held w \<equiv> (if ls_source st = SUB_DOLLAR_FLIP then net st w - matched_pairs st else net st w)"
  shows "settlement_payoff (unsettled_leg st w) results =
    Inr (if leg_wins st results w then held w else 0)"
proof (cases "position st w")
  case None
  then show ?thesis by (simp add: unsettled_leg_def leg_wins_def)
next
  case (Some p)
  have n: "net st w = lp_net p" by (simp add: net_def Some)
  have le: "matched_pairs st \<le> lp_net p" using n by (cases w) (simp_all add: matched_pairs_def)
  obtain res where res: "map_of results (lp_ticker p) = Some res" "res = ''yes'' \<or> res = ''no''"
    using known [unfolded results_known_def, rule_format, of w] Some by auto
  have "of_int \<lfloor>matched_pairs st\<rfloor> = matched_pairs st"
    using whole [of High] whole [of Low] by (auto simp: matched_pairs_def whole_net_def min_def)
  then have "of_int (\<lfloor>net st w\<rfloor> - \<lfloor>matched_pairs st\<rfloor>) = net st w - matched_pairs st"
    using whole [of w] unfolding whole_net_def by (simp only: of_int_diff)
  then have "of_int \<lfloor>net st w - matched_pairs st\<rfloor> = net st w - matched_pairs st"
    by (metis floor_of_int)
  then have wh: "of_int (py_trunc (held w)) = held w"
    using whole [of w] unfolding held_def whole_net_def by (intro py_trunc_whole) simp
  have eq: "unsettled_leg st w =
      (if 0 < lp_net p \<and> 0 < held w then [(lp_ticker p, lp_side p, of_int (py_trunc (held w)))] else [])"
    using le by (auto simp: unsettled_leg_def Some Let_def held_def n min_absorb2)
  have "lp_net p \<le> 0 \<or> 0 \<le> held w" using le by (auto simp: held_def n)
  then show ?thesis
    using res wh by (auto simp: eq leg_wins_def Some MIN_PAIR_PAYOUT_def)
qed

lemma unsettled_legs_payoff:
  assumes "results_known st results" and "\<And>w. whole_net st w"
    and "ls_source st = SUB_DOLLAR_FLIP \<Longrightarrow> 0 \<le> matched_pairs st"
  shows "settlement_payoff (unsettled_legs st) results =
    Inr ((if leg_wins st results High
          then (if ls_source st = SUB_DOLLAR_FLIP then net st High - matched_pairs st else net st High) else 0) +
         (if leg_wins st results Low
          then (if ls_source st = SUB_DOLLAR_FLIP then net st Low - matched_pairs st else net st Low) else 0))"
  unfolding unsettled_legs_def
  by (simp only: settlement_payoff_append unsettled_leg_payoff [OF assms] bind_r_simps)

text \<open>
  What the books say after the backfill: the amount at close, plus the settlement payoff of the
  legs left unsettled, less the floor a box already booked at close.
\<close>

definition booked_pnl :: "ledger_state \<Rightarrow> money \<Rightarrow> money" where
  "booked_pnl st payoff =
     realized_at_close st +
       backfill_realized payoff (if ls_source st = LEDGER_WIDE_BOX then box_floor_booked st else 0)"

definition wins_count :: "ledger_state \<Rightarrow> (ticker, string) dict \<Rightarrow> money" where
  "wins_count st results =
     (if leg_wins st results High then 1 else 0) + (if leg_wins st results Low then 1 else 0)"

lemma sources_distinct: "SUB_DOLLAR_FLIP \<noteq> LEDGER_WIDE_BOX"
  by (simp add: SUB_DOLLAR_FLIP_def LEDGER_WIDE_BOX_def)

text \<open>
  The backfill settles whole contracts (\<open>int(held)\<close>): of a leg that wins, the fraction of a contract
  beyond them is never credited.
\<close>

definition fraction_dropped :: "ledger_state \<Rightarrow> (ticker, string) dict \<Rightarrow> which_leg \<Rightarrow> money" where
  "fraction_dropped st results w =
     (if leg_wins st results w then net st w - of_int \<lfloor>net st w\<rfloor> else 0)"

lemma fraction_dropped_bounds:
  "0 \<le> fraction_dropped st results w \<and> fraction_dropped st results w < 1"
  unfolding fraction_dropped_def by (simp add: of_int_floor_le) linarith

lemma unsettled_leg_truncates:
  assumes known: "results_known st results" and src: "ls_source st \<noteq> SUB_DOLLAR_FLIP"
  shows "settlement_payoff (unsettled_leg st w) results =
    Inr (if leg_wins st results w then net st w - fraction_dropped st results w else 0)"
proof (cases "position st w")
  case None
  then show ?thesis by (simp add: unsettled_leg_def leg_wins_def)
next
  case (Some p)
  have n: "net st w = lp_net p" by (simp add: net_def Some)
  obtain res where res: "map_of results (lp_ticker p) = Some res" "res = ''yes'' \<or> res = ''no''"
    using known [unfolded results_known_def, rule_format, of w] Some by auto
  have "py_trunc (lp_net p) = \<lfloor>lp_net p\<rfloor>" if "0 < lp_net p" using that by (simp add: py_trunc_def)
  then show ?thesis
    using res src
    by (auto simp: unsettled_leg_def Some leg_wins_def fraction_dropped_def n MIN_PAIR_PAYOUT_def)
qed

lemma booked_pnl_exact:
  assumes ok: "ledger_ok st" and known: "results_known st results"
    and src: "ls_source st \<noteq> SUB_DOLLAR_FLIP"
  shows "\<exists>payoff. settlement_payoff (unsettled_legs st) results = Inr payoff \<and>
    true_pnl st results = booked_pnl st payoff +
      fraction_dropped st results High + fraction_dropped st results Low"
proof -
  have "box_floor_booked st = matched_pairs st"
    using no_fill_no_match [OF ok] by (auto simp: box_floor_booked_def)
  moreover have "fraction_dropped st results w = 0" if "\<not> leg_wins st results w" for w
    using that by (simp add: fraction_dropped_def)
  ultimately show ?thesis
    using src unsettled_leg_truncates [OF known src]
    by (simp add: unsettled_legs_def settlement_payoff_append bind_r_simps booked_pnl_def true_pnl_def
        realized_at_close_def realized_cashflow_def FLOOR_SOURCES_def backfill_realized_def
        MIN_PAIR_PAYOUT_def)
qed

lemma booked_pnl_flip:
  assumes known: "results_known st results" and whole: "\<And>w. whole_net st w"
    and src: "ls_source st = SUB_DOLLAR_FLIP" and m: "0 \<le> matched_pairs st"
  shows "\<exists>payoff. settlement_payoff (unsettled_legs st) results = Inr payoff \<and>
    true_pnl st results = booked_pnl st payoff + matched_pairs st * (wins_count st results - 1)"
  using src m unsettled_legs_payoff [OF known whole] sources_distinct
  by (simp add: booked_pnl_def true_pnl_def realized_at_close_def realized_cashflow_def
      FLOOR_SOURCES_def backfill_realized_def MIN_PAIR_PAYOUT_def wins_count_def algebra_simps)

end
