(* ===== verification/Service_Example.thy ===== *)
theory Service_Example
  imports Box Ledger
begin

text \<open>
  Worked instances of the window signal, the wide box, the book and the ledger, on which the
  properties of the service components are applied: a policy with the flip in every quintile, a
  window whose two books make the flip cost less than a dollar with fees, a box roster with one
  hourly strike, and a two-leg session with its responses.
\<close>

section \<open>A window that fires\<close>

definition ex_policy :: policy_params where
  "ex_policy =
     \<lparr>pp_roster_name = JStr ''pilot'', pp_sub_dollar_C_max = 1, pp_q1_strangle_ev_min = 3/100,
      pp_freshness_max_leg_age_s = 10, pp_staleness_s = 60,
      pp_quintile_routing = [(0, [JStr SUB_DOLLAR_FLIP, JStr Q1_STRANGLE]), (1, [JStr SUB_DOLLAR_FLIP])],
      pp_imbalance = \<lparr>ib_pair_cost_ceiling_sub1 = 1, ib_max_retries_per_side = 1,
        ib_no_rebalance_after_s = 60, ib_no_orders_after_s = 30\<rparr>,
      pp_sha256 = ''c0ffee''\<rparr>"

definition ex_top :: "money \<Rightarrow> money \<Rightarrow> top_of_book" where
  "ex_top bid ask =
     \<lparr>yes_bid = Some bid, yes_bid_size = Some 5, yes_ask = Some ask, yes_ask_size = Some 5,
      no_bid = Some (1 - ask), no_bid_size = Some 5, no_ask = Some (1 - bid), no_ask_size = Some 5,
      suspect = False\<rparr>"

definition ex_window :: window_state where
  "ex_window = new_window ''2026-01-01T00:15'' 10000 ''H'' ''L'' 1 0 False False"

definition ex_tape :: "sig_event list" where
  "ex_tape = [SBook ''H'' (ex_top (60/100) (62/100)) 9500, SBook ''L'' (ex_top (52/100) (54/100)) 9501]"

lemma ex_fee: "fee (2/5) = 168/10000" "fee (27/50) = 174/10000" "fee (9/10) = 63/10000"
    "fee (93/100) = 46/10000"
  by (simp_all add: fee_def fee_rate_def ceiling_eq_iff)

lemma ex_window_fires: "\<exists>a \<in> set (snd (run_core (decide ex_policy) ex_window ex_tape)). is_fire a"
  by (simp add: ex_tape_def ex_window_def new_window_def ex_policy_def ex_top_def decide_def
      fold_leg_def both_fresh_def leg_age_def fire_step_def qualify_flip_def flip_cost_def
      leg_cost_def sources_for_quintile_def dict_get_default_def pp_no_orders_after_s_def
      WINDOW_S_def is_fire_def ex_fee Let_def)

section \<open>A box that fires\<close>

definition ex_roster :: box_params where
  "ex_roster =
     \<lparr>bp_roster_name = JStr ''box'', bp_target_mid = 9/10, bp_hourly_ask_min = 4/5,
      bp_hourly_ask_max = 97/100, bp_min15_ask = 4/5, bp_max_spread = 1/20,
      bp_limit_margin = 1/50, bp_entry_start_s = 600, bp_entry_end_s = 60,
      bp_freshness_max_leg_age_s = 10, bp_no_orders_after_s = 30, bp_contracts = 1,
      bp_pair_cost_max = 2, bp_min_implied_pin = 3/4, bp_sha256 = ''b0c5''\<rparr>"

definition ex_box :: box_state where
  "ex_box = new_box_state ''2026-01-01T01:00'' 10000 50000 ''M'' [(''K'', 49000)] False"

definition ex_box_tape :: "sig_event list" where
  "ex_box_tape = [SBook ''M'' (ex_top (8/100) (1/10)) 9500, SBook ''K'' (ex_top (88/100) (9/10)) 9501]"

lemma ex_box_fires:
  "\<exists>a \<in> set (snd (run_core (decide_box ex_roster) ex_box ex_box_tape)). is_fire a"
  by (simp add: ex_box_tape_def ex_box_def new_box_state_def ex_roster_def ex_top_def decide_box_def
      fold_box_def view_of_def select_box_def box_ladder_def box_candidate_def make_selection_def
      box_enter_def sel_fresh_def box_leg_fresh_def in_entry_def mid_of_def box_action_def
      is_fire_def dict_keys_def List.map_filter_simps Let_def)

section \<open>A session that fills both legs\<close>

definition ex_leg :: "ticker \<Rightarrow> string \<Rightarrow> money \<Rightarrow> string \<Rightarrow> intent_leg" where
  "ex_leg tk side price cid =
     \<lparr>il_ticker = tk, il_side = side, il_action = ''buy'', il_count = 1, il_limit_price = price,
      il_client_order_id = cid, il_reduce_only = None, il_exchange_index = Some 3\<rparr>"

definition ex_intent :: "string \<Rightarrow> intent" where
  "ex_intent source =
     \<lparr>in_window = ''W'', in_source = source, in_purpose = PURPOSE_ENTRY,
      in_legs = [ex_leg ''H'' ''no'' (2/5) ''c1'', ex_leg ''L'' ''yes'' (54/100) ''c2''],
      in_t_minus = Some 499\<rparr>"

definition ex_response :: "string \<Rightarrow> money \<Rightarrow> money \<Rightarrow> order_response" where
  "ex_response cid price raw =
     \<lparr>or_client_order_id = Some cid, or_order_id = Some ''o'', or_fill_count = 1,
      or_remaining_count = 0, or_average_fill_price = Some price,
      or_average_fee_paid = Some (1/50), or_ts_ms = None, or_raw_reported_price = Some raw,
      or_error = None, or_no_fill = False\<rparr>"

definition ex_ops :: "string \<Rightarrow> ledger_op list" where
  "ex_ops source =
     [Op_Intent (ex_intent source), Op_Response (ex_response ''c1'' (2/5) (3/5)),
      Op_Response (ex_response ''c2'' (54/100) (54/100))]"

lemma ex_decimals: "is_decimal (2/5)" "is_decimal (3/5)" "is_decimal (27/50)" "is_decimal (1/50)"
    "is_decimal 1" "is_decimal 0"
  by (rule is_decimal_whole_cent, simp add: whole_cent_def)+

lemma ex_ops_printable: "list_all op_printable (ex_ops source)"
  by (simp add: ex_ops_def ex_intent_def ex_leg_def ex_response_def opt_decimal_def ex_decimals)

definition ex_session :: "string \<Rightarrow> ledger_state" where
  "ex_session source = foldl apply_op (new_ledger ''W'' source ''H'' ''L'') (ex_ops source)"

lemma ex_session_state:
  "ls_source (ex_session source) = source"
  "position (ex_session source) High = Some ((new_position ''H'' ''no'')
     \<lparr>lp_bought := 1, lp_bought_notional := 2/5, lp_buy_fees := 1/50\<rparr>)"
  "position (ex_session source) Low = Some ((new_position ''L'' ''yes'')
     \<lparr>lp_bought := 1, lp_bought_notional := 27/50, lp_buy_fees := 1/50\<rparr>)"
  by (simp_all add: ex_session_def ex_ops_def ex_intent_def ex_leg_def ex_response_def new_ledger_def
      record_intent_def record_response_def real_cid_def fee_of_def fold_fill_def FEE_IS_TOTAL_def
      dict_get_default_def new_position_def position_def PURPOSE_ENTRY_def Let_def)

definition ex_results :: "(ticker, string) dict" where
  "ex_results = [(''H'', ''no''), (''L'', ''yes'')]"

lemma ex_session_facts:
  "results_known (ex_session source) ex_results" "whole_net (ex_session source) w"
  "matched_pairs (ex_session source) = 1"
proof -
  show "results_known (ex_session source) ex_results"
    unfolding results_known_def
  proof
    fix w
    show "case position (ex_session source) w of None \<Rightarrow> True
      | Some p \<Rightarrow> map_of ex_results (lp_ticker p) \<in> {Some ''yes'', Some ''no''}"
      by (cases w) (simp_all add: ex_session_state ex_results_def new_position_def)
  qed
  show "whole_net (ex_session source) w"
    by (cases w) (simp_all add: whole_net_def net_def ex_session_state lp_net_def new_position_def)
  show "matched_pairs (ex_session source) = 1"
    by (simp add: matched_pairs_def net_def ex_session_state lp_net_def new_position_def)
qed

end
