(* ===== verification/V33_Types.thy ===== *)
theory V33_Types
  imports V32_Core Orders
begin

text \<open>
  The vocabulary of the V3.3 rolling-ladder core: the frozen policy and its loader
  (\<open>v33/params.py\<close>), the action kinds and their shakedown twins (\<open>v33/actions.py\<close>), the
  events (\<open>v33/events.py\<close>: those of V3.2 with the wider private fill and cancel confirm), and
  the records of the window state (\<open>v33/core.py\<close>). \<open>V33State\<close> carries the book fields of
  \<open>V32State\<close> under the same names so that the imported V3.2 law duck-types over it:
  \<open>law_view\<close> is that view, and \<open>law_params\<close> the policy fields the law reads.
\<close>

section \<open>The policy\<close>

record v33_params =
  q_E_min :: money
  q_rungs :: int
  q_lots_per_rung :: int
  q_rung_lots :: "int list"
  q_tol :: money
  q_deb_ms :: int
  q_quote_start_s :: int
  q_quote_end_s :: int
  q_wing_margin :: money
  q_lock_floor :: money
  q_no_orders_after_s :: int
  q_freshness_max_age_s :: time
  q_bucket_freshness_max_age_s :: time
  q_wing_coalesce_ms :: int
  q_refill_in_window :: bool
  q_max_amends :: int
  q_max_sets_per_hour :: int
  q_n_min :: money
  q_replace_rate_alarm :: int
  q_bucket_width :: int
  q_switch_deb_ms :: int
  q_switch_hysteresis_usd :: int
  q_switch_max_pending_ms :: int
  q_stand_down_hold_ms :: int
  q_strike_feed_dead_s :: time
  q_wing_book_max_age_s :: time
  q_order_hint :: int
  q_write_tokens :: int
  q_write_bucket :: int
  q_write_reserve :: int
  q_poll_batched :: bool
  q_deep_obs_rungs :: int
  q_print_through :: bool
  q_pt_ticks :: int
  q_pt_slack_c :: int
  q_pt_stall_ms :: int
  q_pt_min_lock_c :: int
  q_pt_policy :: string
  q_shadow_Es :: "money list"
  q_sha256 :: string

definition STRIKE_FEED_DEAD_DEFAULT :: time where
  "STRIKE_FEED_DEAD_DEFAULT = 4"

definition WING_BOOK_MAX_AGE_DEFAULT :: time where
  "WING_BOOK_MAX_AGE_DEFAULT = 30"

definition PRINT_THROUGH_POLICIES :: "string list" where
  "PRINT_THROUGH_POLICIES = [''complete_else_unwind'', ''complete'', ''unwind'']"

definition MIN_NONPRIORITY_WRITE_COST :: int where
  "MIN_NONPRIORITY_WRITE_COST = 10"

text \<open>
  The optional per-rung weights: absent (or null) is the uniform ladder; otherwise a list of
  exactly \<open>rungs\<close> non-negative integers, not all zero.
\<close>

fun read_rung_lots :: "json list \<Rightarrow> params_error + int list" where
  "read_rung_lots [] = Inr []"
| "read_rung_lots (x # xs) =
     (case json_int x of
        None \<Rightarrow> Inl (BadValue ''rung_lots'')
      | Some k \<Rightarrow>
          if k < 0 then Inl ParamsInvalid
          else bind_r (read_rung_lots xs) (\<lambda>ks. Inr (k # ks)))"

definition resolve_rung_lots :: "(string \<times> json) list \<Rightarrow> int \<Rightarrow> int \<Rightarrow> params_error + int list" where
  "resolve_rung_lots raw rungs lots_per_rung =
     (case map_of raw ''rung_lots'' of
        None \<Rightarrow> Inr (replicate (nat rungs) lots_per_rung)
      | Some JNull \<Rightarrow> Inr (replicate (nat rungs) lots_per_rung)
      | Some (JList xs) \<Rightarrow>
          if int (length xs) \<noteq> rungs then Inl ParamsInvalid
          else bind_r (read_rung_lots xs) (\<lambda>ks.
               if \<not> list_ex (\<lambda>k. 0 < k) ks then Inl ParamsInvalid else Inr ks)
      | Some _ \<Rightarrow> Inl ParamsInvalid)"

definition guard_r :: "bool \<Rightarrow> params_error + unit" where
  "guard_r bad = (if bad then Inl ParamsInvalid else Inr ())"

text \<open>An optional liveness bound: its default when absent, refused when not finite.\<close>

definition read_bound :: "(string \<times> json) list \<Rightarrow> string \<Rightarrow> time \<Rightarrow> params_error + time" where
  "read_bound raw k dflt =
     (case map_of raw k of
        None \<Rightarrow> Inr dflt
      | Some JNonFinite \<Rightarrow> Inl ParamsInvalid
      | Some v \<Rightarrow> (case json_float v of None \<Rightarrow> Inl (BadValue k) | Some x \<Rightarrow> Inr x))"

definition json_text_in :: "string list \<Rightarrow> json \<Rightarrow> bool" where
  "json_text_in ss v = (case v of JStr s \<Rightarrow> s \<in> set ss | _ \<Rightarrow> False)"

definition shadow_outside :: "money \<Rightarrow> int \<Rightarrow> money list \<Rightarrow> bool" where
  "shadow_outside E_min rungs Es =
     list_ex (\<lambda>E. \<not> (E_min \<le> E \<and> E \<le> E_min + of_int (rungs - 1) * cent)) Es"

text \<open>
  \<open>load_v33_params\<close> in three stages, in the source's order: the ladder, the structural checks,
  and the field reads of the constructor call. Short-circuited reads stay unread.
\<close>

definition load_ladder ::
  "(string \<times> json) list \<Rightarrow> params_error + money \<times> int \<times> int \<times> int list" where
  "load_ladder raw =
     bind_r (need to_decimal raw ''E_min'') (\<lambda>E_min.
     bind_r (need json_int raw ''rungs'') (\<lambda>rungs.
     bind_r (guard_r (rungs < 1)) (\<lambda>_.
     bind_r (need Some raw ''refill_in_window'') (\<lambda>refill.
     bind_r (guard_r (json_truthy refill)) (\<lambda>_.
     bind_r (need json_int raw ''max_amends_in_flight'') (\<lambda>amends.
     bind_r (guard_r (amends < 1)) (\<lambda>_.
     bind_r (need json_int raw ''lots_per_rung'') (\<lambda>per.
     bind_r (resolve_rung_lots raw rungs per) (\<lambda>lots.
     Inr (E_min, rungs, per, lots))))))))))"

definition check_writes :: "(string \<times> json) list \<Rightarrow> int list \<Rightarrow> params_error + unit" where
  "check_writes raw rung_lots =
     bind_r (need json_int raw ''max_contracts_per_order_hint'') (\<lambda>hint.
     bind_r (guard_r (hint < Max (set rung_lots))) (\<lambda>_.
     bind_r (need json_int raw ''write_tokens_per_s'') (\<lambda>tok.
     bind_r (guard_r (tok < 1)) (\<lambda>_.
     bind_r (need json_int raw ''write_bucket_size'') (\<lambda>bucket.
     bind_r (guard_r (bucket < 1)) (\<lambda>_.
     bind_r (need json_int raw ''write_reserve_tokens'') (\<lambda>reserve.
     bind_r (guard_r (reserve < 0 \<or> bucket < reserve + MIN_NONPRIORITY_WRITE_COST)) (\<lambda>_.
     bind_r (need json_int raw ''deep_obs_rungs'') (\<lambda>deep. guard_r (deep < 0))))))))))"

definition check_print_through :: "(string \<times> json) list \<Rightarrow> params_error + unit" where
  "check_print_through raw =
     bind_r (need json_int raw ''print_through_ticks'') (\<lambda>ticks.
     bind_r (guard_r (ticks < 0)) (\<lambda>_.
     bind_r (need json_int raw ''print_through_slack_c'') (\<lambda>slack.
     bind_r (guard_r (slack < 0)) (\<lambda>_.
     bind_r (need json_int raw ''print_through_stall_ms'') (\<lambda>stall.
     bind_r (guard_r (stall < 0)) (\<lambda>_.
     bind_r (need Some raw ''print_through_policy'') (\<lambda>policy.
     guard_r (\<not> json_text_in PRINT_THROUGH_POLICIES policy))))))))"

definition check_switch :: "(string \<times> json) list \<Rightarrow> params_error + unit" where
  "check_switch raw =
     bind_r (need json_int raw ''bucket_switch_deb_ms'') (\<lambda>deb.
     bind_r (guard_r (deb < 0)) (\<lambda>_.
     bind_r (need json_int raw ''stand_down_hold_ms'') (\<lambda>hold.
     bind_r (guard_r (hold < 0)) (\<lambda>_.
     bind_r (need json_int raw ''bucket_switch_hysteresis_usd'') (\<lambda>hyst.
     bind_r (guard_r (hyst < 0)) (\<lambda>_.
     bind_r (need json_int raw ''bucket_width'') (\<lambda>width.
     bind_r (guard_r (width \<le> 2 * hyst)) (\<lambda>_.
     bind_r (need json_int raw ''bucket_switch_max_pending_ms'') (\<lambda>pend.
     guard_r (pend < deb))))))))))"

definition load_liveness :: "(string \<times> json) list \<Rightarrow> params_error + time \<times> time" where
  "load_liveness raw =
     bind_r (read_bound raw ''strike_feed_dead_s'' STRIKE_FEED_DEAD_DEFAULT) (\<lambda>feed.
     bind_r (read_bound raw ''wing_book_max_age_s'' WING_BOOK_MAX_AGE_DEFAULT) (\<lambda>wing.
     bind_r (guard_r (\<not> 0 < feed \<or> \<not> 0 < wing)) (\<lambda>_.
     bind_r (need json_float raw ''freshness_max_age_s'') (\<lambda>age.
     bind_r (guard_r (wing < age)) (\<lambda>_. Inr (feed, wing))))))"

definition read_quote_fields ::
  "(string \<times> json) list \<Rightarrow> v33_params \<Rightarrow> params_error + v33_params" where
  "read_quote_fields raw p =
     bind_r (need to_decimal raw ''tol'') (\<lambda>tol.
     bind_r (need json_int raw ''deb_ms'') (\<lambda>deb.
     bind_r (need json_int raw ''quote_start_s'') (\<lambda>qs.
     bind_r (need json_int raw ''quote_end_s'') (\<lambda>qe.
     bind_r (need to_decimal raw ''wing_margin'') (\<lambda>wm.
     bind_r (need to_decimal raw ''lock_floor'') (\<lambda>lf.
     bind_r (need json_int raw ''no_orders_after_s_to_settle'') (\<lambda>noa.
     bind_r (need json_float raw ''freshness_max_age_s'') (\<lambda>fr.
     bind_r (need json_float raw ''bucket_freshness_max_age_s'') (\<lambda>bf.
     bind_r (need json_int raw ''wing_coalesce_ms'') (\<lambda>wc.
     bind_r (need Some raw ''refill_in_window'') (\<lambda>rf.
     bind_r (need json_int raw ''max_amends_in_flight'') (\<lambda>ma.
     bind_r (need json_int raw ''max_sets_per_hour'') (\<lambda>ms.
     bind_r (need to_decimal raw ''n_min'') (\<lambda>nm.
     bind_r (need json_int raw ''replace_rate_alarm_per_min'') (\<lambda>rr.
     bind_r (need json_int raw ''bucket_width'') (\<lambda>bw.
     Inr (p\<lparr>q_tol := tol, q_deb_ms := deb, q_quote_start_s := qs, q_quote_end_s := qe,
            q_wing_margin := wm, q_lock_floor := lf, q_no_orders_after_s := noa,
            q_freshness_max_age_s := fr, q_bucket_freshness_max_age_s := bf,
            q_wing_coalesce_ms := wc, q_refill_in_window := json_truthy rf, q_max_amends := ma,
            q_max_sets_per_hour := ms, q_n_min := nm, q_replace_rate_alarm := rr,
            q_bucket_width := bw\<rparr>)))))))))))))))))"

definition read_write_fields ::
  "(string \<times> json) list \<Rightarrow> v33_params \<Rightarrow> params_error + v33_params" where
  "read_write_fields raw p =
     bind_r (need json_int raw ''bucket_switch_deb_ms'') (\<lambda>sd.
     bind_r (need json_int raw ''bucket_switch_hysteresis_usd'') (\<lambda>sh.
     bind_r (need json_int raw ''bucket_switch_max_pending_ms'') (\<lambda>sp.
     bind_r (need json_int raw ''stand_down_hold_ms'') (\<lambda>hold.
     bind_r (need json_int raw ''max_contracts_per_order_hint'') (\<lambda>hint.
     bind_r (need json_int raw ''write_tokens_per_s'') (\<lambda>wt.
     bind_r (need json_int raw ''write_bucket_size'') (\<lambda>wb.
     bind_r (need json_int raw ''write_reserve_tokens'') (\<lambda>wr.
     bind_r (need Some raw ''order_poll_batched'') (\<lambda>pb.
     bind_r (need json_int raw ''deep_obs_rungs'') (\<lambda>deep.
     bind_r (need Some raw ''print_through'') (\<lambda>pt.
     bind_r (need json_int raw ''print_through_ticks'') (\<lambda>tk.
     bind_r (need json_int raw ''print_through_slack_c'') (\<lambda>sl.
     bind_r (need json_int raw ''print_through_stall_ms'') (\<lambda>st.
     bind_r (need json_int raw ''print_through_min_lock_c'') (\<lambda>ml.
     bind_r (need Some raw ''print_through_policy'') (\<lambda>pol.
     Inr (p\<lparr>q_switch_deb_ms := sd, q_switch_hysteresis_usd := sh, q_switch_max_pending_ms := sp,
            q_stand_down_hold_ms := hold, q_order_hint := hint, q_write_tokens := wt,
            q_write_bucket := wb, q_write_reserve := wr, q_poll_batched := json_truthy pb,
            q_deep_obs_rungs := deep, q_print_through := json_truthy pt, q_pt_ticks := tk,
            q_pt_slack_c := sl, q_pt_stall_ms := st, q_pt_min_lock_c := ml,
            q_pt_policy := (case pol of JStr s \<Rightarrow> s | _ \<Rightarrow> [])\<rparr>)))))))))))))))))"

definition ladder_params ::
  "string \<Rightarrow> money \<Rightarrow> int \<Rightarrow> int \<Rightarrow> int list \<Rightarrow> time \<Rightarrow> time \<Rightarrow> money list \<Rightarrow> v33_params" where
  "ladder_params sha E_min rungs per lots feed wing Es =
     \<lparr>q_E_min = E_min, q_rungs = rungs, q_lots_per_rung = per, q_rung_lots = lots, q_tol = 0,
      q_deb_ms = 0, q_quote_start_s = 0, q_quote_end_s = 0, q_wing_margin = 0, q_lock_floor = 0,
      q_no_orders_after_s = 0, q_freshness_max_age_s = 0, q_bucket_freshness_max_age_s = 0,
      q_wing_coalesce_ms = 0, q_refill_in_window = False, q_max_amends = 0,
      q_max_sets_per_hour = 0, q_n_min = 0, q_replace_rate_alarm = 0, q_bucket_width = 0,
      q_switch_deb_ms = 0, q_switch_hysteresis_usd = 0, q_switch_max_pending_ms = 0,
      q_stand_down_hold_ms = 0, q_strike_feed_dead_s = feed, q_wing_book_max_age_s = wing,
      q_order_hint = 0, q_write_tokens = 0, q_write_bucket = 0, q_write_reserve = 0,
      q_poll_batched = False, q_deep_obs_rungs = 0, q_print_through = False, q_pt_ticks = 0,
      q_pt_slack_c = 0, q_pt_stall_ms = 0, q_pt_min_lock_c = 0, q_pt_policy = [],
      q_shadow_Es = Es, q_sha256 = sha\<rparr>"

definition load_v33_params ::
  "string \<Rightarrow> (string \<times> json) list \<Rightarrow> string option \<Rightarrow> params_error + v33_params" where
  "load_v33_params sha raw expected =
     (if sha_refused sha expected then Inl (ShaMismatch sha) else
      bind_r (load_ladder raw) (\<lambda>(E_min, rungs, per, lots).
      bind_r (check_writes raw lots) (\<lambda>_.
      bind_r (check_print_through raw) (\<lambda>_.
      bind_r (check_switch raw) (\<lambda>_.
      bind_r (load_liveness raw) (\<lambda>(feed, wing).
      bind_r (need json_decimals raw ''shadow_Es'') (\<lambda>Es.
      bind_r (guard_r (shadow_outside E_min rungs Es)) (\<lambda>_.
      bind_r (read_quote_fields raw (ladder_params sha E_min rungs per lots feed wing Es))
        (read_write_fields raw)))))))))"

lemma bind_rE: "bind_r r f = Inr y \<Longrightarrow> (\<And>x. r = Inr x \<Longrightarrow> f x = Inr y \<Longrightarrow> P) \<Longrightarrow> P"
  by (auto simp: bind_r_Inr_iff)

lemma read_quote_keep:
  assumes "read_quote_fields raw p = Inr p1"
  shows "q_sha256 p1 = q_sha256 p \<and> q_E_min p1 = q_E_min p \<and> q_rungs p1 = q_rungs p \<and>
    q_shadow_Es p1 = q_shadow_Es p \<and> q_rung_lots p1 = q_rung_lots p \<and>
    need json_int raw ''max_amends_in_flight'' = Inr (q_max_amends p1)"
  using assms unfolding read_quote_fields_def
  by (elim bind_rE) (drule Inr_inject, hypsubst, simp)

lemma read_write_keep:
  assumes "read_write_fields raw p1 = Inr p2"
  shows "q_sha256 p2 = q_sha256 p1 \<and> q_E_min p2 = q_E_min p1 \<and> q_rungs p2 = q_rungs p1 \<and>
    q_shadow_Es p2 = q_shadow_Es p1 \<and> q_rung_lots p2 = q_rung_lots p1 \<and> q_max_amends p2 = q_max_amends p1 \<and>
    need json_int raw ''max_contracts_per_order_hint'' = Inr (q_order_hint p2) \<and>
    need json_int raw ''write_tokens_per_s'' = Inr (q_write_tokens p2) \<and>
    need json_int raw ''write_bucket_size'' = Inr (q_write_bucket p2) \<and>
    need json_int raw ''write_reserve_tokens'' = Inr (q_write_reserve p2)"
  using assms unfolding read_write_fields_def
  by (elim bind_rE) (drule Inr_inject, hypsubst, simp)

text \<open>What the loaded parameters satisfy, whatever the file: the structural checks of the loader.\<close>

definition sound_v33_params :: "v33_params \<Rightarrow> bool" where
  "sound_v33_params p \<longleftrightarrow>
     \<not> shadow_outside (q_E_min p) (q_rungs p) (q_shadow_Es p) \<and> 1 \<le> q_rungs p \<and> 1 \<le> q_max_amends p \<and>
     Max (set (q_rung_lots p)) \<le> q_order_hint p \<and> 1 \<le> q_write_tokens p \<and> 0 \<le> q_write_reserve p \<and>
     q_write_reserve p + MIN_NONPRIORITY_WRITE_COST \<le> q_write_bucket p"

lemma guard_ok: "guard_r bad = Inr u \<longleftrightarrow> \<not> bad"
  by (simp add: guard_r_def)

lemma load_v33_checked:
  assumes "load_v33_params sha raw expected = Inr p"
  shows "\<not> sha_refused sha expected \<and> q_sha256 p = sha \<and> sound_v33_params p"
proof -
  from assms obtain E_min rungs per lots feed wing Es p1 where
    sha: "\<not> sha_refused sha expected"
    and l: "load_ladder raw = Inr (E_min, rungs, per, lots)" and w: "check_writes raw lots = Inr ()"
    and s: "\<not> shadow_outside E_min rungs Es"
    and q: "read_quote_fields raw (ladder_params sha E_min rungs per lots feed wing Es) = Inr p1"
    and r: "read_write_fields raw p1 = Inr p"
    unfolding load_v33_params_def
    by (fastforce elim!: bind_rE simp: guard_ok split: if_splits prod.splits)
  have lad: "1 \<le> rungs" "\<exists>a. need json_int raw ''max_amends_in_flight'' = Inr a \<and> 1 \<le> a"
    using l unfolding load_ladder_def by (auto elim!: bind_rE simp: guard_ok)
  have wr: "\<exists>hint tok bucket reserve. need json_int raw ''max_contracts_per_order_hint'' = Inr hint \<and>
      need json_int raw ''write_tokens_per_s'' = Inr tok \<and> need json_int raw ''write_bucket_size'' = Inr bucket \<and>
      need json_int raw ''write_reserve_tokens'' = Inr reserve \<and> Max (set lots) \<le> hint \<and> 1 \<le> tok \<and>
      0 \<le> reserve \<and> reserve + MIN_NONPRIORITY_WRITE_COST \<le> bucket"
    using w unfolding check_writes_def by (auto elim!: bind_rE simp: guard_ok)
  show ?thesis
    using sha s lad wr read_quote_keep [OF q] read_write_keep [OF r]
    by (auto simp: sound_v33_params_def ladder_params_def)
qed

section \<open>Actions\<close>

text \<open>The inherited kinds and the V3.3-only ones are disjoint enumerations.\<close>

datatype v33_kind =
    Inherited action_kind
  | TAKE_BUCKET_NO | UNWIND_WINGS | WOULD_TAKE_BUCKET_NO | WOULD_UNWIND_WINGS
  | WING_NETTED | ALARM

fun v33_would_twin :: "v33_kind \<Rightarrow> v33_kind option" where
  "v33_would_twin TAKE_BUCKET_NO = Some WOULD_TAKE_BUCKET_NO"
| "v33_would_twin UNWIND_WINGS = Some WOULD_UNWIND_WINGS"
| "v33_would_twin _ = None"

definition twin_kind33 :: "v33_kind \<Rightarrow> bool \<Rightarrow> v33_kind" where
  "twin_kind33 kind shakedown =
     (if \<not> shakedown then kind
      else case kind of
             Inherited k \<Rightarrow> Inherited (twin_kind k shakedown)
           | _ \<Rightarrow> (case v33_would_twin kind of Some k \<Rightarrow> k | None \<Rightarrow> kind))"

text \<open>
  \<open>V33Action\<close> is \<open>V32Action\<close> with a kind of either enumeration; a leg's limit is absent on
  the deferred leg of a partial take.
\<close>

record leg_order33 =
  lg_ticker :: ticker
  lg_side :: string
  lg_action :: string
  lg_count :: lots
  lg_limit :: "money option"

record v33_action =
  y_kind :: v33_kind
  y_ticker :: "ticker option"
  y_side :: "string option"
  y_action :: "string option"
  y_count :: lots
  y_price :: "money option"
  y_expiration_epoch :: "int option"
  y_coid :: "string option"
  y_order_id :: "string option"
  y_updated_coid :: "string option"
  y_legs :: "leg_order33 list"
  y_reason :: "string option"
  y_lock :: "money option"
  y_shadow_E :: "money option"
  y_offer :: "money option"
  y_print_price :: "money option"
  y_t_to_close :: "time option"

definition blank_action33 :: "v33_kind \<Rightarrow> v33_action" where
  "blank_action33 kind =
     \<lparr>y_kind = kind, y_ticker = None, y_side = None, y_action = None, y_count = 0,
      y_price = None, y_expiration_epoch = None, y_coid = None, y_order_id = None,
      y_updated_coid = None, y_legs = [], y_reason = None, y_lock = None, y_shadow_E = None,
      y_offer = None, y_print_price = None, y_t_to_close = None\<rparr>"

text \<open>An action the imported V3.2 shadow emits, as a V3.3 action.\<close>

definition lift_leg :: "leg_order \<Rightarrow> leg_order33" where
  "lift_leg l = \<lparr>lg_ticker = lo_ticker l, lg_side = lo_side l, lg_action = lo_action l,
                 lg_count = lo_count l, lg_limit = Some (lo_limit l)\<rparr>"

definition lift_action :: "v32_action \<Rightarrow> v33_action" where
  "lift_action a =
     \<lparr>y_kind = Inherited (a_kind a), y_ticker = a_ticker a, y_side = a_side a,
      y_action = a_action a, y_count = a_count a, y_price = a_price a,
      y_expiration_epoch = a_expiration_epoch a, y_coid = a_coid a, y_order_id = a_order_id a,
      y_updated_coid = a_updated_coid a, y_legs = map lift_leg (a_legs a),
      y_reason = a_reason a, y_lock = a_lock a, y_shadow_E = a_shadow_E a, y_offer = a_offer a,
      y_print_price = a_print_price a, y_t_to_close = a_t_to_close a\<rparr>"

section \<open>Events\<close>

text \<open>
  \<open>V33Fill\<close> adds the fill's own market ticker and its reporting channel; the core guards
  against a missing coid and a missing price, so both are optional here. \<open>OrderCancelled\<close>
  carries the identity, price and market of the order when the executor knows them.
\<close>

record v33_fill =
  vf_order_id :: "string option"
  vf_coid :: "string option"
  vf_count :: lots
  vf_price :: "money option"
  vf_side :: string
  vf_server_ts :: time
  vf_market :: "ticker option"
  vf_source :: "string option"

record v33_cancelled =
  vc_order_id :: "string option"
  vc_server_ts :: time
  vc_filled_before :: lots
  vc_coid :: "string option"
  vc_price :: "money option"
  vc_market :: "ticker option"

datatype v33_event =
    Book33 book_update
  | Trade33 trade
  | Fill33 v33_fill
  | Ack33 order_ack
  | Cancelled33 v33_cancelled
  | Amended33 order_amended
  | Clock33 time

fun event_ts33 :: "v33_event \<Rightarrow> time" where
  "event_ts33 (Book33 e) = bu_server_ts e"
| "event_ts33 (Trade33 e) = tr_server_ts e"
| "event_ts33 (Fill33 e) = vf_server_ts e"
| "event_ts33 (Ack33 e) = oa_server_ts e"
| "event_ts33 (Cancelled33 e) = vc_server_ts e"
| "event_ts33 (Amended33 e) = om_server_ts e"
| "event_ts33 (Clock33 t) = t"

section \<open>Records carried in the state\<close>

record rung_order = rest_order +
  ru_rung :: int
  ru_E_rung :: money

record rung_fill =
  rg_rung :: int
  rg_E_rung :: money
  rg_price :: money
  rg_count :: lots
  rg_server_ts :: time
  rg_coid :: "string option"
  rg_order_id :: "string option"
  rg_W :: "money option"
  rg_n_top :: "money option"
  rg_bucket_ticker :: "ticker option"
  rg_bucket_Sd :: "int option"
  rg_bucket_Su :: "int option"
  rg_taker :: bool
  rg_weight :: "int option"
  rg_orphan :: bool

record leg33 = wing_leg +
  wl_last_retry_ts :: "time option"
  wl_netted :: lots

record batch33 =
  bt_index :: nat
  bt_server_ts :: time
  bt_fills :: "rung_fill list"
  bt_taken :: bool
  bt_completed :: bool
  bt_one_legged :: bool
  bt_print_through :: bool
  bt_taken_count :: lots
  bt_resolved :: bool
  bt_bucket_Sd :: "int option"
  bt_retries :: nat

definition fills_total :: "rung_fill list \<Rightarrow> lots" where
  "fills_total fs = sum_list (map rg_count fs)"

definition total_count :: "batch33 \<Rightarrow> lots" where
  "total_count b = fills_total (bt_fills b)"

definition leg_count :: "batch33 \<Rightarrow> lots" where
  "leg_count b = (if bt_print_through b then bt_taken_count b else total_count b)"

record netted_pair =
  np_ticker :: ticker
  np_count :: lots
  np_yes_cost :: money
  np_no_cost :: money
  np_realised :: money
  np_yes_batch :: nat
  np_no_batch :: nat
  np_server_ts :: time

record pt_trigger =
  pt_batch_index :: nat
  pt_rung_coids :: "string list"
  pt_rung_prices :: "money list"
  pt_count :: lots
  pt_trigger_ts :: time
  pt_yes_print :: money
  pt_W_at :: "money option"
  pt_n_top_at :: "money option"
  pt_lock_at :: "money option"
  pt_yes_ask_at :: "money option"
  pt_no_ask_at :: "money option"
  pt_filled_coids :: "string list"
  pt_resolved :: bool
  pt_resolution :: "string option"
  pt_shortfall :: lots
  pt_complete_price :: "money option"
  pt_lock_at_completion :: "money option"
  pt_roundtrip_cost :: "money option"
  pt_resolved_ts :: "time option"
  pt_stall_pending :: bool
  pt_pending_cancels :: "string list"
  pt_complete_coid :: "string option"

record coalesce_group =
  cg_index :: nat
  cg_first_ts :: time
  cg_fills :: "rung_fill list"

record roll_pending =
  rp_order_id :: "string option"
  rp_old_coid :: string
  rp_new_coid :: string
  rp_target_price :: money
  rp_target_margin :: int
  rp_started_ts :: time

text \<open>\<open>cancel_ctx\<close>: coid, price, rung, margin and bucket of a cancelled order.\<close>

type_synonym cancel_ctx33 = "string \<times> money \<times> int \<times> money \<times> int option"

section \<open>The window state\<close>

record v33_state =
  x_close_time :: string
  x_close_epoch :: int
  x_bucket_map :: bucket_map
  x_shakedown :: bool
  x_strike_tops :: "(int, top_of_book) dict"
  x_strike_ts :: "(int, time) dict"
  x_strike_tickers :: "(int, ticker) dict"
  x_strike_floor_map :: "(ticker, int) dict"
  x_bucket_tops :: "(int, top_of_book) dict"
  x_bucket_ts :: "(int, time) dict"
  x_bucket_tickers :: "(int, ticker) dict"
  x_strike_feed_ts :: "time option"
  x_spot_Sd :: "int option"
  x_spot_Su :: "int option"
  x_W :: "money option"
  x_cap :: "money option"
  x_n_top :: "money option"
  x_spot_bucket_stale :: bool
  x_ladder :: "rung_order list"
  x_margin_state :: "nat list"
  x_filled_at :: "(int, rung_fill) dict"
  x_rolls :: "roll_pending list"
  x_converging_dir :: int
  x_awaiting_replace :: bool
  x_outstanding_cancels :: nat
  x_cancel_pending_px :: "(string, money) dict"
  x_rest_bucket_Sd :: "int option"
  x_last_replace_ts :: "time option"
  x_replace_count :: nat
  x_replace_times :: "time list"
  x_roll_count :: nat
  x_roll_single_order_count :: nat
  x_coid_seq :: nat
  x_coid_prefix :: string
  x_rest_fills :: "rung_fill list"
  x_rungs_filled :: nat
  x_rest_booked :: "(string, lots) dict"
  x_cancel_ctx :: "(string, cancel_ctx33) dict"
  x_bucket_unknown :: bool
  x_amend_cross_pending :: "(string, lots) dict"
  x_fill_seen :: "(string, lots) dict"
  x_rest_allotment_done :: bool
  x_coalesce_open :: "coalesce_group option"
  x_wing_batches :: "batch33 list"
  x_wing_legs :: "leg33 list"
  x_next_batch_index :: nat
  x_sets_done :: lots
  x_one_legged :: bool
  x_netted_pairs :: "netted_pair list"
  x_print_through :: "pt_trigger list"
  x_pt_stood_down :: bool
  x_pt_one_legged :: bool
  x_shadows :: "(money, shadow_sub) dict"
  x_stood_down :: bool
  x_stand_down_reason :: "string option"
  x_last_standdown_reason :: "string option"
  x_pending_switch_Sd :: "int option"
  x_pending_switch_since :: "time option"
  x_pending_switch_hyst_met :: bool
  x_hold_reason :: "string option"
  x_hold_since :: "time option"
  x_wing_sub_cause :: "string option"
  x_hold_sub_cause :: "string option"

definition emin_cents :: "v33_params \<Rightarrow> int" where
  "emin_cents params = round_half_even (q_E_min params / cent)"

definition weight_of_rung :: "v33_params \<Rightarrow> int \<Rightarrow> int" where
  "weight_of_rung params k =
     (if 0 \<le> k \<and> k < int (length (q_rung_lots params)) then q_rung_lots params ! nat k else 0)"

text \<open>The initial margin array: 1 (order wanted) at each of the \<open>rungs\<close> weighted margins.\<close>

definition initial_margins :: "v33_params \<Rightarrow> nat list" where
  "initial_margins params =
     (let e = emin_cents params in
      map (\<lambda>m. if e \<le> int m \<and> int m \<le> e + q_rungs params - 1 \<and>
                  0 < weight_of_rung params (int m - e) then 1 else 0)
        [0 ..< nat (e + q_rungs params)])"

definition new_v33_state ::
  "string \<Rightarrow> int \<Rightarrow> bucket_map \<Rightarrow> v33_params \<Rightarrow> bool \<Rightarrow> (ticker, int) dict \<Rightarrow> string \<Rightarrow> v33_state" where
  "new_v33_state close_time close_epoch bmap params shakedown strike_floors prefix =
     \<lparr>x_close_time = close_time, x_close_epoch = close_epoch, x_bucket_map = bmap,
      x_shakedown = shakedown,
      x_strike_tops = [], x_strike_ts = [], x_strike_tickers = [],
      x_strike_floor_map = strike_floors,
      x_bucket_tops = [], x_bucket_ts = [], x_bucket_tickers = [], x_strike_feed_ts = None,
      x_spot_Sd = None, x_spot_Su = None, x_W = None, x_cap = None, x_n_top = None,
      x_spot_bucket_stale = False,
      x_ladder = [], x_margin_state = initial_margins params, x_filled_at = [], x_rolls = [],
      x_converging_dir = 0, x_awaiting_replace = False, x_outstanding_cancels = 0,
      x_cancel_pending_px = [], x_rest_bucket_Sd = None, x_last_replace_ts = None,
      x_replace_count = 0, x_replace_times = [], x_roll_count = 0,
      x_roll_single_order_count = 0, x_coid_seq = 0, x_coid_prefix = prefix,
      x_rest_fills = [], x_rungs_filled = 0, x_rest_booked = [], x_cancel_ctx = [],
      x_bucket_unknown = False, x_amend_cross_pending = [], x_fill_seen = [],
      x_rest_allotment_done = False, x_coalesce_open = None, x_wing_batches = [],
      x_wing_legs = [], x_next_batch_index = 0, x_sets_done = 0, x_one_legged = False,
      x_netted_pairs = [], x_print_through = [], x_pt_stood_down = False,
      x_pt_one_legged = False,
      x_shadows = foldl (\<lambda>d E. AList.update E (fresh_shadow E) d) [] (q_shadow_Es params),
      x_stood_down = False, x_stand_down_reason = None, x_last_standdown_reason = None,
      x_pending_switch_Sd = None, x_pending_switch_since = None,
      x_pending_switch_hyst_met = False, x_hold_reason = None, x_hold_since = None,
      x_wing_sub_cause = None, x_hold_sub_cause = None\<rparr>"

section \<open>The view the imported V3.2 law reads\<close>

text \<open>
  The fields the imported functions read have the same names in both states; those only V3.2
  has are at their initial values and are never read by the imported law.
\<close>

definition law_params :: "v33_params \<Rightarrow> v32_params" where
  "law_params p =
     \<lparr>p_E = q_E_min p, p_tol = q_tol p, p_deb_ms = q_deb_ms p,
      p_quote_start_s = q_quote_start_s p, p_quote_end_s = q_quote_end_s p, p_contracts = 0,
      p_wing_margin = q_wing_margin p, p_lock_floor = q_lock_floor p,
      p_no_orders_after_s = q_no_orders_after_s p,
      p_freshness_max_age_s = q_freshness_max_age_s p,
      p_bucket_freshness_max_age_s = q_bucket_freshness_max_age_s p,
      p_max_sets_per_hour = q_max_sets_per_hour p, p_n_min = q_n_min p,
      p_replace_rate_alarm = q_replace_rate_alarm p, p_bucket_width = q_bucket_width p,
      p_shadow_Es = q_shadow_Es p, p_sha256 = q_sha256 p\<rparr>"

definition law_view :: "v33_params \<Rightarrow> v33_state \<Rightarrow> v32_state" where
  "law_view params st =
     (new_v32_state (x_close_time st) (x_close_epoch st) (x_bucket_map st) (law_params params)
        (x_shakedown st))
       \<lparr>v_strike_tops := x_strike_tops st, v_strike_ts := x_strike_ts st,
        v_strike_tickers := x_strike_tickers st, v_strike_floor_map := x_strike_floor_map st,
        v_bucket_tops := x_bucket_tops st, v_bucket_ts := x_bucket_ts st,
        v_bucket_tickers := x_bucket_tickers st, v_spot_Sd := x_spot_Sd st,
        v_spot_Su := x_spot_Su st, v_W := x_W st, v_cap := x_cap st,
        v_shadows := x_shadows st\<rparr>"

text \<open>\<open>_WingLawView\<close>: the V3.2 wing law under the loose per-strike age bound.\<close>

definition wing_law_view :: "v33_params \<Rightarrow> v32_params" where
  "wing_law_view params =
     (law_params params)\<lparr>p_freshness_max_age_s := q_wing_book_max_age_s params\<rparr>"

end
