(* ===== verification/Service_Properties.thy ===== *)
theory Service_Properties
  imports Service_Example V33_Types
begin

text \<open>
  The properties of the service components: the book mirror, the fee, the frozen policies, the
  window signal, the wide box, the order wire and the ledger, each with a concrete instance where
  it has a hypothesis.
\<close>

text \<open>
  C14. The book refines the partial-map book. After any stream of snapshots, deltas and gaps, the
  mirror is the abstract book that sets each side to the positive levels of a snapshot (the last
  entry of a price winning), adds a well-formed delta to its one level and drops a spent level,
  and otherwise only counts the malformed delta and turns suspect.
\<close>

theorem book_refines_map_book:
  "book_abs (book_run new_book events) = foldl abs_step (book_abs new_book) events"
  by (rule book_abs_run)

text \<open>
  The top of the book. After any event stream every stored level has a positive size and its
  price is stored once, the best bids are the highest prices of their side with their sizes, and
  each ask is one minus the other side's best bid, at its size.
\<close>

theorem book_top_exact:
  "book_ok (book_run new_book events) \<and>
   (let b = book_run new_book events; t = book_top b in
    yes_bid t = best_price (bm_yes_bids b) \<and> no_bid t = best_price (bm_no_bids b) \<and>
    yes_bid_size t = Option.bind (yes_bid t) (map_of (bm_yes_bids b)) \<and>
    no_bid_size t = Option.bind (no_bid t) (map_of (bm_no_bids b)) \<and>
    yes_ask t = map_option (\<lambda>p. 1 - p) (no_bid t) \<and> yes_ask_size t = no_bid_size t \<and>
    no_ask t = map_option (\<lambda>p. 1 - p) (yes_bid t) \<and> no_ask_size t = yes_bid_size t)"
proof -
  have ok: "book_ok (book_run new_book events)" by (rule book_ok_run [OF book_ok_new])
  then show ?thesis by (simp add: Let_def book_top_best [OF ok] top_binary_identity)
qed

text \<open>
  The fee. The census fee is the smallest whole ten-thousandth of a dollar that is at least
  seven percent of \<open>p (1 - p)\<close>; it is the same for the two sides of a contract and at most 1.75
  cents.
\<close>

theorem fee_exact:
  "(\<exists>k. fee p = of_int k / 10000) \<and> fee_rate * p * (1 - p) \<le> fee p \<and>
   fee p < fee_rate * p * (1 - p) + 1/10000 \<and> fee (1 - p) = fee p \<and> fee p \<le> 175/10000"
proof (intro conjI)
  show "\<exists>k. fee p = of_int k / 10000" by (auto simp: fee_def)
qed (fact fee_ge_raw fee_less_raw fee_sym fee_le_max)+

text \<open>
  C17. The policies fail closed. Each of the four loaders (V3.2, V3.3, the wide box, the pilot)
  refuses a file whose digest is not the expected one, when one is expected, and what it returns
  carries the digest of the file. The V3.2 edge is on its shadow ladder; the V3.3 shadows are inside
  the live ladder, which has a rung and may amend one order, its largest rung fits the order hint,
  and its write reserve leaves room in the bucket for a create; a routing table loads only if every
  key is \<open>q\<close> followed by digits.
\<close>

theorem policies_fail_closed:
  "(case load_v32_params sha raw expected of
      Inl _ \<Rightarrow> True
    | Inr p \<Rightarrow> \<not> sha_refused sha expected \<and> p_sha256 p = sha \<and> p_E p \<in> set (p_shadow_Es p)) \<and>
   (case load_v33_params sha raw expected of
      Inl _ \<Rightarrow> True
    | Inr p \<Rightarrow> \<not> sha_refused sha expected \<and> q_sha256 p = sha \<and> sound_v33_params p) \<and>
   (case load_box_policy sha raw expected of
      Inl _ \<Rightarrow> True | Inr p \<Rightarrow> \<not> sha_refused sha expected \<and> bp_sha256 p = sha) \<and>
   (case load_policy sha raw expected of
      Inl _ \<Rightarrow> True
    | Inr p \<Rightarrow> \<not> sha_refused sha expected \<and> pp_sha256 p = sha \<and>
        (\<exists>rt. map_of raw ''quintile_routing'' = Some (JObj rt) \<and>
           list_all (\<lambda>kv. routing_key (fst kv) \<noteq> None) rt))"
proof (intro conjI)
  show "case load_v33_params sha raw expected of Inl _ \<Rightarrow> True
    | Inr p \<Rightarrow> \<not> sha_refused sha expected \<and> q_sha256 p = sha \<and> sound_v33_params p"
    using load_v33_checked [of sha raw expected] by (simp split: sum.split)
qed (auto simp: load_v32_params_def load_box_policy_def load_policy_def sha_refused_def
      bind_r_Inr_iff need_def json_object_def parse_routing_def list_all_iff
      split: sum.splits if_splits option.splits json.splits dest: parse_routing_from_Inr)

text \<open>
  C18. One shot per window. On any event stream a new window emits at most one fire, whichever
  source qualifies first, and at most one stand-down.
\<close>

theorem window_one_shot:
  "length (filter is_fire
     (snd (run_core (decide params) (new_window ct T high low q fair dis sh) events))) \<le> 1 \<and>
   length (filter is_stand_down
     (snd (run_core (decide params) (new_window ct T high low q fair dis sh) events))) \<le> 1"
  by (intro conjI window_fires.run_fires_at_most_once window_stand_down.run_fires_at_most_once)
    (simp_all add: entered_ok_def new_window_def)

text \<open>
  C19. What a fire of the window signal guarantees. Every fire of a run was emitted by one step, in
  a window not entered before, with both books fresh and not suspect, outside the settle cutoff
  and inside the final window; each leg buys one contract at the ask of its own book, and the
  cost of the pair with fees is below the flip ceiling, or the strangle is active and its expected
  value over that cost is at least the minimum.
\<close>

theorem window_fire_qualified:
  assumes "entered_ok st" and "a \<in> set (snd (run_core (decide params) st events))" and "is_fire a"
  shows "\<exists>pre e post. events = pre @ e # post \<and>
    (let s = fst (run_core (decide params) st pre) in
     \<not> w_entered s \<and> w_entered (fst (decide params s e)) \<and>
     (case fold_leg s e of None \<Rightarrow> False | Some s1 \<Rightarrow> fire_ok params s1 (sig_ts e) a))"
  using window_guard.run_guard [OF assms(1,2)] assms(3) by (auto simp: fire_guard_def Let_def)

lemma window_fire_qualified_witness:
  "\<exists>a pre e post. is_fire a \<and> ex_tape = pre @ e # post \<and>
    (let s = fst (run_core (decide ex_policy) ex_window pre) in
     \<not> w_entered s \<and> w_entered (fst (decide ex_policy s e)) \<and>
     (case fold_leg s e of None \<Rightarrow> False | Some s1 \<Rightarrow> fire_ok ex_policy s1 (sig_ts e) a))"
proof -
  from ex_window_fires obtain a where
    "a \<in> set (snd (run_core (decide ex_policy) ex_window ex_tape))" "is_fire a" by blast
  moreover have "entered_ok ex_window" by (simp add: entered_ok_def ex_window_def new_window_def)
  ultimately show ?thesis using window_fire_qualified by blast
qed

text \<open>
  One shot per box hour. On any event stream a new box window opens at most once (one fire or
  one skip), emits at most one paper rescan and at most one stand-down.
\<close>

theorem box_one_shot:
  "length (filter opens_box
     (snd (run_core (decide_box params) (new_box_state ct T A m15 strikes sh) events))) \<le> 1 \<and>
   length (filter is_rescan
     (snd (run_core (decide_box params) (new_box_state ct T A m15 strikes sh) events))) \<le> 1 \<and>
   length (filter is_stand_down
     (snd (run_core (decide_box params) (new_box_state ct T A m15 strikes sh) events))) \<le> 1"
  by (intro conjI box_entry.run_fires_at_most_once paper_rescan.run_fires_at_most_once
      box_stand_down.run_fires_at_most_once box_inv_new)

text \<open>
  The box's state. In every state a new box window can reach, the cached selection view is
  what the selection gives on the current books, the window is entered exactly when it fired or
  skipped (never both), a rescan only follows a skip, a fired selection clears the implied-pin
  floor and a skipped one does not.
\<close>

theorem box_state_invariant:
  "box_inv params (fst (run_core (decide_box params) (new_box_state ct T A m15 strikes sh) events))"
  by (rule box_entry.run_inv [OF box_inv_new])

text \<open>
  C22. What a fire of the box guarantees. Every fire of a run was emitted by one step, in a window
  not entered before and inside the entry window; its selection is the nearest-to-target
  candidate of the current ladder with both asks and spreads within the roster's limits and both
  limits at most 0.99, its implied pin clears the floor and both chosen legs are fresh.
\<close>

theorem box_fire_qualified:
  assumes "box_inv params st" and "a \<in> set (snd (run_core (decide_box params) st events))"
    and "is_fire a"
  shows "\<exists>pre e post s1 m15_top sel. events = pre @ e # post \<and>
    (let s = fst (run_core (decide_box params) st pre) in
     \<not> x_entered s \<and> fold_box params s e = Some s1 \<and>
     map_of (x_tops s1) (x_m15_ticker s1) = Some m15_top \<and>
     selection_ok params (x_anchor_A s1) m15_top (box_ladder s1) sel \<and>
     bp_min_implied_pin params \<le> bs_implied_pin sel \<and>
     in_entry params (of_int (x_T s1) - sig_ts e) \<and> sel_fresh params s1 sel (sig_ts e) \<and>
     sa_legs a = box_legs params sel)"
proof -
  from box_guard.run_guard [OF assms(1,2)] obtain pre e post where run: "events = pre @ e # post"
    and g: "box_fire_guard params (fst (run_core (decide_box params) st pre)) e
      (fst (decide_box params (fst (run_core (decide_box params) st pre)) e)) a" by blast
  from g assms(3) obtain s1 m15_top sel where
    "\<not> x_entered (fst (run_core (decide_box params) st pre))"
    "fold_box params (fst (run_core (decide_box params) st pre)) e = Some s1"
    "map_of (x_tops s1) (x_m15_ticker s1) = Some m15_top"
    "selection_ok params (x_anchor_A s1) m15_top (box_ladder s1) sel"
    "bp_min_implied_pin params \<le> bs_implied_pin sel"
    "in_entry params (of_int (x_T s1) - sig_ts e)" "sel_fresh params s1 sel (sig_ts e)"
    "sa_legs a = box_legs params sel"
    by (auto simp: box_fire_guard_def box_action_def)
  with run show ?thesis unfolding Let_def by blast
qed

lemma box_fire_qualified_witness:
  "\<exists>a pre e post s1 m15_top sel. is_fire a \<and> ex_box_tape = pre @ e # post \<and>
    (let s = fst (run_core (decide_box ex_roster) ex_box pre) in
     \<not> x_entered s \<and> fold_box ex_roster s e = Some s1 \<and>
     map_of (x_tops s1) (x_m15_ticker s1) = Some m15_top \<and>
     selection_ok ex_roster (x_anchor_A s1) m15_top (box_ladder s1) sel \<and>
     bp_min_implied_pin ex_roster \<le> bs_implied_pin sel \<and>
     in_entry ex_roster (of_int (x_T s1) - sig_ts e) \<and> sel_fresh ex_roster s1 sel (sig_ts e) \<and>
     sa_legs a = box_legs ex_roster sel)"
proof -
  from ex_box_fires obtain a where
    "a \<in> set (snd (run_core (decide_box ex_roster) ex_box ex_box_tape))" "is_fire a" by blast
  moreover have "box_inv ex_roster ex_box" by (simp add: ex_box_def box_inv_new)
  ultimately show ?thesis using box_fire_qualified by blast
qed

text \<open>
  C23. The order on the wire says what the leg says. An accepted leg goes out immediate-or-cancel
  on its own ticker with its count, as a bid exactly when it raises the holder's YES exposure (buy
  YES or sell NO), and its price text reads back as the YES price of the limit to the
  ten-thousandth. When the venue reports a fill at that price, the parsed response carries the
  leg's own limit, and converting it again changes nothing.
\<close>

theorem order_wire_roundtrip:
  assumes "build_entry leg = Inr v" and "wire_tick (il_limit_price leg)"
    and "normalize_fill_to_side (resp\<lparr>or_average_fill_price := parse_decimal (v2_price v),
           or_raw_reported_price := parse_decimal (v2_price v)\<rparr>) (il_side leg) = Inr r"
  shows "v2_side v = (if order_raises_yes (il_side leg) (il_action leg) then ''bid'' else ''ask'') \<and>
    v2_ticker v = il_ticker leg \<and> v2_tif v = ''immediate_or_cancel'' \<and>
    parse_decimal (v2_count v) = Some (of_int (il_count leg)) \<and>
    parse_decimal (v2_price v) = Some (yes_price_of (il_side leg) (il_limit_price leg)) \<and>
    or_average_fill_price r = Some (il_limit_price leg) \<and>
    normalize_fill_to_side r (il_side leg) = Inr r"
proof -
  note b = build_entry_Inr [OF assms(1)]
  have count: "parse_decimal (v2_count v) = Some (of_int (il_count leg))"
    by (simp add: b(5) parse_fixed_text)
  have price: "parse_decimal (v2_price v) = Some (yes_price_of (il_side leg) (il_limit_price leg))"
    by (simp only: b(2) parse_fixed_text wire_price_exact [OF assms(2)])
  have "or_average_fill_price r = Some (il_limit_price leg)"
    using normalize_fill_price(1) [OF assms(3)] by (simp add: price)
  with count price b(1,3,4) normalize_idem [OF assms(3)] show ?thesis by blast
qed

lemma order_wire_roundtrip_witness:
  "\<exists>(v :: v2_order) (r :: order_response). v2_side v = ''ask'' \<and> v2_ticker v = ''H'' \<and>
     parse_decimal (v2_price v) = Some (3/5) \<and> or_average_fill_price r = Some (2/5)"
proof -
  let ?leg = "ex_leg ''H'' ''no'' (2/5) ''c1''"
  have tick: "wire_tick (il_limit_price ?leg)" by (simp add: wire_tick_def ex_leg_def)
  obtain v where v: "build_entry ?leg = Inr v"
    by (simp add: build_entry_def ex_leg_def to_v2_order_def yes_level_def wire_price_def
        or_default_def Let_def)
  have "il_side ?leg = ''yes'' \<or> il_side ?leg = ''no''" by (simp add: ex_leg_def)
  then obtain r where r: "normalize_fill_to_side ((ex_response ''c1'' 0 0)
      \<lparr>or_average_fill_price := parse_decimal (v2_price v),
       or_raw_reported_price := parse_decimal (v2_price v)\<rparr>) (il_side ?leg) = Inr r"
    using normalize_accepts_side by blast
  show ?thesis
    using order_wire_roundtrip [OF v tick r]
    by (intro exI [of _ v] exI [of _ r]) (simp add: ex_leg_def order_raises_yes_def yes_price_of_def)
qed

text \<open>
  C24. Crash recovery. Rebuilding the ledger from the journal of a session gives exactly the
  ledger the live session had, whatever intents and responses it recorded (with printable decimal
  amounts), in whatever order.
\<close>

theorem ledger_rebuild_exact:
  assumes "list_all op_printable ops"
  shows "rebuild_from_journal (map journal_of ops) window source high low =
    Some (foldl apply_op (new_ledger window source high low) ops)"
  unfolding rebuild_from_journal_def using assms by (rule rebuild_from_ops)

lemma ledger_rebuild_exact_witness:
  "rebuild_from_journal (map journal_of (ex_ops WIDE_BOX)) ''W'' WIDE_BOX ''H'' ''L'' =
    Some (ex_session WIDE_BOX)"
  unfolding ex_session_def by (rule ledger_rebuild_exact [OF ex_ops_printable])

text \<open>
  C25. The books of a settled window are exact up to the fractions the backfill drops. For a window
  of any source but the flip, reached by any session, whose held legs settle to known results, the
  settlement payoff of the legs left unsettled exists, and what the held legs are paid less the
  cash out is the amount booked at close plus the backfill (net of the floor a box already
  booked) plus, for each winning leg, the fraction of a contract it holds beyond whole ones: zero
  for a whole count, always less than a dollar, and never credited by the books.
\<close>

lemma ledger_source_run: "ls_source (foldl apply_op st ops) = ls_source st"
proof (induction ops arbitrary: st)
  case (Cons op ops)
  have "ls_source (apply_op st op) = ls_source st"
    by (cases op) (auto simp: record_intent_def record_response_def Let_def case_prod_beta
        split: option.splits)
  with Cons show ?case by simp
qed simp

theorem ledger_books_exact:
  assumes "st = foldl apply_op (new_ledger window source high low) ops"
    and "source \<noteq> SUB_DOLLAR_FLIP" and "results_known st results"
  shows "(\<exists>payoff. settlement_payoff (unsettled_legs st) results = Inr payoff \<and>
      true_pnl st results = booked_pnl st payoff +
        fraction_dropped st results High + fraction_dropped st results Low) \<and>
    (\<forall>w. 0 \<le> fraction_dropped st results w \<and> fraction_dropped st results w < 1)"
proof (intro conjI booked_pnl_exact)
  show "ledger_ok st" unfolding assms(1) by (rule ledger_ok_run [OF ledger_ok_new])
  show "ls_source st \<noteq> SUB_DOLLAR_FLIP"
    using assms(2) by (simp add: assms(1) ledger_source_run new_ledger_def)
  show "\<forall>w. 0 \<le> fraction_dropped st results w \<and> fraction_dropped st results w < 1"
    by (simp add: fraction_dropped_bounds)
qed (rule assms(3))

lemma ledger_books_exact_witness:
  "(\<exists>payoff. settlement_payoff (unsettled_legs (ex_session LEDGER_WIDE_BOX)) ex_results = Inr payoff \<and>
      true_pnl (ex_session LEDGER_WIDE_BOX) ex_results = booked_pnl (ex_session LEDGER_WIDE_BOX) payoff +
        fraction_dropped (ex_session LEDGER_WIDE_BOX) ex_results High +
        fraction_dropped (ex_session LEDGER_WIDE_BOX) ex_results Low) \<and>
    (\<forall>w. 0 \<le> fraction_dropped (ex_session LEDGER_WIDE_BOX) ex_results w \<and>
         fraction_dropped (ex_session LEDGER_WIDE_BOX) ex_results w < 1)"
  by (rule ledger_books_exact [OF ex_session_def])
    (use ex_session_facts sources_distinct in auto)

text \<open>
  The books of a settled flip are a floor. For a flip window with whole counts and known
  results, the books differ from the true amount by exactly the matched pairs times the number of
  winning legs beyond the one each pair is floored at: nothing when one leg wins, and never more
  than the truth when one at least does.
\<close>

theorem ledger_flip_books_floor:
  assumes "ls_source st = SUB_DOLLAR_FLIP" and "0 \<le> matched_pairs st"
    and "results_known st results" and "whole_net st High" and "whole_net st Low"
  shows "\<exists>payoff. settlement_payoff (unsettled_legs st) results = Inr payoff \<and>
    true_pnl st results = booked_pnl st payoff + matched_pairs st * (wins_count st results - 1)"
proof (rule booked_pnl_flip [OF assms(3) _ assms(1,2)])
  show "whole_net st w" for w using assms(4,5) by (cases w) simp_all
qed

lemma ledger_flip_books_floor_witness:
  "\<exists>payoff. settlement_payoff (unsettled_legs (ex_session SUB_DOLLAR_FLIP)) ex_results = Inr payoff \<and>
    true_pnl (ex_session SUB_DOLLAR_FLIP) ex_results = booked_pnl (ex_session SUB_DOLLAR_FLIP) payoff
      + matched_pairs (ex_session SUB_DOLLAR_FLIP) * (wins_count (ex_session SUB_DOLLAR_FLIP) ex_results - 1)"
  by (rule ledger_flip_books_floor) (use ex_session_facts ex_session_state in auto)

end
