(* ===== verification/Reconciler.thy ===== *)
theory Reconciler
  imports Ledger Money "HOL-Library.Char_ord" "HOL-Library.List_Lexorder"
begin

text \<open>
  The imbalance protocol and the positions poll, \<open>pilot/service/reconciler.py\<close>, with the quote
  lookup of \<open>run_window.py\<close> that feeds it. The printed reasons are kept as the numbers they show.
  The positions body is the JSON the injected \<open>rest_get\<close> returns.
\<close>

section \<open>The imbalance\<close>

record imbalance =
  im_high_net :: lots
  im_low_net :: lots
  im_matched :: lots
  im_deficient :: which_leg
  im_overfilled :: which_leg
  im_deficit :: lots

definition detect_imbalance :: "ledger_state \<Rightarrow> imbalance option" where
  "detect_imbalance st =
     (let hi = net st High; lo = net st Low in
      if hi = lo then None
      else Some \<lparr>im_high_net = hi, im_low_net = lo, im_matched = min hi lo,
                 im_deficient = (if hi < lo then High else Low),
                 im_overfilled = (if hi < lo then Low else High),
                 im_deficit = (if hi < lo then lo - hi else hi - lo)\<rparr>)"

record rebalance_quotes =
  rq_high_buy :: "money option"
  rq_high_sell :: "money option"
  rq_low_buy :: "money option"
  rq_low_sell :: "money option"

fun buy_price :: "rebalance_quotes \<Rightarrow> which_leg \<Rightarrow> money option" where
  "buy_price q High = rq_high_buy q"
| "buy_price q Low = rq_low_buy q"

fun sell_price :: "rebalance_quotes \<Rightarrow> which_leg \<Rightarrow> money option" where
  "sell_price q High = rq_high_sell q"
| "sell_price q Low = rq_low_sell q"

text \<open>The quotes come from the two books' tops: the ask and the bid of the held outcome.\<close>

definition held_ask :: "top_of_book option \<Rightarrow> string option \<Rightarrow> money option" where
  "held_ask t side =
     (case (t, side) of
        (Some b, Some s) \<Rightarrow> if s = ''yes'' then yes_ask b else no_ask b
      | _ \<Rightarrow> None)"

definition held_bid :: "top_of_book option \<Rightarrow> string option \<Rightarrow> money option" where
  "held_bid t side =
     (case (t, side) of
        (Some b, Some s) \<Rightarrow> if s = ''yes'' then yes_bid b else no_bid b
      | _ \<Rightarrow> None)"

type_synonym leg_tops = "which_leg \<Rightarrow> top_of_book option"

definition rebalance_quotes_of :: "leg_tops \<Rightarrow> ledger_state \<Rightarrow> rebalance_quotes" where
  "rebalance_quotes_of tops st =
     \<lparr>rq_high_buy = held_ask (tops High) (ls_high_side st),
      rq_high_sell = held_bid (tops High) (ls_high_side st),
      rq_low_buy = held_ask (tops Low) (ls_low_side st),
      rq_low_sell = held_bid (tops Low) (ls_low_side st)\<rparr>"

definition bids_of :: "leg_tops \<Rightarrow> ledger_state \<Rightarrow> (ticker, money) dict" where
  "bids_of tops st =
     (let out = (case held_bid (tops High) (ls_high_side st) of
                   Some b \<Rightarrow> [(ls_high_ticker st, b)] | None \<Rightarrow> [])
      in case held_bid (tops Low) (ls_low_side st) of
           Some b \<Rightarrow> AList.update (ls_low_ticker st) b out | None \<Rightarrow> out)"

text \<open>\<open>fair_q\<close> is the fair value of the current window's strangle, absent without a state.\<close>

definition ceiling_per_pair :: "policy_params \<Rightarrow> string \<Rightarrow> money option \<Rightarrow> money" where
  "ceiling_per_pair p source fair_q =
     (if source = SUB_DOLLAR_FLIP then ib_pair_cost_ceiling_sub1 (pp_imbalance p)
      else or_default 0 fair_q)"

section \<open>Proposals\<close>

record order_proposal =
  op_which :: which_leg
  op_ticker :: ticker
  op_side :: string
  op_count :: int
  op_limit_price :: money

text \<open>
  The reason of a retry-buy prints the cost so far, the projection, the ceiling and the round;
  of a sell-down the target and the round; of a ride the clock and the imbalance; of a give-up
  the imbalance, the mode, the rounds used and the quotes.
\<close>

datatype proposal =
    Balanced
  | Ride_To_Settlement time int lots lots
  | Give_Up lots lots bool nat nat "money option" "money option"
  | Retry_Buy order_proposal money money money nat
  | Sell_Down order_proposal int nat

fun leg_ticker_side :: "ledger_state \<Rightarrow> which_leg \<Rightarrow> ticker \<times> string" where
  "leg_ticker_side st High = (ls_high_ticker st, or_default [] (ls_high_side st))"
| "leg_ticker_side st Low = (ls_low_ticker st, or_default [] (ls_low_side st))"

definition target_pairs :: "imbalance \<Rightarrow> lots" where
  "target_pairs imb = (if im_overfilled imb = High then im_high_net imb else im_low_net imb)"

definition projected_retry :: "imbalance \<Rightarrow> money \<Rightarrow> money" where
  "projected_retry imb p = im_deficit imb * (p + fee p)"

text \<open>The retry-buy branch, \<open>None\<close> when it falls through.\<close>

definition propose_buy ::
  "ledger_state \<Rightarrow> imbalance_bounds \<Rightarrow> rebalance_quotes \<Rightarrow> money \<Rightarrow> imbalance \<Rightarrow> proposal option" where
  "propose_buy st bounds quotes cap imb =
     (let (tk, side) = leg_ticker_side st (im_deficient imb);
          n = retries_for_side st tk PURPOSE_REBALANCE_BUY;
          cost = pair_net_cash_out st;
          total = cap * target_pairs imb
      in case buy_price quotes (im_deficient imb) of
           None \<Rightarrow> None
         | Some p \<Rightarrow>
             if int n < ib_max_retries_per_side bounds \<and> cost + projected_retry imb p \<le> total
             then Some (Retry_Buy
               \<lparr>op_which = im_deficient imb, op_ticker = tk, op_side = side,
                op_count = py_trunc (im_deficit imb), op_limit_price = p\<rparr>
               cost (projected_retry imb p) total (n + 1))
             else None)"

definition propose_sell ::
  "ledger_state \<Rightarrow> imbalance_bounds \<Rightarrow> rebalance_quotes \<Rightarrow> imbalance \<Rightarrow> proposal option" where
  "propose_sell st bounds quotes imb =
     (let (tk, side) = leg_ticker_side st (im_overfilled imb);
          n = retries_for_side st tk PURPOSE_REBALANCE_SELL;
          target = py_trunc (im_matched imb);
          count = py_trunc (target_pairs imb) - target
      in case sell_price quotes (im_overfilled imb) of
           None \<Rightarrow> None
         | Some p \<Rightarrow>
             if int n < ib_max_retries_per_side bounds \<and> 0 < count
             then Some (Sell_Down
               \<lparr>op_which = im_overfilled imb, op_ticker = tk, op_side = side,
                op_count = count, op_limit_price = p\<rparr> target (n + 1))
             else None)"

definition propose_rebalance ::
  "ledger_state \<Rightarrow> policy_params \<Rightarrow> time \<Rightarrow> rebalance_quotes \<Rightarrow> money \<Rightarrow> proposal" where
  "propose_rebalance st params t_minus quotes cap =
     (case detect_imbalance st of
        None \<Rightarrow> Balanced
      | Some imb \<Rightarrow>
          (let bounds = pp_imbalance params in
           if t_minus < of_int (ib_no_orders_after_s bounds)
           then Ride_To_Settlement t_minus (ib_no_orders_after_s bounds) (im_high_net imb) (im_low_net imb)
           else
             (let sell_only = t_minus < of_int (ib_no_rebalance_after_s bounds);
                  buy = (if sell_only then None else propose_buy st bounds quotes cap imb)
              in case buy of
                   Some p \<Rightarrow> p
                 | None \<Rightarrow>
                     (case propose_sell st bounds quotes imb of
                        Some p \<Rightarrow> p
                      | None \<Rightarrow>
                          Give_Up (im_high_net imb) (im_low_net imb) sell_only
                            (retries_for_side st (fst (leg_ticker_side st (im_deficient imb))) PURPOSE_REBALANCE_BUY)
                            (retries_for_side st (fst (leg_ticker_side st (im_overfilled imb))) PURPOSE_REBALANCE_SELL)
                            (buy_price quotes (im_deficient imb)) (sell_price quotes (im_overfilled imb))))))"

section \<open>The positions poll\<close>

record reconcile_result =
  rr_stop :: "string option"
  rr_expected :: "(ticker, lots) dict"
  rr_observed :: "(ticker, lots) dict"
  rr_mismatches :: "ticker list"

definition add_expected :: "ledger_state \<Rightarrow> (ticker, lots) dict \<Rightarrow> which_leg \<Rightarrow> (ticker, lots) dict" where
  "add_expected st out w =
     (case position st w of
        None \<Rightarrow> out
      | Some p \<Rightarrow>
          if lp_net p = 0 then out
          else
            (let signed = (if lp_side p = ''yes'' then lp_net p else - lp_net p)
             in AList.update (lp_ticker p) (dict_get_default out (lp_ticker p) 0 + signed) out))"

definition expected_positions :: "ledger_state \<Rightarrow> (ticker, lots) dict" where
  "expected_positions st = filter (\<lambda>kv. snd kv \<noteq> 0) (foldl (add_expected st) [] [High, Low])"

text \<open>\<open>row.get("position", row.get("net_position"))\<close>: a present null does not fall back.\<close>

definition position_row :: "json \<Rightarrow> (ticker \<times> lots) option" where
  "position_row row =
     (case row of
        JObj kvs \<Rightarrow>
          (let raw = (case map_of kvs ''position'' of
                        Some v \<Rightarrow> v | None \<Rightarrow> json_field kvs ''net_position'')
           in case (json_field kvs ''ticker'', to_decimal raw) of
                (JStr tk, Some v) \<Rightarrow> if v \<noteq> 0 then Some (tk, v) else None
              | _ \<Rightarrow> None)
      | _ \<Rightarrow> None)"

definition position_rows :: "(string \<times> json) list \<Rightarrow> json list" where
  "position_rows kvs =
     (case json_field kvs ''market_positions'' of
        JList rows \<Rightarrow> rows
      | _ \<Rightarrow> (case json_field kvs ''positions'' of JList rows \<Rightarrow> rows | _ \<Rightarrow> []))"

definition parse_positions_response :: "json \<Rightarrow> (ticker, lots) dict" where
  "parse_positions_response body =
     (case body of
        JObj kvs \<Rightarrow>
          foldl (\<lambda>out row. case position_row row of
                             Some (tk, v) \<Rightarrow> AList.update tk v out | None \<Rightarrow> out)
            [] (position_rows kvs)
      | _ \<Rightarrow> [])"

definition diff_positions :: "(ticker, lots) dict \<Rightarrow> (ticker, lots) dict \<Rightarrow> ticker list" where
  "diff_positions expected observed =
     sort (filter (\<lambda>t. dict_get_default expected t 0 \<noteq> dict_get_default observed t 0)
       (remdups (dict_keys expected @ dict_keys observed)))"

definition reconcile_tick :: "ledger_state \<Rightarrow> json \<Rightarrow> reconcile_result" where
  "reconcile_tick st body =
     (let observed = parse_positions_response body;
          expected = expected_positions st;
          mismatches = diff_positions expected observed
      in \<lparr>rr_stop = (if mismatches \<noteq> [] then Some ''S3'' else None), rr_expected = expected,
          rr_observed = observed, rr_mismatches = mismatches\<rparr>)"

section \<open>The order of a proposal\<close>

text \<open>
  \<open>run_window._maybe_rebalance\<close>: one leg, reduce-only when it sells, routed by the wake map.
\<close>

definition rebalance_leg :: "order_proposal \<Rightarrow> bool \<Rightarrow> string \<Rightarrow> int option \<Rightarrow> intent_leg" where
  "rebalance_leg p buying cid xi =
     \<lparr>il_ticker = op_ticker p, il_side = op_side p,
      il_action = (if buying then ''buy'' else ''sell''), il_count = op_count p,
      il_limit_price = op_limit_price p, il_client_order_id = cid,
      il_reduce_only = (if buying then None else Some True), il_exchange_index = xi\<rparr>"

definition rebalance_intent ::
  "ledger_state \<Rightarrow> order_proposal \<Rightarrow> bool \<Rightarrow> string \<Rightarrow> int option \<Rightarrow> string \<Rightarrow> time \<Rightarrow> intent" where
  "rebalance_intent st p buying cid xi close_time t_minus =
     \<lparr>in_window = close_time, in_source = ls_source st,
      in_purpose = (if buying then PURPOSE_REBALANCE_BUY else PURPOSE_REBALANCE_SELL),
      in_legs = [rebalance_leg p buying cid xi], in_t_minus = Some t_minus\<rparr>"

section \<open>What a fill does to the pair\<close>

lemma purposes_distinct [simp]:
  "PURPOSE_REBALANCE_BUY \<noteq> PURPOSE_ENTRY" "PURPOSE_REBALANCE_SELL \<noteq> PURPOSE_ENTRY"
  "PURPOSE_REBALANCE_BUY \<noteq> PURPOSE_REBALANCE_SELL" "PURPOSE_FLATTEN \<noteq> PURPOSE_ENTRY"
  "PURPOSE_FLATTEN \<noteq> PURPOSE_REBALANCE_BUY" "PURPOSE_FLATTEN \<noteq> PURPOSE_REBALANCE_SELL"
  "PURPOSE_ENTRY \<noteq> PURPOSE_REBALANCE_BUY" "PURPOSE_ENTRY \<noteq> PURPOSE_REBALANCE_SELL"
  "PURPOSE_REBALANCE_SELL \<noteq> PURPOSE_REBALANCE_BUY"
  by (simp_all add: PURPOSE_REBALANCE_BUY_def PURPOSE_REBALANCE_SELL_def PURPOSE_ENTRY_def PURPOSE_FLATTEN_def)

lemma record_intent_other:
  assumes "in_purpose i \<noteq> PURPOSE_ENTRY"
  shows "leg_key (record_intent st i) w = leg_key st w" "position (record_intent st i) w = position st w"
    "ls_positions (record_intent st i) = ls_positions st"
proof -
  show k: "leg_key (record_intent st i) w = leg_key st w"
    using assms by (cases w) (simp_all add: record_intent_def Let_def)
  show p: "ls_positions (record_intent st i) = ls_positions st"
    using assms by (simp add: record_intent_def Let_def)
  show "position (record_intent st i) w = position st w"
    by (simp only: position_def k p)
qed

lemma record_intent_single_cid:
  "in_legs i = [leg] \<Longrightarrow> map_of (ls_cid_to_leg (record_intent st i)) (il_client_order_id leg) = Some leg"
  by (simp add: record_intent_def Let_def case_prod_beta)

lemma record_response_fill:
  assumes "real_cid r = Some cid" "map_of (ls_cid_to_leg st) cid = Some l"
    and "or_average_fill_price r = Some price" "0 < or_fill_count r"
    and "fold_fill (dict_get_default (ls_positions st) (il_ticker l, il_side l)
          (new_position (il_ticker l) (il_side l))) l (or_fill_count r) price (fee_of r) = Some p"
  shows "position (record_response st r) w =
    (if leg_key st w = Some (il_ticker l, il_side l) then Some p else position st w)"
proof -
  define st1 where "st1 = st\<lparr>ls_responses := ls_responses st @ [r],
    ls_responded_cids := insert cid (ls_responded_cids st),
    ls_positions := AList.update (il_ticker l, il_side l) p (ls_positions st)\<rparr>"
  have eq: "record_response st r = st1"
    using assms by (simp add: record_response_def Let_def st1_def)
  have "leg_key st1 w = leg_key st w" by (cases w) (simp_all add: st1_def)
  then show ?thesis
    unfolding eq by (simp add: position_def st1_def split: option.split)
qed

definition other_leg :: "which_leg \<Rightarrow> which_leg" where
  "other_leg w = (case w of High \<Rightarrow> Low | Low \<Rightarrow> High)"

lemma other_leg_simps [simp]: "other_leg High = Low" "other_leg Low = High" "other_leg w \<noteq> w"
    "w \<noteq> other_leg w"
  by (simp_all add: other_leg_def split: which_leg.split)

text \<open>
  A fill of a rebalance order moves its leg's net by the fill, its cash by price and fees, and
  leaves the other leg, when the two legs are on different tickers.
\<close>

lemma rebalance_fill:
  assumes tks: "ls_high_ticker st \<noteq> ls_low_ticker st"
    and key: "leg_key st (op_which p) = Some (op_ticker p, op_side p)"
    and cid: "real_cid r = Some cid" and price: "or_average_fill_price r = Some price"
    and fill: "0 < or_fill_count r"
    and st': "st' = record_response (record_intent st (rebalance_intent st p buying cid xi close t)) r"
  shows "net st' (op_which p) = net st (op_which p) + (if buying then or_fill_count r else - or_fill_count r)"
    and "leg_cash_out st' (op_which p) = leg_cash_out st (op_which p) +
       (if buying then or_fill_count r * price + fee_of r else fee_of r - or_fill_count r * price)"
    and "net st' (other_leg (op_which p)) = net st (other_leg (op_which p))"
    and "leg_cash_out st' (other_leg (op_which p)) = leg_cash_out st (other_leg (op_which p))"
proof -
  let ?i = "rebalance_intent st p buying cid xi close t"
  let ?leg = "rebalance_leg p buying cid xi"
  define st1 where "st1 = record_intent st ?i"
  have purpose: "in_purpose ?i \<noteq> PURPOSE_ENTRY" by (simp add: rebalance_intent_def)
  note keep = record_intent_other [OF purpose, of st, folded st1_def]
  define q where "q = dict_get_default (ls_positions st) (op_ticker p, op_side p) (new_position (op_ticker p) (op_side p))"
  define q' where "q' = (if buying
      then q\<lparr>lp_bought := lp_bought q + or_fill_count r,
             lp_bought_notional := lp_bought_notional q + or_fill_count r * price,
             lp_buy_fees := lp_buy_fees q + fee_of r\<rparr>
      else q\<lparr>lp_sold := lp_sold q + or_fill_count r,
             lp_sold_notional := lp_sold_notional q + or_fill_count r * price,
             lp_sell_fees := lp_sell_fees q + fee_of r\<rparr>)"
  have leg: "map_of (ls_cid_to_leg st1) cid = Some ?leg"
    using record_intent_single_cid [of ?i ?leg st]
    by (simp add: st1_def rebalance_intent_def rebalance_leg_def)
  have fold: "fold_fill (dict_get_default (ls_positions st1) (il_ticker ?leg, il_side ?leg)
      (new_position (il_ticker ?leg) (il_side ?leg))) ?leg (or_fill_count r) price (fee_of r) = Some q'"
    by (simp add: keep rebalance_leg_def fold_fill_def q'_def q_def)
  note pos = record_response_fill [OF cid leg price fill fold, folded st1_def]
  have mine: "position st' (op_which p) = Some q'"
    using pos [of "op_which p"] key by (simp add: st' st1_def [symmetric] keep rebalance_leg_def)
  have "leg_key st (other_leg (op_which p)) \<noteq> Some (op_ticker p, op_side p)"
    using key tks by (cases "op_which p") auto
  then have other: "position st' (other_leg (op_which p)) = position st (other_leg (op_which p))"
    using pos [of "other_leg (op_which p)"] by (simp add: st' st1_def [symmetric] keep rebalance_leg_def)
  have q: "net st (op_which p) = lp_net q" "leg_cash_out st (op_which p) = lp_net_cash_out q"
    using key by (auto simp: q_def net_def leg_cash_out_def position_def dict_get_default_def
        new_position_def lp_net_def lp_net_cash_out_def lp_bought_cost_def lp_sold_proceeds_def
        split: option.split)
  show "net st' (op_which p) = net st (op_which p) + (if buying then or_fill_count r else - or_fill_count r)"
    unfolding q by (simp add: net_def mine q'_def lp_net_def)
  show "leg_cash_out st' (op_which p) = leg_cash_out st (op_which p) +
       (if buying then or_fill_count r * price + fee_of r else fee_of r - or_fill_count r * price)"
    unfolding q by (simp add: leg_cash_out_def mine q'_def lp_net_cash_out_def lp_bought_cost_def
        lp_sold_proceeds_def)
  show "net st' (other_leg (op_which p)) = net st (other_leg (op_which p))"
    "leg_cash_out st' (other_leg (op_which p)) = leg_cash_out st (other_leg (op_which p))"
    by (simp_all add: net_def leg_cash_out_def other)
qed

section \<open>Proposals restore the pair\<close>

lemma detect_imbalanceD:
  assumes "detect_imbalance st = Some imb"
  shows "im_overfilled imb = other_leg (im_deficient imb)"
    and "im_deficit imb = net st (im_overfilled imb) - net st (im_deficient imb)" "0 < im_deficit imb"
    and "target_pairs imb = net st (im_overfilled imb)" "im_matched imb = net st (im_deficient imb)"
    and "max (net st High) (net st Low) = net st (im_overfilled imb)"
    and "min (net st High) (net st Low) = net st (im_deficient imb)"
  using assms by (auto simp: detect_imbalance_def Let_def target_pairs_def split: if_splits)

lemma propose_buyD:
  assumes "propose_rebalance st params t q cap = Retry_Buy p cost proj tot k"
  obtains imb where "detect_imbalance st = Some imb" "op_which p = im_deficient imb"
    "(op_ticker p, op_side p) = leg_ticker_side st (im_deficient imb)"
    "op_count p = py_trunc (im_deficit imb)"
    "buy_price q (im_deficient imb) = Some (op_limit_price p)"
    "pair_net_cash_out st + projected_retry imb (op_limit_price p) \<le> cap * target_pairs imb"
    "int (retries_for_side st (op_ticker p) PURPOSE_REBALANCE_BUY) < ib_max_retries_per_side (pp_imbalance params)"
    "of_int (ib_no_orders_after_s (pp_imbalance params)) \<le> t"
    "of_int (ib_no_rebalance_after_s (pp_imbalance params)) \<le> t"
  using assms
  by (auto simp: propose_rebalance_def propose_buy_def propose_sell_def Let_def case_prod_beta
      split: option.splits if_splits)

lemma propose_sellD:
  assumes "propose_rebalance st params t q cap = Sell_Down p target k"
  obtains imb where "detect_imbalance st = Some imb" "op_which p = im_overfilled imb"
    "(op_ticker p, op_side p) = leg_ticker_side st (im_overfilled imb)"
    "op_count p = py_trunc (target_pairs imb) - py_trunc (im_matched imb)" "0 < op_count p"
    "int (retries_for_side st (op_ticker p) PURPOSE_REBALANCE_SELL) < ib_max_retries_per_side (pp_imbalance params)"
    "of_int (ib_no_orders_after_s (pp_imbalance params)) \<le> t"
  using assms
  by (auto simp: propose_rebalance_def propose_buy_def propose_sell_def Let_def case_prod_beta
      split: option.splits if_splits)

lemma leg_ticker_side_key:
  "leg_key st w \<noteq> None \<Longrightarrow> (tk, side) = leg_ticker_side st w \<Longrightarrow> leg_key st w = Some (tk, side)"
  by (cases w) (auto simp: or_default_def)

lemma pair_by_leg:
  "is_balanced st \<longleftrightarrow> net st (other_leg w) = net st w"
  "pair_net_cash_out st = leg_cash_out st w + leg_cash_out st (other_leg w)"
  "matched_pairs st = min (net st w) (net st (other_leg w))"
  by (cases w; auto simp: is_balanced_def pair_net_cash_out_def matched_pairs_def min.commute)+

lemma whole_net_trunc: "whole_net st w \<Longrightarrow> of_int (py_trunc (net st w)) = net st w"
  by (simp add: whole_net_def py_trunc_whole)

lemma retry_buy_balances:
  assumes proposed: "propose_rebalance st params t q cap = Retry_Buy p cost proj tot k"
    and tks: "ls_high_ticker st \<noteq> ls_low_ticker st"
    and held: "leg_key st (op_which p) \<noteq> None"
    and whole: "whole_net st High" "whole_net st Low"
    and st': "st' = record_response (record_intent st (rebalance_intent st p True cid xi close t)) r"
    and r: "real_cid r = Some cid" "or_average_fill_price r = Some price"
      "or_fill_count r = of_int (op_count p)"
    and pr: "price \<le> op_limit_price p" "fee_of r \<le> or_fill_count r * fee (op_limit_price p)"
  shows "is_balanced st'" "matched_pairs st' = max (net st High) (net st Low)"
    and "pair_net_cash_out st' \<le> cap * matched_pairs st'"
proof -
  from proposed obtain imb where imb: "detect_imbalance st = Some imb" "op_which p = im_deficient imb"
    "(op_ticker p, op_side p) = leg_ticker_side st (im_deficient imb)"
    "op_count p = py_trunc (im_deficit imb)"
    "pair_net_cash_out st + projected_retry imb (op_limit_price p) \<le> cap * target_pairs imb"
    by (rule propose_buyD)
  note d = detect_imbalanceD [OF imb(1)]
  let ?w = "op_which p"
  have o: "im_overfilled imb = other_leg ?w" by (simp add: imb(2) d(1))
  have key: "leg_key st ?w = Some (op_ticker p, op_side p)"
    using held imb(3) by (intro leg_ticker_side_key) (simp_all add: imb(2))
  obtain a b where ab: "net st ?w = of_int a" "net st (other_leg ?w) = of_int b"
    using whole whole_net_trunc by (cases ?w) (metis other_leg_simps)+
  have "im_deficit imb = of_int (b - a)" unfolding d(2) o imb(2) [symmetric] ab by simp
  then have fill: "or_fill_count r = net st (other_leg ?w) - net st ?w"
    using py_trunc_whole [of "im_deficit imb"] by (simp add: r(3) imb(4) ab)
  have pos: "0 < or_fill_count r"
    using d(3) unfolding d(2) o imb(2) [symmetric] fill .
  note f = rebalance_fill [OF tks key r(1,2) pos st']
  have n: "net st' ?w = net st (other_leg ?w)" "net st' (other_leg ?w) = net st (other_leg ?w)"
    using f(1,3) by (simp_all add: fill)
  then show "is_balanced st'" by (simp add: pair_by_leg(1) [of _ ?w])
  have m: "matched_pairs st' = target_pairs imb" using n by (simp add: pair_by_leg(3) [of _ ?w] d(4) o)
  then show "matched_pairs st' = max (net st High) (net st Low)" using d(6) by (simp add: d(4))
  have "or_fill_count r * price \<le> or_fill_count r * op_limit_price p"
    using pos pr(1) by (intro mult_left_mono) simp_all
  then have "pair_net_cash_out st' \<le> pair_net_cash_out st + or_fill_count r * (op_limit_price p + fee (op_limit_price p))"
    using f(2,4) pr(2) by (simp add: pair_by_leg(2) [of _ ?w] distrib_left)
  moreover have "or_fill_count r = im_deficit imb" unfolding fill d(2) o imb(2) [symmetric] ..
  ultimately show "pair_net_cash_out st' \<le> cap * matched_pairs st'"
    using imb(5) by (simp add: m projected_retry_def)
qed

lemma sell_down_balances:
  assumes proposed: "propose_rebalance st params t q cap = Sell_Down p target k"
    and tks: "ls_high_ticker st \<noteq> ls_low_ticker st"
    and held: "leg_key st (op_which p) \<noteq> None"
    and whole: "whole_net st High" "whole_net st Low"
    and st': "st' = record_response (record_intent st (rebalance_intent st p False cid xi close t)) r"
    and r: "real_cid r = Some cid" "or_average_fill_price r = Some price"
      "or_fill_count r = of_int (op_count p)"
  shows "is_balanced st'" "matched_pairs st' = min (net st High) (net st Low)"
    and "pair_net_cash_out st' = pair_net_cash_out st + fee_of r - or_fill_count r * price"
proof -
  from proposed obtain imb where imb: "detect_imbalance st = Some imb" "op_which p = im_overfilled imb"
    "(op_ticker p, op_side p) = leg_ticker_side st (im_overfilled imb)"
    "op_count p = py_trunc (target_pairs imb) - py_trunc (im_matched imb)" "0 < op_count p"
    by (rule propose_sellD)
  note d = detect_imbalanceD [OF imb(1)]
  let ?w = "op_which p"
  have o: "im_deficient imb = other_leg ?w" using d(1) by (cases "im_deficient imb") (simp_all add: imb(2))
  have key: "leg_key st ?w = Some (op_ticker p, op_side p)"
    using held imb(3) by (intro leg_ticker_side_key) (simp_all add: imb(2))
  have wn: "whole_net st w" for w using whole by (cases w) simp_all
  have fill: "or_fill_count r = net st ?w - net st (other_leg ?w)"
    using whole_net_trunc [OF wn] by (simp add: r(3) imb(4) d(4,5) o imb(2) [symmetric])
  have pos: "0 < or_fill_count r" using imb(5) by (simp add: r(3))
  note f = rebalance_fill [OF tks key r(1,2) pos st']
  have n: "net st' ?w = net st (other_leg ?w)" "net st' (other_leg ?w) = net st (other_leg ?w)"
    using f(1,3) by (simp_all add: fill)
  then show "is_balanced st'" by (simp add: pair_by_leg(1) [of _ ?w])
  show "matched_pairs st' = min (net st High) (net st Low)"
    using n d(7) by (simp add: pair_by_leg(3) [of _ ?w] o)
  show "pair_net_cash_out st' = pair_net_cash_out st + fee_of r - or_fill_count r * price"
    using f(2,4) by (simp add: pair_by_leg(2) [of _ ?w])
qed

section \<open>The poll finds exactly the differences\<close>

definition signed_net :: "ledger_state \<Rightarrow> which_leg \<Rightarrow> lots" where
  "signed_net st w =
     (case position st w of
        None \<Rightarrow> 0 | Some p \<Rightarrow> if lp_side p = ''yes'' then lp_net p else - lp_net p)"

text \<open>What the exchange should show of a ticker: the held YES counts, the held NO counts negated.\<close>

definition signed_exposure :: "ledger_state \<Rightarrow> ticker \<Rightarrow> lots" where
  "signed_exposure st tk =
     (if tk = ls_high_ticker st then signed_net st High else 0) +
     (if tk = ls_low_ticker st then signed_net st Low else 0)"

lemma position_ticker:
  assumes "ledger_ok st" "position st w = Some p"
  shows "Some (lp_ticker p, lp_side p) = leg_key st w"
proof -
  from assms(2) obtain k where k: "leg_key st w = Some k" "map_of (ls_positions st) k = Some p"
    by (auto simp: position_def split: option.splits)
  from map_of_SomeD [OF k(2)] assms(1) have "k = (lp_ticker p, lp_side p)"
    by (force simp: ledger_ok_def)
  with k show ?thesis by simp
qed

lemma add_expected_get:
  assumes "ledger_ok st"
  shows "dict_get_default (add_expected st out w) tk 0 = dict_get_default out tk 0 +
    (if tk = fst (leg_ticker_side st w) then signed_net st w else 0)"
proof (cases "position st w")
  case (Some p)
  from position_ticker [OF assms Some, symmetric] have "lp_ticker p = fst (leg_ticker_side st w)"
    by (cases w) auto
  with Some show ?thesis
    by (auto simp: add_expected_def signed_net_def dict_get_default_def Let_def)
qed (simp add: add_expected_def signed_net_def)

lemma dict_get_default_filter:
  "distinct (map fst d) \<Longrightarrow>
     dict_get_default (filter (\<lambda>kv. snd kv \<noteq> (0::rat)) d) k 0 = dict_get_default d k 0"
proof (induction d)
  case (Cons kv d)
  have "map_of (filter (\<lambda>kv. snd kv \<noteq> 0) d) (fst kv) = None" if "fst kv \<notin> fst ` set d"
    using that by (auto simp: map_of_eq_None_iff)
  with Cons show ?case by (cases kv) (auto simp: dict_get_default_def)
qed simp

lemma add_expected_distinct: "distinct (map fst out) \<Longrightarrow> distinct (map fst (add_expected st out w))"
  by (simp add: add_expected_def Let_def distinct_update split: option.split)

lemma expected_positions_get:
  assumes "ledger_ok st"
  shows "dict_get_default (expected_positions st) tk 0 = signed_exposure st tk"
proof -
  have "distinct (map fst (foldl (add_expected st) [] [High, Low]))"
    by (simp add: add_expected_distinct)
  then show ?thesis
    unfolding expected_positions_def
    by (simp add: dict_get_default_filter add_expected_get [OF assms] signed_exposure_def)
      (simp add: dict_get_default_def)
qed

lemma dict_get_default_absent: "k \<notin> fst ` set d \<Longrightarrow> dict_get_default d k v = v"
  by (simp add: dict_get_default_def map_of_eq_None_iff [THEN iffD2])

lemma set_diff_positions:
  "set (diff_positions e obs) = {t. dict_get_default e t 0 \<noteq> dict_get_default obs t 0}"
proof -
  have "t \<in> fst ` set e \<or> t \<in> fst ` set obs" if "dict_get_default e t 0 \<noteq> dict_get_default obs t 0" for t
    using that dict_get_default_absent by metis
  then show ?thesis by (auto simp: diff_positions_def dict_keys_def)
qed

lemma diff_positions_sorted: "sorted (diff_positions e obs)" "distinct (diff_positions e obs)"
  by (simp_all add: diff_positions_def)

end
