(* ===== verification/Stops.thy ===== *)
theory Stops
  imports Ledger
begin

text \<open>
  The alarm and stop falsifiers, \<open>pilot/service/stops.py\<close>, without the controller: the stop
  state, the arithmetic checks, the position policy of a stop, the arming gate, the day-scoped
  guard file that carries a latch from one window's process to the next, and the daily-loss band.
  A file is its content: absent, unreadable, or the JSON it holds. A write succeeds.
\<close>

section \<open>Kinds, configuration and state\<close>

definition A1_SLIPPAGE :: string where "A1_SLIPPAGE = ''A1''"
definition A4_GUARD :: string where "A4_GUARD = ''A4''"
definition S1_ARITH :: string where "S1_ARITH = ''S1''"
definition S2_IMBALANCE :: string where "S2_IMBALANCE = ''S2''"
definition S3_RECON :: string where "S3_RECON = ''S3''"
definition S4_DAILY_LOSS :: string where "S4_DAILY_LOSS = ''S4''"

definition DAY_HALTING_STOPS :: "string list" where
  "DAY_HALTING_STOPS = [S1_ARITH, S2_IMBALANCE, S3_RECON, S4_DAILY_LOSS]"

record stop_config =
  sg_slippage_alarm :: money
  sg_daily_loss_cap :: money
  sg_guard_trips_standdown :: nat
  sg_hold_floor_pairs :: bool
  sg_flatten_unprotected :: bool

definition default_stop_config :: stop_config where
  "default_stop_config =
     \<lparr>sg_slippage_alarm = 2/100, sg_daily_loss_cap = 3, sg_guard_trips_standdown = 5,
      sg_hold_floor_pairs = True, sg_flatten_unprotected = True\<rparr>"

record notification =
  nt_kind :: string
  nt_reason :: string
  nt_detail :: "(string \<times> json) list"

record stop_state =
  ss_tripped :: "string list"
  ss_alarms :: "notification list"
  ss_notifications :: "notification list"
  ss_guard_trips :: nat
  ss_daily_realized :: money

definition new_stop_state :: stop_state where
  "new_stop_state =
     \<lparr>ss_tripped = [], ss_alarms = [], ss_notifications = [], ss_guard_trips = 0, ss_daily_realized = 0\<rparr>"

definition is_stopped :: "stop_state \<Rightarrow> bool" where
  "is_stopped s \<longleftrightarrow> ss_tripped s \<noteq> []"

definition has_stop :: "stop_state \<Rightarrow> string \<Rightarrow> bool" where
  "has_stop s stop \<longleftrightarrow> stop \<in> set (ss_tripped s)"

section \<open>Transitions\<close>

definition apply_stop :: "stop_state \<Rightarrow> string \<Rightarrow> string \<Rightarrow> (string \<times> json) list \<Rightarrow> stop_state" where
  "apply_stop s stop reason detail =
     s\<lparr>ss_tripped := (if stop \<in> set (ss_tripped s) then ss_tripped s else ss_tripped s @ [stop]),
       ss_notifications := ss_notifications s @
         [\<lparr>nt_kind = stop, nt_reason = reason, nt_detail = detail\<rparr>]\<rparr>"

definition apply_alarm :: "stop_state \<Rightarrow> string \<Rightarrow> string \<Rightarrow> (string \<times> json) list \<Rightarrow> stop_state" where
  "apply_alarm s alarm reason detail =
     (let note = \<lparr>nt_kind = alarm, nt_reason = reason, nt_detail = detail\<rparr>
      in s\<lparr>ss_alarms := ss_alarms s @ [note], ss_notifications := ss_notifications s @ [note]\<rparr>)"

definition slippage_note :: "stop_config \<Rightarrow> intent_leg \<Rightarrow> money \<Rightarrow> notification list" where
  "slippage_note cfg leg av =
     (let slip = \<bar>av - il_limit_price leg\<bar> in
      if sg_slippage_alarm cfg < slip
      then [\<lparr>nt_kind = A1_SLIPPAGE,
             nt_reason = ''slippage '' @ dec_text slip @ '' > '' @ dec_text (sg_slippage_alarm cfg)
               @ '' on '' @ il_ticker leg,
             nt_detail = [(''ticker'', JStr (il_ticker leg)),
               (''limit'', JStr (dec_text (il_limit_price leg))),
               (''avg_fill'', JStr (dec_text av)), (''slippage'', JStr (dec_text slip))]\<rparr>]
      else [])"

definition check_slippage_alarms ::
  "intent \<Rightarrow> order_response list \<Rightarrow> stop_config \<Rightarrow> notification list" where
  "check_slippage_alarms i responses cfg =
     (let by_cid = foldl (\<lambda>d leg. AList.update (il_client_order_id leg) leg d) [] (in_legs i)
      in concat (map (\<lambda>r.
           if or_no_fill r \<or> or_fill_count r \<le> 0 then []
           else (case (or_average_fill_price r, Option.bind (or_client_order_id r) (map_of by_cid)) of
                   (Some av, Some leg) \<Rightarrow> slippage_note cfg leg av
                 | _ \<Rightarrow> [])) responses))"

definition record_guard_trip :: "stop_state \<Rightarrow> stop_config \<Rightarrow> stop_state \<times> notification option" where
  "record_guard_trip s cfg =
     (let n = ss_guard_trips s + 1; s1 = s\<lparr>ss_guard_trips := n\<rparr> in
      if n = sg_guard_trips_standdown cfg
      then (let note = \<lparr>nt_kind = A4_GUARD,
                  nt_reason = int_text (int n) @ '' book-guard trips today -> stand down for the day'',
                  nt_detail = [(''guard_trips'', JInt (int n))]\<rparr>
            in (s1\<lparr>ss_alarms := ss_alarms s1 @ [note],
                   ss_notifications := ss_notifications s1 @ [note]\<rparr>, Some note))
      else (s1, None))"

definition on_realized :: "stop_state \<Rightarrow> money \<Rightarrow> stop_config \<Rightarrow> stop_state \<times> bool" where
  "on_realized s delta cfg =
     (let total = ss_daily_realized s + delta; s1 = s\<lparr>ss_daily_realized := total\<rparr> in
      if total \<le> - sg_daily_loss_cap cfg
      then (apply_stop s1 S4_DAILY_LOSS
              (''daily realized '' @ dec_text total @ '' <= -'' @ dec_text (sg_daily_loss_cap cfg))
              [(''daily_realized'', JStr (dec_text total))], True)
      else (s1, False))"

section \<open>S1\<close>

text \<open>The reasons keep the numbers they print.\<close>

datatype s1_reason =
    Flip_Floor_Violated lots money money
  | Box_Fill_Above_Limit ticker string money money
  | Box_Cost_Above_Max money money

definition check_s1 :: "ledger_state \<Rightarrow> s1_reason option" where
  "check_s1 st =
     (if ls_source st \<noteq> SUB_DOLLAR_FLIP then None
      else if matched_pairs st \<le> 0 then None
      else if realized_min st < 0
      then Some (Flip_Floor_Violated (matched_pairs st) (realized_min st) (pair_net_cash_out st))
      else None)"

definition entry_limits :: "ledger_state \<Rightarrow> (ticker \<times> string, money) dict" where
  "entry_limits st =
     foldl (\<lambda>d lg. AList.update (il_ticker lg, il_side lg) (il_limit_price lg) d) []
       (case List.find (\<lambda>i. in_purpose i = PURPOSE_ENTRY) (ls_intents st) of
          None \<Rightarrow> [] | Some i \<Rightarrow> in_legs i)"

definition box_units_violation :: "ledger_state \<Rightarrow> which_leg \<Rightarrow> s1_reason option" where
  "box_units_violation st w =
     (case position st w of
        None \<Rightarrow> None
      | Some p \<Rightarrow>
          (case (lp_avg_buy_price p, map_of (entry_limits st) (lp_ticker p, lp_side p)) of
             (Some av, Some mx) \<Rightarrow>
               if mx < av then Some (Box_Fill_Above_Limit (lp_ticker p) (lp_side p) av mx) else None
           | _ \<Rightarrow> None))"

definition box_booked_cost :: "ledger_state \<Rightarrow> which_leg \<Rightarrow> money" where
  "box_booked_cost st w = (case position st w of None \<Rightarrow> 0 | Some p \<Rightarrow> lp_bought_cost p)"

definition check_s1_box :: "ledger_state \<Rightarrow> money \<Rightarrow> s1_reason option" where
  "check_s1_box st pair_cost_max =
     (if ls_source st \<noteq> LEDGER_WIDE_BOX then None
      else (case box_units_violation st High of
              Some r \<Rightarrow> Some r
            | None \<Rightarrow>
                (case box_units_violation st Low of
                   Some r \<Rightarrow> Some r
                 | None \<Rightarrow>
                     (let cost = box_booked_cost st High + box_booked_cost st Low
                      in if pair_cost_max < cost then Some (Box_Cost_Above_Max cost pair_cost_max)
                         else None))))"

section \<open>The position policy of a stop\<close>

datatype hold_reason = Floor_Pair | Strangle_Leg | Flip_Overhang | Flatten_Disabled

record position_action =
  pa_flatten :: bool
  pa_ticker :: ticker
  pa_side :: string
  pa_count :: int
  pa_reason :: hold_reason

definition protected_lots :: "ledger_state \<Rightarrow> stop_config \<Rightarrow> leg_position \<Rightarrow> lots" where
  "protected_lots st cfg p =
     (if ls_source st = SUB_DOLLAR_FLIP \<and> sg_hold_floor_pairs cfg
      then min (lp_net p) (matched_pairs st) else 0)"

definition leg_policy :: "ledger_state \<Rightarrow> stop_config \<Rightarrow> which_leg \<Rightarrow> position_action list" where
  "leg_policy st cfg w =
     (case position st w of
        None \<Rightarrow> []
      | Some p \<Rightarrow>
          if lp_net p \<le> 0 then []
          else
            (let protected = protected_lots st cfg p; unprotected = lp_net p - protected;
                 act = (\<lambda>flatten n reason. \<lparr>pa_flatten = flatten, pa_ticker = lp_ticker p,
                          pa_side = lp_side p, pa_count = py_trunc n, pa_reason = reason\<rparr>)
             in (if 0 < protected then [act False protected Floor_Pair] else []) @
                (if 0 < unprotected
                 then [if sg_flatten_unprotected cfg
                       then act True unprotected
                              (if ls_source st = SUB_DOLLAR_FLIP then Flip_Overhang else Strangle_Leg)
                       else act False unprotected Flatten_Disabled]
                 else [])))"

definition position_policy :: "ledger_state \<Rightarrow> stop_config \<Rightarrow> position_action list" where
  "position_policy st cfg = leg_policy st cfg High @ leg_policy st cfg Low"

definition build_flatten_intent ::
  "position_action \<Rightarrow> string \<Rightarrow> string \<Rightarrow> money \<Rightarrow> string \<Rightarrow> int option \<Rightarrow> intent" where
  "build_flatten_intent act window source bid cid xi =
     \<lparr>in_window = window, in_source = source, in_purpose = PURPOSE_FLATTEN,
      in_legs = [\<lparr>il_ticker = pa_ticker act, il_side = pa_side act, il_action = ''sell'',
                  il_count = pa_count act, il_limit_price = bid, il_client_order_id = cid,
                  il_reduce_only = Some True, il_exchange_index = xi\<rparr>],
      in_t_minus = None\<rparr>"

section \<open>Arming (S5)\<close>

text \<open>A text file is its lines, or \<open>None\<close> when it cannot be read.\<close>

definition falsifier_is_frozen :: "string list option \<Rightarrow> bool" where
  "falsifier_is_frozen lines =
     (case lines of None \<Rightarrow> False | Some ls \<Rightarrow> list_ex (\<lambda>l. strip l = ''STATUS: FROZEN'') ls)"

definition health_has_caps :: "json \<Rightarrow> bool" where
  "health_has_caps health =
     (case health of
        JObj kvs \<Rightarrow>
          json_truthy (json_field kvs ''orders_enabled'') \<and>
          (case json_field kvs ''caps'' of
             JObj caps \<Rightarrow>
               list_all (\<lambda>k. map_of caps k \<noteq> None)
                 [''max_contracts_per_order'', ''ticker_prefixes'', ''daily_order_budget'']
           | _ \<Rightarrow> False)
      | _ \<Rightarrow> False)"

datatype arm_reason =
    Policy_Unverified
  | Falsifier_Not_Frozen
  | Health_Without_Caps
  | Wrong_Strategy "string option" string

record arm_decision =
  ad_armed :: bool
  ad_reasons :: "arm_reason list"

definition arming_check ::
  "string list option \<Rightarrow> json \<Rightarrow> bool \<Rightarrow> string option \<Rightarrow> string option \<Rightarrow> arm_decision" where
  "arming_check falsifier health policy_verified strategy expected_strategy =
     (let reasons =
            (if policy_verified then [] else [Policy_Unverified]) @
            (if falsifier_is_frozen falsifier then [] else [Falsifier_Not_Frozen]) @
            (if health_has_caps health then [] else [Health_Without_Caps]) @
            (case expected_strategy of
               None \<Rightarrow> []
             | Some e \<Rightarrow> if strategy \<noteq> Some e then [Wrong_Strategy strategy e] else [])
      in \<lparr>ad_armed = (reasons = []), ad_reasons = reasons\<rparr>)"

section \<open>The day guard file\<close>

datatype guard_file = Missing | Unreadable | Parsed json

record day_guard =
  dg_utc_day :: string
  dg_balance_start_dollars :: "string option"
  dg_latched :: "(string \<times> json) list list"
  dg_corrupt :: bool
  dg_exists :: bool

definition corrupt_guard :: "string \<Rightarrow> day_guard" where
  "corrupt_guard utc_day =
     \<lparr>dg_utc_day = utc_day, dg_balance_start_dollars = None, dg_latched = [],
      dg_corrupt = True, dg_exists = True\<rparr>"

definition balance_start :: "day_guard \<Rightarrow> money option" where
  "balance_start g = Option.bind (dg_balance_start_dollars g) parse_decimal"

definition read_latched :: "json \<Rightarrow> (string \<times> json) list list option" where
  "read_latched v = (case v of JList xs \<Rightarrow> those (map json_object xs) | _ \<Rightarrow> None)"

definition read_baseline :: "json \<Rightarrow> string option option" where
  "read_baseline v = (if v = JNull then Some None else map_option (Some \<circ> dec_text) (to_decimal v))"

definition read_day_guard :: "guard_file \<Rightarrow> string \<Rightarrow> day_guard" where
  "read_day_guard f utc_day =
     (case f of
        Missing \<Rightarrow>
          \<lparr>dg_utc_day = utc_day, dg_balance_start_dollars = None, dg_latched = [],
           dg_corrupt = False, dg_exists = False\<rparr>
      | Unreadable \<Rightarrow> corrupt_guard utc_day
      | Parsed (JObj kvs) \<Rightarrow>
          if json_field kvs ''utc_day'' \<noteq> JStr utc_day then corrupt_guard utc_day
          else (case (read_latched (json_field kvs ''latched''),
                      read_baseline (json_field kvs ''balance_start_dollars'')) of
                  (Some latched, Some bsd) \<Rightarrow>
                    \<lparr>dg_utc_day = utc_day, dg_balance_start_dollars = bsd, dg_latched = latched,
                     dg_corrupt = False, dg_exists = True\<rparr>
                | _ \<Rightarrow> corrupt_guard utc_day)
      | Parsed _ \<Rightarrow> corrupt_guard utc_day)"

definition write_day_guard :: "day_guard \<Rightarrow> guard_file" where
  "write_day_guard g =
     Parsed (JObj
       [(''balance_start_dollars'', opt_json JStr (dg_balance_start_dollars g)),
        (''latched'', JList (map JObj (dg_latched g))), (''utc_day'', JStr (dg_utc_day g))])"

definition latched_stop_kind :: "day_guard \<Rightarrow> string option" where
  "latched_stop_kind g =
     (case List.find (\<lambda>k. k \<in> set DAY_HALTING_STOPS)
             (List.map_filter (\<lambda>e. json_text (json_field e ''kind'')) (dg_latched g)) of
        None \<Rightarrow> None | Some k \<Rightarrow> Some k)"

definition latch_entry :: "string \<Rightarrow> string \<Rightarrow> string option \<Rightarrow> time \<Rightarrow> (string \<times> json) list" where
  "latch_entry kind reason window ts =
     [(''kind'', JStr kind), (''reason'', JStr reason), (''window'', opt_json JStr window),
      (''ts'', JFloat ts)]"

definition record_latched_stop ::
  "guard_file \<Rightarrow> string \<Rightarrow> string \<Rightarrow> string \<Rightarrow> string option \<Rightarrow> time \<Rightarrow> guard_file" where
  "record_latched_stop f utc_day kind reason window ts =
     (let g = read_day_guard f utc_day;
          latched = (if dg_corrupt g then [] else dg_latched g);
          bsd = (if dg_corrupt g then None else dg_balance_start_dollars g)
      in write_day_guard
           \<lparr>dg_utc_day = utc_day, dg_balance_start_dollars = bsd,
            dg_latched = latched @ [latch_entry kind reason window ts],
            dg_corrupt = False, dg_exists = False\<rparr>)"

definition ensure_balance_start ::
  "guard_file \<Rightarrow> string \<Rightarrow> money \<Rightarrow> guard_file \<times> money option \<times> bool" where
  "ensure_balance_start f utc_day balance_now =
     (let g = read_day_guard f utc_day in
      if dg_corrupt g then (f, None, False)
      else (case balance_start g of
              Some b \<Rightarrow> (f, Some b, False)
            | None \<Rightarrow>
                (write_day_guard
                   \<lparr>dg_utc_day = utc_day, dg_balance_start_dollars = Some (dec_text balance_now),
                    dg_latched = dg_latched g, dg_corrupt = False, dg_exists = False\<rparr>,
                 Some balance_now, True)))"

section \<open>The daily loss\<close>

record balance_read =
  br_dollars :: "money option"
  br_cents :: "int option"
  br_portfolio_value :: json
  br_status :: string

definition br_ok :: "balance_read \<Rightarrow> bool" where
  "br_ok b \<longleftrightarrow> br_dollars b \<noteq> None \<and> br_status b = ''ok''"

definition parse_balance :: "json \<Rightarrow> balance_read" where
  "parse_balance payload =
     (let mk = (\<lambda>d c pv s. \<lparr>br_dollars = d, br_cents = c, br_portfolio_value = pv, br_status = s\<rparr>) in
      case payload of
        JObj kvs \<Rightarrow>
          (let pv = json_field kvs ''portfolio_value'';
               bd = json_field kvs ''balance_dollars''; bc = json_field kvs ''balance'' in
           if bd = JNull then mk None None pv ''missing_balance_dollars''
           else if bc = JNull then mk None None pv ''missing_balance_cents''
           else (case (to_decimal bd, json_int bc) of
                   (Some dollars, Some cents) \<Rightarrow>
                     if 1/100 \<le> \<bar>dollars - of_int cents / 100\<bar>
                     then mk None (Some cents) pv ''mismatch''
                     else mk (Some dollars) (Some cents) pv ''ok''
                 | _ \<Rightarrow> mk None None pv ''malformed''))
      | _ \<Rightarrow> mk None None JNull ''malformed'')"

definition balance_loss_dollars :: "money \<Rightarrow> money \<Rightarrow> money" where
  "balance_loss_dollars start now = start - now"

definition s4_balance_breached :: "money \<Rightarrow> money \<Rightarrow> money \<Rightarrow> bool \<times> money" where
  "s4_balance_breached start now cap =
     (let loss = balance_loss_dollars start now in (cap \<le> loss, loss))"

text \<open>A pending row of the settlement sweep; a leg is \<open>(ticker, side, count, result)\<close>.\<close>

record pending_row =
  pw_close_time :: string
  pw_legs :: "json list list"

definition leg_pending_value :: "json list \<Rightarrow> money" where
  "leg_pending_value leg =
     (if length leg > 3 \<and> leg ! 3 \<noteq> JNull then 0
      else if length leg > 2 then or_default 1 (to_decimal (leg ! 2)) else 1)"

definition s4_pending_value :: "(string, pending_row) dict \<Rightarrow> string \<Rightarrow> money" where
  "s4_pending_value pending utc_day =
     sum_list (map (\<lambda>(_, row).
       if take 10 (pw_close_time row) \<noteq> utc_day then 0
       else sum_list (map leg_pending_value (pw_legs row))) pending)"

datatype s4_kind = S4_Clear | S4_Pending | S4_Latch

record s4_decision =
  s4_verdict :: s4_kind
  s4_loss_pessimistic :: money
  s4_loss_optimistic :: money

definition s4_balance_decision :: "money \<Rightarrow> money \<Rightarrow> money \<Rightarrow> money \<Rightarrow> s4_decision" where
  "s4_balance_decision start now pending_value cap =
     (let pess = snd (s4_balance_breached start now cap);
          opt = balance_loss_dollars start (now + pending_value)
      in \<lparr>s4_verdict = (if cap \<le> opt then S4_Latch else if pess < cap then S4_Clear else S4_Pending),
          s4_loss_pessimistic = pess, s4_loss_optimistic = opt\<rparr>)"

section \<open>The loss band is exact\<close>

lemma s4_band:
  assumes "0 \<le> pv"
  shows "s4_verdict (s4_balance_decision start now pv cap) = S4_Latch \<longleftrightarrow>
      (\<forall>v. 0 \<le> v \<and> v \<le> pv \<longrightarrow> fst (s4_balance_breached start (now + v) cap))"
    and "s4_verdict (s4_balance_decision start now pv cap) = S4_Clear \<longleftrightarrow>
      (\<forall>v. 0 \<le> v \<and> v \<le> pv \<longrightarrow> \<not> fst (s4_balance_breached start (now + v) cap))"
proof -
  have all: "(\<forall>v. 0 \<le> v \<and> v \<le> pv \<longrightarrow> cap \<le> start - (now + v)) \<longleftrightarrow> cap \<le> start - (now + pv)"
  proof
    assume "\<forall>v. 0 \<le> v \<and> v \<le> pv \<longrightarrow> cap \<le> start - (now + v)"
    with assms show "cap \<le> start - (now + pv)" by blast
  qed auto
  have none: "(\<forall>v. 0 \<le> v \<and> v \<le> pv \<longrightarrow> \<not> cap \<le> start - (now + v)) \<longleftrightarrow> start - now < cap"
  proof
    assume "\<forall>v. 0 \<le> v \<and> v \<le> pv \<longrightarrow> \<not> cap \<le> start - (now + v)"
    from this [rule_format, of 0] assms show "start - now < cap" by simp
  qed auto
  show "s4_verdict (s4_balance_decision start now pv cap) = S4_Latch \<longleftrightarrow>
      (\<forall>v. 0 \<le> v \<and> v \<le> pv \<longrightarrow> fst (s4_balance_breached start (now + v) cap))"
    using all by (simp add: s4_balance_decision_def s4_balance_breached_def balance_loss_dollars_def Let_def)
  show "s4_verdict (s4_balance_decision start now pv cap) = S4_Clear \<longleftrightarrow>
      (\<forall>v. 0 \<le> v \<and> v \<le> pv \<longrightarrow> \<not> fst (s4_balance_breached start (now + v) cap))"
    using none assms
    by (auto simp: s4_balance_decision_def s4_balance_breached_def balance_loss_dollars_def Let_def)
qed

section \<open>The guard file\<close>

lemma parse_dec_text_any: "\<exists>y. parse_decimal (dec_text x) = Some y \<and> is_decimal y"
proof (cases "decimal_places x")
  case None
  define n where "n = round_half_even (x * 10 ^ 28)"
  have "dec_text x = fixed_text 28 n" by (simp add: dec_text_def None n_def)
  moreover have "is_decimal (of_int n / 10 ^ 28)"
  proof (rule is_decimalI [of _ 28])
    have "of_int n / 10 ^ 28 * 10 ^ 28 = (of_int n :: rat)" by simp
    then show "of_int \<lfloor>(of_int n / 10 ^ 28 * 10 ^ 28 :: rat)\<rfloor> = (of_int n / 10 ^ 28 * 10 ^ 28 :: rat)"
      by (simp only: floor_of_int)
  qed simp
  ultimately show ?thesis using parse_fixed_text [of 28 n] by metis
next
  case (Some k)
  then have "is_decimal x" by (simp add: is_decimal_def)
  then show ?thesis using parse_dec_text by blast
qed

text \<open>A baseline as the file holds it: the text \<open>str\<close> prints of a decimal.\<close>

definition baseline_ok :: "day_guard \<Rightarrow> bool" where
  "baseline_ok g =
     (case dg_balance_start_dollars g of None \<Rightarrow> True | Some s \<Rightarrow> \<exists>x. s = dec_text x \<and> is_decimal x)"

definition as_written :: "day_guard \<Rightarrow> day_guard" where
  "as_written g =
     \<lparr>dg_utc_day = dg_utc_day g,
      dg_balance_start_dollars = Option.bind (dg_balance_start_dollars g)
        (\<lambda>s. map_option dec_text (parse_decimal s)),
      dg_latched = dg_latched g, dg_corrupt = False, dg_exists = True\<rparr>"

lemma those_objects: "those (map json_object (map JObj ls)) = Some ls"
  by (induction ls) (simp_all add: json_object_def)

lemma read_write_day_guard:
  assumes "\<And>s. dg_balance_start_dollars g = Some s \<Longrightarrow> parse_decimal s \<noteq> None"
  shows "read_day_guard (write_day_guard g) (dg_utc_day g) = as_written g"
proof -
  have "those (map (json_object \<circ> JObj) (dg_latched g)) = Some (dg_latched g)"
    using those_objects [of "dg_latched g"] by simp
  then show ?thesis
    using assms
    by (auto simp: read_day_guard_def write_day_guard_def json_field_def read_latched_def
        read_baseline_def as_written_def opt_json_def to_decimal_def split: option.split)
qed

lemma read_write_day_guard_dec:
  assumes "\<And>s. dg_balance_start_dollars g = Some s \<Longrightarrow> \<exists>x. s = dec_text x"
  shows "read_day_guard (write_day_guard g) (dg_utc_day g) = as_written g"
proof (rule read_write_day_guard)
  fix s assume "dg_balance_start_dollars g = Some s"
  with assms obtain x where "s = dec_text x" by blast
  then show "parse_decimal s \<noteq> None" using parse_dec_text_any [of x] by auto
qed

lemma read_baseline_dec: "dg_balance_start_dollars (read_day_guard f d) = Some s \<Longrightarrow> \<exists>x. s = dec_text x"
  by (auto simp: read_day_guard_def corrupt_guard_def read_baseline_def split: guard_file.splits
      json.splits option.splits if_splits)

text \<open>The refusal the arming check reads off the file, and what a window may do to the file.\<close>

definition guard_refuses :: "guard_file \<Rightarrow> string \<Rightarrow> bool" where
  "guard_refuses f day \<longleftrightarrow>
     dg_corrupt (read_day_guard f day) \<or> latched_stop_kind (read_day_guard f day) \<noteq> None"

datatype guard_op = Latch_Stop string string "string option" time | Ensure_Start money

fun guard_step :: "string \<Rightarrow> guard_file \<Rightarrow> guard_op \<Rightarrow> guard_file" where
  "guard_step day f (Latch_Stop kind reason window ts) = record_latched_stop f day kind reason window ts"
| "guard_step day f (Ensure_Start b) = fst (ensure_balance_start f day b)"

fun halting_op :: "guard_op \<Rightarrow> bool" where
  "halting_op (Latch_Stop kind _ _ _) \<longleftrightarrow> kind \<in> set DAY_HALTING_STOPS"
| "halting_op (Ensure_Start _) \<longleftrightarrow> True"

lemma map_filter_append: "List.map_filter f (xs @ ys) = List.map_filter f xs @ List.map_filter f ys"
  by (simp add: List.map_filter_def)

lemma latched_stop_kind_append:
  assumes "dg_latched g' = dg_latched g @ [latch_entry kind reason window ts]"
  shows "latched_stop_kind g' =
    (case latched_stop_kind g of Some k \<Rightarrow> Some k
     | None \<Rightarrow> if kind \<in> set DAY_HALTING_STOPS then Some kind else None)"
proof -
  have find_app: "List.find P (xs @ [x]) = (case List.find P xs of Some y \<Rightarrow> Some y
      | None \<Rightarrow> if P x then Some x else None)" for P and xs :: "string list" and x
    by (induction xs) auto
  have "List.map_filter (\<lambda>e. json_text (json_field e ''kind'')) [latch_entry kind reason window ts] = [kind]"
    by (simp add: List.map_filter_def latch_entry_def json_field_def json_text_def)
  then show ?thesis
    by (simp add: latched_stop_kind_def assms map_filter_append find_app split: option.split)
qed

lemma read_record_latched_stop:
  "dg_corrupt (read_day_guard (record_latched_stop f day kind reason window ts) day) = False \<and>
   dg_latched (read_day_guard (record_latched_stop f day kind reason window ts) day) =
     (if dg_corrupt (read_day_guard f day) then [] else dg_latched (read_day_guard f day))
       @ [latch_entry kind reason window ts] \<and>
   balance_start (read_day_guard (record_latched_stop f day kind reason window ts) day) =
     (if dg_corrupt (read_day_guard f day) then None else balance_start (read_day_guard f day))"
proof -
  define g where "g = read_day_guard f day"
  define g' where "g' = \<lparr>dg_utc_day = day,
    dg_balance_start_dollars = (if dg_corrupt g then None else dg_balance_start_dollars g),
    dg_latched = (if dg_corrupt g then [] else dg_latched g) @ [latch_entry kind reason window ts],
    dg_corrupt = False, dg_exists = False\<rparr>"
  have base: "\<exists>x. s = dec_text x" if "dg_balance_start_dollars g' = Some s" for s
    using that read_baseline_dec [of f day] by (auto simp: g'_def g_def split: if_splits)
  have "read_day_guard (write_day_guard g') (dg_utc_day g') = as_written g'"
    by (rule read_write_day_guard_dec [OF base])
  moreover have "record_latched_stop f day kind reason window ts = write_day_guard g'" "dg_utc_day g' = day"
    by (simp_all add: record_latched_stop_def Let_def g_def g'_def)
  ultimately have eq: "read_day_guard (record_latched_stop f day kind reason window ts) day = as_written g'"
    by simp
  have "balance_start (as_written g') = balance_start g'"
  proof (cases "dg_balance_start_dollars g'")
    case (Some s)
    with base obtain x where "s = dec_text x" by blast
    then obtain y where "parse_decimal s = Some y" "is_decimal y" using parse_dec_text_any by blast
    with Some show ?thesis by (simp add: balance_start_def as_written_def parse_dec_text)
  qed (simp add: balance_start_def as_written_def)
  then show ?thesis
    unfolding eq by (simp add: as_written_def g'_def g_def balance_start_def)
qed

lemma read_ensure_balance_start:
  assumes "\<not> dg_corrupt (read_day_guard f day)"
  shows "\<not> dg_corrupt (read_day_guard (fst (ensure_balance_start f day b)) day) \<and>
    dg_latched (read_day_guard (fst (ensure_balance_start f day b)) day) = dg_latched (read_day_guard f day) \<and>
    (balance_start (read_day_guard f day) \<noteq> None \<longrightarrow> fst (ensure_balance_start f day b) = f)"
proof (cases "balance_start (read_day_guard f day)")
  case None
  define g' where "g' = \<lparr>dg_utc_day = day, dg_balance_start_dollars = Some (dec_text b),
    dg_latched = dg_latched (read_day_guard f day), dg_corrupt = False, dg_exists = False\<rparr>"
  have "read_day_guard (write_day_guard g') (dg_utc_day g') = as_written g'"
    by (rule read_write_day_guard_dec) (auto simp: g'_def)
  moreover have "fst (ensure_balance_start f day b) = write_day_guard g'" "dg_utc_day g' = day"
    using assms by (simp_all add: ensure_balance_start_def Let_def None g'_def)
  ultimately have eq: "read_day_guard (fst (ensure_balance_start f day b)) day = as_written g'"
    by simp
  show ?thesis unfolding eq by (simp add: None as_written_def g'_def)
next
  case (Some x)
  with assms show ?thesis by (simp add: ensure_balance_start_def Let_def)
qed

lemma guard_step_refuses [inv_intros]:
  assumes "halting_op op" and "guard_refuses f day"
  shows "guard_refuses (guard_step day f op) day"
proof (cases op)
  case (Latch_Stop kind reason window ts)
  let ?g = "read_day_guard f day" and ?g' = "read_day_guard (record_latched_stop f day kind reason window ts) day"
  note r = read_record_latched_stop [of f day kind reason window ts]
  define g0 where "g0 = ?g\<lparr>dg_latched := if dg_corrupt ?g then [] else dg_latched ?g\<rparr>"
  have "latched_stop_kind ?g' = (case latched_stop_kind g0 of Some k \<Rightarrow> Some k
     | None \<Rightarrow> if kind \<in> set DAY_HALTING_STOPS then Some kind else None)"
    using r by (intro latched_stop_kind_append) (simp add: g0_def)
  with assms(1) Latch_Stop show ?thesis
    by (auto simp: guard_refuses_def split: option.splits)
next
  case (Ensure_Start b)
  show ?thesis
  proof (cases "dg_corrupt (read_day_guard f day)")
    case True
    with assms(2) Ensure_Start show ?thesis by (simp add: ensure_balance_start_def)
  next
    case False
    with read_ensure_balance_start [OF False, of b] assms(2) Ensure_Start show ?thesis
      by (simp add: guard_refuses_def latched_stop_kind_def)
  qed
qed

lemma guard_run_refuses:
  "list_all halting_op ops \<Longrightarrow> guard_refuses f day \<Longrightarrow> guard_refuses (foldl (guard_step day) f ops) day"
  by (induction ops arbitrary: f) (simp_all add: guard_step_refuses)

lemma guard_latch_refuses:
  assumes "kind \<in> set DAY_HALTING_STOPS"
  shows "guard_refuses (record_latched_stop f day kind reason window ts) day"
proof -
  let ?g = "read_day_guard f day"
  define g0 where "g0 = ?g\<lparr>dg_latched := if dg_corrupt ?g then [] else dg_latched ?g\<rparr>"
  have "latched_stop_kind (read_day_guard (record_latched_stop f day kind reason window ts) day) =
    (case latched_stop_kind g0 of Some k \<Rightarrow> Some k
     | None \<Rightarrow> if kind \<in> set DAY_HALTING_STOPS then Some kind else None)"
    using read_record_latched_stop [of f day kind reason window ts]
    by (intro latched_stop_kind_append) (simp add: g0_def)
  with assms show ?thesis by (auto simp: guard_refuses_def split: option.splits)
qed

text \<open>
  A readable file with a day-halting stop keeps it whatever is written: a one-legged occurrence
  is appended to the list, a baseline leaves the list alone. Only a corrupt file can be rewritten
  into one that arms, and only by a latch that does not halt the day.
\<close>

definition day_latched :: "guard_file \<Rightarrow> string \<Rightarrow> bool" where
  "day_latched f day \<longleftrightarrow>
     \<not> dg_corrupt (read_day_guard f day) \<and> latched_stop_kind (read_day_guard f day) \<noteq> None"

fun halting_latch :: "guard_op \<Rightarrow> bool" where
  "halting_latch (Latch_Stop kind _ _ _) \<longleftrightarrow> kind \<in> set DAY_HALTING_STOPS"
| "halting_latch (Ensure_Start _) \<longleftrightarrow> False"

lemma day_latched_refuses: "day_latched f day \<Longrightarrow> guard_refuses f day"
  by (simp add: day_latched_def guard_refuses_def)

lemma guard_step_latched:
  assumes "day_latched f day \<or> halting_latch op"
  shows "day_latched (guard_step day f op) day"
proof (cases op)
  case (Latch_Stop kind reason window ts)
  let ?g = "read_day_guard f day"
  define g0 where "g0 = ?g\<lparr>dg_latched := if dg_corrupt ?g then [] else dg_latched ?g\<rparr>"
  have "latched_stop_kind (read_day_guard (record_latched_stop f day kind reason window ts) day) =
    (case latched_stop_kind g0 of Some k \<Rightarrow> Some k
     | None \<Rightarrow> if kind \<in> set DAY_HALTING_STOPS then Some kind else None)"
    using read_record_latched_stop [of f day kind reason window ts]
    by (intro latched_stop_kind_append) (simp add: g0_def)
  moreover have "day_latched f day \<Longrightarrow> g0 = ?g" by (simp add: g0_def day_latched_def)
  ultimately show ?thesis
    using assms Latch_Stop read_record_latched_stop [of f day kind reason window ts]
    by (auto simp: day_latched_def split: option.splits)
next
  case (Ensure_Start b)
  with assms read_ensure_balance_start [of f day b] show ?thesis
    by (auto simp: day_latched_def latched_stop_kind_def)
qed

lemma guard_run_latched:
  "day_latched f day \<or> list_ex halting_latch ops \<Longrightarrow> day_latched (foldl (guard_step day) f ops) day"
proof (induction ops arbitrary: f)
  case (Cons op ops)
  then have "day_latched (guard_step day f op) day \<or> list_ex halting_latch ops"
    using guard_step_latched [of f day op] by auto
  then show ?case using Cons.IH by simp
qed simp

lemma guard_run_baseline:
  assumes "\<not> dg_corrupt (read_day_guard f day)" "balance_start (read_day_guard f day) = Some b"
  shows "\<not> dg_corrupt (read_day_guard (foldl (guard_step day) f ops) day) \<and>
    balance_start (read_day_guard (foldl (guard_step day) f ops) day) = Some b"
  using assms
proof (induction ops arbitrary: f)
  case (Cons op ops)
  have "\<not> dg_corrupt (read_day_guard (guard_step day f op) day) \<and>
    balance_start (read_day_guard (guard_step day f op) day) = Some b"
  proof (cases op)
    case (Latch_Stop kind reason window ts)
    with Cons.prems read_record_latched_stop [of f day kind reason window ts] show ?thesis by simp
  next
    case (Ensure_Start x)
    with Cons.prems read_ensure_balance_start [OF Cons.prems(1), of x] show ?thesis by simp
  qed
  with Cons.IH show ?case by simp
qed simp

end
