(* ===== verification/Executor.thy ===== *)
theory Executor
  imports Ledger Decision_Core
begin

text \<open>
  The order dispatcher, \<open>pilot/service/executor.py\<close>: the authorization, cap, routing, cutoff,
  dedup, single-flight and budget checks of \<open>Executor.execute\<close>, the one POST with its parsing, and
  the journal written on the way. The venue is a parameter: \<open>post n path orders\<close> is the reply to
  the \<open>n\<close>-th POST of the process, an exception, or a status with a body, which is \<open>None\<close> when
  \<open>resp.json()\<close> raises. The lock is not modelled: a call runs alone, as under the lock.
\<close>

section \<open>Data\<close>

datatype http_reply = Post_Raises string | Reply "int option" "json option"

type_synonym venue = "nat \<Rightarrow> string \<Rightarrow> v2_order list \<Rightarrow> http_reply"

record executor_config =
  xg_armed :: bool
  xg_max_contracts :: int
  xg_ticker_prefixes :: "string list"
  xg_no_orders_after_s :: int
  xg_window_token_budget :: int
  xg_tokens_per_entry :: int

definition default_executor_config :: executor_config where
  "default_executor_config =
     \<lparr>xg_armed = False, xg_max_contracts = 2, xg_ticker_prefixes = [''KXBTC15M'', ''KXBTCD''],
      xg_no_orders_after_s = 1, xg_window_token_budget = 200, xg_tokens_per_entry = 10\<rparr>"

datatype refusal =
    Stop_Authorized_Non_Flatten
  | Not_Armed
  | Cap_Non_Positive ticker int
  | Cap_Count int ticker int
  | Cap_Prefix ticker
  | No_Exchange_Index "ticker list"
  | No_Orders_After time
  | Window_Already_Entered
  | Single_Flight
  | Rate_Budget_Exhausted

fun join_text :: "string \<Rightarrow> string list \<Rightarrow> string" where
  "join_text sep [] = []"
| "join_text sep [s] = s"
| "join_text sep (s # ss) = s @ sep @ join_text sep ss"

fun refusal_text :: "refusal \<Rightarrow> string" where
  "refusal_text Stop_Authorized_Non_Flatten = ''stop_authorized_non_flatten''"
| "refusal_text Not_Armed = ''not_armed''"
| "refusal_text (Cap_Non_Positive tk n) = ''cap:non_positive_count:'' @ tk @ '':'' @ int_text n"
| "refusal_text (Cap_Count m tk n) = ''cap:count>'' @ int_text m @ '':'' @ tk @ '':'' @ int_text n"
| "refusal_text (Cap_Prefix tk) = ''cap:ticker_prefix:'' @ tk"
| "refusal_text (No_Exchange_Index tks) = ''no_exchange_index:'' @ join_text '','' tks"
| "refusal_text (No_Orders_After t) = ''no_orders_after_s_to_settle:t-'' @ dec_text t"
| "refusal_text Window_Already_Entered = ''window_already_entered''"
| "refusal_text Single_Flight = ''single_flight''"
| "refusal_text Rate_Budget_Exhausted = ''rate_budget_exhausted''"

record exec_result =
  er_intent :: intent
  er_responses :: "order_response list"
  er_refused :: "refusal option"
  er_http_status :: "int option"

text \<open>What escapes \<open>execute\<close> as an exception: an unbuildable leg, a body that is not JSON.\<close>

datatype exec_fault = Unbuildable wire_error | Body_Not_Json

type_synonym flight_key = "string \<times> string \<times> string"

text \<open>The executor's own state; \<open>xc_posts\<close> counts the POSTs, to index the venue's replies.\<close>

record executor =
  xc_cfg :: executor_config
  xc_inflight :: "flight_key set"
  xc_entered_windows :: "string set"
  xc_tokens_used :: "(string, int) dict"
  xc_dispatch_count :: nat
  xc_refusal_count :: nat
  xc_journal :: "(string \<times> json) list"
  xc_posts :: nat

definition new_executor :: "executor_config \<Rightarrow> executor" where
  "new_executor cfg =
     \<lparr>xc_cfg = cfg, xc_inflight = {}, xc_entered_windows = {}, xc_tokens_used = [],
      xc_dispatch_count = 0, xc_refusal_count = 0, xc_journal = [], xc_posts = 0\<rparr>"

definition set_armed :: "executor \<Rightarrow> bool \<Rightarrow> executor" where
  "set_armed x value = x\<lparr>xc_cfg := (xc_cfg x)\<lparr>xg_armed := value\<rparr>\<rparr>"

section \<open>Checks\<close>

definition flight_keys :: "intent \<Rightarrow> flight_key set" where
  "flight_keys i = (\<lambda>leg. (in_window i, il_side leg, in_purpose i)) ` set (in_legs i)"

fun cap_violation :: "executor_config \<Rightarrow> intent_leg list \<Rightarrow> refusal option" where
  "cap_violation cfg [] = None"
| "cap_violation cfg (leg # legs) =
     (if il_count leg \<le> 0 then Some (Cap_Non_Positive (il_ticker leg) (il_count leg))
      else if xg_max_contracts cfg < il_count leg
      then Some (Cap_Count (xg_max_contracts cfg) (il_ticker leg) (il_count leg))
      else if \<not> list_ex (\<lambda>p. starts_with p (il_ticker leg)) (xg_ticker_prefixes cfg)
      then Some (Cap_Prefix (il_ticker leg))
      else cap_violation cfg legs)"

definition unrouted :: "intent \<Rightarrow> ticker list" where
  "unrouted i = map il_ticker (filter (\<lambda>leg. il_exchange_index leg = None) (in_legs i))"

definition intent_tokens :: "executor \<Rightarrow> intent \<Rightarrow> int" where
  "intent_tokens x i = xg_tokens_per_entry (xc_cfg x) * int (length (in_legs i))"

definition tokens_used :: "executor \<Rightarrow> string \<Rightarrow> int" where
  "tokens_used x window = dict_get_default (xc_tokens_used x) window 0"

text \<open>The first check that refuses, in the order of the code.\<close>

definition refusal_of :: "executor \<Rightarrow> intent \<Rightarrow> time option \<Rightarrow> bool \<Rightarrow> refusal option" where
  "refusal_of x i t_minus stop_authorized =
     (if stop_authorized \<and> in_purpose i \<noteq> PURPOSE_FLATTEN then Some Stop_Authorized_Non_Flatten
      else if \<not> stop_authorized \<and> \<not> xg_armed (xc_cfg x) then Some Not_Armed
      else (case cap_violation (xc_cfg x) (in_legs i) of
              Some r \<Rightarrow> Some r
            | None \<Rightarrow>
                if unrouted i \<noteq> [] then Some (No_Exchange_Index (unrouted i))
                else (case (case t_minus of
                              None \<Rightarrow> None
                            | Some t \<Rightarrow> if t < of_int (xg_no_orders_after_s (xc_cfg x))
                                        then Some (No_Orders_After t) else None) of
                        Some r \<Rightarrow> Some r
                      | None \<Rightarrow>
                          if in_purpose i = PURPOSE_ENTRY \<and> in_window i \<in> xc_entered_windows x
                          then Some Window_Already_Entered
                          else if flight_keys i \<inter> xc_inflight x \<noteq> {} then Some Single_Flight
                          else if xg_window_token_budget (xc_cfg x) < tokens_used x (in_window i) + intent_tokens x i
                          then Some Rate_Budget_Exhausted
                          else None)))"

section \<open>Journal and refusal\<close>

definition journal_intent :: "executor \<Rightarrow> intent \<Rightarrow> executor" where
  "journal_intent x i = x\<lparr>xc_journal := xc_journal x @ [(''order_intent'', intent_to_record i)]\<rparr>"

definition journal_responses :: "executor \<Rightarrow> order_response list \<Rightarrow> executor" where
  "journal_responses x rs =
     x\<lparr>xc_journal := xc_journal x @ map (\<lambda>r. (''order_response'', response_to_record r)) rs\<rparr>"

definition journal_unrouted :: "executor \<Rightarrow> intent \<Rightarrow> refusal \<Rightarrow> executor" where
  "journal_unrouted x i r =
     (case r of
        No_Exchange_Index tks \<Rightarrow>
          x\<lparr>xc_journal := xc_journal x @
             [(''order_refused_no_exchange_index'',
               JObj [(''window'', JStr (in_window i)), (''purpose'', JStr (in_purpose i)),
                     (''source'', JStr (in_source i)), (''tickers'', JList (map JStr tks))])]\<rparr>
      | _ \<Rightarrow> x)"

definition no_fills :: "intent \<Rightarrow> string \<Rightarrow> order_response list" where
  "no_fills i err = map (\<lambda>leg. no_fill_response (Some (il_client_order_id leg)) err) (in_legs i)"

definition refuse :: "executor \<Rightarrow> intent \<Rightarrow> refusal \<Rightarrow> executor \<times> exec_result" where
  "refuse x i r =
     (let x1 = journal_intent (x\<lparr>xc_refusal_count := xc_refusal_count x + 1\<rparr>) i;
          rs = no_fills i (''refused:'' @ refusal_text r)
      in (journal_responses x1 rs,
          \<lparr>er_intent = i, er_responses = rs, er_refused = Some r, er_http_status = None\<rparr>))"

section \<open>Dispatch\<close>

definition SINGLE_CREATE_PATH :: string where
  "SINGLE_CREATE_PATH = ''/trade-api/v2/portfolio/events/orders''"

definition BATCH_CREATE_PATH :: string where
  "BATCH_CREATE_PATH = ''/trade-api/v2/portfolio/events/orders/batched''"

fun map_r :: "('a \<Rightarrow> 'e + 'b) \<Rightarrow> 'a list \<Rightarrow> 'e + 'b list" where
  "map_r f [] = Inr []"
| "map_r f (x # xs) = bind_r (f x) (\<lambda>y. bind_r (map_r f xs) (\<lambda>ys. Inr (y # ys)))"

definition with_cid :: "order_response \<Rightarrow> string \<Rightarrow> order_response" where
  "with_cid r cid = r\<lparr>or_client_order_id := Some cid\<rparr>"

text \<open>The slots of a batch reply matched to the legs: by client id, else the unnamed ones in order.\<close>

definition slots_by_cid :: "order_response list \<Rightarrow> (string, order_response) dict" where
  "slots_by_cid parsed =
     foldl (\<lambda>d r. case real_cid r of Some c \<Rightarrow> AList.update c r d | None \<Rightarrow> d) [] parsed"

fun align_legs ::
  "intent_leg list \<Rightarrow> (string, order_response) dict \<Rightarrow> order_response list \<Rightarrow>
     wire_error + order_response list" where
  "align_legs [] by_cid leftover = Inr []"
| "align_legs (leg # legs) by_cid leftover =
     (let cid = il_client_order_id leg; rest = AList.delete cid by_cid in
      case map_of by_cid cid of
        Some matched \<Rightarrow>
          bind_r (normalize_fill_to_side matched (il_side leg)) (\<lambda>r.
          bind_r (align_legs legs rest leftover) (\<lambda>rs. Inr (r # rs)))
      | None \<Rightarrow>
          (case leftover of
             l # ls \<Rightarrow>
               bind_r (normalize_fill_to_side (with_cid l cid) (il_side leg)) (\<lambda>r.
               bind_r (align_legs legs rest ls) (\<lambda>rs. Inr (r # rs)))
           | [] \<Rightarrow>
               bind_r (align_legs legs rest []) (\<lambda>rs.
               Inr (no_fill_response (Some cid) ''no_matching_batch_slot'' # rs))))"

definition align_batch :: "intent \<Rightarrow> order_response list \<Rightarrow> wire_error + order_response list" where
  "align_batch i parsed =
     align_legs (in_legs i) (slots_by_cid parsed) (filter (\<lambda>r. real_cid r = None) parsed)"

definition parse_reply :: "intent \<Rightarrow> json \<Rightarrow> wire_error + order_response list" where
  "parse_reply i body =
     (case in_legs i of
        [leg] \<Rightarrow> bind_r (parse_single_response body (Some (il_side leg))) (\<lambda>r. Inr [r])
      | _ \<Rightarrow> align_batch i (parse_batch_response body))"

definition http_error :: "int option \<Rightarrow> bool" where
  "http_error status = (case status of None \<Rightarrow> False | Some s \<Rightarrow> s < 200 \<or> 300 \<le> s)"

definition status_text :: "int option \<Rightarrow> string" where
  "status_text status = ''http_'' @ (case status of None \<Rightarrow> [] | Some s \<Rightarrow> int_text s)"

definition create_path :: "intent \<Rightarrow> string" where
  "create_path i = (if length (in_legs i) = 1 then SINGLE_CREATE_PATH else BATCH_CREATE_PATH)"

record post_call =
  pc_intent :: intent
  pc_path :: string
  pc_orders :: "v2_order list"

definition done_with ::
  "executor \<Rightarrow> intent \<Rightarrow> order_response list \<Rightarrow> int option \<Rightarrow> executor \<times> (exec_fault + exec_result)" where
  "done_with x i rs status =
     (journal_responses x rs,
      Inr \<lparr>er_intent = i, er_responses = rs, er_refused = None, er_http_status = status\<rparr>)"

definition dispatch ::
  "venue \<Rightarrow> executor \<Rightarrow> intent \<Rightarrow> executor \<times> (exec_fault + exec_result) \<times> post_call list" where
  "dispatch post x i =
     (case map_r build_entry (in_legs i) of
        Inl e \<Rightarrow> (x, Inl (Unbuildable e), [])
      | Inr orders \<Rightarrow>
          (let x1 = x\<lparr>xc_posts := xc_posts x + 1\<rparr>;
               call = \<lparr>pc_intent = i, pc_path = create_path i, pc_orders = orders\<rparr>;
               (x2, r) =
                 (case post (xc_posts x) (create_path i) orders of
                    Post_Raises err \<Rightarrow> done_with x1 i (no_fills i (''post_exception:'' @ err)) None
                  | Reply status body \<Rightarrow>
                      if http_error status then done_with x1 i (no_fills i (status_text status)) status
                      else (case body of
                              None \<Rightarrow> (x1, Inl Body_Not_Json)
                            | Some v \<Rightarrow>
                                (case parse_reply i v of
                                   Inl e \<Rightarrow> (x1, Inl (Unbuildable e))
                                 | Inr rs \<Rightarrow> done_with x1 i rs status)))
           in (x2, r, [call])))"

text \<open>The committed part: tokens and single-flight keys taken, the intent journaled, one POST.\<close>

definition reserve :: "executor \<Rightarrow> intent \<Rightarrow> executor" where
  "reserve x i =
     journal_intent
       (x\<lparr>xc_tokens_used :=
            AList.update (in_window i) (tokens_used x (in_window i) + intent_tokens x i) (xc_tokens_used x),
          xc_inflight := xc_inflight x \<union> flight_keys i\<rparr>) i"

definition release :: "executor \<Rightarrow> intent \<Rightarrow> executor" where
  "release x i = x\<lparr>xc_inflight := xc_inflight x - flight_keys i\<rparr>"

definition note_dispatched :: "executor \<Rightarrow> intent \<Rightarrow> executor" where
  "note_dispatched x i =
     x\<lparr>xc_entered_windows := (if in_purpose i = PURPOSE_ENTRY
                              then insert (in_window i) (xc_entered_windows x)
                              else xc_entered_windows x),
       xc_dispatch_count := xc_dispatch_count x + 1\<rparr>"

definition execute ::
  "venue \<Rightarrow> executor \<Rightarrow> intent \<Rightarrow> time option \<Rightarrow> bool \<Rightarrow>
     executor \<times> (exec_fault + exec_result) \<times> post_call list" where
  "execute post x i t_arg stop_authorized =
     (let t_minus = (case t_arg of None \<Rightarrow> in_t_minus i | Some t \<Rightarrow> Some t) in
      case refusal_of x i t_minus stop_authorized of
        Some r \<Rightarrow>
          (let (x1, res) = refuse (journal_unrouted x i r) i r in (x1, Inr res, []))
      | None \<Rightarrow>
          (let (x1, res, calls) = dispatch post (reserve x i) i;
               x2 = release x1 i
           in (case res of Inl e \<Rightarrow> x2 | Inr _ \<Rightarrow> note_dispatched x2 i, res, calls)))"

section \<open>The executor as a core\<close>

text \<open>Calls in the order the lock admits them, and the arming changes between them.\<close>

datatype executor_event = Execute intent "time option" bool | Set_Armed bool

fun executor_step :: "venue \<Rightarrow> executor \<Rightarrow> executor_event \<Rightarrow> executor \<times> post_call list" where
  "executor_step post x (Execute i t sa) =
     (let (x1, res, calls) = execute post x i t sa in (x1, calls))"
| "executor_step post x (Set_Armed b) = (set_armed x b, [])"

definition event_t_minus :: "intent \<Rightarrow> time option \<Rightarrow> time option" where
  "event_t_minus i t = (case t of None \<Rightarrow> in_t_minus i | Some v \<Rightarrow> Some v)"

lemma set_armed_frame [frame_simps]:
  "xc_inflight (set_armed x b) = xc_inflight x" "xc_entered_windows (set_armed x b) = xc_entered_windows x"
  "tokens_used (set_armed x b) w = tokens_used x w" "xc_journal (set_armed x b) = xc_journal x"
  "xg_window_token_budget (xc_cfg (set_armed x b)) = xg_window_token_budget (xc_cfg x)"
  "xg_tokens_per_entry (xc_cfg (set_armed x b)) = xg_tokens_per_entry (xc_cfg x)"
  by (simp_all add: set_armed_def tokens_used_def)

lemma journal_frame [frame_simps]:
  "xc_inflight (journal_responses x rs) = xc_inflight x"
  "xc_entered_windows (journal_responses x rs) = xc_entered_windows x"
  "xc_tokens_used (journal_responses x rs) = xc_tokens_used x"
  "xc_cfg (journal_responses x rs) = xc_cfg x"
  "xc_inflight (journal_unrouted x i r) = xc_inflight x"
  "xc_entered_windows (journal_unrouted x i r) = xc_entered_windows x"
  "xc_tokens_used (journal_unrouted x i r) = xc_tokens_used x"
  "xc_cfg (journal_unrouted x i r) = xc_cfg x"
  by (simp_all add: journal_responses_def journal_unrouted_def split: refusal.split)

lemma refuse_frame [frame_simps]:
  "xc_inflight (fst (refuse x i r)) = xc_inflight x"
  "xc_entered_windows (fst (refuse x i r)) = xc_entered_windows x"
  "xc_tokens_used (fst (refuse x i r)) = xc_tokens_used x"
  "xc_cfg (fst (refuse x i r)) = xc_cfg x"
  by (simp_all add: refuse_def journal_intent_def frame_simps Let_def)

text \<open>The ways a call can go: refused with no POST, unbuildable with no POST, one POST.\<close>

lemma execute_cases:
  obtains (refused) x1 res where "execute post x i t sa = (x1, res, [])"
      "xc_inflight x1 = xc_inflight x" "xc_entered_windows x1 = xc_entered_windows x"
      "xc_tokens_used x1 = xc_tokens_used x" "xc_cfg x1 = xc_cfg x"
  | (unbuilt) e where "refusal_of x i (event_t_minus i t) sa = None" "map_r build_entry (in_legs i) = Inl e"
      "execute post x i t sa = (release (reserve x i) i, Inl (Unbuildable e), [])"
  | (posted) orders x1 res rest where "refusal_of x i (event_t_minus i t) sa = None"
      "map_r build_entry (in_legs i) = Inr orders"
      "execute post x i t sa =
         (x1, res, [\<lparr>pc_intent = i, pc_path = create_path i, pc_orders = orders\<rparr>])"
      "xc_inflight x1 = xc_inflight x \<union> flight_keys i - flight_keys i"
      "xc_tokens_used x1 = xc_tokens_used (reserve x i)" "xc_cfg x1 = xc_cfg x"
      "xc_journal x1 = xc_journal x @ (''order_intent'', intent_to_record i) # rest"
      "xc_entered_windows x1 =
         (if (\<exists>r. res = Inr r) \<and> in_purpose i = PURPOSE_ENTRY
          then insert (in_window i) (xc_entered_windows x) else xc_entered_windows x)"
      "res = Inl Body_Not_Json \<Longrightarrow>
         \<exists>status. post (xc_posts x) (create_path i) orders = Reply status None \<and> \<not> http_error status"
      "\<And>e. res = Inl (Unbuildable e) \<Longrightarrow> \<exists>v. parse_reply i v = Inl e"
proof (cases "refusal_of x i (event_t_minus i t) sa")
  case (Some r)
  then show thesis
    by (intro refused [of "fst (refuse (journal_unrouted x i r) i r)"
          "Inr (snd (refuse (journal_unrouted x i r) i r))"])
      (simp_all add: execute_def event_t_minus_def case_prod_beta frame_simps)
next
  case None
  note ok = this
  show thesis
  proof (cases "map_r build_entry (in_legs i)")
    case (Inl e)
    with ok show thesis
      by (intro unbuilt) (simp_all add: execute_def event_t_minus_def dispatch_def)
  next
    case (Inr orders)
    define x1 where "x1 = (reserve x i)\<lparr>xc_posts := xc_posts x + 1\<rparr>"
    have posts: "xc_posts (reserve x i) = xc_posts x" by (simp add: reserve_def journal_intent_def)
    have x1: "xc_inflight x1 = xc_inflight x \<union> flight_keys i" "xc_entered_windows x1 = xc_entered_windows x"
      "xc_tokens_used x1 = xc_tokens_used (reserve x i)" "xc_cfg x1 = xc_cfg x"
      "xc_journal x1 = xc_journal x @ [(''order_intent'', intent_to_record i)]"
      by (simp_all add: x1_def reserve_def journal_intent_def)
    consider (resp) rs status where "dispatch post (reserve x i) i =
          (journal_responses x1 rs,
           Inr \<lparr>er_intent = i, er_responses = rs, er_refused = None, er_http_status = status\<rparr>,
           [\<lparr>pc_intent = i, pc_path = create_path i, pc_orders = orders\<rparr>])"
      | (json) status where "dispatch post (reserve x i) i = (x1, Inl Body_Not_Json,
           [\<lparr>pc_intent = i, pc_path = create_path i, pc_orders = orders\<rparr>])"
          "post (xc_posts x) (create_path i) orders = Reply status None" "\<not> http_error status"
      | (bad) v e where "dispatch post (reserve x i) i = (x1, Inl (Unbuildable e),
           [\<lparr>pc_intent = i, pc_path = create_path i, pc_orders = orders\<rparr>])" "parse_reply i v = Inl e"
    proof (cases "post (xc_posts x) (create_path i) orders")
      case (Post_Raises err)
      then show thesis
        by (intro resp) (simp add: dispatch_def Inr posts done_with_def x1_def)
    next
      case (Reply status body)
      show thesis
      proof (cases "http_error status")
        case True
        then show thesis
          by (intro resp) (simp add: dispatch_def Inr posts done_with_def x1_def Reply)
      next
        case False
        show thesis
        proof (cases body)
          case None
          with False Reply show thesis
            by (intro json) (simp_all add: dispatch_def Inr posts x1_def)
        next
          case (Some v)
          show thesis
          proof (cases "parse_reply i v")
            case (Inl e)
            with False Reply Some show thesis
              by (intro bad) (simp_all add: dispatch_def Inr posts x1_def)
          next
            case (Inr rs)
            with False Reply Some \<open>map_r build_entry (in_legs i) = Inr orders\<close> show thesis
              by (intro resp) (simp add: dispatch_def posts done_with_def x1_def)
          qed
        qed
      qed
    qed
    then show thesis
    proof cases
      case resp
      with ok Inr show thesis
        by (intro posted [where ?x1.0 = "note_dispatched (release (journal_responses x1 rs) i) i"
              and res = "Inr \<lparr>er_intent = i, er_responses = rs, er_refused = None,
                er_http_status = status\<rparr>"
              and rest = "map (\<lambda>r. (''order_response'', response_to_record r)) rs"])
          (simp_all add: execute_def event_t_minus_def note_dispatched_def release_def x1
            journal_responses_def Let_def)
    next
      case json
      with ok Inr show thesis
        by (intro posted [where ?x1.0 = "release x1 i" and res = "Inl Body_Not_Json" and rest = "[]"])
          (auto simp: execute_def event_t_minus_def release_def x1)
    next
      case bad
      with ok Inr show thesis
        by (intro posted [where ?x1.0 = "release x1 i" and res = "Inl (Unbuildable e)" and rest = "[]"])
          (auto simp: execute_def event_t_minus_def release_def x1)
    qed
  qed
qed

section \<open>What every POST has passed\<close>

text \<open>The configuration is fixed but for the arming; no key is in flight between calls.\<close>

definition executor_ok :: "executor_config \<Rightarrow> executor \<Rightarrow> bool" where
  "executor_ok cfg x \<longleftrightarrow>
     xc_inflight x = {} \<and> xc_cfg x = cfg\<lparr>xg_armed := xg_armed (xc_cfg x)\<rparr>"

definition leg_allowed :: "executor_config \<Rightarrow> intent_leg \<Rightarrow> bool" where
  "leg_allowed cfg leg \<longleftrightarrow>
     0 < il_count leg \<and> il_count leg \<le> xg_max_contracts cfg \<and>
     list_ex (\<lambda>p. starts_with p (il_ticker leg)) (xg_ticker_prefixes cfg) \<and>
     il_exchange_index leg \<noteq> None"

definition before_order_cutoff :: "executor_config \<Rightarrow> time option \<Rightarrow> bool" where
  "before_order_cutoff cfg t =
     (case t of None \<Rightarrow> True | Some v \<Rightarrow> of_int (xg_no_orders_after_s cfg) \<le> v)"

definition post_guard ::
  "executor_config \<Rightarrow> executor \<Rightarrow> executor_event \<Rightarrow> executor \<Rightarrow> post_call \<Rightarrow> bool" where
  "post_guard cfg x e x' c \<longleftrightarrow>
     (\<exists>t sa. e = Execute (pc_intent c) t sa \<and>
        (if sa then in_purpose (pc_intent c) = PURPOSE_FLATTEN else xg_armed (xc_cfg x)) \<and>
        list_all (leg_allowed cfg) (in_legs (pc_intent c)) \<and>
        before_order_cutoff cfg (event_t_minus (pc_intent c) t) \<and>
        (in_purpose (pc_intent c) = PURPOSE_ENTRY \<longrightarrow> in_window (pc_intent c) \<notin> xc_entered_windows x) \<and>
        tokens_used x (in_window (pc_intent c)) + intent_tokens x (pc_intent c) \<le> xg_window_token_budget cfg \<and>
        map_r build_entry (in_legs (pc_intent c)) = Inr (pc_orders c) \<and>
        pc_path c = create_path (pc_intent c) \<and>
        (\<exists>rest. xc_journal x' =
           xc_journal x @ (''order_intent'', intent_to_record (pc_intent c)) # rest))"

lemma cap_violation_None:
  "cap_violation cfg legs = None \<Longrightarrow> unrouted i = [] \<Longrightarrow> legs = in_legs i \<Longrightarrow>
     list_all (leg_allowed cfg) legs"
proof -
  assume cap: "cap_violation cfg legs = None" and r: "unrouted i = []" "legs = in_legs i"
  have "\<forall>leg \<in> set legs. il_exchange_index leg \<noteq> None"
    using r by (auto simp: unrouted_def filter_empty_conv)
  with cap show ?thesis
    by (induction legs) (auto simp: leg_allowed_def split: if_splits)
qed

lemma refusal_of_None:
  assumes "refusal_of x i t sa = None"
  shows "if sa then in_purpose i = PURPOSE_FLATTEN else xg_armed (xc_cfg x)"
    and "list_all (leg_allowed (xc_cfg x)) (in_legs i)"
    and "before_order_cutoff (xc_cfg x) t"
    and "in_purpose i = PURPOSE_ENTRY \<Longrightarrow> in_window i \<notin> xc_entered_windows x"
    and "tokens_used x (in_window i) + intent_tokens x i \<le> xg_window_token_budget (xc_cfg x)"
proof -
  from assms have "cap_violation (xc_cfg x) (in_legs i) = None" "unrouted i = []"
    by (auto simp: refusal_of_def split: if_splits option.splits)
  then show "list_all (leg_allowed (xc_cfg x)) (in_legs i)" by (intro cap_violation_None) simp_all
qed (use assms in \<open>auto simp: refusal_of_def before_order_cutoff_def split: if_splits option.splits\<close>)

lemma leg_allowed_cfg: "leg_allowed (cfg\<lparr>xg_armed := b\<rparr>) = leg_allowed cfg"
  by (intro ext) (simp add: leg_allowed_def)

lemma before_order_cutoff_cfg: "before_order_cutoff (cfg\<lparr>xg_armed := b\<rparr>) = before_order_cutoff cfg"
  by (intro ext) (simp add: before_order_cutoff_def split: option.split)

lemma executor_ok_new: "executor_ok cfg (new_executor cfg)"
  by (simp add: executor_ok_def new_executor_def)

lemma release_frame [frame_simps]:
  "xc_inflight (release (reserve x i) i) = xc_inflight x \<union> flight_keys i - flight_keys i"
  "xc_cfg (release (reserve x i) i) = xc_cfg x"
  "xc_entered_windows (release (reserve x i) i) = xc_entered_windows x"
  "xc_tokens_used (release x i) = xc_tokens_used x"
  by (simp_all add: release_def reserve_def journal_intent_def)

lemma executor_step_ok [inv_intros]:
  assumes "executor_ok cfg x"
  shows "executor_ok cfg (fst (executor_step post x e))"
proof (cases e)
  case (Execute i t sa)
  show ?thesis
    by (rule execute_cases [of post x i t sa])
      (use assms Execute in \<open>auto simp: executor_ok_def frame_simps\<close>)
next
  case (Set_Armed b)
  with assms have "xc_cfg x = cfg\<lparr>xg_armed := xg_armed (xc_cfg x)\<rparr>" by (simp add: executor_ok_def)
  then have "(xc_cfg x)\<lparr>xg_armed := b\<rparr> = cfg\<lparr>xg_armed := b\<rparr>" by (metis executor_config.update_convs(1) executor_config.surjective)
  with assms Set_Armed show ?thesis by (simp add: executor_ok_def set_armed_def)
qed

lemma executor_step_guard:
  assumes ok: "executor_ok cfg x" and c: "c \<in> set (snd (executor_step post x e))"
  shows "post_guard cfg x e (fst (executor_step post x e)) c"
proof (cases e)
  case (Execute i t sa)
  have eq: "leg_allowed (xc_cfg x) = leg_allowed cfg" "before_order_cutoff (xc_cfg x) = before_order_cutoff cfg"
    "xg_window_token_budget (xc_cfg x) = xg_window_token_budget cfg"
    using ok by (simp_all add: executor_ok_def)
      (metis leg_allowed_cfg, metis before_order_cutoff_cfg, metis executor_config.select_convs(5) executor_config.surjective executor_config.update_convs(1))
  show ?thesis
  proof (rule execute_cases [of post x i t sa])
    fix orders x1 res rest
    assume none: "refusal_of x i (event_t_minus i t) sa = None"
      and "map_r build_entry (in_legs i) = Inr orders"
      and "execute post x i t sa = (x1, res, [\<lparr>pc_intent = i, pc_path = create_path i, pc_orders = orders\<rparr>])"
      and "xc_journal x1 = xc_journal x @ (''order_intent'', intent_to_record i) # rest"
    with c Execute show ?thesis
      using refusal_of_None [OF none] by (simp add: post_guard_def eq)
  qed (use c Execute in auto)
qed (use c in simp)

interpretation executor_core: guarded_core "executor_step post" "executor_ok cfg" "post_guard cfg"
  by unfold_locales (simp_all add: executor_step_ok executor_step_guard)

section \<open>One entry per window\<close>

text \<open>
  The entry dedup counts on every 2xx body being JSON: \<open>resp.json()\<close> stands outside the handler
  of \<open>_dispatch\<close>, and an exception there leaves \<open>execute\<close> before the window is noted.
\<close>

definition replies_parse :: "venue \<Rightarrow> bool" where
  "replies_parse post \<longleftrightarrow>
     (\<forall>n path orders status. post n path orders = Reply status None \<longrightarrow> http_error status)"

definition entry_post :: "string \<Rightarrow> post_call \<Rightarrow> bool" where
  "entry_post w c \<longleftrightarrow> in_purpose (pc_intent c) = PURPOSE_ENTRY \<and> in_window (pc_intent c) = w"

lemma map_r_build_sides:
  "map_r build_entry legs = Inr orders \<Longrightarrow>
     \<forall>leg \<in> set legs. il_side leg = ''yes'' \<or> il_side leg = ''no''"
  by (induction legs arbitrary: orders) (auto simp: bind_r_Inr_iff dest: build_entry_Inr(6))

lemma align_legs_total:
  assumes "\<forall>leg \<in> set legs. il_side leg = ''yes'' \<or> il_side leg = ''no''"
  shows "\<exists>rs. align_legs legs by_cid leftover = Inr rs"
  using assms
proof (induction legs arbitrary: by_cid leftover)
  case (Cons leg legs)
  then have "\<exists>rs. align_legs legs d ls = Inr rs" for d ls by simp
  then obtain f where "\<And>d ls. align_legs legs d ls = Inr (f d ls)" by metis
  moreover have "\<exists>r. normalize_fill_to_side resp (il_side leg) = Inr r" for resp
    using Cons.prems by (intro normalize_accepts_side) simp
  then obtain g where "\<And>resp. normalize_fill_to_side resp (il_side leg) = Inr (g resp)" by metis
  ultimately show ?case
    by (simp add: Let_def bind_r_Inr_iff split: option.split list.split)
qed simp

lemma parse_reply_total:
  assumes "map_r build_entry (in_legs i) = Inr orders"
  shows "\<exists>rs. parse_reply i v = Inr rs"
proof -
  note sides = map_r_build_sides [OF assms]
  have "\<exists>rs. align_batch i parsed = Inr rs" for parsed
    unfolding align_batch_def by (rule align_legs_total [OF sides])
  moreover have "\<exists>r. parse_single_response v (Some (il_side leg)) = Inr r" if "in_legs i = [leg]" for leg
    using sides that by (auto simp: parse_single_response_def Let_def intro: normalize_accepts_side)
  ultimately show ?thesis
    by (auto simp: parse_reply_def bind_r_Inr_iff split: list.split)
qed

lemma executor_post_enters:
  assumes "replies_parse post" and "c \<in> set (snd (executor_step post x e))" and "entry_post w c"
  shows "w \<in> xc_entered_windows (fst (executor_step post x e))"
proof (cases e)
  case (Execute i t sa)
  show ?thesis
  proof (rule execute_cases [of post x i t sa])
    fix orders x1 res
    assume build: "map_r build_entry (in_legs i) = Inr orders"
      and ex: "execute post x i t sa = (x1, res, [\<lparr>pc_intent = i, pc_path = create_path i, pc_orders = orders\<rparr>])"
      and win: "xc_entered_windows x1 =
         (if (\<exists>r. res = Inr r) \<and> in_purpose i = PURPOSE_ENTRY
          then insert (in_window i) (xc_entered_windows x) else xc_entered_windows x)"
      and json: "res = Inl Body_Not_Json \<Longrightarrow>
        \<exists>status. post (xc_posts x) (create_path i) orders = Reply status None \<and> \<not> http_error status"
      and bad: "\<And>e. res = Inl (Unbuildable e) \<Longrightarrow> \<exists>v. parse_reply i v = Inl e"
    have "res \<noteq> Inl Body_Not_Json"
      using json assms(1) by (auto simp: replies_parse_def)
    moreover have "res \<noteq> Inl (Unbuildable err)" for err
    proof
      assume "res = Inl (Unbuildable err)"
      then obtain v where "parse_reply i v = Inl err" using bad by blast
      with parse_reply_total [OF build, of v] show False by simp
    qed
    ultimately have "\<exists>r. res = Inr r"
      by (metis exec_fault.exhaust sum.exhaust)
    with ex win assms(2,3) Execute show ?thesis by (simp add: entry_post_def)
  qed (use assms(2) Execute in auto)
qed (use assms(2) in simp)

lemma entered_windows_grow:
  "w \<in> xc_entered_windows x \<Longrightarrow> w \<in> xc_entered_windows (fst (executor_step post x e))"
proof (cases e)
  case (Execute i t sa)
  assume "w \<in> xc_entered_windows x"
  with Execute show ?thesis
    by - (rule execute_cases [of post x i t sa], auto simp: frame_simps)
qed (simp add: frame_simps)

lemma executor_step_posts_one: "length (snd (executor_step post x e)) \<le> 1"
proof (cases e)
  case (Execute i t sa)
  then show ?thesis by - (rule execute_cases [of post x i t sa], auto)
qed simp

interpretation executor_entry: one_shot_core "executor_step post"
    "\<lambda>x. executor_ok cfg x \<and> replies_parse post" "entry_post w" "\<lambda>x. w \<in> xc_entered_windows x"
proof unfold_locales
  fix x e
  assume ok: "executor_ok cfg x \<and> replies_parse post"
  then show "executor_ok cfg (fst (executor_step post x e)) \<and> replies_parse post"
    by (simp add: executor_step_ok)
  show "w \<in> xc_entered_windows (fst (executor_step post x e))" if "w \<in> xc_entered_windows x"
    using that by (rule entered_windows_grow)
  show "\<forall>a \<in> set (snd (executor_step post x e)). \<not> entry_post w a" if "w \<in> xc_entered_windows x"
    using executor_step_guard ok that by (fastforce simp: post_guard_def entry_post_def)
  show "w \<in> xc_entered_windows (fst (executor_step post x e))"
    if "\<exists>a \<in> set (snd (executor_step post x e)). entry_post w a"
    using that ok by (auto intro: executor_post_enters)
  show "length (filter (entry_post w) (snd (executor_step post x e))) \<le> 1"
    using executor_step_posts_one [of post x e] by (meson le_trans length_filter_le)
qed

section \<open>The rate budget\<close>

definition posted_tokens :: "executor_config \<Rightarrow> string \<Rightarrow> post_call list \<Rightarrow> int" where
  "posted_tokens cfg w calls =
     sum_list (map (\<lambda>c. xg_tokens_per_entry cfg * int (length (in_legs (pc_intent c))))
       (filter (\<lambda>c. in_window (pc_intent c) = w) calls))"

lemma posted_tokens_append:
  "posted_tokens cfg w (as @ bs) = posted_tokens cfg w as + posted_tokens cfg w bs"
  by (simp add: posted_tokens_def)

lemma tokens_used_reserve:
  "xc_tokens_used y = xc_tokens_used (reserve x i) \<Longrightarrow>
     tokens_used y w = (if w = in_window i then tokens_used x w + intent_tokens x i else tokens_used x w)"
  by (simp add: reserve_def journal_intent_def tokens_used_def dict_get_default_def)

lemma tokens_used_cong: "xc_tokens_used x = xc_tokens_used y \<Longrightarrow> tokens_used x w = tokens_used y w"
  by (simp add: tokens_used_def)

text \<open>A step charges a window for each POST, never past the budget.\<close>

lemma executor_step_tokens:
  assumes ok: "executor_ok cfg x" and pos: "0 \<le> xg_tokens_per_entry cfg"
  shows "posted_tokens cfg w (snd (executor_step post x e)) + tokens_used x w
           \<le> tokens_used (fst (executor_step post x e)) w \<and>
         tokens_used (fst (executor_step post x e)) w \<le> max (tokens_used x w) (xg_window_token_budget cfg)"
proof (cases e)
  case (Execute i t sa)
  have eq: "xg_window_token_budget (xc_cfg x) = xg_window_token_budget cfg"
    "xg_tokens_per_entry (xc_cfg x) = xg_tokens_per_entry cfg"
    using ok by (auto simp: executor_ok_def elim!: ssubst)
  have nn: "0 \<le> intent_tokens x i" using pos by (simp add: intent_tokens_def eq)
  show ?thesis
  proof (rule execute_cases [of post x i t sa])
    fix x1 :: executor and res
    assume "execute post x i t sa = (x1, res, [])" "xc_tokens_used x1 = xc_tokens_used x"
    with Execute show ?thesis by (simp add: posted_tokens_def tokens_used_cong [of x1 x])
  next
    fix e
    assume none: "refusal_of x i (event_t_minus i t) sa = None"
      and "execute post x i t sa = (release (reserve x i) i, Inl (Unbuildable e), [])"
    with Execute nn refusal_of_None(5) [OF none] show ?thesis
      by (simp add: posted_tokens_def tokens_used_reserve [of "release (reserve x i) i" x i] frame_simps eq le_max_iff_disj)
  next
    fix orders x1 res rest
    assume none: "refusal_of x i (event_t_minus i t) sa = None"
      and "execute post x i t sa = (x1, res, [\<lparr>pc_intent = i, pc_path = create_path i, pc_orders = orders\<rparr>])"
      and "xc_tokens_used x1 = xc_tokens_used (reserve x i)"
    with Execute refusal_of_None(5) [OF none] show ?thesis
      by (simp add: posted_tokens_def tokens_used_reserve [of x1 x i] intent_tokens_def eq le_max_iff_disj)
  qed
qed (simp add: frame_simps posted_tokens_def)

lemma executor_run_tokens:
  assumes "executor_ok cfg x" "0 \<le> xg_tokens_per_entry cfg"
  shows "posted_tokens cfg w (snd (run_core (executor_step post) x es)) + tokens_used x w
           \<le> tokens_used (fst (run_core (executor_step post) x es)) w \<and>
         tokens_used (fst (run_core (executor_step post) x es)) w
           \<le> max (tokens_used x w) (xg_window_token_budget cfg)"
  using assms(1)
proof (induction es arbitrary: x)
  case (Cons e es)
  note step = executor_step_tokens [OF Cons.prems assms(2), of w post e]
    and ih = Cons.IH [OF executor_step_ok [OF Cons.prems, of post e]]
  show ?case
    using step ih
    by (auto simp: run_core_Cons posted_tokens_append max_def simp del: run_core.simps(2) split: if_splits)
qed (simp add: posted_tokens_def)

end
