(* ===== verification/Stop_Controller.thy ===== *)
theory Stop_Controller
  imports Stops Executor
begin

text \<open>
  \<open>StopController\<close> of \<open>pilot/service/stops.py\<close>: a trip latches the stop in the state and in the
  day guard file, disarms the executor, and dispatches the position policy's flattens through the
  executor's stop-authorized path. The controller and the executor write one journal, kept in the
  executor. Parameters: the venue, the client-id mint (\<open>mint n\<close> is the \<open>n\<close>-th id), the wall
  clock stamp of a latch. The flatten sink's calls are collected in order.
\<close>

record stop_controller =
  sc_state :: stop_state
  sc_config :: stop_config
  sc_executor :: executor
  sc_utc_day :: "string option"
  sc_guard :: guard_file
  sc_window :: "string option"
  sc_sunk :: "(intent \<times> exec_result) list"
  sc_minted :: nat

definition new_stop_controller ::
  "executor \<Rightarrow> stop_config \<Rightarrow> string option \<Rightarrow> guard_file \<Rightarrow> string option \<Rightarrow> stop_controller" where
  "new_stop_controller x cfg utc_day guard window =
     \<lparr>sc_state = new_stop_state, sc_config = cfg, sc_executor = x, sc_utc_day = utc_day,
      sc_guard = guard, sc_window = window, sc_sunk = [], sc_minted = 0\<rparr>"

definition persist_latch ::
  "stop_controller \<Rightarrow> string \<Rightarrow> string \<Rightarrow> string option \<Rightarrow> time \<Rightarrow> stop_controller" where
  "persist_latch c stop reason window ts =
     (case sc_utc_day c of
        None \<Rightarrow> c
      | Some day \<Rightarrow>
          if stop \<notin> set DAY_HALTING_STOPS then c
          else c\<lparr>sc_guard := record_latched_stop (sc_guard c) day stop reason
                   (case window of Some w \<Rightarrow> if w = [] then sc_window c else Some w
                    | None \<Rightarrow> sc_window c) ts\<rparr>)"

definition journal_note :: "stop_controller \<Rightarrow> notification \<Rightarrow> stop_controller" where
  "journal_note c note =
     (let x = sc_executor c;
          entry = ((if starts_with ''A'' (nt_kind note) then ''alarm'' else ''stop''),
                   JObj [(''kind'', JStr (nt_kind note)), (''reason'', JStr (nt_reason note)),
                         (''detail'', JObj (nt_detail note))])
      in c\<lparr>sc_executor := x\<lparr>xc_journal := xc_journal x @ [entry]\<rparr>\<rparr>)"

definition raise_alarm ::
  "stop_controller \<Rightarrow> string \<Rightarrow> string \<Rightarrow> (string \<times> json) list \<Rightarrow> stop_controller" where
  "raise_alarm c alarm reason detail =
     (let s = apply_alarm (sc_state c) alarm reason detail
      in journal_note (c\<lparr>sc_state := s\<rparr>) (last (ss_alarms s)))"

text \<open>One action of the policy: nothing for a hold, an alarm without a bid, else the flatten.\<close>

definition dispatch_action ::
  "venue \<Rightarrow> (nat \<Rightarrow> string) \<Rightarrow> ledger_state \<Rightarrow> (ticker, money) dict \<Rightarrow> (ticker, int option) dict \<Rightarrow>
     stop_controller \<Rightarrow> position_action \<Rightarrow> stop_controller \<times> exec_fault option \<times> post_call list" where
  "dispatch_action post mint ledger bids xi c act =
     (if \<not> pa_flatten act then (c, None, [])
      else (case map_of bids (pa_ticker act) of
              None \<Rightarrow>
                (raise_alarm c ''A_FLATTEN_NO_BID''
                   (''flatten of '' @ pa_ticker act @ '' skipped: no bid to price against (held, alerting)'')
                   [(''ticker'', JStr (pa_ticker act)), (''count'', JInt (pa_count act))], None, [])
            | Some bid \<Rightarrow>
                (let i = build_flatten_intent act (ls_window ledger) (ls_source ledger) bid
                           (mint (sc_minted c)) (Option.bind (map_of xi (pa_ticker act)) id);
                     c1 = c\<lparr>sc_minted := sc_minted c + 1\<rparr>;
                     (x1, res, calls) = execute post (sc_executor c1) i None True;
                     c2 = c1\<lparr>sc_executor := x1\<rparr>
                 in case res of
                      Inl e \<Rightarrow> (c2, Some e, calls)
                    | Inr r \<Rightarrow> (c2\<lparr>sc_sunk := sc_sunk c2 @ [(i, r)]\<rparr>, None, calls))))"

fun dispatch_actions ::
  "venue \<Rightarrow> (nat \<Rightarrow> string) \<Rightarrow> ledger_state \<Rightarrow> (ticker, money) dict \<Rightarrow> (ticker, int option) dict \<Rightarrow>
     stop_controller \<Rightarrow> position_action list \<Rightarrow> stop_controller \<times> exec_fault option \<times> post_call list" where
  "dispatch_actions post mint ledger bids xi c [] = (c, None, [])"
| "dispatch_actions post mint ledger bids xi c (act # acts) =
     (let (c1, fault, calls) = dispatch_action post mint ledger bids xi c act in
      case fault of
        Some e \<Rightarrow> (c1, Some e, calls)
      | None \<Rightarrow>
          (let (c2, fault2, calls2) = dispatch_actions post mint ledger bids xi c1 acts
           in (c2, fault2, calls @ calls2)))"

text \<open>The freeze: the stop noted and journaled, the executor disarmed, the day latched.\<close>

definition freeze ::
  "stop_controller \<Rightarrow> string \<Rightarrow> string \<Rightarrow> (string \<times> json) list \<Rightarrow> string option \<Rightarrow> time \<Rightarrow>
     stop_controller" where
  "freeze c stop reason detail window ts =
     (let s = apply_stop (sc_state c) stop reason detail;
          c1 = journal_note (c\<lparr>sc_state := s\<rparr>) (last (ss_notifications s));
          c2 = c1\<lparr>sc_executor := set_armed (sc_executor c1) False\<rparr>
      in persist_latch c2 stop reason window ts)"

definition trip ::
  "venue \<Rightarrow> (nat \<Rightarrow> string) \<Rightarrow> time \<Rightarrow> stop_controller \<Rightarrow> string \<Rightarrow> string \<Rightarrow> ledger_state option \<Rightarrow>
     (ticker, money) dict \<Rightarrow> (string \<times> json) list \<Rightarrow> (ticker, int option) dict \<Rightarrow>
     stop_controller \<times> (exec_fault + position_action list) \<times> post_call list" where
  "trip post mint ts c stop reason ledger bids detail xi =
     (let c1 = freeze c stop reason detail (map_option ls_window ledger) ts in
      case ledger of
        None \<Rightarrow> (c1, Inr [], [])
      | Some st \<Rightarrow>
          (let actions = position_policy st (sc_config c1);
               (c2, fault, calls) = dispatch_actions post mint st bids xi c1 actions
           in (c2, (case fault of None \<Rightarrow> Inr actions | Some e \<Rightarrow> Inl e), calls)))"

section \<open>What a trip leaves and sends\<close>

lemma journal_note_frame [frame_simps]:
  "sc_state (journal_note c n) = sc_state c" "sc_config (journal_note c n) = sc_config c"
  "sc_guard (journal_note c n) = sc_guard c" "sc_utc_day (journal_note c n) = sc_utc_day c"
  "xc_cfg (sc_executor (journal_note c n)) = xc_cfg (sc_executor c)"
  "xc_inflight (sc_executor (journal_note c n)) = xc_inflight (sc_executor c)"
  by (simp_all add: journal_note_def Let_def)

lemma freeze_facts:
  "ss_tripped (sc_state (freeze c stop reason detail w ts)) =
     ss_tripped (apply_stop (sc_state c) stop reason detail)"
  "sc_config (freeze c stop reason detail w ts) = sc_config c"
  "sc_utc_day (freeze c stop reason detail w ts) = sc_utc_day c"
  "xc_cfg (sc_executor (freeze c stop reason detail w ts)) = (xc_cfg (sc_executor c))\<lparr>xg_armed := False\<rparr>"
  "xc_inflight (sc_executor (freeze c stop reason detail w ts)) = xc_inflight (sc_executor c)"
  "sc_utc_day c = Some day \<Longrightarrow> stop \<in> set DAY_HALTING_STOPS \<Longrightarrow>
     guard_refuses (sc_guard (freeze c stop reason detail w ts)) day"
  by (auto simp: freeze_def Let_def persist_latch_def frame_simps set_armed_def
      intro: guard_latch_refuses split: option.split)

lemma apply_stop_has: "stop \<in> set (ss_tripped (apply_stop s stop reason detail))"
    "set (ss_tripped s) \<subseteq> set (ss_tripped (apply_stop s stop reason detail))"
  by (auto simp: apply_stop_def)

text \<open>Dispatching the policy leaves the latch and the arming, and only sends its flattens.\<close>

definition flatten_call :: "ledger_state \<Rightarrow> (ticker, money) dict \<Rightarrow> position_action list \<Rightarrow> post_call \<Rightarrow> bool" where
  "flatten_call st bids acts c \<longleftrightarrow>
     (\<exists>act \<in> set acts. \<exists>bid cid xi. pa_flatten act \<and> map_of bids (pa_ticker act) = Some bid \<and>
        pc_intent c = build_flatten_intent act (ls_window st) (ls_source st) bid cid (Some xi))"

lemma executor_ok_journal: "executor_ok cfg x \<Longrightarrow> executor_ok cfg (x\<lparr>xc_journal := j\<rparr>)"
  by (simp add: executor_ok_def)

lemma executor_ok_execute:
  "executor_ok cfg x \<Longrightarrow> executor_ok cfg (fst (execute post x i t sa))"
  using executor_step_ok [of cfg x post "Execute i t sa"] by (simp add: case_prod_beta)

lemma execute_armed: "xc_cfg (fst (execute post x i t sa)) = xc_cfg x"
  by (rule execute_cases [of post x i t sa]) (simp_all add: frame_simps)

lemma dispatch_action_facts:
  assumes "executor_ok cfg (sc_executor c)"
    and "dispatch_action post mint st bids xi c act = (c1, fault, calls)"
  shows "executor_ok cfg (sc_executor c1)" "xc_cfg (sc_executor c1) = xc_cfg (sc_executor c)"
    and "sc_guard c1 = sc_guard c" "ss_tripped (sc_state c1) = ss_tripped (sc_state c)"
    and "sc_utc_day c1 = sc_utc_day c"
    and "\<forall>call \<in> set calls. flatten_call st bids [act] call"
proof -
  have "executor_ok cfg (sc_executor c1) \<and> xc_cfg (sc_executor c1) = xc_cfg (sc_executor c) \<and>
    sc_guard c1 = sc_guard c \<and> ss_tripped (sc_state c1) = ss_tripped (sc_state c) \<and>
    sc_utc_day c1 = sc_utc_day c \<and> (\<forall>call \<in> set calls. flatten_call st bids [act] call)"
  proof (cases "pa_flatten act \<and> map_of bids (pa_ticker act) \<noteq> None")
    case False
    with assms show ?thesis
      by (auto simp: dispatch_action_def raise_alarm_def apply_alarm_def Let_def frame_simps
          journal_note_def executor_ok_journal split: if_splits option.splits)
  next
    case True
    then obtain bid where bid: "map_of bids (pa_ticker act) = Some bid" by auto
    define i where "i = build_flatten_intent act (ls_window st) (ls_source st) bid
      (mint (sc_minted c)) (Option.bind (map_of xi (pa_ticker act)) id)"
    let ?e = "execute post (sc_executor c) i None True"
    have c1: "sc_executor c1 = fst ?e" "sc_guard c1 = sc_guard c" "sc_state c1 = sc_state c"
      "sc_utc_day c1 = sc_utc_day c" "calls = snd (snd ?e)"
      using assms(2) True bid
      by (auto simp: dispatch_action_def Let_def i_def [symmetric] case_prod_beta split: sum.splits)
    have "flatten_call st bids [act] call" if "call \<in> set calls" for call
    proof -
      from that have "call \<in> set (snd (executor_step post (sc_executor c) (Execute i None True)))"
        by (simp add: c1 case_prod_beta)
      from executor_step_guard [OF assms(1) this] have g: "pc_intent call = i"
        "list_all (leg_allowed cfg) (in_legs i)"
        by (auto simp: post_guard_def)
      then obtain x where "Option.bind (map_of xi (pa_ticker act)) id = Some x"
        by (auto simp: i_def build_flatten_intent_def leg_allowed_def)
      with g True bid show ?thesis by (auto simp: flatten_call_def i_def)
    qed
    then show ?thesis
      using assms(1) by (simp add: c1 executor_ok_execute execute_armed)
  qed
  then show "executor_ok cfg (sc_executor c1)" "xc_cfg (sc_executor c1) = xc_cfg (sc_executor c)"
    "sc_guard c1 = sc_guard c" "ss_tripped (sc_state c1) = ss_tripped (sc_state c)"
    "sc_utc_day c1 = sc_utc_day c" "\<forall>call \<in> set calls. flatten_call st bids [act] call"
    by blast+
qed

lemma dispatch_actions_facts:
  assumes "executor_ok cfg (sc_executor c)"
    and "dispatch_actions post mint st bids xi c acts = (c1, fault, calls)"
  shows "executor_ok cfg (sc_executor c1) \<and> xc_cfg (sc_executor c1) = xc_cfg (sc_executor c) \<and>
    sc_guard c1 = sc_guard c \<and> ss_tripped (sc_state c1) = ss_tripped (sc_state c) \<and>
    sc_utc_day c1 = sc_utc_day c \<and> (\<forall>call \<in> set calls. flatten_call st bids acts call)"
  using assms
proof (induction acts arbitrary: c c1 fault calls)
  case (Cons act acts)
  obtain c2 fault2 calls2 where d: "dispatch_action post mint st bids xi c act = (c2, fault2, calls2)"
    by (cases "dispatch_action post mint st bids xi c act")
  note f = dispatch_action_facts [OF Cons.prems(1) d]
  have mono: "flatten_call st bids [act] call \<Longrightarrow> flatten_call st bids (act # acts) call"
    "flatten_call st bids acts call \<Longrightarrow> flatten_call st bids (act # acts) call" for call
    unfolding flatten_call_def by (auto intro: bexI)
  show ?case
  proof (cases fault2)
    case (Some e)
    with Cons.prems(2) f show ?thesis
      by (simp add: d) (blast intro: mono)
  next
    case None
    obtain c3 fault3 calls3 where r: "dispatch_actions post mint st bids xi c2 acts = (c3, fault3, calls3)"
      by (cases "dispatch_actions post mint st bids xi c2 acts")
    note ih = Cons.IH [OF f(1) r]
    from Cons.prems(2) None have eq: "c3 = c1" "calls = calls2 @ calls3" by (simp_all add: d r)
    have "flatten_call st bids (act # acts) call" if "call \<in> set calls" for call
    proof -
      from that eq(2) consider "call \<in> set calls2" | "call \<in> set calls3" by auto
      then show ?thesis
        by cases (rule mono(1) [OF bspec [OF f(6)]], assumption, rule mono(2), use ih in blast)
    qed
    with ih f(2-5) show ?thesis by (simp add: eq)
  qed
qed simp

lemma position_policy_flattens:
  assumes "act \<in> set (position_policy st cfg)" and "pa_flatten act"
  obtains w p where "position st w = Some p" "0 < lp_net p" "pa_ticker act = lp_ticker p"
    "pa_side act = lp_side p" "pa_count act = py_trunc (lp_net p - protected_lots st cfg p)"
    "0 < lp_net p - protected_lots st cfg p" "sg_flatten_unprotected cfg"
proof -
  from assms(1) obtain w where "act \<in> set (leg_policy st cfg w)" by (auto simp: position_policy_def)
  moreover from this obtain p where p: "position st w = Some p" "0 < lp_net p"
    by (cases "position st w") (auto simp: leg_policy_def split: if_splits)
  ultimately show thesis
    using assms(2) by (intro that [OF p]) (auto simp: leg_policy_def Let_def p(1) split: if_splits)
qed

end
