(* ===== verification/Rebalance.thy ===== *)
theory Rebalance
  imports Reconciler Stop_Controller
begin

text \<open>
  The imbalance loop of a live window, \<open>run_window._maybe_rebalance\<close>: propose, place the order
  through the executor, fold its responses into the ledger, and repeat at most
  \<open>_MAX_REBALANCE_STEPS\<close> times; a give-up trips S2, whose flattens fold into the ledger as well.
  Parameters: the venue, the client-id mint, the stamp of a latch, the two books' tops, the wake's
  shard map, the fair value of the strangle, and the text of a printed reason.
\<close>

definition MAX_REBALANCE_STEPS :: nat where
  "MAX_REBALANCE_STEPS = 20"

record window_run =
  wr_ledger :: ledger_state
  wr_stops :: stop_controller

record rebalance_env =
  re_post :: venue
  re_mint :: "nat \<Rightarrow> string"
  re_ts :: time
  re_policy :: policy_params
  re_shards :: "(ticker, int option) dict"
  re_close_time :: string
  re_show :: "proposal \<Rightarrow> string"

record rebalance_tick =
  rt_t_minus :: time
  rt_tops :: leg_tops
  rt_fair_q :: "money option"

datatype rebalance_end =
  Ended_Balanced | Ended_Ride | Ended_Give_Up | Ended_Steps | Ended_Fault exec_fault

definition fold_result :: "ledger_state \<Rightarrow> intent \<times> exec_result \<Rightarrow> ledger_state" where
  "fold_result st ir = foldl record_response (record_intent st (fst ir)) (er_responses (snd ir))"

definition run_journal :: "window_run \<Rightarrow> string \<Rightarrow> json \<Rightarrow> window_run" where
  "run_journal w kind data =
     w\<lparr>wr_stops := (wr_stops w)\<lparr>sc_executor := (sc_executor (wr_stops w))
         \<lparr>xc_journal := xc_journal (sc_executor (wr_stops w)) @ [(kind, data)]\<rparr>\<rparr>\<rparr>"

definition trip_imbalance ::
  "rebalance_env \<Rightarrow> rebalance_tick \<Rightarrow> window_run \<Rightarrow> string \<Rightarrow> window_run \<times> rebalance_end \<times> post_call list" where
  "trip_imbalance env tick w reason =
     (let c = wr_stops w;
          (c1, res, calls) = trip (re_post env) (re_mint env) (re_ts env) c S2_IMBALANCE reason
            (Some (wr_ledger w)) (bids_of (rt_tops tick) (wr_ledger w)) [] (re_shards env);
          sunk = drop (length (sc_sunk c)) (sc_sunk c1)
      in (w\<lparr>wr_stops := c1, wr_ledger := foldl fold_result (wr_ledger w) sunk\<rparr>,
          (case res of Inl e \<Rightarrow> Ended_Fault e | Inr _ \<Rightarrow> Ended_Give_Up), calls))"

text \<open>The order of a proposal, placed: \<open>None\<close> when the call raises.\<close>

definition place_order ::
  "rebalance_env \<Rightarrow> rebalance_tick \<Rightarrow> window_run \<Rightarrow> order_proposal \<Rightarrow> bool \<Rightarrow> string \<Rightarrow> string \<Rightarrow>
     window_run \<times> exec_fault option \<times> post_call list" where
  "place_order env tick w p buying kind reason =
     (let c = wr_stops w;
          cid = re_mint env (sc_minted c);
          xi = Option.bind (map_of (re_shards env) (op_ticker p)) id;
          i = rebalance_intent (wr_ledger w) p buying cid xi (re_close_time env) (rt_t_minus tick);
          w1 = run_journal (w\<lparr>wr_stops := c\<lparr>sc_minted := sc_minted c + 1\<rparr>\<rparr>) ''imbalance_proposal''
                 (JObj [(''kind'', JStr kind), (''reason'', JStr reason)]);
          st1 = record_intent (wr_ledger w1) i;
          (x1, res, calls) = execute (re_post env) (sc_executor (wr_stops w1)) i (Some (rt_t_minus tick)) False;
          w2 = w1\<lparr>wr_ledger := st1, wr_stops := (wr_stops w1)\<lparr>sc_executor := x1\<rparr>\<rparr>
      in case res of
           Inl e \<Rightarrow> (w2, Some e, calls)
         | Inr r \<Rightarrow> (w2\<lparr>wr_ledger := foldl record_response st1 (er_responses r)\<rparr>, None, calls))"

definition run_proposal :: "rebalance_env \<Rightarrow> rebalance_tick \<Rightarrow> window_run \<Rightarrow> proposal" where
  "run_proposal env tick w =
     propose_rebalance (wr_ledger w) (re_policy env) (rt_t_minus tick)
       (rebalance_quotes_of (rt_tops tick) (wr_ledger w))
       (ceiling_per_pair (re_policy env) (ls_source (wr_ledger w)) (rt_fair_q tick))"

fun rebalance_loop ::
  "nat \<Rightarrow> rebalance_env \<Rightarrow> rebalance_tick \<Rightarrow> window_run \<Rightarrow> window_run \<times> rebalance_end \<times> post_call list" where
  "rebalance_loop 0 env tick w = (w, Ended_Steps, [])"
| "rebalance_loop (Suc n) env tick w =
     (let pr = run_proposal env tick w;
          continue = (\<lambda>(w1, fault, calls).
            case fault of
              Some e \<Rightarrow> (w1, Ended_Fault e, calls)
            | None \<Rightarrow>
                (let (w2, end2, calls2) = rebalance_loop n env tick w1 in (w2, end2, calls @ calls2)))
      in case pr of
           Balanced \<Rightarrow> (w, Ended_Balanced, [])
         | Ride_To_Settlement _ _ _ _ \<Rightarrow>
             (run_journal w ''imbalance_ride'' (JObj [(''reason'', JStr (re_show env pr))]), Ended_Ride, [])
         | Give_Up _ _ _ _ _ _ _ \<Rightarrow> trip_imbalance env tick w (re_show env pr)
         | Retry_Buy p _ _ _ _ \<Rightarrow> continue (place_order env tick w p True ''RetryBuy'' (re_show env pr))
         | Sell_Down p _ _ \<Rightarrow> continue (place_order env tick w p False ''SellDown'' (re_show env pr)))"

definition maybe_rebalance ::
  "rebalance_env \<Rightarrow> rebalance_tick \<Rightarrow> window_run \<Rightarrow> window_run \<times> rebalance_end \<times> post_call list" where
  "maybe_rebalance = rebalance_loop MAX_REBALANCE_STEPS"

section \<open>The rounds are bounded\<close>

definition rebalance_purposes :: "string set" where
  "rebalance_purposes = {PURPOSE_REBALANCE_BUY, PURPOSE_REBALANCE_SELL}"

definition rebalance_orders :: "ledger_state \<Rightarrow> nat" where
  "rebalance_orders st = length (filter (\<lambda>i. in_purpose i \<in> rebalance_purposes) (ls_intents st))"

text \<open>Every rebalance order is one leg on one of the two tickers, and no counter passes \<open>b\<close>.\<close>

definition rebalance_ok :: "nat \<Rightarrow> ledger_state \<Rightarrow> bool" where
  "rebalance_ok b st \<longleftrightarrow>
     (\<forall>i \<in> set (ls_intents st). in_purpose i \<in> rebalance_purposes \<longrightarrow>
        (\<exists>leg. in_legs i = [leg] \<and> il_ticker leg \<in> {ls_high_ticker st, ls_low_ticker st})) \<and>
     (\<forall>tk \<in> {ls_high_ticker st, ls_low_ticker st}. \<forall>purpose \<in> rebalance_purposes.
        retries_for_side st tk purpose \<le> b)"

lemma length_filter_cover4:
  "\<forall>x \<in> set xs. P x \<longrightarrow> q1 x \<or> q2 x \<or> q3 x \<or> q4 x \<Longrightarrow>
     length (filter P xs) \<le> length (filter q1 xs) + length (filter q2 xs) +
       length (filter q3 xs) + length (filter q4 xs)"
  by (induction xs) auto

lemma rebalance_orders_le:
  assumes "rebalance_ok b st"
  shows "rebalance_orders st \<le> 4 * b"
proof -
  let ?q = "\<lambda>tk purpose i. in_purpose i = purpose \<and> list_ex (\<lambda>l. il_ticker l = tk) (in_legs i)"
  have "rebalance_orders st \<le>
      retries_for_side st (ls_high_ticker st) PURPOSE_REBALANCE_BUY +
      retries_for_side st (ls_high_ticker st) PURPOSE_REBALANCE_SELL +
      retries_for_side st (ls_low_ticker st) PURPOSE_REBALANCE_BUY +
      retries_for_side st (ls_low_ticker st) PURPOSE_REBALANCE_SELL"
    unfolding rebalance_orders_def retries_for_side_def
  proof (rule length_filter_cover4, intro ballI impI)
    fix i assume "i \<in> set (ls_intents st)" "in_purpose i \<in> rebalance_purposes"
    with assms obtain leg where "in_legs i = [leg]"
      "il_ticker leg \<in> {ls_high_ticker st, ls_low_ticker st}"
      unfolding rebalance_ok_def by blast
    with \<open>in_purpose i \<in> rebalance_purposes\<close>
    show "?q (ls_high_ticker st) PURPOSE_REBALANCE_BUY i \<or> ?q (ls_high_ticker st) PURPOSE_REBALANCE_SELL i \<or>
        ?q (ls_low_ticker st) PURPOSE_REBALANCE_BUY i \<or> ?q (ls_low_ticker st) PURPOSE_REBALANCE_SELL i"
      by (auto simp: rebalance_purposes_def)
  qed
  moreover have "retries_for_side st tk purpose \<le> b"
    if "tk \<in> {ls_high_ticker st, ls_low_ticker st}" "purpose \<in> rebalance_purposes" for tk purpose
    using assms that unfolding rebalance_ok_def by blast
  then have "retries_for_side st (ls_high_ticker st) PURPOSE_REBALANCE_BUY \<le> b"
    "retries_for_side st (ls_high_ticker st) PURPOSE_REBALANCE_SELL \<le> b"
    "retries_for_side st (ls_low_ticker st) PURPOSE_REBALANCE_BUY \<le> b"
    "retries_for_side st (ls_low_ticker st) PURPOSE_REBALANCE_SELL \<le> b"
    by (simp_all add: rebalance_purposes_def)
  ultimately show ?thesis by linarith
qed

lemma record_intent_frame [frame_simps]:
  "ls_intents (record_intent st i) = ls_intents st @ [i]"
  "ls_high_ticker (record_intent st i) = ls_high_ticker st"
  "ls_low_ticker (record_intent st i) = ls_low_ticker st"
  by (simp_all add: record_intent_def Let_def case_prod_beta)

lemma record_response_frame [frame_simps]:
  "ls_intents (record_response st r) = ls_intents st"
  "ls_high_ticker (record_response st r) = ls_high_ticker st"
  "ls_low_ticker (record_response st r) = ls_low_ticker st"
  by (simp_all add: record_response_def Let_def case_prod_beta split: option.split)

lemma record_responses_frame [frame_simps]:
  "ls_intents (foldl record_response st rs) = ls_intents st"
  "ls_high_ticker (foldl record_response st rs) = ls_high_ticker st"
  "ls_low_ticker (foldl record_response st rs) = ls_low_ticker st"
  by (induction rs arbitrary: st) (simp_all add: frame_simps)

text \<open>The counters read the intents and the tickers only.\<close>

lemma rebalance_ok_cong:
  assumes "ls_intents st' = ls_intents st" "ls_high_ticker st' = ls_high_ticker st"
    "ls_low_ticker st' = ls_low_ticker st"
  shows "rebalance_ok b st' = rebalance_ok b st" "rebalance_orders st' = rebalance_orders st"
  using assms by (simp_all add: rebalance_ok_def rebalance_orders_def retries_for_side_def)

lemma rebalance_ok_responses:
  "rebalance_ok b (foldl record_response st rs) = rebalance_ok b st"
  "rebalance_orders (foldl record_response st rs) = rebalance_orders st"
  by (rule rebalance_ok_cong; simp add: frame_simps)+

lemma retries_record_intent:
  "retries_for_side (record_intent st i) tk purpose = retries_for_side st tk purpose +
    (if in_purpose i = purpose \<and> list_ex (\<lambda>l. il_ticker l = tk) (in_legs i) then 1 else 0)"
  by (simp add: retries_for_side_def frame_simps)

lemma rebalance_ok_other:
  assumes "in_purpose i \<notin> rebalance_purposes"
  shows "rebalance_ok b (record_intent st i) = rebalance_ok b st"
    "rebalance_orders (record_intent st i) = rebalance_orders st"
  using assms by (auto simp: rebalance_ok_def rebalance_orders_def retries_record_intent frame_simps)

lemma rebalance_ok_place:
  assumes "rebalance_ok b st" "in_purpose i \<in> rebalance_purposes" "in_legs i = [leg]"
    and "il_ticker leg \<in> {ls_high_ticker st, ls_low_ticker st}"
    and "retries_for_side st (il_ticker leg) (in_purpose i) < b"
  shows "rebalance_ok b (record_intent st i)"
    "rebalance_orders (record_intent st i) = Suc (rebalance_orders st)"
  using assms by (auto simp: rebalance_ok_def rebalance_orders_def retries_record_intent frame_simps)

lemma flatten_not_rebalance: "PURPOSE_FLATTEN \<notin> rebalance_purposes"
  by (simp add: rebalance_purposes_def)

lemma rebalance_ok_fold_result:
  "list_all (\<lambda>ir. in_purpose (fst ir) = PURPOSE_FLATTEN) sunk \<Longrightarrow>
     rebalance_ok b (foldl fold_result st sunk) = rebalance_ok b st"
  "list_all (\<lambda>ir. in_purpose (fst ir) = PURPOSE_FLATTEN) sunk \<Longrightarrow>
     rebalance_orders (foldl fold_result st sunk) = rebalance_orders st"
  by (induction sunk arbitrary: st)
    (simp_all add: fold_result_def rebalance_ok_responses rebalance_ok_other flatten_not_rebalance)

lemma dispatch_action_sunk:
  assumes "dispatch_action post mint st bids xi c act = (c1, fault, calls)"
  shows "\<exists>new. sc_sunk c1 = sc_sunk c @ new \<and> list_all (\<lambda>ir. in_purpose (fst ir) = PURPOSE_FLATTEN) new"
  using assms
  by (auto simp: dispatch_action_def raise_alarm_def journal_note_def build_flatten_intent_def Let_def
      case_prod_beta split: if_splits option.splits sum.splits)

lemma dispatch_actions_sunk:
  "dispatch_actions post mint st bids xi c acts = (c1, fault, calls) \<Longrightarrow>
    \<exists>new. sc_sunk c1 = sc_sunk c @ new \<and> list_all (\<lambda>ir. in_purpose (fst ir) = PURPOSE_FLATTEN) new"
proof (induction acts arbitrary: c c1 fault calls)
  case (Cons act acts)
  obtain c2 fault2 calls2 where d: "dispatch_action post mint st bids xi c act = (c2, fault2, calls2)"
    by (cases "dispatch_action post mint st bids xi c act")
  obtain c3 fault3 calls3 where r: "dispatch_actions post mint st bids xi c2 acts = (c3, fault3, calls3)"
    by (cases "dispatch_actions post mint st bids xi c2 acts")
  from dispatch_action_sunk [OF d] Cons.IH [OF r] Cons.prems show ?case
    by (cases fault2) (auto simp: d r)
qed simp

lemma trip_sunk:
  assumes "trip post mint ts c stop reason ledger bids detail xi = (c1, res, calls)"
  shows "\<exists>new. sc_sunk c1 = sc_sunk c @ new \<and> list_all (\<lambda>ir. in_purpose (fst ir) = PURPOSE_FLATTEN) new"
proof -
  have freeze: "sc_sunk (freeze c stop reason detail w ts) = sc_sunk c" for w
    by (simp add: freeze_def Let_def persist_latch_def journal_note_def split: option.split)
  show ?thesis
  proof (cases ledger)
    case None
    with assms show ?thesis by (auto simp: trip_def Let_def freeze)
  next
    case (Some st)
    let ?c0 = "freeze c stop reason detail (Some (ls_window st)) ts"
    obtain c2 fault2 calls2 where
      d: "dispatch_actions post mint st bids xi ?c0 (position_policy st (sc_config ?c0)) = (c2, fault2, calls2)"
      by (cases "dispatch_actions post mint st bids xi ?c0 (position_policy st (sc_config ?c0))")
    from dispatch_actions_sunk [OF d] assms Some show ?thesis
      by (auto simp: trip_def Let_def d freeze)
  qed
qed

lemma run_journal_frame [frame_simps]:
  "wr_ledger (run_journal w kind data) = wr_ledger w"
  by (simp add: run_journal_def)

lemma proposal_order_ticker:
  assumes "(op_ticker p, op_side p) = leg_ticker_side st w"
  shows "op_ticker p \<in> {ls_high_ticker st, ls_low_ticker st}"
  using assms by (cases w) auto

lemma place_order_counts:
  assumes ok: "rebalance_ok b (wr_ledger w)"
    and tk: "op_ticker p \<in> {ls_high_ticker (wr_ledger w), ls_low_ticker (wr_ledger w)}"
    and room: "retries_for_side (wr_ledger w) (op_ticker p)
      (if buying then PURPOSE_REBALANCE_BUY else PURPOSE_REBALANCE_SELL) < b"
    and run: "place_order env tick w p buying kind reason = (w1, fault, calls)"
  shows "rebalance_ok b (wr_ledger w1)"
    and "rebalance_orders (wr_ledger w1) = Suc (rebalance_orders (wr_ledger w))"
proof -
  define leg where "leg = rebalance_leg p buying (re_mint env (sc_minted (wr_stops w)))
    (Option.bind (map_of (re_shards env) (op_ticker p)) id)"
  define i where "i = rebalance_intent (wr_ledger w) p buying (re_mint env (sc_minted (wr_stops w)))
    (Option.bind (map_of (re_shards env) (op_ticker p)) id) (re_close_time env) (rt_t_minus tick)"
  define st1 where "st1 = record_intent (wr_ledger w) i"
  have i: "in_legs i = [leg]" "il_ticker leg = op_ticker p"
    "in_purpose i = (if buying then PURPOSE_REBALANCE_BUY else PURPOSE_REBALANCE_SELL)"
    by (simp_all add: i_def leg_def rebalance_intent_def rebalance_leg_def)
  have w1: "wr_ledger w1 = st1 \<or> (\<exists>rs. wr_ledger w1 = foldl record_response st1 rs)"
    using run by (auto simp: place_order_def Let_def i_def [symmetric] st1_def frame_simps case_prod_beta
        split: sum.splits)
  have in_p: "in_purpose i \<in> rebalance_purposes" by (simp add: i(3) rebalance_purposes_def)
  have "rebalance_ok b st1" "rebalance_orders st1 = Suc (rebalance_orders (wr_ledger w))"
    using rebalance_ok_place [OF ok in_p i(1)] tk room by (simp_all add: i st1_def)
  with w1 show "rebalance_ok b (wr_ledger w1)"
    "rebalance_orders (wr_ledger w1) = Suc (rebalance_orders (wr_ledger w))"
    by (auto simp: rebalance_ok_responses)
qed

lemma trip_imbalance_counts:
  assumes "trip_imbalance env tick w reason = (w1, fin, calls)"
  shows "rebalance_ok b (wr_ledger w1) = rebalance_ok b (wr_ledger w)"
    and "rebalance_orders (wr_ledger w1) = rebalance_orders (wr_ledger w)" "fin \<noteq> Ended_Steps"
proof -
  obtain c1 res calls1 where t: "trip (re_post env) (re_mint env) (re_ts env) (wr_stops w) S2_IMBALANCE
      reason (Some (wr_ledger w)) (bids_of (rt_tops tick) (wr_ledger w)) [] (re_shards env) = (c1, res, calls1)"
    by (metis prod_cases3)
  from trip_sunk [OF t] obtain new where "sc_sunk c1 = sc_sunk (wr_stops w) @ new"
    and new: "list_all (\<lambda>ir. in_purpose (fst ir) = PURPOSE_FLATTEN) new" by blast
  with assms have "wr_ledger w1 = foldl fold_result (wr_ledger w) new"
    and fin: "fin = (case res of Inl e \<Rightarrow> Ended_Fault e | Inr _ \<Rightarrow> Ended_Give_Up)"
    by (auto simp: trip_imbalance_def t Let_def)
  with new show "rebalance_ok b (wr_ledger w1) = rebalance_ok b (wr_ledger w)"
    "rebalance_orders (wr_ledger w1) = rebalance_orders (wr_ledger w)"
    by (simp_all add: rebalance_ok_fold_result)
  show "fin \<noteq> Ended_Steps" by (simp add: fin split: sum.split)
qed

text \<open>A run of the loop keeps the counters within bounds; spending all its steps places an order each.\<close>

lemma rebalance_loop_counts:
  assumes "rebalance_loop n env tick w = (w', fin, calls)"
    and "rebalance_ok (nat (ib_max_retries_per_side (pp_imbalance (re_policy env)))) (wr_ledger w)"
  shows "rebalance_ok (nat (ib_max_retries_per_side (pp_imbalance (re_policy env)))) (wr_ledger w') \<and>
    (fin = Ended_Steps \<longrightarrow> rebalance_orders (wr_ledger w') = rebalance_orders (wr_ledger w) + n)"
  using assms
proof (induction n arbitrary: w w' fin calls)
  case (Suc n)
  let ?b = "nat (ib_max_retries_per_side (pp_imbalance (re_policy env)))"
  have placed: "rebalance_ok ?b (wr_ledger w') \<and>
      (fin = Ended_Steps \<longrightarrow> rebalance_orders (wr_ledger w') = rebalance_orders (wr_ledger w) + Suc n)"
    if tk: "op_ticker p \<in> {ls_high_ticker (wr_ledger w), ls_low_ticker (wr_ledger w)}"
    and room: "retries_for_side (wr_ledger w) (op_ticker p)
      (if buying then PURPOSE_REBALANCE_BUY else PURPOSE_REBALANCE_SELL) < ?b"
    and run: "(case place_order env tick w p buying kind reason of (w1, fault, calls1) \<Rightarrow>
       (case fault of Some e \<Rightarrow> (w1, Ended_Fault e, calls1)
        | None \<Rightarrow> (let (w2, end2, calls2) = rebalance_loop n env tick w1 in (w2, end2, calls1 @ calls2))))
        = (w', fin, calls)" for p buying kind reason
  proof -
    obtain w1 fault calls1 where pl: "place_order env tick w p buying kind reason = (w1, fault, calls1)"
      by (metis prod_cases3)
    note one = place_order_counts [OF Suc.prems(2) tk room pl]
    obtain w2 end2 calls2 where rest: "rebalance_loop n env tick w1 = (w2, end2, calls2)"
      by (metis prod_cases3)
    from Suc.IH [OF rest one(1)] one run show ?thesis
      by (cases fault) (auto simp: pl rest)
  qed
  show ?case
  proof (cases "run_proposal env tick w")
    case (Retry_Buy p cost proj tot k)
    from Retry_Buy [unfolded run_proposal_def] obtain imb :: imbalance where
      "(op_ticker p, op_side p) = leg_ticker_side (wr_ledger w) (im_deficient imb)"
      "int (retries_for_side (wr_ledger w) (op_ticker p) PURPOSE_REBALANCE_BUY) <
         ib_max_retries_per_side (pp_imbalance (re_policy env))"
      by (rule propose_buyD) blast
    note o = this
    show ?thesis
    proof (rule placed [of p True "''RetryBuy''" "re_show env (run_proposal env tick w)"])
      show "op_ticker p \<in> {ls_high_ticker (wr_ledger w), ls_low_ticker (wr_ledger w)}"
        by (rule proposal_order_ticker [OF o(1)])
    qed (use o(2) Suc.prems(1) in \<open>simp_all add: Retry_Buy Let_def zless_nat_eq_int_zless\<close>)
  next
    case (Sell_Down p target k)
    from Sell_Down [unfolded run_proposal_def] obtain imb :: imbalance where
      "(op_ticker p, op_side p) = leg_ticker_side (wr_ledger w) (im_overfilled imb)"
      "int (retries_for_side (wr_ledger w) (op_ticker p) PURPOSE_REBALANCE_SELL) <
         ib_max_retries_per_side (pp_imbalance (re_policy env))"
      by (rule propose_sellD) blast
    note o = this
    show ?thesis
    proof (rule placed [of p False "''SellDown''" "re_show env (run_proposal env tick w)"])
      show "op_ticker p \<in> {ls_high_ticker (wr_ledger w), ls_low_ticker (wr_ledger w)}"
        by (rule proposal_order_ticker [OF o(1)])
    qed (use o(2) Suc.prems(1) in \<open>simp_all add: Sell_Down Let_def zless_nat_eq_int_zless\<close>)
  next
    case (Give_Up a1 a2 a3 a4 a5 a6 a7)
    with Suc.prems(1) have "trip_imbalance env tick w (re_show env (run_proposal env tick w)) = (w', fin, calls)"
      by (simp add: Let_def)
    from trip_imbalance_counts [OF this] Suc.prems(2) show ?thesis by simp
  qed (use Suc.prems in \<open>auto simp: Let_def frame_simps\<close>)
qed simp

end
