(* ===== verification/Arming.thy ===== *)
theory Arming
  imports Stops
begin

text \<open>
  The arm-or-degrade gates of the two rest-quoting rosters, \<open>pilot/service/v32/stops.py\<close> and
  \<open>pilot/service/v33/stops.py\<close>: the caps agreement with the proxy's \<open>/health\<close>, reconcile-first,
  the daily-loss band at each roster's cap, the count of one-legged occurrences in the day guard,
  and the one decision over all of them. The printed reasons keep the values they show.
\<close>

section \<open>The caps agreement\<close>

definition V32_S4_DAY_LOSS_CAP_DOLLARS :: money where "V32_S4_DAY_LOSS_CAP_DOLLARS = 3"
definition V32_MIN_ORDER_BUDGET_AT_ARM :: int where "V32_MIN_ORDER_BUDGET_AT_ARM = 200"
definition V32_MAX_CONTRACTS_PER_ORDER :: int where "V32_MAX_CONTRACTS_PER_ORDER = 2"
definition V32_S1_LEGGED_LATCH_THRESHOLD :: nat where "V32_S1_LEGGED_LATCH_THRESHOLD = 2"
definition V33_S4_DAY_LOSS_CAP_DOLLARS :: money where "V33_S4_DAY_LOSS_CAP_DOLLARS = 5"
definition V33_MIN_ORDER_BUDGET_AT_ARM :: int where "V33_MIN_ORDER_BUDGET_AT_ARM = 500"
definition V33_S1_LEGGED_LATCH_THRESHOLD :: nat where "V33_S1_LEGGED_LATCH_THRESHOLD = 6"
definition V33_ETH_S1_LEGGED_LATCH_THRESHOLD :: nat where "V33_ETH_S1_LEGGED_LATCH_THRESHOLD = 2"
definition S1_LEGGED :: string where "S1_LEGGED = ''S1_LEGGED''"
definition RANGE_TICKER_PROBE :: string where "RANGE_TICKER_PROBE = ''KXBTC-''"
definition STRIKE_TICKER_PROBE :: string where "STRIKE_TICKER_PROBE = ''KXBTCD-''"

datatype caps_reason =
    No_Health
  | Orders_Disabled
  | No_Caps_Block
  | Max_Missing
  | Max_Below int int
  | Max_Above int int
  | Prefixes_Missing
  | Prefix_Uncovered string
  | Remaining_Missing
  | Remaining_Below int int

text \<open>\<open>probe.startswith(str(p))\<close>: no text of a value that is not a string starts the probe.\<close>

definition prefix_covers :: "string \<Rightarrow> json list \<Rightarrow> bool" where
  "prefix_covers probe prefixes =
     list_ex (\<lambda>p. case p of JStr s \<Rightarrow> starts_with s probe | _ \<Rightarrow> False) prefixes"

text \<open>The checks in order, \<open>None\<close> when all pass; both rosters run them with their own numbers.\<close>

definition caps_disagree :: "json \<Rightarrow> int \<Rightarrow> int \<Rightarrow> int \<Rightarrow> caps_reason option" where
  "caps_disagree health low high budget =
     (case health of
        JObj kvs \<Rightarrow>
          if \<not> json_truthy (json_field kvs ''orders_enabled'') then Some Orders_Disabled
          else (case json_field kvs ''caps'' of
             JObj caps \<Rightarrow>
               (case json_int (json_field caps ''max_contracts_per_order'') of
                  None \<Rightarrow> Some Max_Missing
                | Some m \<Rightarrow>
                    if m < low then Some (Max_Below m low)
                    else if high < m then Some (Max_Above m high)
                    else (case json_field caps ''ticker_prefixes'' of
                       JList prefixes \<Rightarrow>
                         if \<not> prefix_covers RANGE_TICKER_PROBE prefixes
                         then Some (Prefix_Uncovered RANGE_TICKER_PROBE)
                         else if \<not> prefix_covers STRIKE_TICKER_PROBE prefixes
                         then Some (Prefix_Uncovered STRIKE_TICKER_PROBE)
                         else (case json_int (json_field kvs ''orders_remaining_today'') of
                            None \<Rightarrow> Some Remaining_Missing
                          | Some n \<Rightarrow> if n < budget then Some (Remaining_Below n budget) else None)
                     | _ \<Rightarrow> Some Prefixes_Missing))
           | _ \<Rightarrow> Some No_Caps_Block)
      | _ \<Rightarrow> Some No_Health)"

definition v32_caps_agree :: "json \<Rightarrow> int \<Rightarrow> caps_reason option" where
  "v32_caps_agree health contracts =
     caps_disagree health contracts V32_MAX_CONTRACTS_PER_ORDER V32_MIN_ORDER_BUDGET_AT_ARM"

text \<open>The cap band of the ladder: the largest rung and the sum of the rungs, or the uniform ones.\<close>

definition v33_cap_band :: "int \<Rightarrow> int \<Rightarrow> int list option \<Rightarrow> int \<times> int" where
  "v33_cap_band lots_per_rung k_rungs rung_lots =
     (case rung_lots of
        Some (w # ws) \<Rightarrow> (fold max ws w, sum_list (w # ws))
      | _ \<Rightarrow> (lots_per_rung, k_rungs * lots_per_rung))"

definition v33_caps_agree :: "json \<Rightarrow> int \<Rightarrow> int \<Rightarrow> int list option \<Rightarrow> caps_reason option" where
  "v33_caps_agree health lots_per_rung k_rungs rung_lots =
     (let (low, high) = v33_cap_band lots_per_rung k_rungs rung_lots
      in caps_disagree health low high V33_MIN_ORDER_BUDGET_AT_ARM)"

datatype s5_reason = Params_Unverified | Falsifier_Unfrozen | Caps_Disagree caps_reason

definition s5_reasons :: "string list option \<Rightarrow> bool \<Rightarrow> caps_reason option \<Rightarrow> s5_reason list" where
  "s5_reasons falsifier params_verified caps =
     (if params_verified then [] else [Params_Unverified]) @
     (if falsifier_is_frozen falsifier then [] else [Falsifier_Unfrozen]) @
     (case caps of None \<Rightarrow> [] | Some r \<Rightarrow> [Caps_Disagree r])"

definition v32_arming_check :: "string list option \<Rightarrow> json \<Rightarrow> bool \<Rightarrow> int \<Rightarrow> s5_reason list" where
  "v32_arming_check falsifier health params_verified contracts =
     s5_reasons falsifier params_verified (v32_caps_agree health contracts)"

definition v33_arming_check ::
  "string list option \<Rightarrow> json \<Rightarrow> bool \<Rightarrow> int \<Rightarrow> int \<Rightarrow> int list option \<Rightarrow> s5_reason list" where
  "v33_arming_check falsifier health params_verified lots_per_rung k_rungs rung_lots =
     s5_reasons falsifier params_verified (v33_caps_agree health lots_per_rung k_rungs rung_lots)"

section \<open>Reconcile-first\<close>

datatype unclean =
  No_Positions | No_Position_List | Malformed_Row | Unparseable_Size ticker | Inherited ticker lots

definition truthy_text :: "json \<Rightarrow> string option" where
  "truthy_text v = (case v of JStr s \<Rightarrow> if s \<noteq> [] then Some s else None | _ \<Rightarrow> None)"

text \<open>A ticker that is no string starts with no prefix; it reads as the empty text.\<close>

definition row_ticker :: "(string \<times> json) list \<Rightarrow> string" where
  "row_ticker row =
     (if json_truthy (json_field row ''ticker'') then or_default [] (truthy_text (json_field row ''ticker''))
      else or_default [] (truthy_text (json_field row ''market_ticker'')))"

definition row_size :: "(string \<times> json) list \<Rightarrow> lots option" where
  "row_size row =
     (let pos = (if json_field row ''position'' = JNull then json_field row ''position_fp''
                 else json_field row ''position'')
      in if pos = JNull then Some 0 else to_decimal pos)"

fun rows_clean :: "string \<Rightarrow> json list \<Rightarrow> unclean option" where
  "rows_clean pre [] = None"
| "rows_clean pre (JObj row # rows) =
     (if \<not> starts_with pre (row_ticker row) then rows_clean pre rows
      else (case row_size row of
              None \<Rightarrow> Some (Unparseable_Size (row_ticker row))
            | Some n \<Rightarrow> if n \<noteq> 0 then Some (Inherited (row_ticker row) n) else rows_clean pre rows))"
| "rows_clean pre (row # rows) = Some Malformed_Row"

definition reconcile_positions_clean :: "json \<Rightarrow> string \<Rightarrow> unclean option" where
  "reconcile_positions_clean positions pre =
     (if positions = JNull then Some No_Positions
      else
        (let rows = (case positions of
                       JObj kvs \<Rightarrow>
                         if json_field kvs ''market_positions'' = JNull then json_field kvs ''positions''
                         else json_field kvs ''market_positions''
                     | _ \<Rightarrow> positions)
         in case rows of JList rs \<Rightarrow> rows_clean pre rs | _ \<Rightarrow> Some No_Position_List))"

section \<open>S4 and S1\<close>

definition v32_s4_decision :: "money \<Rightarrow> money \<Rightarrow> money \<times> money \<Rightarrow> s4_decision" where
  "v32_s4_decision start now credit =
     s4_balance_decision start (now + fst credit) (snd credit - fst credit) V32_S4_DAY_LOSS_CAP_DOLLARS"

definition v33_s4_decision :: "money \<Rightarrow> money \<Rightarrow> money \<times> money \<Rightarrow> s4_decision" where
  "v33_s4_decision start now credit =
     s4_balance_decision start (now + fst credit) (snd credit - fst credit) V33_S4_DAY_LOSS_CAP_DOLLARS"

definition count_legged :: "day_guard \<Rightarrow> nat" where
  "count_legged g = length (filter (\<lambda>e. json_field e ''kind'' = JStr S1_LEGGED) (dg_latched g))"

definition record_legged_occurrence ::
  "guard_file \<Rightarrow> string \<Rightarrow> string option \<Rightarrow> string \<Rightarrow> time \<Rightarrow> guard_file \<times> nat" where
  "record_legged_occurrence f utc_day window reason ts =
     (let f1 = record_latched_stop f utc_day S1_LEGGED reason window ts
      in (f1, count_legged (read_day_guard f1 utc_day)))"

definition guard_has_s4_latch :: "day_guard \<Rightarrow> bool" where
  "guard_has_s4_latch g = list_ex (\<lambda>e. json_field e ''kind'' = JStr S4_DAILY_LOSS) (dg_latched g)"

definition v33_latched_stop_kind :: "day_guard \<Rightarrow> nat \<Rightarrow> string option" where
  "v33_latched_stop_kind g s1_threshold =
     (if list_ex (\<lambda>e. json_field e ''kind'' = JStr S4_DAILY_LOSS) (dg_latched g) then Some S4_DAILY_LOSS
      else if s1_threshold \<le> count_legged g then Some S1_LEGGED else None)"

definition v32_latched_stop_kind :: "day_guard \<Rightarrow> string option" where
  "v32_latched_stop_kind g =
     (if list_ex (\<lambda>e. json_field e ''kind'' = JStr S4_DAILY_LOSS) (dg_latched g) then Some S4_DAILY_LOSS
      else if V32_S1_LEGGED_LATCH_THRESHOLD \<le> count_legged g then Some S1_LEGGED else None)"

section \<open>The decision\<close>

datatype arm_refusal =
    Guard_Corrupt
  | Day_Latched string
  | Sibling_S4
  | S5 s5_reason
  | Reconcile_First unclean
  | S4_Breached
  | S4_Pending_Settlement

record arming_outcome =
  ao_effective_mode :: string
  ao_armed :: bool
  ao_degrade_reason :: "string option"
  ao_reasons :: "arm_refusal list"

definition guard_reasons :: "day_guard \<Rightarrow> string option \<Rightarrow> arm_refusal list" where
  "guard_reasons g latched =
     (if dg_corrupt g then [Guard_Corrupt]
      else (case latched of None \<Rightarrow> [] | Some k \<Rightarrow> [Day_Latched k]))"

definition s4_reasons :: "s4_decision option \<Rightarrow> arm_refusal list" where
  "s4_reasons s4 =
     (case s4 of
        None \<Rightarrow> []
      | Some d \<Rightarrow> (case s4_verdict d of
                     S4_Latch \<Rightarrow> [S4_Breached] | S4_Pending \<Rightarrow> [S4_Pending_Settlement] | S4_Clear \<Rightarrow> []))"

definition unclean_reasons :: "unclean option \<Rightarrow> arm_refusal list" where
  "unclean_reasons u = (case u of None \<Rightarrow> [] | Some d \<Rightarrow> [Reconcile_First d])"

definition outcome_of :: "arm_refusal list \<Rightarrow> arming_outcome" where
  "outcome_of reasons =
     (if reasons \<noteq> []
      then \<lparr>ao_effective_mode = ''dry'', ao_armed = False, ao_degrade_reason = Some ''degrade_to_dry'',
            ao_reasons = reasons\<rparr>
      else \<lparr>ao_effective_mode = ''armed'', ao_armed = True, ao_degrade_reason = None, ao_reasons = []\<rparr>)"

definition passed_through :: "string \<Rightarrow> arming_outcome" where
  "passed_through mode =
     \<lparr>ao_effective_mode = mode, ao_armed = False, ao_degrade_reason = None, ao_reasons = []\<rparr>"

definition decide_v32_arming ::
  "string \<Rightarrow> string list option \<Rightarrow> json \<Rightarrow> json \<Rightarrow> bool \<Rightarrow> int \<Rightarrow> day_guard \<Rightarrow> s4_decision option \<Rightarrow>
     arming_outcome" where
  "decide_v32_arming mode falsifier health positions params_verified contracts guard s4 =
     (if mode \<noteq> ''armed'' then passed_through mode
      else outcome_of
        (guard_reasons guard (v32_latched_stop_kind guard) @
         map S5 (v32_arming_check falsifier health params_verified contracts) @
         unclean_reasons (reconcile_positions_clean positions ''KXBTC'') @
         s4_reasons s4))"

record v33_arm_args =
  va_lots_per_rung :: int
  va_k_rungs :: int
  va_rung_lots :: "int list option"
  va_position_prefix :: string
  va_cross_s4_latched :: bool
  va_s1_threshold :: nat

definition decide_v33_arming ::
  "string \<Rightarrow> string list option \<Rightarrow> json \<Rightarrow> json \<Rightarrow> bool \<Rightarrow> day_guard \<Rightarrow> s4_decision option \<Rightarrow>
     v33_arm_args \<Rightarrow> arming_outcome" where
  "decide_v33_arming mode falsifier health positions params_verified guard s4 args =
     (if mode \<noteq> ''armed'' then passed_through mode
      else outcome_of
        (guard_reasons guard (v33_latched_stop_kind guard (va_s1_threshold args)) @
         (if va_cross_s4_latched args then [Sibling_S4] else []) @
         map S5 (v33_arming_check falsifier health params_verified (va_lots_per_rung args)
                   (va_k_rungs args) (va_rung_lots args)) @
         unclean_reasons (reconcile_positions_clean positions (va_position_prefix args)) @
         s4_reasons s4))"

section \<open>What an armed window has\<close>

text \<open>The declarative reading of each gate.\<close>

definition caps_fit :: "json \<Rightarrow> int \<Rightarrow> int \<Rightarrow> int \<Rightarrow> bool" where
  "caps_fit health low high budget \<longleftrightarrow>
     (\<exists>kvs caps m prefixes n. health = JObj kvs \<and> json_truthy (json_field kvs ''orders_enabled'') \<and>
        json_field kvs ''caps'' = JObj caps \<and>
        json_int (json_field caps ''max_contracts_per_order'') = Some m \<and> low \<le> m \<and> m \<le> high \<and>
        json_field caps ''ticker_prefixes'' = JList prefixes \<and>
        (\<forall>probe \<in> {RANGE_TICKER_PROBE, STRIKE_TICKER_PROBE}.
           \<exists>s. JStr s \<in> set prefixes \<and> starts_with s probe) \<and>
        json_int (json_field kvs ''orders_remaining_today'') = Some n \<and> budget \<le> n)"

lemma prefix_covers_iff: "prefix_covers probe ps \<longleftrightarrow> (\<exists>s. JStr s \<in> set ps \<and> starts_with s probe)"
proof (induction ps)
  case (Cons p ps)
  then show ?case by (cases p) (auto simp: prefix_covers_def)
qed (simp add: prefix_covers_def)

lemma caps_disagree_iff: "caps_disagree health low high budget = None \<longleftrightarrow> caps_fit health low high budget"
proof (cases health)
  case (JObj kvs)
  note health = this
  show ?thesis
  proof (cases "json_field kvs ''caps''")
    case (JObj caps)
    note caps = this
    show ?thesis
    proof (cases "json_field caps ''ticker_prefixes''")
      case (JList prefixes)
      then show ?thesis
        by (simp add: caps_disagree_def caps_fit_def health caps prefix_covers_iff not_less split: option.split)
    qed (simp_all add: caps_disagree_def caps_fit_def health caps split: option.split)
  qed (simp_all add: caps_disagree_def caps_fit_def health)
qed (simp_all add: caps_disagree_def caps_fit_def)

definition positions_flat :: "json \<Rightarrow> string \<Rightarrow> bool" where
  "positions_flat positions pre \<longleftrightarrow>
     (\<exists>rows. (positions = JList rows \<or>
         (\<exists>kvs. positions = JObj kvs \<and>
            (json_field kvs ''market_positions'' = JList rows \<or>
             json_field kvs ''market_positions'' = JNull \<and> json_field kvs ''positions'' = JList rows))) \<and>
        (\<forall>r \<in> set rows. \<exists>row. r = JObj row \<and>
           (starts_with pre (row_ticker row) \<longrightarrow> row_size row = Some 0)))"

lemma rows_clean_iff:
  "rows_clean pre rows = None \<longleftrightarrow>
     (\<forall>r \<in> set rows. \<exists>row. r = JObj row \<and> (starts_with pre (row_ticker row) \<longrightarrow> row_size row = Some 0))"
  by (induction pre rows rule: rows_clean.induct) (auto split: option.splits if_splits)

lemma reconcile_positions_clean_iff:
  "reconcile_positions_clean positions pre = None \<longleftrightarrow> positions_flat positions pre"
  by (auto simp: reconcile_positions_clean_def positions_flat_def Let_def rows_clean_iff [symmetric]
      split: json.splits if_splits)

lemma outcome_of_armed: "ao_armed (outcome_of reasons) \<longleftrightarrow> reasons = []"
  by (simp add: outcome_of_def)

lemma s5_reasons_iff:
  "s5_reasons falsifier verified caps = [] \<longleftrightarrow> verified \<and> falsifier_is_frozen falsifier \<and> caps = None"
  by (simp add: s5_reasons_def split: option.split)

lemma s4_reasons_iff: "s4_reasons s4 = [] \<longleftrightarrow> (case s4 of None \<Rightarrow> True | Some d \<Rightarrow> s4_verdict d = S4_Clear)"
  by (simp add: s4_reasons_def split: option.split s4_kind.split)

lemma guard_reasons_iff: "guard_reasons g latched = [] \<longleftrightarrow> \<not> dg_corrupt g \<and> latched = None"
  by (simp add: guard_reasons_def split: option.split)

lemma unclean_reasons_iff: "unclean_reasons u = [] \<longleftrightarrow> u = None"
  by (simp add: unclean_reasons_def split: option.split)

lemma latched_stop_kind_iff:
  "v33_latched_stop_kind g thr = None \<longleftrightarrow> \<not> guard_has_s4_latch g \<and> count_legged g < thr"
  "v32_latched_stop_kind g = None \<longleftrightarrow> \<not> guard_has_s4_latch g \<and> count_legged g < V32_S1_LEGGED_LATCH_THRESHOLD"
  by (auto simp: v33_latched_stop_kind_def v32_latched_stop_kind_def guard_has_s4_latch_def)

lemmas arming_iffs = outcome_of_armed s5_reasons_iff s4_reasons_iff guard_reasons_iff unclean_reasons_iff
  latched_stop_kind_iff caps_disagree_iff reconcile_positions_clean_iff

lemma decide_v33_arming_iff:
  "ao_armed (decide_v33_arming mode falsifier health positions verified g s4 args) \<longleftrightarrow>
     mode = ''armed'' \<and> \<not> dg_corrupt g \<and> \<not> guard_has_s4_latch g \<and>
     count_legged g < va_s1_threshold args \<and> \<not> va_cross_s4_latched args \<and>
     verified \<and> falsifier_is_frozen falsifier \<and>
     caps_fit health (fst (v33_cap_band (va_lots_per_rung args) (va_k_rungs args) (va_rung_lots args)))
       (snd (v33_cap_band (va_lots_per_rung args) (va_k_rungs args) (va_rung_lots args)))
       V33_MIN_ORDER_BUDGET_AT_ARM \<and>
     positions_flat positions (va_position_prefix args) \<and>
     (case s4 of None \<Rightarrow> True | Some d \<Rightarrow> s4_verdict d = S4_Clear)"
  by (auto simp: decide_v33_arming_def passed_through_def arming_iffs v33_arming_check_def
      v33_caps_agree_def case_prod_beta)

lemma decide_v32_arming_iff:
  "ao_armed (decide_v32_arming mode falsifier health positions verified contracts g s4) \<longleftrightarrow>
     mode = ''armed'' \<and> \<not> dg_corrupt g \<and> \<not> guard_has_s4_latch g \<and>
     count_legged g < V32_S1_LEGGED_LATCH_THRESHOLD \<and> verified \<and> falsifier_is_frozen falsifier \<and>
     caps_fit health contracts V32_MAX_CONTRACTS_PER_ORDER V32_MIN_ORDER_BUDGET_AT_ARM \<and>
     positions_flat positions ''KXBTC'' \<and>
     (case s4 of None \<Rightarrow> True | Some d \<Rightarrow> s4_verdict d = S4_Clear)"
  by (auto simp: decide_v32_arming_def passed_through_def arming_iffs v32_arming_check_def v32_caps_agree_def)

text \<open>
  One recorded occurrence turns a guard the day refused on as corrupt into one it arms on: the
  file is rewritten with the occurrence alone, below either roster's threshold.
\<close>

lemma legged_occurrence_heals_corrupt_guard:
  assumes "dg_corrupt (read_day_guard f day)"
  shows "\<not> dg_corrupt (read_day_guard (fst (record_legged_occurrence f day w reason ts)) day)"
    and "v32_latched_stop_kind (read_day_guard (fst (record_legged_occurrence f day w reason ts)) day) = None"
    and "balance_start (read_day_guard (fst (record_legged_occurrence f day w reason ts)) day) = None"
  using read_record_latched_stop [of f day S1_LEGGED reason w ts] assms
  by (simp_all add: record_legged_occurrence_def Let_def latched_stop_kind_iff guard_has_s4_latch_def
      count_legged_def latch_entry_def json_field_def S1_LEGGED_def S4_DAILY_LOSS_def
      V32_S1_LEGGED_LATCH_THRESHOLD_def)

end
