(* ===== verification/Risk_Example.thy ===== *)
theory Risk_Example
  imports Rebalance Arming Service_Example
begin

text \<open>
  Worked instances of the executor, the imbalance loop, the stops and the arming gate: an armed
  executor against a venue that answers every POST with an empty JSON body, a session with one leg
  filled, a stop on it, a guard file, and a window every gate of which passes.
\<close>

section \<open>An armed executor\<close>

definition ex_armed :: executor_config where
  "ex_armed = default_executor_config\<lparr>xg_armed := True\<rparr>"

definition ex_venue :: venue where
  "ex_venue n path orders = Reply (Some 200) (Some (JObj []))"

definition ex_order :: intent where
  "ex_order = ex_intent SUB_DOLLAR_FLIP
     \<lparr>in_legs := [(ex_leg ''KXBTCD-A'' ''no'' (2/5) ''c1''), (ex_leg ''KXBTC15M-B'' ''yes'' (54/100) ''c2'')]\<rparr>"

lemma build_entry_ok:
  "il_side leg = ''yes'' \<or> il_side leg = ''no'' \<Longrightarrow> il_action leg = ''buy'' \<or> il_action leg = ''sell'' \<Longrightarrow>
     \<exists>v. build_entry leg = Inr v"
  by (auto simp: build_entry_def to_v2_order_def yes_level_def wire_price_def or_default_def Let_def
      bind_r_Inr_iff)

lemma ex_order_builds: "\<exists>orders. map_r build_entry (in_legs ex_order) = Inr orders"
proof -
  obtain a b where "build_entry (ex_leg ''KXBTCD-A'' ''no'' (2/5) ''c1'') = Inr a"
    "build_entry (ex_leg ''KXBTC15M-B'' ''yes'' (54/100) ''c2'') = Inr b"
    using build_entry_ok [of "ex_leg ''KXBTCD-A'' ''no'' (2/5) ''c1''"]
      build_entry_ok [of "ex_leg ''KXBTC15M-B'' ''yes'' (54/100) ''c2''"]
    by (auto simp: ex_leg_def)
  then show ?thesis by (simp add: ex_order_def ex_intent_def)
qed

lemma ex_order_accepted: "refusal_of (new_executor ex_armed) ex_order (Some 499) False = None"
  by (simp add: refusal_of_def ex_order_def ex_intent_def ex_leg_def ex_armed_def new_executor_def
      default_executor_config_def unrouted_def flight_keys_def tokens_used_def intent_tokens_def
      dict_get_default_def starts_with_def PURPOSE_ENTRY_def)

lemma execute_posts:
  "refusal_of x i (event_t_minus i t) sa = None \<Longrightarrow> map_r build_entry (in_legs i) = Inr orders \<Longrightarrow>
     snd (snd (execute post x i t sa)) = [\<lparr>pc_intent = i, pc_path = create_path i, pc_orders = orders\<rparr>]"
  by (simp add: execute_def event_t_minus_def dispatch_def case_prod_beta Let_def)

lemma ex_order_posted:
  "\<exists>call. pc_intent call = ex_order \<and>
     call \<in> set (snd (run_core (executor_step ex_venue) (new_executor ex_armed) [Execute ex_order None False]))"
proof -
  have acc: "refusal_of (new_executor ex_armed) ex_order (event_t_minus ex_order None) False = None"
    using ex_order_accepted by (simp add: event_t_minus_def ex_order_def ex_intent_def)
  obtain orders where "map_r build_entry (in_legs ex_order) = Inr orders" using ex_order_builds ..
  from execute_posts [OF acc this, of ex_venue] show ?thesis
    by (auto simp: run_core_Cons case_prod_beta simp del: run_core.simps(2))
qed

lemma ex_venue_parses: "replies_parse ex_venue"
  by (simp add: replies_parse_def ex_venue_def)

section \<open>One leg filled\<close>

definition ex_half :: ledger_state where
  "ex_half = foldl apply_op (new_ledger ''W'' SUB_DOLLAR_FLIP ''H'' ''L'')
     [Op_Intent (ex_intent SUB_DOLLAR_FLIP), Op_Response (ex_response ''c1'' (2/5) (3/5))]"

definition ex_quotes :: rebalance_quotes where
  "ex_quotes = \<lparr>rq_high_buy = None, rq_high_sell = None, rq_low_buy = Some (27/50), rq_low_sell = None\<rparr>"

definition ex_retry :: order_proposal where
  "ex_retry = \<lparr>op_which = Low, op_ticker = ''L'', op_side = ''yes'', op_count = 1, op_limit_price = 27/50\<rparr>"

definition ex_retry_response :: order_response where
  "ex_retry_response = (ex_response ''c3'' (27/50) (27/50))\<lparr>or_average_fee_paid := Some (174/10000)\<rparr>"

lemma ex_half_state:
  "ls_source ex_half = SUB_DOLLAR_FLIP" "ls_window ex_half = ''W''"
  "ls_high_ticker ex_half = ''H''" "ls_low_ticker ex_half = ''L''"
  "ls_high_side ex_half = Some ''no''" "ls_low_side ex_half = Some ''yes''"
  "ls_intents ex_half = [ex_intent SUB_DOLLAR_FLIP]"
  "position ex_half High = Some ((new_position ''H'' ''no'')
     \<lparr>lp_bought := 1, lp_bought_notional := 2/5, lp_buy_fees := 1/50\<rparr>)"
  "position ex_half Low = None"
  by (simp_all add: ex_half_def ex_intent_def ex_leg_def ex_response_def new_ledger_def
      record_intent_def record_response_def real_cid_def fee_of_def fold_fill_def FEE_IS_TOTAL_def
      dict_get_default_def new_position_def position_def PURPOSE_ENTRY_def Let_def)

lemma ex_half_nets: "net ex_half High = 1" "net ex_half Low = 0" "pair_net_cash_out ex_half = 42/100"
  by (simp_all add: net_def pair_net_cash_out_def leg_cash_out_def ex_half_state lp_net_def
      lp_net_cash_out_def lp_bought_cost_def lp_sold_proceeds_def new_position_def)

lemma ex_half_ok: "ledger_ok ex_half"
  unfolding ex_half_def by (rule ledger_ok_run [OF ledger_ok_new])

lemma ex_half_whole: "whole_net ex_half High" "whole_net ex_half Low"
  by (simp_all add: whole_net_def ex_half_nets)

lemma ex_half_no_retries: "retries_for_side ex_half tk PURPOSE_REBALANCE_BUY = 0"
  by (simp add: retries_for_side_def ex_half_state ex_intent_def)

lemma ex_half_retry:
  "propose_rebalance ex_half ex_policy 100 ex_quotes 1 = Retry_Buy ex_retry (42/100) (5574/10000) 1 1"
proof -
  have "detect_imbalance ex_half = Some \<lparr>im_high_net = 1, im_low_net = 0, im_matched = 0,
    im_deficient = Low, im_overfilled = High, im_deficit = 1\<rparr>"
    by (simp add: detect_imbalance_def ex_half_nets)
  then show ?thesis
    by (simp add: propose_rebalance_def propose_buy_def ex_policy_def ex_half_state ex_half_nets
        ex_half_no_retries ex_quotes_def projected_retry_def target_pairs_def ex_fee ex_retry_def
        or_default_def py_trunc_def Let_def)
qed

section \<open>A stop on it\<close>

definition ex_controller :: stop_controller where
  "ex_controller = new_stop_controller (new_executor ex_armed) default_stop_config
     (Some ''2026-01-01'') Missing None"

definition ex_mint :: "nat \<Rightarrow> string" where
  "ex_mint n = ''f'' @ show_nat n"

definition ex_run :: window_run where
  "ex_run = \<lparr>wr_ledger = ex_half, wr_stops = ex_controller\<rparr>"

definition ex_env :: rebalance_env where
  "ex_env = \<lparr>re_post = ex_venue, re_mint = ex_mint, re_ts = 0, re_policy = ex_policy, re_shards = [],
     re_close_time = ''W'', re_show = (\<lambda>_. [])\<rparr>"

definition ex_tick :: rebalance_tick where
  "ex_tick = \<lparr>rt_t_minus = 100, rt_tops = (\<lambda>_. Some (ex_top (52/100) (54/100))), rt_fair_q = None\<rparr>"

section \<open>A window every gate of which passes\<close>

definition ex_health :: json where
  "ex_health = JObj [(''orders_enabled'', JBool True), (''orders_remaining_today'', JInt 900),
     (''caps'', JObj [(''max_contracts_per_order'', JInt 2),
        (''ticker_prefixes'', JList [JStr ''KXBTC15M'', JStr ''KXBTC-'', JStr ''KXBTCD''])])]"

definition ex_guard :: guard_file where
  "ex_guard = fst (ensure_balance_start Missing ''2026-01-01'' 50)"

end
