(* ===== verification/Risk_Properties.thy ===== *)
theory Risk_Properties
  imports Risk_Example
begin

text \<open>
  The properties of the order dispatcher, the imbalance protocol, the stops and the arming gates,
  each with a worked instance where it has hypotheses.
\<close>

section \<open>The executor\<close>

text \<open>
  C27. Every POST is guarded. In any run of a new executor against any venue, every POST comes
  from an \<open>execute\<close> call that was armed (or a stop-authorized flatten), whose every leg has a
  count between one and the cap, an allowed ticker and a shard, before the order cutoff, for a
  window not entered yet when it is an entry, within the window's token budget, with the intent
  journaled first and exactly the built legs on the wire.
\<close>

theorem executor_posts_guarded:
  assumes "c \<in> set (snd (run_core (executor_step post) (new_executor cfg) es))"
  shows "\<exists>pre e suf. es = pre @ e # suf \<and>
    post_guard cfg (fst (run_core (executor_step post) (new_executor cfg) pre)) e
      (fst (executor_step post (fst (run_core (executor_step post) (new_executor cfg) pre)) e)) c"
  using executor_core.run_guard [OF executor_ok_new assms] by blast

lemma executor_posts_guarded_witness:
  "\<exists>c pre e suf. pc_intent c = ex_order \<and> [Execute ex_order None False] = pre @ e # suf \<and>
    post_guard ex_armed (fst (run_core (executor_step ex_venue) (new_executor ex_armed) pre)) e
      (fst (executor_step ex_venue (fst (run_core (executor_step ex_venue) (new_executor ex_armed) pre)) e)) c"
proof -
  obtain c where c: "pc_intent c = ex_order"
    "c \<in> set (snd (run_core (executor_step ex_venue) (new_executor ex_armed) [Execute ex_order None False]))"
    using ex_order_posted by blast
  from executor_posts_guarded [OF c(2)] c(1) show ?thesis by blast
qed

text \<open>
  C28. At most one entry per window. Against a venue whose every 2xx body is JSON, no run of a new
  executor POSTs two entries for one window.
\<close>

theorem executor_one_entry_per_window:
  assumes "replies_parse post"
  shows "length (filter (entry_post w) (snd (run_core (executor_step post) (new_executor cfg) es))) \<le> 1"
  using executor_entry.run_fires_at_most_once assms executor_ok_new by blast

lemma executor_one_entry_per_window_witness:
  "length (filter (entry_post ''W'') (snd (run_core (executor_step ex_venue) (new_executor ex_armed)
     [Execute ex_order None False, Execute ex_order None False]))) \<le> 1"
  by (rule executor_one_entry_per_window [OF ex_venue_parses])

text \<open>
  Without that, the dedup fails: \<open>resp.json()\<close> raises on a 2xx body that is not JSON, the
  exception leaves \<open>execute\<close> before the window is noted, and a second entry is POSTed.
\<close>

definition ex_html_venue :: venue where
  "ex_html_venue n path orders = Reply (Some 200) None"

lemma executor_enters_twice_without_json:
  "length (filter (entry_post ''W'') (snd (run_core (executor_step ex_html_venue) (new_executor ex_armed)
     [Execute ex_order None False, Execute ex_order None False]))) = 2"
proof -
  obtain orders where orders: "map_r build_entry (in_legs ex_order) = Inr orders" using ex_order_builds ..
  define x1 where "x1 = fst (execute ex_html_venue (new_executor ex_armed) ex_order None False)"
  have acc: "refusal_of (new_executor ex_armed) ex_order (event_t_minus ex_order None) False = None"
    using ex_order_accepted by (simp add: event_t_minus_def ex_order_def ex_intent_def)
  have d: "dispatch ex_html_venue y ex_order =
      (y\<lparr>xc_posts := xc_posts y + 1\<rparr>, Inl Body_Not_Json,
       [\<lparr>pc_intent = ex_order, pc_path = create_path ex_order, pc_orders = orders\<rparr>])" for y :: executor
    by (simp add: dispatch_def orders ex_html_venue_def http_error_def)
  have "x1 = release ((reserve (new_executor ex_armed) ex_order)\<lparr>xc_posts :=
      xc_posts (reserve (new_executor ex_armed) ex_order) + 1\<rparr>) ex_order"
    using acc by (simp add: x1_def execute_def event_t_minus_def d)
  then have "refusal_of x1 ex_order (event_t_minus ex_order None) False = None"
    by (simp add: refusal_of_def event_t_minus_def release_def reserve_def journal_intent_def ex_order_def
        ex_intent_def ex_leg_def ex_armed_def new_executor_def default_executor_config_def unrouted_def
        flight_keys_def tokens_used_def intent_tokens_def dict_get_default_def starts_with_def PURPOSE_ENTRY_def)
  from execute_posts [OF acc orders, of ex_html_venue] execute_posts [OF this orders, of ex_html_venue]
  show ?thesis
    by (simp add: run_core_Cons case_prod_beta x1_def entry_post_def del: run_core.simps(2))
      (simp add: ex_order_def ex_intent_def)
qed

text \<open>
  The rate budget holds. In any run of a new executor the tokens of the legs POSTed for a
  window, the configured number per leg, never exceed the window's budget.
\<close>

theorem executor_budget_holds:
  assumes "0 \<le> xg_tokens_per_entry cfg" and "0 \<le> xg_window_token_budget cfg"
  shows "posted_tokens cfg w (snd (run_core (executor_step post) (new_executor cfg) es))
    \<le> xg_window_token_budget cfg"
proof -
  have "tokens_used (new_executor cfg) w = 0"
    by (simp add: tokens_used_def new_executor_def dict_get_default_def)
  with executor_run_tokens [OF executor_ok_new assms(1), of w post es] assms(2) show ?thesis by simp
qed

lemma executor_budget_holds_witness:
  "posted_tokens ex_armed ''W'' (snd (run_core (executor_step ex_venue) (new_executor ex_armed)
     [Execute ex_order None False])) \<le> 200"
  using executor_budget_holds [of ex_armed "''W''" ex_venue "[Execute ex_order None False]"]
  by (simp add: ex_armed_def default_executor_config_def)

section \<open>The imbalance protocol\<close>

text \<open>
  A filled retry-buy completes the pair under its ceiling. When the protocol proposes a
  retry-buy for a pair of whole counts on two tickers and the order fills in full, at no more than
  its limit and with no more than the fee of its limit per contract, the pair is balanced at the
  larger leg's count and its cash out, fees in, is at most the ceiling per matched pair.
\<close>

theorem rebalance_buy_completes_pair:
  assumes "propose_rebalance st params t q cap = Retry_Buy p cost proj tot k"
    and "ls_high_ticker st \<noteq> ls_low_ticker st" and "leg_key st (op_which p) \<noteq> None"
    and "whole_net st High" and "whole_net st Low"
    and "st' = record_response (record_intent st (rebalance_intent st p True cid xi close t)) r"
    and "real_cid r = Some cid" and "or_average_fill_price r = Some price"
    and "or_fill_count r = of_int (op_count p)"
    and "price \<le> op_limit_price p" and "fee_of r \<le> or_fill_count r * fee (op_limit_price p)"
  shows "is_balanced st' \<and> matched_pairs st' = max (net st High) (net st Low) \<and>
    pair_net_cash_out st' \<le> cap * matched_pairs st'"
  using retry_buy_balances [OF assms] by blast

lemma rebalance_buy_completes_pair_witness:
  "\<exists>st'. st' = record_response (record_intent ex_half
        (rebalance_intent ex_half ex_retry True ''c3'' (Some 3) ''W'' 100)) ex_retry_response \<and>
     is_balanced st' \<and> matched_pairs st' = 1 \<and> pair_net_cash_out st' \<le> 1"
proof -
  define st' where "st' = record_response (record_intent ex_half
      (rebalance_intent ex_half ex_retry True ''c3'' (Some 3) ''W'' 100)) ex_retry_response"
  have "is_balanced st' \<and> matched_pairs st' = max (net ex_half High) (net ex_half Low) \<and>
      pair_net_cash_out st' \<le> 1 * matched_pairs st'"
    by (rule rebalance_buy_completes_pair [OF ex_half_retry _ _ ex_half_whole st'_def, where price = "27/50"])
      (simp_all add: ex_half_state ex_retry_def ex_retry_response_def ex_response_def real_cid_def
        fee_of_def FEE_IS_TOTAL_def ex_fee)
  then show ?thesis unfolding st'_def by (simp add: ex_half_nets)
qed

text \<open>
  C31. The rounds are bounded. However often the imbalance loop of a window runs, on any books,
  clocks and venue replies, it records at most four times \<open>max_retries_per_side\<close> rebalance orders
  in all; and where that is less than the step cap of one run, a run always ends by balance, ride,
  give-up or fault, never by the cap.
\<close>

definition rebalance_run :: "rebalance_env \<Rightarrow> window_run \<Rightarrow> rebalance_tick list \<Rightarrow> window_run" where
  "rebalance_run env = foldl (\<lambda>w tick. fst (maybe_rebalance env tick w))"

lemma rebalance_run_ok:
  "rebalance_ok (nat (ib_max_retries_per_side (pp_imbalance (re_policy env)))) (wr_ledger w) \<Longrightarrow>
     rebalance_ok (nat (ib_max_retries_per_side (pp_imbalance (re_policy env))))
       (wr_ledger (rebalance_run env w ticks))"
proof (induction ticks arbitrary: w)
  case (Cons tick ticks)
  obtain w1 fin calls where r: "maybe_rebalance env tick w = (w1, fin, calls)"
    by (metis prod_cases3)
  from rebalance_loop_counts [OF r [unfolded maybe_rebalance_def] Cons.prems] Cons.IH [of w1] r
  show ?case by (simp add: rebalance_run_def)
qed (simp add: rebalance_run_def)

lemma no_rebalance_ok:
  assumes "list_all (\<lambda>i. in_purpose i \<notin> rebalance_purposes) (ls_intents st)"
  shows "rebalance_ok b st"
proof -
  have "retries_for_side st tk purpose = 0" if "purpose \<in> rebalance_purposes" for tk purpose
    using assms that by (auto simp: retries_for_side_def list_all_iff filter_empty_conv)
  with assms show ?thesis by (auto simp: rebalance_ok_def list_all_iff)
qed

theorem rebalance_rounds_bounded:
  assumes "list_all (\<lambda>i. in_purpose i \<notin> rebalance_purposes) (ls_intents (wr_ledger w))"
    and "b = nat (ib_max_retries_per_side (pp_imbalance (re_policy env)))"
  shows "rebalance_orders (wr_ledger (rebalance_run env w ticks)) \<le> 4 * b \<and>
    (4 * b < MAX_REBALANCE_STEPS \<longrightarrow>
       fst (snd (maybe_rebalance env tick (rebalance_run env w ticks))) \<noteq> Ended_Steps)"
proof -
  let ?w = "rebalance_run env w ticks"
  have ok: "rebalance_ok (nat (ib_max_retries_per_side (pp_imbalance (re_policy env)))) (wr_ledger ?w)"
    by (rule rebalance_run_ok [OF no_rebalance_ok [OF assms(1)]])
  obtain w1 fin calls where r: "maybe_rebalance env tick ?w = (w1, fin, calls)"
    by (metis prod_cases3)
  note next_run = rebalance_loop_counts [OF r [unfolded maybe_rebalance_def] ok]
  have "rebalance_orders (wr_ledger w1) \<le> 4 * b"
    using next_run by (auto simp: assms(2) intro: rebalance_orders_le)
  with next_run rebalance_orders_le [OF ok] r show ?thesis
    by (auto simp: assms(2))
qed

lemma rebalance_rounds_bounded_witness:
  "rebalance_orders (wr_ledger (rebalance_run ex_env ex_run [ex_tick, ex_tick])) \<le> 4 \<and>
    fst (snd (maybe_rebalance ex_env ex_tick (rebalance_run ex_env ex_run [ex_tick, ex_tick]))) \<noteq> Ended_Steps"
  using rebalance_rounds_bounded [of ex_run 1 ex_env "[ex_tick, ex_tick]" ex_tick]
  by (simp add: ex_run_def ex_half_state ex_intent_def rebalance_purposes_def ex_env_def ex_policy_def
      MAX_REBALANCE_STEPS_def)

text \<open>
  C32. The positions poll is exact. For a well-formed ledger a poll raises S3 exactly when some
  ticker's reported position differs from the ledger's signed exposure (held YES counts positive,
  held NO counts negative), and the mismatches it lists are exactly those tickers, sorted, each once.
\<close>

theorem reconcile_tick_exact:
  assumes "ledger_ok st"
  shows "(rr_stop (reconcile_tick st body) = None \<longleftrightarrow>
      (\<forall>t. dict_get_default (parse_positions_response body) t 0 = signed_exposure st t)) \<and>
    set (rr_mismatches (reconcile_tick st body)) =
      {t. dict_get_default (parse_positions_response body) t 0 \<noteq> signed_exposure st t} \<and>
    sorted (rr_mismatches (reconcile_tick st body)) \<and> distinct (rr_mismatches (reconcile_tick st body))"
proof -
  let ?m = "diff_positions (expected_positions st) (parse_positions_response body)"
  have m: "set ?m = {t. dict_get_default (parse_positions_response body) t 0 \<noteq> signed_exposure st t}"
    by (auto simp: set_diff_positions expected_positions_get [OF assms])
  moreover have "?m = [] \<longleftrightarrow> set ?m = {}" by simp
  ultimately show ?thesis
    by (simp add: reconcile_tick_def Let_def diff_positions_sorted)
qed

lemma reconcile_tick_exact_witness:
  "rr_stop (reconcile_tick ex_half (JObj [(''market_positions'', JList [])])) = Some ''S3''"
proof -
  have "\<not> (rr_stop (reconcile_tick ex_half (JObj [(''market_positions'', JList [])])) = None)"
    using reconcile_tick_exact [OF ex_half_ok, of "JObj [(''market_positions'', JList [])]"]
    by (auto simp: parse_positions_response_def position_rows_def json_field_def dict_get_default_def
        signed_exposure_def signed_net_def ex_half_state new_position_def lp_net_def intro!: exI [of _ "''H''"])
  then show ?thesis by (auto simp: reconcile_tick_def Let_def split: if_splits)
qed

section \<open>The stops\<close>

text \<open>
  C33. A trip freezes and only reduces. A trip leaves the stop latched, the executor disarmed and,
  for a day-halting stop, the day's guard refusing to arm; until something arms the executor again
  it POSTs nothing but stop-authorized flattens. Every POST of the trip itself is one reduce-only
  sell of a held leg, at the observed bid, of exactly its unprotected whole lots.
\<close>

definition flatten_of_leg ::
  "ledger_state \<Rightarrow> stop_config \<Rightarrow> (ticker, money) dict \<Rightarrow> leg_position \<Rightarrow> intent \<Rightarrow> bool" where
  "flatten_of_leg st cfg bids p i \<longleftrightarrow>
     in_purpose i = PURPOSE_FLATTEN \<and> 0 < lp_net p - protected_lots st cfg p \<and>
     (\<exists>bid cid xi. map_of bids (lp_ticker p) = Some bid \<and>
        in_legs i = [\<lparr>il_ticker = lp_ticker p, il_side = lp_side p, il_action = ''sell'',
          il_count = py_trunc (lp_net p - protected_lots st cfg p), il_limit_price = bid,
          il_client_order_id = cid, il_reduce_only = Some True, il_exchange_index = Some xi\<rparr>])"

lemma flatten_call_leg:
  assumes "flatten_call st bids (position_policy st cfg) call"
  shows "\<exists>w p. position st w = Some p \<and> flatten_of_leg st cfg bids p (pc_intent call)"
proof -
  from assms obtain act bid cid xi where a: "act \<in> set (position_policy st cfg)" "pa_flatten act"
    "map_of bids (pa_ticker act) = Some bid"
    "pc_intent call = build_flatten_intent act (ls_window st) (ls_source st) bid cid (Some xi)"
    unfolding flatten_call_def by blast
  obtain w p where "position st w = Some p" "pa_ticker act = lp_ticker p" "pa_side act = lp_side p"
    "pa_count act = py_trunc (lp_net p - protected_lots st cfg p)"
    "0 < lp_net p - protected_lots st cfg p"
    using position_policy_flattens [OF a(1,2)] by metis
  with a(3,4) show ?thesis by (auto simp: flatten_of_leg_def build_flatten_intent_def)
qed

lemma frozen_run_flattens:
  assumes "executor_ok cfg x" and "\<not> xg_armed (xc_cfg x)" and "Set_Armed True \<notin> set es"
  shows "list_all (\<lambda>call. in_purpose (pc_intent call) = PURPOSE_FLATTEN) (snd (run_core (executor_step post) x es))"
  using assms
proof (induction es arbitrary: x)
  case (Cons e es)
  have "\<not> xg_armed (xc_cfg (fst (executor_step post x e)))"
  proof (cases e)
    case (Execute i t sa)
    with Cons.prems(2) show ?thesis
      using execute_armed [of post x i t sa] by (simp add: case_prod_beta)
  next
    case (Set_Armed b)
    with Cons.prems(3) show ?thesis by (auto simp: set_armed_def)
  qed
  moreover have "in_purpose (pc_intent call) = PURPOSE_FLATTEN" if "call \<in> set (snd (executor_step post x e))" for call
    using executor_step_guard [OF Cons.prems(1) that] Cons.prems(2)
    by (auto simp: post_guard_def split: if_splits)
  ultimately show ?case
    using Cons.IH [OF executor_step_ok [OF Cons.prems(1), of post e]] Cons.prems(3)
    by (auto simp: run_core_Cons list_all_iff simp del: run_core.simps(2))
qed simp

lemma trip_ends:
  assumes "executor_ok cfg (sc_executor c)"
    and "trip post mint ts c stop reason ledger bids detail xi = (c1, res, calls)"
  shows "has_stop (sc_state c1) stop" "\<not> xg_armed (xc_cfg (sc_executor c1))" "executor_ok cfg (sc_executor c1)"
    and "sc_utc_day c = Some day \<Longrightarrow> stop \<in> set DAY_HALTING_STOPS \<Longrightarrow> guard_refuses (sc_guard c1) day"
    and "\<forall>call \<in> set calls. \<exists>st w p. ledger = Some st \<and> position st w = Some p \<and>
           flatten_of_leg st (sc_config c) bids p (pc_intent call)"
proof -
  let ?c0 = "freeze c stop reason detail (map_option ls_window ledger) ts"
  note fz = freeze_facts [where c = c and stop = stop and reason = reason and detail = detail
      and w = "map_option ls_window ledger" and ts = ts]
  have ok0: "executor_ok cfg (sc_executor ?c0)"
  proof -
    from assms(1) have "xc_cfg (sc_executor c) = cfg\<lparr>xg_armed := xg_armed (xc_cfg (sc_executor c))\<rparr>"
      by (simp add: executor_ok_def)
    then have "(xc_cfg (sc_executor c))\<lparr>xg_armed := False\<rparr> = cfg\<lparr>xg_armed := False\<rparr>"
      by (metis executor_config.surjective executor_config.update_convs(1))
    with assms(1) show ?thesis by (simp add: executor_ok_def fz(4,5))
  qed
  define policy where "policy = (case ledger of None \<Rightarrow> [] | Some st \<Rightarrow> position_policy st (sc_config ?c0))"
  define st where "st = (case ledger of None \<Rightarrow> new_ledger [] [] [] [] | Some st \<Rightarrow> st)"
  obtain c2 fault calls2 where d: "dispatch_actions post mint st bids xi ?c0 policy = (c2, fault, calls2)"
    by (metis prod_cases3)
  note f = dispatch_actions_facts [OF ok0 d]
  have eq: "c1 = c2" "calls = calls2"
    using assms(2) d by (auto simp: trip_def Let_def policy_def st_def split: option.splits)
  have "ss_tripped (sc_state c1) = ss_tripped (apply_stop (sc_state c) stop reason detail)"
    using f by (simp add: eq fz(1))
  then show "has_stop (sc_state c1) stop" using apply_stop_has(1) by (simp add: has_stop_def)
  show "\<not> xg_armed (xc_cfg (sc_executor c1))" "executor_ok cfg (sc_executor c1)"
    using f by (simp_all add: eq fz(4))
  show "guard_refuses (sc_guard c1) day" if "sc_utc_day c = Some day" "stop \<in> set DAY_HALTING_STOPS"
    using f fz(6) [OF that] by (simp add: eq)
  show "\<forall>call \<in> set calls. \<exists>st w p. ledger = Some st \<and> position st w = Some p \<and>
      flatten_of_leg st (sc_config c) bids p (pc_intent call)"
  proof
    fix call assume "call \<in> set calls"
    with f have "flatten_call st bids policy call" by (simp add: eq)
    moreover from this obtain st1 where "ledger = Some st1" by (cases ledger) (auto simp: flatten_call_def policy_def)
    ultimately show "\<exists>st w p. ledger = Some st \<and> position st w = Some p \<and>
        flatten_of_leg st (sc_config c) bids p (pc_intent call)"
      using flatten_call_leg [of st1 bids "sc_config c" call] by (simp add: policy_def st_def freeze_facts(2))
  qed
qed

theorem stop_trip_freezes:
  assumes "executor_ok cfg (sc_executor c)"
    and "trip post mint ts c stop reason ledger bids detail xi = (c1, res, calls)"
  shows "has_stop (sc_state c1) stop \<and> \<not> xg_armed (xc_cfg (sc_executor c1)) \<and>
    (sc_utc_day c = Some day \<and> stop \<in> set DAY_HALTING_STOPS \<longrightarrow> guard_refuses (sc_guard c1) day) \<and>
    (\<forall>call \<in> set calls. \<exists>st w p. ledger = Some st \<and> position st w = Some p \<and>
       flatten_of_leg st (sc_config c) bids p (pc_intent call)) \<and>
    (Set_Armed True \<notin> set es \<longrightarrow>
       list_all (\<lambda>call. in_purpose (pc_intent call) = PURPOSE_FLATTEN)
         (snd (run_core (executor_step post) (sc_executor c1) es)))"
proof (intro conjI impI)
  assume "Set_Armed True \<notin> set es"
  then show "list_all (\<lambda>call. in_purpose (pc_intent call) = PURPOSE_FLATTEN)
      (snd (run_core (executor_step post) (sc_executor c1) es))"
    by (rule frozen_run_flattens [OF trip_ends(3,2) [OF assms]])
qed (use trip_ends [OF assms] in blast)+

lemma stop_trip_freezes_witness:
  "\<exists>c1 res calls. trip ex_venue ex_mint 0 ex_controller S1_ARITH ''r'' (Some ex_half) [(''H'', 1/2)] [] []
      = (c1, res, calls) \<and> has_stop (sc_state c1) S1_ARITH \<and> \<not> xg_armed (xc_cfg (sc_executor c1)) \<and>
    guard_refuses (sc_guard c1) ''2026-01-01'' \<and>
    list_all (\<lambda>call. in_purpose (pc_intent call) = PURPOSE_FLATTEN)
      (snd (run_core (executor_step ex_venue) (sc_executor c1) [Execute ex_order None False]))"
proof -
  obtain c1 res calls where t: "trip ex_venue ex_mint 0 ex_controller S1_ARITH ''r'' (Some ex_half)
      [(''H'', 1/2)] [] [] = (c1, res, calls)" by (metis prod_cases3)
  have "executor_ok ex_armed (sc_executor ex_controller)"
    by (simp add: ex_controller_def new_stop_controller_def executor_ok_new)
  from stop_trip_freezes [OF this t, of "''2026-01-01''" "[Execute ex_order None False]"] t show ?thesis
    by (auto simp: ex_controller_def new_stop_controller_def DAY_HALTING_STOPS_def)
qed

text \<open>
  C34. A latched day stays latched. Whatever sequence of stop latches (day-halting or not) and
  baseline snapshots the day's processes write: a readable guard file with a day-halting stop
  latched keeps refusing to arm, and so does any file, corrupt or not, once the sequence latches a
  day-halting stop; a corrupt file keeps refusing while no stop of another kind is latched on it
  (a one-legged occurrence recorded on a corrupt file rewrites it clean, the one excluded case); and
  a baseline once stored in a readable file is the one every later process reads.
\<close>

theorem guard_latch_persists:
  assumes "list_ex halting_latch ops \<or>
    guard_refuses f day \<and> (\<not> dg_corrupt (read_day_guard f day) \<or> list_all halting_op ops)"
  shows "guard_refuses (foldl (guard_step day) f ops) day \<and>
    (\<not> dg_corrupt (read_day_guard f day) \<and> balance_start (read_day_guard f day) = Some b \<longrightarrow>
       balance_start (read_day_guard (foldl (guard_step day) f ops) day) = Some b)"
proof -
  from assms consider (latched) "day_latched f day \<or> list_ex halting_latch ops"
    | (corrupt) "guard_refuses f day" "list_all halting_op ops"
    by (auto simp: day_latched_def guard_refuses_def)
  then have "guard_refuses (foldl (guard_step day) f ops) day"
  proof cases
    case latched
    then show ?thesis by (intro day_latched_refuses guard_run_latched)
  next
    case corrupt
    then show ?thesis by (intro guard_run_refuses)
  qed
  with guard_run_baseline show ?thesis by blast
qed

lemma guard_latch_persists_witness:
  "guard_refuses (foldl (guard_step ''2026-01-01'') Missing
     [Ensure_Start 50, Latch_Stop S4_DAILY_LOSS ''r'' None 0, Latch_Stop S1_LEGGED ''l'' None 1,
      Ensure_Start 40]) ''2026-01-01''"
  using guard_latch_persists [of "[Ensure_Start 50, Latch_Stop S4_DAILY_LOSS ''r'' None 0,
      Latch_Stop S1_LEGGED ''l'' None 1, Ensure_Start 40]" Missing "''2026-01-01''" 0]
  by (simp add: DAY_HALTING_STOPS_def)

text \<open>
  The daily-loss band is exact. With a non-negative pending credit the verdict is latch
  exactly when the cap is breached whatever part of the credit arrives, clear exactly when it is
  breached for none, and pending exactly when it depends.
\<close>

theorem s4_band_exact:
  assumes "0 \<le> pending_value"
  shows "(s4_verdict (s4_balance_decision start now pending_value cap) = S4_Latch \<longleftrightarrow>
      (\<forall>v. 0 \<le> v \<and> v \<le> pending_value \<longrightarrow> fst (s4_balance_breached start (now + v) cap))) \<and>
    (s4_verdict (s4_balance_decision start now pending_value cap) = S4_Clear \<longleftrightarrow>
      (\<forall>v. 0 \<le> v \<and> v \<le> pending_value \<longrightarrow> \<not> fst (s4_balance_breached start (now + v) cap))) \<and>
    (s4_verdict (s4_balance_decision start now pending_value cap) = S4_Pending \<longleftrightarrow>
      (\<exists>v u. 0 \<le> v \<and> v \<le> pending_value \<and> 0 \<le> u \<and> u \<le> pending_value \<and>
         fst (s4_balance_breached start (now + v) cap) \<and> \<not> fst (s4_balance_breached start (now + u) cap)))"
  using s4_band [OF assms, of start now cap]
  by (cases "s4_verdict (s4_balance_decision start now pending_value cap)") auto

lemma s4_band_exact_witness:
  "s4_verdict (s4_balance_decision 50 (46 + 4547/10000) 1 3) = S4_Pending \<and>
    (\<exists>v u. 0 \<le> v \<and> v \<le> 1 \<and> 0 \<le> u \<and> u \<le> 1 \<and>
       fst (s4_balance_breached 50 (46 + 4547/10000 + v) 3) \<and>
       \<not> fst (s4_balance_breached 50 (46 + 4547/10000 + u) 3))"
  using s4_band_exact [of 1 50 "46 + 4547/10000" 3]
  by (simp add: s4_balance_decision_def s4_balance_breached_def balance_loss_dollars_def)

section \<open>Arming\<close>

text \<open>
  C36. A window is armed exactly when every gate passes. For both rosters: the mode is armed, the
  day's guard is readable with no S4 latch and fewer one-legged occurrences than the threshold,
  the params digest is verified, the falsifier is frozen, the proxy's caps and remaining budget fit
  the orders, no position on the series is open, and the daily-loss decision supplied, if one is,
  reads clear (below the cap under every resolution): a caller that supplies none is armed without
  that gate. V3.3 also needs the sibling roster to have no S4 latch; V3.2 does not look.
\<close>

theorem arming_exact:
  "(ao_armed (decide_v33_arming mode falsifier health positions verified g s4 args) \<longleftrightarrow>
     mode = ''armed'' \<and> \<not> dg_corrupt g \<and> \<not> guard_has_s4_latch g \<and>
     count_legged g < va_s1_threshold args \<and> \<not> va_cross_s4_latched args \<and>
     verified \<and> falsifier_is_frozen falsifier \<and>
     caps_fit health (fst (v33_cap_band (va_lots_per_rung args) (va_k_rungs args) (va_rung_lots args)))
       (snd (v33_cap_band (va_lots_per_rung args) (va_k_rungs args) (va_rung_lots args)))
       V33_MIN_ORDER_BUDGET_AT_ARM \<and>
     positions_flat positions (va_position_prefix args) \<and>
     (case s4 of None \<Rightarrow> True | Some d \<Rightarrow> s4_verdict d = S4_Clear)) \<and>
   (ao_armed (decide_v32_arming mode falsifier health positions verified contracts g s4) \<longleftrightarrow>
     mode = ''armed'' \<and> \<not> dg_corrupt g \<and> \<not> guard_has_s4_latch g \<and>
     count_legged g < V32_S1_LEGGED_LATCH_THRESHOLD \<and> verified \<and> falsifier_is_frozen falsifier \<and>
     caps_fit health contracts V32_MAX_CONTRACTS_PER_ORDER V32_MIN_ORDER_BUDGET_AT_ARM \<and>
     positions_flat positions ''KXBTC'' \<and>
     (case s4 of None \<Rightarrow> True | Some d \<Rightarrow> s4_verdict d = S4_Clear))"
  by (simp only: decide_v33_arming_iff decide_v32_arming_iff)

lemma ex_window_arms:
  "ao_armed (decide_v32_arming ''armed'' (Some [''STATUS: FROZEN'']) ex_health
     (JObj [(''market_positions'', JList [])]) True 1 (read_day_guard ex_guard ''2026-01-01'') None)"
proof -
  have "\<not> dg_corrupt (read_day_guard Missing ''2026-01-01'')" by (simp add: read_day_guard_def)
  from read_ensure_balance_start [OF this, of 50]
  have g: "\<not> dg_corrupt (read_day_guard ex_guard ''2026-01-01'')"
    "dg_latched (read_day_guard ex_guard ''2026-01-01'') = []"
    by (simp_all add: ex_guard_def) (simp add: read_day_guard_def)
  show ?thesis
    by (simp add: decide_v32_arming_def outcome_of_def guard_reasons_def v32_latched_stop_kind_def g
        count_legged_def V32_S1_LEGGED_LATCH_THRESHOLD_def v32_arming_check_def s5_reasons_def
        falsifier_is_frozen_def strip_def is_space_def char_code_def v32_caps_agree_def caps_disagree_def
        ex_health_def json_field_def json_truthy_def json_int_def V32_MAX_CONTRACTS_PER_ORDER_def
        V32_MIN_ORDER_BUDGET_AT_ARM_def prefix_covers_def RANGE_TICKER_PROBE_def STRIKE_TICKER_PROBE_def
        starts_with_def reconcile_positions_clean_def unclean_reasons_def s4_reasons_def)
qed

end
