(* ===== verification/V33_Ladder.thy ===== *)
theory V33_Ladder
  imports V33_Types
begin

text \<open>
  The ladder half of \<open>v33/core.py\<close>: the margin arithmetic, the quote context (strike-feed
  liveness, the rest W gate and its diagnostic label, the debounced spot bucket, the refreshed
  labels), and the single-order operations the lifecycle handlers and the convergence share
  (ack, cancel, cancel-all, stand-down, place, roll). One definition per Python function; a
  function that returns a state and actions returns a pair.
\<close>

section \<open>Small pure helpers\<close>

definition mk33 :: "v33_state \<Rightarrow> v33_kind \<Rightarrow> v33_action" where
  "mk33 st kind = blank_action33 (twin_kind33 kind (x_shakedown st))"

definition coid_of33 :: "string \<Rightarrow> string \<Rightarrow> nat \<Rightarrow> string" where
  "coid_of33 prefix close_time k = prefix @ close_time @ ''-'' @ show_nat k"

definition mint_coid33 :: "v33_state \<Rightarrow> string \<times> v33_state" where
  "mint_coid33 st =
     (let k = x_coid_seq st + 1
      in (coid_of33 (x_coid_prefix st) (x_close_time st) k, st\<lparr>x_coid_seq := k\<rparr>))"

definition e_rung :: "v33_params \<Rightarrow> money \<Rightarrow> money \<Rightarrow> money" where
  "e_rung params n_top price = q_E_min params + (n_top - price)"

definition rung_of :: "money \<Rightarrow> money \<Rightarrow> int" where
  "rung_of n_top price = round_half_even ((n_top - price) / cent)"

definition margin_of :: "v33_params \<Rightarrow> money \<Rightarrow> money \<Rightarrow> int" where
  "margin_of params n_top price = emin_cents params + rung_of n_top price"

definition price_of_margin :: "v33_params \<Rightarrow> money \<Rightarrow> int \<Rightarrow> money" where
  "price_of_margin params n_top m = n_top - of_int (m - emin_cents params) * cent"

definition open_slots :: "v33_state \<Rightarrow> int list" where
  "open_slots st =
     map int (filter (\<lambda>m. x_margin_state st ! m = 1) [0 ..< length (x_margin_state st)])"

definition weight_of_margin :: "v33_params \<Rightarrow> int \<Rightarrow> int" where
  "weight_of_margin params m = weight_of_rung params (m - emin_cents params)"

definition allotment :: "v33_params \<Rightarrow> int" where
  "allotment params = sum_list (q_rung_lots params)"

definition resting_contracts :: "v33_state \<Rightarrow> lots" where
  "resting_contracts st = sum_list (map ro_count (x_ladder st))"

definition filled_contracts :: "v33_state \<Rightarrow> lots" where
  "filled_contracts st = sum_list (map rg_count (x_rest_fills st))"

definition sync_mirrors33 :: "v33_state \<Rightarrow> v33_state" where
  "sync_mirrors33 st =
     st\<lparr>x_one_legged := list_ex bt_one_legged (x_wing_batches st) \<or> x_pt_one_legged st\<rparr>"

fun replace_order ::
  "rung_order list \<Rightarrow> string \<Rightarrow> (rung_order \<Rightarrow> rung_order) \<Rightarrow> rung_order list" where
  "replace_order [] coid f = []"
| "replace_order (r # rs) coid f =
     (if ro_coid r = coid then f r # rs else r # replace_order rs coid f)"

definition drop_order :: "rung_order list \<Rightarrow> string \<Rightarrow> rung_order list" where
  "drop_order ladder coid = filter (\<lambda>r. ro_coid r \<noteq> coid) ladder"

definition order_by_coid :: "v33_state \<Rightarrow> string \<Rightarrow> rung_order option" where
  "order_by_coid st coid = find (\<lambda>r. ro_coid r = coid) (x_ladder st)"

section \<open>Strike-feed liveness and the rest W gate\<close>

definition stamp_strike_feed :: "v33_state \<Rightarrow> book_update \<Rightarrow> v33_state" where
  "stamp_strike_feed st event =
     (case classify_ticker (bu_market event) (x_bucket_map st) (x_strike_floor_map st) of
        Some (StrikeMarket _) \<Rightarrow>
          (let book_ts = (case bu_book_ts event of Some t \<Rightarrow> t | None \<Rightarrow> bu_server_ts event) in
           case x_strike_feed_ts st of
             Some t \<Rightarrow> if book_ts \<le> t then st else st\<lparr>x_strike_feed_ts := Some book_ts\<rparr>
           | None \<Rightarrow> st\<lparr>x_strike_feed_ts := Some book_ts\<rparr>)
      | _ \<Rightarrow> st)"

definition strike_feed_alive :: "v33_params \<Rightarrow> v33_state \<Rightarrow> time \<Rightarrow> bool" where
  "strike_feed_alive params st now =
     fresh now (x_strike_feed_ts st) (q_strike_feed_dead_s params)"

definition compute_W33 ::
  "v33_state \<Rightarrow> int \<Rightarrow> int \<Rightarrow> time \<Rightarrow> v33_params \<Rightarrow> money option" where
  "compute_W33 st Sd Su now params =
     (if \<not> strike_feed_alive params st now then None
      else compute_W (law_view params st) Sd Su now (wing_law_view params))"

text \<open>The label of the first failing check of the rest W gate, in the gate's own order.\<close>

definition wing_price_cause :: "top_of_book \<Rightarrow> top_of_book \<Rightarrow> string" where
  "wing_price_cause sd_top su_top =
     (case yes_ask sd_top of
        None \<Rightarrow> ''wing_no_ask_sd''
      | Some ya \<Rightarrow>
          (case no_ask su_top of
             None \<Rightarrow> ''wing_no_ask_su''
           | Some na \<Rightarrow>
               if \<not> (0 < ya \<and> ya < 1) then ''wing_price_invalid_sd''
               else if \<not> (0 < na \<and> na < 1) then ''wing_price_invalid_su''
               else ''unknown''))"

definition wing_unavailable_cause :: "v33_params \<Rightarrow> v33_state \<Rightarrow> time \<Rightarrow> string" where
  "wing_unavailable_cause params st now =
     (case (x_spot_Sd st, x_spot_Su st) of
        (Some Sd, Some Su) \<Rightarrow>
          if \<not> strike_feed_alive params st now then ''feed_dead''
          else (case map_of (x_strike_tops st) Sd of
                  None \<Rightarrow> ''wing_missing_sd''
                | Some sd_top \<Rightarrow>
                    (case map_of (x_strike_tops st) Su of
                       None \<Rightarrow> ''wing_missing_su''
                     | Some su_top \<Rightarrow>
                         if suspect sd_top then ''wing_suspect_sd''
                         else if suspect su_top then ''wing_suspect_su''
                         else if \<not> fresh now (map_of (x_strike_ts st) Sd) (q_wing_book_max_age_s params)
                         then ''wing_too_old_sd''
                         else if \<not> fresh now (map_of (x_strike_ts st) Su) (q_wing_book_max_age_s params)
                         then ''wing_too_old_su''
                         else wing_price_cause sd_top su_top))
      | _ \<Rightarrow> ''unknown'')"

section \<open>The debounced spot bucket\<close>

text \<open>The yes-mid-weighted sum of bucket centres, and the weight.\<close>

fun centroid_sums :: "rat \<Rightarrow> (int, top_of_book) dict \<Rightarrow> rat \<times> rat" where
  "centroid_sums half [] = (0, 0)"
| "centroid_sums half ((fl, tb) # rest) =
     (let (num, den) = centroid_sums half rest in
      if \<not> valid_two_sided (Some tb) then (num, den)
      else (case (yes_bid tb, yes_ask tb) of
              (Some yb, Some ya) \<Rightarrow>
                (let mid = (yb + ya) / 2 in
                 if mid \<le> 0 then (num, den)
                 else (num + mid * (of_int fl + half), den + mid))
            | _ \<Rightarrow> (num, den)))"

definition implied_spot :: "v33_params \<Rightarrow> v33_state \<Rightarrow> rat option" where
  "implied_spot params st =
     (let (num, den) = centroid_sums (of_int (q_bucket_width params) / 2) (x_bucket_tops st)
      in if 0 < den then Some (num / den) else None)"

definition hysteresis_ok :: "v33_params \<Rightarrow> v33_state \<Rightarrow> int \<Rightarrow> bool" where
  "hysteresis_ok params st candidate =
     (let hyst = q_switch_hysteresis_usd params in
      if hyst \<le> 0 then True
      else (case implied_spot params st of
              None \<Rightarrow> True
            | Some imp \<Rightarrow>
                of_int (candidate + hyst) \<le> imp \<and>
                imp < of_int (candidate + q_bucket_width params - hyst)))"

definition resolve_effective_bucket ::
  "v33_params \<Rightarrow> v33_state \<Rightarrow> int option \<Rightarrow> time \<Rightarrow> int option \<times> int option \<times> time option \<times> bool" where
  "resolve_effective_bucket params st raw_Sd now =
     (case raw_Sd of
        None \<Rightarrow> (None, None, None, False)
      | Some raw \<Rightarrow>
          if x_rest_bucket_Sd st = None \<or> x_rest_bucket_Sd st = Some raw
          then (Some raw, None, None, False)
          else
            (let (since, hyst0) =
               (case x_pending_switch_since st of
                  Some t \<Rightarrow> if x_pending_switch_Sd st = Some raw
                            then (t, x_pending_switch_hyst_met st) else (now, False)
                | None \<Rightarrow> (now, False));
                 hyst = (if hyst0 then True else hysteresis_ok params st raw);
                 elapsed_ms = (now - since) * 1000
             in if of_int (q_switch_deb_ms params) \<le> elapsed_ms \<and>
                   (hyst \<or> of_int (q_switch_max_pending_ms params) \<le> elapsed_ms)
                then (Some raw, None, None, False)
                else (x_rest_bucket_Sd st, Some raw, Some since, hyst)))"

definition refresh_labels :: "v33_params \<Rightarrow> money option \<Rightarrow> rung_order list \<Rightarrow> rung_order list" where
  "refresh_labels params n_top ladder =
     (case n_top of
        None \<Rightarrow> ladder
      | Some n \<Rightarrow> map (\<lambda>r. r\<lparr>ru_rung := rung_of n (ro_price r),
                            ru_E_rung := e_rung params n (ro_price r)\<rparr>) ladder)"

definition recompute_context33 :: "v33_params \<Rightarrow> v33_state \<Rightarrow> time \<Rightarrow> v33_state" where
  "recompute_context33 params st now =
     (let (spot_Sd, pend_Sd, pend_since, pend_hyst) =
        resolve_effective_bucket params st (select_spot (law_view params st)) now;
          spot_Su = map_option (\<lambda>s. s + q_bucket_width params) spot_Sd;
          stale = (case spot_Sd of
                     None \<Rightarrow> False
                   | Some s \<Rightarrow> \<not> fresh now (map_of (x_bucket_ts st) s)
                                 (q_bucket_freshness_max_age_s params));
          gate_ran = (spot_Sd \<noteq> None \<and> \<not> stale);
          W = (case (spot_Sd, spot_Su) of
                 (Some sd, Some su) \<Rightarrow> if stale then None else compute_W33 st sd su now params
               | _ \<Rightarrow> None);
          cap = (case spot_Sd of
                   Some sd \<Rightarrow> if stale then None else bucket_cap (law_view params st) sd
                 | None \<Rightarrow> None);
          n_top = (if gate_ran
                   then solve_n (map_option (\<lambda>w. 2 - q_E_min params - w) W) cap else None);
          shadow_n = (\<lambda>sub. if W \<noteq> None \<and> cap \<noteq> None
                            then solve_n (map_option (\<lambda>w. 2 - ss_E sub - w) W) cap else None);
          st1 = st\<lparr>x_spot_Sd := spot_Sd, x_spot_Su := spot_Su, x_W := W, x_cap := cap,
                   x_n_top := n_top, x_spot_bucket_stale := stale,
                   x_shadows := map (\<lambda>(k, sub). (k, sub\<lparr>ss_n := shadow_n sub\<rparr>)) (x_shadows st),
                   x_wing_sub_cause := None, x_pending_switch_Sd := pend_Sd,
                   x_pending_switch_since := pend_since, x_pending_switch_hyst_met := pend_hyst\<rparr>;
          st2 = (if gate_ran \<and> W = None
                 then st1\<lparr>x_wing_sub_cause := Some (wing_unavailable_cause params st1 now)\<rparr> else st1)
      in st2\<lparr>x_ladder := refresh_labels params n_top (x_ladder st2)\<rparr>)"

section \<open>The imported book fold and shadow\<close>

definition fold_book33 :: "v33_params \<Rightarrow> v33_state \<Rightarrow> book_update \<Rightarrow> v33_state" where
  "fold_book33 params st event =
     (let v = fold_book (law_view params st) event in
      st\<lparr>x_strike_tops := v_strike_tops v, x_strike_ts := v_strike_ts v,
         x_strike_tickers := v_strike_tickers v, x_bucket_tops := v_bucket_tops v,
         x_bucket_ts := v_bucket_ts v, x_bucket_tickers := v_bucket_tickers v\<rparr>)"

definition shadow_complete33 :: "v33_params \<Rightarrow> v33_state \<Rightarrow> time \<Rightarrow> v33_state" where
  "shadow_complete33 params st now =
     st\<lparr>x_shadows := v_shadows (shadow_complete (law_params params) (law_view params st) now)\<rparr>"

definition shadow_on_trade33 ::
  "v33_params \<Rightarrow> v33_state \<Rightarrow> trade \<Rightarrow> v33_state \<times> v33_action list" where
  "shadow_on_trade33 params st event =
     (let (v, acts) = shadow_on_trade (law_params params) (law_view params st) event
      in (st\<lparr>x_shadows := v_shadows v\<rparr>, map lift_action acts))"

section \<open>Order lifecycle: ack and roll bookkeeping\<close>

definition apply_ack33 :: "v33_state \<Rightarrow> order_ack \<Rightarrow> v33_state" where
  "apply_ack33 st event =
     (if list_ex (\<lambda>r. ro_coid r = oa_coid event \<and> ro_pending r) (x_ladder st)
      then st\<lparr>x_ladder := replace_order (x_ladder st) (oa_coid event)
                 (\<lambda>r. r\<lparr>ro_order_id := Some (oa_order_id event), ro_live := True,
                         ro_pending := False\<rparr>)\<rparr>
      else st)"

definition drop_roll :: "v33_state \<Rightarrow> string \<Rightarrow> v33_state" where
  "drop_roll st old_coid =
     st\<lparr>x_rolls := filter (\<lambda>r. rp_old_coid r \<noteq> old_coid) (x_rolls st)\<rparr>"

section \<open>Cancel, stand down, place, roll\<close>

definition in_window33 :: "v33_params \<Rightarrow> v33_state \<Rightarrow> time \<Rightarrow> bool" where
  "in_window33 params st now \<longleftrightarrow>
     of_int (x_close_epoch st) - now \<le> of_int (q_quote_start_s params) \<and>
     of_int (q_quote_end_s params) \<le> of_int (x_close_epoch st) - now"

definition cancel_action33 :: "v33_state \<Rightarrow> rung_order \<Rightarrow> v33_action" where
  "cancel_action33 st ord =
     (mk33 st (Inherited CANCEL_REST))\<lparr>y_order_id := ro_order_id ord, y_coid := Some (ro_coid ord)\<rparr>"

definition remember_cancel33 :: "v33_state \<Rightarrow> rung_order \<Rightarrow> v33_state" where
  "remember_cancel33 st ord =
     (case ro_order_id ord of
        None \<Rightarrow> st
      | Some i \<Rightarrow>
          st\<lparr>x_cancel_ctx :=
             AList.update i (ro_coid ord, ro_price ord, ru_rung ord, ru_E_rung ord, ro_bucket_Sd ord)
               (x_cancel_ctx st)\<rparr>)"

definition arm_cancel_pending :: "v33_state \<Rightarrow> rung_order \<Rightarrow> v33_state" where
  "arm_cancel_pending st ord =
     (case ro_order_id ord of
        None \<Rightarrow> st
      | Some i \<Rightarrow> st\<lparr>x_cancel_pending_px := AList.update i (ro_price ord) (x_cancel_pending_px st)\<rparr>)"

definition clear_cancel_pending :: "v33_state \<Rightarrow> string option \<Rightarrow> v33_state" where
  "clear_cancel_pending st oid =
     (case oid of
        None \<Rightarrow> st
      | Some i \<Rightarrow> st\<lparr>x_cancel_pending_px := AList.delete i (x_cancel_pending_px st)\<rparr>)"

definition held_cancel_prices :: "v33_state \<Rightarrow> money list" where
  "held_cancel_prices st = map snd (x_cancel_pending_px st)"

text \<open>One cancelled rung: its context and its held price, when it has a venue id.\<close>

definition note_cancelled :: "v33_state \<Rightarrow> rung_order \<Rightarrow> v33_state" where
  "note_cancelled st ord = arm_cancel_pending (remember_cancel33 st ord) ord"

definition cancel_all :: "v33_state \<Rightarrow> bool \<Rightarrow> v33_state \<times> v33_action list" where
  "cancel_all st track =
     (let acts = map (cancel_action33 st) (x_ladder st);
          n_live = length (filter (\<lambda>r. ro_order_id r \<noteq> None) (x_ladder st));
          st1 = (foldl note_cancelled st (x_ladder st))
                  \<lparr>x_ladder := [], x_rolls := [], x_converging_dir := 0\<rparr>
      in (if track then st1\<lparr>x_outstanding_cancels := x_outstanding_cancels st1 + n_live\<rparr> else st1,
          acts))"

definition cancel_all_then_replace :: "v33_state \<Rightarrow> v33_state \<times> v33_action list" where
  "cancel_all_then_replace st =
     (let (st1, ca) = cancel_all st True
      in (if x_ladder st \<noteq> [] then st1\<lparr>x_awaiting_replace := True\<rparr> else st1, ca))"

definition standdown_note :: "string \<Rightarrow> v33_action" where
  "standdown_note reason = (blank_action33 (Inherited STAND_DOWN))\<lparr>y_reason := Some reason\<rparr>"

definition standdown33 :: "v33_state \<Rightarrow> string \<Rightarrow> v33_state \<times> v33_action list" where
  "standdown33 st reason =
     (if x_last_standdown_reason st = Some reason
      then (st\<lparr>x_stand_down_reason := Some reason\<rparr>, [])
      else (st\<lparr>x_last_standdown_reason := Some reason, x_stand_down_reason := Some reason\<rparr>,
            [standdown_note reason]))"

definition place_action33 ::
  "v33_state \<Rightarrow> v33_params \<Rightarrow> string \<Rightarrow> money \<Rightarrow> lots \<Rightarrow> v33_action" where
  "place_action33 st params coid n count =
     (mk33 st (Inherited PLACE_REST))
       \<lparr>y_ticker := Some (ticker_at (x_bucket_tickers st) (x_spot_Sd st)),
        y_side := Some BUY_NO, y_action := Some ''buy'', y_count := count, y_price := Some n,
        y_expiration_epoch := Some (x_close_epoch st - q_quote_end_s params), y_coid := Some coid\<rparr>"

definition place_one ::
  "v33_params \<Rightarrow> v33_state \<Rightarrow> money \<Rightarrow> int \<Rightarrow> money \<Rightarrow> time \<Rightarrow> lots \<Rightarrow> v33_state \<times> v33_action list" where
  "place_one params st price rung E now count =
     (let c = q_count count;
          (coid, st1) = mint_coid33 st;
          ord = \<lparr>ro_coid = coid, ro_order_id = None, ro_price = price, ro_count = c,
                 ro_placed_ts = now, ro_live = False, ro_pending = True,
                 ro_bucket_Sd = x_spot_Sd st1, ru_rung = rung, ru_E_rung = E\<rparr>;
          st2 = st1\<lparr>x_ladder := x_ladder st1 @ [ord]\<rparr>
      in (st2, [place_action33 st2 params coid price c]))"

definition placeable :: "v33_params \<Rightarrow> v33_state \<Rightarrow> money \<Rightarrow> bool" where
  "placeable params st price \<longleftrightarrow>
     q_n_min params \<le> price \<and> (case x_cap st of None \<Rightarrow> True | Some c \<Rightarrow> price \<le> c)"

text \<open>
  The functions below the \<open>n_top is not None\<close> gate take the solved anchor as an argument.
\<close>

definition placeable_open_slots :: "v33_params \<Rightarrow> v33_state \<Rightarrow> money \<Rightarrow> (int \<times> money) list" where
  "placeable_open_slots params st n_top =
     filter (\<lambda>(m, price). placeable params st price)
       (map (\<lambda>m. (m, price_of_margin params n_top m)) (open_slots st))"

definition recent33 :: "v33_state \<Rightarrow> time \<Rightarrow> time list" where
  "recent33 st now = filter (\<lambda>t. now - t \<le> 60) (x_replace_times st)"

text \<open>
  The loop of \<open>_place_all\<close>: \<open>budget\<close> is the remaining contract allotment, \<open>used\<close> the lots this
  pass has placed, \<open>held\<close> the prices an unconfirmed cancel still holds.
\<close>

fun place_slots ::
  "v33_params \<Rightarrow> rat \<Rightarrow> money list \<Rightarrow> time \<Rightarrow> int \<Rightarrow> v33_state \<Rightarrow> (int \<times> money) list \<Rightarrow>
     v33_state \<times> v33_action list" where
  "place_slots params budget held now used st [] = (st, [])"
| "place_slots params budget held now used st ((m, price) # slots) =
     (let w = weight_of_margin params m in
      if w \<le> 0 \<or> budget < of_int (used + w) then place_slots params budget held now used st slots
      else if price \<in> set held then place_slots params budget held now used st slots
      else
        (let rung = m - emin_cents params;
             (st1, a1) =
               place_one params st price rung (q_E_min params + of_int rung * cent) now (of_int w);
             (st2, a2) = place_slots params budget held now (used + w) st1 slots
         in (st2, a1 @ a2)))"

definition place_all ::
  "v33_params \<Rightarrow> v33_state \<Rightarrow> money \<Rightarrow> time \<Rightarrow> v33_state \<times> v33_action list" where
  "place_all params st n_top now =
     (let slots = placeable_open_slots params st n_top;
          budget = of_int (allotment params) - filled_contracts st - resting_contracts st
      in if budget \<le> 0 \<or> q_max_sets_per_hour params \<le> int (x_rungs_filled st)
         then (st\<lparr>x_rest_allotment_done := True\<rparr>, [])
         else
           (let (st1, acts) =
              place_slots params budget (held_cancel_prices st) now 0 st slots
            in if acts = [] then (st1, [])
               else (st1\<lparr>x_rest_bucket_Sd := x_spot_Sd st1, x_converging_dir := 0,
                         x_last_replace_ts := Some now, x_replace_count := x_replace_count st1 + 1,
                         x_replace_times := recent33 st1 now @ [now]\<rparr>, acts)))"

definition amend_action33 ::
  "v33_state \<Rightarrow> v33_params \<Rightarrow> rung_order \<Rightarrow> string \<Rightarrow> money \<Rightarrow> v33_action" where
  "amend_action33 st params ord new_coid target =
     (mk33 st (Inherited AMEND_REST))
       \<lparr>y_order_id := ro_order_id ord,
        y_ticker := Some (ticker_at (x_bucket_tickers st) (x_spot_Sd st)),
        y_side := Some BUY_NO, y_action := Some ''buy'',
        y_count := of_int (py_trunc (ro_count ord)), y_price := Some target,
        y_expiration_epoch := Some (x_close_epoch st - q_quote_end_s params),
        y_coid := Some (ro_coid ord), y_updated_coid := Some new_coid\<rparr>"

definition emit_roll ::
  "v33_params \<Rightarrow> v33_state \<Rightarrow> rung_order \<Rightarrow> money \<Rightarrow> int \<Rightarrow> time \<Rightarrow>
     v33_state \<times> roll_pending \<times> v33_action" where
  "emit_roll params st ord target margin now =
     (let (new_coid, st1) = mint_coid33 st;
          rp = \<lparr>rp_order_id = ro_order_id ord, rp_old_coid = ro_coid ord, rp_new_coid = new_coid,
                rp_target_price = target, rp_target_margin = margin, rp_started_ts = now\<rparr>
      in (st1, rp, amend_action33 st1 params ord new_coid target))"

end
