(* ===== verification/V33_Wings.thy ===== *)
theory V33_Wings
  imports V33_Ladder
begin

text \<open>
  The completion half of \<open>v33/core.py\<close>: the coalescing group of rung fills and its flush into
  a batch, the wing gate read on the batch's own bucket, the unconditional take of a batch's two
  wings, the partial take of the one quotable leg, the lock-floor- and cadence-gated retry, the
  netting of opposite legs on one market, and the closing of a set.
\<close>

definition WING_RETRY_MIN_INTERVAL_MS :: rat where
  "WING_RETRY_MIN_INTERVAL_MS = 250"

section \<open>Coalescing\<close>

definition group_bucket :: "rung_fill list \<Rightarrow> int option" where
  "group_bucket fs = (case find (\<lambda>f. rg_bucket_Sd f \<noteq> None) fs of None \<Rightarrow> None | Some f \<Rightarrow> rg_bucket_Sd f)"

definition coalesce_expired :: "v33_params \<Rightarrow> coalesce_group \<Rightarrow> time \<Rightarrow> bool" where
  "coalesce_expired params g now \<longleftrightarrow> of_int (q_wing_coalesce_ms params) / 1000 < now - cg_first_ts g"

definition group_batch :: "coalesce_group \<Rightarrow> batch33" where
  "group_batch g =
     \<lparr>bt_index = cg_index g, bt_server_ts = cg_first_ts g, bt_fills = cg_fills g,
      bt_taken = False, bt_completed = False, bt_one_legged = False, bt_print_through = False,
      bt_taken_count = 0, bt_resolved = False, bt_bucket_Sd = group_bucket (cg_fills g),
      bt_retries = 0\<rparr>"

definition coalesce_flush :: "v33_params \<Rightarrow> v33_state \<Rightarrow> time \<Rightarrow> v33_state" where
  "coalesce_flush params st now =
     (case x_coalesce_open st of
        None \<Rightarrow> st
      | Some g \<Rightarrow>
          if coalesce_expired params g now
          then st\<lparr>x_wing_batches := x_wing_batches st @ [group_batch g], x_coalesce_open := None\<rparr>
          else st)"

definition coalesce_add :: "v33_params \<Rightarrow> v33_state \<Rightarrow> rung_fill \<Rightarrow> time \<Rightarrow> v33_state" where
  "coalesce_add params st rf now =
     (let st1 = coalesce_flush params st now in
      case x_coalesce_open st1 of
        None \<Rightarrow>
          (let idx = x_next_batch_index st1 in
           st1\<lparr>x_coalesce_open := Some \<lparr>cg_index = idx, cg_first_ts = now, cg_fills = [rf]\<rparr>,
               x_next_batch_index := idx + 1\<rparr>)
      | Some g \<Rightarrow> st1\<lparr>x_coalesce_open := Some (g\<lparr>cg_fills := cg_fills g @ [rf]\<rparr>)\<rparr>)"

section \<open>Batches and the wing gate of a bucket\<close>

definition batch_legs33 :: "v33_state \<Rightarrow> nat \<Rightarrow> leg33 list" where
  "batch_legs33 st index = filter (\<lambda>l. wl_batch l = index) (x_wing_legs st)"

definition find_batch :: "v33_state \<Rightarrow> nat \<Rightarrow> batch33 option" where
  "find_batch st index = find (\<lambda>b. bt_index b = index) (x_wing_batches st)"

definition batch_bucket :: "v33_params \<Rightarrow> batch33 \<Rightarrow> (int \<times> int) option" where
  "batch_bucket params b =
     (case group_bucket (bt_fills b) of
        Some sd \<Rightarrow> Some (sd, sd + q_bucket_width params)
      | None \<Rightarrow> map_option (\<lambda>sd. (sd, sd + q_bucket_width params)) (bt_bucket_Sd b))"

definition wing_prices_for_bucket ::
  "v33_state \<Rightarrow> int \<Rightarrow> int \<Rightarrow> time \<Rightarrow> v33_params \<Rightarrow> (money \<times> money) option" where
  "wing_prices_for_bucket st sd su now params =
     (if \<not> strike_feed_alive params st now then None
      else wing_prices ((law_view params st)\<lparr>v_spot_Sd := Some sd, v_spot_Su := Some su\<rparr>) now
             (wing_law_view params))"

definition wing_leg_ask ::
  "v33_state \<Rightarrow> int \<Rightarrow> string \<Rightarrow> time \<Rightarrow> v33_params \<Rightarrow> money option" where
  "wing_leg_ask st strike side now params =
     (case map_of (x_strike_tops st) strike of
        None \<Rightarrow> None
      | Some tb \<Rightarrow>
          if suspect tb then None
          else if \<not> fresh now (map_of (x_strike_ts st) strike) (q_wing_book_max_age_s params) then None
          else (case (if side = BUY_YES then yes_ask tb else no_ask tb) of
                  None \<Rightarrow> None
                | Some ask \<Rightarrow> if 0 < ask \<and> ask \<le> 1 then Some ask else None))"

fun replace_batch33 :: "batch33 list \<Rightarrow> nat \<Rightarrow> (batch33 \<Rightarrow> batch33) \<Rightarrow> batch33 list" where
  "replace_batch33 [] i f = []"
| "replace_batch33 (b # bs) i f =
     (if bt_index b = i then f b # bs else b # replace_batch33 bs i f)"

definition on_batch :: "v33_state \<Rightarrow> nat \<Rightarrow> (batch33 \<Rightarrow> batch33) \<Rightarrow> v33_state" where
  "on_batch st i f = st\<lparr>x_wing_batches := replace_batch33 (x_wing_batches st) i f\<rparr>"

definition batch_lock :: "batch33 \<Rightarrow> money \<Rightarrow> money" where
  "batch_lock b w_paid = sum_list (map (\<lambda>f. rg_count f * lock_value (rg_price f) w_paid) (bt_fills b))"

section \<open>The take\<close>

definition new_leg :: "ticker \<Rightarrow> string \<Rightarrow> lots \<Rightarrow> money \<Rightarrow> string \<Rightarrow> nat \<Rightarrow> leg33" where
  "new_leg tk side count limit coid batch =
     \<lparr>wl_ticker = tk, wl_side = side, wl_count = count, wl_limit = limit, wl_coid = coid,
      wl_status = Pending, wl_fill_price = None, wl_fill_fee = None, wl_batch = batch,
      wl_last_retry_ts = None, wl_netted = 0\<rparr>"

definition buy_leg :: "ticker \<Rightarrow> string \<Rightarrow> lots \<Rightarrow> money option \<Rightarrow> leg_order33" where
  "buy_leg tk side count limit =
     \<lparr>lg_ticker = tk, lg_side = side, lg_action = ''buy'', lg_count = count, lg_limit = limit\<rparr>"

definition take_batch33 ::
  "v33_params \<Rightarrow> v33_state \<Rightarrow> batch33 \<Rightarrow> int \<Rightarrow> int \<Rightarrow> money \<Rightarrow> money \<Rightarrow> v33_state \<times> v33_action list" where
  "take_batch33 params st b sd su ya na =
     (let w_paid = ya + fee ya + na + fee na;
          lock = batch_lock b w_paid;
          count = q_count (total_count b);
          (coid_y, st1) = mint_coid33 st;
          (coid_n, st2) = mint_coid33 st1;
          yes_limit = min (ya + q_wing_margin params) LIMIT_CEILING;
          no_limit = min (na + q_wing_margin params) LIMIT_CEILING;
          tk_y = ticker_at (x_strike_tickers st2) (Some sd);
          tk_n = ticker_at (x_strike_tickers st2) (Some su);
          st3 = on_batch
                  (st2\<lparr>x_wing_legs := x_wing_legs st2 @
                         [new_leg tk_y BUY_YES count yes_limit coid_y (bt_index b),
                          new_leg tk_n BUY_NO count no_limit coid_n (bt_index b)]\<rparr>)
                  (bt_index b) (\<lambda>x. x\<lparr>bt_taken := True\<rparr>)
      in (st3, [(mk33 st3 (Inherited TAKE_WINGS))
                  \<lparr>y_legs := [buy_leg tk_y BUY_YES count (Some yes_limit),
                              buy_leg tk_n BUY_NO count (Some no_limit)],
                   y_count := count, y_lock := Some lock\<rparr>]))"

text \<open>
  The single quotable leg is sent, the other recorded as an unfilled leg without an order.
\<close>

definition take_batch_partial ::
  "v33_params \<Rightarrow> v33_state \<Rightarrow> batch33 \<Rightarrow> (int \<times> int) option \<Rightarrow> time \<Rightarrow> v33_state \<times> v33_action list" where
  "take_batch_partial params st b bucket now =
     (case bucket of
        None \<Rightarrow> (st, [])
      | Some (sd, su) \<Rightarrow>
          if \<not> strike_feed_alive params st now then (st, [])
          else
            (let ya = wing_leg_ask st sd BUY_YES now params;
                 na = wing_leg_ask st su BUY_NO now params;
                 tk_y = ticker_at (x_strike_tickers st) (Some sd);
                 tk_n = ticker_at (x_strike_tickers st) (Some su)
             in case (case ya of
                        Some a \<Rightarrow> Some (tk_y, BUY_YES, a, tk_n, BUY_NO)
                      | None \<Rightarrow> map_option (\<lambda>a. (tk_n, BUY_NO, a, tk_y, BUY_YES)) na) of
                  None \<Rightarrow> (st, [])
                | Some (send_tk, send_side, ask, miss_tk, miss_side) \<Rightarrow>
                    (let count = q_count (total_count b);
                         (coid, st1) = mint_coid33 st;
                         limit = min (ask + q_wing_margin params) LIMIT_CEILING;
                         st2 = on_batch
                                 (st1\<lparr>x_wing_legs := x_wing_legs st1 @
                                        [new_leg send_tk send_side count limit coid (bt_index b),
                                         (new_leg miss_tk miss_side count 0 '''' (bt_index b))
                                           \<lparr>wl_status := Unfilled\<rparr>]\<rparr>)
                                 (bt_index b) (\<lambda>x. x\<lparr>bt_taken := True\<rparr>)
                     in (st2, [(mk33 st2 (Inherited TAKE_WINGS))
                                 \<lparr>y_legs := [buy_leg send_tk send_side count (Some limit),
                                             buy_leg miss_tk miss_side count None],
                                  y_count := count\<rparr>]))))"

section \<open>The retry\<close>

definition leg_outlay :: "money \<Rightarrow> money \<Rightarrow> leg33 \<Rightarrow> money" where
  "leg_outlay ya na l =
     (case (wl_status l, wl_fill_price l) of
        (Filled, Some p) \<Rightarrow> (p + fee p) * wl_count l
      | _ \<Rightarrow> (let ask = (if wl_side l = BUY_YES then ya else na) in (ask + fee ask) * wl_count l))"

definition rest_outlay :: "batch33 \<Rightarrow> money" where
  "rest_outlay b = sum_list (map (\<lambda>f. (rg_price f + fee (rg_price f)) * rg_count f) (bt_fills b))"

definition projected_lock33 :: "v33_state \<Rightarrow> batch33 \<Rightarrow> money \<Rightarrow> money \<Rightarrow> money" where
  "projected_lock33 st b ya na =
     2 * q_count (total_count b) - rest_outlay b
       - sum_list (map (leg_outlay ya na) (batch_legs33 st (bt_index b)))"

text \<open>The cadence floor: at most one retry of a leg in any \<open>WING_RETRY_MIN_INTERVAL_MS\<close>.\<close>

definition retry_due :: "leg33 \<Rightarrow> time \<Rightarrow> bool" where
  "retry_due leg now =
     (case wl_last_retry_ts leg of
        None \<Rightarrow> True
      | Some t \<Rightarrow> WING_RETRY_MIN_INTERVAL_MS \<le> (now - t) * 1000)"

fun retry_legs33 ::
  "v33_params \<Rightarrow> nat \<Rightarrow> money \<Rightarrow> money \<Rightarrow> time \<Rightarrow> v33_state \<Rightarrow> leg33 list \<Rightarrow>
     v33_state \<times> leg33 list \<times> v33_action list" where
  "retry_legs33 params index ya na now st [] = (st, [], [])"
| "retry_legs33 params index ya na now st (leg # rest) =
     (if wl_batch leg \<noteq> index \<or> wl_status leg \<noteq> Unfilled \<or> \<not> retry_due leg now then
        (let (st1, legs1, acts1) = retry_legs33 params index ya na now st rest
         in (st1, leg # legs1, acts1))
      else
        (let ask = (if wl_side leg = BUY_YES then ya else na);
             limit = min (ask + q_wing_margin params) LIMIT_CEILING;
             (coid_r, st0) = mint_coid33 st;
             act = (mk33 st0 (Inherited RETRY_WING))
                     \<lparr>y_legs := [buy_leg (wl_ticker leg) (wl_side leg) (wl_count leg) (Some limit)],
                      y_count := wl_count leg\<rparr>;
             leg' = leg\<lparr>wl_status := Pending, wl_limit := limit, wl_coid := coid_r,
                        wl_last_retry_ts := Some now\<rparr>;
             (st1, legs1, acts1) = retry_legs33 params index ya na now st0 rest
         in (st1, leg' # legs1, act # acts1)))"

definition retry_batch33 ::
  "v33_params \<Rightarrow> v33_state \<Rightarrow> batch33 \<Rightarrow> money \<Rightarrow> money \<Rightarrow> time \<Rightarrow> v33_state \<times> v33_action list" where
  "retry_batch33 params st b ya na now =
     (if projected_lock33 st b ya na < q_lock_floor params * q_count (total_count b) then (st, [])
      else
        (let (st1, legs1, acts) = retry_legs33 params (bt_index b) ya na now st (x_wing_legs st)
         in if acts = [] then (st1, [])
            else (on_batch (st1\<lparr>x_wing_legs := legs1\<rparr>) (bt_index b)
                    (\<lambda>x. x\<lparr>bt_retries := bt_retries b + length acts\<rparr>), acts)))"

section \<open>Print-through triggers: lookup and resolution\<close>

fun mark_first :: "nat \<Rightarrow> string \<Rightarrow> time option \<Rightarrow> pt_trigger list \<Rightarrow> pt_trigger list" where
  "mark_first i res now [] = []"
| "mark_first i res now (t # ts) =
     (if pt_batch_index t = i \<and> \<not> pt_resolved t
      then t\<lparr>pt_resolved := True, pt_resolution := Some res, pt_resolved_ts := now\<rparr> # ts
      else t # mark_first i res now ts)"

definition pt_mark_resolution :: "v33_state \<Rightarrow> nat \<Rightarrow> string \<Rightarrow> time option \<Rightarrow> v33_state" where
  "pt_mark_resolution st i res now = st\<lparr>x_print_through := mark_first i res now (x_print_through st)\<rparr>"

definition replace_pt :: "v33_state \<Rightarrow> nat \<Rightarrow> (pt_trigger \<Rightarrow> pt_trigger) \<Rightarrow> v33_state" where
  "replace_pt st idx f =
     st\<lparr>x_print_through := (x_print_through st)[idx := f (x_print_through st ! idx)]\<rparr>"

section \<open>The wing step\<close>

definition cutoff_batch :: "time \<Rightarrow> v33_state \<Rightarrow> batch33 \<Rightarrow> v33_state" where
  "cutoff_batch now st b =
     (if bt_completed b \<or> bt_one_legged b then st
      else if bt_print_through b then
        pt_mark_resolution
          (on_batch st (bt_index b) (\<lambda>x. x\<lparr>bt_one_legged := True, bt_resolved := True\<rparr>))
          (bt_index b) ''partial'' (Some now)
      else (let legs = batch_legs33 st (bt_index b) in
            if legs = [] \<or> list_ex (\<lambda>l. wl_status l \<noteq> Filled) legs
            then on_batch st (bt_index b) (\<lambda>x. x\<lparr>bt_one_legged := True\<rparr>)
            else st))"

definition step_batch33 ::
  "v33_params \<Rightarrow> time \<Rightarrow> v33_state \<Rightarrow> nat \<Rightarrow> v33_state \<times> v33_action list" where
  "step_batch33 params now st index =
     (case find_batch st index of
        None \<Rightarrow> (st, [])
      | Some b \<Rightarrow>
          if bt_completed b then (st, [])
          else if bt_print_through b then (st, [])
          else
            (case (case batch_bucket params b of
                     None \<Rightarrow> None
                   | Some (sd, su) \<Rightarrow>
                       map_option (\<lambda>p. (sd, su, p)) (wing_prices_for_bucket st sd su now params)) of
               None \<Rightarrow>
                 if bt_taken b then (st, [])
                 else take_batch_partial params st b (batch_bucket params b) now
             | Some (sd, su, ya, na) \<Rightarrow>
                 if bt_taken b then retry_batch33 params st b ya na now
                 else take_batch33 params st b sd su ya na))"

fun step_batches33 ::
  "v33_params \<Rightarrow> time \<Rightarrow> v33_state \<Rightarrow> nat list \<Rightarrow> v33_state \<times> v33_action list" where
  "step_batches33 params now st [] = (st, [])"
| "step_batches33 params now st (i # is) =
     (let (st1, a1) = step_batch33 params now st i;
          (st2, a2) = step_batches33 params now st1 is
      in (st2, a1 @ a2))"

definition wing_step33 :: "v33_params \<Rightarrow> v33_state \<Rightarrow> time \<Rightarrow> v33_state \<times> v33_action list" where
  "wing_step33 params st0 now =
     (let st = coalesce_flush params st0 now in
      if x_wing_batches st = [] then (sync_mirrors33 st, [])
      else if of_int (x_close_epoch st) - now < of_int (q_no_orders_after_s params) then
        (sync_mirrors33 (foldl (cutoff_batch now) st (x_wing_batches st)), [])
      else
        (let (st1, acts) = step_batches33 params now st (map bt_index (x_wing_batches st))
         in (sync_mirrors33 st1, acts)))"

section \<open>Netting\<close>

text \<open>
  One round: the first leg with the filled coid, and the first filled leg of the other side on
  the same market that still holds lots.
\<close>

definition leg_held :: "leg33 \<Rightarrow> lots" where
  "leg_held l = wl_count l - wl_netted l"

definition net_partner :: "leg33 \<Rightarrow> leg33 \<Rightarrow> bool" where
  "net_partner L l \<longleftrightarrow>
     wl_ticker l = wl_ticker L \<and> wl_side l \<noteq> wl_side L \<and> wl_status l = Filled \<and>
     wl_fill_price l \<noteq> None \<and> 0 < leg_held l"

definition fill_cost :: "leg33 \<Rightarrow> money" where
  "fill_cost l = (case wl_fill_price l of None \<Rightarrow> 0 | Some p \<Rightarrow> p + fee p)"

definition net_leg_order :: "leg33 \<Rightarrow> string \<Rightarrow> lots \<Rightarrow> leg_order33" where
  "net_leg_order l side n =
     \<lparr>lg_ticker = wl_ticker l, lg_side = side, lg_action = ''net'', lg_count = n,
      lg_limit = wl_fill_price l\<rparr>"

definition net_once :: "v33_state \<Rightarrow> string \<Rightarrow> time \<Rightarrow> (v33_state \<times> v33_action) option" where
  "net_once st coid now =
     (case find (\<lambda>l. wl_coid l = coid) (x_wing_legs st) of
        None \<Rightarrow> None
      | Some L \<Rightarrow>
          if wl_status L \<noteq> Filled \<or> wl_fill_price L = None \<or> leg_held L \<le> 0 then None
          else
            (case find (net_partner L) (x_wing_legs st) of
               None \<Rightarrow> None
             | Some M \<Rightarrow>
                 (let n = q_count (min (leg_held L) (leg_held M)) in
                  if n \<le> 0 then None
                  else
                    (let (yl, nl) = (if wl_side L = BUY_YES then (L, M) else (M, L));
                         realised = n * (1 - fill_cost yl - fill_cost nl);
                         pair = \<lparr>np_ticker = wl_ticker L, np_count = n, np_yes_cost = fill_cost yl,
                                 np_no_cost = fill_cost nl, np_realised = realised,
                                 np_yes_batch = wl_batch yl, np_no_batch = wl_batch nl,
                                 np_server_ts = now\<rparr>;
                         legs = map (\<lambda>l. if wl_coid l = wl_coid L \<or> wl_coid l = wl_coid M
                                         then l\<lparr>wl_netted := q_count (wl_netted l + n)\<rparr> else l)
                                  (x_wing_legs st);
                         st1 = st\<lparr>x_wing_legs := legs, x_netted_pairs := x_netted_pairs st @ [pair]\<rparr>
                     in Some (st1, (mk33 st1 WING_NETTED)
                               \<lparr>y_legs := [net_leg_order yl BUY_YES n, net_leg_order nl BUY_NO n],
                                y_ticker := Some (wl_ticker L), y_count := n,
                                y_lock := Some realised\<rparr>)))))"

fun net_loop :: "nat \<Rightarrow> v33_state \<Rightarrow> string \<Rightarrow> time \<Rightarrow> v33_state \<times> v33_action list" where
  "net_loop 0 st coid now = (st, [])"
| "net_loop (Suc fuel) st coid now =
     (case net_once st coid now of
        None \<Rightarrow> (st, [])
      | Some (st1, a) \<Rightarrow> (let (st2, as) = net_loop fuel st1 coid now in (st2, a # as)))"

text \<open>The source's own guard ends the loop after 64 rounds.\<close>

definition net_wings :: "v33_state \<Rightarrow> string \<Rightarrow> time \<Rightarrow> v33_state \<times> v33_action list" where
  "net_wings st coid now = net_loop 64 st coid now"

section \<open>Closing a set\<close>

definition maybe_close_set33 :: "v33_state \<Rightarrow> nat \<Rightarrow> v33_state" where
  "maybe_close_set33 st index =
     (case find_batch st index of
        None \<Rightarrow> sync_mirrors33 st
      | Some b \<Rightarrow>
          if bt_completed b then sync_mirrors33 st
          else
            (let legs = batch_legs33 st index in
             if legs = [] \<or> list_ex (\<lambda>l. wl_status l \<noteq> Filled) legs then sync_mirrors33 st
             else if bt_print_through b then
               (if total_count b < bt_taken_count b then sync_mirrors33 st
                else sync_mirrors33
                       (pt_mark_resolution
                          (on_batch (st\<lparr>x_sets_done := x_sets_done st + bt_taken_count b\<rparr>) index
                             (\<lambda>x. x\<lparr>bt_completed := True, bt_one_legged := False,
                                    bt_resolved := True\<rparr>))
                          index ''filled'' None))
             else sync_mirrors33
                    (on_batch (st\<lparr>x_sets_done := x_sets_done st + total_count b\<rparr>) index
                       (\<lambda>x. x\<lparr>bt_completed := True, bt_one_legged := False\<rparr>))))"

end
