(* ===== verification/V33_Print_Through.thy ===== *)
theory V33_Print_Through
  imports V33_Wings
begin

text \<open>
  The print-through wings of \<open>v33/core.py\<close>: a bucket print one to \<open>print_through_ticks\<close> cents
  below a resting rung's offer takes that rung's wings early; a stall cancels the pre-hedged
  rests first and then completes the shortfall with a bucket-NO taker or unwinds the wings; a
  wing that does not fill fails closed. A batch the source reads with a bare \<open>next(...)\<close> (which
  would raise were it absent) is read with \<open>find_batch\<close>, and an absent one leaves the state as
  it is.
\<close>

definition pt_active :: "v33_state \<Rightarrow> pt_trigger list" where
  "pt_active st = filter (\<lambda>t. \<not> pt_resolved t) (x_print_through st)"

definition pt_covered_coids :: "v33_state \<Rightarrow> string list" where
  "pt_covered_coids st = concat (map pt_rung_coids (pt_active st))"

fun find_index :: "('a \<Rightarrow> bool) \<Rightarrow> 'a list \<Rightarrow> nat option" where
  "find_index P [] = None"
| "find_index P (x # xs) = (if P x then Some 0 else map_option Suc (find_index P xs))"

definition pt_trigger_index :: "v33_state \<Rightarrow> string \<Rightarrow> nat option" where
  "pt_trigger_index st coid =
     find_index (\<lambda>t. \<not> pt_resolved t \<and> coid \<in> set (pt_rung_coids t)) (x_print_through st)"

definition pt_wing_bids :: "v33_state \<Rightarrow> money option \<times> money option" where
  "pt_wing_bids st =
     ((case x_spot_Sd st of
         None \<Rightarrow> None
       | Some sd \<Rightarrow> (case map_of (x_strike_tops st) sd of None \<Rightarrow> None | Some tb \<Rightarrow> yes_bid tb)),
      (case x_spot_Su st of
         None \<Rightarrow> None
       | Some su \<Rightarrow> (case map_of (x_strike_tops st) su of None \<Rightarrow> None | Some tb \<Rightarrow> no_bid tb)))"

text \<open>The bucket the ladder rests on, else the spot bucket.\<close>

definition rest_or_spot :: "v33_state \<Rightarrow> int option" where
  "rest_or_spot st = (case x_rest_bucket_Sd st of Some b \<Rightarrow> Some b | None \<Rightarrow> x_spot_Sd st)"

definition pt_bucket_no_ask :: "v33_state \<Rightarrow> money option" where
  "pt_bucket_no_ask st =
     (case rest_or_spot st of
        None \<Rightarrow> None
      | Some sd \<Rightarrow> (case map_of (x_bucket_tops st) sd of None \<Rightarrow> None | Some tb \<Rightarrow> no_ask tb))"

definition leg_paid :: "leg33 \<Rightarrow> money" where
  "leg_paid l = (case wl_fill_price l of Some p \<Rightarrow> p | None \<Rightarrow> wl_limit l)"

definition filled_legs :: "v33_state \<Rightarrow> nat \<Rightarrow> leg33 list" where
  "filled_legs st index = filter (\<lambda>l. wl_status l = Filled) (batch_legs33 st index)"

definition batch_wpaid_held :: "v33_state \<Rightarrow> nat \<Rightarrow> money" where
  "batch_wpaid_held st index =
     sum_list (map (\<lambda>l. leg_paid l + fee (leg_paid l)) (filled_legs st index))"

section \<open>The trigger\<close>

definition EPS :: rat where
  "EPS = 1 / 1000000000"

text \<open>A live, acked, uncovered rung whose offer the print approaches from below.\<close>

definition pt_candidate :: "v33_params \<Rightarrow> v33_state \<Rightarrow> money \<Rightarrow> rung_order \<Rightarrow> bool" where
  "pt_candidate params st yes_print r \<longleftrightarrow>
     ro_live r \<and> \<not> ro_pending r \<and> ro_order_id r \<noteq> None \<and>
     ro_coid r \<notin> set (pt_covered_coids st) \<and>
     ro_coid r \<notin> set (map rp_old_coid (x_rolls st)) \<and>
     (let offer = 1 - ro_price r in
      offer - of_int (q_pt_ticks params) * cent - EPS \<le> yes_print \<and>
      yes_print \<le> offer - cent + EPS)"

definition pt_fire ::
  "v33_params \<Rightarrow> v33_state \<Rightarrow> int \<Rightarrow> money \<Rightarrow> money \<Rightarrow> money \<Rightarrow> rung_order list \<Rightarrow> time \<Rightarrow>
     v33_state \<times> v33_action list" where
  "pt_fire params st sd ya na yes_print cands now =
     (let su = sd + q_bucket_width params;
          slack = of_int (q_pt_slack_c params) * cent;
          yes_limit = min (ya + slack) LIMIT_CEILING;
          no_limit = min (na + slack) LIMIT_CEILING;
          count = q_count (sum_list (map ro_count cands));
          w_paid = yes_limit + fee yes_limit + no_limit + fee no_limit;
          lock = sum_list (map (\<lambda>r. ro_count r * lock_value (ro_price r) w_paid) cands);
          idx = x_next_batch_index st;
          (coid_y, st1) = mint_coid33 st;
          (coid_n, st2) = mint_coid33 st1;
          tk_y = ticker_at (x_strike_tickers st2) (Some sd);
          tk_n = ticker_at (x_strike_tickers st2) (Some su);
          batch = \<lparr>bt_index = idx, bt_server_ts = now, bt_fills = [], bt_taken = True,
                   bt_completed = False, bt_one_legged = False, bt_print_through = True,
                   bt_taken_count = count, bt_resolved = False, bt_bucket_Sd = Some sd,
                   bt_retries = 0\<rparr>;
          trig = \<lparr>pt_batch_index = idx, pt_rung_coids = map ro_coid cands,
                  pt_rung_prices = map ro_price cands, pt_count = count, pt_trigger_ts = now,
                  pt_yes_print = yes_print, pt_W_at = x_W st2, pt_n_top_at = x_n_top st2,
                  pt_lock_at = Some lock, pt_yes_ask_at = Some ya, pt_no_ask_at = Some na,
                  pt_filled_coids = [], pt_resolved = False, pt_resolution = None,
                  pt_shortfall = 0, pt_complete_price = None, pt_lock_at_completion = None,
                  pt_roundtrip_cost = None, pt_resolved_ts = None, pt_stall_pending = False,
                  pt_pending_cancels = [], pt_complete_coid = None\<rparr>;
          st3 = sync_mirrors33
                  (st2\<lparr>x_wing_batches := x_wing_batches st2 @ [batch],
                       x_wing_legs := x_wing_legs st2 @
                         [new_leg tk_y BUY_YES count yes_limit coid_y idx,
                          new_leg tk_n BUY_NO count no_limit coid_n idx],
                       x_next_batch_index := idx + 1,
                       x_print_through := x_print_through st2 @ [trig]\<rparr>)
      in (st3, [(mk33 st3 (Inherited TAKE_WINGS))
                  \<lparr>y_legs := [buy_leg tk_y BUY_YES count (Some yes_limit),
                              buy_leg tk_n BUY_NO count (Some no_limit)],
                   y_count := count, y_lock := Some lock\<rparr>]))"

definition print_through_step ::
  "v33_params \<Rightarrow> v33_state \<Rightarrow> trade \<Rightarrow> time \<Rightarrow> v33_state \<times> v33_action list" where
  "print_through_step params st event now =
     (if \<not> q_print_through params \<or> tr_taker_side event \<noteq> ''yes'' then (st, [])
      else case rest_or_spot st of
        None \<Rightarrow> (st, [])
      | Some sd \<Rightarrow>
          if map_of (x_bucket_tickers st) sd \<noteq> Some (tr_market event) then (st, [])
          else if x_rest_allotment_done st \<or> x_stood_down st \<or> x_pt_stood_down st then (st, [])
          else if \<not> in_window33 params st now then (st, [])
          else (case wing_prices_for_bucket st sd (sd + q_bucket_width params) now params of
                  None \<Rightarrow> (st, [])
                | Some (ya, na) \<Rightarrow>
                    (let cands = filter (pt_candidate params st (tr_yes_price event)) (x_ladder st)
                     in if cands = [] then (st, [])
                        else pt_fire params st sd ya na (tr_yes_price event) cands now)))"

section \<open>Latch, taker booking, cancel-first\<close>

definition allotment_spent :: "v33_params \<Rightarrow> v33_state \<Rightarrow> bool" where
  "allotment_spent params st \<longleftrightarrow>
     q_max_sets_per_hour params \<le> int (x_rungs_filled st) \<or>
     (x_ladder st = [] \<and> \<not> x_awaiting_replace st \<and> x_rolls st = [] \<and> x_outstanding_cancels st = 0)"

definition pt_latch_if_done :: "v33_params \<Rightarrow> v33_state \<Rightarrow> v33_state" where
  "pt_latch_if_done params st =
     (if allotment_spent params st then st\<lparr>x_rest_allotment_done := True\<rparr> else st)"

definition rung_weight :: "v33_params \<Rightarrow> int \<Rightarrow> int option" where
  "rung_weight params k =
     (if 0 \<le> k \<and> k < int (length (q_rung_lots params)) then Some (weight_of_rung params k) else None)"

definition batch_rest_bucket :: "v33_state \<Rightarrow> batch33 \<Rightarrow> int option" where
  "batch_rest_bucket st b = (case bt_bucket_Sd b of Some sd \<Rightarrow> Some sd | None \<Rightarrow> rest_or_spot st)"

definition bucket_ticker_of :: "v33_state \<Rightarrow> int option \<Rightarrow> ticker option" where
  "bucket_ticker_of st sd = (case sd of None \<Rightarrow> None | Some s \<Rightarrow> map_of (x_bucket_tickers st) s)"

definition taker_fill ::
  "v33_params \<Rightarrow> v33_state \<Rightarrow> batch33 \<Rightarrow> money \<Rightarrow> lots \<Rightarrow> time \<Rightarrow> rung_fill" where
  "taker_fill params st batch price count now =
     (let sd = batch_rest_bucket st batch;
          rung = (case x_n_top st of None \<Rightarrow> 0 | Some n \<Rightarrow> rung_of n price);
          E = (case x_n_top st of None \<Rightarrow> q_E_min params | Some n \<Rightarrow> e_rung params n price)
      in \<lparr>rg_rung = rung, rg_E_rung = E, rg_price = price, rg_count = count, rg_server_ts = now,
          rg_coid = None, rg_order_id = None, rg_W = x_W st, rg_n_top = x_n_top st,
          rg_bucket_ticker = bucket_ticker_of st sd, rg_bucket_Sd = sd,
          rg_bucket_Su = map_option (\<lambda>s. s + q_bucket_width params) sd, rg_taker = True,
          rg_weight = rung_weight params rung, rg_orphan = False\<rparr>)"

definition pt_book_taker_complete ::
  "v33_params \<Rightarrow> v33_state \<Rightarrow> nat \<Rightarrow> money \<Rightarrow> lots \<Rightarrow> time \<Rightarrow> v33_state" where
  "pt_book_taker_complete params st idx price raw_count now =
     (let count = q_count raw_count in
      if count \<le> 0 then st
      else (case find_batch st (pt_batch_index (x_print_through st ! idx)) of
              None \<Rightarrow> st
            | Some b \<Rightarrow>
                (let rf = taker_fill params st b price count now in
                 on_batch (st\<lparr>x_rest_fills := x_rest_fills st @ [rf],
                              x_rungs_filled := x_rungs_filled st + 1\<rparr>)
                   (bt_index b) (\<lambda>x. x\<lparr>bt_fills := bt_fills b @ [rf]\<rparr>))))"

text \<open>
  One pre-hedged rung still resting: cancelled, remembered, its price held, its margin consumed.
\<close>

definition consume_margin :: "v33_params \<Rightarrow> v33_state \<Rightarrow> money \<Rightarrow> nat list \<Rightarrow> nat list" where
  "consume_margin params st price ms =
     (case x_n_top st of
        None \<Rightarrow> ms
      | Some n \<Rightarrow>
          (let m = margin_of params n price in
           if 0 \<le> m \<and> m < int (length ms) then ms[nat m := 2] else ms))"

definition pt_cancel_one ::
  "v33_params \<Rightarrow> v33_state \<Rightarrow> string \<Rightarrow> v33_state \<times> v33_action list \<times> string list" where
  "pt_cancel_one params st coid =
     (case order_by_coid st coid of
        None \<Rightarrow> (st, [], [])
      | Some r \<Rightarrow>
          (let st1 = note_cancelled st r;
               oids = (case ro_order_id r of None \<Rightarrow> [] | Some i \<Rightarrow> [i]);
               st2 = st1\<lparr>x_margin_state := consume_margin params st1 (ro_price r) (x_margin_state st1),
                         x_ladder := drop_order (x_ladder st1) coid,
                         x_outstanding_cancels :=
                           x_outstanding_cancels st1 + (if ro_order_id r \<noteq> None \<and> ro_order_id r \<noteq> Some []
                                                        then 1 else 0)\<rparr>
           in (st2, [cancel_action33 st r], oids)))"

fun pt_cancel_rungs ::
  "v33_params \<Rightarrow> v33_state \<Rightarrow> string list \<Rightarrow> v33_state \<times> v33_action list \<times> string list" where
  "pt_cancel_rungs params st [] = (st, [], [])"
| "pt_cancel_rungs params st (c # cs) =
     (let (st1, a1, o1) = pt_cancel_one params st c;
          (st2, a2, o2) = pt_cancel_rungs params st1 cs
      in (st2, a1 @ a2, o1 @ o2))"

definition pt_cancel_unfilled ::
  "v33_params \<Rightarrow> v33_state \<Rightarrow> pt_trigger \<Rightarrow> v33_state \<times> v33_action list \<times> string list" where
  "pt_cancel_unfilled params st trig = pt_cancel_rungs params st (pt_rung_coids trig)"

section \<open>Complete and unwind\<close>

definition pt_complete ::
  "v33_params \<Rightarrow> v33_state \<Rightarrow> nat \<Rightarrow> lots \<Rightarrow> money \<Rightarrow> money \<Rightarrow> time \<Rightarrow> v33_state \<times> v33_action list" where
  "pt_complete params st idx raw_shortfall no_ask_px lock_per now =
     (let shortfall = q_count raw_shortfall;
          bi = pt_batch_index (x_print_through st ! idx);
          bt = (case find_batch st bi of
                  None \<Rightarrow> None
                | Some b \<Rightarrow> bucket_ticker_of st (batch_rest_bucket st b));
          tk = (case bt of None \<Rightarrow> '''' | Some t \<Rightarrow> t);
          resolve = (\<lambda>cc t. t\<lparr>pt_resolved := True, pt_resolution := Some ''complete'',
                       pt_shortfall := shortfall, pt_complete_price := Some no_ask_px,
                       pt_lock_at_completion := Some lock_per, pt_resolved_ts := Some now,
                       pt_complete_coid := cc\<rparr>);
          (cc, st3) =
            (if x_shakedown st then
               (None,
                pt_latch_if_done params
                  (maybe_close_set33
                    (replace_pt (pt_book_taker_complete params st idx no_ask_px shortfall now) idx
                      (\<lambda>t. resolve (pt_complete_coid t) t)) bi))
             else (let (coid, st1) = mint_coid33 st in
                   (Some coid, replace_pt st1 idx (resolve (Some coid)))))
      in (st3, [(mk33 st3 TAKE_BUCKET_NO)
                  \<lparr>y_legs := [buy_leg tk BUY_NO shortfall (Some no_ask_px)], y_ticker := Some tk,
                   y_side := Some BUY_NO, y_action := Some ''buy'', y_count := shortfall,
                   y_price := Some no_ask_px, y_coid := cc\<rparr>]))"

text \<open>Selling \<open>n\<close> lots of a filled leg: the order when there is a bid, and the round-trip cost.\<close>

definition sell_leg ::
  "money option \<times> money option \<Rightarrow> lots \<Rightarrow> lots \<Rightarrow> leg33 \<Rightarrow> leg_order33 list \<times> money" where
  "sell_leg bids n sold l =
     (let paid = leg_paid l in
      case (if wl_side l = BUY_YES then fst bids else snd bids) of
        Some bid \<Rightarrow>
          ([\<lparr>lg_ticker = wl_ticker l, lg_side = wl_side l, lg_action = ''sell'', lg_count = q_count n,
             lg_limit = Some bid\<rparr>],
           ((paid + fee paid) - (bid - fee bid)) * sold)
      | None \<Rightarrow> ([], (paid + fee paid) * sold))"

definition unwind_sales ::
  "money option \<times> money option \<Rightarrow> lots option \<Rightarrow> leg33 list \<Rightarrow> leg_order33 list \<times> money" where
  "unwind_sales bids each legs =
     (let sells = map (\<lambda>l. let n = (case each of Some e \<Rightarrow> e | None \<Rightarrow> wl_count l) in
                           if n \<le> 0 then ([], 0) else sell_leg bids n (q_count n) l) legs
      in (concat (map fst sells), sum_list (map snd sells)))"

definition max_count :: "leg_order33 list \<Rightarrow> lots" where
  "max_count legs = (case legs of [] \<Rightarrow> 0 | l # ls \<Rightarrow> foldl (\<lambda>c x. max c (lg_count x)) (lg_count l) ls)"

text \<open>Shrinking the filled legs of a batch to the hedged lots.\<close>

definition shrink_legs :: "nat \<Rightarrow> lots \<Rightarrow> leg33 list \<Rightarrow> leg33 list" where
  "shrink_legs index n legs =
     map (\<lambda>l. if wl_batch l = index \<and> wl_status l = Filled then l\<lparr>wl_count := n\<rparr> else l) legs"

text \<open>The batch is flat (or one-legged): it and its legs leave the books.\<close>

definition drop_batch ::
  "v33_state \<Rightarrow> nat \<Rightarrow> nat \<Rightarrow> (pt_trigger \<Rightarrow> pt_trigger) \<Rightarrow> v33_state" where
  "drop_batch st index idx f =
     replace_pt
       (st\<lparr>x_wing_batches := filter (\<lambda>b. bt_index b \<noteq> index) (x_wing_batches st),
           x_wing_legs := filter (\<lambda>l. wl_batch l \<noteq> index) (x_wing_legs st)\<rparr>) idx f"

definition pt_unwind ::
  "v33_params \<Rightarrow> v33_state \<Rightarrow> nat \<Rightarrow> time \<Rightarrow> string \<Rightarrow> v33_state \<times> v33_action list" where
  "pt_unwind params st idx now resolution =
     (let trig = x_print_through st ! idx in
      case find_batch st (pt_batch_index trig) of
        None \<Rightarrow> (st, [])
      | Some b \<Rightarrow>
          (let legs = filled_legs st (bt_index b);
               lots = total_count b;
               each = (if length legs = 2 then Some (wl_count (hd legs) - lots) else None);
               (sells, roundtrip) = unwind_sales (pt_wing_bids st) each legs;
               resolve = (\<lambda>short t. t\<lparr>pt_shortfall := short, pt_roundtrip_cost := Some roundtrip,
                            pt_resolved := True, pt_resolution := Some resolution,
                            pt_resolved_ts := Some now\<rparr>);
               st1 = (case each of
                        Some e \<Rightarrow>
                          if 0 < lots then
                            maybe_close_set33
                              (replace_pt
                                (on_batch (st\<lparr>x_wing_legs := shrink_legs (bt_index b) lots (x_wing_legs st)\<rparr>)
                                   (bt_index b) (\<lambda>x. x\<lparr>bt_taken_count := lots\<rparr>))
                                idx (resolve (q_count e))) (bt_index b)
                          else drop_batch st (bt_index b) idx (resolve (q_count (pt_count trig - lots)))
                      | None \<Rightarrow>
                          drop_batch st (bt_index b) idx (resolve (q_count (pt_count trig - lots))))
           in (st1, if sells = [] then []
                    else [(mk33 st1 UNWIND_WINGS)\<lparr>y_legs := sells, y_count := max_count sells\<rparr>])))"

section \<open>The stall\<close>

definition complete_wanted ::
  "v33_params \<Rightarrow> v33_state \<Rightarrow> batch33 \<Rightarrow> (money \<times> money) option" where
  "complete_wanted params st b =
     (case pt_bucket_no_ask st of
        None \<Rightarrow> None
      | Some px \<Rightarrow>
          (let lock = lock_value px (batch_wpaid_held st (bt_index b)) in
           if q_pt_policy params \<noteq> ''unwind'' \<and>
              (0 < total_count b \<or> of_int (q_pt_min_lock_c params) * cent \<le> lock)
           then Some (px, lock) else None))"

definition pt_finalize_stall ::
  "v33_params \<Rightarrow> v33_state \<Rightarrow> nat \<Rightarrow> time \<Rightarrow> v33_state \<times> v33_action list" where
  "pt_finalize_stall params st0 idx now =
     (let trig = x_print_through st0 ! idx; bi = pt_batch_index trig in
      if pt_resolved trig then (st0, [])
      else
        (let st = replace_pt st0 idx (\<lambda>t. t\<lparr>pt_stall_pending := False\<rparr>) in
         case find_batch st bi of
           None \<Rightarrow> (pt_mark_resolution st bi ''filled'' (Some now), [])
         | Some b \<Rightarrow>
             (let shortfall = pt_count trig - total_count b in
              if shortfall \<le> 0 then
                (sync_mirrors33
                   (pt_mark_resolution (maybe_close_set33 st (bt_index b)) (bt_index b) ''filled''
                      (Some now)), [])
              else
                (let (st1, a) =
                   (case complete_wanted params st b of
                      Some (px, lock) \<Rightarrow> pt_complete params st idx (q_count shortfall) px lock now
                    | None \<Rightarrow> pt_unwind params st idx now ''unwind'')
                 in (sync_mirrors33 st1, a)))))"

definition pt_begin_stall ::
  "v33_params \<Rightarrow> v33_state \<Rightarrow> nat \<Rightarrow> time \<Rightarrow> v33_state \<times> v33_action list" where
  "pt_begin_stall params st idx now =
     (let (st1, ca, oids) = pt_cancel_unfilled params st (x_print_through st ! idx);
          st2 = replace_pt st1 idx (\<lambda>t. t\<lparr>pt_stall_pending := True, pt_pending_cancels := oids\<rparr>)
      in if oids = [] then (let (st3, fa) = pt_finalize_stall params st2 idx now in (st3, ca @ fa))
         else (st2, ca))"

definition pt_confirm_one ::
  "v33_params \<Rightarrow> v33_state \<Rightarrow> string \<Rightarrow> nat \<Rightarrow> time \<Rightarrow> v33_state \<times> v33_action list" where
  "pt_confirm_one params st oid idx now =
     (let t = x_print_through st ! idx in
      if \<not> pt_stall_pending t \<or> pt_resolved t \<or> oid \<notin> set (pt_pending_cancels t) then (st, [])
      else
        (let remaining = filter (\<lambda>i. i \<noteq> oid) (pt_pending_cancels t);
             st1 = replace_pt st idx (\<lambda>x. x\<lparr>pt_pending_cancels := remaining\<rparr>)
         in if remaining = [] then pt_finalize_stall params st1 idx now else (st1, [])))"

fun over_triggers ::
  "(v33_state \<Rightarrow> nat \<Rightarrow> v33_state \<times> v33_action list) \<Rightarrow> v33_state \<Rightarrow> nat list \<Rightarrow>
     v33_state \<times> v33_action list" where
  "over_triggers f st [] = (st, [])"
| "over_triggers f st (i # is) =
     (let (st1, a1) = f st i; (st2, a2) = over_triggers f st1 is in (st2, a1 @ a2))"

definition pt_on_cancel_confirmed ::
  "v33_params \<Rightarrow> v33_state \<Rightarrow> string option \<Rightarrow> time \<Rightarrow> v33_state \<times> v33_action list" where
  "pt_on_cancel_confirmed params st oid now =
     (case oid of
        None \<Rightarrow> (st, [])
      | Some i \<Rightarrow> over_triggers (\<lambda>s idx. pt_confirm_one params s i idx now) st
                    [0 ..< length (x_print_through st)])"

definition pt_fail_closed ::
  "v33_params \<Rightarrow> v33_state \<Rightarrow> nat \<Rightarrow> time \<Rightarrow> v33_state \<times> v33_action list" where
  "pt_fail_closed params st batch_index now =
     (case find_index (\<lambda>t. pt_batch_index t = batch_index \<and> \<not> pt_resolved t) (x_print_through st) of
        None \<Rightarrow> (st, [])
      | Some idx \<Rightarrow>
          (let (st1, ca, _) = pt_cancel_unfilled params st (x_print_through st ! idx);
               (st2, ua) = pt_unwind params st1 idx now ''partial'';
               (st3, sd) = standdown33
                 (st2\<lparr>x_pt_stood_down := True, x_stood_down := True, x_pt_one_legged := True\<rparr>)
                 ''print_through_partial''
           in (sync_mirrors33 st3, ca @ ua @ sd)))"

definition pt_stall_one ::
  "v33_params \<Rightarrow> time \<Rightarrow> v33_state \<Rightarrow> nat \<Rightarrow> v33_state \<times> v33_action list" where
  "pt_stall_one params now st idx =
     (let t = x_print_through st ! idx in
      if pt_resolved t \<or> pt_stall_pending t then (st, [])
      else (case find_batch st (pt_batch_index t) of
              None \<Rightarrow> (st, [])
            | Some b \<Rightarrow>
                if bt_completed b \<or> pt_count t \<le> total_count b \<or>
                   now - pt_trigger_ts t < of_int (q_pt_stall_ms params) / 1000
                then (st, [])
                else
                  (let legs = batch_legs33 st (bt_index b) in
                   if legs = [] \<or> list_ex (\<lambda>l. wl_status l \<noteq> Filled) legs
                   then pt_fail_closed params st (bt_index b) now
                   else pt_begin_stall params st idx now)))"

definition pt_stall_step ::
  "v33_params \<Rightarrow> v33_state \<Rightarrow> time \<Rightarrow> v33_state \<times> v33_action list" where
  "pt_stall_step params st now =
     (if \<not> q_print_through params then (st, [])
      else over_triggers (pt_stall_one params now) st [0 ..< length (x_print_through st)])"

section \<open>The taker's response\<close>

definition unwind_short ::
  "v33_state \<Rightarrow> nat \<Rightarrow> pt_trigger \<Rightarrow> lots \<Rightarrow> batch33 \<Rightarrow> v33_state \<times> v33_action list" where
  "unwind_short st idx t short b =
     (let hedged = total_count b;
          sells = map (sell_leg (pt_wing_bids st) short short) (filled_legs st (bt_index b));
          legs_sell = concat (map fst sells);
          roundtrip = (case pt_roundtrip_cost t of None \<Rightarrow> 0 | Some c \<Rightarrow> c) + sum_list (map snd sells);
          st1 = (replace_pt
                  (on_batch (st\<lparr>x_wing_legs := shrink_legs (bt_index b) hedged (x_wing_legs st)\<rparr>)
                     (bt_index b) (\<lambda>x. x\<lparr>bt_taken_count := hedged\<rparr>))
                  idx (\<lambda>x. x\<lparr>pt_roundtrip_cost := Some roundtrip\<rparr>))
                  \<lparr>x_pt_stood_down := True, x_stood_down := True, x_pt_one_legged := True\<rparr>;
          (st2, sd) = standdown33 st1 ''print_through_complete_short''
      in (st2, (if legs_sell = [] then []
                else [(mk33 st1 UNWIND_WINGS)
                        \<lparr>y_legs := legs_sell, y_count := of_int (py_trunc short)\<rparr>]) @ sd))"

definition pt_apply_complete_fill ::
  "v33_params \<Rightarrow> v33_state \<Rightarrow> v33_fill \<Rightarrow> time \<Rightarrow> (v33_state \<times> v33_action list) option" where
  "pt_apply_complete_fill params st event now =
     (case find_index (\<lambda>t. pt_complete_coid t \<noteq> None \<and> pt_complete_coid t = vf_coid event)
             (x_print_through st) of
        None \<Rightarrow> None
      | Some i \<Rightarrow>
          (let t = x_print_through st ! i;
               got = q_count (vf_count event);
               price = (case vf_price event of
                          Some p \<Rightarrow> p
                        | None \<Rightarrow> (case pt_complete_price t of Some p \<Rightarrow> p | None \<Rightarrow> 0));
               st1 = replace_pt (pt_book_taker_complete params st i price got now) i
                       (\<lambda>x. x\<lparr>pt_complete_coid := None\<rparr>);
               short = q_count (pt_shortfall t) - got;
               (st2, acts) =
                 (case find_batch st1 (pt_batch_index t) of
                    Some b \<Rightarrow> if 0 < short then unwind_short st1 i t short b else (st1, [])
                  | None \<Rightarrow> (st1, []));
               st3 = pt_latch_if_done params (maybe_close_set33 st2 (pt_batch_index t))
           in Some (sync_mirrors33 st3, acts)))"

end
