(* ===== verification/V33_Fills.thy ===== *)
theory V33_Fills
  imports V33_Print_Through
begin

text \<open>
  Booking rung fills (\<open>_book_rung_fill\<close>, \<open>_book_orphan_fill\<close>, \<open>_apply_orphan_fill\<close> of
  \<open>v33/core.py\<close>): the bucket a fill hedges is the order's own, the retained one or the one its
  market ticker names, never the current spot; an unnamed bucket stands the hour down without a
  hedge; a fill on an order the core lost is booked once and hedged.
\<close>

section \<open>Attribution\<close>

definition sd_for_bucket_ticker :: "v33_state \<Rightarrow> ticker option \<Rightarrow> int option" where
  "sd_for_bucket_ticker st tk =
     (case tk of
        None \<Rightarrow> None
      | Some t \<Rightarrow> if t = [] then None
                  else map_option fst (find (\<lambda>(sd, tk'). tk' = t) (x_bucket_tickers st)))"

definition fill_bucket ::
  "v33_state \<Rightarrow> rung_order option \<Rightarrow> int option \<Rightarrow> ticker option \<Rightarrow> int option" where
  "fill_bucket st ord retained tk =
     (case (case ord of None \<Rightarrow> None | Some r \<Rightarrow> ro_bucket_Sd r) of
        Some sd \<Rightarrow> Some sd
      | None \<Rightarrow> (case retained of Some sd \<Rightarrow> Some sd | None \<Rightarrow> sd_for_bucket_ticker st tk))"

section \<open>Booking a rung fill\<close>

text \<open>The rung the fill is labelled with: derived from its price when \<open>n_top\<close> is known.\<close>

definition fill_rung :: "v33_params \<Rightarrow> v33_state \<Rightarrow> money \<Rightarrow> int \<Rightarrow> int" where
  "fill_rung params st price rung =
     (case x_n_top st of
        Some n \<Rightarrow> margin_of params n price - emin_cents params
      | None \<Rightarrow> rung)"

definition fill_E :: "v33_params \<Rightarrow> v33_state \<Rightarrow> money \<Rightarrow> money \<Rightarrow> money" where
  "fill_E params st price E =
     (case x_n_top st of
        Some n \<Rightarrow> q_E_min params + of_int (margin_of params n price - emin_cents params) * cent
      | None \<Rightarrow> E)"

definition fill_ladder :: "rung_order list \<Rightarrow> string \<Rightarrow> lots \<Rightarrow> rung_order list" where
  "fill_ladder ladder coid delta =
     (case find (\<lambda>r. ro_coid r = coid) ladder of
        None \<Rightarrow> ladder
      | Some r \<Rightarrow>
          (let remaining = q_count (ro_count r - delta) in
           if remaining \<le> 0 then drop_order ladder coid
           else replace_order ladder coid (\<lambda>x. x\<lparr>ro_count := remaining\<rparr>)))"

definition rung_fill_of ::
  "v33_params \<Rightarrow> v33_state \<Rightarrow> string \<Rightarrow> money \<Rightarrow> lots \<Rightarrow> int \<Rightarrow> money \<Rightarrow> time \<Rightarrow> int option \<Rightarrow> bool \<Rightarrow>
     string option \<Rightarrow> rung_fill" where
  "rung_fill_of params st coid price delta rung E now sd orphan oid =
     \<lparr>rg_rung = fill_rung params st price rung, rg_E_rung = fill_E params st price E,
      rg_price = price, rg_count = q_count delta, rg_server_ts = now, rg_coid = Some coid,
      rg_order_id = (case order_by_coid st coid of Some r \<Rightarrow> ro_order_id r | None \<Rightarrow> oid),
      rg_W = x_W st, rg_n_top = x_n_top st, rg_bucket_ticker = bucket_ticker_of st sd,
      rg_bucket_Sd = sd, rg_bucket_Su = map_option (\<lambda>s. s + q_bucket_width params) sd,
      rg_taker = False,
      rg_weight = (if orphan then None else rung_weight params (fill_rung params st price rung)),
      rg_orphan = orphan\<rparr>"

text \<open>The records of the fill: ladder, fills, booked lots, and the consumed margin slot.\<close>

definition record_fill ::
  "v33_params \<Rightarrow> v33_state \<Rightarrow> string \<Rightarrow> rung_fill \<Rightarrow> lots \<Rightarrow> v33_state" where
  "record_fill params st coid rf delta =
     (let m = emin_cents params + rg_rung rf;
          hit = (\<not> rg_orphan rf \<and> 0 \<le> m \<and> m < int (length (x_margin_state st)))
      in st\<lparr>x_ladder := fill_ladder (x_ladder st) coid delta,
            x_rest_fills := x_rest_fills st @ [rf],
            x_rungs_filled := x_rungs_filled st + 1,
            x_rest_booked :=
              AList.update coid (q_count (dict_get_default (x_rest_booked st) coid 0 + delta))
                (x_rest_booked st),
            x_margin_state := (if hit then (x_margin_state st)[nat m := 2] else x_margin_state st),
            x_filled_at := (if hit then AList.update m rf (x_filled_at st) else x_filled_at st)\<rparr>)"

text \<open>A fill whose bucket cannot be named: booked, never hedged, the hour stood down.\<close>

definition book_unnamed :: "v33_state \<Rightarrow> v33_state \<times> v33_action list" where
  "book_unnamed st0 =
     (let st = st0\<lparr>x_bucket_unknown := True, x_stood_down := True, x_rest_allotment_done := True\<rparr>;
          (st1, ca) = (if x_ladder st \<noteq> [] then cancel_all st False else (st, []));
          (st2, sa) = standdown33 st1 ''fill_bucket_unknown''
      in (sync_mirrors33 st2, ca @ sa))"

text \<open>A named fill joins the batch of the trigger that pre-hedged it, else the open group.\<close>

definition attach_fill ::
  "v33_params \<Rightarrow> v33_state \<Rightarrow> string \<Rightarrow> rung_fill \<Rightarrow> time \<Rightarrow> v33_state" where
  "attach_fill params st coid rf now =
     (case pt_trigger_index st coid of
        Some i \<Rightarrow>
          (let bi = pt_batch_index (x_print_through st ! i) in
           maybe_close_set33
             (replace_pt (on_batch st bi (\<lambda>b. b\<lparr>bt_fills := bt_fills b @ [rf]\<rparr>)) i
                (\<lambda>t. t\<lparr>pt_filled_coids := pt_filled_coids t @ [coid]\<rparr>)) bi)
      | None \<Rightarrow> coalesce_add params st rf now)"

definition book_rung_fill ::
  "v33_params \<Rightarrow> v33_state \<Rightarrow> string \<Rightarrow> money \<Rightarrow> lots \<Rightarrow> int \<Rightarrow> money \<Rightarrow> time \<Rightarrow> int option \<Rightarrow>
     ticker option \<Rightarrow> bool \<Rightarrow> string option \<Rightarrow> v33_state \<times> v33_action list" where
  "book_rung_fill params st coid price raw_delta rung E now retained tk orphan oid =
     (let delta = q_count raw_delta;
          sd = fill_bucket st (order_by_coid st coid) retained tk;
          rf = rung_fill_of params st coid price delta rung E now sd orphan oid;
          st1 = record_fill params st coid rf delta
      in if sd = None then book_unnamed st1
         else
           (let st2 = pt_latch_if_done params (attach_fill params st1 coid rf now);
                (st3, wa) = wing_step33 params st2 now
            in (sync_mirrors33 st3, wa)))"

section \<open>Fills on orders the core lost\<close>

definition alarm33 ::
  "string \<Rightarrow> string option \<Rightarrow> string option \<Rightarrow> ticker option \<Rightarrow> lots \<Rightarrow> money option \<Rightarrow> v33_action" where
  "alarm33 reason coid oid tk count price =
     (blank_action33 ALARM)
       \<lparr>y_reason := Some reason, y_coid := coid, y_order_id := oid, y_ticker := tk, y_count := count,
        y_price := price\<rparr>"

definition book_orphan_fill ::
  "v33_params \<Rightarrow> v33_state \<Rightarrow> string \<Rightarrow> string option \<Rightarrow> money \<Rightarrow> lots \<Rightarrow> ticker option \<Rightarrow> time \<Rightarrow>
     int option \<Rightarrow> v33_state \<times> v33_action list" where
  "book_orphan_fill params st coid oid price delta tk now retained =
     (let (rung, legit, E) =
        (case x_n_top st of
           Some n \<Rightarrow> (rung_of n price, 0 \<le> rung_of n price \<and> rung_of n price < q_rungs params,
                      e_rung params n price)
         | None \<Rightarrow> (0, False, q_E_min params));
          (st1, wa) =
            book_rung_fill params st coid price delta rung E now retained tk (\<not> legit) oid
      in (st1, alarm33 ''orphan_rung_fill_hedged'' (Some coid) oid tk delta (Some price) # wa))"

definition ctx_for_coid :: "v33_state \<Rightarrow> string \<Rightarrow> (string \<times> cancel_ctx33) option" where
  "ctx_for_coid st coid = find (\<lambda>(oid, c). fst c = coid) (x_cancel_ctx st)"

definition ctx_bucket :: "cancel_ctx33 \<Rightarrow> int option" where
  "ctx_bucket c = (case c of (_, _, _, _, sd) \<Rightarrow> sd)"

text \<open>
  The lots of an off-ladder report that are new. The poll's count is already the excess over
  what is booked; an increment is first added to everything the coid has reported.
\<close>

definition orphan_delta :: "v33_state \<Rightarrow> string \<Rightarrow> string option \<Rightarrow> lots \<Rightarrow> v33_state \<times> lots" where
  "orphan_delta st coid source count =
     (let booked = q_count (dict_get_default (x_rest_booked st) coid 0) in
      if source = Some ''poll'' then (st, count)
      else
        (let seen = q_count (dict_get_default (x_fill_seen st) coid 0 + count)
         in (st\<lparr>x_fill_seen := AList.update coid seen (x_fill_seen st)\<rparr>, min count (seen - booked))))"

definition apply_orphan_fill ::
  "v33_params \<Rightarrow> v33_state \<Rightarrow> v33_fill \<Rightarrow> time \<Rightarrow> v33_state \<times> v33_action list" where
  "apply_orphan_fill params st event now =
     (let count = q_count (vf_count event); tk = vf_market event in
      case vf_coid event of
        None \<Rightarrow> (st, [])
      | Some coid \<Rightarrow>
          if count \<le> 0 then (st, [])
          else
            (case vf_price event of
               None \<Rightarrow> (st, [alarm33 ''orphan_rung_fill_unpriced'' (Some coid) (vf_order_id event) tk
                               count None])
             | Some price \<Rightarrow>
                 (let ctx = ctx_for_coid st coid in
                  if ctx = None \<and> tk \<noteq> None \<and> tk \<noteq> Some [] \<and> sd_for_bucket_ticker st tk = None
                  then (st, [alarm33 ''orphan_fill_not_bucket'' (Some coid) (vf_order_id event) tk
                               count (Some price)])
                  else
                    (let (st1, delta) = orphan_delta st coid (vf_source event) count in
                     if delta \<le> 0 then (st1, [])
                     else
                       (let retained = (case ctx of None \<Rightarrow> None | Some (i, c) \<Rightarrow> ctx_bucket c);
                            oid = (case vf_order_id event of
                                     Some i \<Rightarrow> Some i | None \<Rightarrow> map_option fst ctx)
                        in book_orphan_fill params st1 coid oid price delta tk now retained)))))"

end
