(* ===== verification/V33_Core.thy ===== *)
theory V33_Core
  imports V33_Fills Decision_Core
begin

text \<open>
  The convergence (\<open>_converge\<close>) and the event handlers of \<open>v33/core.py\<close>, with the dispatcher
  \<open>decide_v33\<close>. Each tick drives the live orders toward one order per placeable open slot of
  the margin array, at most \<open>max_amends_in_flight\<close> moves at a time; the gates before it cancel,
  hold or stand down.
\<close>

section \<open>The quote gate\<close>

text \<open>\<open>Warmup33\<close> is the early return before the window opens.\<close>

datatype quote_gate33 = Warmup33 | NoQuote33 string | Healthy33 money

definition quote_gate33_of :: "v33_params \<Rightarrow> v33_state \<Rightarrow> time \<Rightarrow> quote_gate33" where
  "quote_gate33_of params st now =
     (let t_to_close = of_int (x_close_epoch st) - now in
      if x_stood_down st then NoQuote33 ''stood_down''
      else if t_to_close < of_int (q_quote_end_s params) then NoQuote33 ''past_quote_end''
      else if of_int (q_quote_start_s params) < t_to_close then Warmup33
      else if x_spot_Sd st = None then NoQuote33 ''no_spot_bucket''
      else if x_spot_bucket_stale st then NoQuote33 ''stale_bucket''
      else if x_W st = None then NoQuote33 ''stale_or_missing_wing''
      else (case x_n_top st of
              None \<Rightarrow> NoQuote33 ''n_below_min''
            | Some n \<Rightarrow> if n < q_n_min params then NoQuote33 ''n_below_min'' else Healthy33 n))"

text \<open>
  A no-quote tick: a stale or missing wing holds a live ladder up to \<open>stand_down_hold_ms\<close>;
  every other reason, and an expired hold, cancels the ladder with tracked cancels.
\<close>

definition plain_no_quote :: "v33_state \<Rightarrow> string \<Rightarrow> v33_state \<times> v33_action list" where
  "plain_no_quote st0 reason =
     (let st = (if x_hold_since st0 \<noteq> None
                then st0\<lparr>x_hold_reason := None, x_hold_since := None\<rparr> else st0);
          (st1, ca) = cancel_all_then_replace st;
          (st2, sa) = standdown33 st1 reason
      in (st2, ca @ sa))"

definition no_quote_step ::
  "v33_params \<Rightarrow> v33_state \<Rightarrow> string \<Rightarrow> time \<Rightarrow> v33_state \<times> v33_action list" where
  "no_quote_step params st reason now =
     (if reason = ''stale_or_missing_wing'' \<and> 0 < q_stand_down_hold_ms params \<and>
         (x_ladder st \<noteq> [] \<or> x_rolls st \<noteq> []) then
        (case x_hold_since st of
           None \<Rightarrow>
             (st\<lparr>x_hold_reason := Some reason, x_hold_since := Some now,
                 x_hold_sub_cause := x_wing_sub_cause st\<rparr>,
              [standdown_note ''stale_or_missing_wing_hold''])
         | Some t \<Rightarrow>
             if (now - t) * 1000 < of_int (q_stand_down_hold_ms params) then (st, [])
             else
               (let (st1, ca) = cancel_all_then_replace
                  (st\<lparr>x_hold_reason := None, x_hold_since := None,
                      x_last_standdown_reason := Some ''stale_or_missing_wing'',
                      x_stand_down_reason := Some ''stale_or_missing_wing''\<rparr>)
                in (st1, ca @ [standdown_note ''stale_or_missing_wing_cancel''])))
      else plain_no_quote st reason)"

section \<open>The convergence\<close>

text \<open>Target price to margin, for each placeable open slot.\<close>

definition targets :: "v33_params \<Rightarrow> v33_state \<Rightarrow> money \<Rightarrow> (money, int) dict" where
  "targets params st n_top =
     foldl (\<lambda>d (m, price). AList.update price m d) [] (placeable_open_slots params st n_top)"

text \<open>Live orders off every target, neither moving, pre-hedged nor partially filled.\<close>

definition out_orders :: "v33_state \<Rightarrow> (money, int) dict \<Rightarrow> rung_order list" where
  "out_orders st target =
     filter (\<lambda>r. ro_live r \<and> ro_order_id r \<noteq> None \<and>
                 ro_coid r \<notin> set (map rp_old_coid (x_rolls st)) \<and>
                 ro_price r \<notin> set (dict_keys target) \<and>
                 ro_coid r \<notin> set (pt_covered_coids st) \<and>
                 dict_get_default (x_rest_booked st) (ro_coid r) 0 = 0) (x_ladder st)"

text \<open>Targets with no committed order and no held price, deepest first.\<close>

definition vacant_prices :: "v33_state \<Rightarrow> (money, int) dict \<Rightarrow> money list" where
  "vacant_prices st target =
     sort (filter (\<lambda>p. p \<notin> set (map ro_price (x_ladder st)) \<and>
                       p \<notin> set (map rp_target_price (x_rolls st)) \<and>
                       p \<notin> set (held_cancel_prices st)) (dict_keys target))"

definition move_direction ::
  "v33_params \<Rightarrow> v33_state \<Rightarrow> money \<Rightarrow> rung_order list \<Rightarrow> int" where
  "move_direction params st n_top out =
     (let span = open_slots st;
          min_open = (if span \<noteq> [] then hd span else emin_cents params);
          max_open = (if span \<noteq> [] then last span else emin_cents params + q_rungs params - 1)
      in if out \<noteq> [] then
           (let below = length (filter (\<lambda>r. margin_of params n_top (ro_price r) < min_open) out);
                above = length (filter (\<lambda>r. max_open < margin_of params n_top (ro_price r)) out)
            in if above \<le> below then -1 else 1)
         else if x_converging_dir st \<noteq> 0 then x_converging_dir st else 1)"

text \<open>One amend per pair, deepest order to deepest vacant target.\<close>

fun roll_pairs ::
  "v33_params \<Rightarrow> (money, int) dict \<Rightarrow> time \<Rightarrow> v33_state \<Rightarrow> (rung_order \<times> money) list \<Rightarrow>
     v33_state \<times> v33_action list" where
  "roll_pairs params target now st [] = (st, [])"
| "roll_pairs params target now st ((r, p) # ps) =
     (let (st1, rp, a) = emit_roll params st r p (dict_get_default target p 0) now;
          (st2, as) = roll_pairs params target now (st1\<lparr>x_rolls := x_rolls st1 @ [rp]\<rparr>) ps
      in (st2, a # as))"

fun shrink_orders :: "v33_state \<Rightarrow> rung_order list \<Rightarrow> v33_state \<times> v33_action list" where
  "shrink_orders st [] = (st, [])"
| "shrink_orders st (r # rs) =
     (let st1 = note_cancelled st r;
          st2 = st1\<lparr>x_ladder := drop_order (x_ladder st1) (ro_coid r),
                    x_outstanding_cancels :=
                      x_outstanding_cancels st1 + (if ro_order_id r \<noteq> None \<and> ro_order_id r \<noteq> Some []
                                                   then 1 else 0)\<rparr>;
          (st3, as) = shrink_orders st2 rs
      in (st3, cancel_action33 st1 r # as))"

fun create_orders ::
  "v33_params \<Rightarrow> (money, int) dict \<Rightarrow> time \<Rightarrow> v33_state \<Rightarrow> money list \<Rightarrow> v33_state \<times> v33_action list" where
  "create_orders params target now st [] = (st, [])"
| "create_orders params target now st (p # ps) =
     (let m = dict_get_default target p 0; w = weight_of_margin params m in
      if w \<le> 0 then create_orders params target now st ps
      else if of_int (allotment params) < filled_contracts st + resting_contracts st + of_int w
      then (st, [])
      else
        (let rung = m - emin_cents params;
             (st1, a1) =
               place_one params st p rung (q_E_min params + of_int rung * cent) now (of_int w);
             (st2, a2) = create_orders params target now st1 ps
         in (st2, a1 @ a2)))"

definition converge_moves ::
  "v33_params \<Rightarrow> v33_state \<Rightarrow> (money, int) dict \<Rightarrow> rung_order list \<Rightarrow> money list \<Rightarrow> nat \<Rightarrow> time \<Rightarrow>
     v33_state \<times> v33_action list \<times> v33_action list" where
  "converge_moves params st target out vacant budget now =
     (let outs = sort_key ro_price out;
          pairs = min (min (length outs) (length vacant)) budget;
          remaining = budget - pairs;
          (st1, a1) = roll_pairs params target now st (zip (take pairs outs) vacant);
          (st2, a2) =
            (if 0 < remaining \<and> pairs < length outs
             then shrink_orders st1 (take remaining (drop pairs outs))
             else if 0 < remaining \<and> pairs < length vacant
             then create_orders params target now st1 (take remaining (drop pairs vacant))
             else (st1, []))
      in (st2, a1, a2))"

text \<open>
  The start debounce: a running convergence in the same direction continues at once. The
  replace times count the cancels and creates here, the amends on their confirm.
\<close>

definition converge_orders ::
  "v33_params \<Rightarrow> v33_state \<Rightarrow> money \<Rightarrow> time \<Rightarrow> bool \<Rightarrow> v33_state \<times> v33_action list" where
  "converge_orders params st n_top now resumed =
     (let target = targets params st n_top;
          out = out_orders st target;
          vacant = vacant_prices st target
      in if out = [] \<and> vacant = [] then
           ((if x_rolls st = [] \<and> x_converging_dir st \<noteq> 0 then st\<lparr>x_converging_dir := 0\<rparr> else st), [])
         else
           (let direction = move_direction params st n_top out;
                mid = (x_converging_dir st = direction \<and> (x_converging_dir st \<noteq> 0 \<or> x_rolls st \<noteq> []));
                last_ts = (case x_last_replace_ts st of Some t \<Rightarrow> t | None \<Rightarrow> - (10 ^ 18))
            in if \<not> mid \<and> (now - last_ts) * 1000 < of_int (q_deb_ms params) then (st, [])
               else
                 (let st1 = st\<lparr>x_converging_dir := direction\<rparr>;
                      budget = q_max_amends params - int (length (x_rolls st1))
                  in if budget \<le> 0 then (st1, [])
                     else
                       (let (st2, a1, a2) =
                          converge_moves params st1 target out vacant (nat budget) now
                        in if a1 @ a2 = [] \<and> \<not> resumed then (st2, [])
                           else (st2\<lparr>x_last_replace_ts := Some now,
                                     x_replace_times := recent33 st2 now @ replicate (length a2) now\<rparr>,
                                 a1 @ a2)))))"

text \<open>The healthy tick below the gates; \<open>resumed\<close>: a resume note was already emitted.\<close>

definition healthy_step ::
  "v33_params \<Rightarrow> v33_state \<Rightarrow> money \<Rightarrow> time \<Rightarrow> bool \<Rightarrow> v33_state \<times> v33_action list" where
  "healthy_step params st n_top now resumed =
     (if x_rest_bucket_Sd st \<noteq> None \<and> x_rest_bucket_Sd st \<noteq> x_spot_Sd st \<and> x_rolls st = [] \<and>
         x_ladder st \<noteq> [] then
        (let (st1, ca) = cancel_all_then_replace st in (st1\<lparr>x_rest_bucket_Sd := None\<rparr>, ca))
      else if x_awaiting_replace st \<and> 0 < x_outstanding_cancels st then (st, [])
      else if x_ladder st = [] \<and> x_rolls st = [] then
        (if x_awaiting_replace st then place_all params (st\<lparr>x_awaiting_replace := False\<rparr>) n_top now
         else if 0 < x_rungs_filled st \<and> placeable_open_slots params st n_top = []
         then (st\<lparr>x_rest_allotment_done := True\<rparr>, [])
         else place_all params st n_top now)
      else if list_ex ro_pending (x_ladder st) then (st, [])
      else converge_orders params st n_top now resumed)"

definition clear_standdown :: "v33_state \<Rightarrow> v33_state" where
  "clear_standdown st =
     (if x_last_standdown_reason st \<noteq> None
      then st\<lparr>x_last_standdown_reason := None, x_stand_down_reason := None\<rparr> else st)"

definition converge :: "v33_params \<Rightarrow> v33_state \<Rightarrow> time \<Rightarrow> v33_state \<times> v33_action list" where
  "converge params st now =
     (if x_rest_allotment_done st then cancel_all st False
      else if q_replace_rate_alarm params < int (length (recent33 st now)) \<and> \<not> x_stood_down st then
        (let (st1, ca) = cancel_all st False;
             (st2, sa) = standdown33 (st1\<lparr>x_stood_down := True\<rparr>) ''replace_rate''
         in (st2, ca @ sa))
      else case quote_gate33_of params st now of
             Warmup33 \<Rightarrow> (st, [])
           | NoQuote33 reason \<Rightarrow> no_quote_step params st reason now
           | Healthy33 n_top \<Rightarrow>
               (let resumed = (x_hold_since st \<noteq> None);
                    st1 = (if resumed then st\<lparr>x_hold_reason := None, x_hold_since := None\<rparr> else st);
                    (st2, acts) = healthy_step params (clear_standdown st1) n_top now resumed
                in (st2, (if resumed then [standdown_note ''stale_or_missing_wing_resume''] else [])
                           @ acts)))"

section \<open>Order lifecycle events\<close>

definition carry_booked33 :: "(string, lots) dict \<Rightarrow> string \<Rightarrow> string \<Rightarrow> (string, lots) dict" where
  "carry_booked33 booked old_coid new_coid =
     (case map_of booked old_coid of
        None \<Rightarrow> booked
      | Some v \<Rightarrow>
          if new_coid = old_coid then booked
          else AList.update new_coid (dict_get_default booked new_coid 0 + v)
                 (AList.delete old_coid booked))"

definition find_roll :: "v33_state \<Rightarrow> order_amended \<Rightarrow> roll_pending option" where
  "find_roll st event =
     find (\<lambda>r. (om_order_id event \<noteq> None \<and> rp_order_id r = om_order_id event) \<or>
               rp_old_coid r = om_coid event \<or> rp_new_coid r = om_coid event) (x_rolls st)"

text \<open>The moved order in place: new price, rotated coid, labels from the current \<open>n_top\<close>.\<close>

definition amend_move ::
  "v33_params \<Rightarrow> v33_state \<Rightarrow> roll_pending \<Rightarrow> money \<Rightarrow> time \<Rightarrow> v33_state" where
  "amend_move params st rp new_price now =
     (let rung = (case x_n_top st of
                    Some n \<Rightarrow> rung_of n new_price
                  | None \<Rightarrow> rp_target_margin rp - emin_cents params);
          E = (case x_n_top st of
                 Some n \<Rightarrow> e_rung params n new_price
               | None \<Rightarrow> q_E_min params + of_int rung * cent)
      in st\<lparr>x_ladder := replace_order (x_ladder st) (rp_old_coid rp)
               (\<lambda>r. r\<lparr>ro_price := new_price, ro_coid := rp_new_coid rp, ru_rung := rung,
                       ru_E_rung := E\<rparr>),
            x_rest_booked := carry_booked33 (x_rest_booked st) (rp_old_coid rp) (rp_new_coid rp),
            x_last_replace_ts := Some now, x_replace_count := x_replace_count st + 1,
            x_replace_times := recent33 st now @ [now], x_roll_count := x_roll_count st + 1,
            x_roll_single_order_count := x_roll_single_order_count st + 1\<rparr>)"

text \<open>A crossing amend's own fill, at the venue's average price, remembered for its echo.\<close>

definition amend_cross ::
  "v33_params \<Rightarrow> v33_state \<Rightarrow> roll_pending \<Rightarrow> order_amended \<Rightarrow> money \<Rightarrow> time \<Rightarrow>
     v33_state \<times> v33_action list" where
  "amend_cross params st rp event new_price now =
     (let delta = q_count (om_fill_count event);
          px = (case om_average_fill_price event of Some p \<Rightarrow> p | None \<Rightarrow> new_price)
      in if delta \<le> 0 then (st, [])
         else case order_by_coid st (rp_new_coid rp) of
                None \<Rightarrow> (st, [])
              | Some moved \<Rightarrow>
                  (let (st1, wa) =
                     book_rung_fill params st (ro_coid moved) px delta (ru_rung moved)
                       (ru_E_rung moved) now (ro_bucket_Sd moved) None False None
                   in case om_order_id event of
                        None \<Rightarrow> (st1, wa)
                      | Some i \<Rightarrow>
                          if order_by_coid st1 (rp_new_coid rp) = None then (st1, wa)
                          else (st1\<lparr>x_amend_cross_pending :=
                                  AList.update i
                                    (dict_get_default (x_amend_cross_pending st1) i 0 + delta)
                                    (x_amend_cross_pending st1)\<rparr>, wa)))"

definition apply_amended33 ::
  "v33_params \<Rightarrow> v33_state \<Rightarrow> order_amended \<Rightarrow> time \<Rightarrow> v33_state \<times> v33_action list" where
  "apply_amended33 params st0 event now =
     (case find_roll st0 event of
        None \<Rightarrow> (st0, [])
      | Some rp \<Rightarrow>
          (let st = drop_roll st0 (rp_old_coid rp) in
           if order_by_coid st (rp_old_coid rp) = None then converge params st now
           else
             (let new_price = (case om_price event of Some p \<Rightarrow> p | None \<Rightarrow> rp_target_price rp);
                  (st1, wa) =
                    amend_cross params (amend_move params st rp new_price now) rp event new_price now;
                  (st2, ra) = converge params st1 now
              in (st2, wa @ ra))))"

text \<open>
  The order a cancel confirm names: by venue id when it has one, else by coid, never both absent.
\<close>

definition named_order :: "v33_state \<Rightarrow> v33_cancelled \<Rightarrow> rung_order option" where
  "named_order st event =
     (case vc_order_id event of
        Some i \<Rightarrow> find (\<lambda>r. ro_order_id r = Some i) (x_ladder st)
      | None \<Rightarrow> (case vc_coid event of Some c \<Rightarrow> order_by_coid st c | None \<Rightarrow> None))"

definition cancel_attribution33 ::
  "v33_state \<Rightarrow> v33_cancelled \<Rightarrow> rung_order option \<Rightarrow> cancel_ctx33 option" where
  "cancel_attribution33 st event named =
     (case named of
        Some r \<Rightarrow> Some (ro_coid r, ro_price r, ru_rung r, ru_E_rung r, ro_bucket_Sd r)
      | None \<Rightarrow>
          (case (case vc_order_id event of None \<Rightarrow> None | Some i \<Rightarrow> map_of (x_cancel_ctx st) i) of
             Some c \<Rightarrow> Some c
           | None \<Rightarrow> (case vc_coid event of
                        None \<Rightarrow> None | Some c \<Rightarrow> map_option snd (ctx_for_coid st c))))"

text \<open>The lots the confirm reports filled, cumulative, less those already booked.\<close>

definition book_cancelled ::
  "v33_params \<Rightarrow> v33_state \<Rightarrow> v33_cancelled \<Rightarrow> rung_order option \<Rightarrow> time \<Rightarrow>
     v33_state \<times> v33_action list" where
  "book_cancelled params st event named now =
     (let filled = q_count (vc_filled_before event) in
      if filled \<le> 0 then (st, [])
      else
        (case cancel_attribution33 st event named of
           Some (coid, price, rung, E, sd) \<Rightarrow>
             (let delta = filled - q_count (dict_get_default (x_rest_booked st) coid 0) in
              if 0 < delta
              then book_rung_fill params st coid price delta rung E now sd None False None
              else (st, []))
         | None \<Rightarrow>
             (let coid = (case vc_coid event of
                            Some c \<Rightarrow> Some c
                          | None \<Rightarrow> (case vc_order_id event of
                                       Some i \<Rightarrow> if i = [] then None else Some (''orphan-oid-'' @ i)
                                     | None \<Rightarrow> None))
              in case (coid, vc_price event) of
                   (Some c, Some price) \<Rightarrow>
                     (let delta = filled - q_count (dict_get_default (x_rest_booked st) c 0) in
                      if 0 < delta
                      then book_orphan_fill params st c (vc_order_id event) price delta
                             (vc_market event) now None
                      else (st, []))
                 | _ \<Rightarrow> (st, [alarm33 ''orphan_rung_fill_unpriced'' (vc_coid event)
                                (vc_order_id event) None filled None]))))"

definition rolling_order :: "v33_state \<Rightarrow> v33_cancelled \<Rightarrow> roll_pending option" where
  "rolling_order st event =
     (case vc_order_id event of
        Some i \<Rightarrow> find (\<lambda>r. rp_order_id r = Some i) (x_rolls st)
      | None \<Rightarrow> (case vc_coid event of
                   Some c \<Rightarrow> find (\<lambda>r. rp_old_coid r = c) (x_rolls st)
                 | None \<Rightarrow> None))"

text \<open>
  The amend's cancel-then-create fallback: the moved order's remaining whole lots at the roll's
  target, clamped to the cap.
\<close>

definition fallback_target :: "v33_state \<Rightarrow> roll_pending \<Rightarrow> money" where
  "fallback_target st rp =
     (case x_cap st of
        Some c \<Rightarrow> if c < rp_target_price rp then c else rp_target_price rp
      | None \<Rightarrow> rp_target_price rp)"

definition roll_fallback ::
  "v33_params \<Rightarrow> v33_state \<Rightarrow> roll_pending \<Rightarrow> time \<Rightarrow> v33_state \<times> v33_action list" where
  "roll_fallback params st0 rp now =
     (let n = (case order_by_coid st0 (rp_old_coid rp) of
                 Some r \<Rightarrow> py_trunc (ro_count r) | None \<Rightarrow> 0);
          st1 = drop_roll st0 (rp_old_coid rp);
          st = st1\<lparr>x_ladder := drop_order (x_ladder st1) (rp_old_coid rp)\<rparr>;
          target = fallback_target st rp
      in case x_n_top st of
           None \<Rightarrow> (st, [])
         | Some n_top \<Rightarrow>
             if \<not> x_rest_allotment_done st \<and> \<not> x_stood_down st \<and> 0 < n \<and>
                in_window33 params st now \<and> q_n_min params \<le> target \<and>
                filled_contracts st + resting_contracts st + of_int n \<le> of_int (allotment params)
             then place_one params st target (rung_of n_top target) (e_rung params n_top target) now
                    (of_int n)
             else (st, []))"

definition resolve_outstanding ::
  "v33_state \<Rightarrow> v33_cancelled \<Rightarrow> rung_order option \<Rightarrow> v33_state" where
  "resolve_outstanding st event named =
     (case vc_order_id event of
        None \<Rightarrow> st
      | Some i \<Rightarrow>
          if (named \<noteq> None \<or> map_of (x_cancel_ctx st) i \<noteq> None) \<and> 0 < x_outstanding_cancels st
          then st\<lparr>x_outstanding_cancels := x_outstanding_cancels st - 1\<rparr> else st)"

definition apply_cancelled33 ::
  "v33_params \<Rightarrow> v33_state \<Rightarrow> v33_cancelled \<Rightarrow> time \<Rightarrow> v33_state \<times> v33_action list" where
  "apply_cancelled33 params st0 event now =
     (let st = clear_cancel_pending st0 (vc_order_id event);
          named = named_order st event;
          note = (if vc_order_id event = None \<and> vc_coid event = None
                  then [alarm33 ''cancel_unattributed'' None None None
                          (q_count (vc_filled_before event)) None] else []);
          (st1, ba) = book_cancelled params st event named now
      in case rolling_order st1 event of
           Some rp \<Rightarrow>
             (let (st2, pa) = roll_fallback params st1 rp now;
                  (st3, ra) = converge params st2 now
              in (st3, note @ ba @ pa @ ra))
         | None \<Rightarrow>
             (let st2 = (case named of
                           None \<Rightarrow> st1
                         | Some r \<Rightarrow> st1\<lparr>x_ladder := drop_order (x_ladder st1) (ro_coid r)\<rparr>);
                  (st3, pt) =
                    pt_on_cancel_confirmed params (resolve_outstanding st2 event named)
                      (vc_order_id event) now;
                  (st4, ra) = converge params st3 now
              in (st4, note @ ba @ pt @ ra)))"

text \<open>
  The wing-leg branch: the first leg with the fill's coid becomes filled (a positive count) or
  unfilled; the result is its batch. A positive wing fill without a price, which the source
  cannot charge a fee on, records none.
\<close>

fun fill_leg33 :: "v33_fill \<Rightarrow> leg33 list \<Rightarrow> (leg33 list \<times> nat) option" where
  "fill_leg33 event [] = None"
| "fill_leg33 event (l # ls) =
     (if vf_coid event = Some (wl_coid l) then
        Some ((if 0 < vf_count event
               then l\<lparr>wl_status := Filled, wl_fill_price := vf_price event,
                      wl_fill_fee := map_option fee (vf_price event)\<rparr>
               else l\<lparr>wl_status := Unfilled\<rparr>) # ls, wl_batch l)
      else map_option (\<lambda>(xs, b). (l # xs, b)) (fill_leg33 event ls))"

definition wing_fill ::
  "v33_params \<Rightarrow> v33_state \<Rightarrow> v33_fill \<Rightarrow> leg33 list \<Rightarrow> nat \<Rightarrow> time \<Rightarrow> v33_state \<times> v33_action list" where
  "wing_fill params st0 event legs bi now =
     (let st = st0\<lparr>x_wing_legs := legs\<rparr>;
          pre = (case find_batch st bi of None \<Rightarrow> False
                 | Some b \<Rightarrow> bt_print_through b \<and> \<not> bt_resolved b)
      in if vf_count event \<le> 0 \<and> pre then pt_fail_closed params st bi now
         else if 0 < vf_count event then
           (let (st1, na) = net_wings st (case vf_coid event of Some c \<Rightarrow> c | None \<Rightarrow> []) now
            in (maybe_close_set33 st1 bi, na))
         else (maybe_close_set33 st bi, []))"

definition note_seen :: "v33_state \<Rightarrow> string \<Rightarrow> string option \<Rightarrow> lots \<Rightarrow> v33_state" where
  "note_seen st coid source delta =
     (if 0 < delta \<and> source \<noteq> Some ''poll''
      then st\<lparr>x_fill_seen :=
             AList.update coid (q_count (dict_get_default (x_fill_seen st) coid 0 + delta))
               (x_fill_seen st)\<rparr>
      else st)"

text \<open>Lots an amend cross already booked for the order are skipped once.\<close>

definition skip_echo33 :: "v33_state \<Rightarrow> string option \<Rightarrow> lots \<Rightarrow> v33_state \<times> lots" where
  "skip_echo33 st oid delta =
     (case oid of
        None \<Rightarrow> (st, delta)
      | Some i \<Rightarrow>
          if 0 < delta \<and> 0 < dict_get_default (x_amend_cross_pending st) i 0 then
            (let pending = q_count (dict_get_default (x_amend_cross_pending st) i 0);
                 skip = min pending delta;
                 acp = (if 0 < pending - skip
                        then AList.update i (pending - skip) (x_amend_cross_pending st)
                        else AList.delete i (x_amend_cross_pending st))
             in (st\<lparr>x_amend_cross_pending := acp\<rparr>, delta - skip))
          else (st, delta))"

definition ladder_fill ::
  "v33_params \<Rightarrow> v33_state \<Rightarrow> v33_fill \<Rightarrow> rung_order \<Rightarrow> time \<Rightarrow> v33_state \<times> v33_action list" where
  "ladder_fill params st event r now =
     (let d0 = q_count (vf_count event);
          oid = (case ro_order_id r of Some i \<Rightarrow> Some i | None \<Rightarrow> vf_order_id event);
          (st1, delta) = skip_echo33 (note_seen st (ro_coid r) (vf_source event) d0) oid d0
      in if 0 < delta
         then book_rung_fill params st1 (ro_coid r) (ro_price r) delta (ru_rung r) (ru_E_rung r) now
                (ro_bucket_Sd r) (vf_market event) False None
         else (st1, []))"

definition apply_fill33 ::
  "v33_params \<Rightarrow> v33_state \<Rightarrow> v33_fill \<Rightarrow> time \<Rightarrow> v33_state \<times> v33_action list" where
  "apply_fill33 params st0 event now =
     (let st = clear_cancel_pending st0 (vf_order_id event) in
      case pt_apply_complete_fill params st event now of
        Some res \<Rightarrow> res
      | None \<Rightarrow>
          (case fill_leg33 event (x_wing_legs st) of
             Some (legs, bi) \<Rightarrow> wing_fill params st event legs bi now
           | None \<Rightarrow>
               (case (case vf_coid event of None \<Rightarrow> None | Some c \<Rightarrow> order_by_coid st c) of
                  Some r \<Rightarrow> ladder_fill params st event r now
                | None \<Rightarrow> apply_orphan_fill params st event now)))"

section \<open>The decision\<close>

definition book_tick ::
  "v33_params \<Rightarrow> v33_state \<Rightarrow> time \<Rightarrow> v33_state \<times> v33_action list" where
  "book_tick params st now =
     (let st1 = shadow_complete33 params (recompute_context33 params st now) now;
          (st2, wa) = wing_step33 params st1 now;
          (st3, pa) = pt_stall_step params st2 now;
          (st4, qa) = converge params st3 now
      in (st4, wa @ pa @ qa))"

definition trade_tick ::
  "v33_params \<Rightarrow> v33_state \<Rightarrow> trade \<Rightarrow> time \<Rightarrow> v33_state \<times> v33_action list" where
  "trade_tick params st event now =
     (let (st1, ta) = shadow_on_trade33 params st event;
          (st2, wa) = wing_step33 params (shadow_complete33 params st1 now) now;
          (st3, pa) = print_through_step params st2 event now;
          (st4, sa) = pt_stall_step params st3 now
      in (st4, ta @ wa @ pa @ sa))"

definition decide_v33 ::
  "v33_params \<Rightarrow> v33_state \<Rightarrow> v33_event \<Rightarrow> v33_state \<times> v33_action list" where
  "decide_v33 params st event =
     (let now = event_ts33 event in
      case event of
        Book33 e \<Rightarrow> book_tick params (stamp_strike_feed (fold_book33 params st e) e) now
      | Trade33 e \<Rightarrow> trade_tick params st e now
      | Ack33 e \<Rightarrow> (apply_ack33 st e, [])
      | Amended33 e \<Rightarrow> apply_amended33 params st e now
      | Cancelled33 e \<Rightarrow> apply_cancelled33 params st e now
      | Fill33 e \<Rightarrow> apply_fill33 params st e now
      | Clock33 _ \<Rightarrow> book_tick params st now)"

end
