(* ===== verification/V33_Ladder_Inv.thy ===== *)
theory V33_Ladder_Inv
  imports V33_Frame V32_Allot "HOL-Library.Sublist"
begin

text \<open>
  The structural invariant of the rolling ladder, the part of \<open>V33State.check_invariants\<close> that
  holds on every event stream: coids are distinct and minted by the core, no order has two
  amends in flight and at most \<open>max_amends_in_flight\<close> run, a pending re-place means an empty
  ladder, every rest carries a positive count of at most the largest rung weight, and the rung
  labels are those of the current anchor. The other check, that no two rests share a price, is
  refuted by the fallback re-place (\<open>V33_Example\<close>).
\<close>

section \<open>The invariant\<close>

definition coid_minted :: "v33_state \<Rightarrow> string \<Rightarrow> bool" where
  "coid_minted st c \<longleftrightarrow> (\<exists>k \<le> x_coid_seq st. c = coid_of33 (x_coid_prefix st) (x_close_time st) k)"

definition max_weight :: "v33_params \<Rightarrow> int" where
  "max_weight params = Max (set (q_rung_lots params))"

definition labelled :: "v33_params \<Rightarrow> money option \<Rightarrow> rung_order \<Rightarrow> bool" where
  "labelled params n_top r \<longleftrightarrow>
     (case n_top of
        None \<Rightarrow> True
      | Some n \<Rightarrow> ru_rung r = rung_of n (ro_price r) \<and> ru_E_rung r = e_rung params n (ro_price r))"

definition sized :: "v33_params \<Rightarrow> rung_order \<Rightarrow> bool" where
  "sized params r \<longleftrightarrow>
     0 < ro_count r \<and> ro_count r \<le> of_int (max_weight params) \<and> whole_cent (ro_count r)"

definition ladder_coids :: "v33_state \<Rightarrow> string list" where
  "ladder_coids st = map ro_coid (x_ladder st) @ map rp_new_coid (x_rolls st)"

definition rungs_ok :: "v33_params \<Rightarrow> v33_state \<Rightarrow> bool" where
  "rungs_ok params st \<longleftrightarrow>
     (x_awaiting_replace st \<longrightarrow> x_ladder st = [] \<and> x_rolls st = []) \<and>
     int (length (x_rolls st)) \<le> q_max_amends params \<and>
     distinct (map rp_old_coid (x_rolls st)) \<and>
     distinct (ladder_coids st) \<and> (\<forall>c \<in> set (ladder_coids st). coid_minted st c) \<and>
     (\<forall>r \<in> set (x_ladder st). sized params r \<and> labelled params (x_n_top st) r) \<and>
     (\<forall>rp \<in> set (x_rolls st). whole_cent (rp_target_price rp) \<and> q_n_min params \<le> rp_target_price rp)"

lemma coid_minted_mono:
  "coid_minted st c \<Longrightarrow> x_coid_seq st \<le> x_coid_seq st' \<Longrightarrow> x_coid_prefix st' = x_coid_prefix st \<Longrightarrow>
    x_close_time st' = x_close_time st \<Longrightarrow> coid_minted st' c"
  by (auto simp: coid_minted_def intro: order_trans)

lemma coid_of33_inj: "coid_of33 p t i = coid_of33 p t k \<longleftrightarrow> i = k"
  by (simp add: coid_of33_def show_nat_inj)

lemma fresh_not_minted: "\<not> coid_minted st (coid_of33 (x_coid_prefix st) (x_close_time st) (Suc (x_coid_seq st)))"
  by (auto simp: coid_minted_def coid_of33_inj)

lemma fresh_minted:
  "x_coid_prefix st' = x_coid_prefix st \<Longrightarrow> x_close_time st' = x_close_time st \<Longrightarrow>
    x_coid_seq st' = Suc (x_coid_seq st) \<Longrightarrow>
    coid_minted st' (coid_of33 (x_coid_prefix st) (x_close_time st) (Suc (x_coid_seq st)))"
  by (auto simp: coid_minted_def)

lemma distinct_subseq: "subseq xs ys \<Longrightarrow> distinct ys \<Longrightarrow> distinct xs"
  by (auto simp: subseq_conv_nths)

lemma set_subseq: "subseq xs ys \<Longrightarrow> set xs \<subseteq> set ys"
  by (auto simp: subseq_conv_nths dest: in_set_nthsD)

text \<open>Dropping orders and rolls keeps the invariant; so does everything the frames cover.\<close>

lemma rungs_ok_subseq:
  assumes ok: "rungs_ok params st"
    and sub: "subseq (x_ladder st') (x_ladder st)" "subseq (x_rolls st') (x_rolls st)"
    and same: "x_n_top st' = x_n_top st" "x_coid_prefix st' = x_coid_prefix st"
      "x_close_time st' = x_close_time st" "x_coid_seq st \<le> x_coid_seq st'"
    and await: "x_awaiting_replace st' \<Longrightarrow> x_ladder st' = [] \<and> x_rolls st' = []"
  shows "rungs_ok params st'"
proof -
  have coids: "subseq (ladder_coids st') (ladder_coids st)"
    unfolding ladder_coids_def by (intro list_emb_append_mono subseq_map sub)
  have "subseq (map rp_old_coid (x_rolls st')) (map rp_old_coid (x_rolls st))"
    by (intro subseq_map sub)
  then have "distinct (map rp_old_coid (x_rolls st'))"
    using ok distinct_subseq by (auto simp: rungs_ok_def)
  moreover have "distinct (ladder_coids st')"
    using ok coids distinct_subseq by (auto simp: rungs_ok_def)
  moreover have "length (x_rolls st') \<le> length (x_rolls st)" by (rule list_emb_length [OF sub(2)])
  moreover have "\<forall>c \<in> set (ladder_coids st'). coid_minted st' c"
    using ok set_subseq [OF coids] coid_minted_mono [OF _ same(4,2,3)]
    by (auto simp: rungs_ok_def)
  moreover have "set (x_ladder st') \<subseteq> set (x_ladder st)" "set (x_rolls st') \<subseteq> set (x_rolls st)"
    using sub by (auto dest: set_subseq)
  ultimately show ?thesis
    using ok await by (auto simp: rungs_ok_def same(1))
qed

lemma rungs_ok_wing:
  "wing_only st st' \<Longrightarrow> rungs_ok params st \<Longrightarrow> rungs_ok params st'"
  by (rule rungs_ok_subseq [of params st st']) (auto simp: wing_only_def rungs_ok_def)

lemma subseq_filter_self: "subseq (filter P xs) xs"
  by (induction xs) auto

lemma subseq_drop_order: "subseq (drop_order ladder c) ladder"
  unfolding drop_order_def by (rule subseq_filter_self)

section \<open>Single orders\<close>

lemma rung_of_margin: "rung_of n (price_of_margin params n m) = m - emin_cents params"
proof -
  have "(n - price_of_margin params n m) / cent = of_int (m - emin_cents params)"
    by (simp add: price_of_margin_def cent_def)
  then show ?thesis by (simp only: rung_of_def round_half_even_of_int)
qed

lemma e_rung_of_margin:
  "e_rung params n (price_of_margin params n m) = q_E_min params + of_int (m - emin_cents params) * cent"
  by (simp add: e_rung_def price_of_margin_def)

lemma margin_labels:
  assumes "p = price_of_margin params n m"
  shows "rung_of n p = m - emin_cents params"
    "e_rung params n p = q_E_min params + of_int (m - emin_cents params) * cent"
  unfolding assms by (rule rung_of_margin, rule e_rung_of_margin)

lemma weight_le_max: "0 < weight_of_rung params k \<Longrightarrow> weight_of_rung params k \<le> max_weight params"
  by (auto simp: weight_of_rung_def max_weight_def split: if_splits)

lemma rungs_ok_place_one:
  assumes ok: "rungs_ok params st" and aw: "\<not> x_awaiting_replace st"
    and n: "whole_cent n" "0 < n" "n \<le> of_int (max_weight params)"
    and lab: "\<And>a. x_n_top st = Some a \<Longrightarrow> k = rung_of a p \<and> E = e_rung params a p"
  shows "rungs_ok params (fst (place_one params st p k E now n))"
    and "\<not> x_awaiting_replace (fst (place_one params st p k E now n))"
proof -
  let ?st' = "fst (place_one params st p k E now n)"
  let ?c = "coid_of33 (x_coid_prefix st) (x_close_time st) (Suc (x_coid_seq st))"
  have sel: "x_rolls ?st' = x_rolls st" "x_n_top ?st' = x_n_top st"
    "x_awaiting_replace ?st' = x_awaiting_replace st" "x_coid_prefix ?st' = x_coid_prefix st"
    "x_close_time ?st' = x_close_time st" "x_coid_seq ?st' = Suc (x_coid_seq st)"
    "map ro_coid (x_ladder ?st') = map ro_coid (x_ladder st) @ [?c]"
    by (simp_all add: place_one_def mint_coid33_eq Let_def)
  have lad: "r \<in> set (x_ladder ?st') \<Longrightarrow> r \<in> set (x_ladder st) \<or>
      (ro_count r = q_count n \<and> ro_price r = p \<and> ru_rung r = k \<and> ru_E_rung r = E)" for r
    by (auto simp: place_one_def mint_coid33_eq Let_def)
  have coids: "set (ladder_coids ?st') = insert ?c (set (ladder_coids st))"
    by (auto simp: ladder_coids_def sel)
  have "?c \<notin> set (ladder_coids st)" using ok fresh_not_minted by (auto simp: rungs_ok_def)
  then have "distinct (ladder_coids ?st')"
    using ok by (auto simp: rungs_ok_def ladder_coids_def sel)
  moreover have "\<forall>c \<in> set (ladder_coids ?st'). coid_minted ?st' c"
    using ok fresh_minted [of ?st' st] coid_minted_mono [of st _ ?st']
    by (auto simp: coids rungs_ok_def sel)
  moreover have "\<forall>r \<in> set (x_ladder ?st'). sized params r \<and> labelled params (x_n_top ?st') r"
  proof
    fix r
    assume "r \<in> set (x_ladder ?st')"
    from lad [OF this] show "sized params r \<and> labelled params (x_n_top ?st') r"
      using ok n lab by (auto simp: rungs_ok_def sized_def labelled_def sel split: option.split)
  qed
  ultimately show "rungs_ok params ?st'"
    using ok aw by (simp add: rungs_ok_def sel)
  show "\<not> x_awaiting_replace ?st'" using aw by (simp add: sel)
qed

section \<open>Targets\<close>

lemma placeable_open_slotD:
  "(m, p) \<in> set (placeable_open_slots params st n) \<Longrightarrow>
    p = price_of_margin params n m \<and> placeable params st p \<and> 0 \<le> m \<and>
    nat m < length (x_margin_state st) \<and> x_margin_state st ! nat m = 1"
  by (auto simp: placeable_open_slots_def open_slots_def)

lemma targets_entries:
  "map_of (foldl (\<lambda>d (m, price). AList.update price m d) d0 slots) p = Some m \<Longrightarrow>
    map_of d0 p = Some m \<or> (m, p) \<in> set slots"
  by (induction slots arbitrary: d0) (fastforce split: prod.splits if_splits)+

lemma targets_keys:
  "set (dict_keys (foldl (\<lambda>d (m, price). AList.update price m d) d0 slots)) =
    set (dict_keys d0) \<union> snd ` set slots"
proof (induction slots arbitrary: d0)
  case (Cons mp slots)
  then show ?case
    by (cases mp) (simp add: dict_keys_def set_map_fst_update [unfolded set_map])
qed simp

lemma targetsD:
  assumes "map_of (targets params st n) p = Some m"
  shows "p = price_of_margin params n m" "placeable params st p" "0 \<le> m"
    "nat m < length (x_margin_state st)" "x_margin_state st ! nat m = 1"
proof -
  from targets_entries [OF assms [unfolded targets_def]]
  have "(m, p) \<in> set (placeable_open_slots params st n)" by simp
  note d = placeable_open_slotD [OF this]
  show "p = price_of_margin params n m" "placeable params st p" "0 \<le> m"
    "nat m < length (x_margin_state st)" "x_margin_state st ! nat m = 1" using d by blast+
qed

lemma key_target:
  "p \<in> set (dict_keys d) \<Longrightarrow> map_of d p = Some (dict_get_default d p x)"
  by (force simp: dict_keys_def dict_get_default_def map_of_eq_None_iff split: option.split)

lemma vacant_target:
  assumes "p \<in> set (vacant_prices st d)"
  shows "map_of d p = Some (dict_get_default d p 0)"
  using assms key_target [of p d 0] by (simp add: vacant_prices_def)

lemma whole_cents [simp]: "whole_cent (of_int k * cent)"
  unfolding whole_cent_iff cent_def by (rule exI [of _ k]) simp

lemma whole_price_of_margin: "whole_cent n \<Longrightarrow> whole_cent (price_of_margin params n m)"
  unfolding price_of_margin_def
  by (rule whole_cent_diff) (assumption, rule whole_cents)

section \<open>The moves\<close>

definition quote_ok :: "v33_params \<Rightarrow> v33_state \<Rightarrow> bool" where
  "quote_ok params st \<longleftrightarrow>
     (\<forall>n. x_n_top st = Some n \<longrightarrow> whole_cent n \<and> cent \<le> n \<and>
        (\<exists>w c. x_W st = Some w \<and> x_cap st = Some c \<and> whole_cent c \<and> c < 1 \<and> n \<le> c \<and>
               n + fee n \<le> 2 - q_E_min params - w))"

lemma quote_ok_cong:
  "x_n_top st' = x_n_top st \<Longrightarrow> x_W st' = x_W st \<Longrightarrow> x_cap st' = x_cap st \<Longrightarrow>
    quote_ok params st' = quote_ok params st"
  by (simp add: quote_ok_def)

lemma rungs_ok_place_slots:
  assumes "rungs_ok params st" "\<not> x_awaiting_replace st" "x_n_top st = Some n"
    and "\<forall>(m, p) \<in> set slots. p = price_of_margin params n m"
  shows "rungs_ok params (fst (place_slots params budget held now used st slots)) \<and>
    \<not> x_awaiting_replace (fst (place_slots params budget held now used st slots))"
  using assms
proof (induction slots arbitrary: st used)
  case (Cons mp slots)
  obtain m p where mp: "mp = (m, p)" by (cases mp)
  let ?w = "weight_of_margin params m" and ?k = "m - emin_cents params"
  let ?one = "place_one params st p ?k (q_E_min params + of_int ?k * cent) now (of_int ?w)"
  have p: "p = price_of_margin params n m" using Cons.prems(4) mp by simp
  show ?case
  proof (cases "?w \<le> 0 \<or> budget < of_int (used + ?w) \<or> p \<in> set held")
    case True
    with Cons show ?thesis by (auto simp: mp Let_def)
  next
    case False
    then have w: "0 < (of_int ?w :: rat)" "(of_int ?w :: rat) \<le> of_int (max_weight params)"
      using weight_le_max [of params ?k] by (simp_all add: weight_of_margin_def)
    have lab: "?k = rung_of a p \<and> q_E_min params + of_int ?k * cent = e_rung params a p"
      if "x_n_top st = Some a" for a
      using that Cons.prems(3) by (simp add: p rung_of_margin e_rung_of_margin)
    note one = rungs_ok_place_one [OF Cons.prems(1,2) whole_cent_of_int w lab]
    have "x_n_top (fst ?one) = Some n"
      using ro_place_one Cons.prems(3) by (simp add: rest_only_def)
    from Cons.IH [OF one this] Cons.prems(4) False show ?thesis
      by (simp add: mp Let_def case_prod_beta)
  qed
qed simp

lemma rungs_ok_cong:
  "rungs_ok params st \<Longrightarrow> x_ladder st' = x_ladder st \<Longrightarrow> x_rolls st' = x_rolls st \<Longrightarrow>
    x_n_top st' = x_n_top st \<Longrightarrow> x_coid_prefix st' = x_coid_prefix st \<Longrightarrow>
    x_close_time st' = x_close_time st \<Longrightarrow> x_coid_seq st \<le> x_coid_seq st' \<Longrightarrow>
    (x_awaiting_replace st' \<longrightarrow> x_awaiting_replace st) \<Longrightarrow> rungs_ok params st'"
  by (rule rungs_ok_subseq [of params st]) (auto simp: rungs_ok_def)

lemma rungs_ok_place_all:
  assumes "rungs_ok params st" "\<not> x_awaiting_replace st" "x_n_top st = Some n"
  shows "rungs_ok params (fst (place_all params st n now))"
proof -
  let ?s = "place_slots params (of_int (allotment params) - filled_contracts st - resting_contracts st)
    (held_cancel_prices st) now 0 st (placeable_open_slots params st n)"
  have ok: "rungs_ok params (fst ?s)"
    using rungs_ok_place_slots [OF assms] placeable_open_slotD by blast
  then have "rungs_ok params ((fst ?s)\<lparr>x_rest_bucket_Sd := a, x_converging_dir := b, x_last_replace_ts := c,
      x_replace_count := d, x_replace_times := e\<rparr>)" for a b c d e
    by (rule rungs_ok_cong) simp_all
  moreover have "rungs_ok params (st\<lparr>x_rest_allotment_done := True\<rparr>)"
    by (rule rungs_ok_cong [OF assms(1)]) simp_all
  ultimately show ?thesis using ok by (simp add: place_all_def Let_def case_prod_beta)
qed

lemma emit_roll_eq:
  "emit_roll params st r p m now =
    (let c = coid_of33 (x_coid_prefix st) (x_close_time st) (Suc (x_coid_seq st));
         st1 = st\<lparr>x_coid_seq := Suc (x_coid_seq st)\<rparr>
     in (st1, \<lparr>rp_order_id = ro_order_id r, rp_old_coid = ro_coid r, rp_new_coid = c,
               rp_target_price = p, rp_target_margin = m, rp_started_ts = now\<rparr>,
         amend_action33 st1 params r c p))"
  by (simp add: emit_roll_def mint_coid33_eq Let_def)

lemma rungs_ok_roll_pairs:
  assumes "rungs_ok params st" "\<not> x_awaiting_replace st"
    and "distinct (map (ro_coid \<circ> fst) ps)"
    and "set (map (ro_coid \<circ> fst) ps) \<inter> set (map rp_old_coid (x_rolls st)) = {}"
    and "int (length (x_rolls st)) + int (length ps) \<le> q_max_amends params"
    and "\<forall>rp \<in> set ps. whole_cent (snd rp) \<and> q_n_min params \<le> snd rp"
  shows "rungs_ok params (fst (roll_pairs params target now st ps)) \<and>
    x_awaiting_replace (fst (roll_pairs params target now st ps)) = x_awaiting_replace st \<and>
    x_ladder (fst (roll_pairs params target now st ps)) = x_ladder st"
  using assms
proof (induction ps arbitrary: st)
  case (Cons q ps)
  obtain r p where q: "q = (r, p)" by (cases q)
  let ?c = "coid_of33 (x_coid_prefix st) (x_close_time st) (Suc (x_coid_seq st))"
  let ?rp = "\<lparr>rp_order_id = ro_order_id r, rp_old_coid = ro_coid r, rp_new_coid = ?c,
      rp_target_price = p, rp_target_margin = dict_get_default target p 0, rp_started_ts = now\<rparr>"
  let ?st = "st\<lparr>x_coid_seq := Suc (x_coid_seq st), x_rolls := x_rolls st @ [?rp]\<rparr>"
  have "?c \<notin> set (ladder_coids st)" using Cons.prems(1) fresh_not_minted by (auto simp: rungs_ok_def)
  then have 1: "distinct (ladder_coids ?st)"
    using Cons.prems(1) by (auto simp: rungs_ok_def ladder_coids_def)
  have 2: "\<forall>c \<in> set (ladder_coids ?st). coid_minted ?st c"
    using Cons.prems(1) fresh_minted [of ?st st] coid_minted_mono [of st _ ?st]
    by (auto simp: rungs_ok_def ladder_coids_def)
  have "rungs_ok params ?st"
    using 1 2 Cons.prems by (auto simp: rungs_ok_def q)
  moreover have "set (map (ro_coid \<circ> fst) ps) \<inter> set (map rp_old_coid (x_rolls ?st)) = {}"
    using Cons.prems(3,4) by (auto simp: q)
  ultimately show ?case
    using Cons.IH [of ?st] Cons.prems
    by (simp add: q emit_roll_eq Let_def case_prod_beta)
qed simp

lemma shrink_ladder:
  "subseq (x_ladder (fst (shrink_orders st rs))) (x_ladder st) \<and>
   x_rolls (fst (shrink_orders st rs)) = x_rolls st \<and>
   x_awaiting_replace (fst (shrink_orders st rs)) = x_awaiting_replace st"
proof (induction rs arbitrary: st)
  case (Cons r rs)
  have nc: "x_ladder (note_cancelled st r) = x_ladder st" "x_rolls (note_cancelled st r) = x_rolls st"
    "x_awaiting_replace (note_cancelled st r) = x_awaiting_replace st"
    by (simp_all add: note_cancelled_def arm_cancel_pending_def remember_cancel33_def split: option.split)
  let ?s = "(note_cancelled st r)\<lparr>x_ladder := drop_order (x_ladder (note_cancelled st r)) (ro_coid r),
    x_outstanding_cancels := x_outstanding_cancels (note_cancelled st r) +
      (if ro_order_id r \<noteq> None \<and> ro_order_id r \<noteq> Some [] then 1 else 0)\<rparr>"
  have "subseq (x_ladder (fst (shrink_orders ?s rs))) (drop_order (x_ladder st) (ro_coid r))"
    using Cons.IH [of ?s] by (simp add: nc)
  with subseq_drop_order have "subseq (x_ladder (fst (shrink_orders ?s rs))) (x_ladder st)"
    by (rule subseq_order.order_trans [rotated])
  then show ?case using Cons.IH [of ?s] by (simp only: shrink_orders.simps Let_def case_prod_beta fst_conv) (simp add: nc)
qed simp

lemma rungs_ok_shrink:
  assumes "rungs_ok params st"
  shows "rungs_ok params (fst (shrink_orders st rs))"
proof (rule rungs_ok_subseq [OF assms])
  show "x_ladder (fst (shrink_orders st rs)) = [] \<and> x_rolls (fst (shrink_orders st rs)) = []"
    if "x_awaiting_replace (fst (shrink_orders st rs))"
    using assms that shrink_ladder [of st rs] by (auto simp: rungs_ok_def)
qed (use shrink_ladder [of st rs] ro_shrink [of st rs] in \<open>auto simp: rest_only_def\<close>)

lemma rungs_ok_create:
  assumes "rungs_ok params st" "\<not> x_awaiting_replace st" "x_n_top st = Some n"
    and "\<forall>p \<in> set ps. p = price_of_margin params n (dict_get_default target p 0)"
  shows "rungs_ok params (fst (create_orders params target now st ps))"
  using assms
proof (induction ps arbitrary: st)
  case (Cons p ps)
  let ?m = "dict_get_default target p 0"
  let ?w = "weight_of_margin params ?m" and ?k = "?m - emin_cents params"
  let ?one = "place_one params st p ?k (q_E_min params + of_int ?k * cent) now (of_int ?w)"
  show ?case
  proof (cases "?w \<le> 0 \<or> of_int (allotment params) < filled_contracts st + resting_contracts st + of_int ?w")
    case True
    with Cons show ?thesis by (auto simp: Let_def)
  next
    case False
    then have w: "0 < (of_int ?w :: rat)" "(of_int ?w :: rat) \<le> of_int (max_weight params)"
      using weight_le_max [of params ?k] by (simp_all add: weight_of_margin_def)
    have p: "p = price_of_margin params n ?m" using Cons.prems(4) by simp
    have lab: "?k = rung_of a p \<and> q_E_min params + of_int ?k * cent = e_rung params a p"
      if "x_n_top st = Some a" for a
      using that Cons.prems(3) margin_labels [OF p] by simp
    note one = rungs_ok_place_one [OF Cons.prems(1,2) whole_cent_of_int w lab]
    have "x_n_top (fst ?one) = Some n"
      using ro_place_one Cons.prems(3) by (simp add: rest_only_def)
    from Cons.IH [OF one this] Cons.prems(4) False show ?thesis
      by (simp add: Let_def case_prod_beta)
  qed
qed simp

section \<open>Cancelling and converging\<close>

lemma note_cancelled_fold:
  "x_awaiting_replace (foldl note_cancelled st rs) = x_awaiting_replace st"
proof (induction rs arbitrary: st)
  case (Cons r rs)
  then show ?case
    by (simp add: note_cancelled_def arm_cancel_pending_def remember_cancel33_def split: option.split)
qed simp

lemma cancel_all_sel:
  "x_ladder (fst (cancel_all st track)) = []" "x_rolls (fst (cancel_all st track)) = []"
  "x_awaiting_replace (fst (cancel_all st track)) = x_awaiting_replace st"
  by (simp_all add: cancel_all_def Let_def note_cancelled_fold)

lemma rungs_ok_empty:
  assumes "rungs_ok params st" "rest_only st st'" "x_ladder st' = []" "x_rolls st' = []"
  shows "rungs_ok params st'"
  using assms by (intro rungs_ok_subseq [OF assms(1)]) (auto simp: rest_only_def)

lemma rungs_ok_cancel_all: "rungs_ok params st \<Longrightarrow> rungs_ok params (fst (cancel_all st track))"
  by (erule rungs_ok_empty) (simp_all add: ro_cancel_all cancel_all_sel)

lemma cancel_replace_sel:
  "x_ladder (fst (cancel_all_then_replace st)) = []"
  "x_rolls (fst (cancel_all_then_replace st)) = []"
  by (simp_all add: cancel_all_then_replace_def case_prod_beta cancel_all_sel)

lemma rungs_ok_cancel_replace: "rungs_ok params st \<Longrightarrow> rungs_ok params (fst (cancel_all_then_replace st))"
  by (erule rungs_ok_empty) (simp_all add: ro_cancel_replace cancel_replace_sel)

lemma standdown_sel:
  "x_ladder (fst (standdown33 st r)) = x_ladder st" "x_rolls (fst (standdown33 st r)) = x_rolls st"
  "x_awaiting_replace (fst (standdown33 st r)) = x_awaiting_replace st"
  by (simp_all add: standdown33_def)

lemma rungs_ok_standdown: "rungs_ok params st \<Longrightarrow> rungs_ok params (fst (standdown33 st r))"
  using ro_standdown [of st r] by (auto simp: rest_only_def standdown_sel intro: rungs_ok_cong)

lemma rungs_ok_moves:
  assumes ok: "rungs_ok params st" "\<not> x_awaiting_replace st" "x_n_top st = Some n" "whole_cent n"
    and out: "out = out_orders st target" and vac: "vacant = vacant_prices st target"
    and tgt: "target = targets params st n"
    and budget: "int (length (x_rolls st)) + int budget \<le> q_max_amends params"
  shows "rungs_ok params (fst (converge_moves params st target out vacant budget now))"
proof -
  let ?outs = "sort_key ro_price out"
  let ?k = "min (min (length ?outs) (length vacant)) budget"
  let ?ps = "zip (take ?k ?outs) vacant"
  let ?s = "fst (roll_pairs params target now st ?ps)"
  have len: "length ?ps \<le> budget" "map fst ?ps = take ?k ?outs"
    by (simp, simp only: map_fst_zip_take length_take length_sort min.assoc min.left_idem min.idem)
      (simp add: min.assoc min.commute min.left_commute)
  have vt: "p = price_of_margin params n (dict_get_default target p 0) \<and> placeable params st p"
    if "p \<in> set vacant" for p
    using targetsD(1,2) [of params st n p] vacant_target [of p st target] that
    by (simp add: vac tgt)
  have "distinct (map ro_coid (x_ladder st))" using ok(1) by (simp add: rungs_ok_def ladder_coids_def)
  then have "distinct (map ro_coid out)" unfolding out out_orders_def
    by (rule distinct_subseq [OF subseq_map [OF subseq_filter_self]])
  then have "distinct (map ro_coid ?outs)"
    by (simp add: distinct_map)
  then have d1: "distinct (map (ro_coid \<circ> fst) ?ps)"
    unfolding map_map [symmetric] len(2) take_map [symmetric] by (rule distinct_take)
  have d2: "set (map (ro_coid \<circ> fst) ?ps) \<inter> set (map rp_old_coid (x_rolls st)) = {}"
    unfolding map_map [symmetric] len(2)
    using set_take_subset [of ?k ?outs] by (auto simp: out out_orders_def)
  have d3: "\<forall>rp \<in> set ?ps. whole_cent (snd rp) \<and> q_n_min params \<le> snd rp"
  proof
    fix rp assume "rp \<in> set ?ps"
    then have "snd rp \<in> set vacant" by (metis prod.collapse set_zip_rightD)
    from vt [OF this] show "whole_cent (snd rp) \<and> q_n_min params \<le> snd rp"
      using whole_price_of_margin [OF ok(4)] by (metis placeable_def)
  qed
  have "int (length (x_rolls st)) + int (length ?ps) \<le> q_max_amends params"
    using budget len(1) by linarith
  from rungs_ok_roll_pairs [OF ok(1,2) d1 d2 this d3, of target now]
  have s: "rungs_ok params ?s" "\<not> x_awaiting_replace ?s" using ok(2) by auto
  have n: "x_n_top ?s = Some n" using ro_roll_pairs [of st params target now ?ps] ok(3) by (simp add: rest_only_def)
  have "\<forall>p \<in> set (take j (drop i vacant)). p = price_of_margin params n (dict_get_default target p 0)" for i j
    using vt by (auto dest!: in_set_takeD in_set_dropD)
  note c = rungs_ok_create [OF s n this]
  show ?thesis
    unfolding converge_moves_def Let_def case_prod_beta
    by (simp only: fst_conv snd_conv if_distrib [of fst] if_distrib [of "rungs_ok params"] c s(1)
        rungs_ok_shrink [OF s(1)] if_cancel)
qed

lemma rungs_ok_converge_orders:
  assumes "rungs_ok params st" "\<not> x_awaiting_replace st" "x_n_top st = Some n" "whole_cent n"
  shows "rungs_ok params (fst (converge_orders params st n now resumed))"
proof -
  have set_dir: "rungs_ok params (s\<lparr>x_converging_dir := d\<rparr>)" if "rungs_ok params s" for s d
    by (rule rungs_ok_cong [OF that]) simp_all
  have dir: "rungs_ok params (st\<lparr>x_converging_dir := d\<rparr>)" for d by (rule set_dir [OF assms(1)])
  define k where "k = q_max_amends params - int (length (x_rolls st))"
  have k: "q_max_amends params - int (length (x_rolls (st\<lparr>x_converging_dir := d\<rparr>))) = k" for d
    by (simp add: k_def)
  let ?t = "targets params st n"
  let ?m = "\<lambda>d. converge_moves params (st\<lparr>x_converging_dir := d\<rparr>) ?t (out_orders st ?t)
      (vacant_prices st ?t) (nat k) now"
  have same: "out_orders (st\<lparr>x_converging_dir := d\<rparr>) t = out_orders st t"
    "vacant_prices (st\<lparr>x_converging_dir := d\<rparr>) t = vacant_prices st t"
    "targets params (st\<lparr>x_converging_dir := d\<rparr>) n = targets params st n" for d t
    by (simp_all add: out_orders_def pt_covered_coids_def pt_active_def vacant_prices_def
        held_cancel_prices_def targets_def placeable_open_slots_def open_slots_def placeable_def)
  have moves: "rungs_ok params (fst (?m d))" if "\<not> k \<le> 0" for d
    by (rule rungs_ok_moves [of params "st\<lparr>x_converging_dir := d\<rparr>" n])
      (use assms dir that in \<open>simp_all add: same k_def\<close>)
  have "rungs_ok params ((fst (?m d))\<lparr>x_last_replace_ts := a, x_replace_times := b\<rparr>)"
    if "\<not> k \<le> 0" for d a b
    by (rule rungs_ok_cong [OF moves [OF that, of d]]) simp_all
  with moves dir assms(1) show ?thesis
    unfolding converge_orders_def Let_def case_prod_beta k by simp
qed

lemma rungs_ok_healthy:
  assumes ok: "rungs_ok params st" and n: "x_n_top st = Some n" "whole_cent n"
  shows "rungs_ok params (fst (healthy_step params st n now resumed))"
proof -
  have "rungs_ok params ((fst (cancel_all_then_replace st))\<lparr>x_rest_bucket_Sd := b\<rparr>)" for b
    by (rule rungs_ok_cong [OF rungs_ok_cancel_replace [OF ok]]) simp_all
  moreover have "rungs_ok params (fst (place_all params (st\<lparr>x_awaiting_replace := False\<rparr>) n now))"
    by (rule rungs_ok_place_all) (use ok n in \<open>auto intro: rungs_ok_cong\<close>)
  moreover have "rungs_ok params (st\<lparr>x_rest_allotment_done := True\<rparr>)"
    by (rule rungs_ok_cong [OF ok]) simp_all
  moreover have "\<not> x_awaiting_replace st" if "\<not> (x_ladder st = [] \<and> x_rolls st = [])"
    using ok that by (auto simp: rungs_ok_def)
  ultimately show ?thesis
    unfolding healthy_step_def
    using ok n rungs_ok_place_all [OF ok _ n(1)] rungs_ok_converge_orders [OF ok _ n]
    by (simp add: case_prod_beta)
qed

lemma rungs_ok_converge:
  assumes ok: "rungs_ok params st" and q: "quote_ok params st"
  shows "rungs_ok params (fst (converge params st now))"
proof -
  have "rungs_ok params (fst (standdown33 ((fst (cancel_all st False))\<lparr>x_stood_down := True\<rparr>) r))" for r
    by (intro rungs_ok_standdown rungs_ok_cong [OF rungs_ok_cancel_all [OF ok, of False]]) simp_all
  moreover have "rungs_ok params (fst (no_quote_step params st r now))" for r
  proof -
    have h: "rungs_ok params (st\<lparr>x_hold_reason := a, x_hold_since := b\<rparr>)" for a b
      by (rule rungs_ok_cong [OF ok]) simp_all
    have "rungs_ok params (st\<lparr>x_hold_reason := a, x_hold_since := b, x_hold_sub_cause := c\<rparr>)" for a b c
      by (rule rungs_ok_cong [OF ok]) simp_all
    moreover have "rungs_ok params (fst (cancel_all_then_replace (st\<lparr>x_hold_reason := a, x_hold_since := b,
        x_last_standdown_reason := c, x_stand_down_reason := d\<rparr>)))" for a b c d
      by (intro rungs_ok_cancel_replace rungs_ok_cong [OF ok]) simp_all
    moreover have "rungs_ok params (fst (plain_no_quote st r))"
      unfolding plain_no_quote_def Let_def case_prod_beta
      using rungs_ok_standdown [OF rungs_ok_cancel_replace [OF ok]]
        rungs_ok_standdown [OF rungs_ok_cancel_replace [OF h]] by simp
    ultimately show ?thesis
      using ok by (simp add: no_quote_step_def case_prod_beta split: option.split)
  qed
  moreover have "rungs_ok params (fst (healthy_step params
      (clear_standdown (if h then st\<lparr>x_hold_reason := None, x_hold_since := None\<rparr> else st)) n now h))"
    if "quote_gate33_of params st now = Healthy33 n" for n h
  proof (rule rungs_ok_healthy)
    have n: "x_n_top st = Some n"
      using that by (auto simp: quote_gate33_of_def Let_def split: if_splits option.splits)
    then show "whole_cent n" using q by (simp add: quote_ok_def)
    show "x_n_top (clear_standdown (if h then st\<lparr>x_hold_reason := None, x_hold_since := None\<rparr> else st)) = Some n"
      using n by (simp add: clear_standdown_def)
    show "rungs_ok params (clear_standdown (if h then st\<lparr>x_hold_reason := None, x_hold_since := None\<rparr> else st))"
      by (rule rungs_ok_cong [OF ok]) (simp_all add: clear_standdown_def)
  qed
  ultimately show ?thesis
    using ok by (simp add: converge_def Let_def case_prod_beta rungs_ok_cancel_all split: quote_gate33.split)
qed

end
