(* ===== verification/V33_Steps.thy ===== *)
theory V33_Steps
  imports V33_Ladder_Inv
begin

text \<open>
  Every operation of the V3.3 core moves the state forward (\<open>later\<close>): the quote context stays,
  coids and batch numbers are only consumed, a consumed margin slot stays consumed and no other
  slot changes, the stand-down latches, and the booked fills only grow, one count per fill.
  The print-through and booking operations moreover only remove rests (\<open>settles\<close>), so they keep
  the ladder invariant; with the convergence's own lemma this gives the invariant of every step.
\<close>

section \<open>Moving forward\<close>

definition margins_le :: "nat list \<Rightarrow> nat list \<Rightarrow> bool" where
  "margins_le xs ys \<longleftrightarrow> list_all2 (\<lambda>a b. b = a \<or> b = 2) xs ys"

lemma margins_le_refl [simp]: "margins_le xs xs"
  by (simp add: margins_le_def list_all2_refl)

lemma margins_le_trans: "margins_le xs ys \<Longrightarrow> margins_le ys zs \<Longrightarrow> margins_le xs zs"
  unfolding margins_le_def list_all2_conv_all_nth by metis

lemma margins_le_consume [simp]: "margins_le xs (xs[i := 2])"
  by (cases "i < length xs") (auto simp: margins_le_def list_all2_conv_all_nth nth_list_update)

lemma margins_le_nth: "margins_le xs ys \<Longrightarrow> m < length xs \<Longrightarrow> ys ! m = xs ! m \<or> ys ! m = 2"
  by (auto simp: margins_le_def list_all2_conv_all_nth)

lemma margins_le_length: "margins_le xs ys \<Longrightarrow> length ys = length xs"
  by (auto simp: margins_le_def dest: list_all2_lengthD)

definition grows :: "v33_state \<Rightarrow> v33_state \<Rightarrow> bool" where
  "grows st st' \<longleftrightarrow>
     x_close_epoch st' = x_close_epoch st \<and> x_close_time st' = x_close_time st \<and>
     x_coid_prefix st' = x_coid_prefix st \<and> x_shakedown st' = x_shakedown st \<and>
     x_coid_seq st \<le> x_coid_seq st' \<and> x_next_batch_index st \<le> x_next_batch_index st' \<and>
     margins_le (x_margin_state st) (x_margin_state st') \<and>
     (x_stood_down st \<longrightarrow> x_stood_down st') \<and>
     (x_rest_allotment_done st \<longrightarrow> x_rest_allotment_done st') \<and>
     (\<exists>fs. x_rest_fills st' = x_rest_fills st @ fs \<and>
           x_rungs_filled st' = x_rungs_filled st + length fs)"

definition same_quote :: "v33_state \<Rightarrow> v33_state \<Rightarrow> bool" where
  "same_quote st st' \<longleftrightarrow>
     x_n_top st' = x_n_top st \<and> x_cap st' = x_cap st \<and> x_W st' = x_W st \<and>
     x_spot_Sd st' = x_spot_Sd st"

definition later :: "v33_state \<Rightarrow> v33_state \<Rightarrow> bool" where
  "later st st' \<longleftrightarrow> grows st st' \<and> same_quote st st'"

lemma grows_refl [simp]: "grows st st"
  by (simp add: grows_def)

lemma grows_trans: "grows a b \<Longrightarrow> grows b c \<Longrightarrow> grows a c"
  unfolding grows_def by (auto intro: margins_le_trans)

lemma later_refl [simp]: "later st st"
  by (simp add: later_def same_quote_def)

lemma later_trans: "later a b \<Longrightarrow> later b c \<Longrightarrow> later a c"
  unfolding later_def same_quote_def by (auto intro: grows_trans)

lemma later_rest: "rest_only st st' \<Longrightarrow> later st st'"
  by (simp add: later_def same_quote_def grows_def rest_only_def)

definition settles :: "v33_state \<Rightarrow> v33_state \<Rightarrow> bool" where
  "settles st st' \<longleftrightarrow>
     later st st' \<and> subseq (x_ladder st') (x_ladder st) \<and> subseq (x_rolls st') (x_rolls st) \<and>
     x_awaiting_replace st' = x_awaiting_replace st"

lemma settles_refl [simp]: "settles st st"
  by (simp add: settles_def)

lemma settles_trans: "settles a b \<Longrightarrow> settles b c \<Longrightarrow> settles a c"
  unfolding settles_def by (auto intro: later_trans subseq_order.order_trans)

lemma settles_wing: "wing_only st st' \<Longrightarrow> settles st st'"
  by (simp add: settles_def later_def same_quote_def grows_def wing_only_def)

lemma rungs_ok_settles:
  assumes s: "settles st st'" and ok: "rungs_ok params st"
  shows "rungs_ok params st'"
proof (rule rungs_ok_subseq [OF ok])
  show "x_ladder st' = [] \<and> x_rolls st' = []" if "x_awaiting_replace st'"
    using that s ok by (auto simp: settles_def rungs_ok_def)
qed (use s in \<open>auto simp: settles_def later_def same_quote_def grows_def\<close>)

text \<open>Updates of fields no frame mentions.\<close>

lemma settles_upd:
  "settles st s \<Longrightarrow> settles st (s\<lparr>x_pt_stood_down := a, x_stood_down := True, x_pt_one_legged := c\<rparr>)"
  "settles st s \<Longrightarrow> settles st (s\<lparr>x_rest_allotment_done := True\<rparr>)"
  "settles st s \<Longrightarrow> settles st (s\<lparr>x_fill_seen := e\<rparr>)"
  "settles st s \<Longrightarrow> settles st (s\<lparr>x_amend_cross_pending := f\<rparr>)"
  "settles st s \<Longrightarrow> settles st (s\<lparr>x_outstanding_cancels := g\<rparr>)"
  "settles st s \<Longrightarrow> settles st (s\<lparr>x_wing_legs := l\<rparr>)"
  "settles st s \<Longrightarrow> settles st (s\<lparr>x_cancel_pending_px := h\<rparr>)"
  by (simp_all add: settles_def later_def same_quote_def grows_def)

section \<open>The print-through operations\<close>

lemma settles_latch: "settles st (pt_latch_if_done params st)"
  using settles_upd(2) [OF settles_refl] by (simp add: pt_latch_if_done_def)

lemma settles_taker: "settles st (pt_book_taker_complete params st idx price count now)"
  by (auto simp: pt_book_taker_complete_def Let_def on_batch_def settles_def later_def same_quote_def
      grows_def split: option.split)

lemma note_cancelled_sel:
  "x_ladder (note_cancelled st r) = x_ladder st" "x_rolls (note_cancelled st r) = x_rolls st"
  "x_awaiting_replace (note_cancelled st r) = x_awaiting_replace st"
  "x_margin_state (note_cancelled st r) = x_margin_state st"
  "x_n_top (note_cancelled st r) = x_n_top st"
  by (simp_all add: note_cancelled_def arm_cancel_pending_def remember_cancel33_def split: option.split)

lemma margins_le_consume_margin: "margins_le ms (consume_margin params st price ms)"
  by (simp add: consume_margin_def Let_def split: option.split)

lemma settles_cancel_one:
  assumes "pt_cancel_one params st coid = (st', acts, oids)"
  shows "settles st st'"
proof (cases "order_by_coid st coid")
  case None
  with assms show ?thesis by (simp add: pt_cancel_one_def)
next
  case (Some r)
  have "later st (note_cancelled st r)" by (rule later_rest [OF ro_note_cancelled])
  then show ?thesis
    using assms Some margins_le_consume_margin [of "x_margin_state st" params "note_cancelled st r" "ro_price r"]
      subseq_drop_order [of "x_ladder st" coid]
    by (auto simp: pt_cancel_one_def Let_def settles_def later_def same_quote_def grows_def
        note_cancelled_sel)
qed

lemma settles_cancel_rungs:
  "pt_cancel_rungs params st cs = (st', acts, oids) \<Longrightarrow> settles st st'"
proof (induction cs arbitrary: st st' acts oids)
  case (Cons c cs)
  obtain st1 a1 o1 where c: "pt_cancel_one params st c = (st1, a1, o1)"
    by (cases "pt_cancel_one params st c")
  obtain st2 a2 o2 where cs: "pt_cancel_rungs params st1 cs = (st2, a2, o2)"
    by (cases "pt_cancel_rungs params st1 cs")
  from Cons.prems c cs have "st' = st2" by simp
  with settles_trans [OF settles_cancel_one [OF c] Cons.IH [OF cs]] show ?case by simp
qed simp

lemma settles_drop_batch: "settles st (drop_batch st i idx f)"
  unfolding drop_batch_def
  by (rule settles_trans [OF _ settles_wing [OF wf_replace_pt]])
    (simp add: settles_def later_def same_quote_def grows_def)

lemma settles_legs_batch:
  "settles st (replace_pt (on_batch (st\<lparr>x_wing_legs := ls\<rparr>) i f) idx g)"
  by (intro settles_trans [OF _ settles_wing [OF wf_replace_pt]]
      settles_trans [OF _ settles_wing [OF wf_on_batch]] settles_upd settles_refl)

lemma settles_close: "settles st (maybe_close_set33 st i)"
  by (rule settles_wing [OF wf_close])

lemma settles_sync: "settles st (sync_mirrors33 st)"
  by (rule settles_wing [OF wf_sync])

lemma settles_standdown: "settles st (fst (standdown33 st r))"
  using later_rest [OF ro_standdown] by (simp add: settles_def standdown_sel)

lemma settles_unwind: "settles st (fst (pt_unwind params st idx now r))"
  unfolding pt_unwind_def Let_def
  by (auto simp: case_prod_beta settles_drop_batch
      intro: settles_trans [OF settles_legs_batch settles_close] split: option.split)

lemma settles_complete: "settles st (fst (pt_complete params st idx s px lock now))"
proof -
  have "settles st (pt_latch_if_done params (maybe_close_set33
      (replace_pt (pt_book_taker_complete params st idx px n now) idx f) i))" for n f i
    by (intro settles_trans [OF _ settles_latch] settles_trans [OF _ settles_close]
        settles_trans [OF _ settles_wing [OF wf_replace_pt]] settles_taker)
  moreover have "settles st (replace_pt (snd (mint_coid33 st)) idx f)" for f
    by (rule settles_trans [OF settles_wing [OF wf_mint] settles_wing [OF wf_replace_pt]])
  ultimately show ?thesis
    by (simp add: pt_complete_def Let_def case_prod_beta)
qed

lemma settles_finalize: "settles st (fst (pt_finalize_stall params st idx now))"
proof -
  let ?s = "replace_pt st idx (\<lambda>t. t\<lparr>pt_stall_pending := False\<rparr>)"
  have s: "settles st ?s" by (rule settles_wing [OF wf_replace_pt])
  have "settles ?s (pt_mark_resolution ?s i r t)" for i r t
    by (rule settles_wing [OF wf_mark])
  moreover have "settles ?s (sync_mirrors33 (pt_mark_resolution (maybe_close_set33 ?s i) k r t))" for i k r t
    by (intro settles_trans [OF _ settles_sync] settles_trans [OF _ settles_wing [OF wf_mark]] settles_close)
  moreover have "settles ?s (sync_mirrors33 (fst (pt_complete params ?s idx n px l now)))" for n px l
    by (rule settles_trans [OF settles_complete settles_sync])
  moreover have "settles ?s (sync_mirrors33 (fst (pt_unwind params ?s idx now r)))" for r
    by (rule settles_trans [OF settles_unwind settles_sync])
  ultimately have "\<not> pt_resolved (x_print_through st ! idx) \<Longrightarrow>
      settles ?s (fst (pt_finalize_stall params st idx now))"
    by (simp add: pt_finalize_stall_def Let_def case_prod_beta split: option.split)
  with s show ?thesis
    by (cases "pt_resolved (x_print_through st ! idx)")
      (simp add: pt_finalize_stall_def Let_def, blast intro: settles_trans)
qed

lemma settles_begin_stall: "settles st (fst (pt_begin_stall params st idx now))"
proof -
  obtain st1 ca oids where c: "pt_cancel_unfilled params st (x_print_through st ! idx) = (st1, ca, oids)"
    by (cases "pt_cancel_unfilled params st (x_print_through st ! idx)")
  have "settles st st1" using settles_cancel_rungs c unfolding pt_cancel_unfilled_def .
  then have "settles st (replace_pt st1 idx f)" for f
    by (rule settles_trans [OF _ settles_wing [OF wf_replace_pt]])
  then show ?thesis
    using settles_trans [OF _ settles_finalize]
    by (simp add: pt_begin_stall_def Let_def c case_prod_beta)
qed

lemma settles_over:
  "(\<And>s i. settles s (fst (f s i))) \<Longrightarrow> settles st (fst (over_triggers f st is))"
proof (induction "is" arbitrary: st)
  case (Cons i "is")
  from settles_trans [OF Cons.prems Cons.IH [OF Cons.prems]] show ?case
    by (simp add: case_prod_beta Let_def)
qed simp

lemma settles_confirm_one: "settles st (fst (pt_confirm_one params st i idx now))"
  using settles_trans [OF settles_wing [OF wf_replace_pt] settles_finalize]
    settles_wing [OF wf_replace_pt]
  by (simp add: pt_confirm_one_def Let_def)

lemma settles_confirmed: "settles st (fst (pt_on_cancel_confirmed params st oid now))"
  unfolding pt_on_cancel_confirmed_def
  by (cases oid) (simp_all add: settles_confirm_one
      settles_over [where f = "\<lambda>s idx. pt_confirm_one params s i idx now" for i])

lemma settles_fail_closed: "settles st (fst (pt_fail_closed params st i now))"
proof -
  have "settles st (fst (case pt_cancel_unfilled params st t of (st1, ca, _) \<Rightarrow>
      let (st2, ua) = pt_unwind params st1 idx now ''partial'';
          (st3, sd) = standdown33
            (st2\<lparr>x_pt_stood_down := True, x_stood_down := True, x_pt_one_legged := True\<rparr>)
            ''print_through_partial''
      in (sync_mirrors33 st3, ca @ ua @ sd)))" for t idx
  proof (cases "pt_cancel_unfilled params st t")
    case (fields st1 ca oids)
    have "settles st st1" using settles_cancel_rungs fields unfolding pt_cancel_unfilled_def .
    then have "settles st (fst (pt_unwind params st1 idx now ''partial''))"
      by (rule settles_trans [OF _ settles_unwind])
    from settles_trans [OF settles_trans [OF settles_upd(1) [OF this] settles_standdown] settles_sync]
    show ?thesis by (simp add: fields Let_def case_prod_beta)
  qed
  then show ?thesis
    unfolding pt_fail_closed_def Let_def by (simp split: option.split)
qed

lemma settles_stall_one: "settles st (fst (pt_stall_one params now st idx))"
  by (simp add: pt_stall_one_def Let_def settles_fail_closed settles_begin_stall split: option.split)

lemma settles_stall: "settles st (fst (pt_stall_step params st now))"
  by (simp add: pt_stall_step_def settles_stall_one settles_over [where f = "pt_stall_one params now"])

lemma settles_fire: "settles st (fst (pt_fire params st sd ya na y cands now))"
  by (simp add: pt_fire_def Let_def mint_coid33_eq sync_mirrors33_def settles_def later_def
      same_quote_def grows_def)

lemma settles_print_through: "settles st (fst (print_through_step params st e now))"
  unfolding print_through_step_def
  by (auto simp: Let_def settles_fire split: option.split)

lemma settles_complete_fill:
  assumes "pt_apply_complete_fill params st e now = Some (st', acts)"
  shows "settles st st'"
proof -
  obtain i where i: "find_index (\<lambda>t. pt_complete_coid t \<noteq> None \<and> pt_complete_coid t = vf_coid e)
             (x_print_through st) = Some i"
    using assms by (auto simp: pt_apply_complete_fill_def split: option.splits)
  define st1 where "st1 = replace_pt (pt_book_taker_complete params st i
      (case vf_price e of Some p \<Rightarrow> p
       | None \<Rightarrow> (case pt_complete_price (x_print_through st ! i) of Some p \<Rightarrow> p | None \<Rightarrow> 0))
      (q_count (vf_count e)) now) i (\<lambda>x. x\<lparr>pt_complete_coid := None\<rparr>)"
  have s1: "settles st st1" unfolding st1_def
    by (rule settles_trans [OF settles_taker settles_wing [OF wf_replace_pt]])
  have short: "settles s (fst (unwind_short s i t n b))" for s t n b
    unfolding unwind_short_def Let_def case_prod_beta
    by (simp, intro settles_trans [OF _ settles_standdown] settles_upd(1) settles_legs_batch)
  let ?t = "x_print_through st ! i"
  define st2 where "st2 = fst (case find_batch st1 (pt_batch_index ?t) of
      Some b \<Rightarrow> if 0 < q_count (pt_shortfall ?t) - q_count (vf_count e)
                then unwind_short st1 i ?t (q_count (pt_shortfall ?t) - q_count (vf_count e)) b
                else (st1, [])
    | None \<Rightarrow> (st1, []))"
  have s2: "settles st1 st2" by (simp add: st2_def short split: option.split)
  have st': "st' = sync_mirrors33 (pt_latch_if_done params (maybe_close_set33 st2 (pt_batch_index ?t)))"
    using assms i unfolding pt_apply_complete_fill_def Let_def case_prod_beta st2_def st1_def
    by (simp del: not_None_eq)
  show ?thesis unfolding st'
    by (intro settles_trans [OF _ settles_sync] settles_trans [OF _ settles_latch]
        settles_trans [OF _ settles_close] settles_trans [OF s1 s2])
qed

end
