(* ===== verification/V33_Booking.thy ===== *)
theory V33_Booking
  imports V33_Steps
begin

text \<open>
  Booking a rung fill moves the state forward (\<open>later\<close>) and keeps the ladder invariant: the
  filled order shrinks to its remainder or leaves the ladder, exactly one fill is recorded and
  counted, and its margin slot is consumed. \<open>inv33\<close> is the invariant of a whole step.
\<close>

section \<open>Changing a ladder in place\<close>

lemma rungs_ok_relabel:
  assumes ok: "rungs_ok params st"
    and coids: "subseq (map ro_coid (x_ladder st')) (map ro_coid (x_ladder st))"
    and rolls: "subseq (x_rolls st') (x_rolls st)"
    and same: "x_coid_prefix st' = x_coid_prefix st" "x_close_time st' = x_close_time st"
      "x_coid_seq st \<le> x_coid_seq st'"
    and orders: "\<forall>r \<in> set (x_ladder st'). sized params r \<and> labelled params (x_n_top st') r"
    and await: "x_awaiting_replace st' \<Longrightarrow> x_awaiting_replace st"
  shows "rungs_ok params st'"
proof -
  have sub: "subseq (ladder_coids st') (ladder_coids st)"
    unfolding ladder_coids_def by (intro list_emb_append_mono subseq_map coids rolls)
  have "distinct (ladder_coids st')" "\<forall>c \<in> set (ladder_coids st'). coid_minted st' c"
    using ok sub distinct_subseq [OF sub] set_subseq [OF sub] coid_minted_mono [OF _ same(3,1,2)]
    by (auto simp: rungs_ok_def)
  moreover have "distinct (map rp_old_coid (x_rolls st'))"
    using ok distinct_subseq [OF subseq_map [OF rolls]] by (auto simp: rungs_ok_def)
  moreover have "length (x_rolls st') \<le> length (x_rolls st)" by (rule list_emb_length [OF rolls])
  moreover have "set (x_rolls st') \<subseteq> set (x_rolls st)" by (rule set_subseq [OF rolls])
  moreover have "x_ladder st' = [] \<and> x_rolls st' = []" if "x_awaiting_replace st'"
    using ok await [OF that] list_emb_Nil2 [of "(=)" "map ro_coid (x_ladder st')"]
      list_emb_Nil2 [of "(=)" "x_rolls st'"] coids rolls by (auto simp: rungs_ok_def)
  ultimately show ?thesis using ok orders by (auto simp: rungs_ok_def)
qed

lemma replace_order_map: "(\<And>r. ro_coid (f r) = ro_coid r) \<Longrightarrow>
    map ro_coid (replace_order rs c f) = map ro_coid rs"
  by (induction rs) auto

lemma set_replace_order:
  "r \<in> set (replace_order rs c f) \<Longrightarrow> r \<in> set rs \<or> (\<exists>x \<in> set rs. ro_coid x = c \<and> r = f x)"
proof (induction rs)
  case (Cons a rs)
  then show ?case by (cases "ro_coid a = c") auto
qed simp

lemma fill_ladder_coids: "subseq (map ro_coid (fill_ladder rs c d)) (map ro_coid rs)"
  by (auto simp: fill_ladder_def Let_def replace_order_map subseq_map [OF subseq_drop_order]
      split: option.split)

lemma fill_ladder_cases:
  assumes "distinct (map ro_coid rs)" and "r \<in> set (fill_ladder rs c d)"
  shows "r \<in> set rs \<or> (\<exists>x \<in> set rs. ro_coid x = c \<and> 0 < q_count (ro_count x - d) \<and>
           r = x\<lparr>ro_count := q_count (ro_count x - d)\<rparr>)"
proof (cases "find (\<lambda>r. ro_coid r = c) rs")
  case None
  with assms(2) show ?thesis by (simp add: fill_ladder_def)
next
  case (Some y)
  then have y: "y \<in> set rs" "ro_coid y = c" by (auto simp: find_Some_iff)
  let ?n = "q_count (ro_count y - d)"
  have uniq: "x = y" if "x \<in> set rs" "ro_coid x = c" for x
    by (rule inj_onD [of ro_coid "set rs"]) (use that y assms(1) in \<open>simp_all add: distinct_map\<close>)
  have r: "r \<in> set (if ?n \<le> 0 then drop_order rs c else replace_order rs c (\<lambda>x. x\<lparr>ro_count := ?n\<rparr>))"
    using assms(2) by (simp add: fill_ladder_def Some Let_def)
  show ?thesis
  proof (cases "?n \<le> 0")
    case True
    with r show ?thesis by (simp add: drop_order_def)
  next
    case False
    with r have "r \<in> set (replace_order rs c (\<lambda>x. x\<lparr>ro_count := ?n\<rparr>))" by simp
    from set_replace_order [OF this] show ?thesis
    proof
      assume "\<exists>x \<in> set rs. ro_coid x = c \<and> r = x\<lparr>ro_count := ?n\<rparr>"
      then obtain x where x: "x \<in> set rs" "ro_coid x = c" "r = x\<lparr>ro_count := ?n\<rparr>" by blast
      with uniq [OF x(1,2)] False show ?thesis by (intro disjI2 bexI [of _ x]) simp_all
    qed simp
  qed
qed

lemma sized_remainder:
  assumes "sized params r" "0 \<le> d" "whole_cent d" "0 < q_count (ro_count r - d)"
  shows "sized params (r\<lparr>ro_count := q_count (ro_count r - d)\<rparr>)"
proof -
  have "q_count (ro_count r - d) = ro_count r - d"
    using assms by (simp add: q_count_def quantize_he_whole whole_cent_diff sized_def)
  with assms show ?thesis by (simp add: sized_def whole_cent_diff)
qed

section \<open>Recording a fill\<close>

lemma later_record: "later st (record_fill params st coid rf d)"
  by (simp add: record_fill_def Let_def later_def same_quote_def grows_def)

lemma rungs_ok_record:
  assumes ok: "rungs_ok params st" and d: "0 \<le> d" "whole_cent d"
  shows "rungs_ok params (record_fill params st coid rf d)"
proof (rule rungs_ok_relabel [OF ok])
  have dist: "distinct (map ro_coid (x_ladder st))" using ok by (simp add: rungs_ok_def ladder_coids_def)
  show "\<forall>r \<in> set (x_ladder (record_fill params st coid rf d)).
      sized params r \<and> labelled params (x_n_top (record_fill params st coid rf d)) r"
  proof
    fix r assume "r \<in> set (x_ladder (record_fill params st coid rf d))"
    then have "r \<in> set (fill_ladder (x_ladder st) coid d)" by (simp add: record_fill_def Let_def)
    from fill_ladder_cases [OF dist this] show "sized params r \<and>
        labelled params (x_n_top (record_fill params st coid rf d)) r"
      using ok sized_remainder [OF _ d]
      by (auto simp: rungs_ok_def record_fill_def Let_def labelled_def split: option.split)
  qed
qed (simp_all add: record_fill_def Let_def fill_ladder_coids)

lemma settles_unnamed: "later st (fst (book_unnamed st))"
  and rungs_ok_unnamed: "rungs_ok params st \<Longrightarrow> rungs_ok params (fst (book_unnamed st))"
proof -
  let ?s = "st\<lparr>x_bucket_unknown := True, x_stood_down := True, x_rest_allotment_done := True\<rparr>"
  have s: "later st ?s" by (simp add: later_def same_quote_def grows_def)
  have "later ?s (sync_mirrors33 (fst (standdown33 s1 r)))" if "rest_only ?s s1" for s1 r
    using later_trans [OF later_rest [OF rest_only_trans [OF that ro_standdown]]]
      settles_sync by (metis settles_def)
  then show "later st (fst (book_unnamed st))"
    using later_trans [OF s] ro_cancel_all [of ?s False]
    by (simp add: book_unnamed_def Let_def case_prod_beta)
  assume ok: "rungs_ok params st"
  have s_ok: "rungs_ok params ?s" by (rule rungs_ok_cong [OF ok]) simp_all
  have "rungs_ok params (sync_mirrors33 (fst (standdown33 s1 r)))" if "rungs_ok params s1" for s1 r
    by (rule rungs_ok_settles [OF settles_sync rungs_ok_standdown [OF that]])
  then show "rungs_ok params (fst (book_unnamed st))"
    using s_ok rungs_ok_cancel_all [OF s_ok, of False]
    by (simp add: book_unnamed_def Let_def case_prod_beta)
qed

lemma settles_attach: "settles st (attach_fill params st coid rf now)"
  unfolding attach_fill_def Let_def
  by (auto intro!: settles_trans [OF _ settles_close] settles_trans [OF _ settles_wing [OF wf_replace_pt]]
      settles_wing [OF wf_on_batch] settles_wing [OF wf_coalesce_add] split: option.split)

lemma settles_named:
  "settles st (sync_mirrors33 (fst (wing_step33 params
     (pt_latch_if_done params (attach_fill params st coid rf now)) t)))"
  by (intro settles_trans [OF _ settles_sync] settles_trans [OF _ settles_wing [OF wf_wing_step]]
      settles_trans [OF _ settles_latch] settles_attach)

lemma later_book: "later st (fst (book_rung_fill params st coid p d k E now b tk orph oid))"
proof -
  have "later s (sync_mirrors33 (fst (wing_step33 params
      (pt_latch_if_done params (attach_fill params s coid rf now)) t)))" for s rf t
    using settles_named by (simp add: settles_def)
  then have "later st (sync_mirrors33 (fst (wing_step33 params (pt_latch_if_done params
      (attach_fill params (record_fill params st coid rf n) coid rf now)) t)))" for rf n t
    by (rule later_trans [OF later_record])
  with later_trans [OF later_record settles_unnamed] show ?thesis
    by (simp add: book_rung_fill_def Let_def case_prod_beta del: not_None_eq)
qed

lemma rungs_ok_book:
  assumes "rungs_ok params st" "0 \<le> q_count d"
  shows "rungs_ok params (fst (book_rung_fill params st coid p d k E now b tk orph oid))"
proof -
  have "rungs_ok params (record_fill params st coid rf (q_count d))" for rf
    by (rule rungs_ok_record [OF assms]) (simp add: q_count_def)
  note r = this
  show ?thesis
    using rungs_ok_unnamed [OF r] rungs_ok_settles [OF settles_named r]
    by (simp add: book_rung_fill_def Let_def case_prod_beta)
qed

lemma rungs_ok_book_orphan:
  "rungs_ok params st \<Longrightarrow> 0 \<le> q_count d \<Longrightarrow>
    rungs_ok params (fst (book_orphan_fill params st coid oid p d tk now b))"
  and later_book_orphan: "later st (fst (book_orphan_fill params st coid oid p d tk now b))"
  by (simp_all add: book_orphan_fill_def case_prod_beta rungs_ok_book later_book)

lemma orphan_delta_state:
  "settles st (fst (orphan_delta st coid src n))"
  by (simp add: orphan_delta_def Let_def settles_upd)

end
