(* ===== verification/V33_Events.thy ===== *)
theory V33_Events
  imports V33_Booking V32_Decide
begin

text \<open>
  The invariant \<open>inv33\<close> of a whole step of the V3.3 core, and that every event keeps it: the
  ladder invariant, an anchor \<open>n_top\<close> that is affordable and below the cap, open margin slots
  that carry a weight at or below the anchor, and one count per booked fill.
\<close>

definition margins_ok :: "v33_params \<Rightarrow> nat list \<Rightarrow> bool" where
  "margins_ok params ms \<longleftrightarrow>
     length ms = nat (emin_cents params + q_rungs params) \<and>
     (\<forall>m < length ms. ms ! m \<le> 2 \<and>
        (ms ! m = 1 \<longrightarrow> emin_cents params \<le> int m \<and> 0 < weight_of_margin params (int m)))"

definition inv33 :: "v33_params \<Rightarrow> v33_state \<Rightarrow> bool" where
  "inv33 params st \<longleftrightarrow>
     rungs_ok params st \<and> quote_ok params st \<and> margins_ok params (x_margin_state st) \<and>
     x_rungs_filled st = length (x_rest_fills st)"

lemma margins_ok_le:
  assumes "margins_ok params ms" "margins_le ms ms'"
  shows "margins_ok params ms'"
  unfolding margins_ok_def
proof (intro conjI allI impI)
  fix m assume m: "m < length ms'"
  then have "m < length ms" using margins_le_length [OF assms(2)] by simp
  with margins_le_nth [OF assms(2) this] assms(1)
  show "ms' ! m \<le> 2" "ms' ! m = 1 \<Longrightarrow> emin_cents params \<le> int m"
    "ms' ! m = 1 \<Longrightarrow> 0 < weight_of_margin params (int m)"
    unfolding margins_ok_def by force+
qed (use assms margins_le_length in \<open>simp add: margins_ok_def\<close>)

lemma margins_ok_initial: "margins_ok params (initial_margins params)"
proof -
  have len: "length (initial_margins params) = nat (emin_cents params + q_rungs params)"
    by (simp add: initial_margins_def Let_def)
  have "initial_margins params ! m = (if emin_cents params \<le> int m \<and>
        int m \<le> emin_cents params + q_rungs params - 1 \<and>
        0 < weight_of_margin params (int m) then 1 else 0)"
    if "m < nat (emin_cents params + q_rungs params)" for m
    using that by (simp add: initial_margins_def Let_def weight_of_margin_def)
  then show ?thesis unfolding margins_ok_def len by simp
qed

lemma quote_ok_later: "quote_ok params st \<Longrightarrow> later st st' \<Longrightarrow> quote_ok params st'"
  using quote_ok_cong [of st' st params] by (simp add: later_def same_quote_def)

lemma inv33_grows:
  "inv33 params st \<Longrightarrow> grows st st' \<Longrightarrow> quote_ok params st' \<Longrightarrow> rungs_ok params st' \<Longrightarrow> inv33 params st'"
  using margins_ok_le [of params "x_margin_state st" "x_margin_state st'"]
  by (auto simp: inv33_def grows_def)

lemma inv33_later: "inv33 params st \<Longrightarrow> later st st' \<Longrightarrow> rungs_ok params st' \<Longrightarrow> inv33 params st'"
  using quote_ok_later [of params st st'] by (intro inv33_grows [of params st st']) (simp_all add: later_def inv33_def)

lemma inv33_rungs: "inv33 params st \<Longrightarrow> rungs_ok params st"
  by (simp add: inv33_def)

lemma inv33_settles: "inv33 params st \<Longrightarrow> settles st st' \<Longrightarrow> inv33 params st'"
  by (rule inv33_later) (auto simp: inv33_def intro: rungs_ok_settles, simp add: settles_def)

lemma inv33_converge: "inv33 params st \<Longrightarrow> inv33 params (fst (converge params st now))"
  by (rule inv33_later [OF _ later_rest [OF ro_converge]])
    (simp_all add: inv33_def rungs_ok_converge)

lemma later_settles: "settles st st' \<Longrightarrow> later st st'"
  by (simp add: settles_def)

section \<open>Acks and amends\<close>

lemma later_upd:
  "later st (st\<lparr>x_ladder := l\<rparr>)" "later st (st\<lparr>x_cancel_pending_px := c\<rparr>)"
  "later st (st\<lparr>x_wing_legs := w\<rparr>)"
  by (simp_all add: later_def same_quote_def grows_def)

lemma later_ack: "later st (apply_ack33 st e)"
  by (simp add: apply_ack33_def later_upd)

lemma rungs_ok_ack:
  assumes ok: "rungs_ok params st"
  shows "rungs_ok params (apply_ack33 st e)"
proof (rule rungs_ok_relabel [OF ok])
  let ?f = "\<lambda>x. x\<lparr>ro_order_id := Some (oa_order_id e), ro_live := True, ro_pending := False\<rparr>"
  show "\<forall>r \<in> set (x_ladder (apply_ack33 st e)). sized params r \<and> labelled params (x_n_top (apply_ack33 st e)) r"
  proof
    fix r assume "r \<in> set (x_ladder (apply_ack33 st e))"
    then have "r \<in> set (x_ladder st) \<or> (\<exists>x \<in> set (x_ladder st). r = ?f x)"
      using set_replace_order [of r "x_ladder st" "oa_coid e" ?f]
      by (simp add: apply_ack33_def split: if_splits) blast
    moreover have "sized params x \<and> labelled params (x_n_top (apply_ack33 st e)) x" if "x \<in> set (x_ladder st)" for x
      using that ok by (simp add: rungs_ok_def apply_ack33_def)
    moreover have "sized params (?f x) = sized params x" "labelled params n (?f x) = labelled params n x" for n x
      by (simp_all add: sized_def labelled_def split: option.split)
    ultimately show "sized params r \<and> labelled params (x_n_top (apply_ack33 st e)) r" by metis
  qed
qed (simp_all add: apply_ack33_def replace_order_map split: if_splits)

lemma settles_drop_roll: "settles st (drop_roll st c)"
  by (simp add: drop_roll_def settles_def later_def same_quote_def grows_def subseq_filter_self)

lemma later_amend_move: "later st (amend_move params st rp p now)"
  by (simp add: amend_move_def Let_def later_def same_quote_def grows_def)

lemma replace_order_coids:
  assumes "\<And>r. ro_coid (f r) = c'" "distinct (map ro_coid rs)" "c' \<notin> set (map ro_coid rs)"
  shows "distinct (map ro_coid (replace_order rs c f)) \<and>
    set (map ro_coid (replace_order rs c f)) \<subseteq> insert c' (set (map ro_coid rs))"
  using assms(2,3)
proof (induction rs)
  case (Cons r rs)
  then show ?case by (cases "ro_coid r = c") (auto simp: assms(1))
qed simp

lemma rungs_ok_amend_move:
  assumes ok: "rungs_ok params st0" and rp: "rp \<in> set (x_rolls st0)"
  shows "rungs_ok params (amend_move params (drop_roll st0 (rp_old_coid rp)) rp p now)"
proof -
  let ?st = "amend_move params (drop_roll st0 (rp_old_coid rp)) rp p now"
  let ?c = "rp_new_coid rp"
  let ?R = "filter (\<lambda>r. rp_old_coid r \<noteq> rp_old_coid rp) (x_rolls st0)"
  let ?L = "map ro_coid (x_ladder ?st)"
  from ok have d: "distinct (map ro_coid (x_ladder st0))" "distinct (map rp_new_coid (x_rolls st0))"
    "set (map ro_coid (x_ladder st0)) \<inter> set (map rp_new_coid (x_rolls st0)) = {}"
    by (auto simp: rungs_ok_def ladder_coids_def)
  have sel: "x_rolls ?st = ?R" "x_n_top ?st = x_n_top st0"
    "x_awaiting_replace ?st = x_awaiting_replace st0" "x_coid_prefix ?st = x_coid_prefix st0"
    "x_close_time ?st = x_close_time st0" "x_coid_seq ?st = x_coid_seq st0"
    by (simp_all add: amend_move_def drop_roll_def Let_def)
  obtain k E where L: "x_ladder ?st = replace_order (x_ladder st0) (rp_old_coid rp)
      (\<lambda>r. r\<lparr>ro_price := p, ro_coid := ?c, ru_rung := k, ru_E_rung := E\<rparr>)"
    and lab: "x_n_top st0 = Some n \<Longrightarrow> k = rung_of n p \<and> E = e_rung params n p" for n
    by (force simp: amend_move_def drop_roll_def Let_def)
  have "?c \<notin> set (map ro_coid (x_ladder st0))" using d(3) rp by auto
  then have lc: "distinct ?L" "set ?L \<subseteq> insert ?c (set (map ro_coid (x_ladder st0)))"
    unfolding L using replace_order_coids [OF _ d(1)] by auto
  have R: "set ?R \<subseteq> set (x_rolls st0) - {rp}" by auto
  then have "?c \<notin> set (map rp_new_coid ?R)"
    using d(2) rp by (auto simp: distinct_map dest: inj_onD)
  moreover have "set (map rp_new_coid ?R) \<inter> set (map ro_coid (x_ladder st0)) = {}"
    using d(3) by auto
  ultimately have "set ?L \<inter> set (map rp_new_coid ?R) = {}" using lc(2) by blast
  then have dist: "distinct (ladder_coids ?st)"
    using lc(1) d(2) by (simp add: ladder_coids_def sel distinct_map_filter)
  have "set (ladder_coids ?st) \<subseteq> set (ladder_coids st0)"
    using lc(2) rp by (auto simp: ladder_coids_def sel)
  moreover have "coid_minted ?st c = coid_minted st0 c" for c by (simp add: coid_minted_def sel)
  ultimately have minted: "\<forall>c \<in> set (ladder_coids ?st). coid_minted ?st c"
    using ok by (auto simp: rungs_ok_def)
  have orders: "\<forall>r \<in> set (x_ladder ?st). sized params r \<and> labelled params (x_n_top ?st) r"
  proof
    fix r assume "r \<in> set (x_ladder ?st)"
    from set_replace_order [OF this [unfolded L]]
    show "sized params r \<and> labelled params (x_n_top ?st) r"
      using ok lab by (auto simp: rungs_ok_def sel sized_def labelled_def split: option.splits)
  qed
  have len: "length ?R \<le> length (x_rolls st0)" by simp
  have "\<not> x_awaiting_replace st0" using ok rp by (auto simp: rungs_ok_def)
  moreover have "int (length ?R) \<le> q_max_amends params" using ok len unfolding rungs_ok_def by linarith
  moreover have "distinct (map rp_old_coid ?R)" using ok by (simp add: rungs_ok_def distinct_map_filter)
  ultimately show ?thesis
    using ok dist minted orders unfolding rungs_ok_def sel by auto
qed

lemma amend_cross_later: "later st (fst (amend_cross params st rp e p now))"
proof -
  have "later st s \<Longrightarrow> later st (s\<lparr>x_amend_cross_pending := d\<rparr>)" for s d
    by (simp add: later_def same_quote_def grows_def)
  then show ?thesis
    by (simp add: amend_cross_def Let_def case_prod_beta later_book split: option.split)
qed

lemma amend_cross_rungs:
  assumes "rungs_ok params st"
  shows "rungs_ok params (fst (amend_cross params st rp e p now))"
proof -
  have keep: "rungs_ok params s \<Longrightarrow> rungs_ok params (s\<lparr>x_amend_cross_pending := d\<rparr>)" for s d
    by (erule rungs_ok_cong) simp_all
  have "q_count (q_count d) = q_count d" for d by (simp add: q_count_def quantize_he_whole)
  then have "0 < q_count d \<Longrightarrow> rungs_ok params (fst (book_rung_fill params st c n (q_count d) k E now b tk orph oid))"
    for d c n k E now b tk orph oid
    using rungs_ok_book [OF assms] by simp
  with keep assms show ?thesis
    by (simp add: amend_cross_def Let_def case_prod_beta split: option.split)
qed

lemma inv33_amended:
  assumes inv: "inv33 params st0"
  shows "inv33 params (fst (apply_amended33 params st0 e now))"
    and "later st0 (fst (apply_amended33 params st0 e now))"
proof -
  have "inv33 params (fst (apply_amended33 params st0 e now)) \<and>
      later st0 (fst (apply_amended33 params st0 e now))"
  proof (cases "find_roll st0 e")
    case None
    with inv show ?thesis by (simp add: apply_amended33_def)
  next
    case (Some rp)
    then have rp: "rp \<in> set (x_rolls st0)" by (auto simp: find_roll_def find_Some_iff)
    let ?st = "drop_roll st0 (rp_old_coid rp)"
    have drop: "inv33 params ?st" "later st0 ?st"
      by (rule inv33_settles [OF inv settles_drop_roll], rule later_settles [OF settles_drop_roll])
    let ?m = "\<lambda>p. fst (amend_cross params (amend_move params ?st rp p now) rp e p now)"
    have lm: "later st0 (?m p)" for p
      by (rule later_trans [OF drop(2) later_trans [OF later_amend_move amend_cross_later]])
    then have "inv33 params (?m p)" for p
      by (rule inv33_later [OF inv])
        (rule amend_cross_rungs [OF rungs_ok_amend_move [OF inv33_rungs [OF inv] rp]])
    note m = inv33_converge [OF this] later_trans [OF lm later_rest [OF ro_converge]]
    show ?thesis
      using m inv33_converge [OF drop(1)] later_trans [OF drop(2) later_rest [OF ro_converge]]
      by (simp add: apply_amended33_def Some Let_def case_prod_beta)
  qed
  then show "inv33 params (fst (apply_amended33 params st0 e now))"
    "later st0 (fst (apply_amended33 params st0 e now))" by simp_all
qed

section \<open>Cancel confirms\<close>

lemma book_cancelled_later: "later st (fst (book_cancelled params st e named now))"
  by (simp add: book_cancelled_def Let_def later_book later_book_orphan split: option.split prod.split)

lemma book_cancelled_rungs:
  assumes "rungs_ok params st"
  shows "rungs_ok params (fst (book_cancelled params st e named now))"
proof -
  have whole: "q_count (q_count a - q_count b) = q_count a - q_count b" for a b
    by (simp add: q_count_def quantize_he_whole whole_cent_diff)
  show ?thesis
    using rungs_ok_book [OF assms] rungs_ok_book_orphan [OF assms] assms
    by (simp add: book_cancelled_def Let_def whole split: option.split prod.split)
qed

lemma roll_fallback_later: "later st (fst (roll_fallback params st rp now))"
proof -
  let ?st = "(drop_roll st (rp_old_coid rp))
      \<lparr>x_ladder := drop_order (x_ladder (drop_roll st (rp_old_coid rp))) (rp_old_coid rp)\<rparr>"
  have d: "later st ?st" by (rule later_trans [OF later_settles [OF settles_drop_roll] later_upd(1)])
  show ?thesis
    using later_trans [OF d later_rest [OF ro_place_one]] d
    by (simp add: roll_fallback_def Let_def split: option.split)
qed

lemma sized_trunc:
  assumes "sized params r" "0 < py_trunc (ro_count r)"
  shows "(of_int (py_trunc (ro_count r)) :: rat) \<le> of_int (max_weight params)"
  using assms by (simp add: sized_def py_trunc_def) linarith

lemma roll_fallback_rungs:
  assumes ok: "rungs_ok params st0" and rp: "rp \<in> set (x_rolls st0)"
  shows "rungs_ok params (fst (roll_fallback params st0 rp now))"
proof -
  let ?st = "(drop_roll st0 (rp_old_coid rp))
      \<lparr>x_ladder := drop_order (x_ladder (drop_roll st0 (rp_old_coid rp))) (rp_old_coid rp)\<rparr>"
  have aw: "\<not> x_awaiting_replace ?st" using ok rp by (auto simp: rungs_ok_def drop_roll_def)
  have "settles st0 ?st"
    by (simp add: drop_roll_def settles_def later_def same_quote_def grows_def subseq_filter_self subseq_drop_order)
  note s = rungs_ok_settles [OF this ok]
  have n: "x_n_top ?st = x_n_top st0" by (simp add: drop_roll_def)
  show ?thesis
  proof (cases "order_by_coid st0 (rp_old_coid rp)")
    case None
    with s show ?thesis by (simp add: roll_fallback_def Let_def split: option.split)
  next
    case (Some r)
    then have "sized params r" using ok by (auto simp: order_by_coid_def find_Some_iff rungs_ok_def)
    from sized_trunc [OF this] have
      "rungs_ok params (fst (place_one params ?st p (rung_of a p) (e_rung params a p) now
        (of_int (py_trunc (ro_count r)))))" if "0 < py_trunc (ro_count r)" "x_n_top ?st = Some a" for p a
      by (intro rungs_ok_place_one [OF s aw]) (use that in auto)
    with s show ?thesis by (simp add: roll_fallback_def Some Let_def split: option.split)
  qed
qed

lemma settles_clear: "settles st (clear_cancel_pending st oid)"
  by (simp add: clear_cancel_pending_def settles_upd(7) split: option.split)

lemma settles_named_drop:
  "settles st (case named of None \<Rightarrow> st | Some r \<Rightarrow> st\<lparr>x_ladder := drop_order (x_ladder st) (ro_coid r)\<rparr>)"
  by (simp add: settles_def later_def same_quote_def grows_def subseq_drop_order split: option.split)

lemma settles_outstanding: "settles st (resolve_outstanding st e named)"
  by (simp add: resolve_outstanding_def settles_upd(5) split: option.split)

lemma inv33_cancelled_later:
  assumes inv: "inv33 params st0"
  shows "inv33 params (fst (apply_cancelled33 params st0 e now)) \<and>
    later st0 (fst (apply_cancelled33 params st0 e now))"
proof -
  let ?st = "clear_cancel_pending st0 (vc_order_id e)"
  let ?named = "named_order ?st e"
  let ?s1 = "fst (book_cancelled params ?st e ?named now)"
  have l1: "later st0 ?s1"
    by (rule later_trans [OF later_settles [OF settles_clear] book_cancelled_later])
  have r1: "rungs_ok params ?s1"
    by (rule book_cancelled_rungs [OF rungs_ok_settles [OF settles_clear inv33_rungs [OF inv]]])
  note i1 = inv33_later [OF inv l1 r1]
  show ?thesis
  proof (cases "rolling_order ?s1 e")
    case (Some rp)
    then have rp: "rp \<in> set (x_rolls ?s1)"
      by (auto simp: rolling_order_def find_Some_iff split: option.splits)
    have "inv33 params (fst (roll_fallback params ?s1 rp now))"
      by (rule inv33_later [OF i1 roll_fallback_later roll_fallback_rungs [OF r1 rp]])
    from inv33_converge [OF this]
      later_trans [OF l1 later_trans [OF roll_fallback_later later_rest [OF ro_converge]]]
    show ?thesis by (simp add: apply_cancelled33_def Some Let_def case_prod_beta)
  next
    case None
    let ?s2 = "case ?named of None \<Rightarrow> ?s1
      | Some r \<Rightarrow> ?s1\<lparr>x_ladder := drop_order (x_ladder ?s1) (ro_coid r)\<rparr>"
    have "settles ?s1 (fst (pt_on_cancel_confirmed params (resolve_outstanding ?s2 e ?named) (vc_order_id e) now))"
      by (rule settles_trans [OF settles_trans [OF settles_named_drop settles_outstanding] settles_confirmed])
    from inv33_converge [OF inv33_settles [OF i1 this]]
      later_trans [OF l1 later_trans [OF later_settles [OF this] later_rest [OF ro_converge]]]
    show ?thesis by (simp add: apply_cancelled33_def None Let_def case_prod_beta)
  qed
qed

section \<open>Fills\<close>

lemma settles_net: "settles st (fst (net_wings st c now))"
  by (rule settles_wing [OF wf_net_wings])

lemma settles_wing_fill: "settles st (fst (wing_fill params st e legs bi now))"
proof -
  let ?s = "st\<lparr>x_wing_legs := legs\<rparr>"
  have s: "settles st ?s" by (rule settles_upd(6) [OF settles_refl])
  have "settles ?s (fst (wing_fill params st e legs bi now))"
    using settles_trans [OF settles_net settles_close]
    by (simp add: wing_fill_def Let_def case_prod_beta settles_fail_closed settles_close)
  with s show ?thesis by (rule settles_trans)
qed

lemma settles_note_seen: "settles st (note_seen st c src d)"
  by (simp add: note_seen_def settles_upd(3))

lemma settles_skip_echo: "settles st (fst (skip_echo33 st oid d))"
  by (simp add: skip_echo33_def Let_def settles_upd(4) split: option.split)

lemma q_count_idem [simp]: "q_count (q_count d) = q_count d"
  by (simp add: q_count_def quantize_he_whole)

lemma skip_echo_whole:
  assumes "whole_cent d"
  shows "whole_cent (snd (skip_echo33 st oid d))"
  using assms
  by (auto simp: skip_echo33_def Let_def q_count_def whole_cent_diff whole_cent_min split: option.split)

lemma inv33_ladder_fill:
  assumes inv: "inv33 params st"
  shows "inv33 params (fst (ladder_fill params st e r now)) \<and>
    later st (fst (ladder_fill params st e r now))"
proof -
  let ?oid = "case ro_order_id r of Some i \<Rightarrow> Some i | None \<Rightarrow> vf_order_id e"
  let ?e = "skip_echo33 (note_seen st (ro_coid r) (vf_source e) (q_count (vf_count e))) ?oid (q_count (vf_count e))"
  have s: "settles st (fst ?e)" by (rule settles_trans [OF settles_note_seen settles_skip_echo])
  have "whole_cent (snd ?e)" by (rule skip_echo_whole) (simp add: q_count_def)
  then have w: "q_count (snd ?e) = snd ?e" by (simp add: q_count_def quantize_he_whole)
  have b: "later st (fst (book_rung_fill params (fst ?e) c p d k E now b tk orph oid))" for c p d k E b tk orph oid
    by (rule later_trans [OF later_settles [OF s] later_book])
  have "inv33 params (fst (book_rung_fill params (fst ?e) c p (snd ?e) k E now b tk orph oid))"
    if "0 < snd ?e" for c p k E b tk orph oid
    by (rule inv33_later [OF inv b])
      (rule rungs_ok_book [OF rungs_ok_settles [OF s inv33_rungs [OF inv]]], use that w in simp)
  with b inv33_settles [OF inv s] later_settles [OF s] show ?thesis
    by (simp add: ladder_fill_def Let_def case_prod_beta)
qed

lemma inv33_orphan:
  assumes inv: "inv33 params st"
  shows "inv33 params (fst (apply_orphan_fill params st e now)) \<and>
    later st (fst (apply_orphan_fill params st e now))"
proof -
  have od: "settles st (fst (orphan_delta st c src n))" for c src n by (rule orphan_delta_state)
  have whole: "q_count (snd (orphan_delta st c src (q_count n))) = snd (orphan_delta st c src (q_count n))" for c src n
    by (simp add: orphan_delta_def Let_def q_count_def quantize_he_whole whole_cent_min whole_cent_diff)
  have l: "later st (fst (book_orphan_fill params (fst (orphan_delta st c src n)) c oid p d tk now b))"
    for c src n oid p d tk b
    by (rule later_trans [OF later_settles [OF od] later_book_orphan])
  have "inv33 params (fst (book_orphan_fill params (fst (orphan_delta st c src (q_count n))) c oid p
      (snd (orphan_delta st c src (q_count n))) tk now b))"
    if "0 < snd (orphan_delta st c src (q_count n))" for c src n oid p tk b
    by (rule inv33_later [OF inv l])
      (rule rungs_ok_book_orphan [OF rungs_ok_settles [OF od inv33_rungs [OF inv]]], use that whole in simp)
  note i = this
  show ?thesis
    using inv i l inv33_settles [OF inv od] later_settles [OF od]
    by (simp add: apply_orphan_fill_def Let_def case_prod_beta split: option.split)
qed

lemma inv33_fill:
  assumes inv: "inv33 params st0"
  shows "inv33 params (fst (apply_fill33 params st0 e now)) \<and>
    later st0 (fst (apply_fill33 params st0 e now))"
proof -
  let ?st = "clear_cancel_pending st0 (vf_order_id e)"
  have c: "inv33 params ?st" "later st0 ?st"
    by (rule inv33_settles [OF inv settles_clear], rule later_settles [OF settles_clear])
  have "inv33 params (fst (apply_fill33 params st0 e now)) \<and>
      later ?st (fst (apply_fill33 params st0 e now))"
  proof (cases "pt_apply_complete_fill params ?st e now")
    case (Some res)
    obtain s a where "res = (s, a)" by (cases res)
    with Some have "settles ?st s" using settles_complete_fill by blast
    from inv33_settles [OF c(1) this] later_settles [OF this]
    show ?thesis by (simp add: apply_fill33_def Some \<open>res = (s, a)\<close>)
  next
    case None
    show ?thesis
      using inv33_settles [OF c(1) settles_wing_fill] later_settles [OF settles_wing_fill]
        inv33_ladder_fill [OF c(1)] inv33_orphan [OF c(1)]
      by (simp add: apply_fill33_def None Let_def split: option.split prod.split)
  qed
  with c(2) show ?thesis by (auto intro: later_trans)
qed

section \<open>The quote context and the whole step\<close>

lemma quote_ok_recompute: "quote_ok params (recompute_context33 params st now)"
  unfolding quote_ok_def
proof (intro allI impI)
  let ?st = "recompute_context33 params st now"
  fix n assume n: "x_n_top ?st = Some n"
  obtain spot x y z where r: "resolve_effective_bucket params st (select_spot (law_view params st)) now = (spot, x, y, z)"
    by (cases "resolve_effective_bucket params st (select_spot (law_view params st)) now")
  have top: "x_n_top ?st = None \<or>
      x_n_top ?st = solve_n (map_option (\<lambda>w. 2 - q_E_min params - w) (x_W ?st)) (x_cap ?st)"
    by (simp add: recompute_context33_def r Let_def)
  have cap: "x_cap ?st = None \<or> (\<exists>sd. x_cap ?st = bucket_cap (law_view params st) sd)"
    by (cases spot) (auto simp: recompute_context33_def r Let_def)
  from n top have "solve_n (map_option (\<lambda>w. 2 - q_E_min params - w) (x_W ?st)) (x_cap ?st) = Some n"
    by simp
  then obtain b c where bc: "map_option (\<lambda>w. 2 - q_E_min params - w) (x_W ?st) = Some b"
    "x_cap ?st = Some c" "cent \<le> n" "whole_cent n" "n + fee n \<le> b"
    and s: "solve_n (map_option (\<lambda>w. 2 - q_E_min params - w) (x_W ?st)) (Some c) = Some n"
    using solve_n_SomeD by (metis (no_types, lifting))
  from bc(2) cap obtain sd where "bucket_cap (law_view params st) sd = Some c" by auto
  then obtain tb yb where "valid_two_sided (Some tb)" "yes_bid tb = Some yb" "whole_cent c" "c < 1 - yb"
    by (rule bucket_cap_SomeD)
  moreover from this(1,2) have "0 \<le> yb" by (auto elim: valid_two_sided_SomeD)
  ultimately have c: "whole_cent c" "c < 1" by simp_all
  from solve_n_whole_cap [OF s c(1)] bc c
  show "whole_cent n \<and> cent \<le> n \<and> (\<exists>w c. x_W ?st = Some w \<and> x_cap ?st = Some c \<and> whole_cent c \<and>
      c < 1 \<and> n \<le> c \<and> n + fee n \<le> 2 - q_E_min params - w)"
    by (cases "x_W ?st") auto
qed

lemma grows_recompute: "grows st (recompute_context33 params st now)"
  by (simp add: recompute_context33_def Let_def case_prod_beta grows_def)

lemma refresh_labels_sel:
  "map ro_coid (refresh_labels params n rs) = map ro_coid rs"
  "\<forall>r \<in> set rs. sized params r \<Longrightarrow>
    \<forall>r \<in> set (refresh_labels params n rs). sized params r \<and> labelled params n r"
  by (auto simp: refresh_labels_def sized_def labelled_def split: option.split)

lemma inv33_recompute:
  assumes inv: "inv33 params st"
  shows "inv33 params (recompute_context33 params st now)"
proof (rule inv33_grows [OF inv grows_recompute quote_ok_recompute])
  let ?st = "recompute_context33 params st now"
  have L: "x_ladder ?st = refresh_labels params (x_n_top ?st) (x_ladder st)"
    and rest: "x_rolls ?st = x_rolls st" "x_coid_prefix ?st = x_coid_prefix st"
      "x_close_time ?st = x_close_time st" "x_coid_seq ?st = x_coid_seq st"
      "x_awaiting_replace ?st = x_awaiting_replace st"
    by (simp_all add: recompute_context33_def Let_def case_prod_beta)
  have "\<forall>r \<in> set (x_ladder st). sized params r" using inv33_rungs [OF inv] by (simp add: rungs_ok_def)
  from refresh_labels_sel(2) [OF this]
  show "rungs_ok params ?st"
    by (intro rungs_ok_relabel [OF inv33_rungs [OF inv]]) (simp_all add: L rest refresh_labels_sel(1))
qed

lemma settles_fold: "settles st (fold_book33 params st e)"
  and settles_stamp: "settles st (stamp_strike_feed st e)"
  and settles_shadow: "settles st (shadow_complete33 params st now)"
  and settles_shadow_trade: "settles st (fst (shadow_on_trade33 params st t))"
  by (simp_all add: fold_book33_def stamp_strike_feed_def shadow_complete33_def shadow_on_trade33_def
      Let_def case_prod_beta settles_def later_def same_quote_def grows_def split: option.split market_class.split)

lemma inv33_book_tick: "inv33 params st \<Longrightarrow> inv33 params (fst (book_tick params st now))"
  by (simp add: book_tick_def Let_def case_prod_beta)
    (intro inv33_converge inv33_settles [OF _ settles_stall] inv33_settles [OF _ settles_wing [OF wf_wing_step]]
      inv33_settles [OF _ settles_shadow] inv33_recompute)

lemma settles_trade_tick: "settles st (fst (trade_tick params st t now))"
  by (simp add: trade_tick_def Let_def case_prod_beta)
    (intro settles_trans [OF _ settles_stall] settles_trans [OF _ settles_print_through]
      settles_trans [OF _ settles_wing [OF wf_wing_step]] settles_trans [OF _ settles_shadow]
      settles_shadow_trade)

lemma grows_settles: "settles st st' \<Longrightarrow> grows st st'"
  by (simp add: settles_def later_def)

lemma settles_tick_wings:
  "settles s (fst (pt_stall_step params (fst (wing_step33 params (shadow_complete33 params s now) t)) u))"
  by (intro settles_trans [OF _ settles_stall] settles_trans [OF _ settles_wing [OF wf_wing_step]] settles_shadow)

lemma grows_book_tick: "grows st (fst (book_tick params st now))"
proof -
  have "later s (fst (converge params (fst (pt_stall_step params (fst (wing_step33 params
      (shadow_complete33 params s now) now)) now)) now))" for s
    by (rule later_trans [OF later_settles [OF settles_tick_wings] later_rest [OF ro_converge]])
  then have "grows (recompute_context33 params st now) (fst (book_tick params st now))"
    by (simp add: book_tick_def Let_def case_prod_beta later_def)
  with grows_recompute show ?thesis by (rule grows_trans)
qed

lemma grows_decide: "inv33 params st \<Longrightarrow> grows st (fst (decide_v33 params st e))"
proof (cases e)
  case (Book33 b)
  let ?s = "stamp_strike_feed (fold_book33 params st b) b"
  have "grows st ?s" by (rule grows_settles [OF settles_trans [OF settles_fold settles_stamp]])
  then show ?thesis by (simp add: Book33 decide_v33_def grows_trans [OF _ grows_book_tick])
qed (simp_all add: decide_v33_def Let_def grows_book_tick grows_settles [OF settles_trade_tick]
    inv33_amended(2) [unfolded later_def] inv33_cancelled_later [unfolded later_def]
    inv33_fill [unfolded later_def] later_ack [unfolded later_def])

lemma inv33_decide: "inv33 params st \<Longrightarrow> inv33 params (fst (decide_v33 params st e))"
  by (cases e)
    (simp_all add: decide_v33_def Let_def inv33_book_tick inv33_settles [OF _ settles_fold]
      inv33_settles [OF _ settles_stamp] inv33_settles [OF _ settles_trade_tick] inv33_amended
      inv33_cancelled_later inv33_fill inv33_later [OF _ later_ack rungs_ok_ack [OF inv33_rungs]])

lemma inv33_new: "0 \<le> q_max_amends params \<Longrightarrow> inv33 params (new_v33_state ct ce bm params sh fl pre)"
  by (simp add: inv33_def rungs_ok_def quote_ok_def new_v33_state_def ladder_coids_def margins_ok_initial)

interpretation v33: decision_core "decide_v33 params" "inv33 params" for params
  by unfold_locales (rule inv33_decide)

end
