(* ===== verification/V33_Guard.thy ===== *)
theory V33_Guard
  imports V33_Events
begin

text \<open>
  What the V3.3 core promises of its actions. Every operation but the placements and rolls is
  quiet: its actions carry a wing, cancel, netting, alarm or note kind, or the shakedown twin of
  one. The placements and rolls carry a price the guard bounds.
\<close>

section \<open>Quiet operations\<close>

definition quiet_kinds :: "bool \<Rightarrow> v33_kind set" where
  "quiet_kinds sh =
     (\<lambda>k. twin_kind33 k sh) ` {Inherited TAKE_WINGS, Inherited RETRY_WING, Inherited CANCEL_REST,
        TAKE_BUCKET_NO, UNWIND_WINGS, WING_NETTED} \<union>
     {Inherited STAND_DOWN, ALARM, Inherited SHADOW_FILL_OUTSIDE_WINDOW, Inherited SHADOW_FILL_BELOW_MIN}"

definition quiet33 :: "bool \<Rightarrow> v33_action list \<Rightarrow> bool" where
  "quiet33 sh as \<longleftrightarrow> list_all (\<lambda>a. y_kind a \<in> quiet_kinds sh) as"

lemma quiet33_list [simp]:
  "quiet33 sh []"
  "quiet33 sh (a # as) \<longleftrightarrow> y_kind a \<in> quiet_kinds sh \<and> quiet33 sh as"
  "quiet33 sh (as @ bs) \<longleftrightarrow> quiet33 sh as \<and> quiet33 sh bs"
  by (simp_all add: quiet33_def)

lemma mk33_quiet [simp]:
  "y_kind (mk33 st k) = twin_kind33 k (x_shakedown st)"
  "twin_kind33 (Inherited TAKE_WINGS) sh \<in> quiet_kinds sh"
  "twin_kind33 (Inherited RETRY_WING) sh \<in> quiet_kinds sh"
  "twin_kind33 (Inherited CANCEL_REST) sh \<in> quiet_kinds sh"
  "twin_kind33 TAKE_BUCKET_NO sh \<in> quiet_kinds sh" "twin_kind33 UNWIND_WINGS sh \<in> quiet_kinds sh"
  "twin_kind33 WING_NETTED sh \<in> quiet_kinds sh"
  "Inherited STAND_DOWN \<in> quiet_kinds sh" "ALARM \<in> quiet_kinds sh"
  "Inherited SHADOW_FILL_OUTSIDE_WINDOW \<in> quiet_kinds sh"
  "Inherited SHADOW_FILL_BELOW_MIN \<in> quiet_kinds sh"
  by (simp_all add: mk33_def blank_action33_def quiet_kinds_def)

lemma wing_only_sh: "wing_only st st' \<Longrightarrow> x_shakedown st' = x_shakedown st"
  by (simp add: wing_only_def)

lemma rest_only_sh: "rest_only st st' \<Longrightarrow> x_shakedown st' = x_shakedown st"
  by (simp add: rest_only_def)

lemma settles_sh: "settles st st' \<Longrightarrow> x_shakedown st' = x_shakedown st"
  by (simp add: settles_def later_def grows_def)

lemma later_sh: "later st st' \<Longrightarrow> x_shakedown st' = x_shakedown st"
  by (simp add: later_def grows_def)

subsection \<open>Wings\<close>

lemma quiet_take: "quiet33 (x_shakedown st) (snd (take_batch33 params st b sd su ya na))"
  by (simp add: take_batch33_def Let_def mint_coid33_eq on_batch_def)

lemma quiet_take_partial: "quiet33 (x_shakedown st) (snd (take_batch_partial params st b bucket now))"
  by (simp add: take_batch_partial_def Let_def mint_coid33_eq on_batch_def split: option.split prod.split)

lemma quiet_retry_legs:
  "quiet33 (x_shakedown st) (snd (snd (retry_legs33 params i ya na now st legs)))"
proof (induction legs arbitrary: st)
  case (Cons l ls)
  show ?case
    using Cons.IH [of st] Cons.IH [of "st\<lparr>x_coid_seq := Suc (x_coid_seq st)\<rparr>"]
    by (simp add: mint_coid33_eq Let_def case_prod_beta)
qed simp

lemma quiet_retry: "quiet33 (x_shakedown st) (snd (retry_batch33 params st b ya na now))"
  using quiet_retry_legs [of st params "bt_index b" ya na now "x_wing_legs st"]
  by (simp add: retry_batch33_def case_prod_beta)

lemma quiet_step_batch: "quiet33 (x_shakedown st) (snd (step_batch33 params now st i))"
  by (auto simp: step_batch33_def quiet_take quiet_take_partial quiet_retry split: option.split)

lemma quiet_step_batches: "quiet33 (x_shakedown st) (snd (step_batches33 params now st is))"
proof (induction "is" arbitrary: st)
  case (Cons i "is")
  from Cons.IH [of "fst (step_batch33 params now st i)"] show ?case
    by (simp add: case_prod_beta quiet_step_batch wing_only_sh [OF wf_step_batch])
qed simp

lemma quiet_wing_step: "quiet33 (x_shakedown st) (snd (wing_step33 params st now))"
  using quiet_step_batches [of "coalesce_flush params st now" params now]
  by (simp add: wing_step33_def Let_def case_prod_beta wing_only_sh [OF wf_flush])

lemma quiet_net_once: "net_once st c now = Some (st', a) \<Longrightarrow> y_kind a \<in> quiet_kinds (x_shakedown st)"
  by (auto simp: net_once_def Let_def split: option.splits if_splits prod.splits)

lemma quiet_net_loop: "quiet33 (x_shakedown st) (snd (net_loop k st c now))"
proof (induction k arbitrary: st)
  case (Suc k)
  show ?case
  proof (cases "net_once st c now")
    case (Some sa)
    obtain s a where sa: "sa = (s, a)" by (cases sa)
    have "wing_only st s" using Some sa wf_net_once by simp
    then show ?thesis
      using Suc.IH [of s] quiet_net_once [of st c now s a] Some
      by (simp add: sa case_prod_beta wing_only_sh)
  qed simp
qed simp

lemma quiet_net: "quiet33 (x_shakedown st) (snd (net_wings st c now))"
  by (simp add: net_wings_def quiet_net_loop)

subsection \<open>Cancels and print-through\<close>

lemma quiet_cancel_action: "y_kind (cancel_action33 st r) \<in> quiet_kinds (x_shakedown st)"
  by (simp add: cancel_action33_def)

lemma quiet_cancel_all: "quiet33 (x_shakedown st) (snd (cancel_all st track))"
  by (simp add: cancel_all_def Let_def quiet33_def list_all_iff quiet_cancel_action)

lemma quiet_cancel_replace: "quiet33 (x_shakedown st) (snd (cancel_all_then_replace st))"
  using quiet_cancel_all [of st True] by (simp add: cancel_all_then_replace_def case_prod_beta)

lemma quiet_standdown: "quiet33 sh (snd (standdown33 st r))"
  by (simp add: standdown33_def standdown_note_def blank_action33_def)

lemma quiet_cancel_one:
  "pt_cancel_one params st c = (st', as, oids) \<Longrightarrow> quiet33 (x_shakedown st) as"
  by (auto simp: pt_cancel_one_def Let_def quiet_cancel_action split: option.splits)

lemma quiet_cancel_rungs:
  "pt_cancel_rungs params st cs = (st', as, oids) \<Longrightarrow> quiet33 (x_shakedown st) as"
proof (induction cs arbitrary: st st' as oids)
  case (Cons c cs)
  obtain st1 a1 o1 where c: "pt_cancel_one params st c = (st1, a1, o1)"
    by (cases "pt_cancel_one params st c")
  obtain st2 a2 o2 where cs: "pt_cancel_rungs params st1 cs = (st2, a2, o2)"
    by (cases "pt_cancel_rungs params st1 cs")
  from Cons.prems c cs quiet_cancel_one [OF c] Cons.IH [OF cs] settles_sh [OF settles_cancel_one [OF c]]
  show ?case by auto
qed simp

lemma quiet_unwind: "quiet33 (x_shakedown st) (snd (pt_unwind params st idx now r))"
proof (cases "find_batch st (pt_batch_index (x_print_through st ! idx))")
  case None
  then show ?thesis by (simp add: pt_unwind_def Let_def)
next
  case (Some b)
  have sh: "x_shakedown (fst (pt_unwind params st idx now r)) = x_shakedown st"
    by (rule settles_sh [OF settles_unwind])
  then show ?thesis
    by (simp add: pt_unwind_def Let_def Some case_prod_beta)
qed

lemma quiet_complete: "quiet33 (x_shakedown st) (snd (pt_complete params st idx n px l now))"
proof -
  have "x_shakedown (fst (pt_complete params st idx n px l now)) = x_shakedown st"
    by (rule settles_sh [OF settles_complete])
  then show ?thesis by (simp add: pt_complete_def Let_def case_prod_beta)
qed

lemma quiet_finalize: "quiet33 (x_shakedown st) (snd (pt_finalize_stall params st idx now))"
  using quiet_complete [of "replace_pt st idx f" for f] quiet_unwind [of "replace_pt st idx f" for f]
  by (simp add: pt_finalize_stall_def Let_def case_prod_beta wing_only_sh [OF wf_replace_pt] split: option.split)

lemma quiet_begin_stall: "quiet33 (x_shakedown st) (snd (pt_begin_stall params st idx now))"
proof -
  obtain st1 ca oids where c: "pt_cancel_unfilled params st (x_print_through st ! idx) = (st1, ca, oids)"
    by (cases "pt_cancel_unfilled params st (x_print_through st ! idx)")
  note c' = c [unfolded pt_cancel_unfilled_def]
  show ?thesis
    using quiet_cancel_rungs [OF c'] quiet_finalize [of "replace_pt st1 idx f" for f]
    by (simp add: pt_begin_stall_def Let_def c case_prod_beta wing_only_sh [OF wf_replace_pt]
        settles_sh [OF settles_cancel_rungs [OF c']])
qed

lemma quiet_over:
  assumes "\<And>s i. settles s (fst (f s i))" "\<And>s i. quiet33 (x_shakedown s) (snd (f s i))"
  shows "quiet33 (x_shakedown st) (snd (over_triggers f st is))"
proof (induction "is" arbitrary: st)
  case (Cons i "is")
  from Cons.IH [of "fst (f st i)"] show ?case
    by (simp add: case_prod_beta Let_def assms(2) settles_sh [OF assms(1)])
qed simp

lemma quiet_confirmed: "quiet33 (x_shakedown st) (snd (pt_on_cancel_confirmed params st oid now))"
proof -
  have "quiet33 (x_shakedown s) (snd (pt_confirm_one params s i idx now))" for s i idx
    using quiet_finalize [of "replace_pt s idx f" for f]
    by (simp add: pt_confirm_one_def Let_def wing_only_sh [OF wf_replace_pt])
  then show ?thesis
    by (cases oid) (simp_all add: pt_on_cancel_confirmed_def settles_confirm_one
        quiet_over [where f = "\<lambda>s idx. pt_confirm_one params s i idx now" for i])
qed

lemma quiet_fail_closed: "quiet33 (x_shakedown st) (snd (pt_fail_closed params st i now))"
proof (cases "find_index (\<lambda>t. pt_batch_index t = i \<and> \<not> pt_resolved t) (x_print_through st)")
  case None
  then show ?thesis by (simp add: pt_fail_closed_def)
next
  case (Some idx)
  obtain st1 ca oids where c: "pt_cancel_unfilled params st (x_print_through st ! idx) = (st1, ca, oids)"
    by (cases "pt_cancel_unfilled params st (x_print_through st ! idx)")
  note c' = c [unfolded pt_cancel_unfilled_def]
  show ?thesis
    using quiet_cancel_rungs [OF c'] quiet_unwind [of st1 params idx now "''partial''"]
    by (simp add: pt_fail_closed_def Some Let_def c case_prod_beta quiet_standdown
        settles_sh [OF settles_cancel_rungs [OF c']])
qed

lemma quiet_stall: "quiet33 (x_shakedown st) (snd (pt_stall_step params st now))"
proof -
  have "quiet33 (x_shakedown s) (snd (pt_stall_one params now s idx))" for s idx
    by (simp add: pt_stall_one_def Let_def quiet_fail_closed quiet_begin_stall split: option.split)
  then show ?thesis
    by (simp add: pt_stall_step_def settles_stall_one quiet_over [where f = "pt_stall_one params now"])
qed

lemma quiet_print_through: "quiet33 (x_shakedown st) (snd (print_through_step params st e now))"
proof -
  have "x_shakedown (fst (pt_fire params st sd ya na y cands now)) = x_shakedown st" for sd ya na y cands
    by (rule settles_sh [OF settles_fire])
  then have "quiet33 (x_shakedown st) (snd (pt_fire params st sd ya na y cands now))" for sd ya na y cands
    by (simp add: pt_fire_def Let_def case_prod_beta)
  then show ?thesis
    by (auto simp: print_through_step_def Let_def split: option.split)
qed

lemma quiet_unwind_short: "quiet33 (x_shakedown st) (snd (unwind_short st i t n b))"
  by (simp add: unwind_short_def Let_def case_prod_beta quiet_standdown replace_pt_def on_batch_def)

lemma quiet_complete_fill:
  assumes "pt_apply_complete_fill params st e now = Some (st', as)"
  shows "quiet33 (x_shakedown st) as"
proof -
  have sh: "x_shakedown (replace_pt (pt_book_taker_complete params st i p n now) i f) = x_shakedown st" for i p n f
    by (rule settles_sh [OF settles_trans [OF settles_taker settles_wing [OF wf_replace_pt]]])
  show ?thesis
    using assms quiet_unwind_short [of "replace_pt (pt_book_taker_complete params st i p n now) i f" for i p n f]
    by (auto simp: pt_apply_complete_fill_def Let_def case_prod_beta sh split: option.splits if_splits)
qed

subsection \<open>Bookings\<close>

lemma quiet_book: "quiet33 (x_shakedown st) (snd (book_rung_fill params st c p d k E now b tk orph oid))"
proof -
  have u: "quiet33 (x_shakedown s) (snd (book_unnamed s))" for s
    using quiet_cancel_all [of "s\<lparr>x_bucket_unknown := True, x_stood_down := True, x_rest_allotment_done := True\<rparr>" False]
    by (simp add: book_unnamed_def Let_def case_prod_beta quiet_standdown)
  have sh: "x_shakedown (pt_latch_if_done params (attach_fill params (record_fill params st c rf n) c rf now)) = x_shakedown st"
    "x_shakedown (record_fill params st c rf n) = x_shakedown st" for rf n
    using settles_sh [OF settles_trans [OF settles_attach settles_latch]] later_sh [OF later_record] by simp_all
  show ?thesis
    using u [of "record_fill params st c rf n" for rf n]
      quiet_wing_step [of "pt_latch_if_done params (attach_fill params (record_fill params st c rf n) c rf now)" for rf n]
    by (simp add: book_rung_fill_def Let_def case_prod_beta sh)
qed

lemma quiet_book_orphan: "quiet33 (x_shakedown st) (snd (book_orphan_fill params st c oid p d tk now b))"
  by (simp add: book_orphan_fill_def case_prod_beta quiet_book alarm33_def blank_action33_def)

lemma quiet_fill: "quiet33 (x_shakedown st0) (snd (apply_fill33 params st0 e now))"
proof -
  let ?st = "clear_cancel_pending st0 (vf_order_id e)"
  have sh: "x_shakedown ?st = x_shakedown st0" by (rule settles_sh [OF settles_clear])
  have lad: "quiet33 (x_shakedown ?st) (snd (ladder_fill params ?st e r now))" for r
    using quiet_book [of "fst (skip_echo33 (note_seen ?st c src d) oid n)" for c src d oid n]
    by (simp add: ladder_fill_def Let_def case_prod_beta
        settles_sh [OF settles_trans [OF settles_note_seen settles_skip_echo]])
  have wing: "quiet33 (x_shakedown ?st) (snd (wing_fill params ?st e legs bi now))" for legs bi
    using quiet_fail_closed [of "?st\<lparr>x_wing_legs := legs\<rparr>" params bi now]
      quiet_net [of "?st\<lparr>x_wing_legs := legs\<rparr>" c now for c]
    by (simp add: wing_fill_def Let_def case_prod_beta)
  have orph: "quiet33 (x_shakedown ?st) (snd (apply_orphan_fill params ?st e now))"
    using quiet_book_orphan [of "fst (orphan_delta ?st c src n)" for c src n]
    by (simp add: apply_orphan_fill_def Let_def case_prod_beta alarm33_def blank_action33_def
        settles_sh [OF orphan_delta_state] split: option.split)
  show ?thesis
    using lad wing orph quiet_complete_fill [of params ?st e now]
    by (auto simp: apply_fill33_def Let_def sh split: option.split)
qed

lemma quiet_amend_cross: "quiet33 (x_shakedown st) (snd (amend_cross params st rp e p now))"
  by (simp add: amend_cross_def Let_def case_prod_beta quiet_book split: option.split)

lemma quiet_book_cancelled: "quiet33 (x_shakedown st) (snd (book_cancelled params st e named now))"
  by (simp add: book_cancelled_def Let_def quiet_book quiet_book_orphan alarm33_def blank_action33_def
      split: option.split prod.split)

lemma quiet_shadow_trade: "quiet33 sh (snd (shadow_on_trade33 params st t))"
  using shadow_trade_kinds [of _ "law_params params" "law_view params st" t]
  by (force simp: shadow_on_trade33_def case_prod_beta quiet33_def list_all_iff lift_action_def)

lemma quiet_trade_tick: "quiet33 (x_shakedown st) (snd (trade_tick params st t now))"
proof -
  let ?s1 = "shadow_complete33 params (fst (shadow_on_trade33 params st t)) now"
  let ?s2 = "fst (wing_step33 params ?s1 now)"
  let ?s3 = "fst (print_through_step params ?s2 t now)"
  have 1: "x_shakedown ?s1 = x_shakedown st"
    by (rule settles_sh [OF settles_trans [OF settles_shadow_trade settles_shadow]])
  have 2: "x_shakedown ?s2 = x_shakedown st" using 1 wing_only_sh [OF wf_wing_step] by simp
  have 3: "x_shakedown ?s3 = x_shakedown st" using 2 settles_sh [OF settles_print_through] by simp
  from quiet_wing_step [of ?s1 params now] quiet_print_through [of ?s2 params t now]
    quiet_stall [of ?s3 params now] 1 2 3
  show ?thesis by (simp add: trade_tick_def Let_def case_prod_beta quiet_shadow_trade)
qed

end
