(* ===== verification/V33_Orders.thy ===== *)
theory V33_Orders
  imports V33_Guard
begin

text \<open>
  The placements and rolls of the convergence: what they emit (\<open>emits\<close>), that they leave the
  stand-down and allotment latches alone, and the contract budget: an emitted placement ends with
  filled and resting contracts within the allotment.
\<close>

section \<open>What is emitted\<close>

definition rest_kinds33 :: "bool \<Rightarrow> v33_kind set" where
  "rest_kinds33 sh = {twin_kind33 (Inherited PLACE_REST) sh, twin_kind33 (Inherited AMEND_REST) sh}"

definition ok_price :: "v33_params \<Rightarrow> v33_state \<Rightarrow> money \<Rightarrow> money \<Rightarrow> bool" where
  "ok_price params st n p \<longleftrightarrow> whole_cent p \<and> placeable params st p \<and> p \<le> n"

text \<open>A bid for NO lots in the hour's own terms: side, expiry and a good price.\<close>

definition bid_form :: "v33_params \<Rightarrow> v33_state \<Rightarrow> v33_action \<Rightarrow> money \<Rightarrow> bool" where
  "bid_form params st a p \<longleftrightarrow>
     y_side a = Some BUY_NO \<and> y_action a = Some ''buy'' \<and> y_price a = Some p \<and>
     y_expiration_epoch a = Some (x_close_epoch st - q_quote_end_s params)"

definition emits :: "v33_params \<Rightarrow> v33_state \<Rightarrow> money \<Rightarrow> v33_action \<Rightarrow> bool" where
  "emits params st n a \<longleftrightarrow>
     y_kind a \<in> rest_kinds33 (x_shakedown st) \<and> (\<exists>p. bid_form params st a p \<and> ok_price params st n p)"

lemma emits_cong: "rest_only st st' \<Longrightarrow> emits params st' n a = emits params st n a"
  by (simp add: emits_def ok_price_def placeable_def bid_form_def rest_only_def)

lemma emits_list_cong:
  "rest_only st st' \<Longrightarrow> list_all (emits params st' n) as = list_all (emits params st n) as"
  using emits_cong by (simp add: list_all_iff)

lemma place_action_emits: "ok_price params st n p \<Longrightarrow> emits params st n (place_action33 st params c p k)"
  by (simp add: emits_def rest_kinds33_def bid_form_def place_action33_def)

lemma place_one_snd: "snd (place_one params st p k E now w) =
    [place_action33 (fst (place_one params st p k E now w)) params
      (coid_of33 (x_coid_prefix st) (x_close_time st) (Suc (x_coid_seq st))) p (q_count w)]"
  by (simp add: place_one_def mint_coid33_eq Let_def)

lemma place_one_emits:
  assumes "ok_price params st n p"
  shows "list_all (emits params st n) (snd (place_one params st p k E now w))"
proof -
  let ?st = "fst (place_one params st p k E now w)"
  have "ok_price params ?st n p"
    using assms ro_place_one [of st params p k E now w]
    by (simp add: ok_price_def placeable_def rest_only_def)
  from place_action_emits [OF this] emits_cong [OF ro_place_one] show ?thesis
    by (simp add: place_one_snd)
qed

lemma ok_price_cong: "rest_only st st' \<Longrightarrow> ok_price params st' n = ok_price params st n"
  by (simp add: ok_price_def placeable_def rest_only_def fun_eq_iff)

lemma place_slots_emits:
  "\<forall>(m, p) \<in> set slots. ok_price params st n p \<Longrightarrow>
    list_all (emits params st n) (snd (place_slots params budget held now used st slots))"
proof (induction slots arbitrary: st used)
  case (Cons mp slots)
  obtain m p where mp: "mp = (m, p)" by (cases mp)
  let ?w = "weight_of_margin params m" and ?k = "m - emin_cents params"
  define one where "one = place_one params st p ?k (q_E_min params + of_int ?k * cent) now (of_int ?w)"
  have ro: "rest_only st (fst one)" unfolding one_def by (rule ro_place_one)
  have "\<forall>(m, p) \<in> set slots. ok_price params (fst one) n p"
    using Cons.prems by (simp add: ok_price_cong [OF ro])
  note rest = Cons.IH [OF this, unfolded emits_list_cong [OF ro]]
  have "list_all (emits params st n) (snd one)"
    unfolding one_def using Cons.prems by (intro place_one_emits) (simp add: mp)
  with rest Cons.IH [of st] Cons.prems show ?case
    by (simp add: mp Let_def case_prod_beta del: of_int_diff flip: one_def)
qed simp

lemma roll_pairs_emits:
  "\<forall>q \<in> set ps. ok_price params st n (snd q) \<Longrightarrow>
    list_all (emits params st n) (snd (roll_pairs params target now st ps))"
proof (induction ps arbitrary: st)
  case (Cons q ps)
  obtain r p where q: "q = (r, p)" by (cases q)
  let ?s = "\<lambda>rs. st\<lparr>x_coid_seq := Suc (x_coid_seq st), x_rolls := rs\<rparr>"
  have ro: "rest_only st (?s rs)" for rs by (simp add: rest_only_def)
  have "\<forall>q \<in> set ps. ok_price params (?s rs) n (snd q)" for rs
    using Cons.prems by (simp add: ok_price_cong [OF ro])
  note rest = Cons.IH [OF this, unfolded emits_list_cong [OF ro]]
  moreover have "emits params st n (amend_action33 (st\<lparr>x_coid_seq := k\<rparr>) params r c p)" for k c
    using Cons.prems
    by (simp add: q emits_def rest_kinds33_def bid_form_def amend_action33_def)
  ultimately show ?case
    using rest by (simp add: q emit_roll_eq Let_def case_prod_beta)
qed simp

lemma create_emits:
  "\<forall>p \<in> set ps. ok_price params st n p \<Longrightarrow>
    list_all (emits params st n) (snd (create_orders params target now st ps))"
proof (induction ps arbitrary: st)
  case (Cons p ps)
  let ?m = "dict_get_default target p 0"
  let ?w = "weight_of_margin params ?m" and ?k = "?m - emin_cents params"
  define one where "one = place_one params st p ?k (q_E_min params + of_int ?k * cent) now (of_int ?w)"
  have ro: "rest_only st (fst one)" unfolding one_def by (rule ro_place_one)
  have "\<forall>p \<in> set ps. ok_price params (fst one) n p"
    using Cons.prems by (simp add: ok_price_cong [OF ro])
  note rest = Cons.IH [OF this, unfolded emits_list_cong [OF ro]]
  have "list_all (emits params st n) (snd one)"
    unfolding one_def using Cons.prems by (intro place_one_emits) simp
  with rest Cons.IH [of st] Cons.prems show ?case
    by (simp add: Let_def case_prod_beta del: of_int_diff flip: one_def)
qed simp

lemma quiet_shrink: "quiet33 (x_shakedown st) (snd (shrink_orders st rs))"
proof (induction rs arbitrary: st)
  case (Cons r rs)
  have sh: "x_shakedown (note_cancelled st r) = x_shakedown st" by (rule rest_only_sh [OF ro_note_cancelled])
  show ?case
    using Cons.IH [of "(note_cancelled st r)\<lparr>x_ladder := l, x_outstanding_cancels := k\<rparr>" for l k]
      quiet_cancel_action [of "note_cancelled st r" r]
    by (simp add: Let_def case_prod_beta sh)
qed simp

section \<open>Prices of slots and targets\<close>

lemma open_slot_price:
  assumes "margins_ok params (x_margin_state st)" "whole_cent n"
    and "0 \<le> m" "nat m < length (x_margin_state st)" "x_margin_state st ! nat m = 1"
    and "p = price_of_margin params n m" "placeable params st p"
  shows "ok_price params st n p"
proof -
  have "emin_cents params \<le> int (nat m)" using assms(1,4,5) unfolding margins_ok_def by blast
  then have "emin_cents params \<le> m" using assms(3) by simp
  then have "0 \<le> (of_int (m - emin_cents params) * cent :: rat)" by (simp add: cent_def)
  then have "p \<le> n" unfolding assms(6) price_of_margin_def by simp
  with assms whole_price_of_margin show ?thesis by (simp add: ok_price_def)
qed

lemma slots_ok:
  assumes "margins_ok params (x_margin_state st)" "whole_cent n"
  shows "\<forall>(m, p) \<in> set (placeable_open_slots params st n). ok_price params st n p"
  using placeable_open_slotD open_slot_price [OF assms] by blast

lemma vacant_ok:
  assumes "margins_ok params (x_margin_state st)" "whole_cent n"
    and "p \<in> set (vacant_prices st (targets params st n))"
  shows "ok_price params st n p"
  using targetsD [OF vacant_target [OF assms(3)]] open_slot_price [OF assms(1,2)] by blast

section \<open>Latches and budget\<close>

definition flags_kept :: "v33_state \<Rightarrow> v33_state \<Rightarrow> bool" where
  "flags_kept st st' \<longleftrightarrow>
     x_stood_down st' = x_stood_down st \<and> x_rest_allotment_done st' = x_rest_allotment_done st \<and>
     x_rest_fills st' = x_rest_fills st"

lemma flags_kept_refl [simp]: "flags_kept st st"
  by (simp add: flags_kept_def)

lemma flags_kept_trans: "flags_kept a b \<Longrightarrow> flags_kept b c \<Longrightarrow> flags_kept a c"
  by (simp add: flags_kept_def)

lemma fk_note_cancelled: "flags_kept st (note_cancelled st r)"
  by (simp add: note_cancelled_def arm_cancel_pending_def remember_cancel33_def flags_kept_def
      split: option.split)

lemma fk_place_one: "flags_kept st (fst (place_one params st p k E now w))"
  by (simp add: place_one_def mint_coid33_eq Let_def flags_kept_def)

lemma fk_place_slots: "flags_kept st (fst (place_slots params budget held now used st slots))"
proof (induction slots arbitrary: st used)
  case (Cons mp slots)
  show ?case
    using flags_kept_trans [OF fk_place_one Cons.IH] Cons.IH
    by (cases mp) (simp add: case_prod_beta Let_def)
qed simp

lemma fk_roll_pairs: "flags_kept st (fst (roll_pairs params target now st ps))"
proof (induction ps arbitrary: st)
  case (Cons q ps)
  show ?case
    using flags_kept_trans [OF _ Cons.IH, of st "st\<lparr>x_coid_seq := k, x_rolls := rs\<rparr>" for k rs]
    by (cases q) (simp add: emit_roll_eq Let_def case_prod_beta flags_kept_def)
qed simp

lemma fk_shrink: "flags_kept st (fst (shrink_orders st rs))"
proof (induction rs arbitrary: st)
  case (Cons r rs)
  have "flags_kept st ((note_cancelled st r)\<lparr>x_ladder := l, x_outstanding_cancels := n\<rparr>)" for l n
    using fk_note_cancelled [of st r] by (simp add: flags_kept_def)
  then show ?case
    using flags_kept_trans [OF _ Cons.IH] by (simp add: case_prod_beta Let_def)
qed simp

lemma fk_create: "flags_kept st (fst (create_orders params target now st ps))"
proof (induction ps arbitrary: st)
  case (Cons p ps)
  show ?case
    using flags_kept_trans [OF fk_place_one Cons.IH] Cons.IH
    by (simp add: case_prod_beta Let_def)
qed simp

text \<open>\<open>expo\<close>: the hour's exposure, the contracts filled and resting.\<close>

definition expo :: "v33_state \<Rightarrow> lots" where
  "expo st = filled_contracts st + resting_contracts st"

lemma q_count_of_int [simp]: "q_count (of_int w) = of_int w"
  by (simp add: q_count_def quantize_he_whole)

lemma expo_place_one:
  "expo (fst (place_one params st p k E now (of_int w))) = expo st + of_int w"
  by (simp add: expo_def place_one_def mint_coid33_eq Let_def filled_contracts_def resting_contracts_def)

lemma expo_place_slots:
  "of_int used \<le> budget \<Longrightarrow>
    expo (fst (place_slots params budget held now used st slots)) \<le> expo st + (budget - of_int used)"
proof (induction slots arbitrary: st used)
  case (Cons mp slots)
  obtain m p where mp: "mp = (m, p)" by (cases mp)
  let ?w = "weight_of_margin params m" and ?k = "m - emin_cents params"
  define one where "one = place_one params st p ?k (q_E_min params + of_int ?k * cent) now (of_int ?w)"
  have "expo (fst one) = expo st + of_int ?w" unfolding one_def by (rule expo_place_one)
  then show ?case
    using Cons.IH [of "used + ?w" "fst one"] Cons.IH [of used st] Cons.prems
    by (simp add: mp Let_def case_prod_beta del: of_int_diff flip: one_def)
qed simp

lemma shrink_le:
  assumes "subseq xs ys" "\<forall>r \<in> set ys. 0 \<le> ro_count r"
  shows "sum_list (map ro_count xs) \<le> sum_list (map ro_count ys)"
  using assms
proof (induction rule: list_emb.induct)
  case (list_emb_Nil ys)
  then show ?case by (auto intro!: sum_list_nonneg)
qed auto

lemma expo_create:
  "expo (fst (create_orders params target now st ps)) \<le> max (of_int (allotment params)) (expo st) \<and>
   (snd (create_orders params target now st ps) \<noteq> [] \<longrightarrow>
     expo (fst (create_orders params target now st ps)) \<le> of_int (allotment params))"
proof (induction ps arbitrary: st)
  case (Cons p ps)
  let ?m = "dict_get_default target p 0"
  let ?w = "weight_of_margin params ?m" and ?k = "?m - emin_cents params"
  define one where "one = place_one params st p ?k (q_E_min params + of_int ?k * cent) now (of_int ?w)"
  have "expo (fst one) = expo st + of_int ?w" unfolding one_def by (rule expo_place_one)
  then have "\<not> of_int (allotment params) < filled_contracts st + resting_contracts st + of_int ?w \<Longrightarrow>
      expo (fst (create_orders params target now (fst one) ps)) \<le> of_int (allotment params)"
    using Cons.IH [of "fst one"] by (simp add: expo_def)
  then show ?case
    using Cons.IH [of st]
    by (simp add: Let_def case_prod_beta le_max_iff_disj del: of_int_diff flip: one_def)
qed simp

section \<open>A whole convergence\<close>

definition is_place :: "v33_action \<Rightarrow> bool" where
  "is_place a \<longleftrightarrow> y_kind a \<in> {Inherited PLACE_REST, Inherited WOULD_PLACE_REST}"

lemma quiet_not_rest: "k \<in> quiet_kinds sh \<Longrightarrow> k \<notin> Inherited ` {PLACE_REST, AMEND_REST, WOULD_PLACE_REST, WOULD_AMEND_REST}"
  by (auto simp: quiet_kinds_def twin_kind33_def twin_kind_def split: if_splits)

lemma quiet_no_place: "quiet33 sh as \<Longrightarrow> \<not> list_ex is_place as"
  using quiet_not_rest by (fastforce simp: quiet33_def list_all_iff list_ex_iff is_place_def)

text \<open>
  The promise of a ladder operation from \<open>st\<close> to \<open>st'\<close> at the anchor \<open>n\<close>: its actions are quiet
  or good bids, a bid leaves the latches open, and the contract budget holds.
\<close>

definition ladder_step_ok ::
  "v33_params \<Rightarrow> v33_state \<Rightarrow> money \<Rightarrow> v33_state \<Rightarrow> v33_action list \<Rightarrow> bool" where
  "ladder_step_ok params st n st' as \<longleftrightarrow>
     list_all (\<lambda>a. y_kind a \<in> quiet_kinds (x_shakedown st) \<or>
        (emits params st n a \<and> x_stood_down st' = x_stood_down st \<and>
         x_rest_allotment_done st' = x_rest_allotment_done st)) as \<and>
     expo st' \<le> max (of_int (allotment params)) (expo st) \<and>
     (list_ex is_place as \<longrightarrow> expo st' \<le> of_int (allotment params))"

definition good_acts :: "v33_params \<Rightarrow> v33_state \<Rightarrow> money \<Rightarrow> v33_action list \<Rightarrow> bool" where
  "good_acts params st n as \<longleftrightarrow>
     list_all (\<lambda>a. y_kind a \<in> quiet_kinds (x_shakedown st) \<or> emits params st n a) as"

lemma good_acts_append: "good_acts params st n as \<Longrightarrow> good_acts params st n bs \<Longrightarrow> good_acts params st n (as @ bs)"
  by (simp add: good_acts_def)

lemma good_acts_emits: "list_all (emits params st n) as \<Longrightarrow> good_acts params st n as"
  by (auto simp: good_acts_def list_all_iff)

lemma good_acts_quiet: "quiet33 (x_shakedown st) as \<Longrightarrow> good_acts params st n as"
  by (auto simp: good_acts_def quiet33_def list_all_iff)

lemma ladder_step_okI:
  assumes "good_acts params st n as" "flags_kept st st'"
    and "expo st' \<le> max (of_int (allotment params)) (expo st)"
    and "list_ex is_place as \<Longrightarrow> expo st' \<le> of_int (allotment params)"
  shows "ladder_step_ok params st n st' as"
  using assms by (simp add: ladder_step_ok_def good_acts_def flags_kept_def)

lemma ladder_step_quiet:
  "quiet33 (x_shakedown st) as \<Longrightarrow> expo st' \<le> expo st \<Longrightarrow> ladder_step_ok params st n st' as"
  using quiet_no_place [of "x_shakedown st" as]
  by (auto simp: ladder_step_ok_def quiet33_def list_all_iff)

lemma ladder_step_upd:
  "ladder_step_ok params st n s as \<Longrightarrow> x_stood_down st' = x_stood_down s \<Longrightarrow>
    x_rest_allotment_done st' = x_rest_allotment_done s \<Longrightarrow> expo st' = expo s \<Longrightarrow>
    ladder_step_ok params st n st' as"
  by (simp add: ladder_step_ok_def)

lemma expo_subseq:
  assumes "rungs_ok params st" "subseq (x_ladder st') (x_ladder st)" "x_rest_fills st' = x_rest_fills st"
  shows "expo st' \<le> expo st"
proof -
  have "\<forall>r \<in> set (x_ladder st). 0 \<le> ro_count r" using assms(1) by (auto simp: rungs_ok_def sized_def)
  from shrink_le [OF assms(2) this] show ?thesis
    by (simp add: expo_def filled_contracts_def resting_contracts_def assms(3))
qed

lemma ladder_step_place_all:
  assumes "inv33 params st" "x_n_top st = Some n"
  shows "ladder_step_ok params st n (fst (place_all params st n now)) (snd (place_all params st n now))"
proof -
  let ?b = "of_int (allotment params) - filled_contracts st - resting_contracts st"
  let ?r = "place_slots params ?b (held_cancel_prices st) now 0 st (placeable_open_slots params st n)"
  have "margins_ok params (x_margin_state st)" "whole_cent n"
    using assms by (auto simp: inv33_def quote_ok_def)
  from place_slots_emits [OF slots_ok [OF this]]
  have "list_all (emits params st n) (snd ?r)" .
  moreover have "expo (fst ?r) \<le> of_int (allotment params)" if "\<not> ?b \<le> 0"
    using expo_place_slots [of 0 ?b params "held_cancel_prices st" now st "placeable_open_slots params st n"] that
    by (simp add: expo_def)
  ultimately have "ladder_step_ok params st n (fst ?r) (snd ?r)" if "\<not> ?b \<le> 0"
    using fk_place_slots [of st params ?b "held_cancel_prices st" now 0 "placeable_open_slots params st n"] that
    by (auto simp: ladder_step_ok_def flags_kept_def list_all_iff)
  note r = ladder_step_upd [OF this] this
  have "ladder_step_ok params st n (st\<lparr>x_rest_allotment_done := True\<rparr>) []"
    by (rule ladder_step_quiet) (simp_all add: expo_def filled_contracts_def resting_contracts_def)
  then show ?thesis
    using r by (auto simp: place_all_def Let_def case_prod_beta expo_def filled_contracts_def resting_contracts_def)
qed

lemma roll_pairs_no_place: "\<not> list_ex is_place (snd (roll_pairs params target now st ps))"
proof (induction ps arbitrary: st)
  case (Cons q ps)
  have "\<not> is_place (amend_action33 s params r c p)" for s r c p
    by (simp add: is_place_def amend_action33_def mk33_def twin_kind33_def twin_kind_def blank_action33_def)
  with Cons.IH show ?case by (cases q) (simp add: emit_roll_eq Let_def case_prod_beta)
qed simp

lemma roll_pairs_expo: "expo (fst (roll_pairs params target now st ps)) = expo st"
proof (induction ps arbitrary: st)
  case (Cons q ps)
  then show ?case
    by (cases q) (simp add: emit_roll_eq Let_def case_prod_beta expo_def filled_contracts_def resting_contracts_def)
qed simp

lemma ladder_step_moves:
  assumes inv: "inv33 params st" and n: "x_n_top st = Some n"
    and vac: "vacant = vacant_prices st (targets params st n)"
  shows "ladder_step_ok params st n (fst (converge_moves params st target out vacant budget now))
    (fst (snd (converge_moves params st target out vacant budget now)) @
     snd (snd (converge_moves params st target out vacant budget now)))"
proof -
  let ?outs = "sort_key ro_price out"
  let ?k = "min (min (length ?outs) (length vacant)) budget"
  let ?ps = "zip (take ?k ?outs) vacant"
  let ?r = "roll_pairs params target now st ?ps"
  let ?A = "of_int (allotment params) :: rat"
  have mo: "margins_ok params (x_margin_state st)" "whole_cent n"
    using inv n by (auto simp: inv33_def quote_ok_def)
  have ok: "ok_price params st n p" if "p \<in> set vacant" for p
    using vacant_ok [OF mo] that by (simp add: vac)
  then have "\<forall>q \<in> set ?ps. ok_price params st n (snd q)"
    by (metis prod.collapse set_zip_rightD)
  note rolls = roll_pairs_emits [OF this, of target now]
  have ro: "rest_only st (fst ?r)" by (rule ro_roll_pairs)
  have fk: "flags_kept st (fst ?r)" by (rule fk_roll_pairs)
  have counts: "\<forall>r \<in> set (x_ladder (fst ?r)). 0 \<le> ro_count r"
  proof -
    have "x_ladder (fst (roll_pairs params target now s ps)) = x_ladder s" for s ps
      by (induction ps arbitrary: s) (auto simp: emit_roll_eq Let_def case_prod_beta split: prod.splits)
    then show ?thesis using inv33_rungs [OF inv] by (auto simp: rungs_ok_def sized_def)
  qed
  have shrink: "ladder_step_ok params st n (fst (shrink_orders (fst ?r) rs))
      (snd ?r @ snd (shrink_orders (fst ?r) rs))" for rs
  proof -
    let ?s = "shrink_orders (fst ?r) rs"
    have q: "quiet33 (x_shakedown st) (snd ?s)"
      using quiet_shrink [of "fst ?r" rs] unfolding rest_only_sh [OF ro] .
    have f: "flags_kept st (fst ?s)" by (rule flags_kept_trans [OF fk fk_shrink])
    have "expo (fst ?s) \<le> expo (fst ?r)"
      using shrink_le [OF _ counts] shrink_ladder [of "fst ?r" rs] fk_shrink [of "fst ?r" rs]
      by (simp add: expo_def filled_contracts_def resting_contracts_def flags_kept_def)
    then have "expo (fst ?s) \<le> expo st" by (simp only: roll_pairs_expo)
    moreover have "\<not> list_ex is_place (snd ?r @ snd ?s)"
      unfolding list_ex_append using quiet_no_place [OF q] roll_pairs_no_place by blast
    ultimately show ?thesis
      by (intro ladder_step_okI [OF good_acts_append [OF good_acts_emits [OF rolls] good_acts_quiet [OF q]] f])
        (simp_all add: le_max_iff_disj)
  qed
  have create: "ladder_step_ok params st n (fst (create_orders params target now (fst ?r) ps))
      (snd ?r @ snd (create_orders params target now (fst ?r) ps))" if "set ps \<subseteq> set vacant" for ps
  proof -
    let ?s = "create_orders params target now (fst ?r) ps"
    have "list_all (emits params (fst ?r) n) (snd ?s)"
      by (rule create_emits) (unfold ok_price_cong [OF ro], use that ok in blast)
    then have e: "list_all (emits params st n) (snd ?s)" unfolding emits_list_cong [OF ro] .
    have f: "flags_kept st (fst ?s)" by (rule flags_kept_trans [OF fk fk_create])
    note x = expo_create [of params target now "fst ?r" ps, unfolded roll_pairs_expo]
    have "expo (fst ?s) \<le> ?A" if "list_ex is_place (snd ?r @ snd ?s)"
    proof -
      have "snd ?s \<noteq> []" using that roll_pairs_no_place [of params target now st ?ps] by (metis append_Nil2)
      with x show ?thesis by blast
    qed
    with x show ?thesis
      by (intro ladder_step_okI [OF good_acts_append [OF good_acts_emits [OF rolls] good_acts_emits [OF e]] f])
        blast+
  qed
  have stay: "ladder_step_ok params st n (fst ?r) (snd ?r)"
  proof (rule ladder_step_okI [OF good_acts_emits [OF rolls] fk])
    show "expo (fst ?r) \<le> max ?A (expo st)" by (simp only: roll_pairs_expo max.cobounded2)
    show "expo (fst ?r) \<le> ?A" if "list_ex is_place (snd ?r)"
      using that roll_pairs_no_place by blast
  qed
  have sub: "set (take i (drop k vacant)) \<subseteq> set vacant" for i k
    by (auto dest!: in_set_takeD in_set_dropD)
  show ?thesis
    unfolding converge_moves_def Let_def case_prod_beta fst_conv snd_conv
    by (simp only: split: if_split)
      (simp only: shrink create [OF sub] stay append_Nil2 fst_conv snd_conv simp_thms)
qed

lemma ladder_step_from:
  assumes "ladder_step_ok params s n st' as" "rest_only st s" "flags_kept st s" "expo s \<le> expo st"
  shows "ladder_step_ok params st n st' as"
  using assms emits_cong [OF assms(2), of params n] rest_only_sh [OF assms(2)]
  by (auto simp: ladder_step_ok_def flags_kept_def list_all_iff le_max_iff_disj)

lemma ladder_step_note:
  "ladder_step_ok params st n s as \<Longrightarrow> y_kind a \<in> quiet_kinds (x_shakedown st) \<Longrightarrow>
    ladder_step_ok params st n s (a # as)"
  using quiet_not_rest [of "y_kind a" "x_shakedown st"]
  by (auto simp: ladder_step_ok_def is_place_def)

lemma expo_upd [simp]:
  "expo (st\<lparr>x_converging_dir := a\<rparr>) = expo st"
  "expo (st\<lparr>x_last_replace_ts := b, x_replace_times := c\<rparr>) = expo st"
  "expo (st\<lparr>x_awaiting_replace := d\<rparr>) = expo st"
  "expo (st\<lparr>x_rest_bucket_Sd := e\<rparr>) = expo st"
  "expo (st\<lparr>x_rest_allotment_done := f\<rparr>) = expo st"
  "expo (st\<lparr>x_hold_reason := g, x_hold_since := h\<rparr>) = expo st"
  by (simp_all add: expo_def filled_contracts_def resting_contracts_def)

lemma ladder_step_converge_orders:
  assumes inv: "inv33 params st" and n: "x_n_top st = Some n"
  shows "ladder_step_ok params st n (fst (converge_orders params st n now r)) (snd (converge_orders params st n now r))"
proof -
  let ?d = "\<lambda>d. st\<lparr>x_converging_dir := d\<rparr>"
  let ?t = "targets params st n"
  have same: "out_orders (?d d) t = out_orders st t" "vacant_prices (?d d) t = vacant_prices st t"
    "targets params (?d d) n = ?t" for d t
    by (simp_all add: out_orders_def pt_covered_coids_def pt_active_def vacant_prices_def
        held_cancel_prices_def targets_def placeable_open_slots_def open_slots_def placeable_def)
  have d: "inv33 params (?d d)" for d
    using inv33_settles [OF inv, of "?d d"] by (simp add: settles_def later_def same_quote_def grows_def)
  have from_d: "ladder_step_ok params st n s as" if "ladder_step_ok params (?d d) n s as" for d s as
    by (rule ladder_step_from [OF that]) (simp_all add: rest_only_def flags_kept_def)
  define mv where "mv d k = converge_moves params (?d d) ?t (out_orders st ?t) (vacant_prices st ?t) k now" for d k
  have moves: "ladder_step_ok params st n (fst (mv d k)) (fst (snd (mv d k)) @ snd (snd (mv d k)))" for d k
    unfolding mv_def
    by (rule from_d [of d], rule ladder_step_moves [OF d]) (simp_all add: n same)
  have none: "ladder_step_ok params st n (fst (mv d k)) []"
    if "fst (snd (mv d k)) = []" "snd (snd (mv d k)) = []" for d k
    using moves [of d k] that by simp
  have upd: "ladder_step_ok params st n (s\<lparr>x_last_replace_ts := a, x_replace_times := b\<rparr>) as"
    if "ladder_step_ok params st n s as" for s as a b
    by (rule ladder_step_upd [OF that]) simp_all
  have stay: "ladder_step_ok params st n (?d d) []" "ladder_step_ok params st n st []" for d
    by (rule ladder_step_quiet; simp)+
  show ?thesis
    unfolding converge_orders_def Let_def case_prod_beta mv_def [symmetric]
    by (simp add: stay upd [OF moves] none)
qed

lemma ladder_step_cancel_replace:
  assumes "inv33 params st"
  shows "expo (fst (cancel_all_then_replace st)) \<le> expo st" "expo (fst (cancel_all st track)) \<le> expo st"
proof -
  note ok = inv33_rungs [OF assms]
  have "x_rest_fills (fst (cancel_all_then_replace st)) = x_rest_fills st"
    "x_rest_fills (fst (cancel_all st track)) = x_rest_fills st"
    using ro_cancel_replace [of st] ro_cancel_all [of st track] by (simp_all add: rest_only_def)
  then show "expo (fst (cancel_all_then_replace st)) \<le> expo st" "expo (fst (cancel_all st track)) \<le> expo st"
    by (auto intro!: expo_subseq [OF ok] simp: cancel_replace_sel cancel_all_sel)
qed

lemma ladder_step_healthy:
  assumes inv: "inv33 params st" and n: "x_n_top st = Some n"
  shows "ladder_step_ok params st n (fst (healthy_step params st n now r)) (snd (healthy_step params st n now r))"
proof -
  have cr: "ladder_step_ok params st n ((fst (cancel_all_then_replace st))\<lparr>x_rest_bucket_Sd := b\<rparr>)
      (snd (cancel_all_then_replace st))" for b
    by (rule ladder_step_quiet [OF quiet_cancel_replace]) (simp add: ladder_step_cancel_replace(1) [OF inv])
  let ?w = "st\<lparr>x_awaiting_replace := False\<rparr>"
  have w: "inv33 params ?w"
    by (rule inv33_later [OF inv])
      (simp add: later_def same_quote_def grows_def, rule rungs_ok_cong [OF inv33_rungs [OF inv]], simp_all)
  have pw: "ladder_step_ok params st n (fst (place_all params ?w n now)) (snd (place_all params ?w n now))"
    by (rule ladder_step_from [OF ladder_step_place_all [OF w]]) (simp_all add: n rest_only_def flags_kept_def)
  have stay: "ladder_step_ok params st n (st\<lparr>x_rest_allotment_done := True\<rparr>) []"
    "ladder_step_ok params st n st []"
    by (rule ladder_step_quiet; simp)+
  show ?thesis
    unfolding healthy_step_def
    by (simp add: case_prod_beta cr pw stay ladder_step_place_all [OF inv n]
        ladder_step_converge_orders [OF inv n])
qed

text \<open>The gate's promise: bids only in the window, with both latches open.\<close>

lemma ladder_step_converge:
  assumes inv: "inv33 params st" and conv: "converge params st now = (st', as)"
  shows "quiet33 (x_shakedown st) as \<and> expo st' \<le> expo st \<or>
    (\<exists>n. x_n_top st = Some n \<and> in_window33 params st now \<and> \<not> x_stood_down st \<and>
       \<not> x_rest_allotment_done st \<and> ladder_step_ok params st n st' as)"
proof (cases "x_rest_allotment_done st \<or>
    q_replace_rate_alarm params < int (length (recent33 st now)) \<and> \<not> x_stood_down st")
  case True
  have "expo (fst (standdown33 ((fst (cancel_all st False))\<lparr>x_stood_down := True\<rparr>) r)) \<le> expo st" for r
    using ladder_step_cancel_replace(2) [OF inv, of False]
    by (simp add: standdown33_def expo_def filled_contracts_def resting_contracts_def)
  with True have "quiet33 (x_shakedown st) (snd (converge params st now)) \<and>
      expo (fst (converge params st now)) \<le> expo st"
    using ladder_step_cancel_replace(2) [OF inv, of False] quiet_cancel_all [of st False]
    by (cases "x_rest_allotment_done st") (simp_all add: converge_def case_prod_beta Let_def quiet_standdown)
  with conv show ?thesis by simp
next
  case False
  show ?thesis
  proof (cases "quote_gate33_of params st now")
    case Warmup33
    with False conv show ?thesis by (auto simp: converge_def split: if_splits)
  next
    case (NoQuote33 r)
    have h: "inv33 params (st\<lparr>x_hold_reason := a, x_hold_since := b\<rparr>)" for a b
      using inv33_settles [OF inv, of "st\<lparr>x_hold_reason := a, x_hold_since := b\<rparr>"]
      by (simp add: settles_def later_def same_quote_def grows_def)
    let ?u = "\<lambda>a b c d. st\<lparr>x_hold_reason := a, x_hold_since := b, x_last_standdown_reason := c, x_stand_down_reason := d\<rparr>"
    have u: "inv33 params (?u a b c d)" for a b c d
      using inv33_settles [OF inv, of "?u a b c d"] by (simp add: settles_def later_def same_quote_def grows_def)
    have eu: "expo (?u a b c d) = expo st" "expo (st\<lparr>x_hold_reason := a, x_hold_since := b, x_hold_sub_cause := e\<rparr>) = expo st" for a b c d e
      by (simp_all add: expo_def filled_contracts_def resting_contracts_def)
    have cu: "expo (fst (cancel_all_then_replace (?u a b c d))) \<le> expo st" for a b c d
      by (rule order_trans [OF ladder_step_cancel_replace(1) [OF u]]) (simp add: eu)
    have sd: "expo (fst (standdown33 s q)) = expo s" for s q
      by (simp add: standdown33_def expo_def filled_contracts_def resting_contracts_def)
    have "quiet33 (x_shakedown st) (snd (plain_no_quote st r)) \<and> expo (fst (plain_no_quote st r)) \<le> expo st"
      using quiet_cancel_replace [of "st\<lparr>x_hold_reason := None, x_hold_since := None\<rparr>"]
        quiet_cancel_replace [of st] ladder_step_cancel_replace(1) [OF h [of None None]]
        ladder_step_cancel_replace(1) [OF inv]
      by (simp add: plain_no_quote_def Let_def case_prod_beta quiet_standdown sd)
    then have "quiet33 (x_shakedown st) (snd (no_quote_step params st r now)) \<and>
        expo (fst (no_quote_step params st r now)) \<le> expo st"
      using quiet_cancel_replace [of "?u None None c d" for c d] cu
      by (simp add: no_quote_step_def case_prod_beta standdown_note_def blank_action33_def eu split: option.split)
    moreover have "converge params st now = no_quote_step params st r now"
      using False NoQuote33 by (auto simp: converge_def)
    ultimately show ?thesis using conv by (metis fst_conv snd_conv)
  next
    case (Healthy33 n)
    then have g: "x_n_top st = Some n" "\<not> x_stood_down st" "in_window33 params st now"
      by (auto simp: quote_gate33_of_def Let_def in_window33_def split: if_splits option.splits)
    define s where "s = clear_standdown (if x_hold_since st \<noteq> None then st\<lparr>x_hold_reason := None, x_hold_since := None\<rparr> else st)"
    have "settles st s" by (simp add: s_def clear_standdown_def settles_def later_def same_quote_def grows_def)
    note i = inv33_settles [OF inv this]
    have f: "rest_only st s" "flags_kept st s" "expo s \<le> expo st" "x_n_top s = Some n"
      using g(1) by (simp_all add: s_def clear_standdown_def rest_only_def flags_kept_def
          expo_def filled_contracts_def resting_contracts_def)
    have "ladder_step_ok params st n (fst (healthy_step params s n now r)) (snd (healthy_step params s n now r))" for r
      by (rule ladder_step_from [OF ladder_step_healthy [OF i f(4)] f(1-3)])
    moreover from this have "ladder_step_ok params st n (fst (healthy_step params s n now r))
        (standdown_note q # snd (healthy_step params s n now r))" for r q
      by (rule ladder_step_note) (simp add: standdown_note_def blank_action33_def)
    ultimately have "ladder_step_ok params st n (fst (converge params st now)) (snd (converge params st now))"
      using False Healthy33 unfolding s_def
      by (cases "x_hold_since st") (auto simp: converge_def Let_def case_prod_beta)
    with g False conv show ?thesis by auto
  qed
qed

end
