(* ===== verification/V33_Decide.thy ===== *)
theory V33_Decide
  imports V33_Orders
begin

text \<open>
  The guard of the V3.3 core over every event, and the instances of the decision-core locales:
  what \<open>decide_v33\<close> keeps (\<open>inv33\<close>), what it promises of every action (\<open>step_guard33\<close>), and that a
  stood-down or finished hour never bids again.
\<close>

section \<open>The guard\<close>

definition is_rest33 :: "v33_action \<Rightarrow> bool" where
  "is_rest33 a \<longleftrightarrow>
     y_kind a \<in> Inherited ` {PLACE_REST, AMEND_REST, WOULD_PLACE_REST, WOULD_AMEND_REST}"

definition to_venue33 :: "v33_action \<Rightarrow> bool" where
  "to_venue33 a \<longleftrightarrow>
     y_kind a \<in> Inherited ` set venue_kinds \<union> {TAKE_BUCKET_NO, UNWIND_WINGS}"

text \<open>
  The one bid not cut from the current ladder: the re-place of an order whose amend came back as
  a cancel, for the contracts that order had left and at no more than the price the amend asked.
  The re-places the same step makes by converging are not of this form.
\<close>

definition fallback_bid ::
  "v33_params \<Rightarrow> v33_state \<Rightarrow> v33_event \<Rightarrow> v33_action \<Rightarrow> money \<Rightarrow> bool" where
  "fallback_bid params s ev a p =
     (case ev of
        Cancelled33 e \<Rightarrow>
          (let st = clear_cancel_pending s (vc_order_id e);
               s1 = fst (book_cancelled params st e (named_order st e) (event_ts33 ev))
           in case rolling_order s1 e of
                Some rp \<Rightarrow>
                  a \<in> set (snd (roll_fallback params s1 rp (event_ts33 ev))) \<and> p \<le> rp_target_price rp
              | None \<Rightarrow> False)
      | _ \<Rightarrow> False)"

text \<open>The price locks the edge \<open>E_min\<close> at the wing cost the state knows.\<close>

definition locks_edge :: "v33_params \<Rightarrow> v33_state \<Rightarrow> money \<Rightarrow> bool" where
  "locks_edge params st p \<longleftrightarrow>
     (\<exists>n w. x_n_top st = Some n \<and> x_W st = Some w \<and> p \<le> n \<and>
            (0 \<le> q_n_min params \<longrightarrow> q_E_min params \<le> lock_value p w))"

definition bid_guard ::
  "v33_params \<Rightarrow> v33_state \<Rightarrow> v33_event \<Rightarrow> v33_state \<Rightarrow> v33_action \<Rightarrow> money \<Rightarrow> bool" where
  "bid_guard params s ev s' a p \<longleftrightarrow>
     bid_form params s a p \<and> whole_cent p \<and> placeable params s' p \<and>
     (\<not> fallback_bid params s ev a p \<longrightarrow>
        \<not> x_stood_down s' \<and> \<not> x_rest_allotment_done s' \<and> locks_edge params s' p)"

definition step_guard33 ::
  "v33_params \<Rightarrow> v33_state \<Rightarrow> v33_event \<Rightarrow> v33_state \<Rightarrow> v33_action \<Rightarrow> bool" where
  "step_guard33 params s ev s' a \<longleftrightarrow>
     (x_shakedown s \<longrightarrow> \<not> to_venue33 a) \<and>
     (is_rest33 a \<longrightarrow>
        in_window33 params s (event_ts33 ev) \<and> \<not> x_stood_down s \<and> \<not> x_rest_allotment_done s \<and>
        (\<exists>p. bid_guard params s ev s' a p)) \<and>
     (is_place a \<longrightarrow> expo s' \<le> of_int (allotment params))"

lemma quiet_shakedown: "k \<in> quiet_kinds True \<Longrightarrow> k \<notin> Inherited ` set venue_kinds \<union> {TAKE_BUCKET_NO, UNWIND_WINGS}"
  by (auto simp: quiet_kinds_def twin_kind33_def twin_kind_def venue_kinds_def order_kinds_def)

lemma rest_shakedown: "k \<in> rest_kinds33 True \<Longrightarrow> k \<notin> Inherited ` set venue_kinds \<union> {TAKE_BUCKET_NO, UNWIND_WINGS}"
  by (auto simp: rest_kinds33_def twin_kind33_def twin_kind_def venue_kinds_def order_kinds_def)

lemma guard_quiet:
  assumes "y_kind a \<in> quiet_kinds (x_shakedown s)"
  shows "step_guard33 params s ev s' a"
proof -
  have "\<not> is_rest33 a" "\<not> is_place a"
    using quiet_not_rest [OF assms] by (auto simp: is_rest33_def is_place_def)
  moreover have "\<not> to_venue33 a" if "x_shakedown s"
    using quiet_shakedown [of "y_kind a"] assms that by (simp add: to_venue33_def)
  ultimately show ?thesis by (simp add: step_guard33_def)
qed

lemma guard_quiet_list:
  "quiet33 (x_shakedown s) as \<Longrightarrow> a \<in> set as \<Longrightarrow> step_guard33 params s ev s' a"
  by (rule guard_quiet) (simp add: quiet33_def list_all_iff)

lemma locks_edgeI:
  assumes "quote_ok params st" "x_n_top st = Some n" "ok_price params st n p"
  shows "locks_edge params st p"
proof -
  from assms(1,2) obtain w c where q: "whole_cent n" "x_W st = Some w" "n < 1"
    "n + fee n \<le> 2 - q_E_min params - w" unfolding quote_ok_def by force
  have "p + fee p \<le> n + fee n" if "0 \<le> q_n_min params"
    using that assms(3) q(1,3) by (intro census.cost_mono) (auto simp: ok_price_def placeable_def)
  with q assms(2,3) show ?thesis by (auto simp: locks_edge_def ok_price_def lock_value_def)
qed

lemma guard_converge:
  assumes inv: "inv33 params m" and gr: "grows s m" and ts: "event_ts33 ev = now"
    and a: "a \<in> set (snd (converge params m now))"
  shows "step_guard33 params s ev (fst (converge params m now)) a"
proof -
  let ?s' = "fst (converge params m now)"
  have s: "x_shakedown m = x_shakedown s" "x_close_epoch m = x_close_epoch s"
    "x_stood_down s \<longrightarrow> x_stood_down m" "x_rest_allotment_done s \<longrightarrow> x_rest_allotment_done m"
    using gr by (simp_all add: grows_def)
  from ladder_step_converge [OF inv, of now ?s' "snd (converge params m now)"]
  consider "quiet33 (x_shakedown m) (snd (converge params m now))"
    | n where "x_n_top m = Some n" "in_window33 params m now" "\<not> x_stood_down m"
      "\<not> x_rest_allotment_done m" "ladder_step_ok params m n ?s' (snd (converge params m now))"
    by (metis prod.collapse)
  then show ?thesis
  proof cases
    case 1
    with a s(1) show ?thesis by (intro guard_quiet_list) simp_all
  next
    case 2
    show ?thesis
    proof (cases "y_kind a \<in> quiet_kinds (x_shakedown s)")
      case True
      then show ?thesis by (rule guard_quiet)
    next
      case False
      with a 2(5) s have e: "emits params m n a" "\<not> x_stood_down ?s'" "\<not> x_rest_allotment_done ?s'"
        and x: "is_place a \<longrightarrow> expo ?s' \<le> of_int (allotment params)"
        using 2(3,4) by (auto simp: ladder_step_ok_def list_all_iff list_ex_iff)
      from e(1) obtain p where p: "bid_form params m a p" "ok_price params m n p"
        and k: "y_kind a \<in> rest_kinds33 (x_shakedown m)" by (auto simp: emits_def)
      have ro: "rest_only m ?s'" by (rule ro_converge)
      have "quote_ok params ?s'" "x_n_top ?s' = Some n" "ok_price params ?s' n p"
        using inv33_converge [OF inv] 2(1) p(2) ro
        by (auto simp: inv33_def ok_price_cong [OF ro] rest_only_def)
      from locks_edgeI [OF this] this(3) p(1) e
      have "bid_guard params s ev ?s' a p"
        by (simp add: bid_guard_def bid_form_def s ok_price_def)
      moreover have "\<not> to_venue33 a" if "x_shakedown s"
        using rest_shakedown [of "y_kind a"] k that s by (simp add: to_venue33_def)
      ultimately show ?thesis
        using 2(2-4) s ts x by (auto simp: step_guard33_def in_window33_def)
    qed
  qed
qed

section \<open>The fallback placement\<close>

lemma fallback_acts:
  assumes rp: "rp \<in> set (x_rolls st)" and ok: "rungs_ok params st"
    and q: "quote_ok params st" and a: "a \<in> set (snd (roll_fallback params st rp now))"
  shows "y_kind a \<in> rest_kinds33 (x_shakedown st)" "in_window33 params st now" "\<not> x_stood_down st"
    "\<not> x_rest_allotment_done st" "expo (fst (roll_fallback params st rp now)) \<le> of_int (allotment params)"
    "\<exists>p. bid_form params st a p \<and> whole_cent p \<and> placeable params st p \<and> p \<le> rp_target_price rp"
proof -
  let ?st = "(drop_roll st (rp_old_coid rp))
      \<lparr>x_ladder := drop_order (x_ladder (drop_roll st (rp_old_coid rp))) (rp_old_coid rp)\<rparr>"
  define k where "k = (case order_by_coid st (rp_old_coid rp) of Some r \<Rightarrow> py_trunc (ro_count r) | None \<Rightarrow> 0)"
  define p where "p = fallback_target ?st rp"
  from a obtain n where n: "x_n_top st = Some n"
    and g: "\<not> x_rest_allotment_done st" "\<not> x_stood_down st" "in_window33 params st now" "q_n_min params \<le> p"
      "filled_contracts ?st + resting_contracts ?st + of_int k \<le> of_int (allotment params)"
    and eq: "roll_fallback params st rp now =
      place_one params ?st p (rung_of n p) (e_rung params n p) now (of_int k)"
    by (auto simp: roll_fallback_def drop_roll_def in_window33_def k_def p_def Let_def split: option.splits if_splits)
  show "in_window33 params st now" "\<not> x_stood_down st" "\<not> x_rest_allotment_done st" using g by auto
  have "a = place_action33 (fst (place_one params ?st p (rung_of n p) (e_rung params n p) now (of_int k))) params
      (coid_of33 (x_coid_prefix ?st) (x_close_time ?st) (Suc (x_coid_seq ?st))) p (of_int k)"
    using a unfolding eq place_one_snd by simp
  moreover have "x_shakedown (fst (place_one params ?st p x y now w)) = x_shakedown st"
    "x_close_epoch (fst (place_one params ?st p x y now w)) = x_close_epoch st" for x y w
    using ro_place_one [of ?st params p x y now w] by (simp_all add: rest_only_def drop_roll_def)
  ultimately show "y_kind a \<in> rest_kinds33 (x_shakedown st)"
    and form: "\<exists>p. bid_form params st a p \<and> whole_cent p \<and> placeable params st p \<and>
      p \<le> rp_target_price rp"
  proof -
    assume a': "a = place_action33 (fst (place_one params ?st p (rung_of n p) (e_rung params n p) now (of_int k))) params
      (coid_of33 (x_coid_prefix ?st) (x_close_time ?st) (Suc (x_coid_seq ?st))) p (of_int k)"
      and s: "\<And>x y w. x_shakedown (fst (place_one params ?st p x y now w)) = x_shakedown st"
        "\<And>x y w. x_close_epoch (fst (place_one params ?st p x y now w)) = x_close_epoch st"
    show "y_kind a \<in> rest_kinds33 (x_shakedown st)"
      by (simp add: a' place_action33_def rest_kinds33_def s)
    have "whole_cent (rp_target_price rp)" using ok rp by (auto simp: rungs_ok_def)
    moreover have "whole_cent c" if "x_cap st = Some c" for c using q n that by (auto simp: quote_ok_def)
    ultimately have "whole_cent p" "placeable params st p" "p \<le> rp_target_price rp"
      using g(4) by (auto simp: p_def fallback_target_def placeable_def drop_roll_def split: option.splits)
    then show "\<exists>p. bid_form params st a p \<and> whole_cent p \<and> placeable params st p \<and>
        p \<le> rp_target_price rp"
      by (intro exI [of _ p]) (simp add: a' bid_form_def place_action33_def s)
  qed
  show "expo (fst (roll_fallback params st rp now)) \<le> of_int (allotment params)"
    unfolding eq expo_place_one using g(5) by (simp add: expo_def)
qed

section \<open>Every event\<close>

lemma grows_sh: "grows s m \<Longrightarrow> x_shakedown m = x_shakedown s"
  by (simp add: grows_def)

lemma guard_book_tick:
  assumes inv: "inv33 params m" and gr: "grows s m" and ts: "event_ts33 ev = now"
    and a: "a \<in> set (snd (book_tick params m now))"
  shows "step_guard33 params s ev (fst (book_tick params m now)) a"
proof -
  let ?s1 = "shadow_complete33 params (recompute_context33 params m now) now"
  let ?s2 = "fst (wing_step33 params ?s1 now)"
  let ?s3 = "fst (pt_stall_step params ?s2 now)"
  have st: "fst (book_tick params m now) = fst (converge params ?s3 now)"
    by (simp add: book_tick_def Let_def case_prod_beta)
  have 1: "inv33 params ?s1" "grows s ?s1"
    using inv33_settles [OF inv33_recompute [OF inv] settles_shadow]
      grows_trans [OF gr grows_trans [OF grows_recompute grows_settles [OF settles_shadow]]] by blast+
  have 2: "inv33 params ?s2" "grows s ?s2"
    using inv33_settles [OF 1(1) settles_wing [OF wf_wing_step]]
      grows_trans [OF 1(2) grows_settles [OF settles_wing [OF wf_wing_step]]] by blast+
  have 3: "inv33 params ?s3" "grows s ?s3"
    using inv33_settles [OF 2(1) settles_stall] grows_trans [OF 2(2) grows_settles [OF settles_stall]] by blast+
  from a consider "a \<in> set (snd (wing_step33 params ?s1 now))" | "a \<in> set (snd (pt_stall_step params ?s2 now))"
    | "a \<in> set (snd (converge params ?s3 now))"
    by (auto simp: book_tick_def Let_def case_prod_beta)
  then show ?thesis
  proof cases
    case 1
    with quiet_wing_step [of ?s1 params now] show ?thesis
      by (intro guard_quiet_list) (simp_all add: grows_sh [OF \<open>grows s ?s1\<close>])
  next
    case 2
    with quiet_stall [of ?s2 params now] show ?thesis
      by (intro guard_quiet_list) (simp_all add: grows_sh [OF \<open>grows s ?s2\<close>])
  next
    case 3
    from guard_converge [OF \<open>inv33 params ?s3\<close> \<open>grows s ?s3\<close> ts this] show ?thesis unfolding st .
  qed
qed

lemma guard_amended:
  assumes inv: "inv33 params s" and ts: "event_ts33 ev = now"
    and a: "a \<in> set (snd (apply_amended33 params s e now))"
  shows "step_guard33 params s ev (fst (apply_amended33 params s e now)) a"
proof (cases "find_roll s e")
  case None
  with a show ?thesis by (simp add: apply_amended33_def)
next
  case (Some rp)
  then have rp: "rp \<in> set (x_rolls s)" by (auto simp: find_roll_def find_Some_iff)
  let ?st = "drop_roll s (rp_old_coid rp)"
  let ?p = "case om_price e of Some p \<Rightarrow> p | None \<Rightarrow> rp_target_price rp"
  let ?x = "amend_cross params (amend_move params ?st rp ?p now) rp e ?p now"
  have d: "inv33 params ?st" "grows s ?st"
    by (rule inv33_settles [OF inv settles_drop_roll], rule grows_settles [OF settles_drop_roll])
  have mv: "later s (amend_move params ?st rp ?p now)"
    by (rule later_trans [OF later_settles [OF settles_drop_roll] later_amend_move])
  have l: "later s (fst ?x)" by (rule later_trans [OF mv amend_cross_later])
  have i: "inv33 params (fst ?x)"
    by (rule inv33_later [OF inv l amend_cross_rungs [OF rungs_ok_amend_move [OF inv33_rungs [OF inv] rp]]])
  have q: "quiet33 (x_shakedown s) (snd ?x)"
    using quiet_amend_cross [of "amend_move params ?st rp ?p now"] later_sh [OF mv] by simp
  show ?thesis
  proof (cases "order_by_coid ?st (rp_old_coid rp)")
    case None
    with a have eq: "apply_amended33 params s e now = converge params ?st now"
      by (simp add: apply_amended33_def Some)
    from guard_converge [OF d ts a [unfolded eq]] show ?thesis unfolding eq .
  next
    case (Some r)
    have eq: "apply_amended33 params s e now =
        (fst (converge params (fst ?x) now), snd ?x @ snd (converge params (fst ?x) now))"
      by (simp add: apply_amended33_def \<open>find_roll s e = _\<close> Some Let_def case_prod_beta)
    from a eq consider "a \<in> set (snd ?x)" | "a \<in> set (snd (converge params (fst ?x) now))" by auto
    then show ?thesis
    proof cases
      case 1
      with q show ?thesis by (rule guard_quiet_list)
    next
      case 2
      from guard_converge [OF i _ ts 2] l show ?thesis by (simp add: eq later_def)
    qed
  qed
qed

lemma guard_cancelled:
  assumes inv: "inv33 params s" and ev: "event_ts33 ev = now" "ev = Cancelled33 e"
    and a: "a \<in> set (snd (apply_cancelled33 params s e now))"
  shows "step_guard33 params s ev (fst (apply_cancelled33 params s e now)) a"
proof -
  let ?st = "clear_cancel_pending s (vc_order_id e)"
  let ?named = "named_order ?st e"
  let ?s1 = "fst (book_cancelled params ?st e ?named now)"
  have l1: "later s ?s1"
    by (rule later_trans [OF later_settles [OF settles_clear] book_cancelled_later])
  have r1: "rungs_ok params ?s1"
    by (rule book_cancelled_rungs [OF rungs_ok_settles [OF settles_clear inv33_rungs [OF inv]]])
  note i1 = inv33_later [OF inv l1 r1]
  have note_ok: "step_guard33 params s ev s' (alarm33 r c i t n p)" for s' r c i t n p
    by (rule guard_quiet) (simp add: alarm33_def blank_action33_def)
  have booked: "step_guard33 params s ev s' a"
    if "a \<in> set (snd (book_cancelled params ?st e ?named now))" for s'
    using quiet_book_cancelled [of ?st] that settles_sh [OF settles_clear, of s "vc_order_id e"]
    by (intro guard_quiet_list) simp_all
  show ?thesis
  proof (cases "rolling_order ?s1 e")
    case (Some rp)
    then have rp: "rp \<in> set (x_rolls ?s1)"
      by (auto simp: rolling_order_def find_Some_iff split: option.splits)
    let ?f = "roll_fallback params ?s1 rp now"
    let ?s' = "fst (converge params (fst ?f) now)"
    have lf: "later s (fst ?f)" by (rule later_trans [OF l1 roll_fallback_later])
    have i2: "inv33 params (fst ?f)"
      by (rule inv33_later [OF i1 roll_fallback_later roll_fallback_rungs [OF r1 rp]])
    have res: "fst (apply_cancelled33 params s e now) = ?s'"
      by (simp add: apply_cancelled33_def Some Let_def case_prod_beta)
    from a consider (quiet) "step_guard33 params s ev ?s' a" | (fallback) "a \<in> set (snd ?f)"
      | (conv) "a \<in> set (snd (converge params (fst ?f) now))"
      using note_ok booked by (auto simp: apply_cancelled33_def Some Let_def case_prod_beta split: if_splits)
    then show ?thesis
    proof cases
      case fallback
      have "quote_ok params ?s1" using i1 by (simp add: inv33_def)
      note f = fallback_acts [OF rp r1 this fallback]
      have "later ?s1 ?s'" by (rule later_trans [OF roll_fallback_later later_rest [OF ro_converge]])
      then have cap: "placeable params ?s' p = placeable params ?s1 p" for p
        by (simp add: placeable_def later_def same_quote_def)
      have s: "x_shakedown ?s1 = x_shakedown s" "x_close_epoch ?s1 = x_close_epoch s"
        "x_stood_down s \<longrightarrow> x_stood_down ?s1" "x_rest_allotment_done s \<longrightarrow> x_rest_allotment_done ?s1"
        using l1 by (simp_all add: later_def grows_def)
      have "\<exists>p. bid_guard params s ev ?s' a p"
        using f(6) s fallback Some ev(1)
        by (auto simp: bid_guard_def bid_form_def cap fallback_bid_def ev(2))
      moreover have "expo ?s' \<le> of_int (allotment params)"
        using f(5) ladder_step_converge [OF i2, of now ?s' "snd (converge params (fst ?f) now)"]
        by (auto simp: ladder_step_ok_def)
      moreover have "\<not> to_venue33 a" if "x_shakedown s"
        using rest_shakedown [of "y_kind a"] f(1) that s by (simp add: to_venue33_def)
      ultimately show ?thesis
        using f(2-4) s ev(1) unfolding res by (auto simp: step_guard33_def in_window33_def)
    next
      case conv
      from guard_converge [OF i2 _ ev(1) conv] lf show ?thesis by (simp add: res later_def)
    qed (simp add: res)
  next
    case None
    let ?s2 = "case ?named of None \<Rightarrow> ?s1
      | Some r \<Rightarrow> ?s1\<lparr>x_ladder := drop_order (x_ladder ?s1) (ro_coid r)\<rparr>"
    let ?q = "resolve_outstanding ?s2 e ?named"
    let ?c = "pt_on_cancel_confirmed params ?q (vc_order_id e) now"
    have "settles ?s1 ?q" by (rule settles_trans [OF settles_named_drop settles_outstanding])
    then have lq: "later s ?q" "inv33 params ?q"
      using later_trans [OF l1 later_settles] inv33_settles [OF i1] by blast+
    have lc: "later s (fst ?c)" "inv33 params (fst ?c)"
      using later_trans [OF lq(1) later_settles [OF settles_confirmed]]
        inv33_settles [OF lq(2) settles_confirmed] by blast+
    have res: "fst (apply_cancelled33 params s e now) = fst (converge params (fst ?c) now)"
      by (simp add: apply_cancelled33_def None Let_def case_prod_beta)
    from a consider (quiet) "step_guard33 params s ev (fst (converge params (fst ?c) now)) a"
      | (pt) "a \<in> set (snd ?c)" | (conv) "a \<in> set (snd (converge params (fst ?c) now))"
      using note_ok booked by (auto simp: apply_cancelled33_def None Let_def case_prod_beta split: if_splits)
    then show ?thesis
    proof cases
      case pt
      with quiet_confirmed [of ?q params "vc_order_id e" now] show ?thesis
        by (intro guard_quiet_list) (simp_all add: later_sh [OF lq(1)])
    next
      case conv
      from guard_converge [OF lc(2) _ ev(1) conv] lc(1) show ?thesis by (simp add: res later_def)
    qed (simp add: res)
  qed
qed

lemma guard_decide:
  assumes inv: "inv33 params s" and a: "a \<in> set (snd (decide_v33 params s ev))"
  shows "step_guard33 params s ev (fst (decide_v33 params s ev)) a"
proof (cases ev)
  case (Book33 e)
  let ?m = "stamp_strike_feed (fold_book33 params s e) e"
  have "settles s ?m" by (rule settles_trans [OF settles_fold settles_stamp])
  note m = inv33_settles [OF inv this] grows_settles [OF this]
  have ts: "event_ts33 ev = bu_server_ts e" by (simp add: Book33)
  show ?thesis
    using guard_book_tick [OF m ts] a by (simp add: Book33 decide_v33_def Let_def)
next
  case (Clock33 t)
  have ts: "event_ts33 ev = event_ts33 (Clock33 t)" by (simp add: Clock33)
  show ?thesis using guard_book_tick [OF inv grows_refl ts] a by (simp add: Clock33 decide_v33_def Let_def)
next
  case (Trade33 t)
  with a quiet_trade_tick show ?thesis
    by (intro guard_quiet_list) (simp_all add: decide_v33_def Let_def)
next
  case (Amended33 e)
  have ts: "event_ts33 ev = om_server_ts e" by (simp add: Amended33)
  show ?thesis using guard_amended [OF inv ts] a by (simp add: Amended33 decide_v33_def Let_def)
next
  case (Cancelled33 e)
  have ts: "event_ts33 ev = event_ts33 (Cancelled33 e)" by (simp add: Cancelled33)
  show ?thesis using guard_cancelled [OF inv ts Cancelled33] a
    by (simp add: Cancelled33 decide_v33_def Let_def)
next
  case (Fill33 e)
  with a quiet_fill show ?thesis
    by (intro guard_quiet_list) (simp_all add: decide_v33_def Let_def)
qed (use a in \<open>simp add: decide_v33_def\<close>)

interpretation v33_guard: guarded_core "decide_v33 params" "inv33 params" "step_guard33 params" for params
  by unfold_locales (rule guard_decide)

text \<open>A stood-down or finished hour stays so and bids nothing; a shakedown core sends nothing.\<close>

definition closed33 :: "v33_state \<Rightarrow> bool" where
  "closed33 st \<longleftrightarrow> x_stood_down st \<or> x_rest_allotment_done st"

lemma closed_stays: "inv33 params s \<Longrightarrow> closed33 s \<Longrightarrow> closed33 (fst (decide_v33 params s e))"
  using grows_decide [of params s e] by (auto simp: grows_def closed33_def)

lemma closed_silent:
  "inv33 params s \<Longrightarrow> closed33 s \<Longrightarrow> a \<in> set (snd (decide_v33 params s e)) \<Longrightarrow> \<not> is_rest33 a"
  using guard_decide [of params s a e] by (auto simp: step_guard33_def closed33_def)

interpretation v33_closed: latching_core "decide_v33 params" "inv33 params" is_rest33 closed33 for params
  by unfold_locales (auto intro: closed_stays dest: closed_silent)

lemma shakedown_stays: "inv33 params s \<Longrightarrow> x_shakedown (fst (decide_v33 params s e)) = x_shakedown s"
  using grows_decide [of params s e] by (simp add: grows_def)

interpretation v33_shakedown: latching_core "decide_v33 params" "inv33 params" to_venue33 x_shakedown for params
  using guard_decide by unfold_locales (auto simp: shakedown_stays step_guard33_def)

end
