(* ===== verification/V33_Hedge.thy ===== *)
theory V33_Hedge
  imports V33_Events
begin

text \<open>
  The hedge invariant of the V3.3 core with print-through off: every rung fill with a named
  bucket is in exactly one wing batch or in the open coalescing group, in booking order; a taken
  batch has exactly its two legs, one of each side, sized to its lots, an untaken one none; the
  completed sets are counted. The invariant is stated on a view of the state (\<open>hedge_view\<close>) that
  most operations leave alone.
\<close>

section \<open>The view and the invariant\<close>

type_synonym batch_key = "nat \<times> rung_fill list \<times> bool \<times> bool \<times> bool"
type_synonym leg_key33 = "nat \<times> string \<times> lots"

definition batch_key :: "batch33 \<Rightarrow> batch_key" where
  "batch_key b = (bt_index b, bt_fills b, bt_taken b, bt_completed b, bt_print_through b)"

definition leg_key33 :: "leg33 \<Rightarrow> leg_key33" where
  "leg_key33 l = (wl_batch l, wl_side l, wl_count l)"

definition named_fills :: "v33_state \<Rightarrow> rung_fill list" where
  "named_fills st = filter (\<lambda>f. rg_bucket_Sd f \<noteq> None) (x_rest_fills st)"

definition group_fills :: "coalesce_group option \<Rightarrow> rung_fill list" where
  "group_fills g = (case g of None \<Rightarrow> [] | Some g \<Rightarrow> cg_fills g)"

definition group_index :: "coalesce_group option \<Rightarrow> nat list" where
  "group_index g = (case g of None \<Rightarrow> [] | Some g \<Rightarrow> [cg_index g])"

text \<open>Two legs of opposite sides, each of \<open>n\<close> lots.\<close>

definition leg_pair :: "(string \<times> lots) list \<Rightarrow> lots \<Rightarrow> bool" where
  "leg_pair ls n \<longleftrightarrow> ls = [(BUY_YES, n), (BUY_NO, n)] \<or> ls = [(BUY_NO, n), (BUY_YES, n)]"

fun key_ok :: "leg_key33 list \<Rightarrow> batch_key \<Rightarrow> bool" where
  "key_ok ls (i, fs, taken, completed, pt) \<longleftrightarrow>
     \<not> pt \<and> fs \<noteq> [] \<and> (completed \<longrightarrow> taken) \<and>
     (if taken then leg_pair (map snd (filter (\<lambda>l. fst l = i) ls)) (q_count (fills_total fs))
      else filter (\<lambda>l. fst l = i) ls = [])"

definition key_lots :: "batch_key \<Rightarrow> lots" where
  "key_lots k = (case k of (i, fs, _) \<Rightarrow> fills_total fs)"

definition key_done :: "batch_key \<Rightarrow> bool" where
  "key_done k = (case k of (i, fs, tk, cp, pt) \<Rightarrow> cp)"

record hedge_view =
  hv_batches :: "batch_key list"
  hv_legs :: "leg_key33 list"
  hv_open :: "coalesce_group option"
  hv_next :: nat
  hv_fills :: "rung_fill list"
  hv_sets :: lots

definition view33 :: "v33_state \<Rightarrow> hedge_view" where
  "view33 st =
     \<lparr>hv_batches = map batch_key (x_wing_batches st), hv_legs = map leg_key33 (x_wing_legs st),
      hv_open = x_coalesce_open st, hv_next = x_next_batch_index st,
      hv_fills = named_fills st, hv_sets = x_sets_done st\<rparr>"

text \<open>\<open>gap\<close>: fills already recorded but not yet given to a group.\<close>

definition hedge_gap :: "rung_fill list \<Rightarrow> hedge_view \<Rightarrow> bool" where
  "hedge_gap gap v \<longleftrightarrow>
     hv_fills v = concat (map (\<lambda>k. fst (snd k)) (hv_batches v)) @ group_fills (hv_open v) @ gap \<and>
     (hv_open v \<noteq> None \<longrightarrow> group_fills (hv_open v) \<noteq> []) \<and>
     distinct (map fst (hv_batches v) @ group_index (hv_open v)) \<and>
     (\<forall>i \<in> set (map fst (hv_batches v) @ group_index (hv_open v)). i < hv_next v) \<and>
     (\<forall>k \<in> set (hv_batches v). key_ok (hv_legs v) k) \<and>
     (\<forall>l \<in> set (hv_legs v). fst l \<in> set (map fst (hv_batches v))) \<and>
     hv_sets v = sum_list (map key_lots (filter key_done (hv_batches v)))"

definition hedge33 :: "v33_state \<Rightarrow> bool" where
  "hedge33 st \<longleftrightarrow>
     x_print_through st = [] \<and> hedge_gap [] (view33 st) \<and>
     list_all (\<lambda>f. whole_cent (rg_count f)) (hv_fills (view33 st))"

lemma hv_fills_view: "hv_fills (view33 st) = filter (\<lambda>f. rg_bucket_Sd f \<noteq> None) (x_rest_fills st)"
  by (simp add: view33_def named_fills_def)

lemma hedge33_new: "hedge33 (new_v33_state ct ce bm params sh fl pre)"
  by (simp add: hedge33_def hedge_gap_def view33_def new_v33_state_def named_fills_def group_fills_def
      group_index_def)

lemma hedge33_cong:
  "hedge33 st \<Longrightarrow> view33 st' = view33 st \<Longrightarrow> x_print_through st' = x_print_through st \<Longrightarrow> hedge33 st'"
  by (simp add: hedge33_def)

lemma hedge33_rest: "hedge33 st \<Longrightarrow> rest_only st st' \<Longrightarrow> hedge33 st'"
  by (erule hedge33_cong) (simp_all add: rest_only_def view33_def named_fills_def)

section \<open>Coalescing\<close>

lemma gap_flush:
  assumes "hedge_gap gap (view33 st)"
  shows "hedge_gap gap (view33 (coalesce_flush params st now))"
proof (cases "x_coalesce_open st")
  case None
  with assms show ?thesis by (simp add: coalesce_flush_def)
next
  case (Some g)
  have idx: "filter (\<lambda>l. fst l = cg_index g) (map leg_key33 (x_wing_legs st)) = []"
  proof -
    have "\<forall>l \<in> set (map leg_key33 (x_wing_legs st)). fst l \<in> set (map fst (map batch_key (x_wing_batches st)))"
      "cg_index g \<notin> set (map fst (map batch_key (x_wing_batches st)))"
      using assms Some by (simp_all add: hedge_gap_def view33_def group_index_def)
    then show ?thesis unfolding filter_empty_conv by metis
  qed
  show ?thesis
    using assms idx Some
    by (simp add: coalesce_flush_def hedge_gap_def view33_def named_fills_def group_batch_def
        batch_key_def group_fills_def group_index_def key_done_def)
qed

lemma gap_add:
  assumes "hedge_gap [rf] (view33 st)"
  shows "hedge_gap [] (view33 (coalesce_add params st rf now))"
proof -
  define s where "s = coalesce_flush params st now"
  have s: "hedge_gap [rf] (view33 s)" unfolding s_def by (rule gap_flush [OF assms])
  have eq: "coalesce_add params st rf now =
      (case x_coalesce_open s of
        None \<Rightarrow> s\<lparr>x_coalesce_open := Some \<lparr>cg_index = x_next_batch_index s, cg_first_ts = now, cg_fills = [rf]\<rparr>,
                 x_next_batch_index := x_next_batch_index s + 1\<rparr>
      | Some g \<Rightarrow> s\<lparr>x_coalesce_open := Some (g\<lparr>cg_fills := cg_fills g @ [rf]\<rparr>)\<rparr>)"
    by (simp add: coalesce_add_def s_def Let_def split: option.split)
  show ?thesis
  proof (cases "x_coalesce_open s")
    case None
    with s show ?thesis
      by (auto simp: eq hedge_gap_def view33_def named_fills_def group_fills_def group_index_def
          less_SucI)
  next
    case (Some g)
    with s show ?thesis
      by (simp add: eq hedge_gap_def view33_def named_fills_def group_fills_def group_index_def)
  qed
qed

section \<open>Batches\<close>

lemma replace_batch33_map:
  "distinct (map bt_index bs) \<Longrightarrow>
    replace_batch33 bs i f = map (\<lambda>b. if bt_index b = i then f b else b) bs"
proof (induction bs)
  case (Cons b bs)
  then show ?case by (auto intro!: map_idI [symmetric] simp: rev_image_eqI)
qed simp

lemma hedge_indices: "hedge_gap gap (view33 st) \<Longrightarrow> distinct (map bt_index (x_wing_batches st))"
  by (simp add: hedge_gap_def view33_def batch_key_def comp_def)

text \<open>Updates that keep every key keep the view.\<close>

lemma view_on_batch:
  assumes "\<And>b. batch_key (f b) = batch_key b"
  shows "view33 (on_batch st i f) = view33 st"
proof -
  have "map batch_key (replace_batch33 bs i f) = map batch_key bs" for bs
    by (induction bs) (simp_all add: assms)
  then show ?thesis by (simp add: on_batch_def view33_def named_fills_def)
qed

lemma find_batchD: "find_batch st i = Some b \<Longrightarrow> b \<in> set (x_wing_batches st) \<and> bt_index b = i"
  by (auto simp: find_batch_def find_Some_iff)

lemma view_mark:
  "x_print_through st = [] \<Longrightarrow> pt_mark_resolution st i r t = st"
  by (simp add: pt_mark_resolution_def)

lemma hedge33_view: "hedge33 st \<Longrightarrow> view33 st' = view33 st \<Longrightarrow> x_print_through st' = [] \<Longrightarrow> hedge33 st'"
  by (simp add: hedge33_def)

lemma view33_upd [simp]:
  "view33 (st\<lparr>x_coid_seq := a\<rparr>) = view33 st" "view33 (sync_mirrors33 st) = view33 st"
  "x_print_through (sync_mirrors33 st) = x_print_through st"
  "x_print_through (on_batch st i f) = x_print_through st"
  by (simp_all add: view33_def named_fills_def sync_mirrors33_def on_batch_def)

lemma hedge33_sync: "hedge33 st \<Longrightarrow> hedge33 (sync_mirrors33 st)"
  by (simp add: hedge33_def)

lemma hedge33_take:
  assumes h: "hedge33 st" and b: "find_batch st i = Some b" "\<not> bt_taken b"
    and l: "wl_batch l1 = i" "wl_batch l2 = i"
      "leg_pair [(wl_side l1, wl_count l1), (wl_side l2, wl_count l2)] (q_count (total_count b))"
  shows "hedge33 (on_batch (st\<lparr>x_coid_seq := k, x_wing_legs := x_wing_legs st @ [l1, l2]\<rparr>) i
    (\<lambda>x. x\<lparr>bt_taken := True\<rparr>))"
    (is "hedge33 ?st'")
proof -
  let ?ls = "map leg_key33 (x_wing_legs st)"
  let ?new = "?ls @ [leg_key33 l1, leg_key33 l2]"
  let ?bs = "x_wing_batches st"
  note g = h [unfolded hedge33_def, THEN conjunct2, THEN conjunct1]
  have d: "distinct (map bt_index ?bs)" by (rule hedge_indices [OF g])
  have bm: "b \<in> set ?bs" "bt_index b = i" using find_batchD [OF b(1)] by auto
  have uniq: "c = b" if "c \<in> set ?bs" "bt_index c = i" for c
    using d that bm by (auto simp: distinct_map dest: inj_onD)
  have keys: "\<forall>c \<in> set ?bs. key_ok ?ls (batch_key c)"
    using g by (simp add: hedge_gap_def view33_def)
  let ?f = "\<lambda>c. if bt_index c = i then c\<lparr>bt_taken := True\<rparr> else c"
  have ok: "key_ok ?new (batch_key (?f c))" if "c \<in> set ?bs" for c
  proof (cases "bt_index c = i")
    case True
    then have "c = b" using uniq that by blast
    then show ?thesis using bspec [OF keys bm(1)] b(2) bm(2) l
      by (simp add: batch_key_def leg_key33_def total_count_def)
  next
    case False
    with bspec [OF keys that] l show ?thesis by (simp add: batch_key_def leg_key33_def)
  qed
  have same: "fst (batch_key (?f c)) = fst (batch_key c)" "fst (snd (batch_key (?f c))) = fst (snd (batch_key c))"
    "key_lots (batch_key (?f c)) = key_lots (batch_key c)" "key_done (batch_key (?f c)) = key_done (batch_key c)" for c
    by (simp_all add: batch_key_def key_lots_def key_done_def)
  have sums: "sum_list (map key_lots (filter key_done (map (batch_key \<circ> ?f) cs))) =
      sum_list (map key_lots (filter key_done (map batch_key cs)))" for cs
    by (induction cs) (simp_all add: same del: if_split)
  have view: "view33 ?st' = (view33 st)\<lparr>hv_batches := map (batch_key \<circ> ?f) ?bs, hv_legs := ?new\<rparr>"
    by (simp add: view33_def on_batch_def named_fills_def replace_batch33_map [OF d])
  have idx: "map fst (map (batch_key \<circ> ?f) ?bs) = map fst (map batch_key ?bs)"
    "map (\<lambda>k. fst (snd k)) (map (batch_key \<circ> ?f) ?bs) = map (\<lambda>k. fst (snd k)) (map batch_key ?bs)"
    by (simp_all add: same del: if_split)
  have "\<forall>k \<in> set (map (batch_key \<circ> ?f) ?bs). key_ok ?new k" using ok by auto
  moreover have "i \<in> set (map fst (map batch_key ?bs))"
    using bm by (force simp: batch_key_def)
  then have "\<forall>l \<in> set ?new. fst l \<in> set (map fst (map batch_key ?bs))"
    using g l by (simp add: hedge_gap_def view33_def leg_key33_def)
  ultimately have "hedge_gap [] (view33 ?st')"
    using g unfolding view hedge_gap_def idx hedge_view.simps sums by (simp only: view33_def hedge_view.simps simp_thms sums idx) blast
  with h show ?thesis by (simp add: hedge33_def hv_fills_view on_batch_def)
qed

section \<open>The wing step\<close>

lemma hedge33_take_batch:
  assumes "hedge33 st" "find_batch st i = Some b" "\<not> bt_taken b"
  shows "hedge33 (fst (take_batch33 params st b sd su ya na))"
proof -
  have i: "bt_index b = i" using find_batchD [OF assms(2)] by simp
  have "fst (take_batch33 params st b sd su ya na) = on_batch (st\<lparr>x_coid_seq := Suc (Suc (x_coid_seq st)),
      x_wing_legs := x_wing_legs st @
        [new_leg (ticker_at (x_strike_tickers st) (Some sd)) BUY_YES (q_count (total_count b))
           (min (ya + q_wing_margin params) LIMIT_CEILING)
           (coid_of33 (x_coid_prefix st) (x_close_time st) (Suc (x_coid_seq st))) i,
         new_leg (ticker_at (x_strike_tickers st) (Some su)) BUY_NO (q_count (total_count b))
           (min (na + q_wing_margin params) LIMIT_CEILING)
           (coid_of33 (x_coid_prefix st) (x_close_time st) (Suc (Suc (x_coid_seq st)))) i]\<rparr>) i
      (\<lambda>x. x\<lparr>bt_taken := True\<rparr>)"
    by (simp add: take_batch33_def Let_def mint_coid33_eq i)
  then show ?thesis
    by (simp only:) (rule hedge33_take [OF assms], simp_all add: new_leg_def leg_pair_def)
qed

lemma hedge33_take_partial:
  assumes "hedge33 st" "find_batch st i = Some b" "\<not> bt_taken b"
  shows "hedge33 (fst (take_batch_partial params st b bucket now))"
proof -
  have i: "bt_index b = i" using find_batchD [OF assms(2)] by simp
  let ?n = "q_count (total_count b)"
  have sent: "hedge33 (on_batch (st\<lparr>x_coid_seq := k, x_wing_legs := x_wing_legs st @
      [new_leg t1 s1 ?n lim c i, (new_leg t2 s2 ?n 0 [] i)\<lparr>wl_status := Unfilled\<rparr>]\<rparr>) i
      (\<lambda>x. x\<lparr>bt_taken := True\<rparr>))" if "leg_pair [(s1, ?n), (s2, ?n)] ?n" for k t1 s1 lim c t2 s2
    by (rule hedge33_take [OF assms]) (use that in \<open>simp_all add: new_leg_def\<close>)
  show ?thesis
    using assms(1) by (auto simp: take_batch_partial_def Let_def mint_coid33_eq i leg_pair_def
        intro!: sent split: option.split)
qed

lemma retry_legs33_keys:
  "map leg_key33 (fst (snd (retry_legs33 params i ya na now st legs))) = map leg_key33 legs"
proof (induction legs arbitrary: st)
  case (Cons l ls)
  show ?case
    using Cons.IH [of st] Cons.IH [of "st\<lparr>x_coid_seq := Suc (x_coid_seq st)\<rparr>"]
    by (simp add: mint_coid33_eq Let_def case_prod_beta leg_key33_def)
qed simp

lemma hedge33_retry:
  assumes "hedge33 st"
  shows "hedge33 (fst (retry_batch33 params st b ya na now))"
proof -
  obtain st1 legs1 acts where r: "retry_legs33 params (bt_index b) ya na now st (x_wing_legs st) = (st1, legs1, acts)"
    by (cases "retry_legs33 params (bt_index b) ya na now st (x_wing_legs st)")
  from retry_legs33_state [OF r] have st1: "st1 = st\<lparr>x_coid_seq := x_coid_seq st + length acts\<rparr>" .
  have keys: "map leg_key33 legs1 = map leg_key33 (x_wing_legs st)"
    using retry_legs33_keys [of params "bt_index b" ya na now st "x_wing_legs st"] by (simp add: r)
  have "view33 (on_batch (st1\<lparr>x_wing_legs := legs1\<rparr>) i (\<lambda>x. x\<lparr>bt_retries := n\<rparr>)) = view33 st" for i n
    by (subst view_on_batch) (simp_all add: batch_key_def st1 view33_def named_fills_def keys)
  moreover have "view33 st1 = view33 st" "x_print_through st1 = x_print_through st" by (simp_all add: st1)
  ultimately show ?thesis
    using assms by (simp add: retry_batch33_def r hedge33_def st1)
qed

lemma hedge33_step_batch: "hedge33 st \<Longrightarrow> hedge33 (fst (step_batch33 params now st i))"
  by (auto simp: step_batch33_def hedge33_take_batch hedge33_take_partial hedge33_retry split: option.split)

lemma hedge33_step_batches: "hedge33 st \<Longrightarrow> hedge33 (fst (step_batches33 params now st is))"
proof (induction "is" arbitrary: st)
  case (Cons i "is")
  from Cons.IH [OF hedge33_step_batch [OF Cons.prems]] show ?case by (simp add: case_prod_beta)
qed simp

lemma hedge33_cutoff: "hedge33 st \<Longrightarrow> hedge33 (cutoff_batch now st b)"
  by (auto simp: cutoff_batch_def Let_def hedge33_def view_on_batch batch_key_def view_mark)

lemma hedge33_flush: "hedge33 st \<Longrightarrow> hedge33 (coalesce_flush params st now)"
  using gap_flush [of "[]" st params now]
  by (simp add: hedge33_def coalesce_flush_def hv_fills_view split: option.split)

lemma hedge33_wing_step:
  assumes "hedge33 st"
  shows "hedge33 (fst (wing_step33 params st now))"
proof -
  have "hedge33 s \<Longrightarrow> hedge33 (foldl (cutoff_batch now) s bs)" for s bs
    by (induction bs arbitrary: s) (simp_all add: hedge33_cutoff)
  with hedge33_flush [OF assms] show ?thesis
    by (simp add: wing_step33_def Let_def case_prod_beta hedge33_sync hedge33_step_batches)
qed

section \<open>Netting and closing\<close>

lemma hedge33_legs:
  "hedge33 st \<Longrightarrow> map leg_key33 legs = map leg_key33 (x_wing_legs st) \<Longrightarrow> hedge33 (st\<lparr>x_wing_legs := legs\<rparr>)"
  by (simp add: hedge33_def view33_def named_fills_def)

lemma net_once_view:
  "net_once st c now = Some (st', a) \<Longrightarrow> view33 st' = view33 st \<and> x_print_through st' = x_print_through st"
  by (auto simp: net_once_def Let_def view33_def named_fills_def leg_key33_def
      split: option.splits if_splits prod.splits)

lemma hedge33_net: "hedge33 st \<Longrightarrow> hedge33 (fst (net_wings st c now))"
proof -
  have "hedge33 st \<Longrightarrow> hedge33 (fst (net_loop k st c now))" for k
  proof (induction k arbitrary: st)
    case (Suc k)
    show ?case
    proof (cases "net_once st c now")
      case (Some sa)
      obtain s a where sa: "sa = (s, a)" by (cases sa)
      with Some net_once_view Suc.prems have "hedge33 s" by (simp add: hedge33_def)
      from Suc.IH [OF this] show ?thesis by (simp add: Some sa case_prod_beta)
    qed (simp add: Suc.prems)
  qed simp
  then show "hedge33 st \<Longrightarrow> ?thesis" by (simp add: net_wings_def)
qed

definition done_lots :: "batch33 list \<Rightarrow> lots" where
  "done_lots bs = sum_list (map key_lots (filter key_done (map batch_key bs)))"

lemma done_lots_list [simp]:
  "done_lots [] = 0"
  "done_lots (b # bs) = (if bt_completed b then total_count b else 0) + done_lots bs"
  by (simp_all add: done_lots_def key_done_def key_lots_def batch_key_def total_count_def)

lemma done_lots_complete:
  assumes "b \<in> set bs" "distinct (map bt_index bs)" "\<not> bt_completed b"
    and "\<And>c. bt_completed (f c) \<and> bt_fills (f c) = bt_fills c"
  shows "done_lots (map (\<lambda>c. if bt_index c = bt_index b then f c else c) bs) = done_lots bs + total_count b"
  using assms(1,2)
proof (induction bs)
  case (Cons c cs)
  show ?case
  proof (cases "c = b")
    case True
    then have "map (\<lambda>c. if bt_index c = bt_index b then f c else c) cs = cs"
      using Cons.prems(2) by (intro map_idI) (auto simp: rev_image_eqI)
    then show ?thesis using True assms(3,4) by (simp add: total_count_def)
  next
    case False
    with Cons.prems have "bt_index c \<noteq> bt_index b" "b \<in> set cs" by (auto simp: rev_image_eqI)
    with Cons show ?thesis by simp
  qed
qed simp

lemma hedge33_close:
  assumes h: "hedge33 st"
  shows "hedge33 (maybe_close_set33 st i)"
proof (cases "find_batch st i")
  case None
  with h show ?thesis by (simp add: maybe_close_set33_def hedge33_sync)
next
  case (Some b)
  let ?bs = "x_wing_batches st"
  let ?ls = "map leg_key33 (x_wing_legs st)"
  note g = h [unfolded hedge33_def, THEN conjunct2, THEN conjunct1]
  have d: "distinct (map bt_index ?bs)" by (rule hedge_indices [OF g])
  have bm: "b \<in> set ?bs" "bt_index b = i" using find_batchD [OF Some] by auto
  have keys: "\<forall>c \<in> set ?bs. key_ok ?ls (batch_key c)" using g by (simp add: hedge_gap_def view33_def)
  have pt: "\<not> bt_print_through b" using bspec [OF keys bm(1)] by (simp add: batch_key_def)
  let ?f = "\<lambda>x. x\<lparr>bt_completed := True, bt_one_legged := False\<rparr>"
  let ?g = "\<lambda>c. if bt_index c = i then ?f c else c"
  have "hedge33 (on_batch (st\<lparr>x_sets_done := x_sets_done st + total_count b\<rparr>) i ?f)"
    if fresh: "\<not> bt_completed b" and legs: "batch_legs33 st i \<noteq> []"
  proof -
    have "filter (\<lambda>l. fst l = i) ?ls \<noteq> []"
      using legs by (auto simp: batch_legs33_def filter_empty_conv leg_key33_def)
    then have taken: "bt_taken b"
      using bspec [OF keys bm(1)] bm(2) by (auto simp: batch_key_def split: if_splits)
    have ok: "key_ok ?ls (batch_key (?g c))" if "c \<in> set ?bs" for c
    proof (cases "bt_index c = i")
      case True
      then have "c = b" using d bm that by (auto simp: distinct_map dest: inj_onD)
      then show ?thesis using bspec [OF keys bm(1)] taken bm(2) by (simp add: batch_key_def)
    qed (use bspec [OF keys that] in simp)
    have same: "fst (batch_key (?g c)) = fst (batch_key c)" "fst (snd (batch_key (?g c))) = fst (snd (batch_key c))" for c
      by (simp_all add: batch_key_def)
    have idx: "map fst (map (batch_key \<circ> ?g) ?bs) = map fst (map batch_key ?bs)"
      "map (\<lambda>k. fst (snd k)) (map (batch_key \<circ> ?g) ?bs) = map (\<lambda>k. fst (snd k)) (map batch_key ?bs)"
      by (simp_all add: same del: if_split)
    have view: "view33 (on_batch (st\<lparr>x_sets_done := x_sets_done st + total_count b\<rparr>) i ?f) =
        (view33 st)\<lparr>hv_batches := map (batch_key \<circ> ?g) ?bs, hv_sets := x_sets_done st + total_count b\<rparr>"
      by (simp add: view33_def on_batch_def named_fills_def replace_batch33_map [OF d])
    have "\<forall>k \<in> set (map (batch_key \<circ> ?g) ?bs). key_ok ?ls k" using ok by auto
    moreover have "sum_list (map key_lots (filter key_done (map (batch_key \<circ> ?g) ?bs))) =
        sum_list (map key_lots (filter key_done (map batch_key ?bs))) + total_count b"
      using done_lots_complete [OF bm(1) d fresh, of ?f] by (simp add: done_lots_def bm(2) del: if_split)
    ultimately have "hedge_gap [] (view33 (on_batch (st\<lparr>x_sets_done := x_sets_done st + total_count b\<rparr>) i ?f))"
      using g unfolding view hedge_gap_def idx hedge_view.simps
      by (simp only: view33_def hedge_view.simps simp_thms idx) blast
    then show ?thesis using h by (simp add: hedge33_def hv_fills_view on_batch_def)
  qed
  then show ?thesis
    using h pt by (auto simp: maybe_close_set33_def Some Let_def hedge33_sync)
qed

section \<open>Bookings\<close>

text \<open>Steps that touch neither the view nor the triggers.\<close>

definition hedge_same :: "v33_state \<Rightarrow> v33_state \<Rightarrow> bool" where
  "hedge_same st st' \<longleftrightarrow> view33 st' = view33 st \<and> x_print_through st' = x_print_through st"

lemma hedge33_same: "hedge33 st \<Longrightarrow> hedge_same st st' \<Longrightarrow> hedge33 st'"
  by (simp add: hedge33_def hedge_same_def)

lemma hedge_same_upd:
  "hedge_same st (clear_cancel_pending st oid)" "hedge_same st (note_seen st c src d)"
  "hedge_same st (fst (skip_echo33 st oid d))" "hedge_same st (fst (orphan_delta st c src d))"
  "hedge_same st (drop_roll st c)" "hedge_same st (amend_move params st rp p now)"
  "hedge_same st (resolve_outstanding st e named)" "hedge_same st (apply_ack33 st a)"
  "hedge_same st (pt_latch_if_done params st)" "hedge_same st (st\<lparr>x_ladder := l\<rparr>)"
  "hedge_same st (st\<lparr>x_amend_cross_pending := m\<rparr>)"
  "hedge_same st (st\<lparr>x_bucket_unknown := True, x_stood_down := True, x_rest_allotment_done := True\<rparr>)"
  by (simp_all add: hedge_same_def view33_def named_fills_def clear_cancel_pending_def note_seen_def
      skip_echo33_def orphan_delta_def drop_roll_def amend_move_def resolve_outstanding_def
      apply_ack33_def pt_latch_if_done_def Let_def split: option.split)

lemma hedge33_attach:
  assumes "x_print_through st = []" "hedge_gap [rf] (view33 st)"
    and "list_all (\<lambda>f. whole_cent (rg_count f)) (hv_fills (view33 st))"
  shows "hedge33 (attach_fill params st coid rf now)"
  using gap_add [OF assms(2)] assms(1,3)
  by (simp add: attach_fill_def pt_trigger_index_def hedge33_def coalesce_add_def coalesce_flush_def
      hv_fills_view Let_def split: option.split)

lemma hedge33_book:
  assumes h: "hedge33 st"
  shows "hedge33 (fst (book_rung_fill params st coid p d k E now b tk orph oid))"
proof -
  let ?sd = "fill_bucket st (order_by_coid st coid) b tk"
  define rf where "rf = rung_fill_of params st coid p (q_count d) k E now ?sd orph oid"
  let ?st = "record_fill params st coid rf (q_count d)"
  have rf: "rg_bucket_Sd rf = ?sd" by (simp add: rf_def rung_fill_of_def)
  have v: "view33 ?st = (view33 st)\<lparr>hv_fills := named_fills st @ (if ?sd = None then [] else [rf])\<rparr>"
    and pt: "x_print_through ?st = x_print_through st"
    by (simp_all add: record_fill_def Let_def view33_def named_fills_def rf)
  have p0: "x_print_through st = []" using h by (simp add: hedge33_def)
  have un: "hedge33 (fst (book_unnamed ?st))" if "?sd = None"
  proof -
    have "view33 ?st = view33 st" using v that by (simp add: view33_def)
    then have "hedge33 ?st" using h pt by (simp add: hedge33_def)
    from hedge33_same [OF this hedge_same_upd(12)]
    show ?thesis
      by (simp add: book_unnamed_def Let_def case_prod_beta hedge33_sync hedge33_rest [OF _ ro_standdown]
          hedge33_rest [OF _ ro_cancel_all])
  qed
  have "hedge33 (attach_fill params ?st coid rf now)" if "?sd \<noteq> None"
  proof (rule hedge33_attach)
    show "x_print_through ?st = []" by (simp add: pt p0)
    show "hedge_gap [rf] (view33 ?st)"
      using h that unfolding v by (simp add: hedge33_def hedge_gap_def view33_def)
    show "list_all (\<lambda>f. whole_cent (rg_count f)) (hv_fills (view33 ?st))"
      using h unfolding v by (simp add: hedge33_def view33_def rf_def rung_fill_of_def q_count_def)
  qed
  note named = hedge33_sync [OF hedge33_wing_step [OF hedge33_same [OF this hedge_same_upd(9)]]]
  have eq: "fst (book_rung_fill params st coid p d k E now b tk orph oid) =
      (if ?sd = None then fst (book_unnamed ?st)
       else sync_mirrors33 (fst (wing_step33 params
              (pt_latch_if_done params (attach_fill params ?st coid rf now)) now)))"
    by (simp add: book_rung_fill_def Let_def case_prod_beta rf_def)
  show ?thesis unfolding eq using un named by (simp only: split: if_split) blast
qed

lemma hedge33_book_orphan: "hedge33 st \<Longrightarrow> hedge33 (fst (book_orphan_fill params st c oid p d tk now b))"
  by (simp add: book_orphan_fill_def case_prod_beta hedge33_book)

lemma hedge33_amended: "hedge33 st \<Longrightarrow> hedge33 (fst (apply_amended33 params st e now))"
proof -
  have x: "hedge33 s \<Longrightarrow> hedge33 (fst (amend_cross params s rp e p now))" for s rp p
    by (simp add: amend_cross_def Let_def case_prod_beta hedge33_book
        hedge33_same [OF _ hedge_same_upd(11)] split: option.split)
  assume h: "hedge33 st"
  have d: "hedge33 (drop_roll st c)" for c by (rule hedge33_same [OF h hedge_same_upd(5)])
  have "hedge33 (fst (amend_cross params (amend_move params (drop_roll st c) rp p now) rp e p now))" for c rp p
    by (rule x [OF hedge33_same [OF d hedge_same_upd(6)]])
  with h d show ?thesis
    by (simp add: apply_amended33_def Let_def case_prod_beta hedge33_rest [OF _ ro_converge] split: option.split)
qed

lemma hedge33_confirmed: "hedge33 st \<Longrightarrow> pt_on_cancel_confirmed params st oid now = (st, [])"
  by (simp add: pt_on_cancel_confirmed_def hedge33_def split: option.split)

lemma hedge33_cancelled:
  assumes h: "hedge33 st0"
  shows "hedge33 (fst (apply_cancelled33 params st0 e now))"
proof -
  let ?st = "clear_cancel_pending st0 (vc_order_id e)"
  have st: "hedge33 ?st" by (rule hedge33_same [OF h hedge_same_upd(1)])
  have "hedge33 (fst (book_cancelled params s e named now))" if "hedge33 s" for s named
    using that
    by (simp add: book_cancelled_def Let_def hedge33_book hedge33_book_orphan split: option.split prod.split)
  note b = this [OF st]
  have f: "hedge33 (fst (roll_fallback params s rp now))" if "hedge33 s" for s rp
  proof -
    have "hedge33 ((drop_roll s c)\<lparr>x_ladder := l\<rparr>)" for c l
      by (rule hedge33_same [OF hedge33_same [OF that hedge_same_upd(5)] hedge_same_upd(10)])
    then show ?thesis
      by (simp add: roll_fallback_def Let_def hedge33_rest [OF _ ro_place_one] split: option.split)
  qed
  have d: "hedge33 (case named of None \<Rightarrow> s | Some r \<Rightarrow> s\<lparr>x_ladder := drop_order (x_ladder s) (ro_coid r)\<rparr>)"
    if "hedge33 s" for s named
    using hedge33_same [OF that hedge_same_upd(10)] that by (simp split: option.split)
  define named where "named = named_order ?st e"
  define s1 where "s1 = fst (book_cancelled params ?st e named now)"
  have s1: "hedge33 s1" unfolding s1_def by (rule b)
  show ?thesis
  proof (cases "rolling_order s1 e")
    case (Some rp)
    then have "fst (apply_cancelled33 params st0 e now) = fst (converge params (fst (roll_fallback params s1 rp now)) now)"
      unfolding apply_cancelled33_def Let_def case_prod_beta named_def [symmetric] s1_def [symmetric]
      by simp
    with f [OF s1] show ?thesis by (simp only: hedge33_rest [OF _ ro_converge])
  next
    case None
    let ?q = "resolve_outstanding (case named of None \<Rightarrow> s1
      | Some r \<Rightarrow> s1\<lparr>x_ladder := drop_order (x_ladder s1) (ro_coid r)\<rparr>) e named"
    have q: "hedge33 ?q" by (rule hedge33_same [OF d [OF s1] hedge_same_upd(7)])
    from None have "fst (apply_cancelled33 params st0 e now) =
        fst (converge params (fst (pt_on_cancel_confirmed params ?q (vc_order_id e) now)) now)"
      unfolding apply_cancelled33_def Let_def case_prod_beta named_def [symmetric] s1_def [symmetric]
      by simp
    with q show ?thesis by (simp only: hedge33_confirmed [OF q] fst_conv hedge33_rest [OF _ ro_converge])
  qed
qed

lemma fill_leg33_keys:
  "fill_leg33 e ls = Some (ls', bi) \<Longrightarrow> map leg_key33 ls' = map leg_key33 ls"
proof (induction ls arbitrary: ls')
  case (Cons l ls)
  then show ?case by (auto simp: leg_key33_def split: if_splits)
qed simp

lemma hedge33_fill:
  assumes h: "hedge33 st0"
  shows "hedge33 (fst (apply_fill33 params st0 e now))"
proof -
  let ?st = "clear_cancel_pending st0 (vf_order_id e)"
  have st: "hedge33 ?st" by (rule hedge33_same [OF h hedge_same_upd(1)])
  then have pt: "x_print_through ?st = []" by (simp add: hedge33_def)
  have "pt_apply_complete_fill params ?st e now = None"
    by (simp add: pt_apply_complete_fill_def pt)
  moreover have "hedge33 (fst (wing_fill params ?st e legs bi now))"
    if "fill_leg33 e (x_wing_legs ?st) = Some (legs, bi)" for legs bi
  proof -
    have "hedge33 (?st\<lparr>x_wing_legs := legs\<rparr>)" by (rule hedge33_legs [OF st fill_leg33_keys [OF that]])
    then show ?thesis
      by (simp add: wing_fill_def Let_def case_prod_beta pt_fail_closed_def pt hedge33_close hedge33_net)
  qed
  moreover have "hedge33 (fst (ladder_fill params ?st e r now))" for r
    using hedge33_same [OF hedge33_same [OF st hedge_same_upd(2)] hedge_same_upd(3)]
    by (simp add: ladder_fill_def Let_def case_prod_beta hedge33_book)
  moreover have "hedge33 (fst (apply_orphan_fill params ?st e now))"
    using hedge33_same [OF st hedge_same_upd(4)] st
    by (simp add: apply_orphan_fill_def Let_def case_prod_beta hedge33_book_orphan split: option.split)
  ultimately show ?thesis
    by (auto simp: apply_fill33_def Let_def split: option.split)
qed

section \<open>Every event\<close>

lemma hedge_same_ticks:
  "hedge_same st (fold_book33 params st b)" "hedge_same st (stamp_strike_feed st b)"
  "hedge_same st (shadow_complete33 params st now)" "hedge_same st (fst (shadow_on_trade33 params st t))"
  "hedge_same st (recompute_context33 params st now)"
  by (simp_all add: hedge_same_def view33_def named_fills_def fold_book33_def stamp_strike_feed_def
      shadow_complete33_def shadow_on_trade33_def recompute_context33_def Let_def case_prod_beta
      split: option.split market_class.split)

lemma hedge33_decide:
  assumes off: "\<not> q_print_through params" and h: "hedge33 st"
  shows "hedge33 (fst (decide_v33 params st e))"
proof -
  have tick: "hedge33 (fst (book_tick params s now))" if "hedge33 s" for s now
    using hedge33_wing_step [OF hedge33_same [OF hedge33_same [OF that hedge_same_ticks(5)] hedge_same_ticks(3)]]
    by (simp add: book_tick_def Let_def case_prod_beta pt_stall_step_def off hedge33_rest [OF _ ro_converge])
  have trade: "hedge33 (fst (trade_tick params st t now))" for t now
    using hedge33_wing_step [OF hedge33_same [OF hedge33_same [OF h hedge_same_ticks(4)] hedge_same_ticks(3)]]
    by (simp add: trade_tick_def Let_def case_prod_beta print_through_step_def pt_stall_step_def off)
  show ?thesis
    using tick trade h hedge33_same [OF hedge33_same [OF h hedge_same_ticks(1)] hedge_same_ticks(2)]
    by (cases e) (simp_all add: decide_v33_def Let_def hedge33_amended hedge33_cancelled hedge33_fill
        hedge33_same [OF h hedge_same_upd(8)])
qed

end
