(* ===== verification/V33_Checks.thy ===== *)
theory V33_Checks
  imports V33_Decide V33_Hedge
begin

text \<open>
  \<open>V33State.check_invariants\<close>, one definition per group of assertions, and which groups every
  reachable state passes: the order, roll and count checks always, the batch and trigger checks
  with print-through off. The price check and the exposure check can fail: the first after the
  fallback re-place of a failed amend (\<open>V33_Example\<close>), both on fills or amends the venue reports
  at other prices or sizes than were asked.
\<close>

section \<open>The checks\<close>

definition check_exposure :: "v33_params \<Rightarrow> v33_state \<Rightarrow> bool" where
  "check_exposure params st \<longleftrightarrow>
     int (length (x_ladder st)) \<le> q_rungs params \<and>
     filled_contracts st + resting_contracts st \<le> of_int (allotment params)"

definition check_prices :: "v33_params \<Rightarrow> v33_state \<Rightarrow> bool" where
  "check_prices params st \<longleftrightarrow>
     distinct (map ro_price (x_ladder st)) \<and>
     list_all (\<lambda>r. whole_cent (ro_price r) \<and> q_n_min params \<le> ro_price r) (x_ladder st)"

definition check_orders :: "v33_params \<Rightarrow> v33_state \<Rightarrow> bool" where
  "check_orders params st \<longleftrightarrow>
     list_all (\<lambda>r. 0 < ro_count r \<and> ro_count r \<le> of_int (max_weight params) \<and>
        (case x_n_top st of
           None \<Rightarrow> True
         | Some n \<Rightarrow> ru_rung r = rung_of n (ro_price r) \<and>
                     ru_E_rung r = q_E_min params + (n - ro_price r))) (x_ladder st)"

definition check_rolls :: "v33_params \<Rightarrow> v33_state \<Rightarrow> bool" where
  "check_rolls params st \<longleftrightarrow>
     int (length (x_rolls st)) \<le> q_max_amends params \<and>
     \<not> (x_rolls st \<noteq> [] \<and> x_awaiting_replace st) \<and>
     distinct (map rp_old_coid (x_rolls st)) \<and>
     list_all (\<lambda>rp. length (filter (\<lambda>r. ro_coid r = rp_old_coid rp) (x_ladder st)) \<le> 1) (x_rolls st)"

definition check_batches :: "v33_state \<Rightarrow> bool" where
  "check_batches st \<longleftrightarrow>
     list_all (\<lambda>b. bt_taken b \<and> \<not> (bt_print_through b \<and> bt_resolved b) \<longrightarrow>
        length (batch_legs33 st (bt_index b)) = 2 \<and>
        list_all (\<lambda>l. wl_count l = leg_count b) (batch_legs33 st (bt_index b))) (x_wing_batches st)"

definition check_triggers :: "v33_state \<Rightarrow> bool" where
  "check_triggers st \<longleftrightarrow>
     list_all (\<lambda>t. set (pt_filled_coids t) \<subseteq> set (pt_rung_coids t)) (x_print_through st) \<and>
     distinct (pt_covered_coids st)"

definition check_count :: "v33_state \<Rightarrow> bool" where
  "check_count st \<longleftrightarrow> x_rungs_filled st = length (x_rest_fills st)"

definition check_invariants33 :: "v33_params \<Rightarrow> v33_state \<Rightarrow> bool" where
  "check_invariants33 params st \<longleftrightarrow>
     check_exposure params st \<and> check_prices params st \<and> check_orders params st \<and>
     check_rolls params st \<and> check_batches st \<and> check_triggers st \<and> check_count st"

section \<open>Checks that always pass\<close>

lemma inv33_checks:
  assumes "inv33 params st"
  shows "check_orders params st" "check_rolls params st" "check_count st"
proof -
  note ok = inv33_rungs [OF assms]
  show "check_orders params st"
    using ok by (auto simp: check_orders_def rungs_ok_def sized_def labelled_def e_rung_def list_all_iff
        split: option.splits)
  have "length (filter (\<lambda>r. ro_coid r = c) rs) \<le> 1" if "distinct (map ro_coid rs)" for c and rs :: "rung_order list"
    using that
  proof (induction rs)
    case (Cons a rs)
    then have "filter (\<lambda>r. ro_coid r = c) rs = []" if "ro_coid a = c"
      using that Cons.prems by (auto simp: filter_empty_conv) (metis image_eqI)
    with Cons show ?case by simp
  qed simp
  then show "check_rolls params st"
    using ok by (auto simp: check_rolls_def rungs_ok_def ladder_coids_def list_all_iff)
  show "check_count st" using assms by (simp add: check_count_def inv33_def)
qed

lemma batch_legs_keys:
  "map snd (filter (\<lambda>l. fst l = i) (map leg_key33 (x_wing_legs st))) =
   map (\<lambda>l. (wl_side l, wl_count l)) (batch_legs33 st i)"
  by (simp add: batch_legs33_def leg_key33_def filter_map comp_def)

lemma hedge33_checks:
  assumes "hedge33 st"
  shows "check_batches st" "check_triggers st"
proof -
  let ?ls = "map leg_key33 (x_wing_legs st)"
  have keys: "key_ok ?ls (batch_key b)" if "b \<in> set (x_wing_batches st)" for b
    using assms that by (simp add: hedge33_def hedge_gap_def view33_def)
  have fills: "named_fills st = concat (map bt_fills (x_wing_batches st)) @ group_fills (x_coalesce_open st)"
    and whole: "\<forall>f \<in> set (named_fills st). whole_cent (rg_count f)"
    using assms by (simp_all add: hedge33_def hedge_gap_def view33_def comp_def batch_key_def list_all_iff)
  have "length (batch_legs33 st (bt_index b)) = 2 \<and>
      (\<forall>l \<in> set (batch_legs33 st (bt_index b)). wl_count l = leg_count b)"
    if b: "b \<in> set (x_wing_batches st)" "bt_taken b" for b
  proof -
    have "whole_cent (fills_total (bt_fills b))"
      unfolding fills_total_def by (rule whole_cent_sum_list) (use whole fills b(1) in auto)
    then have n: "q_count (fills_total (bt_fills b)) = leg_count b" and pt: "\<not> bt_print_through b"
      using keys [OF b(1)] by (simp_all add: q_count_def quantize_he_whole leg_count_def total_count_def batch_key_def)
    have "leg_pair (map (\<lambda>l. (wl_side l, wl_count l)) (batch_legs33 st (bt_index b))) (leg_count b)"
      using keys [OF b(1)] b(2) n by (simp add: batch_key_def batch_legs_keys del: filter_map map_map)
    then show ?thesis by (auto simp: leg_pair_def map_eq_Cons_conv)
  qed
  then show "check_batches st" by (auto simp: check_batches_def list_all_iff)
  show "check_triggers st" using assms by (simp add: check_triggers_def hedge33_def pt_covered_coids_def pt_active_def)
qed

interpretation v33_hedge: decision_core "decide_v33 params" "\<lambda>st. \<not> q_print_through params \<longrightarrow> hedge33 st"
  for params
  by unfold_locales (blast intro: hedge33_decide)

end
