(* ===== verification/V33_Live.thy ===== *)
theory V33_Live
  imports V33_Checks
begin

text \<open>
  Progress of the completion side: on one book tick past the coalesce window and before the
  settle cutoff, with the strike feed alive and at least one wing of every batch quotable, every
  named rung fill ends in a taken batch. The batches only ever move forward (\<open>batch_le\<close>) and the
  strike books they are priced on stay put (\<open>moves\<close>).
\<close>

definition wing_quotable :: "v33_params \<Rightarrow> v33_state \<Rightarrow> time \<Rightarrow> batch33 \<Rightarrow> bool" where
  "wing_quotable params st now b \<longleftrightarrow>
     (case batch_bucket params b of
        None \<Rightarrow> False
      | Some (sd, su) \<Rightarrow>
          wing_leg_ask st sd BUY_YES now params \<noteq> None \<or> wing_leg_ask st su BUY_NO now params \<noteq> None)"

definition group_due :: "v33_params \<Rightarrow> v33_state \<Rightarrow> time \<Rightarrow> bool" where
  "group_due params st now = (case x_coalesce_open st of None \<Rightarrow> True | Some g \<Rightarrow> coalesce_expired params g now)"

definition wings_ready :: "v33_params \<Rightarrow> v33_state \<Rightarrow> time \<Rightarrow> bool" where
  "wings_ready params st now \<longleftrightarrow>
     of_int (q_no_orders_after_s params) \<le> of_int (x_close_epoch st) - now \<and>
     strike_feed_alive params st now \<and> group_due params st now \<and>
     list_all (wing_quotable params st now) (x_wing_batches (coalesce_flush params st now))"

definition batch_le :: "batch33 \<Rightarrow> batch33 \<Rightarrow> bool" where
  "batch_le b b' \<longleftrightarrow>
     bt_index b' = bt_index b \<and> bt_fills b' = bt_fills b \<and> bt_bucket_Sd b' = bt_bucket_Sd b \<and>
     bt_print_through b' = bt_print_through b \<and> (bt_taken b \<longrightarrow> bt_taken b') \<and>
     (bt_completed b \<longrightarrow> bt_completed b')"

definition moves :: "v33_state \<Rightarrow> v33_state \<Rightarrow> bool" where
  "moves st st' \<longleftrightarrow>
     x_strike_tops st' = x_strike_tops st \<and> x_strike_ts st' = x_strike_ts st \<and>
     x_strike_feed_ts st' = x_strike_feed_ts st \<and> x_coalesce_open st' = x_coalesce_open st \<and>
     list_all2 batch_le (x_wing_batches st) (x_wing_batches st')"

lemma batch_le_refl [simp]: "batch_le b b"
  by (simp add: batch_le_def)

lemma batch_le_trans: "batch_le a b \<Longrightarrow> batch_le b c \<Longrightarrow> batch_le a c"
  by (simp add: batch_le_def)

lemma moves_refl [simp]: "moves st st"
  by (simp add: moves_def list_all2_refl)

lemma moves_trans: "moves a b \<Longrightarrow> moves b c \<Longrightarrow> moves a c"
  using list_all2_trans [OF batch_le_trans] by (auto simp: moves_def)

lemma replace_batch33_le:
  "(\<And>b. batch_le b (f b)) \<Longrightarrow> list_all2 batch_le bs (replace_batch33 bs i f)"
  by (induction bs) (simp_all add: list_all2_refl)

lemma moves_on_batch: "(\<And>b. batch_le b (f b)) \<Longrightarrow> moves st s \<Longrightarrow> moves st (on_batch s i f)"
  by (rule moves_trans [of st s]) (simp_all add: moves_def on_batch_def replace_batch33_le)

lemma moves_upd:
  "moves st (s\<lparr>x_wing_legs := l\<rparr>) = moves st s" "moves st (s\<lparr>x_coid_seq := k\<rparr>) = moves st s"
  by (simp_all add: moves_def)

lemma moves_take: "moves st (fst (take_batch33 params st b sd su ya na))"
  by (simp add: take_batch33_def Let_def mint_coid33_eq moves_upd batch_le_def moves_on_batch)

lemma moves_take_partial: "moves st (fst (take_batch_partial params st b bucket now))"
  by (simp add: take_batch_partial_def Let_def mint_coid33_eq moves_upd batch_le_def moves_on_batch
      split: option.split)

lemma moves_retry: "moves st (fst (retry_batch33 params st b ya na now))"
proof -
  obtain s l a where r: "retry_legs33 params (bt_index b) ya na now st (x_wing_legs st) = (s, l, a)"
    by (cases "retry_legs33 params (bt_index b) ya na now st (x_wing_legs st)")
  from retry_legs33_state [OF r] have "moves st s" by (auto simp: moves_upd)
  then show ?thesis by (simp add: retry_batch33_def r moves_upd batch_le_def moves_on_batch)
qed

lemma moves_step_batch: "moves st (fst (step_batch33 params now st i))"
  by (simp add: step_batch33_def moves_take moves_take_partial moves_retry case_prod_beta split: option.split)

lemma find_on_batch:
  "find_batch st i = Some b \<Longrightarrow> bt_index (f b) = i \<Longrightarrow> find_batch (on_batch st i f) i = Some (f b)"
proof -
  have "find (\<lambda>b. bt_index b = i) bs = Some b \<Longrightarrow> bt_index (f b) = i \<Longrightarrow>
      find (\<lambda>b. bt_index b = i) (replace_batch33 bs i f) = Some (f b)" for bs
    by (induction bs) (auto split: if_splits)
  then show "find_batch st i = Some b \<Longrightarrow> bt_index (f b) = i \<Longrightarrow> find_batch (on_batch st i f) i = Some (f b)"
    by (simp add: find_batch_def on_batch_def)
qed

lemma find_moves:
  assumes "moves st st'" "find_batch st i = Some b"
  shows "\<exists>b'. find_batch st' i = Some b' \<and> batch_le b b'"
proof -
  have "list_all2 batch_le bs bs' \<Longrightarrow> find (\<lambda>b. bt_index b = i) bs = Some b \<Longrightarrow>
      \<exists>b'. find (\<lambda>b. bt_index b = i) bs' = Some b' \<and> batch_le b b'" for bs bs'
    by (induction rule: list_all2_induct) (auto simp: batch_le_def split: if_splits)
  from this [of "x_wing_batches st" "x_wing_batches st'"] assms show ?thesis
    by (simp add: find_batch_def moves_def)
qed

lemma quotable_moves:
  "moves st st' \<Longrightarrow> batch_le b b' \<Longrightarrow> wing_quotable params st' now b' = wing_quotable params st now b"
  by (simp add: wing_quotable_def batch_bucket_def wing_leg_ask_def moves_def batch_le_def
      split: option.split)

lemma feed_moves: "moves st st' \<Longrightarrow> strike_feed_alive params st' now = strike_feed_alive params st now"
  by (simp add: strike_feed_alive_def moves_def)

definition handled :: "v33_state \<Rightarrow> nat \<Rightarrow> bool" where
  "handled st i \<longleftrightarrow> (\<exists>b. find_batch st i = Some b \<and> (bt_taken b \<or> bt_completed b))"

lemma handled_moves: "moves st st' \<Longrightarrow> handled st i \<Longrightarrow> handled st' i"
  by (auto simp: handled_def batch_le_def dest!: find_moves)

lemma handled_step:
  assumes b: "find_batch st i = Some b" and "\<not> bt_print_through b"
    and q: "wing_quotable params st now b" "strike_feed_alive params st now"
  shows "handled (fst (step_batch33 params now st i)) i"
proof (cases "bt_taken b \<or> bt_completed b")
  case True
  with b have "handled st i" by (auto simp: handled_def)
  then show ?thesis by (rule handled_moves [OF moves_step_batch])
next
  case False
  have i: "bt_index b = i" using b find_batchD by blast
  obtain sd su where bk: "batch_bucket params b = Some (sd, su)"
    using q(1) by (auto simp: wing_quotable_def split: option.splits)
  have taken: "handled (on_batch s i (\<lambda>x. x\<lparr>bt_taken := True\<rparr>)) i" if "x_wing_batches s = x_wing_batches st" for s
    using find_on_batch [of s i b "\<lambda>x. x\<lparr>bt_taken := True\<rparr>"] b i that
    by (simp add: handled_def find_batch_def)
  have "handled (fst (take_batch33 params st b sd su ya na)) i" for ya na
    by (simp add: take_batch33_def Let_def mint_coid33_eq i taken)
  moreover have "handled (fst (take_batch_partial params st b (Some (sd, su)) now)) i"
    using q bk by (auto simp: take_batch_partial_def Let_def mint_coid33_eq i taken wing_quotable_def
        split: option.split)
  ultimately show ?thesis
    using False assms(2) by (auto simp: step_batch33_def b bk split: option.split)
qed

lemma moves_step_batches: "moves st (fst (step_batches33 params now st is))"
proof (induction "is" arbitrary: st)
  case (Cons k ks)
  from moves_trans [OF moves_step_batch Cons.IH] show ?case by (simp add: case_prod_beta Let_def)
qed simp

lemma handled_steps:
  assumes "\<And>j. j \<in> set is \<Longrightarrow> \<exists>b. find_batch st j = Some b \<and> \<not> bt_print_through b \<and> wing_quotable params st now b"
    and "strike_feed_alive params st now" "i \<in> set is"
  shows "handled (fst (step_batches33 params now st is)) i"
  using assms
proof (induction "is" arbitrary: st)
  case (Cons j "is")
  let ?s = "fst (step_batch33 params now st j)"
  have mv: "moves st ?s" by (rule moves_step_batch)
  have all: "\<exists>b. find_batch ?s k = Some b \<and> \<not> bt_print_through b \<and> wing_quotable params ?s now b"
    if "k \<in> set (j # is)" for k
  proof -
    from Cons.prems(1) [OF that] obtain b where
      b: "find_batch st k = Some b" "\<not> bt_print_through b" "wing_quotable params st now b" by blast
    from find_moves [OF mv b(1)] obtain b' where b': "find_batch ?s k = Some b'" "batch_le b b'" by blast
    with b(2,3) quotable_moves [OF mv b'(2), of params now] show ?thesis by (auto simp: batch_le_def)
  qed
  have feed: "strike_feed_alive params ?s now" using Cons.prems(2) feed_moves [OF mv] by simp
  note mvs = moves_step_batches [of ?s params now "is"]
  show ?case
  proof (cases "i = j")
    case True
    from Cons.prems(1) [of j] obtain b where
      "find_batch st j = Some b" "\<not> bt_print_through b" "wing_quotable params st now b" by auto
    from handled_step [OF this Cons.prems(2)] have "handled ?s i" by (simp add: True)
    with mvs show ?thesis by (simp add: case_prod_beta Let_def handled_moves)
  next
    case False
    with Cons.prems(3) have "i \<in> set is" by simp
    from Cons.IH [OF all feed this] show ?thesis by (simp add: case_prod_beta Let_def)
  qed
qed simp

section \<open>The tick\<close>

lemma find_batch_distinct:
  "distinct (map bt_index (x_wing_batches st)) \<Longrightarrow> b \<in> set (x_wing_batches st) \<Longrightarrow>
    find_batch st (bt_index b) = Some b"
proof -
  have "distinct (map bt_index bs) \<Longrightarrow> b \<in> set bs \<Longrightarrow> find (\<lambda>c. bt_index c = bt_index b) bs = Some b" for bs
    by (induction bs) (auto intro: rev_image_eqI)
  then show "distinct (map bt_index (x_wing_batches st)) \<Longrightarrow> b \<in> set (x_wing_batches st) \<Longrightarrow>
    find_batch st (bt_index b) = Some b" by (simp add: find_batch_def)
qed

lemma hedge33_batches:
  assumes "hedge33 st"
  shows "distinct (map bt_index (x_wing_batches st))"
    and "b \<in> set (x_wing_batches st) \<Longrightarrow> \<not> bt_print_through b \<and> (bt_completed b \<longrightarrow> bt_taken b)"
    and "concat (map bt_fills (x_wing_batches st)) @ group_fills (x_coalesce_open st) = named_fills st"
proof -
  have g: "hedge_gap [] (view33 st)" using assms by (simp add: hedge33_def)
  then show "distinct (map bt_index (x_wing_batches st))" by (rule hedge_indices)
  show "b \<in> set (x_wing_batches st) \<Longrightarrow> \<not> bt_print_through b \<and> (bt_completed b \<longrightarrow> bt_taken b)"
    using g by (auto simp: hedge_gap_def view33_def batch_key_def)
  show "concat (map bt_fills (x_wing_batches st)) @ group_fills (x_coalesce_open st) = named_fills st"
    using g by (simp add: hedge_gap_def view33_def comp_def batch_key_def)
qed

lemma flush_sel:
  "x_close_epoch (coalesce_flush params st now) = x_close_epoch st"
  "strike_feed_alive params (coalesce_flush params st now) t = strike_feed_alive params st t"
  "wing_quotable params (coalesce_flush params st now) t b = wing_quotable params st t b"
  by (simp_all add: coalesce_flush_def strike_feed_alive_def wing_quotable_def wing_leg_ask_def
      split: option.splits)

lemma flush_due: "group_due params st now \<Longrightarrow> x_coalesce_open (coalesce_flush params st now) = None"
  by (auto simp: coalesce_flush_def group_due_def split: option.splits)

lemma wing_step_takes:
  assumes h: "hedge33 st" and r: "wings_ready params st now"
  shows "list_all bt_taken (x_wing_batches (fst (wing_step33 params st now))) \<and>
    x_coalesce_open (fst (wing_step33 params st now)) = None"
proof -
  let ?f = "coalesce_flush params st now"
  let ?is = "map bt_index (x_wing_batches ?f)"
  let ?s = "fst (step_batches33 params now ?f ?is)"
  note hf = hedge33_batches [OF hedge33_flush [OF h, of params now]]
  have hs: "hedge33 ?s" by (rule hedge33_step_batches [OF hedge33_flush [OF h]])
  have mv: "moves ?f ?s" by (rule moves_step_batches)
  have q: "\<exists>b. find_batch ?f j = Some b \<and> \<not> bt_print_through b \<and> wing_quotable params ?f now b"
    if "j \<in> set ?is" for j
    using that r hf(2) find_batch_distinct [OF hf(1)]
    by (fastforce simp: wings_ready_def list_all_iff flush_sel)
  have feed: "strike_feed_alive params ?f now" using r by (simp add: wings_ready_def flush_sel)
  have same: "map bt_index (x_wing_batches ?s) = ?is"
  proof -
    have "list_all2 batch_le bs bs' \<Longrightarrow> map bt_index bs' = map bt_index bs" for bs bs'
      by (induction rule: list_all2_induct) (simp_all add: batch_le_def)
    with mv show ?thesis by (simp add: moves_def)
  qed
  have "bt_taken b" if b: "b \<in> set (x_wing_batches ?s)" for b
  proof -
    from b same have "bt_index b \<in> set ?is" by (metis image_eqI list.set_map)
    from handled_steps [OF q feed this] find_batch_distinct [OF hedge33_batches(1) [OF hs] b]
    show ?thesis using hedge33_batches(2) [OF hs b] by (auto simp: handled_def)
  qed
  moreover have "x_coalesce_open ?s = None"
    using mv r by (simp add: moves_def wings_ready_def flush_due)
  moreover have "\<not> of_int (x_close_epoch ?f) - now < of_int (q_no_orders_after_s params)"
    using r by (simp add: wings_ready_def flush_sel)
  moreover have "x_coalesce_open ?f = None" using r by (simp add: wings_ready_def flush_due)
  ultimately show ?thesis
    by (auto simp: wing_step33_def Let_def case_prod_beta sync_mirrors33_def list_all_iff)
qed

lemma ready_same:
  assumes "x_close_epoch s = x_close_epoch st" "x_strike_feed_ts s = x_strike_feed_ts st"
    and g: "x_coalesce_open s = x_coalesce_open st" "x_wing_batches s = x_wing_batches st"
    and b: "x_strike_tops s = x_strike_tops st" "x_strike_ts s = x_strike_ts st"
  shows "wings_ready params s now = wings_ready params st now"
proof -
  have "x_wing_batches (coalesce_flush params s now) = x_wing_batches (coalesce_flush params st now)"
    using g by (simp add: coalesce_flush_def split: option.split)
  moreover have ask: "wing_leg_ask s = wing_leg_ask st" unfolding fun_eq_iff wing_leg_ask_def b by (intro allI refl)
  have "wing_quotable params s now = wing_quotable params st now"
    unfolding fun_eq_iff wing_quotable_def ask by (intro allI refl)
  ultimately show ?thesis using assms(1,2) g(1) by (simp add: wings_ready_def strike_feed_alive_def group_due_def)
qed

lemma book_tick_takes:
  assumes h: "hedge33 st" and off: "\<not> q_print_through params" and r: "wings_ready params st now"
  shows "list_all bt_taken (x_wing_batches (fst (book_tick params st now))) \<and>
    concat (map bt_fills (x_wing_batches (fst (book_tick params st now)))) =
      named_fills (fst (book_tick params st now))"
proof -
  let ?s = "shadow_complete33 params (recompute_context33 params st now) now"
  let ?w = "fst (wing_step33 params ?s now)"
  have hs: "hedge33 ?s" by (rule hedge33_same [OF hedge33_same [OF h hedge_same_ticks(5)] hedge_same_ticks(3)])
  have rs: "wings_ready params ?s now"
    using r ready_same [of ?s st params now]
    by (simp add: shadow_complete33_def recompute_context33_def Let_def case_prod_beta)
  have t: "fst (book_tick params st now) = fst (converge params ?w now)"
    by (simp add: book_tick_def Let_def case_prod_beta pt_stall_step_def off)
  have "rest_only ?w (fst (converge params ?w now))" by (rule ro_converge)
  then have "x_wing_batches (fst (book_tick params st now)) = x_wing_batches ?w"
    "named_fills (fst (book_tick params st now)) = named_fills ?w"
    by (simp_all add: t rest_only_def named_fills_def)
  with wing_step_takes [OF hs rs] hedge33_batches(3) [OF hedge33_wing_step [OF hs], of params now]
  show ?thesis by (simp add: group_fills_def)
qed

end
