(* ===== verification/V33_Example.thy ===== *)
theory V33_Example
  imports V33_Live V32_Example
begin

text \<open>
  A worked hour of the ladder: a two-rung policy on the books of \<open>V32_Example\<close>, its first quote,
  and two behaviours of the code a reader would not expect. The fallback re-place of a failed
  amend can put a second order on a price another rung already holds (\<open>fallback_two_on_one_price\<close>),
  and a coalescing group can hold fills of two buckets (\<open>coalesce_two_buckets\<close>).
\<close>

section \<open>The policy and the hour\<close>

definition ex_params :: v33_params where
  "ex_params =
     (ladder_params [] (5/100) 2 1 [1, 1] 4 30 [])
       \<lparr>q_tol := 1/100, q_deb_ms := 1000, q_quote_start_s := 900, q_quote_end_s := 300,
        q_wing_margin := 3/100, q_lock_floor := 1/100, q_no_orders_after_s := 1,
        q_freshness_max_age_s := 1, q_bucket_freshness_max_age_s := 30,
        q_max_amends := 3, q_max_sets_per_hour := 4, q_n_min := 20/100,
        q_replace_rate_alarm := 30, q_bucket_width := 100, q_switch_max_pending_ms := 1000\<rparr>"

lemma ex_params_sel: "q_E_min ex_params = 5/100" "q_rungs ex_params = 2" "q_rung_lots ex_params = [1, 1]"
  "q_tol ex_params = 1/100" "q_deb_ms ex_params = 1000" "q_quote_start_s ex_params = 900"
  "q_quote_end_s ex_params = 300" "q_n_min ex_params = 20/100" "q_max_amends ex_params = 3"
  "q_max_sets_per_hour ex_params = 4" "q_replace_rate_alarm ex_params = 30" "q_bucket_width ex_params = 100"
  "q_bucket_freshness_max_age_s ex_params = 30" "q_wing_book_max_age_s ex_params = 30"
  "q_strike_feed_dead_s ex_params = 4" "q_shadow_Es ex_params = []" "q_print_through ex_params = False"
  "q_wing_coalesce_ms ex_params = 0" "q_switch_deb_ms ex_params = 0"
  by (simp_all add: ex_params_def ladder_params_def)

lemma ex_emin: "emin_cents ex_params = 5"
  by (simp add: emin_cents_def ex_params_sel cent_def round_half_even_def)

definition ex_hour :: v33_state where
  "ex_hour = (new_v33_state ''T'' 10000 [] ex_params False [] ''v33-'')
     \<lparr>x_strike_tops := [(100, wit_top (58/100) (60/100)), (200, wit_top (40/100) (42/100))],
      x_strike_ts := [(100, 9400), (200, 9400)],
      x_strike_tickers := [(100, ''S1''), (200, ''S2'')],
      x_bucket_tops := [(100, wit_top (40/100) (44/100))],
      x_bucket_ts := [(100, 9399)], x_bucket_tickers := [(100, ''B1'')],
      x_strike_feed_ts := Some 9400\<rparr>"

lemma ex_hour_inv: "inv33 ex_params ex_hour"
proof (rule inv33_settles [OF inv33_new])
  show "settles (new_v33_state ''T'' 10000 [] ex_params False [] ''v33-'') ex_hour"
    by (simp add: settles_def later_def same_quote_def grows_def ex_hour_def)
qed (simp add: ex_params_sel)

lemma ex_margins: "initial_margins ex_params = [0, 0, 0, 0, 0, 1, 1]"
  by (simp add: initial_margins_def ex_emin ex_params_sel weight_of_rung_def upt_rec numeral_nat Let_def)

lemma ex_hour_sel: "x_close_epoch ex_hour = 10000" "x_close_time ex_hour = ''T''" "x_bucket_map ex_hour = []"
  "x_shakedown ex_hour = False" "x_rest_bucket_Sd ex_hour = None" "x_shadows ex_hour = []"
  "x_wing_batches ex_hour = []" "x_print_through ex_hour = []" "x_ladder ex_hour = []" "x_rolls ex_hour = []"
  "x_coalesce_open ex_hour = None" "x_wing_legs ex_hour = []" "x_rest_allotment_done ex_hour = False"
  "x_stood_down ex_hour = False" "x_replace_times ex_hour = []" "x_hold_since ex_hour = None"
  "x_last_standdown_reason ex_hour = None" "x_awaiting_replace ex_hour = False" "x_rungs_filled ex_hour = 0"
  "x_rest_fills ex_hour = []" "x_margin_state ex_hour = [0, 0, 0, 0, 0, 1, 1]" "x_cancel_pending_px ex_hour = []"
  "x_coid_seq ex_hour = 0" "x_coid_prefix ex_hour = ''v33-''" "x_bucket_tickers ex_hour = [(100, ''B1'')]"
  "x_strike_feed_ts ex_hour = Some 9400" "x_bucket_ts ex_hour = [(100, 9399)]"
  by (simp_all add: ex_hour_def new_v33_state_def ex_margins ex_params_sel)

section \<open>The first quote\<close>

lemma ex_select: "select_spot (law_view ex_params ex_hour) = Some 100"
  by (simp add: select_spot_def law_view_def ex_hour_def new_v33_state_def dict_keys_def wit_top_def valid_two_sided_def)

lemma ex_W: "compute_W33 ex_hour 100 200 9400 ex_params = Some (12336/10000)"
  by (simp add: compute_W33_def strike_feed_alive_def compute_W_def law_view_def ex_hour_def new_v33_state_def
      wit_top_def fresh_def ex_params_sel wing_law_view_def law_params_def wing_cost_def wit_fee)

lemma ex_cap: "bucket_cap (law_view ex_params ex_hour) 100 = Some (59/100)"
  by (simp add: bucket_cap_def law_view_def ex_hour_def new_v33_state_def wit_top_def valid_two_sided_def
      cent_def quantize_he_def round_half_even_def)

definition ex_quoting :: v33_state where
  "ex_quoting = ex_hour\<lparr>x_spot_Sd := Some 100, x_spot_Su := Some 200, x_W := Some (12336/10000),
     x_cap := Some (59/100), x_n_top := Some (59/100), x_spot_bucket_stale := False,
     x_wing_sub_cause := None, x_pending_switch_Sd := None, x_pending_switch_since := None,
     x_pending_switch_hyst_met := False\<rparr>"

lemma ex_recompute: "recompute_context33 ex_params ex_hour 9400 = ex_quoting"
proof -
  have "resolve_effective_bucket ex_params ex_hour (Some 100) 9400 = (Some 100, None, None, False)"
    by (simp add: resolve_effective_bucket_def ex_hour_sel)
  with ex_W wit_solve show ?thesis
    by (simp add: recompute_context33_def ex_select ex_cap ex_params_sel fresh_def ex_hour_sel refresh_labels_def ex_quoting_def Let_def)
qed

lemma ex_quoting_sel: "x_spot_Sd ex_quoting = Some 100" "x_W ex_quoting = Some (12336/10000)"
  "x_cap ex_quoting = Some (59/100)" "x_n_top ex_quoting = Some (59/100)" "x_spot_bucket_stale ex_quoting = False"
  "x_close_epoch ex_quoting = 10000" "x_close_time ex_quoting = ''T''" "x_shakedown ex_quoting = False"
  "x_rest_bucket_Sd ex_quoting = None" "x_wing_batches ex_quoting = []" "x_ladder ex_quoting = []"
  "x_rolls ex_quoting = []" "x_coalesce_open ex_quoting = None" "x_rest_allotment_done ex_quoting = False"
  "x_stood_down ex_quoting = False" "x_replace_times ex_quoting = []" "x_hold_since ex_quoting = None"
  "x_last_standdown_reason ex_quoting = None" "x_awaiting_replace ex_quoting = False"
  "x_rungs_filled ex_quoting = 0" "x_rest_fills ex_quoting = []"
  "x_margin_state ex_quoting = [0, 0, 0, 0, 0, 1, 1]" "x_cancel_pending_px ex_quoting = []"
  "x_coid_seq ex_quoting = 0" "x_coid_prefix ex_quoting = ''v33-''" "x_bucket_tickers ex_quoting = [(100, ''B1'')]"
  "x_shadows ex_quoting = []" "x_one_legged ex_quoting = False" "x_pt_one_legged ex_quoting = False"
  by (simp_all add: ex_quoting_def ex_hour_sel) (simp_all add: ex_hour_def new_v33_state_def)

lemma ex_quiet_wings:
  "shadow_complete33 ex_params ex_quoting 9400 = ex_quoting"
  "wing_step33 ex_params ex_quoting 9400 = (ex_quoting, [])"
  by (simp_all add: shadow_complete33_def shadow_complete_def law_view_def ex_quoting_sel wing_step33_def
      coalesce_flush_def sync_mirrors33_def split: option.split)

lemma ex_slots: "placeable_open_slots ex_params ex_quoting (59/100) = [(5, 59/100), (6, 58/100)]"
  by (simp add: placeable_open_slots_def open_slots_def ex_quoting_sel placeable_def price_of_margin_def
      ex_emin ex_params_sel cent_def upt_rec numeral_nat)

lemma ex_weights: "weight_of_margin ex_params 5 = 1" "weight_of_margin ex_params 6 = 1" "allotment ex_params = 2"
  by (simp_all add: weight_of_margin_def weight_of_rung_def ex_emin ex_params_sel allotment_def)

lemma ex_healthy: "quote_gate33_of ex_params ex_quoting 9400 = Healthy33 (59/100)"
  by (simp add: quote_gate33_of_def ex_quoting_sel ex_params_sel)

lemma ex_place_all: "converge ex_params ex_quoting 9400 = place_all ex_params ex_quoting (59/100) 9400"
  by (simp add: converge_def ex_healthy healthy_step_def clear_standdown_def ex_quoting_sel recent33_def
      ex_params_sel case_prod_beta)

lemma ex_tick: "decide_v33 ex_params ex_hour (Clock33 9400) = place_all ex_params ex_quoting (59/100) 9400"
  by (simp add: decide_v33_def book_tick_def ex_recompute ex_quiet_wings
      pt_stall_step_def ex_params_sel ex_place_all case_prod_beta Let_def)

text \<open>One lot at the solved anchor 0.59 and one a cent deeper.\<close>

lemma ex_hour_quotes:
  "map (\<lambda>a. (y_kind a, y_ticker a, y_price a, y_count a, y_coid a))
     (snd (decide_v33 ex_params ex_hour (Clock33 9400))) =
   [(Inherited PLACE_REST, Some ''B1'', Some (59/100), 1, Some (coid_of33 ''v33-'' ''T'' 1)),
    (Inherited PLACE_REST, Some ''B1'', Some (58/100), 1, Some (coid_of33 ''v33-'' ''T'' 2))]"
  by (simp add: ex_tick place_all_def ex_slots ex_weights filled_contracts_def resting_contracts_def
      held_cancel_prices_def ex_quoting_sel ex_params_sel ex_emin place_one_def mint_coid33_def q_count_def
      quantize_he_def round_half_even_def place_action33_def mk33_def twin_kind33_def blank_action33_def
      ticker_at_def dict_get_default_def cent_def Let_def
      eval_nat_numeral)

section \<open>Two orders on one price\<close>

text \<open>
  The two rungs rested at 0.61 and 0.60 and rolled toward 0.59 and 0.58; the second amend is
  confirmed, the cap falls to 0.58, and the venue then reports the first amend as a cancel.
\<close>

definition ex_rung :: "string \<Rightarrow> nat \<Rightarrow> money \<Rightarrow> rung_order" where
  "ex_rung oid k price =
     \<lparr>ro_coid = coid_of33 ''v33-'' ''T'' k, ro_order_id = Some oid, ro_price = price, ro_count = 1,
      ro_placed_ts = 9390, ro_live = True, ro_pending = False, ro_bucket_Sd = Some 100,
      ru_rung = rung_of (58/100) price, ru_E_rung = e_rung ex_params (58/100) price\<rparr>"

definition ex_rolling :: v33_state where
  "ex_rolling = ex_quoting\<lparr>x_W := Some (123/100), x_cap := Some (58/100), x_n_top := Some (58/100), x_coid_seq := 4,
     x_ladder := [ex_rung ''o1'' 1 (61/100), ex_rung ''o2'' 3 (58/100)],
     x_rolls := [\<lparr>rp_order_id = Some ''o1'', rp_old_coid = coid_of33 ''v33-'' ''T'' 1,
                  rp_new_coid = coid_of33 ''v33-'' ''T'' 4, rp_target_price = 59/100,
                  rp_target_margin = 5, rp_started_ts = 9399\<rparr>],
     x_rest_bucket_Sd := Some 100\<rparr>"

definition ex_failed_amend :: v33_cancelled where
  "ex_failed_amend = \<lparr>vc_order_id = Some ''o1'', vc_server_ts = 9400, vc_filled_before = 0, vc_coid = None,
     vc_price = None, vc_market = None\<rparr>"

lemma ex_rolling_sel: "x_n_top ex_rolling = Some (58/100)" "x_cap ex_rolling = Some (58/100)"
  "x_W ex_rolling = Some (123/100)" "x_coid_seq ex_rolling = 4"
  "x_ladder ex_rolling = [ex_rung ''o1'' 1 (61/100), ex_rung ''o2'' 3 (58/100)]"
  "x_rolls ex_rolling = [\<lparr>rp_order_id = Some ''o1'', rp_old_coid = coid_of33 ''v33-'' ''T'' 1,
     rp_new_coid = coid_of33 ''v33-'' ''T'' 4, rp_target_price = 59/100, rp_target_margin = 5, rp_started_ts = 9399\<rparr>]"
  "x_rest_bucket_Sd ex_rolling = Some 100" "x_spot_Sd ex_rolling = Some 100"
  "x_spot_bucket_stale ex_rolling = False"
  "x_close_epoch ex_rolling = 10000" "x_close_time ex_rolling = ''T''"
  "x_rest_allotment_done ex_rolling = False" "x_stood_down ex_rolling = False" "x_replace_times ex_rolling = []"
  "x_hold_since ex_rolling = None" "x_last_standdown_reason ex_rolling = None"
  "x_awaiting_replace ex_rolling = False" "x_rungs_filled ex_rolling = 0" "x_rest_fills ex_rolling = []"
  "x_margin_state ex_rolling = [0, 0, 0, 0, 0, 1, 1]" "x_cancel_pending_px ex_rolling = []"
  "x_coid_prefix ex_rolling = ''v33-''"
  by (simp_all add: ex_rolling_def ex_quoting_sel)

lemma ex_rolling_inv: "inv33 ex_params ex_rolling"
proof -
  have w: "whole_cent 1" "whole_cent (58/100)" "whole_cent (59/100)" by (simp_all add: whole_cent_def)
  have f: "fee (58/100) = 171/10000" by (simp add: fee_def fee_rate_def ceiling_eq_iff)
  have "margins_ok ex_params (x_margin_state ex_rolling)"
    using margins_ok_initial [of ex_params] by (simp add: ex_rolling_sel ex_margins)
  moreover have "quote_ok ex_params ex_rolling"
    unfolding quote_ok_def
  proof (intro allI impI conjI)
    fix n assume "x_n_top ex_rolling = Some n"
    then have n: "n = 58/100" by (simp add: ex_rolling_sel)
    show "whole_cent n" unfolding n by (rule w(2))
    show "cent \<le> n" by (simp add: n cent_def)
    show "\<exists>u c. x_W ex_rolling = Some u \<and> x_cap ex_rolling = Some c \<and> whole_cent c \<and> c < 1 \<and> n \<le> c \<and>
        n + fee n \<le> 2 - q_E_min ex_params - u"
      using w(2) f by (intro exI [of _ "123/100"] exI [of _ "58/100"]) (simp add: n ex_rolling_sel ex_params_sel)
  qed
  moreover have "rungs_ok ex_params ex_rolling"
    using w by (simp add: rungs_ok_def ex_rolling_sel ladder_coids_def coid_of33_inj
        coid_minted_def ex_rung_def sized_def labelled_def max_weight_def ex_params_sel)
  ultimately show ?thesis by (simp add: inv33_def ex_rolling_sel)
qed

definition ex_fallback :: v33_state where
  "ex_fallback = fst (roll_fallback ex_params ex_rolling (hd (x_rolls ex_rolling)) 9400)"

lemma ex_fallback_ladder:
  "map ro_price (x_ladder ex_fallback) = [58/100, 58/100]" "list_ex ro_pending (x_ladder ex_fallback)"
  "x_rolls ex_fallback = []" "x_n_top ex_fallback = Some (58/100)" "x_W ex_fallback = Some (123/100)"
  "x_cap ex_fallback = Some (58/100)" "x_spot_Sd ex_fallback = Some 100" "x_rest_bucket_Sd ex_fallback = Some 100"
  "x_rest_allotment_done ex_fallback = False" "x_stood_down ex_fallback = False" "x_replace_times ex_fallback = []"
  "x_hold_since ex_fallback = None" "x_last_standdown_reason ex_fallback = None"
  "x_awaiting_replace ex_fallback = False" "x_close_epoch ex_fallback = 10000"
  "x_spot_bucket_stale ex_fallback = False"
  by (simp_all add: ex_fallback_def roll_fallback_def drop_roll_def fallback_target_def ex_rolling_sel
      order_by_coid_def drop_order_def ex_rung_def coid_of33_inj py_trunc_def in_window33_def ex_params_sel
      filled_contracts_def resting_contracts_def ex_weights place_one_def mint_coid33_def Let_def)

lemma ex_fallback_converge: "fst (converge ex_params ex_fallback 9400) = ex_fallback"
proof -
  have "x_ladder ex_fallback \<noteq> []" using ex_fallback_ladder(1) by auto
  then show ?thesis
    by (simp add: converge_def quote_gate33_of_def healthy_step_def clear_standdown_def ex_fallback_ladder
      recent33_def ex_params_sel)
qed

lemma fallback_two_on_one_price:
  "check_prices ex_params ex_rolling"
  "map ro_price (x_ladder (fst (decide_v33 ex_params ex_rolling (Cancelled33 ex_failed_amend)))) = [58/100, 58/100]"
  "\<not> check_prices ex_params (fst (decide_v33 ex_params ex_rolling (Cancelled33 ex_failed_amend)))"
proof -
  show "check_prices ex_params ex_rolling"
    by (simp add: check_prices_def ex_rolling_sel ex_rung_def whole_cent_def cent_def ex_params_sel)
  have clear: "clear_cancel_pending ex_rolling (Some ''o1'') = ex_rolling"
    by (simp add: clear_cancel_pending_def ex_rolling_sel)
  have "fst (decide_v33 ex_params ex_rolling (Cancelled33 ex_failed_amend)) = ex_fallback"
    using ex_fallback_converge
    by (simp add: decide_v33_def apply_cancelled33_def ex_failed_amend_def clear named_order_def
        book_cancelled_def q_count_def quantize_he_def round_half_even_def rolling_order_def ex_rolling_sel
        ex_fallback_def case_prod_beta Let_def)
  then show ladder: "map ro_price (x_ladder (fst (decide_v33 ex_params ex_rolling (Cancelled33 ex_failed_amend)))) = [58/100, 58/100]"
    by (simp add: ex_fallback_ladder)
  then show "\<not> check_prices ex_params (fst (decide_v33 ex_params ex_rolling (Cancelled33 ex_failed_amend)))"
    by (simp add: check_prices_def)
qed

section \<open>One group, two buckets\<close>

definition ex_fill :: "int \<Rightarrow> money \<Rightarrow> rung_fill" where
  "ex_fill Sd price =
     \<lparr>rg_rung = 0, rg_E_rung = 5/100, rg_price = price, rg_count = 1, rg_server_ts = 9400, rg_coid = None,
      rg_order_id = None, rg_W = None, rg_n_top = None, rg_bucket_ticker = None, rg_bucket_Sd = Some Sd,
      rg_bucket_Su = Some (Sd + 100), rg_taker = False, rg_weight = None, rg_orphan = False\<rparr>"

lemma coalesce_two_buckets:
  "map rg_bucket_Sd (group_fills (x_coalesce_open
     (coalesce_add ex_params (coalesce_add ex_params ex_hour (ex_fill 100 (59/100)) 9400) (ex_fill 200 (58/100)) 9400))) =
   [Some 100, Some 200]"
  by (simp add: coalesce_add_def coalesce_flush_def coalesce_expired_def ex_hour_sel ex_params_sel
      group_fills_def ex_fill_def Let_def)

section \<open>A fill waiting for its wings\<close>

definition ex_waiting :: v33_state where
  "ex_waiting = ex_hour\<lparr>x_rest_fills := [ex_fill 100 (59/100)], x_rungs_filled := 1, x_next_batch_index := 1,
     x_coalesce_open := Some \<lparr>cg_index = 0, cg_first_ts = 9399, cg_fills = [ex_fill 100 (59/100)]\<rparr>\<rparr>"

lemma ex_waiting_hedge: "hedge33 ex_waiting"
  by (simp add: hedge33_def hedge_gap_def view33_def ex_waiting_def named_fills_def group_fills_def group_index_def
      ex_hour_sel ex_fill_def whole_cent_def) (simp add: ex_hour_def new_v33_state_def)

lemma ex_waiting_ready: "wings_ready ex_params ex_waiting 9400"
  by (simp add: wings_ready_def strike_feed_alive_def group_due_def coalesce_expired_def coalesce_flush_def
      wing_quotable_def batch_bucket_def group_batch_def group_bucket_def wing_leg_ask_def ex_waiting_def ex_hour_sel
      ex_fill_def ex_params_sel fresh_def)
    (simp add: ex_hour_def wit_top_def fresh_def ex_params_def ladder_params_def, auto intro: exI [of _ "3/5"])

text \<open>The ladder's allotment is used up.\<close>

definition ex_closed :: v33_state where
  "ex_closed = ex_hour\<lparr>x_rest_allotment_done := True\<rparr>"

lemma ex_closed_inv: "inv33 ex_params ex_closed"
  by (rule inv33_settles [OF ex_hour_inv]) (use settles_upd(2) [OF settles_refl] in \<open>simp add: ex_closed_def\<close>)

end
