(* ===== verification/V33_Properties.thy ===== *)
theory V33_Properties
  imports V33_Example
begin

text \<open>
  The properties of the V3.3 rolling ladder, each with a worked instance where it has hypotheses.
\<close>

text \<open>
  C6. Ladder order safety. From any state satisfying the structural invariant (a fresh hour's
  does) and whatever the event stream, every action of a run comes from one step that guarantees:
  in shakedown it is nothing the venue sees; a placement or amend is emitted inside the quoting
  window, in an hour neither stood down nor used up, as a buy of NO at a whole-cent price of at
  least \<open>n_min\<close> and at most the cap where one is known, expiring at the end of the window; it is
  at most the anchor the state holds, so that (for \<open>n_min\<close> not negative) it locks \<open>E_min\<close> at the
  wing cost \<open>W\<close>, and the hour is still open after the step. The one exception is the bid the
  fallback of a failed amend itself emits (\<open>roll_fallback\<close>, on a cancel of a rolling order), which
  is at most the price that amend asked; what the same cancel's convergence re-places is not
  excepted. After a placement the contracts filled and resting are within the allotment.
\<close>

theorem v33_orders_guarded:
  assumes "inv33 params st" and "a \<in> set (snd (run_core (decide_v33 params) st evs))"
  shows "\<exists>pre e post. evs = pre @ e # post \<and>
    a \<in> set (snd (decide_v33 params (fst (run_core (decide_v33 params) st pre)) e)) \<and>
    step_guard33 params (fst (run_core (decide_v33 params) st pre)) e
      (fst (decide_v33 params (fst (run_core (decide_v33 params) st pre)) e)) a"
  using v33_guard.run_guard [OF assms] .

lemma v33_orders_guarded_witness:
  "\<exists>a pre e post. y_price a = Some (58/100) \<and> [Clock33 9400] = pre @ e # post \<and>
    a \<in> set (snd (decide_v33 ex_params (fst (run_core (decide_v33 ex_params) ex_hour pre)) e)) \<and>
    step_guard33 ex_params (fst (run_core (decide_v33 ex_params) ex_hour pre)) e
      (fst (decide_v33 ex_params (fst (run_core (decide_v33 ex_params) ex_hour pre)) e)) a"
proof -
  have "\<exists>a \<in> set (snd (run_core (decide_v33 ex_params) ex_hour [Clock33 9400])). y_price a = Some (58/100)"
    using ex_hour_quotes by (auto simp: run_core_Cons simp del: run_core.simps(2))
  then obtain a where "a \<in> set (snd (run_core (decide_v33 ex_params) ex_hour [Clock33 9400]))"
    "y_price a = Some (58/100)" by blast
  with v33_orders_guarded [OF ex_hour_inv this(1)] show ?thesis by blast
qed

text \<open>
  C37. The state is well formed. In every state a fresh hour can reach, the live orders carry at
  most the largest rung weight and the rung and edge their price has at the current anchor; at
  most \<open>max_amends_in_flight\<close> amends run, on distinct orders and never beside a bucket change;
  client ids are distinct; the fill counter is the number of fills; and the solved anchor fits
  the cap and the budget: the order, roll and count checks of \<open>check_invariants\<close> pass.
\<close>

theorem v33_state_well_formed:
  assumes "0 \<le> q_max_amends params"
  shows "inv33 params (fst (run_core (decide_v33 params) (new_v33_state ct ce bm params sh fl pre) evs)) \<and>
    check_orders params (fst (run_core (decide_v33 params) (new_v33_state ct ce bm params sh fl pre) evs)) \<and>
    check_rolls params (fst (run_core (decide_v33 params) (new_v33_state ct ce bm params sh fl pre) evs)) \<and>
    check_count (fst (run_core (decide_v33 params) (new_v33_state ct ce bm params sh fl pre) evs))"
  using v33.run_inv [OF inv33_new [OF assms]] inv33_checks by blast

lemma v33_state_well_formed_witness:
  "check_rolls ex_params (fst (run_core (decide_v33 ex_params)
     (new_v33_state ''T'' 10000 [] ex_params False [] ''v33-'') [Clock33 9400, Clock33 9401]))"
  using v33_state_well_formed [of ex_params "''T''" 10000 "[]" False "[]" "''v33-''" "[Clock33 9400, Clock33 9401]"]
  by (simp add: ex_params_sel)

text \<open>
  C38. The ladder's hedging. With print-through off, in every state a fresh hour can reach the
  fills of a known bucket are, in booking order, exactly those of the wing batches and of the
  open group; a taken batch has exactly one leg on each side, of the batch's lots, an untaken one
  none; the completed sets are the lots of the completed batches: the batch and trigger checks of
  \<open>check_invariants\<close> pass.
\<close>

theorem v33_every_fill_hedged:
  assumes "\<not> q_print_through params"
  shows "hedge33 (fst (run_core (decide_v33 params) (new_v33_state ct ce bm params sh fl pre) evs)) \<and>
    check_batches (fst (run_core (decide_v33 params) (new_v33_state ct ce bm params sh fl pre) evs)) \<and>
    check_triggers (fst (run_core (decide_v33 params) (new_v33_state ct ce bm params sh fl pre) evs))"
  using v33_hedge.run_inv [of params "new_v33_state ct ce bm params sh fl pre" evs] hedge33_new assms
    hedge33_checks by blast

lemma v33_every_fill_hedged_witness:
  "check_batches (fst (run_core (decide_v33 ex_params)
     (new_v33_state ''T'' 10000 [] ex_params False [] ''v33-'') [Clock33 9400, Clock33 9401]))"
  using v33_every_fill_hedged [of ex_params "''T''" 10000 "[]" False "[]" "''v33-''" "[Clock33 9400, Clock33 9401]"]
  by (simp add: ex_params_sel)

text \<open>
  C39. A closed hour stays closed. Once the hour stood down or its allotment is done, no event
  stream makes the core place or amend an order again, and the hour stays closed.
\<close>

theorem v33_closed_hour_places_nothing:
  assumes "inv33 params st" and "closed33 st"
  shows "filter is_rest33 (snd (run_core (decide_v33 params) st evs)) = [] \<and>
    closed33 (fst (run_core (decide_v33 params) st evs))"
  using v33_closed.latched_run_silent [OF assms] v33_closed.latched_run_stays [OF assms] by simp

lemma v33_closed_hour_places_nothing_witness:
  "filter is_rest33 (snd (run_core (decide_v33 ex_params) ex_closed [Clock33 9400, Clock33 9401])) = [] \<and>
    closed33 (fst (run_core (decide_v33 ex_params) ex_closed [Clock33 9400, Clock33 9401]))"
  by (rule v33_closed_hour_places_nothing [OF ex_closed_inv]) (simp add: closed33_def ex_closed_def)

text \<open>
  C40. A waiting fill gets its wings. With print-through off, from a state the hedging invariant
  \<open>hedge33\<close> describes (every state a fresh hour reaches with print-through off is one), one book tick at
  least \<open>no_orders_after_s_to_settle\<close> before the close, with the strike feed alive, the open group
  past its window and at least one wing of every batch's bucket quotable, leaves every batch taken
  and every booked fill of a known bucket inside a batch. Print-through on is excluded: its unwind
  may drop a batch together with its fills.
\<close>

theorem v33_waiting_fills_taken:
  assumes "hedge33 st" and "\<not> q_print_through params" and "wings_ready params st now"
  shows "list_all bt_taken (x_wing_batches (fst (book_tick params st now))) \<and>
    concat (map bt_fills (x_wing_batches (fst (book_tick params st now)))) =
      named_fills (fst (book_tick params st now))"
  using book_tick_takes [OF assms] .

lemma v33_waiting_fills_taken_witness:
  "x_wing_batches ex_waiting = [] \<and> named_fills ex_waiting = [ex_fill 100 (59/100)] \<and>
   list_all bt_taken (x_wing_batches (fst (book_tick ex_params ex_waiting 9400)))"
  using v33_waiting_fills_taken [OF ex_waiting_hedge _ ex_waiting_ready]
  by (simp add: ex_params_sel) (simp add: ex_waiting_def ex_hour_sel named_fills_def ex_fill_def)

end
