(* ===== verification/Rest_Executor.thy ===== *)
theory Rest_Executor
  imports Executor V32_Core
begin

text \<open>
  The armed maker executor of V3.2, \<open>v32/executor.py\<close>, over the proxy writer,
  \<open>proxy_writer.py\<close>: the resting order's create, cancel, amend and wing takes as exact wire calls,
  the pre-place check against the venue's resting list, the cancel/fill race decided by the order
  status, and the retained \<open>RestBook\<close>. The venue is a parameter: the reply to the \<open>n\<close>-th call of
  the process, for a POST, a DELETE and a GET (whose own retries are in \<open>proxy_auth\<close>). What is sent
  is the list \<open>rx_wire\<close>; a journal entry keeps its kind with the order and client ids, an alarm its
  kind. The clock is the \<open>now\<close> each operation is given; waits are the list \<open>rx_sleeps\<close>.
\<close>

section \<open>The proxy writer\<close>

record amend_body =
  ab_ticker :: "ticker option"
  ab_side :: string
  ab_price :: string
  ab_count :: string
  ab_coid :: "string option"
  ab_updated_coid :: "string option"
  ab_exchange_index :: "int option"

datatype rest_payload = Single v2_order | Batch "v2_order list" | Amend amend_body

datatype wire_call = W_Post string rest_payload | W_Delete string | W_Get string

record rest_venue =
  hv_post :: "nat \<Rightarrow> string \<Rightarrow> rest_payload \<Rightarrow> http_reply"
  hv_delete :: "nat \<Rightarrow> string \<Rightarrow> http_reply"
  hv_get :: "nat \<Rightarrow> string \<Rightarrow> json option"

record write_response =
  wr_status :: "int option"
  wr_body :: "(string \<times> json) list"

definition wr_ok :: "write_response \<Rightarrow> bool" where
  "wr_ok r = (case wr_status r of None \<Rightarrow> False | Some s \<Rightarrow> 200 \<le> s \<and> s < 300)"

text \<open>\<open>_classify\<close>; a transport exception has no status and an empty body.\<close>

definition classify_reply :: "http_reply \<Rightarrow> write_response" where
  "classify_reply r =
     (case r of
        Post_Raises _ \<Rightarrow> \<lparr>wr_status = None, wr_body = []\<rparr>
      | Reply status body \<Rightarrow>
          \<lparr>wr_status = status, wr_body = (case body of Some (JObj kvs) \<Rightarrow> kvs | _ \<Rightarrow> [])\<rparr>)"

definition transient_reply :: "http_reply \<Rightarrow> bool" where
  "transient_reply r =
     (case r of
        Post_Raises _ \<Rightarrow> True
      | Reply status _ \<Rightarrow> (case status of None \<Rightarrow> False | Some s \<Rightarrow> s = 429 \<or> 500 \<le> s))"

section \<open>The executor's state\<close>

datatype rest_status = R_Live | R_Cancelled | R_Filled | R_Rejected | R_Unknown | R_Amended | R_Cancel_Failed

record rest_record =
  rr_coid :: string
  rr_order_id :: "string option"
  rr_price :: money
  rr_count :: int
  rr_ticker :: ticker
  rr_bucket_Sd :: "int option"
  rr_placed_ts :: time
  rr_status :: rest_status
  rr_exchange_index :: "int option"
  rr_expiration_epoch :: "int option"
  rr_cancel_confirmed_ts :: "time option"

text \<open>The money-math capture the ledger reads: a rest or wing fill with its path.\<close>

record fill_capture =
  fc_leg :: string
  fc_side :: string
  fc_ticker :: ticker
  fc_price :: money
  fc_fee :: "money option"
  fc_count :: lots
  fc_path :: string
  fc_coid :: string

record rest_exec =
  rx_bucket_map :: bucket_map
  rx_exch :: "(ticker, int option) dict"
  rx_close_epoch :: int
  rx_quote_end_s :: int
  rx_fractional :: bool
  rx_book :: "(string, rest_record) dict"
  rx_by_order_id :: "(string, string) dict"
  rx_wing_coids :: "string list"
  rx_counts :: "(string, nat) dict"
  rx_consecutive_rejects :: nat
  rx_stand_down :: "string option"
  rx_fills :: "fill_capture list"
  rx_booked_oids :: "string list"
  rx_rests_placed :: nat
  rx_rests_rejected :: nat
  rx_wing_batches :: nat
  rx_alarms :: "string list"
  rx_cancels_attempted :: nat
  rx_cancels_confirmed :: nat
  rx_cancel_404s :: nat
  rx_cancels_via_status :: nat
  rx_cancels_expired :: nat
  rx_cancel_failed :: nat
  rx_violations :: nat
  rx_phantoms :: nat
  rx_rechecks :: nat
  rx_last_gone :: "string option"
  rx_last_fp :: lots
  rx_amends_attempted :: nat
  rx_amends_confirmed :: nat
  rx_amends_failed :: nat
  rx_amend_fallbacks :: nat
  rx_fills_on_amend :: lots
  rx_journal :: "(string \<times> string option \<times> string option) list"
  rx_wire :: "wire_call list"
  rx_sleeps :: "time list"
  rx_writer_sleeps :: "time list"

definition new_rest_exec :: "bucket_map \<Rightarrow> (ticker, int option) dict \<Rightarrow> int \<Rightarrow> int \<Rightarrow> rest_exec" where
  "new_rest_exec bm exch close_epoch quote_end_s =
     \<lparr>rx_bucket_map = bm, rx_exch = exch, rx_close_epoch = close_epoch, rx_quote_end_s = quote_end_s,
      rx_fractional = True, rx_book = [], rx_by_order_id = [], rx_wing_coids = [], rx_counts = [],
      rx_consecutive_rejects = 0, rx_stand_down = None, rx_fills = [], rx_booked_oids = [],
      rx_rests_placed = 0, rx_rests_rejected = 0, rx_wing_batches = 0, rx_alarms = [],
      rx_cancels_attempted = 0, rx_cancels_confirmed = 0, rx_cancel_404s = 0,
      rx_cancels_via_status = 0, rx_cancels_expired = 0, rx_cancel_failed = 0, rx_violations = 0,
      rx_phantoms = 0, rx_rechecks = 0, rx_last_gone = None, rx_last_fp = 0,
      rx_amends_attempted = 0, rx_amends_confirmed = 0, rx_amends_failed = 0,
      rx_amend_fallbacks = 0, rx_fills_on_amend = 0, rx_journal = [], rx_wire = [], rx_sleeps = [],
      rx_writer_sleeps = []\<rparr>"

definition attribute :: "rest_exec \<Rightarrow> string option \<Rightarrow> string option \<Rightarrow> rest_record option" where
  "attribute x coid oid =
     (case (case coid of None \<Rightarrow> None | Some c \<Rightarrow> if c = [] then None else map_of (rx_book x) c) of
        Some r \<Rightarrow> Some r
      | None \<Rightarrow>
          (case oid of
             None \<Rightarrow> None
           | Some i \<Rightarrow>
               if i = [] then None
               else (case map_of (rx_by_order_id x) i of
                       None \<Rightarrow> None | Some c \<Rightarrow> map_of (rx_book x) c)))"

definition mark_filled :: "rest_exec \<Rightarrow> string \<Rightarrow> rest_exec" where
  "mark_filled x coid =
     (case map_of (rx_book x) coid of
        None \<Rightarrow> x
      | Some r \<Rightarrow> x\<lparr>rx_book := AList.update coid (r\<lparr>rr_status := R_Filled\<rparr>) (rx_book x)\<rparr>)"

definition bump :: "string \<Rightarrow> rest_exec \<Rightarrow> rest_exec" where
  "bump key x = x\<lparr>rx_counts := AList.update key (dict_get_default (rx_counts x) key 0 + 1) (rx_counts x)\<rparr>"

definition exch_of :: "rest_exec \<Rightarrow> ticker \<Rightarrow> int option" where
  "exch_of x tk = (case map_of (rx_exch x) tk of None \<Rightarrow> None | Some e \<Rightarrow> e)"

definition rest_bucket_sd :: "rest_exec \<Rightarrow> ticker \<Rightarrow> int option" where
  "rest_bucket_sd x tk = map_option (\<lambda>fc. round_half_even (fst fc)) (map_of (rx_bucket_map x) tk)"

definition note_rest :: "string \<Rightarrow> string option \<Rightarrow> string option \<Rightarrow> rest_exec \<Rightarrow> rest_exec" where
  "note_rest kind oid coid x = x\<lparr>rx_journal := rx_journal x @ [(kind, oid, coid)]\<rparr>"

definition record_alarm :: "string \<Rightarrow> string option \<Rightarrow> string option \<Rightarrow> rest_exec \<Rightarrow> rest_exec" where
  "record_alarm kind oid coid x =
     note_rest ''alarm'' oid coid (bump ''alarm'' (x\<lparr>rx_alarms := rx_alarms x @ [kind]\<rparr>))"

definition latch_down :: "string \<Rightarrow> rest_exec \<Rightarrow> rest_exec" where
  "latch_down reason x = (if rx_stand_down x = None then x\<lparr>rx_stand_down := Some reason\<rparr> else x)"

definition sleep_x :: "time \<Rightarrow> rest_exec \<Rightarrow> rest_exec" where
  "sleep_x t x = x\<lparr>rx_sleeps := rx_sleeps x @ [t]\<rparr>"

definition put_rec :: "rest_record \<Rightarrow> rest_exec \<Rightarrow> rest_exec" where
  "put_rec r x = x\<lparr>rx_book := AList.update (rr_coid r) r (rx_book x)\<rparr>"

section \<open>The three verbs\<close>

text \<open>A POST is sent exactly once.\<close>

definition rest_post :: "rest_venue \<Rightarrow> string \<Rightarrow> rest_payload \<Rightarrow> rest_exec \<Rightarrow> rest_exec \<times> write_response" where
  "rest_post v path payload x =
     (x\<lparr>rx_wire := rx_wire x @ [W_Post path payload]\<rparr>,
      classify_reply (hv_post v (length (rx_wire x)) path payload))"

text \<open>A DELETE is idempotent: up to four attempts on a transient outcome, the wait doubling.\<close>

fun delete_attempts :: "rest_venue \<Rightarrow> string \<Rightarrow> time \<Rightarrow> nat \<Rightarrow> rest_exec \<Rightarrow> rest_exec \<times> write_response" where
  "delete_attempts v path backoff k x =
     (let r = hv_delete v (length (rx_wire x)) path;
          x1 = x\<lparr>rx_wire := rx_wire x @ [W_Delete path]\<rparr>
      in case k of
           0 \<Rightarrow> (x1, classify_reply r)
         | Suc j \<Rightarrow>
             if transient_reply r
             then delete_attempts v path (backoff * 2) j
                    (x1\<lparr>rx_writer_sleeps := rx_writer_sleeps x1 @ [backoff]\<rparr>)
             else (x1, classify_reply r))"

declare delete_attempts.simps [simp del]

definition rest_delete :: "rest_venue \<Rightarrow> string \<Rightarrow> rest_exec \<Rightarrow> rest_exec \<times> write_response" where
  "rest_delete v path x = delete_attempts v path 1 3 x"

definition rest_get :: "rest_venue \<Rightarrow> string \<Rightarrow> rest_exec \<Rightarrow> rest_exec \<times> json option" where
  "rest_get v path x =
     (x\<lparr>rx_wire := rx_wire x @ [W_Get path]\<rparr>, hv_get v (length (rx_wire x)) path)"

section \<open>Constants and paths\<close>

definition REL_SINGLE_CREATE :: string where
  "REL_SINGLE_CREATE = ''/portfolio/events/orders''"

definition REL_BATCH_CREATE :: string where
  "REL_BATCH_CREATE = ''/portfolio/events/orders/batched''"

definition OPEN_ORDERS_PATH :: string where
  "OPEN_ORDERS_PATH = ''/portfolio/orders''"

definition CANCEL_CONFIRM_POLLS :: nat where
  "CANCEL_CONFIRM_POLLS = 3"

definition CANCEL_CONFIRM_INTERVAL_S :: time where
  "CANCEL_CONFIRM_INTERVAL_S = 2/10"

definition CONSECUTIVE_REJECT_STANDDOWN :: nat where
  "CONSECUTIVE_REJECT_STANDDOWN = 3"

text \<open>One wait per DELETE retry of a cancel that did not land (\<open>CANCEL_RETRY_ATTEMPTS\<close> of them).\<close>

definition CANCEL_BACKOFF_S :: "time list" where
  "CANCEL_BACKOFF_S = [1/4, 3/4, 2]"

definition CANCEL_SETTLE_S :: time where
  "CANCEL_SETTLE_S = 5"

definition INVARIANT_RECHECK_S :: time where
  "INVARIANT_RECHECK_S = 1/2"

definition EXPIRATION_GRACE_S :: int where
  "EXPIRATION_GRACE_S = 60"

definition V32_COID_PREFIX :: string where
  "V32_COID_PREFIX = ''v32-''"

definition shard_query :: "int option \<Rightarrow> string" where
  "shard_query e = (case e of None \<Rightarrow> [] | Some i \<Rightarrow> ''?exchange_index='' @ int_text i)"

definition cancel_path :: "string \<Rightarrow> int option \<Rightarrow> string" where
  "cancel_path oid e = ''/portfolio/events/orders/'' @ oid @ shard_query e"

definition amend_path :: "string \<Rightarrow> int option \<Rightarrow> string" where
  "amend_path oid e = ''/portfolio/events/orders/'' @ oid @ ''/amend'' @ shard_query e"

definition order_status_path :: "string \<Rightarrow> string" where
  "order_status_path oid = ''/portfolio/orders/'' @ oid"

definition rest_cents :: "money \<Rightarrow> int" where
  "rest_cents p = round_half_up (p * 100)"

definition wire_price_no :: "money \<Rightarrow> string" where
  "wire_price_no n = fixed_text 4 (round_half_even ((1 - n) * 10000))"

section \<open>Order status\<close>

record order_status =
  os_order_id :: string
  os_status :: "string option"
  os_filled :: int
  os_remaining :: "int option"
  os_available :: bool
  os_filled_fp :: lots

definition no_status :: "string \<Rightarrow> order_status" where
  "no_status oid =
     \<lparr>os_order_id = oid, os_status = None, os_filled = 0, os_remaining = None, os_available = False,
      os_filled_fp = 0\<rparr>"

definition field_dec :: "(string \<times> json) list \<Rightarrow> string \<Rightarrow> rat option" where
  "field_dec kvs k = to_decimal (json_field kvs k)"

text \<open>
  The fill count: the documented field, its legacy name, the maker and taker sum when not both
  are zero, the difference of initial and remaining, else zero. \<open>rd\<close> reads a number: whole lots
  for \<open>filled_count\<close>, exact ones for \<open>filled_count_fp\<close>.
\<close>

definition resolve_filled :: "(rat \<Rightarrow> rat) \<Rightarrow> (string \<times> json) list \<Rightarrow> rat option" where
  "resolve_filled rd kvs =
     (let f = (\<lambda>k. map_option rd (field_dec kvs k));
          remaining = or_else (f ''remaining_count_fp'') (f ''remaining_count'');
          initial = or_else (f ''initial_count_fp'') (f ''place_count'');
          mk = or_default 0 (f ''maker_fill_count'');
          tk = or_default 0 (f ''taker_fill_count'')
      in or_else (or_else (f ''fill_count_fp'') (f ''fill_count''))
           (or_else (if mk \<noteq> 0 \<or> tk \<noteq> 0 then Some (mk + tk) else None)
              (case (initial, remaining) of
                 (Some i, Some r) \<Rightarrow> Some (max 0 (i - r))
               | _ \<Rightarrow> None)))"

definition whole_lots :: "rat \<Rightarrow> rat" where
  "whole_lots q = of_int (py_trunc q)"

definition parse_order_status :: "json \<Rightarrow> string \<Rightarrow> order_status" where
  "parse_order_status body oid =
     (case body of
        JObj outer \<Rightarrow>
          (let kvs = (case map_of outer ''order'' of Some (JObj inner) \<Rightarrow> inner | _ \<Rightarrow> outer);
               filled = or_default 0 (resolve_filled whole_lots kvs);
               remaining = or_else (map_option py_trunc (field_dec kvs ''remaining_count_fp''))
                                   (map_option py_trunc (field_dec kvs ''remaining_count''))
           in \<lparr>os_order_id = (case json_text (json_field kvs ''order_id'') of
                               Some i \<Rightarrow> if i = [] then oid else i | None \<Rightarrow> oid),
               os_status = json_text (json_field kvs ''status''),
               os_filled = py_trunc filled, os_remaining = remaining, os_available = True,
               os_filled_fp = or_default filled (resolve_filled id kvs)\<rparr>)
      | _ \<Rightarrow> no_status oid)"

definition terminal_statuses :: "string list" where
  "terminal_statuses = [''canceled'', ''cancelled'', ''executed'', ''expired'']"

definition is_terminal :: "string option \<Rightarrow> bool" where
  "is_terminal s = (case s of None \<Rightarrow> False | Some t \<Rightarrow> t \<in> set terminal_statuses)"

text \<open>A body that is not an object reads as \<open>{}\<close>: available, with no status.\<close>

definition read_status :: "rest_venue \<Rightarrow> string \<Rightarrow> rest_exec \<Rightarrow> rest_exec \<times> order_status" where
  "read_status v oid x =
     (let (x1, body) = rest_get v (order_status_path oid) x
      in (x1, case body of
                None \<Rightarrow> no_status oid
              | Some (JObj kvs) \<Rightarrow> parse_order_status (JObj kvs) oid
              | Some _ \<Rightarrow> parse_order_status (JObj []) oid))"

section \<open>Cancel: the race decided by the venue\<close>

datatype rest_event =
    E_Ack order_ack
  | E_Fill fill
  | E_Amended order_amended
  | E_Cancelled "string option" time lots "string option" "money option" "ticker option"

text \<open>\<open>E_Cancelled order_id server_ts filled_before coid price market\<close>, as \<open>OrderCancelled\<close>.\<close>

definition slot_cleared :: "string option \<Rightarrow> time \<Rightarrow> rest_event" where
  "slot_cleared coid now = E_Cancelled None now 0 coid None None"

definition race_capture :: "rest_record \<Rightarrow> lots \<Rightarrow> fill_capture" where
  "race_capture r n =
     \<lparr>fc_leg = ''rest'', fc_side = ''no'', fc_ticker = rr_ticker r, fc_price = rr_price r,
      fc_fee = Some 0, fc_count = n, fc_path = ''cancel_race'', fc_coid = rr_coid r\<rparr>"

text \<open>A fill found by the cancel, booked once per order id.\<close>

definition book_race :: "rest_record \<Rightarrow> lots \<Rightarrow> rest_exec \<Rightarrow> rest_exec" where
  "book_race r filled x =
     (case rr_order_id r of
        None \<Rightarrow> x
      | Some i \<Rightarrow>
          if 0 < filled \<and> i \<notin> set (rx_booked_oids x)
          then x\<lparr>rx_booked_oids := rx_booked_oids x @ [i],
                 rx_fills := rx_fills x @ [race_capture r (q_count filled)]\<rparr>
          else x)"

text \<open>\<open>_finish_cancel\<close>: the record is kept, with its status and the time of the confirm.\<close>

definition finish_cancel ::
  "rest_record option \<Rightarrow> string \<Rightarrow> int \<Rightarrow> lots option \<Rightarrow> time \<Rightarrow> rest_exec \<Rightarrow> rest_exec \<times> rest_event list" where
  "finish_cancel rec oid filled filled_fp now x =
     (let n = (case filled_fp of Some q \<Rightarrow> q | None \<Rightarrow> of_int filled);
          x1 = (case rec of
                  None \<Rightarrow> x
                | Some r \<Rightarrow>
                    book_race r n
                      (put_rec (r\<lparr>rr_status := (if 0 < n then R_Filled else R_Cancelled),
                                   rr_cancel_confirmed_ts := Some now\<rparr>) x))
      in (note_rest ''cancel_confirmed'' (Some oid) None x1,
          [E_Cancelled (Some oid) now n (map_option rr_coid rec) (map_option rr_price rec)
             (map_option rr_ticker rec)]))"

text \<open>\<open>k\<close> polls are left, the last without a wait; the count is the last readable one.\<close>

fun confirm_polls :: "rest_venue \<Rightarrow> string \<Rightarrow> int \<Rightarrow> nat \<Rightarrow> rest_exec \<Rightarrow> rest_exec \<times> int" where
  "confirm_polls v oid filled 0 x = (x, filled)"
| "confirm_polls v oid filled (Suc k) x =
     (let (x1, st) = read_status v oid x;
          wait = (\<lambda>y. if k = 0 then y else sleep_x CANCEL_CONFIRM_INTERVAL_S y)
      in if \<not> os_available st then confirm_polls v oid filled k (wait x1)
         else
           (let x2 = x1\<lparr>rx_last_fp := os_filled_fp st\<rparr> in
            if os_status st \<notin> {Some ''resting'', None} \<or> os_remaining st = Some 0
            then (x2, os_filled st)
            else confirm_polls v oid (os_filled st) k (wait x2)))"

definition confirm_cancel_filled :: "rest_venue \<Rightarrow> string \<Rightarrow> rest_exec \<Rightarrow> rest_exec \<times> int" where
  "confirm_cancel_filled v oid x = confirm_polls v oid 0 CANCEL_CONFIRM_POLLS (x\<lparr>rx_last_fp := 0\<rparr>)"

text \<open>A 2xx DELETE: placed less \<open>reduced_by\<close>, and the status; the larger.\<close>

definition resolve_cancel_success ::
  "rest_venue \<Rightarrow> write_response \<Rightarrow> rest_record option \<Rightarrow> string \<Rightarrow> time \<Rightarrow> rest_exec \<Rightarrow>
     rest_exec \<times> rest_event list" where
  "resolve_cancel_success v wr rec oid now x =
     (let rb = field_dec (wr_body wr) ''reduced_by'';
          filled_delete = (case (rb, rec) of
                             (Some b, Some r) \<Rightarrow> max 0 (rr_count r - py_trunc b) | _ \<Rightarrow> 0);
          (x1, filled_status) = confirm_cancel_filled v oid x;
          x2 = x1\<lparr>rx_cancels_confirmed := rx_cancels_confirmed x1 + 1, rx_last_gone := Some oid\<rparr>;
          fp_delete = (case (rb, rec) of
                         (Some b, Some r) \<Rightarrow> max 0 (of_int (rr_count r) - b) | _ \<Rightarrow> 0)
      in finish_cancel rec oid (max filled_delete filled_status)
           (if rx_fractional x2 then Some (max fp_delete (rx_last_fp x2)) else None) now x2)"

text \<open>A terminal status resolves a cancel whose DELETE did not succeed.\<close>

definition resolve_from_status ::
  "order_status \<Rightarrow> rest_record option \<Rightarrow> string \<Rightarrow> time \<Rightarrow> bool \<Rightarrow> rest_exec \<Rightarrow>
     (rest_exec \<times> rest_event list) option" where
  "resolve_from_status st rec oid now expired x =
     (if \<not> (os_available st \<and> is_terminal (os_status st)) then None
      else
        (let x1 = x\<lparr>rx_cancels_confirmed := rx_cancels_confirmed x + 1, rx_last_gone := Some oid\<rparr>;
             x2 = (if expired then x1\<lparr>rx_cancels_expired := rx_cancels_expired x1 + 1\<rparr>
                   else x1\<lparr>rx_cancels_via_status := rx_cancels_via_status x1 + 1\<rparr>)
         in Some (finish_cancel rec oid (os_filled st)
                    (if rx_fractional x2 then Some (os_filled_fp st) else None) now x2)))"

definition note_404 :: "write_response \<Rightarrow> rest_exec \<Rightarrow> rest_exec" where
  "note_404 wr x = (if wr_status wr = Some 404 then x\<lparr>rx_cancel_404s := rx_cancel_404s x + 1\<rparr> else x)"

text \<open>One counted DELETE of a cancel.\<close>

definition cancel_delete :: "rest_venue \<Rightarrow> string \<Rightarrow> int option \<Rightarrow> rest_exec \<Rightarrow> rest_exec \<times> write_response" where
  "cancel_delete v oid exch x =
     (let (x1, wr) = rest_delete v (cancel_path oid exch) x
      in (note_404 wr (bump ''cancel_delete'' x1), wr))"

text \<open>
  The cancel that never landed: the order still rests, the hour stands down, and the core's slot
  is cleared with a filled-0 confirm.
\<close>

definition cancel_gave_up ::
  "rest_record option \<Rightarrow> string \<Rightarrow> string option \<Rightarrow> time \<Rightarrow> rest_exec \<Rightarrow> rest_exec \<times> rest_event list" where
  "cancel_gave_up rec oid coid now x =
     (let x1 = x\<lparr>rx_cancel_failed := rx_cancel_failed x + 1\<rparr>;
          x2 = (case rec of None \<Rightarrow> x1 | Some r \<Rightarrow> put_rec (r\<lparr>rr_status := R_Cancel_Failed\<rparr>) x1);
          x3 = note_rest ''cancel_failed'' (Some oid) coid (latch_down ''cancel_failed'' x2)
      in (record_alarm ''cancel_failed'' (Some oid) None x3,
          [E_Cancelled (Some oid) now 0 (case rec of Some r \<Rightarrow> Some (rr_coid r) | None \<Rightarrow> coid)
             (map_option rr_price rec) (map_option rr_ticker rec)]))"

fun cancel_retries ::
  "rest_venue \<Rightarrow> rest_record option \<Rightarrow> string \<Rightarrow> int option \<Rightarrow> string option \<Rightarrow> time \<Rightarrow> bool \<Rightarrow>
     time list \<Rightarrow> rest_exec \<Rightarrow> rest_exec \<times> rest_event list" where
  "cancel_retries v rec oid exch coid now expired [] x = cancel_gave_up rec oid coid now x"
| "cancel_retries v rec oid exch coid now expired (w # ws) x =
     (let x1 = sleep_x w x;
          (x2, wr) = cancel_delete v oid exch (x1\<lparr>rx_cancels_attempted := rx_cancels_attempted x1 + 1\<rparr>)
      in if wr_ok wr then resolve_cancel_success v wr rec oid now x2
         else
           (let (x3, st) = read_status v oid x2 in
            case resolve_from_status st rec oid now expired x3 of
              Some res \<Rightarrow> res
            | None \<Rightarrow> cancel_retries v rec oid exch coid now expired ws x3))"

definition cancel_nonok ::
  "rest_venue \<Rightarrow> rest_record option \<Rightarrow> string \<Rightarrow> int option \<Rightarrow> string option \<Rightarrow> time \<Rightarrow> rest_exec \<Rightarrow>
     rest_exec \<times> rest_event list" where
  "cancel_nonok v rec oid exch coid now x =
     (let expired = (case rec of
                       None \<Rightarrow> False
                     | Some r \<Rightarrow> (case rr_expiration_epoch r of
                                    None \<Rightarrow> False | Some e \<Rightarrow> of_int e \<le> now));
          (x1, st) = read_status v oid x
      in case resolve_from_status st rec oid now expired x1 of
           Some res \<Rightarrow> res
         | None \<Rightarrow> cancel_retries v rec oid exch coid now expired CANCEL_BACKOFF_S x1)"

definition send_cancel ::
  "rest_venue \<Rightarrow> rest_record option \<Rightarrow> string \<Rightarrow> int option \<Rightarrow> string option \<Rightarrow> time \<Rightarrow> rest_exec \<Rightarrow>
     rest_exec \<times> rest_event list" where
  "send_cancel v rec oid exch coid now x =
     (let x1 = note_rest ''cancel_rest'' (Some oid) coid
                 (x\<lparr>rx_cancels_attempted := rx_cancels_attempted x + 1\<rparr>);
          (x2, wr) = cancel_delete v oid exch x1
      in if wr_ok wr then resolve_cancel_success v wr rec oid now x2
         else cancel_nonok v rec oid exch coid now x2)"

definition cancel_rest :: "rest_venue \<Rightarrow> v32_action \<Rightarrow> time \<Rightarrow> rest_exec \<Rightarrow> rest_exec \<times> rest_event list" where
  "cancel_rest v action now x =
     (let coid = a_coid action;
          named = (case coid of None \<Rightarrow> None | Some c \<Rightarrow> map_of (rx_book x) c)
      in case or_else (a_order_id action) (case named of None \<Rightarrow> None | Some r \<Rightarrow> rr_order_id r) of
           None \<Rightarrow> (bump ''cancel_noop'' x, [slot_cleared coid now])
         | Some oid \<Rightarrow>
             (let rec = or_else named (attribute x coid (Some oid));
                  exch = (case rec of
                            None \<Rightarrow> None | Some r \<Rightarrow> or_else (rr_exchange_index r) (exch_of x (rr_ticker r)))
              in send_cancel v rec oid exch coid now x))"

section \<open>The pre-place check against the venue\<close>

text \<open>One of ours in the resting list: order id, client id, shard.\<close>

type_synonym resting_order = "string \<times> string \<times> int option"

definition resting_exch :: "rest_exec \<Rightarrow> (string \<times> json) list \<Rightarrow> int option" where
  "resting_exch x kvs =
     (let own = exch_of x (or_default [] (json_text (json_field kvs ''ticker'')))
      in case json_field kvs ''exchange_index'' of
           JNull \<Rightarrow> own
         | e \<Rightarrow> or_else (json_int e) own)"

fun resting_ours :: "rest_exec \<Rightarrow> string \<Rightarrow> string option \<Rightarrow> json list \<Rightarrow> resting_order list" where
  "resting_ours x prefix exclude [] = []"
| "resting_ours x prefix exclude (e # es) =
     (case e of
        JObj kvs \<Rightarrow>
          (let coid = or_default [] (json_text (json_field kvs ''client_order_id'')) in
           case json_text (json_field kvs ''order_id'') of
             Some i \<Rightarrow>
               if starts_with prefix coid \<and> exclude \<noteq> Some i
               then (i, coid, resting_exch x kvs) # resting_ours x prefix exclude es
               else resting_ours x prefix exclude es
           | None \<Rightarrow> resting_ours x prefix exclude es)
      | _ \<Rightarrow> resting_ours x prefix exclude es)"

definition venue_resting_ours ::
  "rest_venue \<Rightarrow> string \<Rightarrow> rest_exec \<Rightarrow> rest_exec \<times> resting_order list option" where
  "venue_resting_ours v prefix x =
     (let (x1, body) = rest_get v (OPEN_ORDERS_PATH @ ''?status=resting'') x
      in (x1, case body of
                Some (JObj kvs) \<Rightarrow>
                  (case map_of kvs ''orders'' of
                     Some (JList es) \<Rightarrow> Some (resting_ours x1 prefix (rx_last_gone x1) es)
                   | _ \<Rightarrow> None)
              | _ \<Rightarrow> None))"

text \<open>A listed order whose cancel was confirmed within \<open>CANCEL_SETTLE_S\<close>: the list lags.\<close>

definition is_phantom :: "rest_exec \<Rightarrow> time \<Rightarrow> resting_order \<Rightarrow> bool" where
  "is_phantom x now r =
     (case attribute x None (Some (fst r)) of
        None \<Rightarrow> False
      | Some rec \<Rightarrow>
          (case rr_cancel_confirmed_ts rec of
             None \<Rightarrow> False
           | Some t \<Rightarrow> rr_status rec \<in> {R_Cancelled, R_Filled} \<and> now - t \<le> CANCEL_SETTLE_S))"

definition note_phantom :: "resting_order \<Rightarrow> rest_exec \<Rightarrow> rest_exec" where
  "note_phantom r x =
     note_rest ''rest_invariant_phantom'' (Some (fst r)) (Some (fst (snd r)))
       (bump ''rest_invariant_phantom'' (x\<lparr>rx_phantoms := rx_phantoms x + 1\<rparr>))"

fun filter_phantoms :: "time \<Rightarrow> resting_order list \<Rightarrow> rest_exec \<Rightarrow> rest_exec \<times> resting_order list" where
  "filter_phantoms now [] x = (x, [])"
| "filter_phantoms now (r # rs) x =
     (if is_phantom x now r then filter_phantoms now rs (note_phantom r x)
      else (let (x1, kept) = filter_phantoms now rs x in (x1, r # kept)))"

definition status_says_gone :: "order_status \<Rightarrow> bool" where
  "status_says_gone st \<longleftrightarrow> os_available st \<and> (is_terminal (os_status st) \<or> os_status st = None)"

text \<open>The verdict on one surviving stray, decided by a DELETE and the order's status.\<close>

datatype stray_verdict = Still_Rests | Stray_Filled "rest_event list" | Stray_Unbooked | Stray_Phantom

definition stray_gone ::
  "resting_order \<Rightarrow> order_status \<Rightarrow> time \<Rightarrow> rest_exec \<Rightarrow> rest_exec \<times> stray_verdict" where
  "stray_gone r st now x =
     (let oid = fst r; coid = Some (fst (snd r));
          fp = (if rx_fractional x then Some (os_filled_fp st) else None);
          has_fill = (case fp of Some q \<Rightarrow> 0 < q | None \<Rightarrow> 0 < os_filled st)
      in if has_fill then
           (case attribute x None (Some oid) of
              Some rec \<Rightarrow>
                (let (x1, evs) = finish_cancel (Some rec) oid (os_filled st) fp now
                                   (x\<lparr>rx_last_gone := Some oid\<rparr>)
                 in (x1, Stray_Filled evs))
            | None \<Rightarrow>
                (note_rest ''rest_invariant_unbooked_fill'' (Some oid) coid
                   (record_alarm ''rest_invariant_unbooked_fill'' (Some oid) coid x), Stray_Unbooked))
         else (note_phantom r x, Stray_Phantom))"

definition confirm_stray ::
  "rest_venue \<Rightarrow> resting_order \<Rightarrow> time \<Rightarrow> rest_exec \<Rightarrow> rest_exec \<times> stray_verdict" where
  "confirm_stray v r now x =
     (let oid = fst r;
          (x1, wr) = cancel_delete v oid (snd (snd r))
                       (x\<lparr>rx_cancels_attempted := rx_cancels_attempted x + 1\<rparr>);
          rests = (\<lambda>y. (note_rest ''rest_invariant_cancel'' (Some oid) None y, Still_Rests));
          pulled = (case field_dec (wr_body wr) ''reduced_by'' of None \<Rightarrow> False | Some b \<Rightarrow> 0 < b)
      in if wr_ok wr \<and> pulled
         then rests (x1\<lparr>rx_cancels_confirmed := rx_cancels_confirmed x1 + 1\<rparr>)
         else if \<not> wr_ok wr \<and> wr_status wr \<noteq> Some 404 then rests x1
         else
           (let (x2, st) = read_status v oid x1
            in if \<not> status_says_gone st then rests x2 else stray_gone r st now x2))"

text \<open>Over the strays in order: how many still rest, the fill events, and whether a fill went unbooked.\<close>

fun confirm_strays ::
  "rest_venue \<Rightarrow> time \<Rightarrow> resting_order list \<Rightarrow> rest_exec \<Rightarrow> rest_exec \<times> nat \<times> rest_event list \<times> bool" where
  "confirm_strays v now [] x = (x, 0, [], False)"
| "confirm_strays v now (r # rs) x =
     (let (x1, verdict) = confirm_stray v r now x;
          (x2, n, evs, unbooked) = confirm_strays v now rs x1
      in case verdict of
           Still_Rests \<Rightarrow> (x2, n + 1, evs, unbooked)
         | Stray_Filled es \<Rightarrow> (x2, n, es @ evs, unbooked)
         | Stray_Unbooked \<Rightarrow> (x2, n, evs, True)
         | Stray_Phantom \<Rightarrow> (x2, n, evs, unbooked))"

text \<open>What the surviving strays mean for the place: \<open>None\<close> proceeds.\<close>

definition stray_outcome ::
  "string \<Rightarrow> time \<Rightarrow> nat \<Rightarrow> rest_event list \<Rightarrow> bool \<Rightarrow> rest_exec \<Rightarrow>
     rest_exec \<times> rest_event list option" where
  "stray_outcome coid now n evs unbooked x =
     (if n = 0 then
        (if unbooked
         then (latch_down ''rest_invariant_unbooked_fill'' x, Some [slot_cleared (Some coid) now])
         else if evs \<noteq> [] then (x, Some evs) else (x, None))
      else
        (latch_down ''rest_invariant_violation''
           (record_alarm ''rest_invariant_violation'' None (Some coid)
             (note_rest ''rest_invariant_violation'' None (Some coid)
               (bump ''rest_invariant_violation'' (x\<lparr>rx_violations := rx_violations x + 1\<rparr>)))),
         Some [slot_cleared (Some coid) now]))"

text \<open>
  The list, the phantoms dropped; when something survives, once more after a wait; then each
  survivor is confirmed. \<open>survivors\<close> is one such read: nothing when it is clean or unreadable.
\<close>

definition survivors ::
  "rest_venue \<Rightarrow> time \<Rightarrow> rest_exec \<Rightarrow> rest_exec \<times> resting_order list" where
  "survivors v now x =
     (let (x1, listed) = venue_resting_ours v V32_COID_PREFIX x
      in case listed of None \<Rightarrow> (x1, []) | Some rs \<Rightarrow> filter_phantoms now rs x1)"

definition pre_place_invariant ::
  "rest_venue \<Rightarrow> string \<Rightarrow> time \<Rightarrow> rest_exec \<Rightarrow> rest_exec \<times> rest_event list option" where
  "pre_place_invariant v coid now x =
     (let (x1, rs1) = survivors v now x in
      if rs1 = [] then (x1, None)
      else
        (let x2 = sleep_x INVARIANT_RECHECK_S
                    (bump ''rest_invariant_recheck'' (x1\<lparr>rx_rechecks := rx_rechecks x1 + 1\<rparr>));
             (x3, rs2) = survivors v now x2
         in if rs2 = [] then (x3, None)
            else
              (let (x4, n, evs, unbooked) = confirm_strays v now rs2 x3
               in stray_outcome coid now n evs unbooked x4)))"

section \<open>Place\<close>

definition expiration_of :: "rest_exec \<Rightarrow> int option \<Rightarrow> int" where
  "expiration_of x e =
     (case e of Some t \<Rightarrow> t | None \<Rightarrow> rx_close_epoch x - rx_quote_end_s x) + EXPIRATION_GRACE_S"

definition rest_legacy :: "v32_action \<Rightarrow> string \<Rightarrow> int \<Rightarrow> legacy_order" where
  "rest_legacy action coid exch =
     \<lparr>lg_ticker = or_default [] (a_ticker action), lg_side = BUY_NO, lg_action = Some ''buy'',
      lg_yes_price = None, lg_no_price = Some (rest_cents (or_default 0 (a_price action))),
      lg_count = py_trunc (a_count action), lg_tif = Some ''good_till_canceled'',
      lg_stp = Some ''taker_at_cross'', lg_post_only = Some True, lg_client_order_id = coid,
      lg_pass = [(''exchange_index'', JInt exch)]\<rparr>"

definition rest_body :: "rest_exec \<Rightarrow> v32_action \<Rightarrow> string \<Rightarrow> int \<Rightarrow> wire_error + v2_order" where
  "rest_body x action coid exch =
     bind_r (to_v2_order (rest_legacy action coid exch)) (\<lambda>body.
     Inr (body\<lparr>v2_price := wire_price_no (or_default 0 (a_price action)),
               v2_pass := v2_pass body @
                 [(''expiration_time'', JInt (expiration_of x (a_expiration_epoch action)))]\<rparr>))"

definition unknown_record :: "rest_exec \<Rightarrow> string \<Rightarrow> ticker \<Rightarrow> money option \<Rightarrow> time \<Rightarrow> rest_record" where
  "unknown_record x coid tk n now =
     \<lparr>rr_coid = coid, rr_order_id = None, rr_price = or_default 0 n, rr_count = 1, rr_ticker = tk,
      rr_bucket_Sd = rest_bucket_sd x tk, rr_placed_ts = now, rr_status = R_Unknown,
      rr_exchange_index = exch_of x tk, rr_expiration_epoch = Some (expiration_of x None),
      rr_cancel_confirmed_ts = None\<rparr>"

text \<open>
  A rejection. An unknown outcome (timeout or 5xx) may be live on the venue: the client id is
  kept so that its fill can be attributed, and the hour stands down at once; a clean rejection
  stands it down at the third in a row.
\<close>

definition reject_unknown ::
  "string \<Rightarrow> ticker \<Rightarrow> money option \<Rightarrow> time \<Rightarrow> rest_exec \<Rightarrow> rest_exec" where
  "reject_unknown coid tk n now x =
     (let x1 = put_rec (unknown_record x coid tk n now) x
      in if rx_stand_down x1 = None
         then record_alarm ''post_unknown_outcome'' None (Some coid)
                (x1\<lparr>rx_stand_down := Some ''post_unknown_outcome''\<rparr>)
         else x1)"

definition reject_clean :: "string \<Rightarrow> rest_exec \<Rightarrow> rest_exec" where
  "reject_clean coid x =
     (let x1 = (case map_of (rx_book x) coid of
                  None \<Rightarrow> x
                | Some r \<Rightarrow> x\<lparr>rx_book := AList.update coid (r\<lparr>rr_status := R_Rejected\<rparr>) (rx_book x)\<rparr>)
      in if CONSECUTIVE_REJECT_STANDDOWN \<le> rx_consecutive_rejects x1 \<and> rx_stand_down x1 = None
         then record_alarm ''rest_rejected_standdown'' None None
                (x1\<lparr>rx_stand_down := Some (''rest_rejected_x'' @ show_nat (rx_consecutive_rejects x1))\<rparr>)
         else x1)"

definition reject_place ::
  "string \<Rightarrow> ticker \<Rightarrow> bool \<Rightarrow> money option \<Rightarrow> time \<Rightarrow> rest_exec \<Rightarrow> rest_exec \<times> rest_event list" where
  "reject_place coid tk unknown n now x =
     (let x1 = note_rest ''rest_rejected'' None (Some coid)
                 (bump ''rest_rejected''
                   (x\<lparr>rx_rests_rejected := rx_rests_rejected x + 1,
                      rx_consecutive_rejects := rx_consecutive_rejects x + 1\<rparr>))
      in (if unknown then reject_unknown coid tk n now x1 else reject_clean coid x1,
          [slot_cleared (Some coid) now]))"

definition unknown_outcome :: "write_response \<Rightarrow> bool" where
  "unknown_outcome r = (case wr_status r of None \<Rightarrow> True | Some s \<Rightarrow> 500 \<le> s)"

text \<open>The single response on a NO order; the side is fixed, so the parse never refuses.\<close>

definition parse_no_response :: "write_response \<Rightarrow> order_response" where
  "parse_no_response r =
     (case parse_single_response (JObj (wr_body r)) (Some BUY_NO) of
        Inr p \<Rightarrow> p | Inl _ \<Rightarrow> no_fill_response None ''bad_side'')"

definition live_record ::
  "rest_exec \<Rightarrow> v32_action \<Rightarrow> string \<Rightarrow> string \<Rightarrow> int \<Rightarrow> time \<Rightarrow> rest_record" where
  "live_record x action coid oid exch now =
     (let tk = or_default [] (a_ticker action)
      in \<lparr>rr_coid = coid, rr_order_id = Some oid, rr_price = or_default 0 (a_price action),
          rr_count = py_trunc (a_count action), rr_ticker = tk, rr_bucket_Sd = rest_bucket_sd x tk,
          rr_placed_ts = now, rr_status = R_Live, rr_exchange_index = Some exch,
          rr_expiration_epoch = Some (expiration_of x (a_expiration_epoch action)),
          rr_cancel_confirmed_ts = None\<rparr>)"

definition placed ::
  "v32_action \<Rightarrow> string \<Rightarrow> string \<Rightarrow> int \<Rightarrow> lots \<Rightarrow> time \<Rightarrow> rest_exec \<Rightarrow> rest_exec \<times> rest_event list" where
  "placed action coid oid exch filled now x =
     (let x1 = put_rec (live_record x action coid oid exch now) x;
          x2 = bump ''rest_acked''
                 (x1\<lparr>rx_by_order_id := AList.update oid coid (rx_by_order_id x1),
                     rx_consecutive_rejects := 0\<rparr>)
      in (x2, E_Ack \<lparr>oa_coid = coid, oa_order_id = oid, oa_server_ts = now\<rparr> #
              (if 0 < filled
               then [E_Fill \<lparr>fi_order_id = Some oid, fi_coid = coid, fi_count = filled,
                             fi_price = or_default 0 (a_price action), fi_side = ''no'',
                             fi_server_ts = now\<rparr>] else [])))"

definition send_place ::
  "rest_venue \<Rightarrow> v32_action \<Rightarrow> string \<Rightarrow> int \<Rightarrow> v2_order \<Rightarrow> time \<Rightarrow> rest_exec \<Rightarrow>
     rest_exec \<times> rest_event list" where
  "send_place v action coid exch body now x =
     (let tk = or_default [] (a_ticker action);
          (x1, resp) = rest_post v REL_SINGLE_CREATE (Single body)
                         (note_rest ''place_rest'' None (Some coid) x);
          x2 = bump ''rest_post'' (x1\<lparr>rx_rests_placed := rx_rests_placed x1 + 1\<rparr>)
      in if \<not> wr_ok resp then reject_place coid tk (unknown_outcome resp) (a_price action) now x2
         else
           (let p = parse_no_response resp in
            case (or_error p, or_order_id p) of
              (None, Some oid) \<Rightarrow> placed action coid oid exch (or_fill_count p) now x2
            | _ \<Rightarrow> reject_place coid tk False None now x2))"

definition place_rest ::
  "rest_venue \<Rightarrow> v32_action \<Rightarrow> time \<Rightarrow> rest_exec \<Rightarrow> wire_error + rest_exec \<times> rest_event list" where
  "place_rest v action now x =
     (let coid = or_default [] (a_coid action); tk = or_default [] (a_ticker action) in
      case exch_of x tk of
        None \<Rightarrow> Inr (reject_place coid tk False None now x)
      | Some exch \<Rightarrow>
          (let (x1, violation) = pre_place_invariant v coid now x in
           case violation of
             Some evs \<Rightarrow> Inr (x1, evs)
           | None \<Rightarrow>
               bind_r (rest_body x1 action coid exch) (\<lambda>body.
               Inr (send_place v action coid exch body now x1))))"

section \<open>Amend, with the cancel-and-create fallback\<close>

definition amend_body_of ::
  "v32_action \<Rightarrow> int option \<Rightarrow> string option \<Rightarrow> string option \<Rightarrow> amend_body" where
  "amend_body_of action exch coid_old coid_new =
     \<lparr>ab_ticker = a_ticker action, ab_side = ''ask'',
      ab_price = wire_price_no (or_default 0 (a_price action)),
      ab_count = fixed_text 2 ((if a_count action \<noteq> 0 then py_trunc (a_count action) else 1) * 100),
      ab_coid = coid_old, ab_updated_coid = coid_new, ab_exchange_index = exch\<rparr>"

definition amend_fallback ::
  "rest_venue \<Rightarrow> rest_record option \<Rightarrow> string option \<Rightarrow> int option \<Rightarrow> string option \<Rightarrow> time \<Rightarrow> rest_exec \<Rightarrow>
     rest_exec \<times> rest_event list" where
  "amend_fallback v rec oid exch coid_old now x =
     (let x1 = x\<lparr>rx_amend_fallbacks := rx_amend_fallbacks x + 1\<rparr> in
      case oid of
        None \<Rightarrow> (bump ''amend_fallback_noop'' x1, [slot_cleared coid_old now])
      | Some i \<Rightarrow> send_cancel v rec i exch coid_old now x1)"

definition amended_record ::
  "rest_exec \<Rightarrow> v32_action \<Rightarrow> rest_record option \<Rightarrow> string \<Rightarrow> string \<Rightarrow> ticker \<Rightarrow> int option \<Rightarrow> time \<Rightarrow>
     rest_record" where
  "amended_record x action rec coid_new oid tk exch now =
     \<lparr>rr_coid = coid_new, rr_order_id = Some oid,
      rr_price = (case a_price action of
                    Some p \<Rightarrow> p | None \<Rightarrow> (case rec of Some r \<Rightarrow> rr_price r | None \<Rightarrow> 0)),
      rr_count = (if a_count action \<noteq> 0 then py_trunc (a_count action)
                  else (case rec of Some r \<Rightarrow> rr_count r | None \<Rightarrow> 1)),
      rr_ticker = tk, rr_bucket_Sd = rest_bucket_sd x tk, rr_placed_ts = now, rr_status = R_Live,
      rr_exchange_index = exch,
      rr_expiration_epoch = (case rec of
                               Some r \<Rightarrow> rr_expiration_epoch r
                             | None \<Rightarrow> Some (expiration_of x (a_expiration_epoch action))),
      rr_cancel_confirmed_ts = None\<rparr>"

text \<open>The amend crossed: a taker fill, captured once per order id.\<close>

definition capture_amend ::
  "rest_record \<Rightarrow> order_response \<Rightarrow> string \<Rightarrow> rest_exec \<Rightarrow> rest_exec" where
  "capture_amend r p oid x =
     (let x1 = put_rec (r\<lparr>rr_status := R_Filled\<rparr>)
                 (x\<lparr>rx_fills_on_amend := rx_fills_on_amend x + or_fill_count p\<rparr>);
          x2 = (if oid \<in> set (rx_booked_oids x1) then x1
                else x1\<lparr>rx_booked_oids := rx_booked_oids x1 @ [oid],
                        rx_fills := rx_fills x1 @
                          [\<lparr>fc_leg = ''rest'', fc_side = ''no'', fc_ticker = rr_ticker r,
                            fc_price = or_default (rr_price r) (or_average_fill_price p),
                            fc_fee = Some (or_default 0 (or_average_fee_paid p)),
                            fc_count = q_count (or_fill_count p), fc_path = ''amend'',
                            fc_coid = rr_coid r\<rparr>]\<rparr>)
      in note_rest ''amend_fill'' (Some oid) (Some (rr_coid r)) x2)"

definition amend_landed ::
  "v32_action \<Rightarrow> rest_record option \<Rightarrow> string option \<Rightarrow> string \<Rightarrow> string \<Rightarrow> ticker \<Rightarrow> int option \<Rightarrow>
     order_response \<Rightarrow> time \<Rightarrow> rest_exec \<Rightarrow> rest_exec \<times> rest_event list" where
  "amend_landed action rec coid_old coid_new oid tk exch p now x =
     (let new_rec = amended_record x action rec coid_new oid tk exch now;
          x1 = x\<lparr>rx_amends_confirmed := rx_amends_confirmed x + 1\<rparr>;
          x2 = (case rec of
                  Some r \<Rightarrow> if coid_old \<noteq> None \<and> coid_old \<noteq> Some coid_new
                            then put_rec (r\<lparr>rr_status := R_Amended\<rparr>) x1 else x1
                | None \<Rightarrow> x1);
          x3 = put_rec new_rec x2;
          x4 = x3\<lparr>rx_by_order_id := AList.update oid coid_new (rx_by_order_id x3)\<rparr>;
          x5 = (if 0 < or_fill_count p then capture_amend new_rec p oid x4 else x4)
      in (note_rest ''amend_confirmed'' (Some oid) (Some coid_new) x5,
          [E_Amended \<lparr>om_order_id = Some oid, om_coid = coid_new, om_price = Some (rr_price new_rec),
             om_server_ts = now, om_remaining_count = or_remaining_count p,
             om_fill_count = or_fill_count p,
             om_average_fill_price = (if 0 < or_fill_count p then or_average_fill_price p else None)\<rparr>]))"

text \<open>The rest of \<open>_amend_rest\<close> once the order id is known.\<close>

definition send_amend ::
  "rest_venue \<Rightarrow> v32_action \<Rightarrow> rest_record option \<Rightarrow> string \<Rightarrow> string option \<Rightarrow> string option \<Rightarrow> ticker \<Rightarrow>
     int option \<Rightarrow> time \<Rightarrow> rest_exec \<Rightarrow> rest_exec \<times> rest_event list" where
  "send_amend v action rec oid coid_old coid_new tk exch now x =
     (let (x1, resp) = rest_post v (amend_path oid exch)
                         (Amend (amend_body_of action exch coid_old coid_new))
                         (note_rest ''amend_rest'' (Some oid) coid_old x);
          x2 = bump ''amend_post'' x1
      in if \<not> wr_ok resp then
           amend_fallback v rec (Some oid) exch coid_old now
             (note_rest ''amend_failed'' (Some oid) coid_old
               (x2\<lparr>rx_amends_failed := rx_amends_failed x2 + 1\<rparr>))
         else amend_landed action rec coid_old (or_default [] coid_new) oid tk exch
                (parse_no_response resp) now x2)"

definition amend_rest ::
  "rest_venue \<Rightarrow> v32_action \<Rightarrow> time \<Rightarrow> rest_exec \<Rightarrow> rest_exec \<times> rest_event list" where
  "amend_rest v action now x =
     (let coid_old = a_coid action;
          coid_new = (case a_updated_coid action of
                        Some c \<Rightarrow> if c = [] then coid_old else Some c | None \<Rightarrow> coid_old);
          rec = (case coid_old of
                   None \<Rightarrow> None | Some c \<Rightarrow> if c = [] then None else map_of (rx_book x) c);
          oid = or_else (a_order_id action) (case rec of None \<Rightarrow> None | Some r \<Rightarrow> rr_order_id r);
          tk = (case a_ticker action of
                  Some t \<Rightarrow> if t = [] then (case rec of Some r \<Rightarrow> rr_ticker r | None \<Rightarrow> []) else t
                | None \<Rightarrow> (case rec of Some r \<Rightarrow> rr_ticker r | None \<Rightarrow> []));
          exch = or_else (case rec of None \<Rightarrow> None | Some r \<Rightarrow> rr_exchange_index r) (exch_of x tk);
          x1 = x\<lparr>rx_amends_attempted := rx_amends_attempted x + 1\<rparr>
      in case oid of
           None \<Rightarrow>
             amend_fallback v rec None exch coid_old now
               (note_rest ''amend_failed'' None coid_old
                 (x1\<lparr>rx_amends_failed := rx_amends_failed x1 + 1\<rparr>))
         | Some i \<Rightarrow> send_amend v action rec i coid_old coid_new tk exch now x1)"

section \<open>Wing takes\<close>

definition wing_legacy :: "wing_leg \<Rightarrow> int \<Rightarrow> legacy_order" where
  "wing_legacy leg exch =
     \<lparr>lg_ticker = wl_ticker leg, lg_side = wl_side leg, lg_action = Some ''buy'',
      lg_yes_price = (if wl_side leg = ''yes'' then Some (rest_cents (wl_limit leg)) else None),
      lg_no_price = (if wl_side leg = ''yes'' then None else Some (rest_cents (wl_limit leg))),
      lg_count = py_trunc (wl_count leg), lg_tif = Some ''immediate_or_cancel'',
      lg_stp = Some ''taker_at_cross'', lg_post_only = None, lg_client_order_id = wl_coid leg,
      lg_pass = [(''exchange_index'', JInt exch)]\<rparr>"

text \<open>The count goes out exact to the hundredth, the price to the ten-thousandth in YES space.\<close>

definition wing_entry :: "wing_leg \<Rightarrow> int \<Rightarrow> wire_error + v2_order" where
  "wing_entry leg exch =
     bind_r (to_v2_order (wing_legacy leg exch)) (\<lambda>body.
     Inr (body\<lparr>v2_count := fixed_text 2 (round_half_even (wl_count leg * 100)),
               v2_price := fixed_text 4 (round_half_even
                 ((if wl_side leg = ''yes'' then wl_limit leg else 1 - wl_limit leg) * 10000))\<rparr>))"

definition no_wing_fill :: "wing_leg \<Rightarrow> string option \<Rightarrow> time \<Rightarrow> rest_event" where
  "no_wing_fill leg oid now =
     E_Fill \<lparr>fi_order_id = oid, fi_coid = wl_coid leg, fi_count = 0, fi_price = wl_limit leg,
             fi_side = wl_side leg, fi_server_ts = now\<rparr>"

text \<open>The legs in order: those with a shard and their entries, an alarm for each other one.\<close>

fun wing_entries ::
  "rest_exec \<Rightarrow> wing_leg list \<Rightarrow> wire_error + rest_exec \<times> (wing_leg \<times> v2_order) list" where
  "wing_entries x [] = Inr (x, [])"
| "wing_entries x (l # ls) =
     (case exch_of x (wl_ticker l) of
        None \<Rightarrow> wing_entries (record_alarm ''wing_no_exchange_index'' None None x) ls
      | Some exch \<Rightarrow>
          bind_r (wing_entry l exch) (\<lambda>e.
          bind_r (wing_entries (x\<lparr>rx_wing_coids := List.insert (wl_coid l) (rx_wing_coids x)\<rparr>) ls)
            (\<lambda>(x1, es). Inr (x1, (l, e) # es))))"

text \<open>
  The response of a leg: the last parsed slot with its client id, its price in the leg's side.
\<close>

definition leg_response :: "order_response list \<Rightarrow> wing_leg \<Rightarrow> wire_error + order_response option" where
  "leg_response parsed leg =
     (case find (\<lambda>r. or_client_order_id r = Some (wl_coid leg) \<and> wl_coid leg \<noteq> []) (rev parsed) of
        None \<Rightarrow> Inr None
      | Some r \<Rightarrow> bind_r (normalize_fill_to_side r (wl_side leg)) (\<lambda>p. Inr (Some p)))"

definition wing_capture :: "wing_leg \<Rightarrow> order_response \<Rightarrow> money \<Rightarrow> fill_capture" where
  "wing_capture leg r price =
     \<lparr>fc_leg = ''wing'', fc_side = wl_side leg, fc_ticker = wl_ticker leg, fc_price = price,
      fc_fee = or_average_fee_paid r, fc_count = q_count (or_fill_count r), fc_path = ''batch'',
      fc_coid = wl_coid leg\<rparr>"

definition wing_result ::
  "bool \<Rightarrow> wing_leg \<Rightarrow> order_response option \<Rightarrow> time \<Rightarrow> rest_exec \<Rightarrow> rest_exec \<times> rest_event" where
  "wing_result ok leg resp now x =
     (let missed = (\<lambda>y. if resp = None \<or> \<not> ok then note_rest ''wing_no_fill'' None (Some (wl_coid leg)) y
                        else y)
      in case resp of
           None \<Rightarrow> (missed x, no_wing_fill leg None now)
         | Some r \<Rightarrow>
             if \<not> ok \<or> or_error r \<noteq> None \<or> or_fill_count r \<le> 0
             then (missed x, no_wing_fill leg (or_order_id r) now)
             else
               (let price = or_default (wl_limit leg) (or_average_fill_price r)
                in (bump ''wing_fill'' (x\<lparr>rx_fills := rx_fills x @ [wing_capture leg r price]\<rparr>),
                    E_Fill \<lparr>fi_order_id = or_order_id r, fi_coid = wl_coid leg,
                            fi_count = or_fill_count r, fi_price = price, fi_side = wl_side leg,
                            fi_server_ts = now\<rparr>)))"

fun wing_events ::
  "order_response list \<Rightarrow> bool \<Rightarrow> time \<Rightarrow> wing_leg list \<Rightarrow> rest_exec \<Rightarrow>
     wire_error + rest_exec \<times> rest_event list" where
  "wing_events parsed ok now [] x = Inr (x, [])"
| "wing_events parsed ok now (l # ls) x =
     bind_r (leg_response parsed l) (\<lambda>resp.
       (let (x1, e) = wing_result ok l resp now x in
        bind_r (wing_events parsed ok now ls x1) (\<lambda>(x2, es). Inr (x2, e # es))))"

definition wing_parsed ::
  "write_response \<Rightarrow> (wing_leg \<times> v2_order) list \<Rightarrow> wire_error + order_response list" where
  "wing_parsed resp routed =
     (if \<not> wr_ok resp then Inr []
      else case routed of
             [(l, e)] \<Rightarrow>
               bind_r (parse_single_response (JObj (wr_body resp)) (Some (wl_side l))) (\<lambda>r. Inr [r])
           | _ \<Rightarrow> Inr (parse_batch_response (JObj (wr_body resp))))"

text \<open>One leg goes out on the single create path, several as a batch.\<close>

definition send_wings :: "rest_venue \<Rightarrow> v2_order list \<Rightarrow> rest_exec \<Rightarrow> rest_exec \<times> write_response" where
  "send_wings v entries x =
     (let x1 = note_rest ''take_wings'' None None
                 (bump ''wing_batch'' (x\<lparr>rx_wing_batches := rx_wing_batches x + 1\<rparr>))
      in case entries of
           [e] \<Rightarrow> rest_post v REL_SINGLE_CREATE (Single e) x1
         | _ \<Rightarrow> rest_post v REL_BATCH_CREATE (Batch entries) x1)"

definition batch_wings ::
  "rest_venue \<Rightarrow> (wing_leg \<times> v2_order) list \<Rightarrow> time \<Rightarrow> rest_exec \<Rightarrow>
     wire_error + rest_exec \<times> rest_event list" where
  "batch_wings v routed now x =
     (let (x1, resp) = send_wings v (map snd routed) x
      in bind_r (wing_parsed resp routed) (\<lambda>parsed.
         wing_events parsed (wr_ok resp) now (map fst routed) x1))"

text \<open>One event per pending leg: those without a shard first, then the routed ones in order.\<close>

definition take_wings ::
  "rest_venue \<Rightarrow> wing_leg list \<Rightarrow> time \<Rightarrow> rest_exec \<Rightarrow> wire_error + rest_exec \<times> rest_event list" where
  "take_wings v legs now x =
     (let pending = filter (\<lambda>l. wl_status l = Pending) legs in
      bind_r (wing_entries x pending) (\<lambda>(x1, routed).
        (let unrouted_evs = map (\<lambda>l. no_wing_fill l None now)
               (filter (\<lambda>l. wl_coid l \<notin> (wl_coid \<circ> fst) ` set routed) pending) in
         if routed = [] then Inr (x1, unrouted_evs)
         else bind_r (batch_wings v routed now x1) (\<lambda>(x2, evs). Inr (x2, unrouted_evs @ evs)))))"

section \<open>The dispatcher\<close>

datatype rest_fault = Shakedown_Twin action_kind | Unbuildable_Order wire_error

definition on_action ::
  "rest_venue \<Rightarrow> v32_action \<Rightarrow> wing_leg list \<Rightarrow> time \<Rightarrow> rest_exec \<Rightarrow> rest_fault + rest_exec \<times> rest_event list" where
  "on_action v action legs now x =
     (let lift = (\<lambda>res. case res of Inl e \<Rightarrow> Inl (Unbuildable_Order e) | Inr r \<Rightarrow> Inr r) in
      case a_kind action of
        PLACE_REST \<Rightarrow> lift (place_rest v action now x)
      | CANCEL_REST \<Rightarrow> Inr (cancel_rest v action now x)
      | AMEND_REST \<Rightarrow> Inr (amend_rest v action now x)
      | TAKE_WINGS \<Rightarrow> lift (take_wings v legs now x)
      | RETRY_WING \<Rightarrow> lift (take_wings v legs now x)
      | WOULD_PLACE_REST \<Rightarrow> Inl (Shakedown_Twin WOULD_PLACE_REST)
      | WOULD_CANCEL_REST \<Rightarrow> Inl (Shakedown_Twin WOULD_CANCEL_REST)
      | WOULD_AMEND_REST \<Rightarrow> Inl (Shakedown_Twin WOULD_AMEND_REST)
      | WOULD_TAKE_WINGS \<Rightarrow> Inl (Shakedown_Twin WOULD_TAKE_WINGS)
      | _ \<Rightarrow> Inr (x, []))"

section \<open>The startup sweep\<close>

record sweep_result =
  sw_found :: nat
  sw_cancelled :: nat
  sw_errors :: nat

definition sweep_ticker :: "(string \<times> json) list \<Rightarrow> ticker" where
  "sweep_ticker kvs =
     (let t = or_default [] (json_text (json_field kvs ''ticker'')) in
      if t \<noteq> [] then t else or_default [] (json_text (json_field kvs ''market_ticker'')))"

text \<open>An order of the other pilots: a client id that is not ours.\<close>

definition foreign_order :: "(string \<times> json) list \<Rightarrow> bool" where
  "foreign_order kvs =
     (let c = or_default [] (json_text (json_field kvs ''client_order_id''))
      in c \<noteq> [] \<and> \<not> starts_with V32_COID_PREFIX c)"

definition sweep_one ::
  "rest_venue \<Rightarrow> (string \<times> json) list \<Rightarrow> rest_exec \<Rightarrow> sweep_result \<Rightarrow> rest_exec \<times> sweep_result" where
  "sweep_one v kvs x res =
     (let oid = or_default [] (json_text (json_field kvs ''order_id'')) in
      if \<not> starts_with ''KXBTC'' (sweep_ticker kvs) \<or> oid = [] then (x, res)
      else if foreign_order kvs then (note_rest ''startup_skip_foreign_order'' (Some oid) None x, res)
      else
        (let exch = json_int (json_field kvs ''exchange_index'');
             (x1, wr) = rest_delete v (cancel_path oid exch) x;
             res1 = res\<lparr>sw_found := sw_found res + 1\<rparr>;
             res2 = (if wr_ok wr \<or> (wr_status wr = Some 404 \<and> exch \<noteq> None)
                     then res1\<lparr>sw_cancelled := sw_cancelled res1 + 1\<rparr>
                     else res1\<lparr>sw_errors := sw_errors res1 + 1\<rparr>)
         in (note_rest ''startup_cancel'' (Some oid) None x1, res2)))"

fun sweep_orders ::
  "rest_venue \<Rightarrow> json list \<Rightarrow> rest_exec \<Rightarrow> sweep_result \<Rightarrow> rest_exec \<times> sweep_result" where
  "sweep_orders v [] x res = (x, res)"
| "sweep_orders v (e # es) x res =
     (case e of
        JObj kvs \<Rightarrow> (let (x1, r1) = sweep_one v kvs x res in sweep_orders v es x1 r1)
      | _ \<Rightarrow> sweep_orders v es x res)"

definition cancel_stale_open_orders :: "rest_venue \<Rightarrow> rest_exec \<Rightarrow> rest_exec \<times> sweep_result" where
  "cancel_stale_open_orders v x =
     (let (x1, body) = rest_get v (OPEN_ORDERS_PATH @ ''?status=resting'') x;
          res = \<lparr>sw_found = 0, sw_cancelled = 0, sw_errors = 0\<rparr>
      in case body of
           None \<Rightarrow> (note_rest ''startup_open_orders_read_failed'' None None x1, res)
         | Some (JObj kvs) \<Rightarrow>
             (case map_of kvs ''orders'' of
                Some (JList es) \<Rightarrow>
                  (let (x2, r2) = sweep_orders v es x1 res
                   in (note_rest ''startup_cancel_sweep'' None None x2, r2))
              | _ \<Rightarrow> (x1, res))
         | Some _ \<Rightarrow> (x1, res))"

end
