(* ===== verification/Rest_Retention.thy ===== *)
theory Rest_Retention
  imports Rest_Executor "HOL-Library.Sublist"
begin

text \<open>
  What every operation of the maker executor keeps. The updates an operation is made of are the
  interfaces \<open>quiet_law\<close> (no POST, no wing capture), \<open>sending_law\<close> (no wing capture) and \<open>rest_law\<close>:
  a predicate closed under them holds after every operation made of them. Two predicates
  are its interpretations: the order of states \<open>exec_le\<close> (what is recorded, sent and journalled is
  only extended; the first stand-down reason stays) and the consistency \<open>exec_ok\<close> of the book with
  the money-math capture.
\<close>

section \<open>The law of an update\<close>

text \<open>Equal on everything but the counters and the waits.\<close>

definition same_core :: "rest_exec \<Rightarrow> rest_exec \<Rightarrow> bool" where
  "same_core x y \<longleftrightarrow>
     rx_exch y = rx_exch x \<and> rx_fractional y = rx_fractional x \<and>
     rx_bucket_map y = rx_bucket_map x \<and> rx_close_epoch y = rx_close_epoch x \<and>
     rx_quote_end_s y = rx_quote_end_s x \<and> rx_book y = rx_book x \<and>
     rx_by_order_id y = rx_by_order_id x \<and> rx_stand_down y = rx_stand_down x \<and>
     rx_booked_oids y = rx_booked_oids x \<and> rx_fills y = rx_fills x \<and>
     rx_journal y = rx_journal x \<and> rx_wire y = rx_wire x"

text \<open>The kinds of calls.\<close>

fun is_post :: "wire_call \<Rightarrow> bool" where
  "is_post (W_Post p b) = True"
| "is_post (W_Delete p) = False"
| "is_post (W_Get p) = False"

fun is_delete :: "wire_call \<Rightarrow> bool" where
  "is_delete (W_Post p b) = False"
| "is_delete (W_Delete p) = True"
| "is_delete (W_Get p) = False"

fun is_get :: "wire_call \<Rightarrow> bool" where
  "is_get (W_Post p b) = False"
| "is_get (W_Delete p) = False"
| "is_get (W_Get p) = True"

text \<open>What is closed under every update but the sending of a POST.\<close>

locale quiet_law =
  fixes P :: "rest_exec \<Rightarrow> bool"
  assumes core: "same_core x y \<Longrightarrow> P x \<Longrightarrow> P y"
    and journal: "P x \<Longrightarrow> P (x\<lparr>rx_journal := rx_journal x @ [e]\<rparr>)"
    and called: "P x \<Longrightarrow> \<not> is_post w \<Longrightarrow> P (x\<lparr>rx_wire := rx_wire x @ [w]\<rparr>)"
    and down: "P x \<Longrightarrow> rx_stand_down x = None \<Longrightarrow> P (x\<lparr>rx_stand_down := Some s\<rparr>)"
    and put: "P x \<Longrightarrow> P (put_rec r x)"
    and restatus: "P x \<Longrightarrow> map_of (rx_book x) c = Some r \<Longrightarrow>
      P (x\<lparr>rx_book := AList.update c (r\<lparr>rr_status := s'\<rparr>) (rx_book x)\<rparr>)"
    and names: "P x \<Longrightarrow> map_of (rx_book x) c \<noteq> None \<Longrightarrow>
      P (x\<lparr>rx_by_order_id := AList.update i c (rx_by_order_id x)\<rparr>)"
    and booked: "P x \<Longrightarrow> i \<notin> set (rx_booked_oids x) \<Longrightarrow> fc_leg f = ''rest'' \<Longrightarrow>
      P (x\<lparr>rx_booked_oids := rx_booked_oids x @ [i], rx_fills := rx_fills x @ [f]\<rparr>)"
begin

lemma counters [simp]:
  "P (y\<lparr>rx_wing_coids := a\<rparr>) = P y" "P (y\<lparr>rx_counts := b\<rparr>) = P y"
  "P (y\<lparr>rx_consecutive_rejects := n\<rparr>) = P y" "P (y\<lparr>rx_rests_placed := n\<rparr>) = P y"
  "P (y\<lparr>rx_rests_rejected := n\<rparr>) = P y" "P (y\<lparr>rx_wing_batches := n\<rparr>) = P y"
  "P (y\<lparr>rx_alarms := ss\<rparr>) = P y" "P (y\<lparr>rx_cancels_attempted := n\<rparr>) = P y"
  "P (y\<lparr>rx_cancels_confirmed := n\<rparr>) = P y" "P (y\<lparr>rx_cancel_404s := n\<rparr>) = P y"
  "P (y\<lparr>rx_cancels_via_status := n\<rparr>) = P y" "P (y\<lparr>rx_cancels_expired := n\<rparr>) = P y"
  "P (y\<lparr>rx_cancel_failed := n\<rparr>) = P y" "P (y\<lparr>rx_violations := n\<rparr>) = P y"
  "P (y\<lparr>rx_phantoms := n\<rparr>) = P y" "P (y\<lparr>rx_rechecks := n\<rparr>) = P y"
  "P (y\<lparr>rx_last_gone := g\<rparr>) = P y" "P (y\<lparr>rx_last_fp := q\<rparr>) = P y"
  "P (y\<lparr>rx_amends_attempted := n\<rparr>) = P y" "P (y\<lparr>rx_amends_confirmed := n\<rparr>) = P y"
  "P (y\<lparr>rx_amends_failed := n\<rparr>) = P y" "P (y\<lparr>rx_amend_fallbacks := n\<rparr>) = P y"
  "P (y\<lparr>rx_fills_on_amend := q\<rparr>) = P y" "P (y\<lparr>rx_sleeps := ts\<rparr>) = P y"
  "P (y\<lparr>rx_writer_sleeps := ts\<rparr>) = P y"
  by (rule iffI; erule core [rotated]; simp add: same_core_def)+

lemma keep_bump [simp]: "P (bump k y) = P y"
  by (simp add: bump_def)

lemma keep_sleep [simp]: "P (sleep_x t y) = P y"
  by (simp add: sleep_x_def)

lemma keep_note_404 [simp]: "P (note_404 wr y) = P y"
  by (simp add: note_404_def)

lemma keep_note [intro!]: "P x \<Longrightarrow> P (note_rest k i c x)"
  unfolding note_rest_def by (rule journal)

lemma keep_alarm [intro!]: "P x \<Longrightarrow> P (record_alarm k i c x)"
  by (simp add: record_alarm_def keep_note)

lemma keep_latch [intro!]: "P x \<Longrightarrow> P (latch_down s x)"
  by (simp add: latch_down_def down)

lemma fresh_fill:
  "P x \<Longrightarrow> b = rx_booked_oids x \<Longrightarrow> fs = rx_fills x \<Longrightarrow> i \<notin> set b \<Longrightarrow> fc_leg f = ''rest'' \<Longrightarrow>
   P (x\<lparr>rx_booked_oids := b @ [i], rx_fills := fs @ [f]\<rparr>)"
  by (simp add: booked)

section \<open>The verbs\<close>

lemma keep_get [intro!]: "P x \<Longrightarrow> P (fst (rest_get v p x))"
  by (simp add: rest_get_def called)

lemma keep_attempts: "P x \<Longrightarrow> P (fst (delete_attempts v p b k x))"
proof (induction k arbitrary: b x)
  case 0
  then show ?case by (subst delete_attempts.simps) (simp add: called)
next
  case (Suc k)
  then show ?case by (subst delete_attempts.simps) (simp add: Let_def called)
qed

lemma keep_delete [intro!]: "P x \<Longrightarrow> P (fst (rest_delete v p x))"
  by (simp add: rest_delete_def keep_attempts)

lemma keep_status [intro!]: "P x \<Longrightarrow> P (fst (read_status v i x))"
  by (simp add: read_status_def split_beta Let_def keep_get)

section \<open>Cancel\<close>

lemma keep_race [intro!]: "P x \<Longrightarrow> P (book_race r n x)"
  by (simp add: book_race_def race_capture_def fresh_fill split: option.split)

lemma keep_finish [intro!]: "P x \<Longrightarrow> P (fst (finish_cancel rec i n q now x))"
  by (auto simp: finish_cancel_def Let_def put split: option.split)

lemma keep_polls: "P x \<Longrightarrow> P (fst (confirm_polls v i n k x))"
  by (induction k arbitrary: n x) (simp_all add: split_beta Let_def keep_status)

lemma keep_confirm [intro!]: "P x \<Longrightarrow> P (fst (confirm_cancel_filled v i x))"
  by (simp add: confirm_cancel_filled_def keep_polls)

lemma keep_success [intro!]: "P x \<Longrightarrow> P (fst (resolve_cancel_success v wr rec i now x))"
  unfolding resolve_cancel_success_def Let_def split_beta
  by (rule keep_finish) (simp add: keep_confirm)

lemma keep_resolved:
  assumes "P x" "P (fst alt)"
  shows "P (fst (case resolve_from_status st rec i now e x of Some res \<Rightarrow> res | None \<Rightarrow> alt))"
  using assms by (auto simp: resolve_from_status_def Let_def)

lemma keep_cancel_delete [intro!]: "P x \<Longrightarrow> P (fst (cancel_delete v i e x))"
  by (simp add: cancel_delete_def split_beta Let_def keep_delete)

lemma keep_gave_up [intro!]: "P x \<Longrightarrow> P (fst (cancel_gave_up rec i c now x))"
  by (auto simp: cancel_gave_up_def Let_def put split: option.split)

lemma keep_retries: "P x \<Longrightarrow> P (fst (cancel_retries v rec i e c now ex ws x))"
proof (induction ws arbitrary: x)
  case Nil
  then show ?case by (simp add: keep_gave_up)
next
  case (Cons w ws)
  have "P (fst (cancel_delete v i e (x\<lparr>rx_sleeps := rx_sleeps x @ [w],
                  rx_cancels_attempted := rx_cancels_attempted x + 1\<rparr>)))"
    using Cons.prems by (simp add: keep_cancel_delete)
  then show ?case
    by (simp add: split_beta Let_def sleep_x_def keep_success keep_resolved keep_status Cons.IH)
qed

lemma keep_nonok [intro!]: "P x \<Longrightarrow> P (fst (cancel_nonok v rec i e c now x))"
  unfolding cancel_nonok_def Let_def split_beta
  by (simp add: keep_resolved keep_status keep_retries)

lemma keep_send_cancel [intro!]: "P x \<Longrightarrow> P (fst (send_cancel v rec i e c now x))"
  unfolding send_cancel_def Let_def split_beta
  by (simp add: keep_success keep_nonok keep_cancel_delete keep_note)

lemma keep_cancel [intro!]: "P x \<Longrightarrow> P (fst (cancel_rest v a now x))"
  unfolding cancel_rest_def Let_def by (simp add: keep_send_cancel split: option.split)

section \<open>Place\<close>

lemma keep_listing [intro!]: "P x \<Longrightarrow> P (fst (venue_resting_ours v p x))"
  by (simp add: venue_resting_ours_def split_beta Let_def keep_get)

lemma keep_phantom [intro!]: "P x \<Longrightarrow> P (note_phantom r x)"
  by (simp add: note_phantom_def keep_note)

lemma keep_phantoms [intro!]: "P x \<Longrightarrow> P (fst (filter_phantoms now rs x))"
  by (induction rs arbitrary: x) (simp_all add: split_beta Let_def keep_phantom)

lemma keep_gone [intro!]: "P x \<Longrightarrow> P (fst (stray_gone r st now x))"
  by (auto simp: stray_gone_def Let_def split_beta split: option.split)

lemma keep_stray [intro!]: "P x \<Longrightarrow> P (fst (confirm_stray v r now x))"
  unfolding confirm_stray_def Let_def split_beta
  by (simp add: keep_note keep_cancel_delete keep_status keep_gone)

lemma keep_strays [intro!]: "P x \<Longrightarrow> P (fst (confirm_strays v now rs x))"
  by (induction rs arbitrary: x) (auto simp: split_beta Let_def split: stray_verdict.split)

lemma keep_outcome [intro!]: "P x \<Longrightarrow> P (fst (stray_outcome c now n evs u x))"
  by (auto simp: stray_outcome_def)

lemma keep_survivors [intro!]: "P x \<Longrightarrow> P (fst (survivors v now x))"
  by (auto simp: survivors_def Let_def split_beta split: option.split)

lemma keep_invariant [intro!]: "P x \<Longrightarrow> P (fst (pre_place_invariant v c now x))"
  unfolding pre_place_invariant_def Let_def split_beta
  by (simp add: keep_survivors keep_outcome keep_strays)

lemma keep_unknown [intro!]: "P x \<Longrightarrow> P (reject_unknown c t n now x)"
  by (simp add: reject_unknown_def Let_def put keep_alarm down)

lemma keep_clean [intro!]: "P x \<Longrightarrow> P (reject_clean c x)"
  by (auto simp: reject_clean_def Let_def restatus down keep_alarm split: option.split)

lemma keep_reject [intro!]: "P x \<Longrightarrow> P (fst (reject_place c t u n now x))"
  by (simp add: reject_place_def Let_def keep_unknown keep_clean keep_note)

lemma keep_placed [intro!]: "P x \<Longrightarrow> P (fst (placed a c i e q now x))"
  by (auto simp: placed_def Let_def live_record_def intro!: names put)
     (simp add: put_rec_def)

lemma keep_fallback [intro!]: "P x \<Longrightarrow> P (fst (amend_fallback v rec i e c now x))"
  unfolding amend_fallback_def Let_def by (simp add: keep_send_cancel split: option.split)

lemma keep_capture [intro!]: "P x \<Longrightarrow> P (capture_amend r p i x)"
  unfolding capture_amend_def Let_def by (auto intro!: fresh_fill put)

lemma keep_landed [intro!]: "P x \<Longrightarrow> P (fst (amend_landed a rec c c' i t e p now x))"
proof -
  assume x: "P x"
  have named: "P y \<Longrightarrow> rr_coid r = c' \<Longrightarrow>
    P ((put_rec r y)\<lparr>rx_by_order_id := AList.update i c' (rx_by_order_id (put_rec r y))\<rparr>)" for y r
    using names [OF put, of y r c' i] by (simp add: put_rec_def update_conv')
  show ?thesis unfolding amend_landed_def Let_def
    by (auto intro!: named put x simp: amended_record_def split: option.split)
qed

end

section \<open>Everything the executor sends\<close>

text \<open>Closed under every update but the capture of a wing fill.\<close>

locale sending_law = quiet_law +
  assumes posted: "P x \<Longrightarrow> P (x\<lparr>rx_wire := rx_wire x @ [W_Post p b]\<rparr>)"
begin

lemma keep_post [intro!]: "P x \<Longrightarrow> P (fst (rest_post v p b x))"
  by (simp add: rest_post_def posted)

lemma keep_send_place [intro!]: "P x \<Longrightarrow> P (fst (send_place v a c e b now x))"
  unfolding send_place_def Let_def split_beta
  by (simp add: keep_reject keep_placed keep_post keep_note split: option.split)

lemma keep_place: "place_rest v a now x = Inr res \<Longrightarrow> P x \<Longrightarrow> P (fst res)"
  unfolding place_rest_def Let_def split_beta
  by (auto simp: bind_r_def split: option.splits sum.splits)

lemma keep_send_amend [intro!]: "P x \<Longrightarrow> P (fst (send_amend v a rec i c c' t e now x))"
  unfolding send_amend_def Let_def split_beta
  by (simp add: keep_fallback keep_note keep_post keep_landed)

lemma keep_amend [intro!]: "P x \<Longrightarrow> P (fst (amend_rest v a now x))"
  unfolding amend_rest_def Let_def
  by (simp add: keep_fallback keep_send_amend keep_note split: option.split)

end

locale rest_law = sending_law +
  assumes winged: "P x \<Longrightarrow> fc_leg f = ''wing'' \<Longrightarrow> P (x\<lparr>rx_fills := rx_fills x @ [f]\<rparr>)"
begin

lemma keep_entries: "wing_entries x ls = Inr (y, es) \<Longrightarrow> P x \<Longrightarrow> P y"
  by (induction ls arbitrary: x es)
    (auto simp: bind_r_def split: option.splits sum.splits)

lemma keep_wing_result [intro!]: "P x \<Longrightarrow> P (fst (wing_result ok l r now x))"
  by (auto simp: wing_result_def Let_def wing_capture_def intro!: winged split: option.split)

lemma keep_wing_events: "wing_events ps ok now ls x = Inr (y, es) \<Longrightarrow> P x \<Longrightarrow> P y"
proof (induction ls arbitrary: x es)
  case (Cons l ls)
  then show ?case
    by (auto simp: bind_r_def split_beta Let_def keep_wing_result split: sum.splits)
qed simp

lemma keep_send_wings [intro!]: "P x \<Longrightarrow> P (fst (send_wings v es x))"
  unfolding send_wings_def Let_def by (simp add: keep_post keep_note split: list.split)

lemma keep_batch:
  assumes "batch_wings v rs now x = Inr (y, evs)" "P x" shows "P y"
  using assms keep_wing_events keep_send_wings [of x v "map snd rs"]
  by (fastforce simp: batch_wings_def split_beta Let_def bind_r_def split: sum.splits)

lemma keep_wings:
  assumes "take_wings v ls now x = Inr res" and x: "P x"
  shows "P (fst res)"
  using assms(1)
  by (auto simp: take_wings_def Let_def bind_r_def split: sum.splits if_splits
      dest!: keep_entries [OF _ x]) (erule keep_batch, assumption)

lemma keep_action: "on_action v a ls now x = Inr res \<Longrightarrow> P x \<Longrightarrow> P (fst res)"
  by (cases "a_kind a")
    (auto simp: on_action_def Let_def keep_place keep_wings keep_cancel keep_amend split: sum.splits)

lemma keep_mark: "P x \<Longrightarrow> P (mark_filled x c)"
  by (auto simp: mark_filled_def restatus split: option.split)

lemma keep_sweep_one: "P x \<Longrightarrow> P (fst (sweep_one v kvs x r))"
  by (auto simp: sweep_one_def Let_def split_beta)

lemma keep_sweep: "P x \<Longrightarrow> P (fst (sweep_orders v es x r))"
  by (induction es arbitrary: x r) (auto simp: split_beta Let_def keep_sweep_one split: json.split)

lemma keep_startup: "P x \<Longrightarrow> P (fst (cancel_stale_open_orders v x))"
  unfolding cancel_stale_open_orders_def Let_def split_beta
  by (auto intro!: keep_sweep split: option.split json.split)

end

section \<open>What sends no POST\<close>

definition posts :: "rest_exec \<Rightarrow> wire_call list" where
  "posts x = filter is_post (rx_wire x)"

interpretation silent: quiet_law "\<lambda>y. posts y = ps" for ps
  by unfold_locales (simp_all add: posts_def same_core_def put_rec_def)

section \<open>What is recorded stays\<close>

definition exec_le :: "rest_exec \<Rightarrow> rest_exec \<Rightarrow> bool" where
  "exec_le x x' \<longleftrightarrow>
     rx_exch x' = rx_exch x \<and> rx_bucket_map x' = rx_bucket_map x \<and>
     rx_close_epoch x' = rx_close_epoch x \<and> rx_quote_end_s x' = rx_quote_end_s x \<and>
     dom (map_of (rx_book x)) \<subseteq> dom (map_of (rx_book x')) \<and>
     dom (map_of (rx_by_order_id x)) \<subseteq> dom (map_of (rx_by_order_id x')) \<and>
     (rx_stand_down x \<noteq> None \<longrightarrow> rx_stand_down x' = rx_stand_down x) \<and>
     prefix (rx_booked_oids x) (rx_booked_oids x') \<and> prefix (rx_fills x) (rx_fills x') \<and>
     prefix (rx_journal x) (rx_journal x') \<and> prefix (rx_wire x) (rx_wire x')"

lemma exec_le_refl [simp]: "exec_le x x"
  by (simp add: exec_le_def)

interpretation kept: rest_law "exec_le x" for x
  by unfold_locales
    (auto simp: exec_le_def same_core_def put_rec_def update_conv' domIff intro: prefix_prefix)

section \<open>The book and the capture agree\<close>

definition exec_ok :: "rest_exec \<Rightarrow> bool" where
  "exec_ok x \<longleftrightarrow>
     (\<forall>c r. map_of (rx_book x) c = Some r \<longrightarrow> rr_coid r = c) \<and>
     (\<forall>i c. map_of (rx_by_order_id x) i = Some c \<longrightarrow> map_of (rx_book x) c \<noteq> None) \<and>
     distinct (rx_booked_oids x) \<and>
     length (filter (\<lambda>f. fc_leg f = ''rest'') (rx_fills x)) = length (rx_booked_oids x)"

interpretation ok: rest_law exec_ok
  by unfold_locales (auto simp: exec_ok_def same_core_def put_rec_def update_conv' split: if_splits)

lemma exec_ok_new [simp]: "exec_ok (new_rest_exec bm exch ce qs)"
  by (simp add: exec_ok_def new_rest_exec_def)

section \<open>Runs of the executor\<close>

inductive rest_step :: "rest_exec \<Rightarrow> rest_exec \<Rightarrow> bool" where
  startup: "rest_step x (fst (cancel_stale_open_orders v x))"
| action: "on_action v a legs now x = Inr res \<Longrightarrow> rest_step x (fst res)"
| filled: "rest_step x (mark_filled x c)"

context rest_law begin

lemma keep_step: "rest_step x y \<Longrightarrow> P x \<Longrightarrow> P y"
  by (induction rule: rest_step.induct) (auto intro: keep_startup keep_action keep_mark)

lemma keep_run: "rest_step\<^sup>*\<^sup>* x y \<Longrightarrow> P x \<Longrightarrow> P y"
  by (induction rule: rtranclp_induct) (auto intro: keep_step)

end

lemma run_le: "rest_step\<^sup>*\<^sup>* x y \<Longrightarrow> exec_le x y"
  by (erule kept.keep_run) simp

lemma run_ok: "rest_step\<^sup>*\<^sup>* (new_rest_exec bm exch ce qs) x \<Longrightarrow> exec_ok x"
  by (erule ok.keep_run) simp

lemma attribute_known:
  assumes "exec_ok x"
  shows "attribute x c i \<noteq> None \<longleftrightarrow>
    (\<exists>k. c = Some k \<and> k \<noteq> [] \<and> k \<in> dom (map_of (rx_book x))) \<or>
    (\<exists>k. i = Some k \<and> k \<noteq> [] \<and> k \<in> dom (map_of (rx_by_order_id x)))"
  using assms by (auto simp: attribute_def exec_ok_def domIff split: option.splits)

lemma attribute_kept:
  assumes "exec_le x y" "exec_ok x" "exec_ok y" "attribute x c i \<noteq> None"
  shows "attribute y c i \<noteq> None"
proof -
  have d: "dom (map_of (rx_book x)) \<subseteq> dom (map_of (rx_book y))"
    "dom (map_of (rx_by_order_id x)) \<subseteq> dom (map_of (rx_by_order_id y))"
    using assms(1) by (simp_all add: exec_le_def)
  from assms(4) show ?thesis
    unfolding attribute_known [OF assms(2)] attribute_known [OF assms(3)]
    using subsetD [OF d(1)] subsetD [OF d(2)] by (elim disjE exE conjE) simp_all
qed

end
