(* ===== verification/Rest_Cancel.thy ===== *)
theory Rest_Cancel
  imports Rest_Retention
begin

text \<open>
  The cancel of a resting order: what it sends (at most four counted DELETEs of at most four
  attempts each, and at most six status reads), its one event, the count it reports against the
  replies of the venue, and what it leaves when the order would not go away.
\<close>

section \<open>What a step sends\<close>

text \<open>From \<open>x\<close> to \<open>y\<close> only calls in \<open>A\<close> go out, at most \<open>d\<close> DELETEs and \<open>g\<close> GETs.\<close>

definition sends :: "wire_call set \<Rightarrow> nat \<Rightarrow> nat \<Rightarrow> rest_exec \<Rightarrow> rest_exec \<Rightarrow> bool" where
  "sends A d g x y \<longleftrightarrow>
     (\<exists>ws. rx_wire y = rx_wire x @ ws \<and> set ws \<subseteq> A \<and>
       length (filter is_delete ws) \<le> d \<and> length (filter is_get ws) \<le> g)"

lemma sends_refl [simp]: "sends A d g x x"
  by (simp add: sends_def)

lemma sends_trans:
  assumes "sends A d g x y" "sends A d' g' y z" shows "sends A (d + d') (g + g') x z"
proof -
  obtain us vs where "rx_wire y = rx_wire x @ us" "rx_wire z = rx_wire y @ vs"
    "set us \<subseteq> A" "set vs \<subseteq> A" "length (filter is_delete us) \<le> d" "length (filter is_get us) \<le> g"
    "length (filter is_delete vs) \<le> d'" "length (filter is_get vs) \<le> g'"
    using assms by (auto simp: sends_def)
  then show ?thesis by (auto simp: sends_def intro!: exI [of _ "us @ vs"])
qed

lemma sends_mono: "sends A d g x y \<Longrightarrow> d \<le> d' \<Longrightarrow> g \<le> g' \<Longrightarrow> sends A d' g' x y"
  by (fastforce simp: sends_def)

lemma sends_same: "sends A d g x y \<Longrightarrow> rx_wire y = rx_wire z \<Longrightarrow> sends A d g x z"
  by (simp add: sends_def)

lemma sends_from: "sends A d g x y \<Longrightarrow> rx_wire x = rx_wire w \<Longrightarrow> sends A d g w y"
  by (simp add: sends_def)

lemma wire_keeps [simp]:
  "rx_wire (bump k x) = rx_wire x" "rx_wire (note_rest kd i c x) = rx_wire x"
  "rx_wire (sleep_x t x) = rx_wire x" "rx_wire (record_alarm kd i c x) = rx_wire x"
  "rx_wire (latch_down s x) = rx_wire x" "rx_wire (put_rec r x) = rx_wire x"
  "rx_wire (note_404 wr x) = rx_wire x" "rx_wire (book_race r n x) = rx_wire x"
  by (simp_all add: bump_def note_rest_def sleep_x_def record_alarm_def latch_down_def put_rec_def
      note_404_def book_race_def split: option.split)

lemma wire_finish [simp]: "rx_wire (fst (finish_cancel rec i n q now x)) = rx_wire x"
  by (simp add: finish_cancel_def Let_def split: option.split)

lemma wire_gave_up [simp]: "rx_wire (fst (cancel_gave_up rec i c now x)) = rx_wire x"
  by (simp add: cancel_gave_up_def Let_def split: option.split)

section \<open>The reads of the order's status\<close>

definition status_at :: "rest_venue \<Rightarrow> string \<Rightarrow> nat \<Rightarrow> order_status" where
  "status_at v i n =
     (case hv_get v n (order_status_path i) of
        None \<Rightarrow> no_status i
      | Some (JObj kvs) \<Rightarrow> parse_order_status (JObj kvs) i
      | Some _ \<Rightarrow> parse_order_status (JObj []) i)"

lemma read_status_at:
  "read_status v i x =
     (x\<lparr>rx_wire := rx_wire x @ [W_Get (order_status_path i)]\<rparr>, status_at v i (length (rx_wire x)))"
  by (simp add: read_status_def rest_get_def status_at_def)

text \<open>A status that ends the polling.\<close>

definition settled :: "order_status \<Rightarrow> bool" where
  "settled st \<longleftrightarrow>
     os_available st \<and> (os_status st \<notin> {Some ''resting'', None} \<or> os_remaining st = Some 0)"

text \<open>The reads the confirm makes: up to and with the first settled one.\<close>

definition polled :: "order_status list \<Rightarrow> order_status list" where
  "polled sts = takeWhile (\<lambda>s. \<not> settled s) sts @ take 1 (dropWhile (\<lambda>s. \<not> settled s) sts)"

definition last_read :: "(order_status \<Rightarrow> 'a) \<Rightarrow> 'a \<Rightarrow> order_status list \<Rightarrow> 'a" where
  "last_read f d sts = last (d # map f (filter os_available (polled sts)))"

lemma settled_available: "settled s \<Longrightarrow> os_available s"
  by (simp add: settled_def)

lemma polled_Cons [simp]: "polled (s # ss) = (if settled s then [s] else s # polled ss)"
  by (simp add: polled_def)

lemma last_read_Nil [simp]: "last_read f d [] = d"
  by (simp add: last_read_def polled_def)

lemma last_read_Cons [simp]:
  "last_read f d (s # ss) =
     (if \<not> os_available s then last_read f d ss
      else if settled s then f s else last_read f (f s) ss)"
  by (cases "settled s") (simp_all add: last_read_def settled_available)

definition reads :: "rest_venue \<Rightarrow> string \<Rightarrow> nat \<Rightarrow> nat \<Rightarrow> order_status list" where
  "reads v i n k = map (status_at v i) [n..<n + k]"

lemma reads_0 [simp]: "reads v i n 0 = []"
  by (simp add: reads_def)

lemma reads_Suc: "reads v i n (Suc k) = status_at v i n # reads v i (Suc n) k"
  by (simp add: reads_def upt_conv_Cons del: upt_Suc)

lemma confirm_polls_Suc:
  "confirm_polls v i n (Suc k) x =
     (let st = status_at v i (length (rx_wire x));
          x1 = x\<lparr>rx_wire := rx_wire x @ [W_Get (order_status_path i)]\<rparr>;
          x2 = x1\<lparr>rx_last_fp := os_filled_fp st\<rparr>;
          wait = (\<lambda>y. if k = 0 then y else sleep_x CANCEL_CONFIRM_INTERVAL_S y)
      in if \<not> os_available st then confirm_polls v i n k (wait x1)
         else if settled st then (x2, os_filled st)
         else confirm_polls v i (os_filled st) k (wait x2))"
  by (cases "os_available (status_at v i (length (rx_wire x)))")
    (simp_all only: confirm_polls.simps read_status_at Let_def prod.case settled_def
      simp_thms if_True if_False)

lemma sleep_fields [simp]: "rx_last_fp (sleep_x t x) = rx_last_fp x"
  "rx_wire (if b then x else sleep_x t x) = rx_wire x"
  "rx_last_fp (if b then x else sleep_x t x) = rx_last_fp x"
  by (simp_all add: sleep_x_def)

lemma polls_exact:
  "snd (confirm_polls v i n k x) = last_read os_filled n (reads v i (length (rx_wire x)) k)"
  "rx_last_fp (fst (confirm_polls v i n k x)) =
     last_read os_filled_fp (rx_last_fp x) (reads v i (length (rx_wire x)) k)"
proof (induction k arbitrary: n x)
  case (Suc k)
  { case 1 show ?case
      unfolding confirm_polls_Suc Let_def reads_Suc by (simp add: Suc.IH) }
  { case 2 show ?case
      unfolding confirm_polls_Suc Let_def reads_Suc by (simp add: Suc.IH) }
qed simp_all

section \<open>The bounds of a cancel\<close>

definition cancel_calls :: "string \<Rightarrow> int option \<Rightarrow> wire_call set" where
  "cancel_calls i e = {W_Delete (cancel_path i e), W_Get (order_status_path i)}"

lemma sends_attempts: "sends {W_Delete p} (Suc k) 0 x (fst (delete_attempts v p b k x))"
proof (induction k arbitrary: b x)
  case 0
  show ?case by (subst delete_attempts.simps) (simp add: sends_def)
next
  case (Suc k)
  let ?x1 = "x\<lparr>rx_wire := rx_wire x @ [W_Delete p], rx_writer_sleeps := rx_writer_sleeps x @ [b]\<rparr>"
  have "sends {W_Delete p} 1 0 x ?x1" by (simp add: sends_def)
  from sends_trans [OF this Suc.IH [of ?x1 "b * 2"]]
  have more: "sends {W_Delete p} (Suc (Suc k)) 0 x (fst (delete_attempts v p (b * 2) k ?x1))" by simp
  show ?case
    by (subst delete_attempts.simps) (use more in \<open>auto simp: Let_def sends_def\<close>)
qed

lemma sends_delete: "sends (cancel_calls i e) 4 0 x (fst (cancel_delete v i e x))"
proof -
  have "sends {W_Delete (cancel_path i e)} (Suc 3) 0 x (fst (delete_attempts v (cancel_path i e) 1 3 x))"
    by (rule sends_attempts)
  then show ?thesis
    by (auto simp: cancel_delete_def rest_delete_def split_beta Let_def sends_def cancel_calls_def)
qed

lemma sends_status: "sends (cancel_calls i e) 0 1 x (fst (read_status v i x))"
  by (simp add: read_status_at sends_def cancel_calls_def)

lemma sends_polls: "sends (cancel_calls i e) 0 k x (fst (confirm_polls v i n k x))"
proof (induction k arbitrary: n x)
  case (Suc k)
  have more: "sends (cancel_calls i e) 0 (Suc k) x (fst (confirm_polls v i m k y))"
    if "rx_wire y = rx_wire x @ [W_Get (order_status_path i)]" for m y
  proof -
    have "sends (cancel_calls i e) 0 1 x y" using that by (simp add: sends_def cancel_calls_def)
    from sends_trans [OF this Suc.IH] show ?thesis by simp
  qed
  have one: "sends (cancel_calls i e) 0 (Suc k) x y"
    if "rx_wire y = rx_wire x @ [W_Get (order_status_path i)]" for y k
    using that by (simp add: sends_def cancel_calls_def)
  show ?case
    by (cases "k = 0") (simp_all add: read_status_at Let_def more one)
qed simp

lemma sends_success: "sends (cancel_calls i e) 0 3 x (fst (resolve_cancel_success v wr rec i now x))"
  using sends_polls [of i e 3 "x\<lparr>rx_last_fp := 0\<rparr>" v 0]
  by (simp add: resolve_cancel_success_def split_beta Let_def confirm_cancel_filled_def
      CANCEL_CONFIRM_POLLS_def sends_def)

lemma resolved_wire:
  "resolve_from_status st rec i now ex x = Some res \<Longrightarrow> rx_wire (fst res) = rx_wire x"
  by (auto simp: resolve_from_status_def Let_def split: if_splits)

lemma sends_retries:
  "sends (cancel_calls i e) (4 * length ws) (length ws + 2) x
     (fst (cancel_retries v rec i e c now ex ws x))"
proof (induction ws arbitrary: x)
  case Nil
  show ?case by (simp add: sends_def)
next
  case (Cons w ws)
  define x1 where "x1 = (sleep_x w x)\<lparr>rx_cancels_attempted := rx_cancels_attempted (sleep_x w x) + 1\<rparr>"
  define d where "d = cancel_delete v i e x1"
  define st where "st = read_status v i (fst d)"
  have d: "sends (cancel_calls i e) 4 0 x (fst d)"
    using sends_delete [of i e x1 v] by (simp add: d_def sends_def x1_def)
  have st: "sends (cancel_calls i e) 4 1 x (fst st)"
    using sends_trans [OF d sends_status] by (simp add: st_def)
  have eq: "cancel_retries v rec i e c now ex (w # ws) x =
    (if wr_ok (snd d) then resolve_cancel_success v (snd d) rec i now (fst d)
     else case resolve_from_status (snd st) rec i now ex (fst st) of
            Some res \<Rightarrow> res | None \<Rightarrow> cancel_retries v rec i e c now ex ws (fst st))"
    unfolding cancel_retries.simps Let_def split_beta x1_def d_def st_def ..
  have "sends (cancel_calls i e) (4 * length (w # ws)) (length (w # ws) + 2) x
      (fst (resolve_cancel_success v (snd d) rec i now (fst d)))"
    by (rule sends_mono [OF sends_trans [OF d sends_success]]) simp_all
  moreover have "sends (cancel_calls i e) (4 * length (w # ws)) (length (w # ws) + 2) x (fst res)"
    if "resolve_from_status (snd st) rec i now ex (fst st) = Some res" for res
    by (rule sends_mono [OF sends_same [OF st]]) (simp_all add: resolved_wire [OF that])
  moreover have "sends (cancel_calls i e) (4 * length (w # ws)) (length (w # ws) + 2) x
      (fst (cancel_retries v rec i e c now ex ws (fst st)))"
    by (rule sends_mono [OF sends_trans [OF st Cons.IH]]) simp_all
  ultimately show ?case unfolding eq by (simp split: option.split)
qed

lemma sends_nonok: "sends (cancel_calls i e) 12 6 x (fst (cancel_nonok v rec i e c now x))"
proof -
  define st where "st = read_status v i x"
  have st: "sends (cancel_calls i e) 0 1 x (fst st)" unfolding st_def by (rule sends_status)
  have retry: "sends (cancel_calls i e) 12 6 x
      (fst (cancel_retries v rec i e c now ex CANCEL_BACKOFF_S (fst st)))" for ex
    by (rule sends_mono [OF sends_trans [OF st sends_retries]]) (simp_all add: CANCEL_BACKOFF_S_def)
  have "sends (cancel_calls i e) 12 6 x (fst res)"
    if "resolve_from_status (snd st) rec i now ex (fst st) = Some res" for ex res
    by (rule sends_mono [OF sends_same [OF st]]) (simp_all add: resolved_wire [OF that])
  with retry show ?thesis
    unfolding cancel_nonok_def st_def [symmetric] split_beta Let_def by (simp split: option.split)
qed

lemma sends_send_cancel: "sends (cancel_calls i e) 16 6 x (fst (send_cancel v rec i e c now x))"
proof -
  define x1 where "x1 = note_rest ''cancel_rest'' (Some i) c
    (x\<lparr>rx_cancels_attempted := rx_cancels_attempted x + 1\<rparr>)"
  have d: "sends (cancel_calls i e) 4 0 x (fst (cancel_delete v i e x1))"
    using sends_delete [of i e x1 v] by (simp add: sends_def x1_def)
  have "sends (cancel_calls i e) 16 6 x (fst (resolve_cancel_success v wr rec i now (fst (cancel_delete v i e x1))))" for wr
    by (rule sends_mono [OF sends_trans [OF d sends_success]]) simp_all
  moreover have "sends (cancel_calls i e) 16 6 x (fst (cancel_nonok v rec i e c now (fst (cancel_delete v i e x1))))"
    by (rule sends_mono [OF sends_trans [OF d sends_nonok]]) simp_all
  ultimately show ?thesis
    unfolding send_cancel_def x1_def [symmetric] split_beta Let_def by simp
qed

lemma delete_sent: "prefix (rx_wire x @ [W_Delete path]) (rx_wire (fst (rest_delete v path x)))"
proof -
  have "prefix (rx_wire x @ [W_Delete path]) (rx_wire (fst (delete_attempts v path b k x)))" for b k x
  proof (induction k arbitrary: b x)
    case (Suc k)
    note ih = Suc [of "x\<lparr>rx_wire := rx_wire x @ [W_Delete path],
        rx_writer_sleeps := rx_writer_sleeps x @ [b]\<rparr>" "b * 2", simplified]
    have "prefix (rx_wire x @ [W_Delete path]) ((rx_wire x @ [W_Delete path]) @ [W_Delete path])"
      unfolding prefix_def by blast
    from prefix_order.trans [OF this] ih show ?case
      by (simp add: delete_attempts.simps [of _ _ _ "Suc k"] Let_def)
  qed (simp add: delete_attempts.simps [of _ _ _ 0] Let_def)
  then show ?thesis by (simp add: rest_delete_def)
qed

lemma send_cancel_deletes:
  "\<exists>ws. rx_wire (fst (send_cancel v rec i e c now x)) = rx_wire x @ W_Delete (cancel_path i e) # ws"
proof -
  define x1 where "x1 = note_rest ''cancel_rest'' (Some i) c
    (x\<lparr>rx_cancels_attempted := rx_cancels_attempted x + 1\<rparr>)"
  define x2 where "x2 = fst (cancel_delete v i e x1)"
  have "prefix (rx_wire x @ [W_Delete (cancel_path i e)]) (rx_wire x2)"
    using delete_sent [of x1 "cancel_path i e" v]
    by (simp add: x2_def x1_def cancel_delete_def split_beta Let_def note_rest_def)
  then obtain us where us: "rx_wire x2 = rx_wire x @ W_Delete (cancel_path i e) # us"
    by (auto simp: prefix_def)
  have "\<exists>ws. rx_wire (fst (resolve_cancel_success v wr rec i now x2)) = rx_wire x2 @ ws" for wr
    using sends_success [of i e x2 v wr rec now] by (auto simp: sends_def)
  moreover have "\<exists>ws. rx_wire (fst (cancel_nonok v rec i e c now x2)) = rx_wire x2 @ ws"
    using sends_nonok [of i e x2 v rec c now] by (auto simp: sends_def)
  ultimately show ?thesis
    using us unfolding send_cancel_def x1_def [symmetric] split_beta Let_def x2_def [symmetric]
    by (auto split: if_splits)
qed

section \<open>The one event, and what it leaves\<close>

text \<open>The cancel resolved with \<open>n\<close> lots filled, or it gave up and the hour stands down.\<close>

definition cancel_outcome :: "string \<Rightarrow> lots \<Rightarrow> rest_exec \<Rightarrow> rest_exec \<Rightarrow> bool" where
  "cancel_outcome i n x y \<longleftrightarrow>
     (rx_cancels_confirmed y = rx_cancels_confirmed x + 1 \<and> rx_cancel_failed y = rx_cancel_failed x \<and>
      rx_last_gone y = Some i) \<or>
     (rx_cancels_confirmed y = rx_cancels_confirmed x \<and> rx_cancel_failed y = rx_cancel_failed x + 1 \<and>
      n = 0 \<and> rx_stand_down y \<noteq> None)"

definition one_cancelled :: "string \<Rightarrow> time \<Rightarrow> rest_exec \<Rightarrow> rest_exec \<times> rest_event list \<Rightarrow> bool" where
  "one_cancelled i now x res \<longleftrightarrow>
     (\<exists>n c p tk. snd res = [E_Cancelled (Some i) now n c p tk] \<and> cancel_outcome i n x (fst res))"

lemma cancel_counters [simp]:
  "rx_cancels_confirmed (bump k x) = rx_cancels_confirmed x"
  "rx_cancel_failed (bump k x) = rx_cancel_failed x"
  "rx_last_gone (bump k x) = rx_last_gone x"
  "rx_cancels_confirmed (note_rest kd j c x) = rx_cancels_confirmed x"
  "rx_cancel_failed (note_rest kd j c x) = rx_cancel_failed x"
  "rx_last_gone (note_rest kd j c x) = rx_last_gone x"
  "rx_stand_down (note_rest kd j c x) = rx_stand_down x"
  "rx_stand_down (bump k x) = rx_stand_down x"
  "rx_cancels_confirmed (record_alarm kd j c x) = rx_cancels_confirmed x"
  "rx_cancel_failed (record_alarm kd j c x) = rx_cancel_failed x"
  "rx_stand_down (record_alarm kd j c x) = rx_stand_down x"
  "rx_cancels_confirmed (put_rec r x) = rx_cancels_confirmed x"
  "rx_cancel_failed (put_rec r x) = rx_cancel_failed x"
  "rx_last_gone (put_rec r x) = rx_last_gone x"
  "rx_cancels_confirmed (book_race r n x) = rx_cancels_confirmed x"
  "rx_cancel_failed (book_race r n x) = rx_cancel_failed x"
  "rx_last_gone (book_race r n x) = rx_last_gone x"
  "rx_cancels_confirmed (latch_down s x) = rx_cancels_confirmed x"
  "rx_cancel_failed (latch_down s x) = rx_cancel_failed x"
  "rx_stand_down (latch_down s x) \<noteq> None"
  "rx_cancels_confirmed (sleep_x t x) = rx_cancels_confirmed x"
  "rx_cancel_failed (sleep_x t x) = rx_cancel_failed x"
  "rx_cancels_confirmed (note_404 wr x) = rx_cancels_confirmed x"
  "rx_cancel_failed (note_404 wr x) = rx_cancel_failed x"
  by (simp_all add: bump_def note_rest_def record_alarm_def put_rec_def book_race_def latch_down_def
      sleep_x_def note_404_def split: option.split)

lemma attempt_counters [simp]:
  "rx_cancels_confirmed (fst (delete_attempts v p b k x)) = rx_cancels_confirmed x"
  "rx_cancel_failed (fst (delete_attempts v p b k x)) = rx_cancel_failed x"
proof (induction k arbitrary: b x)
  case 0
  { case 1 show ?case by (subst delete_attempts.simps) simp }
  { case 2 show ?case by (subst delete_attempts.simps) simp }
next
  case (Suc k)
  { case 1 show ?case by (subst delete_attempts.simps) (simp add: Let_def Suc.IH) }
  { case 2 show ?case by (subst delete_attempts.simps) (simp add: Let_def Suc.IH) }
qed

lemma read_counters [simp]:
  "rx_cancels_confirmed (fst (cancel_delete v i e x)) = rx_cancels_confirmed x"
  "rx_cancel_failed (fst (cancel_delete v i e x)) = rx_cancel_failed x"
  "rx_cancels_confirmed (fst (read_status v i x)) = rx_cancels_confirmed x"
  "rx_cancel_failed (fst (read_status v i x)) = rx_cancel_failed x"
  by (simp_all add: cancel_delete_def rest_delete_def split_beta Let_def read_status_at)

lemma polls_counters [simp]:
  "rx_cancels_confirmed (fst (confirm_polls v i n k x)) = rx_cancels_confirmed x"
  "rx_cancel_failed (fst (confirm_polls v i n k x)) = rx_cancel_failed x"
  by (induction k arbitrary: n x) (simp_all add: split_beta Let_def)

lemma outcome_from:
  "rx_cancels_confirmed x = rx_cancels_confirmed w \<Longrightarrow> rx_cancel_failed x = rx_cancel_failed w \<Longrightarrow>
   one_cancelled i now x res \<Longrightarrow> one_cancelled i now w res"
  by (simp add: one_cancelled_def cancel_outcome_def)

lemma one_finished:
  "rx_cancels_confirmed x = Suc (rx_cancels_confirmed w) \<Longrightarrow> rx_cancel_failed x = rx_cancel_failed w \<Longrightarrow>
   rx_last_gone x = Some i \<Longrightarrow> one_cancelled i now w (finish_cancel rec i n q now x)"
  by (simp add: one_cancelled_def cancel_outcome_def finish_cancel_def Let_def split: option.split)

lemma one_success: "one_cancelled i now x (resolve_cancel_success v wr rec i now x)"
  unfolding resolve_cancel_success_def Let_def split_beta
  by (rule one_finished) (simp_all add: confirm_cancel_filled_def)

lemma one_resolved:
  "one_cancelled i now w alt \<Longrightarrow>
   rx_cancels_confirmed x = rx_cancels_confirmed w \<Longrightarrow> rx_cancel_failed x = rx_cancel_failed w \<Longrightarrow>
   one_cancelled i now w
     (case resolve_from_status st rec i now ex x of Some res \<Rightarrow> res | None \<Rightarrow> alt)"
  by (auto simp: resolve_from_status_def Let_def intro!: one_finished)

lemma one_gave_up: "one_cancelled i now x (cancel_gave_up rec i c now x)"
  by (simp add: one_cancelled_def cancel_outcome_def cancel_gave_up_def Let_def split: option.split)

lemma one_retries: "one_cancelled i now x (cancel_retries v rec i e c now ex ws x)"
proof (induction ws arbitrary: x)
  case Nil
  show ?case by (simp add: one_gave_up)
next
  case (Cons w ws)
  show ?case
    unfolding cancel_retries.simps Let_def split_beta
    by (auto intro!: one_resolved outcome_from [OF _ _ one_success] outcome_from [OF _ _ Cons.IH])
qed

lemma one_send_cancel: "one_cancelled i now x (send_cancel v rec i e c now x)"
  unfolding send_cancel_def cancel_nonok_def Let_def split_beta
  by (auto intro!: one_resolved outcome_from [OF _ _ one_success] outcome_from [OF _ _ one_retries])

section \<open>The count of a cancel that landed\<close>

text \<open>The lots the DELETE leaves filled: those placed less \<open>reduced_by\<close>, when it says.\<close>

definition placed_less :: "rest_record \<Rightarrow> (string \<times> json) list \<Rightarrow> lots" where
  "placed_less r kvs =
     (case field_dec kvs ''reduced_by'' of None \<Rightarrow> 0 | Some b \<Rightarrow> max 0 (of_int (rr_count r) - b))"

text \<open>What the venue says was filled: the larger of that and the last readable status from call \<open>n\<close>.\<close>

definition landed_count ::
  "rest_venue \<Rightarrow> string \<Rightarrow> rest_record \<Rightarrow> (string \<times> json) list \<Rightarrow> nat \<Rightarrow> lots" where
  "landed_count v i r kvs n = max (placed_less r kvs) (last_read os_filled_fp 0 (reads v i n 3))"

lemma landed_attempt:
  "hv_delete v (length (rx_wire x)) p = Reply (Some s) b \<Longrightarrow> 200 \<le> s \<Longrightarrow> s < 300 \<Longrightarrow>
   delete_attempts v p w k x =
     (x\<lparr>rx_wire := rx_wire x @ [W_Delete p]\<rparr>, classify_reply (Reply (Some s) b))"
  by (subst delete_attempts.simps) (simp add: transient_reply_def Let_def split: nat.split)

lemma landed_delete:
  assumes "hv_delete v (length (rx_wire x)) (cancel_path i e) = Reply (Some s) (Some (JObj kvs))"
    "200 \<le> s" "s < 300"
  shows "cancel_delete v i e x =
    (bump ''cancel_delete'' (x\<lparr>rx_wire := rx_wire x @ [W_Delete (cancel_path i e)]\<rparr>),
     \<lparr>wr_status = Some s, wr_body = kvs\<rparr>)"
  using landed_attempt [OF assms] assms(3)
  by (simp add: cancel_delete_def rest_delete_def classify_reply_def note_404_def)

lemma fractional_polls [simp]:
  "rx_fractional (fst (confirm_polls v i n k x)) = rx_fractional x"
proof (induction k arbitrary: n x)
  case (Suc k)
  show ?case unfolding confirm_polls_Suc Let_def by (simp add: Suc.IH sleep_x_def)
qed simp

lemma book_polls [simp]: "rx_book (fst (confirm_polls v i n k x)) = rx_book x"
  "rx_booked_oids (fst (confirm_polls v i n k x)) = rx_booked_oids x"
proof (induction k arbitrary: n x)
  case (Suc k)
  { case 1 show ?case unfolding confirm_polls_Suc Let_def by (simp add: Suc.IH sleep_x_def) }
  { case 2 show ?case unfolding confirm_polls_Suc Let_def by (simp add: Suc.IH sleep_x_def) }
qed simp_all

text \<open>The settled record of a cancel.\<close>

definition settled_record :: "rest_record \<Rightarrow> lots \<Rightarrow> time \<Rightarrow> rest_record" where
  "settled_record r n now =
     r\<lparr>rr_status := (if 0 < n then R_Filled else R_Cancelled), rr_cancel_confirmed_ts := Some now\<rparr>"

lemma finish_cancel_exact:
  "snd (finish_cancel (Some r) i n (Some q) now x) =
     [E_Cancelled (Some i) now q (Some (rr_coid r)) (Some (rr_price r)) (Some (rr_ticker r))]"
  "map_of (rx_book (fst (finish_cancel (Some r) i n (Some q) now x))) (rr_coid r) =
     Some (settled_record r q now)"
  "rr_order_id r = Some i \<Longrightarrow> 0 < q \<Longrightarrow>
     i \<in> set (rx_booked_oids (fst (finish_cancel (Some r) i n (Some q) now x)))"
  by (auto simp: finish_cancel_def Let_def note_rest_def book_race_def put_rec_def update_conv'
      settled_record_def split: option.split)

lemma success_exact:
  assumes "rx_fractional x"
  shows "\<exists>y n. resolve_cancel_success v \<lparr>wr_status = s, wr_body = kvs\<rparr> (Some r) i now x =
    finish_cancel (Some r) i n (Some (landed_count v i r kvs (length (rx_wire x)))) now y"
  using assms
  by (auto simp: landed_count_def resolve_cancel_success_def split_beta Let_def confirm_cancel_filled_def
      CANCEL_CONFIRM_POLLS_def polls_exact placed_less_def split: option.split)

lemma send_cancel_landed:
  assumes "rx_fractional x"
    "hv_delete v (length (rx_wire x)) (cancel_path i e) = Reply (Some s) (Some (JObj kvs))"
    "200 \<le> s" "s < 300"
  shows "\<exists>y n. send_cancel v (Some r) i e c now x =
    finish_cancel (Some r) i n (Some (landed_count v i r kvs (Suc (length (rx_wire x))))) now y"
proof -
  define x1 where "x1 = note_rest ''cancel_rest'' (Some i) c
    (x\<lparr>rx_cancels_attempted := rx_cancels_attempted x + 1\<rparr>)"
  define x2 where "x2 = bump ''cancel_delete'' (x1\<lparr>rx_wire := rx_wire x1 @ [W_Delete (cancel_path i e)]\<rparr>)"
  have w: "rx_wire x1 = rx_wire x" by (simp add: x1_def)
  have d: "cancel_delete v i e x1 = (x2, \<lparr>wr_status = Some s, wr_body = kvs\<rparr>)"
    unfolding x2_def by (rule landed_delete) (simp_all add: w assms)
  have x2: "rx_fractional x2" "length (rx_wire x2) = Suc (length (rx_wire x))"
    using assms(1) by (simp_all add: x2_def x1_def bump_def note_rest_def)
  have "send_cancel v (Some r) i e c now x =
      resolve_cancel_success v \<lparr>wr_status = Some s, wr_body = kvs\<rparr> (Some r) i now x2"
    unfolding send_cancel_def x1_def [symmetric] Let_def d using assms(3,4) by (simp add: wr_ok_def)
  then show ?thesis using success_exact [OF x2(1), of v "Some s" kvs r i now] by (simp add: x2(2))
qed

text \<open>
  The order a cancel names, its own id or the one the record of its client id has, and the shard
  of the order's record.
\<close>

definition cancel_target :: "rest_exec \<Rightarrow> v32_action \<Rightarrow> string option" where
  "cancel_target x a =
     or_else (a_order_id a)
       (case (case a_coid a of None \<Rightarrow> None | Some c \<Rightarrow> map_of (rx_book x) c) of
          None \<Rightarrow> None | Some r \<Rightarrow> rr_order_id r)"

definition cancel_shard :: "rest_exec \<Rightarrow> v32_action \<Rightarrow> string \<Rightarrow> int option" where
  "cancel_shard x a i =
     (case or_else (case a_coid a of None \<Rightarrow> None | Some c \<Rightarrow> map_of (rx_book x) c)
             (attribute x (a_coid a) (Some i)) of
        None \<Rightarrow> None | Some r \<Rightarrow> or_else (rr_exchange_index r) (exch_of x (rr_ticker r)))"

lemma cancel_rest_split:
  obtains (noop) "cancel_target x a = None"
      "cancel_rest v a now x = (bump ''cancel_noop'' x, [slot_cleared (a_coid a) now])"
  | (sent) rec i where "cancel_target x a = Some i"
      "cancel_rest v a now x = send_cancel v rec i (cancel_shard x a i) (a_coid a) now x"
proof (cases "cancel_target x a")
  case None
  with noop show thesis unfolding cancel_rest_def Let_def cancel_target_def by simp
next
  case (Some i)
  with sent show thesis unfolding cancel_rest_def Let_def cancel_target_def cancel_shard_def by simp
qed

lemma cancel_rest_named:
  assumes "a_coid a = Some c" "map_of (rx_book x) c = Some r"
    and "or_else (a_order_id a) (rr_order_id r) = Some i"
  shows "cancel_rest v a now x =
    send_cancel v (Some r) i (or_else (rr_exchange_index r) (exch_of x (rr_ticker r))) (Some c) now x"
  using assms by (simp add: cancel_rest_def Let_def or_else_def [of "Some r"])

end
