(* ===== verification/Rest_Place.thy ===== *)
theory Rest_Place
  imports Rest_Cancel
begin

text \<open>
  The create of a resting order and the wing takes: what a place sends (at most one POST, a
  post-only bid for NO with an expiration), what each outcome of that POST leaves behind, when the
  pre-place check refuses, and the one fill event per pending wing leg.
\<close>

section \<open>The body of a rest\<close>

definition rest_bid_of :: "rest_exec \<Rightarrow> v32_action \<Rightarrow> string \<Rightarrow> int \<Rightarrow> v2_order" where
  "rest_bid_of x a c e =
     \<lparr>v2_ticker = or_default [] (a_ticker a), v2_side = ''ask'',
      v2_count = fixed_text 2 (py_trunc (a_count a) * 100),
      v2_price = wire_price_no (or_default 0 (a_price a)), v2_tif = ''good_till_canceled'',
      v2_stp = ''taker_at_cross'', v2_post_only = Some True,
      v2_client_order_id = (if c \<noteq> [] then Some c else None),
      v2_pass = [(''exchange_index'', JInt e),
                 (''expiration_time'', JInt (expiration_of x (a_expiration_epoch a)))]\<rparr>"

lemma rest_body_exact: "rest_body x a c e = Inr (rest_bid_of x a c e)"
  by (simp add: rest_body_def to_v2_order_def rest_legacy_def yes_level_def BUY_NO_def bind_r_def
      or_default_def rest_bid_of_def passthrough_keys_def List.map_filter_simps)

lemma posts_keep [simp]:
  "posts (bump k x) = posts x" "posts (note_rest kd i c x) = posts x"
  "posts (record_alarm kd i c x) = posts x" "posts (put_rec r x) = posts x"
  by (simp_all add: posts_def)

lemma posts_reject [simp]: "posts (fst (reject_place c t u n now x)) = posts x"
  by (rule silent.keep_reject) simp

lemma posts_placed [simp]: "posts (fst (placed a c i e q now x)) = posts x"
  by (rule silent.keep_placed) simp

lemma posts_invariant [simp]: "posts (fst (pre_place_invariant v c now x)) = posts x"
  by (rule silent.keep_invariant) simp

lemma posts_send_place:
  "posts (fst (send_place v a c e b now x)) = posts x @ [W_Post REL_SINGLE_CREATE (Single b)]"
  by (auto simp: send_place_def rest_post_def Let_def split: option.split)
    (simp_all add: posts_def)

lemma bid_kept: "exec_le x y \<Longrightarrow> rest_bid_of y a c e = rest_bid_of x a c e"
  by (simp add: rest_bid_of_def expiration_of_def exec_le_def split: option.split)

section \<open>What a sent create leaves\<close>

lemma reject_wire [simp]: "rx_wire (fst (reject_place c t u n now x)) = rx_wire x"
  by (simp add: reject_place_def reject_unknown_def reject_clean_def Let_def split: option.split)

lemma placed_wire [simp]: "rx_wire (fst (placed a c i e q now x)) = rx_wire x"
  by (simp add: placed_def Let_def)

lemma send_place_wire:
  "rx_wire (fst (send_place v a c e b now x)) = rx_wire x @ [W_Post REL_SINGLE_CREATE (Single b)]"
  by (auto simp: send_place_def rest_post_def Let_def split: option.split)

lemma attribute_by_coid: "c \<noteq> [] \<Longrightarrow> map_of (rx_book x) c = Some r \<Longrightarrow> attribute x (Some c) j = Some r"
  by (simp add: attribute_def)

lemma book_keeps [simp]:
  "rx_book (bump k x) = rx_book x" "rx_book (note_rest kd i c x) = rx_book x"
  "rx_book (record_alarm kd i c x) = rx_book x"
  "rx_by_order_id (bump k x) = rx_by_order_id x"
  by (simp_all add: bump_def note_rest_def record_alarm_def)

lemma rejected_events: "snd (reject_place c t u n now x) = [slot_cleared (Some c) now]"
  by (simp add: reject_place_def Let_def)

lemma rejected_unknown:
  "\<exists>r. map_of (rx_book (fst (reject_place c t True n now x))) c = Some r \<and> rr_status r = R_Unknown \<and>
     rr_ticker r = t \<and> rr_price r = or_default 0 n"
  "rx_stand_down (fst (reject_place c t True n now x)) \<noteq> None"
  by (simp_all add: reject_place_def Let_def reject_unknown_def put_rec_def unknown_record_def
      update_conv')

lemma placed_live:
  assumes "i \<noteq> []"
  shows "\<exists>r. attribute (fst (placed a c i e q now x)) None (Some i) = Some r \<and> rr_coid r = c \<and>
    rr_order_id r = Some i \<and> rr_status r = R_Live \<and> rr_price r = or_default 0 (a_price a) \<and>
    rr_count r = py_trunc (a_count a) \<and> rr_exchange_index r = Some e"
  using assms
  by (simp add: placed_def Let_def attribute_def put_rec_def live_record_def update_conv')

definition create_reply :: "rest_venue \<Rightarrow> v2_order \<Rightarrow> rest_exec \<Rightarrow> write_response" where
  "create_reply v b x = classify_reply (hv_post v (length (rx_wire x) - 1) REL_SINGLE_CREATE (Single b))"

lemma send_place_unknown:
  assumes "unknown_outcome (create_reply v b (fst (send_place v a c e b now x)))"
  shows "\<exists>r. map_of (rx_book (fst (send_place v a c e b now x))) c = Some r \<and> rr_status r = R_Unknown \<and>
      rr_ticker r = or_default [] (a_ticker a) \<and> rr_price r = or_default 0 (a_price a)"
    "rx_stand_down (fst (send_place v a c e b now x)) \<noteq> None"
    "snd (send_place v a c e b now x) = [slot_cleared (Some c) now]"
proof -
  have "unknown_outcome (classify_reply (hv_post v (length (rx_wire x)) REL_SINGLE_CREATE (Single b)))"
    using assms by (simp add: create_reply_def send_place_wire)
  moreover from this have "\<not> wr_ok (classify_reply (hv_post v (length (rx_wire x)) REL_SINGLE_CREATE (Single b)))"
    by (auto simp: unknown_outcome_def wr_ok_def split: option.splits)
  ultimately have eq: "\<exists>y. send_place v a c e b now x =
      reject_place c (or_default [] (a_ticker a)) True (a_price a) now y"
    by (simp add: send_place_def rest_post_def Let_def) blast
  then obtain y where y: "send_place v a c e b now x =
      reject_place c (or_default [] (a_ticker a)) True (a_price a) now y" by blast
  show "\<exists>r. map_of (rx_book (fst (send_place v a c e b now x))) c = Some r \<and> rr_status r = R_Unknown \<and>
      rr_ticker r = or_default [] (a_ticker a) \<and> rr_price r = or_default 0 (a_price a)"
    "rx_stand_down (fst (send_place v a c e b now x)) \<noteq> None"
    "snd (send_place v a c e b now x) = [slot_cleared (Some c) now]"
    unfolding y by (rule rejected_unknown, rule rejected_unknown, rule rejected_events)
qed

lemma send_place_cases:
  "(\<exists>u m y. send_place v a c e b now x = reject_place c (or_default [] (a_ticker a)) u m now y) \<or>
   (\<exists>i q y. send_place v a c e b now x = placed a c i e q now y)"
  unfolding send_place_def Let_def split_beta
  by (cases "or_error (parse_no_response (snd (rest_post v REL_SINGLE_CREATE (Single b)
        (note_rest ''place_rest'' None (Some c) x))))"; 
      cases "or_order_id (parse_no_response (snd (rest_post v REL_SINGLE_CREATE (Single b)
        (note_rest ''place_rest'' None (Some c) x))))") (simp; blast)+

lemma placed_acks:
  "E_Ack k \<in> set (snd (placed a c i e q now x)) \<longleftrightarrow>
     k = \<lparr>oa_coid = c, oa_order_id = i, oa_server_ts = now\<rparr>"
  by (simp add: placed_def Let_def)

lemma send_place_acked:
  assumes "E_Ack k \<in> set (snd (send_place v a c e b now x))"
  obtains q y where "send_place v a c e b now x = placed a c (oa_order_id k) e q now y" "oa_coid k = c"
  using send_place_cases [of v a c e b now x]
proof (elim disjE exE)
  fix u m y assume "send_place v a c e b now x = reject_place c (or_default [] (a_ticker a)) u m now y"
  with assms show thesis by (simp add: rejected_events slot_cleared_def)
next
  fix i q y assume eq: "send_place v a c e b now x = placed a c i e q now y"
  with assms have "k = \<lparr>oa_coid = c, oa_order_id = i, oa_server_ts = now\<rparr>" by (simp add: placed_acks)
  with eq show thesis by (intro that [of q y]) simp_all
qed

text \<open>A 2xx reply with no readable order id is a clean rejection: nothing is recorded.\<close>

lemma send_place_unreadable:
  assumes "wr_ok resp" "or_order_id (parse_no_response resp) = None"
    and "resp = classify_reply (hv_post v (length (rx_wire x)) REL_SINGLE_CREATE (Single b))"
  shows "\<exists>y. send_place v a c e b now x = reject_place c (or_default [] (a_ticker a)) False None now y \<and>
    rx_book y = rx_book x \<and> rx_by_order_id y = rx_by_order_id x \<and> rx_stand_down y = rx_stand_down x \<and>
    rx_consecutive_rejects y = rx_consecutive_rejects x"
proof -
  define y where "y = bump ''rest_post'' ((note_rest ''place_rest'' None (Some c) x)
    \<lparr>rx_wire := rx_wire x @ [W_Post REL_SINGLE_CREATE (Single b)],
     rx_rests_placed := rx_rests_placed x + 1\<rparr>)"
  have "send_place v a c e b now x = reject_place c (or_default [] (a_ticker a)) False None now y"
    using assms
    by (simp add: send_place_def rest_post_def Let_def y_def note_rest_def split: option.split)
  moreover have "rx_book y = rx_book x \<and> rx_by_order_id y = rx_by_order_id x \<and>
      rx_stand_down y = rx_stand_down x \<and> rx_consecutive_rejects y = rx_consecutive_rejects x"
    by (simp add: y_def bump_def note_rest_def)
  ultimately show ?thesis by blast
qed

lemma clean_rejection:
  assumes "map_of (rx_book x) c = None" "rx_consecutive_rejects x + 1 < CONSECUTIVE_REJECT_STANDDOWN"
  shows "rx_book (fst (reject_place c t False n now x)) = rx_book x"
    "rx_by_order_id (fst (reject_place c t False n now x)) = rx_by_order_id x"
    "rx_stand_down (fst (reject_place c t False n now x)) = rx_stand_down x"
  using assms
  by (simp_all add: reject_place_def reject_clean_def Let_def bump_def note_rest_def)

section \<open>Place\<close>

lemma place_sent:
  assumes "place_rest v a now x = Inr res" "posts (fst res) \<noteq> posts x"
  obtains e y where "exch_of x (or_default [] (a_ticker a)) = Some e" "exec_le x y"
    "posts y = posts x"
    "res = send_place v a (or_default [] (a_coid a)) e
             (rest_bid_of x a (or_default [] (a_coid a)) e) now y"
proof -
  define y where "y = fst (pre_place_invariant v (or_default [] (a_coid a)) now x)"
  have le: "exec_le x y" unfolding y_def by (rule kept.keep_invariant) simp
  have same: "posts y = posts x" by (simp add: y_def)
  show thesis
  proof (cases "exch_of x (or_default [] (a_ticker a))")
    case None
    with assms show ?thesis by (auto simp: place_rest_def Let_def)
  next
    case (Some e)
    have "res = send_place v a (or_default [] (a_coid a)) e (rest_bid_of y a (or_default [] (a_coid a)) e) now y"
      using assms Some same
      by (auto simp: place_rest_def Let_def split_beta y_def rest_body_exact bind_r_def split: option.splits)
    then show ?thesis using that [OF Some le same] by (simp add: bid_kept [OF le])
  qed
qed

text \<open>One of ours still rests on the venue after the second read: nothing is sent, the hour ends.\<close>

lemma place_refused:
  assumes "exch_of x (or_default [] (a_ticker a)) = Some e"
    and "survivors v now x = (x1, r # rs)"
    and "survivors v now (sleep_x INVARIANT_RECHECK_S
           (bump ''rest_invariant_recheck'' (x1\<lparr>rx_rechecks := rx_rechecks x1 + 1\<rparr>))) = (x3, r' # rs')"
    and "confirm_strays v now (r' # rs') x3 = (x4, n, evs, u)" "0 < n"
  shows "\<exists>y. place_rest v a now x = Inr (y, [slot_cleared (Some (or_default [] (a_coid a))) now]) \<and>
    posts y = posts x \<and> rx_stand_down y \<noteq> None \<and> rx_violations y = rx_violations x4 + 1"
proof -
  define c where "c = or_default [] (a_coid a)"
  obtain y where out: "pre_place_invariant v c now x = (y, Some [slot_cleared (Some c) now])"
    and y: "rx_stand_down y \<noteq> None" "rx_violations y = rx_violations x4 + 1"
    using assms(2-5)
    by (simp add: pre_place_invariant_def Let_def stray_outcome_def latch_down_def bump_def
        note_rest_def record_alarm_def split: if_splits)
  have "posts y = posts x" using posts_invariant [of v c now x] by (simp add: out)
  with out y assms(1) show ?thesis by (simp add: place_rest_def Let_def c_def)
qed

end
