(* ===== verification/Rest_Wings.thy ===== *)
theory Rest_Wings
  imports Rest_Place "HOL-Library.Multiset"
begin

text \<open>
  The wing takes of the maker executor: the legs that have a shard are sent as one POST, every
  pending leg gets exactly one fill event, and the lots captured for the money math are those of
  the events that filled.
\<close>

section \<open>The legs that are sent\<close>

definition routed_leg :: "rest_exec \<Rightarrow> wing_leg \<Rightarrow> bool" where
  "routed_leg x l \<longleftrightarrow> exch_of x (wl_ticker l) \<noteq> None"

lemma routed_leg_keeps [simp]:
  "routed_leg (record_alarm k i c x) = routed_leg x"
  "routed_leg (x\<lparr>rx_wing_coids := cs\<rparr>) = routed_leg x"
  by (simp_all add: fun_eq_iff routed_leg_def exch_of_def record_alarm_def note_rest_def bump_def)

lemma entries_routed:
  "wing_entries x ls = Inr (y, es) \<Longrightarrow> map fst es = filter (routed_leg x) ls"
proof (induction ls arbitrary: x es)
  case (Cons l ls)
  show ?case
  proof (cases "exch_of x (wl_ticker l)")
    case None
    with Cons show ?thesis by (auto simp: routed_leg_def [of x l])
  next
    case (Some e)
    with Cons.prems obtain b y' es' where
      "wing_entries (x\<lparr>rx_wing_coids := List.insert (wl_coid l) (rx_wing_coids x)\<rparr>) ls = Inr (y, es')"
      "es = (l, b) # es'"
      by (auto simp: bind_r_def split: sum.splits)
    with Cons.IH Some show ?thesis by (auto simp: routed_leg_def [of x l])
  qed
qed simp

lemma entries_fills: "wing_entries x ls = Inr (y, es) \<Longrightarrow> rx_fills y = rx_fills x"
proof (induction ls arbitrary: x es)
  case (Cons l ls)
  then show ?case
    by (fastforce simp: bind_r_def record_alarm_def note_rest_def bump_def
        split: option.splits sum.splits)
qed simp

lemma entries_posts: "wing_entries x ls = Inr (y, es) \<Longrightarrow> posts y = posts x"
proof (induction ls arbitrary: x es)
  case (Cons l ls)
  then show ?case
    by (fastforce simp: bind_r_def posts_def record_alarm_def note_rest_def bump_def
        split: option.splits sum.splits)
qed simp

section \<open>One event per leg\<close>

text \<open>The captures of the legs that filled.\<close>

definition captured :: "fill_capture list \<Rightarrow> fill list \<Rightarrow> bool" where
  "captured cs fs \<longleftrightarrow>
     map (\<lambda>c. (fc_leg c, fc_coid c, fc_price c, fc_count c)) cs =
     map (\<lambda>f. (''wing'', fi_coid f, fi_price f, q_count (fi_count f))) (filter (\<lambda>f. 0 < fi_count f) fs)"

lemma wing_result_cases:
  obtains i y where "wing_result ok l r now x = (y, no_wing_fill l i now)"
      "rx_fills y = rx_fills x" "posts y = posts x"
  | p price y where "wing_result ok l r now x =
        (y, E_Fill \<lparr>fi_order_id = or_order_id p, fi_coid = wl_coid l, fi_count = or_fill_count p,
                    fi_price = price, fi_side = wl_side l, fi_server_ts = now\<rparr>)"
      "rx_fills y = rx_fills x @ [wing_capture l p price]" "posts y = posts x" "0 < or_fill_count p"
proof (cases "\<exists>p. r = Some p \<and> ok \<and> or_error p = None \<and> 0 < or_fill_count p")
  case True
  then show thesis using that(2) by (auto simp: wing_result_def Let_def bump_def posts_def)
next
  case False
  then have "\<exists>i y. wing_result ok l r now x = (y, no_wing_fill l i now) \<and>
      rx_fills y = rx_fills x \<and> posts y = posts x"
    by (auto simp: wing_result_def Let_def note_rest_def posts_def split: option.split)
  then show thesis using that(1) by blast
qed

lemma wing_result_fill:
  "\<exists>f cs. snd (wing_result ok l r now x) = E_Fill f \<and> fi_coid f = wl_coid l \<and>
     fi_side f = wl_side l \<and> rx_fills (fst (wing_result ok l r now x)) = rx_fills x @ cs \<and>
     captured cs [f] \<and> posts (fst (wing_result ok l r now x)) = posts x"
  by (rule wing_result_cases [of ok l r now x])
    (simp_all add: no_wing_fill_def captured_def wing_capture_def)

lemma captured_append: "captured cs fs \<Longrightarrow> captured ds gs \<Longrightarrow> captured (cs @ ds) (fs @ gs)"
  by (simp add: captured_def)

lemma captured_counts:
  assumes "captured cs fs"
  shows "map (\<lambda>c. (fc_coid c, fc_price c, fc_count c)) cs =
    map (\<lambda>f. (fi_coid f, fi_price f, q_count (fi_count f))) (filter (\<lambda>f. 0 < fi_count f) fs)"
  using assms [unfolded captured_def, THEN arg_cong [where f = "map snd"]] by (simp add: comp_def)

lemma wing_events_fills:
  assumes "wing_events ps ok now ls x = Inr (y, es)"
  shows "\<exists>fs cs. es = map E_Fill fs \<and> map fi_coid fs = map wl_coid ls \<and>
    rx_fills y = rx_fills x @ cs \<and> captured cs fs \<and> posts y = posts x"
  using assms
proof (induction ls arbitrary: x es)
  case Nil
  then show ?case by (simp add: captured_def)
next
  case (Cons l ls)
  then obtain resp es' where rest: "wing_events ps ok now ls (fst (wing_result ok l resp now x)) = Inr (y, es')"
    and es: "es = snd (wing_result ok l resp now x) # es'"
    by (auto simp: bind_r_def split_beta Let_def split: sum.splits)
  obtain f cs where f: "snd (wing_result ok l resp now x) = E_Fill f" "fi_coid f = wl_coid l"
    "rx_fills (fst (wing_result ok l resp now x)) = rx_fills x @ cs" "captured cs [f]"
    "posts (fst (wing_result ok l resp now x)) = posts x"
    using wing_result_fill [of ok l resp now x] by blast
  obtain fs ds where fs: "es' = map E_Fill fs" "map fi_coid fs = map wl_coid ls"
    "rx_fills y = rx_fills (fst (wing_result ok l resp now x)) @ ds" "captured ds fs"
    "posts y = posts (fst (wing_result ok l resp now x))"
    using Cons.IH [OF rest] by blast
  show ?case
    using f fs es captured_append [OF f(4) fs(4)]
    by (intro exI [of _ "f # fs"] exI [of _ "cs @ ds"]) simp
qed

lemma send_wings_posts:
  "posts (fst (send_wings v es x)) = posts x @
     [case es of [e] \<Rightarrow> W_Post REL_SINGLE_CREATE (Single e) | _ \<Rightarrow> W_Post REL_BATCH_CREATE (Batch es)]"
  "rx_fills (fst (send_wings v es x)) = rx_fills x"
  by (simp_all add: send_wings_def rest_post_def posts_def bump_def note_rest_def Let_def split: list.split)

lemma batch_fills:
  assumes "batch_wings v rs now x = Inr (y, es)"
  shows "\<exists>fs cs. es = map E_Fill fs \<and> map fi_coid fs = map (wl_coid \<circ> fst) rs \<and>
    rx_fills y = rx_fills x @ cs \<and> captured cs fs \<and>
    posts y = posts (fst (send_wings v (map snd rs) x))"
proof -
  obtain ps where "wing_events ps (wr_ok (snd (send_wings v (map snd rs) x))) now (map fst rs)
      (fst (send_wings v (map snd rs) x)) = Inr (y, es)"
    using assms by (auto simp: batch_wings_def split_beta Let_def bind_r_def split: sum.splits)
  from wing_events_fills [OF this] show ?thesis by (simp add: send_wings_posts(2))
qed

lemma unrouted_legs:
  assumes "distinct (map wl_coid ls)"
  shows "filter (\<lambda>l. wl_coid l \<notin> wl_coid ` set (filter P ls)) ls = filter (\<lambda>l. \<not> P l) ls"
  using assms by (intro filter_cong) (auto simp: distinct_map inj_on_def)

lemma take_wings_fills:
  fixes ls :: "wing_leg list"
  defines "pending \<equiv> filter (\<lambda>l. wl_status l = Pending) ls"
  assumes "take_wings v ls now x = Inr (y, evs)" "distinct (map wl_coid pending)"
  shows "\<exists>fs cs. evs = map E_Fill fs \<and> mset (map fi_coid fs) = mset (map wl_coid pending) \<and>
    rx_fills y = rx_fills x @ cs \<and> captured cs fs"
    "posts y = posts x \<or> (\<exists>es. posts y = posts (fst (send_wings v es x)) \<and>
       length es = length (filter (routed_leg x) pending))"
proof -
  obtain x1 rs where entries: "wing_entries x pending = Inr (x1, rs)"
    using assms(2) by (auto simp: take_wings_def Let_def bind_r_def pending_def split: sum.splits)
  note routed = entries_routed [OF entries]
  define un where "un = map (\<lambda>l. \<lparr>fi_order_id = None, fi_coid = wl_coid l, fi_count = 0,
      fi_price = wl_limit l, fi_side = wl_side l, fi_server_ts = now\<rparr>) (filter (\<lambda>l. \<not> routed_leg x l) pending)"
  have coids: "(wl_coid \<circ> fst) ` set rs = wl_coid ` set (filter (routed_leg x) pending)"
    by (metis image_comp list.set_map routed)
  have un: "map (\<lambda>l. no_wing_fill l None now) (filter (\<lambda>l. wl_coid l \<notin> (wl_coid \<circ> fst) ` set rs) pending) =
      map E_Fill un"
    unfolding coids unrouted_legs [OF assms(3)] by (simp add: un_def no_wing_fill_def)
  have quiet: "captured [] un" by (simp add: captured_def un_def comp_def)
  have "mset (map wl_coid pending) =
      mset (map wl_coid (filter (\<lambda>l. \<not> routed_leg x l) pending)) +
      mset (map wl_coid (filter (routed_leg x) pending))"
    by (subst add.commute) (simp flip: image_mset_union)
  moreover have "map (wl_coid \<circ> fst) rs = map wl_coid (filter (routed_leg x) pending)"
    by (metis map_map routed)
  moreover have "map fi_coid un = map wl_coid (filter (\<lambda>l. \<not> routed_leg x l) pending)"
    by (simp add: un_def)
  ultimately have parts: "mset (map wl_coid pending) = mset (map fi_coid un) + mset (map (wl_coid \<circ> fst) rs)"
    by simp
  have both: "(\<exists>fs cs. evs = map E_Fill fs \<and> mset (map fi_coid fs) = mset (map wl_coid pending) \<and>
      rx_fills y = rx_fills x @ cs \<and> captured cs fs) \<and>
    (posts y = posts x \<or> (\<exists>es. posts y = posts (fst (send_wings v es x)) \<and>
       length es = length (filter (routed_leg x) pending)))"
  proof (cases "rs = []")
    case True
    with assms(2) entries have "y = x1" "evs = map E_Fill un"
      using un by (auto simp: take_wings_def Let_def bind_r_def pending_def [symmetric])
    with True parts quiet entries_fills [OF entries] entries_posts [OF entries] show ?thesis
      by (metis append_Nil2 add.right_neutral list.map_disc_iff mset.simps(1))
  next
    case False
    then obtain es where batch: "batch_wings v rs now x1 = Inr (y, es)" "evs = map E_Fill un @ es"
      using assms(2) entries un
      by (auto simp: take_wings_def Let_def bind_r_def pending_def [symmetric] split: sum.splits)
    obtain fs cs where fs: "es = map E_Fill fs" "map fi_coid fs = map (wl_coid \<circ> fst) rs"
      "rx_fills y = rx_fills x1 @ cs" "captured cs fs"
      "posts y = posts (fst (send_wings v (map snd rs) x1))"
      using batch_fills [OF batch(1)] by blast
    have "posts y = posts (fst (send_wings v (map snd rs) x))"
      using fs(5) by (simp add: send_wings_posts entries_posts [OF entries])
    moreover have "length (map snd rs) = length (filter (routed_leg x) pending)"
      by (metis length_map routed)
    moreover have "evs = map E_Fill (un @ fs)" "mset (map fi_coid (un @ fs)) = mset (map wl_coid pending)"
      using batch(2) fs(1,2) parts by simp_all
    moreover have "captured cs (un @ fs)" using captured_append [OF quiet fs(4)] by simp
    moreover have "rx_fills y = rx_fills x @ cs" using fs(3) entries_fills [OF entries] by simp
    ultimately show ?thesis by blast
  qed
  show "\<exists>fs cs. evs = map E_Fill fs \<and> mset (map fi_coid fs) = mset (map wl_coid pending) \<and>
    rx_fills y = rx_fills x @ cs \<and> captured cs fs" by (rule both [THEN conjunct1])
  show "posts y = posts x \<or> (\<exists>es. posts y = posts (fst (send_wings v es x)) \<and>
       length es = length (filter (routed_leg x) pending))" by (rule both [THEN conjunct2])
qed

end
