(* ===== verification/Rest_Example.thy ===== *)
theory Rest_Example
  imports Rest_Wings
begin

text \<open>
  Worked instances of the maker executor: a venue that answers a create with a 503 and a cancel
  with a partial \<open>reduced_by\<close>, one that answers a create with a body that is not JSON, and the
  rest and the wing legs sent to them.
\<close>

definition ex_rest :: rest_exec where
  "ex_rest = new_rest_exec [(''B1'', (5/2, 7/2))] [(''B1'', Some 2), (''W1'', Some 2)] 1000 60"

definition ex_place :: v32_action where
  "ex_place = (blank_action PLACE_REST)
     \<lparr>a_ticker := Some ''B1'', a_count := 3, a_price := Some (2/5), a_coid := Some ''v32-a''\<rparr>"

definition ex_cancel :: v32_action where
  "ex_cancel = (blank_action CANCEL_REST)\<lparr>a_coid := Some ''v32-a'', a_order_id := Some ''o1''\<rparr>"

text \<open>No order of ours rests; an order's status reads executed with 2 lots filled.\<close>

definition ex_get :: "nat \<Rightarrow> string \<Rightarrow> json option" where
  "ex_get n path =
     (if path = ''/portfolio/orders/o1''
      then Some (JObj [(''status'', JStr ''canceled''), (''fill_count'', JStr ''2'')])
      else Some (JObj [(''orders'', JList [])]))"

definition ex_down :: rest_venue where
  "ex_down = \<lparr>hv_post = (\<lambda>n path b. Reply (Some 503) None),
              hv_delete = (\<lambda>n path. Reply (Some 200) (Some (JObj [(''reduced_by'', JStr ''2'')]))),
              hv_get = ex_get\<rparr>"

definition ex_mute :: rest_venue where
  "ex_mute = ex_down\<lparr>hv_post := (\<lambda>n path b. Reply (Some 201) None)\<rparr>"

definition ex_acking :: rest_venue where
  "ex_acking = ex_down\<lparr>hv_post := (\<lambda>n path b. Reply (Some 201)
     (Some (JObj [(''order_id'', JStr ''o1''), (''fill_count'', JStr ''0'')])))\<rparr>"

lemma ex_place_clear:
  "pre_place_invariant v c now ex_rest = (ex_rest\<lparr>rx_wire := [W_Get (OPEN_ORDERS_PATH @ ''?status=resting'')]\<rparr>, None)"
  if "hv_get v = ex_get" for v
  using that
  by (simp add: pre_place_invariant_def survivors_def venue_resting_ours_def rest_get_def ex_get_def
      ex_rest_def new_rest_exec_def OPEN_ORDERS_PATH_def Let_def)

definition ex_listed :: rest_exec where
  "ex_listed = ex_rest\<lparr>rx_wire := [W_Get (OPEN_ORDERS_PATH @ ''?status=resting'')]\<rparr>"

lemma ex_place_fields [simp]:
  "a_ticker ex_place = Some ''B1''" "a_coid ex_place = Some ''v32-a''" "a_count ex_place = 3"
  "a_price ex_place = Some (2/5)" "a_kind ex_place = PLACE_REST" "a_expiration_epoch ex_place = None"
  by (simp_all add: ex_place_def blank_action_def)

lemma ex_exch [simp]: "exch_of ex_rest ''B1'' = Some 2" "exch_of ex_rest ''W1'' = Some 2"
  by (simp_all add: exch_of_def ex_rest_def new_rest_exec_def)

lemma ex_place_result:
  "hv_get v = ex_get \<Longrightarrow> place_rest v ex_place 10 ex_rest =
     Inr (send_place v ex_place ''v32-a'' 2 (rest_bid_of ex_listed ex_place ''v32-a'' 2) 10 ex_listed)"
  by (simp add: place_rest_def ex_place_clear rest_body_exact ex_listed_def [symmetric] bind_r_def
      Let_def or_default_def)

lemma ex_posts: "posts ex_rest = []" "posts ex_listed = []"
  by (simp_all add: posts_def ex_rest_def ex_listed_def new_rest_exec_def)

text \<open>
  A create answered 2xx with a body that is no JSON object: no order id can be read, and the place
  counts as cleanly rejected. Nothing is recorded for the client id and the hour goes on.
\<close>

lemma mute_reply: "parse_no_response \<lparr>wr_status = Some 201, wr_body = []\<rparr> = r \<Longrightarrow> or_order_id r = None"
  by (auto simp: parse_no_response_def parse_single_response_def parse_entry_response_def
      normalize_fill_to_side_def json_field_def json_text_def BUY_NO_def Let_def split: sum.splits option.splits)

lemma mute_create_forgotten:
  "\<exists>y. place_rest ex_mute ex_place 10 ex_rest = Inr (y, [slot_cleared (Some ''v32-a'') 10]) \<and>
     posts y \<noteq> [] \<and> attribute y (Some ''v32-a'') None = None \<and> rx_stand_down y = None"
proof -
  have get: "hv_get ex_mute = ex_get" by (simp add: ex_mute_def ex_down_def)
  define b where "b = rest_bid_of ex_listed ex_place ''v32-a'' 2"
  have reply: "classify_reply (hv_post ex_mute n p q) = \<lparr>wr_status = Some 201, wr_body = []\<rparr>" for n p q
    by (simp add: classify_reply_def ex_mute_def)
  have ok: "wr_ok \<lparr>wr_status = Some 201, wr_body = []\<rparr>" by (simp add: wr_ok_def)
  have start: "rx_book ex_listed = []" "rx_by_order_id ex_listed = []" "rx_stand_down ex_listed = None"
    "rx_consecutive_rejects ex_listed = 0"
    by (simp_all add: ex_listed_def ex_rest_def new_rest_exec_def)
  obtain y where y: "send_place ex_mute ex_place ''v32-a'' 2 b 10 ex_listed =
      reject_place ''v32-a'' (or_default [] (a_ticker ex_place)) False None 10 y"
    "rx_book y = []" "rx_by_order_id y = []" "rx_stand_down y = None" "rx_consecutive_rejects y = 0"
    using send_place_unreadable [OF ok mute_reply [OF refl] reply [symmetric], where x = ex_listed
        and b = b and a = ex_place and c = "''v32-a''" and e = 2 and now = 10]
    unfolding start by blast
  define res where "res = send_place ex_mute ex_place ''v32-a'' 2 b 10 ex_listed"
  have few: "map_of (rx_book y) ''v32-a'' = None"
    "rx_consecutive_rejects y + 1 < CONSECUTIVE_REJECT_STANDDOWN"
    using y by (simp_all add: CONSECUTIVE_REJECT_STANDDOWN_def)
  have "rx_book (fst res) = []" "rx_by_order_id (fst res) = []" "rx_stand_down (fst res) = None"
    unfolding res_def y(1) clean_rejection [OF few] by (rule y)+
  then have fields: "attribute (fst res) (Some ''v32-a'') None = None" "rx_stand_down (fst res) = None"
    by (simp_all add: attribute_def)
  have "snd res = [slot_cleared (Some ''v32-a'') 10]" unfolding res_def y(1) by (rule rejected_events)
  then have "place_rest ex_mute ex_place 10 ex_rest = Inr (fst res, [slot_cleared (Some ''v32-a'') 10])"
    by (simp add: ex_place_result [OF get] res_def b_def [symmetric] prod_eq_iff)
  moreover have "posts (fst res) \<noteq> []" by (simp add: res_def posts_send_place)
  ultimately show ?thesis using fields by blast
qed


section \<open>A create answered 503\<close>

definition ex_bid :: v2_order where
  "ex_bid = rest_bid_of ex_rest ex_place ''v32-a'' 2"

lemma ex_bid_listed: "rest_bid_of ex_listed ex_place ''v32-a'' 2 = ex_bid"
  by (simp add: ex_bid_def rest_bid_of_def expiration_of_def ex_listed_def)

definition ex_after :: "rest_exec \<times> rest_event list" where
  "ex_after = send_place ex_down ex_place ''v32-a'' 2 ex_bid 10 ex_listed"

lemma ex_after_place:
  "place_rest ex_down ex_place 10 ex_rest = Inr ex_after"
  "on_action ex_down ex_place [] 10 ex_rest = Inr ex_after"
proof -
  have "hv_get ex_down = ex_get" by (simp add: ex_down_def)
  then show "place_rest ex_down ex_place 10 ex_rest = Inr ex_after"
    by (simp add: ex_place_result ex_bid_listed ex_after_def)
  then show "on_action ex_down ex_place [] 10 ex_rest = Inr ex_after" by (simp add: on_action_def)
qed

lemma ex_after_unknown: "unknown_outcome (create_reply ex_down ex_bid (fst ex_after))"
  by (simp add: create_reply_def ex_down_def classify_reply_def unknown_outcome_def)

lemma ex_after_sent: "posts (fst ex_after) \<noteq> posts ex_rest"
  by (simp add: ex_after_def posts_send_place ex_posts)

lemma ex_after_known: "attribute (fst ex_after) (Some ''v32-a'') None \<noteq> None"
  using send_place_unknown(1) [OF ex_after_unknown [unfolded ex_after_def]]
  by (auto simp: ex_after_def attribute_def)

section \<open>A cancel that finds two lots filled\<close>

definition ex_record :: rest_record where
  "ex_record =
     \<lparr>rr_coid = ''v32-a'', rr_order_id = Some ''o1'', rr_price = 2/5, rr_count = 3, rr_ticker = ''B1'',
      rr_bucket_Sd = Some 2, rr_placed_ts = 10, rr_status = R_Live, rr_exchange_index = Some 2,
      rr_expiration_epoch = Some 1000, rr_cancel_confirmed_ts = None\<rparr>"

definition ex_held :: rest_exec where
  "ex_held = ex_rest\<lparr>rx_book := [(''v32-a'', ex_record)], rx_by_order_id := [(''o1'', ''v32-a'')]\<rparr>"

lemma ex_held_fields [simp]:
  "rx_fractional ex_held" "map_of (rx_book ex_held) ''v32-a'' = Some ex_record" "rx_wire ex_held = []"
  by (simp_all add: ex_held_def ex_rest_def new_rest_exec_def)

lemma ex_status: "status_at ex_down ''o1'' n = parse_order_status
    (JObj [(''status'', JStr ''canceled''), (''fill_count'', JStr ''2'')]) ''o1''"
  by (simp add: status_at_def ex_down_def ex_get_def order_status_path_def)

lemma ex_status_settled:
  "settled (status_at ex_down ''o1'' n)" "os_filled_fp (status_at ex_down ''o1'' n) = 2"
  unfolding ex_status by code_simp+

lemma ex_landed:
  "landed_count ex_down ''o1'' ex_record [(''reduced_by'', JStr ''2'')] n = 2"
proof -
  have "placed_less ex_record [(''reduced_by'', JStr ''2'')] = 1" by code_simp
  then show ?thesis
    by (simp add: landed_count_def reads_def upt_rec ex_status_settled settled_available)
qed

section \<open>Wing legs\<close>

definition ex_wing :: "ticker \<Rightarrow> string \<Rightarrow> wing_leg" where
  "ex_wing tk c = \<lparr>wl_ticker = tk, wl_side = ''yes'', wl_count = 2, wl_limit = 1/4, wl_coid = c,
     wl_status = Pending, wl_fill_price = None, wl_fill_fee = None, wl_batch = 0\<rparr>"

lemma ex_exch_upd [simp]:
  "exch_of (record_alarm k i c x) = exch_of x" "exch_of (x\<lparr>rx_wing_coids := cs\<rparr>) = exch_of x"
  by (simp_all add: fun_eq_iff exch_of_def record_alarm_def note_rest_def bump_def)

lemma ex_no_shard [simp]: "exch_of ex_rest ''W2'' = None"
  by (simp add: exch_of_def ex_rest_def new_rest_exec_def)

lemma ex_entry: "\<exists>b. wing_entry (ex_wing tk c) 2 = Inr b"
  by (simp add: wing_entry_def to_v2_order_def wing_legacy_def yes_level_def or_default_def bind_r_def
      ex_wing_def)

lemma ex_refused: "snd (send_wings ex_down [b] x) = \<lparr>wr_status = Some 503, wr_body = []\<rparr>"
  by (simp add: send_wings_def rest_post_def Let_def classify_reply_def ex_down_def)

lemma ex_wings_taken:
  obtains y evs where
    "take_wings ex_down [ex_wing ''W1'' ''w1'', ex_wing ''W2'' ''w2''] 10 ex_rest = Inr (y, evs)"
proof -
  obtain b where b: "wing_entry (ex_wing ''W1'' ''w1'') 2 = Inr b" using ex_entry by blast
  have "wl_ticker (ex_wing tk c) = tk" "wl_status (ex_wing tk c) = Pending" for tk c
    by (simp_all add: ex_wing_def)
  then have "\<exists>res. take_wings ex_down [ex_wing ''W1'' ''w1'', ex_wing ''W2'' ''w2''] 10 ex_rest = Inr res"
    using b ex_refused
    by (simp add: take_wings_def batch_wings_def bind_r_def split_beta Let_def wing_parsed_def wr_ok_def
        leg_response_def)
  with that show thesis by auto
qed

end
