(* ===== verification/Rest_Properties.thy ===== *)
theory Rest_Properties
  imports Rest_Example
begin

text \<open>
  The properties of the V3.2 maker executor, each with an instance where it has hypotheses.
\<close>

section \<open>The records\<close>

text \<open>
  In any run of a new executor, startup sweep and websocket fills included, whatever the venue
  answers: a client or order id that names a record names one for ever, each order id's rest fill
  is captured once and every rest capture has its order id, the first stand-down reason stays, and
  the wire, the journal and the captures are only appended to.
\<close>

theorem rest_records_kept:
  assumes "rest_step\<^sup>*\<^sup>* (new_rest_exec bm exch close_epoch quote_end) x" and "rest_step\<^sup>*\<^sup>* x y"
  shows "(attribute x c i \<noteq> None \<longrightarrow> attribute y c i \<noteq> None) \<and>
    distinct (rx_booked_oids y) \<and>
    length (filter (\<lambda>f. fc_leg f = ''rest'') (rx_fills y)) = length (rx_booked_oids y) \<and>
    (rx_stand_down x \<noteq> None \<longrightarrow> rx_stand_down y = rx_stand_down x) \<and>
    prefix (rx_wire x) (rx_wire y) \<and> prefix (rx_journal x) (rx_journal y) \<and>
    prefix (rx_fills x) (rx_fills y)"
proof -
  have ok: "exec_ok x" "exec_ok y"
    using run_ok [OF assms(1)] run_ok [OF rtranclp_trans [OF assms]] by simp_all
  have le: "exec_le x y" by (rule run_le [OF assms(2)])
  have "attribute x c i \<noteq> None \<longrightarrow> attribute y c i \<noteq> None"
    using attribute_kept [OF le ok] by blast
  with ok(2) le show ?thesis by (simp add: exec_ok_def exec_le_def)
qed

theorem rest_records_kept_witness:
  "\<exists>x y. rest_step\<^sup>*\<^sup>* ex_rest x \<and> rest_step\<^sup>*\<^sup>* x y \<and> y \<noteq> x \<and>
     attribute x (Some ''v32-a'') None \<noteq> None \<and> attribute y (Some ''v32-a'') None \<noteq> None"
proof -
  define y where "y = fst (cancel_stale_open_orders ex_down (fst ex_after))"
  have run: "rest_step\<^sup>*\<^sup>* ex_rest (fst ex_after)" "rest_step\<^sup>*\<^sup>* (fst ex_after) y"
    unfolding y_def by (intro r_into_rtranclp rest_step.action [OF ex_after_place(2)] rest_step.startup)+
  have "rx_wire y \<noteq> rx_wire (fst ex_after)"
    by (simp add: y_def cancel_stale_open_orders_def rest_get_def ex_down_def ex_get_def Let_def
        OPEN_ORDERS_PATH_def)
  then have "y \<noteq> fst ex_after" by blast
  moreover have "attribute y (Some ''v32-a'') None \<noteq> None"
    using rest_records_kept [OF run(1) [unfolded ex_rest_def] run(2), of "Some ''v32-a''" None]
      ex_after_known by blast
  ultimately show ?thesis using run ex_after_known by blast
qed

section \<open>Placing\<close>

text \<open>
  C9. A place sends at most one POST: a post-only NO bid for the action's lots at one minus its
  price on the YES book, routed to its shard and expiring. If the outcome is unknown (no status, or
  5xx) the client id stays attributable and the hour stands down; if it was acknowledged, the order
  id names a live record of the action's price, count and shard.
\<close>

theorem rest_place_outcomes:
  assumes "place_rest v a now x = Inr res" and "posts (fst res) \<noteq> posts x"
    and "a_coid a = Some c" and "c \<noteq> []"
  shows "\<exists>e. exch_of x (or_default [] (a_ticker a)) = Some e \<and>
    posts (fst res) = posts x @ [W_Post REL_SINGLE_CREATE (Single (rest_bid_of x a c e))] \<and>
    (unknown_outcome (create_reply v (rest_bid_of x a c e) (fst res)) \<longrightarrow>
       (\<exists>r. attribute (fst res) (Some c) None = Some r \<and> rr_status r = R_Unknown \<and>
          rr_price r = or_default 0 (a_price a)) \<and>
       rx_stand_down (fst res) \<noteq> None \<and> snd res = [slot_cleared (Some c) now]) \<and>
    (\<forall>k. E_Ack k \<in> set (snd res) \<longrightarrow> oa_order_id k \<noteq> [] \<longrightarrow>
       (\<exists>r. attribute (fst res) None (Some (oa_order_id k)) = Some r \<and> rr_coid r = c \<and>
          rr_order_id r = Some (oa_order_id k) \<and> rr_status r = R_Live \<and>
          rr_price r = or_default 0 (a_price a) \<and> rr_count r = py_trunc (a_count a) \<and>
          rr_exchange_index r = Some e))"
proof -
  have coid: "or_default [] (a_coid a) = c" using assms(3) by (simp add: or_default_def)
  obtain e y where e: "exch_of x (or_default [] (a_ticker a)) = Some e" and y: "posts y = posts x"
    and res: "res = send_place v a c e (rest_bid_of x a c e) now y"
    using place_sent [OF assms(1,2)] unfolding coid by blast
  have acked: "\<exists>r. attribute (fst res) None (Some (oa_order_id k)) = Some r \<and> rr_coid r = c \<and>
      rr_order_id r = Some (oa_order_id k) \<and> rr_status r = R_Live \<and>
      rr_price r = or_default 0 (a_price a) \<and> rr_count r = py_trunc (a_count a) \<and>
      rr_exchange_index r = Some e"
    if ack: "E_Ack k \<in> set (snd res)" and named: "oa_order_id k \<noteq> []" for k
    using send_place_acked [OF ack [unfolded res]] placed_live [OF named] res by metis
  have unknown: "(\<exists>r. attribute (fst res) (Some c) None = Some r \<and> rr_status r = R_Unknown \<and>
        rr_price r = or_default 0 (a_price a)) \<and>
      rx_stand_down (fst res) \<noteq> None \<and> snd res = [slot_cleared (Some c) now]"
    if "unknown_outcome (create_reply v (rest_bid_of x a c e) (fst res))"
    using send_place_unknown [OF that [unfolded res]] attribute_by_coid [OF assms(4)] res by blast
  show ?thesis
    using e acked unknown by (intro exI [of _ e]) (simp add: res posts_send_place y)
qed

theorem rest_place_outcomes_witness:
  "unknown_outcome (create_reply ex_down ex_bid (fst ex_after)) \<and>
   posts (fst ex_after) = [W_Post REL_SINGLE_CREATE (Single ex_bid)] \<and>
   rx_stand_down (fst ex_after) \<noteq> None \<and> snd ex_after = [slot_cleared (Some ''v32-a'') 10]"
proof -
  have exch: "exch_of ex_rest (or_default [] (a_ticker ex_place)) = Some 2" by (simp add: or_default_def)
  show ?thesis
    using rest_place_outcomes [OF ex_after_place(1) ex_after_sent, of "''v32-a''"] ex_after_unknown
    unfolding exch by (auto simp: ex_posts ex_bid_def)
qed

section \<open>Cancelling\<close>

text \<open>
  C12. A cancel that names an order, by its own order id or by the one the record of its client id
  has, reports exactly one event however the venue answers; it opens with a DELETE of that order
  on its record's shard and sends only such DELETEs and status reads of the order, at most sixteen
  and six; and either it confirmed the cancel or it reports no fill, counts the failure and stands
  the hour down. A cancel that names none sends nothing and frees the slot.
\<close>

theorem rest_cancel_bounded:
  "case cancel_rest v a now x of (y, evs) \<Rightarrow>
     (case cancel_target x a of
        None \<Rightarrow> rx_wire y = rx_wire x \<and> evs = [slot_cleared (a_coid a) now]
      | Some i \<Rightarrow>
          \<exists>n c p tk ws. evs = [E_Cancelled (Some i) now n c p tk] \<and>
            rx_wire y = rx_wire x @ W_Delete (cancel_path i (cancel_shard x a i)) # ws \<and>
            set ws \<subseteq> {W_Delete (cancel_path i (cancel_shard x a i)), W_Get (order_status_path i)} \<and>
            length (filter is_delete ws) \<le> 15 \<and> length (filter is_get ws) \<le> 6 \<and>
            ((rx_cancels_confirmed y = rx_cancels_confirmed x + 1 \<and> rx_last_gone y = Some i) \<or>
             (rx_cancel_failed y = rx_cancel_failed x + 1 \<and> n = 0 \<and> rx_stand_down y \<noteq> None)))"
proof (cases rule: cancel_rest_split [of x a v now])
  case noop
  then show ?thesis by simp
next
  case (sent rec i)
  define e where "e = cancel_shard x a i"
  note sent = sent [folded e_def]
  obtain y evs where res: "send_cancel v rec i e (a_coid a) now x = (y, evs)" by fastforce
  have "one_cancelled i now x (y, evs)" by (subst res [symmetric]) (rule one_send_cancel)
  then obtain n c p tk where evs: "evs = [E_Cancelled (Some i) now n c p tk]"
    and out: "cancel_outcome i n x y" by (auto simp: one_cancelled_def)
  have "sends (cancel_calls i e) 16 6 x y"
    using sends_send_cancel [of i e x v rec "a_coid a" now] by (simp add: res)
  moreover obtain ws where ws: "rx_wire y = rx_wire x @ W_Delete (cancel_path i e) # ws"
    using send_cancel_deletes [of v rec i e "a_coid a" now x] by (auto simp: res)
  ultimately have "set ws \<subseteq> {W_Delete (cancel_path i e), W_Get (order_status_path i)}"
    "length (filter is_delete ws) \<le> 15" "length (filter is_get ws) \<le> 6"
    by (simp_all add: sends_def cancel_calls_def)
  moreover have "(rx_cancels_confirmed y = rx_cancels_confirmed x + 1 \<and> rx_last_gone y = Some i) \<or>
      (rx_cancel_failed y = rx_cancel_failed x + 1 \<and> n = 0 \<and> rx_stand_down y \<noteq> None)"
    using out unfolding cancel_outcome_def by argo
  ultimately show ?thesis using evs ws by (simp add: sent res e_def [symmetric])
qed

text \<open>
  C16. A cancel whose DELETE answers 2xx reports as filled the larger of the lots placed less
  \<open>reduced_by\<close> and the count of the last readable of three status reads, up to the first settled
  one; the record is kept as filled or cancelled with the time of the confirm, and a fill's order
  id is among the captured ones.
\<close>

theorem rest_cancel_counts_fills:
  assumes "rx_fractional x" and "a_coid a = Some c" and "map_of (rx_book x) c = Some r"
    and "or_else (a_order_id a) (rr_order_id r) = Some i"
    and "hv_delete v (length (rx_wire x))
           (cancel_path i (or_else (rr_exchange_index r) (exch_of x (rr_ticker r)))) =
         Reply (Some s) (Some (JObj kvs))" and "200 \<le> s" and "s < 300"
  shows "snd (cancel_rest v a now x) =
      [E_Cancelled (Some i) now (landed_count v i r kvs (Suc (length (rx_wire x))))
         (Some (rr_coid r)) (Some (rr_price r)) (Some (rr_ticker r))] \<and>
    map_of (rx_book (fst (cancel_rest v a now x))) (rr_coid r) =
      Some (settled_record r (landed_count v i r kvs (Suc (length (rx_wire x)))) now) \<and>
    (rr_order_id r = Some i \<and> 0 < landed_count v i r kvs (Suc (length (rx_wire x))) \<longrightarrow>
       i \<in> set (rx_booked_oids (fst (cancel_rest v a now x))))"
proof -
  obtain y n where "cancel_rest v a now x =
      finish_cancel (Some r) i n (Some (landed_count v i r kvs (Suc (length (rx_wire x))))) now y"
    using send_cancel_landed [OF assms(1,5-7)] cancel_rest_named [OF assms(2-4)] by metis
  then show ?thesis using finish_cancel_exact by simp
qed

theorem rest_cancel_counts_fills_witness:
  "snd (cancel_rest ex_down ex_cancel 20 ex_held) =
     [E_Cancelled (Some ''o1'') 20 2 (Some ''v32-a'') (Some (2/5)) (Some ''B1'')] \<and>
   ''o1'' \<in> set (rx_booked_oids (fst (cancel_rest ex_down ex_cancel 20 ex_held)))"
proof -
  have "a_coid ex_cancel = Some ''v32-a''" "a_order_id ex_cancel = Some ''o1''"
    by (simp_all add: ex_cancel_def blank_action_def)
  then show ?thesis
    using rest_cancel_counts_fills [of ex_held ex_cancel "''v32-a''" ex_record "''o1''" ex_down 200
        "[(''reduced_by'', JStr ''2'')]" 20]
    by (simp add: ex_landed or_else_def) (simp add: ex_down_def ex_record_def)
qed

section \<open>Wings\<close>

text \<open>
  A wing take sends at most one POST, one order per pending leg with a shard; it reports
  exactly one fill event per pending leg, and captures for the money math exactly the events that
  filled, at their prices and lots.
\<close>

theorem rest_wings_report_each_leg:
  assumes "take_wings v legs now x = Inr (y, evs)"
    and "distinct (map wl_coid (filter (\<lambda>l. wl_status l = Pending) legs))"
  shows "(\<exists>fs cs. evs = map E_Fill fs \<and>
      mset (map fi_coid fs) = mset (map wl_coid (filter (\<lambda>l. wl_status l = Pending) legs)) \<and>
      rx_fills y = rx_fills x @ cs \<and>
      map (\<lambda>c. (fc_coid c, fc_price c, fc_count c)) cs =
        map (\<lambda>f. (fi_coid f, fi_price f, q_count (fi_count f))) (filter (\<lambda>f. 0 < fi_count f) fs)) \<and>
    (posts y = posts x \<or> (\<exists>es. length es =
        length (filter (routed_leg x) (filter (\<lambda>l. wl_status l = Pending) legs)) \<and>
      posts y = posts x @ [case es of [e] \<Rightarrow> W_Post REL_SINGLE_CREATE (Single e)
                             | _ \<Rightarrow> W_Post REL_BATCH_CREATE (Batch es)]))"
proof -
  obtain fs cs where fs: "evs = map E_Fill fs"
    "mset (map fi_coid fs) = mset (map wl_coid (filter (\<lambda>l. wl_status l = Pending) legs))"
    "rx_fills y = rx_fills x @ cs" "captured cs fs"
    using take_wings_fills(1) [OF assms] by blast
  have "map (\<lambda>c. (fc_coid c, fc_price c, fc_count c)) cs =
      map (\<lambda>f. (fi_coid f, fi_price f, q_count (fi_count f))) (filter (\<lambda>f. 0 < fi_count f) fs)"
    using captured_counts [OF fs(4)] .
  with fs take_wings_fills(2) [OF assms] show ?thesis
    unfolding send_wings_posts(1) by blast
qed


theorem rest_wings_report_each_leg_witness:
  "\<exists>y evs fs. take_wings ex_down [ex_wing ''W1'' ''w1'', ex_wing ''W2'' ''w2''] 10 ex_rest = Inr (y, evs) \<and>
     evs = map E_Fill fs \<and> mset (map fi_coid fs) = {#''w1'', ''w2''#}"
proof -
  obtain y evs where taken:
    "take_wings ex_down [ex_wing ''W1'' ''w1'', ex_wing ''W2'' ''w2''] 10 ex_rest = Inr (y, evs)"
    by (rule ex_wings_taken)
  show ?thesis
    using rest_wings_report_each_leg [OF taken] taken by (auto simp: ex_wing_def)
qed

end
