(* ===== verification/V33_Reconcile.thy ===== *)
theory V33_Reconcile
  imports V33_Types Rest_Executor
begin

text \<open>
  Gate E, \<open>v33/reconcile.py\<close>: a window's accounting reconciled against what the executor saw. The
  fills it observed are folded into a truth per order (increments summed, cumulative figures
  maximised, the largest source wins), compared with the core's booked fills and with the lots
  covered by a hedge; the journal rebuild; the alarm breakdown. A journal record is its kind and
  its object's fields.
\<close>

section \<open>Fills the executor observed\<close>

record exec_fill =
  ef_count :: lots
  ef_coid :: "string option"
  ef_order_id :: "string option"
  ef_price :: "money option"
  ef_ticker :: "ticker option"
  ef_source :: string

definition EPS_lots :: lots where
  "EPS_lots = 5/1000"

definition max_sources :: "string list" where
  "max_sources = [''poll'', ''cancel'', ''cancel_confirm'']"

definition canon_key :: "string option \<Rightarrow> string option \<Rightarrow> string option" where
  "canon_key coid oid =
     (if or_default [] oid \<noteq> [] then Some (''oid:'' @ or_default [] oid)
      else if or_default [] coid \<noteq> [] then Some (''coid:'' @ or_default [] coid) else None)"

definition fill_key :: "exec_fill \<Rightarrow> string option" where
  "fill_key f = canon_key (ef_coid f) (ef_order_id f)"

definition source_of :: "exec_fill \<Rightarrow> string" where
  "source_of f = (if ef_source f = [] then ''ws'' else ef_source f)"

section \<open>Truth per order\<close>

record order_truth =
  ot_by_source :: "(string, lots) dict"
  ot_coid :: "string option"
  ot_order_id :: "string option"
  ot_price :: "money option"
  ot_ticker :: "ticker option"

definition no_truth :: order_truth where
  "no_truth = \<lparr>ot_by_source = [], ot_coid = None, ot_order_id = None, ot_price = None, ot_ticker = None\<rparr>"

definition add_source :: "string \<Rightarrow> lots \<Rightarrow> (string, lots) dict \<Rightarrow> (string, lots) dict" where
  "add_source src n m =
     AList.update src
       (if src \<in> set max_sources then max (dict_get_default m src 0) n
        else dict_get_default m src 0 + n) m"

definition add_truth :: "exec_fill \<Rightarrow> order_truth \<Rightarrow> order_truth" where
  "add_truth f e =
     \<lparr>ot_by_source = add_source (source_of f) (ef_count f) (ot_by_source e),
      ot_coid = or_else (ot_coid e) (ef_coid f), ot_order_id = or_else (ot_order_id e) (ef_order_id f),
      ot_price = or_else (ot_price e) (ef_price f), ot_ticker = or_else (ot_ticker e) (ef_ticker f)\<rparr>"

definition fold_fill_truth :: "(string, order_truth) dict \<Rightarrow> exec_fill \<Rightarrow> (string, order_truth) dict" where
  "fold_fill_truth out f =
     (case fill_key f of
        None \<Rightarrow> out
      | Some k \<Rightarrow> AList.update k (add_truth f (dict_get_default out k no_truth)) out)"

definition aggregate_exec_fills :: "exec_fill list \<Rightarrow> (string, order_truth) dict" where
  "aggregate_exec_fills fs = foldl fold_fill_truth [] fs"

text \<open>The largest of an order's sources; its map is never empty once the order is listed.\<close>

fun max_of :: "lots list \<Rightarrow> lots" where
  "max_of [] = 0"
| "max_of [n] = n"
| "max_of (n # m # ns) = max n (max_of (m # ns))"

definition truth :: "order_truth \<Rightarrow> lots" where
  "truth e = max_of (map snd (ot_by_source e))"

definition core_key :: "rung_fill \<Rightarrow> string option" where
  "core_key f = canon_key (rg_coid f) (rg_order_id f)"

definition fold_core_fill :: "(string, lots) dict \<Rightarrow> rung_fill \<Rightarrow> (string, lots) dict" where
  "fold_core_fill out f =
     (case core_key f of
        None \<Rightarrow> out
      | Some k \<Rightarrow> AList.update k (dict_get_default out k 0 + rg_count f) out)"

definition aggregate_core_fills :: "rung_fill list \<Rightarrow> (string, lots) dict" where
  "aggregate_core_fills fs = foldl fold_core_fill [] fs"

section \<open>The engine\<close>

record unbooked_fill =
  ub_coid :: "string option"
  ub_order_id :: "string option"
  ub_count :: lots
  ub_price :: "money option"
  ub_ticker :: "ticker option"
  ub_exec_count :: lots
  ub_core_count :: lots

record recon_result =
  rc_exec_lots :: lots
  rc_core_lots :: lots
  rc_lots_filled :: lots
  rc_hedged_lots :: lots
  rc_one_legged :: bool
  rc_one_legged_contracts :: lots
  rc_unbooked :: "unbooked_fill list"
  rc_mismatch :: bool
  rc_detail :: "(lots \<times> lots) option"

definition one_legged_count :: "lots \<Rightarrow> lots \<Rightarrow> lots" where
  "one_legged_count filled hedged = max 0 (q_count (filled - hedged))"

definition unbooked_of :: "order_truth \<Rightarrow> lots \<Rightarrow> unbooked_fill" where
  "unbooked_of e booked =
     \<lparr>ub_coid = ot_coid e, ub_order_id = ot_order_id e, ub_count = q_count (truth e - booked),
      ub_price = ot_price e, ub_ticker = ot_ticker e, ub_exec_count = q_count (truth e),
      ub_core_count = q_count booked\<rparr>"

text \<open>What the two sides say of the orders: the lots of the union, the unbooked fills, a mismatch.\<close>

definition union_lots :: "(string, order_truth) dict \<Rightarrow> (string, lots) dict \<Rightarrow> lots" where
  "union_lots agg core =
     sum_list (map (\<lambda>(k, e). max (truth e) (dict_get_default core k 0)) agg) +
     sum_list (map snd (filter (\<lambda>(k, n). map_of agg k = None) core))"

definition unbooked_list ::
  "(string, order_truth) dict \<Rightarrow> (string, lots) dict \<Rightarrow> unbooked_fill list" where
  "unbooked_list agg core =
     map (\<lambda>(k, e). unbooked_of e (dict_get_default core k 0))
       (filter (\<lambda>(k, e). EPS_lots < truth e - dict_get_default core k 0) agg)"

definition disagree :: "(string, order_truth) dict \<Rightarrow> (string, lots) dict \<Rightarrow> bool" where
  "disagree agg core \<longleftrightarrow>
     list_ex (\<lambda>(k, e). EPS_lots < \<bar>truth e - dict_get_default core k 0\<bar>) agg \<or>
     list_ex (\<lambda>(k, n). map_of agg k = None \<and> EPS_lots < n) core"

definition reconciled ::
  "lots \<Rightarrow> lots \<Rightarrow> lots \<Rightarrow> lots \<Rightarrow> bool \<Rightarrow> unbooked_fill list \<Rightarrow> bool \<Rightarrow> recon_result" where
  "reconciled exec_lots core_lots filled hedged core_one_legged unbooked mismatch =
     (let n = one_legged_count filled hedged
      in \<lparr>rc_exec_lots = exec_lots, rc_core_lots = core_lots, rc_lots_filled = filled,
          rc_hedged_lots = hedged, rc_one_legged = (core_one_legged \<or> EPS_lots < n),
          rc_one_legged_contracts = n, rc_unbooked = unbooked, rc_mismatch = mismatch,
          rc_detail = (if mismatch then Some (q_count core_lots, q_count exec_lots) else None)\<rparr>)"

definition exec_total :: "(string, order_truth) dict \<Rightarrow> lots" where
  "exec_total agg = sum_list (map (truth \<circ> snd) agg)"

text \<open>\<open>core\<close> is \<open>None\<close> on the rebuild path. With no executor fill the core's numbers pass through.\<close>

definition reconcile ::
  "exec_fill list \<Rightarrow> rung_fill list option \<Rightarrow> lots \<Rightarrow> bool \<Rightarrow> recon_result" where
  "reconcile exec_fills core_fills hedged core_one_legged =
     (let agg = aggregate_exec_fills exec_fills in
      if agg = [] then
        (let core_lots = sum_list (map rg_count (or_default [] core_fills))
         in reconciled 0 core_lots core_lots hedged core_one_legged [] False)
      else
        (case core_fills of
           None \<Rightarrow> reconciled (exec_total agg) 0 (exec_total agg) hedged core_one_legged [] False
         | Some fs \<Rightarrow>
             (let core = aggregate_core_fills fs
              in reconciled (exec_total agg) (sum_list (map snd core)) (union_lots agg core) hedged
                   core_one_legged (unbooked_list agg core) (disagree agg core))))"

section \<open>The live window\<close>

text \<open>A row of the executor's \<open>fills\<close>, and a fill of the venue's portfolio list.\<close>

record exec_row =
  er_leg :: string
  er_count :: lots
  er_coid :: "string option"
  er_order_id :: "string option"
  er_price :: "money option"
  er_ticker :: "ticker option"
  er_path :: string

record venue_fill =
  vf_count :: lots
  vf_coid :: "string option"
  vf_order_id :: "string option"
  vf_price :: "money option"
  vf_ticker :: "ticker option"

text \<open>
  A rest row without an order id takes it from the record its client id names, when kept;
  \<open>named\<close> is the executor's \<open>attribute\<close>, giving the record's order id.
\<close>

definition row_order_id :: "(string \<Rightarrow> string option) \<Rightarrow> exec_row \<Rightarrow> string option" where
  "row_order_id named r =
     (case er_order_id r of
        Some i \<Rightarrow> Some i
      | None \<Rightarrow>
          (case er_coid r of None \<Rightarrow> None | Some c \<Rightarrow> if c = [] then None else named c))"

definition row_fill :: "(string \<Rightarrow> string option) \<Rightarrow> exec_row \<Rightarrow> exec_fill" where
  "row_fill named r =
     \<lparr>ef_count = er_count r, ef_coid = er_coid r, ef_order_id = row_order_id named r,
      ef_price = er_price r, ef_ticker = er_ticker r,
      ef_source = (if er_path r = [] then ''amend'' else er_path r)\<rparr>"

definition venue_exec_fill :: "venue_fill \<Rightarrow> exec_fill" where
  "venue_exec_fill f =
     \<lparr>ef_count = vf_count f, ef_coid = vf_coid f, ef_order_id = vf_order_id f, ef_price = vf_price f,
      ef_ticker = vf_ticker f, ef_source = ''venue''\<rparr>"

definition executor_truth_fills ::
  "exec_fill list \<Rightarrow> (string \<Rightarrow> string option) \<Rightarrow> exec_row list \<Rightarrow> venue_fill list \<Rightarrow> exec_fill list" where
  "executor_truth_fills observed named rows venue =
     observed @ map (row_fill named) (filter (\<lambda>r. er_leg r = ''rest'') rows) @
     map venue_exec_fill venue"

text \<open>The armed executor's \<open>_wing_filled\<close>: lots filled per batch and side.\<close>

type_synonym wing_filled = "(nat \<times> string, lots) dict"

definition batch_wings_filled_at_venue :: "wing_filled \<Rightarrow> batch33 \<Rightarrow> bool" where
  "batch_wings_filled_at_venue wm b \<longleftrightarrow>
     0 < leg_count b \<and>
     leg_count b \<le> dict_get_default wm (bt_index b, ''yes'') 0 + EPS_lots \<and>
     leg_count b \<le> dict_get_default wm (bt_index b, ''no'') 0 + EPS_lots"

definition hedged_batch :: "wing_filled option \<Rightarrow> batch33 \<Rightarrow> bool" where
  "hedged_batch wm b \<longleftrightarrow>
     bt_completed b \<or>
     (case wm of None \<Rightarrow> False
      | Some m \<Rightarrow> \<not> bt_print_through b \<and> batch_wings_filled_at_venue m b)"

definition hedged_lots_from_state :: "wing_filled option \<Rightarrow> v33_state \<Rightarrow> lots" where
  "hedged_lots_from_state wm st =
     sum_list (map leg_count (filter (hedged_batch wm) (x_wing_batches st)))"

definition reconcile_live ::
  "exec_fill list \<Rightarrow> (string \<Rightarrow> string option) \<Rightarrow> exec_row list \<Rightarrow> venue_fill list \<Rightarrow>
     wing_filled option \<Rightarrow> v33_state \<Rightarrow> recon_result" where
  "reconcile_live observed named rows venue wm st =
     reconcile (executor_truth_fills observed named rows venue) (Some (x_rest_fills st))
       (hedged_lots_from_state wm st) (x_one_legged st)"

definition reconcile_exec_truth_only ::
  "exec_fill list \<Rightarrow> (string \<Rightarrow> string option) \<Rightarrow> exec_row list \<Rightarrow> venue_fill list \<Rightarrow>
     wing_filled option \<Rightarrow> v33_state \<Rightarrow> recon_result" where
  "reconcile_exec_truth_only observed named rows venue wm st =
     reconcile (executor_truth_fills observed named rows venue) None
       (hedged_lots_from_state wm st) (x_one_legged st)"

section \<open>Alarms\<close>

record alarm_split =
  al_total :: nat
  al_driver :: nat
  al_core :: nat
  al_executor :: nat
  al_ws :: nat
  al_reconcile :: nat
  al_phantom :: nat

definition alarm_breakdown ::
  "(string, nat) dict \<Rightarrow> (string, nat) dict \<Rightarrow> (string, nat) dict \<Rightarrow> nat \<Rightarrow> alarm_split" where
  "alarm_breakdown driver_counts executor_counts ws_counts rec =
     (let core = dict_get_default driver_counts ''alarm'' 0;
          driver = dict_get_default driver_counts ''driver_alarm'' 0;
          executor = dict_get_default executor_counts ''alarm'' 0;
          ws = dict_get_default ws_counts ''alarm'' 0
      in \<lparr>al_total = core + driver + executor + ws + rec, al_driver = driver, al_core = core,
          al_executor = executor, al_ws = ws, al_reconcile = rec,
          al_phantom = dict_get_default executor_counts ''rest_invariant_phantom'' 0\<rparr>)"

section \<open>The rebuild from the journal\<close>

datatype window_entry =
    J_Rest_Fill exec_fill
  | J_Take_Wings lots
  | J_Alarm string
  | J_Phantom
  | J_Other string

text \<open>Every journaled fill is an increment: one summed source.\<close>

definition REBUILD_SOURCE :: string where
  "REBUILD_SOURCE = ''journal''"

record rebuilt =
  rb_fills :: "exec_fill list"
  rb_hedged :: lots
  rb_alarms :: nat
  rb_phantom :: nat
  rb_names :: "(string, nat) dict"

definition rebuild_entry :: "rebuilt \<Rightarrow> window_entry \<Rightarrow> rebuilt" where
  "rebuild_entry s e =
     (case e of
        J_Rest_Fill f \<Rightarrow> s\<lparr>rb_fills := rb_fills s @ [f\<lparr>ef_source := REBUILD_SOURCE\<rparr>]\<rparr>
      | J_Take_Wings n \<Rightarrow> s\<lparr>rb_hedged := rb_hedged s + n\<rparr>
      | J_Alarm name \<Rightarrow>
          s\<lparr>rb_alarms := rb_alarms s + 1,
            rb_names := AList.update name (dict_get_default (rb_names s) name 0 + 1) (rb_names s)\<rparr>
      | J_Phantom \<Rightarrow> s\<lparr>rb_phantom := rb_phantom s + 1\<rparr>
      | J_Other _ \<Rightarrow> s)"

definition rebuild_from_records :: "window_entry list \<Rightarrow> recon_result \<times> rebuilt" where
  "rebuild_from_records es =
     (let s = foldl rebuild_entry
                \<lparr>rb_fills = [], rb_hedged = 0, rb_alarms = 0, rb_phantom = 0, rb_names = []\<rparr> es
      in (reconcile (rb_fills s) None (rb_hedged s) False, s))"

end
