(* ===== verification/V33_Truth.thy ===== *)
theory V33_Truth
  imports V33_Reconcile "HOL-Library.Multiset"
begin

text \<open>
  The truth of an order as a function of its fills alone: the largest source, each source summed or
  maximised. The fold over the fills computes it for every order, in any order of the fills; the
  engine's totals, mismatch and unbooked list are sums and tests over the orders of both sides.
\<close>

section \<open>Folding entries into a dictionary by key\<close>

definition keyed ::
  "('f \<Rightarrow> 'k option) \<Rightarrow> ('f \<Rightarrow> 'e \<Rightarrow> 'e) \<Rightarrow> 'e \<Rightarrow> ('k, 'e) dict \<Rightarrow> 'f \<Rightarrow> ('k, 'e) dict" where
  "keyed key step e0 out f =
     (case key f of
        None \<Rightarrow> out | Some k \<Rightarrow> AList.update k (step f (dict_get_default out k e0)) out)"

definition of_key :: "('f \<Rightarrow> 'k option) \<Rightarrow> 'k \<Rightarrow> 'f list \<Rightarrow> 'f list" where
  "of_key key k fs = filter (\<lambda>f. key f = Some k) fs"

definition keys_of :: "('f \<Rightarrow> 'k option) \<Rightarrow> 'f list \<Rightarrow> 'k set" where
  "keys_of key fs = {k. Some k \<in> key ` set fs}"

lemma keys_of_finite [simp]: "finite (keys_of key fs)"
proof -
  have "keys_of key fs = Some -` key ` set fs" by (auto simp: keys_of_def)
  then show ?thesis by (simp add: finite_vimageI)
qed

lemma keys_of_code [code]: "keys_of key fs = set (List.map_filter key fs)"
  by (induction fs) (auto simp: keys_of_def List.map_filter_simps split: option.split)

lemma of_key_none: "of_key key k fs = [] \<longleftrightarrow> k \<notin> keys_of key fs"
  by (force simp: of_key_def keys_of_def filter_empty_conv)

lemma keyed_Some:
  "key f = Some k \<Longrightarrow>
   keyed key step e0 out f = AList.update k (step f (dict_get_default out k e0)) out"
  by (simp add: keyed_def)

lemma keyed_None: "key f = None \<Longrightarrow> keyed key step e0 out f = out"
  by (simp add: keyed_def)

lemma keyed_lookup:
  "map_of (foldl (keyed key step e0) [] fs) k =
     (if k \<in> keys_of key fs then Some (foldl (\<lambda>e f. step f e) e0 (of_key key k fs)) else None)"
proof (induction fs rule: rev_induct)
  case Nil
  show ?case by (simp add: keys_of_def)
next
  case (snoc f fs)
  have old: "dict_get_default (foldl (keyed key step e0) [] fs) k e0 =
      foldl (\<lambda>e f. step f e) e0 (of_key key k fs)"
    using snoc of_key_none [of key k fs] by (simp add: dict_get_default_def split: if_splits)
  show ?case
  proof (cases "key f = Some k")
    case True
    then show ?thesis using old by (simp add: keyed_Some of_key_def keys_of_def update_conv')
  next
    case False
    then show ?thesis
      using snoc
      by (cases "key f") (auto simp: keyed_None keyed_Some of_key_def keys_of_def update_conv')
  qed
qed

lemma keyed_distinct: "distinct (map fst (foldl (keyed key step e0) [] fs))"
  by (induction fs rule: rev_induct)
    (auto simp: keyed_def distinct_update split: option.split)

lemma keyed_keys: "fst ` set (foldl (keyed key step e0) [] fs) = keys_of key fs"
proof -
  have "dom (map_of (foldl (keyed key step e0) [] fs)) = keys_of key fs"
    by (auto simp: keyed_lookup split: if_splits)
  then show ?thesis by (simp add: dom_map_of_conv_image_fst)
qed

text \<open>A sum over the dictionary is a sum over its keys.\<close>

lemma keyed_sum:
  fixes h :: "'k \<Rightarrow> 'e \<Rightarrow> rat"
  shows "sum_list (map (\<lambda>(k, e). h k e) (foldl (keyed key step e0) [] fs)) =
    (\<Sum>k\<in>keys_of key fs. h k (foldl (\<lambda>e f. step f e) e0 (of_key key k fs)))"
proof -
  let ?m = "foldl (keyed key step e0) [] fs"
  have d: "distinct (map fst ?m)" by (rule keyed_distinct)
  have val: "e = foldl (\<lambda>e f. step f e) e0 (of_key key k fs)" if "(k, e) \<in> set ?m" for k e
    using map_of_is_SomeI [OF d that] by (simp add: keyed_lookup split: if_splits)
  have "sum_list (map (\<lambda>(k, e). h k e) ?m) = (\<Sum>p\<in>set ?m. case p of (k, e) \<Rightarrow> h k e)"
    by (rule sum_list_distinct_conv_sum_set) (use d distinct_map in blast)
  also have "\<dots> = (\<Sum>p\<in>set ?m. h (fst p) (foldl (\<lambda>e f. step f e) e0 (of_key key (fst p) fs)))"
    by (rule sum.cong) (auto dest: val)
  also have "\<dots> = (\<Sum>k\<in>fst ` set ?m. h k (foldl (\<lambda>e f. step f e) e0 (of_key key k fs)))"
    using d by (subst sum.reindex) (auto simp: distinct_map o_def)
  finally show ?thesis by (simp add: keyed_keys)
qed

section \<open>The specification of an order's truth\<close>

definition source_total :: "string \<Rightarrow> exec_fill list \<Rightarrow> lots" where
  "source_total s fs =
     (let ns = map ef_count (filter (\<lambda>f. source_of f = s) fs)
      in if s \<in> set max_sources then Max (insert 0 (set ns)) else sum_list ns)"

definition order_lots :: "exec_fill list \<Rightarrow> string \<Rightarrow> lots" where
  "order_lots fs k =
     (if k \<notin> keys_of fill_key fs then 0
      else Max ((\<lambda>s. source_total s (of_key fill_key k fs)) ` source_of ` set (of_key fill_key k fs)))"

definition booked_lots :: "rung_fill list \<Rightarrow> string \<Rightarrow> lots" where
  "booked_lots fs k = sum_list (map rg_count (of_key core_key k fs))"

lemma sum_list_perm:
  fixes g :: "'a \<Rightarrow> lots"
  shows "mset xs = mset ys \<Longrightarrow> sum_list (map g xs) = sum_list (map g ys)"
  by (metis mset_map sum_mset_sum_list)

lemma source_total_perm: "mset fs = mset gs \<Longrightarrow> source_total s fs = source_total s gs"
proof -
  assume "mset fs = mset gs"
  then have m: "mset (filter (\<lambda>f. source_of f = s) fs) = mset (filter (\<lambda>f. source_of f = s) gs)"
    by (simp add: mset_filter)
  then have "set (filter (\<lambda>f. source_of f = s) fs) = set (filter (\<lambda>f. source_of f = s) gs)"
    by (rule mset_eq_setD)
  then show ?thesis using sum_list_perm [OF m, of ef_count] by (simp add: source_total_def Let_def)
qed

lemma order_lots_perm: "mset fs = mset gs \<Longrightarrow> order_lots fs k = order_lots gs k"
proof -
  assume m: "mset fs = mset gs"
  then have k: "mset (of_key fill_key k fs) = mset (of_key fill_key k gs)"
    by (simp add: of_key_def mset_filter)
  have "keys_of fill_key fs = keys_of fill_key gs" by (simp add: keys_of_def mset_eq_setD [OF m])
  then show ?thesis by (simp add: order_lots_def mset_eq_setD [OF k] source_total_perm [OF k])
qed

section \<open>The fold computes it\<close>

definition source_step :: "exec_fill \<Rightarrow> lots \<Rightarrow> lots" where
  "source_step f n = (if source_of f \<in> set max_sources then max n (ef_count f) else n + ef_count f)"

lemma by_source_keyed:
  "ot_by_source (foldl (\<lambda>e f. add_truth f e) e fs) =
     foldl (keyed (Some \<circ> source_of) source_step 0) (ot_by_source e) fs"
  by (induction fs arbitrary: e)
    (simp_all add: add_truth_def add_source_def keyed_def source_step_def)

lemma source_fold:
  "foldl (\<lambda>n f. source_step f n) 0 (of_key (Some \<circ> source_of) s fs) = source_total s fs"
proof (induction fs rule: rev_induct)
  case Nil
  show ?case by (simp add: of_key_def source_total_def)
next
  case (snoc f fs)
  have "Max (insert 0 (insert (ef_count f) (ef_count ` set (filter (\<lambda>f. source_of f = s) fs)))) =
      max (Max (insert 0 (ef_count ` set (filter (\<lambda>f. source_of f = s) fs)))) (ef_count f)"
    by (subst insert_commute) (simp add: max.commute)
  with snoc show ?case
    by (auto simp: of_key_def source_total_def source_step_def Let_def)
qed

lemma max_of_Max: "ns \<noteq> [] \<Longrightarrow> max_of ns = Max (set ns)"
  by (induction ns rule: max_of.induct) simp_all

lemma truth_exact:
  assumes "fs \<noteq> []"
  shows "truth (foldl (\<lambda>e f. add_truth f e) no_truth fs) =
    Max ((\<lambda>s. source_total s fs) ` source_of ` set fs)"
proof -
  let ?m = "foldl (keyed (Some \<circ> source_of) source_step 0) [] fs"
  have keys: "keys_of (Some \<circ> source_of) fs = source_of ` set fs" by (auto simp: keys_of_def)
  have val: "n = source_total s fs" if "(s, n) \<in> set ?m" for s n
    using map_of_is_SomeI [OF keyed_distinct that]
    by (simp add: keyed_lookup source_fold split: if_splits)
  have "snd ` set ?m = (\<lambda>s. source_total s fs) ` fst ` set ?m"
    unfolding image_image by (rule image_cong) (auto simp: val)
  then have "set (map snd ?m) = (\<lambda>s. source_total s fs) ` source_of ` set fs"
    by (simp add: keyed_keys keys)
  moreover from this assms have "map snd ?m \<noteq> []" by auto
  ultimately show ?thesis
    by (simp add: truth_def by_source_keyed no_truth_def max_of_Max)
qed

lemma aggregate_keyed: "aggregate_exec_fills fs = foldl (keyed fill_key add_truth no_truth) [] fs"
  unfolding aggregate_exec_fills_def
  by (rule foldl_cong) (simp_all add: fold_fill_truth_def keyed_def)

lemma core_keyed: "aggregate_core_fills fs = foldl (keyed core_key (\<lambda>f n. n + rg_count f) 0) [] fs"
  unfolding aggregate_core_fills_def
  by (rule foldl_cong) (simp_all add: fold_core_fill_def keyed_def)

lemma order_truth_exact:
  "k \<in> keys_of fill_key fs \<Longrightarrow>
   truth (foldl (\<lambda>e f. add_truth f e) no_truth (of_key fill_key k fs)) = order_lots fs k"
  using truth_exact of_key_none [of fill_key k fs] by (simp add: order_lots_def)

lemma foldl_add: "foldl (\<lambda>n f. n + g f) (m :: lots) fs = m + sum_list (map g fs)"
  by (induction fs arbitrary: m) (simp_all add: add.assoc)

lemma core_lookup: "dict_get_default (aggregate_core_fills fs) k 0 = booked_lots fs k"
  by (cases "k \<in> keys_of core_key fs")
    (simp_all add: core_keyed dict_get_default_def keyed_lookup booked_lots_def foldl_add
      of_key_none [THEN iffD2])

lemma aggregate_empty: "aggregate_exec_fills fs = [] \<longleftrightarrow> keys_of fill_key fs = {}"
  unfolding aggregate_keyed using keyed_keys [of fill_key add_truth no_truth fs] by auto

lemma exec_total_exact: "exec_total (aggregate_exec_fills fs) = (\<Sum>k\<in>keys_of fill_key fs. order_lots fs k)"
proof -
  have "exec_total (aggregate_exec_fills fs) =
      sum_list (map (\<lambda>(k, e). truth e) (foldl (keyed fill_key add_truth no_truth) [] fs))"
    by (simp add: exec_total_def aggregate_keyed comp_def case_prod_unfold)
  then show ?thesis by (simp add: keyed_sum order_truth_exact)
qed

end
