(* ===== verification/V33_Reconciled.thy ===== *)
theory V33_Reconciled
  imports V33_Truth
begin

text \<open>
  The engine of gate E over the specification of \<open>V33_Truth\<close>: the reconciled lots are the larger side
  of every order either side knows, a mismatch and an unbooked fill are exactly the orders that
  differ, a lot no hedge covers makes the window one-legged; the rebuild sums the journal.
\<close>

section \<open>Totals over the orders of both sides\<close>

definition union_total :: "exec_fill list \<Rightarrow> rung_fill list \<Rightarrow> lots" where
  "union_total fs core =
     (\<Sum>k\<in>keys_of fill_key fs \<union> keys_of core_key core. max (order_lots fs k) (booked_lots core k))"

definition core_total :: "rung_fill list \<Rightarrow> lots" where
  "core_total core = (\<Sum>k\<in>keys_of core_key core. booked_lots core k)"

lemma booked_none: "k \<notin> keys_of core_key core \<Longrightarrow> booked_lots core k = 0"
  by (simp add: booked_lots_def of_key_none [THEN iffD2])

lemma order_none: "k \<notin> keys_of fill_key fs \<Longrightarrow> order_lots fs k = 0"
  by (simp add: order_lots_def)

lemma booked_nonneg:
  assumes "\<forall>f\<in>set core. 0 \<le> rg_count f" shows "0 \<le> booked_lots core k"
  unfolding booked_lots_def of_key_def using assms by (intro sum_list_nonneg) auto

lemma agg_exec:
  "map_of (aggregate_exec_fills fs) k = None \<longleftrightarrow> k \<notin> keys_of fill_key fs"
  by (simp add: aggregate_keyed keyed_lookup)

lemma core_booked: "(k, n) \<in> set (aggregate_core_fills core) \<Longrightarrow> n = booked_lots core k"
  using map_of_is_SomeI [of "aggregate_core_fills core" k n] core_lookup [of core k]
  by (simp add: core_keyed keyed_distinct dict_get_default_def)

lemma agg_truth: "(k, e) \<in> set (aggregate_exec_fills fs) \<Longrightarrow> truth e = order_lots fs k"
proof -
  assume m: "(k, e) \<in> set (aggregate_exec_fills fs)"
  then have "map_of (aggregate_exec_fills fs) k = Some e"
    by (simp add: aggregate_keyed keyed_distinct map_of_is_SomeI)
  then show ?thesis
    using order_truth_exact [of k fs] by (auto simp: aggregate_keyed keyed_lookup split: if_splits)
qed

lemma agg_keys: "fst ` set (aggregate_exec_fills fs) = keys_of fill_key fs"
  by (simp add: aggregate_keyed keyed_keys)

lemma core_keys: "fst ` set (aggregate_core_fills core) = keys_of core_key core"
  by (simp add: core_keyed keyed_keys)

lemma core_sum: "sum_list (map snd (aggregate_core_fills core)) = core_total core"
proof -
  have "sum_list (map snd (aggregate_core_fills core)) =
      sum_list (map (\<lambda>(k, n). n) (foldl (keyed core_key (\<lambda>f n. n + rg_count f) 0) [] core))"
    by (simp add: core_keyed case_prod_unfold)
  also have "\<dots> = (\<Sum>k\<in>keys_of core_key core. foldl (\<lambda>n f. n + rg_count f) 0 (of_key core_key k core))"
    by (rule keyed_sum)
  finally show ?thesis by (simp add: core_total_def booked_lots_def foldl_add)
qed

lemma union_lots_exact:
  assumes nonneg: "\<forall>f\<in>set core. 0 \<le> rg_count f"
  shows "union_lots (aggregate_exec_fills fs) (aggregate_core_fills core) = union_total fs core"
proof -
  let ?E = "keys_of fill_key fs" and ?C = "keys_of core_key core"
  have "sum_list (map (\<lambda>(k, e). max (truth e) (dict_get_default (aggregate_core_fills core) k 0))
        (aggregate_exec_fills fs)) =
      (\<Sum>k\<in>?E. max (order_lots fs k) (booked_lots core k))"
    using keyed_sum [of "\<lambda>k e. max (truth e) (booked_lots core k)" fill_key add_truth no_truth fs]
    by (simp add: aggregate_keyed core_lookup order_truth_exact)
  moreover have "sum_list (map snd (filter (\<lambda>(k, n). map_of (aggregate_exec_fills fs) k = None)
        (aggregate_core_fills core))) = (\<Sum>k\<in>?C - ?E. booked_lots core k)"
  proof -
    have "sum_list (map snd (filter (\<lambda>(k, n). map_of (aggregate_exec_fills fs) k = None)
          (aggregate_core_fills core))) =
        sum_list (map (\<lambda>(k, n). if k \<in> ?E then 0 else n) (aggregate_core_fills core))"
      by (induction "aggregate_core_fills core" rule: list.induct)
        (auto simp: sum_list_map_filter' agg_exec case_prod_unfold intro!: arg_cong [where f = sum_list])
    also have "\<dots> = (\<Sum>k\<in>?C. if k \<in> ?E then 0 else booked_lots core k)"
      using keyed_sum [of "\<lambda>k n. if k \<in> ?E then 0 else n" core_key "\<lambda>f n. n + rg_count f" 0 core]
      by (simp add: core_keyed booked_lots_def foldl_add cong: if_cong)
    also have "\<dots> = (\<Sum>k\<in>?C - ?E. booked_lots core k)"
      by (rule sum.mono_neutral_cong_right) auto
    finally show ?thesis .
  qed
  moreover have "(\<Sum>k\<in>?C - ?E. booked_lots core k) =
      (\<Sum>k\<in>?C - ?E. max (order_lots fs k) (booked_lots core k))"
    by (rule sum.cong) (auto simp: order_none booked_nonneg [OF nonneg] max_def)
  moreover have "union_total fs core = (\<Sum>k\<in>?E. max (order_lots fs k) (booked_lots core k)) +
      (\<Sum>k\<in>?C - ?E. max (order_lots fs k) (booked_lots core k))"
    unfolding union_total_def by (subst Un_Diff_cancel [symmetric], rule sum.union_disjoint) auto
  ultimately show ?thesis by (simp add: union_lots_def)
qed

lemma disagree_exact:
  assumes nonneg: "\<forall>f\<in>set core. 0 \<le> rg_count f"
  shows "disagree (aggregate_exec_fills fs) (aggregate_core_fills core) \<longleftrightarrow>
    (\<exists>k. EPS_lots < \<bar>order_lots fs k - booked_lots core k\<bar>)" (is "?L \<longleftrightarrow> ?R")
proof
  assume ?L
  then show ?R
  proof (unfold disagree_def list_ex_iff, elim disjE bexE)
    fix p assume p: "p \<in> set (aggregate_exec_fills fs)"
      "case p of (k, e) \<Rightarrow> EPS_lots < \<bar>truth e - dict_get_default (aggregate_core_fills core) k 0\<bar>"
    then show ?R using agg_truth [of "fst p" "snd p" fs]
      by (auto simp: case_prod_unfold core_lookup intro!: exI [of _ "fst p"])
  next
    fix p assume p: "p \<in> set (aggregate_core_fills core)"
      "case p of (k, n) \<Rightarrow> map_of (aggregate_exec_fills fs) k = None \<and> EPS_lots < n"
    then show ?R using core_booked [of "fst p" "snd p" core]
      by (auto simp: case_prod_unfold agg_exec order_none abs_if EPS_lots_def intro!: exI [of _ "fst p"])
  qed
next
  assume ?R
  then obtain k where k: "EPS_lots < \<bar>order_lots fs k - booked_lots core k\<bar>" by blast
  show ?L
  proof (cases "k \<in> keys_of fill_key fs")
    case True
    then obtain e where "(k, e) \<in> set (aggregate_exec_fills fs)" using agg_keys [of fs] by force
    then show ?thesis using k agg_truth [of k e fs]
      by (auto simp: disagree_def list_ex_iff core_lookup intro!: bexI [of _ "(k, e)"])
  next
    case False
    then have "EPS_lots < booked_lots core k"
      using k booked_nonneg [OF nonneg, of k] by (simp add: order_none)
    moreover from this have "k \<in> keys_of core_key core"
      using booked_none [of k core] by (cases "k \<in> keys_of core_key core") (auto simp: EPS_lots_def)
    then obtain n where "(k, n) \<in> set (aggregate_core_fills core)" using core_keys [of core] by force
    moreover from this have "n = booked_lots core k" by (rule core_booked)
    ultimately show ?thesis using False
      by (auto simp: disagree_def list_ex_iff agg_exec intro!: bexI [of _ "(k, n)"])
  qed
qed

lemma unbooked_exact:
  "unbooked_list (aggregate_exec_fills fs) (aggregate_core_fills core) = [] \<longleftrightarrow>
    (\<forall>k\<in>keys_of fill_key fs. order_lots fs k - booked_lots core k \<le> EPS_lots)"
  using agg_truth [of _ _ fs] agg_keys [of fs]
  by (force simp: unbooked_list_def filter_empty_conv core_lookup not_less image_iff)


section \<open>The engine\<close>

lemma reconcile_live_side:
  assumes "keys_of fill_key fs \<noteq> {}" and nonneg: "\<forall>f\<in>set core. 0 \<le> rg_count f"
  shows "reconcile fs (Some core) hedged ol =
    reconciled (\<Sum>k\<in>keys_of fill_key fs. order_lots fs k) (core_total core) (union_total fs core)
      hedged ol (unbooked_list (aggregate_exec_fills fs) (aggregate_core_fills core))
      (\<exists>k. EPS_lots < \<bar>order_lots fs k - booked_lots core k\<bar>)"
  using assms(1)
  by (simp add: reconcile_def aggregate_empty exec_total_exact core_sum union_lots_exact [OF nonneg]
      disagree_exact [OF nonneg] Let_def)

lemma reconcile_silent:
  "keys_of fill_key fs = {} \<Longrightarrow> reconcile fs (Some core) hedged ol =
     reconciled 0 (sum_list (map rg_count core)) (sum_list (map rg_count core)) hedged ol [] False"
  by (simp add: reconcile_def aggregate_empty or_default_def Let_def)

lemma reconcile_exec_only:
  "reconcile fs None hedged ol =
     reconciled (\<Sum>k\<in>keys_of fill_key fs. order_lots fs k) 0 (\<Sum>k\<in>keys_of fill_key fs. order_lots fs k)
       hedged ol [] False"
  by (cases "keys_of fill_key fs = {}")
    (simp_all add: reconcile_def aggregate_empty exec_total_exact or_default_def Let_def)

lemma order_le_union: "(\<Sum>k\<in>keys_of fill_key fs. order_lots fs k) \<le> union_total fs core"
  if "\<forall>f\<in>set core. 0 \<le> rg_count f"
proof -
  have "(\<Sum>k\<in>keys_of fill_key fs. order_lots fs k) \<le>
      (\<Sum>k\<in>keys_of fill_key fs. max (order_lots fs k) (booked_lots core k))"
    by (rule sum_mono) simp
  also have "\<dots> \<le> union_total fs core"
    unfolding union_total_def
    by (rule sum_mono2) (auto simp: max_def order_none booked_nonneg [OF that])
  finally show ?thesis .
qed

lemma core_le_union: "core_total core \<le> union_total fs core"
  if "\<forall>f\<in>set core. 0 \<le> rg_count f"
proof -
  have "core_total core \<le> (\<Sum>k\<in>keys_of core_key core. max (order_lots fs k) (booked_lots core k))"
    unfolding core_total_def by (rule sum_mono) simp
  also have "\<dots> \<le> union_total fs core"
    unfolding union_total_def
    by (rule sum_mono2) (auto simp: le_max_iff_disj booked_nonneg [OF that])
  finally show ?thesis .
qed

lemma uncovered_one_legged:
  assumes "hedged + 1/100 \<le> filled"
  shows "rc_one_legged (reconciled a b filled hedged ol us m)"
proof -
  have "1 \<le> (filled - hedged) / (1/100)" using assms by simp
  then have "0 < (of_int (round_half_even ((filled - hedged) / (1/100))) :: rat)"
    using round_half_even_error [of "(filled - hedged) / (1/100)"] unfolding abs_le_iff by linarith
  then have "1 \<le> round_half_even ((filled - hedged) / (1/100))" by simp
  then have "(1/100 :: rat) \<le> q_count (filled - hedged)"
    by (simp add: q_count_def quantize_he_def)
  then show ?thesis by (simp add: reconciled_def one_legged_count_def EPS_lots_def Let_def)
qed

section \<open>The rebuild\<close>

lemma keys_partition:
  fixes g :: "'f \<Rightarrow> lots"
  assumes "finite K" "keys_of key fs \<subseteq> K"
  shows "(\<Sum>k\<in>K. sum_list (map g (of_key key k fs))) = sum_list (map g (filter (\<lambda>f. key f \<noteq> None) fs))"
  using assms
proof (induction fs)
  case Nil
  then show ?case by (simp add: of_key_def)
next
  case (Cons f fs)
  then have IH: "(\<Sum>k\<in>K. sum_list (map g (of_key key k fs))) =
      sum_list (map g (filter (\<lambda>f. key f \<noteq> None) fs))" by (auto simp: keys_of_def)
  show ?case
  proof (cases "key f")
    case None
    then show ?thesis using IH by (simp add: of_key_def)
  next
    case (Some k0)
    have "sum_list (map g (of_key key k (f # fs))) =
        (if k = k0 then g f else 0) + sum_list (map g (of_key key k fs))" for k
      using Some by (simp add: of_key_def)
    moreover have "k0 \<in> K" using Cons.prems Some by (force simp: keys_of_def)
    ultimately show ?thesis using IH Some Cons.prems(1) by (simp add: sum.distrib)
  qed
qed

text \<open>A booked fill that names no order is in no order's lots.\<close>

lemma core_total_le:
  assumes "\<forall>f\<in>set core. 0 \<le> rg_count f"
  shows "core_total core \<le> sum_list (map rg_count core)"
proof -
  have "core_total core = sum_list (map rg_count (filter (\<lambda>f. core_key f \<noteq> None) core))"
    unfolding core_total_def booked_lots_def by (rule keys_partition) simp_all
  also have "\<dots> \<le> sum_list (map rg_count core)" using assms by (induction core) auto
  finally show ?thesis .
qed

lemma order_lots_summed:
  assumes "\<forall>f\<in>set fs. source_of f = s" "s \<notin> set max_sources"
  shows "order_lots fs k = sum_list (map ef_count (of_key fill_key k fs))"
proof (cases "k \<in> keys_of fill_key fs")
  case True
  have all: "filter (\<lambda>f. source_of f = s) (of_key fill_key k fs) = of_key fill_key k fs"
    using assms(1) by (simp add: filter_id_conv) (simp add: of_key_def)
  have "source_of ` set (of_key fill_key k fs) = {s}"
    using True assms(1) by (force simp: of_key_def keys_of_def image_iff)
  then show ?thesis using True assms(2) by (simp add: order_lots_def source_total_def all)
next
  case False
  then show ?thesis by (simp add: order_none of_key_none [THEN iffD2])
qed

text \<open>What a journal holds: its fills, the lots its takes committed, its alarms.\<close>

definition journal_fills :: "window_entry list \<Rightarrow> exec_fill list" where
  "journal_fills es = List.map_filter (\<lambda>e. case e of J_Rest_Fill f \<Rightarrow> Some f | _ \<Rightarrow> None) es"

definition journal_takes :: "window_entry list \<Rightarrow> lots list" where
  "journal_takes es = List.map_filter (\<lambda>e. case e of J_Take_Wings n \<Rightarrow> Some n | _ \<Rightarrow> None) es"

definition journal_alarms :: "window_entry list \<Rightarrow> string list" where
  "journal_alarms es = List.map_filter (\<lambda>e. case e of J_Alarm a \<Rightarrow> Some a | _ \<Rightarrow> None) es"

lemma rebuild_fold:
  "rb_fills (foldl rebuild_entry s es) =
     rb_fills s @ map (\<lambda>f. f\<lparr>ef_source := REBUILD_SOURCE\<rparr>) (journal_fills es)"
  "rb_hedged (foldl rebuild_entry s es) = rb_hedged s + sum_list (journal_takes es)"
  "rb_alarms (foldl rebuild_entry s es) = rb_alarms s + length (journal_alarms es)"
  by (induction es arbitrary: s)
    (simp_all add: rebuild_entry_def journal_fills_def journal_takes_def journal_alarms_def
      List.map_filter_simps add.assoc split: window_entry.split)

lemma journal_total:
  fixes fs :: "exec_fill list"
  defines "gs \<equiv> map (\<lambda>f. f\<lparr>ef_source := REBUILD_SOURCE\<rparr>) fs"
  shows "(\<Sum>k\<in>keys_of fill_key gs. order_lots gs k) =
    sum_list (map ef_count (filter (\<lambda>f. fill_key f \<noteq> None) fs))"
proof -
  have src: "\<forall>f\<in>set gs. source_of f = REBUILD_SOURCE" "REBUILD_SOURCE \<notin> set max_sources"
    by (auto simp: gs_def source_of_def REBUILD_SOURCE_def max_sources_def)
  have key: "fill_key (f\<lparr>ef_source := s\<rparr>) = fill_key f" for f s by (simp add: fill_key_def)
  have "(\<Sum>k\<in>keys_of fill_key gs. order_lots gs k) =
      sum_list (map ef_count (filter (\<lambda>f. fill_key f \<noteq> None) gs))"
    unfolding order_lots_summed [OF src] by (rule keys_partition) simp_all
  then show ?thesis by (simp add: gs_def filter_map comp_def key)
qed

text \<open>
  The rebuild takes a journaled wing take for a hedge whether or not its legs filled: the lots below
  read as covered although no wing was bought.
\<close>

lemma rebuild_trusts_takes:
  "\<not> rc_one_legged (fst (rebuild_from_records
     [J_Rest_Fill \<lparr>ef_count = 1, ef_coid = Some ''c'', ef_order_id = Some ''o'', ef_price = None,
                   ef_ticker = None, ef_source = []\<rparr>,
      J_Take_Wings 1, J_Alarm ''wing_no_fill'']))"
  by code_simp

end
