(* ===== verification/Reconcile_Properties.thy ===== *)
theory Reconcile_Properties
  imports V33_Reconciled Rest_Example
begin

text \<open>
  The properties of gate E, with the executor's captures as its input, each with an instance where
  it has hypotheses.
\<close>

section \<open>The executor's truth\<close>

text \<open>
  C10. The executor lots of a window are the sum over its orders of the largest source of the
  order's fills, a source being the sum of its increments or, for the cumulative ones, their
  maximum: whatever the core booked, the path taken and the order the fills arrived in.
\<close>

theorem reconcile_truth_exact:
  assumes "mset fs = mset gs"
  shows "rc_exec_lots (reconcile fs core hedged core_one_legged) =
    (\<Sum>k\<in>keys_of fill_key gs. order_lots gs k)"
proof -
  have keys: "keys_of fill_key fs = keys_of fill_key gs"
    by (simp add: keys_of_def mset_eq_setD [OF assms])
  have "rc_exec_lots (reconcile fs core hedged core_one_legged) =
      (\<Sum>k\<in>keys_of fill_key fs. order_lots fs k)"
    by (cases "keys_of fill_key fs = {}"; cases core)
      (simp_all add: reconcile_def aggregate_empty exec_total_exact reconciled_def Let_def)
  then show ?thesis by (simp add: keys order_lots_perm [OF assms])
qed

definition ex_seen :: "string \<Rightarrow> string \<Rightarrow> lots \<Rightarrow> exec_fill" where
  "ex_seen i s n = \<lparr>ef_count = n, ef_coid = Some ''v33-a'', ef_order_id = Some i, ef_price = Some (2/5),
     ef_ticker = Some ''B1'', ef_source = s\<rparr>"

text \<open>One order: two websocket increments, a poll of the same lots; another order half seen.\<close>

definition ex_fills :: "exec_fill list" where
  "ex_fills = [ex_seen ''o1'' ''ws'' (2/5), ex_seen ''o1'' ''ws'' (3/5), ex_seen ''o1'' ''poll'' 1,
               ex_seen ''o2'' ''ws'' (1/2)]"

lemma ex_fills_keys: "keys_of fill_key ex_fills = {''oid:o1'', ''oid:o2''}"
  by (auto simp: keys_of_def ex_fills_def fill_key_def canon_key_def ex_seen_def or_default_def)

lemma ex_fill_sel [simp]:
  "fill_key (ex_seen i s n) = canon_key (Some ''v33-a'') (Some i)" "ef_count (ex_seen i s n) = n"
  "s \<noteq> [] \<Longrightarrow> source_of (ex_seen i s n) = s"
  by (simp_all add: ex_seen_def fill_key_def source_of_def)

lemma ex_fills_lots: "order_lots ex_fills ''oid:o1'' = 1" "order_lots ex_fills ''oid:o2'' = 1/2"
  by (simp_all add: order_lots_def ex_fills_keys)
    (simp_all add: ex_fills_def of_key_def canon_key_def or_default_def source_total_def max_sources_def)

theorem reconcile_truth_exact_witness:
  "rc_exec_lots (reconcile (rev ex_fills) None 0 False) = 3/2"
  using reconcile_truth_exact [of "rev ex_fills" ex_fills None 0 False]
  by (simp add: ex_fills_keys ex_fills_lots)

section \<open>Both sides\<close>

text \<open>
  C11. With no negative booked count: when the executor saw any fill of a named order, the
  reconciled lots are the sum over the orders either side knows of the larger of the two; a
  mismatch is flagged exactly when some order differs by more than half a tick, and a fill is
  unbooked exactly when the executor's side of its order is the larger by that much. When it saw
  none, the core's numbers pass through: the reconciled lots are all the core booked, no mismatch
  is flagged, whatever the core booked, and nothing is unbooked.
\<close>

theorem reconcile_union_exact:
  assumes "\<forall>f\<in>set core. 0 \<le> rg_count f"
  shows "let r = reconcile fs (Some core) hedged core_one_legged in
    if keys_of fill_key fs \<noteq> {}
    then rc_lots_filled r =
        (\<Sum>k\<in>keys_of fill_key fs \<union> keys_of core_key core. max (order_lots fs k) (booked_lots core k)) \<and>
      (rc_mismatch r \<longleftrightarrow> (\<exists>k. EPS_lots < \<bar>order_lots fs k - booked_lots core k\<bar>)) \<and>
      (rc_unbooked r = [] \<longleftrightarrow>
         (\<forall>k\<in>keys_of fill_key fs. order_lots fs k - booked_lots core k \<le> EPS_lots))
    else rc_lots_filled r = sum_list (map rg_count core) \<and> \<not> rc_mismatch r \<and> rc_unbooked r = []"
proof (cases "keys_of fill_key fs = {}")
  case True
  then show ?thesis by (simp add: reconcile_silent reconciled_def Let_def)
next
  case False
  then show ?thesis using unbooked_exact [of fs core]
    by (simp add: reconcile_live_side [OF _ assms] reconciled_def union_total_def Let_def)
qed

definition ex_booked :: rung_fill where
  "ex_booked = \<lparr>rg_rung = 0, rg_E_rung = 1/100, rg_price = 2/5, rg_count = 1, rg_server_ts = 5,
     rg_coid = Some ''v33-a'', rg_order_id = Some ''o1'', rg_W = None, rg_n_top = None,
     rg_bucket_ticker = Some ''B1'', rg_bucket_Sd = Some 2, rg_bucket_Su = Some 3, rg_taker = False,
     rg_weight = None, rg_orphan = False\<rparr>"

lemma ex_booked_lots: "booked_lots [ex_booked] ''oid:o1'' = 1" "booked_lots [ex_booked] ''oid:o2'' = 0"
  by code_simp+

lemma ex_booked_keys: "keys_of core_key [ex_booked] = {''oid:o1''}"
  by (auto simp: keys_of_def ex_booked_def core_key_def canon_key_def or_default_def)

theorem reconcile_union_exact_witness:
  "rc_lots_filled (reconcile ex_fills (Some [ex_booked]) 0 False) = 3/2 \<and>
   rc_mismatch (reconcile ex_fills (Some [ex_booked]) 0 False) \<and>
   rc_unbooked (reconcile ex_fills (Some [ex_booked]) 0 False) \<noteq> [] \<and>
   rc_lots_filled (reconcile [] (Some [ex_booked]) 0 False) = 1"
proof -
  have nonneg: "\<forall>f\<in>set [ex_booked]. 0 \<le> rg_count f" by (simp add: ex_booked_def)
  have differ: "\<exists>k. EPS_lots < \<bar>order_lots ex_fills k - booked_lots [ex_booked] k\<bar>"
    by (rule exI [of _ "''oid:o2''"]) (simp add: ex_fills_lots ex_booked_lots EPS_lots_def)
  have silent: "keys_of fill_key [] = {}" by (simp add: keys_of_def)
  show ?thesis
    using reconcile_union_exact [OF nonneg, of ex_fills 0 False] differ
      reconcile_union_exact [OF nonneg, of "[]" 0 False]
    by (simp add: ex_fills_keys ex_booked_keys ex_fills_lots ex_booked_lots EPS_lots_def Let_def silent)
      (simp add: ex_booked_def)
qed

section \<open>Fail closed\<close>

text \<open>
  C15. Whatever the executor saw, also nothing at all: with no negative booked or hedged count,
  when the core flags a leg, or either side knows at least a hundredth of a lot more than the
  hedges cover, the window is one-legged: the executor's lots on every path, also the rebuild
  without a core, and the core's own on the live one, whatever the other side says.
\<close>

theorem reconcile_fails_closed:
  assumes "\<forall>f\<in>set (or_default [] core). 0 \<le> rg_count f" and "0 \<le> hedged"
    and "core_one_legged \<or>
         hedged + 1/100 \<le> (\<Sum>k\<in>keys_of fill_key fs. order_lots fs k) \<or>
         hedged + 1/100 \<le> (\<Sum>k\<in>keys_of core_key (or_default [] core). booked_lots (or_default [] core) k)"
  shows "rc_one_legged (reconcile fs core hedged core_one_legged)"
proof (cases "core_one_legged")
  case True
  then show ?thesis
    by (cases core) (simp_all add: reconcile_def reconciled_def Let_def)
next
  case flag: False
  show ?thesis
  proof (cases core)
    case None
    then have "hedged + 1/100 \<le> (\<Sum>k\<in>keys_of fill_key fs. order_lots fs k)"
      using assms(2,3) flag by (auto simp: or_default_def keys_of_def)
    then show ?thesis unfolding None reconcile_exec_only by (rule uncovered_one_legged)
  next
    case (Some fs')
    with assms have nonneg: "\<forall>f\<in>set fs'. 0 \<le> rg_count f" by (simp add: or_default_def)
    from assms(3) flag Some have more: "hedged + 1/100 \<le> (\<Sum>k\<in>keys_of fill_key fs. order_lots fs k) \<or>
        hedged + 1/100 \<le> core_total fs'" by (auto simp: or_default_def core_total_def)
    show ?thesis
    proof (cases "keys_of fill_key fs = {}")
      case True
      with more assms(2) core_total_le [OF nonneg] have "hedged + 1/100 \<le> sum_list (map rg_count fs')"
        by auto
      then show ?thesis unfolding Some reconcile_silent [OF True] by (rule uncovered_one_legged)
    next
      case False
      from order_le_union [OF nonneg, of fs] core_le_union [OF nonneg, of fs] more
      have "hedged + 1/100 \<le> union_total fs fs'" by auto
      then show ?thesis
        unfolding Some reconcile_live_side [OF False nonneg] by (rule uncovered_one_legged)
    qed
  qed
qed

theorem reconcile_fails_closed_witness:
  "rc_one_legged (reconcile ex_fills (Some [ex_booked]) 1 False) \<and>
   rc_one_legged (reconcile ex_fills None 1 False) \<and>
   rc_one_legged (reconcile [] (Some [ex_booked]) (1/2) False)"
proof -
  have silent: "keys_of fill_key [] = {}" by (simp add: keys_of_def)
  show ?thesis
    using reconcile_fails_closed [of "Some [ex_booked]" 1 False ex_fills]
      reconcile_fails_closed [of None 1 False ex_fills]
      reconcile_fails_closed [of "Some [ex_booked]" "1/2" False "[]"]
    by (simp add: or_default_def ex_booked_keys ex_fills_keys ex_fills_lots ex_booked_lots silent)
      (simp add: ex_booked_def)
qed

section \<open>The executor's captures\<close>

text \<open>A capture of the maker executor as the row gate E reads; it carries no order id.\<close>

definition row_of_capture :: "fill_capture \<Rightarrow> exec_row" where
  "row_of_capture c =
     \<lparr>er_leg = fc_leg c, er_count = fc_count c, er_coid = Some (fc_coid c), er_order_id = None,
      er_price = Some (fc_price c), er_ticker = Some (fc_ticker c), er_path = fc_path c\<rparr>"

definition record_order_id :: "rest_exec \<Rightarrow> string \<Rightarrow> string option" where
  "record_order_id x c =
     (case attribute x (Some c) None of None \<Rightarrow> None | Some r \<Rightarrow> rr_order_id r)"

lemma race_captured:
  assumes "rr_order_id r = Some i" "0 < n" "i \<notin> set (rx_booked_oids x)" "rr_coid r \<noteq> []"
  shows "rx_fills (fst (finish_cancel (Some r) i m (Some n) now x)) =
      rx_fills x @ [race_capture r (q_count n)]"
    "record_order_id (fst (finish_cancel (Some r) i m (Some n) now x)) (rr_coid r) = Some i"
  using assms
  by (simp_all add: finish_cancel_def Let_def book_race_def put_rec_def note_rest_def
      record_order_id_def attribute_def update_conv')

lemma two_sources:
  assumes "fill_key f = Some k" "fill_key g = Some k" "source_of f = s" "source_of g = t" "s \<noteq> t"
    and "s \<notin> set max_sources" "t \<notin> set max_sources"
  shows "keys_of fill_key [f, g] = {k}" "order_lots [f, g] k = max (ef_count f) (ef_count g)"
  using assms
  by (auto simp: keys_of_def order_lots_def of_key_def source_total_def Let_def)

text \<open>
  C21. A lot that fills while its order is cancelled is seen twice, by the websocket and by the
  cancel's status read, and counted once: the capture of the cancel has no order id, the retained
  record supplies it, and both land on one order.
\<close>

theorem cancel_race_counted_once:
  assumes "rr_order_id r = Some i" and "i \<noteq> []" and "rr_coid r \<noteq> []" and "0 < n"
    and "i \<notin> set (rx_booked_oids x)" and "rx_fills x = []"
    and "ef_order_id f = Some i" and "ef_source f = ''ws''" and "ef_count f = q_count n"
    and y: "y = fst (finish_cancel (Some r) i m (Some n) now x)"
  shows "rc_exec_lots (reconcile_live [f] (record_order_id y) (map row_of_capture (rx_fills y)) []
    None st) = q_count n"
proof -
  let ?g = "row_fill (record_order_id y) (row_of_capture (race_capture r (q_count n)))"
  have cap: "rx_fills y = [race_capture r (q_count n)]" "record_order_id y (rr_coid r) = Some i"
    using race_captured [OF assms(1,4,5,3)] assms(6) by (simp_all add: y)
  have truth: "executor_truth_fills [f] (record_order_id y) (map row_of_capture (rx_fills y)) [] = [f, ?g]"
    by (simp add: executor_truth_fills_def cap row_of_capture_def race_capture_def)
  have g: "ef_count ?g = q_count n" "source_of ?g = ''cancel_race''" "fill_key ?g = Some (''oid:'' @ i)"
    using assms(2,3)
    by (simp_all add: row_fill_def row_of_capture_def race_capture_def source_of_def fill_key_def
        canon_key_def row_order_id_def cap or_default_def)
  have f: "fill_key f = Some (''oid:'' @ i)" "source_of f = ''ws''"
    using assms(2,7,8) by (simp_all add: fill_key_def canon_key_def or_default_def source_of_def)
  have src: "''ws'' \<notin> set max_sources" "''cancel_race'' \<notin> set max_sources"
    by (simp_all add: max_sources_def)
  note once = two_sources [OF f(1) g(3) f(2) g(2) _ src]
  have "rc_exec_lots (reconcile [f, ?g] core hedged ol) = q_count n" for core hedged ol
    using once assms(9) g(1)
    by (cases core) (simp_all add: reconcile_def aggregate_empty exec_total_exact reconciled_def Let_def)
  then show ?thesis by (simp add: reconcile_live_def truth)
qed


theorem cancel_race_counted_once_witness:
  "\<forall>st. rc_exec_lots (reconcile_live [ex_seen ''o1'' ''ws'' 2]
     (record_order_id (fst (finish_cancel (Some ex_record) ''o1'' 2 (Some 2) 20 ex_held)))
     (map row_of_capture (rx_fills (fst (finish_cancel (Some ex_record) ''o1'' 2 (Some 2) 20 ex_held))))
     [] None st) = 2"
proof
  fix st
  have two: "q_count 2 = 2" by code_simp
  have "rx_booked_oids ex_held = []" "rx_fills ex_held = []"
    by (simp_all add: ex_held_def ex_rest_def new_rest_exec_def)
  moreover have "rr_order_id ex_record = Some ''o1''" "rr_coid ex_record \<noteq> []"
    "ef_order_id (ex_seen ''o1'' ''ws'' 2) = Some ''o1''" "ef_source (ex_seen ''o1'' ''ws'' 2) = ''ws''"
    by (simp_all add: ex_record_def ex_seen_def)
  ultimately show "rc_exec_lots (reconcile_live [ex_seen ''o1'' ''ws'' 2]
      (record_order_id (fst (finish_cancel (Some ex_record) ''o1'' 2 (Some 2) 20 ex_held)))
      (map row_of_capture (rx_fills (fst (finish_cancel (Some ex_record) ''o1'' 2 (Some 2) 20 ex_held))))
      [] None st) = 2"
    using cancel_race_counted_once [of ex_record "''o1''" 2 ex_held "ex_seen ''o1'' ''ws'' 2", OF _ _ _ _ _ _ _ _ _ refl]
    by (simp add: two)
qed

end
