(* ===== verification/Window_Ledger.thy ===== *)
theory Window_Ledger
  imports V33_Core Ledger
begin

text \<open>
  The window ledger of V3.2 and V3.3 (\<open>v32/ledger.py\<close>, \<open>v33/ledger.py\<close>): the money of a closed
  ladder window read off the core's state, the row it appends, the floor a row booked, the band of
  the credit still pending, and the settlement backfill over the rows of a ledger. A row keeps the
  fields that are read back; its JSON text is not modelled.
\<close>

section \<open>Amounts\<close>

text \<open>\<open>_co\<close> and \<open>_fee_total\<close>: a count of a row, and the taker fee of a whole fill.\<close>

definition co :: "lots \<Rightarrow> lots" where
  "co n = q_count n"

definition fee_total :: "money \<Rightarrow> lots \<Rightarrow> money" where
  "fee_total p n = of_int \<lceil>fee_rate * p * (1 - p) * n * 10000\<rceil> / 10000"

text \<open>What the held legs of a pin pay at least: three pay two dollars, two pay one.\<close>

definition v32_set_floor_dollars :: "nat \<Rightarrow> lots \<Rightarrow> money" where
  "v32_set_floor_dollars held n = of_int (max 0 (int held - 1)) * n"

section \<open>The bucket of a fill\<close>

definition named_ticker :: "v33_state \<Rightarrow> int option \<Rightarrow> ticker option" where
  "named_ticker st sd =
     (case sd of
        None \<Rightarrow> None
      | Some k \<Rightarrow>
          (case map_of (x_bucket_tickers st) k of
             None \<Rightarrow> None | Some tk \<Rightarrow> if tk = [] then None else Some tk))"

definition bucket_ticker_for_fill :: "v33_state \<Rightarrow> rung_fill option \<Rightarrow> ticker option" where
  "bucket_ticker_for_fill st rf =
     or_else
       (case rf of
          None \<Rightarrow> None
        | Some f \<Rightarrow>
            or_else (case rg_bucket_ticker f of None \<Rightarrow> None | Some tk \<Rightarrow> if tk = [] then None else Some tk)
              (named_ticker st (rg_bucket_Sd f)))
       (or_else (named_ticker st (x_rest_bucket_Sd st)) (named_ticker st (x_spot_Sd st)))"

section \<open>A batch at close\<close>

type_synonym held_leg = "ticker \<times> string \<times> lots"

definition batch_complete :: "v33_state \<Rightarrow> batch33 \<Rightarrow> bool" where
  "batch_complete st b \<longleftrightarrow>
     batch_legs33 st (bt_index b) \<noteq> [] \<and>
     list_all (\<lambda>l. wl_status l = Filled) (batch_legs33 st (bt_index b))"

definition first_fill :: "batch33 \<Rightarrow> rung_fill option" where
  "first_fill b = (case bt_fills b of [] \<Rightarrow> None | f # fs \<Rightarrow> Some f)"

definition bucket_held :: "v33_state \<Rightarrow> batch33 \<Rightarrow> held_leg list" where
  "bucket_held st b =
     (case bucket_ticker_for_fill st (first_fill b) of
        None \<Rightarrow> [] | Some tk \<Rightarrow> [(tk, ''no'', co (total_count b))])"

text \<open>A wing leg is held for the part that was not netted against the other side of its market.\<close>

definition wings_held :: "v33_state \<Rightarrow> batch33 \<Rightarrow> held_leg list" where
  "wings_held st b =
     map (\<lambda>l. (wl_ticker l, wl_side l, co (leg_held l)))
       (filter (\<lambda>l. 0 < leg_held l) (filled_legs st (bt_index b)))"

definition batch_held :: "v33_state \<Rightarrow> batch33 \<Rightarrow> held_leg list" where
  "batch_held st b = bucket_held st b @ wings_held st b"

definition batch_wpaid :: "v33_state \<Rightarrow> batch33 \<Rightarrow> money" where
  "batch_wpaid st b = sum_list (map fill_cost (filled_legs st (bt_index b)))"

record set_record =
  bs_index :: nat
  bs_fill_count :: lots
  bs_rungs :: "int list"
  bs_prices :: "money list"
  bs_completed :: bool
  bs_one_legged :: bool
  bs_held_legs :: nat
  bs_realized_lock :: "money option"

definition set_record_of :: "v33_state \<Rightarrow> batch33 \<Rightarrow> set_record" where
  "set_record_of st b =
     \<lparr>bs_index = bt_index b, bs_fill_count = co (total_count b), bs_rungs = map rg_rung (bt_fills b),
      bs_prices = map rg_price (bt_fills b), bs_completed = batch_complete st b,
      bs_one_legged = bt_one_legged b, bs_held_legs = length (batch_held st b),
      bs_realized_lock =
        (if batch_complete st b then Some (batch_lock b (batch_wpaid st b)) else None)\<rparr>"

section \<open>A rung fill at close\<close>

record rung_record =
  rl_rung :: int
  rl_E_rung :: money
  rl_price :: money
  rl_count :: lots
  rl_weight :: "int option"
  rl_server_ts :: time
  rl_W_at_fill :: "money option"
  rl_n_top :: "money option"
  rl_lock_solved :: "money option"
  rl_realized_lock :: "money option"
  rl_coid :: "string option"
  rl_order_id :: "string option"
  rl_batch :: "nat option"
  rl_orphan :: bool

text \<open>
  The source looks a fill up by identity; equal fills are of one step and so of one batch, and the
  last batch listed wins.
\<close>

definition batch_of_fill :: "v33_state \<Rightarrow> rung_fill \<Rightarrow> batch33 option" where
  "batch_of_fill st rf = find (\<lambda>b. rf \<in> set (bt_fills b)) (rev (x_wing_batches st))"

definition realized_of_fill :: "v33_state \<Rightarrow> rung_fill \<Rightarrow> money option" where
  "realized_of_fill st rf =
     (case batch_of_fill st rf of
        None \<Rightarrow> None
      | Some b \<Rightarrow>
          if batch_complete st b then Some (lock_value (rg_price rf) (batch_wpaid st b)) else None)"

definition rung_record_of :: "v33_state \<Rightarrow> rung_fill \<Rightarrow> rung_record" where
  "rung_record_of st rf =
     \<lparr>rl_rung = rg_rung rf, rl_E_rung = rg_E_rung rf, rl_price = rg_price rf, rl_count = co (rg_count rf),
      rl_weight = rg_weight rf, rl_server_ts = rg_server_ts rf, rl_W_at_fill = rg_W rf,
      rl_n_top = rg_n_top rf, rl_lock_solved = map_option (lock_value (rg_price rf)) (rg_W rf),
      rl_realized_lock = realized_of_fill st rf, rl_coid = rg_coid rf, rl_order_id = rg_order_id rf,
      rl_batch = map_option bt_index (batch_of_fill st rf), rl_orphan = rg_orphan rf\<rparr>"

section \<open>The money of the window\<close>

text \<open>The cash paid: rests at their price, a taker rest and every filled wing with its fee.\<close>

definition rest_cost :: "rung_fill \<Rightarrow> money" where
  "rest_cost rf =
     rg_price rf * rg_count rf + (if rg_taker rf then fee_total (rg_price rf) (rg_count rf) else 0)"

definition leg_cash :: "leg33 \<Rightarrow> money" where
  "leg_cash l =
     (case (wl_status l, wl_fill_price l) of
        (Filled, Some p) \<Rightarrow> p * wl_count l + fee_total p (wl_count l) | _ \<Rightarrow> 0)"

definition cash_paid :: "v33_state \<Rightarrow> money" where
  "cash_paid st = sum_list (map rest_cost (x_rest_fills st)) + sum_list (map leg_cash (x_wing_legs st))"

definition netted_credit :: "v33_state \<Rightarrow> money" where
  "netted_credit st = sum_list (map np_count (x_netted_pairs st))"

definition sets_floor :: "v33_state \<Rightarrow> money" where
  "sets_floor st =
     sum_list (map (\<lambda>b. v32_set_floor_dollars (length (batch_held st b)) (total_count b)) (x_wing_batches st))"

record netted_set =
  ns_ticker :: ticker
  ns_count :: lots
  ns_yes_cost :: money
  ns_no_cost :: money
  ns_realised :: money

definition netted_set_of :: "netted_pair \<Rightarrow> netted_set" where
  "netted_set_of p =
     \<lparr>ns_ticker = np_ticker p, ns_count = co (np_count p), ns_yes_cost = np_yes_cost p,
      ns_no_cost = np_no_cost p, ns_realised = np_realised p\<rparr>"

record money_math =
  mm_dry_sim :: bool
  mm_rung_fills :: "rung_record list"
  mm_sets :: "set_record list"
  mm_held :: "held_leg list"
  mm_floor :: "money option"
  mm_delta :: "money option"
  mm_lock :: "money option"
  mm_one_legged :: bool
  mm_unsettled :: bool
  mm_lots :: lots
  mm_netted :: "netted_set list"

fun first_some :: "'a option list \<Rightarrow> 'a option" where
  "first_some [] = None"
| "first_some (x # xs) = or_else x (first_some xs)"

definition compute_ladder_money_math :: "v33_state \<Rightarrow> bool \<Rightarrow> money_math" where
  "compute_ladder_money_math st dry_sim =
     (if x_rest_fills st = [] then
        \<lparr>mm_dry_sim = dry_sim, mm_rung_fills = [], mm_sets = [], mm_held = [], mm_floor = None,
         mm_delta = None, mm_lock = None, mm_one_legged = x_one_legged st, mm_unsettled = False,
         mm_lots = 0, mm_netted = []\<rparr>
      else
        (let held = concat (map (batch_held st) (x_wing_batches st));
             floor = sets_floor st + netted_credit st
         in \<lparr>mm_dry_sim = dry_sim, mm_rung_fills = map (rung_record_of st) (x_rest_fills st),
             mm_sets = map (set_record_of st) (x_wing_batches st), mm_held = held,
             mm_floor = Some floor, mm_delta = Some (floor - cash_paid st),
             mm_lock = first_some (map (realized_of_fill st) (x_rest_fills st)),
             mm_one_legged = x_one_legged st, mm_unsettled = (held \<noteq> [] \<and> \<not> dry_sim),
             mm_lots = co (sum_list (map rg_count (x_rest_fills st))),
             mm_netted = map netted_set_of (x_netted_pairs st)\<rparr>))"

section \<open>The ladder block of a row\<close>

record ladder_block =
  lb_rungs_filled :: nat
  lb_contracts :: lots
  lb_shallowest_margin_c :: "money option"
  lb_deepest_margin_c :: "money option"
  lb_ladder_lock :: money
  lb_roll_count :: nat
  lb_roll_single_order_count :: nat
  lb_roll_single_order_ratio :: "rat option"
  lb_replaces :: nat
  lb_wing_batches :: nat
  lb_creates :: nat
  lb_amends_attempted :: nat
  lb_cancels :: nat
  lb_batch_creates :: nat

text \<open>An armed executor's counter when it is not zero, else the driver's own.\<close>

definition venue_or_dry :: "(string, nat) dict \<Rightarrow> string \<Rightarrow> (string, nat) dict \<Rightarrow> string \<Rightarrow> nat" where
  "venue_or_dry executor k driver k' =
     (if dict_get_default executor k 0 \<noteq> 0 then dict_get_default executor k 0
      else dict_get_default driver k' 0)"

definition extreme_margin :: "(money \<Rightarrow> money \<Rightarrow> money) \<Rightarrow> rung_record list \<Rightarrow> money option" where
  "extreme_margin pick rs =
     (case map rl_E_rung rs of [] \<Rightarrow> None | e # es \<Rightarrow> Some (foldl pick e es * 100))"

definition ladder_lock_of :: "rung_record list \<Rightarrow> money" where
  "ladder_lock_of rs =
     sum_list (map (\<lambda>r. case rl_realized_lock r of None \<Rightarrow> 0 | Some l \<Rightarrow> l * rl_count r) rs)"

definition ladder_summary ::
  "v33_state \<Rightarrow> money_math \<Rightarrow> (string, nat) dict \<Rightarrow> (string, nat) dict \<Rightarrow> ladder_block" where
  "ladder_summary st m driver executor =
     \<lparr>lb_rungs_filled = x_rungs_filled st, lb_contracts = co (mm_lots m),
      lb_shallowest_margin_c = extreme_margin min (mm_rung_fills m),
      lb_deepest_margin_c = extreme_margin max (mm_rung_fills m),
      lb_ladder_lock = ladder_lock_of (mm_rung_fills m), lb_roll_count = x_roll_count st,
      lb_roll_single_order_count = x_roll_single_order_count st,
      lb_roll_single_order_ratio =
        (if x_roll_count st = 0 then None
         else Some (of_nat (x_roll_single_order_count st) / of_nat (x_roll_count st))),
      lb_replaces = x_replace_count st, lb_wing_batches = length (mm_sets m),
      lb_creates = venue_or_dry executor ''rest_acked'' driver ''would_place_rest'',
      lb_amends_attempted = venue_or_dry executor ''amend_post'' driver ''would_amend_rest'',
      lb_cancels = venue_or_dry executor ''cancel_delete'' driver ''would_cancel_rest'',
      lb_batch_creates = dict_get_default executor ''rest_batch_post'' 0\<rparr>"

section \<open>The rows of a ledger\<close>

text \<open>
  The fields of a row that the ledger reads back: \<open>wr_sets\<close> are the held legs and the fill count
  of each wing batch, \<open>wr_netted\<close> the counts of the netted sets. A backfill row names its window
  in \<open>wr_backfill_of\<close>.
\<close>

record window_row =
  wr_close_time :: string
  wr_backfill_of :: "string option"
  wr_dry_sim :: bool
  wr_unsettled :: bool
  wr_sets :: "(nat \<times> lots) list"
  wr_unsettled_legs :: "held_leg list"
  wr_held_legs :: "held_leg list"
  wr_floor :: "money option"
  wr_delta :: "money option"
  wr_netted :: "lots list"
  wr_lots :: lots
  wr_one_legged :: bool

text \<open>
  The row of a closed window (\<open>build_v33_ledger_row\<close> as \<open>run_v33._finalize\<close> calls it); the lots and
  the one-legged verdict are gate E's when it reconciled.
\<close>

definition build_v33_ledger_row :: "string \<Rightarrow> money_math \<Rightarrow> (lots \<times> bool) option \<Rightarrow> window_row" where
  "build_v33_ledger_row close_time m recon =
     \<lparr>wr_close_time = close_time, wr_backfill_of = None, wr_dry_sim = mm_dry_sim m,
      wr_unsettled = mm_unsettled m, wr_sets = map (\<lambda>s. (bs_held_legs s, bs_fill_count s)) (mm_sets m),
      wr_unsettled_legs = (if mm_unsettled m then mm_held m else []), wr_held_legs = mm_held m,
      wr_floor = mm_floor m, wr_delta = mm_delta m, wr_netted = map ns_count (mm_netted m),
      wr_lots = (case recon of None \<Rightarrow> mm_lots m | Some (n, _) \<Rightarrow> co n),
      wr_one_legged = (case recon of None \<Rightarrow> mm_one_legged m | Some (_, ol) \<Rightarrow> ol)\<rparr>"

text \<open>
  Reading the rows back: \<open>parse\<close> is the JSON reader; a broken last line is a torn append and is
  dropped, a broken line before it raises.
\<close>

fun load_rows :: "(string \<Rightarrow> 'r option) \<Rightarrow> string list \<Rightarrow> 'r list option" where
  "load_rows parse [] = Some []"
| "load_rows parse [l] = Some (case parse l of None \<Rightarrow> [] | Some r \<Rightarrow> [r])"
| "load_rows parse (l # m # ls) =
     (case parse l of None \<Rightarrow> None | Some r \<Rightarrow> map_option ((#) r) (load_rows parse (m # ls)))"

section \<open>What a row still has pending\<close>

text \<open>\<open>d or 1\<close> of the source: a zero count reads as one.\<close>

definition set_lots :: "nat \<times> lots \<Rightarrow> lots" where
  "set_lots s = (if snd s = 0 then 1 else snd s)"

definition set_floor :: "nat \<times> lots \<Rightarrow> money" where
  "set_floor s = v32_set_floor_dollars (fst s) (set_lots s)"

definition set_best :: "nat \<times> lots \<Rightarrow> money" where
  "set_best s = of_nat (min (fst s) 2) * set_lots s"

definition row_legs :: "window_row \<Rightarrow> held_leg list" where
  "row_legs r = (if wr_unsettled_legs r \<noteq> [] then wr_unsettled_legs r else wr_held_legs r)"

definition legs_set :: "held_leg list \<Rightarrow> nat \<times> lots" where
  "legs_set legs =
     (length legs, case legs of [] \<Rightarrow> 1 | l # ls \<Rightarrow> foldl min (snd (snd l)) (map (snd \<circ> snd) ls))"

text \<open>Without the batches of the row its legs count as one set at their smallest count.\<close>

definition row_band :: "window_row \<Rightarrow> money \<times> money" where
  "row_band r =
     (if wr_sets r \<noteq> [] then (sum_list (map set_floor (wr_sets r)), sum_list (map set_best (wr_sets r)))
      else (let (k, n) = legs_set (row_legs r)
            in (v32_set_floor_dollars k n, of_nat (min k 2) * n)))"

definition backfilled :: "window_row list \<Rightarrow> string list" where
  "backfilled rows = map the (filter (\<lambda>w. w \<noteq> None \<and> w \<noteq> Some []) (map wr_backfill_of rows))"

text \<open>The rows of a UTC day whose settlement is still owed.\<close>

definition v32_owed :: "window_row list \<Rightarrow> string \<Rightarrow> window_row list" where
  "v32_owed rows utc_day =
     filter (\<lambda>r. wr_unsettled r \<and> take 10 (wr_close_time r) = utc_day \<and>
                 wr_close_time r \<notin> set (backfilled rows)) rows"

definition v33_owed :: "window_row list \<Rightarrow> string \<Rightarrow> window_row list" where
  "v33_owed rows utc_day =
     filter (\<lambda>r. wr_unsettled r \<and> \<not> wr_dry_sim r \<and> take 10 (wr_close_time r) = utc_day \<and>
                 wr_close_time r \<notin> set (backfilled rows)) rows"

definition credit_band :: "window_row list \<Rightarrow> money \<times> money" where
  "credit_band rows =
     (sum_list (map (fst \<circ> row_band) rows), sum_list (map (snd \<circ> row_band) rows))"

definition v32_pending_credit :: "window_row list \<Rightarrow> string \<Rightarrow> money \<times> money" where
  "v32_pending_credit rows utc_day = credit_band (v32_owed rows utc_day)"

definition v33_pending_credit :: "window_row list \<Rightarrow> string \<Rightarrow> money \<times> money" where
  "v33_pending_credit rows utc_day = credit_band (v33_owed rows utc_day)"

section \<open>The settlement backfill\<close>

text \<open>The floor a row booked: its own key, else rebuilt from its batches, else from the legs.\<close>

datatype floor_note = Floor_Explicit | Floor_From_Sets | Floor_From_Legs

definition floor_note_of :: "window_row \<Rightarrow> floor_note" where
  "floor_note_of r =
     (if wr_floor r \<noteq> None then Floor_Explicit
      else if wr_sets r \<noteq> [] then Floor_From_Sets else Floor_From_Legs)"

definition floor_booked_for_entry :: "window_row \<Rightarrow> held_leg list \<Rightarrow> money" where
  "floor_booked_for_entry r legs =
     (case wr_floor r of
        Some f \<Rightarrow> f
      | None \<Rightarrow>
          if wr_sets r \<noteq> [] then sum_list (map set_floor (wr_sets r))
          else (let (k, n) = legs_set legs in v32_set_floor_dollars k n))"

text \<open>V3.2 has the same three cases in its own copy.\<close>

definition v32_floor_booked_for_entry :: "window_row \<Rightarrow> held_leg list \<Rightarrow> money" where
  "v32_floor_booked_for_entry r legs =
     (case wr_floor r of
        Some f \<Rightarrow> f
      | None \<Rightarrow>
          if wr_sets r \<noteq> [] then sum_list (map set_floor (wr_sets r))
          else (let (k, n) = legs_set legs in v32_set_floor_dollars k n))"

text \<open>
  The results of the held tickers, each asked of \<open>fetch_result\<close>; anything but yes or no leaves the
  window for a later wake.
\<close>

fun leg_results ::
  "(ticker \<Rightarrow> string option) \<Rightarrow> (ticker, string) dict \<Rightarrow> held_leg list \<Rightarrow> (ticker, string) dict option" where
  "leg_results fetch results [] = Some results"
| "leg_results fetch results ((tk, side, n) # legs) =
     (case fetch tk of
        None \<Rightarrow> None
      | Some res \<Rightarrow>
          if res \<noteq> ''yes'' \<and> res \<noteq> ''no'' then None
          else leg_results fetch (AList.update tk res results) legs)"

record backfill_row = window_row +
  br_results :: "(ticker, string) dict"
  br_payoff :: money
  br_floor_netted :: money
  br_legs_priced :: nat
  br_note :: floor_note
  br_flushed_at :: time

definition build_backfill_row ::
  "window_row \<Rightarrow> (ticker, string) dict \<Rightarrow> money \<Rightarrow> money \<Rightarrow> time \<Rightarrow> nat \<Rightarrow> floor_note \<Rightarrow> backfill_row" where
  "build_backfill_row entry results payoff booked now k note =
     \<lparr>wr_close_time = wr_close_time entry, wr_backfill_of = Some (wr_close_time entry),
      wr_dry_sim = False, wr_unsettled = False, wr_sets = [], wr_unsettled_legs = [],
      wr_held_legs = row_legs entry, wr_floor = None, wr_delta = Some (payoff - booked), wr_netted = [],
      wr_lots = 0, wr_one_legged = False, br_results = results, br_payoff = payoff,
      br_floor_netted = booked, br_legs_priced = k, br_note = note, br_flushed_at = now\<rparr>"

text \<open>The latest unsettled row per window, in the order the windows first appear.\<close>

definition last_by_window :: "window_row list \<Rightarrow> (string, window_row) dict" where
  "last_by_window rows = foldl (\<lambda>d r. AList.update (wr_close_time r) r d) [] rows"

definition v32_pending :: "window_row list \<Rightarrow> (string, window_row) dict" where
  "v32_pending rows = last_by_window (filter (\<lambda>r. wr_unsettled r \<and> row_legs r \<noteq> []) rows)"

definition v33_pending :: "window_row list \<Rightarrow> (string, window_row) dict" where
  "v33_pending rows =
     last_by_window (filter (\<lambda>r. \<not> wr_dry_sim r \<and> wr_unsettled r \<and> row_legs r \<noteq> []) rows)"

text \<open>V3.3 adds the dollar of every netted pair, whose market it never looks up.\<close>

definition settle_entry ::
  "(ticker \<Rightarrow> string option) \<Rightarrow> time \<Rightarrow> money \<Rightarrow> window_row \<Rightarrow> backfill_row option" where
  "settle_entry fetch now credit r =
     (case leg_results fetch [] (row_legs r) of
        None \<Rightarrow> None
      | Some results \<Rightarrow>
          (case settlement_payoff (row_legs r) results of
             Inl _ \<Rightarrow> None
           | Inr payoff \<Rightarrow>
               Some (build_backfill_row r results (payoff + credit) (floor_booked_for_entry r (row_legs r))
                       now (length (row_legs r)) (floor_note_of r))))"

definition v32_settle_entry ::
  "(ticker \<Rightarrow> string option) \<Rightarrow> time \<Rightarrow> window_row \<Rightarrow> backfill_row option" where
  "v32_settle_entry fetch now r =
     (case leg_results fetch [] (row_legs r) of
        None \<Rightarrow> None
      | Some results \<Rightarrow>
          (case settlement_payoff (row_legs r) results of
             Inl _ \<Rightarrow> None
           | Inr payoff \<Rightarrow>
               Some (build_backfill_row r results payoff (v32_floor_booked_for_entry r (row_legs r))
                       now (length (row_legs r)) (floor_note_of r))))"

definition v32_settlement_backfill_sweep ::
  "window_row list \<Rightarrow> (ticker \<Rightarrow> string option) \<Rightarrow> time \<Rightarrow> backfill_row list" where
  "v32_settlement_backfill_sweep rows fetch now =
     List.map_filter (\<lambda>(w, r). if w \<in> set (backfilled rows) then None else v32_settle_entry fetch now r)
       (v32_pending rows)"

definition v33_settlement_backfill_sweep ::
  "window_row list \<Rightarrow> (ticker \<Rightarrow> string option) \<Rightarrow> time \<Rightarrow> backfill_row list" where
  "v33_settlement_backfill_sweep rows fetch now =
     List.map_filter
       (\<lambda>(w, r). if w \<in> set (backfilled rows) then None
                 else settle_entry fetch now (sum_list (wr_netted r)) r)
       (v33_pending rows)"

end
