(* ===== verification/V33_Books.thy ===== *)
theory V33_Books
  imports V33_Hedge Window_Ledger
begin

text \<open>
  What the books of a closed V3.3 window rest on, with print-through off: the markets the state
  knows are what their tickers classify as, a rung fill carries the market of its own bucket, and a
  wing leg is on a strike of its batch's bucket. The invariant lives on the part of the state the
  ledger reads (\<open>books_view\<close>), and is carried with the hedge invariant.
\<close>

definition market_of :: "v33_state \<Rightarrow> ticker \<Rightarrow> market_class option" where
  "market_of st t = classify_ticker t (x_bucket_map st) (x_strike_floor_map st)"

definition fill_placed :: "v33_state \<Rightarrow> rung_fill \<Rightarrow> bool" where
  "fill_placed st f \<longleftrightarrow>
     (\<forall>t. rg_bucket_ticker f = Some t \<longrightarrow>
        (\<exists>k. rg_bucket_Sd f = Some k \<and> market_of st t = Some (BucketMarket k)))"

definition leg_placed :: "v33_params \<Rightarrow> v33_state \<Rightarrow> leg33 \<Rightarrow> bool" where
  "leg_placed params st l \<longleftrightarrow>
     (\<forall>b\<in>set (x_wing_batches st). bt_index b = wl_batch l \<longrightarrow>
        (\<exists>sd su. batch_bucket params b = Some (sd, su) \<and>
           (wl_ticker l = [] \<or>
            market_of st (wl_ticker l) = Some (StrikeMarket (if wl_side l = BUY_YES then sd else su)))))"

definition books_ok :: "v33_params \<Rightarrow> v33_state \<Rightarrow> bool" where
  "books_ok params st \<longleftrightarrow>
     (\<forall>(k, t)\<in>set (x_strike_tickers st). market_of st t = Some (StrikeMarket k)) \<and>
     (\<forall>(k, t)\<in>set (x_bucket_tickers st). market_of st t = Some (BucketMarket k)) \<and>
     (\<forall>f\<in>set (x_rest_fills st). fill_placed st f \<and> 0 < rg_count f) \<and>
     (\<forall>l\<in>set (x_wing_legs st). leg_placed params st l) \<and>
     (x_netted_pairs st = [] \<longrightarrow> (\<forall>l\<in>set (x_wing_legs st). wl_netted l = 0))"

definition books33 :: "v33_params \<Rightarrow> v33_state \<Rightarrow> bool" where
  "books33 params st \<longleftrightarrow> hedge33 st \<and> books_ok params st"

section \<open>The view the books read\<close>

definition book_leg :: "leg33 \<Rightarrow> nat \<times> string \<times> ticker \<times> lots" where
  "book_leg l = (wl_batch l, wl_side l, wl_ticker l, wl_netted l)"

definition book_batch :: "v33_params \<Rightarrow> batch33 \<Rightarrow> nat \<times> (int \<times> int) option" where
  "book_batch params b = (bt_index b, batch_bucket params b)"

definition books_view where
  "books_view params st =
     ((x_bucket_map st, x_strike_floor_map st, x_strike_tickers st, x_bucket_tickers st), x_rest_fills st,
      map (book_batch params) (x_wing_batches st), map book_leg (x_wing_legs st), x_netted_pairs st)"

text \<open>The invariant, on the view alone.\<close>

definition view_placed ::
  "bucket_map \<Rightarrow> (ticker, int) dict \<Rightarrow> (nat \<times> (int \<times> int) option) list \<Rightarrow> nat \<times> string \<times> ticker \<times> lots \<Rightarrow> bool" where
  "view_placed bm fl bs l \<longleftrightarrow>
     (case l of (i, side, t, n) \<Rightarrow>
        \<forall>(j, bk)\<in>set bs. j = i \<longrightarrow>
          (\<exists>sd su. bk = Some (sd, su) \<and>
             (t = [] \<or> classify_ticker t bm fl = Some (StrikeMarket (if side = BUY_YES then sd else su)))))"

lemma books_ok_view:
  "books_ok params st \<longleftrightarrow>
     (case books_view params st of ((bm, fl, sts, bts), fills, bs, ls, pairs) \<Rightarrow>
        (\<forall>(k, t)\<in>set sts. classify_ticker t bm fl = Some (StrikeMarket k)) \<and>
        (\<forall>(k, t)\<in>set bts. classify_ticker t bm fl = Some (BucketMarket k)) \<and>
        (\<forall>f\<in>set fills. (\<forall>t. rg_bucket_ticker f = Some t \<longrightarrow>
           (\<exists>k. rg_bucket_Sd f = Some k \<and> classify_ticker t bm fl = Some (BucketMarket k))) \<and>
           0 < rg_count f) \<and>
        (\<forall>l\<in>set ls. view_placed bm fl bs l) \<and>
        (pairs = [] \<longrightarrow> (\<forall>(i, s, t, n)\<in>set ls. n = 0)))"
  by (simp add: books_ok_def books_view_def market_of_def fill_placed_def leg_placed_def view_placed_def
      book_leg_def book_batch_def)

lemma books_ok_same: "books_ok params st \<Longrightarrow> books_view params st' = books_view params st \<Longrightarrow> books_ok params st'"
  by (simp only: books_ok_view)

lemma books33_same: "books33 params st \<Longrightarrow> hedge33 st' \<Longrightarrow> books_view params st' = books_view params st \<Longrightarrow> books33 params st'"
  unfolding books33_def by (blast intro: books_ok_same)

lemma view_rest: "rest_only st st' \<Longrightarrow> books_view params st' = books_view params st"
  by (simp add: rest_only_def books_view_def)

lemma books33_rest: "books33 params st \<Longrightarrow> rest_only st st' \<Longrightarrow> books33 params st'"
  unfolding books33_def by (blast intro: hedge33_rest books_ok_same view_rest)

lemma book_batch_upd [simp]:
  "book_batch params (b\<lparr>bt_taken := x\<rparr>) = book_batch params b"
  "book_batch params (b\<lparr>bt_retries := n\<rparr>) = book_batch params b"
  "book_batch params (b\<lparr>bt_one_legged := x\<rparr>) = book_batch params b"
  "book_batch params (b\<lparr>bt_one_legged := x, bt_resolved := y\<rparr>) = book_batch params b"
  "book_batch params (b\<lparr>bt_completed := x\<rparr>) = book_batch params b"
  by (simp_all add: book_batch_def batch_bucket_def cong: option.case_cong)

lemma view_on_batch33:
  assumes "\<And>b. book_batch params (f b) = book_batch params b"
  shows "books_view params (on_batch st i f) = books_view params st"
proof -
  have "map (book_batch params) (replace_batch33 bs i f) = map (book_batch params) bs" for bs
    by (induction bs) (simp_all add: assms)
  then show ?thesis by (simp add: on_batch_def books_view_def)
qed

lemma books_view_upd [simp]:
  "books_view params (st\<lparr>x_coid_seq := a\<rparr>) = books_view params st"
  "books_view params (sync_mirrors33 st) = books_view params st"
  "books_view params (st\<lparr>x_sets_done := n\<rparr>) = books_view params st"
  by (simp_all add: books_view_def sync_mirrors33_def)

section \<open>Coalescing and the take\<close>

lemma gap_no_legs:
  assumes "hedge_gap gap (view33 st)" "x_coalesce_open st = Some g" "l \<in> set (x_wing_legs st)"
  shows "wl_batch l \<noteq> cg_index g"
proof -
  have "\<forall>l\<in>set (map leg_key33 (x_wing_legs st)). fst l \<in> set (map fst (map batch_key (x_wing_batches st)))"
    "cg_index g \<notin> set (map fst (map batch_key (x_wing_batches st)))"
    using assms(1,2) by (simp_all add: hedge_gap_def view33_def group_index_def)
  with assms(3) show ?thesis by (force simp: leg_key33_def)
qed

lemma books_flush:
  assumes "hedge_gap gap (view33 st)" "books_ok params st"
  shows "books_ok params (coalesce_flush params st now)"
proof (cases "x_coalesce_open st")
  case None
  with assms show ?thesis by (simp add: coalesce_flush_def)
next
  case (Some g)
  have "leg_placed params (coalesce_flush params st now) l" if "l \<in> set (x_wing_legs st)" for l
    using assms(2) that gap_no_legs [OF assms(1) Some that]
    by (auto simp: books_ok_def leg_placed_def coalesce_flush_def Some market_of_def group_batch_def)
  with assms(2) show ?thesis
    by (auto simp: books_ok_def coalesce_flush_def Some market_of_def fill_placed_def)
qed

lemma books_add:
  assumes "hedge_gap [rf] (view33 st)" "books_ok params st"
  shows "books_ok params (coalesce_add params st rf now)"
proof -
  have "books_view params (coalesce_add params st rf now) = books_view params (coalesce_flush params st now)"
    by (simp add: coalesce_add_def Let_def books_view_def split: option.split)
  with books_flush [OF assms, of now] show ?thesis by (rule books_ok_same)
qed

lemma ticker_at_market:
  assumes "\<forall>(k, t)\<in>set d. classify_ticker t bm fl = Some (StrikeMarket k)"
  shows "ticker_at d (Some k) = [] \<or> classify_ticker (ticker_at d (Some k)) bm fl = Some (StrikeMarket k)"
  using assms by (auto simp: ticker_at_def dict_get_default_def split: option.split dest!: map_of_SomeD)

lemma books_take:
  assumes h: "hedge33 st" and b: "find_batch st i = Some b" and k: "books_ok params st"
    and bk: "batch_bucket params b = Some (sd, su)"
    and l: "\<forall>l\<in>set ls. wl_batch l = i \<and> wl_netted l = 0 \<and>
      wl_ticker l = ticker_at (x_strike_tickers st) (Some (if wl_side l = BUY_YES then sd else su))"
  shows "books_ok params (on_batch (st\<lparr>x_coid_seq := c, x_wing_legs := x_wing_legs st @ ls\<rparr>) i
    (\<lambda>x. x\<lparr>bt_taken := True\<rparr>))"
    (is "books_ok params (on_batch ?s i ?f)")
proof -
  have d: "distinct (map bt_index (x_wing_batches st))"
    using h by (auto simp: hedge33_def intro: hedge_indices)
  have uniq: "b' = b" if "b' \<in> set (x_wing_batches st)" "bt_index b' = i" for b'
    using d that find_batchD [OF b] by (auto simp: distinct_map dest: inj_onD)
  have mk: "\<forall>(k, t)\<in>set (x_strike_tickers st). classify_ticker t (x_bucket_map st) (x_strike_floor_map st) = Some (StrikeMarket k)"
    using k by (simp add: books_ok_def market_of_def)
  have "leg_placed params ?s l" if "l \<in> set ls" for l
    using l that uniq bk ticker_at_market [OF mk, of "if wl_side l = BUY_YES then sd else su"]
    by (auto simp: leg_placed_def market_of_def)
  moreover have "leg_placed params ?s l" if "l \<in> set (x_wing_legs st)" for l
    using k that by (auto simp: books_ok_def leg_placed_def market_of_def)
  ultimately have "books_ok params ?s"
    using k l by (auto simp: books_ok_def market_of_def fill_placed_def)
  moreover have "books_view params (on_batch ?s i ?f) = books_view params ?s"
    by (rule view_on_batch33) simp
  ultimately show ?thesis by (rule books_ok_same)
qed

section \<open>The wing step\<close>

lemma books_take_batch:
  assumes "books33 params st" "find_batch st i = Some b" "\<not> bt_taken b" "batch_bucket params b = Some (sd, su)"
  shows "books33 params (fst (take_batch33 params st b sd su ya na))"
proof -
  have h: "hedge33 st" and k: "books_ok params st" using assms(1) by (simp_all add: books33_def)
  have i: "bt_index b = i" using find_batchD [OF assms(2)] by simp
  have "books_ok params (fst (take_batch33 params st b sd su ya na))"
    unfolding take_batch33_def Let_def mint_coid33_eq i
    using books_take [OF h assms(2) k assms(4)]
    by (simp add: new_leg_def BUY_YES_def BUY_NO_def)
  with hedge33_take_batch [OF h assms(2,3)] show ?thesis by (simp add: books33_def)
qed

lemma books_take_partial:
  assumes "books33 params st" "find_batch st i = Some b" "\<not> bt_taken b" "batch_bucket params b = bucket"
  shows "books33 params (fst (take_batch_partial params st b bucket now))"
proof -
  have h: "hedge33 st" and k: "books_ok params st" using assms(1) by (simp_all add: books33_def)
  have i: "bt_index b = i" using find_batchD [OF assms(2)] by simp
  have "books_ok params (fst (take_batch_partial params st b bucket now))"
  proof (cases bucket)
    case None
    with k show ?thesis by (simp add: take_batch_partial_def)
  next
    case (Some sb)
    obtain sd su where sb: "sb = (sd, su)" by (cases sb)
    note take = books_take [OF h assms(2) k assms(4) [unfolded Some sb]]
    show ?thesis
      using k by (auto simp: take_batch_partial_def Some sb Let_def mint_coid33_eq i new_leg_def
          BUY_YES_def BUY_NO_def intro!: take split: option.split)
  qed
  with hedge33_take_partial [OF h assms(2,3)] show ?thesis by (simp add: books33_def)
qed

lemma retry_legs33_book:
  "map book_leg (fst (snd (retry_legs33 params i ya na now st legs))) = map book_leg legs"
proof (induction legs arbitrary: st)
  case (Cons l ls)
  show ?case
    using Cons.IH [of st] Cons.IH [of "st\<lparr>x_coid_seq := Suc (x_coid_seq st)\<rparr>"]
    by (simp add: mint_coid33_eq Let_def case_prod_beta book_leg_def)
qed simp

lemma books_retry:
  assumes "books33 params st"
  shows "books33 params (fst (retry_batch33 params st b ya na now))"
proof -
  obtain st1 legs1 acts where r: "retry_legs33 params (bt_index b) ya na now st (x_wing_legs st) = (st1, legs1, acts)"
    by (cases "retry_legs33 params (bt_index b) ya na now st (x_wing_legs st)")
  from retry_legs33_state [OF r] have st1: "st1 = st\<lparr>x_coid_seq := x_coid_seq st + length acts\<rparr>" .
  have keys: "map book_leg legs1 = map book_leg (x_wing_legs st)"
    using retry_legs33_book [of params "bt_index b" ya na now st "x_wing_legs st"] by (simp add: r)
  have "books_view params (on_batch (st1\<lparr>x_wing_legs := legs1\<rparr>) i (\<lambda>x. x\<lparr>bt_retries := n\<rparr>)) = books_view params st" for i n
    by (subst view_on_batch33) (simp_all add: st1 books_view_def keys)
  then have "books_view params (fst (retry_batch33 params st b ya na now)) = books_view params st"
    by (simp add: retry_batch33_def r st1)
  with assms hedge33_retry show ?thesis by (blast intro: books33_same dest: books33_def [THEN iffD1])
qed

lemma books_step_batch: "books33 params st \<Longrightarrow> books33 params (fst (step_batch33 params now st i))"
  by (auto simp: step_batch33_def books_take_batch books_take_partial books_retry split: option.splits)

lemma books_step_batches: "books33 params st \<Longrightarrow> books33 params (fst (step_batches33 params now st is))"
proof (induction "is" arbitrary: st)
  case (Cons i "is")
  from Cons.IH [OF books_step_batch [OF Cons.prems]] show ?case by (simp add: case_prod_beta)
qed simp

lemma books_cutoff: "books33 params st \<Longrightarrow> books33 params (cutoff_batch now st b)"
proof -
  assume k: "books33 params st"
  have "x_print_through (on_batch st i f) = []" for i f using k by (simp add: books33_def hedge33_def)
  then have "books_view params (cutoff_batch now st b) = books_view params st"
    by (simp add: cutoff_batch_def Let_def view_on_batch33 view_mark)
  with k hedge33_cutoff show ?thesis by (blast intro: books33_same dest: books33_def [THEN iffD1])
qed

lemma books33_flush: "books33 params st \<Longrightarrow> books33 params (coalesce_flush params st now)"
  unfolding books33_def using books_flush [of "[]"] by (simp add: hedge33_flush) (simp add: hedge33_def)

lemma books_wing_step:
  assumes "books33 params st"
  shows "books33 params (fst (wing_step33 params st now))"
proof -
  have sync: "books33 params s \<Longrightarrow> books33 params (sync_mirrors33 s)" for s
    by (rule books33_same) (auto simp: books33_def hedge33_sync)
  have "books33 params s \<Longrightarrow> books33 params (foldl (cutoff_batch now) s bs)" for s bs
    by (induction bs arbitrary: s) (simp_all add: books_cutoff)
  with books33_flush [OF assms] show ?thesis
    by (simp add: wing_step33_def Let_def case_prod_beta sync books_step_batches)
qed

section \<open>Netting and closing\<close>

lemma books_net_once:
  assumes "net_once st c now = Some (st', a)" "books33 params st"
  shows "books33 params st'"
proof -
  from assms(1) obtain ls p where st': "st' = st\<lparr>x_wing_legs := ls, x_netted_pairs := x_netted_pairs st @ [p]\<rparr>"
    and ls: "\<forall>l\<in>set ls. \<exists>m\<in>set (x_wing_legs st). wl_batch l = wl_batch m \<and> wl_side l = wl_side m \<and> wl_ticker l = wl_ticker m"
    by (fastforce simp: net_once_def Let_def split: option.splits if_splits prod.splits)
  have "leg_placed params st' l" if "l \<in> set ls" for l
    using ls that assms(2) by (fastforce simp: books33_def books_ok_def leg_placed_def market_of_def st')
  moreover have "hedge33 st'" using assms net_once_view by (auto simp: books33_def hedge33_def)
  ultimately show ?thesis
    using assms(2) by (simp add: books33_def books_ok_def st' market_of_def fill_placed_def)
qed

lemma books_net: "books33 params st \<Longrightarrow> books33 params (fst (net_wings st c now))"
proof -
  have "books33 params st \<Longrightarrow> books33 params (fst (net_loop k st c now))" for k
  proof (induction k arbitrary: st)
    case (Suc k)
    show ?case
    proof (cases "net_once st c now")
      case (Some sa)
      obtain s a where sa: "sa = (s, a)" by (cases sa)
      from books_net_once [OF Some [unfolded sa] Suc.prems] Suc.IH show ?thesis
        by (simp add: Some sa case_prod_beta)
    qed (simp add: Suc.prems)
  qed simp
  then show "books33 params st \<Longrightarrow> ?thesis" by (simp add: net_wings_def)
qed

lemma books_close: "books33 params st \<Longrightarrow> books33 params (maybe_close_set33 st i)"
proof -
  assume k: "books33 params st"
  have pt: "\<not> bt_print_through b" if "b \<in> set (x_wing_batches st)" for b
    using k that by (fastforce simp: books33_def hedge33_def hedge_gap_def view33_def batch_key_def)
  have "books_view params (on_batch (st\<lparr>x_sets_done := n\<rparr>) i (\<lambda>x. x\<lparr>bt_completed := True, bt_one_legged := False\<rparr>))
      = books_view params st" for n
    by (subst view_on_batch33) simp_all
  then have "books_view params (maybe_close_set33 st i) = books_view params st"
    using pt by (auto simp: maybe_close_set33_def Let_def dest!: find_batchD split: option.split)
  with k hedge33_close show ?thesis by (blast intro: books33_same dest: books33_def [THEN iffD1])
qed

section \<open>Bookings\<close>

lemma books_same_upd:
  "books_view params (clear_cancel_pending st oid) = books_view params st"
  "books_view params (note_seen st c src d) = books_view params st"
  "books_view params (fst (skip_echo33 st oid d)) = books_view params st"
  "books_view params (fst (orphan_delta st c src d)) = books_view params st"
  "books_view params (drop_roll st c) = books_view params st"
  "books_view params (amend_move params st rp p now) = books_view params st"
  "books_view params (resolve_outstanding st e named) = books_view params st"
  "books_view params (apply_ack33 st a) = books_view params st"
  "books_view params (pt_latch_if_done params st) = books_view params st"
  "books_view params (st\<lparr>x_ladder := l\<rparr>) = books_view params st"
  "books_view params (st\<lparr>x_amend_cross_pending := m\<rparr>) = books_view params st"
  "books_view params (st\<lparr>x_bucket_unknown := True, x_stood_down := True, x_rest_allotment_done := True\<rparr>) =
    books_view params st"
  by (simp_all add: books_view_def clear_cancel_pending_def note_seen_def skip_echo33_def
      orphan_delta_def drop_roll_def amend_move_def resolve_outstanding_def apply_ack33_def
      pt_latch_if_done_def Let_def split: option.split)

lemma books33_hedge_same:
  "books33 params st \<Longrightarrow> hedge_same st st' \<Longrightarrow> books_view params st' = books_view params st \<Longrightarrow> books33 params st'"
  by (auto simp: books33_def intro: hedge33_same books_ok_same)

lemmas books_upd = books33_hedge_same [OF _ hedge_same_upd(1) books_same_upd(1)]
  books33_hedge_same [OF _ hedge_same_upd(2) books_same_upd(2)]
  books33_hedge_same [OF _ hedge_same_upd(3) books_same_upd(3)]
  books33_hedge_same [OF _ hedge_same_upd(4) books_same_upd(4)]
  books33_hedge_same [OF _ hedge_same_upd(5) books_same_upd(5)]
  books33_hedge_same [OF _ hedge_same_upd(6) books_same_upd(6)]
  books33_hedge_same [OF _ hedge_same_upd(7) books_same_upd(7)]
  books33_hedge_same [OF _ hedge_same_upd(8) books_same_upd(8)]
  books33_hedge_same [OF _ hedge_same_upd(9) books_same_upd(9)]
  books33_hedge_same [OF _ hedge_same_upd(10) books_same_upd(10)]
  books33_hedge_same [OF _ hedge_same_upd(11) books_same_upd(11)]
  books33_hedge_same [OF _ hedge_same_upd(12) books_same_upd(12)]

lemma books33_sync: "books33 params st \<Longrightarrow> books33 params (sync_mirrors33 st)"
  by (auto simp: books33_def hedge33_sync intro: books_ok_same)

lemma rung_fill_count [simp]: "rg_count (rung_fill_of params st coid p d k E now sd orph oid) = q_count d"
  by (simp add: rung_fill_of_def)

lemma rung_fill_placed:
  assumes "books_ok params st"
  shows "fill_placed st (rung_fill_of params st coid p d k E now sd orph oid)"
  using assms
  by (auto simp: fill_placed_def rung_fill_of_def bucket_ticker_of_def books_ok_def split: option.splits
      dest!: map_of_SomeD)

lemma books_book:
  assumes k: "books33 params st" and d: "0 < q_count d"
  shows "books33 params (fst (book_rung_fill params st coid p d r E now b tk orph oid))"
proof -
  let ?sd = "fill_bucket st (order_by_coid st coid) b tk"
  define rf where "rf = rung_fill_of params st coid p (q_count d) r E now ?sd orph oid"
  let ?st = "record_fill params st coid rf (q_count d)"
  have h: "hedge33 (fst (book_rung_fill params st coid p d r E now b tk orph oid))"
    using k by (simp add: books33_def hedge33_book)
  have ok: "books_ok params ?st"
    using k d rung_fill_placed [of params st coid p "q_count d" r E now ?sd orph oid]
    by (auto simp: books33_def books_ok_def record_fill_def Let_def rf_def market_of_def fill_placed_def leg_placed_def)
  have v: "view33 ?st = (view33 st)\<lparr>hv_fills := named_fills st @ (if ?sd = None then [] else [rf])\<rparr>"
    and pt: "x_print_through ?st = []"
    using k by (simp_all add: record_fill_def Let_def view33_def named_fills_def rf_def rung_fill_of_def
        books33_def hedge33_def)
  have eq: "fst (book_rung_fill params st coid p d r E now b tk orph oid) =
      (if ?sd = None then fst (book_unnamed ?st)
       else sync_mirrors33 (fst (wing_step33 params
              (pt_latch_if_done params (attach_fill params ?st coid rf now)) now)))"
    by (simp add: book_rung_fill_def Let_def case_prod_beta rf_def)
  show ?thesis
  proof (cases "?sd = None")
    case True
    let ?s = "?st\<lparr>x_bucket_unknown := True, x_stood_down := True, x_rest_allotment_done := True\<rparr>"
    have "books_view params (sync_mirrors33 (fst (standdown33 s r'))) = books_view params s" for s r'
      by (simp add: view_rest [OF ro_standdown])
    then have "books_view params (fst (book_unnamed ?st)) = books_view params ?st"
      by (simp add: book_unnamed_def Let_def case_prod_beta view_rest [OF ro_cancel_all] books_same_upd(12))
    with ok h True show ?thesis unfolding books33_def eq by (simp add: books_ok_same)
  next
    case False
    have gap: "hedge_gap [rf] (view33 ?st)"
      using k False unfolding v by (simp add: books33_def hedge33_def hedge_gap_def view33_def)
    have att: "attach_fill params ?st coid rf now = coalesce_add params ?st rf now"
      using pt by (simp add: attach_fill_def pt_trigger_index_def)
    have "hedge33 (attach_fill params ?st coid rf now)"
    proof (rule hedge33_attach [OF pt gap])
      show "list_all (\<lambda>f. whole_cent (rg_count f)) (hv_fills (view33 ?st))"
        using k unfolding v by (simp add: books33_def hedge33_def view33_def rf_def rung_fill_of_def q_count_def)
    qed
    then have "books33 params (attach_fill params ?st coid rf now)"
      using books_add [OF gap ok, of now] by (simp add: books33_def att)
    from books33_sync [OF books_wing_step [OF books_upd(9) [OF this]]] show ?thesis
      unfolding eq if_not_P [OF False] .
  qed
qed

lemma books_book_orphan: "books33 params st \<Longrightarrow> 0 < q_count d \<Longrightarrow> books33 params (fst (book_orphan_fill params st c oid p d tk now b))"
  by (simp add: book_orphan_fill_def case_prod_beta books_book)

section \<open>Every event\<close>

lemma books_amended: "books33 params st \<Longrightarrow> books33 params (fst (apply_amended33 params st e now))"
proof -
  have x: "books33 params s \<Longrightarrow> books33 params (fst (amend_cross params s rp e p now))" for s rp p
    by (simp add: amend_cross_def Let_def case_prod_beta books_book books_upd(11) split: option.split)
  assume h: "books33 params st"
  have d: "books33 params (drop_roll st c)" for c by (rule books_upd(5) [OF h])
  have "books33 params (fst (amend_cross params (amend_move params (drop_roll st c) rp p now) rp e p now))" for c rp p
    by (rule x [OF books_upd(6) [OF d]])
  with h d show ?thesis
    by (simp add: apply_amended33_def Let_def case_prod_beta books33_rest [OF _ ro_converge] split: option.split)
qed

lemma books_cancelled:
  assumes h: "books33 params st0"
  shows "books33 params (fst (apply_cancelled33 params st0 e now))"
proof -
  let ?st = "clear_cancel_pending st0 (vc_order_id e)"
  have st: "books33 params ?st" by (rule books_upd(1) [OF h])
  have "books33 params (fst (book_cancelled params s e named now))" if "books33 params s" for s named
    using that
    by (simp add: book_cancelled_def Let_def books_book books_book_orphan whole_cent_diff
        split: option.split prod.split)
  note b = this [OF st]
  have f: "books33 params (fst (roll_fallback params s rp now))" if "books33 params s" for s rp
  proof -
    have "books33 params ((drop_roll s c)\<lparr>x_ladder := l\<rparr>)" for c l
      by (rule books_upd(10) [OF books_upd(5) [OF that]])
    then show ?thesis
      by (simp add: roll_fallback_def Let_def books33_rest [OF _ ro_place_one] split: option.split)
  qed
  have d: "books33 params (case named of None \<Rightarrow> s | Some r \<Rightarrow> s\<lparr>x_ladder := drop_order (x_ladder s) (ro_coid r)\<rparr>)"
    if "books33 params s" for s named
    using books_upd(10) [OF that] that by (simp split: option.split)
  define named where "named = named_order ?st e"
  define s1 where "s1 = fst (book_cancelled params ?st e named now)"
  have s1: "books33 params s1" unfolding s1_def by (rule b)
  show ?thesis
  proof (cases "rolling_order s1 e")
    case (Some rp)
    then have "fst (apply_cancelled33 params st0 e now) = fst (converge params (fst (roll_fallback params s1 rp now)) now)"
      unfolding apply_cancelled33_def Let_def case_prod_beta named_def [symmetric] s1_def [symmetric]
      by simp
    with f [OF s1] show ?thesis by (simp only: books33_rest [OF _ ro_converge])
  next
    case None
    let ?q = "resolve_outstanding (case named of None \<Rightarrow> s1
      | Some r \<Rightarrow> s1\<lparr>x_ladder := drop_order (x_ladder s1) (ro_coid r)\<rparr>) e named"
    have q: "books33 params ?q" by (rule books_upd(7) [OF d [OF s1]])
    then have "hedge33 ?q" by (simp add: books33_def)
    note pt = hedge33_confirmed [OF this]
    from None have "fst (apply_cancelled33 params st0 e now) =
        fst (converge params (fst (pt_on_cancel_confirmed params ?q (vc_order_id e) now)) now)"
      unfolding apply_cancelled33_def Let_def case_prod_beta named_def [symmetric] s1_def [symmetric]
      by simp
    with q show ?thesis by (simp only: pt fst_conv books33_rest [OF _ ro_converge])
  qed
qed

lemma fill_leg33_book:
  "fill_leg33 e ls = Some (ls', bi) \<Longrightarrow> map book_leg ls' = map book_leg ls"
proof (induction ls arbitrary: ls')
  case (Cons l ls)
  then show ?case by (auto simp: book_leg_def split: if_splits)
qed simp

lemma orphan_delta_whole: "whole_cent n \<Longrightarrow> whole_cent (snd (orphan_delta st c src n))"
  by (simp add: orphan_delta_def Let_def whole_cent_min whole_cent_diff)

lemma books_fill:
  assumes h: "books33 params st0"
  shows "books33 params (fst (apply_fill33 params st0 e now))"
proof -
  let ?st = "clear_cancel_pending st0 (vf_order_id e)"
  have st: "books33 params ?st" by (rule books_upd(1) [OF h])
  then have pt: "x_print_through ?st = []" by (simp add: books33_def hedge33_def)
  have "pt_apply_complete_fill params ?st e now = None"
    by (simp add: pt_apply_complete_fill_def pt)
  moreover have "books33 params (fst (wing_fill params ?st e legs bi now))"
    if "fill_leg33 e (x_wing_legs ?st) = Some (legs, bi)" for legs bi
  proof -
    have "books_view params (?st\<lparr>x_wing_legs := legs\<rparr>) = books_view params ?st"
      using fill_leg33_book [OF that] by (simp add: books_view_def)
    with st have "books33 params (?st\<lparr>x_wing_legs := legs\<rparr>)"
      by (auto simp: books33_def intro: hedge33_legs fill_leg33_keys [OF that] books_ok_same)
    then show ?thesis
      by (simp add: wing_fill_def Let_def case_prod_beta pt_fail_closed_def pt books_close books_net)
  qed
  moreover have "books33 params (fst (ladder_fill params ?st e r now))" for r
    using books_upd(3) [OF books_upd(2) [OF st]]
    by (simp add: ladder_fill_def Let_def case_prod_beta books_book skip_echo_whole)
  moreover have "books33 params (fst (apply_orphan_fill params ?st e now))"
    using books_upd(4) [OF st] st
    by (simp add: apply_orphan_fill_def Let_def case_prod_beta books_book_orphan orphan_delta_whole
        split: option.split)
  ultimately show ?thesis
    by (auto simp: apply_fill33_def Let_def split: option.split)
qed

lemma books_ticks:
  "books_view params (stamp_strike_feed st b) = books_view params st"
  "books_view params (shadow_complete33 params st now) = books_view params st"
  "books_view params (fst (shadow_on_trade33 params st t)) = books_view params st"
  "books_view params (recompute_context33 params st now) = books_view params st"
  by (simp_all add: books_view_def stamp_strike_feed_def shadow_complete33_def shadow_on_trade33_def
      recompute_context33_def Let_def case_prod_beta split: option.split market_class.split)

text \<open>A book update names the market of its own ticker.\<close>

lemma books_fold:
  assumes "books33 params st"
  shows "books33 params (fold_book33 params st b)"
proof -
  have upd: "p \<in> set (AList.update k v d) \<Longrightarrow> p = (k, v) \<or> p \<in> set d" for p :: "int \<times> ticker" and k v d
    by (induction d) (auto split: if_splits)
  have "books_ok params (fold_book33 params st b)"
    using assms
    by (auto simp: books33_def books_ok_def fold_book33_def fold_book_def law_view_def new_v32_state_def
        market_of_def fill_placed_def leg_placed_def Let_def split: option.split market_class.split dest!: upd)
  with assms hedge33_same [OF _ hedge_same_ticks(1)] show ?thesis by (simp add: books33_def)
qed

lemma books_decide:
  assumes off: "\<not> q_print_through params" and h: "books33 params st"
  shows "books33 params (fst (decide_v33 params st e))"
proof -
  have tick: "books33 params (fst (book_tick params s now))" if "books33 params s" for s now
    using books_wing_step [OF books33_hedge_same [OF books33_hedge_same [OF that
            hedge_same_ticks(5) books_ticks(4)] hedge_same_ticks(3) books_ticks(2)]]
    by (simp add: book_tick_def Let_def case_prod_beta pt_stall_step_def off books33_rest [OF _ ro_converge])
  have trade: "books33 params (fst (trade_tick params st t now))" for t now
    using books_wing_step [OF books33_hedge_same [OF books33_hedge_same [OF h
            hedge_same_ticks(4) books_ticks(3)] hedge_same_ticks(3) books_ticks(2)]]
    by (simp add: trade_tick_def Let_def case_prod_beta print_through_step_def pt_stall_step_def off)
  show ?thesis
    using tick trade h books33_hedge_same [OF books_fold [OF h] hedge_same_ticks(2) books_ticks(1)]
    by (cases e) (simp_all add: decide_v33_def Let_def books_amended books_cancelled books_fill books_upd(8))
qed

lemma books_new: "books33 params (new_v33_state ct ce bm params sh fl pre)"
  unfolding books33_def by (simp add: hedge33_new) (simp add: books_ok_def new_v33_state_def)

end
