(* ===== verification/V33_Settlement.thy ===== *)
theory V33_Settlement
  imports V33_Books
begin

text \<open>
  What the held legs of a closed window are worth when its markets settle at a price, and why the
  floor the ledger books for them is a floor: three legs of a pin pay two dollars a lot at every
  price, any two at least one, and never more than two.
\<close>

section \<open>Settlement at a price\<close>

text \<open>A strike market pays YES at or above its strike, a bucket market inside its bucket.\<close>

definition settles_at :: "v33_params \<Rightarrow> v33_state \<Rightarrow> rat \<Rightarrow> ticker \<Rightarrow> string option" where
  "settles_at params st S t =
     (case market_of st t of
        None \<Rightarrow> None
      | Some (StrikeMarket k) \<Rightarrow> Some (if of_int k \<le> S then ''yes'' else ''no'')
      | Some (BucketMarket k) \<Rightarrow>
          Some (if of_int k \<le> S \<and> S < of_int (k + q_bucket_width params) then ''yes'' else ''no''))"

definition leg_value :: "(ticker \<Rightarrow> string option) \<Rightarrow> held_leg \<Rightarrow> money" where
  "leg_value res l = (case l of (t, side, n) \<Rightarrow> if res t = Some side then n else 0)"

definition legs_value :: "(ticker \<Rightarrow> string option) \<Rightarrow> held_leg list \<Rightarrow> money" where
  "legs_value res legs = sum_list (map (leg_value res) legs)"

definition legs_settled :: "(ticker \<Rightarrow> string option) \<Rightarrow> held_leg list \<Rightarrow> bool" where
  "legs_settled res legs \<longleftrightarrow> list_all (\<lambda>(t, s, n). res t = Some ''yes'' \<or> res t = Some ''no'') legs"

lemma legs_value_simps [simp]:
  "legs_value res [] = 0" "legs_value res (l # ls) = leg_value res l + legs_value res ls"
  "legs_value res (xs @ ys) = legs_value res xs + legs_value res ys"
  by (simp_all add: legs_value_def)

lemma legs_value_concat: "legs_value res (concat lss) = sum_list (map (legs_value res) lss)"
  by (induction lss) simp_all

lemma legs_settled_simps [simp]:
  "legs_settled res []" "legs_settled res (xs @ ys) \<longleftrightarrow> legs_settled res xs \<and> legs_settled res ys"
  "legs_settled res ((t, s, n) # ls) \<longleftrightarrow> (res t = Some ''yes'' \<or> res t = Some ''no'') \<and> legs_settled res ls"
  by (simp_all add: legs_settled_def)

text \<open>The sweep's results price the legs at exactly this value.\<close>

lemma leg_results_Some:
  assumes "legs_settled res legs"
  shows "\<exists>R. leg_results res r legs = Some R \<and>
    (\<forall>t. map_of R t = (if t \<in> fst ` set legs then res t else map_of r t))"
  using assms
proof (induction legs arbitrary: r)
  case (Cons l legs)
  obtain t s n where l: "l = (t, s, n)" by (cases l)
  from Cons.prems obtain v where v: "res t = Some v" "v = ''yes'' \<or> v = ''no''" by (auto simp: l)
  from Cons.IH [of "AList.update t v r"] Cons.prems show ?case
    using v by (auto simp: l map_of_update)
qed simp

lemma payoff_value:
  assumes "legs_settled res legs" "\<And>t. t \<in> fst ` set legs \<Longrightarrow> map_of R t = res t"
  shows "settlement_payoff legs R = Inr (legs_value res legs)"
  using assms
proof (induction legs)
  case (Cons l legs)
  obtain t s n where l: "l = (t, s, n)" by (cases l)
  from Cons.prems obtain v where v: "res t = Some v" "v = ''yes'' \<or> v = ''no''" by (auto simp: l)
  have "settlement_payoff legs R = Inr (legs_value res legs)" using Cons by (simp add: l)
  moreover have "map_of R t = Some v" using Cons.prems(2) [of t] v by (simp add: l)
  ultimately show ?case using v by (auto simp: l leg_value_def MIN_PAIR_PAYOUT_def)
qed simp

lemma settle_entry_exact:
  assumes "legs_settled res (row_legs r)"
  shows "\<exists>R. settle_entry res now credit r =
    Some (build_backfill_row r R (legs_value res (row_legs r) + credit)
      (floor_booked_for_entry r (row_legs r)) now (length (row_legs r)) (floor_note_of r))"
proof -
  from leg_results_Some [OF assms, of "[]"] obtain R where
    R: "leg_results res [] (row_legs r) = Some R" "\<forall>t\<in>fst ` set (row_legs r). map_of R t = res t"
    by auto
  with payoff_value [OF assms, of R] show ?thesis by (intro exI [of _ R]) (simp add: settle_entry_def)
qed

section \<open>One batch\<close>

text \<open>Every leg the ledger holds names a market.\<close>

definition named_books :: "v33_state \<Rightarrow> bool" where
  "named_books st \<longleftrightarrow>
     (\<forall>f\<in>set (x_rest_fills st). rg_bucket_Sd f \<noteq> None \<longrightarrow>
        (\<exists>t. rg_bucket_ticker f = Some t \<and> t \<noteq> [])) \<and>
     (\<forall>l\<in>set (x_wing_legs st). wl_status l = Filled \<longrightarrow> wl_ticker l \<noteq> [])"

lemma whole_fills_total: "list_all (\<lambda>f. whole_cent (rg_count f)) fs \<Longrightarrow> whole_cent (fills_total fs)"
  by (induction fs) (simp_all add: fills_total_def whole_cent_add)

lemma batch_shape:
  assumes k: "books33 params st" and b: "b \<in> set (x_wing_batches st)"
  obtains f fs sd where "bt_fills b = f # fs" "f \<in> set (x_rest_fills st)" "rg_bucket_Sd f = Some sd"
    "batch_bucket params b = Some (sd, sd + q_bucket_width params)"
    "whole_cent (total_count b)" "0 < total_count b"
    "batch_legs33 st (bt_index b) = [] \<or> (\<exists>l1 l2. batch_legs33 st (bt_index b) = [l1, l2] \<and>
       wl_count l1 = total_count b \<and> wl_count l2 = total_count b \<and>
       (wl_side l1 = BUY_YES \<and> wl_side l2 = BUY_NO \<or> wl_side l1 = BUY_NO \<and> wl_side l2 = BUY_YES))"
proof -
  have g: "hedge_gap [] (view33 st)" and w: "list_all (\<lambda>f. whole_cent (rg_count f)) (named_fills st)"
    and ok: "books_ok params st"
    using k by (simp_all add: books33_def hedge33_def view33_def)
  have key: "key_ok (map leg_key33 (x_wing_legs st)) (batch_key b)"
    using g b by (simp add: hedge_gap_def view33_def)
  then obtain f fs where f: "bt_fills b = f # fs" by (cases "bt_fills b") (auto simp: batch_key_def)
  have sub: "set (bt_fills b) \<subseteq> set (named_fills st)"
    using g b by (auto simp: hedge_gap_def view33_def batch_key_def)
  then have "f \<in> set (named_fills st)" using f by auto
  then obtain sd where sd: "rg_bucket_Sd f = Some sd" "f \<in> set (x_rest_fills st)" by (auto simp: named_fills_def)
  have "list_all (\<lambda>f. whole_cent (rg_count f)) (bt_fills b)"
    using w sub by (auto simp: list_all_iff)
  then have whole: "whole_cent (total_count b)" by (simp add: total_count_def whole_fills_total)
  have "\<forall>f\<in>set (bt_fills b). 0 < rg_count f"
    using ok sub by (auto simp: books_ok_def named_fills_def)
  moreover have "\<forall>f\<in>set fs. 0 < rg_count f \<Longrightarrow> 0 \<le> fills_total fs" for fs
    unfolding fills_total_def by (intro sum_list_nonneg) auto
  ultimately have nn: "0 < total_count b" by (fastforce simp: total_count_def f fills_total_def)
  have flt: "filter (\<lambda>l. fst l = bt_index b) (map leg_key33 (x_wing_legs st)) =
      map leg_key33 (batch_legs33 st (bt_index b))"
    by (simp add: filter_map batch_legs33_def comp_def leg_key33_def)
  have n: "q_count (fills_total (bt_fills b)) = total_count b" using whole by (simp add: total_count_def)
  have pair: "ls = [] \<or> (\<exists>l1 l2. ls = [l1, l2] \<and> wl_count l1 = n \<and> wl_count l2 = n \<and>
       (wl_side l1 = BUY_YES \<and> wl_side l2 = BUY_NO \<or> wl_side l1 = BUY_NO \<and> wl_side l2 = BUY_YES))"
    if "leg_pair (map snd (map leg_key33 ls)) n \<or> map leg_key33 ls = []" for ls n
    using that by (auto simp: leg_pair_def leg_key33_def Cons_eq_map_conv map_eq_Cons_conv)
  have "batch_bucket params b = Some (sd, sd + q_bucket_width params)"
    using f sd by (simp add: batch_bucket_def group_bucket_def)
  moreover have "leg_pair (map snd (map leg_key33 (batch_legs33 st (bt_index b)))) (total_count b) \<or>
      map leg_key33 (batch_legs33 st (bt_index b)) = []"
    using key by (auto simp: batch_key_def flt n split: if_splits)
  ultimately show ?thesis using that [OF f sd(2,1) _ whole nn pair] by blast
qed

lemma batch_floor:
  assumes k: "books33 params st" and b: "b \<in> set (x_wing_batches st)"
    and nm: "named_books st" and net: "x_netted_pairs st = []" and w: "0 \<le> q_bucket_width params"
  shows "legs_settled (settles_at params st S) (batch_held st b) \<and>
    v32_set_floor_dollars (length (batch_held st b)) (total_count b)
      \<le> legs_value (settles_at params st S) (batch_held st b) \<and>
    legs_value (settles_at params st S) (batch_held st b)
      \<le> of_nat (min (length (batch_held st b)) 2) * total_count b"
proof -
  from batch_shape [OF k b] obtain f fs sd where f: "bt_fills b = f # fs" "f \<in> set (x_rest_fills st)"
    "rg_bucket_Sd f = Some sd" and bk: "batch_bucket params b = Some (sd, sd + q_bucket_width params)"
    and n: "whole_cent (total_count b)" "0 < total_count b"
    and legs: "batch_legs33 st (bt_index b) = [] \<or> (\<exists>l1 l2. batch_legs33 st (bt_index b) = [l1, l2] \<and>
       wl_count l1 = total_count b \<and> wl_count l2 = total_count b \<and>
       (wl_side l1 = BUY_YES \<and> wl_side l2 = BUY_NO \<or> wl_side l1 = BUY_NO \<and> wl_side l2 = BUY_YES))"
    by blast
  have ok: "books_ok params st" using k by (simp add: books33_def)
  obtain t where t: "rg_bucket_ticker f = Some t" "t \<noteq> []" using nm f by (auto simp: named_books_def)
  have mt: "market_of st t = Some (BucketMarket sd)" using ok f t by (auto simp: books_ok_def fill_placed_def)
  have bucket: "bucket_held st b = [(t, ''no'', total_count b)]"
    using f t n by (simp add: bucket_held_def first_fill_def bucket_ticker_for_fill_def or_else_def co_def)
  have leg: "wl_netted l = 0 \<and> (wl_status l = Filled \<longrightarrow>
      market_of st (wl_ticker l) = Some (StrikeMarket (if wl_side l = BUY_YES then sd else sd + q_bucket_width params)))"
    if "l \<in> set (batch_legs33 st (bt_index b))" for l
  proof -
    have l: "l \<in> set (x_wing_legs st)" "wl_batch l = bt_index b" using that by (auto simp: batch_legs33_def)
    then show ?thesis using ok b bk nm net
      by (fastforce simp: books_ok_def leg_placed_def named_books_def)
  qed
  show ?thesis
    using legs
  proof (elim disjE exE conjE)
    assume "batch_legs33 st (bt_index b) = []"
    then show ?thesis
      using mt n by (simp add: batch_held_def bucket wings_held_def filled_legs_def settles_at_def
          leg_value_def v32_set_floor_dollars_def)
  qed (use leg mt n w in \<open>auto simp: batch_held_def bucket wings_held_def filled_legs_def settles_at_def
      leg_value_def v32_set_floor_dollars_def leg_held_def BUY_YES_def BUY_NO_def co_def\<close>)
qed

end
