(* ===== verification/V33_Sweep.thy ===== *)
theory V33_Sweep
  imports V33_Settlement Box
begin

text \<open>
  The settlement sweep over a ledger: the latest unsettled row of a window is the one it settles,
  every window is settled at most once, and the row of a closed window carries the figures its
  band and its correction are computed from.
\<close>

section \<open>The pending windows\<close>

lemma last_by_window_snoc:
  "last_by_window (rs @ [r]) = AList.update (wr_close_time r) r (last_by_window rs)"
  by (simp add: last_by_window_def)

lemma last_by_window_keys: "distinct (map fst (last_by_window rs))"
  by (induction rs rule: rev_induct) (simp_all add: last_by_window_snoc distinct_update, simp add: last_by_window_def)

lemma last_by_window_entry:
  "(w, r) \<in> set (last_by_window rs) \<Longrightarrow> wr_close_time r = w \<and> r \<in> set rs"
proof (induction rs rule: rev_induct)
  case Nil
  then show ?case by (simp add: last_by_window_def)
next
  case (snoc x rs)
  have "(w, r) \<in> set (AList.update k v d) \<Longrightarrow> (w, r) = (k, v) \<or> (w, r) \<in> set d" for k and v :: window_row and d
    by (induction d) (auto split: if_splits)
  with snoc show ?case by (fastforce simp: last_by_window_snoc)
qed

lemma last_by_window_last: "(wr_close_time r, r) \<in> set (last_by_window (rs @ [r]))"
proof -
  have "map_of (last_by_window (rs @ [r])) (wr_close_time r) = Some r"
    by (simp add: last_by_window_snoc map_of_update)
  then show ?thesis by (rule map_of_SomeD)
qed

text \<open>Rows of a sweep name the windows of their entries, each once.\<close>

lemma sweep_windows:
  assumes "distinct (map fst d)" "\<And>w r b. (w, r) \<in> set d \<Longrightarrow> f (w, r) = Some b \<Longrightarrow> g b = Some w"
  shows "distinct (map g (List.map_filter f d)) \<and>
    (\<forall>b\<in>set (List.map_filter f d). \<exists>r. (the (g b), r) \<in> set d \<and> f (the (g b), r) = Some b \<and> g b \<noteq> None)"
  using assms
proof (induction d)
  case (Cons x d)
  obtain w r where x: "x = (w, r)" by (cases x)
  have IH: "distinct (map g (List.map_filter f d)) \<and>
    (\<forall>b\<in>set (List.map_filter f d). \<exists>r. (the (g b), r) \<in> set d \<and> f (the (g b), r) = Some b \<and> g b \<noteq> None)"
    by (rule Cons.IH) (use Cons.prems in \<open>auto\<close>)
  show ?case
  proof (cases "f x")
    case None
    with IH show ?thesis by (fastforce simp: List.map_filter_simps)
  next
    case (Some b)
    then have gb: "g b = Some w" using Cons.prems(2) [of w r b] by (simp add: x)
    have "g b \<notin> g ` set (List.map_filter f d)"
    proof
      assume "g b \<in> g ` set (List.map_filter f d)"
      then obtain c where "c \<in> set (List.map_filter f d)" "g c = g b" by auto
      with IH gb have "\<exists>r. (w, r) \<in> set d" by (metis option.sel)
      with Cons.prems(1) show False by (force simp: x)
    qed
    with IH Some gb show ?thesis by (fastforce simp: List.map_filter_simps x)
  qed
qed (simp add: List.map_filter_simps)

lemma settle_entry_row:
  "settle_entry fetch now credit r = Some b \<Longrightarrow>
    wr_backfill_of b = Some (wr_close_time r) \<and> \<not> wr_unsettled b \<and> wr_close_time b = wr_close_time r"
  by (auto simp: settle_entry_def build_backfill_row_def split: option.splits sum.splits)

lemma sweep_exact:
  "distinct (map wr_backfill_of (v33_settlement_backfill_sweep rows fetch now))"
  "b \<in> set (v33_settlement_backfill_sweep rows fetch now) \<Longrightarrow>
     \<exists>r. r \<in> set rows \<and> \<not> wr_dry_sim r \<and> wr_unsettled r \<and> row_legs r \<noteq> [] \<and>
       wr_close_time r \<notin> set (backfilled rows) \<and> wr_backfill_of b = Some (wr_close_time r) \<and>
       (wr_close_time r, r) \<in> set (v33_pending rows) \<and>
       settle_entry fetch now (sum_list (wr_netted r)) r = Some b"
proof -
  let ?f = "\<lambda>(w, r). if w \<in> set (backfilled rows) then None
                 else settle_entry fetch now (sum_list (wr_netted r)) r"
  have entry: "wr_close_time r = w \<and> r \<in> set rows \<and> \<not> wr_dry_sim r \<and> wr_unsettled r \<and> row_legs r \<noteq> []"
    if "(w, r) \<in> set (v33_pending rows)" for w r
    using last_by_window_entry [OF that [unfolded v33_pending_def]] by simp
  have f: "(w, r) \<in> set (v33_pending rows) \<Longrightarrow> ?f (w, r) = Some b \<Longrightarrow> wr_backfill_of b = Some w" for w r b
    using entry settle_entry_row by (fastforce split: if_splits)
  have d: "distinct (map fst (v33_pending rows))" by (simp add: v33_pending_def last_by_window_keys)
  have sw: "distinct (map wr_backfill_of (List.map_filter ?f (v33_pending rows))) \<and>
    (\<forall>b\<in>set (List.map_filter ?f (v33_pending rows)). \<exists>r. (the (wr_backfill_of b), r) \<in> set (v33_pending rows) \<and>
       ?f (the (wr_backfill_of b), r) = Some b \<and> wr_backfill_of b \<noteq> None)"
    by (rule sweep_windows [OF d]) (rule f)
  show "distinct (map wr_backfill_of (v33_settlement_backfill_sweep rows fetch now))"
    unfolding v33_settlement_backfill_sweep_def using sw by blast
  assume "b \<in> set (v33_settlement_backfill_sweep rows fetch now)"
  with sw obtain w r where wr: "(w, r) \<in> set (v33_pending rows)" "?f (w, r) = Some b" "wr_backfill_of b = Some w"
    unfolding v33_settlement_backfill_sweep_def by fastforce
  with entry [OF wr(1)] show "\<exists>r. r \<in> set rows \<and> \<not> wr_dry_sim r \<and> wr_unsettled r \<and> row_legs r \<noteq> [] \<and>
       wr_close_time r \<notin> set (backfilled rows) \<and> wr_backfill_of b = Some (wr_close_time r) \<and>
       (wr_close_time r, r) \<in> set (v33_pending rows) \<and>
       settle_entry fetch now (sum_list (wr_netted r)) r = Some b"
    by (intro exI [of _ r]) (auto split: if_splits)
qed

text \<open>The row just appended is settled when its window was not.\<close>

lemma sweep_last:
  assumes "\<not> wr_dry_sim r" "wr_unsettled r" "row_legs r \<noteq> []" "wr_backfill_of r = None"
    and "wr_close_time r \<notin> set (backfilled rows)"
    and "settle_entry fetch now (sum_list (wr_netted r)) r = Some b"
  shows "b \<in> set (v33_settlement_backfill_sweep (rows @ [r]) fetch now)"
proof -
  have "(wr_close_time r, r) \<in> set (v33_pending (rows @ [r]))"
    using assms(1-3) last_by_window_last by (simp add: v33_pending_def)
  moreover have "backfilled (rows @ [r]) = backfilled rows" using assms(4) by (simp add: backfilled_def)
  ultimately show ?thesis
    using assms(5,6) unfolding v33_settlement_backfill_sweep_def set_map_filter_iff
    by (intro bexI [of _ "(wr_close_time r, r)"]) simp_all
qed

section \<open>The row of a closed window\<close>

definition ladder_row :: "v33_state \<Rightarrow> string \<Rightarrow> (lots \<times> bool) option \<Rightarrow> window_row" where
  "ladder_row st close_time recon = build_v33_ledger_row close_time (compute_ladder_money_math st False) recon"

definition held_of :: "v33_state \<Rightarrow> held_leg list" where
  "held_of st = concat (map (batch_held st) (x_wing_batches st))"

lemma ladder_row_sel:
  assumes "x_rest_fills st \<noteq> []"
  shows "wr_close_time (ladder_row st ct rc) = ct" "wr_backfill_of (ladder_row st ct rc) = None"
    "\<not> wr_dry_sim (ladder_row st ct rc)" "wr_unsettled (ladder_row st ct rc) \<longleftrightarrow> held_of st \<noteq> []"
    "row_legs (ladder_row st ct rc) = held_of st"
    "wr_sets (ladder_row st ct rc) =
       map (\<lambda>b. (length (batch_held st b), co (total_count b))) (x_wing_batches st)"
    "wr_floor (ladder_row st ct rc) = Some (sets_floor st + netted_credit st)"
    "wr_delta (ladder_row st ct rc) = Some (sets_floor st + netted_credit st - cash_paid st)"
    "wr_netted (ladder_row st ct rc) = map (co \<circ> np_count) (x_netted_pairs st)"
  using assms
  by (simp_all add: ladder_row_def build_v33_ledger_row_def compute_ladder_money_math_def Let_def held_of_def
      row_legs_def set_record_of_def netted_set_of_def)

lemma held_band:
  assumes k: "books33 params st" and nm: "named_books st" and net: "x_netted_pairs st = []"
    and w: "0 \<le> q_bucket_width params"
  shows "legs_settled (settles_at params st S) (held_of st)"
    "sets_floor st \<le> legs_value (settles_at params st S) (held_of st)"
    "legs_value (settles_at params st S) (held_of st) \<le>
       sum_list (map (\<lambda>b. of_nat (min (length (batch_held st b)) 2) * total_count b) (x_wing_batches st))"
proof -
  note b = batch_floor [OF k _ nm net w, of _ S]
  have "legs_settled res (concat (map f bs))" if "\<forall>b\<in>set bs. legs_settled res (f b)" for res f and bs :: "batch33 list"
    using that by (induction bs) simp_all
  with b show "legs_settled (settles_at params st S) (held_of st)" by (simp add: held_of_def)
  show "sets_floor st \<le> legs_value (settles_at params st S) (held_of st)"
    unfolding sets_floor_def held_of_def legs_value_concat
    by (simp add: comp_def) (rule sum_list_mono, use b in blast)
  show "legs_value (settles_at params st S) (held_of st) \<le>
       sum_list (map (\<lambda>b. of_nat (min (length (batch_held st b)) 2) * total_count b) (x_wing_batches st))"
    unfolding held_of_def legs_value_concat
    by (simp add: comp_def) (rule sum_list_mono, use b in blast)
qed

lemma row_band_exact:
  assumes k: "books33 params st" and f: "x_rest_fills st \<noteq> []" and h: "held_of st \<noteq> []"
  shows "row_band (ladder_row st ct rc) =
    (sets_floor st, sum_list (map (\<lambda>b. of_nat (min (length (batch_held st b)) 2) * total_count b) (x_wing_batches st)))"
proof -
  have ne: "x_wing_batches st \<noteq> []" using h by (auto simp: held_of_def)
  have n: "co (total_count b) = total_count b \<and> total_count b \<noteq> 0" if "b \<in> set (x_wing_batches st)" for b
    by (rule batch_shape [OF k that]) (simp add: co_def)
  then have "map (\<lambda>b. (length (batch_held st b), co (total_count b))) (x_wing_batches st) =
      map (\<lambda>b. (length (batch_held st b), total_count b)) (x_wing_batches st)" by simp
  then have "wr_sets (ladder_row st ct rc) = map (\<lambda>b. (length (batch_held st b), total_count b)) (x_wing_batches st)"
    by (simp only: ladder_row_sel [OF f])
  moreover have "map set_floor (map (\<lambda>b. (length (batch_held st b), total_count b)) (x_wing_batches st)) =
      map (\<lambda>b. v32_set_floor_dollars (length (batch_held st b)) (total_count b)) (x_wing_batches st)"
    "map set_best (map (\<lambda>b. (length (batch_held st b), total_count b)) (x_wing_batches st)) =
      map (\<lambda>b. of_nat (min (length (batch_held st b)) 2) * total_count b) (x_wing_batches st)"
    using n by (simp_all add: set_floor_def set_best_def set_lots_def)
  ultimately show ?thesis
    using ne by (simp add: row_band_def sets_floor_def del: map_map)
qed

end
