(* ===== verification/Ledger_Properties.thy ===== *)
theory Ledger_Properties
  imports V33_Sweep V33_Example Arming
begin

text \<open>
  The properties of the window ledger, over the V3.3 core that fills it and the arming gate that
  reads it, on one window run from a fresh hour: a fill, its two wings, both filled.
\<close>

section \<open>A window\<close>

definition ex_book :: "ticker \<Rightarrow> top_of_book \<Rightarrow> v33_event" where
  "ex_book t b = Book33 \<lparr>bu_market = t, bu_top = b, bu_server_ts = 9950, bu_book_ts = None\<rparr>"

definition ex_filled :: "string \<Rightarrow> money \<Rightarrow> time \<Rightarrow> v33_event" where
  "ex_filled c p t = Fill33 \<lparr>vf_order_id = None, vf_coid = Some c, vf_count = 1, vf_price = Some p,
     vf_side = ''no'', vf_server_ts = t, vf_market = Some ''B1'', vf_source = None\<rparr>"

definition ex_events :: "v33_event list" where
  "ex_events =
     [ex_book ''B1'' (wit_top (40/100) (44/100)), ex_book ''S1'' (wit_top (58/100) (60/100)),
      ex_book ''S2'' (wit_top (40/100) (42/100)), ex_filled ''c1'' (1/2) 9951, Clock33 9952,
      ex_filled ''v33-T-1'' (60/100) 9952, ex_filled ''v33-T-2'' (60/100) 9952]"

definition ladder_hour :: "v33_params \<Rightarrow> string \<Rightarrow> int \<Rightarrow> bucket_map \<Rightarrow> bool \<Rightarrow> (ticker, int) dict \<Rightarrow>
    string \<Rightarrow> v33_event list \<Rightarrow> v33_state" where
  "ladder_hour params ct ce bm sh fl pre es =
     fst (run_core (decide_v33 params) (new_v33_state ct ce bm params sh fl pre) es)"

definition ex_closed_window :: v33_state where
  "ex_closed_window = ladder_hour ex_params ''T'' 10000 [(''B1'', (100, 200))] False
     [(''S1'', 100), (''S2'', 200)] ''v33-'' ex_events"

definition ex_facts :: "v33_state \<Rightarrow> bool" where
  "ex_facts st \<longleftrightarrow>
     held_of st = [(''B1'', ''no'', 1), (''S1'', ''yes'', 1), (''S2'', ''no'', 1)] \<and> x_netted_pairs st = [] \<and>
     map (\<lambda>b. (length (batch_held st b), total_count b)) (x_wing_batches st) = [(3, 1)] \<and>
     map rg_bucket_ticker (x_rest_fills st) = [Some ''B1''] \<and> map wl_ticker (x_wing_legs st) = [''S1'', ''S2''] \<and>
     map (settles_at ex_params st 150) [''B1'', ''S1'', ''S2''] = [Some ''yes'', Some ''yes'', Some ''no'']"

lemma ex_window_facts: "ex_facts ex_closed_window"
  by code_simp

lemma books33_hour: "\<not> q_print_through params \<Longrightarrow> books33 params (ladder_hour params ct ce bm sh fl pre es)"
proof -
  assume off: "\<not> q_print_through params"
  have "books33 params st \<Longrightarrow> books33 params (fst (run_core (decide_v33 params) st es))" for st
    by (induction es arbitrary: st) (simp_all add: run_core_Cons case_prod_beta books_decide [OF off])
  then show ?thesis by (simp add: ladder_hour_def books_new)
qed

lemma ex_window_sel:
  "held_of ex_closed_window = [(''B1'', ''no'', 1), (''S1'', ''yes'', 1), (''S2'', ''no'', 1)]"
  "x_netted_pairs ex_closed_window = []" "x_rest_fills ex_closed_window \<noteq> []" "named_books ex_closed_window"
  "settles_at ex_params ex_closed_window 150 ''B1'' = Some ''yes''"
  "settles_at ex_params ex_closed_window 150 ''S1'' = Some ''yes''"
  "settles_at ex_params ex_closed_window 150 ''S2'' = Some ''no''"
  using ex_window_facts by (auto simp: ex_facts_def named_books_def map_eq_Cons_conv)

lemma ex_window_row: "row_band (ladder_row ex_closed_window ''T'' None) = (2, 2)"
proof -
  have "books33 ex_params ex_closed_window" by (simp add: ex_closed_window_def books33_hour ex_params_sel)
  moreover obtain b where "x_wing_batches ex_closed_window = [b]" "length (batch_held ex_closed_window b) = 3"
    "total_count b = 1"
    using ex_window_facts by (auto simp: ex_facts_def)
  ultimately show ?thesis
    using row_band_exact [of ex_params ex_closed_window "''T''" None] ex_window_sel(1,3)
    by (simp add: sets_floor_def v32_set_floor_dollars_def)
qed

lemma ex_window_value: "legs_value (settles_at ex_params ex_closed_window 150) (held_of ex_closed_window) = 2"
  by (simp add: ex_window_sel leg_value_def)

section \<open>A wing without a market\<close>

text \<open>
  Why the properties below ask that the filled legs name their market: a partial take before the
  other strike was ever seen records its deferred leg on the empty ticker, and the retries keep
  buying there after the strike appeared.
\<close>

definition ex_half_batch :: batch33 where
  "ex_half_batch = group_batch \<lparr>cg_index = 0, cg_first_ts = 9399, cg_fills = [ex_fill 100 (1/2)]\<rparr>"

definition ex_half_taken :: v33_state where
  "ex_half_taken = fst (take_batch_partial ex_params
     (ex_hour\<lparr>x_strike_tops := [(100, wit_top (58/100) (60/100))], x_strike_ts := [(100, 9400)],
        x_strike_tickers := [(100, ''S1'')], x_wing_batches := [ex_half_batch]\<rparr>)
     ex_half_batch (batch_bucket ex_params ex_half_batch) 9400)"

lemma deferred_leg_without_market:
  "map (\<lambda>l. (wl_ticker l, wl_status l)) (x_wing_legs ex_half_taken) = [(''S1'', Pending), ('''', Unfilled)] \<and>
   map (\<lambda>a. map lg_ticker (y_legs a)) (snd (retry_batch33 ex_params
     (ex_half_taken\<lparr>x_strike_tickers := [(100, ''S1''), (200, ''S2'')]\<rparr>) ex_half_batch (60/100) (60/100) 9401)) = [['''']]"
  by code_simp
section \<open>The books of a window\<close>

text \<open>
  C4. The ladder's books are exact. When the held legs of an armed window have all settled, the
  sweep backfills it, and what the window booked at close plus the correction is what its held legs
  pay and one dollar for each contract netted at the venue, less the cash it paid, fees in: whatever
  floor was booked.
\<close>

theorem ladder_books_exact:
  assumes "x_rest_fills st \<noteq> []" and "held_of st \<noteq> []" and "legs_settled res (held_of st)"
    and "ct \<notin> set (backfilled prior)"
  shows "\<exists>bf d1 d2. bf \<in> set (v33_settlement_backfill_sweep (prior @ [ladder_row st ct recon]) res now) \<and>
    wr_backfill_of bf = Some ct \<and> wr_delta (ladder_row st ct recon) = Some d1 \<and> wr_delta bf = Some d2 \<and>
    d1 + d2 = legs_value res (held_of st) + sum_list (map (co \<circ> np_count) (x_netted_pairs st)) - cash_paid st"
proof -
  let ?r = "ladder_row st ct recon"
  note r = ladder_row_sel [OF assms(1), of ct recon]
  obtain R where b: "settle_entry res now (sum_list (wr_netted ?r)) ?r =
      Some (build_backfill_row ?r R (legs_value res (held_of st) + sum_list (wr_netted ?r))
        (sets_floor st + netted_credit st) now (length (held_of st)) (floor_note_of ?r))"
    using settle_entry_exact [of res ?r now "sum_list (wr_netted ?r)"] assms(3)
    by (auto simp: r floor_booked_for_entry_def)
  show ?thesis
    using sweep_last [OF _ _ _ _ _ b, of prior] assms(2,4) by (auto simp: r build_backfill_row_def)
qed

theorem ladder_books_exact_witness:
  "\<exists>bf d1 d2. bf \<in> set (v33_settlement_backfill_sweep [ladder_row ex_closed_window ''T'' None]
       (settles_at ex_params ex_closed_window 150) 99) \<and>
    wr_backfill_of bf = Some ''T'' \<and> wr_delta (ladder_row ex_closed_window ''T'' None) = Some d1 \<and>
    wr_delta bf = Some d2 \<and> d1 + d2 = 2 - cash_paid ex_closed_window"
  using ladder_books_exact [of ex_closed_window "settles_at ex_params ex_closed_window 150" "''T''" "[]" None 99]
  by (simp add: ex_window_value) (simp add: ex_window_sel backfilled_def)

section \<open>The sweep settles once\<close>

text \<open>
  C29. A window is settled once. A sweep never writes two rows for a window, a later sweep over the
  ledger with those rows appended settles none of these windows again, whatever the venue then
  reports, and with the same results it writes nothing.
\<close>

theorem ladder_backfilled_once:
  fixes rows fetch now
  defines "bfs \<equiv> v33_settlement_backfill_sweep rows fetch now"
  assumes "\<forall>r\<in>set rows. wr_close_time r \<noteq> []"
  shows "distinct (map wr_backfill_of bfs) \<and>
    (\<forall>b\<in>set (v33_settlement_backfill_sweep (rows @ map window_row.truncate bfs) fetch' later_now).
       wr_backfill_of b \<notin> wr_backfill_of ` set bfs) \<and>
    v33_settlement_backfill_sweep (rows @ map window_row.truncate bfs) fetch later_now = []"
proof -
  let ?all = "rows @ map window_row.truncate bfs"
  have bf: "\<exists>w. wr_backfill_of b = Some w \<and> w \<noteq> [] \<and> \<not> wr_unsettled b" if "b \<in> set bfs" for b
    using sweep_exact(2) [OF that [unfolded bfs_def]] assms(2) settle_entry_row by fastforce
  have trunc: "wr_backfill_of (window_row.truncate b) = wr_backfill_of b"
    "wr_unsettled (window_row.truncate b) = wr_unsettled b" for b :: backfill_row
    by (simp_all add: window_row.truncate_def)
  have done': "w \<in> set (backfilled ?all)" if "Some w \<in> wr_backfill_of ` set bfs" for w
    using that bf by (force simp: backfilled_def trunc)
  have "filter (\<lambda>r. \<not> wr_dry_sim r \<and> wr_unsettled r \<and> row_legs r \<noteq> []) (map window_row.truncate bfs) = []"
    using bf by (auto simp: filter_empty_conv trunc)
  then have pend: "v33_pending ?all = v33_pending rows" by (simp add: v33_pending_def)
  have old: "set (backfilled rows) \<subseteq> set (backfilled ?all)" by (auto simp: backfilled_def)
  have once: "wr_backfill_of b \<notin> wr_backfill_of ` set bfs"
    if "b \<in> set (v33_settlement_backfill_sweep ?all f t)" for b f t
    using sweep_exact(2) [OF that] done' by metis
  have "b \<notin> set (v33_settlement_backfill_sweep ?all fetch t)" for b t
  proof
    assume b: "b \<in> set (v33_settlement_backfill_sweep ?all fetch t)"
    from sweep_exact(2) [OF this] pend old obtain r where
      r: "(wr_close_time r, r) \<in> set (v33_pending rows)" "wr_close_time r \<notin> set (backfilled rows)"
        "settle_entry fetch t (sum_list (wr_netted r)) r = Some b" "wr_backfill_of b = Some (wr_close_time r)"
      by auto
    from r(3) obtain c where c: "settle_entry fetch now (sum_list (wr_netted r)) r = Some c"
      by (auto simp: settle_entry_def split: option.splits sum.splits)
    then have "c \<in> set bfs"
      using r(1,2) unfolding bfs_def v33_settlement_backfill_sweep_def set_map_filter_iff
      by (intro bexI [of _ "(wr_close_time r, r)"]) simp_all
    moreover have "wr_backfill_of c = wr_backfill_of b" using settle_entry_row [OF c] r(4) by simp
    ultimately show False using once [OF b] by (metis imageI)
  qed
  then have "v33_settlement_backfill_sweep ?all fetch later_now = []" by (metis list.set_intros(1) neq_Nil_conv)
  then show ?thesis using once sweep_exact(1) by (auto simp: bfs_def)
qed

theorem ladder_backfilled_once_witness:
  "v33_settlement_backfill_sweep
     ([ladder_row ex_closed_window ''T'' None] @ map window_row.truncate
        (v33_settlement_backfill_sweep [ladder_row ex_closed_window ''T'' None]
           (settles_at ex_params ex_closed_window 150) 99))
     (settles_at ex_params ex_closed_window 150) 100 = []"
  using ladder_backfilled_once [of "[ladder_row ex_closed_window ''T'' None]"
      "settles_at ex_params ex_closed_window 150" 99 "settles_at ex_params ex_closed_window 150" 100]
  by (simp add: ladder_row_sel ex_window_sel)

section \<open>The floor is a floor\<close>

text \<open>
  C8. The booked floor is guaranteed. With print-through off, the row of any run of a fresh hour
  whose held legs all name their market and no wing was netted: at whatever price the hour settles,
  the sweep backfills the window, its payoff lies between the two bounds of the pending credit, and
  the correction never takes back a cent of the floor booked at close.
\<close>

theorem ladder_floor_guaranteed:
  assumes "\<not> q_print_through params" and "0 \<le> q_bucket_width params"
    and st: "st = ladder_hour params ct ce bm sh fl pre es"
    and "x_rest_fills st \<noteq> []" and "held_of st \<noteq> []" and "named_books st" and "x_netted_pairs st = []"
  shows "\<exists>bf d. v33_settlement_backfill_sweep [ladder_row st ct recon] (settles_at params st S) now = [bf] \<and>
    fst (v33_pending_credit [ladder_row st ct recon] (take 10 ct)) \<le> br_payoff bf \<and>
    br_payoff bf \<le> snd (v33_pending_credit [ladder_row st ct recon] (take 10 ct)) \<and>
    wr_delta bf = Some d \<and> 0 \<le> d"
proof -
  let ?r = "ladder_row st ct recon"
  have k: "books33 params st" unfolding st by (rule books33_hour [OF assms(1)])
  note r = ladder_row_sel [OF assms(4), of ct recon]
  note band = held_band [OF k assms(6,7,2), of S]
  have none: "ct \<notin> set (backfilled [?r])" by (simp add: backfilled_def r)
  obtain R where b: "settle_entry (settles_at params st S) now (sum_list (wr_netted ?r)) ?r =
      Some (build_backfill_row ?r R (legs_value (settles_at params st S) (held_of st))
        (sets_floor st) now (length (held_of st)) (floor_note_of ?r))"
    using settle_entry_exact [of "settles_at params st S" ?r now "sum_list (wr_netted ?r)"] band(1) assms(7)
    by (auto simp: r floor_booked_for_entry_def netted_credit_def)
  have "v33_pending [?r] = [(ct, ?r)]"
    using assms(5) by (simp add: v33_pending_def r last_by_window_def)
  then have "v33_settlement_backfill_sweep [?r] (settles_at params st S) now =
      [build_backfill_row ?r R (legs_value (settles_at params st S) (held_of st)) (sets_floor st) now
        (length (held_of st)) (floor_note_of ?r)]"
    using none b by (simp add: v33_settlement_backfill_sweep_def List.map_filter_simps)
  moreover have "v33_pending_credit [?r] (take 10 ct) = row_band ?r"
    using none assms(5) by (simp add: v33_pending_credit_def v33_owed_def credit_band_def r)
  ultimately show ?thesis
    using band by (simp add: row_band_exact [OF k assms(4,5)] build_backfill_row_def)
qed

theorem ladder_floor_guaranteed_witness:
  "\<exists>bf d. v33_settlement_backfill_sweep [ladder_row ex_closed_window ''T'' None]
      (settles_at ex_params ex_closed_window 150) 99 = [bf] \<and> wr_delta bf = Some d \<and> 0 \<le> d"
  using ladder_floor_guaranteed [OF _ _ ex_closed_window_def, where recon = None and S = 150 and now = 99]
  by (simp add: ex_params_sel ex_window_sel) blast

section \<open>The daily-loss verdict\<close>

text \<open>A row of the ledger and what its window is settled with.\<close>

definition settles_to :: "v33_params \<Rightarrow> window_row \<Rightarrow> money \<Rightarrow> bool" where
  "settles_to params r P \<longleftrightarrow>
     (\<exists>ct ce bm sh fl pre es recon S.
        let st = ladder_hour params ct ce bm sh fl pre es
        in r = ladder_row st ct recon \<and> x_rest_fills st \<noteq> [] \<and> held_of st \<noteq> [] \<and> named_books st \<and>
           x_netted_pairs st = [] \<and> P = legs_value (settles_at params st S) (held_of st))"

lemma settles_to_band:
  assumes "\<not> q_print_through params" "0 \<le> q_bucket_width params" "settles_to params r P"
  shows "fst (row_band r) \<le> P \<and> P \<le> snd (row_band r)"
proof -
  from assms(3) obtain ct ce bm sh fl pre es recon S where
    st: "r = ladder_row (ladder_hour params ct ce bm sh fl pre es) ct recon"
      "x_rest_fills (ladder_hour params ct ce bm sh fl pre es) \<noteq> []"
      "held_of (ladder_hour params ct ce bm sh fl pre es) \<noteq> []"
      "named_books (ladder_hour params ct ce bm sh fl pre es)"
      "x_netted_pairs (ladder_hour params ct ce bm sh fl pre es) = []"
      "P = legs_value (settles_at params (ladder_hour params ct ce bm sh fl pre es) S)
         (held_of (ladder_hour params ct ce bm sh fl pre es))"
    by (auto simp: settles_to_def Let_def)
  note k = books33_hour [OF assms(1), of ct ce bm sh fl pre es]
  show ?thesis
    using held_band [OF k st(4,5) assms(2), of S] by (simp add: st(1,6) row_band_exact [OF k st(2,3)])
qed

lemma band_sums:
  assumes "list_all2 (settles_to params) rows Ps" "\<not> q_print_through params" "0 \<le> q_bucket_width params"
  shows "fst (credit_band rows) \<le> sum_list Ps \<and> sum_list Ps \<le> snd (credit_band rows)"
  using assms(1)
proof (induction rule: list_all2_induct)
  case (Cons r rows P Ps)
  with settles_to_band [OF assms(2,3)] show ?case by (fastforce simp: credit_band_def)
qed (simp add: credit_band_def)

text \<open>
  C35. The daily-loss verdict is right about the windows still pending. With print-through off and
  a bucket width that is not negative, let every owed V3.3 row of the day be the row of a run of a
  fresh hour whose held legs all name their market and in which no wing was netted (\<open>settles_to\<close>).
  Then whatever the prices at which those windows settle: when the verdict is latch the day's loss
  after the settlements reaches the cap, and when a window is armed on the verdict it stays below.
  A day with a netted wing, or with print-through on, is outside the theorem.
\<close>

theorem day_loss_verdict_sound:
  assumes "\<not> q_print_through params" and "0 \<le> q_bucket_width params"
    and "list_all2 (settles_to params) (v33_owed rows utc_day) payoffs"
    and "decision = v33_s4_decision start now (v33_pending_credit rows utc_day)"
  shows "(s4_verdict decision = S4_Latch \<longrightarrow>
      V33_S4_DAY_LOSS_CAP_DOLLARS \<le> balance_loss_dollars start (now + sum_list payoffs)) \<and>
    (ao_armed (decide_v33_arming mode falsifier health positions verified g (Some decision) args) \<longrightarrow>
      balance_loss_dollars start (now + sum_list payoffs) < V33_S4_DAY_LOSS_CAP_DOLLARS)"
proof -
  have band: "fst (v33_pending_credit rows utc_day) \<le> sum_list payoffs"
    "sum_list payoffs \<le> snd (v33_pending_credit rows utc_day)"
    using band_sums [OF assms(3,1,2)] by (simp_all add: v33_pending_credit_def)
  show ?thesis
    using band
    by (auto simp: assms(4) decide_v33_arming_iff v33_s4_decision_def s4_balance_decision_def
        s4_balance_breached_def balance_loss_dollars_def Let_def split: if_splits)
qed

lemma ex_window_settles: "settles_to ex_params (ladder_row ex_closed_window ''T'' None) 2"
  unfolding settles_to_def Let_def
  using ex_window_value ex_window_sel(1-4)
  by (intro exI [of _ "''T''"] exI [of _ 10000] exI [of _ "[(''B1'', (100, 200))]"] exI [of _ False]
      exI [of _ "[(''S1'', 100), (''S2'', 200)]"] exI [of _ "''v33-''"] exI [of _ ex_events] exI [of _ None]
      exI [of _ 150]) (simp add: ex_closed_window_def [symmetric])

theorem day_loss_verdict_sound_witness:
  "s4_verdict (v33_s4_decision 50 40 (v33_pending_credit [ladder_row ex_closed_window ''T'' None] ''T'')) = S4_Latch \<and>
   V33_S4_DAY_LOSS_CAP_DOLLARS \<le> balance_loss_dollars 50 (40 + sum_list [2])"
proof -
  let ?rows = "[ladder_row ex_closed_window ''T'' None]"
  have owed: "v33_owed ?rows ''T'' = ?rows"
    by (simp add: v33_owed_def ladder_row_sel ex_window_sel backfilled_def)
  have settled: "list_all2 (settles_to ex_params) (v33_owed ?rows ''T'') [2]"
    by (simp add: owed ex_window_settles)
  have "v33_pending_credit ?rows ''T'' = (2, 2)"
    by (simp add: v33_pending_credit_def owed credit_band_def ex_window_row)
  then have "s4_verdict (v33_s4_decision 50 40 (v33_pending_credit ?rows ''T'')) = S4_Latch"
    by (simp add: v33_s4_decision_def s4_balance_decision_def s4_balance_breached_def balance_loss_dollars_def
        V33_S4_DAY_LOSS_CAP_DOLLARS_def)
  with day_loss_verdict_sound [OF _ _ settled refl, of 50 40] show ?thesis by (simp add: ex_params_sel)
qed

end
