(* ===== verification/Wing_Chunks.thy ===== *)
theory Wing_Chunks
  imports Write_Pacer "HOL-Library.Multiset"
begin

text \<open>
  How a wing take is cut (\<open>v33/executor.py\<close>): the remaining lots of a leg into orders of at most
  the proxy's cap, the orders of all legs interleaved and cut into sub-batches that fit the venue's
  write bucket. The lemmas: the orders of a leg sum to its remaining lots and each is positive and
  within the cap; the sub-batches rearrange the orders, none is longer than the maximum, and in
  every prefix no leg is more than one order ahead of another that still has some.
\<close>

section \<open>The orders of a leg\<close>

definition chunk_counts :: "rat \<Rightarrow> lots \<Rightarrow> lots list" where
  "chunk_counts cap q = map (\<lambda>c. min cap (q - of_nat c * cap)) [0..<nat \<lceil>q / cap\<rceil>]"

lemma chunk_sum_upto:
  fixes cap q :: rat
  assumes "of_nat n * cap \<le> q + cap" "0 < cap" "0 < n \<longrightarrow> of_nat (n - 1) * cap \<le> q"
  shows "sum_list (map (\<lambda>c. min cap (q - of_nat c * cap)) [0..<n]) = min q (of_nat n * cap)
    \<or> n = 0"
  using assms
proof (induction n)
  case (Suc n)
  show ?case
  proof (cases n)
    case 0
    then show ?thesis by (simp add: min.commute)
  next
    case (Suc m)
    have n: "of_nat n * cap \<le> q" using Suc.prems(3) by simp
    moreover have "of_nat (n - 1) * cap \<le> q"
      using n \<open>0 < cap\<close> by (simp add: \<open>n = Suc m\<close> algebra_simps)
    ultimately have "sum_list (map (\<lambda>c. min cap (q - of_nat c * cap)) [0..<n]) = min q (of_nat n * cap)"
      using Suc.IH [OF _ \<open>0 < cap\<close>] \<open>0 < cap\<close> \<open>n = Suc m\<close> by (simp add: add_increasing2)
    with n show ?thesis by (simp add: min_def algebra_simps)
  qed
qed simp

lemma chunk_counts_sum:
  assumes "0 < q" "0 < cap" shows "sum_list (chunk_counts cap q) = q"
proof -
  define n where "n = nat \<lceil>q / cap\<rceil>"
  have pos: "0 < q / cap" using assms by simp
  then have n: "of_int \<lceil>q / cap\<rceil> = (of_nat n :: rat)" "0 < n" by (simp_all add: n_def)
  have "q / cap \<le> of_nat n" "of_nat n < q / cap + 1"
    unfolding n(1) [symmetric] by linarith+
  with assms(2) have "q \<le> of_nat n * cap" "of_nat n * cap < q + cap"
    by (simp_all add: field_simps)
  moreover from this n(2) have "of_nat (n - 1) * cap \<le> q"
    by (simp add: of_nat_diff algebra_simps)
  ultimately have "sum_list (map (\<lambda>c. min cap (q - of_nat c * cap)) [0..<n]) = min q (of_nat n * cap)"
    using chunk_sum_upto [of n cap q] assms(2) n(2) by simp
  with \<open>q \<le> of_nat n * cap\<close> show ?thesis by (simp add: chunk_counts_def n_def)
qed

lemma chunk_counts_range:
  assumes "x \<in> set (chunk_counts cap q)" "0 < cap"
  shows "0 < x" "x \<le> cap" "x \<le> q"
proof -
  obtain c where c: "c < nat \<lceil>q / cap\<rceil>" and x: "x = min cap (q - of_nat c * cap)"
    using assms(1) by (auto simp: chunk_counts_def)
  from c have "of_nat c < q / cap" by linarith
  with assms(2) have "of_nat c * cap < q" by (simp add: field_simps)
  with assms(2) show "0 < x" "x \<le> cap" "x \<le> q" by (simp_all add: x min_le_iff_disj)
qed

lemma chunk_counts_whole:
  assumes "whole_cent q" "x \<in> set (chunk_counts (of_int cap) q)" shows "whole_cent x"
proof -
  obtain c :: nat where "x = min (of_int cap) (q - of_nat c * of_int cap)"
    using assms(2) by (auto simp: chunk_counts_def)
  then have "x = min (of_int cap) (q - of_int (int c * cap))" by simp
  with assms(1) show ?thesis by (simp only:) (intro whole_cent_min whole_cent_diff whole_cent_of_int)
qed

lemma length_chunk_counts [simp]: "length (chunk_counts cap q) = nat \<lceil>q / cap\<rceil>"
  by (simp add: chunk_counts_def)

section \<open>The sub-batches\<close>

definition WING_BATCH_MAX_ORDERS :: int where
  "WING_BATCH_MAX_ORDERS = 8"

definition wing_batch_max_orders :: "rat \<Rightarrow> nat" where
  "wing_batch_max_orders bucket_size =
     nat (max 1 (min WING_BATCH_MAX_ORDERS \<lfloor>bucket_size / COST_CREATE\<rfloor>))"

lemma wing_batch_max_orders_bounds:
  "1 \<le> wing_batch_max_orders s" "wing_batch_max_orders s \<le> 8"
  "COST_CREATE \<le> s \<Longrightarrow> COST_CREATE * of_nat (wing_batch_max_orders s) \<le> s"
proof -
  show "1 \<le> wing_batch_max_orders s" "wing_batch_max_orders s \<le> 8"
    by (simp_all add: wing_batch_max_orders_def WING_BATCH_MAX_ORDERS_def)
  assume "COST_CREATE \<le> s"
  then have "1 \<le> \<lfloor>s / 10\<rfloor>" by (simp add: COST_CREATE_def)
  then have "of_nat (wing_batch_max_orders s) \<le> (of_int \<lfloor>s / 10\<rfloor> :: rat)"
    by (simp add: wing_batch_max_orders_def WING_BATCH_MAX_ORDERS_def COST_CREATE_def)
  also have "\<dots> \<le> s / 10" by (rule of_int_floor_le)
  finally show "COST_CREATE * of_nat (wing_batch_max_orders s) \<le> s" by (simp add: COST_CREATE_def)
qed

text \<open>The orders by leg, the legs in order of appearance.\<close>

fun by_leg :: "('k \<times> 'e) list \<Rightarrow> ('k, 'e list) dict \<Rightarrow> ('k, 'e list) dict" where
  "by_leg [] d = d"
| "by_leg ((k, e) # es) d = by_leg es (AList.update k (dict_get_default d k [] @ [e]) d)"

lemma drop_one_less:
  "\<not> list_all (\<lambda>q. q = []) qs \<Longrightarrow> sum_list (map length (map (drop 1) qs)) < sum_list (map length qs)"
proof (induction qs)
  case (Cons q qs)
  have "sum_list (map length (map (drop 1) qs)) \<le> sum_list (map length qs)"
    by (simp add: comp_def sum_list_mono)
  with Cons show ?case by (cases q) (auto simp: comp_def intro: add_less_le_mono)
qed simp

function interleave :: "'e list list \<Rightarrow> 'e list" where
  "interleave qs =
     (if list_all (\<lambda>q. q = []) qs then []
      else concat (map (take 1) qs) @ interleave (map (drop 1) qs))"
  by pat_completeness auto
termination by (relation "measure (\<lambda>qs. sum_list (map length qs))") (use drop_one_less in auto)

declare interleave.simps [simp del]

function cut_every :: "nat \<Rightarrow> 'e list \<Rightarrow> 'e list list" where
  "cut_every n xs = (if xs = [] \<or> n = 0 then [] else take n xs # cut_every n (drop n xs))"
  by pat_completeness auto
termination by (relation "measure (\<lambda>(n, xs). length xs)") auto

declare cut_every.simps [simp del]

definition split_wing_batches :: "('k \<times> 'e) list \<Rightarrow> nat \<Rightarrow> 'e list list" where
  "split_wing_batches entries max_orders =
     cut_every max_orders (interleave (map snd (by_leg entries [])))"

section \<open>A fair rearrangement\<close>

lemma concat_cut: "0 < n \<Longrightarrow> concat (cut_every n xs) = xs"
  by (induction n xs rule: cut_every.induct) (subst cut_every.simps, simp)

lemma cut_lengths: "b \<in> set (cut_every n xs) \<Longrightarrow> 0 < length b \<and> length b \<le> n"
proof (induction n xs rule: cut_every.induct)
  case (1 n xs)
  then show ?case by (subst (asm) (2) cut_every.simps) (auto split: if_splits)
qed

lemma mset_round:
  "mset (concat qs) = mset (concat (map (take 1) qs)) + mset (concat (map (drop 1) qs))"
proof (induction qs)
  case (Cons q qs)
  have "mset q = mset (take 1 q) + mset (drop 1 q)"
    by (metis append_take_drop_id mset_append)
  with Cons show ?case by simp
qed simp

lemma mset_interleave: "mset (interleave qs) = mset (concat qs)"
proof (induction qs rule: interleave.induct)
  case (1 qs)
  show ?case
  proof (cases "list_all (\<lambda>q. q = []) qs")
    case True
    then have "concat qs = []" by (simp add: list_all_iff)
    with True show ?thesis by (simp add: interleave.simps [of qs])
  next
    case False
    then show ?thesis using 1 [OF False] mset_round [of qs] by (simp add: interleave.simps [of qs])
  qed
qed

lemma mset_legs_update:
  "mset (concat (map snd (AList.update k (dict_get_default d k [] @ [e]) d))) =
     mset (concat (map snd d)) + {#e#}"
  by (induction d) (auto simp: dict_get_default_def)

lemma mset_by_leg: "mset (concat (map snd (by_leg es d))) = mset (concat (map snd d)) + mset (map snd es)"
  by (induction es d rule: by_leg.induct) (simp_all add: mset_legs_update)

lemma split_permutes: "0 < n \<Longrightarrow> mset (concat (split_wing_batches es n)) = mset (map snd es)"
  by (simp add: split_wing_batches_def concat_cut mset_interleave mset_by_leg)

lemma split_lengths: "b \<in> set (split_wing_batches es n) \<Longrightarrow> 0 < length b \<and> length b \<le> n"
  by (auto simp: split_wing_batches_def dest: cut_lengths)

text \<open>What each leg's queue holds: its own orders, in order.\<close>

lemma by_leg_queues:
  "map_of (by_leg es d) k =
     (if k \<in> fst ` set es \<or> map_of d k \<noteq> None
      then Some (dict_get_default d k [] @ map snd (filter (\<lambda>x. fst x = k) es)) else None)"
proof (induction es d rule: by_leg.induct)
  case (2 k' e es d)
  then show ?case by (auto simp: dict_get_default_def split: option.splits)
qed (simp add: dict_get_default_def split: option.splits)

lemma distinct_by_leg: "distinct (map fst d) \<Longrightarrow> distinct (map fst (by_leg es d))"
  by (induction es d rule: by_leg.induct) (simp_all add: distinct_update)

definition how_many :: "('e \<Rightarrow> bool) \<Rightarrow> 'e list \<Rightarrow> nat" where
  "how_many P xs = length (filter P xs)"

lemma how_many_simps [simp]:
  "how_many P [] = 0" "how_many P (x # xs) = (if P x then Suc (how_many P xs) else how_many P xs)"
  "how_many P (xs @ ys) = how_many P xs + how_many P ys"
  by (simp_all add: how_many_def)

lemma how_many_le: "\<forall>x \<in> set xs. P x \<longrightarrow> Q x \<Longrightarrow> how_many P xs \<le> how_many Q xs"
  by (induction xs) auto

lemma how_many_take: "how_many P (take n xs) \<le> how_many P xs"
  by (induction xs arbitrary: n) (auto simp: take_Cons' )

text \<open>Queues whose orders are told apart by \<open>own\<close>, as the legs' client ids do.\<close>

definition own_queues :: "('e \<Rightarrow> 'k) \<Rightarrow> ('k \<times> 'e list) list \<Rightarrow> bool" where
  "own_queues own kqs \<longleftrightarrow> distinct (map fst kqs) \<and> (\<forall>(k, q) \<in> set kqs. \<forall>e \<in> set q. own e = k)"

lemma how_many_foreign: "\<forall>x \<in> set xs. \<not> P x \<Longrightarrow> how_many P xs = 0"
  by (simp add: how_many_def)

lemma how_many_own:
  assumes "own_queues own kqs"
  shows "how_many (\<lambda>e. own e = k) (concat (map snd kqs)) = length (dict_get_default kqs k [])"
  using assms
proof (induction kqs)
  case (Cons kq kqs)
  obtain k' q where kq: "kq = (k', q)" by fastforce
  have own: "\<forall>e \<in> set q. own e = k'" "k' \<notin> fst ` set kqs" "own_queues own kqs"
    using Cons.prems by (auto simp: own_queues_def kq)
  have "how_many (\<lambda>e. own e = k) q = (if k = k' then length q else 0)"
    using own(1) by (auto simp: how_many_def)
  moreover have "dict_get_default kqs k' [] = []"
    using own(2) by (simp add: dict_get_default_def map_of_eq_None_iff [THEN iffD2])
  ultimately show ?case
    using Cons.IH [OF own(3)] by (auto simp: kq dict_get_default_def)
qed (simp add: dict_get_default_def)

definition next_round :: "('k \<times> 'e list) list \<Rightarrow> ('k \<times> 'e list) list" where
  "next_round kqs = map (\<lambda>(k, q). (k, drop 1 q)) kqs"

definition first_round :: "('k \<times> 'e list) list \<Rightarrow> ('k \<times> 'e list) list" where
  "first_round kqs = map (\<lambda>(k, q). (k, take 1 q)) kqs"

lemma rounds_own:
  assumes "own_queues own kqs"
  shows "own_queues own (next_round kqs)" "own_queues own (first_round kqs)"
  using assms
  by (fastforce simp: own_queues_def next_round_def first_round_def comp_def split_beta
      dest: in_set_dropD in_set_takeD)+

lemma rounds_snd:
  "map snd (next_round kqs) = map (drop 1) (map snd kqs)"
  "map snd (first_round kqs) = map (take 1) (map snd kqs)"
  by (simp_all add: next_round_def first_round_def comp_def split_beta)

lemma rounds_get:
  "dict_get_default (next_round kqs) k [] = drop 1 (dict_get_default kqs k [])"
  "dict_get_default (first_round kqs) k [] = take 1 (dict_get_default kqs k [])"
  by (induction kqs) (auto simp: next_round_def first_round_def dict_get_default_def)

text \<open>In every prefix a leg with orders left is at most one order behind any other.\<close>

lemma interleave_fair:
  assumes "own_queues own kqs" "k \<noteq> j"
  shows "min (length (dict_get_default kqs k []))
      (how_many (\<lambda>e. own e = j) (take n (interleave (map snd kqs))) - 1)
    \<le> how_many (\<lambda>e. own e = k) (take n (interleave (map snd kqs)))"
  using assms
proof (induction "sum_list (map length (map snd kqs))" arbitrary: kqs n rule: less_induct)
  case less
  let ?m = "\<lambda>k. how_many (\<lambda>e. own e = k)"
  let ?r = "concat (map (take 1) (map snd kqs))"
  show ?case
  proof (cases "list_all (\<lambda>q. q = []) (map snd kqs)")
    case True
    then show ?thesis by (simp add: interleave.simps [of "map snd kqs"])
  next
    case False
    define r where "r = ?r"
    define t where "t = interleave (map snd (next_round kqs))"
    have eq: "interleave (map snd kqs) = r @ t"
      unfolding r_def t_def rounds_snd by (subst interleave.simps) (simp add: False)
    have round: "?m i r = min 1 (length (dict_get_default kqs i []))" for i
      using how_many_own [OF rounds_own(2) [OF less.prems(1)], of i]
      by (simp add: r_def rounds_snd rounds_get)
    show ?thesis
    proof (cases "n \<le> length r")
      case True
      have "?m j (take n r) \<le> ?m j r" by (rule how_many_take)
      also have "\<dots> \<le> 1" unfolding round by simp
      finally show ?thesis using True by (simp add: eq)
    next
      case later: False
      have "sum_list (map length (map snd (next_round kqs))) < sum_list (map length (map snd kqs))"
        unfolding rounds_snd by (rule drop_one_less [OF False])
      from less.hyps [OF this rounds_own(1) [OF less.prems(1)] less.prems(2), of "n - length r"]
      have IH: "min (length (dict_get_default kqs k []) - 1) (?m j (take (n - length r) t) - 1)
        \<le> ?m k (take (n - length r) t)"
        by (simp add: rounds_get t_def)
      show ?thesis
        using IH later by (simp add: eq round) arith
    qed
  qed
qed

end
