(* ===== verification/Ladder_Executor.thy ===== *)
theory Ladder_Executor
  imports Wing_Chunks Rest_Executor
begin

text \<open>
  The armed maker executor of V3.3, \<open>v33/executor.py\<close>: a subclass of the V3.2 one, here a record
  around \<open>rest_exec\<close>. What it inherits is called on \<open>lx_rest\<close>; what it overrides is defined here: the
  writer that retries a throttled POST once, the paced create, amend and cancel, the pre-place check
  that allows up to \<open>k_rungs\<close> resting orders, the wing take in orders of at most \<open>wing_cap\<close> lots with
  the lots taken so far remembered per leg, the print-through completion and unwind, the batch
  create, the batched poll and the startup sweep. The clock of the pacer is a parameter: the two
  readings of its \<open>n\<close>-th write.
\<close>

section \<open>State\<close>

type_synonym wing_key = "nat \<times> string"

record ladder_venue =
  lv_venue :: rest_venue
  lv_clock :: "nat \<Rightarrow> time \<times> time"

record ladder_exec =
  lx_rest :: rest_exec
  lx_prefix :: string
  lx_k_rungs :: int
  lx_batch_max :: nat
  lx_wing_cap :: int
  lx_pacer :: pacer
  lx_writes :: nat
  lx_rate_limited :: nat
  lx_pending_price :: "money option"
  lx_wing_filled :: "(wing_key, lots) dict"
  lx_wing_notional :: "(wing_key, money) dict"
  lx_wing_seq :: nat
  lx_wing_chunks :: nat
  lx_stray_cancels :: nat
  lx_overflows :: nat
  lx_dup_prices :: nat
  lx_batch_creates :: nat
  lx_pt_takes :: nat
  lx_pt_fills :: lots
  lx_pt_unwinds :: nat
  lx_pt_shortfalls :: nat

definition V33_COID_PREFIX :: string where
  "V33_COID_PREFIX = ''v33-''"

definition V33E_COID_PREFIX :: string where
  "V33E_COID_PREFIX = ''v33e-''"

definition new_ladder_exec ::
  "rest_exec \<Rightarrow> string \<Rightarrow> int \<Rightarrow> int \<Rightarrow> int option \<Rightarrow> pacer \<Rightarrow> ladder_exec" where
  "new_ladder_exec base prefix k_rungs batch_create_max wing_cap p =
     \<lparr>lx_rest = base, lx_prefix = prefix, lx_k_rungs = k_rungs,
      lx_batch_max = nat (max 1 batch_create_max),
      lx_wing_cap = max 1 (case wing_cap of Some c \<Rightarrow> c | None \<Rightarrow> k_rungs),
      lx_pacer = p, lx_writes = 0, lx_rate_limited = 0, lx_pending_price = None,
      lx_wing_filled = [], lx_wing_notional = [], lx_wing_seq = 0, lx_wing_chunks = 0,
      lx_stray_cancels = 0, lx_overflows = 0, lx_dup_prices = 0, lx_batch_creates = 0,
      lx_pt_takes = 0, lx_pt_fills = 0, lx_pt_unwinds = 0, lx_pt_shortfalls = 0\<rparr>"

definition with_rest :: "(rest_exec \<Rightarrow> rest_exec) \<Rightarrow> ladder_exec \<Rightarrow> ladder_exec" where
  "with_rest f x = x\<lparr>lx_rest := f (lx_rest x)\<rparr>"

text \<open>An inherited operation, on the wrapped state.\<close>

definition inherit :: "(rest_exec \<Rightarrow> rest_exec \<times> 'a) \<Rightarrow> ladder_exec \<Rightarrow> ladder_exec \<times> 'a" where
  "inherit f x = (let (r, a) = f (lx_rest x) in (x\<lparr>lx_rest := r\<rparr>, a))"

section \<open>Pacing and the throttle belt\<close>

definition pace :: "ladder_venue \<Rightarrow> write_req \<Rightarrow> ladder_exec \<Rightarrow> ladder_exec" where
  "pace lv q x =
     (let (p, w) = acquire (lv_clock lv (lx_writes x)) q (lx_pacer x);
          x1 = x\<lparr>lx_pacer := p, lx_writes := lx_writes x + 1\<rparr>
      in if 0 < w then with_rest (note_rest ''write_paced'' None None \<circ> sleep_x w) x1 else x1)"

definition plain_write :: "rat \<Rightarrow> write_req" where
  "plain_write c = \<lparr>wq_cost = c, wq_priority = False, wq_fit = False\<rparr>"

definition urgent_write :: "rat \<Rightarrow> bool \<Rightarrow> write_req" where
  "urgent_write c fit = \<lparr>wq_cost = c, wq_priority = True, wq_fit = fit\<rparr>"

definition RATE_LIMIT_RETRY_WAIT_S :: time where
  "RATE_LIMIT_RETRY_WAIT_S = 1"

text \<open>The hint of a throttled reply: the first of its three keys that reads as a number.\<close>

definition retry_after_s :: "write_response \<Rightarrow> time option" where
  "retry_after_s resp =
     (let f = (\<lambda>k. map_option (max 0) (json_float (json_field (wr_body resp) k)))
      in or_else (f ''retry_after'') (or_else (f ''retry_after_s'') (f ''retry_after_seconds'')))"

definition estimate_wait :: "pacer \<Rightarrow> time" where
  "estimate_wait p =
     (if 0 < pc_rate p then max 0 ((COST_CREATE - pc_tokens p) / pc_rate p) else RATE_LIMIT_RETRY_WAIT_S)"

definition throttle_wait :: "write_response \<Rightarrow> pacer \<Rightarrow> time" where
  "throttle_wait resp p =
     (case retry_after_s resp of
        Some w \<Rightarrow> w
      | None \<Rightarrow> (if estimate_wait p = 0 then RATE_LIMIT_RETRY_WAIT_S else estimate_wait p))"

fun payload_coid :: "rest_payload \<Rightarrow> string option" where
  "payload_coid (Single b) = v2_client_order_id b"
| "payload_coid (Batch bs) = None"
| "payload_coid (Amend b) = ab_coid b"

definition belt_post ::
  "ladder_venue \<Rightarrow> string \<Rightarrow> rest_payload \<Rightarrow> ladder_exec \<Rightarrow> ladder_exec \<times> write_response" where
  "belt_post lv path payload x =
     (let (x1, resp) = inherit (rest_post (lv_venue lv) path payload) x in
      if wr_status resp \<noteq> Some 429 then (x1, resp)
      else
        (let w = throttle_wait resp (lx_pacer x1);
             x2 = with_rest (note_rest ''rate_limited'' None (payload_coid payload))
                    (x1\<lparr>lx_rate_limited := lx_rate_limited x1 + 1\<rparr>);
             x3 = (if 0 < w then with_rest (sleep_x w) x2 else x2)
         in inherit (rest_post (lv_venue lv) path payload) x3))"

text \<open>
  \<open>_reject_place\<close>: a place still throttled after the retry frees its slot and is not counted as a
  rejection in a row.
\<close>

definition reject33 ::
  "string \<Rightarrow> ticker \<Rightarrow> int option \<Rightarrow> bool \<Rightarrow> money option \<Rightarrow> time \<Rightarrow> ladder_exec \<Rightarrow>
     ladder_exec \<times> rest_event list" where
  "reject33 coid tk status unknown n now x =
     (if status = Some 429 \<and> \<not> unknown
      then (with_rest (\<lambda>r. note_rest ''rate_limited_reject'' None (Some coid)
                (bump ''rest_rate_limited'' (r\<lparr>rx_rests_rejected := rx_rests_rejected r + 1\<rparr>))) x,
            [slot_cleared (Some coid) now])
      else inherit (reject_place coid tk unknown n now) x)"

section \<open>The pre-place check\<close>

definition ladder_listing ::
  "ladder_venue \<Rightarrow> time \<Rightarrow> ladder_exec \<Rightarrow> ladder_exec \<times> resting_order list" where
  "ladder_listing lv now x =
     (let (x1, listed) = inherit (venue_resting_ours (lv_venue lv) (lx_prefix x)) x
      in case listed of None \<Rightarrow> (x1, []) | Some rs \<Rightarrow> inherit (filter_phantoms now rs) x1)"

definition resting_price :: "rest_exec \<Rightarrow> resting_order \<Rightarrow> money option" where
  "resting_price r o' = map_option rr_price (attribute r (Some (fst (snd o'))) (Some (fst o')))"

text \<open>Too many of ours, one of ours at this price, and those of ours the book does not know.\<close>

record place_verdict =
  pv_overflow :: bool
  pv_dup :: bool
  pv_strays :: "resting_order list"

definition invariant_verdict :: "ladder_exec \<Rightarrow> resting_order list \<Rightarrow> place_verdict" where
  "invariant_verdict x resting =
     \<lparr>pv_overflow = (lx_k_rungs x \<le> int (length resting)),
      pv_dup = (case lx_pending_price x of
                  None \<Rightarrow> False
                | Some p \<Rightarrow> p \<in> set (List.map_filter (resting_price (lx_rest x)) resting)),
      pv_strays = filter (\<lambda>o'. resting_price (lx_rest x) o' = None) resting\<rparr>"

definition verdict_clean :: "place_verdict \<Rightarrow> bool" where
  "verdict_clean pv \<longleftrightarrow> \<not> pv_overflow pv \<and> \<not> pv_dup pv \<and> pv_strays pv = []"

definition cancel_stray :: "ladder_venue \<Rightarrow> resting_order \<Rightarrow> ladder_exec \<Rightarrow> ladder_exec" where
  "cancel_stray lv o' x =
     (let (x1, wr) = inherit (rest_delete (lv_venue lv) (cancel_path (fst o') (snd (snd o'))))
                       (pace lv (urgent_write COST_CANCEL False) x)
      in with_rest (note_rest ''stray_cancel'' (Some (fst o')) (Some (fst (snd o')))) x1)"

definition strays_cancelled ::
  "ladder_venue \<Rightarrow> string \<Rightarrow> resting_order list \<Rightarrow> ladder_exec \<Rightarrow> ladder_exec" where
  "strays_cancelled lv coid strays x =
     (let x1 = fold (cancel_stray lv) strays x
      in with_rest (record_alarm ''rest_stray_cancelled'' None (Some coid) \<circ>
             note_rest ''rest_stray_cancelled'' None (Some coid) \<circ> bump ''rest_stray_cancelled'')
           (x1\<lparr>lx_stray_cancels := lx_stray_cancels x1 + length strays\<rparr>))"

definition place_violated ::
  "place_verdict \<Rightarrow> string \<Rightarrow> time \<Rightarrow> ladder_exec \<Rightarrow> ladder_exec \<times> rest_event list option" where
  "place_violated pv coid now x =
     (let x1 = x\<lparr>lx_overflows := lx_overflows x + (if pv_overflow pv then 1 else 0),
                 lx_dup_prices := lx_dup_prices x + (if pv_dup pv then 1 else 0)\<rparr>
      in (with_rest (\<lambda>r. latch_down ''rest_invariant_violation''
             (record_alarm ''rest_invariant_violation'' None (Some coid)
               (note_rest ''rest_invariant_violation'' None (Some coid)
                 (bump ''rest_invariant_violation''
                   (r\<lparr>rx_violations := rx_violations r + 1\<rparr>))))) x1,
          Some [slot_cleared (Some coid) now]))"

text \<open>The verdict on the second listing, read after a wait because the first one was flagged.\<close>

definition recheck_place ::
  "ladder_venue \<Rightarrow> string \<Rightarrow> time \<Rightarrow> ladder_exec \<Rightarrow> ladder_exec \<times> rest_event list option" where
  "recheck_place lv coid now x =
     (let (x1, rs) = ladder_listing lv now
            (with_rest (\<lambda>r. sleep_x INVARIANT_RECHECK_S
               (bump ''rest_invariant_recheck'' (r\<lparr>rx_rechecks := rx_rechecks r + 1\<rparr>))) x);
          pv = invariant_verdict x1 rs
      in if rs = [] \<or> verdict_clean pv then (x1, None)
         else if pv_strays pv \<noteq> [] \<and> \<not> pv_overflow pv \<and> \<not> pv_dup pv
         then (strays_cancelled lv coid (pv_strays pv) x1, None)
         else place_violated pv coid now x1)"

definition pre_place33 ::
  "ladder_venue \<Rightarrow> string \<Rightarrow> time \<Rightarrow> ladder_exec \<Rightarrow> ladder_exec \<times> rest_event list option" where
  "pre_place33 lv coid now x =
     (let (x1, rs) = ladder_listing lv now x
      in if rs = [] \<or> verdict_clean (invariant_verdict x1 rs) then (x1, None)
         else recheck_place lv coid now x1)"

section \<open>Place, amend, cancel\<close>

definition send_place33 ::
  "ladder_venue \<Rightarrow> v32_action \<Rightarrow> string \<Rightarrow> int \<Rightarrow> v2_order \<Rightarrow> time \<Rightarrow> ladder_exec \<Rightarrow>
     ladder_exec \<times> rest_event list" where
  "send_place33 lv a coid exch body now x =
     (let tk = or_default [] (a_ticker a);
          (x1, resp) = belt_post lv REL_SINGLE_CREATE (Single body)
                         (with_rest (note_rest ''place_rest'' None (Some coid)) x);
          x2 = with_rest (\<lambda>r. bump ''rest_post'' (r\<lparr>rx_rests_placed := rx_rests_placed r + 1\<rparr>)) x1
      in if \<not> wr_ok resp
         then reject33 coid tk (wr_status resp) (unknown_outcome resp) (a_price a) now x2
         else
           (let p = parse_no_response resp in
            case (or_error p, or_order_id p) of
              (None, Some oid) \<Rightarrow> inherit (placed a coid oid exch (or_fill_count p) now) x2
            | _ \<Rightarrow> reject33 coid tk (wr_status resp) False None now x2))"

definition place_rest33 ::
  "ladder_venue \<Rightarrow> v32_action \<Rightarrow> time \<Rightarrow> ladder_exec \<Rightarrow> wire_error + ladder_exec \<times> rest_event list" where
  "place_rest33 lv a now x =
     (let coid = or_default [] (a_coid a); tk = or_default [] (a_ticker a);
          x1 = pace lv (plain_write COST_CREATE) x
      in case exch_of (lx_rest x1) tk of
           None \<Rightarrow> Inr (reject33 coid tk None False None now x1)
         | Some exch \<Rightarrow>
             (let (x2, violation) = pre_place33 lv coid now x1 in
              case violation of
                Some evs \<Rightarrow> Inr (x2, evs)
              | None \<Rightarrow>
                  bind_r (rest_body (lx_rest x2) a coid exch) (\<lambda>body.
                  Inr (send_place33 lv a coid exch body now x2))))"

definition cancel_rest33 ::
  "ladder_venue \<Rightarrow> v32_action \<Rightarrow> time \<Rightarrow> ladder_exec \<Rightarrow> ladder_exec \<times> rest_event list" where
  "cancel_rest33 lv a now x =
     inherit (cancel_rest (lv_venue lv) a now) (pace lv (urgent_write COST_CANCEL False) x)"

definition send_amend33 ::
  "ladder_venue \<Rightarrow> v32_action \<Rightarrow> rest_record option \<Rightarrow> string \<Rightarrow> string option \<Rightarrow> string option \<Rightarrow> ticker \<Rightarrow>
     int option \<Rightarrow> time \<Rightarrow> ladder_exec \<Rightarrow> ladder_exec \<times> rest_event list" where
  "send_amend33 lv a rec oid coid_old coid_new tk exch now x =
     (let (x1, resp) = belt_post lv (amend_path oid exch)
                         (Amend (amend_body_of a exch coid_old coid_new))
                         (with_rest (note_rest ''amend_rest'' (Some oid) coid_old) x);
          x2 = with_rest (bump ''amend_post'') x1
      in if \<not> wr_ok resp then
           inherit (amend_fallback (lv_venue lv) rec (Some oid) exch coid_old now)
             (with_rest (\<lambda>r. note_rest ''amend_failed'' (Some oid) coid_old
                (r\<lparr>rx_amends_failed := rx_amends_failed r + 1\<rparr>)) x2)
         else inherit (amend_landed a rec coid_old (or_default [] coid_new) oid tk exch
                (parse_no_response resp) now) x2)"

definition amend_rest33 ::
  "ladder_venue \<Rightarrow> v32_action \<Rightarrow> time \<Rightarrow> ladder_exec \<Rightarrow> ladder_exec \<times> rest_event list" where
  "amend_rest33 lv a now x0 =
     (let x = pace lv (plain_write COST_AMEND) x0;
          coid_old = a_coid a;
          coid_new = (case a_updated_coid a of
                        Some c \<Rightarrow> if c = [] then coid_old else Some c | None \<Rightarrow> coid_old);
          rec = (case coid_old of
                   None \<Rightarrow> None | Some c \<Rightarrow> if c = [] then None else map_of (rx_book (lx_rest x)) c);
          oid = or_else (a_order_id a) (case rec of None \<Rightarrow> None | Some r \<Rightarrow> rr_order_id r);
          tk = (case a_ticker a of
                  Some t \<Rightarrow> if t = [] then (case rec of Some r \<Rightarrow> rr_ticker r | None \<Rightarrow> []) else t
                | None \<Rightarrow> (case rec of Some r \<Rightarrow> rr_ticker r | None \<Rightarrow> []));
          exch = or_else (case rec of None \<Rightarrow> None | Some r \<Rightarrow> rr_exchange_index r)
                   (exch_of (lx_rest x) tk);
          x1 = with_rest (\<lambda>r. r\<lparr>rx_amends_attempted := rx_amends_attempted r + 1\<rparr>) x
      in case oid of
           None \<Rightarrow>
             inherit (amend_fallback (lv_venue lv) rec None exch coid_old now)
               (with_rest (\<lambda>r. note_rest ''amend_failed'' None coid_old
                  (r\<lparr>rx_amends_failed := rx_amends_failed r + 1\<rparr>)) x1)
         | Some i \<Rightarrow> send_amend33 lv a rec i coid_old coid_new tk exch now x1)"

section \<open>Taker orders\<close>

definition mint_wing_coid :: "ladder_exec \<Rightarrow> ladder_exec \<times> string" where
  "mint_wing_coid x =
     (x\<lparr>lx_wing_seq := lx_wing_seq x + 1\<rparr>, lx_prefix x @ ''wc-'' @ show_nat (lx_wing_seq x + 1))"

definition count_body_str :: "lots \<Rightarrow> string" where
  "count_body_str q = fixed_text 2 (round_half_even (q * 100))"

text \<open>
  One IOC taker order (\<open>_wing_chunk_entry\<close>, \<open>_pt_taker_entry\<close>): the count exact to the hundredth,
  the price to the ten-thousandth in YES space.
\<close>

definition taker_entry ::
  "ticker \<Rightarrow> string \<Rightarrow> string \<Rightarrow> lots \<Rightarrow> money \<Rightarrow> int \<Rightarrow> string \<Rightarrow> wire_error + v2_order" where
  "taker_entry tk side act q limit exch coid =
     bind_r (to_v2_order
       \<lparr>lg_ticker = tk, lg_side = side, lg_action = Some act,
        lg_yes_price = (if side = ''yes'' then Some (rest_cents limit) else None),
        lg_no_price = (if side = ''yes'' then None else Some (rest_cents limit)),
        lg_count = py_trunc q, lg_tif = Some ''immediate_or_cancel'',
        lg_stp = Some ''taker_at_cross'', lg_post_only = None, lg_client_order_id = coid,
        lg_pass = [(''exchange_index'', JInt exch)]\<rparr>) (\<lambda>body.
     Inr (body\<lparr>v2_count := count_body_str q,
               v2_price := fixed_text 4 (round_half_even
                 ((if side = ''yes'' then limit else 1 - limit) * 10000))\<rparr>))"

text \<open>Orders of one market under fresh client ids, one per count.\<close>

fun taker_entries ::
  "ticker \<Rightarrow> string \<Rightarrow> string \<Rightarrow> money \<Rightarrow> int \<Rightarrow> lots list \<Rightarrow> ladder_exec \<Rightarrow>
     wire_error + ladder_exec \<times> (string \<times> v2_order) list" where
  "taker_entries tk side act limit exch [] x = Inr (x, [])"
| "taker_entries tk side act limit exch (q # qs) x =
     (let (x1, c) = mint_wing_coid x in
      bind_r (taker_entry tk side act q limit exch c) (\<lambda>b.
      bind_r (taker_entries tk side act limit exch qs x1) (\<lambda>(x2, es). Inr (x2, (c, b) # es))))"

text \<open>One order goes out on the single create path, several as a batch.\<close>

definition post_orders ::
  "ladder_venue \<Rightarrow> v2_order list \<Rightarrow> ladder_exec \<Rightarrow> ladder_exec \<times> write_response" where
  "post_orders lv bodies x =
     (case bodies of
        [b] \<Rightarrow> belt_post lv REL_SINGLE_CREATE (Single b) x
      | _ \<Rightarrow> belt_post lv REL_BATCH_CREATE (Batch bodies) x)"

text \<open>The parsed slots of an accepted POST; a single order's price is read in its own side.\<close>

definition parse_as :: "string \<Rightarrow> json \<Rightarrow> order_response" where
  "parse_as side body =
     (case parse_single_response body (Some side) of
        Inr p \<Rightarrow> p | Inl _ \<Rightarrow> no_fill_response None ''bad_side'')"

definition parsed_orders :: "string \<Rightarrow> nat \<Rightarrow> write_response \<Rightarrow> order_response list" where
  "parsed_orders side n resp =
     (if \<not> wr_ok resp then []
      else if n = 1 then [parse_as side (JObj (wr_body resp))]
      else parse_batch_response (JObj (wr_body resp)))"

text \<open>A slot that filled: its lots and the price in \<open>side\<close>, the limit when none is reported.\<close>

definition slot_filled :: "order_response \<Rightarrow> bool" where
  "slot_filled r \<longleftrightarrow> or_error r = None \<and> 0 < or_fill_count r"

definition slot_price :: "string \<Rightarrow> money \<Rightarrow> order_response \<Rightarrow> money" where
  "slot_price side limit r =
     (case normalize_fill_to_side r side of
        Inr p \<Rightarrow> or_default limit (or_average_fill_price p) | Inl _ \<Rightarrow> limit)"

end
