(* ===== verification/Ladder_Takes.thy ===== *)
theory Ladder_Takes
  imports Ladder_Executor V33_Types
begin

text \<open>
  The takers and the bulk calls of the ladder executor (\<open>v33/executor.py\<close>): the wing take in orders
  of at most \<open>wing_cap\<close> lots sent as paced sub-batches, its fills aggregated back to one event per
  leg, the completion and the unwind of a print-through, the batch create, the batched poll, the
  dispatcher and the startup sweep.
\<close>

section \<open>Actions\<close>

text \<open>What the inherited paths read of an action.\<close>

definition order_view :: "v33_action \<Rightarrow> v32_action" where
  "order_view a =
     (blank_action (case y_kind a of Inherited k \<Rightarrow> k | _ \<Rightarrow> STAND_DOWN))
       \<lparr>a_ticker := y_ticker a, a_side := y_side a, a_action := y_action a, a_count := y_count a,
        a_price := y_price a, a_expiration_epoch := y_expiration_epoch a, a_coid := y_coid a,
        a_order_id := y_order_id a, a_updated_coid := y_updated_coid a\<rparr>"

section \<open>Wing takes\<close>

text \<open>One order of a wing take: its client id, the leg it belongs to, its body.\<close>

record wing_chunk =
  wk_coid :: string
  wk_key :: wing_key
  wk_body :: v2_order

definition wing_key_of :: "leg33 \<Rightarrow> wing_key" where
  "wing_key_of l = (wl_batch l, wl_side l)"

definition taken_lots :: "ladder_exec \<Rightarrow> wing_key \<Rightarrow> lots" where
  "taken_lots x k = dict_get_default (lx_wing_filled x) k 0"

definition own_chunks :: "wing_key \<Rightarrow> (string \<times> v2_order) list \<Rightarrow> wing_chunk list" where
  "own_chunks k es = map (\<lambda>(c, b). \<lparr>wk_coid = c, wk_key = k, wk_body = b\<rparr>) es"

definition own_wings :: "(string \<times> v2_order) list \<Rightarrow> ladder_exec \<Rightarrow> ladder_exec" where
  "own_wings es = with_rest (\<lambda>r. r\<lparr>rx_wing_coids := fold List.insert (map fst es) (rx_wing_coids r)\<rparr>)"

text \<open>The legs in order, each cut into orders for the lots it still needs.\<close>

fun cut_legs :: "leg33 list \<Rightarrow> ladder_exec \<Rightarrow> wire_error + ladder_exec \<times> wing_chunk list" where
  "cut_legs [] x = Inr (x, [])"
| "cut_legs (l # ls) x =
     (case exch_of (lx_rest x) (wl_ticker l) of
        None \<Rightarrow> cut_legs ls (with_rest (record_alarm ''wing_no_exchange_index'' None None) x)
      | Some exch \<Rightarrow>
          (let remaining = wl_count l - taken_lots x (wing_key_of l) in
           if remaining \<le> 0 then cut_legs ls x
           else
             bind_r (taker_entries (wl_ticker l) (wl_side l) ''buy'' (wl_limit l) exch
                       (chunk_counts (of_int (lx_wing_cap x)) remaining) x) (\<lambda>(x1, es).
             bind_r (cut_legs ls (own_wings es x1)) (\<lambda>(x2, cs).
             Inr (x2, own_chunks (wing_key_of l) es @ cs)))))"

text \<open>
  The sub-batches in order: the first is served at once, each later one waits until it fits the
  bucket. The result is the parsed slots and the client ids of the sub-batches that failed.
\<close>

fun send_sub_batches ::
  "ladder_venue \<Rightarrow> bool \<Rightarrow> wing_chunk list list \<Rightarrow> ladder_exec \<Rightarrow>
     ladder_exec \<times> order_response list \<times> string list" where
  "send_sub_batches lv fit [] x = (x, [], [])"
| "send_sub_batches lv fit (b # bs) x =
     (let x1 = pace lv (urgent_write (COST_CREATE * of_nat (length b)) fit) x;
          x2 = with_rest (\<lambda>r. note_rest ''take_wings'' None None
                 (bump ''wing_batch'' (r\<lparr>rx_wing_batches := rx_wing_batches r + 1\<rparr>)))
                 (x1\<lparr>lx_wing_chunks := lx_wing_chunks x1 + length b\<rparr>);
          (x3, resp) = post_orders lv (map wk_body b) x2;
          (x4, ps, failed) = send_sub_batches lv True bs x3
      in (x4, parsed_orders (case b of c # _ \<Rightarrow> snd (wk_key c) | [] \<Rightarrow> []) (length b) resp @ ps,
          (if wr_ok resp then [] else map wk_coid b) @ failed))"

definition leg_named :: "leg33 list \<Rightarrow> wing_key \<Rightarrow> leg33 option" where
  "leg_named ls k = find (\<lambda>l. wing_key_of l = k) (rev ls)"

definition chunk_slot :: "order_response list \<Rightarrow> string list \<Rightarrow> string \<Rightarrow> order_response option" where
  "chunk_slot parsed failed c =
     (case find (\<lambda>r. or_client_order_id r = Some c) (rev parsed) of
        Some r \<Rightarrow> if c \<in> set failed \<or> \<not> slot_filled r then None else Some r
      | None \<Rightarrow> None)"

definition chunk_capture :: "leg33 \<Rightarrow> order_response \<Rightarrow> money \<Rightarrow> string \<Rightarrow> fill_capture" where
  "chunk_capture l r price c =
     \<lparr>fc_leg = ''wing'', fc_side = wl_side l, fc_ticker = wl_ticker l, fc_price = price,
      fc_fee = or_average_fee_paid r, fc_count = or_fill_count r, fc_path = ''wing_chunk'', fc_coid = c\<rparr>"

text \<open>The fills of the orders, added up per leg: lots, and price times lots.\<close>

type_synonym leg_tally = "(wing_key, lots \<times> money) dict"

definition tally_add :: "wing_key \<Rightarrow> lots \<Rightarrow> money \<Rightarrow> leg_tally \<Rightarrow> leg_tally" where
  "tally_add k q price t =
     (let old = dict_get_default t k (0, 0) in AList.update k (fst old + q, snd old + price * q) t)"

fun count_chunks ::
  "leg33 list \<Rightarrow> order_response list \<Rightarrow> string list \<Rightarrow> wing_chunk list \<Rightarrow> leg_tally \<Rightarrow> ladder_exec \<Rightarrow>
     ladder_exec \<times> leg_tally" where
  "count_chunks ls parsed failed [] t x = (x, t)"
| "count_chunks ls parsed failed (c # cs) t x =
     (case (chunk_slot parsed failed (wk_coid c), leg_named ls (wk_key c)) of
        (Some r, Some l) \<Rightarrow>
          (let price = slot_price (snd (wk_key c)) (wl_limit l) r;
               x1 = with_rest (\<lambda>y. bump ''wing_fill''
                      (y\<lparr>rx_fills := rx_fills y @ [chunk_capture l r price (wk_coid c)]\<rparr>)) x
           in count_chunks ls parsed failed cs (tally_add (wk_key c) (or_fill_count r) price t) x1)
      | _ \<Rightarrow> count_chunks ls parsed failed cs t x)"

definition leg_event :: "leg33 \<Rightarrow> lots \<Rightarrow> money \<Rightarrow> time \<Rightarrow> rest_event" where
  "leg_event l q price now =
     E_Fill \<lparr>fi_order_id = None, fi_coid = wl_coid l, fi_count = q, fi_price = price,
             fi_side = wl_side l, fi_server_ts = now\<rparr>"

text \<open>
  One event per leg: all its lots at their average price over every take so far once they are
  bought, else none.
\<close>

definition report_leg :: "leg_tally \<Rightarrow> time \<Rightarrow> leg33 \<Rightarrow> ladder_exec \<Rightarrow> ladder_exec \<times> rest_event" where
  "report_leg t now l x =
     (let k = wing_key_of l; got = dict_get_default t k (0, 0);
          q = taken_lots x k + fst got;
          m = dict_get_default (lx_wing_notional x) k 0 + snd got;
          x1 = x\<lparr>lx_wing_filled := AList.update k q (lx_wing_filled x),
                 lx_wing_notional := AList.update k m (lx_wing_notional x)\<rparr>
      in (x1, if wl_count l \<le> q \<and> 0 < fst got
              then leg_event l q (if q = 0 then wl_limit l else m / q) now
              else leg_event l 0 (wl_limit l) now))"

fun report_legs :: "leg_tally \<Rightarrow> time \<Rightarrow> leg33 list \<Rightarrow> ladder_exec \<Rightarrow> ladder_exec \<times> rest_event list" where
  "report_legs t now [] x = (x, [])"
| "report_legs t now (l # ls) x =
     (let (x1, e) = report_leg t now l x; (x2, es) = report_legs t now ls x1 in (x2, e # es))"

definition pending_legs :: "leg33 list \<Rightarrow> leg33 list" where
  "pending_legs ls = filter (\<lambda>l. wl_status l = Pending) ls"

definition unrouted_events ::
  "leg33 list \<Rightarrow> wing_chunk list \<Rightarrow> time \<Rightarrow> ladder_exec \<Rightarrow> rest_event list" where
  "unrouted_events ls chunks now x =
     map (\<lambda>l. leg_event l 0 (wl_limit l) now)
       (filter (\<lambda>l. wing_key_of l \<notin> wk_key ` set chunks \<and> exch_of (lx_rest x) (wl_ticker l) = None) ls)"

definition wing_sub_batches :: "ladder_exec \<Rightarrow> wing_chunk list \<Rightarrow> wing_chunk list list" where
  "wing_sub_batches x chunks =
     split_wing_batches (map (\<lambda>c. (wk_key c, c)) chunks) (wing_batch_max_orders (pc_size (lx_pacer x)))"

definition take_wings33 ::
  "ladder_venue \<Rightarrow> leg33 list \<Rightarrow> time \<Rightarrow> ladder_exec \<Rightarrow> wire_error + ladder_exec \<times> rest_event list" where
  "take_wings33 lv legs now x =
     (let pending = pending_legs legs in
      bind_r (cut_legs pending x) (\<lambda>(x1, chunks).
        (let unrouted = unrouted_events pending chunks now x1 in
         if chunks = [] then Inr (x1, unrouted)
         else
           (let (x2, parsed, failed) = send_sub_batches lv False (wing_sub_batches x1 chunks) x1;
                (x3, t) = count_chunks pending parsed failed chunks [] x2;
                (x4, evs) = report_legs t now pending x3
            in Inr (x4, unrouted @ evs)))))"

section \<open>Print-through: complete or unwind\<close>

definition filled_slots :: "order_response list \<Rightarrow> order_response list" where
  "filled_slots = filter slot_filled"

definition slots_lots :: "order_response list \<Rightarrow> lots" where
  "slots_lots rs = sum_list (map or_fill_count (filled_slots rs))"

definition slots_notional :: "string \<Rightarrow> money \<Rightarrow> order_response list \<Rightarrow> money" where
  "slots_notional side limit rs =
     sum_list (map (\<lambda>r. slot_price side limit r * or_fill_count r) (filled_slots rs))"

definition pt_fill :: "string option \<Rightarrow> lots \<Rightarrow> money \<Rightarrow> time \<Rightarrow> rest_event list" where
  "pt_fill coid q price now =
     (case coid of
        None \<Rightarrow> []
      | Some c \<Rightarrow>
          if c = [] then []
          else [E_Fill \<lparr>fi_order_id = None, fi_coid = c, fi_count = q, fi_price = price,
                        fi_side = BUY_NO, fi_server_ts = now\<rparr>])"

definition pt_short :: "lots \<Rightarrow> lots \<Rightarrow> ladder_exec \<Rightarrow> ladder_exec" where
  "pt_short want got x =
     (if got < want
      then with_rest (note_rest ''print_through_complete_short'' None None \<circ>
             record_alarm ''print_through_complete_short'' None None \<circ> bump ''pt_bucket_no_short'') x
      else x)"

text \<open>The bump of the lots bought is the counter \<open>lx_pt_fills\<close>.\<close>

definition pt_buy ::
  "ladder_venue \<Rightarrow> string option \<Rightarrow> (string \<times> v2_order) list \<Rightarrow> lots \<Rightarrow> money \<Rightarrow> time \<Rightarrow> ladder_exec \<Rightarrow>
     ladder_exec \<times> rest_event list" where
  "pt_buy lv coid es want limit now x =
     (let x1 = pace lv (urgent_write (COST_CREATE * of_nat (length es)) False) x;
          x2 = with_rest (note_rest ''print_through_complete'' None None \<circ> bump ''pt_bucket_no_take'')
                 (x1\<lparr>lx_pt_takes := lx_pt_takes x1 + 1\<rparr>);
          (x3, resp) = post_orders lv (map snd es) x2;
          rs = parsed_orders BUY_NO (length es) resp;
          got = slots_lots rs;
          x4 = x3\<lparr>lx_pt_fills := lx_pt_fills x3 + got\<rparr>
      in (pt_short want got x4,
          pt_fill coid got (if got = 0 then limit else slots_notional BUY_NO limit rs / got) now))"

definition take_bucket_no ::
  "ladder_venue \<Rightarrow> v33_action \<Rightarrow> time \<Rightarrow> ladder_exec \<Rightarrow> wire_error + ladder_exec \<times> rest_event list" where
  "take_bucket_no lv a now x =
     (let tk = (case y_legs a of
                  l # _ \<Rightarrow> leg_order33.lg_ticker l | [] \<Rightarrow> or_default [] (y_ticker a));
          limit = (case y_legs a of l # _ \<Rightarrow> lg_limit l | [] \<Rightarrow> y_price a);
          want = (if y_count a \<noteq> 0 then y_count a
                  else (case y_legs a of l # _ \<Rightarrow> leg_order33.lg_count l | [] \<Rightarrow> 0))
      in case (exch_of (lx_rest x) tk, limit) of
           (Some exch, Some p) \<Rightarrow>
             if want \<le> 0
             then Inr (with_rest (record_alarm ''print_through_complete_unrouted'' None None) x,
                       pt_fill (y_coid a) 0 p now)
             else
               bind_r (taker_entries tk BUY_NO ''buy'' p exch
                         (chunk_counts (of_int (lx_wing_cap x)) want) x) (\<lambda>(x1, es).
               Inr (pt_buy lv (y_coid a) es want p now x1))
         | _ \<Rightarrow> Inr (with_rest (record_alarm ''print_through_complete_unrouted'' None None) x,
                    pt_fill (y_coid a) 0 (or_default 0 limit) now))"

text \<open>
  The legs sold back in order, with the lots meant to be sold; a leg without a limit cannot be
  priced (\<open>Decimal(None)\<close>).
\<close>

fun unwind_entries ::
  "leg_order33 list \<Rightarrow> ladder_exec \<Rightarrow> wire_error + ladder_exec \<times> (string \<times> v2_order) list \<times> lots" where
  "unwind_entries [] x = Inr (x, [], 0)"
| "unwind_entries (l # ls) x =
     (case exch_of (lx_rest x) (leg_order33.lg_ticker l) of
        None \<Rightarrow> unwind_entries ls (with_rest (record_alarm ''print_through_unwind_unrouted'' None None) x)
      | Some exch \<Rightarrow>
          if leg_order33.lg_count l \<le> 0
          then unwind_entries ls (with_rest (record_alarm ''print_through_unwind_unrouted'' None None) x)
          else
            (case lg_limit l of
               None \<Rightarrow> Inl (Key_Missing ''limit'')
             | Some p \<Rightarrow>
                 bind_r (taker_entries (leg_order33.lg_ticker l) (leg_order33.lg_side l) ''sell'' p exch
                           (chunk_counts (of_int (lx_wing_cap x)) (leg_order33.lg_count l)) x) (\<lambda>(x1, es).
                 bind_r (unwind_entries ls x1) (\<lambda>(x2, fs, want).
                 Inr (x2, es @ fs, leg_order33.lg_count l + want)))))"

definition unwind_settled :: "lots \<Rightarrow> lots \<Rightarrow> ladder_exec \<Rightarrow> ladder_exec" where
  "unwind_settled want sold x =
     (if sold < want
      then with_rest (latch_down ''print_through_unwind_short'' \<circ>
             note_rest ''print_through_unwind_short'' None None \<circ>
             record_alarm ''print_through_unwind_short'' None None \<circ> bump ''pt_unwind_short'')
             (x\<lparr>lx_pt_shortfalls := lx_pt_shortfalls x + 1\<rparr>)
      else x)"

definition pt_sell :: "ladder_venue \<Rightarrow> (string \<times> v2_order) list \<Rightarrow> lots \<Rightarrow> ladder_exec \<Rightarrow> ladder_exec" where
  "pt_sell lv es want x =
     (let x1 = pace lv (urgent_write (COST_CREATE * of_nat (length es)) False) x;
          x2 = with_rest (note_rest ''print_through_unwind'' None None \<circ> bump ''pt_unwind'')
                 (x1\<lparr>lx_pt_unwinds := lx_pt_unwinds x1 + 1\<rparr>);
          (x3, resp) = post_orders lv (map snd es) x2
      in unwind_settled want (slots_lots (parsed_orders BUY_NO (length es) resp)) x3)"

definition unwind_wings ::
  "ladder_venue \<Rightarrow> v33_action \<Rightarrow> ladder_exec \<Rightarrow> wire_error + ladder_exec \<times> rest_event list" where
  "unwind_wings lv a x =
     bind_r (unwind_entries (y_legs a) x) (\<lambda>(x1, es, want).
     Inr (if es = [] then x1 else pt_sell lv es want x1, []))"

section \<open>The dispatcher\<close>

datatype ladder_fault = Twin_Action v33_kind | Unbuildable wire_error

definition on_action33 ::
  "ladder_venue \<Rightarrow> v33_action \<Rightarrow> leg33 list \<Rightarrow> time \<Rightarrow> ladder_exec \<Rightarrow>
     ladder_fault + ladder_exec \<times> rest_event list" where
  "on_action33 lv a legs now x =
     (let lift = (\<lambda>res. case res of Inl e \<Rightarrow> Inl (Unbuildable e) | Inr r \<Rightarrow> Inr r) in
      case y_kind a of
        WOULD_TAKE_BUCKET_NO \<Rightarrow> Inl (Twin_Action WOULD_TAKE_BUCKET_NO)
      | WOULD_UNWIND_WINGS \<Rightarrow> Inl (Twin_Action WOULD_UNWIND_WINGS)
      | TAKE_BUCKET_NO \<Rightarrow> lift (take_bucket_no lv a now x)
      | UNWIND_WINGS \<Rightarrow> lift (unwind_wings lv a x)
      | Inherited k \<Rightarrow>
          (case k of
             PLACE_REST \<Rightarrow> lift (place_rest33 lv (order_view a) now (x\<lparr>lx_pending_price := y_price a\<rparr>))
           | CANCEL_REST \<Rightarrow> Inr (cancel_rest33 lv (order_view a) now x)
           | AMEND_REST \<Rightarrow> Inr (amend_rest33 lv (order_view a) now x)
           | TAKE_WINGS \<Rightarrow> lift (take_wings33 lv legs now x)
           | RETRY_WING \<Rightarrow> lift (take_wings33 lv legs now x)
           | WOULD_PLACE_REST \<Rightarrow> Inl (Twin_Action (Inherited WOULD_PLACE_REST))
           | WOULD_CANCEL_REST \<Rightarrow> Inl (Twin_Action (Inherited WOULD_CANCEL_REST))
           | WOULD_AMEND_REST \<Rightarrow> Inl (Twin_Action (Inherited WOULD_AMEND_REST))
           | WOULD_TAKE_WINGS \<Rightarrow> Inl (Twin_Action (Inherited WOULD_TAKE_WINGS))
           | _ \<Rightarrow> Inr (x, []))
      | _ \<Rightarrow> Inr (x, []))"

section \<open>Batch create\<close>

text \<open>The members that pass the pre-place check, with their bodies; the events of the others.\<close>

fun chunk_members ::
  "ladder_venue \<Rightarrow> v32_action list \<Rightarrow> time \<Rightarrow> ladder_exec \<Rightarrow>
     wire_error + ladder_exec \<times> (string \<times> v32_action \<times> v2_order) list \<times> rest_event list" where
  "chunk_members lv [] now x = Inr (x, [], [])"
| "chunk_members lv (a # as) now x =
     (let coid = or_default [] (a_coid a); tk = or_default [] (a_ticker a) in
      case exch_of (lx_rest x) tk of
        None \<Rightarrow>
          (let (x1, evs) = reject33 coid tk None False None now x in
           bind_r (chunk_members lv as now x1) (\<lambda>(x2, ms, es). Inr (x2, ms, evs @ es)))
      | Some exch \<Rightarrow>
          (let (x1, violation) = pre_place33 lv coid now (x\<lparr>lx_pending_price := a_price a\<rparr>) in
           case violation of
             Some evs \<Rightarrow> bind_r (chunk_members lv as now x1) (\<lambda>(x2, ms, es). Inr (x2, ms, evs @ es))
           | None \<Rightarrow>
               bind_r (rest_body (lx_rest x1) a coid exch) (\<lambda>b.
               bind_r (chunk_members lv as now (with_rest (note_rest ''place_rest'' None (Some coid)) x1))
                 (\<lambda>(x2, ms, es). Inr (x2, (coid, a, b) # ms, es)))))"

definition batch_slot :: "order_response list \<Rightarrow> string \<Rightarrow> order_response option" where
  "batch_slot parsed c =
     (if c = [] then None else find (\<lambda>r. or_client_order_id r = Some c) (rev parsed))"

text \<open>A member's outcome; a failed POST rejects it cleanly, whatever the status.\<close>

definition place_member ::
  "write_response \<Rightarrow> order_response list \<Rightarrow> time \<Rightarrow> string \<times> v32_action \<Rightarrow> ladder_exec \<Rightarrow>
     ladder_exec \<times> rest_event list" where
  "place_member resp parsed now m x =
     (let c = fst m; a = snd m; tk = or_default [] (a_ticker a);
          rejected = reject33 c tk (wr_status resp) False None now x
      in if \<not> wr_ok resp then rejected
         else (case batch_slot parsed c of
                 None \<Rightarrow> rejected
               | Some p \<Rightarrow>
                   (case (or_error p, or_order_id p) of
                      (None, Some oid) \<Rightarrow>
                        (let r0 = lx_rest x;
                             rec = (live_record r0 a c oid 0 now)
                                     \<lparr>rr_exchange_index := exch_of r0 tk\<rparr>;
                             r1 = put_rec rec r0;
                             r2 = bump ''rest_acked''
                                    (r1\<lparr>rx_by_order_id := AList.update oid c (rx_by_order_id r1),
                                        rx_rests_placed := rx_rests_placed r1 + 1,
                                        rx_consecutive_rejects := 0\<rparr>)
                         in (x\<lparr>lx_rest := r2\<rparr>,
                             E_Ack \<lparr>oa_coid = c, oa_order_id = oid, oa_server_ts = now\<rparr> #
                             (if 0 < or_fill_count p
                              then [E_Fill \<lparr>fi_order_id = Some oid, fi_coid = c,
                                            fi_count = or_fill_count p,
                                            fi_price = or_default 0 (a_price a), fi_side = ''no'',
                                            fi_server_ts = now\<rparr>] else [])))
                    | _ \<Rightarrow> rejected)))"

fun place_members ::
  "write_response \<Rightarrow> order_response list \<Rightarrow> time \<Rightarrow> (string, v32_action) dict \<Rightarrow> ladder_exec \<Rightarrow>
     ladder_exec \<times> rest_event list" where
  "place_members resp parsed now [] x = (x, [])"
| "place_members resp parsed now (m # ms) x =
     (let (x1, e) = place_member resp parsed now m x; (x2, es) = place_members resp parsed now ms x1
      in (x2, e @ es))"

definition place_one_chunk ::
  "ladder_venue \<Rightarrow> v32_action list \<Rightarrow> time \<Rightarrow> ladder_exec \<Rightarrow> wire_error + ladder_exec \<times> rest_event list" where
  "place_one_chunk lv as now x =
     bind_r (chunk_members lv as now x) (\<lambda>(x1, ms, evs).
     (if ms = [] then Inr (x1, evs)
      else
        (let x2 = pace lv (plain_write (COST_CREATE * of_nat (length ms))) x1;
             x3 = with_rest (bump ''rest_batch_post'') (x2\<lparr>lx_batch_creates := lx_batch_creates x2 + 1\<rparr>);
             (x4, resp) = post_orders lv (map (snd \<circ> snd) ms) x3;
             by_coid = fold (\<lambda>(c, a, b). AList.update c a) ms [];
             (x5, es) = place_members resp (parsed_orders BUY_NO (length ms) resp) now by_coid x4
         in Inr (x5, evs @ es))))"

fun place_chunks ::
  "ladder_venue \<Rightarrow> v32_action list list \<Rightarrow> time \<Rightarrow> ladder_exec \<Rightarrow> wire_error + ladder_exec \<times> rest_event list" where
  "place_chunks lv [] now x = Inr (x, [])"
| "place_chunks lv (as # ass) now x =
     bind_r (place_one_chunk lv as now x) (\<lambda>(x1, evs).
     bind_r (place_chunks lv ass now x1) (\<lambda>(x2, es). Inr (x2, evs @ es)))"

definition place_batch ::
  "ladder_venue \<Rightarrow> v33_action list \<Rightarrow> time \<Rightarrow> ladder_exec \<Rightarrow> wire_error + ladder_exec \<times> rest_event list" where
  "place_batch lv as now x = place_chunks lv (cut_every (lx_batch_max x) (map order_view as)) now x"

section \<open>The batched poll\<close>

definition polled_fill :: "(string \<times> json) list \<Rightarrow> lots" where
  "polled_fill kvs =
     (case json_field kvs ''fill_count_fp'' of
        JNull \<Rightarrow> (case json_field kvs ''fill_count'' of JNull \<Rightarrow> 0 | v \<Rightarrow> or_default 0 (to_decimal v))
      | v \<Rightarrow> or_default 0 (to_decimal v))"

fun polled_orders :: "string \<Rightarrow> json list \<Rightarrow> (string, lots) dict \<Rightarrow> (string, lots) dict" where
  "polled_orders prefix [] d = d"
| "polled_orders prefix (e # es) d =
     (case e of
        JObj kvs \<Rightarrow>
          (case json_text (json_field kvs ''order_id'') of
             Some i \<Rightarrow>
               if starts_with prefix (or_default [] (json_text (json_field kvs ''client_order_id'')))
               then polled_orders prefix es (AList.update i (polled_fill kvs) d)
               else polled_orders prefix es d
           | None \<Rightarrow> polled_orders prefix es d)
      | _ \<Rightarrow> polled_orders prefix es d)"

definition poll_orders_for_bucket ::
  "ladder_venue \<Rightarrow> ticker \<Rightarrow> ladder_exec \<Rightarrow> ladder_exec \<times> (string, lots) dict" where
  "poll_orders_for_bucket lv tk x =
     (let (x1, body) = inherit (rest_get (lv_venue lv) (OPEN_ORDERS_PATH @ ''?ticker='' @ tk)) x
      in (x1, case body of
                Some (JObj kvs) \<Rightarrow>
                  (case map_of kvs ''orders'' of
                     Some (JList es) \<Rightarrow> polled_orders (lx_prefix x) es [] | _ \<Rightarrow> [])
              | _ \<Rightarrow> []))"

section \<open>The startup sweep\<close>

record sweep33 =
  sp_found :: nat
  sp_cancelled :: nat
  sp_errors :: nat
  sp_skipped :: nat

definition sweep_one33 ::
  "rest_venue \<Rightarrow> string \<Rightarrow> string \<Rightarrow> (string \<times> json) list \<Rightarrow> rest_exec \<Rightarrow> sweep33 \<Rightarrow> rest_exec \<times> sweep33" where
  "sweep_one33 v tk_prefix prefix kvs x res =
     (let oid = or_default [] (json_text (json_field kvs ''order_id''));
          coid = or_default [] (json_text (json_field kvs ''client_order_id'')) in
      if \<not> starts_with tk_prefix (sweep_ticker kvs) \<or> oid = [] then (x, res)
      else if \<not> (coid \<noteq> [] \<and> starts_with prefix coid)
      then (note_rest ''startup_skip_foreign_order'' (Some oid) (Some coid) x,
            res\<lparr>sp_skipped := sp_skipped res + 1\<rparr>)
      else
        (let (x1, wr) = rest_delete v (cancel_path oid (json_int (json_field kvs ''exchange_index''))) x;
             res1 = res\<lparr>sp_found := sp_found res + 1\<rparr>;
             res2 = (if wr_ok wr \<or> wr_status wr = Some 404
                     then res1\<lparr>sp_cancelled := sp_cancelled res1 + 1\<rparr>
                     else res1\<lparr>sp_errors := sp_errors res1 + 1\<rparr>)
         in (note_rest ''startup_cancel'' (Some oid) None x1, res2)))"

fun sweep_orders33 ::
  "rest_venue \<Rightarrow> string \<Rightarrow> string \<Rightarrow> json list \<Rightarrow> rest_exec \<Rightarrow> sweep33 \<Rightarrow> rest_exec \<times> sweep33" where
  "sweep_orders33 v tk_prefix prefix [] x res = (x, res)"
| "sweep_orders33 v tk_prefix prefix (e # es) x res =
     (case e of
        JObj kvs \<Rightarrow>
          (let (x1, r1) = sweep_one33 v tk_prefix prefix kvs x res
           in sweep_orders33 v tk_prefix prefix es x1 r1)
      | _ \<Rightarrow> sweep_orders33 v tk_prefix prefix es x res)"

definition cancel_stale_open_orders33 ::
  "rest_venue \<Rightarrow> string \<Rightarrow> string \<Rightarrow> rest_exec \<Rightarrow> rest_exec \<times> sweep33" where
  "cancel_stale_open_orders33 v tk_prefix prefix x =
     (let (x1, body) = rest_get v (OPEN_ORDERS_PATH @ ''?status=resting'') x;
          res = \<lparr>sp_found = 0, sp_cancelled = 0, sp_errors = 0, sp_skipped = 0\<rparr>
      in case body of
           None \<Rightarrow> (note_rest ''startup_open_orders_read_failed'' None None x1, res)
         | Some (JObj kvs) \<Rightarrow>
             (case map_of kvs ''orders'' of
                Some (JList es) \<Rightarrow>
                  (let (x2, r2) = sweep_orders33 v tk_prefix prefix es x1 res
                   in (note_rest ''startup_cancel_sweep'' None None x2, r2))
              | _ \<Rightarrow> (x1, res))
         | Some _ \<Rightarrow> (x1, res))"

end
