(* ===== verification/Ladder_Law.thy ===== *)
theory Ladder_Law
  imports Ladder_Takes Rest_Place
begin

text \<open>
  What the ladder executor keeps. Its operations are made of the updates of the inherited one, so a
  predicate closed under those (\<open>quiet_law\<close>, \<open>sending_law\<close>, \<open>rest_law\<close>) holds after each of them; and the lots taken
  per leg and the money captured for wings change only in a wing take.
\<close>

section \<open>The inherited part\<close>

lemma with_rest_fields [simp]:
  "lx_rest (with_rest f x) = f (lx_rest x)" "lx_prefix (with_rest f x) = lx_prefix x"
  "lx_k_rungs (with_rest f x) = lx_k_rungs x" "lx_wing_cap (with_rest f x) = lx_wing_cap x"
  "lx_pacer (with_rest f x) = lx_pacer x" "lx_pending_price (with_rest f x) = lx_pending_price x"
  "lx_wing_filled (with_rest f x) = lx_wing_filled x" "lx_wing_seq (with_rest f x) = lx_wing_seq x"
  "lx_wing_notional (with_rest f x) = lx_wing_notional x"
  "lx_batch_max (with_rest f x) = lx_batch_max x"
  by (simp_all add: with_rest_def)

lemma inherit_fields [simp]:
  "lx_rest (fst (inherit f x)) = fst (f (lx_rest x))" "snd (inherit f x) = snd (f (lx_rest x))"
  "lx_prefix (fst (inherit f x)) = lx_prefix x" "lx_k_rungs (fst (inherit f x)) = lx_k_rungs x"
  "lx_wing_cap (fst (inherit f x)) = lx_wing_cap x" "lx_pacer (fst (inherit f x)) = lx_pacer x"
  "lx_pending_price (fst (inherit f x)) = lx_pending_price x"
  "lx_wing_filled (fst (inherit f x)) = lx_wing_filled x"
  "lx_wing_notional (fst (inherit f x)) = lx_wing_notional x"
  "lx_wing_seq (fst (inherit f x)) = lx_wing_seq x"
  "lx_batch_max (fst (inherit f x)) = lx_batch_max x"
  by (simp_all add: inherit_def split_beta)

context quiet_law begin

lemma keep_pace [intro!]: "P (lx_rest x) \<Longrightarrow> P (lx_rest (pace lv q x))"
  by (auto simp: pace_def split_beta Let_def)

lemma keep_ladder_listing [intro!]:
  "P (lx_rest x) \<Longrightarrow> P (lx_rest (fst (ladder_listing lv now x)))"
  by (auto simp: ladder_listing_def split_beta Let_def split: option.split)

lemma keep_cancel_stray: "P (lx_rest x) \<Longrightarrow> P (lx_rest (cancel_stray lv o' x))"
  unfolding cancel_stray_def split_beta Let_def by (simp add: keep_note keep_delete keep_pace)

lemma keep_stray_fold: "P (lx_rest x) \<Longrightarrow> P (lx_rest (fold (cancel_stray lv) os x))"
  by (induction os arbitrary: x) (simp_all add: keep_cancel_stray)

lemma keep_strays_cancelled [intro!]:
  "P (lx_rest x) \<Longrightarrow> P (lx_rest (strays_cancelled lv c os x))"
  unfolding strays_cancelled_def Let_def by (simp add: keep_alarm keep_note keep_stray_fold)

lemma keep_violated [intro!]: "P (lx_rest x) \<Longrightarrow> P (lx_rest (fst (place_violated pv c now x)))"
  unfolding place_violated_def Let_def by (simp add: keep_latch keep_alarm keep_note)

lemma keep_recheck [intro!]: "P (lx_rest x) \<Longrightarrow> P (lx_rest (fst (recheck_place lv c now x)))"
  unfolding recheck_place_def split_beta Let_def
  by (simp add: keep_ladder_listing keep_strays_cancelled keep_violated)

lemma keep_pre_place33 [intro!]: "P (lx_rest x) \<Longrightarrow> P (lx_rest (fst (pre_place33 lv c now x)))"
  unfolding pre_place33_def split_beta Let_def by (simp add: keep_ladder_listing keep_recheck)

lemma keep_reject33 [intro!]: "P (lx_rest x) \<Longrightarrow> P (lx_rest (fst (reject33 c t s u n now x)))"
  by (simp add: reject33_def keep_note keep_reject)

lemma keep_cancel33 [intro!]: "P (lx_rest x) \<Longrightarrow> P (lx_rest (fst (cancel_rest33 lv a now x)))"
  by (simp add: cancel_rest33_def keep_cancel keep_pace)

lemma keep_mint [simp]: "P (lx_rest (fst (mint_wing_coid x))) = P (lx_rest x)"
  by (simp add: mint_wing_coid_def)

lemma keep_taker_entries:
  "taker_entries tk side act p e qs x = Inr (y, es) \<Longrightarrow> P (lx_rest x) \<Longrightarrow> P (lx_rest y)"
  by (induction qs arbitrary: x es) (fastforce simp: split_beta Let_def bind_r_Inr_iff)+

lemma keep_cut_legs: "cut_legs ls x = Inr (y, cs) \<Longrightarrow> P (lx_rest x) \<Longrightarrow> P (lx_rest y)"
proof (induction ls arbitrary: x cs)
  case (Cons l ls)
  have own: "P (lx_rest y) \<Longrightarrow> P (lx_rest (own_wings es y))" for es y by (simp add: own_wings_def)
  show ?case
    using Cons
    by (auto simp: Let_def bind_r_Inr_iff keep_alarm own keep_taker_entries split: option.splits if_splits)
qed simp

lemma keep_report_legs: "P (lx_rest x) \<Longrightarrow> P (lx_rest (fst (report_legs t now ls x)))"
  by (induction ls arbitrary: x) (simp_all add: split_beta Let_def report_leg_def)

lemma keep_chunk_members:
  "chunk_members lv as now x = Inr (y, ms, es) \<Longrightarrow> P (lx_rest x) \<Longrightarrow> P (lx_rest y)"
proof (induction as arbitrary: x ms es)
  case (Cons a as)
  show ?case
    using Cons
    by (auto simp: Let_def split_beta bind_r_Inr_iff rest_body_exact keep_note keep_reject33
        keep_pre_place33 split: option.splits)
qed simp

lemma keep_place_member: "P (lx_rest x) \<Longrightarrow> P (lx_rest (fst (place_member r ps now m x)))"
proof -
  assume x: "P (lx_rest x)"
  have named: "P ((put_rec r' y)\<lparr>rx_by_order_id := AList.update i c (rx_by_order_id (put_rec r' y))\<rparr>)"
    if "P y" "rr_coid r' = c" for r' y i c
    using names [OF put [OF that(1)], of r' c i] that(2) by (simp add: put_rec_def)
  show ?thesis
    using x by (auto simp: place_member_def Let_def live_record_def intro!: named split: option.split)
qed

lemma keep_place_members: "P (lx_rest x) \<Longrightarrow> P (lx_rest (fst (place_members r ps now ms x)))"
  by (induction ms arbitrary: x) (simp_all add: split_beta Let_def keep_place_member)

lemma keep_poll33: "P (lx_rest x) \<Longrightarrow> P (lx_rest (fst (poll_orders_for_bucket lv tk x)))"
  by (simp add: poll_orders_for_bucket_def split_beta Let_def keep_get)

lemma keep_sweep_orders33: "P x \<Longrightarrow> P (fst (sweep_orders33 v tp p es x r))"
proof (induction es arbitrary: x r)
  case (Cons e es)
  have "P (fst (sweep_one33 v tp p kvs x r))" for kvs
    using Cons.prems by (auto simp: sweep_one33_def Let_def split_beta)
  with Cons show ?case by (simp add: split_beta Let_def split: json.split)
qed simp

lemma keep_startup33: "P x \<Longrightarrow> P (fst (cancel_stale_open_orders33 v tp p x))"
  unfolding cancel_stale_open_orders33_def Let_def split_beta
  by (auto intro!: keep_sweep_orders33 split: option.split json.split)

end

context sending_law begin

lemma keep_belt [intro!]: "P (lx_rest x) \<Longrightarrow> P (lx_rest (fst (belt_post lv p b x)))"
  unfolding belt_post_def split_beta Let_def by (simp add: keep_post keep_note)

lemma keep_post_orders [intro!]: "P (lx_rest x) \<Longrightarrow> P (lx_rest (fst (post_orders lv bs x)))"
  by (auto simp: post_orders_def split: list.split)

lemma keep_send_place33: "P (lx_rest x) \<Longrightarrow> P (lx_rest (fst (send_place33 lv a c e b now x)))"
  unfolding send_place33_def split_beta Let_def
  by (simp add: keep_belt keep_note keep_reject33 keep_placed split: option.split)

lemma keep_place33: "place_rest33 lv a now x = Inr res \<Longrightarrow> P (lx_rest x) \<Longrightarrow> P (lx_rest (fst res))"
  by (auto simp: place_rest33_def Let_def split_beta rest_body_exact intro!: keep_send_place33
      split: option.splits)

lemma keep_amend33: "P (lx_rest x) \<Longrightarrow> P (lx_rest (fst (amend_rest33 lv a now x)))"
  unfolding amend_rest33_def send_amend33_def split_beta Let_def
  by (simp add: keep_fallback keep_note keep_landed keep_belt keep_pace split: option.split)

lemma keep_sub_batches:
  "P (lx_rest x) \<Longrightarrow> P (lx_rest (fst (send_sub_batches lv fit bs x)))"
proof (induction bs arbitrary: fit x)
  case (Cons b bs)
  have "P (lx_rest (y\<lparr>lx_wing_chunks := n\<rparr>)) = P (lx_rest y)" for y n by simp
  with Cons show ?case
    by (simp add: split_beta Let_def keep_post_orders keep_note keep_pace)
qed simp

lemma keep_take_bucket_no:
  "take_bucket_no lv a now x = Inr res \<Longrightarrow> P (lx_rest x) \<Longrightarrow> P (lx_rest (fst res))"
proof -
  have buy: "P (lx_rest y) \<Longrightarrow> P (lx_rest (fst (pt_buy lv c es w l now y)))" for c es w l y
    unfolding pt_buy_def pt_short_def split_beta Let_def
    by (simp add: keep_post_orders keep_note keep_alarm keep_pace)
  show "take_bucket_no lv a now x = Inr res \<Longrightarrow> P (lx_rest x) \<Longrightarrow> P (lx_rest (fst res))"
    unfolding take_bucket_no_def Let_def split_beta
    by (auto simp: bind_r_Inr_iff keep_alarm buy dest: keep_taker_entries split: option.splits if_splits)
qed

lemma keep_unwind_entries:
  "unwind_entries ls x = Inr (y, es, w) \<Longrightarrow> P (lx_rest x) \<Longrightarrow> P (lx_rest y)"
proof (induction ls arbitrary: x es w)
  case (Cons l ls)
  show ?case
    using Cons
    by (auto simp: bind_r_Inr_iff keep_alarm keep_taker_entries split: option.splits if_splits)
qed simp

lemma keep_unwind: "unwind_wings lv a x = Inr res \<Longrightarrow> P (lx_rest x) \<Longrightarrow> P (lx_rest (fst res))"
proof -
  have sell: "P (lx_rest y) \<Longrightarrow> P (lx_rest (pt_sell lv es w y))" for es w y
    unfolding pt_sell_def unwind_settled_def split_beta Let_def
    by (simp add: keep_post_orders keep_note keep_alarm keep_latch keep_pace)
  show "unwind_wings lv a x = Inr res \<Longrightarrow> P (lx_rest x) \<Longrightarrow> P (lx_rest (fst res))"
    by (auto simp: unwind_wings_def bind_r_Inr_iff sell dest: keep_unwind_entries)
qed

lemma keep_one_chunk: "place_one_chunk lv as now x = Inr res \<Longrightarrow> P (lx_rest x) \<Longrightarrow> P (lx_rest (fst res))"
  unfolding place_one_chunk_def Let_def split_beta
  by (auto simp: bind_r_Inr_iff keep_place_members keep_post_orders keep_pace
      dest: keep_chunk_members split: if_splits)

lemma keep_place_chunks:
  "place_chunks lv ass now x = Inr (y, es) \<Longrightarrow> P (lx_rest x) \<Longrightarrow> P (lx_rest y)"
  by (induction ass arbitrary: x es) (fastforce simp: bind_r_Inr_iff dest: keep_one_chunk)+

end

context rest_law begin

lemma keep_count_chunks:
  "P (lx_rest x) \<Longrightarrow> P (lx_rest (fst (count_chunks ls ps fs cs t x)))"
  by (induction cs arbitrary: t x)
    (simp_all add: Let_def winged chunk_capture_def split: option.split)

lemma keep_wings33:
  assumes "take_wings33 lv ls now x = Inr res" "P (lx_rest x)" shows "P (lx_rest (fst res))"
proof -
  obtain x1 chunks where cut: "cut_legs (pending_legs ls) x = Inr (x1, chunks)"
    using assms(1) by (auto simp: take_wings33_def Let_def bind_r_Inr_iff)
  have x1: "P (lx_rest x1)" by (rule keep_cut_legs [OF cut assms(2)])
  define sent where "sent = send_sub_batches lv False (wing_sub_batches x1 chunks) x1"
  have "P (lx_rest (fst sent))" unfolding sent_def by (rule keep_sub_batches [OF x1])
  with x1 show ?thesis
    using assms(1) cut
    by (auto simp: take_wings33_def Let_def sent_def [symmetric] split_beta
        intro!: keep_report_legs keep_count_chunks split: if_splits)
qed

lemma keep_action33: "on_action33 lv a ls now x = Inr res \<Longrightarrow> P (lx_rest x) \<Longrightarrow> P (lx_rest (fst res))"
proof (cases "y_kind a")
  case (Inherited k)
  then show "on_action33 lv a ls now x = Inr res \<Longrightarrow> P (lx_rest x) \<Longrightarrow> P (lx_rest (fst res))"
    by (cases k) (auto simp: on_action33_def Let_def keep_wings33 keep_cancel33 keep_amend33
      dest: keep_place33 split: sum.splits)
qed (auto simp: on_action33_def Let_def keep_take_bucket_no keep_unwind split: sum.splits)

end

end
