(* ===== verification/Ladder_Orders.thy ===== *)
theory Ladder_Orders
  imports Ladder_Law
begin

text \<open>
  The orders of a wing take and what their replies can report: each leg's orders carry exactly the
  lots it still needs under client ids of their own, they go out in POSTs that fit the bucket, and
  against a venue that fills an order at most to its count no order reports more.
\<close>

section \<open>The orders of the legs\<close>

definition needed_lots :: "ladder_exec \<Rightarrow> leg33 \<Rightarrow> lots" where
  "needed_lots x l = wl_count l - taken_lots x (wing_key_of l)"

definition leg_routed :: "ladder_exec \<Rightarrow> leg33 \<Rightarrow> bool" where
  "leg_routed x l \<longleftrightarrow> exch_of (lx_rest x) (wl_ticker l) \<noteq> None"

definition leg_chunks :: "ladder_exec \<Rightarrow> leg33 \<Rightarrow> lots list" where
  "leg_chunks x l =
     (if leg_routed x l \<and> 0 < needed_lots x l
      then chunk_counts (of_int (lx_wing_cap x)) (needed_lots x l) else [])"

text \<open>From \<open>x\<close> to \<open>y\<close> only \<open>n\<close> client ids were minted and the inherited state may have changed.\<close>

definition minted :: "nat \<Rightarrow> ladder_exec \<Rightarrow> ladder_exec \<Rightarrow> bool" where
  "minted n x y \<longleftrightarrow>
     lx_wing_seq y = lx_wing_seq x + n \<and> lx_prefix y = lx_prefix x \<and> lx_k_rungs y = lx_k_rungs x \<and>
     lx_wing_cap y = lx_wing_cap x \<and> lx_wing_filled y = lx_wing_filled x \<and> lx_wing_notional y = lx_wing_notional x \<and>
     lx_pacer y = lx_pacer x \<and> exch_of (lx_rest y) = exch_of (lx_rest x) \<and>
     rx_fills (lx_rest y) = rx_fills (lx_rest x) \<and> posts (lx_rest y) = posts (lx_rest x)"

lemma minted_trans: "minted m x y \<Longrightarrow> minted n y z \<Longrightarrow> minted (m + n) x z"
  by (simp add: minted_def)

lemma minted_leg [simp]:
  assumes "minted n x y"
  shows "needed_lots y l = needed_lots x l" "leg_routed y l = leg_routed x l"
    "leg_chunks y l = leg_chunks x l" "taken_lots y k = taken_lots x k"
  using assms by (simp_all add: needed_lots_def leg_routed_def leg_chunks_def taken_lots_def minted_def)

definition nth_coid :: "ladder_exec \<Rightarrow> nat \<Rightarrow> string" where
  "nth_coid x n = lx_prefix x @ ''wc-'' @ show_nat (lx_wing_seq x + n + 1)"

lemma nth_coid_inj: "nth_coid x m = nth_coid x n \<longleftrightarrow> m = n"
  by (simp add: nth_coid_def show_nat_inj)

lemma minted_coid: "minted m x y \<Longrightarrow> nth_coid y n = nth_coid x (m + n)"
  by (simp add: nth_coid_def minted_def add.assoc)

lemma coids_append:
  "map (nth_coid x) [0..<m] @ map (\<lambda>n. nth_coid x (m + n)) [0..<n] = map (nth_coid x) [0..<m + n]"
  by (induction n) simp_all

text \<open>An order's client id is its own and its count is the text of its lots.\<close>

definition order_for :: "string \<Rightarrow> lots \<Rightarrow> v2_order \<Rightarrow> bool" where
  "order_for c q b \<longleftrightarrow> v2_client_order_id b = Some c \<and> v2_count b = count_body_str q"

text \<open>The body of a taker order, by side.\<close>

definition taker_body :: "ticker \<Rightarrow> string \<Rightarrow> money \<Rightarrow> lots \<Rightarrow> int \<Rightarrow> string \<Rightarrow> v2_order" where
  "taker_body tk book_side yes_price q exch c =
     \<lparr>v2_ticker = tk, v2_side = book_side, v2_count = count_body_str q,
      v2_price = fixed_text 4 (round_half_even (yes_price * 10000)), v2_tif = ''immediate_or_cancel'',
      v2_stp = ''taker_at_cross'', v2_post_only = None,
      v2_client_order_id = (if c \<noteq> [] then Some c else None),
      v2_pass = [(''exchange_index'', JInt exch)]\<rparr>"

lemma taker_entry_exact [code]:
  "taker_entry tk side act q p exch c =
     (if act \<noteq> ''buy'' \<and> act \<noteq> ''sell'' then Inl (Bad_Action act)
      else if side = ''yes''
      then Inr (taker_body tk (if act = ''sell'' then ''ask'' else ''bid'') p q exch c)
      else if side = ''no''
      then Inr (taker_body tk (if act = ''sell'' then ''bid'' else ''ask'') (1 - p) q exch c)
      else Inl (Bad_Side side))"
  by (simp add: taker_entry_def to_v2_order_def yes_level_def taker_body_def bind_r_def
      or_default_def passthrough_keys_def List.map_filter_simps)

lemma taker_entry_order:
  assumes "taker_entry tk side act q p e c = Inr b" "c \<noteq> []" shows "order_for c q b"
  using assms
  by (auto simp: taker_entry_exact taker_body_def order_for_def split: if_splits)

lemma mint_minted: "minted 1 x (fst (mint_wing_coid x))" "snd (mint_wing_coid x) = nth_coid x 0"
  by (simp_all add: mint_wing_coid_def minted_def nth_coid_def)

lemma nth_coid_named [simp]: "nth_coid x n \<noteq> []"
  by (simp add: nth_coid_def)

lemma taker_entries_Cons:
  assumes "taker_entries tk side act p e (q # qs) x = Inr (y, es)"
  obtains b es' where "order_for (nth_coid x 0) q b"
    "taker_entries tk side act p e qs (fst (mint_wing_coid x)) = Inr (y, es')"
    "es = (nth_coid x 0, b) # es'"
proof -
  obtain b es' where "taker_entry tk side act q p e (nth_coid x 0) = Inr b"
    "taker_entries tk side act p e qs (fst (mint_wing_coid x)) = Inr (y, es')"
    "es = (nth_coid x 0, b) # es'"
    using assms by (auto simp: split_beta Let_def bind_r_Inr_iff mint_minted(2))
  then show thesis by (intro that [OF taker_entry_order [OF _ nth_coid_named]])
qed

lemma taker_entries_minted:
  "taker_entries tk side act p e qs x = Inr (y, es) \<Longrightarrow> minted (length qs) x y"
proof (induction qs arbitrary: x es)
  case (Cons q qs)
  from Cons.prems obtain es' where
    "taker_entries tk side act p e qs (fst (mint_wing_coid x)) = Inr (y, es')"
    by (rule taker_entries_Cons)
  from minted_trans [OF mint_minted(1) Cons.IH [OF this]] show ?case by simp
qed (simp add: minted_def)

lemma taker_entries_coids:
  "taker_entries tk side act p e qs x = Inr (y, es) \<Longrightarrow> map fst es = map (nth_coid x) [0..<length qs]"
proof (induction qs arbitrary: x es)
  case (Cons q qs)
  from Cons.prems obtain b es' where
    "taker_entries tk side act p e qs (fst (mint_wing_coid x)) = Inr (y, es')"
    and es: "es = (nth_coid x 0, b) # es'"
    by (rule taker_entries_Cons)
  from Cons.IH [OF this(1)] minted_coid [OF mint_minted(1), of x]
  have "map fst es = map (nth_coid x) [0..<1] @ map (\<lambda>n. nth_coid x (1 + n)) [0..<length qs]"
    by (simp add: es)
  then show ?case unfolding coids_append by simp
qed simp

lemma taker_entries_orders:
  "taker_entries tk side act p e qs x = Inr (y, es) \<Longrightarrow> list_all2 (\<lambda>q (c, b). order_for c q b) qs es"
proof (induction qs arbitrary: x es)
  case (Cons q qs)
  from Cons.prems obtain b es' where "order_for (nth_coid x 0) q b"
    and rest: "taker_entries tk side act p e qs (fst (mint_wing_coid x)) = Inr (y, es')"
    and "es = (nth_coid x 0, b) # es'"
    by (rule taker_entries_Cons)
  with Cons.IH [OF rest] show ?case by simp
qed simp

text \<open>The orders of a key, in order, and their lots.\<close>

definition chunks_for :: "wing_key \<Rightarrow> wing_chunk list \<Rightarrow> wing_chunk list" where
  "chunks_for k cs = filter (\<lambda>c. wk_key c = k) cs"

definition chunk_order :: "lots \<Rightarrow> wing_chunk \<Rightarrow> bool" where
  "chunk_order q c \<longleftrightarrow> order_for (wk_coid c) q (wk_body c)"

lemma chunks_for_own:
  "chunks_for k (own_chunks j es @ cs) = (if k = j then own_chunks j es else []) @ chunks_for k cs"
  by (auto simp: chunks_for_def own_chunks_def filter_empty_conv)
    (induction es; simp add: split_beta)+

lemma own_chunks_orders:
  "list_all2 (\<lambda>q (c, b). order_for c q b) qs es \<Longrightarrow> list_all2 chunk_order qs (own_chunks k es)"
  by (simp add: own_chunks_def list_all2_conv_all_nth split_beta chunk_order_def)

lemma minted_own: "minted n x (own_wings es y) = minted n x y"
  by (simp add: minted_def own_wings_def exch_of_def fun_eq_iff posts_def)

lemma minted_alarm: "minted 0 x (with_rest (record_alarm k None None) x)"
  by (simp add: minted_def exch_of_def fun_eq_iff record_alarm_def note_rest_def bump_def posts_def)

lemma cut_legs_orders:
  assumes "cut_legs ls x = Inr (y, cs)"
  shows "minted (length cs) x y" "map wk_coid cs = map (nth_coid x) [0..<length cs]"
    "wk_key ` set cs \<subseteq> wing_key_of ` set ls"
    "distinct (map wing_key_of ls) \<Longrightarrow> l \<in> set ls \<Longrightarrow>
       list_all2 chunk_order (leg_chunks x l) (chunks_for (wing_key_of l) cs)"
  using assms
proof (induction ls arbitrary: x cs)
  case Nil
  { case 1 then show ?case by (simp add: minted_def) next case 2 then show ?case by simp
  next case 3 then show ?case by simp next case 4 then show ?case by simp }
next
  case (Cons m ls)
  have step: "\<exists>es cs' x'. cut_legs ls x' = Inr (y, cs') \<and> cs = own_chunks (wing_key_of m) es @ cs' \<and>
      minted (length es) x x' \<and> map fst es = map (nth_coid x) [0..<length es] \<and>
      list_all2 (\<lambda>q (c, b). order_for c q b) (leg_chunks x m) es"
    if cut: "cut_legs (m # ls) x = Inr (y, cs)" for x cs
  proof (cases "leg_chunks x m = [] \<and> \<not> (leg_routed x m \<and> 0 < needed_lots x m)")
    case True
    then have "\<exists>x'. cut_legs ls x' = Inr (y, cs) \<and> minted 0 x x'"
      using cut minted_alarm [of x "''wing_no_exchange_index''"]
      by (auto simp: leg_routed_def needed_lots_def Let_def minted_def split: option.splits if_splits)
    with True show ?thesis
      by (auto simp: own_chunks_def intro: exI [of _ "[]"])
  next
    case False
    then obtain e where e: "exch_of (lx_rest x) (wl_ticker m) = Some e"
      and pos: "0 < needed_lots x m"
      by (auto simp: leg_chunks_def leg_routed_def split: if_splits)
    then have chunks: "leg_chunks x m = chunk_counts (of_int (lx_wing_cap x)) (needed_lots x m)"
      by (simp add: leg_chunks_def leg_routed_def)
    obtain x1 es cs' where es: "taker_entries (wl_ticker m) (wl_side m) ''buy'' (wl_limit m) e
        (leg_chunks x m) x = Inr (x1, es)"
      and rest: "cut_legs ls (own_wings es x1) = Inr (y, cs')"
      and cs: "cs = own_chunks (wing_key_of m) es @ cs'"
      using cut e pos chunks
      by (auto simp: Let_def bind_r_Inr_iff needed_lots_def)
    note o = taker_entries_minted [OF es] taker_entries_coids [OF es] taker_entries_orders [OF es]
    have "length es = length (leg_chunks x m)" using o(3) by (auto dest: list_all2_lengthD)
    with o rest cs show ?thesis
      by (intro exI [of _ es] exI [of _ cs'] exI [of _ "own_wings es x1"]) (simp add: minted_own)
  qed
  { case 1
    then obtain es cs' x' where s: "cut_legs ls x' = Inr (y, cs')" "minted (length es) x x'"
      "cs = own_chunks (wing_key_of m) es @ cs'" using step [OF 1] by blast
    from minted_trans [OF s(2) Cons.IH(1) [OF s(1)]] show ?case by (simp add: s(3) own_chunks_def)
  next
    case 2
    then obtain es cs' x' where s: "cut_legs ls x' = Inr (y, cs')" "minted (length es) x x'"
      "cs = own_chunks (wing_key_of m) es @ cs'" "map fst es = map (nth_coid x) [0..<length es]"
      using step [OF 2] by blast
    have "map wk_coid (own_chunks (wing_key_of m) es) = map fst es"
      by (simp add: own_chunks_def comp_def split_beta)
    then show ?case
      using Cons.IH(2) [OF s(1)] s(4) coids_append [of x "length es" "length cs'"]
      by (simp add: s(3) minted_coid [OF s(2)] own_chunks_def)
  next
    case 3
    then obtain es cs' x' where s: "cut_legs ls x' = Inr (y, cs')"
      "cs = own_chunks (wing_key_of m) es @ cs'" using step [OF 3] by blast
    have "wk_key ` set (own_chunks (wing_key_of m) es) \<subseteq> {wing_key_of m}"
      by (auto simp: own_chunks_def)
    with Cons.IH(3) [OF s(1)] show ?case by (auto simp: s(2))
  next
    case 4
    then obtain es cs' x' where s: "cut_legs ls x' = Inr (y, cs')" "minted (length es) x x'"
      "cs = own_chunks (wing_key_of m) es @ cs'"
      "list_all2 (\<lambda>q (c, b). order_for c q b) (leg_chunks x m) es" using step [OF 4(3)] by blast
    have fresh: "wing_key_of m \<notin> wing_key_of ` set ls" and d: "distinct (map wing_key_of ls)"
      using 4 by auto
    show ?case
    proof (cases "l = m")
      case True
      have "chunks_for (wing_key_of m) cs' = []"
        unfolding chunks_for_def filter_empty_conv
        using Cons.IH(3) [OF s(1)] fresh by (metis imageI subsetD)
      with True own_chunks_orders [OF s(4)] show ?thesis by (simp add: s(3) chunks_for_own)
    next
      case False
      with 4 have l: "l \<in> set ls" by simp
      then have "wing_key_of l \<noteq> wing_key_of m" using fresh by (metis imageI)
      with Cons.IH(4) [OF d l s(1)] s(2) show ?thesis by (simp add: s(3) chunks_for_own)
    qed }
qed

section \<open>What the replies can report\<close>

fun payload_orders :: "rest_payload \<Rightarrow> v2_order list" where
  "payload_orders (Single b) = [b]"
| "payload_orders (Batch bs) = bs"
| "payload_orders (Amend b) = []"

text \<open>
  The venue's law for taker orders: a slot of the reply that names a client id names an order of the
  POST and reports a number of hundredths of a lot, at most that order's count.
\<close>

definition fills_within :: "rest_venue \<Rightarrow> bool" where
  "fills_within v \<longleftrightarrow>
     (\<forall>n path body side. \<forall>r \<in> set (parsed_orders side (length (payload_orders body))
                                  (classify_reply (hv_post v n path body))).
        \<forall>c. or_client_order_id r = Some c \<longrightarrow>
          (\<exists>b \<in> set (payload_orders body). v2_client_order_id b = Some c \<and>
             (\<exists>q. parse_decimal (v2_count b) = Some q \<and> or_fill_count r \<le> q) \<and>
             whole_cent (or_fill_count r)))"

lemma fills_withinD:
  assumes "fills_within v" "r \<in> set (parsed_orders side (length (payload_orders body))
      (classify_reply (hv_post v n path body)))" "or_client_order_id r = Some c"
  obtains b q where "b \<in> set (payload_orders body)" "v2_client_order_id b = Some c"
    "parse_decimal (v2_count b) = Some q" "or_fill_count r \<le> q" "whole_cent (or_fill_count r)"
  using assms unfolding fills_within_def by blast

lemma belt_reply:
  "\<exists>n. snd (belt_post lv path body x) = classify_reply (hv_post (lv_venue lv) n path body)"
  by (auto simp: belt_post_def inherit_def rest_post_def split_beta Let_def)

lemma post_orders_reply:
  assumes "bs \<noteq> []"
  shows "\<exists>n path body. payload_orders body = bs \<and>
    snd (post_orders lv bs x) = classify_reply (hv_post (lv_venue lv) n path body)"
proof (cases "\<exists>b. bs = [b]")
  case True
  then obtain b where b: "bs = [b]" by blast
  with belt_reply [of lv REL_SINGLE_CREATE "Single b" x] show ?thesis
    by (auto simp: post_orders_def) (metis payload_orders.simps(1))
next
  case False
  then have "post_orders lv bs x = belt_post lv REL_BATCH_CREATE (Batch bs) x"
    by (auto simp: post_orders_def split: list.split)
  with belt_reply [of lv REL_BATCH_CREATE "Batch bs" x] show ?thesis
    by simp (metis payload_orders.simps(2))
qed

text \<open>A slot the sub-batches report names an order that was sent and stays within its count.\<close>

lemma sub_batches_within:
  assumes "fills_within (lv_venue lv)" "\<forall>b \<in> set bs. b \<noteq> []"
    "r \<in> set (fst (snd (send_sub_batches lv fit bs x)))" "or_client_order_id r = Some c"
  shows "\<exists>w \<in> set (concat bs). v2_client_order_id (wk_body w) = Some c \<and>
    (\<exists>q. parse_decimal (v2_count (wk_body w)) = Some q \<and> or_fill_count r \<le> q) \<and>
    whole_cent (or_fill_count r)"
  using assms
proof (induction bs arbitrary: fit x)
  case (Cons b bs)
  define x2 where "x2 = with_rest (\<lambda>r. note_rest ''take_wings'' None None
      (bump ''wing_batch'' (r\<lparr>rx_wing_batches := rx_wing_batches r + 1\<rparr>)))
      ((pace lv (urgent_write (COST_CREATE * of_nat (length b)) fit) x)\<lparr>lx_wing_chunks :=
        lx_wing_chunks (pace lv (urgent_write (COST_CREATE * of_nat (length b)) fit) x) + length b\<rparr>)"
  define side where "side = (case b of c # _ \<Rightarrow> snd (wk_key c) | [] \<Rightarrow> [])"
  have "r \<in> set (parsed_orders side (length b) (snd (post_orders lv (map wk_body b) x2))) \<or>
      r \<in> set (fst (snd (send_sub_batches lv True bs (fst (post_orders lv (map wk_body b) x2)))))"
    using Cons.prems(3) by (simp add: split_beta Let_def x2_def side_def)
  then show ?case
  proof
    assume r: "r \<in> set (parsed_orders side (length b) (snd (post_orders lv (map wk_body b) x2)))"
    obtain n path body where body: "payload_orders body = map wk_body b"
      and reply: "snd (post_orders lv (map wk_body b) x2) = classify_reply (hv_post (lv_venue lv) n path body)"
      using post_orders_reply [of "map wk_body b" lv x2] Cons.prems(2) by auto
    have "length b = length (payload_orders body)" by (simp add: body)
    with r reply have "r \<in> set (parsed_orders side (length (payload_orders body))
        (classify_reply (hv_post (lv_venue lv) n path body)))" by simp
    then obtain o' q where "o' \<in> set (payload_orders body)" "v2_client_order_id o' = Some c"
      "parse_decimal (v2_count o') = Some q" "or_fill_count r \<le> q" "whole_cent (or_fill_count r)"
      using fills_withinD [OF Cons.prems(1) _ Cons.prems(4)] by blast
    then show ?thesis by (auto simp: body)
  next
    assume "r \<in> set (fst (snd (send_sub_batches lv True bs (fst (post_orders lv (map wk_body b) x2)))))"
    from Cons.IH [OF Cons.prems(1) _ this Cons.prems(4)] Cons.prems(2) show ?thesis
      unfolding concat.simps set_append bex_Un by (intro disjI2) simp
  qed
qed simp

text \<open>What an order filled, by the reply.\<close>

definition chunk_fill :: "order_response list \<Rightarrow> string list \<Rightarrow> wing_chunk \<Rightarrow> lots" where
  "chunk_fill parsed failed c =
     (case chunk_slot parsed failed (wk_coid c) of Some r \<Rightarrow> or_fill_count r | None \<Rightarrow> 0)"

lemma parse_count_body: "whole_cent q \<Longrightarrow> parse_decimal (count_body_str q) = Some q"
  using quantize_he_whole [of q] by (simp add: count_body_str_def parse_fixed_text quantize_he_def)

lemma chunk_slotD:
  assumes "chunk_slot parsed failed c = Some r"
  shows "r \<in> set parsed" "or_client_order_id r = Some c" "slot_filled r" "c \<notin> set failed"
  using assms by (auto simp: chunk_slot_def find_Some_iff split: option.splits if_splits)
    (metis nth_mem set_rev length_rev)

lemma chunk_fill_within:
  assumes "fills_within (lv_venue lv)" "\<forall>b \<in> set bs. b \<noteq> []" "mset (concat bs) = mset cs"
    "distinct (map wk_coid cs)" "c \<in> set cs" "chunk_order q c" "whole_cent q" "0 < q"
    "\<forall>w \<in> set cs. \<exists>q. chunk_order q w"
    "parsed = fst (snd (send_sub_batches lv fit bs x))"
  shows "0 \<le> chunk_fill parsed failed c" "chunk_fill parsed failed c \<le> q"
    "whole_cent (chunk_fill parsed failed c)"
proof -
  have "0 \<le> chunk_fill parsed failed c \<and> chunk_fill parsed failed c \<le> q \<and>
      whole_cent (chunk_fill parsed failed c)"
  proof (cases "chunk_slot parsed failed (wk_coid c)")
    case None
    with assms(8) show ?thesis by (simp add: chunk_fill_def)
  next
    case (Some r)
    note r = chunk_slotD [OF Some]
    obtain w q' where w: "w \<in> set (concat bs)" "v2_client_order_id (wk_body w) = Some (wk_coid c)"
      "parse_decimal (v2_count (wk_body w)) = Some q'" "or_fill_count r \<le> q'"
      "whole_cent (or_fill_count r)"
      using sub_batches_within [OF assms(1,2) r(1) [unfolded assms(10)] r(2)] by blast
    have w': "w \<in> set cs" using w(1) mset_eq_setD [OF assms(3)] by blast
    then have "wk_coid w = wk_coid c"
      using assms(9) w(2) by (auto simp: chunk_order_def order_for_def)
    with w' assms(4,5) have "w = c" by (auto simp: distinct_map inj_on_def)
    with w(3) assms(6,7) have "q' = q" by (simp add: chunk_order_def order_for_def parse_count_body)
    with w(4,5) r(3) Some show ?thesis by (simp add: chunk_fill_def slot_filled_def)
  qed
  then show "0 \<le> chunk_fill parsed failed c" "chunk_fill parsed failed c \<le> q"
    "whole_cent (chunk_fill parsed failed c)" by simp_all
qed

end
