(* ===== verification/Ladder_Hedge.thy ===== *)
theory Ladder_Hedge
  imports Ladder_Orders
begin

text \<open>
  What a wing take adds to the lots taken per leg and to the wing captures, the event it reports for
  each leg, and the invariant of any run: against a venue that fills an order at most to its count no
  leg is ever bought beyond its lots, and the captured wing lots are the lots taken.
\<close>

section \<open>The tally of a take\<close>

text \<open>A wing tally changes neither the memory of the legs nor the configuration.\<close>

definition same_wings :: "ladder_exec \<Rightarrow> ladder_exec \<Rightarrow> bool" where
  "same_wings x y \<longleftrightarrow>
     lx_wing_filled y = lx_wing_filled x \<and> lx_wing_notional y = lx_wing_notional x \<and>
     lx_wing_cap y = lx_wing_cap x \<and> lx_prefix y = lx_prefix x \<and> lx_k_rungs y = lx_k_rungs x \<and>
     pc_size (lx_pacer y) = pc_size (lx_pacer x)"

lemma same_wings_refl [simp]: "same_wings x x"
  by (simp add: same_wings_def)

lemma same_wings_trans: "same_wings x y \<Longrightarrow> same_wings y z \<Longrightarrow> same_wings x z"
  by (simp add: same_wings_def)

lemma same_wings_with_rest [simp]: "same_wings x (with_rest f y) = same_wings x y"
  by (simp add: same_wings_def)

lemma same_wings_inherit [simp]: "same_wings x (fst (inherit f y)) = same_wings x y"
  by (simp add: same_wings_def)

definition fills_for :: "order_response list \<Rightarrow> string list \<Rightarrow> wing_key \<Rightarrow> wing_chunk list \<Rightarrow> lots" where
  "fills_for parsed failed k cs = sum_list (map (chunk_fill parsed failed) (chunks_for k cs))"

definition wing_captures :: "rest_exec \<Rightarrow> fill_capture list" where
  "wing_captures r = filter (\<lambda>f. fc_leg f = ''wing'') (rx_fills r)"

definition wing_lots :: "rest_exec \<Rightarrow> lots" where
  "wing_lots r = sum_list (map fc_count (wing_captures r))"

lemma leg_named_known: "k \<in> wing_key_of ` set ls \<Longrightarrow> leg_named ls k \<noteq> None"
  by (auto simp: leg_named_def find_None_iff)

lemma fills_for_simps [simp]:
  "fills_for ps fs k [] = 0"
  "fills_for ps fs k (c # cs) =
     (if wk_key c = k then chunk_fill ps fs c else 0) + fills_for ps fs k cs"
  by (simp_all add: fills_for_def chunks_for_def)

lemma tally_add_get:
  "fst (dict_get_default (tally_add j q p t) k (0, 0)) =
     fst (dict_get_default t k (0, 0)) + (if j = k then q else 0)"
  by (simp add: tally_add_def Let_def dict_get_default_def)

lemma count_chunks_Cons:
  assumes "wk_key c \<in> wing_key_of ` set ls"
  obtains "chunk_fill ps fs c = 0"
      "count_chunks ls ps fs (c # cs) t x = count_chunks ls ps fs cs t x"
  | l r p x1 where "chunk_fill ps fs c = or_fill_count r"
      "count_chunks ls ps fs (c # cs) t x =
         count_chunks ls ps fs cs (tally_add (wk_key c) (or_fill_count r) p t) x1"
      "x1 = with_rest (\<lambda>y. bump ''wing_fill''
              (y\<lparr>rx_fills := rx_fills y @ [chunk_capture l r p (wk_coid c)]\<rparr>)) x"
proof (cases "chunk_slot ps fs (wk_coid c)")
  case None
  then show thesis using that(1) by (simp add: chunk_fill_def)
next
  case (Some r)
  obtain l where l: "leg_named ls (wk_key c) = Some l" using leg_named_known [OF assms] by blast
  show thesis
    by (rule that(2) [of r "slot_price (snd (wk_key c)) (wl_limit l) r" _ l])
      (simp_all add: chunk_fill_def Some l Let_def)
qed

lemma count_chunks_same: "same_wings x (fst (count_chunks ls ps fs cs t y)) = same_wings x y"
  by (induction cs arbitrary: t y) (simp_all add: Let_def split: option.split)

declare count_chunks.simps(2) [simp del]

lemma count_chunks_tally:
  assumes "wk_key ` set cs \<subseteq> wing_key_of ` set ls"
  shows "fst (dict_get_default (snd (count_chunks ls ps fs cs t x)) k (0, 0)) =
    fst (dict_get_default t k (0, 0)) + fills_for ps fs k cs"
  using assms
proof (induction cs arbitrary: t x)
  case (Cons c cs)
  then have known: "wk_key c \<in> wing_key_of ` set ls" "wk_key ` set cs \<subseteq> wing_key_of ` set ls" by simp_all
  from known(1) show ?case
    by (rule count_chunks_Cons [of c ls ps fs cs t x])
      (simp_all add: Cons.IH [OF known(2)] tally_add_get)
qed simp

lemma wing_lots_capture [simp]:
  "wing_lots (bump k (y\<lparr>rx_fills := rx_fills y @ [chunk_capture l r p c]\<rparr>)) =
     wing_lots y + or_fill_count r"
  by (simp add: wing_lots_def wing_captures_def bump_def chunk_capture_def)

lemma count_chunks_lots:
  assumes "wk_key ` set cs \<subseteq> wing_key_of ` set ls"
  shows "wing_lots (lx_rest (fst (count_chunks ls ps fs cs t x))) =
    wing_lots (lx_rest x) + sum_list (map (chunk_fill ps fs) cs)"
  using assms
proof (induction cs arbitrary: t x)
  case (Cons c cs)
  then have known: "wk_key c \<in> wing_key_of ` set ls" "wk_key ` set cs \<subseteq> wing_key_of ` set ls" by simp_all
  from known(1) show ?case
    by (rule count_chunks_Cons [of c ls ps fs cs t x])
      (simp_all add: Cons.IH [OF known(2)])
qed simp

section \<open>The wing captures of a leg\<close>

text \<open>
  The wing captures so far, each under the leg it was bought for: a leg's lots and its notional
  (price times lots) summed over its captures. The executor's two running totals are these sums.
\<close>

type_synonym wing_book = "(wing_key \<times> fill_capture) list"

definition key_lots :: "wing_book \<Rightarrow> wing_key \<Rightarrow> lots" where
  "key_lots book k = sum_list (map (\<lambda>(j, c). if j = k then fc_count c else 0) book)"

definition key_notional :: "wing_book \<Rightarrow> wing_key \<Rightarrow> money" where
  "key_notional book k = sum_list (map (\<lambda>(j, c). if j = k then fc_price c * fc_count c else 0) book)"

definition notional_of :: "ladder_exec \<Rightarrow> wing_key \<Rightarrow> money" where
  "notional_of x k = dict_get_default (lx_wing_notional x) k 0"

definition wing_ledger :: "wing_book \<Rightarrow> ladder_exec \<Rightarrow> bool" where
  "wing_ledger book x \<longleftrightarrow>
     map snd book = wing_captures (lx_rest x) \<and> list_all (\<lambda>(k, c). fc_side c = snd k) book \<and>
     (\<forall>k. taken_lots x k = key_lots book k \<and> notional_of x k = key_notional book k)"

lemma wing_ledgerD:
  "wing_ledger book x \<Longrightarrow> taken_lots x k = key_lots book k"
  "wing_ledger book x \<Longrightarrow> notional_of x k = key_notional book k"
  unfolding wing_ledger_def by blast+

text \<open>What a take captures: for each of its orders that a slot of the replies filled, its leg's fill.\<close>

fun chunk_captures ::
  "leg33 list \<Rightarrow> order_response list \<Rightarrow> string list \<Rightarrow> wing_chunk list \<Rightarrow> wing_book" where
  "chunk_captures ls ps fs [] = []"
| "chunk_captures ls ps fs (c # cs) =
     (case (chunk_slot ps fs (wk_coid c), leg_named ls (wk_key c)) of
        (Some r, Some l) \<Rightarrow>
          (wk_key c, chunk_capture l r (slot_price (snd (wk_key c)) (wl_limit l) r) (wk_coid c)) #
          chunk_captures ls ps fs cs
      | _ \<Rightarrow> chunk_captures ls ps fs cs)"

lemma key_sums_simps [simp]:
  "key_lots [] k = 0" "key_notional [] k = 0"
  "key_lots ((j, c) # b) k = (if j = k then fc_count c else 0) + key_lots b k"
  "key_notional ((j, c) # b) k = (if j = k then fc_price c * fc_count c else 0) + key_notional b k"
  "key_lots (a @ b) k = key_lots a k + key_lots b k"
  "key_notional (a @ b) k = key_notional a k + key_notional b k"
  by (simp_all add: key_lots_def key_notional_def)

lemma tally_add_notional:
  "snd (dict_get_default (tally_add j q p t) k (0, 0)) =
     snd (dict_get_default t k (0, 0)) + (if j = k then p * q else 0)"
  by (simp add: tally_add_def Let_def dict_get_default_def)

lemma captured_sel [simp]:
  "fc_count (chunk_capture l r p c) = or_fill_count r" "fc_price (chunk_capture l r p c) = p"
  "fc_side (chunk_capture l r p c) = wl_side l" "fc_leg (chunk_capture l r p c) = ''wing''"
  by (simp_all add: chunk_capture_def)

lemma count_chunks_captures:
  "wing_captures (lx_rest (fst (count_chunks ls ps fs cs t x))) =
     wing_captures (lx_rest x) @ map snd (chunk_captures ls ps fs cs)"
  "fst (dict_get_default (snd (count_chunks ls ps fs cs t x)) k (0, 0)) =
     fst (dict_get_default t k (0, 0)) + key_lots (chunk_captures ls ps fs cs) k"
  "snd (dict_get_default (snd (count_chunks ls ps fs cs t x)) k (0, 0)) =
     snd (dict_get_default t k (0, 0)) + key_notional (chunk_captures ls ps fs cs) k"
  by (induction cs arbitrary: t x)
    (simp_all add: count_chunks.simps(2) Let_def wing_captures_def bump_def tally_add_get
      tally_add_notional split: option.split)

lemma chunk_captures_keys: "fst ` set (chunk_captures ls ps fs cs) \<subseteq> wk_key ` set cs"
  by (induction cs) (auto split: option.splits)

lemma leg_named_side: "leg_named ls k = Some l \<Longrightarrow> wl_side l = snd k"
proof -
  assume "leg_named ls k = Some l"
  then have "wing_key_of l = k" by (auto simp: leg_named_def find_Some_iff)
  then show ?thesis by (auto simp: wing_key_of_def)
qed

lemma chunk_captures_sides: "list_all (\<lambda>(k, c). fc_side c = snd k) (chunk_captures ls ps fs cs)"
  by (induction cs) (auto simp: leg_named_side split: option.split)

lemma key_sums_other:
  "k \<notin> fst ` set b \<Longrightarrow> key_lots b k = 0" "k \<notin> fst ` set b \<Longrightarrow> key_notional b k = 0"
  by (induction b) auto

section \<open>The report of a take\<close>

lemma taken_reported [simp]:
  "taken_lots (fst (report_leg t now l x)) k =
     taken_lots x k + (if k = wing_key_of l then fst (dict_get_default t k (0, 0)) else 0)"
  by (simp add: report_leg_def Let_def taken_lots_def dict_get_default_def)

lemma report_legs_taken:
  "distinct (map wing_key_of ls) \<Longrightarrow>
   taken_lots (fst (report_legs t now ls x)) k =
     taken_lots x k + (if k \<in> wing_key_of ` set ls then fst (dict_get_default t k (0, 0)) else 0)"
  by (induction ls arbitrary: x) (auto simp: split_beta Let_def)

text \<open>The event of a leg, from the lots and the notional before and after the take.\<close>

definition report_of :: "ladder_exec \<Rightarrow> ladder_exec \<Rightarrow> time \<Rightarrow> leg33 \<Rightarrow> rest_event" where
  "report_of x y now l =
     (let k = wing_key_of l; q = taken_lots y k in
      if wl_count l \<le> q \<and> taken_lots x k < q
      then leg_event l q (if q = 0 then wl_limit l else notional_of y k / q) now
      else leg_event l 0 (wl_limit l) now)"

lemma notional_reported [simp]:
  "notional_of (fst (report_leg t now l x)) k =
     notional_of x k + (if k = wing_key_of l then snd (dict_get_default t k (0, 0)) else 0)"
  by (simp add: report_leg_def Let_def notional_of_def dict_get_default_def)

lemma report_legs_notional:
  "distinct (map wing_key_of ls) \<Longrightarrow>
   notional_of (fst (report_legs t now ls x)) k =
     notional_of x k + (if k \<in> wing_key_of ` set ls then snd (dict_get_default t k (0, 0)) else 0)"
  by (induction ls arbitrary: x) (auto simp: split_beta Let_def)

lemma report_leg_event: "snd (report_leg t now l x) = report_of x (fst (report_leg t now l x)) now l"
  by (simp add: report_of_def Let_def taken_reported notional_reported)
    (simp add: report_leg_def Let_def taken_lots_def notional_of_def)

lemma report_of_cong:
  assumes "taken_lots x (wing_key_of l) = taken_lots x' (wing_key_of l)"
    "taken_lots y (wing_key_of l) = taken_lots y' (wing_key_of l)"
    "notional_of y (wing_key_of l) = notional_of y' (wing_key_of l)"
  shows "report_of x y now l = report_of x' y' now l"
  by (simp only: report_of_def assms Let_def)

lemma report_legs_events:
  "distinct (map wing_key_of ls) \<Longrightarrow>
   snd (report_legs t now ls x) = map (report_of x (fst (report_legs t now ls x)) now) ls"
proof (induction ls arbitrary: x)
  case (Cons l ls)
  define x1 where "x1 = fst (report_leg t now l x)"
  define y where "y = fst (report_legs t now ls x1)"
  have d: "wing_key_of l \<notin> wing_key_of ` set ls" "distinct (map wing_key_of ls)"
    using Cons.prems by auto
  have "report_of x x1 now l = report_of x y now l"
    using d by (intro report_of_cong) (simp_all add: y_def report_legs_taken report_legs_notional)
  moreover have "report_of x1 y now m = report_of x y now m" if "m \<in> set ls" for m
  proof -
    have "wing_key_of m \<noteq> wing_key_of l" using d(1) that by (metis imageI)
    then show ?thesis by (intro report_of_cong) (simp_all add: x1_def)
  qed
  ultimately show ?case
    using Cons.IH [OF d(2), of x1] report_leg_event [of t now l x]
    by (simp add: split_beta Let_def x1_def [symmetric] y_def [symmetric])
qed simp

lemma report_leg_wings:
  "lx_rest (fst (report_leg t now l x)) = lx_rest x"
  "lx_wing_cap (fst (report_leg t now l x)) = lx_wing_cap x"
  "lx_prefix (fst (report_leg t now l x)) = lx_prefix x"
  "lx_k_rungs (fst (report_leg t now l x)) = lx_k_rungs x"
  "lx_wing_filled (fst (report_leg t now l x)) = AList.update (wing_key_of l)
     (taken_lots x (wing_key_of l) + fst (dict_get_default t (wing_key_of l) (0, 0))) (lx_wing_filled x)"
  by (simp_all add: report_leg_def Let_def)

lemma report_legs_keeps:
  "lx_rest (fst (report_legs t now ls x)) = lx_rest x"
  "lx_wing_cap (fst (report_legs t now ls x)) = lx_wing_cap x"
  by (induction ls arbitrary: x) (simp_all add: split_beta Let_def report_leg_wings)

lemma report_legs_total:
  "distinct (map wing_key_of ls) \<Longrightarrow> distinct (map fst (lx_wing_filled x)) \<Longrightarrow>
   distinct (map fst (lx_wing_filled (fst (report_legs t now ls x)))) \<and>
   dict_total (lx_wing_filled (fst (report_legs t now ls x))) =
     dict_total (lx_wing_filled x) +
     sum_list (map (\<lambda>l. fst (dict_get_default t (wing_key_of l) (0, 0))) ls)"
  by (induction ls arbitrary: x)
    (simp_all add: split_beta Let_def report_leg_wings dict_total_update distinct_update taken_lots_def)

end
