(* ===== verification/Ladder_Runs.thy ===== *)
theory Ladder_Runs
  imports Ladder_Hedge
begin

text \<open>
  Runs of the ladder executor: what one wing take adds, what every other operation leaves alone, and
  the invariant of the lots taken over any run of actions, batch creates, polls, websocket fills and
  startup sweeps.
\<close>

section \<open>Other operations leave the legs alone\<close>

interpretation unwinged: sending_law "\<lambda>r. filter (\<lambda>f. fc_leg f = ''wing'') (rx_fills r) = ws" for ws
  by unfold_locales (auto simp: same_core_def put_rec_def)

lemma same_wings_counters [simp]:
  "same_wings x (y\<lparr>lx_rate_limited := n\<rparr>) = same_wings x y"
  "same_wings x (y\<lparr>lx_wing_chunks := n\<rparr>) = same_wings x y"
  "same_wings x (y\<lparr>lx_stray_cancels := n\<rparr>) = same_wings x y"
  "same_wings x (y\<lparr>lx_overflows := n\<rparr>) = same_wings x y"
  "same_wings x (y\<lparr>lx_dup_prices := n\<rparr>) = same_wings x y"
  "same_wings x (y\<lparr>lx_batch_creates := n\<rparr>) = same_wings x y"
  "same_wings x (y\<lparr>lx_pt_takes := n\<rparr>) = same_wings x y"
  "same_wings x (y\<lparr>lx_pt_fills := q\<rparr>) = same_wings x y"
  "same_wings x (y\<lparr>lx_pt_unwinds := n\<rparr>) = same_wings x y"
  "same_wings x (y\<lparr>lx_pt_shortfalls := n\<rparr>) = same_wings x y"
  "same_wings x (y\<lparr>lx_pending_price := p\<rparr>) = same_wings x y"
  "same_wings (z\<lparr>lx_pending_price := p\<rparr>) y = same_wings z y"
  "same_wings x (y\<lparr>lx_wing_seq := n\<rparr>) = same_wings x y"
  "same_wings x (y\<lparr>lx_rest := r\<rparr>) = same_wings x y"
  by (simp_all add: same_wings_def)

lemma same_wings_pace [simp]: "same_wings x (pace lv q y) = same_wings x y"
  by (simp add: pace_def split_beta Let_def same_wings_def)

lemma same_wings_belt [simp]: "same_wings x (fst (belt_post lv p b y)) = same_wings x y"
  by (simp add: belt_post_def split_beta Let_def)

lemma same_wings_post_orders [simp]: "same_wings x (fst (post_orders lv bs y)) = same_wings x y"
  by (simp add: post_orders_def split: list.split)

lemma same_wings_sub_batches [simp]:
  "same_wings x (fst (send_sub_batches lv fit bs y)) = same_wings x y"
  by (induction bs arbitrary: fit y) (simp_all add: split_beta Let_def)

lemma same_wings_reject [simp]: "same_wings x (fst (reject33 c t s u n now y)) = same_wings x y"
  by (simp add: reject33_def)

lemma same_wings_listing [simp]: "same_wings x (fst (ladder_listing lv now y)) = same_wings x y"
  by (simp add: ladder_listing_def split_beta Let_def split: option.split)

lemma same_wings_cancel_stray [simp]: "same_wings x (cancel_stray lv o' y) = same_wings x y"
  by (simp add: cancel_stray_def split_beta Let_def)

lemma same_wings_stray_fold [simp]: "same_wings x (fold (cancel_stray lv) os y) = same_wings x y"
  by (induction os arbitrary: y) simp_all

lemma same_wings_strays [simp]: "same_wings x (strays_cancelled lv c os y) = same_wings x y"
  by (simp add: strays_cancelled_def Let_def)

lemma same_wings_violated [simp]: "same_wings x (fst (place_violated pv c now y)) = same_wings x y"
  by (simp add: place_violated_def Let_def)

lemma same_wings_recheck [simp]: "same_wings x (fst (recheck_place lv c now y)) = same_wings x y"
  by (simp add: recheck_place_def split_beta Let_def)

lemma same_wings_pre_place [simp]: "same_wings x (fst (pre_place33 lv c now y)) = same_wings x y"
  by (simp add: pre_place33_def split_beta Let_def)

lemma same_wings_send_place [simp]:
  "same_wings x (fst (send_place33 lv a c e b now y)) = same_wings x y"
  by (simp add: send_place33_def split_beta Let_def split: option.split)

lemma same_wings_place: "place_rest33 lv a now x = Inr res \<Longrightarrow> same_wings x (fst res)"
  by (auto simp: place_rest33_def Let_def split_beta rest_body_exact split: option.splits)

lemma same_wings_cancel [simp]: "same_wings x (fst (cancel_rest33 lv a now y)) = same_wings x y"
  by (simp add: cancel_rest33_def)

lemma same_wings_amend [simp]: "same_wings x (fst (amend_rest33 lv a now y)) = same_wings x y"
  by (simp add: amend_rest33_def send_amend33_def split_beta Let_def split: option.split)

lemma same_wings_taker_entries:
  "taker_entries tk side act p e qs y = Inr (z, es) \<Longrightarrow> same_wings y z"
  by (drule taker_entries_minted) (simp add: minted_def same_wings_def)

lemma same_wings_take_bucket: "take_bucket_no lv a now x = Inr res \<Longrightarrow> same_wings x (fst res)"
proof -
  have buy: "same_wings x (fst (pt_buy lv c es w l now y)) = same_wings x y" for c es w l y
    by (simp add: pt_buy_def pt_short_def split_beta Let_def)
  show "take_bucket_no lv a now x = Inr res \<Longrightarrow> same_wings x (fst res)"
    by (auto simp: take_bucket_no_def Let_def bind_r_Inr_iff buy split: option.splits if_splits
        dest: same_wings_taker_entries)
qed

lemma same_wings_unwind_entries:
  "unwind_entries ls y = Inr (z, es, w) \<Longrightarrow> same_wings y z"
proof (induction ls arbitrary: y es w)
  case (Cons l ls)
  show ?case
    using Cons.prems
    by (auto simp: bind_r_Inr_iff split: option.splits if_splits
        dest!: Cons.IH same_wings_taker_entries)
      (auto simp: same_wings_def)
qed simp

lemma same_wings_unwind: "unwind_wings lv a x = Inr res \<Longrightarrow> same_wings x (fst res)"
proof -
  have sell: "same_wings x (pt_sell lv es w y) = same_wings x y" for es w y
    by (simp add: pt_sell_def unwind_settled_def split_beta Let_def)
  show "unwind_wings lv a x = Inr res \<Longrightarrow> same_wings x (fst res)"
    by (auto simp: unwind_wings_def bind_r_Inr_iff sell dest: same_wings_unwind_entries)
qed

lemma same_wings_members: "chunk_members lv as now x = Inr (y, ms, es) \<Longrightarrow> same_wings x y"
proof (induction as arbitrary: x ms es)
  case (Cons a as)
  show ?case
    using Cons.prems
    by (auto simp: Let_def split_beta bind_r_Inr_iff rest_body_exact split: option.splits
        dest!: Cons.IH) (auto intro: same_wings_trans [rotated])
qed simp

lemma same_wings_place_members [simp]:
  "same_wings x (fst (place_members r ps now ms y)) = same_wings x y"
  by (induction ms arbitrary: y)
    (simp_all add: split_beta Let_def place_member_def split: option.split)

lemma same_wings_one_chunk: "place_one_chunk lv as now x = Inr res \<Longrightarrow> same_wings x (fst res)"
  by (auto simp: place_one_chunk_def Let_def split_beta bind_r_Inr_iff split: if_splits
      dest: same_wings_members)

lemma same_wings_chunks: "place_chunks lv ass now x = Inr (y, es) \<Longrightarrow> same_wings x y"
  by (induction ass arbitrary: x es)
    (fastforce simp: bind_r_Inr_iff dest: same_wings_one_chunk intro: same_wings_trans)+

lemma same_wings_poll [simp]: "same_wings x (fst (poll_orders_for_bucket lv tk y)) = same_wings x y"
  by (simp add: poll_orders_for_bucket_def split_beta Let_def)

section \<open>A wing take\<close>

text \<open>What a take added for a leg: nothing for a leg it could not send.\<close>

lemma fills_for_bound:
  assumes "list_all2 chunk_order qs cs" "\<forall>c \<in> set cs. \<forall>q. chunk_order q c \<longrightarrow> whole_cent q \<and> 0 < q \<longrightarrow>
      0 \<le> g c \<and> g c \<le> q \<and> whole_cent (g c)" "\<forall>q \<in> set qs. whole_cent q \<and> 0 < q"
  shows "0 \<le> sum_list (map g cs) \<and> sum_list (map g cs) \<le> sum_list qs \<and> whole_cent (sum_list (map g cs))"
  using assms
proof (induction rule: list_all2_induct)
  case (Cons q qs c cs)
  then have "0 \<le> g c \<and> g c \<le> q \<and> whole_cent (g c)" by simp
  moreover have "0 \<le> sum_list (map g cs) \<and> sum_list (map g cs) \<le> sum_list qs \<and>
      whole_cent (sum_list (map g cs))" using Cons by simp
  ultimately show ?case by (auto intro: add_mono)
qed simp

lemma take_wings33_cases:
  assumes "take_wings33 lv legs now x = Inr (y, evs)"
  obtains x1 cs where "cut_legs (pending_legs legs) x = Inr (x1, cs)" "cs = []" "y = x1"
      "evs = unrouted_events (pending_legs legs) [] now x1"
  | x1 cs x2 ps fs where "cut_legs (pending_legs legs) x = Inr (x1, cs)" "cs \<noteq> []"
      "send_sub_batches lv False (wing_sub_batches x1 cs) x1 = (x2, ps, fs)"
      "y = fst (report_legs (snd (count_chunks (pending_legs legs) ps fs cs [] x2)) now
             (pending_legs legs) (fst (count_chunks (pending_legs legs) ps fs cs [] x2)))"
      "evs = unrouted_events (pending_legs legs) cs now x1 @
         snd (report_legs (snd (count_chunks (pending_legs legs) ps fs cs [] x2)) now
             (pending_legs legs) (fst (count_chunks (pending_legs legs) ps fs cs [] x2)))"
proof -
  obtain x1 cs where cut: "cut_legs (pending_legs legs) x = Inr (x1, cs)"
    using assms by (auto simp: take_wings33_def Let_def bind_r_Inr_iff)
  show thesis
  proof (cases "cs = []")
    case True
    show thesis
      by (rule that(1) [OF cut True]) (use assms cut True in \<open>auto simp: take_wings33_def Let_def\<close>)
  next
    case False
    obtain x2 ps fs where "send_sub_batches lv False (wing_sub_batches x1 cs) x1 = (x2, ps, fs)"
      using prod_cases3 by blast
    with assms cut False that(2) show thesis
      by (simp add: take_wings33_def Let_def split_beta)
  qed
qed

lemma sub_batches_permute:
  "mset (concat (wing_sub_batches x cs)) = mset cs" "\<forall>b \<in> set (wing_sub_batches x cs). b \<noteq> []"
proof -
  have "0 < wing_batch_max_orders (pc_size (lx_pacer x))"
    using wing_batch_max_orders_bounds(1) [of "pc_size (lx_pacer x)"] by linarith
  from split_permutes [OF this, of "map (\<lambda>c. (wk_key c, c)) cs"]
  show "mset (concat (wing_sub_batches x cs)) = mset cs" by (simp add: wing_sub_batches_def comp_def)
  show "\<forall>b \<in> set (wing_sub_batches x cs). b \<noteq> []"
    using split_lengths by (fastforce simp: wing_sub_batches_def)
qed

lemma sum_over_keys:
  fixes g :: "wing_chunk \<Rightarrow> rat"
  assumes "wk_key ` set cs \<subseteq> set ks" "distinct ks"
  shows "sum_list (map g cs) = sum_list (map (\<lambda>k. sum_list (map g (chunks_for k cs))) ks)"
  using assms(1)
proof (induction cs)
  case (Cons c cs)
  have one: "sum_list (map (\<lambda>k. if wk_key c = k then g c else 0) ks) = g c"
    using assms(2) Cons.prems by (simp add: sum_list_distinct_conv_sum_set)
  have "sum_list (map (\<lambda>k. sum_list (map g (chunks_for k (c # cs)))) ks) =
      sum_list (map (\<lambda>k. (if wk_key c = k then g c else 0) + sum_list (map g (chunks_for k cs))) ks)"
    by (rule arg_cong [where f = sum_list]) (simp add: chunks_for_def)
  with one Cons show ?case by (simp add: sum_list_addf)
qed (simp add: chunks_for_def)

text \<open>The lots each leg asks for, the same at every take.\<close>

definition legs_ask :: "(wing_key \<Rightarrow> lots) \<Rightarrow> leg33 list \<Rightarrow> bool" where
  "legs_ask f legs \<longleftrightarrow>
     distinct (map wing_key_of (pending_legs legs)) \<and>
     (\<forall>l \<in> set (pending_legs legs). wl_count l = f (wing_key_of l))"

definition asks_hundredths :: "(wing_key \<Rightarrow> lots) \<Rightarrow> bool" where
  "asks_hundredths f \<longleftrightarrow> (\<forall>k. 0 \<le> f k \<and> whole_cent (f k))"

definition hedge_within :: "(wing_key \<Rightarrow> lots) \<Rightarrow> ladder_exec \<Rightarrow> bool" where
  "hedge_within f x \<longleftrightarrow>
     1 \<le> lx_wing_cap x \<and>
     (\<forall>k. 0 \<le> taken_lots x k \<and> taken_lots x k \<le> f k \<and> whole_cent (taken_lots x k)) \<and>
     distinct (map fst (lx_wing_filled x)) \<and>
     wing_lots (lx_rest x) = dict_total (lx_wing_filled x)"

lemma hedge_same:
  assumes "hedge_within f x" "same_wings x y" "wing_lots (lx_rest y) = wing_lots (lx_rest x)"
  shows "hedge_within f y"
  using assms by (simp add: hedge_within_def same_wings_def taken_lots_def)

lemma needed_positive:
  assumes "hedge_within f x" "legs_ask f legs" "asks_hundredths f" "l \<in> set (pending_legs legs)"
  shows "0 \<le> needed_lots x l" "whole_cent (needed_lots x l)"
proof -
  have f': "wl_count l = f (wing_key_of l)" "whole_cent (f (wing_key_of l))"
    using assms(2-4) unfolding legs_ask_def asks_hundredths_def by blast+
  have t: "taken_lots x (wing_key_of l) \<le> f (wing_key_of l)" "whole_cent (taken_lots x (wing_key_of l))"
    using assms(1) unfolding hedge_within_def by blast+
  show "0 \<le> needed_lots x l" "whole_cent (needed_lots x l)"
    unfolding needed_lots_def f'(1) using t f'(2) by auto
qed

lemma leg_chunks_total:
  assumes "1 \<le> lx_wing_cap x" "whole_cent (needed_lots x l)" "0 \<le> needed_lots x l"
  shows "sum_list (leg_chunks x l) \<le> needed_lots x l"
    "q \<in> set (leg_chunks x l) \<Longrightarrow> whole_cent q \<and> 0 < q \<and> q \<le> of_int (lx_wing_cap x)"
proof -
  have cap: "(0 :: rat) < of_int (lx_wing_cap x)" using assms(1) by simp
  show "sum_list (leg_chunks x l) \<le> needed_lots x l"
    using chunk_counts_sum [OF _ cap, of "needed_lots x l"] assms(3) by (simp add: leg_chunks_def)
  assume "q \<in> set (leg_chunks x l)"
  then have q: "q \<in> set (chunk_counts (of_int (lx_wing_cap x)) (needed_lots x l))"
    by (simp add: leg_chunks_def split: if_splits)
  show "whole_cent q \<and> 0 < q \<and> q \<le> of_int (lx_wing_cap x)"
    using chunk_counts_range [OF q cap] chunk_counts_whole [OF assms(2) q] by simp
qed

lemma every_chunk_orders:
  assumes "cut_legs ls x = Inr (x1, cs)" "distinct (map wing_key_of ls)" "c \<in> set cs"
  obtains l q where "l \<in> set ls" "wing_key_of l = wk_key c" "q \<in> set (leg_chunks x l)" "chunk_order q c"
proof -
  note o = cut_legs_orders [OF assms(1)]
  obtain l where l: "l \<in> set ls" "wing_key_of l = wk_key c" using o(3) assms(3) by auto
  have "c \<in> set (chunks_for (wing_key_of l) cs)" using assms(3) l(2) by (simp add: chunks_for_def)
  with o(4) [OF assms(2) l(1)] obtain q where "q \<in> set (leg_chunks x l)" "chunk_order q c"
    by (metis in_set_conv_nth list_all2_conv_all_nth)
  with l show thesis by (rule that)
qed

lemma fills_bounded:
  assumes law: "fills_within (lv_venue lv)" and x: "hedge_within f x" and ask: "legs_ask f legs"
    and f: "asks_hundredths f" and cut: "cut_legs (pending_legs legs) x = Inr (x1, cs)"
    and sent: "send_sub_batches lv False (wing_sub_batches x1 cs) x1 = (x2, ps, fs)"
    and l: "l \<in> set (pending_legs legs)"
  shows "0 \<le> fills_for ps fs (wing_key_of l) cs \<and>
    fills_for ps fs (wing_key_of l) cs \<le> needed_lots x l \<and>
    whole_cent (fills_for ps fs (wing_key_of l) cs)"
proof -
  have d: "distinct (map wing_key_of (pending_legs legs))" using ask by (simp add: legs_ask_def)
  note o = cut_legs_orders [OF cut]
  have coids: "distinct (map wk_coid cs)"
    unfolding o(2) by (simp add: distinct_map inj_on_def nth_coid_inj)
  have named: "\<forall>w \<in> set cs. \<exists>q. chunk_order q w"
  proof
    fix w assume "w \<in> set cs"
    then obtain q where "chunk_order q w" by (rule every_chunk_orders [OF cut d])
    then show "\<exists>q. chunk_order q w" ..
  qed
  have cap: "1 \<le> lx_wing_cap x" using x by (simp add: hedge_within_def)
  note tot = leg_chunks_total [OF cap needed_positive(2,1) [OF x ask f l]]
  have ps: "ps = fst (snd (send_sub_batches lv False (wing_sub_batches x1 cs) x1))" by (simp add: sent)
  have within: "0 \<le> chunk_fill ps fs c \<and> chunk_fill ps fs c \<le> q \<and> whole_cent (chunk_fill ps fs c)"
    if "c \<in> set (chunks_for (wing_key_of l) cs)" "chunk_order q c" "whole_cent q" "0 < q" for c q
  proof -
    have c: "c \<in> set cs" using that(1) by (simp add: chunks_for_def)
    note w = chunk_fill_within [OF law sub_batches_permute(2,1) coids c that(2-4) named ps]
    show ?thesis by (intro conjI w)
  qed
  have pos: "\<forall>q \<in> set (leg_chunks x l). whole_cent q \<and> 0 < q" using tot(2) by blast
  have "0 \<le> fills_for ps fs (wing_key_of l) cs \<and>
      fills_for ps fs (wing_key_of l) cs \<le> sum_list (leg_chunks x l) \<and>
      whole_cent (fills_for ps fs (wing_key_of l) cs)"
    unfolding fills_for_def
    by (rule fills_for_bound [OF o(4) [OF d l] _ pos]) (intro ballI allI impI, elim conjE, rule within)
  with tot(1) show ?thesis by simp
qed

lemma minted_same: "minted n x y \<Longrightarrow> same_wings x y"
  by (simp add: minted_def same_wings_def)

lemma minted_captures: "minted n x y \<Longrightarrow> wing_captures (lx_rest y) = wing_captures (lx_rest x)"
  by (simp add: minted_def wing_captures_def)

lemma minted_lots: "minted n x y \<Longrightarrow> wing_lots (lx_rest y) = wing_lots (lx_rest x)"
  by (simp add: wing_lots_def minted_captures)

lemma same_wings_taken: "same_wings x y \<Longrightarrow> taken_lots y k = taken_lots x k"
  by (simp add: same_wings_def taken_lots_def)

lemma sub_batches_captures:
  "wing_captures (lx_rest (fst (send_sub_batches lv fit bs x))) = wing_captures (lx_rest x)"
  using unwinged.keep_sub_batches [of x "filter (\<lambda>f. fc_leg f = ''wing'') (rx_fills (lx_rest x))" lv fit bs]
  by (simp add: wing_captures_def)

lemma sub_batches_lots:
  "wing_lots (lx_rest (fst (send_sub_batches lv fit bs x))) = wing_lots (lx_rest x)"
  by (simp add: wing_lots_def sub_batches_captures)

text \<open>What a take leaves: the fills of its orders added to their legs and to the wing captures.\<close>

lemma take_adds:
  fixes legs x y x1 cs x2 ps fs now
  defines "pending \<equiv> pending_legs legs"
  assumes ask: "distinct (map wing_key_of pending)" and cut: "cut_legs pending x = Inr (x1, cs)"
    and sent: "send_sub_batches lv False (wing_sub_batches x1 cs) x1 = (x2, ps, fs)"
    and y: "y = fst (report_legs (snd (count_chunks pending ps fs cs [] x2)) now pending
              (fst (count_chunks pending ps fs cs [] x2)))"
  shows "taken_lots y k = taken_lots x k + fills_for ps fs k cs"
    "lx_wing_cap y = lx_wing_cap x"
    "distinct (map fst (lx_wing_filled x)) \<Longrightarrow> distinct (map fst (lx_wing_filled y)) \<and>
       wing_lots (lx_rest y) - dict_total (lx_wing_filled y) =
       wing_lots (lx_rest x) - dict_total (lx_wing_filled x)"
proof -
  note o = cut_legs_orders [OF cut]
  define x3 where "x3 = fst (count_chunks pending ps fs cs [] x2)"
  define t where "t = snd (count_chunks pending ps fs cs [] x2)"
  have x2: "x2 = fst (send_sub_batches lv False (wing_sub_batches x1 cs) x1)" by (simp add: sent)
  have same: "same_wings x x3" using minted_same [OF o(1)] by (simp add: x3_def count_chunks_same x2)
  have get: "fst (dict_get_default t k (0, 0)) = fills_for ps fs k cs" for k
    unfolding t_def by (subst count_chunks_tally [OF o(3)]) (simp add: dict_get_default_def)
  have none: "fills_for ps fs k cs = 0" if "k \<notin> wing_key_of ` set pending" for k
  proof -
    have "chunks_for k cs = []" using o(3) that by (auto simp: chunks_for_def filter_empty_conv)
    then show ?thesis by (simp add: fills_for_def)
  qed
  have y': "y = fst (report_legs t now pending x3)" by (simp add: y x3_def t_def)
  show "taken_lots y k = taken_lots x k + fills_for ps fs k cs"
    unfolding y' by (simp add: report_legs_taken [OF ask] get none same_wings_taken [OF same])
  show "lx_wing_cap y = lx_wing_cap x"
    using same by (simp add: y' report_legs_keeps same_wings_def)
  assume d: "distinct (map fst (lx_wing_filled x))"
  have filled: "lx_wing_filled x3 = lx_wing_filled x" using same by (simp add: same_wings_def)
  have "wing_lots (lx_rest y) = wing_lots (lx_rest x) + sum_list (map (chunk_fill ps fs) cs)"
    by (simp add: y' report_legs_keeps x3_def count_chunks_lots [OF o(3)] x2 sub_batches_lots
        minted_lots [OF o(1)])
  moreover have "sum_list (map (chunk_fill ps fs) cs) =
      sum_list (map (\<lambda>l. fills_for ps fs (wing_key_of l) cs) pending)"
  proof -
    have "wk_key ` set cs \<subseteq> set (map wing_key_of pending)" using o(3) by simp
    from sum_over_keys [OF this ask] show ?thesis by (simp add: fills_for_def comp_def)
  qed
  ultimately show "distinct (map fst (lx_wing_filled y)) \<and>
       wing_lots (lx_rest y) - dict_total (lx_wing_filled y) =
       wing_lots (lx_rest x) - dict_total (lx_wing_filled x)"
    using report_legs_total [OF ask, of x3 t now] d filled by (simp add: y' get)
qed

lemma take_within:
  assumes law: "fills_within (lv_venue lv)" and x: "hedge_within f x" and ask: "legs_ask f legs"
    and f: "asks_hundredths f" and take: "take_wings33 lv legs now x = Inr (y, evs)"
  shows "hedge_within f y"
  using take
proof (cases rule: take_wings33_cases)
  case (1 x1 cs)
  note o = cut_legs_orders [OF 1(1)]
  show ?thesis unfolding 1(3) by (rule hedge_same [OF x minted_same [OF o(1)] minted_lots [OF o(1)]])
next
  case (2 x1 cs x2 ps fs)
  have d: "distinct (map wing_key_of (pending_legs legs))" using ask by (simp add: legs_ask_def)
  note adds = take_adds [OF d 2(1,3,4)]
  note o = cut_legs_orders [OF 2(1)]
  have x': "0 \<le> taken_lots x k" "taken_lots x k \<le> f k" "whole_cent (taken_lots x k)" for k
    using x unfolding hedge_within_def by blast+
  have "0 \<le> taken_lots y k \<and> taken_lots y k \<le> f k \<and> whole_cent (taken_lots y k)" for k
  proof (cases "k \<in> wing_key_of ` set (pending_legs legs)")
    case True
    then obtain l where l: "l \<in> set (pending_legs legs)" "k = wing_key_of l" by blast
    have "needed_lots x l = f k - taken_lots x k"
      using ask l by (simp add: legs_ask_def needed_lots_def)
    with fills_bounded [OF law x ask f 2(1,3) l(1)] x' [of k] show ?thesis
      by (auto simp: adds(1) l(2) [symmetric] whole_cent_add)
  next
    case False
    then have "chunks_for k cs = []" using o(3) by (auto simp: chunks_for_def filter_empty_conv)
    with x' [of k] show ?thesis by (simp add: adds(1) fills_for_def)
  qed
  with x adds(2,3) show ?thesis by (simp add: hedge_within_def)
qed

text \<open>The captures of a take go to the books of their legs, and the running totals follow.\<close>

lemma ledger_same:
  assumes "wing_ledger book x" "same_wings x y" "wing_captures (lx_rest y) = wing_captures (lx_rest x)"
  shows "wing_ledger book y"
  using assms by (simp add: wing_ledger_def same_wings_def taken_lots_def notional_of_def)

lemma take_ledger:
  assumes ask: "distinct (map wing_key_of (pending_legs legs))" and book: "wing_ledger book x"
    and take: "take_wings33 lv legs now x = Inr (y, evs)"
  obtains x1 cs x2 ps fs where "cut_legs (pending_legs legs) x = Inr (x1, cs)"
    "send_sub_batches lv False (wing_sub_batches x1 cs) x1 = (x2, ps, fs)"
    "wing_ledger (book @ chunk_captures (pending_legs legs) ps fs cs) y"
  using take
proof (cases rule: take_wings33_cases)
  case (1 x1 cs)
  note o = cut_legs_orders [OF 1(1)]
  obtain x2 ps fs where sent: "send_sub_batches lv False (wing_sub_batches x1 cs) x1 = (x2, ps, fs)"
    using prod_cases3 by blast
  have "wing_ledger book y"
    unfolding 1(3) by (rule ledger_same [OF book minted_same [OF o(1)] minted_captures [OF o(1)]])
  then show thesis using that [OF 1(1) sent] by (simp add: 1(2))
next
  case (2 x1 cs x2 ps fs)
  let ?pending = "pending_legs legs"
  let ?new = "chunk_captures ?pending ps fs cs"
  note o = cut_legs_orders [OF 2(1)]
  define x3 where "x3 = fst (count_chunks ?pending ps fs cs [] x2)"
  define t where "t = snd (count_chunks ?pending ps fs cs [] x2)"
  have x2: "x2 = fst (send_sub_batches lv False (wing_sub_batches x1 cs) x1)" by (simp add: 2(3))
  have same: "same_wings x x3" using minted_same [OF o(1)] by (simp add: x3_def count_chunks_same x2)
  have y: "y = fst (report_legs t now ?pending x3)" by (simp add: 2(4) x3_def t_def)
  have caps: "wing_captures (lx_rest y) = wing_captures (lx_rest x) @ map snd ?new"
    by (simp add: y report_legs_keeps x3_def count_chunks_captures x2 sub_batches_captures
        minted_captures [OF o(1)])
  have got: "dict_get_default t k (0, 0) = (key_lots ?new k, key_notional ?new k)" for k
    using count_chunks_captures(2,3) [of ?pending ps fs cs "[]" x2 k]
    by (intro prod_eqI) (simp_all add: t_def dict_get_default_def [of "[]"])
  have none: "key_lots ?new k = 0 \<and> key_notional ?new k = 0" if "k \<notin> wing_key_of ` set ?pending" for k
    using that chunk_captures_keys [of ?pending ps fs cs] o(3) by (intro conjI key_sums_other) auto
  have "notional_of x3 k = notional_of x k" for k using same by (simp add: same_wings_def notional_of_def)
  then have "taken_lots y k = taken_lots x k + key_lots ?new k"
    "notional_of y k = notional_of x k + key_notional ?new k" for k
    using none [of k]
    by (simp_all add: y report_legs_taken [OF ask] report_legs_notional [OF ask] got
        same_wings_taken [OF same])
  with book caps chunk_captures_sides [of ?pending ps fs cs] have "wing_ledger (book @ ?new) y"
    by (simp add: wing_ledger_def)
  with that [OF 2(1,3)] show thesis .
qed

section \<open>Runs\<close>

inductive ladder_step :: "(leg33 list \<Rightarrow> bool) \<Rightarrow> ladder_venue \<Rightarrow> ladder_exec \<Rightarrow> ladder_exec \<Rightarrow> bool"
  for L lv where
  startup: "ladder_step L lv x (with_rest (\<lambda>r. fst (cancel_stale_open_orders33 (lv_venue lv) tp p r)) x)"
| action: "on_action33 lv a legs now x = Inr res \<Longrightarrow> L legs \<Longrightarrow> ladder_step L lv x (fst res)"
| batch: "place_batch lv as now x = Inr res \<Longrightarrow> ladder_step L lv x (fst res)"
| poll: "ladder_step L lv x (fst (poll_orders_for_bucket lv tk x))"
| filled: "ladder_step L lv x (with_rest (\<lambda>r. mark_filled r c) x)"

context rest_law begin

lemma keep_ladder_step: "ladder_step L lv x y \<Longrightarrow> P (lx_rest x) \<Longrightarrow> P (lx_rest y)"
  by (induction rule: ladder_step.induct)
    (auto intro: keep_startup33 keep_action33 keep_poll33 keep_mark simp: place_batch_def
      dest: keep_place_chunks)

lemma keep_ladder_run: "(ladder_step L lv)\<^sup>*\<^sup>* x y \<Longrightarrow> P (lx_rest x) \<Longrightarrow> P (lx_rest y)"
  by (induction rule: rtranclp_induct) (auto intro: keep_ladder_step)

end

lemma captures_unwinged:
  assumes "\<And>ws. filter (\<lambda>f. fc_leg f = ''wing'') (rx_fills r) = ws \<Longrightarrow>
    filter (\<lambda>f. fc_leg f = ''wing'') (rx_fills s) = ws"
  shows "wing_captures s = wing_captures r"
  using assms [OF refl] by (simp add: wing_captures_def)

lemma action_cases:
  assumes "on_action33 lv a legs now x = Inr res"
  shows "take_wings33 lv legs now x = Inr res \<or>
    (same_wings x (fst res) \<and> wing_captures (lx_rest (fst res)) = wing_captures (lx_rest x))"
proof -
  have quiet: "wing_captures (lx_rest (fst res)) = wing_captures (lx_rest x)"
    if "place_rest33 lv (order_view a) now (x\<lparr>lx_pending_price := y_price a\<rparr>) = Inr res \<or>
      cancel_rest33 lv (order_view a) now x = res \<or> amend_rest33 lv (order_view a) now x = res \<or>
      take_bucket_no lv a now x = Inr res \<or> unwind_wings lv a x = Inr res"
    by (rule captures_unwinged)
      (use that in \<open>auto dest: unwinged.keep_place33 unwinged.keep_take_bucket_no unwinged.keep_unwind
         simp: unwinged.keep_cancel33 unwinged.keep_amend33\<close>)
  show ?thesis
  proof (cases "y_kind a")
    case (Inherited k)
    with assms quiet show ?thesis
      by (cases k) (auto simp: on_action33_def Let_def split: sum.splits dest: same_wings_place)
  qed (use assms quiet in \<open>auto simp: on_action33_def Let_def split: sum.splits
         dest: same_wings_take_bucket same_wings_unwind\<close>)
qed

text \<open>A step is a wing take, or it leaves the legs and the wing captures alone.\<close>

lemma step_cases:
  assumes "ladder_step L lv x y"
  obtains (take) legs now evs where "L legs" "take_wings33 lv legs now x = Inr (y, evs)"
  | (quiet) "same_wings x y" "wing_captures (lx_rest y) = wing_captures (lx_rest x)"
  using assms
proof cases
  case (startup tp p)
  have "wing_captures (lx_rest y) = wing_captures (lx_rest x)"
    unfolding startup by (rule captures_unwinged) (simp add: unwinged.keep_startup33)
  then show thesis by (intro quiet) (simp_all add: startup)
next
  case (action a legs now res)
  from action_cases [OF action(2)] show thesis
    using take [OF action(3)] quiet unfolding action(1) by (metis prod.collapse)
next
  case (batch as now res)
  then obtain es where b: "place_chunks lv (cut_every (lx_batch_max x) (map order_view as)) now x = Inr (y, es)"
    by (cases res) (simp add: place_batch_def)
  have "wing_captures (lx_rest y) = wing_captures (lx_rest x)"
    by (rule captures_unwinged) (erule unwinged.keep_place_chunks [OF b])
  then show thesis by (rule quiet [OF same_wings_chunks [OF b]])
next
  case (poll tk)
  have "wing_captures (lx_rest y) = wing_captures (lx_rest x)"
    unfolding poll by (rule captures_unwinged) (erule unwinged.keep_poll33)
  then show thesis by (intro quiet) (simp_all add: poll)
next
  case (filled c)
  have "wing_captures (lx_rest y) = wing_captures (lx_rest x)"
    by (simp add: filled wing_captures_def mark_filled_def split: option.split)
  then show thesis by (intro quiet) (simp_all add: filled)
qed

lemma step_within:
  assumes "ladder_step (legs_ask f) lv x y" "fills_within (lv_venue lv)" "asks_hundredths f"
    "hedge_within f x"
  shows "hedge_within f y"
  using assms(1)
proof (cases rule: step_cases)
  case (take legs now evs)
  then show ?thesis using take_within [OF assms(2,4) _ assms(3)] by blast
next
  case quiet
  then show ?thesis by (intro hedge_same [OF assms(4)]) (simp_all add: wing_lots_def)
qed

lemma run_ledger:
  assumes "(ladder_step L lv)\<^sup>*\<^sup>* x y" "wing_ledger book x"
    and "\<And>legs. L legs \<Longrightarrow> distinct (map wing_key_of (pending_legs legs))"
  shows "\<exists>book'. wing_ledger book' y"
  using assms(1,2)
proof (induction rule: rtranclp_induct)
  case base
  then show ?case by blast
next
  case (step y z)
  then obtain book' where b: "wing_ledger book' y" by blast
  from step(2) show ?case
  proof (cases rule: step_cases)
    case (take legs now evs)
    then show ?thesis using take_ledger [OF assms(3) b] by metis
  next
    case quiet
    then show ?thesis using ledger_same [OF b] by blast
  qed
qed

lemma wing_ledger_new: "wing_ledger [] (new_ladder_exec (new_rest_exec bm exch ce qs) pre k bmax cap p)"
  by (simp add: wing_ledger_def wing_captures_def new_ladder_exec_def new_rest_exec_def taken_lots_def
      notional_of_def dict_get_default_def)

lemma run_within:
  assumes "(ladder_step (legs_ask f) lv)\<^sup>*\<^sup>* x y" "fills_within (lv_venue lv)" "asks_hundredths f"
    "hedge_within f x"
  shows "hedge_within f y"
  using assms(1,4) by (induction rule: rtranclp_induct) (auto intro: step_within [OF _ assms(2,3)])

lemma hedge_within_new:
  assumes "asks_hundredths f" "wing_lots base = 0"
  shows "hedge_within f (new_ladder_exec base pre k bm cap p)"
  using assms
  by (simp add: hedge_within_def new_ladder_exec_def taken_lots_def dict_get_default_def
      asks_hundredths_def dict_total_def)

lemma wing_lots_new [simp]: "wing_lots (new_rest_exec bm exch ce qs) = 0"
  by (simp add: wing_lots_def wing_captures_def new_rest_exec_def)

end
