(* ===== verification/Ladder_Guard.thy ===== *)
theory Ladder_Guard
  imports Ladder_Runs
begin

text \<open>
  The pre-place check of the ladder executor, as a dichotomy: a place is sent exactly when the last
  listing it read has room for it, and otherwise the hour stands down; the orders of a wing take fit
  the bucket and the proxy's cap; the startup sweep deletes only its own roster's orders.
\<close>

section \<open>Room on the venue\<close>

text \<open>
  Nothing of ours is listed; or fewer than the ladder's rungs are, and none the book knows is at
  this price. The check looks at the listing only when there is one, so an empty listing (an
  unreadable one counts as empty) has room whatever the rungs.
\<close>

definition room_for :: "int \<Rightarrow> money option \<Rightarrow> rest_exec \<Rightarrow> resting_order list \<Rightarrow> bool" where
  "room_for k p r rs \<longleftrightarrow>
     rs = [] \<or> (int (length rs) < k \<and> (\<forall>o' \<in> set rs. p = None \<or> resting_price r o' \<noteq> p))"

lemma delete_only:
  "\<exists>n. rx_wire (fst (rest_delete v path x)) = rx_wire x @ replicate n (W_Delete path) \<and> n \<le> 4"
proof -
  have "sends {W_Delete path} (Suc 3) 0 x (fst (rest_delete v path x))"
    unfolding rest_delete_def by (rule sends_attempts)
  then obtain ws where ws: "rx_wire (fst (rest_delete v path x)) = rx_wire x @ ws"
    "set ws \<subseteq> {W_Delete path}" "length (filter is_delete ws) \<le> 4"
    by (auto simp: sends_def)
  have "ws = replicate (length ws) (W_Delete path)" using ws(2) by (auto intro: replicate_eqI)
  moreover from this have "filter is_delete ws = ws" by (metis filter_replicate is_delete.simps(2))
  ultimately show ?thesis using ws(1,3) by (intro exI [of _ "length ws"]) simp
qed

text \<open>Every listed order the book cannot attribute has been asked off the venue since the listing.\<close>

definition strays_deleted :: "rest_exec \<Rightarrow> resting_order list \<Rightarrow> rest_exec \<Rightarrow> bool" where
  "strays_deleted r rs r' \<longleftrightarrow>
     (\<exists>ws. rx_wire r' = rx_wire r @ ws \<and>
        (\<forall>o' \<in> set rs. resting_price r o' = None \<longrightarrow>
           W_Delete (cancel_path (fst o') (snd (snd o'))) \<in> set ws))"

lemma strays_deleted_later:
  assumes "strays_deleted r rs r'" "exec_le r' r''"
  shows "strays_deleted r rs r''"
proof -
  from assms(2) obtain us where "rx_wire r'' = rx_wire r' @ us" by (auto simp: exec_le_def prefix_def)
  with assms(1) show ?thesis by (fastforce simp: strays_deleted_def)
qed

lemma no_strays_deleted:
  "\<forall>o' \<in> set rs. resting_price r o' \<noteq> None \<Longrightarrow> strays_deleted r rs r"
  by (simp add: strays_deleted_def)

lemma wire_pace: "rx_wire (lx_rest (pace lv q x)) = rx_wire (lx_rest x)"
  by (simp add: pace_def split_beta Let_def note_rest_def sleep_x_def)

lemma strays_wire:
  "\<exists>ws. rx_wire (lx_rest (fold (cancel_stray lv) os x)) = rx_wire (lx_rest x) @ ws \<and>
     (\<forall>o' \<in> set os. W_Delete (cancel_path (fst o') (snd (snd o'))) \<in> set ws)"
proof (induction os arbitrary: x)
  case (Cons o' os)
  let ?path = "cancel_path (fst o') (snd (snd o'))"
  have "prefix (rx_wire (lx_rest x) @ [W_Delete ?path]) (rx_wire (lx_rest (cancel_stray lv o' x)))"
    using delete_sent [of "lx_rest (pace lv (urgent_write COST_CANCEL False) x)" ?path "lv_venue lv"]
    by (simp add: cancel_stray_def split_beta Let_def note_rest_def wire_pace)
  then obtain us where us: "rx_wire (lx_rest (cancel_stray lv o' x)) = rx_wire (lx_rest x) @ W_Delete ?path # us"
    by (auto simp: prefix_def)
  from Cons [of "cancel_stray lv o' x"] obtain ws where
    "rx_wire (lx_rest (fold (cancel_stray lv) os (cancel_stray lv o' x))) =
       rx_wire (lx_rest (cancel_stray lv o' x)) @ ws"
    "\<forall>o' \<in> set os. W_Delete (cancel_path (fst o') (snd (snd o'))) \<in> set ws" by blast
  with us show ?case by (intro exI [of _ "W_Delete ?path # us @ ws"]) auto
qed simp

lemma strays_cancelled_deleted:
  assumes "set (filter (\<lambda>o'. resting_price (lx_rest z) o' = None) rs) \<subseteq> set os"
  shows "strays_deleted (lx_rest z) rs (lx_rest (strays_cancelled lv c os z))"
  using strays_wire [of lv os z] assms
  by (force simp: strays_deleted_def strays_cancelled_def Let_def note_rest_def record_alarm_def bump_def)

text \<open>The reads of the venue so far.\<close>

definition gets :: "rest_exec \<Rightarrow> wire_call list" where
  "gets r = filter is_get (rx_wire r)"

lemma gets_keep [simp]:
  "gets (bump k r) = gets r" "gets (note_rest kd i c r) = gets r" "gets (record_alarm kd i c r) = gets r"
  "gets (latch_down s r) = gets r" "gets (sleep_x t r) = gets r" "gets (r\<lparr>rx_violations := n\<rparr>) = gets r"
  "gets (r\<lparr>rx_rests_placed := n\<rparr>) = gets r" "gets (r\<lparr>rx_rests_rejected := n\<rparr>) = gets r"
  by (simp_all add: gets_def)

lemma gets_delete [simp]: "gets (fst (rest_delete v path r)) = gets r"
  using delete_only [of v path r] by (auto simp: gets_def)

lemma gets_post [simp]: "gets (fst (rest_post v path body r)) = gets r"
  by (simp add: rest_post_def gets_def)

lemma gets_pace [simp]: "gets (lx_rest (pace lv q x)) = gets (lx_rest x)"
  by (simp add: pace_def split_beta Let_def)

lemma gets_stray [simp]: "gets (lx_rest (fold (cancel_stray lv) os x)) = gets (lx_rest x)"
  by (induction os arbitrary: x) (simp_all add: cancel_stray_def split_beta Let_def)

lemma gets_strays [simp]: "gets (lx_rest (strays_cancelled lv c os x)) = gets (lx_rest x)"
  by (simp add: strays_cancelled_def Let_def)

lemma gets_violated [simp]: "gets (lx_rest (fst (place_violated pv c now x))) = gets (lx_rest x)"
  by (simp add: place_violated_def Let_def)

lemma gets_belt [simp]: "gets (lx_rest (fst (belt_post lv path body x))) = gets (lx_rest x)"
  by (simp add: belt_post_def split_beta Let_def)

lemma gets_placing [simp]:
  "gets (fst (reject_place c t u n now r)) = gets r" "gets (fst (placed a c i e q now r)) = gets r"
  by (simp_all add: gets_def)

lemma gets_send_place [simp]:
  "gets (lx_rest (fst (send_place33 lv a c e b now x))) = gets (lx_rest x)"
  by (simp add: send_place33_def split_beta Let_def reject33_def split: option.split)

text \<open>The last read of the venue between \<open>x\<close> and \<open>y\<close> was this listing.\<close>

definition last_listing ::
  "ladder_venue \<Rightarrow> time \<Rightarrow> ladder_exec \<Rightarrow> ladder_exec \<Rightarrow> rest_exec \<Rightarrow> resting_order list \<Rightarrow> bool" where
  "last_listing lv now x y r rs \<longleftrightarrow>
     (\<exists>w z. ladder_listing lv now w = (z, rs) \<and> r = lx_rest z \<and>
        exec_le (lx_rest x) (lx_rest w) \<and> exec_le (lx_rest z) (lx_rest y) \<and>
        gets (lx_rest y) = gets (lx_rest z))"

lemma in_map_filter: "y \<in> set (List.map_filter f xs) \<longleftrightarrow> (\<exists>x \<in> set xs. f x = Some y)"
  by (induction xs) (auto simp: List.map_filter_simps split: option.split)

lemma verdict_room:
  assumes "lx_k_rungs z = k" "lx_pending_price z = p" "rs \<noteq> []"
  shows "\<not> pv_overflow (invariant_verdict z rs) \<and> \<not> pv_dup (invariant_verdict z rs) \<longleftrightarrow>
    room_for k p (lx_rest z) rs"
  using assms
  by (auto simp: invariant_verdict_def room_for_def in_map_filter split: option.splits)

lemma listing_fields [simp]:
  "lx_k_rungs (fst (ladder_listing lv now x)) = lx_k_rungs x"
  "lx_pending_price (fst (ladder_listing lv now x)) = lx_pending_price x"
  by (simp_all add: ladder_listing_def split_beta Let_def split: option.split)

lemma exec_le_trans: "exec_le x y \<Longrightarrow> exec_le y z \<Longrightarrow> exec_le x z"
  unfolding exec_le_def
  by (elim conjE, intro conjI; (erule (1) subset_trans | erule (1) prefix_order.trans | simp))

lemma pace_fields [simp]:
  "lx_k_rungs (pace lv q x) = lx_k_rungs x" "lx_pending_price (pace lv q x) = lx_pending_price x"
  "lx_prefix (pace lv q x) = lx_prefix x" "exch_of (lx_rest (pace lv q x)) = exch_of (lx_rest x)"
  by (simp_all add: pace_def split_beta Let_def note_rest_def sleep_x_def exch_of_def fun_eq_iff)

lemma room_empty [simp]: "room_for k p r []"
  by (simp add: room_for_def)

lemma violated_outcome:
  "snd (place_violated pv c now x) = Some [slot_cleared (Some c) now]"
  "rx_stand_down (lx_rest (fst (place_violated pv c now x))) \<noteq> None"
  by (simp_all add: place_violated_def Let_def latch_down_def)

text \<open>Proceeding with room, or refusing without.\<close>

definition checked ::
  "ladder_venue \<Rightarrow> string \<Rightarrow> time \<Rightarrow> ladder_exec \<Rightarrow> ladder_exec \<times> rest_event list option \<Rightarrow> bool" where
  "checked lv c now x res \<longleftrightarrow>
     (case snd res of
        None \<Rightarrow> \<exists>r rs. last_listing lv now x (fst res) r rs \<and>
          room_for (lx_k_rungs x) (lx_pending_price x) r rs \<and>
          strays_deleted r rs (lx_rest (fst res))
      | Some evs \<Rightarrow> evs = [slot_cleared (Some c) now] \<and> rx_stand_down (lx_rest (fst res)) \<noteq> None \<and>
          (\<exists>r rs. last_listing lv now x (fst res) r rs \<and>
             \<not> room_for (lx_k_rungs x) (lx_pending_price x) r rs))"

lemma last_listingI:
  assumes "ladder_listing lv now w = (z, rs)" "exec_le (lx_rest x) (lx_rest w)"
    "exec_le (lx_rest z) (lx_rest y)" "gets (lx_rest y) = gets (lx_rest z)"
  shows "last_listing lv now x y (lx_rest z) rs"
  using assms by (auto simp: last_listing_def)

lemma clean_goes:
  assumes "rs = [] \<or> verdict_clean (invariant_verdict z rs)"
  shows "room_for (lx_k_rungs z) (lx_pending_price z) (lx_rest z) rs"
    "strays_deleted (lx_rest z) rs (lx_rest z)"
  using assms verdict_room [OF refl refl, of rs z]
  by (cases "rs = []"; auto simp: verdict_clean_def invariant_verdict_def filter_empty_conv
      intro: no_strays_deleted)+

lemma recheck_checked: "checked lv c now x (recheck_place lv c now x)"
proof -
  define w where "w = with_rest (\<lambda>r. sleep_x INVARIANT_RECHECK_S
     (bump ''rest_invariant_recheck'' (r\<lparr>rx_rechecks := rx_rechecks r + 1\<rparr>))) x"
  obtain z rs where list: "ladder_listing lv now w = (z, rs)" by fastforce
  have w: "exec_le (lx_rest x) (lx_rest w)" by (simp add: w_def)
  have z: "lx_k_rungs z = lx_k_rungs x" "lx_pending_price z = lx_pending_price x"
    using listing_fields [of lv now w, unfolded list] by (simp_all add: w_def)
  note room = verdict_room [OF z, of rs]
  have eq: "recheck_place lv c now x =
      (if rs = [] \<or> verdict_clean (invariant_verdict z rs) then (z, None)
       else if pv_strays (invariant_verdict z rs) \<noteq> [] \<and>
          \<not> pv_overflow (invariant_verdict z rs) \<and> \<not> pv_dup (invariant_verdict z rs)
       then (strays_cancelled lv c (pv_strays (invariant_verdict z rs)) z, None)
       else place_violated (invariant_verdict z rs) c now z)"
    unfolding recheck_place_def w_def [symmetric] list Let_def by simp
  have strays_le: "exec_le (lx_rest z) (lx_rest (strays_cancelled lv c os z))" for os
    by (rule kept.keep_strays_cancelled) simp
  have violated: "exec_le (lx_rest z) (lx_rest (fst (place_violated pv c now z)))" for pv
    by (rule kept.keep_violated) simp
  consider (go) "rs = [] \<or> verdict_clean (invariant_verdict z rs)"
    | (strays) "rs \<noteq> []" "\<not> verdict_clean (invariant_verdict z rs)"
        "room_for (lx_k_rungs x) (lx_pending_price x) (lx_rest z) rs"
    | (refuse) "rs \<noteq> []" "\<not> verdict_clean (invariant_verdict z rs)"
        "\<not> room_for (lx_k_rungs x) (lx_pending_price x) (lx_rest z) rs" by blast
  then show ?thesis
  proof cases
    case go
    from clean_goes [OF this] this z last_listingI [OF list w, of z] show ?thesis
      unfolding eq checked_def by auto
  next
    case strays
    then have "pv_strays (invariant_verdict z rs) \<noteq> []" using room by (auto simp: verdict_clean_def)
    moreover have "strays_deleted (lx_rest z) rs
        (lx_rest (strays_cancelled lv c (pv_strays (invariant_verdict z rs)) z))"
      by (rule strays_cancelled_deleted) (simp add: invariant_verdict_def)
    ultimately show ?thesis using strays room last_listingI [OF list w strays_le]
      unfolding eq checked_def by auto
  next
    case refuse
    then have "pv_overflow (invariant_verdict z rs) \<or> pv_dup (invariant_verdict z rs)"
      using room by blast
    with refuse last_listingI [OF list w violated] violated_outcome [of "invariant_verdict z rs" c now z]
    show ?thesis unfolding eq checked_def by auto
  qed
qed

lemma checked_from:
  assumes "checked lv c now w res" "exec_le (lx_rest x) (lx_rest w)"
    "lx_k_rungs w = lx_k_rungs x" "lx_pending_price w = lx_pending_price x"
  shows "checked lv c now x res"
proof -
  have "last_listing lv now x y r rs" if "last_listing lv now w y r rs" for y r rs
    using that exec_le_trans [OF assms(2)] unfolding last_listing_def by blast
  with assms(1) show ?thesis
    unfolding checked_def assms(3,4) by (cases "snd res") (auto, blast+)
qed

lemma pre_place_checked: "checked lv c now x (pre_place33 lv c now x)"
proof -
  obtain z rs where list: "ladder_listing lv now x = (z, rs)" by fastforce
  have z: "lx_k_rungs z = lx_k_rungs x" "lx_pending_price z = lx_pending_price x"
    using listing_fields [of lv now x, unfolded list] by simp_all
  have le: "exec_le (lx_rest x) (lx_rest z)"
    using kept.keep_ladder_listing [of "lx_rest x" x lv now] by (simp add: list)
  show ?thesis
  proof (cases "rs = [] \<or> verdict_clean (invariant_verdict z rs)")
    case True
    from clean_goes [OF this] z True last_listingI [OF list, of x z] show ?thesis
      by (auto simp: pre_place33_def list checked_def)
  next
    case False
    then have "pre_place33 lv c now x = recheck_place lv c now z" by (simp add: pre_place33_def list)
    with checked_from [OF recheck_checked le z] show ?thesis by simp
  qed
qed

section \<open>A place\<close>

lemma belt_posts:
  "\<exists>n. posts (lx_rest (fst (belt_post lv path body x))) =
     posts (lx_rest x) @ replicate n (W_Post path body) \<and> 1 \<le> n \<and> n \<le> 2"
proof (cases "wr_status (snd (inherit (rest_post (lv_venue lv) path body) x)) = Some 429")
  case False
  then have "posts (lx_rest (fst (belt_post lv path body x))) =
      posts (lx_rest x) @ replicate 1 (W_Post path body)"
    by (simp add: belt_post_def split_beta Let_def rest_post_def) (simp add: posts_def)
  then show ?thesis by (intro exI [of _ 1]) simp
next
  case True
  then have "posts (lx_rest (fst (belt_post lv path body x))) =
      posts (lx_rest x) @ replicate 2 (W_Post path body)"
    by (simp add: belt_post_def split_beta Let_def rest_post_def numeral_2_eq_2)
      (simp add: posts_def sleep_x_def note_rest_def)
  then show ?thesis by (intro exI [of _ 2]) simp
qed

lemma posts_keep33 [simp]:
  "posts (lx_rest (pace lv q x)) = posts (lx_rest x)"
  "posts (lx_rest (fst (reject33 c t s u n now x))) = posts (lx_rest x)"
  "posts (lx_rest (fst (pre_place33 lv c now x))) = posts (lx_rest x)"
  by (rule silent.keep_pace silent.keep_reject33 silent.keep_pre_place33, simp)+

lemma send_place_posts:
  "\<exists>n. posts (lx_rest (fst (send_place33 lv a c e b now x))) =
     posts (lx_rest x) @ replicate n (W_Post REL_SINGLE_CREATE (Single b)) \<and> 1 \<le> n \<and> n \<le> 2"
proof -
  define w where "w = with_rest (note_rest ''place_rest'' None (Some c)) x"
  have "posts (lx_rest (fst (send_place33 lv a c e b now x))) =
      posts (lx_rest (fst (belt_post lv REL_SINGLE_CREATE (Single b) w)))"
    unfolding send_place33_def split_beta Let_def w_def [symmetric]
    by (simp split: option.split)
  with belt_posts [of lv REL_SINGLE_CREATE "Single b" w] show ?thesis
    by (simp add: w_def)
qed

lemma bid_same: "exec_le x y \<Longrightarrow> rest_bid_of y a c e = rest_bid_of x a c e"
  by (rule bid_kept)

text \<open>Sent with room, or not sent and the hour down.\<close>

lemma place_dichotomy:
  assumes "place_rest33 lv a now x = Inr (y, evs)"
    and "exch_of (lx_rest x) (or_default [] (a_ticker a)) = Some e"
  defines "c \<equiv> or_default [] (a_coid a)"
  obtains (sent) r rs n where "last_listing lv now x y r rs"
      "room_for (lx_k_rungs x) (lx_pending_price x) r rs" "strays_deleted r rs (lx_rest y)"
      "1 \<le> n" "n \<le> 2"
      "posts (lx_rest y) = posts (lx_rest x) @
         replicate n (W_Post REL_SINGLE_CREATE (Single (rest_bid_of (lx_rest x) a c e)))"
  | (refused) r rs where "last_listing lv now x y r rs"
      "\<not> room_for (lx_k_rungs x) (lx_pending_price x) r rs"
      "posts (lx_rest y) = posts (lx_rest x)" "evs = [slot_cleared (Some c) now]"
      "rx_stand_down (lx_rest y) \<noteq> None"
proof -
  define x1 where "x1 = pace lv (plain_write COST_CREATE) x"
  define pre where "pre = pre_place33 lv c now x1"
  have le1: "exec_le (lx_rest x) (lx_rest x1)" unfolding x1_def by (rule kept.keep_pace) simp
  have k: "lx_k_rungs x1 = lx_k_rungs x" "lx_pending_price x1 = lx_pending_price x"
    by (simp_all add: x1_def)
  have chk: "checked lv c now x pre"
    unfolding pre_def by (rule checked_from [OF pre_place_checked le1 k])
  have le2: "exec_le (lx_rest x1) (lx_rest (fst pre))"
    unfolding pre_def by (rule kept.keep_pre_place33) simp
  have posts: "posts (lx_rest (fst pre)) = posts (lx_rest x)" by (simp add: pre_def x1_def)
  have e: "exch_of (lx_rest x1) (or_default [] (a_ticker a)) = Some e" using assms(2) by (simp add: x1_def)
  have eq: "place_rest33 lv a now x = (case snd pre of Some evs \<Rightarrow> Inr (fst pre, evs)
      | None \<Rightarrow> Inr (send_place33 lv a c e (rest_bid_of (lx_rest (fst pre)) a c e) now (fst pre)))"
    unfolding place_rest33_def Let_def x1_def [symmetric] c_def [symmetric] e split_beta pre_def [symmetric]
    by (simp add: rest_body_exact split: option.split)
  show thesis
  proof (cases "snd pre")
    case None
    have y: "y = fst (send_place33 lv a c e (rest_bid_of (lx_rest (fst pre)) a c e) now (fst pre))"
      using assms(1) unfolding eq None by simp
    have le3: "exec_le (lx_rest (fst pre)) (lx_rest y)"
      unfolding y by (rule kept.keep_send_place33) simp
    obtain r rs where "last_listing lv now x (fst pre) r rs"
      and room: "room_for (lx_k_rungs x) (lx_pending_price x) r rs"
      and gone: "strays_deleted r rs (lx_rest (fst pre))"
      using chk by (auto simp: checked_def None)
    then have "last_listing lv now x y r rs"
      using exec_le_trans [OF _ le3] gets_send_place unfolding last_listing_def y by metis
    moreover have "rest_bid_of (lx_rest (fst pre)) a c e = rest_bid_of (lx_rest x) a c e"
      by (rule bid_same [OF exec_le_trans [OF le1 le2]])
    ultimately show thesis
      using sent room strays_deleted_later [OF gone le3] send_place_posts [of lv a c e _ now "fst pre"] unfolding y posts by metis
  next
    case (Some es)
    then have "y = fst pre" "evs = es" using assms(1) unfolding eq by simp_all
    with chk Some posts refused show thesis by (auto simp: checked_def)
  qed
qed

text \<open>A bucket no exchange index is known for is refused before anything is read or sent.\<close>

lemma wire_reject_clean: "rx_wire (fst (reject_place c t False None now r)) = rx_wire r"
  by (auto simp: reject_place_def reject_clean_def Let_def note_rest_def bump_def record_alarm_def
      split: option.split)

lemma place_unrouted:
  assumes "place_rest33 lv a now x = Inr (y, evs)"
    and "exch_of (lx_rest x) (or_default [] (a_ticker a)) = None"
  shows "rx_wire (lx_rest y) = rx_wire (lx_rest x)"
    "evs = [slot_cleared (Some (or_default [] (a_coid a))) now]"
proof -
  define c where "c = or_default [] (a_coid a)"
  define x1 where "x1 = pace lv (plain_write COST_CREATE) x"
  have "place_rest33 lv a now x =
      Inr (inherit (reject_place c (or_default [] (a_ticker a)) False None now) x1)"
    using assms(2) unfolding place_rest33_def Let_def x1_def [symmetric] c_def [symmetric]
    by (simp add: x1_def reject33_def)
  with assms(1) have y: "y = with_rest (\<lambda>_. fst (reject_place c (or_default [] (a_ticker a)) False None now (lx_rest x1))) x1"
    "evs = [slot_cleared (Some c) now]"
    by (auto simp: inherit_def with_rest_def reject_place_def split: prod.splits)
  show "evs = [slot_cleared (Some (or_default [] (a_coid a))) now]" using y(2) by (simp add: c_def)
  show "rx_wire (lx_rest y) = rx_wire (lx_rest x)"
    by (simp add: y(1) x1_def wire_pace wire_reject_clean with_rest_def)
qed

section \<open>The POSTs of a wing take\<close>

lemma post_orders_posts:
  assumes "bs \<noteq> []"
  shows "\<exists>ws. posts (lx_rest (fst (post_orders lv bs x))) = posts (lx_rest x) @ ws \<and>
    (\<forall>w \<in> set ws. \<exists>path body. w = W_Post path body \<and> payload_orders body = bs)"
proof (cases "\<exists>b. bs = [b]")
  case True
  then obtain b where b: "bs = [b]" by blast
  then have "post_orders lv bs x = belt_post lv REL_SINGLE_CREATE (Single b) x" by (simp add: post_orders_def)
  with belt_posts [of lv REL_SINGLE_CREATE "Single b" x] b show ?thesis by auto
next
  case False
  then have "post_orders lv bs x = belt_post lv REL_BATCH_CREATE (Batch bs) x"
    by (auto simp: post_orders_def split: list.split)
  with belt_posts [of lv REL_BATCH_CREATE "Batch bs" x] show ?thesis by auto
qed

lemma sub_batches_posts:
  assumes "\<forall>b \<in> set bs. b \<noteq> []"
  shows "\<exists>ws. posts (lx_rest (fst (send_sub_batches lv fit bs x))) = posts (lx_rest x) @ ws \<and>
    (\<forall>w \<in> set ws. \<exists>path body. \<exists>b \<in> set bs. w = W_Post path body \<and> payload_orders body = map wk_body b)"
  using assms
proof (induction bs arbitrary: fit x)
  case (Cons b bs)
  define x2 where "x2 = with_rest (\<lambda>r. note_rest ''take_wings'' None None
      (bump ''wing_batch'' (r\<lparr>rx_wing_batches := rx_wing_batches r + 1\<rparr>)))
      ((pace lv (urgent_write (COST_CREATE * of_nat (length b)) fit) x)\<lparr>lx_wing_chunks :=
        lx_wing_chunks (pace lv (urgent_write (COST_CREATE * of_nat (length b)) fit) x) + length b\<rparr>)"
  define x3 where "x3 = fst (post_orders lv (map wk_body b) x2)"
  have x2: "posts (lx_rest x2) = posts (lx_rest x)"
    unfolding x2_def by simp
  have eq: "fst (send_sub_batches lv fit (b # bs) x) = fst (send_sub_batches lv True bs x3)"
    by (simp add: split_beta Let_def x2_def x3_def)
  obtain us where us: "posts (lx_rest x3) = posts (lx_rest x) @ us"
    "\<forall>w \<in> set us. \<exists>path body. w = W_Post path body \<and> payload_orders body = map wk_body b"
    using post_orders_posts [of "map wk_body b" lv x2] Cons.prems x2 by (auto simp: x3_def)
  obtain vs where "posts (lx_rest (fst (send_sub_batches lv True bs x3))) = posts (lx_rest x3) @ vs"
    "\<forall>w \<in> set vs. \<exists>path body. \<exists>b \<in> set bs. w = W_Post path body \<and> payload_orders body = map wk_body b"
    using Cons.IH Cons.prems by (metis list.set_intros(2))
  with us show ?case unfolding eq by (intro exI [of _ "us @ vs"]) (auto, blast)
qed simp

lemma count_chunks_posts:
  "posts (lx_rest (fst (count_chunks ls ps fs cs t x))) = posts (lx_rest x)"
proof (induction cs arbitrary: t x)
  case (Cons c cs)
  have "posts (bump k (y\<lparr>rx_fills := f\<rparr>)) = posts y" for k y f by (simp add: posts_def bump_def)
  with Cons show ?case by (simp add: count_chunks.simps Let_def split: option.split)
qed simp

text \<open>An order of a take: within the proxy's cap, and a POST of them within the bucket.\<close>

definition capped_order :: "int \<Rightarrow> v2_order \<Rightarrow> bool" where
  "capped_order cap b \<longleftrightarrow> (\<exists>q. parse_decimal (v2_count b) = Some q \<and> 0 < q \<and> q \<le> of_int cap)"

lemma take_posts:
  assumes take: "take_wings33 lv legs now x = Inr (y, evs)" and x: "hedge_within f x"
    and ask: "legs_ask f legs" and f: "asks_hundredths f"
  shows "\<exists>ws. posts (lx_rest y) = posts (lx_rest x) @ ws \<and>
    (\<forall>w \<in> set ws. \<exists>path body. w = W_Post path body \<and> 0 < length (payload_orders body) \<and>
       length (payload_orders body) \<le> wing_batch_max_orders (pc_size (lx_pacer x)) \<and>
       (\<forall>b \<in> set (payload_orders body). capped_order (lx_wing_cap x) b))"
  using take
proof (cases rule: take_wings33_cases)
  case (1 x1 cs)
  then show ?thesis using cut_legs_orders(1) [OF 1(1)] by (simp add: minted_def)
next
  case (2 x1 cs x2 ps fs)
  note o = cut_legs_orders [OF 2(1)]
  have d: "distinct (map wing_key_of (pending_legs legs))" using ask by (simp add: legs_ask_def)
  have cap: "1 \<le> lx_wing_cap x" using x by (simp add: hedge_within_def)
  have ordered: "capped_order (lx_wing_cap x) (wk_body c)" if "c \<in> set cs" for c
  proof -
    obtain l q where l: "l \<in> set (pending_legs legs)" and q: "q \<in> set (leg_chunks x l)" "chunk_order q c"
      using every_chunk_orders [OF 2(1) d \<open>c \<in> set cs\<close>] by metis
    from leg_chunks_total(2) [OF cap needed_positive(2,1) [OF x ask f l] q(1)] q(2) show ?thesis
      by (auto simp: capped_order_def chunk_order_def order_for_def parse_count_body)
  qed
  let ?bs = "wing_sub_batches x1 cs"
  have size: "pc_size (lx_pacer x1) = pc_size (lx_pacer x)" using o(1) by (simp add: minted_def)
  have within: "0 < length b \<and> length b \<le> wing_batch_max_orders (pc_size (lx_pacer x)) \<and>
      set b \<subseteq> set cs" if "b \<in> set ?bs" for b
  proof -
    have "set b \<subseteq> set (concat ?bs)" using that by auto
    also have "set (concat ?bs) = set cs" by (rule mset_eq_setD [OF sub_batches_permute(1)])
    finally show ?thesis
      using split_lengths [OF that [unfolded wing_sub_batches_def]] by (simp add: size)
  qed
  obtain ws where ws: "posts (lx_rest x2) = posts (lx_rest x1) @ ws"
    "\<forall>w \<in> set ws. \<exists>path body. \<exists>b \<in> set ?bs. w = W_Post path body \<and> payload_orders body = map wk_body b"
    using sub_batches_posts [OF sub_batches_permute(2), of lv False x1 cs x1] by (auto simp: 2(3))
  have "posts (lx_rest y) = posts (lx_rest x) @ ws"
    using ws(1) o(1) by (simp add: 2(4) report_legs_keeps count_chunks_posts minted_def)
  moreover have "\<exists>path body. w = W_Post path body \<and> 0 < length (payload_orders body) \<and>
       length (payload_orders body) \<le> wing_batch_max_orders (pc_size (lx_pacer x)) \<and>
       (\<forall>b \<in> set (payload_orders body). capped_order (lx_wing_cap x) b)" if "w \<in> set ws" for w
  proof -
    obtain path body b where "b \<in> set ?bs" "w = W_Post path body" "payload_orders body = map wk_body b"
      using ws(2) \<open>w \<in> set ws\<close> by blast
    with within [of b] ordered show ?thesis by auto
  qed
  ultimately show ?thesis by blast
qed

section \<open>The events of a wing take\<close>

lemma take_events:
  assumes take: "take_wings33 lv legs now x = Inr (y, evs)"
    and d: "distinct (map wing_key_of (pending_legs legs))"
  shows "\<forall>e \<in> set evs. \<exists>l \<in> set (pending_legs legs). e = leg_event l 0 (wl_limit l) now \<or>
       e = report_of x y now l"
    "\<forall>l \<in> set (pending_legs legs). taken_lots x (wing_key_of l) < taken_lots y (wing_key_of l) \<longrightarrow>
       report_of x y now l \<in> set evs"
proof -
  have un: "\<forall>e \<in> set (unrouted_events (pending_legs legs) cs now z).
      \<exists>l \<in> set (pending_legs legs). e = leg_event l 0 (wl_limit l) now" for cs z
    by (auto simp: unrouted_events_def)
  have "(\<forall>e \<in> set evs. \<exists>l \<in> set (pending_legs legs). e = leg_event l 0 (wl_limit l) now \<or>
       e = report_of x y now l) \<and>
    (\<forall>l \<in> set (pending_legs legs). taken_lots x (wing_key_of l) < taken_lots y (wing_key_of l) \<longrightarrow>
       report_of x y now l \<in> set evs)"
    using take
  proof (cases rule: take_wings33_cases)
    case (1 x1 cs)
    have "taken_lots y k = taken_lots x k" for k
      unfolding 1(3) using cut_legs_orders(1) [OF 1(1)] by (rule minted_leg(4))
    moreover have "\<forall>e \<in> set evs. \<exists>l \<in> set (pending_legs legs). e = leg_event l 0 (wl_limit l) now"
      unfolding 1(4) by (rule un)
    ultimately show ?thesis by (intro conjI ballI impI) (blast, simp)
  next
    case (2 x1 cs x2 ps fs)
    note o = cut_legs_orders [OF 2(1)]
    define x3 where "x3 = fst (count_chunks (pending_legs legs) ps fs cs [] x2)"
    have "same_wings x x3"
      using minted_same [OF o(1)] same_wings_sub_batches [of x lv False "wing_sub_batches x1 cs" x1]
      by (simp add: x3_def count_chunks_same 2(3))
    then have "report_of x3 y now = report_of x y now"
      by (simp add: fun_eq_iff report_of_def same_wings_taken)
    with report_legs_events [OF d, of _ now x3] have
      "evs = unrouted_events (pending_legs legs) cs now x1 @ map (report_of x y now) (pending_legs legs)"
      by (simp add: 2(4,5) x3_def)
    with un [of cs x1] show ?thesis by (auto; blast)
  qed
  then show "\<forall>e \<in> set evs. \<exists>l \<in> set (pending_legs legs). e = leg_event l 0 (wl_limit l) now \<or>
       e = report_of x y now l"
    "\<forall>l \<in> set (pending_legs legs). taken_lots x (wing_key_of l) < taken_lots y (wing_key_of l) \<longrightarrow>
       report_of x y now l \<in> set evs" by blast+
qed

section \<open>The startup sweep\<close>

text \<open>A listed order of the roster: its ticker and its client id carry the roster's prefixes.\<close>

definition own_listed :: "string \<Rightarrow> string \<Rightarrow> json list \<Rightarrow> string \<Rightarrow> bool" where
  "own_listed tp p es path \<longleftrightarrow>
     (\<exists>kvs i c. JObj kvs \<in> set es \<and> json_text (json_field kvs ''order_id'') = Some i \<and>
        json_text (json_field kvs ''client_order_id'') = Some c \<and> starts_with p c \<and>
        starts_with tp (sweep_ticker kvs) \<and>
        path = cancel_path i (json_int (json_field kvs ''exchange_index'')))"

lemma sweep_orders_deletes:
  "\<exists>ws. rx_wire (fst (sweep_orders33 v tp p es x r)) = rx_wire x @ ws \<and>
     (\<forall>w \<in> set ws. \<exists>path. w = W_Delete path \<and> own_listed tp p es path)"
proof (induction es arbitrary: x r)
  case (Cons e es)
  have wider: "own_listed tp p es path \<Longrightarrow> own_listed tp p (e # es) path" for path
    by (auto simp: own_listed_def)
  show ?case
  proof (cases "\<exists>kvs. e = JObj kvs")
    case False
    then have "sweep_orders33 v tp p (e # es) x r = sweep_orders33 v tp p es x r"
      by (cases e) auto
    with Cons.IH [of x r] wider show ?thesis by metis
  next
    case True
    then obtain kvs where e: "e = JObj kvs" by blast
    define one where "one = sweep_one33 v tp p kvs x r"
    have "\<exists>us. rx_wire (fst one) = rx_wire x @ us \<and>
        (\<forall>w \<in> set us. \<exists>path. w = W_Delete path \<and> own_listed tp p (e # es) path)"
    proof (cases "rx_wire (fst one) = rx_wire x")
      case False
      let ?i = "or_default [] (json_text (json_field kvs ''order_id''))"
      let ?path = "cancel_path ?i (json_int (json_field kvs ''exchange_index''))"
      have own: "own_listed tp p (e # es) ?path"
        and wire: "rx_wire (fst one) = rx_wire (fst (rest_delete v ?path x))"
        using False
        by (auto simp: one_def sweep_one33_def Let_def split_beta own_listed_def e or_default_def
            split: if_splits option.splits)
      from delete_only [of v ?path x] wire own show ?thesis by auto
    qed (auto intro: exI [of _ "[]"])
    then obtain us where us: "rx_wire (fst one) = rx_wire x @ us"
      "\<forall>w \<in> set us. \<exists>path. w = W_Delete path \<and> own_listed tp p (e # es) path" by blast
    obtain vs where "rx_wire (fst (sweep_orders33 v tp p es (fst one) (snd one))) = rx_wire (fst one) @ vs"
      "\<forall>w \<in> set vs. \<exists>path. w = W_Delete path \<and> own_listed tp p es path"
      using Cons.IH [of "fst one" "snd one"] by blast
    with us wider show ?thesis
      by (intro exI [of _ "us @ vs"]) (auto simp: e one_def [symmetric] split_beta)
  qed
qed simp

lemma sweep_counts:
  "sp_found r = sp_cancelled r + sp_errors r \<Longrightarrow>
   sp_found (snd (sweep_orders33 v tp p es x r)) =
     sp_cancelled (snd (sweep_orders33 v tp p es x r)) + sp_errors (snd (sweep_orders33 v tp p es x r))"
proof (induction es arbitrary: x r)
  case (Cons e es)
  have "sp_found (snd (sweep_one33 v tp p kvs x r)) =
      sp_cancelled (snd (sweep_one33 v tp p kvs x r)) + sp_errors (snd (sweep_one33 v tp p kvs x r))" for kvs
    using Cons.prems by (simp add: sweep_one33_def Let_def split_beta)
  with Cons show ?case by (simp add: split_beta Let_def split: json.split)
qed simp

end
