(* ===== verification/Ladder_Example.thy ===== *)
theory Ladder_Example
  imports Ladder_Guard
begin

text \<open>
  Worked instances of the ladder executor: a venue that fills one lot of every taker order of at
  least a lot, one whose POSTs time out, and one on which two of the ladder's orders rest; the legs,
  the place and the batch sent to them.
\<close>

section \<open>A venue that fills one lot of an order\<close>

definition ex_slot :: "v2_order \<Rightarrow> (string \<times> json) list" where
  "ex_slot b =
     (case (v2_client_order_id b, parse_decimal (v2_count b)) of
        (Some c, Some q) \<Rightarrow>
          if q < 0 then [] else
          [(''client_order_id'', JStr c), (''order_id'', JStr ''o1''),
           (''fill_count'', JStr (if 1 \<le> q then ''1'' else ''0'')),
           (''average_fill_price'', JStr ''0.40'')]
      | _ \<Rightarrow> [])"

fun ex_fill_reply :: "rest_payload \<Rightarrow> (string \<times> json) list" where
  "ex_fill_reply (Single b) = ex_slot b"
| "ex_fill_reply (Batch bs) = [(''orders'', JList (map (JObj \<circ> ex_slot) bs))]"
| "ex_fill_reply (Amend b) = []"

text \<open>The listing shows the orders of \<open>ids\<close>.\<close>

definition ex_listing :: "(string \<times> string) list \<Rightarrow> json" where
  "ex_listing ids = JObj [(''orders'', JList (map (\<lambda>(i, c).
     JObj [(''order_id'', JStr i), (''client_order_id'', JStr c), (''ticker'', JStr ''KXBTC-B1'')]) ids))]"

definition ex_one_lot :: "(string \<times> string) list \<Rightarrow> ladder_venue" where
  "ex_one_lot ids =
     \<lparr>lv_venue = \<lparr>hv_post = (\<lambda>n path b. Reply (Some 201) (Some (JObj (ex_fill_reply b)))),
                  hv_delete = (\<lambda>n path. Reply (Some 200) (Some (JObj []))),
                  hv_get = (\<lambda>n path. Some (ex_listing ids))\<rparr>,
      lv_clock = (\<lambda>n. (of_nat n, of_nat n + 1))\<rparr>"

definition ex_ladder :: ladder_exec where
  "ex_ladder = new_ladder_exec
     (new_rest_exec [(''B1'', (5/2, 7/2))] [(''B1'', Some 2), (''W1'', Some 2), (''W2'', Some 2)] 1000 60)
     V33_COID_PREFIX 2 8 (Some 2) (new_pacer 100 100 0 30)"

definition ex_leg33 :: "ticker \<Rightarrow> string \<Rightarrow> lots \<Rightarrow> leg33" where
  "ex_leg33 tk side q =
     \<lparr>wl_ticker = tk, wl_side = side, wl_count = q, wl_limit = 1/2, wl_coid = tk, wl_status = Pending,
      wl_fill_price = None, wl_fill_fee = None, wl_batch = 0, wl_last_retry_ts = None, wl_netted = 0\<rparr>"

definition ex_legs33 :: "leg33 list" where
  "ex_legs33 = [ex_leg33 ''W1'' ''yes'' 3, ex_leg33 ''W2'' ''no'' 1]"

definition ex_asked :: "wing_key \<Rightarrow> lots" where
  "ex_asked k = (if k = (0, ''yes'') then 3 else if k = (0, ''no'') then 1 else 0)"

lemma ex_asks [simp]: "legs_ask ex_asked ex_legs33" "asks_hundredths ex_asked"
  by (simp_all add: legs_ask_def pending_legs_def ex_legs33_def ex_leg33_def wing_key_of_def ex_asked_def
      asks_hundredths_def whole_cent_def)

section \<open>A take that is filled in part\<close>

lemma ex_counts: "chunk_counts 2 3 = [2, 1]" "chunk_counts 2 1 = [1]" by code_simp+

lemma taker_body_fields [simp]:
  "v2_client_order_id (taker_body tk s p q e c) = (if c \<noteq> [] then Some c else None)"
  "v2_count (taker_body tk s p q e c) = count_body_str q"
  by (simp_all add: taker_body_def)

lemma ex_wc [simp]: "show_nat (Suc 0) = ''1''" "show_nat (Suc (Suc 0)) = ''2''" "show_nat (Suc (Suc (Suc 0))) = ''3''"
  by code_simp+

definition ex_chunk1 :: wing_chunk where
  "ex_chunk1 = \<lparr>wk_coid = ''v33-wc-1'', wk_key = (0, ''yes''), wk_body = taker_body ''W1'' ''bid'' (1/2) 2 2 ''v33-wc-1''\<rparr>"
definition ex_chunk2 :: wing_chunk where
  "ex_chunk2 = \<lparr>wk_coid = ''v33-wc-2'', wk_key = (0, ''yes''), wk_body = taker_body ''W1'' ''bid'' (1/2) 1 2 ''v33-wc-2''\<rparr>"
definition ex_chunk3 :: wing_chunk where
  "ex_chunk3 = \<lparr>wk_coid = ''v33-wc-3'', wk_key = (0, ''no''), wk_body = taker_body ''W2'' ''ask'' (1/2) 1 2 ''v33-wc-3''\<rparr>"

lemma ex_cut: "\<exists>y. cut_legs ex_legs33 ex_ladder = Inr (y, [ex_chunk1, ex_chunk2, ex_chunk3])"
  by (simp add: ex_legs33_def ex_leg33_def ex_ladder_def new_ladder_exec_def new_rest_exec_def exch_of_def
      taken_lots_def dict_get_default_def wing_key_of_def ex_counts taker_entry_exact mint_wing_coid_def
      bind_r_def own_wings_def with_rest_def own_chunks_def ex_chunk1_def ex_chunk2_def ex_chunk3_def
      V33_COID_PREFIX_def Let_def)

text \<open>Whatever the state, the venue answers a POST of taker orders with one slot each.\<close>

lemma ex_post_reply:
  "snd (post_orders (ex_one_lot ids) bs x) =
     \<lparr>wr_status = Some 201, wr_body = (case bs of [b] \<Rightarrow> ex_slot b
        | _ \<Rightarrow> [(''orders'', JList (map (JObj \<circ> ex_slot) bs))])\<rparr>"
  by (simp add: post_orders_def belt_post_def inherit_def rest_post_def ex_one_lot_def classify_reply_def
      split: list.split)

lemma ex_batch_parsed:
  assumes "length bs \<noteq> 1"
  shows "parsed_orders side (length bs) (snd (post_orders (ex_one_lot ids) bs x)) =
    map (\<lambda>b. parse_entry_response (JObj (ex_slot b))) bs"
  using assms
  by (cases bs rule: remdups_adj.cases)
    (simp_all add: ex_post_reply parsed_orders_def wr_ok_def parse_batch_response_def)

lemma ex_slot_parsed:
  assumes "v2_client_order_id b = Some c" "parse_decimal (v2_count b) = Some q" "0 \<le> q"
  shows "or_client_order_id (parse_entry_response (JObj (ex_slot b))) = Some c"
    "or_fill_count (parse_entry_response (JObj (ex_slot b))) = (if 1 \<le> q then 1 else 0)"
    "or_error (parse_entry_response (JObj (ex_slot b))) = None"
proof -
  have texts: "parse_decimal ''1'' = Some 1" "parse_decimal ''0'' = Some 0" by code_simp+
  show "or_client_order_id (parse_entry_response (JObj (ex_slot b))) = Some c"
    "or_fill_count (parse_entry_response (JObj (ex_slot b))) = (if 1 \<le> q then 1 else 0)"
    "or_error (parse_entry_response (JObj (ex_slot b))) = None"
    using assms
    by (simp_all add: ex_slot_def parse_entry_response_def json_field_def json_text_def dec0_def
        to_decimal_def texts or_default_def json_truthy_def Let_def)
qed

lemma ex_slot_named:
  assumes "or_client_order_id (parse_entry_response (JObj (ex_slot b))) = Some c"
  shows "v2_client_order_id b = Some c"
    "\<exists>q. parse_decimal (v2_count b) = Some q \<and> 0 \<le> q \<and>
       or_fill_count (parse_entry_response (JObj (ex_slot b))) = (if 1 \<le> q then 1 else 0)"
proof -
  have none: "or_client_order_id (parse_entry_response (JObj [])) = None"
    by (simp add: parse_entry_response_def json_field_def json_text_def Let_def)
  obtain d q where d: "v2_client_order_id b = Some d" "parse_decimal (v2_count b) = Some q" "0 \<le> q"
    using assms none
    by (cases "v2_client_order_id b"; cases "parse_decimal (v2_count b)")
      (auto simp: ex_slot_def split: if_splits)
  with assms ex_slot_parsed [OF d] d(2,3) show "v2_client_order_id b = Some c"
    "\<exists>q. parse_decimal (v2_count b) = Some q \<and> 0 \<le> q \<and>
       or_fill_count (parse_entry_response (JObj (ex_slot b))) = (if 1 \<le> q then 1 else 0)" by simp_all
qed

lemma ex_slot_no_order: "map_of (ex_slot b) ''order'' = None"
  by (simp add: ex_slot_def split: option.split)

lemma parse_as_unwrapped:
  assumes "map_of kvs ''order'' = None" "or_client_order_id (parse_as side (JObj kvs)) = Some c"
  shows "or_client_order_id (parse_entry_response (JObj kvs)) = Some c"
    "or_fill_count (parse_as side (JObj kvs)) = or_fill_count (parse_entry_response (JObj kvs))"
  using assms
  by (auto simp: parse_as_def parse_single_response_def no_fill_response_def normalize_fill_to_side_def
      Let_def split: option.splits if_splits)

lemma ex_within: "fills_within (lv_venue (ex_one_lot ids))"
proof -
  have slot: "\<exists>b' \<in> set bs. v2_client_order_id b' = Some c \<and>
      (\<exists>q. parse_decimal (v2_count b') = Some q \<and> or_fill_count r \<le> q) \<and> whole_cent (or_fill_count r)"
    if "b \<in> set bs" "or_client_order_id (parse_entry_response (JObj (ex_slot b))) = Some c"
      "or_fill_count r = or_fill_count (parse_entry_response (JObj (ex_slot b)))" for b bs c r
    using that ex_slot_named [OF that(2)] by (auto simp: whole_cent_def split: if_splits)
  have reply: "classify_reply (hv_post (lv_venue (ex_one_lot ids)) n path body) =
      \<lparr>wr_status = Some 201, wr_body = ex_fill_reply body\<rparr>" for n path body
    by (simp add: ex_one_lot_def classify_reply_def)
  have "\<exists>b \<in> set (payload_orders body). v2_client_order_id b = Some c \<and>
      (\<exists>q. parse_decimal (v2_count b) = Some q \<and> or_fill_count r \<le> q) \<and> whole_cent (or_fill_count r)"
    if r: "r \<in> set (parsed_orders side (length (payload_orders body))
        \<lparr>wr_status = Some 201, wr_body = ex_fill_reply body\<rparr>)" and c: "or_client_order_id r = Some c"
    for body side r c
  proof (cases body)
    case (Single b)
    with r have "r = parse_as side (JObj (ex_slot b))" by (simp add: parsed_orders_def wr_ok_def)
    with parse_as_unwrapped [OF ex_slot_no_order] c Single show ?thesis by (intro slot [of b]) auto
  next
    case (Batch bs)
    show ?thesis
    proof (cases "length bs = 1")
      case True
      have "or_client_order_id (parse_entry_response (JObj [(''orders'', j)])) = None" for j
        by (simp add: parse_entry_response_def json_field_def json_text_def Let_def)
      with True r c Batch parse_as_unwrapped(1) [of "[(''orders'', JList (map (JObj \<circ> ex_slot) bs))]" side c]
      show ?thesis by (auto simp: parsed_orders_def wr_ok_def)
    next
      case False
      with r Batch obtain b where "b \<in> set bs" "r = parse_entry_response (JObj (ex_slot b))"
        by (auto simp: parsed_orders_def wr_ok_def parse_batch_response_def)
      with c Batch show ?thesis by (intro slot [of b]) auto
    qed
  next
    case (Amend b)
    with r c show ?thesis
      by (auto simp: parsed_orders_def wr_ok_def parse_batch_response_def no_fill_response_def)
  qed
  then show ?thesis unfolding fills_within_def reply by blast
qed

text \<open>Against it the first take buys two of three lots on one side, one of one on the other.\<close>

lemma ex_batches:
  assumes "pc_size (lx_pacer x) = 100"
  shows "wing_sub_batches x [ex_chunk1, ex_chunk2, ex_chunk3] = [[ex_chunk1, ex_chunk3, ex_chunk2]]"
proof -
  have max: "wing_batch_max_orders 100 = 8" by code_simp
  have "split_wing_batches [((0::nat, ''yes''), c1), ((0, ''yes''), c2), ((0, ''no''), c3)] 8 = [[c1, c3, c2]]"
    for c1 c2 c3 :: wing_chunk
    by (simp add: split_wing_batches_def dict_get_default_def interleave.simps cut_every.simps)
  then show ?thesis
    by (simp add: wing_sub_batches_def assms max ex_chunk1_def ex_chunk2_def ex_chunk3_def)
qed

definition ex_slots :: "order_response list" where
  "ex_slots = map (\<lambda>c. parse_entry_response (JObj (ex_slot (wk_body c)))) [ex_chunk1, ex_chunk3, ex_chunk2]"

lemma ex_sent:
  assumes "pc_size (lx_pacer x) = 100"
  shows "snd (send_sub_batches (ex_one_lot ids) False
      (wing_sub_batches x [ex_chunk1, ex_chunk2, ex_chunk3]) x) = (ex_slots, [])"
proof -
  let ?bs = "map wk_body [ex_chunk1, ex_chunk3, ex_chunk2]"
  have parsed: "parsed_orders side (Suc (Suc (Suc 0))) (snd (post_orders (ex_one_lot ids) ?bs y)) = ex_slots" for side y
    using ex_batch_parsed [of ?bs side ids y] by (simp add: ex_slots_def)
  have ok: "wr_ok (snd (post_orders (ex_one_lot ids) ?bs y))" for y
    by (simp add: ex_post_reply wr_ok_def)
  show ?thesis
    unfolding ex_batches [OF assms] using parsed ok by (simp add: split_beta Let_def)
qed

lemma ex_chunk_counts:
  "parse_decimal (v2_count (wk_body ex_chunk1)) = Some 2"
  "parse_decimal (v2_count (wk_body ex_chunk2)) = Some 1"
  "parse_decimal (v2_count (wk_body ex_chunk3)) = Some 1"
  by (simp_all add: ex_chunk1_def ex_chunk2_def ex_chunk3_def parse_count_body whole_cent_def)

lemma ex_fill_one:
  assumes "c \<in> {ex_chunk1, ex_chunk2, ex_chunk3}" shows "chunk_fill ex_slots [] c = 1"
proof -
  have ids: "v2_client_order_id (wk_body ex_chunk1) = Some ''v33-wc-1''"
    "v2_client_order_id (wk_body ex_chunk2) = Some ''v33-wc-2''"
    "v2_client_order_id (wk_body ex_chunk3) = Some ''v33-wc-3''"
    by (simp_all add: ex_chunk1_def ex_chunk2_def ex_chunk3_def)
  note p = ex_slot_parsed [OF ids(1) ex_chunk_counts(1)] ex_slot_parsed [OF ids(2) ex_chunk_counts(2)]
    ex_slot_parsed [OF ids(3) ex_chunk_counts(3)]
  have coids: "wk_coid ex_chunk1 = ''v33-wc-1''" "wk_coid ex_chunk2 = ''v33-wc-2''"
    "wk_coid ex_chunk3 = ''v33-wc-3''" by (simp_all add: ex_chunk1_def ex_chunk2_def ex_chunk3_def)
  from assms show ?thesis
    by (auto simp: chunk_fill_def chunk_slot_def slot_filled_def ex_slots_def p coids)
qed

lemma ex_take_taken:
  "\<exists>y evs. take_wings33 (ex_one_lot ids) ex_legs33 10 ex_ladder = Inr (y, evs) \<and>
     taken_lots y (0, ''yes'') = 2 \<and> taken_lots y (0, ''no'') = 1"
proof -
  obtain x1 where "cut_legs ex_legs33 ex_ladder = Inr (x1, [ex_chunk1, ex_chunk2, ex_chunk3])"
    using ex_cut by blast
  moreover have pending: "pending_legs ex_legs33 = ex_legs33"
    by (simp add: pending_legs_def ex_legs33_def ex_leg33_def)
  ultimately have cut: "cut_legs (pending_legs ex_legs33) ex_ladder = Inr (x1, [ex_chunk1, ex_chunk2, ex_chunk3])"
    by simp
  have "pc_size (lx_pacer x1) = 100"
    using cut_legs_orders(1) [OF cut]
    by (simp add: minted_def ex_ladder_def new_ladder_exec_def new_pacer_def)
  from ex_sent [OF this, of ids] obtain x2 where sent: "send_sub_batches (ex_one_lot ids) False
      (wing_sub_batches x1 [ex_chunk1, ex_chunk2, ex_chunk3]) x1 = (x2, ex_slots, [])"
    by (metis prod.collapse)
  have d: "distinct (map wing_key_of (pending_legs ex_legs33))"
    using ex_asks(1) by (simp add: legs_ask_def)
  define x3 t where "x3 = fst (count_chunks (pending_legs ex_legs33) ex_slots [] [ex_chunk1, ex_chunk2, ex_chunk3] [] x2)"
    and "t = snd (count_chunks (pending_legs ex_legs33) ex_slots [] [ex_chunk1, ex_chunk2, ex_chunk3] [] x2)"
  define y where "y = fst (report_legs t 10 (pending_legs ex_legs33) x3)"
  have take: "\<exists>evs. take_wings33 (ex_one_lot ids) ex_legs33 10 ex_ladder = Inr (y, evs)"
    unfolding take_wings33_def Let_def cut bind_r_simps prod.case
    by (simp add: sent split_beta y_def t_def x3_def)
  have taken: "taken_lots y k = taken_lots ex_ladder k + fills_for ex_slots [] k [ex_chunk1, ex_chunk2, ex_chunk3]" for k
    by (rule take_adds(1) [OF d cut sent]) (simp add: y_def t_def x3_def)
  have "taken_lots ex_ladder k = 0" for k
    by (simp add: ex_ladder_def new_ladder_exec_def taken_lots_def dict_get_default_def)
  moreover have "wk_key ex_chunk1 = (0, ''yes'')" "wk_key ex_chunk2 = (0, ''yes'')"
    "wk_key ex_chunk3 = (0, ''no'')" by (simp_all add: ex_chunk1_def ex_chunk2_def ex_chunk3_def)
  ultimately show ?thesis using take taken by (auto simp: ex_fill_one)
qed

lemma ex_ladder_run:
  obtains y where "ladder_step (legs_ask ex_asked) (ex_one_lot ids) ex_ladder y"
    "taken_lots y (0, ''yes'') = 2" "taken_lots y (0, ''no'') = 1"
proof -
  obtain y evs where y: "take_wings33 (ex_one_lot ids) ex_legs33 10 ex_ladder = Inr (y, evs)"
    "taken_lots y (0, ''yes'') = 2" "taken_lots y (0, ''no'') = 1" using ex_take_taken by blast
  have "on_action33 (ex_one_lot ids) (blank_action33 (Inherited TAKE_WINGS)) ex_legs33 10 ex_ladder = Inr (y, evs)"
    by (simp add: on_action33_def blank_action33_def y(1))
  from ladder_step.action [where L = "legs_ask ex_asked", OF this ex_asks(1)] y(2,3) that show thesis by simp
qed

section \<open>A place and a run of creates\<close>

definition ex_place33 :: v33_action where
  "ex_place33 = (blank_action33 (Inherited PLACE_REST))
     \<lparr>y_ticker := Some ''B1'', y_coid := Some ''v33-a'', y_price := Some (2/5), y_count := 2\<rparr>"

lemma ex_nothing_listed: "snd (ladder_listing (ex_one_lot []) now x) = []"
  by (simp add: ladder_listing_def inherit_def venue_resting_ours_def rest_get_def ex_one_lot_def
      ex_listing_def)

lemma ex_place33_runs: "\<exists>y evs. on_action33 (ex_one_lot []) ex_place33 [] 10 ex_ladder = Inr (y, evs)"
proof -
  have "\<exists>res. place_rest33 lv a now x = Inr res" for lv a now x
    by (simp add: place_rest33_def rest_body_exact bind_r_def split_beta Let_def split: option.split)
  then obtain res where "place_rest33 (ex_one_lot []) (order_view ex_place33) 10
      (ex_ladder\<lparr>lx_pending_price := y_price ex_place33\<rparr>) = Inr res" by blast
  then show ?thesis
    by (cases res) (simp add: on_action33_def ex_place33_def blank_action33_def)
qed

text \<open>Seven creates at once from a full bucket of a hundred: an eighth waits for the reserve.\<close>

definition ex_creates :: "((time \<times> time) \<times> write_req) list" where
  "ex_creates = replicate 7 ((0, 0), plain_write COST_CREATE)"

end
