(* ===== verification/Ladder_Properties.thy ===== *)
theory Ladder_Properties
  imports Ladder_Example
begin

text \<open>
  The properties of the V3.3 maker executor, its pacer and its startup sweep, each with an instance
  where it has hypotheses, and three behaviours its comments do not promise.
\<close>

section \<open>Wing takes\<close>

text \<open>
  C5. In any run of a new ladder executor whose takes and retries ask the same lots of a leg, against
  a venue whose replies report an order filled at most to its count, no leg is counted as bought
  beyond its lots, and the wing lots captured for the money math are exactly the lots counted, over
  all legs, orders and retries.
\<close>

theorem ladder_never_overhedges:
  assumes "(ladder_step (legs_ask f) lv)\<^sup>*\<^sup>*
      (new_ladder_exec (new_rest_exec bm exch ce qs) pre k bmax cap p) x"
    and "fills_within (lv_venue lv)" and "asks_hundredths f"
  shows "(\<forall>k. 0 \<le> taken_lots x k \<and> taken_lots x k \<le> f k) \<and>
    wing_lots (lx_rest x) = dict_total (lx_wing_filled x)"
  using run_within [OF assms hedge_within_new [OF assms(3) wing_lots_new]]
  unfolding hedge_within_def by blast

theorem ladder_never_overhedges_witness:
  "\<exists>x. (ladder_step (legs_ask ex_asked) (ex_one_lot []))\<^sup>*\<^sup>* ex_ladder x \<and>
     taken_lots x (0, ''yes'') = 2 \<and> taken_lots x (0, ''yes'') \<le> ex_asked (0, ''yes'') \<and>
     wing_lots (lx_rest x) = dict_total (lx_wing_filled x)"
proof -
  obtain y where y: "ladder_step (legs_ask ex_asked) (ex_one_lot []) ex_ladder y"
    "taken_lots y (0, ''yes'') = 2" "taken_lots y (0, ''no'') = 1" by (rule ex_ladder_run)
  have run: "(ladder_step (legs_ask ex_asked) (ex_one_lot []))\<^sup>*\<^sup>* ex_ladder y"
    using y(1) by (rule r_into_rtranclp)
  from ladder_never_overhedges [OF run [unfolded ex_ladder_def] ex_within ex_asks(2)] y(2) run
  show ?thesis by blast
qed

text \<open>
  C26. What a take reports. In any run of a new executor whose takes and retries ask the same lots
  of a leg, in hundredths, against a venue that fills an order at most to its count: the wing
  captures before the take belong to legs so that the executor's two running totals, lots and
  price times lots, are their sums per leg, and the take extends these books by one capture per
  order of its own that a slot of the replies filled, under that order's leg. Every event is a leg's:
  nothing filled at the leg's limit, or all its lots at the average price of its captures over
  every take so far, the latter only when all its lots are bought; and a leg whose last lots this
  take bought has that event.
\<close>

theorem ladder_take_reports:
  assumes "(ladder_step (legs_ask f) lv)\<^sup>*\<^sup>*
      (new_ladder_exec (new_rest_exec bm exch ce qs) pre k bmax cap p) x"
    and "fills_within (lv_venue lv)" and "asks_hundredths f" and "legs_ask f legs"
    and "take_wings33 lv legs now x = Inr (y, evs)"
  shows "\<exists>past x1 chunks x2 slots failed.
    cut_legs (pending_legs legs) x = Inr (x1, chunks) \<and>
    send_sub_batches lv False (wing_sub_batches x1 chunks) x1 = (x2, slots, failed) \<and>
    (let book = past @ chunk_captures (pending_legs legs) slots failed chunks;
         full = (\<lambda>l. leg_event l (wl_count l) (key_notional book (wing_key_of l) / wl_count l) now)
     in wing_ledger past x \<and> wing_ledger book y \<and>
       (\<forall>e \<in> set evs. \<exists>l \<in> set (pending_legs legs).
          e = leg_event l 0 (wl_limit l) now \<or>
          (key_lots book (wing_key_of l) = wl_count l \<and> e = full l)) \<and>
       (\<forall>l \<in> set (pending_legs legs).
          key_lots past (wing_key_of l) < wl_count l \<and> key_lots book (wing_key_of l) = wl_count l \<longrightarrow>
          full l \<in> set evs))"
proof -
  have x: "hedge_within f x" by (rule run_within [OF assms(1-3) hedge_within_new [OF assms(3) wing_lots_new]])
  have y: "hedge_within f y" by (rule take_within [OF assms(2) x assms(4,3,5)])
  have d: "distinct (map wing_key_of (pending_legs legs))" using assms(4) by (simp add: legs_ask_def)
  obtain past where past: "wing_ledger past x"
    using run_ledger [OF assms(1) wing_ledger_new] by (auto simp: legs_ask_def)
  obtain x1 chunks x2 slots failed where cut: "cut_legs (pending_legs legs) x = Inr (x1, chunks)"
    and sent: "send_sub_batches lv False (wing_sub_batches x1 chunks) x1 = (x2, slots, failed)"
    and book: "wing_ledger (past @ chunk_captures (pending_legs legs) slots failed chunks) y"
    by (rule take_ledger [OF d past assms(5)])
  define b where "b = past @ chunk_captures (pending_legs legs) slots failed chunks"
  define full where "full l = leg_event l (wl_count l) (key_notional b (wing_key_of l) / wl_count l) now" for l
  have sums: "taken_lots x k = key_lots past k" "taken_lots y k = key_lots b k"
    "notional_of y k = key_notional b k" for k
    unfolding b_def by (rule wing_ledgerD [OF past] wing_ledgerD [OF book])+
  have low: "0 \<le> taken_lots x (wing_key_of l)" for l using x unfolding hedge_within_def by blast
  have top: "taken_lots y (wing_key_of l) \<le> wl_count l" if "l \<in> set (pending_legs legs)" for l
    using y assms(4) that unfolding hedge_within_def legs_ask_def by metis
  have rep: "report_of x y now l =
      (if taken_lots y (wing_key_of l) = wl_count l \<and> taken_lots x (wing_key_of l) < wl_count l
       then full l else leg_event l 0 (wl_limit l) now)" if "l \<in> set (pending_legs legs)" for l
  proof (cases "taken_lots y (wing_key_of l) = wl_count l \<and> taken_lots x (wing_key_of l) < wl_count l")
    case True
    moreover from this low [of l] have "wl_count l \<noteq> 0" by linarith
    ultimately show ?thesis by (simp add: report_of_def Let_def full_def sums(3))
  next
    case False
    with top [OF that] have short: "\<not> (wl_count l \<le> taken_lots y (wing_key_of l) \<and>
        taken_lots x (wing_key_of l) < taken_lots y (wing_key_of l))" by linarith
    show ?thesis unfolding report_of_def Let_def if_not_P [OF short] if_not_P [OF False] ..
  qed
  note ev = take_events [OF assms(5) d]
  have each: "\<forall>e \<in> set evs. \<exists>l \<in> set (pending_legs legs).
      e = leg_event l 0 (wl_limit l) now \<or> (key_lots b (wing_key_of l) = wl_count l \<and> e = full l)"
  proof
    fix e assume "e \<in> set evs"
    with ev(1) obtain l where l: "l \<in> set (pending_legs legs)"
      "e = leg_event l 0 (wl_limit l) now \<or> e = report_of x y now l" by blast
    with rep [OF l(1)] show "\<exists>l \<in> set (pending_legs legs).
        e = leg_event l 0 (wl_limit l) now \<or> (key_lots b (wing_key_of l) = wl_count l \<and> e = full l)"
      by (intro bexI [OF _ l(1)]) (auto simp: sums split: if_splits)
  qed
  have reached: "\<forall>l \<in> set (pending_legs legs). key_lots past (wing_key_of l) < wl_count l \<and>
      key_lots b (wing_key_of l) = wl_count l \<longrightarrow> full l \<in> set evs"
    using ev(2) rep by (auto simp: sums)
  show ?thesis
    using cut sent past book each reached unfolding b_def full_def Let_def by blast
qed

theorem ladder_take_reports_witness:
  "\<exists>y evs book. take_wings33 (ex_one_lot []) ex_legs33 10 ex_ladder = Inr (y, evs) \<and>
     wing_ledger book y \<and> key_lots book (0, ''no'') = 1 \<and>
     leg_event (ex_leg33 ''W2'' ''no'' 1) 1 (key_notional book (0, ''no'') / 1) 10 \<in> set evs"
proof -
  obtain y evs where y: "take_wings33 (ex_one_lot []) ex_legs33 10 ex_ladder = Inr (y, evs)"
    "taken_lots y (0, ''yes'') = 2" "taken_lots y (0, ''no'') = 1" using ex_take_taken by blast
  have leg: "ex_leg33 ''W2'' ''no'' 1 \<in> set (pending_legs ex_legs33)"
    "wing_key_of (ex_leg33 ''W2'' ''no'' 1) = (0, ''no'')" "wl_count (ex_leg33 ''W2'' ''no'' 1) = 1"
    by (simp_all add: pending_legs_def ex_legs33_def ex_leg33_def wing_key_of_def)
  have new: "taken_lots ex_ladder k = 0" for k
    by (simp add: ex_ladder_def new_ladder_exec_def taken_lots_def dict_get_default_def)
  obtain past new_book where past: "wing_ledger past ex_ladder" and book: "wing_ledger new_book y"
    and full: "\<forall>l \<in> set (pending_legs ex_legs33).
      key_lots past (wing_key_of l) < wl_count l \<and> key_lots new_book (wing_key_of l) = wl_count l \<longrightarrow>
      leg_event l (wl_count l) (key_notional new_book (wing_key_of l) / wl_count l) 10 \<in> set evs"
    using ladder_take_reports [OF rtranclp.rtrancl_refl ex_within ex_asks(2,1) y(1) [unfolded ex_ladder_def],
        folded ex_ladder_def] unfolding Let_def by (elim exE conjE) (rule that)
  have sums: "key_lots past k = 0" "key_lots new_book k = taken_lots y k" for k
    using wing_ledgerD(1) [OF past, of k] wing_ledgerD(1) [OF book, of k] new [of k] by simp_all
  have "leg_event (ex_leg33 ''W2'' ''no'' 1) 1 (key_notional new_book (0, ''no'') / 1) 10 \<in> set evs"
    using full [rule_format, OF leg(1), unfolded leg(2,3)] sums y(3) by simp
  with y(1,3) book sums(2) show ?thesis by (intro exI [of _ y] exI [of _ evs] exI [of _ new_book]) simp
qed

text \<open>
  C20. Every POST of a take carries at least one order and no more than eight, together within the
  bucket's size when it holds one order's tokens, and every order's count is positive and within the
  proxy's cap.
\<close>

theorem ladder_wing_posts_bounded:
  assumes "(ladder_step (legs_ask f) lv)\<^sup>*\<^sup>*
      (new_ladder_exec (new_rest_exec bm exch ce qs) pre k bmax cap p) x"
    and "fills_within (lv_venue lv)" and "asks_hundredths f" and "legs_ask f legs"
    and "take_wings33 lv legs now x = Inr (y, evs)"
  shows "\<exists>ws. posts (lx_rest y) = posts (lx_rest x) @ ws \<and>
    (\<forall>w \<in> set ws. \<exists>path body. w = W_Post path body \<and>
       0 < length (payload_orders body) \<and> length (payload_orders body) \<le> 8 \<and>
       (COST_CREATE \<le> pc_size (lx_pacer x) \<longrightarrow>
          COST_CREATE * of_nat (length (payload_orders body)) \<le> pc_size (lx_pacer x)) \<and>
       (\<forall>b \<in> set (payload_orders body). capped_order (lx_wing_cap x) b))"
proof -
  have x: "hedge_within f x" by (rule run_within [OF assms(1-3) hedge_within_new [OF assms(3) wing_lots_new]])
  obtain ws where ws: "posts (lx_rest y) = posts (lx_rest x) @ ws"
    "\<forall>w \<in> set ws. \<exists>path body. w = W_Post path body \<and> 0 < length (payload_orders body) \<and>
       length (payload_orders body) \<le> wing_batch_max_orders (pc_size (lx_pacer x)) \<and>
       (\<forall>b \<in> set (payload_orders body). capped_order (lx_wing_cap x) b)"
    using take_posts [OF assms(5) x assms(4,3)] by blast
  have fits: "n \<le> 8 \<and> (COST_CREATE \<le> pc_size (lx_pacer x) \<longrightarrow>
      COST_CREATE * of_nat n \<le> pc_size (lx_pacer x))"
    if "n \<le> wing_batch_max_orders (pc_size (lx_pacer x))" for n
  proof -
    have "COST_CREATE * of_nat n \<le> COST_CREATE * of_nat (wing_batch_max_orders (pc_size (lx_pacer x)))"
      using that by (simp add: COST_CREATE_def)
    with that wing_batch_max_orders_bounds [of "pc_size (lx_pacer x)"] show ?thesis
      by (auto intro: order_trans)
  qed
  have "\<exists>path body. w = W_Post path body \<and>
       0 < length (payload_orders body) \<and> length (payload_orders body) \<le> 8 \<and>
       (COST_CREATE \<le> pc_size (lx_pacer x) \<longrightarrow>
          COST_CREATE * of_nat (length (payload_orders body)) \<le> pc_size (lx_pacer x)) \<and>
       (\<forall>b \<in> set (payload_orders body). capped_order (lx_wing_cap x) b)" if "w \<in> set ws" for w
  proof -
    obtain path body where b: "w = W_Post path body" "0 < length (payload_orders body)"
      "length (payload_orders body) \<le> wing_batch_max_orders (pc_size (lx_pacer x))"
      "\<forall>b \<in> set (payload_orders body). capped_order (lx_wing_cap x) b" using ws(2) \<open>w \<in> set ws\<close> by blast
    with fits [OF b(3)] show ?thesis by (intro exI [of _ path] exI [of _ body]) auto
  qed
  with ws(1) show ?thesis by blast
qed

theorem ladder_wing_posts_bounded_witness:
  "\<exists>y evs ws. take_wings33 (ex_one_lot []) ex_legs33 10 ex_ladder = Inr (y, evs) \<and>
     posts (lx_rest y) = ws \<and> (\<forall>w \<in> set ws. \<exists>path body. w = W_Post path body \<and>
       length (payload_orders body) \<le> 8 \<and> (\<forall>b \<in> set (payload_orders body). capped_order 2 b))"
proof -
  obtain y evs where y: "take_wings33 (ex_one_lot []) ex_legs33 10 ex_ladder = Inr (y, evs)"
    using ex_take_taken by blast
  have new: "posts (lx_rest ex_ladder) = []" "lx_wing_cap ex_ladder = 2"
    by (simp_all add: ex_ladder_def new_ladder_exec_def new_rest_exec_def posts_def)
  from ladder_wing_posts_bounded [OF rtranclp.rtrancl_refl ex_within ex_asks(2,1) y [unfolded ex_ladder_def]]
    y new [unfolded ex_ladder_def]
  show ?thesis by (intro exI [of _ y] exI [of _ evs] exI [of _ "posts (lx_rest y)"]) auto
qed

section \<open>Places\<close>



section \<open>The pacer\<close>

text \<open>
  C30. Whatever writes went before, while the clock does not run backwards, a write that can wait
  and whose cost above its floor fits the bucket leaves at least its floor (the reserve, or nothing
  for a priority write), and all writes so far cost at most the bucket less that floor and what was
  refilled since the start.
\<close>

theorem pacer_keeps_reserve:
  assumes "run_flows (new_pacer rate bsize t0 res) (qs @ [(ts, q)])"
    and "0 < rate" and "\<forall>w \<in> set (qs @ [(ts, q)]). 0 \<le> wq_cost (snd w)"
    and "\<not> wq_priority q \<or> wq_fit q"
  defines "start \<equiv> new_pacer rate bsize t0 res"
  defines "p \<equiv> paced_run start (qs @ [(ts, q)])"
  assumes "wq_cost q + write_floor start q \<le> bsize"
  shows "write_floor start q \<le> pc_tokens p \<and>
    run_cost (qs @ [(ts, q)]) \<le> bsize - write_floor start q + (pc_last p - t0) * rate"
proof -
  have ok: "pacer_ok start" using assms(2) by (simp add: start_def pacer_ok_def new_pacer_def)
  have new: "pc_rate start = rate" "pc_size start = bsize" "pc_tokens start = bsize" "pc_last start = t0"
    by (simp_all add: start_def new_pacer_def)
  have flows: "run_flows start qs" "time_flows (paced_run start qs) ts q"
    using assms(1) by (simp_all add: start_def [symmetric] run_flows_append)
  have costs: "\<forall>w \<in> set qs. 0 \<le> wq_cost (snd w)" using assms(3) by simp
  have floor: "write_floor (paced_run start qs) q = write_floor start q"
    by (simp add: write_floor_def)
  have "write_floor start q \<le> pc_tokens p"
    using acquire_leaves [OF run_pays(1) [OF ok flows(1) costs] flows(2) assms(4)] assms(7)
    by (simp add: p_def paced_run_append floor new)
  moreover have "run_cost (qs @ [(ts, q)]) + pc_tokens p \<le> bsize + (pc_last p - t0) * rate"
    using run_pays(2) [OF ok assms(1) [folded start_def] assms(3)] by (simp add: p_def new)
  ultimately show ?thesis by linarith
qed

theorem pacer_keeps_reserve_witness:
  "30 \<le> pc_tokens (paced_run (new_pacer 100 100 0 30) (ex_creates @ [((0, 1), plain_write COST_CREATE)])) \<and>
   run_cost (ex_creates @ [((0, 1), plain_write COST_CREATE)]) \<le> 100 - 30 + (1 - 0) * 100"
proof -
  let ?qs = "ex_creates @ [((0, 1), plain_write COST_CREATE)]"
  have flows: "run_flows (new_pacer 100 100 0 30) ?qs" by code_simp
  have costs: "\<forall>w \<in> set ?qs. 0 \<le> wq_cost (snd w)" by code_simp
  have last: "pc_last (paced_run (new_pacer 100 100 0 30) ?qs) = 1" by code_simp
  have room: "\<not> wq_priority (plain_write COST_CREATE) \<or> wq_fit (plain_write COST_CREATE)"
    "wq_cost (plain_write COST_CREATE) + write_floor (new_pacer 100 100 0 30) (plain_write COST_CREATE) \<le> 100"
    "write_floor (new_pacer 100 100 0 30) (plain_write COST_CREATE) = 30" by code_simp+
  from pacer_keeps_reserve [OF flows _ costs room(1,2)] show ?thesis by (simp add: last room(3))
qed

section \<open>Records and the startup sweep\<close>

text \<open>
  In any run of a new ladder executor what is recorded, sent, captured and journalled is only
  extended, each order id's rest fill is captured once, and the first stand-down reason stays.
\<close>

theorem ladder_records_kept:
  assumes "(ladder_step L lv)\<^sup>*\<^sup>*
      (new_ladder_exec (new_rest_exec bm exch ce qs) pre k bmax cap p) x"
    and "(ladder_step L lv)\<^sup>*\<^sup>* x y"
  shows "(attribute (lx_rest x) c i \<noteq> None \<longrightarrow> attribute (lx_rest y) c i \<noteq> None) \<and>
    distinct (rx_booked_oids (lx_rest y)) \<and>
    (rx_stand_down (lx_rest x) \<noteq> None \<longrightarrow> rx_stand_down (lx_rest y) = rx_stand_down (lx_rest x)) \<and>
    prefix (rx_wire (lx_rest x)) (rx_wire (lx_rest y)) \<and>
    prefix (rx_fills (lx_rest x)) (rx_fills (lx_rest y)) \<and>
    prefix (rx_journal (lx_rest x)) (rx_journal (lx_rest y))"
proof -
  have base: "exec_ok (lx_rest (new_ladder_exec (new_rest_exec bm exch ce qs) pre k bmax cap p))"
    by (simp add: new_ladder_exec_def)
  have ok: "exec_ok (lx_rest x)" by (rule ok.keep_ladder_run [OF assms(1) base])
  then have oks: "exec_ok (lx_rest x)" "exec_ok (lx_rest y)"
    using ok.keep_ladder_run [OF assms(2)] by simp_all
  have le: "exec_le (lx_rest x) (lx_rest y)" by (rule kept.keep_ladder_run [OF assms(2)]) simp
  have "attribute (lx_rest x) c i \<noteq> None \<longrightarrow> attribute (lx_rest y) c i \<noteq> None"
    using attribute_kept [OF le oks] by blast
  with oks(2) le show ?thesis by (simp add: exec_ok_def exec_le_def)
qed

text \<open>
  The startup sweep reads the listing once and then only deletes orders listed there under its own
  ticker and client-id prefixes; every order it found is counted as cancelled or as an error; and
  the prefixes of the three rosters exclude one another.
\<close>

theorem ladder_sweep_own_roster:
  assumes "cancel_stale_open_orders33 v tp p x = (y, r)"
  shows "sp_found r = sp_cancelled r + sp_errors r"
    and "\<exists>ws. rx_wire y = rx_wire x @ W_Get (OPEN_ORDERS_PATH @ ''?status=resting'') # ws \<and>
      (ws \<noteq> [] \<longrightarrow> (\<exists>kvs es. hv_get v (length (rx_wire x)) (OPEN_ORDERS_PATH @ ''?status=resting'') =
           Some (JObj kvs) \<and> map_of kvs ''orders'' = Some (JList es) \<and>
         (\<forall>w \<in> set ws. \<exists>path. w = W_Delete path \<and> own_listed tp p es path)))"
proof -
  let ?path = "OPEN_ORDERS_PATH @ ''?status=resting''"
  let ?none = "\<lparr>sp_found = 0, sp_cancelled = 0, sp_errors = 0, sp_skipped = 0\<rparr>"
  let ?read = "x\<lparr>rx_wire := rx_wire x @ [W_Get ?path]\<rparr>"
  show "sp_found r = sp_cancelled r + sp_errors r"
    using assms sweep_counts [where r = ?none and tp = tp and p = p and v = v and x = ?read]
    by (auto simp: cancel_stale_open_orders33_def rest_get_def split_beta Let_def
        split: option.splits json.splits)
  show "\<exists>ws. rx_wire y = rx_wire x @ W_Get ?path # ws \<and>
      (ws \<noteq> [] \<longrightarrow> (\<exists>kvs es. hv_get v (length (rx_wire x)) ?path = Some (JObj kvs) \<and>
         map_of kvs ''orders'' = Some (JList es) \<and>
         (\<forall>w \<in> set ws. \<exists>path. w = W_Delete path \<and> own_listed tp p es path)))"
  proof (cases "\<exists>kvs es. hv_get v (length (rx_wire x)) ?path = Some (JObj kvs) \<and>
      map_of kvs ''orders'' = Some (JList es)")
    case True
    then obtain kvs es where listed: "hv_get v (length (rx_wire x)) ?path = Some (JObj kvs)"
      "map_of kvs ''orders'' = Some (JList es)" by blast
    have "rx_wire y = rx_wire (fst (sweep_orders33 v tp p es ?read ?none))"
      using assms listed
      by (auto simp: cancel_stale_open_orders33_def rest_get_def split_beta Let_def note_rest_def)
    moreover obtain ws where "rx_wire (fst (sweep_orders33 v tp p es ?read ?none)) = rx_wire ?read @ ws"
      "\<forall>w \<in> set ws. \<exists>path. w = W_Delete path \<and> own_listed tp p es path"
      using sweep_orders_deletes by blast
    ultimately show ?thesis using listed by (intro exI [of _ ws]) simp
  next
    case False
    with assms have "rx_wire y = rx_wire x @ [W_Get ?path]"
      by (auto simp: cancel_stale_open_orders33_def rest_get_def split_beta Let_def note_rest_def
          split: option.splits json.splits)
    then show ?thesis by (intro exI [of _ "[]"]) simp
  qed
qed

lemma roster_prefixes_exclude:
  assumes "p \<in> {V33_COID_PREFIX, V33E_COID_PREFIX, V32_COID_PREFIX}"
    and "q \<in> {V33_COID_PREFIX, V33E_COID_PREFIX, V32_COID_PREFIX}"
    and "starts_with p c" and "starts_with q c"
  shows "p = q"
proof -
  have four: "take 4 c = take 4 p'" if "starts_with p' c" "4 \<le> length p'" for p'
    using that by (metis min.absorb1 starts_with_def take_take)
  from assms show ?thesis
    by (auto simp: V33_COID_PREFIX_def V33E_COID_PREFIX_def V32_COID_PREFIX_def dest!: four)
qed

section \<open>What the comments do not promise\<close>

text \<open>
  A take none of whose POSTs is answered with a 2xx counts no lots, so the retry buys every lot
  again under new client ids, whatever the venue did with the first orders.
\<close>

lemma unanswered_sub_batches:
  assumes "\<And>n path b. \<not> wr_ok (classify_reply (hv_post (lv_venue lv) n path b))"
    and "\<forall>b \<in> set bs. b \<noteq> []"
  shows "fst (snd (send_sub_batches lv fit bs x)) = []"
  using assms(2)
proof (induction bs arbitrary: fit x)
  case (Cons b bs)
  have "\<not> wr_ok (snd (post_orders lv (map wk_body b) z))" for z
    using post_orders_reply [of "map wk_body b" lv z] Cons.prems assms(1) by auto
  with Cons show ?case by (simp add: split_beta Let_def parsed_orders_def)
qed simp

theorem unanswered_take_counts_nothing:
  assumes "take_wings33 lv legs now x = Inr (y, evs)"
    and "distinct (map wing_key_of (pending_legs legs))"
    and "\<And>n path b. \<not> wr_ok (classify_reply (hv_post (lv_venue lv) n path b))"
  shows "taken_lots y k = taken_lots x k"
  using assms(1)
proof (cases rule: take_wings33_cases)
  case (1 x1 cs)
  then show ?thesis using minted_leg(4) [OF cut_legs_orders(1) [OF 1(1)]] by simp
next
  case (2 x1 cs x2 ps fs)
  have "ps = []"
    using unanswered_sub_batches [OF assms(3) sub_batches_permute(2), of False x1 cs x1] 2(3) by simp
  moreover have "chunk_fill [] fs = (\<lambda>c. 0)"
    by (simp add: fun_eq_iff chunk_fill_def chunk_slot_def)
  ultimately have "fills_for ps fs k cs = 0" by (simp add: fills_for_def)
  with take_adds(1) [OF assms(2) 2(1,3,4)] show ?thesis by simp
qed

text \<open>
  A batch create whose POST has no status leaves its members unrecorded: the book is unchanged and
  no unknown-outcome stand-down is latched, unlike for a single place.
\<close>

theorem batch_unknown_not_recorded:
  assumes "wr_status resp = None" and "map_of (rx_book (lx_rest x)) c = None"
    and "rx_consecutive_rejects (lx_rest x) + 1 < CONSECUTIVE_REJECT_STANDDOWN"
  shows "rx_book (lx_rest (fst (place_member resp ps now (c, a) x))) = rx_book (lx_rest x)"
    and "rx_stand_down (lx_rest (fst (place_member resp ps now (c, a) x))) = rx_stand_down (lx_rest x)"
    and "snd (place_member resp ps now (c, a) x) = [slot_cleared (Some c) now]"
  using assms
  by (simp_all add: place_member_def Let_def reject33_def inherit_def split_beta reject_place_def
      reject_clean_def wr_ok_def note_rest_def bump_def)

text \<open>The members of a batch are checked against the venue only, not against one another.\<close>

theorem batch_ignores_its_members:
  assumes "\<And>z. snd (ladder_listing lv now z) = []"
    and "\<forall>a \<in> set as. exch_of (lx_rest x) (or_default [] (a_ticker a)) \<noteq> None"
  shows "\<exists>y ms. chunk_members lv as now x = Inr (y, ms, []) \<and> map (fst \<circ> snd) ms = as"
  using assms(2)
proof (induction as arbitrary: x)
  case (Cons a as)
  let ?c = "or_default [] (a_coid a)"
  define z where "z = fst (ladder_listing lv now (x\<lparr>lx_pending_price := a_price a\<rparr>))"
  have pre: "pre_place33 lv ?c now (x\<lparr>lx_pending_price := a_price a\<rparr>) = (z, None)"
    using assms(1) by (simp add: pre_place33_def split_beta Let_def z_def)
  have "exec_le (lx_rest x) (lx_rest z)"
    unfolding z_def by (rule kept.keep_ladder_listing) simp
  then have exch: "rx_exch (lx_rest z) = rx_exch (lx_rest x)" by (simp add: exec_le_def)
  obtain e where e: "exch_of (lx_rest x) (or_default [] (a_ticker a)) = Some e" using Cons.prems by auto
  have "\<forall>b \<in> set as. exch_of (lx_rest (with_rest (note_rest ''place_rest'' None (Some ?c)) z))
      (or_default [] (a_ticker b)) \<noteq> None"
    using Cons.prems by (simp add: with_rest_def note_rest_def exch exch_of_def)
  from Cons.IH [OF this] show ?case
    by (auto simp: pre e rest_body_exact bind_r_def Let_def)
qed simp

text \<open>
  A batch create of eight with a reserve does not wait for the reserve: eight creates and the
  reserve exceed the bucket, and the refill stops at its size.
\<close>

lemma batch_create_below_reserve:
  "pc_tokens (fst (acquire (0, 1) (plain_write (8 * COST_CREATE)) (new_pacer 100 100 0 30))) = 20"
  by code_simp

end
