(* ===== verification/Spec2Isabelle.thy ===== *)
theory Spec2Isabelle
  imports V32_Properties Service_Properties Risk_Properties V33_Properties Rest_Properties
    Reconcile_Properties Ledger_Properties Ladder_Properties
begin

text \<open>
  A verification library of the trading pilot under \<open>src/pilot/service\<close>. The pilot quotes
  and takes short-dated binary contracts: pure decision cores fold market events into actions, an
  order layer turns actions into venue orders and parses the replies, a ledger books the fills, and
  falsifiers (stops, guards, arming gates) decide whether orders may be sent at all.

  \<^bold>\<open>Program and theories.\<close>

  \<^item> \<open>Prelude\<close>: types (\<open>money\<close>, \<open>time\<close>, \<open>json\<close>, \<open>dict\<close>), rounding, decimal literals,
    dictionaries; \<open>Decimal_Text\<close>: printing decimals and reading them back; \<open>Money\<close>: the fee of
    \<open>sim/census.py\<close>, the price solver and the lock value of \<open>v32/core.py\<close>.
  \<^item> \<open>Decision_Core\<close>: the contracts of a pure core as locales: an invariant, a guard on every
    action, a latch that silences, at most one fire. They are interpreted on \<open>signal.decide\<close>,
    \<open>box.decide_box\<close>, \<open>v32.core.decide_v32\<close>,
    \<open>v33.core.decide_v33\<close> and the executor.
  \<^item> \<open>Book\<close> (\<open>book.py\<close>): the order book mirror, refined to a partial-map book.
  \<^item> \<open>Policy_Read\<close>, \<open>Policy\<close> (\<open>policy.py\<close>): the frozen rosters and their fail-closed loaders.
  \<^item> \<open>Signal\<close> (\<open>signal.py\<close>) and \<open>Box\<close> (\<open>box.py\<close>): the two one-shot window strategies.
  \<^item> \<open>V32_Types\<close>, \<open>V32_Core\<close> (\<open>v32/events.py, actions.py, params.py, core.py\<close>): the resting
    spot-bucket strategy: quote context, order lifecycle, wing batches, requote gate, shadow.
    \<open>V32_Hedge\<close>, \<open>V32_Decide\<close>, \<open>V32_Allot\<close>, \<open>V32_Latch\<close>, \<open>V32_Wings\<close>, \<open>V32_Quote\<close> prove its
    invariants, \<open>V32_Properties\<close> its claims on the instances of \<open>V32_Example\<close>.
  \<^item> \<open>V33_Types\<close> (\<open>v33/params.py, actions.py, events.py\<close> and the records of \<open>v33/core.py\<close>),
    \<open>V33_Ladder\<close>, \<open>V33_Wings\<close>, \<open>V33_Print_Through\<close>, \<open>V33_Fills\<close>, \<open>V33_Core\<close> (\<open>v33/core.py\<close>): the
    resting ladder that forked from V3.2: margin array, placement, rolls, orphan fills, coalesced
    wing batches, print-through wings, convergence. \<open>V33_Frame\<close> and \<open>V33_Steps\<close> hold its frame
    lemmas; \<open>V33_Ladder_Inv\<close>, \<open>V33_Booking\<close>, \<open>V33_Events\<close> the ladder invariant; \<open>V33_Guard\<close>,
    \<open>V33_Orders\<close>, \<open>V33_Decide\<close> what every action guarantees; \<open>V33_Hedge\<close> the hedging invariant;
    \<open>V33_Checks\<close> the state's self-check; \<open>V33_Live\<close> the progress of waiting fills;
    \<open>V33_Properties\<close> its claims on the instances of \<open>V33_Example\<close>.
  \<^item> \<open>Orders\<close> (\<open>orders/translate.py, envelope.py\<close>): the wire; \<open>Ledger\<close> (\<open>ledger.py\<close>, the two
    booking amounts of \<open>pilot_ledger.py\<close> and \<open>run_window.py\<close>): positions, books, journal rebuild.
  \<^item> \<open>Executor\<close> (\<open>executor.py\<close>): the one path to the order endpoints; \<open>Reconciler\<close>
    (\<open>reconciler.py\<close>): the imbalance protocol and the positions poll; \<open>Stops\<close> and
    \<open>Stop_Controller\<close> (\<open>stops.py\<close>): falsifiers, day guard file, controller; \<open>Rebalance\<close>: the
    imbalance loop of \<open>run_window.py\<close> over the three; \<open>Arming\<close> (\<open>v32/stops.py, v33/stops.py\<close>).
  \<^item> \<open>Rest_Executor\<close> (\<open>v32/executor.py, proxy_writer.py\<close>): the maker executor that places, cancels
    and amends the rest and takes the wings over the three HTTP verbs. \<open>Rest_Retention\<close> states the
    updates it is made of as locales and interprets them; \<open>Rest_Cancel\<close>, \<open>Rest_Place\<close> and
    \<open>Rest_Wings\<close> the outcomes of its operations; \<open>Rest_Properties\<close> its claims on \<open>Rest_Example\<close>.
  \<^item> \<open>Write_Pacer\<close>, \<open>Wing_Chunks\<close>, \<open>Ladder_Executor\<close>, \<open>Ladder_Takes\<close> (\<open>v33/executor.py\<close>): the ladder's
    maker executor, a record around the V3.2 one: the write-token pacer, the cutting of a wing take
    into orders and sub-batches, the throttle belt, the pre-place check, takes, print-through,
    batch create, poll and startup sweep. \<open>Ladder_Law\<close> carries the locales of \<open>Rest_Retention\<close>
    through its operations; \<open>Ladder_Orders\<close> reads the orders of a take and the replies to them,
    \<open>Ladder_Hedge\<close> and \<open>Ladder_Runs\<close> what takes add up to over a run, \<open>Ladder_Guard\<close> the pre-place
    check and the sweep; \<open>Ladder_Properties\<close> its claims on the instances of \<open>Ladder_Example\<close>, and
    what the code's comments do not promise.
  \<^item> \<open>V33_Reconcile\<close> (\<open>v33/reconcile.py\<close>): gate E, the window's accounting against what the executor
    saw. \<open>V33_Truth\<close> gives the fold into a dictionary per order its meaning, \<open>V33_Reconciled\<close> the
    engine's; \<open>Reconcile_Properties\<close> its claims, one of them over the executor's captures.
  \<^item> \<open>Window_Ledger\<close> (\<open>v33/ledger.py, v32/ledger.py\<close>): the money of a closed window, the band of its
    pending credit, the settlement sweep. \<open>V33_Books\<close> carries through every event of the core what
    the books rest on, \<open>V33_Settlement\<close> values held legs at a settlement price, \<open>V33_Sweep\<close> reads the
    sweep; \<open>Ledger_Properties\<close> states the claims over core, ledger and arming gate together.
  \<^item> \<open>Service_Properties\<close> and \<open>Risk_Properties\<close> hold the claims of these components, on the
    instances of \<open>Service_Example\<close> and \<open>Risk_Example\<close>.

  \<^bold>\<open>State and operations.\<close> A Python dataclass is a record with a field prefix, a method or pure
  function a definition of the same name, a transition returns the next state, and a driver that
  folds events is \<open>run_core\<close> or \<open>foldl\<close>. A raise or an early return is a value: \<open>option\<close> where
  one thing can go wrong, a sum with an error datatype otherwise. Mutable objects (executor, stop
  controller) are records passed through their calls; what they append to the shared journal is a
  list in one of them.

  \<^bold>\<open>Representation choices.\<close> \<open>Decimal\<close> and \<open>float\<close> values are rationals: the code quantizes
  where it rounds, and the model rounds there (\<open>quantize_he\<close>, \<open>round_half_even\<close>,
  \<open>quantize_ceil\<close>); the precision limit of the decimal context and float rounding of timestamps are
  not modelled. Non-finite numbers and digit-group underscores read as unparseable. A \<open>dict\<close> is an
  association list in insertion order with distinct keys. Python's unbounded integers are \<open>int\<close>;
  no machine width occurs. Printed reasons are datatypes that keep the values they print, except
  where they are journaled and read back. Client order ids come from a mint function, wall-clock
  stamps and \<open>hashlib\<close> digests are arguments, the venue is a function from the number of the POST,
  the path and the built orders to a reply, and a file is its content. Locks are not modelled: the
  calls they serialize are steps of a sequence.

  \<^bold>\<open>What the lemma groups show.\<close> C1--C3, C13: the V3.2 core's quotes are safe, every fill is
  hedged once, the allotment is accounted exactly (and by how much the driver's late-fill hook,
  which is outside the event loop, departs from it), the solver is exact (its silence in shakedown and
  in a closed hour, the lock floor, the shadow, the spot scan, the wings of a fill, their cutoff and
  the difference a cancel books are further theorems of \<open>V32_Properties\<close>). C9, C12, C16: the
  maker executor sends one guarded POST per place and cancels within a bound with the venue's count
  (that it keeps its records and reports every wing leg once are further theorems of
  \<open>Rest_Properties\<close>). C5, C7, C20, C26, C30: the ladder's executor never counts more wing lots than
  were asked over any number of retries, places only with room on the venue and cancels the strays
  it finds there, sends takes that fit the bucket and the proxy's cap, reports a leg once at the
  average price of its captures (\<open>wing_ledger\<close> keeps them per leg), and its pacer keeps the
  reserve (its records and its startup sweep are further theorems of \<open>Ladder_Properties\<close>).
  C10--C11, C15, C21: gate E counts every order once at its largest source, joins both sides
  exactly, and calls an uncovered window one-legged. C14: the book refines its abstract map. C17:
  loaders refuse. C18--C19, C22: the window and box strategies fire only qualified, the window at
  most once (the box's single shot, the exact top of the book and the box's state invariant are
  further theorems of \<open>Service_Properties\<close>). C23: wire round trip. C24--C25: the ledger is rebuilt
  exactly from the journal and its books are exact up to the fraction of a winning leg's contract
  that the backfill truncates.
  C4, C8, C29, C35: the ladder window's books are exact after settlement, the floor it booked is one
  at every price, a window is settled once, and the daily-loss verdict is right about what is
  pending. C27--C28: every POST passed every check, one entry per window. C31--C32: rebalance
  rounds are bounded, the positions poll is exact. C33--C34, C36: a trip freezes and only reduces, a
  latched day stays latched, a window arms exactly when every gate passes (the completed pair under
  its ceiling, the rate budget and the exact band of the daily-loss verdict are further theorems of
  \<open>Risk_Properties\<close>). C6, C37--C40: the V3.3 ladder's orders are guarded, its state is well formed,
  with print-through off every fill is hedged once (the live policy file has it off), a closed hour
  places nothing, and a waiting fill gets its wings on the next tick that can price one.

  \<^bold>\<open>Bounds.\<close> The only fuel is \<open>MAX_REBALANCE_STEPS\<close>, the code's own step cap; C31 shows when it
  cannot be what ends a run. The polls and retries of a cancel recurse over the code's own counts.
  Every other loop of the code is a structural recursion or, for the price solver and the cutting of
  a take into sub-batches, a function with a measure.

  \<^bold>\<open>Not modelled.\<close> The V3.3 report helper; the asynchronous
  executor and writers of V3.3, drivers and services (HTTP, websockets, threads, process supervision
  around the modelled cores); recorders, reports and the files of the ledgers; the quintile table's laws,
  which come from the simulation package; research code under \<open>sim\<close> and operator tools.
\<close>

end
